(* ===== verification/Prelude.thy ===== *)
theory Prelude
  imports Complex_Main "HOL-Library.Word" "HOL-Library.Sublist"
begin

text \<open>
  Shared vocabulary of the development: the machine-integer bounds of the C code (\<open>size_t\<close> as
  \<open>nat\<close> with its maximum written out, \<open>int\<close> and \<open>long\<close> as \<open>int\<close> with the conversions that wrap or
  saturate), the two traversals that the C code writes as loops over linked lists (update the
  first matching node, unlink the first matching node), the truncation that \<open>snprintf\<close> and
  \<open>strncpy\<close> perform, and the theorem collections that the component proofs use.
\<close>

named_theorems c_defs \<open>definitions of C library functions and small helpers\<close>
named_theorems inv_defs \<open>well-formedness invariants\<close>
named_theorems op_defs \<open>definitions of the operations of the components\<close>

section \<open>Machine integers\<close>

definition SIZE_MAX :: nat where
  "SIZE_MAX = 2 ^ 64 - 1"

definition INT_MAX :: int where
  "INT_MAX = 2 ^ 31 - 1"

definition INT_MIN :: int where
  "INT_MIN = - (2 ^ 31)"

definition LONG_MAX :: int where
  "LONG_MAX = 2 ^ 63 - 1"

definition LONG_MIN :: int where
  "LONG_MIN = - (2 ^ 63)"

lemmas limit_defs = SIZE_MAX_def INT_MAX_def INT_MIN_def LONG_MAX_def LONG_MIN_def

text \<open>Conversion of a wider integer to a 32-bit \<open>int\<close>: two's complement truncation.\<close>

definition to_int32 :: "int \<Rightarrow> int" where
  "to_int32 x = (x + 2 ^ 31) mod 2 ^ 32 - 2 ^ 31"

text \<open>The clamping of \<open>strtol\<close> to the range of \<open>long\<close>.\<close>

definition sat_long :: "int \<Rightarrow> int" where
  "sat_long x = max LONG_MIN (min LONG_MAX x)"

lemma to_int32_range: "INT_MIN \<le> to_int32 x \<and> to_int32 x \<le> INT_MAX"
proof -
  have "0 \<le> (x + 2 ^ 31) mod 2 ^ 32" and "(x + 2 ^ 31) mod 2 ^ 32 < (2 :: int) ^ 32"
    by simp_all
  then show ?thesis by (simp add: to_int32_def INT_MIN_def INT_MAX_def)
qed

lemma to_int32_id: "INT_MIN \<le> x \<Longrightarrow> x \<le> INT_MAX \<Longrightarrow> to_int32 x = x"
  by (simp add: to_int32_def INT_MIN_def INT_MAX_def)

lemma sat_long_id: "LONG_MIN \<le> x \<Longrightarrow> x \<le> LONG_MAX \<Longrightarrow> sat_long x = x"
  by (simp add: sat_long_def)

section \<open>Loops over linked lists\<close>

text \<open>
  \<^verbatim>\<open>while (current) { if (P(current)) { F(current); break; } current = current->next; }\<close>
\<close>

primrec update_first :: "('a \<Rightarrow> bool) \<Rightarrow> ('a \<Rightarrow> 'a) \<Rightarrow> 'a list \<Rightarrow> 'a list" where
  "update_first P f [] = []"
| "update_first P f (x # xs) = (if P x then f x # xs else x # update_first P f xs)"

text \<open>
  \<^verbatim>\<open>while (current) { if (P(current)) { unlink(current); break; } prev = current; ... }\<close>
\<close>

primrec remove_first :: "('a \<Rightarrow> bool) \<Rightarrow> 'a list \<Rightarrow> 'a list" where
  "remove_first P [] = []"
| "remove_first P (x # xs) = (if P x then xs else x # remove_first P xs)"

lemma length_update_first [simp]: "length (update_first P f xs) = length xs"
  by (induction xs) auto

lemma update_first_no_match: "(\<And>x. x \<in> set xs \<Longrightarrow> \<not> P x) \<Longrightarrow> update_first P f xs = xs"
  by (induction xs) auto

lemma remove_first_no_match: "(\<And>x. x \<in> set xs \<Longrightarrow> \<not> P x) \<Longrightarrow> remove_first P xs = xs"
  by (induction xs) auto

lemma find_update_first_same:
  assumes "\<And>x. P (f x) = P x"
  shows "find P (update_first P f xs) = map_option f (find P xs)"
  using assms by (induction xs) auto

lemma find_update_first_other:
  assumes "\<And>x. Q (f x) = Q x" and "\<And>x. P x \<Longrightarrow> \<not> Q x"
  shows "find Q (update_first P f xs) = find Q xs"
  using assms by (induction xs) auto

lemma map_update_first_inv:
  assumes "\<And>x. g (f x) = g x"
  shows "map g (update_first P f xs) = map g xs"
  using assms by (induction xs) auto

lemma set_update_first_subset: "set (update_first P f xs) \<subseteq> set xs \<union> f ` set xs"
  by (induction xs) auto

lemma set_remove_first_subset: "set (remove_first P xs) \<subseteq> set xs"
  by (induction xs) auto

lemma remove_first_unlink:
  "find P xs = Some x \<Longrightarrow>
   \<exists>as bs. xs = as @ x # bs \<and> P x \<and> (\<forall>a \<in> set as. \<not> P a) \<and> remove_first P xs = as @ bs"
proof (induction xs)
  case Nil
  then show ?case by simp
next
  case (Cons y ys)
  show ?case
  proof (cases "P y")
    case True
    with Cons.prems show ?thesis by (intro exI [of _ "[]"] exI [of _ ys]) simp
  next
    case False
    with Cons.prems Cons.IH obtain as bs where "ys = as @ x # bs" "P x" "\<forall>a \<in> set as. \<not> P a"
      "remove_first P ys = as @ bs" by auto
    with False show ?thesis by (intro exI [of _ "y # as"] exI [of _ bs]) simp
  qed
qed

lemma remove_first_distinct_filter:
  "distinct (map g xs) \<Longrightarrow> remove_first (\<lambda>x. g x = k) xs = filter (\<lambda>x. g x \<noteq> k) xs"
proof (induction xs)
  case Nil
  then show ?case by simp
next
  case (Cons y ys)
  show ?case
  proof (cases "g y = k")
    case True
    with Cons.prems have "\<forall>x \<in> set ys. g x \<noteq> k" by (metis distinct.simps(2) image_eqI list.simps(9) list.set_map)
    then have "filter (\<lambda>x. g x \<noteq> k) ys = ys" by (simp add: filter_id_conv)
    with True show ?thesis by simp
  next
    case False
    with Cons show ?thesis by simp
  qed
qed

lemma distinct_map_remove_first: "distinct (map g xs) \<Longrightarrow> distinct (map g (remove_first P xs))"
  by (induction xs) (auto dest: set_remove_first_subset [THEN subsetD])

lemma find_None_all: "find P xs = None \<Longrightarrow> x \<in> set xs \<Longrightarrow> \<not> P x"
  by (auto simp: find_None_iff)

section \<open>Bounded copies\<close>

text \<open>
  \<open>snprintf (buf, n, \<dots>)\<close>, and \<open>strncpy (buf, s, n - 1)\<close> followed by \<open>buf[n - 1] = 0\<close>, keep the
  first \<open>n - 1\<close> bytes of the text.
\<close>

definition c_trunc :: "nat \<Rightarrow> 'a list \<Rightarrow> 'a list" where
  "c_trunc n s = take (n - 1) s"

lemma length_c_trunc: "0 < n \<Longrightarrow> length (c_trunc n s) < n"
  by (auto simp: c_trunc_def)

lemma c_trunc_fits [simp]: "length s < n \<Longrightarrow> c_trunc n s = s"
  by (simp add: c_trunc_def)

lemma c_trunc_idem [simp]: "c_trunc n (c_trunc n s) = c_trunc n s"
  by (simp add: c_trunc_def)

lemma c_trunc_prefix: "prefix (c_trunc n s) s"
  by (simp add: c_trunc_def take_is_prefix)

end
