(* ===== verification/CLib.thy ===== *)
theory CLib
  imports Prelude
begin

text \<open>
  The functions of the C library that the sources call, on NUL-terminated strings. A C string is
  the list of its bytes without the terminator; a pointer into a string is the suffix it points
  to, so that pointer differences are differences of lengths and the byte 0 is the end of the
  list. A possibly null pointer is an \<open>option\<close>. Character classes are those of the "C" locale.
\<close>

abbreviation code :: "char \<Rightarrow> nat" where
  "code c \<equiv> of_char c"

section \<open>Character classes\<close>

definition isspace :: "char \<Rightarrow> bool" where
  "isspace c = (code c = 32 \<or> (9 \<le> code c \<and> code c \<le> 13))"

definition isdigit :: "char \<Rightarrow> bool" where
  "isdigit c = (48 \<le> code c \<and> code c \<le> 57)"

definition isupper :: "char \<Rightarrow> bool" where
  "isupper c = (65 \<le> code c \<and> code c \<le> 90)"

definition islower :: "char \<Rightarrow> bool" where
  "islower c = (97 \<le> code c \<and> code c \<le> 122)"

definition isalnum :: "char \<Rightarrow> bool" where
  "isalnum c = (isdigit c \<or> isupper c \<or> islower c)"

definition tolower :: "char \<Rightarrow> char" where
  "tolower c = (if isupper c then char_of (code c + 32) else c)"

lemmas ctype_defs [c_defs] =
  isspace_def isdigit_def isupper_def islower_def isalnum_def tolower_def

lemma code_tolower: "isupper c \<Longrightarrow> code (tolower c) = code c + 32"
  by (simp add: tolower_def isupper_def of_char_of)

lemma tolower_not_upper: "\<not> isupper (tolower c)"
  by (cases "isupper c") (auto simp: isupper_def tolower_def of_char_of)

lemma tolower_idem [simp]: "tolower (tolower c) = tolower c"
  using tolower_not_upper [of c] by (simp add: tolower_def)

lemma isalnum_tolower: "isalnum (tolower c) = isalnum c"
  by (auto simp: isalnum_def tolower_def isupper_def islower_def isdigit_def of_char_of)

section \<open>Searching\<close>

text \<open>\<open>strncmp (s, p, strlen (p)) == 0\<close>\<close>

definition starts_with :: "string \<Rightarrow> string \<Rightarrow> bool" where
  "starts_with p s = (take (length p) s = p)"

lemma starts_with_prefix: "starts_with p s = prefix p s"
  by (metis starts_with_def append_eq_conv_conj prefix_def)

text \<open>\<open>strchr\<close>, \<open>strrchr\<close> and \<open>strstr\<close> return the suffix at the match.\<close>

fun strchr :: "string \<Rightarrow> char \<Rightarrow> string option" where
  "strchr [] c = None"
| "strchr (x # xs) c = (if x = c then Some (x # xs) else strchr xs c)"

fun strrchr :: "string \<Rightarrow> char \<Rightarrow> string option" where
  "strrchr [] c = None"
| "strrchr (x # xs) c =
     (case strrchr xs c of Some r \<Rightarrow> Some r | None \<Rightarrow> if x = c then Some (x # xs) else None)"

fun strstr :: "string \<Rightarrow> string \<Rightarrow> string option" where
  "strstr [] p = (if p = [] then Some [] else None)"
| "strstr (x # xs) p = (if starts_with p (x # xs) then Some (x # xs) else strstr xs p)"

lemma strchr_Some: "strchr s c = Some t \<Longrightarrow> \<exists>u r. s = u @ t \<and> t = c # r \<and> c \<notin> set u"
proof (induction s)
  case Nil
  then show ?case by simp
next
  case (Cons x xs)
  show ?case
  proof (cases "x = c")
    case True
    with Cons.prems show ?thesis by (intro exI [of _ "[]"] exI [of _ xs]) simp
  next
    case False
    with Cons obtain u r where "xs = u @ t" "t = c # r" "c \<notin> set u" by auto
    with False show ?thesis by (intro exI [of _ "x # u"] exI [of _ r]) simp
  qed
qed

lemma strchr_None: "strchr s c = None \<longleftrightarrow> c \<notin> set s"
  by (induction s) auto

lemma strrchr_None: "strrchr s c = None \<longleftrightarrow> c \<notin> set s"
  by (induction s) (auto split: option.splits)

lemma strrchr_Some: "strrchr s c = Some t \<Longrightarrow> \<exists>u r. s = u @ t \<and> t = c # r \<and> c \<notin> set r"
proof (induction s)
  case Nil
  then show ?case by simp
next
  case (Cons x xs)
  show ?case
  proof (cases "strrchr xs c")
    case None
    with Cons.prems show ?thesis
      by (intro exI [of _ "[]"] exI [of _ xs]) (auto simp: strrchr_None split: if_splits)
  next
    case (Some r')
    with Cons obtain u r where "xs = u @ t" "t = c # r" "c \<notin> set r" by auto
    then show ?thesis by (intro exI [of _ "x # u"] exI [of _ r]) simp
  qed
qed

lemma strstr_Some: "strstr s p = Some t \<Longrightarrow> prefix p t \<and> suffix t s"
  by (induction s) (auto simp: starts_with_prefix suffix_Cons split: if_splits)

lemma strstr_first:
  "strstr s p = Some t \<Longrightarrow> suffix u s \<Longrightarrow> prefix p u \<Longrightarrow> length u \<le> length t"
proof (induction s)
  case Nil
  then show ?case by (auto split: if_splits)
next
  case (Cons x xs)
  show ?case
  proof (cases "starts_with p (x # xs)")
    case True
    with Cons.prems show ?thesis by (auto dest: suffix_length_le)
  next
    case False
    with Cons.prems have "u \<noteq> x # xs" by (auto simp: starts_with_prefix)
    with Cons.prems have "suffix u xs" by (auto simp: suffix_Cons)
    with Cons.prems Cons.IH False show ?thesis by simp
  qed
qed

lemma strstr_None: "strstr s p = None \<longleftrightarrow> \<not> sublist p s"
proof (induction s)
  case Nil
  then show ?case by simp
next
  case (Cons x xs)
  then show ?case by (auto simp: sublist_Cons_right starts_with_prefix)
qed

section \<open>Trimming and tokens\<close>

definition skip_space :: "string \<Rightarrow> string" where
  "skip_space = dropWhile isspace"

text \<open>Cutting trailing white space: \<open>while (len > 0 && isspace (s[len - 1])) len--;\<close>\<close>

definition rtrim_by :: "(char \<Rightarrow> bool) \<Rightarrow> string \<Rightarrow> string" where
  "rtrim_by P s = rev (dropWhile P (rev s))"

lemma skip_space_idem [simp]: "skip_space (skip_space s) = skip_space s"
  by (simp add: skip_space_def)

lemma length_skip_space: "length (skip_space s) \<le> length s"
  by (simp add: skip_space_def length_dropWhile_le)

lemma rtrim_by_suffix: "\<exists>r. s = rtrim_by P s @ r \<and> (\<forall>c \<in> set r. P c)"
proof -
  have "rev s = takeWhile P (rev s) @ dropWhile P (rev s)" by simp
  then have "s = rtrim_by P s @ rev (takeWhile P (rev s))"
    unfolding rtrim_by_def by (metis rev_append rev_rev_ident)
  moreover have "\<forall>c \<in> set (rev (takeWhile P (rev s))). P c"
    by (auto dest: set_takeWhileD)
  ultimately show ?thesis by blast
qed

lemma rtrim_by_last: "rtrim_by P s \<noteq> [] \<Longrightarrow> \<not> P (last (rtrim_by P s))"
  by (metis rtrim_by_def hd_dropWhile last_rev rev_is_Nil_conv)

lemma rtrim_by_hd: "rtrim_by P s \<noteq> [] \<Longrightarrow> hd (rtrim_by P s) = hd s"
  using rtrim_by_suffix [of s P] by (metis hd_append2)

text \<open>The tokens that successive calls of \<open>strtok_r\<close> with one delimiter byte return.\<close>

function strtok :: "char \<Rightarrow> string \<Rightarrow> string list" where
  "strtok d s =
     (case dropWhile (\<lambda>c. c = d) s of
        [] \<Rightarrow> []
      | c # cs \<Rightarrow> takeWhile (\<lambda>c. c \<noteq> d) (c # cs) # strtok d (dropWhile (\<lambda>c. c \<noteq> d) (c # cs)))"
  by pat_completeness auto
termination
proof (relation "measure (length \<circ> snd)", goal_cases)
  case 1
  show ?case by simp
next
  case (2 d s c cs)
  have "length (dropWhile (\<lambda>c. c = d) s) \<le> length s" by (rule length_dropWhile_le)
  moreover have "c \<noteq> d" using 2 by (simp add: dropWhile_eq_Cons_conv)
  moreover have "length (dropWhile (\<lambda>c. c \<noteq> d) cs) \<le> length cs" by (rule length_dropWhile_le)
  ultimately show ?case using 2 by simp
qed

declare strtok.simps [simp del]

lemma strtok_nonempty: "t \<in> set (strtok d s) \<Longrightarrow> t \<noteq> [] \<and> d \<notin> set t"
proof (induction d s rule: strtok.induct)
  case (1 d s)
  show ?case
  proof (cases "dropWhile (\<lambda>c. c = d) s")
    case Nil
    with 1 show ?thesis by (simp add: strtok.simps [of d s])
  next
    case (Cons c cs)
    then have "c \<noteq> d" by (auto simp: dropWhile_eq_Cons_conv)
    with 1 Cons show ?thesis
      by (auto simp: strtok.simps [of d s] dest: set_takeWhileD)
  qed
qed

section \<open>Numbers\<close>

definition digit_val :: "char \<Rightarrow> int" where
  "digit_val c = int (code c) - 48"

fun parse_digits :: "int \<Rightarrow> string \<Rightarrow> int \<times> string" where
  "parse_digits acc [] = (acc, [])"
| "parse_digits acc (c # cs) =
     (if isdigit c then parse_digits (10 * acc + digit_val c) cs else (acc, c # cs))"

text \<open>
  \<open>strtol (s, &end, 10)\<close>: the value, clamped to \<open>long\<close>, and the suffix \<open>end\<close>; without digits the
  value is 0 and \<open>end\<close> is \<open>s\<close> itself.
\<close>

definition strtol :: "string \<Rightarrow> int \<times> string" where
  "strtol s =
     (let t = skip_space s;
          neg = starts_with ''-'' t;
          u = (if neg \<or> starts_with ''+'' t then tl t else t)
      in if u \<noteq> [] \<and> isdigit (hd u)
         then (let (v, r) = parse_digits 0 u in (sat_long (if neg then - v else v), r))
         else (0, s))"

text \<open>\<open>atol\<close> and \<open>atoi\<close>; the latter converts the \<open>long\<close> to \<open>int\<close>.\<close>

definition atol :: "string \<Rightarrow> int" where
  "atol s = fst (strtol s)"

definition atoi :: "string \<Rightarrow> int" where
  "atoi s = to_int32 (fst (strtol s))"

lemma atoi_range: "INT_MIN \<le> atoi s \<and> atoi s \<le> INT_MAX"
  unfolding atoi_def by (rule to_int32_range)

lemma parse_digits_nonneg: "0 \<le> acc \<Longrightarrow> 0 \<le> fst (parse_digits acc s)"
  by (induction acc s rule: parse_digits.induct) (auto simp: digit_val_def isdigit_def)

lemma parse_digits_rest: "\<exists>u. s = u @ snd (parse_digits acc s) \<and> (\<forall>c \<in> set u. isdigit c)"
proof (induction acc s rule: parse_digits.induct)
  case (1 acc)
  then show ?case by simp
next
  case (2 acc c cs)
  show ?case
  proof (cases "isdigit c")
    case True
    with 2 obtain u where "cs = u @ snd (parse_digits (10 * acc + digit_val c) cs)"
      "\<forall>c \<in> set u. isdigit c" by blast
    with True show ?thesis by (intro exI [of _ "c # u"]) auto
  next
    case False
    then show ?thesis by simp
  qed
qed

lemma length_strtol_rest: "length (snd (strtol s)) \<le> length s"
proof -
  have *: "length (snd (parse_digits acc u)) \<le> length u" for acc u
    using parse_digits_rest [of u acc] by (metis length_append le_add2)
  have "length (snd (parse_digits 0 (skip_space s))) \<le> length s"
    using * length_skip_space le_trans by blast
  moreover have "length (snd (parse_digits 0 (tl (skip_space s)))) \<le> length s"
    using * [of 0 "tl (skip_space s)"] length_skip_space [of s] by simp
  ultimately show ?thesis by (auto simp: strtol_def Let_def split: prod.splits)
qed

lemma strtol_digit_progress:
  "isdigit c \<Longrightarrow> length (snd (strtol (c # cs))) < length (c # cs)"
proof -
  assume d: "isdigit c"
  then have ns: "\<not> isspace c" by (auto simp: isdigit_def isspace_def)
  from d have "c \<noteq> CHR ''-''" "c \<noteq> CHR ''+''" by (auto simp: isdigit_def)
  with d ns have "snd (strtol (c # cs)) = snd (parse_digits (digit_val c) cs)"
    by (simp add: strtol_def skip_space_def starts_with_def split: prod.splits)
  moreover have "length (snd (parse_digits (digit_val c) cs)) \<le> length cs"
    using parse_digits_rest [of cs "digit_val c"] by (metis length_append le_add2)
  ultimately show ?thesis by simp
qed

text \<open>Decimal output of \<open>%d\<close> and \<open>%ld\<close>.\<close>

fun nat_digits :: "nat \<Rightarrow> string" where
  "nat_digits n =
     (if n < 10 then [char_of (48 + n)] else nat_digits (n div 10) @ [char_of (48 + n mod 10)])"

declare nat_digits.simps [simp del]

definition show_int :: "int \<Rightarrow> string" where
  "show_int i = (if i < 0 then CHR ''-'' # nat_digits (nat (- i)) else nat_digits (nat i))"

text \<open>Reading back what \<open>%d\<close> prints.\<close>

lemma code_char_digit: "n < 10 \<Longrightarrow> code (char_of (48 + n)) = 48 + n"
  by (simp add: take_bit_nat_eq_self)

lemma isdigit_nat_digits: "c \<in> set (nat_digits n) \<Longrightarrow> isdigit c"
proof (induction n rule: nat_digits.induct)
  case (1 n)
  have d: "isdigit (char_of (48 + m))" if "m < 10" for m :: nat
    using code_char_digit [OF that] that by (simp add: isdigit_def)
  show ?case
  proof (cases "n < 10")
    case True
    with 1 d [of n] show ?thesis by (simp add: nat_digits.simps [of n])
  next
    case False
    with 1 d [of "n mod 10"] show ?thesis by (auto simp: nat_digits.simps [of n])
  qed
qed

lemma nat_digits_nonempty [simp]: "nat_digits n \<noteq> []"
  by (simp add: nat_digits.simps [of n])

lemma parse_digits_nat_digits:
  "parse_digits acc (nat_digits n @ r) = parse_digits (acc * 10 ^ length (nat_digits n) + int n) r"
proof (induction n arbitrary: acc r rule: nat_digits.induct)
  case (1 n)
  have d: "parse_digits a (char_of (48 + m) # r) = parse_digits (10 * a + int m) r" if "m < 10" for a m r
    using code_char_digit [OF that] that by (simp add: isdigit_def digit_val_def)
  show ?case
  proof (cases "n < 10")
    case True
    with d [of n] show ?thesis by (simp add: nat_digits.simps [of n] mult.commute)
  next
    case False
    have "10 * int (n div 10) + int (n mod 10) = int n" by (metis mult_div_mod_eq of_nat_add of_nat_mult of_nat_numeral)
    then have sum: "10 * (a + int (n div 10)) + int (n mod 10) = 10 * a + int n" for a
      by (simp add: algebra_simps)
    have "parse_digits acc (nat_digits n @ r)
        = parse_digits (acc * 10 ^ length (nat_digits (n div 10)) + int (n div 10)) (char_of (48 + n mod 10) # r)"
      using False 1 by (simp add: nat_digits.simps [of n])
    also have "\<dots> = parse_digits (10 * (acc * 10 ^ length (nat_digits (n div 10)) + int (n div 10)) + int (n mod 10)) r"
      by (rule d) simp
    also have "\<dots> = parse_digits (10 * (acc * 10 ^ length (nat_digits (n div 10))) + int n) r"
      by (simp only: sum)
    finally show ?thesis using False by (simp add: nat_digits.simps [of n] mult.left_commute)
  qed
qed

lemma strtol_nat_digits:
  assumes "int n \<le> LONG_MAX" and "r = [] \<or> \<not> isdigit (hd r)"
  shows "strtol (nat_digits n @ r) = (int n, r)"
proof -
  obtain c cs where cs: "nat_digits n = c # cs" by (cases "nat_digits n") auto
  have c: "isdigit c" using isdigit_nat_digits [of c n] cs by simp
  then have "\<not> isspace c" "c \<noteq> CHR ''-''" "c \<noteq> CHR ''+''" by (auto simp: isdigit_def isspace_def)
  moreover have "parse_digits a r = (a, r)" for a using assms(2) by (cases r) auto
  then have "parse_digits 0 (c # cs @ r) = (int n, r)"
    using parse_digits_nat_digits [of 0 n r] by (simp add: cs)
  moreover have "sat_long (int n) = int n" using assms(1) by (intro sat_long_id) (auto simp: LONG_MIN_def)
  ultimately show ?thesis using c by (simp add: strtol_def skip_space_def starts_with_def cs)
qed

lemma atoi_nat_digits:
  assumes "int n \<le> INT_MAX" and "r = [] \<or> \<not> isdigit (hd r)"
  shows "atoi (nat_digits n @ r) = int n"
proof -
  have "int n \<le> LONG_MAX" using assms(1) by (simp add: limit_defs)
  moreover have "to_int32 (int n) = int n" using assms(1) by (intro to_int32_id) (auto simp: INT_MIN_def)
  ultimately show ?thesis using assms(2) by (simp add: atoi_def strtol_nat_digits)
qed

lemmas atoi_nat_digits_end = atoi_nat_digits [where r = "[]", simplified]

lemma strchr_append:
  "c \<notin> set a \<Longrightarrow> strchr (a @ b) c = strchr b c"
  by (induction a) auto

lemma strtok_append:
  assumes "d \<notin> set a" and "a \<noteq> []"
  shows "strtok d (a @ d # s) = a # strtok d s" and "strtok d a = [a]"
proof -
  obtain x xs where a: "a = x # xs" "x \<noteq> d" using assms by (cases a) auto
  have w: "takeWhile (\<lambda>c. c \<noteq> d) (a @ d # s) = a" "dropWhile (\<lambda>c. c \<noteq> d) (a @ d # s) = d # s"
    "takeWhile (\<lambda>c. c \<noteq> d) a = a" "dropWhile (\<lambda>c. c \<noteq> d) a = []"
    using assms(1) by (induction a) auto
  have "strtok d (d # s) = strtok d s" by (subst (1 2) strtok.simps) simp
  then show "strtok d (a @ d # s) = a # strtok d s"
    using a w by (subst strtok.simps) simp
  have e: "strtok d [] = []" by (subst strtok.simps) simp
  have t: "dropWhile (\<lambda>c. c \<noteq> d) xs = []" "takeWhile (\<lambda>c. c \<noteq> d) xs = xs"
    using assms(1) a by (auto simp: takeWhile_eq_all_conv)
  show "strtok d a = [a]" using a(2) by (subst strtok.simps) (simp add: a(1) t e)
qed

text \<open>\<open>strcasecmp (a, b) == 0\<close>\<close>

definition strcaseeq :: "string \<Rightarrow> string \<Rightarrow> bool" where
  "strcaseeq a b = (map tolower a = map tolower b)"

lemma strcaseeq_refl [simp]: "strcaseeq a a"
  by (simp add: strcaseeq_def)

lemma strcaseeq_sym: "strcaseeq a b \<Longrightarrow> strcaseeq b a"
  by (simp add: strcaseeq_def)

section \<open>Conversions of \<open>sscanf\<close>\<close>

text \<open>
  One \<open>%Ns\<close> conversion: skip white space, take at most \<open>N\<close> non-space bytes; \<open>None\<close> when there is
  none left. One \<open>%d\<close> conversion: as \<open>strtol\<close>, converted to \<open>int\<close>; \<open>None\<close> on a matching failure.
\<close>

definition scan_s :: "nat \<Rightarrow> string \<Rightarrow> (string \<times> string) option" where
  "scan_s n s =
     (let t = skip_space s; w = take n (takeWhile (\<lambda>c. \<not> isspace c) t)
      in if w = [] then None else Some (w, drop (length w) t))"

definition scan_d :: "string \<Rightarrow> (int \<times> string) option" where
  "scan_d s =
     (let (v, r) = strtol s in if length r < length (skip_space s) then Some (to_int32 v, r) else None)"

text \<open>Repeated \<open>%Ns\<close> conversions; the list ends at the first one that fails.\<close>

primrec scan_words :: "nat \<Rightarrow> nat \<Rightarrow> string \<Rightarrow> string list" where
  "scan_words n 0 s = []"
| "scan_words n (Suc k) s =
     (case scan_s n s of None \<Rightarrow> [] | Some (w, r) \<Rightarrow> w # scan_words n k r)"

lemma scan_s_props:
  "scan_s n s = Some (w, r) \<Longrightarrow> w \<noteq> [] \<and> length w \<le> n \<and> (\<forall>c \<in> set w. \<not> isspace c)"
  by (auto simp: scan_s_def Let_def split: if_splits dest!: in_set_takeD dest: set_takeWhileD)

lemma scan_words_props:
  "w \<in> set (scan_words n k s) \<Longrightarrow> w \<noteq> [] \<and> length w \<le> n \<and> (\<forall>c \<in> set w. \<not> isspace c)"
proof (induction k arbitrary: s)
  case 0
  then show ?case by simp
next
  case (Suc k)
  show ?case
  proof (cases "scan_s n s")
    case None
    with Suc.prems show ?thesis by simp
  next
    case (Some wr)
    then obtain v r where v: "scan_s n s = Some (v, r)" by (cases wr) simp
    with Suc.prems have "w = v \<or> w \<in> set (scan_words n k r)" by simp
    with v Suc.IH scan_s_props show ?thesis by blast
  qed
qed

lemma length_scan_words: "length (scan_words n k s) \<le> k"
  by (induction k arbitrary: s) (auto split: option.splits)

end
