(* ===== verification/Common.thy ===== *)
theory Common
  imports CLib
begin

text \<open>
  \<open>src/src/common/common.c\<close> and \<open>src/src/include/common.h\<close>: the growable \<open>String\<close> with its byte
  buffer, the growable arrays \<open>StringArray\<close> and \<open>DynamicArray\<close>, and \<open>Error\<close> values. Allocation can
  fail: \<open>malloc\<close> and \<open>realloc\<close> are parameters that return the bytes of the new block or nothing.
  The contract that the growable arrays share is the locale \<open>growable\<close>; the buffer-level \<open>String\<close>
  is related to the abstract text it holds, which is what the other theories compute with.
\<close>

section \<open>Allocation\<close>

text \<open>
  An allocator maps a request in bytes to the (arbitrary) contents of the block it returns, or to
  \<open>None\<close>. A block has the size that was asked for.
\<close>

type_synonym allocator = "nat \<Rightarrow> char list option"

definition wf_alloc :: "allocator \<Rightarrow> bool" where
  "wf_alloc al = (\<forall>n b. al n = Some b \<longrightarrow> length b = n)"

abbreviation NUL :: char where
  "NUL \<equiv> CHR 0x00"

section \<open>String\<close>

record String =
  s_data :: "char list option"
  s_len :: nat
  s_capacity :: nat

definition string_new :: "allocator \<Rightarrow> string option \<Rightarrow> String" where
  "string_new malloc str =
     (case str of
        None \<Rightarrow>
          \<lparr>s_data = (case malloc 16 of None \<Rightarrow> None | Some b \<Rightarrow> Some (b[0 := NUL])),
           s_len = 0, s_capacity = 16\<rparr>
      | Some str \<Rightarrow>
          (let len = length str; cap = max 16 (len + 1) in
           case malloc cap of
             None \<Rightarrow> \<lparr>s_data = None, s_len = 0, s_capacity = 0\<rparr>
           | Some b \<Rightarrow> \<lparr>s_data = Some (str @ NUL # drop (len + 1) b), s_len = len, s_capacity = cap\<rparr>))"

definition string_free :: "String \<Rightarrow> String" where
  "string_free s =
     (if s_data s = None then s else \<lparr>s_data = None, s_len = 0, s_capacity = 0\<rparr>)"

text \<open>The text that the buffer holds, as \<open>strlen\<close>, \<open>strcmp\<close> and \<open>strcpy\<close> read it.\<close>

definition text_of :: "String \<Rightarrow> string" where
  "text_of s = (case s_data s of None \<Rightarrow> [] | Some d \<Rightarrow> takeWhile (\<lambda>c. c \<noteq> NUL) d)"

definition string_copy :: "allocator \<Rightarrow> String \<Rightarrow> String" where
  "string_copy malloc s =
     (case s_data s of
        None \<Rightarrow> string_new malloc None
      | Some d \<Rightarrow> string_new malloc (Some (takeWhile (\<lambda>c. c \<noteq> NUL) d)))"

text \<open>
  The capacity loop of \<open>string_append\<close>: doubling in \<open>size_t\<close>, at least 16. The doubling can wrap, so
  the loop need not end; \<open>None\<close> is the run that does not.
\<close>

partial_function (option) grow_capacity :: "nat \<Rightarrow> nat \<Rightarrow> nat option" where
  "grow_capacity need cap =
     (if cap < need
      then (let c = (cap * 2) mod (SIZE_MAX + 1) in grow_capacity need (if c < 16 then 16 else c))
      else Some cap)"

definition append_copy :: "String \<Rightarrow> string \<Rightarrow> String" where
  "append_copy s str =
     (case s_data s of
        None \<Rightarrow> s
      | Some d \<Rightarrow>
          s\<lparr>s_data := Some (take (s_len s) d @ str @ NUL # drop (s_len s + length str + 1) d),
            s_len := s_len s + length str\<rparr>)"

text \<open>
  \<open>string_append\<close> returns the new string and the buffer, if any, that the string pointed to and that
  was neither freed nor kept; the outer \<open>None\<close> is the capacity loop that never ends. The two
  allocators are the \<open>realloc\<close> and the \<open>malloc\<close> of the call.
\<close>

definition string_append ::
  "allocator \<Rightarrow> allocator \<Rightarrow> String \<Rightarrow> string option \<Rightarrow> (String \<times> char list option) option" where
  "string_append realloc malloc s str =
     (case str of
        None \<Rightarrow> Some (s, None)
      | Some str \<Rightarrow>
          (if length str > SIZE_MAX - s_len s - 1 then Some (s, None)
           else (let new_len = s_len s + length str in
             if new_len + 1 > s_capacity s then
               (case grow_capacity (new_len + 1) (if s_capacity s > 0 then s_capacity s else 16) of
                  None \<Rightarrow> None
                | Some new_cap \<Rightarrow>
                    (if s_data s = None \<or> s_len s = 0 then
                       (case malloc new_cap of
                          None \<Rightarrow> Some (s, None)
                        | Some b \<Rightarrow>
                            Some (append_copy (s\<lparr>s_data := Some b, s_capacity := new_cap\<rparr>) str,
                                  s_data s))
                     else
                       (let d = the (s_data s) in
                        case realloc new_cap of
                          Some b \<Rightarrow>
                            Some (append_copy
                                    (s\<lparr>s_data := Some (take (s_capacity s) d @ drop (s_capacity s) b),
                                       s_capacity := new_cap\<rparr>) str, None)
                        | None \<Rightarrow>
                            (case malloc new_cap of
                               None \<Rightarrow> Some (s, None)
                             | Some b \<Rightarrow>
                                 Some (append_copy
                                   (s\<lparr>s_data := Some (take (s_len s) d @ NUL # drop (s_len s + 1) b),
                                      s_capacity := new_cap\<rparr>) str, None)))))
             else Some (append_copy s str, None))))"

definition string_equals :: "String \<Rightarrow> String \<Rightarrow> bool" where
  "string_equals a b =
     (if s_data a = None \<and> s_data b = None then True
      else if s_data a = None \<or> s_data b = None then False
      else text_of a = text_of b)"

lemmas string_op_defs [op_defs] =
  string_new_def string_free_def string_copy_def append_copy_def string_append_def string_equals_def

subsection \<open>Well-formed strings\<close>

definition wf_string :: "String \<Rightarrow> bool" where
  "wf_string s =
     (case s_data s of
        None \<Rightarrow> s_len s = 0
      | Some d \<Rightarrow> length d = s_capacity s \<and> s_len s < s_capacity s
                 \<and> d ! s_len s = NUL \<and> NUL \<notin> set (take (s_len s) d))"

declare wf_string_def [inv_defs]

lemma takeWhile_to_nul:
  "n < length d \<Longrightarrow> d ! n = NUL \<Longrightarrow> NUL \<notin> set (take n d) \<Longrightarrow> takeWhile (\<lambda>c. c \<noteq> NUL) d = take n d"
proof -
  assume n: "n < length d" "d ! n = NUL" "NUL \<notin> set (take n d)"
  then have "d = take n d @ NUL # drop (Suc n) d" using id_take_nth_drop by metis
  then have "takeWhile (\<lambda>c. c \<noteq> NUL) d = takeWhile (\<lambda>c. c \<noteq> NUL) (take n d @ NUL # drop (Suc n) d)"
    by (rule arg_cong)
  also have "\<dots> = take n d" using n(3) by (subst takeWhile_append2) auto
  finally show ?thesis .
qed

lemma text_of_wf: "wf_string s \<Longrightarrow> s_data s = Some d \<Longrightarrow> text_of s = take (s_len s) d"
  by (simp add: wf_string_def text_of_def takeWhile_to_nul)

lemma length_text_of: "wf_string s \<Longrightarrow> length (text_of s) = s_len s"
proof (cases "s_data s")
  case None
  then show "wf_string s \<Longrightarrow> ?thesis" by (simp add: text_of_def wf_string_def)
next
  case (Some d)
  then show "wf_string s \<Longrightarrow> ?thesis" by (auto simp: text_of_wf) (simp add: wf_string_def)
qed

lemma text_of_no_nul: "NUL \<notin> set (text_of s)"
  by (auto simp: text_of_def dest: set_takeWhileD split: option.splits)

lemma string_new_wf:
  assumes "wf_alloc malloc" and "\<And>t. str = Some t \<Longrightarrow> NUL \<notin> set t"
  shows "wf_string (string_new malloc str)"
proof (cases str)
  case None
  show ?thesis
  proof (cases "malloc 16")
    case None
    with \<open>str = None\<close> show ?thesis by (simp add: string_new_def wf_string_def)
  next
    case (Some b)
    with assms(1) have "length b = 16" by (simp add: wf_alloc_def)
    with \<open>str = None\<close> Some show ?thesis by (simp add: string_new_def wf_string_def)
  qed
next
  case (Some t)
  let ?cap = "max 16 (length t + 1)"
  show ?thesis
  proof (cases "malloc ?cap")
    case None
    with Some show ?thesis by (simp add: string_new_def wf_string_def)
  next
    case (Some b)
    with assms(1) have "length b = ?cap" unfolding wf_alloc_def by blast
    with Some \<open>str = Some t\<close> assms(2) show ?thesis
      by (auto simp: string_new_def wf_string_def Let_def)
  qed
qed

lemma string_new_text:
  "malloc (max 16 (length t + 1)) = Some b \<Longrightarrow> NUL \<notin> set t \<Longrightarrow> text_of (string_new malloc (Some t)) = t"
  by (auto simp: string_new_def text_of_def Let_def takeWhile_append2 takeWhile_tail)

lemma string_free_wf: "wf_string s \<Longrightarrow> wf_string (string_free s)"
  by (simp add: string_free_def wf_string_def split: option.splits)

lemma string_equals_text:
  "s_data a \<noteq> None \<Longrightarrow> s_data b \<noteq> None \<Longrightarrow> string_equals a b = (text_of a = text_of b)"
  by (auto simp: string_equals_def)

text \<open>The capacity loop ends, above what is needed, as long as no doubling can wrap.\<close>

lemma grow_capacity_ends:
  assumes "0 < cap" and "need \<le> 2 ^ 63"
  shows "\<exists>c. grow_capacity need cap = Some c \<and> need \<le> c \<and> cap \<le> c"
  using assms(1)
proof (induction "need - cap" arbitrary: cap rule: less_induct)
  case less
  show ?case
  proof (cases "cap < need")
    case False
    then show ?thesis by (simp add: grow_capacity.simps)
  next
    case True
    let ?c = "if cap * 2 < 16 then 16 else cap * 2"
    have nowrap: "(cap * 2) mod Suc SIZE_MAX = cap * 2"
      using True assms(2) by (simp add: SIZE_MAX_def)
    have "need - ?c < need - cap" using True less.prems by auto
    moreover have "0 < ?c" by simp
    ultimately obtain c where "grow_capacity need ?c = Some c" "need \<le> c" "?c \<le> c"
      using less.hyps by blast
    moreover have "grow_capacity need cap = grow_capacity need ?c"
      using True by (subst grow_capacity.simps) (simp add: nowrap Let_def)
    ultimately show ?thesis using less.prems by (auto split: if_splits)
  qed
qed

lemma append_copy_wf:
  assumes "length d = s_capacity s" and "s_len s + length str < s_capacity s"
    and "s_data s = Some d" and "NUL \<notin> set (take (s_len s) d)" and "NUL \<notin> set str"
  shows "wf_string (append_copy s str)
    \<and> text_of (append_copy s str) = take (s_len s) d @ str"
proof -
  let ?e = "take (s_len s) d @ str @ NUL # drop (s_len s + length str + 1) d"
  have len: "length (take (s_len s) d) = s_len s" using assms by simp
  have nth: "?e ! (s_len s + length str) = NUL"
    using len by (simp add: nth_append)
  have tk: "take (s_len s + length str) ?e = take (s_len s) d @ str"
    using len by simp
  have "wf_string (append_copy s str)"
    using assms len nth tk by (auto simp: append_copy_def wf_string_def)
  moreover have "s_data (append_copy s str) = Some ?e"
    and "s_len (append_copy s str) = s_len s + length str"
    using assms by (simp_all add: append_copy_def)
  ultimately show ?thesis using text_of_wf tk by metis
qed

lemma string_append_grow_wf:
  assumes al: "wf_alloc realloc" "wf_alloc malloc" and wf: "wf_string s" and nn: "NUL \<notin> set str"
    and cap: "s_len s + length str + 1 \<le> new_cap" "s_capacity s \<le> new_cap"
    and r: "string_append realloc malloc s (Some str) = Some (s', orphan)"
    and g: "s_len s + length str + 1 > s_capacity s"
           "grow_capacity (s_len s + length str + 1) (if s_capacity s > 0 then s_capacity s else 16)
              = Some new_cap"
    and small: "s_len s + length str + 1 \<le> SIZE_MAX"
  shows "wf_string s' \<and> (text_of s' = text_of s @ str \<or> s' = s \<and> malloc new_cap = None)"
proof (cases "s_data s = None \<or> s_len s = 0")
  case True
  then have e: "text_of s = []" using wf length_text_of [of s] by (auto simp: text_of_def)
  show ?thesis
  proof (cases "malloc new_cap")
    case None
    with r g True small wf show ?thesis by (simp add: string_append_def Let_def split: if_splits)
  next
    case (Some b)
    then have lb: "length b = new_cap" using al by (simp add: wf_alloc_def)
    have l0: "s_len s = 0" using True wf by (auto simp: wf_string_def)
    let ?t = "s\<lparr>s_data := Some b, s_capacity := new_cap\<rparr>"
    from r g True small Some have s': "s' = append_copy ?t str"
      by (simp add: string_append_def Let_def split: if_splits)
    have "wf_string (append_copy ?t str) \<and> text_of (append_copy ?t str) = take (s_len ?t) b @ str"
      by (rule append_copy_wf) (use lb l0 cap nn in auto)
    with s' e l0 show ?thesis by simp
  qed
next
  case False
  then obtain d where d: "s_data s = Some d" and l0: "s_len s \<noteq> 0" by auto
  then have td: "text_of s = take (s_len s) d" using wf text_of_wf by blast
  have wd: "length d = s_capacity s" "s_len s < s_capacity s" "NUL \<notin> set (take (s_len s) d)"
    using wf d by (simp_all add: wf_string_def)
  show ?thesis
  proof (cases "realloc new_cap")
    case (Some b)
    then have lb: "length b = new_cap" using al by (simp add: wf_alloc_def)
    let ?e = "take (s_capacity s) d @ drop (s_capacity s) b"
    let ?t = "s\<lparr>s_data := Some ?e, s_capacity := new_cap\<rparr>"
    from r g d l0 small Some have s': "s' = append_copy ?t str"
      by (simp add: string_append_def Let_def split: if_splits)
    have te: "take (s_len s) ?e = take (s_len s) d" using wd by simp
    have "wf_string (append_copy ?t str) \<and> text_of (append_copy ?t str) = take (s_len ?t) ?e @ str"
      by (rule append_copy_wf) (use lb wd te cap nn in auto)
    with s' td te show ?thesis by simp
  next
    case None
    show ?thesis
    proof (cases "malloc new_cap")
      case None
      with r g d l0 small wf \<open>realloc new_cap = None\<close> show ?thesis
        by (simp add: string_append_def Let_def split: if_splits)
    next
      case (Some b)
      then have lb: "length b = new_cap" using al by (simp add: wf_alloc_def)
      let ?e = "take (s_len s) d @ NUL # drop (s_len s + 1) b"
      let ?t = "s\<lparr>s_data := Some ?e, s_capacity := new_cap\<rparr>"
      from r g d l0 small Some None have s': "s' = append_copy ?t str"
        by (simp add: string_append_def Let_def split: if_splits)
      have te: "take (s_len s) ?e = take (s_len s) d" using wd by simp
      have "wf_string (append_copy ?t str) \<and> text_of (append_copy ?t str) = take (s_len ?t) ?e @ str"
        by (rule append_copy_wf) (use lb wd te cap nn in auto)
      with s' td te show ?thesis by simp
    qed
  qed
qed

section \<open>Growable arrays\<close>

text \<open>
  What the users of a growable array rely on: adding an element either appends it or, when memory
  runs out, leaves the array alone; the elements never outgrow the capacity. \<open>ok\<close> says whether the
  next addition finds room.
\<close>

locale growable =
  fixes add :: "'s \<Rightarrow> 'a \<Rightarrow> 's"
    and elems :: "'s \<Rightarrow> 'a list"
    and cap :: "'s \<Rightarrow> nat"
    and ok :: "'s \<Rightarrow> bool"
    and inv :: "'s \<Rightarrow> bool"
  assumes add_ok: "inv s \<Longrightarrow> ok s \<Longrightarrow> elems (add s x) = elems s @ [x]"
    and add_full: "inv s \<Longrightarrow> \<not> ok s \<Longrightarrow> add s x = s"
    and add_inv: "inv s \<Longrightarrow> inv (add s x)"
    and add_cap: "inv s \<Longrightarrow> cap s \<le> cap (add s x)"
    and inv_cap: "inv s \<Longrightarrow> length (elems s) \<le> cap s"
begin

lemma adds_inv: "inv s \<Longrightarrow> inv (foldl add s xs)"
  by (induction xs arbitrary: s) (auto simp: add_inv)

lemma adds_bounded: "inv s \<Longrightarrow> length (elems (foldl add s xs)) \<le> cap (foldl add s xs)"
  by (rule inv_cap) (rule adds_inv)

text \<open>Nothing stored is lost or reordered, whatever the allocator does.\<close>

lemma adds_elems: "inv s \<Longrightarrow> \<exists>ys. elems (foldl add s xs) = elems s @ ys \<and> subseq ys xs"
proof (induction xs arbitrary: s)
  case Nil
  then show ?case by simp
next
  case (Cons x xs)
  then obtain ys where ys: "elems (foldl add (add s x) xs) = elems (add s x) @ ys" "subseq ys xs"
    using add_inv by blast
  show ?case
  proof (cases "ok s")
    case True
    with ys Cons.prems show ?thesis by (intro exI [of _ "x # ys"]) (simp add: add_ok)
  next
    case False
    with ys Cons.prems show ?thesis by (intro exI [of _ ys]) (simp add: add_full list_emb_Cons)
  qed
qed

text \<open>When every addition finds room, the additions append the whole list.\<close>

lemma adds_all:
  assumes "inv s" and "\<And>t. inv t \<Longrightarrow> ok t"
  shows "elems (foldl add s xs) = elems s @ xs"
  using assms(1) by (induction xs arbitrary: s) (auto simp: add_ok add_inv assms(2))

end

subsection \<open>StringArray\<close>

text \<open>
  The slots in use are the list of the texts stored, so that \<open>count\<close> is its length; a null text is
  stored as the empty string, as \<open>string_new\<close> does. \<open>sizeof (String)\<close> is 24 on the 64-bit
  targets. Whether \<open>realloc\<close> and then \<open>malloc\<close> serve the request are parameters.
\<close>

record StringArray =
  sa_items :: "string list"
  sa_capacity :: nat

definition sizeof_String :: nat where
  "sizeof_String = 24"

definition string_array_new :: "StringArray" where
  "string_array_new = \<lparr>sa_items = [], sa_capacity = 8\<rparr>"

definition string_array_free :: "StringArray \<Rightarrow> StringArray" where
  "string_array_free arr = \<lparr>sa_items = [], sa_capacity = 0\<rparr>"

definition string_array_room :: "(nat \<Rightarrow> bool) \<Rightarrow> (nat \<Rightarrow> bool) \<Rightarrow> StringArray \<Rightarrow> nat option" where
  "string_array_room realloc_ok malloc_ok arr =
     (if length (sa_items arr) \<ge> sa_capacity arr then
        (if sa_capacity arr > SIZE_MAX div 2 then None
         else (let n = sa_capacity arr * 2 in
           if n > SIZE_MAX div sizeof_String then None
           else if realloc_ok (n * sizeof_String) \<or> malloc_ok (n * sizeof_String) then Some n
           else None))
      else Some (sa_capacity arr))"

definition string_array_add ::
  "(nat \<Rightarrow> bool) \<Rightarrow> (nat \<Rightarrow> bool) \<Rightarrow> StringArray \<Rightarrow> string option \<Rightarrow> StringArray" where
  "string_array_add realloc_ok malloc_ok arr str =
     (case string_array_room realloc_ok malloc_ok arr of
        None \<Rightarrow> arr
      | Some n \<Rightarrow> \<lparr>sa_items = sa_items arr @ [case str of None \<Rightarrow> [] | Some t \<Rightarrow> t], sa_capacity = n\<rparr>)"

definition wf_string_array :: "StringArray \<Rightarrow> bool" where
  "wf_string_array arr = (0 < sa_capacity arr \<and> length (sa_items arr) \<le> sa_capacity arr)"

lemma string_array_room_bound:
  "wf_string_array arr \<Longrightarrow> string_array_room r m arr = Some n \<Longrightarrow>
   length (sa_items arr) < n \<and> sa_capacity arr \<le> n"
  by (auto simp: wf_string_array_def string_array_room_def Let_def split: if_splits)

interpretation sarr: growable "\<lambda>arr t. string_array_add realloc_ok malloc_ok arr (Some t)" sa_items sa_capacity
  "\<lambda>arr. string_array_room realloc_ok malloc_ok arr \<noteq> None" wf_string_array
  for realloc_ok malloc_ok
proof (unfold_locales, goal_cases)
  case (1 s x)
  then show ?case by (auto simp: string_array_add_def)
next
  case (2 s x)
  then show ?case by (simp add: string_array_add_def)
next
  case (3 s x)
  then show ?case
    using string_array_room_bound [of s realloc_ok malloc_ok]
    by (auto simp: string_array_add_def wf_string_array_def Suc_le_eq split: option.splits)
next
  case (4 s x)
  then show ?case by (auto simp: string_array_add_def dest: string_array_room_bound split: option.splits)
next
  case (5 s)
  then show ?case by (simp add: wf_string_array_def)
qed

subsection \<open>DynamicArray\<close>

record 'a DynamicArray =
  da_items :: "'a list"
  da_capacity :: nat
  da_item_size :: nat

definition dynamic_array_new :: "nat \<Rightarrow> 'a DynamicArray" where
  "dynamic_array_new item_size = \<lparr>da_items = [], da_capacity = 8, da_item_size = item_size\<rparr>"

definition dynamic_array_free :: "'a DynamicArray \<Rightarrow> 'a DynamicArray" where
  "dynamic_array_free arr = \<lparr>da_items = [], da_capacity = 0, da_item_size = 0\<rparr>"

definition dynamic_array_get :: "'a DynamicArray \<Rightarrow> nat \<Rightarrow> 'a option" where
  "dynamic_array_get arr index =
     (if index \<ge> length (da_items arr) then None else Some (da_items arr ! index))"

definition dynamic_array_room :: "(nat \<Rightarrow> bool) \<Rightarrow> (nat \<Rightarrow> bool) \<Rightarrow> 'a DynamicArray \<Rightarrow> nat option" where
  "dynamic_array_room realloc_ok malloc_ok arr =
     (if length (da_items arr) \<ge> da_capacity arr then
        (if da_capacity arr > SIZE_MAX div 2 then None
         else (let n = da_capacity arr * 2; sz = da_item_size arr in
           if sz > 0 \<and> n > SIZE_MAX div sz then None
           else if realloc_ok (n * sz) \<or> malloc_ok (n * sz) then Some n
           else None))
      else Some (da_capacity arr))"

definition dynamic_array_add ::
  "(nat \<Rightarrow> bool) \<Rightarrow> (nat \<Rightarrow> bool) \<Rightarrow> 'a DynamicArray \<Rightarrow> 'a \<Rightarrow> 'a DynamicArray" where
  "dynamic_array_add realloc_ok malloc_ok arr item =
     (case dynamic_array_room realloc_ok malloc_ok arr of
        None \<Rightarrow> arr
      | Some n \<Rightarrow> arr\<lparr>da_items := da_items arr @ [item], da_capacity := n\<rparr>)"

definition wf_dynamic_array :: "'a DynamicArray \<Rightarrow> bool" where
  "wf_dynamic_array arr = (0 < da_capacity arr \<and> length (da_items arr) \<le> da_capacity arr)"

lemmas array_op_defs [op_defs] =
  string_array_new_def string_array_free_def string_array_add_def
  dynamic_array_new_def dynamic_array_free_def dynamic_array_get_def dynamic_array_add_def

lemma dynamic_array_room_bound:
  "wf_dynamic_array arr \<Longrightarrow> dynamic_array_room r m arr = Some n \<Longrightarrow>
   length (da_items arr) < n \<and> da_capacity arr \<le> n"
  by (auto simp: wf_dynamic_array_def dynamic_array_room_def Let_def split: if_splits)

interpretation darr: growable "dynamic_array_add realloc_ok malloc_ok" da_items da_capacity
  "\<lambda>arr. dynamic_array_room realloc_ok malloc_ok arr \<noteq> None" wf_dynamic_array
  for realloc_ok malloc_ok
proof (unfold_locales, goal_cases)
  case (1 s x)
  then show ?case by (auto simp: dynamic_array_add_def)
next
  case (2 s x)
  then show ?case by (simp add: dynamic_array_add_def)
next
  case (3 s x)
  then show ?case
    using dynamic_array_room_bound [of s realloc_ok malloc_ok]
    by (auto simp: dynamic_array_add_def wf_dynamic_array_def Suc_le_eq split: option.splits)
next
  case (4 s x)
  then show ?case by (auto simp: dynamic_array_add_def dest: dynamic_array_room_bound split: option.splits)
next
  case (5 s)
  then show ?case by (simp add: wf_dynamic_array_def)
qed

section \<open>Errors and checked allocation\<close>

datatype ErrorCode =
    ERR_NONE | ERR_MEMORY | ERR_FILE | ERR_NETWORK | ERR_JSON | ERR_TOOL
  | ERR_INVALID_PARAM | ERR_CONTENT_FILTER | ERR_CONNECTION | ERR_TIMEOUT

record Error =
  err_code :: ErrorCode
  err_message :: string

definition error_new :: "ErrorCode \<Rightarrow> string option \<Rightarrow> Error" where
  "error_new c message =
     \<lparr>err_code = c, err_message = (case message of None \<Rightarrow> [] | Some m \<Rightarrow> c_trunc 256 m)\<rparr>"

text \<open>\<open>error_new (ERR_NONE, "")\<close>, the value every operation returns on success.\<close>

abbreviation no_error :: Error where
  "no_error \<equiv> error_new ERR_NONE (Some [])"

text \<open>\<open>xmalloc\<close> and \<open>xstrdup\<close> abort the process (\<open>None\<close>) instead of returning a null pointer.\<close>

definition xmalloc :: "allocator \<Rightarrow> nat \<Rightarrow> char list option" where
  "xmalloc malloc n = malloc n"

definition xstrdup :: "allocator \<Rightarrow> string option \<Rightarrow> char list option" where
  "xstrdup malloc s =
     (case s of
        None \<Rightarrow> None
      | Some t \<Rightarrow> (case malloc (length t + 1) of None \<Rightarrow> None | Some b \<Rightarrow> Some (t @ [NUL])))"

lemma error_new_bounded: "length (err_message (error_new c m)) < 256"
  using length_c_trunc [of 256] by (auto simp: error_new_def split: option.splits)

section \<open>Properties\<close>

lemma string_append_returns:
  assumes "s_len s + length str + 1 \<le> 2 ^ 63"
  shows "\<exists>s' orphan. string_append realloc malloc s (Some str) = Some (s', orphan)"
proof -
  let ?start = "if s_capacity s > 0 then s_capacity s else 16"
  have "0 < ?start" by simp
  from grow_capacity_ends [OF this assms]
  obtain c where "grow_capacity (s_len s + length str + 1) ?start = Some c" by blast
  then show ?thesis
    by (auto simp: string_append_def Let_def split: option.splits)
qed

lemma string_append_in_place:
  assumes "wf_string s" and "NUL \<notin> set str" and "s_len s + length str + 1 \<le> s_capacity s"
    and "string_append realloc malloc s (Some str) = Some (s', orphan)"
    and "s_len s + length str + 1 \<le> SIZE_MAX"
  shows "wf_string s' \<and> (text_of s' = text_of s @ str \<or> s' = s \<and> s_data s = None)"
proof (cases "s_data s")
  case None
  with assms show ?thesis
    by (auto simp: string_append_def append_copy_def Let_def split: if_splits)
next
  case (Some d)
  with assms have s': "s' = append_copy s str"
    by (auto simp: string_append_def Let_def split: if_splits)
  have "wf_string (append_copy s str) \<and> text_of (append_copy s str) = take (s_len s) d @ str"
    by (rule append_copy_wf) (use assms Some in \<open>auto simp: wf_string_def\<close>)
  with s' Some assms(1) show ?thesis using text_of_wf by metis
qed

text \<open>
  Appending to a well-formed \<open>String\<close> always returns (the capacity loop ends) for every
  length below $2^{63}$; the result is well formed again - NUL-terminated inside its buffer - and it
  holds either the old text followed by the new one, or exactly the old string when the string
  has no buffer or the allocator refused the new one. No byte is written outside the buffer and
  no text is lost on any allocation failure.
\<close>

theorem string_append_correct:
  assumes "wf_alloc realloc" and "wf_alloc malloc" and "wf_string s" and "NUL \<notin> set str"
    and "s_len s + length str + 1 \<le> 2 ^ 63"
  shows "\<exists>s' orphan. string_append realloc malloc s (Some str) = Some (s', orphan)
           \<and> wf_string s'
           \<and> (text_of s' = text_of s @ str
              \<or> s' = s \<and> (s_data s = None \<or> (\<exists>n. malloc n = None)))"
proof -
  obtain s' orphan where r: "string_append realloc malloc s (Some str) = Some (s', orphan)"
    using string_append_returns assms(5) by blast
  have small: "s_len s + length str + 1 \<le> SIZE_MAX" using assms(5) by (simp add: SIZE_MAX_def)
  show ?thesis
  proof (cases "s_len s + length str + 1 \<le> s_capacity s")
    case True
    with string_append_in_place [OF assms(3,4) True r small] r show ?thesis by blast
  next
    case False
    let ?start = "if s_capacity s > 0 then s_capacity s else 16"
    have "0 < ?start" by simp
    from grow_capacity_ends [OF this assms(5)]
    obtain c where c: "grow_capacity (s_len s + length str + 1) ?start = Some c"
      "s_len s + length str + 1 \<le> c" "?start \<le> c" by blast
    from c(3) have c3: "s_capacity s \<le> c" by (auto split: if_splits)
    from False have gt: "s_len s + length str + 1 > s_capacity s" by simp
    have "wf_string s' \<and> (text_of s' = text_of s @ str \<or> s' = s \<and> malloc c = None)"
      by (rule string_append_grow_wf [OF assms(1-4) c(2) c3 r gt c(1) small])
    with r show ?thesis by blast
  qed
qed

definition zero_alloc :: allocator where
  "zero_alloc n = Some (replicate n NUL)"

theorem string_append_correct_witness:
  "\<exists>s' orphan. string_append zero_alloc zero_alloc (string_new zero_alloc (Some ''abc'')) (Some ''de'')
      = Some (s', orphan) \<and> text_of s' = ''abcde''"
proof -
  let ?s = "string_new zero_alloc (Some ''abc'')"
  have al: "wf_alloc zero_alloc" by (simp add: wf_alloc_def zero_alloc_def)
  have wf: "wf_string ?s" by (rule string_new_wf [OF al]) simp
  have len: "s_len ?s = 3" by (simp add: string_new_def zero_alloc_def Let_def)
  have dat: "s_data ?s \<noteq> None" and tx: "text_of ?s = ''abc''"
    by (simp_all add: string_new_def zero_alloc_def Let_def text_of_def)
  have "\<exists>s' orphan. string_append zero_alloc zero_alloc ?s (Some ''de'') = Some (s', orphan)
           \<and> wf_string s'
           \<and> (text_of s' = text_of ?s @ ''de''
              \<or> s' = ?s \<and> (s_data ?s = None \<or> (\<exists>n. zero_alloc n = None)))"
    by (rule string_append_correct [OF al al wf]) (use len in simp_all)
  then show ?thesis using dat tx by (auto simp: zero_alloc_def)
qed

text \<open>
  An append that has to grow a string which owns a buffer but holds no text yet - every
  string made by \<open>string_new ("")\<close> - takes the branch that its comment reserves for strings that were
  never allocated: it allocates a new buffer and drops the old one without freeing it.
\<close>

theorem string_append_leaks_empty_buffer:
  assumes "malloc 16 = Some b" and "\<And>n. malloc n \<noteq> None"
    and "16 \<le> length str" and "length str + 1 \<le> 2 ^ 63"
  shows "\<exists>s'. string_append realloc malloc (string_new malloc (Some [])) (Some str)
           = Some (s', Some (NUL # drop 1 b))"
proof -
  let ?s = "string_new malloc (Some [])"
  have s: "?s = \<lparr>s_data = Some (NUL # drop 1 b), s_len = 0, s_capacity = 16\<rparr>"
    using assms(1) by (simp add: string_new_def Let_def)
  have "(0 :: nat) < 16" by simp
  from grow_capacity_ends [OF this assms(4)]
  obtain c where c: "grow_capacity (length str + 1) 16 = Some c" by blast
  moreover obtain d where "malloc c = Some d" using assms(2) by blast
  moreover have "\<not> length str > SIZE_MAX - 1" using assms(4) by (simp add: SIZE_MAX_def)
  ultimately show ?thesis
    using assms(3) by (simp add: s string_append_def Let_def)
qed

theorem string_append_leaks_empty_buffer_witness:
  "\<exists>s'. string_append zero_alloc zero_alloc (string_new zero_alloc (Some [])) (Some (replicate 20 CHR ''x''))
     = Some (s', Some (NUL # drop 1 (replicate 16 NUL)))"
  by (rule string_append_leaks_empty_buffer) (simp_all add: zero_alloc_def)

text \<open>
  Adding items to a \<open>DynamicArray\<close> one after the other, whatever the allocator grants,
  never loses, changes or reorders an item that is in it, stores the new items in the order in
  which they came (leaving out those for which memory ran out), and never stores more items than
  the capacity; reading back index \<open>i\<close> gives the \<open>i\<close>-th item and reading at or past the count gives
  no item.
\<close>

theorem dynamic_array_adds:
  assumes "wf_dynamic_array arr"
  shows "\<exists>ys. da_items (foldl (dynamic_array_add realloc_ok malloc_ok) arr xs) = da_items arr @ ys
           \<and> subseq ys xs
           \<and> wf_dynamic_array (foldl (dynamic_array_add realloc_ok malloc_ok) arr xs)
           \<and> (\<forall>i. dynamic_array_get (foldl (dynamic_array_add realloc_ok malloc_ok) arr xs) i
                = (if i < length (da_items arr) then Some (da_items arr ! i)
                   else if i - length (da_items arr) < length ys
                     then Some (ys ! (i - length (da_items arr))) else None))"
proof -
  obtain ys where "da_items (foldl (dynamic_array_add realloc_ok malloc_ok) arr xs) = da_items arr @ ys"
    and "subseq ys xs" using darr.adds_elems [OF assms] by blast
  then show ?thesis using darr.adds_inv [OF assms]
    by (intro exI [of _ ys]) (auto simp: dynamic_array_get_def nth_append)
qed

theorem dynamic_array_adds_witness:
  "\<exists>ys. da_items (foldl (dynamic_array_add (\<lambda>_. True) (\<lambda>_. False))
            (dynamic_array_new 8) [1, 2, 3 :: nat]) = ys \<and> subseq ys [1, 2, 3]"
proof -
  have "wf_dynamic_array (dynamic_array_new 8 :: nat DynamicArray)"
    by (simp add: wf_dynamic_array_def dynamic_array_new_def)
  from dynamic_array_adds [OF this, of "\<lambda>_. True" "\<lambda>_. False" "[1, 2, 3]"]
  show ?thesis by (auto simp: dynamic_array_new_def)
qed

end
