(* ===== verification/Message.thy ===== *)
theory Message
  imports Common
begin

text \<open>
  \<open>src/src/common/message.c\<close> and \<open>src/src/include/message.h\<close>: conversation messages with their tool
  calls, inbound and outbound channel messages, and the internal events of the agent loop. The
  \<open>String\<close> members are represented by the text they hold (\<open>Common.text_of\<close>); the flag \<open>ok\<close> of the
  constructors is whether the allocation of the structure succeeds. The matching \<open>_free\<close> functions
  only release memory and have no counterpart on values.
\<close>

datatype MessageRole = ROLE_USER | ROLE_ASSISTANT | ROLE_TOOL

record ToolCall =
  tc_id :: string
  tc_name :: string
  tc_arguments :: string

record Message =
  m_role :: MessageRole
  m_content :: string
  m_timestamp :: string
  m_tool_calls :: "ToolCall list"
  m_tool_call_id :: string
  m_name :: string

record InboundMessage =
  in_channel :: string
  in_chat_id :: string
  in_content :: string
  in_sender_name :: string
  in_attachments :: StringArray
  in_no_session_record :: bool

record OutboundMessage =
  out_channel :: string
  out_chat_id :: string
  out_content :: string
  out_attachments :: StringArray

text \<open>
  The tagged structure \<open>InternalEvent\<close>: one constructor per value of \<open>InternalEventType\<close>, with the
  members that are meaningful for it.
\<close>

datatype InternalEvent =
    EVENT_LLM_RESULT (ev_session_key: string) (llm_error: Error) (llm_response: string)
      (ev_tool_calls: "ToolCall list")
  | EVENT_TOOL_RESULT (ev_session_key: string) (tool_call_id: string) (tool_name: string)
      (tool_result: string) (tool_error: Error)

text \<open>\<open>string_new (s)\<close> at the level of texts: a null pointer becomes the empty text.\<close>

definition str_or_empty :: "string option \<Rightarrow> string" where
  "str_or_empty s = (case s of None \<Rightarrow> [] | Some t \<Rightarrow> t)"

lemma str_or_empty_simps [simp]: "str_or_empty None = []" "str_or_empty (Some t) = t"
  by (simp_all add: str_or_empty_def)

lemma string_new_text_or_empty:
  assumes "\<And>n. malloc n \<noteq> None" and "wf_alloc malloc" and "\<And>t. s = Some t \<Longrightarrow> NUL \<notin> set t"
  shows "text_of (string_new malloc s) = str_or_empty s"
proof (cases s)
  case None
  obtain b where b: "malloc 16 = Some b" using assms(1) by blast
  with assms(2) have "length b = 16" by (simp add: wf_alloc_def)
  then have "b[0 := NUL] = NUL # tl b" by (cases b) auto
  with None b show ?thesis by (simp add: string_new_def text_of_def)
next
  case (Some t)
  obtain b where "malloc (max 16 (length t + 1)) = Some b" using assms(1) by blast
  with Some assms(3) show ?thesis using string_new_text by simp
qed

definition message_new :: "bool \<Rightarrow> MessageRole \<Rightarrow> string option \<Rightarrow> Message option" where
  "message_new ok role content =
     (if \<not> ok then None
      else Some \<lparr>m_role = role, m_content = str_or_empty content, m_timestamp = [],
                 m_tool_calls = [], m_tool_call_id = [], m_name = []\<rparr>)"

definition message_add_tool_call ::
  "bool \<Rightarrow> Message \<Rightarrow> string option \<Rightarrow> string option \<Rightarrow> string option \<Rightarrow> Message" where
  "message_add_tool_call ok msg call_id name args =
     (if \<not> ok then msg
      else msg\<lparr>m_tool_calls := m_tool_calls msg @
             [\<lparr>tc_id = str_or_empty call_id, tc_name = str_or_empty name, tc_arguments = str_or_empty args\<rparr>]\<rparr>)"

definition inbound_message_new ::
  "bool \<Rightarrow> string option \<Rightarrow> string option \<Rightarrow> string option \<Rightarrow> string option \<Rightarrow> InboundMessage option" where
  "inbound_message_new ok channel chat_id content sender_name =
     (if \<not> ok then None
      else Some \<lparr>in_channel = str_or_empty channel, in_chat_id = str_or_empty chat_id,
                 in_content = str_or_empty content, in_sender_name = str_or_empty sender_name,
                 in_attachments = string_array_new, in_no_session_record = False\<rparr>)"

definition outbound_message_new ::
  "bool \<Rightarrow> string option \<Rightarrow> string option \<Rightarrow> string option \<Rightarrow> OutboundMessage option" where
  "outbound_message_new ok channel chat_id content =
     (if \<not> ok then None
      else Some \<lparr>out_channel = str_or_empty channel, out_chat_id = str_or_empty chat_id,
                 out_content = str_or_empty content, out_attachments = string_array_new\<rparr>)"

text \<open>\<open>calls\<close> is the array of the \<open>count\<close> calls, or a null pointer.\<close>

definition internal_event_new_llm_result ::
  "bool \<Rightarrow> string option \<Rightarrow> Error \<Rightarrow> string option \<Rightarrow> ToolCall list option \<Rightarrow> InternalEvent option" where
  "internal_event_new_llm_result ok session_key err response calls =
     (if \<not> ok then None
      else Some (EVENT_LLM_RESULT (str_or_empty session_key) err (str_or_empty response)
                   (case calls of None \<Rightarrow> [] | Some cs \<Rightarrow> cs)))"

definition internal_event_new_tool_result ::
  "bool \<Rightarrow> string option \<Rightarrow> string option \<Rightarrow> string option \<Rightarrow> string option \<Rightarrow> Error \<Rightarrow> InternalEvent option" where
  "internal_event_new_tool_result ok session_key call_id name result err =
     (if \<not> ok then None
      else Some (EVENT_TOOL_RESULT (str_or_empty session_key) (str_or_empty call_id)
                   (str_or_empty name) (str_or_empty result) err))"

lemmas message_op_defs [op_defs] =
  message_new_def message_add_tool_call_def inbound_message_new_def outbound_message_new_def
  internal_event_new_llm_result_def internal_event_new_tool_result_def

end
