(* ===== verification/Utils.thy ===== *)
theory Utils
  imports Message
begin

text \<open>
  \<open>src/src/common/utils.c\<close>: text helpers - removing reasoning tags, the tool-call hint, token
  estimates, XML escaping, identifiers, directory creation and trimming. A result of type
  \<open>option\<close> is a pointer that may be null; \<open>ok\<close> is whether its allocation succeeds.
\<close>

section \<open>Trimming\<close>

definition str_trim_left :: "string option \<Rightarrow> string option" where
  "str_trim_left s = map_option skip_space s"

definition str_trim_copy :: "bool \<Rightarrow> string option \<Rightarrow> string option" where
  "str_trim_copy ok s =
     (case s of
        None \<Rightarrow> None
      | Some t \<Rightarrow> if ok then Some (rtrim_by isspace (skip_space t)) else None)"

section \<open>Reasoning tags\<close>

definition strip_think_tags :: "bool \<Rightarrow> string option \<Rightarrow> string option" where
  "strip_think_tags ok text =
     (case text of
        None \<Rightarrow> None
      | Some t \<Rightarrow>
          if t = [] then None
          else
            (case (strstr t ''<think>'', strstr t ''</think>'') of
               (Some think_start, Some think_end) \<Rightarrow>
                 if length think_end > length think_start then (if ok then Some t else None)
                 else if \<not> ok then None
                 else
                   (let prefix = take (length t - length think_start) t;
                        after_think = drop (length ''</think>'') think_end;
                        result = prefix @ after_think;
                        trimmed = skip_space result
                    in Some (rtrim_by isspace trimmed))
             | _ \<Rightarrow> (if ok then Some t else None)))"

section \<open>Tool hints\<close>

text \<open>The part of the loop body that copies the first quoted text of the arguments.\<close>

definition hint_argument :: "string \<Rightarrow> string" where
  "hint_argument args =
     (case strchr args CHR 0x22 of
        None \<Rightarrow> []
      | Some quote_start \<Rightarrow>
          (case strchr (tl quote_start) CHR 0x22 of
             None \<Rightarrow> []
           | Some quote_end \<Rightarrow>
               (let n = length (tl quote_start) - length quote_end;
                    val_len = (if n > 40 then 40 else n)
                in take val_len (tl quote_start) @ (if val_len \<ge> 40 then ''...'' else []))))"

fun hint_loop :: "bool \<Rightarrow> ToolCall list \<Rightarrow> string" where
  "hint_loop first [] = []"
| "hint_loop first (c # cs) =
     (if first then [] else '', '') @ tc_name c @ ''('' @ hint_argument (tc_arguments c) @ '')''
     @ hint_loop False cs"

definition format_tool_hint :: "ToolCall list option \<Rightarrow> string option" where
  "format_tool_hint tool_calls =
     (case tool_calls of
        None \<Rightarrow> None
      | Some cs \<Rightarrow> if cs = [] then None else Some (hint_loop True cs))"

section \<open>Token estimates\<close>

definition estimate_tokens :: "string option \<Rightarrow> nat" where
  "estimate_tokens text =
     (case text of
        None \<Rightarrow> 0
      | Some t \<Rightarrow>
          length (filter (\<lambda>c. code c < 128) t) div 4 + length (filter (\<lambda>c. \<not> code c < 128) t) div 2)"

definition estimate_message_tokens :: "string option \<Rightarrow> string option \<Rightarrow> int \<Rightarrow> nat" where
  "estimate_message_tokens role content tool_calls_count =
     (case role of None \<Rightarrow> 0 | Some r \<Rightarrow> estimate_tokens (Some r) + 2)
     + (case content of None \<Rightarrow> 0 | Some c \<Rightarrow> estimate_tokens (Some c))
     + (if tool_calls_count > 0 then nat tool_calls_count * 5 else 0)"

section \<open>Placeholders\<close>

definition is_placeholder_value :: "string option \<Rightarrow> bool" where
  "is_placeholder_value s =
     (case s of
        None \<Rightarrow> True
      | Some t \<Rightarrow>
          t = [] \<or> t = ''current'' \<or> t = ''chat'' \<or> t = ''user'' \<or> t = ''assistant''
          \<or> starts_with ''_user_'' t \<or> starts_with ''_assistant_'' t)"

section \<open>XML escaping\<close>

definition escape_char :: "char \<Rightarrow> string" where
  "escape_char c =
     (if c = CHR ''&'' then ''&amp;''
      else if c = CHR ''<'' then ''&lt;''
      else if c = CHR ''>'' then ''&gt;''
      else if c = CHR 0x22 then ''&quot;''
      else if c = CHR 0x27 then ''&apos;''
      else [c])"

text \<open>The first pass: the number of bytes to allocate, without the terminator.\<close>

definition escape_char_len :: "char \<Rightarrow> nat" where
  "escape_char_len c =
     (if c = CHR ''&'' then 5
      else if c = CHR ''<'' then 4
      else if c = CHR ''>'' then 4
      else if c = CHR 0x22 then 6
      else if c = CHR 0x27 then 6
      else 1)"

primrec escape_len :: "nat \<Rightarrow> string \<Rightarrow> nat" where
  "escape_len len [] = len"
| "escape_len len (c # cs) = escape_len (len + escape_char_len c) cs"

primrec escape_text :: "string \<Rightarrow> string" where
  "escape_text [] = []"
| "escape_text (c # cs) = escape_char c @ escape_text cs"

definition escape_xml :: "(nat \<Rightarrow> bool) \<Rightarrow> string option \<Rightarrow> string option" where
  "escape_xml malloc_ok s =
     (case s of
        None \<Rightarrow> Some []
      | Some t \<Rightarrow> if malloc_ok (escape_len 0 t + 1) then Some (escape_text t) else None)"

section \<open>Identifiers\<close>

definition hex_digit :: "nat \<Rightarrow> char" where
  "hex_digit n = (if n < 10 then char_of (48 + n) else char_of (87 + n))"

fun show_hex :: "nat \<Rightarrow> string" where
  "show_hex n = (if n < 16 then [hex_digit n] else show_hex (n div 16) @ [hex_digit (n mod 16)])"

declare show_hex.simps [simp del]

text \<open>The seconds of the monotonic clock and the value of \<open>rand_r\<close> are parameters.\<close>

definition generate_id :: "int \<Rightarrow> nat \<Rightarrow> string option \<Rightarrow> string" where
  "generate_id tv_sec rnd pfx =
     c_trunc 64 ((case pfx of None \<Rightarrow> ''id'' | Some p \<Rightarrow> p) @ ''_'' @ show_int tv_sec @ ''_''
                 @ show_hex (rnd mod 65535))"

section \<open>Directories\<close>

text \<open>
  The loop over the parent path: at every slash behind the first byte the path up to it is
  passed to \<open>mkdir\<close>. The first argument is what the scan has passed.
\<close>

fun mkdir_scan :: "string \<Rightarrow> string \<Rightarrow> string list" where
  "mkdir_scan seen [] = []"
| "mkdir_scan seen (c # cs) =
     (if c = CHR ''/'' then seen # mkdir_scan (seen @ [c]) cs else mkdir_scan (seen @ [c]) cs)"

definition ensure_directory :: "string \<Rightarrow> string list" where
  "ensure_directory path =
     (let tmp0 = c_trunc 512 path;
          tmp = (if tmp0 \<noteq> [] \<and> last tmp0 = CHR ''/'' then butlast tmp0 else tmp0)
      in case strrchr tmp CHR ''/'' of
           None \<Rightarrow> []
         | Some last_slash \<Rightarrow>
             (let parent = take (length tmp - length last_slash) tmp
              in (case parent of [] \<Rightarrow> [] | c # cs \<Rightarrow> mkdir_scan [c] cs) @ [parent]))"

lemmas utils_op_defs [op_defs] =
  str_trim_left_def str_trim_copy_def strip_think_tags_def hint_argument_def format_tool_hint_def
  estimate_tokens_def estimate_message_tokens_def is_placeholder_value_def escape_xml_def
  generate_id_def ensure_directory_def

section \<open>Lemmas\<close>

lemma length_escape_char: "length (escape_char c) = escape_char_len c"
  by (simp add: escape_char_def escape_char_len_def)

lemma escape_len_length: "escape_len n t = n + length (escape_text t)"
  by (induction t arbitrary: n) (simp_all add: length_escape_char)

definition xml_special :: "char \<Rightarrow> bool" where
  "xml_special c = (c = CHR ''<'' \<or> c = CHR ''>'' \<or> c = CHR 0x22 \<or> c = CHR 0x27)"

lemma escape_text_no_special: "c \<in> set (escape_text t) \<Longrightarrow> \<not> xml_special c"
  by (induction t) (auto simp: escape_char_def xml_special_def split: if_splits)

lemma escape_char_prefix_code: "escape_char a @ u = escape_char b @ v \<Longrightarrow> a = b \<and> u = v"
  by (auto simp: escape_char_def split: if_splits)

lemma escape_text_inj: "escape_text s = escape_text t \<Longrightarrow> s = t"
proof (induction s arbitrary: t)
  case Nil
  then show ?case by (cases t) (auto simp: escape_char_def split: if_splits)
next
  case (Cons c cs)
  show ?case
  proof (cases t)
    case Nil
    with Cons.prems show ?thesis by (auto simp: escape_char_def split: if_splits)
  next
    case (Cons d ds)
    with Cons.prems have "escape_char c @ escape_text cs = escape_char d @ escape_text ds" by simp
    then have "c = d" "escape_text cs = escape_text ds" using escape_char_prefix_code by blast+
    with Cons Cons.IH show ?thesis by simp
  qed
qed

lemma str_trim_copy_trimmed:
  assumes "str_trim_copy True (Some s) = Some t" and "t \<noteq> []"
  shows "\<not> isspace (hd t) \<and> \<not> isspace (last t)"
proof -
  let ?m = "skip_space s"
  from assms have t: "t = rtrim_by isspace ?m" by (simp add: str_trim_copy_def)
  with assms(2) have "?m \<noteq> []" by (auto simp: rtrim_by_def)
  then have "\<not> isspace (hd ?m)" unfolding skip_space_def by (rule hd_dropWhile)
  with t assms(2) show ?thesis using rtrim_by_hd rtrim_by_last by metis
qed

lemma div_add_bounds:
  fixes x y :: nat
  shows "x div n + y div n \<le> (x + y) div n" and "(x + y) div n \<le> x div n + y div n + 1"
proof -
  have e: "(x + y) div n = x div n + y div n + (x mod n + y mod n) div n" by (rule div_add1_eq)
  show "x div n + y div n \<le> (x + y) div n" unfolding e by simp
  have "(x mod n + y mod n) div n \<le> 1"
  proof (cases "n = 0")
    case False
    then have "x mod n < n" and "y mod n < n" by simp_all
    then have "x mod n + y mod n < n + n" by (rule add_strict_mono)
    then have "x mod n + y mod n < 2 * n" by (simp only: mult_2)
    then have "(x mod n + y mod n) div n < 2" by (simp add: less_mult_imp_div_less)
    then show ?thesis by simp
  qed simp
  then show "(x + y) div n \<le> x div n + y div n + 1" unfolding e by simp
qed

lemma estimate_tokens_append:
  "estimate_tokens (Some a) + estimate_tokens (Some b) \<le> estimate_tokens (Some (a @ b))
   \<and> estimate_tokens (Some (a @ b)) \<le> estimate_tokens (Some a) + estimate_tokens (Some b) + 2"
proof -
  let ?l = "\<lambda>P. \<lambda>t. length (filter P t)"
  let ?A = "\<lambda>c :: char. code c < 128" and ?N = "\<lambda>c :: char. \<not> code c < 128"
  have e: "estimate_tokens (Some t) = ?l ?A t div 4 + ?l ?N t div 2" for t
    by (simp add: estimate_tokens_def)
  have s: "x1 + x2 \<le> x \<Longrightarrow> x \<le> x1 + x2 + 1 \<Longrightarrow> y1 + y2 \<le> y \<Longrightarrow> y \<le> y1 + y2 + 1 \<Longrightarrow>
    (x1 + y1) + (x2 + y2) \<le> x + y \<and> x + y \<le> (x1 + y1) + (x2 + y2) + 2" for x x1 x2 y y1 y2 :: nat
    by simp
  show ?thesis unfolding e filter_append length_append 
    by (rule s) (rule div_add_bounds)+
qed

lemma estimate_tokens_le_length: "estimate_tokens (Some t) \<le> length t"
proof -
  have "length (filter (\<lambda>c. code c < 128) t) + length (filter (\<lambda>c. \<not> code c < 128) t) = length t"
    by (rule sum_length_filter_compl)
  then show ?thesis by (simp add: estimate_tokens_def)
qed

lemma strstr_first_occurrence:
  assumes "n \<noteq> []" and "\<not> sublist n (u @ butlast n)"
  shows "strstr (u @ n @ v) n = Some (n @ v)"
  using assms(2)
proof (induction u)
  case Nil
  obtain y ys where "n = y # ys" using assms(1) by (cases n) auto
  then show ?case by (simp add: starts_with_prefix)
next
  case (Cons x xs)
  have "\<not> starts_with n ((x # xs) @ n @ v)"
  proof
    assume "starts_with n ((x # xs) @ n @ v)"
    then have n: "n = take (length n) ((x # xs) @ n @ v)" by (simp add: starts_with_def)
    have nb: "n @ v = butlast n @ last n # v" using assms(1) by (simp flip: append_butlast_last_id)
    have "take (length n) ((x # xs) @ butlast n @ last n # v) = take (length n) ((x # xs) @ butlast n)"
      using assms(1) by (cases n) simp_all
    with n nb have "n = take (length n) ((x # xs) @ butlast n)" by simp
    then have "prefix n ((x # xs) @ butlast n)" by (metis take_is_prefix)
    with Cons.prems show False by (meson prefix_imp_sublist)
  qed
  moreover have "\<not> sublist n (xs @ butlast n)" using Cons.prems by (auto simp: sublist_Cons_right)
  ultimately show ?case using Cons.IH by simp
qed

section \<open>Properties\<close>

text \<open>
  A reply \<open>p <think> q </think> r\<close> in which the opening tag is the first one and the closing
  tag is the first one is turned into the text before the opening tag followed by the text behind
  the closing tag, with white space cut at both ends: none of the reasoning \<open>q\<close> reaches the user.
\<close>

theorem strip_think_tags_removes_reasoning:
  assumes "\<not> sublist ''<think>'' (p @ ''<think'')"
    and "\<not> sublist ''</think>'' (p @ ''<think>'' @ q @ ''</think'')"
  shows "strip_think_tags True (Some (p @ ''<think>'' @ q @ ''</think>'' @ r))
           = Some (rtrim_by isspace (skip_space (p @ r)))"
proof -
  let ?t = "p @ ''<think>'' @ q @ ''</think>'' @ r"
  have "strstr (p @ ''<think>'' @ (q @ ''</think>'' @ r)) ''<think>'' = Some (''<think>'' @ q @ ''</think>'' @ r)"
    by (rule strstr_first_occurrence) (use assms(1) in simp_all)
  moreover have "strstr ((p @ ''<think>'' @ q) @ ''</think>'' @ r) ''</think>'' = Some (''</think>'' @ r)"
    by (rule strstr_first_occurrence) (use assms(2) in simp_all)
  ultimately show ?thesis by (simp add: strip_think_tags_def)
qed

theorem strip_think_tags_removes_reasoning_witness:
  "strip_think_tags True (Some ''ok <think>plan</think> done '') = Some ''ok  done''"
proof -
  have "strip_think_tags True (Some (''ok '' @ ''<think>'' @ ''plan'' @ ''</think>'' @ '' done ''))
           = Some (rtrim_by isspace (skip_space (''ok '' @ '' done '')))"
    by (rule strip_think_tags_removes_reasoning) (simp_all add: sublist_code)
  then show ?thesis by (simp add: rtrim_by_def skip_space_def isspace_def)
qed

text \<open>
  \<open>escape_xml\<close> writes exactly as many bytes as its first pass counted, so it never
  overruns the buffer it allocates; the output contains none of the characters that end a tag or
  an attribute value; and different texts have different escapes.
\<close>

theorem escape_xml_safe:
  assumes "escape_xml malloc_ok (Some s) = Some out"
  shows "length out = escape_len 0 s \<and> (\<forall>c \<in> set out. \<not> xml_special c)
    \<and> (\<forall>t. escape_xml malloc_ok (Some t) = Some out \<longrightarrow> t = s)"
  using assms escape_text_inj escape_text_no_special
  by (auto simp: escape_xml_def escape_len_length split: if_splits)

theorem escape_xml_safe_witness:
  "length ''&lt;a&amp;b&gt;'' = escape_len 0 ''<a&b>'' \<and> list_all (\<lambda>c. \<not> xml_special c) ''&lt;a&amp;b&gt;''"
  using escape_xml_safe [of "\<lambda>_. True" "''<a&b>''" "''&lt;a&amp;b&gt;''"]
  by (simp add: escape_xml_def escape_char_def)

text \<open>
  The hint for a call shows the first quoted text of its JSON arguments, which for an
  argument object is the name of its first member and not its value: for \<open>read_file\<close> with the path
  \<open>config.json\<close> the hint is \<open>read_file(path)\<close>, not the documented \<open>read_file("config.json")\<close>.
\<close>

theorem format_tool_hint_shows_key:
  assumes "CHR 0x22 \<notin> set key" and "length key < 40"
  shows "format_tool_hint
           (Some [\<lparr>tc_id = i, tc_name = name, tc_arguments = CHR ''{'' # CHR 0x22 # key @ CHR 0x22 # rest\<rparr>])
         = Some (name @ ''('' @ key @ '')'')"
proof -
  have "strchr (key @ CHR 0x22 # rest) CHR 0x22 = Some (CHR 0x22 # rest)"
    using assms(1) by (induction key) auto
  with assms(2) show ?thesis by (simp add: format_tool_hint_def hint_argument_def Let_def)
qed

theorem format_tool_hint_shows_key_witness:
  "format_tool_hint
     (Some [\<lparr>tc_id = ''c1'', tc_name = ''read_file'',
             tc_arguments = CHR ''{'' # CHR 0x22 # ''path'' @ CHR 0x22 # '':'' @ [CHR 0x22] @ ''config.json'' @ [CHR 0x22] @ ''}''\<rparr>])
   = Some ''read_file(path)''"
  using format_tool_hint_shows_key [of "''path''" "''c1''" "''read_file''"] by simp

end
