(* ===== verification/Ring.thy ===== *)
theory Ring
  imports Prelude
begin

text \<open>
  Circular buffers: the list of the elements between two positions of an array that is read
  modulo its length, and the arithmetic of positions that the ring-buffer proofs need.
\<close>

definition ring_len :: "nat \<Rightarrow> nat \<Rightarrow> nat \<Rightarrow> nat" where
  "ring_len cap front rear = (rear + cap - front) mod cap"

definition ring_take :: "'a list \<Rightarrow> nat \<Rightarrow> nat \<Rightarrow> 'a list" where
  "ring_take xs front rear = take (ring_len (length xs) front rear) (rotate front xs)"

lemma ring_len_less: "0 < cap \<Longrightarrow> ring_len cap front rear < cap"
  by (simp add: ring_len_def)

lemma ring_len_end: "front < cap \<Longrightarrow> rear < cap \<Longrightarrow> (front + ring_len cap front rear) mod cap = rear"
proof -
  assume f: "front < cap" and r: "rear < cap"
  have "(front + (rear + cap - front) mod cap) mod cap = (front + (rear + cap - front)) mod cap"
    by (simp add: mod_add_right_eq)
  also have "\<dots> = rear" using f r by simp
  finally show ?thesis by (simp add: ring_len_def)
qed

lemma ring_offset_le:
  fixes front :: nat
  assumes "(front + k) mod cap = (front + l) mod cap" and "l < cap" and "k \<le> l"
  shows "k = l"
proof -
  from assms(1,3) have "cap dvd (front + l) - (front + k)"
    using mod_eq_dvd_iff_nat [of "front + k" "front + l" cap] by simp
  then have "cap dvd l - k" by simp
  with assms(2,3) show ?thesis using nat_dvd_not_less [of "l - k" cap] by (cases "k = l") auto
qed

lemma ring_offset_unique:
  fixes front :: nat
  assumes "(front + k) mod cap = (front + l) mod cap" and "k < cap" and "l < cap"
  shows "k = l"
proof (cases "k \<le> l")
  case True
  then show ?thesis by (rule ring_offset_le [OF assms(1,3)])
next
  case False
  then have "l \<le> k" by simp
  then show ?thesis using ring_offset_le [OF assms(1) [symmetric] assms(2)] by simp
qed

lemma ring_len_unique:
  assumes "front < cap" and "rear < cap" and "(front + k) mod cap = rear" and "k < cap"
  shows "ring_len cap front rear = k"
proof (rule ring_offset_unique)
  show "(front + ring_len cap front rear) mod cap = (front + k) mod cap"
    using assms ring_len_end by simp
  show "ring_len cap front rear < cap" using assms by (intro ring_len_less) simp
qed (rule assms(4))

lemma ring_len_0: "front < cap \<Longrightarrow> rear < cap \<Longrightarrow> ring_len cap front rear = 0 \<longleftrightarrow> front = rear"
  using ring_len_unique [of front cap rear 0] ring_len_end [of front cap rear] by auto

lemma ring_len_push:
  assumes "front < cap" and "rear < cap" and "(rear + 1) mod cap \<noteq> front"
  shows "ring_len cap front ((rear + 1) mod cap) = Suc (ring_len cap front rear)"
proof (rule ring_len_unique)
  have e: "(front + ring_len cap front rear) mod cap = rear" using assms ring_len_end by blast
  have "(front + Suc (ring_len cap front rear)) mod cap = (rear + 1) mod cap"
    by (metis e add.assoc add_Suc_right mod_add_left_eq plus_1_eq_Suc add.commute)
  then show s: "(front + Suc (ring_len cap front rear)) mod cap = (rear + 1) mod cap" .
  show "Suc (ring_len cap front rear) < cap"
  proof (rule ccontr)
    assume "\<not> ?thesis"
    with ring_len_less [of cap front rear] assms have "Suc (ring_len cap front rear) = cap" by auto
    with s assms show False by simp
  qed
qed (use assms in auto)

lemma ring_len_pop:
  assumes "front < cap" and "rear < cap" and "front \<noteq> rear"
  shows "ring_len cap front rear = Suc (ring_len cap ((front + 1) mod cap) rear)"
proof -
  let ?n = "ring_len cap front rear"
  have "?n \<noteq> 0" using assms ring_len_0 by blast
  then obtain k where k: "?n = Suc k" by (cases ?n) auto
  have e: "(front + ?n) mod cap = rear" using assms ring_len_end by blast
  have "((front + 1) mod cap + k) mod cap = rear"
    using e k by (simp add: mod_add_left_eq)
  moreover have "k < cap" using k ring_len_less [of cap front rear] assms by auto
  ultimately have "ring_len cap ((front + 1) mod cap) rear = k"
    using assms by (intro ring_len_unique) auto
  with k show ?thesis by simp
qed

lemma rotate_hd: "front < length xs \<Longrightarrow> rotate front xs = xs ! front # tl (rotate front xs)"
proof -
  assume f: "front < length xs"
  then have "rotate front xs \<noteq> []" by auto
  moreover have "hd (rotate front xs) = xs ! front"
    using f nth_rotate [of 0 xs front] calculation by (simp add: hd_conv_nth)
  ultimately show ?thesis by (metis list.collapse)
qed

lemma rotate_next: "front < length xs \<Longrightarrow> rotate ((front + 1) mod length xs) xs = tl (rotate front xs) @ [xs ! front]"
proof -
  assume f: "front < length xs"
  have "rotate ((front + 1) mod length xs) xs = rotate (Suc front) xs"
    by (metis Suc_eq_plus1 rotate_conv_mod)
  also have "\<dots> = rotate1 (rotate front xs)" by simp
  also have "\<dots> = tl (rotate front xs) @ [xs ! front]"
    using rotate_hd [OF f] by (metis rotate1.simps(2))
  finally show ?thesis .
qed

lemma ring_take_empty: "front < length xs \<Longrightarrow> ring_take xs front front = []"
  by (simp add: ring_take_def ring_len_def)

lemma ring_take_pop:
  assumes "front < length xs" and "rear < length xs" and "front \<noteq> rear"
  shows "ring_take xs front rear = xs ! front # ring_take xs ((front + 1) mod length xs) rear"
proof -
  let ?n = "ring_len (length xs) ((front + 1) mod length xs) rear"
  have n: "ring_len (length xs) front rear = Suc ?n" by (rule ring_len_pop [OF assms])
  have "0 < length xs" using assms(1) by linarith
  then have "Suc ?n < length xs" using n ring_len_less [of "length xs" front rear] by simp
  then have l: "?n \<le> length (tl (rotate front xs))" by simp
  have "ring_take xs front rear = take (Suc ?n) (rotate front xs)" by (simp add: ring_take_def n)
  also have "\<dots> = xs ! front # take ?n (tl (rotate front xs))"
    by (subst rotate_hd [OF assms(1)]) simp
  also have "take ?n (tl (rotate front xs)) = take ?n (rotate ((front + 1) mod length xs) xs)"
    using l by (simp add: rotate_next [OF assms(1), simplified])
  finally show ?thesis by (simp add: ring_take_def)
qed

lemma rotate_update:
  assumes "front < length xs" and "k < length xs"
  shows "rotate front (xs[(front + k) mod length xs := v]) = (rotate front xs)[k := v]"
proof (rule nth_equalityI)
  fix i
  assume "i < length (rotate front (xs[(front + k) mod length xs := v]))"
  then have i: "i < length xs" by simp
  have "(front + i) mod length xs = (front + k) mod length xs \<longleftrightarrow> i = k"
    using ring_offset_unique [of front i "length xs" k] i assms by auto
  moreover have "(front + k) mod length xs < length xs" using assms by (intro mod_less_divisor) linarith
  ultimately show "rotate front (xs[(front + k) mod length xs := v]) ! i = (rotate front xs)[k := v] ! i"
    using i by (auto simp: nth_rotate nth_list_update)
qed simp

lemma ring_take_push:
  assumes "front < length xs" and "rear < length xs" and "(rear + 1) mod length xs \<noteq> front"
  shows "ring_take (xs[rear := v]) front ((rear + 1) mod length xs) = ring_take xs front rear @ [v]"
proof -
  let ?n = "ring_len (length xs) front rear"
  have n: "ring_len (length xs) front ((rear + 1) mod length xs) = Suc ?n"
    by (rule ring_len_push [OF assms])
  have nl: "?n < length xs" using assms ring_len_less [of "length xs"] by force
  have "(front + ?n) mod length xs = rear" using assms ring_len_end by blast
  then have "rotate front (xs[rear := v]) = (rotate front xs)[?n := v]"
    using rotate_update [OF assms(1) nl] by simp
  then show ?thesis
    using n nl by (simp add: ring_take_def take_Suc_conv_app_nth)
qed

lemma length_ring_take: "front < length xs \<Longrightarrow> length (ring_take xs front rear) = ring_len (length xs) front rear"
proof -
  assume "front < length xs"
  then have "ring_len (length xs) front rear < length xs" by (intro ring_len_less) linarith
  then show ?thesis by (simp add: ring_take_def)
qed

end
