(* ===== verification/Bus.thy ===== *)
theory Bus
  imports Message Ring "HOL-Library.Multiset"
begin

text \<open>
  \<open>src/src/bus/message_bus.c\<close>: the ring-buffer queues and the bus made of three of them. Every
  function below is the code between locking and unlocking the queue's mutex, which is one atomic
  step; a thread that would block in \<open>pthread_cond_wait\<close> gets the answer \<open>Wait\<close> and tries again at
  a later step. Messages that the code frees are returned, so that ownership is visible. The
  interface of a queue is the locale \<open>fifo\<close>; the ring buffer interprets it.
\<close>

section \<open>State\<close>

datatype message_kind = MESSAGE_KIND_INBOUND | MESSAGE_KIND_OUTBOUND | MESSAGE_KIND_INTERNAL

text \<open>A slot that was never written is \<open>None\<close>.\<close>

record 'm MessageQueue =
  q_items :: "'m option list"
  q_front :: nat
  q_rear :: nat
  q_capacity :: nat
  q_kind :: message_kind
  q_closed :: bool

record MessageBus =
  inbound :: "InboundMessage MessageQueue"
  outbound :: "OutboundMessage MessageQueue"
  internal :: "InternalEvent MessageQueue"

section \<open>Queue operations\<close>

definition message_queue_init :: "bool \<Rightarrow> message_kind \<Rightarrow> 'm MessageQueue option" where
  "message_queue_init ok kind =
     (if \<not> ok then None
      else Some \<lparr>q_items = replicate 16 None, q_front = 0, q_rear = 0, q_capacity = 16,
                 q_kind = kind, q_closed = False\<rparr>)"

definition message_queue_close :: "'m MessageQueue \<Rightarrow> 'm MessageQueue" where
  "message_queue_close q = q\<lparr>q_closed := True\<rparr>"

text \<open>
  The copy loop of a growing queue: \<open>for (i = front; i != rear; i = (i + 1) % capacity)\<close>. \<open>None\<close> is
  the loop that never reaches \<open>rear\<close>.
\<close>

partial_function (option) ring_walk ::
  "'m option list \<Rightarrow> nat \<Rightarrow> nat \<Rightarrow> nat \<Rightarrow> 'm option list \<Rightarrow> 'm option list option" where
  "ring_walk items cap i rear new_items =
     (if i = rear then Some new_items
      else ring_walk items cap ((i + 1) mod cap) rear (new_items @ [items ! i]))"

text \<open>
  \<open>message_queue_send\<close>: the new queue and the messages that were freed; \<open>malloc_ok\<close> is whether the
  larger buffer can be allocated.
\<close>

definition message_queue_send ::
  "bool \<Rightarrow> 'm MessageQueue \<Rightarrow> 'm \<Rightarrow> ('m MessageQueue \<times> 'm list) option" where
  "message_queue_send malloc_ok q msg =
     (if q_closed q then Some (q, [msg])
      else
        (let next_rear = (q_rear q + 1) mod q_capacity q in
         if next_rear = q_front q then
           (if \<not> malloc_ok then Some (q, [msg])
            else
              (case ring_walk (q_items q) (q_capacity q) (q_front q) (q_rear q) [] of
                 None \<Rightarrow> None
               | Some copied \<Rightarrow>
                   (let new_cap = q_capacity q * 2;
                        j = length copied;
                        items = copied @ replicate (new_cap - j) None
                    in Some (q\<lparr>q_items := items[j := Some msg], q_front := 0,
                               q_rear := (j + 1) mod new_cap, q_capacity := new_cap\<rparr>, []))))
         else Some (q\<lparr>q_items := (q_items q)[q_rear q := Some msg], q_rear := next_rear\<rparr>, [])))"

datatype 'm recv = Wait | Return "'m option"

text \<open>One turn of the receive loop while the mutex is held.\<close>

definition message_queue_receive :: "'m MessageQueue \<Rightarrow> 'm recv \<times> 'm MessageQueue" where
  "message_queue_receive q =
     (if q_front q = q_rear q \<and> \<not> q_closed q then (Wait, q)
      else if q_front q = q_rear q then (Return None, q)
      else (Return (q_items q ! q_front q), q\<lparr>q_front := (q_front q + 1) mod q_capacity q\<rparr>))"

text \<open>The same with a timeout; \<open>timed_out\<close> is whether the wait returned \<open>ETIMEDOUT\<close>.\<close>

definition message_queue_receive_timed ::
  "int \<Rightarrow> bool \<Rightarrow> 'm MessageQueue \<Rightarrow> 'm recv \<times> 'm MessageQueue" where
  "message_queue_receive_timed timeout_ms timed_out q =
     (if timeout_ms \<le> 0 then (Return None, q)
      else if q_front q = q_rear q \<and> \<not> q_closed q
        then (if timed_out then (Return None, q) else (Wait, q))
      else if q_front q = q_rear q then (Return None, q)
      else (Return (q_items q ! q_front q), q\<lparr>q_front := (q_front q + 1) mod q_capacity q\<rparr>))"

text \<open>The absolute deadline of a timed wait: seconds and nanoseconds of the clock plus the timeout.\<close>

definition wait_deadline :: "int \<Rightarrow> int \<Rightarrow> int \<Rightarrow> int \<times> int" where
  "wait_deadline tv_sec tv_nsec timeout_ms =
     (let s = tv_sec + timeout_ms div 1000; n = tv_nsec + (timeout_ms mod 1000) * 1000000
      in if n \<ge> 1000000000 then (s + 1, n - 1000000000) else (s, n))"

text \<open>
  \<open>message_queue_free\<close> closes the queue, gives receivers up to a hundred chances to empty it, then
  frees what is left and resets the queue. \<open>q\<close> is the queue at the end of the waiting.
\<close>

definition message_queue_free :: "'m MessageQueue \<Rightarrow> ('m MessageQueue \<times> 'm option list) option" where
  "message_queue_free q =
     (case ring_walk (q_items q) (q_capacity q) (q_front q) (q_rear q) [] of
        None \<Rightarrow> None
      | Some rest \<Rightarrow>
          Some (q\<lparr>q_closed := True, q_items := [], q_capacity := 0, q_front := 0, q_rear := 0\<rparr>, rest))"

section \<open>Bus operations\<close>

definition message_bus_new :: "bool \<Rightarrow> bool \<Rightarrow> bool \<Rightarrow> bool \<Rightarrow> MessageBus option" where
  "message_bus_new ok ok_in ok_out ok_internal =
     (if \<not> ok then None
      else case message_queue_init ok_in MESSAGE_KIND_INBOUND of
        None \<Rightarrow> None
      | Some i \<Rightarrow>
          (case message_queue_init ok_out MESSAGE_KIND_OUTBOUND of
             None \<Rightarrow> None
           | Some ob \<Rightarrow>
               (case message_queue_init ok_internal MESSAGE_KIND_INTERNAL of
                  None \<Rightarrow> None
                | Some n \<Rightarrow> Some \<lparr>inbound = i, outbound = ob, internal = n\<rparr>)))"

definition message_bus_close :: "MessageBus \<Rightarrow> MessageBus" where
  "message_bus_close bus =
     bus\<lparr>inbound := message_queue_close (inbound bus),
         outbound := message_queue_close (outbound bus),
         internal := message_queue_close (internal bus)\<rparr>"

definition message_bus_send_inbound ::
  "bool \<Rightarrow> MessageBus option \<Rightarrow> InboundMessage \<Rightarrow> (MessageBus option \<times> InboundMessage list) option" where
  "message_bus_send_inbound malloc_ok bus msg =
     (case bus of
        None \<Rightarrow> Some (None, [msg])
      | Some b \<Rightarrow>
          map_option (\<lambda>(q, freed). (Some (b\<lparr>inbound := q\<rparr>), freed))
            (message_queue_send malloc_ok (inbound b) msg))"

definition message_bus_receive_inbound ::
  "MessageBus option \<Rightarrow> InboundMessage recv \<times> MessageBus option" where
  "message_bus_receive_inbound bus =
     (case bus of
        None \<Rightarrow> (Return None, None)
      | Some b \<Rightarrow> (let (r, q) = message_queue_receive (inbound b) in (r, Some (b\<lparr>inbound := q\<rparr>))))"

definition message_bus_receive_inbound_timed ::
  "int \<Rightarrow> bool \<Rightarrow> MessageBus option \<Rightarrow> InboundMessage recv \<times> MessageBus option" where
  "message_bus_receive_inbound_timed timeout_ms timed_out bus =
     (case bus of
        None \<Rightarrow> (Return None, None)
      | Some b \<Rightarrow> (let (r, q) = message_queue_receive_timed timeout_ms timed_out (inbound b)
                  in (r, Some (b\<lparr>inbound := q\<rparr>))))"

definition message_bus_send_outbound ::
  "bool \<Rightarrow> MessageBus option \<Rightarrow> OutboundMessage \<Rightarrow> (MessageBus option \<times> OutboundMessage list) option" where
  "message_bus_send_outbound malloc_ok bus msg =
     (case bus of
        None \<Rightarrow> Some (None, [msg])
      | Some b \<Rightarrow>
          map_option (\<lambda>(q, freed). (Some (b\<lparr>outbound := q\<rparr>), freed))
            (message_queue_send malloc_ok (outbound b) msg))"

definition message_bus_receive_outbound ::
  "MessageBus option \<Rightarrow> OutboundMessage recv \<times> MessageBus option" where
  "message_bus_receive_outbound bus =
     (case bus of
        None \<Rightarrow> (Return None, None)
      | Some b \<Rightarrow> (let (r, q) = message_queue_receive (outbound b) in (r, Some (b\<lparr>outbound := q\<rparr>))))"

definition message_bus_receive_outbound_timed ::
  "int \<Rightarrow> bool \<Rightarrow> MessageBus option \<Rightarrow> OutboundMessage recv \<times> MessageBus option" where
  "message_bus_receive_outbound_timed timeout_ms timed_out bus =
     (case bus of
        None \<Rightarrow> (Return None, None)
      | Some b \<Rightarrow> (let (r, q) = message_queue_receive_timed timeout_ms timed_out (outbound b)
                  in (r, Some (b\<lparr>outbound := q\<rparr>))))"

definition message_bus_is_outbound_closed :: "MessageBus option \<Rightarrow> bool" where
  "message_bus_is_outbound_closed bus = (case bus of None \<Rightarrow> True | Some b \<Rightarrow> q_closed (outbound b))"

text \<open>A null bus or a null event is ignored; the event is then not freed either.\<close>

definition message_bus_send_internal ::
  "bool \<Rightarrow> MessageBus option \<Rightarrow> InternalEvent option \<Rightarrow> (MessageBus option \<times> InternalEvent list) option" where
  "message_bus_send_internal malloc_ok bus event =
     (case (bus, event) of
        (Some b, Some e) \<Rightarrow>
          map_option (\<lambda>(q, freed). (Some (b\<lparr>internal := q\<rparr>), freed))
            (message_queue_send malloc_ok (internal b) e)
      | _ \<Rightarrow> Some (bus, []))"

definition message_bus_receive_internal_timed ::
  "int \<Rightarrow> bool \<Rightarrow> MessageBus option \<Rightarrow> InternalEvent recv \<times> MessageBus option" where
  "message_bus_receive_internal_timed timeout_ms timed_out bus =
     (case bus of
        None \<Rightarrow> (Return None, None)
      | Some b \<Rightarrow> (let (r, q) = message_queue_receive_timed timeout_ms timed_out (internal b)
                  in (r, Some (b\<lparr>internal := q\<rparr>))))"

lemmas queue_op_defs [op_defs] =
  message_queue_init_def message_queue_close_def message_queue_send_def message_queue_receive_def
  message_queue_receive_timed_def message_queue_free_def

section \<open>Well-formed queues and their contents\<close>

definition wf_queue :: "'m MessageQueue \<Rightarrow> bool" where
  "wf_queue q =
     (length (q_items q) = q_capacity q \<and> 2 \<le> q_capacity q
      \<and> q_front q < q_capacity q \<and> q_rear q < q_capacity q
      \<and> None \<notin> set (ring_take (q_items q) (q_front q) (q_rear q)))"

declare wf_queue_def [inv_defs]

definition queue_list :: "'m MessageQueue \<Rightarrow> 'm list" where
  "queue_list q = map the (ring_take (q_items q) (q_front q) (q_rear q))"

lemma ring_walk_take:
  assumes "length items = cap" and "i < cap" and "rear < cap"
  shows "ring_walk items cap i rear acc = Some (acc @ ring_take items i rear)"
  using assms(2)
proof (induction "ring_len cap i rear" arbitrary: i acc)
  case 0
  with assms have "i = rear" using ring_len_0 by metis
  with assms show ?case by (simp add: ring_walk.simps ring_take_empty)
next
  case (Suc n)
  then have ne: "i \<noteq> rear" using assms ring_len_0 by (metis nat.discI)
  let ?j = "(i + 1) mod cap"
  have j: "?j < cap" using Suc.prems by (intro mod_less_divisor) linarith
  have n: "n = ring_len cap ?j rear"
    using ring_len_pop [OF Suc.prems assms(3) ne] Suc.hyps(2) by simp
  have "ring_walk items cap i rear acc = ring_walk items cap ?j rear (acc @ [items ! i])"
    using ne by (subst ring_walk.simps) simp
  also have "\<dots> = Some (acc @ items ! i # ring_take items ?j rear)"
    using Suc.hyps(1) [OF n j] by simp
  also have "items ! i # ring_take items ?j rear = ring_take items i rear"
    using ring_take_pop [of i items rear] Suc.prems assms ne by simp
  finally show ?case .
qed

lemma wf_queue_init: "message_queue_init True kind = Some q \<Longrightarrow> wf_queue q \<and> queue_list q = [] \<and> \<not> q_closed q"
  by (auto simp: message_queue_init_def wf_queue_def queue_list_def ring_take_def ring_len_def)

lemma wf_queue_close: "wf_queue q \<Longrightarrow> wf_queue (message_queue_close q) \<and> queue_list (message_queue_close q) = queue_list q"
  by (simp add: message_queue_close_def wf_queue_def queue_list_def)

lemma wf_queue_store:
  assumes "wf_queue q" and "(q_rear q + 1) mod q_capacity q \<noteq> q_front q"
    and "q' = q\<lparr>q_items := (q_items q)[q_rear q := Some m], q_rear := (q_rear q + 1) mod q_capacity q\<rparr>"
  shows "wf_queue q' \<and> queue_list q' = queue_list q @ [m]"
proof -
  have w: "length (q_items q) = q_capacity q" "2 \<le> q_capacity q" "q_front q < q_capacity q"
    "q_rear q < q_capacity q" "None \<notin> set (ring_take (q_items q) (q_front q) (q_rear q))"
    using assms(1) by (simp_all add: wf_queue_def)
  have r: "ring_take ((q_items q)[q_rear q := Some m]) (q_front q) ((q_rear q + 1) mod q_capacity q)
      = ring_take (q_items q) (q_front q) (q_rear q) @ [Some m]"
    using ring_take_push [of "q_front q" "q_items q" "q_rear q" "Some m"] w assms(2) by simp
  have "(q_rear q + 1) mod q_capacity q < q_capacity q" using w by (intro mod_less_divisor) linarith
  with w r show ?thesis by (simp add: assms(3) wf_queue_def queue_list_def)
qed

text \<open>The grown queue: the copied messages in front, then the new one, then free slots.\<close>

lemma wf_queue_grown:
  assumes "None \<notin> set xs" and "length xs + 1 < cap"
  shows "wf_queue (q\<lparr>q_items := (xs @ replicate (cap - length xs) None)[length xs := Some m],
            q_front := 0, q_rear := (length xs + 1) mod cap, q_capacity := cap\<rparr>)
    \<and> queue_list (q\<lparr>q_items := (xs @ replicate (cap - length xs) None)[length xs := Some m],
            q_front := 0, q_rear := (length xs + 1) mod cap, q_capacity := cap\<rparr>)
       = map the xs @ [m]"
proof -
  let ?items = "(xs @ replicate (cap - length xs) None)[length xs := Some m]"
  have len: "length ?items = cap" using assms(2) by simp
  have rl: "ring_len cap 0 (length xs + 1) = length xs + 1"
    by (rule ring_len_unique) (use assms(2) in auto)
  have "ring_take ?items 0 (length xs + 1) = take (Suc (length xs)) ?items"
    using len rl by (simp add: ring_take_def)
  also have "\<dots> = xs @ [Some m]"
    using assms(2) by (simp add: list_update_append take_Suc_conv_app_nth del: replicate.simps)
  finally have t: "ring_take ?items 0 (length xs + 1) = xs @ [Some m]" .
  show ?thesis using assms len t by (simp add: wf_queue_def queue_list_def del: append_replicate_commute)
qed

lemma message_queue_send_cases:
  assumes "wf_queue q"
  shows "\<exists>q' freed. message_queue_send malloc_ok q m = Some (q', freed) \<and> wf_queue q'
    \<and> q_closed q' = q_closed q
    \<and> (if q_closed q then freed = [m] \<and> q' = q
       else freed = [] \<and> queue_list q' = queue_list q @ [m] \<or> freed = [m] \<and> q' = q \<and> \<not> malloc_ok)"
proof -
  have w: "length (q_items q) = q_capacity q" "2 \<le> q_capacity q" "q_front q < q_capacity q"
    "q_rear q < q_capacity q" "None \<notin> set (ring_take (q_items q) (q_front q) (q_rear q))"
    using assms by (simp_all add: wf_queue_def)
  show ?thesis
  proof (cases "q_closed q \<or> (q_rear q + 1) mod q_capacity q \<noteq> q_front q \<or> \<not> malloc_ok")
    case True
    with assms wf_queue_store [OF assms _ refl, of m] show ?thesis
      by (auto simp: message_queue_send_def Let_def)
  next
    case False
    let ?xs = "ring_take (q_items q) (q_front q) (q_rear q)"
    have walk: "ring_walk (q_items q) (q_capacity q) (q_front q) (q_rear q) [] = Some ?xs"
      using ring_walk_take [of "q_items q" "q_capacity q" "q_front q" "q_rear q" "[]"] w by simp
    have "length ?xs < q_capacity q"
      using length_ring_take [of "q_front q" "q_items q" "q_rear q"] w
        ring_len_less [of "q_capacity q" "q_front q" "q_rear q"] by simp
    then have "length ?xs + 1 < q_capacity q * 2" using w by simp
    from wf_queue_grown [OF w(5) this, where q = q and m = m] False walk show ?thesis
      by (auto simp: message_queue_send_def Let_def queue_list_def)
  qed
qed

lemma message_queue_receive_cases:
  assumes "wf_queue q"
  shows "message_queue_receive q =
     (case queue_list q of
        [] \<Rightarrow> (if q_closed q then Return None else Wait, q)
      | m # ms \<Rightarrow> (Return (Some m), q\<lparr>q_front := (q_front q + 1) mod q_capacity q\<rparr>))
    \<and> (queue_list q \<noteq> [] \<longrightarrow>
        wf_queue (q\<lparr>q_front := (q_front q + 1) mod q_capacity q\<rparr>)
        \<and> queue_list (q\<lparr>q_front := (q_front q + 1) mod q_capacity q\<rparr>) = tl (queue_list q))"
proof -
  have w: "length (q_items q) = q_capacity q" "2 \<le> q_capacity q" "q_front q < q_capacity q"
    "q_rear q < q_capacity q" "None \<notin> set (ring_take (q_items q) (q_front q) (q_rear q))"
    using assms by (simp_all add: wf_queue_def)
  show ?thesis
  proof (cases "q_front q = q_rear q")
    case True
    then have "queue_list q = []" using w by (simp add: queue_list_def ring_take_empty)
    with True show ?thesis by (simp add: message_queue_receive_def)
  next
    case False
    then have p: "ring_take (q_items q) (q_front q) (q_rear q) =
        q_items q ! q_front q # ring_take (q_items q) ((q_front q + 1) mod q_capacity q) (q_rear q)"
      using ring_take_pop [of "q_front q" "q_items q" "q_rear q"] w by simp
    with w(5) obtain m where m: "q_items q ! q_front q = Some m" by (cases "q_items q ! q_front q") auto
    have "(q_front q + 1) mod q_capacity q < q_capacity q" using w by (intro mod_less_divisor) linarith
    with p m w False show ?thesis by (auto simp: message_queue_receive_def queue_list_def wf_queue_def)
  qed
qed

section \<open>The queue interface\<close>

text \<open>Operations of the threads that share a queue, in the order in which they take its mutex.\<close>

datatype 'm qop = Send bool 'm | Receive | Close

text \<open>
  A history: the queue, the messages accepted so far, those handed to receivers and those freed
  by the queue.
\<close>

record ('q, 'm) qhistory =
  h_queue :: 'q
  h_accepted :: "'m list"
  h_received :: "'m list"
  h_freed :: "'m list"

fun qop_step ::
  "(bool \<Rightarrow> 'q \<Rightarrow> 'm \<Rightarrow> ('q \<times> 'm list) option) \<Rightarrow> ('q \<Rightarrow> 'm recv \<times> 'q) \<Rightarrow> ('q \<Rightarrow> 'q)
   \<Rightarrow> ('q, 'm) qhistory \<Rightarrow> 'm qop \<Rightarrow> ('q, 'm) qhistory option" where
  "qop_step send recv close h (Send ok m) =
     (case send ok (h_queue h) m of
        None \<Rightarrow> None
      | Some (q, freed) \<Rightarrow>
          Some (h\<lparr>h_queue := q, h_freed := h_freed h @ freed,
                  h_accepted := h_accepted h @ (if freed = [] then [m] else [])\<rparr>))"
| "qop_step send recv close h Receive =
     (case recv (h_queue h) of
        (Return (Some m), q) \<Rightarrow> Some (h\<lparr>h_queue := q, h_received := h_received h @ [m]\<rparr>)
      | (_, q) \<Rightarrow> Some (h\<lparr>h_queue := q\<rparr>))"
| "qop_step send recv close h Close = Some (h\<lparr>h_queue := close (h_queue h)\<rparr>)"

fun qop_run ::
  "(bool \<Rightarrow> 'q \<Rightarrow> 'm \<Rightarrow> ('q \<times> 'm list) option) \<Rightarrow> ('q \<Rightarrow> 'm recv \<times> 'q) \<Rightarrow> ('q \<Rightarrow> 'q)
   \<Rightarrow> ('q, 'm) qhistory \<Rightarrow> 'm qop list \<Rightarrow> ('q, 'm) qhistory option" where
  "qop_run send recv close h [] = Some h"
| "qop_run send recv close h (p # ps) =
     (case qop_step send recv close h p of None \<Rightarrow> None | Some h' \<Rightarrow> qop_run send recv close h' ps)"

fun sent_messages :: "'m qop list \<Rightarrow> 'm list" where
  "sent_messages [] = []"
| "sent_messages (Send ok m # ps) = m # sent_messages ps"
| "sent_messages (Receive # ps) = sent_messages ps"
| "sent_messages (Close # ps) = sent_messages ps"

locale fifo =
  fixes send :: "bool \<Rightarrow> 'q \<Rightarrow> 'm \<Rightarrow> ('q \<times> 'm list) option"
    and recv :: "'q \<Rightarrow> 'm recv \<times> 'q"
    and close :: "'q \<Rightarrow> 'q"
    and contents :: "'q \<Rightarrow> 'm list"
    and closed :: "'q \<Rightarrow> bool"
    and inv :: "'q \<Rightarrow> bool"
  assumes send_law: "inv q \<Longrightarrow> \<exists>q' freed. send ok q m = Some (q', freed) \<and> inv q'
      \<and> closed q' = closed q
      \<and> (freed = [] \<and> \<not> closed q \<and> contents q' = contents q @ [m]
         \<or> freed = [m] \<and> contents q' = contents q \<and> (closed q \<or> \<not> ok))"
    and recv_some: "inv q \<Longrightarrow> contents q = m # ms \<Longrightarrow>
      \<exists>q'. recv q = (Return (Some m), q') \<and> inv q' \<and> contents q' = ms \<and> closed q' = closed q"
    and recv_none: "inv q \<Longrightarrow> contents q = [] \<Longrightarrow>
      recv q = (if closed q then Return None else Wait, q)"
    and close_law: "inv q \<Longrightarrow> inv (close q) \<and> contents (close q) = contents q \<and> closed (close q)"
begin

definition hist_inv :: "('q, 'm) qhistory \<Rightarrow> bool" where
  "hist_inv h = (inv (h_queue h) \<and> h_accepted h = h_received h @ contents (h_queue h))"

lemma step_ok:
  assumes "hist_inv h"
  shows "\<exists>h'. qop_step send recv close h p = Some h' \<and> hist_inv h'
    \<and> mset (h_accepted h') + mset (h_freed h') = mset (h_accepted h) + mset (h_freed h) + mset (sent_messages [p])"
proof (cases p)
  case (Send ok m)
  have i: "inv (h_queue h)" using assms by (simp add: hist_inv_def)
  from send_law [OF i, of ok m] obtain q' freed where
    "send ok (h_queue h) m = Some (q', freed)" "inv q'"
    "freed = [] \<and> contents q' = contents (h_queue h) @ [m] \<or> freed = [m] \<and> contents q' = contents (h_queue h)"
    by blast
  with Send assms show ?thesis by (auto simp: hist_inv_def)
next
  case Receive
  have i: "inv (h_queue h)" using assms by (simp add: hist_inv_def)
  show ?thesis
  proof (cases "contents (h_queue h)")
    case Nil
    with Receive assms recv_none [OF i Nil] show ?thesis by (auto simp: hist_inv_def)
  next
    case (Cons m ms)
    from recv_some [OF i Cons] obtain q' where "recv (h_queue h) = (Return (Some m), q')" "inv q'" "contents q' = ms"
      by blast
    with Receive Cons assms show ?thesis by (auto simp: hist_inv_def)
  qed
next
  case Close
  with assms close_law show ?thesis by (auto simp: hist_inv_def)
qed

lemma run_ok:
  "hist_inv h \<Longrightarrow> \<exists>h'. qop_run send recv close h ps = Some h' \<and> hist_inv h'
    \<and> mset (h_accepted h') + mset (h_freed h') = mset (h_accepted h) + mset (h_freed h) + mset (sent_messages ps)"
proof (induction ps arbitrary: h)
  case Nil
  then show ?case by simp
next
  case (Cons p ps)
  from step_ok [OF Cons.prems, of p] obtain h1 where h1: "qop_step send recv close h p = Some h1" "hist_inv h1"
    "mset (h_accepted h1) + mset (h_freed h1) = mset (h_accepted h) + mset (h_freed h) + mset (sent_messages [p])"
    by blast
  from Cons.IH [OF h1(2)] obtain h2 where h2: "qop_run send recv close h1 ps = Some h2" "hist_inv h2"
    "mset (h_accepted h2) + mset (h_freed h2) = mset (h_accepted h1) + mset (h_freed h1) + mset (sent_messages ps)"
    by blast
  have "mset (sent_messages (p # ps)) = mset (sent_messages [p]) + mset (sent_messages ps)"
    by (cases p) simp_all
  with h1 h2 show ?case by (simp add: add.assoc)
qed

lemma drain:
  "inv (h_queue h) \<Longrightarrow> closed (h_queue h) \<Longrightarrow>
   \<exists>h'. qop_run send recv close h (replicate (length (contents (h_queue h))) Receive) = Some h'
     \<and> h_received h' = h_received h @ contents (h_queue h) \<and> inv (h_queue h') \<and> contents (h_queue h') = []
     \<and> closed (h_queue h')"
proof (induction "contents (h_queue h)" arbitrary: h)
  case Nil
  then show ?case by (metis append_Nil2 list.size(3) qop_run.simps(1) replicate_0)
next
  case (Cons m ms)
  from recv_some [OF Cons.prems(1) Cons.hyps(2) [symmetric]] obtain q' where
    q': "recv (h_queue h) = (Return (Some m), q')" "inv q'" "contents q' = ms" "closed q'"
    using Cons.prems(2) by auto
  let ?h = "h\<lparr>h_queue := q', h_received := h_received h @ [m]\<rparr>"
  have "\<exists>h'. qop_run send recv close ?h (replicate (length (contents (h_queue ?h))) Receive) = Some h'
     \<and> h_received h' = h_received ?h @ contents (h_queue ?h) \<and> inv (h_queue h') \<and> contents (h_queue h') = []
     \<and> closed (h_queue h')"
    by (rule Cons.hyps(1)) (use q' in simp_all)
  with q' Cons.hyps(2) [symmetric] show ?case by simp
qed

end

interpretation bq: fifo message_queue_send message_queue_receive message_queue_close queue_list q_closed wf_queue
proof (unfold_locales, goal_cases)
  case (1 q ok m)
  from message_queue_send_cases [OF 1, of ok m] show ?case by (auto split: if_splits)
next
  case (2 q m ms)
  with message_queue_receive_cases [OF 2(1)] show ?case by auto
next
  case (3 q)
  with message_queue_receive_cases [OF 3(1)] show ?case by simp
next
  case (4 q)
  then show ?case using wf_queue_close by (auto simp: message_queue_close_def)
qed

section \<open>Properties\<close>

abbreviation queue_run ::
  "'m MessageQueue \<Rightarrow> 'm qop list \<Rightarrow> ('m MessageQueue, 'm) qhistory option" where
  "queue_run q ps \<equiv> qop_run message_queue_send message_queue_receive message_queue_close
     \<lparr>h_queue = q, h_accepted = [], h_received = [], h_freed = []\<rparr> ps"

text \<open>
  Claim C33. Whatever threads send to a queue, receive from it and close it, in whatever order they
  take its mutex and whichever allocations fail, every operation returns and no message is lost,
  duplicated or reordered: the accepted messages are exactly the received ones followed by those
  still in the ring buffer, in the order in which they were accepted, and every message that was
  sent was either accepted or freed by the queue exactly once.
\<close>

theorem message_queue_fifo:
  assumes "message_queue_init True kind = Some q"
  shows "\<exists>h. queue_run q ps = Some h
    \<and> h_accepted h = h_received h @ queue_list (h_queue h)
    \<and> mset (sent_messages ps) = mset (h_accepted h) + mset (h_freed h)"
proof -
  let ?h = "\<lparr>h_queue = q, h_accepted = [], h_received = [], h_freed = []\<rparr>"
  have "bq.hist_inv ?h" using wf_queue_init [OF assms] by (simp add: bq.hist_inv_def)
  from bq.run_ok [OF this, of ps] show ?thesis by (auto simp: bq.hist_inv_def)
qed

theorem message_queue_fifo_witness:
  "\<exists>q h. message_queue_init True MESSAGE_KIND_INBOUND = Some q
     \<and> queue_run q [Send True (1 :: nat), Send True 2, Receive, Close, Send True 3] = Some h
     \<and> h_accepted h = h_received h @ queue_list (h_queue h)"
proof -
  obtain q where q: "message_queue_init True MESSAGE_KIND_INBOUND = Some (q :: nat MessageQueue)"
    by (simp add: message_queue_init_def)
  from message_queue_fifo [OF q, of "[Send True 1, Send True 2, Receive, Close, Send True 3]"] q
  show ?thesis by blast
qed

text \<open>
  Closing a queue strands nobody: its receivers get, one after the other and in order, all
  the messages that were in it, and after that every further receive returns the null message
  instead of blocking, while every further send frees its message and leaves the queue alone.
\<close>

theorem closed_queue_drains:
  assumes "wf_queue q"
  shows "\<exists>h. queue_run q (Close # replicate (length (queue_list q)) Receive) = Some h
    \<and> h_received h = queue_list q
    \<and> message_queue_receive (h_queue h) = (Return None, h_queue h)
    \<and> (\<forall>ok m. message_queue_send ok (h_queue h) m = Some (h_queue h, [m]))"
proof -
  have c: "wf_queue (message_queue_close q)" "queue_list (message_queue_close q) = queue_list q"
    "q_closed (message_queue_close q)"
    using assms bq.close_law by blast+
  from bq.drain [of "\<lparr>h_queue = message_queue_close q, h_accepted = [], h_received = [], h_freed = []\<rparr>"] c
  obtain h where h: "queue_run (message_queue_close q) (replicate (length (queue_list q)) Receive) = Some h"
    "h_received h = queue_list q" "wf_queue (h_queue h)" "queue_list (h_queue h) = []" "q_closed (h_queue h)"
    by auto
  from h bq.recv_none [OF h(3,4)] show ?thesis by (intro exI [of _ h]) (simp add: message_queue_send_def)
qed

theorem closed_queue_drains_witness:
  "\<exists>h. queue_run (\<lparr>q_items = [Some (7 :: nat), None], q_front = 0, q_rear = 1, q_capacity = 2,
           q_kind = MESSAGE_KIND_INBOUND, q_closed = False\<rparr>) [Close, Receive] = Some h
     \<and> h_received h = [7]"
proof -
  let ?q = "\<lparr>q_items = [Some (7 :: nat), None], q_front = 0, q_rear = 1, q_capacity = 2,
           q_kind = MESSAGE_KIND_INBOUND, q_closed = False\<rparr>"
  have r: "ring_take (q_items ?q) (q_front ?q) (q_rear ?q) = [Some 7]" by code_simp
  then have l: "queue_list ?q = [7]" by (simp add: queue_list_def)
  from r have "wf_queue ?q" by (simp add: wf_queue_def)
  from closed_queue_drains [OF this] l show ?thesis by auto
qed

text \<open>
  \<open>message_queue_free\<close> ends on every well-formed queue: its drain loop reaches the rear
  index, the messages it frees are exactly those in the queue, each once and in order, and the
  queue it leaves behind is closed and empty, so that late senders and receivers fall through.
\<close>

theorem message_queue_free_releases_all:
  assumes "wf_queue q"
  shows "\<exists>q' rest. message_queue_free q = Some (q', rest)
    \<and> rest = map Some (queue_list q) \<and> q_closed q' \<and> q_capacity q' = 0
    \<and> message_queue_receive q' = (Return None, q')
    \<and> (\<forall>ok m. message_queue_send ok q' m = Some (q', [m]))"
proof -
  let ?xs = "ring_take (q_items q) (q_front q) (q_rear q)"
  have w: "length (q_items q) = q_capacity q" "q_front q < q_capacity q" "q_rear q < q_capacity q"
    "None \<notin> set ?xs" using assms by (simp_all add: wf_queue_def)
  have "map (Some \<circ> the) ?xs = ?xs" using w(4) by (intro map_idI) (metis comp_apply option.collapse)
  moreover have "ring_walk (q_items q) (q_capacity q) (q_front q) (q_rear q) [] = Some ?xs"
    using ring_walk_take [of "q_items q" "q_capacity q" "q_front q" "q_rear q" "[]"] w by simp
  ultimately show ?thesis
    by (simp add: message_queue_free_def message_queue_receive_def message_queue_send_def queue_list_def)
qed

theorem message_queue_free_releases_all_witness:
  "\<exists>q' rest. message_queue_free \<lparr>q_items = [None, Some (7 :: nat)], q_front = 1, q_rear = 0, q_capacity = 2,
           q_kind = MESSAGE_KIND_INBOUND, q_closed = False\<rparr> = Some (q', rest) \<and> rest = [Some 7]"
proof -
  let ?q = "\<lparr>q_items = [None, Some (7 :: nat)], q_front = 1, q_rear = 0, q_capacity = 2,
           q_kind = MESSAGE_KIND_INBOUND, q_closed = False\<rparr>"
  have r: "ring_take (q_items ?q) (q_front ?q) (q_rear ?q) = [Some 7]" by code_simp
  then have l: "queue_list ?q = [7]" by (simp add: queue_list_def)
  from r have "wf_queue ?q" by (simp add: wf_queue_def)
  from message_queue_free_releases_all [OF this] l show ?thesis by auto
qed

text \<open>A deadline is a normalised time that lies exactly the timeout after the start.\<close>

lemma wait_deadline_normal:
  assumes "0 \<le> tv_nsec" and "tv_nsec < 1000000000" and "0 < timeout_ms"
    and "wait_deadline tv_sec tv_nsec timeout_ms = (s, n)"
  shows "0 \<le> n \<and> n < 1000000000
    \<and> s * 1000000000 + n = tv_sec * 1000000000 + tv_nsec + timeout_ms * 1000000"
proof -
  obtain d r where dr: "d = timeout_ms div 1000" "r = timeout_ms mod 1000" by blast
  have r: "0 \<le> r" "r < 1000" and t: "timeout_ms = 1000 * d + r" by (simp_all add: dr)
  from assms(4) have "(s = tv_sec + d \<and> n = tv_nsec + r * 1000000 \<and> n < 1000000000)
    \<or> (s = tv_sec + d + 1 \<and> n = tv_nsec + r * 1000000 - 1000000000 \<and> 0 \<le> n)"
    by (auto simp: wait_deadline_def Let_def dr split: if_splits)
  with assms(1,2) r t show ?thesis by (auto simp: algebra_simps)
qed

end
