(* ===== verification/Calendar.thy ===== *)
theory Calendar
  imports Prelude
begin

text \<open>
  \<open>localtime_r\<close> and \<open>mktime\<close> as the scheduler uses them: broken-down times in the proleptic
  Gregorian calendar for a time zone with a constant offset from UTC (in seconds east). What the
  scheduler relies on is the locale \<open>calendar\<close>; the functions of this theory interpret it.
  Daylight saving time is not modelled.
\<close>

record tm =
  tm_sec :: int
  tm_min :: int
  tm_hour :: int
  tm_mday :: int
  tm_mon :: int
  tm_year :: int
  tm_wday :: int

section \<open>Days and years\<close>

definition is_leap :: "int \<Rightarrow> bool" where
  "is_leap y = (4 dvd y \<and> (\<not> 100 dvd y \<or> 400 dvd y))"

definition year_start :: "int \<Rightarrow> int" where
  "year_start y = 365 * y + (y - 1) div 4 - (y - 1) div 100 + (y - 1) div 400"

definition epoch_day :: int where
  "epoch_day = year_start 1970"

definition month_lengths :: "int \<Rightarrow> int list" where
  "month_lengths y = [31, if is_leap y then 29 else 28, 31, 30, 31, 30, 31, 31, 30, 31, 30, 31]"

lemma div_pred_step:
  fixes y n :: int
  assumes "0 < n"
  shows "y div n = (y - 1) div n + (if n dvd y then 1 else 0)"
proof (cases "n dvd y")
  case True
  then obtain k where k: "y = n * k" by blast
  have "(n * k - 1) div n = k - 1"
    using assms by (intro int_div_pos_eq [where r = "n - 1"]) (auto simp: algebra_simps)
  with True k assms show ?thesis by simp
next
  case False
  then have m: "0 < y mod n" using assms by (simp add: dvd_eq_mod_eq_0 order_less_le)
  have "(y - 1) div n = y div n"
    using assms m pos_mod_bound [OF assms, of y]
    by (intro int_div_pos_eq [where r = "y mod n - 1"]) (auto simp: algebra_simps)
  with False show ?thesis by simp
qed

lemma year_start_step: "year_start (y + 1) = year_start y + 365 + (if is_leap y then 1 else 0)"
proof -
  have add_steps: "365 * (y + 1) + a' - b' + c' = 365 * y + a - b + c + 365 + (i - j + k)"
    if "a' = a + i" "b' = b + j" "c' = c + k" for a a' b b' c c' i j k :: int
    using that by simp
  have "100 dvd y \<Longrightarrow> 4 dvd y"
    by (rule dvd_trans [of _ 100]) simp_all
  moreover have "400 dvd y \<Longrightarrow> 100 dvd y"
    by (rule dvd_trans [of _ 400]) simp_all
  ultimately have leap: "(if is_leap y then 1 else 0 :: int) =
      (if 4 dvd y then 1 else 0) - (if 100 dvd y then 1 else 0) + (if 400 dvd y then 1 else 0)"
    unfolding is_leap_def by (cases "4 dvd y"; cases "100 dvd y"; cases "400 dvd y") simp_all
  have "year_start (y + 1) = 365 * (y + 1) + y div 4 - y div 100 + y div 400"
    unfolding year_start_def by simp
  then show ?thesis
    unfolding leap unfolding year_start_def
    using add_steps [OF div_pred_step [of 4 y] div_pred_step [of 100 y] div_pred_step [of 400 y]]
    by simp
qed

lemma year_start_mono: "year_start y < year_start (y + 1)"
  by (simp add: year_start_step)

lemma sum_month_lengths: "sum_list (month_lengths y) = year_start (y + 1) - year_start y"
  by (simp add: month_lengths_def year_start_step)

text \<open>The year of a day: correct an estimate downwards and then upwards.\<close>

function year_down :: "int \<Rightarrow> int \<Rightarrow> int" where
  "year_down y d = (if d < year_start y then year_down (y - 1) d else y)"
  by pat_completeness auto
termination
proof (relation "measure (\<lambda>(y, d). nat (year_start y - d))", goal_cases)
  case (2 y d)
  then show ?case using year_start_mono [of "y - 1"] by simp
qed simp

function year_up :: "int \<Rightarrow> int \<Rightarrow> int" where
  "year_up y d = (if year_start (y + 1) \<le> d then year_up (y + 1) d else y)"
  by pat_completeness auto
termination
proof (relation "measure (\<lambda>(y, d). nat (d - year_start y))", goal_cases)
  case (2 y d)
  then show ?case using year_start_mono [of y] by simp
qed simp

declare year_down.simps [simp del] year_up.simps [simp del]

definition year_of_day :: "int \<Rightarrow> int" where
  "year_of_day d = year_up (year_down (d div 366) d) d"

lemma year_down_le: "year_start (year_down y d) \<le> d"
  by (induction y d rule: year_down.induct) (subst year_down.simps, simp)

lemma year_up_le: "year_start y \<le> d \<Longrightarrow> year_start (year_up y d) \<le> d"
proof (induction y d rule: year_up.induct)
  case (1 y d)
  then show ?case by (subst year_up.simps) simp
qed

lemma year_up_less: "d < year_start (year_up y d + 1)"
proof (induction y d rule: year_up.induct)
  case (1 y d)
  then show ?case
    by (cases "year_start (y + 1) \<le> d") (simp_all add: year_up.simps [of y d])
qed

lemma year_of_day_bounds: "year_start (year_of_day d) \<le> d \<and> d < year_start (year_of_day d + 1)"
  unfolding year_of_day_def using year_down_le year_up_le year_up_less by blast

section \<open>Months\<close>

fun month_walk :: "int list \<Rightarrow> int \<Rightarrow> nat \<times> int" where
  "month_walk [] d = (0, d)"
| "month_walk (l # ls) d =
     (if d < l then (0, d) else (let (m, r) = month_walk ls (d - l) in (Suc m, r)))"

lemma month_walk_props:
  "0 \<le> d \<Longrightarrow> d < sum_list ls \<Longrightarrow> month_walk ls d = (m, r) \<Longrightarrow>
   m < length ls \<and> 0 \<le> r \<and> r < ls ! m \<and> d = sum_list (take m ls) + r"
proof (induction ls arbitrary: d m)
  case Nil
  then show ?case by simp
next
  case (Cons l ls)
  show ?case
  proof (cases "d < l")
    case True
    with Cons.prems show ?thesis by simp
  next
    case False
    obtain m' where m': "month_walk ls (d - l) = (m', r)" "m = Suc m'"
      using Cons.prems False by (auto split: prod.splits)
    have "m' < length ls \<and> 0 \<le> r \<and> r < ls ! m' \<and> d - l = sum_list (take m' ls) + r"
      by (rule Cons.IH) (use Cons.prems False m' in auto)
    with m' show ?thesis by simp
  qed
qed

section \<open>Broken-down times\<close>

definition localtime :: "int \<Rightarrow> int \<Rightarrow> tm" where
  "localtime offset t =
     (let u = t + offset;
          day = u div 86400 + epoch_day;
          sod = u mod 86400;
          y = year_of_day day;
          (m, r) = month_walk (month_lengths y) (day - year_start y)
      in \<lparr>tm_sec = sod mod 60, tm_min = sod div 60 mod 60, tm_hour = sod div 3600,
          tm_mday = r + 1, tm_mon = int m, tm_year = y - 1900, tm_wday = (u div 86400 + 4) mod 7\<rparr>)"

definition mktime_value :: "int \<Rightarrow> tm \<Rightarrow> int" where
  "mktime_value offset x =
     (let y = tm_year x + 1900 + tm_mon x div 12;
          m = nat (tm_mon x mod 12);
          day = year_start y + sum_list (take m (month_lengths y)) + tm_mday x - 1 - epoch_day
      in day * 86400 + tm_hour x * 3600 + tm_min x * 60 + tm_sec x - offset)"

text \<open>\<open>mktime\<close> returns the time and normalises the structure that it is given.\<close>

definition mktime :: "int \<Rightarrow> tm \<Rightarrow> int \<times> tm" where
  "mktime offset x = (mktime_value offset x, localtime offset (mktime_value offset x))"

text \<open>What the scheduler relies on.\<close>

locale calendar =
  fixes local :: "int \<Rightarrow> tm"
    and value_of :: "tm \<Rightarrow> int"
  assumes value_local: "value_of (local t) = t"
    and value_linear: "value_of (x\<lparr>tm_sec := s, tm_min := m, tm_hour := h, tm_mday := d\<rparr>) =
      value_of x + (s - tm_sec x) + 60 * (m - tm_min x) + 3600 * (h - tm_hour x) + 86400 * (d - tm_mday x)"
    and ranges: "0 \<le> tm_sec (local t)" "tm_sec (local t) < 60" "0 \<le> tm_min (local t)"
      "tm_min (local t) < 60" "0 \<le> tm_hour (local t)" "tm_hour (local t) < 24"
    and same_minute: "tm_sec (local t) = s \<Longrightarrow> - s \<le> k \<Longrightarrow> k < 60 - s \<Longrightarrow> tm_sec (local (t + k)) = s + k"
begin

lemma value_set:
  "value_of ((local t)\<lparr>tm_sec := s, tm_min := m, tm_hour := h, tm_mday := d\<rparr>) =
   t + (s - tm_sec (local t)) + 60 * (m - tm_min (local t)) + 3600 * (h - tm_hour (local t))
     + 86400 * (d - tm_mday (local t))"
  by (simp add: value_linear value_local)

text \<open>A time of day set on today's date lies less than a day from now.\<close>

lemma set_clock:
  assumes "0 \<le> h" "h < 24" "0 \<le> m" "m < 60"
    and x_def: "x = (local t)\<lparr>tm_hour := h, tm_min := m, tm_sec := 0\<rparr>"
  shows "t - 86400 < value_of x" and "value_of (x\<lparr>tm_mday := tm_mday x + 1\<rparr>) = value_of x + 86400"
proof -
  let ?l = "local t"
  have x: "x = ?l\<lparr>tm_sec := 0, tm_min := m, tm_hour := h, tm_mday := tm_mday ?l\<rparr>"
    by (simp add: x_def)
  have v: "value_of x = t - tm_sec ?l + 60 * (m - tm_min ?l) + 3600 * (h - tm_hour ?l)"
    unfolding x value_set by simp
  show "t - 86400 < value_of x"
    using v ranges [of t] assms(1-4) by simp
  have "x\<lparr>tm_mday := tm_mday x + 1\<rparr>
      = ?l\<lparr>tm_sec := 0, tm_min := m, tm_hour := h, tm_mday := tm_mday ?l + 1\<rparr>"
    by (simp add: x_def)
  then show "value_of (x\<lparr>tm_mday := tm_mday x + 1\<rparr>) = value_of x + 86400"
    using v by (simp add: value_set)
qed

end

lemma localtime_valid_month:
  fixes y day :: int
  assumes "year_start y \<le> day" and "day < year_start (y + 1)"
    and "month_walk (month_lengths y) (day - year_start y) = (m, r)"
  shows "m < 12 \<and> 0 \<le> r \<and> day = year_start y + sum_list (take m (month_lengths y)) + r"
proof -
  have "m < length (month_lengths y) \<and> 0 \<le> r \<and> r < month_lengths y ! m
    \<and> day - year_start y = sum_list (take m (month_lengths y)) + r"
    by (rule month_walk_props) (use assms sum_month_lengths in auto)
  then show ?thesis by (auto simp: month_lengths_def)
qed

lemma seconds_of_day: "x div 3600 * 3600 + (x div 60 mod 60) * 60 + x mod 60 = x" for x :: int
proof -
  have "x div 60 div 60 = x div 3600" by (simp add: zdiv_zmult2_eq [symmetric])
  then show ?thesis
    using div_mult_mod_eq [of "x div 60" 60] div_mult_mod_eq [of x 60] by linarith
qed

lemma mktime_localtime: "mktime_value offset (localtime offset t) = t"
proof -
  let ?u = "t + offset"
  let ?day = "?u div 86400 + epoch_day"
  let ?y = "year_of_day ?day"
  obtain m r where mr: "month_walk (month_lengths ?y) (?day - year_start ?y) = (m, r)" by fastforce
  have v: "m < 12" "?day = year_start ?y + sum_list (take m (month_lengths ?y)) + r"
    using localtime_valid_month [OF _ _ mr] year_of_day_bounds by blast+
  have sod: "?u mod 86400 div 3600 * 3600 + (?u mod 86400 div 60 mod 60) * 60 + ?u mod 86400 mod 60
      = ?u mod 86400" by (rule seconds_of_day)
  have "mktime_value offset (localtime offset t)
      = (?day - epoch_day) * 86400 + ?u mod 86400 - offset"
  proof -
    have m: "int m div 12 = 0" "nat (int m mod 12) = m" using v(1) by simp_all
    have y: "?y - 1900 + 1900 + 0 = ?y" "year_start ?y + sum_list (take m (month_lengths ?y)) + (r + 1) - 1
        = ?day" using v(2) by simp_all
    show ?thesis
      unfolding mktime_value_def localtime_def Let_def mr prod.case tm.select_convs m y
      using sod by linarith
  qed
  also have "\<dots> = t" by simp
  finally show ?thesis .
qed

lemma localtime_clock:
  "tm_sec (localtime offset t) = (t + offset) mod 86400 mod 60"
  "tm_min (localtime offset t) = (t + offset) mod 86400 div 60 mod 60"
  "tm_hour (localtime offset t) = (t + offset) mod 86400 div 3600"
  by (simp_all only: localtime_def Let_def case_prod_beta tm.select_convs)

lemma localtime_sec: "tm_sec (localtime offset t) = (t + offset) mod 60"
  unfolding localtime_clock by (rule mod_mod_cancel) simp

lemma localtime_ranges:
  "0 \<le> tm_min (localtime offset t)" "tm_min (localtime offset t) < 60"
  "0 \<le> tm_hour (localtime offset t)" "tm_hour (localtime offset t) < 24"
proof -
  define r where "r = (t + offset) mod 86400"
  have r: "0 \<le> r" "r < 86400" unfolding r_def by simp_all
  show "0 \<le> tm_min (localtime offset t)" "tm_min (localtime offset t) < 60"
    unfolding localtime_clock by simp_all
  show "0 \<le> tm_hour (localtime offset t)"
    unfolding localtime_clock r_def [symmetric] using r by (simp add: pos_imp_zdiv_nonneg_iff)
  show "tm_hour (localtime offset t) < 24"
    unfolding localtime_clock r_def [symmetric] using r by (simp add: div_less_iff_less_mult)
qed

interpretation cal: calendar "localtime offset" "mktime_value offset" for offset
proof (unfold_locales, goal_cases)
  case (1 t)
  show ?case by (rule mktime_localtime)
next
  case (2 x s m h d)
  show ?case by (simp add: mktime_value_def Let_def algebra_simps)
next
  case (3 t)
  show ?case by (simp add: localtime_sec)
next
  case (4 t)
  show ?case by (simp add: localtime_sec)
next
  case (5 t)
  show ?case by (rule localtime_ranges)
next
  case (6 t)
  show ?case by (rule localtime_ranges)
next
  case (7 t)
  show ?case by (rule localtime_ranges)
next
  case (8 t)
  show ?case by (rule localtime_ranges)
next
  case (9 t s k)
  then have "(t + offset) mod 60 = s" by (simp add: localtime_sec)
  then have "(t + k + offset) mod 60 = (s + k) mod 60"
    by (metis add.assoc add.commute mod_add_left_eq)
  also have "\<dots> = s + k" using 9 by (intro mod_pos_pos_trivial) auto
  finally show ?case by (simp add: localtime_sec)
qed

end
