(* ===== verification/CronSchedule.thy ===== *)
theory CronSchedule
  imports CLib Calendar
begin

text \<open>
  The schedules of \<open>src/cron/cron.c\<close>: matching of cron fields, the search for the next matching
  minute, daily schedules and \<open>cron_schedule_next_run\<close>. An output parameter that is only set on
  success is an option in the result. The time zone is the parameter \<open>offset\<close> of
  \<open>Calendar\<close>. The lemmas show that the search returns the least matching minute
  of the next 366 days, and that the field syntax means what cron documents.
\<close>

datatype CronScheduleType = CRON_SCHEDULE_INVALID | CRON_SCHEDULE_ONE_TIME | CRON_SCHEDULE_RECURRING

section \<open>Fields\<close>

definition cron_field_matches :: "int \<Rightarrow> int \<Rightarrow> int \<Rightarrow> string option \<Rightarrow> bool" where
  "cron_field_matches value min_val max_val field_opt =
     (case field_opt of
        None \<Rightarrow> True
      | Some field \<Rightarrow>
          if field = ''*'' then True
          else if starts_with ''*/'' field then
            (let step = atoi (drop 2 field) in if step > 0 then value mod step = 0 else False)
          else
            (case strchr field CHR ''-'' of
               Some dash \<Rightarrow> atoi field \<le> value \<and> value \<le> atoi (tl dash)
             | None \<Rightarrow>
                 (case strchr field CHR '','' of
                    Some comma \<Rightarrow> value \<in> set (map atoi (strtok CHR '','' (take 31 field)))
                  | None \<Rightarrow> atoi field = value)))"

text \<open>The five fields of a cron line and the test that the search applies to a broken-down time.\<close>

record cron_fields =
  min_f :: string
  hour_f :: string
  dom_f :: string
  mon_f :: string
  dow_f :: string

definition cron_time_matches :: "cron_fields \<Rightarrow> tm \<Rightarrow> bool" where
  "cron_time_matches f x =
     (let match_min = cron_field_matches (tm_min x) 0 59 (Some (min_f f));
          match_hour = cron_field_matches (tm_hour x) 0 23 (Some (hour_f f));
          match_dom = cron_field_matches (tm_mday x) 1 31 (Some (dom_f f));
          match_mon = cron_field_matches (tm_mon x + 1) 1 12 (Some (mon_f f));
          match_dow = cron_field_matches (tm_wday x) 0 6 (Some (dow_f f));
          dom_dow_match =
            (dom_f f = ''*'' \<and> dow_f f = ''*'') \<or>
            (dom_f f \<noteq> ''*'' \<and> match_dom) \<or>
            (dow_f f \<noteq> ''*'' \<and> match_dow) \<or>
            (dom_f f = ''*'' \<and> match_dow) \<or>
            (dow_f f = ''*'' \<and> match_dom)
      in match_min \<and> match_hour \<and> match_mon \<and> dom_dow_match)"

section \<open>The search for the next matching minute\<close>

definition tick :: "tm \<Rightarrow> tm" where
  "tick x =
     (let x = x\<lparr>tm_min := tm_min x + 1\<rparr>
      in if tm_min x \<ge> 60
         then (let x = x\<lparr>tm_min := 0, tm_hour := tm_hour x + 1\<rparr>
               in if tm_hour x \<ge> 24 then x\<lparr>tm_hour := 0, tm_mday := tm_mday x + 1\<rparr> else x)
         else x)"

lemma mktime_tick: "mktime_value offset (tick (localtime offset t)) = t + 60"
proof -
  let ?l = "localtime offset t"
  have r: "0 \<le> tm_min ?l" "tm_min ?l < 60" "0 \<le> tm_hour ?l" "tm_hour ?l < 24" by (rule cal.ranges)+
  have upd: "mktime_value offset
      (?l\<lparr>tm_sec := tm_sec ?l, tm_min := m, tm_hour := h, tm_mday := d\<rparr>)
      = t + 60 * (m - tm_min ?l) + 3600 * (h - tm_hour ?l) + 86400 * (d - tm_mday ?l)" for m h d
    unfolding cal.value_set by simp
  consider "tm_min ?l + 1 < 60" | "tm_min ?l = 59" "tm_hour ?l + 1 < 24" | "tm_min ?l = 59" "tm_hour ?l = 23"
    using r by linarith
  then show ?thesis
  proof cases
    case 1
    then have t: "tick ?l = ?l\<lparr>tm_sec := tm_sec ?l, tm_min := tm_min ?l + 1, tm_hour := tm_hour ?l, tm_mday := tm_mday ?l\<rparr>"
      by (simp add: tick_def)
    show ?thesis unfolding t upd using 1 by simp
  next
    case 2
    then have t: "tick ?l = ?l\<lparr>tm_sec := tm_sec ?l, tm_min := 0, tm_hour := tm_hour ?l + 1, tm_mday := tm_mday ?l\<rparr>"
      by (simp add: tick_def)
    show ?thesis unfolding t upd using 2 by simp
  next
    case 3
    then have t: "tick ?l = ?l\<lparr>tm_sec := tm_sec ?l, tm_min := 0, tm_hour := 0, tm_mday := tm_mday ?l + 1\<rparr>"
      by (simp add: tick_def)
    show ?thesis unfolding t upd using 3 by simp
  qed
qed

lemma tick_year [simp]: "tm_year (tick x) = tm_year x"
  by (simp add: tick_def Let_def)

function cron_search :: "int \<Rightarrow> cron_fields \<Rightarrow> int \<Rightarrow> tm \<Rightarrow> int option" where
  "cron_search offset f search_end local_tm =
     (if tm_year local_tm < 2100 - 1900
      then (let (check, local_tm) = mktime offset local_tm
            in if check > search_end then None
               else if cron_time_matches f local_tm then Some check
               else cron_search offset f search_end (tick local_tm))
      else None)"
  by pat_completeness auto
termination
proof (relation "measure (\<lambda>(offset, f, search_end, x). nat (search_end + 1 - mktime_value offset x))", goal_cases)
  case 1
  show ?case by simp
next
  case (2 offset f search_end x check_tm check y)
  then show ?case by (simp add: mktime_def mktime_tick)
qed

declare cron_search.simps [simp del]

definition parse_standard_cron :: "int \<Rightarrow> string option \<Rightarrow> int \<Rightarrow> int option" where
  "parse_standard_cron offset schedule_opt now =
     (case schedule_opt of
        None \<Rightarrow> None
      | Some schedule \<Rightarrow>
          (case scan_words 7 5 schedule of
             [m, h, dm, mon, dow] \<Rightarrow>
               if starts_with ''@'' schedule then None
               else (let local_tm = localtime offset now;
                         local_tm = local_tm\<lparr>tm_sec := 0, tm_min := tm_min local_tm + 1\<rparr>;
                         search_end = now + 366 * 24 * 60 * 60
                     in cron_search offset \<lparr>min_f = m, hour_f = h, dom_f = dm, mon_f = mon, dow_f = dow\<rparr>
                          search_end local_tm)
           | _ \<Rightarrow> None))"

section \<open>Daily schedules\<close>

text \<open>The conversions \<^verbatim>\<open>%d %d %7s %7s %7s %7s\<close>; the sixth one must fail.\<close>

definition parse_daily_schedule :: "string option \<Rightarrow> (int \<times> int) option" where
  "parse_daily_schedule schedule_opt =
     (case schedule_opt of
        None \<Rightarrow> None
      | Some schedule \<Rightarrow>
          (case scan_d schedule of
             None \<Rightarrow> None
           | Some (minute, r) \<Rightarrow>
               (case scan_d r of
                  None \<Rightarrow> None
                | Some (hour, r) \<Rightarrow>
                    (case scan_words 7 4 r of
                       [dm, mon, dow] \<Rightarrow>
                         if hour < 0 \<or> hour > 23 \<or> minute < 0 \<or> minute > 59 then None
                         else if dm \<noteq> ''*'' \<or> mon \<noteq> ''*'' \<or> dow \<noteq> ''*'' then None
                         else Some (hour, minute)
                     | _ \<Rightarrow> None))))"

definition next_daily_run :: "int \<Rightarrow> int \<Rightarrow> int \<Rightarrow> int \<Rightarrow> int" where
  "next_daily_run offset now hour minute =
     (let local_tm = (localtime offset now)\<lparr>tm_hour := hour, tm_min := minute, tm_sec := 0\<rparr>;
          (nxt, local_tm) = mktime offset local_tm
      in if nxt \<le> now then fst (mktime offset (local_tm\<lparr>tm_mday := tm_mday local_tm + 1\<rparr>)) else nxt)"

section \<open>All schedules\<close>

definition cron_schedule_next_run :: "int \<Rightarrow> string option \<Rightarrow> int \<Rightarrow> CronScheduleType \<times> int option" where
  "cron_schedule_next_run offset schedule_opt now =
     (case schedule_opt of
        None \<Rightarrow> (CRON_SCHEDULE_ONE_TIME, Some now)
      | Some schedule \<Rightarrow>
          if schedule = '''' then (CRON_SCHEDULE_ONE_TIME, Some now)
          else if starts_with ''@every '' schedule then
            (let interval = atoi (drop 7 schedule);
                 interval = (if interval \<le> 0 then 60 else interval)
             in (CRON_SCHEDULE_RECURRING, Some (now + interval)))
          else if starts_with ''@in '' schedule then
            (let delay = atoi (drop 4 schedule);
                 delay = (if delay \<le> 0 then 1 else delay)
             in (CRON_SCHEDULE_ONE_TIME, Some (now + delay)))
          else if starts_with ''@at '' schedule then
            (CRON_SCHEDULE_ONE_TIME, Some (atol (drop 4 schedule)))
          else
            (case parse_standard_cron offset schedule_opt now of
               Some standard_next \<Rightarrow> (CRON_SCHEDULE_RECURRING, Some standard_next)
             | None \<Rightarrow>
                 (case parse_daily_schedule schedule_opt of
                    Some (hour, minute) \<Rightarrow>
                      (CRON_SCHEDULE_RECURRING, Some (next_daily_run offset now hour minute))
                  | None \<Rightarrow> (CRON_SCHEDULE_INVALID, None))))"

section \<open>The search returns the least matching minute\<close>

lemma localtime_year: "tm_year (localtime offset t) = year_of_day ((t + offset) div 86400 + epoch_day) - 1900"
  by (simp only: localtime_def Let_def case_prod_beta tm.select_convs)

lemma year_start_less_le: "year_start y < year_start z \<Longrightarrow> y < z"
proof (rule ccontr)
  assume less: "year_start y < year_start z" and "\<not> y < z"
  then have "z \<le> y" by simp
  then have "year_start z \<le> year_start y"
  proof (induction "nat (y - z)" arbitrary: z)
    case 0
    then show ?case by simp
  next
    case (Suc n)
    then have "year_start (z + 1) \<le> year_start y" by simp
    with year_start_mono [of z] show ?case by simp
  qed
  with less show False by simp
qed

lemma localtime_year_mono: "t \<le> u \<Longrightarrow> tm_year (localtime offset t) \<le> tm_year (localtime offset u)"
proof -
  assume "t \<le> u"
  then have "(t + offset) div 86400 + epoch_day \<le> (u + offset) div 86400 + epoch_day"
    by (simp add: zdiv_mono1)
  then have "year_start (year_of_day ((t + offset) div 86400 + epoch_day))
      < year_start (year_of_day ((u + offset) div 86400 + epoch_day) + 1)"
    using year_of_day_bounds by (meson le_less_trans)
  then have "year_of_day ((t + offset) div 86400 + epoch_day) < year_of_day ((u + offset) div 86400 + epoch_day) + 1"
    by (rule year_start_less_le)
  then show ?thesis unfolding localtime_year by simp
qed

text \<open>
  The minutes that the search visits from the start \<open>v\<close>: the least one that matches, provided the
  search window ends before the year 2100.
\<close>

definition least_match :: "int \<Rightarrow> cron_fields \<Rightarrow> int \<Rightarrow> int \<Rightarrow> int \<Rightarrow> bool" where
  "least_match offset f v search_end t \<longleftrightarrow>
     v \<le> t \<and> t \<le> search_end \<and> 60 dvd t - v \<and> cron_time_matches f (localtime offset t)
     \<and> (\<forall>u. v \<le> u \<and> u < t \<and> 60 dvd u - v \<longrightarrow> \<not> cron_time_matches f (localtime offset u))"

lemma least_match_step:
  assumes "\<not> cron_time_matches f (localtime offset v)"
  shows "least_match offset f (v + 60) search_end t = least_match offset f v search_end t"
proof -
  have shift: "60 dvd u - (v + 60) \<longleftrightarrow> 60 dvd u - v" for u
    using dvd_add_right_iff [of 60 60 "u - (v + 60)"] by (simp add: algebra_simps)
  have later: "v + 60 \<le> u" if "v \<le> u" "u \<noteq> v" "60 dvd u - v" for u
  proof -
    have "0 < u - v" using that by simp
    from zdvd_imp_le [OF that(3) this] show ?thesis by simp
  qed
  have start: "v \<le> u \<and> 60 dvd u - v \<and> u \<noteq> v \<longleftrightarrow> v + 60 \<le> u \<and> 60 dvd u - (v + 60)" for u
    using shift later by auto
  show ?thesis
    unfolding least_match_def using assms start by metis
qed

lemma least_match_unique: "least_match offset f v e t \<Longrightarrow> least_match offset f v e u \<Longrightarrow> t = u"
  unfolding least_match_def by (metis linorder_neq_iff)

lemma cron_search_least:
  assumes "tm_year (localtime offset search_end) < 200" and "tm_year x < 200"
    and "mktime_value offset x = v"
  shows "cron_search offset f search_end x = Some t \<longleftrightarrow> least_match offset f v search_end t"
  using assms
proof (induction offset f search_end x arbitrary: v rule: cron_search.induct)
  case (1 offset f search_end x)
  let ?l = "localtime offset v"
  note unfold = cron_search.simps [of offset f search_end x]
  show ?case
  proof (cases "v \<le> search_end")
    case False
    with 1 show ?thesis by (simp add: unfold mktime_def least_match_def)
  next
    case le: True
    show ?thesis
    proof (cases "cron_time_matches f ?l")
      case True
      with 1 le have "cron_search offset f search_end x = Some v" by (simp add: unfold mktime_def)
      moreover have "least_match offset f v search_end v" using True le by (auto simp: least_match_def)
      ultimately show ?thesis using least_match_unique by fastforce
    next
      case False
      have "tm_year ?l < 200" using localtime_year_mono [OF le, of offset] 1(2) by simp
      then have "cron_search offset f search_end (tick ?l) = Some t
          \<longleftrightarrow> least_match offset f (v + 60) search_end t"
        using 1 le False by (intro "1.IH") (auto simp: mktime_def mktime_tick)
      then show ?thesis using False le 1 by (simp add: unfold mktime_def least_match_step)
    qed
  qed
qed

text \<open>The same in terms of times: minute boundaries after \<open>now\<close>.\<close>

lemma minute_boundary:
  "tm_sec (localtime offset u) = 0 \<and> now < u \<longleftrightarrow>
   now - tm_sec (localtime offset now) + 60 \<le> u \<and> 60 dvd u - (now - tm_sec (localtime offset now) + 60)"
proof -
  define s where "s = (now + offset) mod 60"
  define q where "q = (now + offset) div 60"
  have now: "now + offset = 60 * q + s" "0 \<le> s" "s < 60" unfolding s_def q_def by simp_all
  have dv: "60 dvd u + offset \<longleftrightarrow> 60 dvd u - (now - s + 60)"
  proof -
    have "u + offset = (u - (now - s + 60)) + 60 * (q + 1)" using now by simp
    then show ?thesis by (metis dvd_add_left_iff dvd_triv_left)
  qed
  have "now < u \<longleftrightarrow> now - s + 60 \<le> u" if d: "60 dvd u + offset"
  proof -
    from d obtain k where k: "u + offset = 60 * k" by blast
    have "now < u \<longleftrightarrow> 60 * q + s < 60 * k" using now k by linarith
    also have "\<dots> \<longleftrightarrow> q + 1 \<le> k" using now by linarith
    also have "\<dots> \<longleftrightarrow> now - s + 60 \<le> u" using now k by linarith
    finally show ?thesis .
  qed
  moreover have "tm_sec (localtime offset u) = 0 \<longleftrightarrow> 60 dvd u + offset"
    unfolding localtime_sec by (simp only: dvd_eq_mod_eq_0)
  moreover have "tm_sec (localtime offset now) = s" unfolding localtime_sec s_def ..
  ultimately show ?thesis using dv by metis
qed

definition minute_matches :: "int \<Rightarrow> cron_fields \<Rightarrow> int \<Rightarrow> bool" where
  "minute_matches offset f t \<longleftrightarrow> tm_sec (localtime offset t) = 0 \<and> cron_time_matches f (localtime offset t)"

lemma least_match_iff:
  "least_match offset f (now - tm_sec (localtime offset now) + 60) e t \<longleftrightarrow>
   now < t \<and> t \<le> e \<and> minute_matches offset f t \<and> (\<forall>u. now < u \<and> u < t \<longrightarrow> \<not> minute_matches offset f u)"
  unfolding least_match_def minute_matches_def using minute_boundary [of offset _ now] by metis

lemma parse_standard_cron_start:
  "mktime_value offset ((localtime offset now)\<lparr>tm_sec := 0, tm_min := tm_min (localtime offset now) + 1\<rparr>)
   = now - tm_sec (localtime offset now) + 60"
proof -
  let ?l = "localtime offset now"
  have start: "?l\<lparr>tm_sec := 0, tm_min := tm_min ?l + 1\<rparr>
      = ?l\<lparr>tm_sec := 0, tm_min := tm_min ?l + 1, tm_hour := tm_hour ?l, tm_mday := tm_mday ?l\<rparr>" by simp
  show ?thesis by (subst start, unfold cal.value_set) simp
qed

section \<open>The field syntax\<close>

text \<open>
  The forms that the comment of \<open>cron_field_matches\<close> lists (wildcard, step, range, list) and a
  single value, how they are written and what they mean.
\<close>

datatype cron_field = Any | Every nat | Between nat nat | OneOf "nat list" | Exactly nat

fun join_numbers :: "nat list \<Rightarrow> string" where
  "join_numbers [] = ''''"
| "join_numbers [n] = nat_digits n"
| "join_numbers (n # m # ns) = nat_digits n @ CHR '','' # join_numbers (m # ns)"

fun show_field :: "cron_field \<Rightarrow> string" where
  "show_field Any = ''*''"
| "show_field (Every n) = ''*/'' @ nat_digits n"
| "show_field (Between a b) = nat_digits a @ CHR ''-'' # nat_digits b"
| "show_field (OneOf ns) = join_numbers ns"
| "show_field (Exactly n) = nat_digits n"

fun field_holds :: "cron_field \<Rightarrow> int \<Rightarrow> bool" where
  "field_holds Any v = True"
| "field_holds (Every n) v = (0 < n \<and> v mod int n = 0)"
| "field_holds (Between a b) v = (int a \<le> v \<and> v \<le> int b)"
| "field_holds (OneOf ns) v = (v \<in> int ` set ns)"
| "field_holds (Exactly n) v = (v = int n)"

fun field_ok :: "cron_field \<Rightarrow> bool" where
  "field_ok Any = True"
| "field_ok (Every n) = (int n \<le> INT_MAX)"
| "field_ok (Between a b) = (int a \<le> INT_MAX \<and> int b \<le> INT_MAX)"
| "field_ok (OneOf ns) = (2 \<le> length ns \<and> (\<forall>n \<in> set ns. int n \<le> INT_MAX) \<and> length (join_numbers ns) \<le> 31)"
| "field_ok (Exactly n) = (int n \<le> INT_MAX)"

lemma not_in_digits: "\<not> isdigit c \<Longrightarrow> c \<notin> set (nat_digits n)"
  using isdigit_nat_digits by blast

lemma not_digit_chars [simp]: "\<not> isdigit CHR ''-''" "\<not> isdigit CHR '',''" "\<not> isdigit CHR ''*''"
  by (simp_all add: isdigit_def)

lemma digits_not_star [simp]: "nat_digits n @ r \<noteq> ''*''" "\<not> starts_with ''*/'' (nat_digits n @ r)"
proof -
  obtain c cs where c: "nat_digits n = c # cs" by (cases "nat_digits n") auto
  then have "c \<noteq> CHR ''*''" using not_in_digits [of "CHR ''*''" n] by auto
  with c show "nat_digits n @ r \<noteq> ''*''" "\<not> starts_with ''*/'' (nat_digits n @ r)"
    by (auto simp: starts_with_def)
qed

lemmas digits_alone = digits_not_star [where r = "[]", simplified]

lemma strchr_digits: "\<not> isdigit c \<Longrightarrow> strchr (nat_digits n @ r) c = strchr r c"
  by (simp add: strchr_append not_in_digits)

lemmas strchr_digits_end = strchr_digits [where r = "[]", simplified]

lemma join_numbers_chars: "c \<in> set (join_numbers ns) \<Longrightarrow> isdigit c \<or> c = CHR '',''"
  by (induction ns rule: join_numbers.induct) (auto dest: isdigit_nat_digits)

lemma strtok_join_numbers: "ns \<noteq> [] \<Longrightarrow> strtok CHR '','' (join_numbers ns) = map nat_digits ns"
  by (induction ns rule: join_numbers.induct) (simp_all add: strtok_append not_in_digits)

lemma atoi_join_numbers:
  "\<forall>n \<in> set ns. int n \<le> INT_MAX \<Longrightarrow> map atoi (map nat_digits ns) = map int ns"
  by (simp add: atoi_nat_digits_end)

text \<open>Cron field syntax: every field that is written in one of the documented forms (star,
  step, range, list, single number), with numbers in the range of \<open>int\<close> and a text of at most 31
  bytes, matches exactly the values that the form denotes.\<close>

theorem cron_field_matches_grammar:
  assumes "field_ok f"
  shows "cron_field_matches v lo hi (Some (show_field f)) = field_holds f v"
proof (cases f)
  case Any
  then show ?thesis by (simp add: cron_field_matches_def)
next
  case (Every n)
  with assms show ?thesis
    by (simp add: cron_field_matches_def starts_with_def atoi_nat_digits_end)
next
  case (Between a b)
  have "atoi (nat_digits a @ CHR ''-'' # nat_digits b) = int a"
    using assms Between by (intro atoi_nat_digits) simp_all
  with assms Between show ?thesis
    by (simp add: cron_field_matches_def strchr_digits atoi_nat_digits_end)
next
  case (OneOf ns)
  then obtain n m ks where ns: "ns = n # m # ks" using assms by (cases ns rule: join_numbers.cases) auto
  let ?s = "join_numbers ns"
  have s: "?s = nat_digits n @ CHR '','' # join_numbers (m # ks)" using ns by simp
  have "CHR ''-'' \<notin> set ?s" using join_numbers_chars [of "CHR ''-''" ns] not_digit_chars by auto
  then have "strchr ?s CHR ''-'' = None" by (simp add: strchr_None)
  moreover have "strchr ?s CHR '','' = Some (CHR '','' # join_numbers (m # ks))"
    unfolding s by (simp add: strchr_digits)
  moreover have "map atoi (strtok CHR '','' ?s) = map int ns"
    using strtok_join_numbers [of ns] atoi_join_numbers [of ns] assms OneOf ns by simp
  moreover have "?s \<noteq> ''*''" "\<not> starts_with ''*/'' ?s" unfolding s by simp_all
  ultimately show ?thesis using assms OneOf by (simp add: cron_field_matches_def)
next
  case (Exactly n)
  with assms show ?thesis
    by (auto simp: cron_field_matches_def digits_alone strchr_digits_end atoi_nat_digits_end)
qed

theorem cron_field_matches_grammar_witness:
  "field_ok (OneOf [0, 30]) \<and> show_field (OneOf [0, 30]) = ''0,30''
   \<and> cron_field_matches 30 0 59 (Some ''0,30'')"
proof -
  have s: "show_field (OneOf [0, 30]) = ''0,30''" by code_simp
  have ok: "field_ok (OneOf [0, 30])" by code_simp
  from cron_field_matches_grammar [OF ok, of 30 0 59] s ok show ?thesis by simp
qed

section \<open>The next run\<close>

lemma scanned_cron_least:
  assumes "scan_words 7 5 schedule = [m, h, dm, mon, dow]"
    and "\<not> starts_with ''@'' schedule"
    and "tm_year (localtime offset (now + 366 * 86400)) < 200"
  shows "parse_standard_cron offset (Some schedule) now = Some t \<longleftrightarrow>
    now < t \<and> t \<le> now + 366 * 86400
    \<and> minute_matches offset \<lparr>min_f = m, hour_f = h, dom_f = dm, mon_f = mon, dow_f = dow\<rparr> t
    \<and> (\<forall>u. now < u \<and> u < t \<longrightarrow>
         \<not> minute_matches offset \<lparr>min_f = m, hour_f = h, dom_f = dm, mon_f = mon, dow_f = dow\<rparr> u)"
proof -
  let ?f = "\<lparr>min_f = m, hour_f = h, dom_f = dm, mon_f = mon, dow_f = dow\<rparr>"
  let ?l = "localtime offset now"
  have "tm_year ?l < 200" using localtime_year_mono [of now "now + 366 * 86400" offset] assms(3) by simp
  then have "cron_search offset ?f (now + 366 * 86400) (?l\<lparr>tm_sec := 0, tm_min := tm_min ?l + 1\<rparr>) = Some t
      \<longleftrightarrow> least_match offset ?f (now - tm_sec ?l + 60) (now + 366 * 86400) t"
    using assms(3) parse_standard_cron_start by (intro cron_search_least) simp_all
  then show ?thesis using assms(1,2) by (simp add: parse_standard_cron_def least_match_iff Let_def)
qed

text \<open>A line of five fields, and the times that it means: both days count when both are given, each alone when the other is a star. A step means the multiples of its number.\<close>

definition cron_line :: "cron_field list \<Rightarrow> string" where
  "cron_line fs = concat (map (\<lambda>f. show_field f @ '' '') (butlast fs)) @ show_field (last fs)"

definition cron_due :: "cron_field \<Rightarrow> cron_field \<Rightarrow> cron_field \<Rightarrow> cron_field \<Rightarrow> cron_field \<Rightarrow> tm \<Rightarrow> bool" where
  "cron_due m h dm mon dow x \<longleftrightarrow>
     tm_sec x = 0 \<and> field_holds m (tm_min x) \<and> field_holds h (tm_hour x) \<and> field_holds mon (tm_mon x + 1) \<and>
     (if dm = Any \<or> dow = Any then field_holds dm (tm_mday x) \<and> field_holds dow (tm_wday x)
      else field_holds dm (tm_mday x) \<or> field_holds dow (tm_wday x))"

definition field_fits :: "cron_field \<Rightarrow> bool" where
  "field_fits f \<longleftrightarrow> field_ok f \<and> length (show_field f) \<le> 7"

lemma show_field_chars: "c \<in> set (show_field f) \<Longrightarrow> isdigit c \<or> c \<in> {CHR ''*'', CHR ''/'', CHR ''-'', CHR '',''}"
  by (cases f) (auto dest: isdigit_nat_digits join_numbers_chars)

lemma show_field_word: "c \<in> set (show_field f) \<Longrightarrow> \<not> isspace c \<and> c \<noteq> CHR ''@''"
  using show_field_chars [of c f] by (auto simp: isdigit_def isspace_def)

lemma show_field_some: "field_ok f \<Longrightarrow> show_field f \<noteq> []"
proof (cases f)
  case (OneOf ns)
  then show "field_ok f \<Longrightarrow> show_field f \<noteq> []" by (cases ns rule: join_numbers.cases) auto
qed simp_all

lemma show_field_star: "field_ok f \<Longrightarrow> show_field f = ''*'' \<longleftrightarrow> f = Any"
proof (cases f)
  case (OneOf ns)
  have "CHR ''*'' \<notin> set (join_numbers ns)" using join_numbers_chars by fastforce
  then show ?thesis using OneOf by auto
qed (auto simp: digits_alone)

lemma scan_word:
  assumes "w \<noteq> []" "length w \<le> 7" "\<forall>c \<in> set w. \<not> isspace c" "rest = [] \<or> isspace (hd rest)" "sp = [] \<or> sp = '' ''"
  shows "scan_s 7 (sp @ w @ rest) = Some (w, rest)"
proof -
  have "skip_space (sp @ w @ rest) = w @ rest" using assms(1,3,5) by (cases w) (auto simp: skip_space_def isspace_def)
  moreover have "takeWhile (\<lambda>c. \<not> isspace c) (w @ rest) = w"
    using assms(3,4) by (cases rest) (auto simp: takeWhile_append takeWhile_eq_all_conv)
  ultimately show ?thesis using assms(1,2) by (simp add: scan_s_def Let_def)
qed

lemma scan_field:
  assumes "field_fits f" "rest = [] \<or> isspace (hd rest)"
  shows "scan_s 7 (show_field f @ rest) = Some (show_field f, rest)" "scan_s 7 (CHR '' '' # show_field f @ rest) = Some (show_field f, rest)"
  using scan_word [of "show_field f" rest "[]"] scan_word [of "show_field f" rest "'' ''"] show_field_word show_field_some assms
  by (auto simp: field_fits_def)

lemma scan_line:
  assumes "field_fits m" "field_fits h" "field_fits dm" "field_fits mon" "field_fits dow"
  shows "scan_words 7 5 (cron_line [m, h, dm, mon, dow]) = [show_field m, show_field h, show_field dm, show_field mon, show_field dow]"
proof -
  have sp: "isspace CHR '' ''" by (simp add: isspace_def)
  have "scan_s 7 (CHR '' '' # show_field dow) = Some (show_field dow, [])" using scan_field(2) [OF assms(5), of "[]"] by simp
  moreover have five: "(5 :: nat) = Suc (Suc (Suc (Suc (Suc 0))))" by simp
  ultimately show ?thesis using assms sp unfolding five by (simp add: cron_line_def scan_field)
qed

lemma cron_time_due:
  assumes "field_ok m" "field_ok h" "field_ok dm" "field_ok mon" "field_ok dow"
  shows "minute_matches offset \<lparr>min_f = show_field m, hour_f = show_field h, dom_f = show_field dm, mon_f = show_field mon, dow_f = show_field dow\<rparr> t
    \<longleftrightarrow> cron_due m h dm mon dow (localtime offset t)"
  using assms
  by (auto simp: minute_matches_def cron_time_matches_def cron_due_def cron_field_matches_grammar show_field_star Let_def)

text \<open>Claim C35. Standard cron lines: for a line of five fields, each in one of the documented forms (star, step, range, list, number) and of at most
  seven bytes, which is what the code reads of a field, a local time that is at a fixed distance from UTC, and a search window that ends before the year
  2100, \<open>parse_standard_cron\<close> returns \<open>t\<close> exactly when \<open>t\<close> is the least whole minute after \<open>now\<close>, within 366 days, at which the line is due by the
  meaning of its fields; so it finds a time whenever there is one and never skips an earlier one. A step means the multiples of its number, and of two given days either will do.\<close>

theorem parse_standard_cron_least:
  assumes "field_fits m" "field_fits h" "field_fits dm" "field_fits mon" "field_fits dow"
    and "tm_year (localtime offset (now + 366 * 86400)) < 200"
  shows "parse_standard_cron offset (Some (cron_line [m, h, dm, mon, dow])) now = Some t \<longleftrightarrow>
    now < t \<and> t \<le> now + 366 * 86400 \<and> cron_due m h dm mon dow (localtime offset t)
    \<and> (\<forall>u. now < u \<and> u < t \<longrightarrow> \<not> cron_due m h dm mon dow (localtime offset u))"
proof -
  have ok: "field_ok m" "field_ok h" "field_ok dm" "field_ok mon" "field_ok dow" using assms(1-5) by (simp_all add: field_fits_def)
  obtain c cs where c: "show_field m = c # cs" using show_field_some [OF ok(1)] by (cases "show_field m") auto
  then have "c \<noteq> CHR ''@''" using show_field_word [of c m] by simp
  then have "\<not> starts_with ''@'' (cron_line [m, h, dm, mon, dow])" by (simp add: cron_line_def c starts_with_def)
  from scanned_cron_least [OF scan_line [OF assms(1-5)] this assms(6)] show ?thesis by (simp only: cron_time_due [OF ok])
qed

text \<open>At noon of 14 November 2023, UTC, the next quarter of an hour.\<close>

theorem parse_standard_cron_least_witness:
  "cron_line [Every 15, Any, Any, Any, Any] = ''*/15 * * * *'' \<and> parse_standard_cron 0 (Some ''*/15 * * * *'') 1699963200 = Some 1699964100"
proof -
  have l: "cron_line [Every 15, Any, Any, Any, Any] = ''*/15 * * * *''" by code_simp
  have f: "field_fits (Every 15)" "field_fits Any" by code_simp+
  have y: "tm_year (localtime 0 (1699963200 + 366 * 86400)) < 200" by code_simp
  have m: "cron_due (Every 15) Any Any Any Any (localtime 0 u) \<longleftrightarrow> u mod 60 = 0 \<and> tm_min (localtime 0 u) mod 15 = 0" for u
    by (simp add: cron_due_def localtime_sec)
  have "\<not> cron_due (Every 15) Any Any Any Any (localtime 0 u)" if "1699963200 < u" "u < 1699964100" for u
  proof
    assume "cron_due (Every 15) Any Any Any Any (localtime 0 u)"
    then have s: "u mod 60 = 0" "u mod 86400 div 60 mod 60 mod 15 = 0" unfolding m localtime_clock by simp_all
    define k where "k = u div 60"
    have u: "u = 60 * k" using s(1) mult_div_mod_eq [of 60 u] by (simp add: k_def)
    have "28332720 < k" "k < 28332735" using that u by simp_all
    moreover have "u mod 86400 div 60 = k mod 1440" 
      using mult_mod_right [of 60 k 1440] by (simp add: u)
    then have "k mod 1440 mod 60 mod 15 = 0" using s(2) by simp
    then have "k mod 15 = 0" by (simp add: mod_mod_cancel)
    ultimately show False by presburger
  qed
  moreover have "cron_due (Every 15) Any Any Any Any (localtime 0 1699964100)" unfolding m by code_simp
  ultimately have "parse_standard_cron 0 (Some (cron_line [Every 15, Any, Any, Any, Any])) 1699963200 = Some 1699964100"
    unfolding parse_standard_cron_least [OF f(1) f(2) f(2) f(2) f(2) y] by simp
  with l show ?thesis by simp
qed

lemma cron_search_ge:
  "mktime_value offset x = v \<Longrightarrow> cron_search offset f search_end x = Some t \<Longrightarrow> v \<le> t \<and> t \<le> search_end"
proof (induction offset f search_end x arbitrary: v rule: cron_search.induct)
  case (1 offset f search_end x)
  let ?l = "localtime offset v"
  have res: "v \<le> search_end \<and> (t = v \<or> cron_search offset f search_end (tick ?l) = Some t)"
    using "1.prems" by (subst (asm) cron_search.simps) (auto simp: mktime_def split: if_splits)
  show ?case
  proof (cases "t = v")
    case True
    with res show ?thesis by simp
  next
    case False
    have yr: "tm_year x < 2100 - 1900"
      using "1.prems" by (subst (asm) cron_search.simps) (simp split: if_splits)
    have mk: "(v, ?l) = mktime offset x" using "1.prems" by (simp add: mktime_def)
    have nm: "\<not> cron_time_matches f ?l"
      using "1.prems" False by (subst (asm) cron_search.simps) (auto simp: mktime_def split: if_splits)
    have "v + 60 \<le> t \<and> t \<le> search_end"
      using "1.IH" [OF yr refl mk _ nm mktime_tick] res False by auto
    then show ?thesis by simp
  qed
qed

lemma parse_standard_cron_future:
  assumes "parse_standard_cron offset schedule now = Some t"
  shows "now < t \<and> t \<le> now + 366 * 86400"
proof -
  let ?l = "localtime offset now"
  from assms obtain f where
    "cron_search offset f (now + 366 * 86400) (?l\<lparr>tm_sec := 0, tm_min := tm_min ?l + 1\<rparr>) = Some t"
    by (auto simp: parse_standard_cron_def Let_def split: option.splits list.splits if_splits)
  from cron_search_ge [OF parse_standard_cron_start this]
  show ?thesis using cal.ranges(2) [of offset now] by simp
qed

text \<open>The time of day of a time that is set on the date of \<open>now\<close>.\<close>

lemma clock_of_day_time:
  assumes "0 \<le> hour" "hour < 24" "0 \<le> minute" "minute < 60"
    and "t + offset = 86400 * d + 3600 * hour + 60 * minute"
  shows "tm_hour (localtime offset t) = hour" "tm_min (localtime offset t) = minute"
    "tm_sec (localtime offset t) = 0"
proof -
  have day: "(t + offset) mod 86400 = 3600 * hour + 60 * minute"
    using assms by (intro int_mod_pos_eq [where q = d]) simp_all
  have "(3600 * hour + 60 * minute) div 3600 = hour"
    using assms by (intro int_div_pos_eq [where r = "60 * minute"]) simp_all
  then show "tm_hour (localtime offset t) = hour" unfolding localtime_clock day .
  have "(3600 * hour + 60 * minute) div 60 = 60 * hour + minute" by simp
  then show "tm_min (localtime offset t) = minute"
    unfolding localtime_clock day using assms(3,4) by simp
  have "(3600 * hour + 60 * minute) mod 60 = 0"
    by (rule int_mod_pos_eq [where q = "60 * hour + minute"]) simp_all
  then show "tm_sec (localtime offset t) = 0" unfolding localtime_clock day .
qed

lemma set_clock_value:
  "mktime_value offset ((localtime offset now)\<lparr>tm_hour := hour, tm_min := minute, tm_sec := 0\<rparr>) + offset
   = 86400 * ((now + offset) div 86400) + 3600 * hour + 60 * minute"
proof -
  let ?l = "localtime offset now" and ?r = "(now + offset) mod 86400"
  have upd: "?l\<lparr>tm_hour := hour, tm_min := minute, tm_sec := 0\<rparr>
      = ?l\<lparr>tm_sec := 0, tm_min := minute, tm_hour := hour, tm_mday := tm_mday ?l\<rparr>" by simp
  have "n - s - 60 * m - 3600 * h = d" if "d + r = n" "h * 3600 + m * 60 + s = r" for n s m h d r :: int
    using that by simp
  from this [OF mult_div_mod_eq seconds_of_day]
  have "now + offset - tm_sec ?l - 60 * tm_min ?l - 3600 * tm_hour ?l = 86400 * ((now + offset) div 86400)"
    unfolding localtime_clock .
  moreover have "n + (0 - s) + 60 * (m' - m) + 3600 * (h' - h) + 86400 * (x - x) + k = d + 3600 * h' + 60 * m'"
    if "n + k - s - 60 * m - 3600 * h = d" for n s m h d m' h' x k :: int
    using that by simp
  ultimately show ?thesis by (subst upd, unfold cal.value_set) blast
qed

lemma next_daily_run_cases:
  assumes "0 \<le> hour" "hour < 24" "0 \<le> minute" "minute < 60"
  obtains d where "next_daily_run offset now hour minute + offset = 86400 * d + 3600 * hour + 60 * minute"
    and "now < next_daily_run offset now hour minute" "next_daily_run offset now hour minute \<le> now + 86400"
proof -
  let ?v = "mktime_value offset ((localtime offset now)\<lparr>tm_hour := hour, tm_min := minute, tm_sec := 0\<rparr>)"
  let ?d = "(now + offset) div 86400"
  let ?m = "localtime offset ?v"
  have upd: "?m\<lparr>tm_mday := tm_mday ?m + 1\<rparr>
      = ?m\<lparr>tm_sec := tm_sec ?m, tm_min := tm_min ?m, tm_hour := tm_hour ?m, tm_mday := tm_mday ?m + 1\<rparr>" by simp
  have nxt: "mktime_value offset (?m\<lparr>tm_mday := tm_mday ?m + 1\<rparr>) = ?v + 86400"
    by (subst upd, unfold cal.value_set) simp
  have v: "?v + offset = 86400 * ?d + 3600 * hour + 60 * minute" by (rule set_clock_value)
  have b: "86400 * ?d \<le> now + offset" "now + offset < 86400 * ?d + 86400"
    using mult_div_mod_eq [of 86400 "now + offset"] pos_mod_bound [of 86400 "now + offset"]
      pos_mod_sign [of 86400 "now + offset"] by linarith+
  have run: "next_daily_run offset now hour minute = (if ?v \<le> now then ?v + 86400 else ?v)"
    by (simp only: next_daily_run_def Let_def mktime_def prod.case fst_conv nxt)
  show thesis
  proof (cases "?v \<le> now")
    case True
    then show thesis using that [of "?d + 1"] run v b assms by simp
  next
    case False
    then show thesis using that [of ?d] run v b assms by simp
  qed
qed

text \<open>Daily schedules: for an hour and a minute in range, \<open>next_daily_run\<close> is the next
  moment after \<open>now\<close>, at most a day ahead, whose local time is that hour, that minute and zero seconds.\<close>

theorem next_daily_run_correct:
  assumes "0 \<le> hour" "hour < 24" "0 \<le> minute" "minute < 60"
  shows "now < next_daily_run offset now hour minute \<and> next_daily_run offset now hour minute \<le> now + 86400
    \<and> tm_hour (localtime offset (next_daily_run offset now hour minute)) = hour
    \<and> tm_min (localtime offset (next_daily_run offset now hour minute)) = minute
    \<and> tm_sec (localtime offset (next_daily_run offset now hour minute)) = 0"
  using next_daily_run_cases [OF assms, of offset now] clock_of_day_time [OF assms] by metis

theorem next_daily_run_correct_witness:
  "1699963200 < next_daily_run 3600 1699963200 8 30
   \<and> tm_hour (localtime 3600 (next_daily_run 3600 1699963200 8 30)) = 8"
  using next_daily_run_correct [where hour = 8 and minute = 30 and now = 1699963200 and offset = 3600] by simp

lemma parse_daily_schedule_range:
  "parse_daily_schedule schedule = Some (hour, minute) \<Longrightarrow> 0 \<le> hour \<and> hour < 24 \<and> 0 \<le> minute \<and> minute < 60"
  by (auto simp: parse_daily_schedule_def split: option.splits list.splits if_splits)

lemma daily_future: "parse_daily_schedule schedule = Some (hour, minute) \<Longrightarrow> now < next_daily_run offset now hour minute"
  by (metis next_daily_run_cases parse_daily_schedule_range)

lemma recurring_future:
  assumes "cron_schedule_next_run offset schedule now = (CRON_SCHEDULE_RECURRING, nxt)"
  shows "\<exists>t. nxt = Some t \<and> now < t"
proof (cases schedule)
  case None
  with assms show ?thesis by (simp add: cron_schedule_next_run_def)
next
  case (Some s)
  show ?thesis
  proof (cases "starts_with ''@every '' s")
    case True
    with assms Some show ?thesis by (auto simp: cron_schedule_next_run_def Let_def split: if_splits)
  next
    case False
    show ?thesis
    proof (cases "parse_standard_cron offset schedule now")
      case None
      with False assms Some show ?thesis
        by (auto simp: cron_schedule_next_run_def Let_def dest: daily_future split: if_splits option.splits)
    next
      case (Some t)
      with False assms \<open>schedule = Some s\<close> have "nxt = Some t"
        by (simp add: cron_schedule_next_run_def Let_def split: if_splits)
      with parse_standard_cron_future [OF Some] show ?thesis by simp
    qed
  qed
qed

text \<open>Recurring jobs do not fire twice for one moment: whenever \<open>cron_schedule_next_run\<close>
  classifies a schedule as recurring, the time that it returns lies strictly after \<open>now\<close>.\<close>

theorem recurring_next_run_future:
  assumes "cron_schedule_next_run offset schedule now = (CRON_SCHEDULE_RECURRING, nxt)"
  shows "\<exists>t. nxt = Some t \<and> now < t"
  using assms by (rule recurring_future)

theorem recurring_next_run_future_witness:
  "\<exists>t. snd (cron_schedule_next_run 0 (Some ''@every 30'') 1000) = Some t \<and> 1000 < t"
proof -
  have "cron_schedule_next_run 0 (Some ''@every 30'') 1000 = (CRON_SCHEDULE_RECURRING, Some 1030)" by code_simp
  from recurring_next_run_future [OF this] this show ?thesis by simp
qed

lemma cron_search_no_match:
  assumes "\<And>t. \<not> cron_time_matches f (localtime offset t)"
  shows "cron_search offset f search_end x = None"
  using assms
proof (induction offset f search_end x rule: cron_search.induct)
  case (1 offset f search_end x)
  then show ?case by (subst cron_search.simps) (simp add: mktime_def)
qed

text \<open>Lists that do not fit the field buffers: the conversion \<^verbatim>\<open>%7s\<close> cuts the minute list
  0,15,30,45 after seven bytes and reads the rest as the hour field, so that this schedule is
  rejected as invalid at every time and in every time zone, although the comment of \<open>cron_field_matches\<close>
  announces lists.\<close>

theorem long_minute_list_rejected:
  "cron_schedule_next_run offset (Some ''0,15,30,45 * * * *'') now = (CRON_SCHEDULE_INVALID, None)"
proof -
  let ?s = "''0,15,30,45 * * * *''"
  let ?f = "\<lparr>min_f = ''0,15,30'', hour_f = '',45'', dom_f = ''*'', mon_f = ''*'', dow_f = ''*''\<rparr>"
  have w: "scan_words 7 5 ?s = [''0,15,30'', '',45'', ''*'', ''*'', ''*'']" by code_simp
  have "cron_field_matches h 0 23 (Some '',45'') = (h = 45)" for h
  proof -
    have "strtok CHR '','' '',45'' = [''45'']" "atoi ''45'' = 45" by code_simp+
    then show ?thesis by (simp add: cron_field_matches_def starts_with_def)
  qed
  then have "\<not> cron_time_matches ?f (localtime offset t)" for t
    using cal.ranges(6) [of offset t] by (simp add: cron_time_matches_def)
  then have "parse_standard_cron offset (Some ?s) now = None"
    by (simp add: parse_standard_cron_def w Let_def cron_search_no_match)
  moreover have "parse_daily_schedule (Some ?s) = None" by code_simp
  ultimately show ?thesis by (simp add: cron_schedule_next_run_def starts_with_def)
qed

end
