(* ===== verification/Json.thy ===== *)
theory Json
  imports CLib
begin

text \<open>
  The trees of \<open>src/vendor/cJSON\<close> as the program uses them. A number is a rational (the value of the
  \<open>double\<close>); strings and keys are byte strings. Parsing and printing of texts are parameters of the
  definitions that use them. The accessors follow cJSON: \<open>cJSON_GetObjectItem\<close> compares keys without
  case and returns the first match, \<open>valueint\<close> saturates.
\<close>

datatype json =
    JNull
  | JBool bool
  | JNumber rat
  | JString string
  | JArray "json list"
  | JObject "(string \<times> json) list"

type_synonym json_parser = "string \<Rightarrow> json option"
type_synonym json_printer = "json \<Rightarrow> string option"

definition get_object_item :: "json option \<Rightarrow> string \<Rightarrow> json option" where
  "get_object_item object name =
     (case object of
        Some (JObject kvs) \<Rightarrow> map_option snd (find (\<lambda>(k, v). strcaseeq name k) kvs)
      | _ \<Rightarrow> None)"

definition rat_trunc :: "rat \<Rightarrow> int" where
  "rat_trunc r = (if 0 \<le> r then \<lfloor>r\<rfloor> else \<lceil>r\<rceil>)"

text \<open>\<open>valueint\<close> of a number: \<open>cJSON_CreateNumber\<close> and \<open>cJSON_SetNumberHelper\<close>.\<close>

definition number_valueint :: "rat \<Rightarrow> int" where
  "number_valueint r =
     (if r \<ge> of_int INT_MAX then INT_MAX else if r \<le> of_int INT_MIN then INT_MIN else rat_trunc r)"

definition json_string :: "json option \<Rightarrow> string option" where
  "json_string j = (case j of Some (JString s) \<Rightarrow> Some s | _ \<Rightarrow> None)"

definition json_bool :: "json option \<Rightarrow> bool option" where
  "json_bool j = (case j of Some (JBool b) \<Rightarrow> Some b | _ \<Rightarrow> None)"

definition json_number :: "json option \<Rightarrow> rat option" where
  "json_number j = (case j of Some (JNumber r) \<Rightarrow> Some r | _ \<Rightarrow> None)"

definition json_array :: "json option \<Rightarrow> json list option" where
  "json_array j = (case j of Some (JArray xs) \<Rightarrow> Some xs | _ \<Rightarrow> None)"

lemmas json_defs [c_defs] = json_string_def json_bool_def json_number_def json_array_def

text \<open>
  The conversion \<open>(double) i\<close> of an integer: exact up to \<open>2 ^ 53\<close>, beyond that rounded to 53
  significant bits, ties to even.
\<close>

function round_even :: "nat \<Rightarrow> nat \<Rightarrow> nat" where
  "round_even e n =
     (if n div 2 ^ e < 2 ^ 53
      then (let q = n div 2 ^ e; r = n mod 2 ^ e; h = 2 ^ e
            in if 2 * r < h \<or> (2 * r = h \<and> even q) then q * 2 ^ e else (q + 1) * 2 ^ e)
      else round_even (Suc e) n)"
  by pat_completeness auto
termination
proof (relation "measure (\<lambda>(e, n). n div 2 ^ e)", goal_cases)
  case (2 e n)
  then have "n div 2 ^ e \<noteq> 0" by (intro notI) simp
  then have "n div 2 ^ e div 2 < n div 2 ^ e" by simp
  then show ?case by (simp add: power_Suc2 div_mult2_eq del: power_Suc)
qed simp

declare round_even.simps [simp del]

definition double_of_int :: "int \<Rightarrow> int" where
  "double_of_int i = sgn i * int (round_even 0 (nat \<bar>i\<bar>))"

lemma double_of_int_exact: "\<bar>i\<bar> < 2 ^ 53 \<Longrightarrow> double_of_int i = i"
  by (simp add: double_of_int_def round_even.simps sgn_if nat_less_iff)

lemma rat_trunc_of_int [simp]: "rat_trunc (of_int i) = i"
  by (simp add: rat_trunc_def)

lemma rat_trunc_of_nat [simp]: "rat_trunc (of_nat n) = int n"
  by (simp add: rat_trunc_def)

lemma number_valueint_range: "INT_MIN \<le> number_valueint r \<and> number_valueint r \<le> INT_MAX"
proof -
  have "INT_MIN \<le> rat_trunc r" if "of_int INT_MIN < r"
    using that by (simp add: rat_trunc_def INT_MIN_def le_floor_iff le_ceiling_iff)
  moreover have "rat_trunc r \<le> INT_MAX" if "r < of_int INT_MAX"
    using that by (auto simp: rat_trunc_def INT_MAX_def floor_le_iff ceiling_le_iff)
  moreover have "INT_MIN \<le> INT_MAX" by (simp add: limit_defs)
  ultimately show ?thesis by (auto simp: number_valueint_def not_le)
qed

lemma number_valueint_of_int: "INT_MIN \<le> i \<Longrightarrow> i \<le> INT_MAX \<Longrightarrow> number_valueint (of_int i) = i"
  by (simp add: number_valueint_def)

end
