(* ===== verification/Cron.thy ===== *)
theory Cron
  imports CronSchedule Json
begin

text \<open>
  The job table and the worker of \<open>src/cron/cron.c\<close>. The linked list of jobs is a list of nodes that
  carry the address of the C node, because the worker keeps pointers to nodes across the callback,
  during which the mutex is released and other threads may change the list. That interference is
  the parameter \<open>env\<close> of the pass, and a pointer to a freed node or a link that would make the list
  cyclic is an error value. The store file is part of the service state; printing and parsing of
  JSON texts are parameters. A NULL string field is \<open>None\<close>.
\<close>

record CronJob =
  cj_id :: "string option"
  cj_name :: "string option"
  cj_payload_message :: "string option"
  cj_channel :: "string option"
  cj_to :: "string option"
  cj_deliver :: bool
  cj_next_run :: int
  cj_schedule :: "string option"
  cj_retry_count :: int
  cj_max_retries :: int
  cj_last_status :: int

record JobNode =
  n_addr :: nat
  n_job :: CronJob

record CronService =
  cs_store_path :: "string option"
  cs_callback :: bool
  cs_running :: bool
  cs_jobs :: "JobNode list"
  cs_store :: "string option"
  cs_writable :: bool
  cs_fresh :: nat

section \<open>Persistence\<close>

definition copy_job :: "CronJob \<Rightarrow> CronJob" where
  "copy_job src = src\<lparr>cj_max_retries := (if cj_max_retries src > 0 then cj_max_retries src else 3)\<rparr>"

definition opt_string :: "string \<Rightarrow> string option \<Rightarrow> (string \<times> json) list" where
  "opt_string key v = (case v of None \<Rightarrow> [] | Some s \<Rightarrow> [(key, JString s)])"

definition job_json :: "CronJob \<Rightarrow> json" where
  "job_json j = JObject
     (opt_string ''id'' (cj_id j) @ opt_string ''name'' (cj_name j) @
      opt_string ''payload_message'' (cj_payload_message j) @
      opt_string ''channel'' (cj_channel j) @ opt_string ''to'' (cj_to j) @
      [(''deliver'', JBool (cj_deliver j)), (''next_run'', JNumber (of_int (double_of_int (cj_next_run j))))] @
      opt_string ''schedule'' (cj_schedule j))"

definition jobs_json :: "CronJob list \<Rightarrow> json" where
  "jobs_json js = JObject [(''jobs'', JArray (map job_json js))]"

definition save_jobs :: "json_printer \<Rightarrow> CronService \<Rightarrow> CronService" where
  "save_jobs print service =
     (if cs_store_path service = None then service
      else case print (jobs_json (map n_job (cs_jobs service))) of
             None \<Rightarrow> service
           | Some json_str \<Rightarrow> if cs_writable service then service\<lparr>cs_store := Some json_str\<rparr> else service)"

definition job_of_json :: "json \<Rightarrow> CronJob" where
  "job_of_json item =
     \<lparr>cj_id = json_string (get_object_item (Some item) ''id''),
      cj_name = json_string (get_object_item (Some item) ''name''),
      cj_payload_message = json_string (get_object_item (Some item) ''payload_message''),
      cj_channel = json_string (get_object_item (Some item) ''channel''),
      cj_to = json_string (get_object_item (Some item) ''to''),
      cj_deliver = (json_bool (get_object_item (Some item) ''deliver'') = Some True),
      cj_next_run = (case json_number (get_object_item (Some item) ''next_run'') of
                       None \<Rightarrow> 0 | Some r \<Rightarrow> rat_trunc r),
      cj_schedule = json_string (get_object_item (Some item) ''schedule''),
      cj_retry_count = 0, cj_max_retries = 0, cj_last_status = 0\<rparr>"

definition push_job :: "CronJob \<Rightarrow> CronService \<Rightarrow> CronService" where
  "push_job j service =
     service\<lparr>cs_jobs := \<lparr>n_addr = cs_fresh service, n_job = j\<rparr> # cs_jobs service,
             cs_fresh := Suc (cs_fresh service)\<rparr>"

definition load_jobs :: "json_parser \<Rightarrow> CronService \<Rightarrow> CronService" where
  "load_jobs parse service =
     (if cs_store_path service = None then service
      else case cs_store service of
             None \<Rightarrow> service
           | Some data \<Rightarrow>
               if data = '''' then service
               else case parse data of
                      None \<Rightarrow> service
                    | Some tree \<Rightarrow>
                        (case json_array (get_object_item (Some tree) ''jobs'') of
                           None \<Rightarrow> service
                         | Some items \<Rightarrow> fold (push_job \<circ> job_of_json) items service))"

section \<open>Life cycle\<close>

definition cron_service_create :: "json_parser \<Rightarrow> string \<Rightarrow> string option \<Rightarrow> bool \<Rightarrow> CronService" where
  "cron_service_create parse store_path file writable =
     load_jobs parse
       \<lparr>cs_store_path = Some store_path, cs_callback = False, cs_running = False, cs_jobs = [],
        cs_store = file, cs_writable = writable, cs_fresh = 1\<rparr>"

definition cron_service_start :: "bool \<Rightarrow> CronService \<Rightarrow> bool \<times> CronService" where
  "cron_service_start thread_ok service =
     (if cs_running service then (False, service)
      else (let service = service\<lparr>cs_running := True\<rparr>
            in if thread_ok then (True, service) else (False, service\<lparr>cs_running := False\<rparr>)))"

text \<open>Returns also whether the caller waits for the worker to end.\<close>

definition cron_service_stop :: "bool \<Rightarrow> CronService \<Rightarrow> bool \<times> CronService" where
  "cron_service_stop on_worker service =
     (cs_running service \<and> \<not> on_worker, service\<lparr>cs_running := False\<rparr>)"

definition cron_service_set_callback :: "bool \<Rightarrow> CronService \<Rightarrow> CronService" where
  "cron_service_set_callback callback service = service\<lparr>cs_callback := callback\<rparr>"

definition cron_service_status :: "CronService \<Rightarrow> string" where
  "cron_service_status service =
     c_trunc 256 (''Cron service: '' @ (if cs_running service then ''running'' else ''stopped'') @
       '', jobs: '' @ show_int (int (length (cs_jobs service))))"

section \<open>Adding and removing jobs\<close>

datatype cron_error = Null_Strdup | Use_After_Free | List_Corrupted

text \<open>\<open>cron_schedule_next_run\<close> with the address of a field: the field keeps its value when the
  schedule is invalid.\<close>

definition set_next_run :: "int option \<Rightarrow> CronJob \<Rightarrow> CronJob" where
  "set_next_run nxt j = (case nxt of None \<Rightarrow> j | Some t \<Rightarrow> j\<lparr>cj_next_run := t\<rparr>)"

definition same_name :: "CronJob \<Rightarrow> JobNode \<Rightarrow> bool" where
  "same_name job n = (cj_name job \<noteq> None \<and> cj_name (n_job n) = cj_name job)"

definition cron_service_add_job ::
  "int \<Rightarrow> json_printer \<Rightarrow> int \<Rightarrow> int \<Rightarrow> CronJob \<Rightarrow> CronService \<Rightarrow> cron_error + (string option \<times> CronService)" where
  "cron_service_add_job offset print now rnd job service =
     (case find (same_name job) (cs_jobs service) of
        Some current \<Rightarrow>
          (let (ty, nxt) = cron_schedule_next_run offset (cj_schedule job) now;
               upd = (\<lambda>n. n\<lparr>n_job := set_next_run nxt
                             ((n_job n)\<lparr>cj_schedule := cj_schedule job,
                                        cj_payload_message := cj_payload_message job\<rparr>)\<rparr>);
               service = service\<lparr>cs_jobs := update_first (same_name job) upd (cs_jobs service)\<rparr>
           in if ty = CRON_SCHEDULE_INVALID then Inr (None, service)
              else (case cj_id (n_job current) of
                      None \<Rightarrow> Inl Null_Strdup
                    | Some i \<Rightarrow> Inr (Some i, save_jobs print service)))
      | None \<Rightarrow>
          (let j = copy_job job;
               i = (case cj_id j of
                      Some i \<Rightarrow> i
                    | None \<Rightarrow> c_trunc 32 (''job_'' @ show_int now @ ''_'' @ show_int (rnd mod 10000)));
               j = j\<lparr>cj_id := Some i\<rparr>;
               (ty, nxt) = cron_schedule_next_run offset (cj_schedule j) now
           in if ty = CRON_SCHEDULE_INVALID then Inr (None, service)
              else Inr (Some i, save_jobs print (push_job (set_next_run nxt j) service))))"

definition cron_service_remove_job :: "json_printer \<Rightarrow> string \<Rightarrow> CronService \<Rightarrow> bool \<times> CronService" where
  "cron_service_remove_job print job_id service =
     (case find (\<lambda>n. cj_id (n_job n) = Some job_id) (cs_jobs service) of
        None \<Rightarrow> (False, service)
      | Some current \<Rightarrow>
          (True, save_jobs print
             (service\<lparr>cs_jobs := remove_first (\<lambda>n. cj_id (n_job n) = Some job_id) (cs_jobs service)\<rparr>)))"

section \<open>The worker\<close>

definition head_addr :: "JobNode list \<Rightarrow> nat option" where
  "head_addr jobs = (case jobs of [] \<Rightarrow> None | n # ns \<Rightarrow> Some (n_addr n))"

definition after_node :: "nat \<Rightarrow> JobNode list \<Rightarrow> JobNode list" where
  "after_node a jobs = tl (dropWhile (\<lambda>n. n_addr n \<noteq> a) jobs)"

text \<open>
  \<^verbatim>\<open>found_prev->next = found->next\<close>, or \<^verbatim>\<open>service->jobs = found->next\<close> when \<open>found_prev\<close> is NULL. A
  \<open>found_prev\<close> that is no longer in the list has been freed; one that does not come before \<open>found\<close> would
  close a cycle.
\<close>

definition unlink_node :: "nat option \<Rightarrow> nat \<Rightarrow> JobNode list \<Rightarrow> cron_error + JobNode list" where
  "unlink_node found_prev found jobs =
     (case found_prev of
        None \<Rightarrow> Inr (after_node found jobs)
      | Some p \<Rightarrow>
          if p \<notin> n_addr ` set jobs then Inl Use_After_Free
          else if found \<notin> n_addr ` set (after_node p jobs) then Inl List_Corrupted
          else Inr (takeWhile (\<lambda>n. n_addr n \<noteq> p) jobs @ hd (dropWhile (\<lambda>n. n_addr n \<noteq> p) jobs) #
                    after_node found (after_node p jobs)))"

text \<open>What the other threads do to the service during the callback of the \<open>k\<close>-th due job.\<close>

type_synonym interference = "nat \<Rightarrow> CronJob \<Rightarrow> CronService \<Rightarrow> CronService"

definition no_interference :: interference where
  "no_interference k j service = service"

definition run_callback :: "interference \<Rightarrow> CronJob \<Rightarrow> CronJob list \<Rightarrow> CronService \<Rightarrow> CronService \<times> CronJob list" where
  "run_callback env snapshot called service =
     (if cs_callback service then (env (length called) snapshot service, called @ [snapshot])
      else (service, called))"

definition reschedule :: "int option \<Rightarrow> JobNode \<Rightarrow> JobNode" where
  "reschedule nxt n =
     n\<lparr>n_job := (set_next_run nxt (n_job n))\<lparr>cj_retry_count := 0, cj_last_status := 0\<rparr>\<rparr>"

text \<open>
  One traversal of the job list; the result is \<open>None\<close> when the traversal does not end, an error when
  a stale pointer is used, and otherwise the service, the flag \<open>modified\<close> and the jobs for which the
  callback was called.
\<close>

partial_function (option) cron_pass ::
  "int \<Rightarrow> interference \<Rightarrow> int \<Rightarrow> CronService \<Rightarrow> nat option \<Rightarrow> nat option \<Rightarrow> bool \<Rightarrow> CronJob list \<Rightarrow>
   (cron_error + (CronService \<times> bool \<times> CronJob list)) option" where
  "cron_pass offset env now service current prev modified called =
     (case current of
        None \<Rightarrow> Some (Inr (service, modified, called))
      | Some a \<Rightarrow>
          (case find (\<lambda>n. n_addr n = a) (cs_jobs service) of
             None \<Rightarrow> Some (Inl Use_After_Free)
           | Some cur \<Rightarrow>
               if cj_next_run (n_job cur) \<le> now
               then (case run_callback env (copy_job (n_job cur)) called service of
                       (service, called) \<Rightarrow>
                         (case find (\<lambda>n. cj_id (n_job cur) \<noteq> None \<and> cj_id (n_job n) = cj_id (n_job cur))
                                 (cs_jobs service) of
                            None \<Rightarrow>
                              cron_pass offset env now service (head_addr (cs_jobs service)) None modified called
                          | Some found \<Rightarrow>
                              (case cron_schedule_next_run offset (cj_schedule (n_job found)) now of
                                 (ty, nxt) \<Rightarrow>
                                   if ty = CRON_SCHEDULE_RECURRING
                                   then cron_pass offset env now
                                          (service\<lparr>cs_jobs := update_first (\<lambda>n. n_addr n = n_addr found)
                                                                (reschedule nxt) (cs_jobs service)\<rparr>)
                                          (head_addr (after_node (n_addr found) (cs_jobs service)))
                                          (Some (n_addr found)) True called
                                   else (case unlink_node prev (n_addr found) (cs_jobs service) of
                                           Inl e \<Rightarrow> Some (Inl e)
                                         | Inr jobs \<Rightarrow>
                                             cron_pass offset env now (service\<lparr>cs_jobs := jobs\<rparr>)
                                               (head_addr (after_node (n_addr found) (cs_jobs service)))
                                               prev True called))))
               else cron_pass offset env now service (head_addr (after_node a (cs_jobs service)))
                      (Some a) modified called))"

declare cron_pass.simps [code]

text \<open>The time that the worker sleeps before the next pass, at most a minute.\<close>

definition cron_wait :: "int \<Rightarrow> JobNode list \<Rightarrow> int" where
  "cron_wait now jobs =
     (let next_time = fold (\<lambda>n t. if cj_next_run (n_job n) > 0 \<and> cj_next_run (n_job n) < t
                                  then cj_next_run (n_job n) else t) jobs LONG_MAX;
          wait_sec = (if next_time \<le> now then 0 else next_time - now)
      in if wait_sec > 60 then 60 else wait_sec)"

text \<open>One iteration of the loop of \<open>cron_worker\<close>: the service, the jobs called and the sleep.\<close>

definition cron_worker_iteration ::
  "int \<Rightarrow> json_printer \<Rightarrow> interference \<Rightarrow> int \<Rightarrow> int \<Rightarrow> CronService \<Rightarrow>
   (cron_error + (CronService \<times> CronJob list \<times> int)) option" where
  "cron_worker_iteration offset print env now now2 service =
     (case cron_pass offset env now service (head_addr (cs_jobs service)) None False [] of
        None \<Rightarrow> None
      | Some (Inl e) \<Rightarrow> Some (Inl e)
      | Some (Inr (service, modified, called)) \<Rightarrow>
          (let service = (if modified then save_jobs print service else service)
           in Some (Inr (service, called, cron_wait now2 (cs_jobs service)))))"

section \<open>A pass without interference\<close>

definition wf_jobs :: "JobNode list \<Rightarrow> bool" where
  [inv_defs]: "wf_jobs jobs \<longleftrightarrow> distinct (map n_addr jobs) \<and> distinct (map (\<lambda>n. cj_id (n_job n)) jobs)
     \<and> (\<forall>n \<in> set jobs. cj_id (n_job n) \<noteq> None)"

definition due :: "int \<Rightarrow> JobNode \<Rightarrow> bool" where
  "due now n \<longleftrightarrow> cj_next_run (n_job n) \<le> now"

text \<open>What a pass makes of one node: \<open>None\<close> when it is removed.\<close>

definition advance :: "int \<Rightarrow> int \<Rightarrow> JobNode \<Rightarrow> JobNode option" where
  "advance offset now n =
     (if \<not> due now n then Some n
      else case cron_schedule_next_run offset (cj_schedule (n_job n)) now of
             (ty, nxt) \<Rightarrow> if ty = CRON_SCHEDULE_RECURRING then Some (reschedule nxt n) else None)"

definition last_addr :: "JobNode list \<Rightarrow> nat option" where
  "last_addr ds = (if ds = [] then None else Some (n_addr (last ds)))"

lemma last_addr_snoc [simp]: "last_addr (ds @ [c]) = Some (n_addr c)"
  by (simp add: last_addr_def)

lemma reschedule_keeps [simp]:
  "n_addr (reschedule nxt n) = n_addr n" "cj_id (n_job (reschedule nxt n)) = cj_id (n_job n)"
  by (auto simp: reschedule_def set_next_run_def split: option.splits)

lemma split_at_node:
  assumes "a \<notin> n_addr ` set ds" and "n_addr c = a"
  shows "find (\<lambda>n. n_addr n = a) (ds @ c # rs) = Some c"
    and "after_node a (ds @ c # rs) = rs"
    and "takeWhile (\<lambda>n. n_addr n \<noteq> a) (ds @ c # rs) = ds"
    and "dropWhile (\<lambda>n. n_addr n \<noteq> a) (ds @ c # rs) = c # rs"
    and "update_first (\<lambda>n. n_addr n = a) f (ds @ c # rs) = ds @ f c # rs"
  using assms by (induction ds) (auto simp: after_node_def)

lemma find_id_split:
  assumes "\<And>d. d \<in> set ds \<Longrightarrow> cj_id (n_job d) \<noteq> i" and "cj_id (n_job c) = i"
  shows "find (\<lambda>n. cj_id (n_job n) = i) (ds @ c # rs) = Some c"
  using assms by (induction ds) auto

lemma unlink_split:
  assumes "distinct (map n_addr (ds @ c # rs))"
  shows "unlink_node (last_addr ds) (n_addr c) (ds @ c # rs) = Inr (ds @ rs)"
proof (cases ds rule: rev_cases)
  case Nil
  with assms show ?thesis by (simp add: unlink_node_def last_addr_def split_at_node [of _ "[]", simplified])
next
  case (snoc es p)
  have p: "n_addr p \<notin> n_addr ` set es" "n_addr c \<notin> n_addr ` set []" using assms snoc by auto
  note sp = split_at_node [OF p(1) refl, where rs = "c # rs"]
  show ?thesis
    using snoc sp split_at_node(2) [OF p(2) refl, where rs = rs]
    by (simp add: unlink_node_def last_addr_def)
qed

lemma cron_pass_step:
  assumes jobs: "cs_jobs service = ds @ c # rs" and wf: "wf_jobs (ds @ c # rs)"
  shows "cron_pass offset no_interference now service (Some (n_addr c)) (last_addr ds) modified called =
     (case advance offset now c of
        Some c' \<Rightarrow> cron_pass offset no_interference now (service\<lparr>cs_jobs := (ds @ [c']) @ rs\<rparr>)
                    (head_addr rs) (last_addr (ds @ [c'])) (modified \<or> due now c)
                    (called @ (if due now c \<and> cs_callback service then [copy_job (n_job c)] else []))
      | None \<Rightarrow> cron_pass offset no_interference now (service\<lparr>cs_jobs := ds @ rs\<rparr>)
                    (head_addr rs) (last_addr ds) True
                    (called @ (if cs_callback service then [copy_job (n_job c)] else [])))"
proof -
  have a: "n_addr c \<notin> n_addr ` set ds" and dist: "distinct (map n_addr (ds @ c # rs))"
    and "cj_id (n_job c) \<notin> (\<lambda>n. cj_id (n_job n)) ` set ds" and some: "cj_id (n_job c) \<noteq> None"
    using wf by (auto simp: wf_jobs_def)
  then have i: "\<And>d. d \<in> set ds \<Longrightarrow> cj_id (n_job d) \<noteq> cj_id (n_job c)" by (metis image_eqI)
  note sp = split_at_node [OF a refl, where rs = rs] find_id_split [OF i refl, where rs = rs]
  have rc: "run_callback no_interference j called service =
      (service, called @ (if cs_callback service then [j] else []))" for j
    by (simp add: run_callback_def no_interference_def)
  have same: "service\<lparr>cs_jobs := ds @ c # rs\<rparr> = service" using jobs by (metis CronService.surjective CronService.update_convs(4))
  show ?thesis
    apply (subst cron_pass.simps)
    using some
    by (auto simp: jobs sp rc unlink_split [OF dist] advance_def due_def same
        split: prod.splits if_splits)
qed

lemma advance_keeps: "advance offset now c = Some c' \<Longrightarrow> n_addr c' = n_addr c \<and> cj_id (n_job c') = cj_id (n_job c)"
  by (auto simp: advance_def split: if_splits prod.splits)

lemma wf_jobs_advance: "wf_jobs (ds @ c # rs) \<Longrightarrow> advance offset now c = Some c' \<Longrightarrow> wf_jobs ((ds @ [c']) @ rs)"
  by (drule advance_keeps) (auto simp: wf_jobs_def)

lemma wf_jobs_drop: "wf_jobs (ds @ c # rs) \<Longrightarrow> wf_jobs (ds @ rs)"
  by (auto simp: wf_jobs_def)

lemma cron_pass_split:
  assumes "cs_jobs service = ds @ rs" and "wf_jobs (ds @ rs)"
  shows "cron_pass offset no_interference now service (head_addr rs) (last_addr ds) modified called =
     Some (Inr (service\<lparr>cs_jobs := ds @ List.map_filter (advance offset now) rs\<rparr>,
                modified \<or> (\<exists>n \<in> set rs. due now n),
                called @ (if cs_callback service then map (copy_job \<circ> n_job) (filter (due now) rs) else [])))"
  using assms
proof (induction rs arbitrary: ds service modified called)
  case Nil
  then show ?case
    by (subst cron_pass.simps) (simp add: head_addr_def map_filter_simps(2))
next
  case (Cons c rs)
  show ?case
  proof (cases "advance offset now c")
    case None
    then have "due now c" by (auto simp: advance_def split: if_splits)
    with None Cons.prems show ?thesis
      using Cons.IH [of "service\<lparr>cs_jobs := ds @ rs\<rparr>" ds] wf_jobs_drop [of ds c rs]
      by (simp add: head_addr_def [of "c # rs"] cron_pass_step map_filter_simps)
  next
    case (Some c')
    with Cons.prems show ?thesis
      using Cons.IH [of "service\<lparr>cs_jobs := (ds @ [c']) @ rs\<rparr>" "ds @ [c']"] wf_jobs_advance [of ds c rs]
      by (auto simp: head_addr_def [of "c # rs"] cron_pass_step map_filter_simps)
  qed
qed

lemma advance_future: "advance offset now n = Some n' \<Longrightarrow> now < cj_next_run (n_job n')"
proof (cases "due now n")
  case False
  assume "advance offset now n = Some n'"
  with False show ?thesis by (simp add: advance_def due_def)
next
  case True
  assume "advance offset now n = Some n'"
  with True obtain nxt where
    nxt: "cron_schedule_next_run offset (cj_schedule (n_job n)) now = (CRON_SCHEDULE_RECURRING, nxt)"
      "n' = reschedule nxt n"
    by (auto simp: advance_def split: prod.splits if_splits)
  then obtain t where "nxt = Some t" "now < t" using recurring_future by blast
  with nxt(2) show ?thesis by (simp add: reschedule_def set_next_run_def)
qed

lemma set_map_filter: "x \<in> set (List.map_filter f xs) \<longleftrightarrow> (\<exists>y \<in> set xs. f y = Some x)"
  by (induction xs) (auto simp: map_filter_simps split: option.splits)

lemma map_filter_image:
  assumes "\<And>y x. f y = Some x \<Longrightarrow> g x = g y"
  shows "g ` set (List.map_filter f xs) \<subseteq> g ` set xs"
proof
  fix z
  assume "z \<in> g ` set (List.map_filter f xs)"
  then obtain x y where "y \<in> set xs" "f y = Some x" "z = g x" by (auto simp: set_map_filter)
  with assms show "z \<in> g ` set xs" by (metis image_eqI)
qed

lemma wf_jobs_map_filter: "wf_jobs jobs \<Longrightarrow> wf_jobs (List.map_filter (advance offset now) jobs)"
proof (induction jobs)
  case Nil
  then show ?case by (simp add: map_filter_simps)
next
  case (Cons n ns)
  have addrs: "n_addr ` set (List.map_filter (advance offset now) ns) \<subseteq> n_addr ` set ns"
    by (rule map_filter_image) (simp add: advance_keeps)
  have ids: "(\<lambda>n. cj_id (n_job n)) ` set (List.map_filter (advance offset now) ns)
      \<subseteq> (\<lambda>n. cj_id (n_job n)) ` set ns"
    by (rule map_filter_image) (simp add: advance_keeps)
  have "wf_jobs ns" using Cons.prems by (auto simp: wf_jobs_def)
  then have IH: "wf_jobs (List.map_filter (advance offset now) ns)" by (rule Cons.IH)
  show ?case
  proof (cases "advance offset now n")
    case None
    with IH show ?thesis by (simp add: map_filter_simps)
  next
    case (Some n')
    have "n_addr n' \<notin> n_addr ` set (List.map_filter (advance offset now) ns)"
      using Cons.prems advance_keeps [OF Some] addrs by (auto simp: wf_jobs_def)
    moreover have "cj_id (n_job n') \<notin> (\<lambda>n. cj_id (n_job n)) ` set (List.map_filter (advance offset now) ns)"
      using Cons.prems advance_keeps [OF Some] subsetD [OF ids, of "cj_id (n_job n)"] by (auto simp: wf_jobs_def)
    moreover have "cj_id (n_job n') \<noteq> None"
      using Cons.prems advance_keeps [OF Some] by (simp add: wf_jobs_def)
    ultimately show ?thesis using IH Some by (auto simp: wf_jobs_def map_filter_simps)
  qed
qed

text \<open>Claim C31. A worker pass over a job table with distinct, non-NULL job ids, without interference
  from other threads: it ends without touching a stale node, calls the callback exactly once
  for each due job, in list order and with a copy of the job, removes the due one-time and invalid
  jobs, gives each due recurring job its next run, leaves the other jobs alone, reports a
  modification exactly when a job was due, and afterwards no job is due.\<close>

theorem cron_pass_correct:
  assumes "wf_jobs (cs_jobs service)" and "cs_callback service"
  shows "\<exists>service'. cron_pass offset no_interference now service (head_addr (cs_jobs service)) None False [] =
      Some (Inr (service', \<exists>n \<in> set (cs_jobs service). due now n,
                 map (copy_job \<circ> n_job) (filter (due now) (cs_jobs service))))
    \<and> service' = service\<lparr>cs_jobs := List.map_filter (advance offset now) (cs_jobs service)\<rparr>
    \<and> wf_jobs (cs_jobs service') \<and> (\<forall>n \<in> set (cs_jobs service'). now < cj_next_run (n_job n))"
  using assms cron_pass_split [of service "[]" "cs_jobs service" offset now False "[]"]
  by (auto simp: last_addr_def wf_jobs_map_filter set_map_filter intro: advance_future)

definition job_at :: "string \<Rightarrow> string \<Rightarrow> int \<Rightarrow> CronJob" where
  "job_at i s t = \<lparr>cj_id = Some i, cj_name = Some i, cj_payload_message = None, cj_channel = None, cj_to = None,
     cj_deliver = True, cj_next_run = t, cj_schedule = Some s, cj_retry_count = 0, cj_max_retries = 3,
     cj_last_status = 0\<rparr>"

definition service_of :: "CronJob list \<Rightarrow> CronService" where
  "service_of js = \<lparr>cs_store_path = Some ''cron_store.json'', cs_callback = True, cs_running = True,
     cs_jobs = map (\<lambda>(a, j). \<lparr>n_addr = a, n_job = j\<rparr>) (List.enumerate 1 js), cs_store = None,
     cs_writable = True, cs_fresh = Suc (length js)\<rparr>"

theorem cron_pass_correct_witness:
  "\<exists>service'. cron_pass 0 no_interference 1000
       (service_of [job_at ''a'' ''@every 30'' 990, job_at ''b'' ''@in 5'' 1000, job_at ''c'' ''@in 5'' 2000])
       (Some 1) None False [] =
     Some (Inr (service', True, [job_at ''a'' ''@every 30'' 990, job_at ''b'' ''@in 5'' 1000]))"
proof -
  let ?s = "service_of [job_at ''a'' ''@every 30'' 990, job_at ''b'' ''@in 5'' 1000, job_at ''c'' ''@in 5'' 2000]"
  have wf: "wf_jobs (cs_jobs ?s)" and cb: "cs_callback ?s" by (simp_all add: service_of_def wf_jobs_def job_at_def)
  have h: "head_addr (cs_jobs ?s) = Some 1" by (simp add: service_of_def head_addr_def)
  have d: "(\<exists>n \<in> set (cs_jobs ?s). due 1000 n) = True"
    "map (copy_job \<circ> n_job) (filter (due 1000) (cs_jobs ?s)) = [job_at ''a'' ''@every 30'' 990, job_at ''b'' ''@in 5'' 1000]"
    by (simp_all add: service_of_def due_def job_at_def copy_job_def)
  show ?thesis using cron_pass_correct [OF wf cb, of 0 1000] unfolding h d by blast
qed

section \<open>Passes that go wrong\<close>

text \<open>What another thread does when it adds a job while the callback runs.\<close>

definition add_during_callback :: "CronJob \<Rightarrow> interference" where
  "add_during_callback j k snapshot service = (if k = 0 then push_job j service else service)"

text \<open>The stale predecessor: when the first job of the list is a due one-time job and another
  thread adds a job while its callback runs, the pass unlinks the new job together with the finished
  one, because it relinks the list through the predecessor that it computed before the callback.
  The table ends up without the job that was added.\<close>

theorem cron_pass_loses_added_job:
  "cron_pass 0 (add_during_callback (job_at ''new'' ''@every 60'' 2000)) 1000
     (service_of [job_at ''a'' ''@in 5'' 1000, job_at ''b'' ''@every 60'' 3000]) (Some 1) None False [] =
   Some (Inr ((service_of [job_at ''a'' ''@in 5'' 1000, job_at ''b'' ''@every 60'' 3000])
                \<lparr>cs_jobs := [\<lparr>n_addr = 2, n_job = job_at ''b'' ''@every 60'' 3000\<rparr>], cs_fresh := 4\<rparr>,
              True, [job_at ''a'' ''@in 5'' 1000]))"
  by code_simp

lemma find_False [simp]: "find (\<lambda>x. False) xs = None"
  by (simp add: find_None_iff)

text \<open>The traversal of a list whose due head has no id restarts for ever.\<close>

lemma cron_pass_null_id_loops:
  assumes "cron_pass offset env now service current prev modified called = Some r"
  shows "env = no_interference \<longrightarrow> (\<forall>n ns. cs_jobs service = n # ns \<longrightarrow> current = Some (n_addr n) \<longrightarrow>
    cj_id (n_job n) = None \<longrightarrow> \<not> due now n)"
proof (rule cron_pass.raw_induct [OF _ assms], intro impI allI notI, goal_cases)
  case (1 pass offset env now service current prev modified called r n ns)
  have "pass offset env now service (head_addr (cs_jobs service)) None modified
      (called @ (if cs_callback service then [copy_job (n_job n)] else [])) = Some r"
    using 1(2-) by (simp add: run_callback_def no_interference_def due_def split: if_splits)
  from 1(1) [OF this] show False using 1(3-) by (simp add: head_addr_def)
qed

text \<open>A job without an id: the store file may hold a job without the key id, and without
  next_run it is due at once; when it is the head of the list the worker never finds it again after
  the callback and restarts from the head for ever, so the pass does not end.\<close>

theorem cron_pass_null_id_diverges:
  assumes "cs_jobs service = n # ns" and "cj_id (n_job n) = None" and "cj_next_run (n_job n) \<le> now"
  shows "cron_pass offset no_interference now service (head_addr (cs_jobs service)) None False [] = None"
proof (rule ccontr)
  assume "\<not> ?thesis"
  then obtain r where "cron_pass offset no_interference now service (head_addr (cs_jobs service)) None False [] = Some r"
    by blast
  from cron_pass_null_id_loops [OF this] show False
    using assms by (simp add: head_addr_def due_def)
qed

theorem cron_pass_null_id_diverges_witness:
  "cron_pass 0 no_interference 1000 (service_of [job_of_json (JObject [])]) (Some 1) None False [] = None"
proof -
  let ?s = "service_of [job_of_json (JObject [])]"
  have j: "cs_jobs ?s = \<lparr>n_addr = 1, n_job = job_of_json (JObject [])\<rparr> # []" by (simp add: service_of_def)
  have h: "head_addr (cs_jobs ?s) = Some 1" by (simp add: j head_addr_def)
  show ?thesis
    using cron_pass_null_id_diverges [OF j, of 1000 0] unfolding h
    by (simp add: job_of_json_def get_object_item_def json_defs)
qed

section \<open>The sleep\<close>

lemma fold_min_next:
  "(let m = fold (\<lambda>n t. if cj_next_run (n_job n) > 0 \<and> cj_next_run (n_job n) < t
                        then cj_next_run (n_job n) else t) jobs t0
    in m \<le> t0 \<and> (\<forall>n \<in> set jobs. 0 < cj_next_run (n_job n) \<longrightarrow> m \<le> cj_next_run (n_job n)))"
proof (induction jobs arbitrary: t0)
  case Nil
  then show ?case by simp
next
  case (Cons n jobs)
  from Cons.IH [of "if cj_next_run (n_job n) > 0 \<and> cj_next_run (n_job n) < t0 then cj_next_run (n_job n) else t0"]
  show ?case by (auto simp: Let_def split: if_splits)
qed

text \<open>The sleep between passes: it lasts between 0 and 60 seconds, and the worker never
  sleeps past the run time of a job with a positive run time.\<close>

theorem cron_wait_bounds:
  "0 \<le> cron_wait now jobs \<and> cron_wait now jobs \<le> 60
   \<and> (\<forall>n \<in> set jobs. 0 < cj_next_run (n_job n) \<longrightarrow>
        cron_wait now jobs \<le> max 0 (cj_next_run (n_job n) - now))"
  using fold_min_next [of jobs LONG_MAX] by (force simp: cron_wait_def Let_def)

theorem cron_wait_bounds_witness:
  "cron_wait 1000 [\<lparr>n_addr = 1, n_job = job_at ''a'' ''@in 5'' 1005\<rparr>] \<le> 5"
  using cron_wait_bounds [of 1000 "[\<lparr>n_addr = 1, n_job = job_at ''a'' ''@in 5'' 1005\<rparr>]"]
  by (simp add: job_at_def)

section \<open>The job table\<close>

definition names_distinct :: "JobNode list \<Rightarrow> bool" where
  [inv_defs]: "names_distinct jobs \<longleftrightarrow> distinct (List.map_filter (\<lambda>n. cj_name (n_job n)) jobs)"

definition named :: "string \<Rightarrow> CronJob \<Rightarrow> bool" where
  "named nm j \<longleftrightarrow> cj_name j = Some nm"

lemma save_jobs_jobs [simp]: "cs_jobs (save_jobs print service) = cs_jobs service"
  by (simp add: save_jobs_def split: option.splits)

lemma set_next_run_keeps [simp]:
  "cj_name (set_next_run nxt j) = cj_name j" "cj_id (set_next_run nxt j) = cj_id j"
  "cj_schedule (set_next_run nxt j) = cj_schedule j"
  "cj_payload_message (set_next_run nxt j) = cj_payload_message j"
  "cj_next_run (set_next_run (Some t) j) = t"
  by (auto simp: set_next_run_def split: option.splits)

lemma map_filter_cong_map:
  "map f xs = map f ys \<Longrightarrow> List.map_filter f xs = List.map_filter f ys"
proof (induction xs arbitrary: ys)
  case Nil
  then show ?case by simp
next
  case (Cons x xs)
  then obtain y zs where "ys = y # zs" "f x = f y" "map f xs = map f zs" by (cases ys) auto
  with Cons.IH [of zs] show ?case by (simp add: map_filter_simps split: option.splits)
qed

lemma update_first_others:
  assumes "\<And>n. P n \<Longrightarrow> \<not> Q (g n)" and "\<And>n. P n \<Longrightarrow> \<not> Q (g (f n))"
  shows "filter Q (map g (update_first P f xs)) = filter Q (map g xs)"
  using assms by (induction xs) auto

lemma update_first_member:
  "find P xs = Some x \<Longrightarrow> f x \<in> set (update_first P f xs)"
  by (induction xs) (auto split: if_splits)

lemma schedule_valid_Some:
  assumes "cron_schedule_next_run offset s now = (ty, nxt)" and "ty \<noteq> CRON_SCHEDULE_INVALID"
  shows "\<exists>t. nxt = Some t"
proof -
  have "fst (cron_schedule_next_run offset s now) \<noteq> CRON_SCHEDULE_INVALID \<Longrightarrow>
      snd (cron_schedule_next_run offset s now) \<noteq> None"
    unfolding cron_schedule_next_run_def Let_def
    by (cases s; cases "parse_standard_cron offset s now"; cases "parse_daily_schedule s")
      (simp_all split: if_split_asm prod.split)
  with assms show ?thesis by simp
qed

lemma add_job_update:
  assumes "find (same_name job) (cs_jobs service) = Some current"
    and "cron_service_add_job offset print now rnd job service = Inr (Some i, service')"
  shows "\<exists>ty t. cron_schedule_next_run offset (cj_schedule job) now = (ty, Some t)
    \<and> cj_id (n_job current) = Some i
    \<and> cs_jobs service' = update_first (same_name job) (\<lambda>n. n\<lparr>n_job := set_next_run (Some t)
         ((n_job n)\<lparr>cj_schedule := cj_schedule job, cj_payload_message := cj_payload_message job\<rparr>)\<rparr>) (cs_jobs service)"
proof -
  obtain ty nxt where s: "cron_schedule_next_run offset (cj_schedule job) now = (ty, nxt)" by fastforce
  with assms have "ty \<noteq> CRON_SCHEDULE_INVALID"
    by (auto simp: cron_service_add_job_def Let_def split: if_splits)
  with schedule_valid_Some [OF s] obtain t where "nxt = Some t" by blast
  with assms s \<open>ty \<noteq> _\<close> show ?thesis
    by (auto simp: cron_service_add_job_def Let_def split: option.splits)
qed

lemma add_job_insert:
  assumes "find (same_name job) (cs_jobs service) = None"
    and "cron_service_add_job offset print now rnd job service = Inr (Some i, service')"
  shows "\<exists>ty t. cron_schedule_next_run offset (cj_schedule job) now = (ty, Some t)
    \<and> (\<exists>a. cs_jobs service' = \<lparr>n_addr = a, n_job = set_next_run (Some t) ((copy_job job)\<lparr>cj_id := Some i\<rparr>)\<rparr>
                              # cs_jobs service)"
proof -
  obtain ty nxt where s: "cron_schedule_next_run offset (cj_schedule job) now = (ty, nxt)" by fastforce
  have sched: "cj_schedule (copy_job job) = cj_schedule job" by (simp add: copy_job_def)
  from assms s have "ty \<noteq> CRON_SCHEDULE_INVALID"
    by (auto simp: cron_service_add_job_def Let_def sched split: if_splits)
  with schedule_valid_Some [OF s] obtain t where "nxt = Some t" by blast
  with assms s \<open>ty \<noteq> _\<close> show ?thesis
    by (auto simp: cron_service_add_job_def Let_def sched push_job_def)
qed

text \<open>Adding a named job: when \<open>cron_service_add_job\<close> succeeds on a table whose names are distinct,
  the names stay distinct, the table holds a job of that name under the returned id with the given
  schedule and payload and with the next run that the schedule prescribes, and the jobs of other
  names are unchanged, whether the name was new or not.\<close>

theorem cron_add_job_named:
  assumes "names_distinct (cs_jobs service)" and "cj_name job = Some nm"
    and "cron_service_add_job offset print now rnd job service = Inr (Some i, service')"
  shows "names_distinct (cs_jobs service')
    \<and> (\<exists>j \<in> set (map n_job (cs_jobs service')). named nm j \<and> cj_id j = Some i \<and> cj_schedule j = cj_schedule job
         \<and> cj_payload_message j = cj_payload_message job
         \<and> snd (cron_schedule_next_run offset (cj_schedule job) now) = Some (cj_next_run j))
    \<and> filter (Not \<circ> named nm) (map n_job (cs_jobs service')) = filter (Not \<circ> named nm) (map n_job (cs_jobs service))"
proof (cases "find (same_name job) (cs_jobs service)")
  case None
  have new: "Some nm \<notin> (\<lambda>n. cj_name (n_job n)) ` set (cs_jobs service)"
    using None assms(2) by (auto simp: find_None_iff same_name_def)
  from add_job_insert [OF None assms(3)] obtain ty t a where
    s: "cron_schedule_next_run offset (cj_schedule job) now = (ty, Some t)" and
    j: "cs_jobs service' = \<lparr>n_addr = a, n_job = set_next_run (Some t) ((copy_job job)\<lparr>cj_id := Some i\<rparr>)\<rparr>
        # cs_jobs service" by blast
  have "nm \<notin> set (List.map_filter (\<lambda>n. cj_name (n_job n)) (cs_jobs service))"
    using new by (force simp: set_map_filter)
  with s j assms(1,2) show ?thesis
    by (auto simp: names_distinct_def map_filter_simps copy_job_def named_def)
next
  case (Some current)
  let ?f = "\<lambda>t n. n\<lparr>n_job := set_next_run (Some t)
     ((n_job n)\<lparr>cj_schedule := cj_schedule job, cj_payload_message := cj_payload_message job\<rparr>)\<rparr>"
  from add_job_update [OF Some assms(3)] obtain ty t where
    s: "cron_schedule_next_run offset (cj_schedule job) now = (ty, Some t)" "cj_id (n_job current) = Some i" and
    j: "cs_jobs service' = update_first (same_name job) (?f t) (cs_jobs service)" by blast
  have c: "named nm (n_job current)" using Some assms(2) by (auto simp: find_Some_iff same_name_def named_def)
  have "List.map_filter (\<lambda>n. cj_name (n_job n)) (cs_jobs service')
      = List.map_filter (\<lambda>n. cj_name (n_job n)) (cs_jobs service)"
    unfolding j by (intro map_filter_cong_map map_update_first_inv) simp
  moreover have "?f t current \<in> set (cs_jobs service')" unfolding j by (rule update_first_member [OF Some])
  moreover have "filter (Not \<circ> named nm) (map n_job (cs_jobs service'))
      = filter (Not \<circ> named nm) (map n_job (cs_jobs service))"
    unfolding j by (rule update_first_others) (use assms(2) in \<open>auto simp: same_name_def named_def\<close>)
  ultimately show ?thesis
    using assms(1) s c by (auto simp: names_distinct_def named_def intro!: bexI [of _ "?f t current"])
qed

theorem cron_add_job_named_witness:
  "\<exists>service'. cron_service_add_job 0 (\<lambda>j. Some ''{}'') 1000 7 (job_at ''a'' ''@every 90'' 0)
       (service_of [job_at ''a'' ''@every 30'' 990, job_at ''b'' ''@in 5'' 1000]) = Inr (Some ''a'', service')
     \<and> names_distinct (cs_jobs service')"
proof -
  let ?s = "service_of [job_at ''a'' ''@every 30'' 990, job_at ''b'' ''@in 5'' 1000]"
  obtain service' where r:
    "cron_service_add_job 0 (\<lambda>j. Some ''{}'') 1000 7 (job_at ''a'' ''@every 90'' 0) ?s = Inr (Some ''a'', service')"
    by (simp add: cron_service_add_job_def service_of_def same_name_def job_at_def cron_schedule_next_run_def
        starts_with_def Let_def)
  have d: "names_distinct (cs_jobs ?s)" by (simp add: names_distinct_def service_of_def job_at_def map_filter_simps)
  have n: "cj_name (job_at ''a'' ''@every 90'' 0) = Some ''a''" by (simp add: job_at_def)
  show ?thesis using cron_add_job_named [OF d n r] r by blast
qed

text \<open>Updating a job with an invalid schedule: \<open>cron_service_add_job\<close> reports failure, but it has already
  replaced the schedule and the payload of the existing job, whose next run stays; the following
  pass in which the job is due drops it.\<close>

theorem cron_add_job_invalid_update:
  assumes "find (same_name job) (cs_jobs service) = Some current"
    and "fst (cron_schedule_next_run offset (cj_schedule job) now) = CRON_SCHEDULE_INVALID"
  shows "\<exists>service'. cron_service_add_job offset print now rnd job service = Inr (None, service')
    \<and> cs_store service' = cs_store service
    \<and> (\<exists>n \<in> set (cs_jobs service'). n_addr n = n_addr current \<and> cj_schedule (n_job n) = cj_schedule job
         \<and> cj_next_run (n_job n) = cj_next_run (n_job current))"
proof -
  obtain nxt where s: "cron_schedule_next_run offset (cj_schedule job) now = (CRON_SCHEDULE_INVALID, nxt)"
    using assms(2) by (metis prod.collapse)
  then have "nxt = None"
    by (auto simp: cron_schedule_next_run_def Let_def split: option.splits if_splits)
  let ?f = "\<lambda>n. n\<lparr>n_job := set_next_run nxt
     ((n_job n)\<lparr>cj_schedule := cj_schedule job, cj_payload_message := cj_payload_message job\<rparr>)\<rparr>"
  have "?f current \<in> set (update_first (same_name job) ?f (cs_jobs service))"
    by (rule update_first_member [OF assms(1)])
  with assms(1) s \<open>nxt = None\<close> show ?thesis
    by (auto simp: cron_service_add_job_def Let_def set_next_run_def intro!: bexI [of _ "?f current"])
qed

theorem cron_add_job_invalid_update_witness:
  "\<exists>service'. cron_service_add_job 0 (\<lambda>j. Some ''{}'') 1000 7 (job_at ''a'' ''tomorrow'' 0)
       (service_of [job_at ''a'' ''@every 30'' 1010]) = Inr (None, service')
     \<and> (\<exists>n \<in> set (cs_jobs service'). cj_schedule (n_job n) = Some ''tomorrow'')"
proof -
  let ?s = "service_of [job_at ''a'' ''@every 30'' 1010]" and ?j = "job_at ''a'' ''tomorrow'' 0"
  have f: "find (same_name ?j) (cs_jobs ?s) = Some \<lparr>n_addr = 1, n_job = job_at ''a'' ''@every 30'' 1010\<rparr>"
    by (simp add: service_of_def same_name_def job_at_def)
  have "scan_words 7 5 ''tomorrow'' = [''tomorro'', ''w'']" "parse_daily_schedule (Some ''tomorrow'') = None"
    by code_simp+
  then have i: "fst (cron_schedule_next_run 0 (cj_schedule ?j) 1000) = CRON_SCHEDULE_INVALID"
    by (simp add: cron_schedule_next_run_def parse_standard_cron_def job_at_def starts_with_def)
  from cron_add_job_invalid_update [OF f i, of "\<lambda>j. Some ''{}''" 7] show ?thesis
    by (auto simp: job_at_def)
qed

lemma remove_job_parts:
  assumes "wf_jobs (cs_jobs service)"
  shows "fst (cron_service_remove_job print i service) = (\<exists>n \<in> set (cs_jobs service). cj_id (n_job n) = Some i)"
    and "cs_jobs (snd (cron_service_remove_job print i service)) =
         filter (\<lambda>n. cj_id (n_job n) \<noteq> Some i) (cs_jobs service)"
    and "wf_jobs (cs_jobs (snd (cron_service_remove_job print i service)))"
proof -
  let ?P = "\<lambda>n. cj_id (n_job n) = Some i"
  have r: "remove_first ?P (cs_jobs service) = filter (\<lambda>n. \<not> ?P n) (cs_jobs service)"
    using assms by (intro remove_first_distinct_filter) (simp add: wf_jobs_def)
  show "fst (cron_service_remove_job print i service) = (\<exists>n \<in> set (cs_jobs service). ?P n)"
    by (auto simp: cron_service_remove_job_def find_None_iff find_Some_iff split: option.splits)
  show f: "cs_jobs (snd (cron_service_remove_job print i service)) = filter (\<lambda>n. \<not> ?P n) (cs_jobs service)"
    by (auto simp: cron_service_remove_job_def r find_None_iff filter_id_conv split: option.splits)
  show "wf_jobs (cs_jobs (snd (cron_service_remove_job print i service)))"
    using assms unfolding f by (auto simp: wf_jobs_def distinct_map_filter)
qed

text \<open>Removing a job: on a table with distinct ids \<open>cron_service_remove_job\<close> answers whether the id was
  there, afterwards the table holds exactly the other jobs, in the same order, and the table
  invariant is kept.\<close>

theorem cron_remove_job_correct:
  assumes "wf_jobs (cs_jobs service)"
  shows "fst (cron_service_remove_job print i service) = (\<exists>n \<in> set (cs_jobs service). cj_id (n_job n) = Some i)
    \<and> cs_jobs (snd (cron_service_remove_job print i service)) = filter (\<lambda>n. cj_id (n_job n) \<noteq> Some i) (cs_jobs service)
    \<and> wf_jobs (cs_jobs (snd (cron_service_remove_job print i service)))"
  using remove_job_parts [OF assms] by simp

theorem cron_remove_job_correct_witness:
  "cs_jobs (snd (cron_service_remove_job (\<lambda>j. None) ''a'' (service_of [job_at ''a'' ''@in 5'' 990, job_at ''b'' ''@in 5'' 1000])))
   = [\<lparr>n_addr = 2, n_job = job_at ''b'' ''@in 5'' 1000\<rparr>]"
proof -
  let ?s = "service_of [job_at ''a'' ''@in 5'' 990, job_at ''b'' ''@in 5'' 1000]"
  have wf: "wf_jobs (cs_jobs ?s)" by (simp add: service_of_def wf_jobs_def job_at_def)
  show ?thesis using cron_remove_job_correct [OF wf] by (simp add: service_of_def job_at_def numeral_2_eq_2)
qed

section \<open>The store file\<close>

text \<open>What a job is after a restart: the retry fields are not stored.\<close>

definition persisted :: "CronJob \<Rightarrow> CronJob" where
  "persisted j = j\<lparr>cj_retry_count := 0, cj_max_retries := 0, cj_last_status := 0\<rparr>"

lemma find_append: "find P (xs @ ys) = (case find P xs of None \<Rightarrow> find P ys | Some x \<Rightarrow> Some x)"
  by (induction xs) auto

lemma find_opt_string:
  "find P (opt_string k v) = (case v of None \<Rightarrow> None | Some s \<Rightarrow> if P (k, JString s) then Some (k, JString s) else None)"
  by (simp add: opt_string_def split: option.splits)

lemma job_of_json_job_json:
  assumes "\<bar>cj_next_run j\<bar> < 2 ^ 53"
  shows "job_of_json (job_json j) = persisted j"
proof -
  note get = job_json_def get_object_item_def find_append find_opt_string json_defs strcaseeq_def tolower_def isupper_def
  have g: "json_string (get_object_item (Some (job_json j)) ''id'') = cj_id j"
    "json_string (get_object_item (Some (job_json j)) ''name'') = cj_name j"
    "json_string (get_object_item (Some (job_json j)) ''payload_message'') = cj_payload_message j"
    "json_string (get_object_item (Some (job_json j)) ''channel'') = cj_channel j"
    "json_string (get_object_item (Some (job_json j)) ''to'') = cj_to j"
    "json_bool (get_object_item (Some (job_json j)) ''deliver'') = Some (cj_deliver j)"
    "json_number (get_object_item (Some (job_json j)) ''next_run'') = Some (of_int (cj_next_run j))"
    "json_string (get_object_item (Some (job_json j)) ''schedule'') = cj_schedule j"
    by (simp_all add: get double_of_int_exact [OF assms] split: option.splits)
  show ?thesis by (simp add: job_of_json_def persisted_def g)
qed

lemma fold_push_jobs:
  "map n_job (cs_jobs (fold (push_job \<circ> job_of_json) items service)) = rev (map job_of_json items) @ map n_job (cs_jobs service)"
  by (induction items arbitrary: service) (simp_all add: push_job_def)

text \<open>Persistence round trip: when the table is written and the text that is written parses back to
  the tree it was printed from, a service created on that file holds the same jobs in reverse order,
  with the retry fields reset, provided that the run times are below \<open>2 ^ 53\<close>.\<close>

theorem cron_store_roundtrip:
  assumes "print (jobs_json (map n_job (cs_jobs service))) = Some json_str" and "json_str \<noteq> ''''"
    and "parse json_str = Some (jobs_json (map n_job (cs_jobs service)))"
    and "cs_store_path service = Some path" and "cs_writable service"
    and "\<forall>n \<in> set (cs_jobs service). \<bar>cj_next_run (n_job n)\<bar> < 2 ^ 53"
  shows "map n_job (cs_jobs (cron_service_create parse path (cs_store (save_jobs print service)) w))
    = rev (map (persisted \<circ> n_job) (cs_jobs service))"
proof -
  have "map (job_of_json \<circ> (job_json \<circ> n_job)) (cs_jobs service) = map (persisted \<circ> n_job) (cs_jobs service)"
    using assms(6) by (simp add: job_of_json_job_json)
  moreover have "get_object_item (Some (jobs_json js)) ''jobs'' = Some (JArray (map job_json js))" for js
    by (simp add: jobs_json_def get_object_item_def)
  ultimately show ?thesis
    using assms(1-5)
    by (simp add: cron_service_create_def load_jobs_def save_jobs_def json_defs fold_push_jobs rev_map)
qed

theorem cron_store_roundtrip_witness:
  "map n_job (cs_jobs (cron_service_create (\<lambda>s. Some (jobs_json [job_at ''a'' ''@in 5'' 990, job_at ''b'' ''@in 5'' 1000]))
      ''cron_store.json'' (cs_store (save_jobs (\<lambda>j. Some ''[...]'') (service_of [job_at ''a'' ''@in 5'' 990, job_at ''b'' ''@in 5'' 1000]))) True))
   = [persisted (job_at ''b'' ''@in 5'' 1000), persisted (job_at ''a'' ''@in 5'' 990)]"
proof -
  let ?js = "[job_at ''a'' ''@in 5'' 990, job_at ''b'' ''@in 5'' 1000]"
  have j: "map n_job (cs_jobs (service_of ?js)) = ?js" by (simp add: service_of_def)
  have "map n_job (cs_jobs (cron_service_create (\<lambda>s. Some (jobs_json ?js)) ''cron_store.json''
      (cs_store (save_jobs (\<lambda>j. Some ''[...]'') (service_of ?js))) True))
    = rev (map (persisted \<circ> n_job) (cs_jobs (service_of ?js)))"
    by (rule cron_store_roundtrip [where json_str = "''[...]''"])
      (unfold j, simp_all add: service_of_def job_at_def)
  then show ?thesis by (simp add: service_of_def)
qed

end
