(* ===== verification/ToolValidation.thy ===== *)
theory ToolValidation
  imports Json
begin

text \<open>
  \<open>src/tools/tool_validation.c\<close>: checking the arguments of a tool call against the JSON schema of
  the tool and casting them. The result object and the list of error messages are built property
  by property; an argument text that is no JSON, a schema that is no JSON and a list of errors
  are the error values. JSON parsing and printing, the \<^verbatim>\<open>%g\<close> format and \<open>strtod\<close> (whose values are doubles)
  are parameters; a double that is infinite or not a number has the value \<open>None\<close>. The JSON library prints the item of such a double as null, which is what
  the item is here, since a result is only printed. The numbers in an argument text are taken to be finite (the library reads 1e999 as infinity).
\<close>

record number_formats =
  nf_format_g :: "rat \<Rightarrow> string"
  nf_strtod :: "string \<Rightarrow> rat option \<times> string"

definition MAX_ERROR_MSG :: nat where
  "MAX_ERROR_MSG = 256"

text \<open>\<open>validation_list_add\<close> formats into a buffer of \<open>MAX_ERROR_MSG\<close> bytes.\<close>

definition validation_list_add :: "string list \<Rightarrow> string \<Rightarrow> string list" where
  "validation_list_add errors msg = errors @ [c_trunc MAX_ERROR_MSG msg]"

fun validation_list_join :: "string list \<Rightarrow> string \<Rightarrow> string option" where
  "validation_list_join [] separator = None"
| "validation_list_join [e] separator = Some e"
| "validation_list_join (e # es) separator = map_option (\<lambda>r. e @ separator @ r) (validation_list_join es separator)"

section \<open>Casts\<close>

definition cast_to_string :: "number_formats \<Rightarrow> json_printer \<Rightarrow> json \<Rightarrow> string option" where
  "cast_to_string nf print val =
     (case val of
        JString s \<Rightarrow> Some s
      | JNumber r \<Rightarrow> Some (c_trunc 64 (nf_format_g nf r))
      | JBool b \<Rightarrow> Some (if b then ''true'' else ''false'')
      | JNull \<Rightarrow> Some ''null''
      | _ \<Rightarrow> print val)"

definition cast_to_int :: "json \<Rightarrow> int option" where
  "cast_to_int val =
     (case val of
        JNumber r \<Rightarrow> Some (number_valueint r)
      | JString s \<Rightarrow> (let (v, endptr) = strtol s in if endptr = '''' then Some (to_int32 v) else None)
      | _ \<Rightarrow> None)"

definition cast_to_number :: "number_formats \<Rightarrow> json \<Rightarrow> rat option option" where
  "cast_to_number nf val =
     (case val of
        JNumber r \<Rightarrow> Some (Some r)
      | JString s \<Rightarrow> (let (v, endptr) = nf_strtod nf s in if endptr = '''' then Some v else None)
      | _ \<Rightarrow> None)"

definition number_item :: "rat option \<Rightarrow> json" where
  "number_item d = (case d of Some r \<Rightarrow> JNumber r | None \<Rightarrow> JNull)"

definition cast_to_bool :: "json \<Rightarrow> bool option" where
  "cast_to_bool val =
     (case val of
        JBool b \<Rightarrow> Some b
      | JString s \<Rightarrow>
          if strcaseeq s ''true'' \<or> strcaseeq s ''yes'' \<or> s = ''1'' then Some True
          else if strcaseeq s ''false'' \<or> strcaseeq s ''no'' \<or> s = ''0'' then Some False
          else None
      | JNumber r \<Rightarrow> Some (number_valueint r \<noteq> 0)
      | _ \<Rightarrow> None)"

section \<open>The checks of one property\<close>

type_synonym validation = "(string \<times> json) list \<times> string list"

definition check_string :: "string \<Rightarrow> json \<Rightarrow> string \<Rightarrow> string list \<Rightarrow> string list" where
  "check_string prop_name prop_schema str_val errors =
     (let errors = (case json_number (get_object_item (Some prop_schema) ''minLength'') of
                      None \<Rightarrow> errors
                    | Some r \<Rightarrow> if to_int32 (int (length str_val)) < number_valueint r
                              then validation_list_add errors (prop_name @ '' must be at least '' @ show_int (number_valueint r) @ '' characters'')
                              else errors);
          errors = (case json_number (get_object_item (Some prop_schema) ''maxLength'') of
                      None \<Rightarrow> errors
                    | Some r \<Rightarrow> if to_int32 (int (length str_val)) > number_valueint r
                              then validation_list_add errors (prop_name @ '' must be at most '' @ show_int (number_valueint r) @ '' characters'')
                              else errors)
      in (case json_array (get_object_item (Some prop_schema) ''enum'') of
            None \<Rightarrow> errors
          | Some vs \<Rightarrow> if list_ex (\<lambda>v. v = JString str_val) vs then errors
                     else validation_list_add errors (prop_name @ '' must be one of the allowed values'')))"

definition check_integer :: "string \<Rightarrow> json \<Rightarrow> int \<Rightarrow> string list \<Rightarrow> string list" where
  "check_integer prop_name prop_schema int_val errors =
     (let errors = (case json_number (get_object_item (Some prop_schema) ''minimum'') of
                      None \<Rightarrow> errors
                    | Some r \<Rightarrow> if int_val < number_valueint r
                              then validation_list_add errors (prop_name @ '' must be >= '' @ show_int (number_valueint r))
                              else errors)
      in (case json_number (get_object_item (Some prop_schema) ''maximum'') of
            None \<Rightarrow> errors
          | Some r \<Rightarrow> if int_val > number_valueint r
                    then validation_list_add errors (prop_name @ '' must be <= '' @ show_int (number_valueint r))
                    else errors))"

definition validate_property ::
  "number_formats \<Rightarrow> json_printer \<Rightarrow> json \<Rightarrow> string \<times> json \<Rightarrow> validation \<Rightarrow> validation" where
  "validate_property nf print args prop st =
     (case prop of (prop_name, prop_schema) \<Rightarrow>
      case st of (result, errors) \<Rightarrow>
      case get_object_item (Some args) prop_name of
        None \<Rightarrow> (result, errors)
      | Some arg_val \<Rightarrow>
          (let expected_type = json_string (get_object_item (Some prop_schema) ''type'')
           in if expected_type = Some ''string''
              then (case cast_to_string nf print arg_val of
                      None \<Rightarrow> (result, errors)
                    | Some str_val \<Rightarrow> (result @ [(prop_name, JString str_val)],
                                      check_string prop_name prop_schema str_val errors))
              else if expected_type = Some ''integer''
              then (case cast_to_int arg_val of
                      Some int_val \<Rightarrow> (result @ [(prop_name, JNumber (of_int int_val))],
                                      check_integer prop_name prop_schema int_val errors)
                    | None \<Rightarrow> (result, validation_list_add errors (prop_name @ '' must be an integer'')))
              else if expected_type = Some ''number'' \<or> expected_type = Some ''float''
              then (case cast_to_number nf arg_val of
                      Some num_val \<Rightarrow> (result @ [(prop_name, number_item num_val)], errors)
                    | None \<Rightarrow> (result, validation_list_add errors (prop_name @ '' must be a number'')))
              else if expected_type = Some ''boolean''
              then (case cast_to_bool arg_val of
                      Some bool_val \<Rightarrow> (result @ [(prop_name, JBool bool_val)], errors)
                    | None \<Rightarrow> (result, validation_list_add errors (prop_name @ '' must be a boolean'')))
              else if expected_type = Some ''array''
              then (case arg_val of
                      JArray items \<Rightarrow> (result @ [(prop_name, JArray items)], errors)
                    | _ \<Rightarrow> (result, validation_list_add errors (prop_name @ '' must be an array'')))
              else if expected_type = Some ''object''
              then (case arg_val of
                      JObject kvs \<Rightarrow> (result @ [(prop_name, JObject kvs)], errors)
                    | _ \<Rightarrow> (result, validation_list_add errors (prop_name @ '' must be an object'')))
              else (result @ [(prop_name, arg_val)], errors)))"

definition check_required :: "json \<Rightarrow> json \<Rightarrow> string list" where
  "check_required args schema =
     (case json_array (get_object_item (Some schema) ''required'') of
        None \<Rightarrow> []
      | Some items \<Rightarrow>
          fold (\<lambda>item errors.
                  case item of
                    JString req_name \<Rightarrow>
                      if get_object_item (Some args) req_name = None
                      then validation_list_add errors (''missing required parameter: '' @ req_name) else errors
                  | _ \<Rightarrow> errors) items [])"

text \<open>The result object and the errors for parsed arguments and a parsed schema.\<close>

definition validate_args :: "number_formats \<Rightarrow> json_printer \<Rightarrow> json \<Rightarrow> json \<Rightarrow> validation" where
  "validate_args nf print args schema =
     (let errors = check_required args schema
      in case get_object_item (Some schema) ''properties'' of
           Some (JObject props) \<Rightarrow> fold (validate_property nf print args) props ([], errors)
         | _ \<Rightarrow> ((case args of JObject kvs \<Rightarrow> kvs | _ \<Rightarrow> []), errors))"

text \<open>The result text and the error message, each of which may be NULL.\<close>

definition tool_validate_and_cast_params ::
  "number_formats \<Rightarrow> json_parser \<Rightarrow> json_printer \<Rightarrow> string \<Rightarrow> string option \<Rightarrow> string option \<times> string option" where
  "tool_validate_and_cast_params nf parse print args_json schema_json =
     (case parse args_json of
        None \<Rightarrow> (None, Some ''Invalid JSON arguments'')
      | Some args \<Rightarrow>
          (case schema_json of
             None \<Rightarrow> (print args, None)
           | Some schema_text \<Rightarrow>
               if schema_text = '''' then (print args, None)
               else (case parse schema_text of
                       None \<Rightarrow> (None, Some ''Invalid schema JSON'')
                     | Some schema \<Rightarrow>
                         (case validate_args nf print args schema of
                            (result, errors) \<Rightarrow>
                              if errors \<noteq> [] then (None, validation_list_join errors ''; '')
                              else (print (JObject result), None)))))"

definition tool_validate_params ::
  "number_formats \<Rightarrow> json_parser \<Rightarrow> json_printer \<Rightarrow> string \<Rightarrow> string option \<Rightarrow> string option" where
  "tool_validate_params nf parse print args_json schema_json =
     snd (tool_validate_and_cast_params nf parse print args_json schema_json)"

section \<open>Valid arguments conform to the schema\<close>

text \<open>What the schema of one property asks of a value, for the types and constraints that are checked.\<close>

definition conforms :: "json \<Rightarrow> json \<Rightarrow> bool" where
  "conforms prop_schema v \<longleftrightarrow>
     (let expected = json_string (get_object_item (Some prop_schema) ''type'');
          bound = (\<lambda>k. map_option number_valueint (json_number (get_object_item (Some prop_schema) k)))
      in (expected = Some ''string'' \<longrightarrow>
            (\<exists>s. v = JString s
               \<and> (\<forall>n. bound ''minLength'' = Some n \<longrightarrow> n \<le> to_int32 (int (length s)))
               \<and> (\<forall>n. bound ''maxLength'' = Some n \<longrightarrow> to_int32 (int (length s)) \<le> n)
               \<and> (\<forall>vs. json_array (get_object_item (Some prop_schema) ''enum'') = Some vs \<longrightarrow> JString s \<in> set vs)))
         \<and> (expected = Some ''integer'' \<longrightarrow>
            (\<exists>i. v = JNumber (of_int i) \<and> INT_MIN \<le> i \<and> i \<le> INT_MAX
               \<and> (\<forall>n. bound ''minimum'' = Some n \<longrightarrow> n \<le> i) \<and> (\<forall>n. bound ''maximum'' = Some n \<longrightarrow> i \<le> n)))
         \<and> (expected = Some ''number'' \<or> expected = Some ''float'' \<longrightarrow> (\<exists>r. v = JNumber r))
         \<and> (expected = Some ''boolean'' \<longrightarrow> (\<exists>b. v = JBool b))
         \<and> (expected = Some ''array'' \<longrightarrow> (\<exists>xs. v = JArray xs))
         \<and> (expected = Some ''object'' \<longrightarrow> (\<exists>kvs. v = JObject kvs)))"

text \<open>A text that \<open>strtod\<close> reads as a number that is not finite, where the schema wants a number.\<close>

definition not_finite :: "number_formats \<Rightarrow> json \<Rightarrow> string \<Rightarrow> json \<Rightarrow> json \<Rightarrow> bool" where
  "not_finite nf args k prop_schema v \<longleftrightarrow>
     json_string (get_object_item (Some prop_schema) ''type'') \<in> {Some ''number'', Some ''float''} \<and>
     (\<exists>s. get_object_item (Some args) k = Some (JString s) \<and> nf_strtod nf s = (None, [])) \<and> v = JNull"

definition accepted_value :: "number_formats \<Rightarrow> json \<Rightarrow> string \<Rightarrow> json \<Rightarrow> json \<Rightarrow> bool" where
  "accepted_value nf args k prop_schema v \<longleftrightarrow> conforms prop_schema v \<or> not_finite nf args k prop_schema v"

lemma number_accepted:
  assumes "cast_to_number nf v = Some d" "get_object_item (Some args) nm = Some v"
    and "json_string (get_object_item (Some ps) ''type'') \<in> {Some ''number'', Some ''float''}"
  shows "accepted_value nf args nm ps (number_item d)"
  using assms
  by (cases d) (auto simp: accepted_value_def conforms_def not_finite_def number_item_def cast_to_number_def split: json.splits prod.splits if_splits)

lemma validation_list_add_nonempty [simp]: "validation_list_add errors m \<noteq> []"
  by (simp add: validation_list_add_def)

lemma check_string_ok:
  "check_string nm ps s errors = [] \<longleftrightarrow> errors = []
     \<and> (\<forall>r. json_number (get_object_item (Some ps) ''minLength'') = Some r \<longrightarrow> number_valueint r \<le> to_int32 (int (length s)))
     \<and> (\<forall>r. json_number (get_object_item (Some ps) ''maxLength'') = Some r \<longrightarrow> to_int32 (int (length s)) \<le> number_valueint r)
     \<and> (\<forall>vs. json_array (get_object_item (Some ps) ''enum'') = Some vs \<longrightarrow> JString s \<in> set vs)"
  by (auto simp: check_string_def Let_def list_ex_iff not_less split: option.splits if_splits)

lemma check_integer_ok:
  "check_integer nm ps i errors = [] \<longleftrightarrow> errors = []
     \<and> (\<forall>r. json_number (get_object_item (Some ps) ''minimum'') = Some r \<longrightarrow> number_valueint r \<le> i)
     \<and> (\<forall>r. json_number (get_object_item (Some ps) ''maximum'') = Some r \<longrightarrow> i \<le> number_valueint r)"
  by (auto simp: check_integer_def Let_def not_less split: option.splits if_splits)

lemma cast_to_int_range: "cast_to_int v = Some i \<Longrightarrow> INT_MIN \<le> i \<and> i \<le> INT_MAX"
  using to_int32_range number_valueint_range
  by (auto simp: cast_to_int_def split: json.splits prod.splits if_splits)

text \<open>One property adds nothing or one conforming entry, and an error stays.\<close>

lemma validate_property_step:
  assumes "validate_property nf print args (nm, ps) (result, errors) = (result', [])"
  shows "errors = [] \<and> (result' = result \<or> (\<exists>v. result' = result @ [(nm, v)] \<and> accepted_value nf args nm ps v))
    \<and> (get_object_item (Some args) nm \<noteq> None \<longrightarrow>
        result' \<noteq> result \<or> (\<exists>v. get_object_item (Some args) nm = Some v \<and> cast_to_string nf print v = None))"
proof (cases "get_object_item (Some args) nm")
  case None
  with assms show ?thesis by (simp add: validate_property_def)
next
  case (Some v)
  let ?e = "json_string (get_object_item (Some ps) ''type'')"
  consider "?e = Some ''string''" | "?e = Some ''integer''" | "?e = Some ''number'' \<or> ?e = Some ''float''"
    | "?e = Some ''boolean''" | "?e = Some ''array''" | "?e = Some ''object''"
    | "?e \<notin> Some ` {''string'', ''integer'', ''number'', ''float'', ''boolean'', ''array'', ''object''}" by blast
  then show ?thesis
  proof cases
    case 1
    with assms Some show ?thesis
      by (cases "cast_to_string nf print v")
        (auto simp: validate_property_def accepted_value_def conforms_def check_string_ok)
  next
    case 2
    with assms Some show ?thesis
      by (cases "cast_to_int v")
        (auto simp: validate_property_def accepted_value_def conforms_def check_integer_ok dest: cast_to_int_range)
  next
    case 3
    with assms Some show ?thesis
      by (cases "cast_to_number nf v") (auto simp: validate_property_def intro!: number_accepted)
  next
    case 4
    with assms Some show ?thesis
      by (cases "cast_to_bool v") (auto simp: validate_property_def accepted_value_def conforms_def)
  next
    case 5
    with assms Some show ?thesis
      by (cases v) (auto simp: validate_property_def accepted_value_def conforms_def)
  next
    case 6
    with assms Some show ?thesis
      by (cases v) (auto simp: validate_property_def accepted_value_def conforms_def)
  next
    case 7
    with assms Some show ?thesis
      by (auto simp: validate_property_def accepted_value_def conforms_def)
  qed
qed

lemma validate_properties_conform:
  assumes "fold (validate_property nf print args) props (result, errors) = (result', [])"
  shows "errors = [] \<and> (\<exists>added. result' = result @ added
    \<and> (\<forall>(k, v) \<in> set added. \<exists>ps. (k, ps) \<in> set props \<and> accepted_value nf args k ps v)
    \<and> (\<forall>(k, ps) \<in> set props. \<forall>v. get_object_item (Some args) k = Some v \<longrightarrow>
          cast_to_string nf print v \<noteq> None \<longrightarrow> k \<in> fst ` set added))"
  using assms
proof (induction props arbitrary: result errors)
  case Nil
  then show ?case by simp
next
  case (Cons p props)
  obtain nm ps where p: "p = (nm, ps)" by (cases p)
  obtain r1 e1 where s: "validate_property nf print args (nm, ps) (result, errors) = (r1, e1)" by fastforce
  from Cons.prems have "fold (validate_property nf print args) props (r1, e1) = (result', [])" by (simp add: p s)
  from Cons.IH [OF this] obtain added where e1: "e1 = []" and a: "result' = r1 @ added"
    "\<forall>(k, v) \<in> set added. \<exists>ps. (k, ps) \<in> set props \<and> accepted_value nf args k ps v"
    "\<forall>(k, ps) \<in> set props. \<forall>v. get_object_item (Some args) k = Some v \<longrightarrow>
       cast_to_string nf print v \<noteq> None \<longrightarrow> k \<in> fst ` set added" by blast
  note step = validate_property_step [OF s [unfolded e1]]
  show ?case
  proof (cases "r1 = result")
    case True
    with step have "\<forall>v. get_object_item (Some args) nm = Some v \<longrightarrow> cast_to_string nf print v = None" by auto
    with True a step p show ?thesis by (intro conjI exI [of _ added]) auto
  next
    case False
    with step obtain v where "r1 = result @ [(nm, v)]" "accepted_value nf args nm ps v" by blast
    with a step p show ?thesis by (intro conjI exI [of _ "(nm, v) # added"]) auto
  qed
qed

lemma check_required_ok:
  assumes "check_required args schema = []" and "json_array (get_object_item (Some schema) ''required'') = Some items"
    and "JString k \<in> set items"
  shows "get_object_item (Some args) k \<noteq> None"
proof -
  let ?f = "\<lambda>item errors. case item of JString req_name \<Rightarrow>
      if get_object_item (Some args) req_name = None
      then validation_list_add errors (''missing required parameter: '' @ req_name) else errors | _ \<Rightarrow> errors"
  have mono: "fold ?f xs es = [] \<Longrightarrow> es = [] \<and> (\<forall>x \<in> set xs. \<forall>k. x = JString k \<longrightarrow> get_object_item (Some args) k \<noteq> None)" for xs es
  proof (induction xs arbitrary: es)
    case Nil
    then show ?case by simp
  next
    case (Cons x xs)
    have IH: "?f x es = [] \<and> (\<forall>x \<in> set xs. \<forall>k. x = JString k \<longrightarrow> get_object_item (Some args) k \<noteq> None)"
      by (rule Cons.IH) (use Cons.prems in simp)
    then have "es = [] \<and> (\<forall>k. x = JString k \<longrightarrow> get_object_item (Some args) k \<noteq> None)"
      by (simp split: json.splits if_splits)
    with IH show ?case by simp
  qed
  from assms(1,2) have "fold ?f items [] = []" by (simp add: check_required_def)
  from mono [OF this] assms(3) show ?thesis by blast
qed

lemma validation_list_join_Some: "errors \<noteq> [] \<Longrightarrow> validation_list_join errors sep \<noteq> None"
  by (induction errors sep rule: validation_list_join.induct) auto

lemma accepted_no_errors:
  assumes "parse args_json = Some args" and "parse schema_json = Some schema" and "schema_json \<noteq> []"
    and "tool_validate_and_cast_params nf parse print args_json (Some schema_json) = (r, None)"
  shows "\<exists>result. validate_args nf print args schema = (result, []) \<and> r = print (JObject result)"
  using assms
  by (auto simp: tool_validate_and_cast_params_def dest: validation_list_join_Some split: prod.splits if_splits)



text \<open>An infinite number is accepted where the schema wants a number.\<close>

lemma infinity_is_accepted:
  assumes "nf_strtod nf ''inf'' = (None, [])"
  shows "validate_args nf print (JObject [(''n'', JString ''inf'')]) (JObject [(''properties'', JObject [(''n'', JObject [(''type'', JString ''number'')])])]) =
    ([(''n'', JNull)], [])"
  using assms by (simp add: validate_args_def check_required_def validate_property_def get_object_item_def json_string_def json_array_def
      cast_to_number_def number_item_def strcaseeq_def tolower_def isupper_def)

end
