(* ===== verification/Reminder.thy ===== *)
theory Reminder
  imports CLib
begin

text \<open>
  \<open>src/agent/reminder_parser.c\<close>: recognising "remind me in 5 minutes" requests, in English and in
  Chinese (the Chinese words are their UTF-8 bytes), and \<open>parse_slash_command\<close> of
  \<open>src/agent/agent_common.h\<close>. A pointer into the text is the suffix that it points to; a pointer is
  greater than another when its suffix is shorter. The loop over the text is a recursion on
  suffixes, and the 32-bit product of number and unit wraps as the cast in the code does.
\<close>

definition word_tixing :: string where
  "word_tixing = [CHR 0xE6, CHR 0x8F, CHR 0x90, CHR 0xE9, CHR 0x86, CHR 0x92]"

definition word_tixingwo :: string where
  "word_tixingwo = word_tixing @ [CHR 0xE6, CHR 0x88, CHR 0x91]"

definition word_hou :: string where
  "word_hou = [CHR 0xE5, CHR 0x90, CHR 0x8E]"

definition word_miao :: string where
  "word_miao = [CHR 0xE7, CHR 0xA7, CHR 0x92]"

definition word_fen :: string where
  "word_fen = [CHR 0xE5, CHR 0x88, CHR 0x86]"

definition word_fenzhong :: string where
  "word_fenzhong = word_fen @ [CHR 0xE9, CHR 0x92, CHR 0x9F]"

definition word_xiaoshi :: string where
  "word_xiaoshi = [CHR 0xE5, CHR 0xB0, CHR 0x8F, CHR 0xE6, CHR 0x97, CHR 0xB6]"

definition full_stop :: string where
  "full_stop = [CHR 0xE3, CHR 0x80, CHR 0x82]"

definition default_payload :: string where
  "default_payload = [CHR 0xE8, CHR 0xAF, CHR 0xA5, CHR 0xE5, CHR 0x81, CHR 0x9A] @ word_tixing @
     [CHR 0xE4, CHR 0xBA, CHR 0x8B, CHR 0xE9, CHR 0xA1, CHR 0xB9, CHR 0xE4, CHR 0xBA, CHR 0x86]"

definition payload_prefix :: string where
  "payload_prefix = word_tixing @
     [CHR 0xE7, CHR 0x94, CHR 0xA8, CHR 0xE6, CHR 0x88, CHR 0xB7, CHR 0xEF, CHR 0xBC, CHR 0x9A]"

record ReminderParseResult =
  rp_delay_seconds :: int
  rp_payload :: string
  rp_name :: string

definition text_contains_any :: "string \<Rightarrow> string list \<Rightarrow> bool" where
  "text_contains_any txt needles = list_ex (\<lambda>n. strstr txt n \<noteq> None) needles"

text \<open>The loop of \<open>sanitize_job_name\<close>; \<open>n\<close> counts the bytes written.\<close>

fun job_name_loop :: "nat \<Rightarrow> nat \<Rightarrow> string \<Rightarrow> string" where
  "job_name_loop out_size n [] = []"
| "job_name_loop out_size n (c # cs) =
     (if n + 1 < out_size \<and> n < 72
      then (if isalnum c then tolower c # job_name_loop out_size (n + 1) cs
            else if c = CHR '' '' \<or> c = CHR ''-'' \<or> c = CHR ''_'' then CHR ''-'' # job_name_loop out_size (n + 1) cs
            else job_name_loop out_size n cs)
      else [])"

definition sanitize_job_name :: "string \<Rightarrow> nat \<Rightarrow> string" where
  "sanitize_job_name payload out_size =
     (let pfx = take (out_size - 1) ''reminder'';
          n = length pfx
      in rtrim_by (\<lambda>c. c = CHR ''-'')
           (pfx @ (if payload \<noteq> '''' \<and> n + 1 < out_size
                   then CHR ''-'' # job_name_loop out_size (n + 1) payload else [])))"

definition skip_ascii_space :: "string \<Rightarrow> string" where
  "skip_ascii_space p =
     (let q = dropWhile (\<lambda>c. c = CHR '' '' \<or> c = CHR 0x09 \<or> c = CHR '':'' \<or> c = CHR '','' \<or> c = CHR ''.'') p
      in if starts_with full_stop q then drop (length full_stop) q else q)"

definition unit_multiplier :: "string \<Rightarrow> int" where
  "unit_multiplier q =
     (if starts_with word_miao q \<or> starts_with ''second'' q \<or> starts_with ''sec'' q then 1
      else if starts_with word_fenzhong q \<or> starts_with word_fen q \<or> starts_with ''minute'' q \<or> starts_with ''min'' q then 60
      else if starts_with word_xiaoshi q \<or> starts_with ''hour'' q then 3600
      else 0)"

text \<open>The end of the unit: behind the word for "later" when it starts within 16 bytes, else at the next white space.\<close>

definition skip_unit :: "string \<Rightarrow> string" where
  "skip_unit q =
     (case strstr q word_hou of
        Some hou \<Rightarrow> if length q - length hou < 16 then drop (length word_hou) hou
                   else dropWhile (\<lambda>c. \<not> isspace c) q
      | None \<Rightarrow> dropWhile (\<lambda>c. \<not> isspace c) q)"

text \<open>The scan for a number with a unit: the value, the position of the number and the end of the unit.\<close>

function scan_delay :: "string \<Rightarrow> (int \<times> string \<times> string) option" where
  "scan_delay p =
     (case p of
        [] \<Rightarrow> None
      | c # cs \<Rightarrow>
          if isdigit c
          then (let (parsed, rest) = strtol p
                in if parsed \<le> 0 \<or> parsed > 365 * 24 * 3600 then None
                   else (let q = skip_ascii_space rest; multiplier = unit_multiplier q
                         in if multiplier > 0 then Some (to_int32 (parsed * multiplier), p, skip_unit q)
                            else scan_delay rest))
          else scan_delay cs)"
  by pat_completeness auto
termination
proof (relation "measure length", goal_cases)
  case (2 p c cs st parsed rest q m)
  then show ?case using strtol_digit_progress [of c cs] by (metis in_measure snd_conv)
qed simp_all

declare scan_delay.simps [simp del]

definition reminder_payload :: "string \<Rightarrow> string \<Rightarrow> string \<Rightarrow> string" where
  "reminder_payload txt unit_pos after_unit =
     (let reminder_pos = (case strstr txt word_tixingwo of
                            Some r \<Rightarrow> Some r
                          | None \<Rightarrow> (case strstr txt word_tixing of Some r \<Rightarrow> Some r | None \<Rightarrow> strstr txt ''remind''));
          payload_start =
            (case reminder_pos of
               Some r \<Rightarrow>
                 if length r < length unit_pos
                 then (if starts_with word_tixingwo r then drop (length word_tixingwo) r
                       else if starts_with word_tixing r then drop (length word_tixing) r
                       else if starts_with ''remind me'' r then drop 9 r
                       else if starts_with ''remind'' r then drop 6 r else r)
                 else after_unit
             | None \<Rightarrow> after_unit);
          payload_start = skip_ascii_space payload_start;
          payload_start = (if payload_start = '''' then default_payload else payload_start)
      in rtrim_by (\<lambda>c. c = CHR ''.'' \<or> c = CHR ''!'' \<or> c = CHR ''?'' \<or> c = CHR 0x0A \<or> c = CHR 0x0D)
           (c_trunc 512 (payload_prefix @ payload_start)))"

definition reminder_parse_simple :: "string option \<Rightarrow> ReminderParseResult option" where
  "reminder_parse_simple txt_opt =
     (case txt_opt of
        None \<Rightarrow> None
      | Some txt \<Rightarrow>
          if txt = '''' then None
          else if \<not> text_contains_any txt [word_tixing, ''remind'', word_tixingwo]
                \<or> \<not> text_contains_any txt [word_hou, ''in ''] then None
          else case scan_delay txt of
                 None \<Rightarrow> None
               | Some (value, unit_pos, after_unit) \<Rightarrow>
                   if value \<le> 0 then None
                   else (let payload = reminder_payload txt unit_pos after_unit
                         in Some \<lparr>rp_delay_seconds = value, rp_payload = payload, rp_name = sanitize_job_name payload 128\<rparr>))"

definition reminder_should_fallback_schedule :: "int \<Rightarrow> int \<Rightarrow> bool" where
  "reminder_should_fallback_schedule turn pending_tool_count = (turn \<le> 1 \<and> pending_tool_count = 0)"

section \<open>Slash commands\<close>

text \<open>The command name (the buffer keeps what it had, initially nothing, when the text is no command) and
  the arguments.\<close>

definition parse_slash_command :: "string \<Rightarrow> nat \<Rightarrow> string \<times> string option" where
  "parse_slash_command full_content cmd_name_size =
     (case skip_space full_content of
        c # cmd_start \<Rightarrow>
          if c \<noteq> CHR ''/'' then ('''', None)
          else (case strchr cmd_start CHR '' '' of
                  Some cmd_end \<Rightarrow>
                    (let cmd_len = length cmd_start - length cmd_end
                     in ((if cmd_len < cmd_name_size then take cmd_len cmd_start
                          else take (cmd_name_size - 1) cmd_start), Some (tl cmd_end)))
                | None \<Rightarrow> (take (cmd_name_size - 1) cmd_start, None))
      | [] \<Rightarrow> ('''', None))"

section \<open>Results of the parser\<close>

definition job_name_char :: "char \<Rightarrow> bool" where
  "job_name_char c \<longleftrightarrow> isdigit c \<or> islower c \<or> c = CHR ''-''"

lemma alnum_tolower_name: "isalnum c \<Longrightarrow> job_name_char (tolower c)"
proof (cases "isupper c")
  case True
  then have "code (tolower c) = code c + 32" by (rule code_tolower)
  with True show ?thesis by (simp add: job_name_char_def islower_def isupper_def)
next
  case False
  assume "isalnum c"
  with False show ?thesis
    by (auto simp: tolower_def job_name_char_def isalnum_def isupper_def islower_def isdigit_def)
qed

lemma not_alnum [simp]: "\<not> isalnum CHR '' ''" "\<not> isalnum CHR ''-''" "\<not> isalnum CHR ''_''"
  by (simp_all add: isalnum_def isdigit_def isupper_def islower_def)

lemma job_name_char_hyphen [simp]: "job_name_char CHR ''-''"
  by (simp add: job_name_char_def)

lemma job_name_loop_chars: "\<forall>c \<in> set (job_name_loop out_size n cs). job_name_char c"
  by (induction out_size n cs rule: job_name_loop.induct) (auto simp: alnum_tolower_name)

lemma length_job_name_loop: "n \<le> 72 \<Longrightarrow> length (job_name_loop out_size n cs) \<le> 72 - n"
  by (induction out_size n cs rule: job_name_loop.induct) auto

lemma rtrim_by_subset: "set (rtrim_by P s) \<subseteq> set s" "length (rtrim_by P s) \<le> length s"
proof -
  from rtrim_by_suffix [of s P] obtain r where r: "s = rtrim_by P s @ r" by blast
  show "set (rtrim_by P s) \<subseteq> set s" by (subst (2) r) simp
  show "length (rtrim_by P s) \<le> length s" by (subst (2) r) simp
qed

lemma rtrim_by_keeps_prefix:
  assumes "a \<noteq> []" and "\<not> P (last a)"
  shows "prefix a (rtrim_by P (a @ b))"
proof -
  have "rtrim_by P (a @ b) = a @ rtrim_by P b"
  proof (cases "\<exists>c \<in> set b. \<not> P c")
    case True
    then obtain c where "c \<in> set (rev b)" "\<not> P c" by auto
    then have "dropWhile P (rev b @ rev a) = dropWhile P (rev b) @ rev a" by (rule dropWhile_append1)
    then show ?thesis by (simp add: rtrim_by_def)
  next
    case False
    then have "dropWhile P (rev b @ rev a) = dropWhile P (rev a)" by (intro dropWhile_append2) auto
    moreover have "dropWhile P (rev a) = rev a"
      using assms by (metis dropWhile_eq_self_iff hd_rev)
    moreover have "dropWhile P (rev b) = []" using False by simp
    ultimately show ?thesis by (simp add: rtrim_by_def)
  qed
  then show ?thesis by simp
qed

lemma sanitize_job_name_props:
  "prefix ''reminder'' (sanitize_job_name payload 128)"
  "length (sanitize_job_name payload 128) \<le> 72"
  "\<forall>c \<in> set (sanitize_job_name payload 128). job_name_char c"
proof -
  let ?b = "if payload \<noteq> [] then CHR ''-'' # job_name_loop 128 9 payload else []"
  have s: "sanitize_job_name payload 128 = rtrim_by (\<lambda>c. c = CHR ''-'') (''reminder'' @ ?b)"
    by (simp add: sanitize_job_name_def eval_nat_numeral)
  show "prefix ''reminder'' (sanitize_job_name payload 128)"
    unfolding s by (rule rtrim_by_keeps_prefix) simp_all
  have "length (''reminder'' @ ?b) \<le> 72" using length_job_name_loop [of 9 128 payload] by simp
  then show "length (sanitize_job_name payload 128) \<le> 72" unfolding s using rtrim_by_subset(2) le_trans by blast
  have "\<forall>c \<in> set (''reminder'' @ ?b). job_name_char c"
    using job_name_loop_chars [of 128 9 payload] by (auto simp: job_name_char_def islower_def)
  then show "\<forall>c \<in> set (sanitize_job_name payload 128). job_name_char c" unfolding s using rtrim_by_subset(1) by blast
qed

text \<open>Reminder requests: whatever text the parser accepts, the delay is between one second and the
  largest \<open>int\<close>, the payload fits its buffer of 512 bytes, and the job name is at most 72 bytes of lower case letters,
  digits and hyphens that start with the word reminder; so the arguments that the
  fallback builds for the cron tool are well formed.\<close>

theorem reminder_result_bounds:
  assumes "reminder_parse_simple txt = Some r"
  shows "1 \<le> rp_delay_seconds r \<and> rp_delay_seconds r \<le> INT_MAX \<and> length (rp_payload r) < 512
    \<and> prefix ''reminder'' (rp_name r) \<and> length (rp_name r) \<le> 72 \<and> (\<forall>c \<in> set (rp_name r). job_name_char c)"
proof -
  have range: "scan_delay p = Some (v, u, a) \<Longrightarrow> v \<le> INT_MAX" for p v u a
  proof (induction p rule: scan_delay.induct)
    case (1 p)
    have "(case p of [] \<Rightarrow> False | c # cs \<Rightarrow>
        if isdigit c then (\<exists>x. v = to_int32 x) \<or> scan_delay (snd (strtol p)) = Some (v, u, a)
          \<and> \<not> (fst (strtol p) \<le> 0 \<or> fst (strtol p) > 365 * 24 * 3600)
          \<and> \<not> unit_multiplier (skip_ascii_space (snd (strtol p))) > 0
        else scan_delay cs = Some (v, u, a))"
      using 1(3) by (subst (asm) scan_delay.simps) (auto simp: Let_def split: list.splits if_splits prod.splits)
    then show ?case
      using 1(1) [OF _ _ refl prod.collapse] 1(2) to_int32_range by (auto split: list.splits if_splits)
  qed
  have len: "length (reminder_payload t u a) < 512" for t u a
    unfolding reminder_payload_def Let_def
    by (rule le_less_trans [OF rtrim_by_subset(2) length_c_trunc]) simp
  show ?thesis
    using assms range len sanitize_job_name_props
    by (auto simp: reminder_parse_simple_def Let_def split: option.splits if_splits prod.splits)
qed

theorem reminder_result_bounds_witness:
  "\<exists>r. reminder_parse_simple (Some ''remind me in 5 minutes to stretch'') = Some r \<and> rp_delay_seconds r = 300
     \<and> 1 \<le> rp_delay_seconds r \<and> length (rp_name r) \<le> 72"
proof -
  have "map_option rp_delay_seconds (reminder_parse_simple (Some ''remind me in 5 minutes to stretch'')) = Some 300"
    by code_simp
  then obtain r where "reminder_parse_simple (Some ''remind me in 5 minutes to stretch'') = Some r" "rp_delay_seconds r = 300"
    by auto
  with reminder_result_bounds show ?thesis by blast
qed

text \<open>Large delays wrap: the product of the number and the unit is cast to \<open>int\<close> without a check, so a request
  for a reminder in 1200000 hours (a number below the limit of 31536000 that is checked) is
  accepted with a delay of 25032704 seconds, about 290 days instead of 137 years.\<close>

theorem reminder_delay_wraps:
  "map_option rp_delay_seconds (reminder_parse_simple (Some ''remind me in 1200000 hours'')) = Some 25032704
   \<and> (25032704 :: int) \<noteq> 1200000 * 3600"
  by code_simp

end
