(* ===== verification/Table.thy ===== *)
theory Table
  imports Prelude
begin

text \<open>
  The interface of the tables that the program keeps: values that carry their own key, looked up by
  key, inserted when the key is new, and updated in place. A client sees such a table as a map. In a
  shadowing table a later insertion also hides an earlier one; there every sequence of operations
  behaves like the same sequence on maps. The task list of the orchestrator interprets the first
  locale, the session manager the second.
\<close>

datatype ('k, 'v) table_op = Insert 'v | Update 'k "'v \<Rightarrow> 'v"

locale keyed_table =
  fixes inv :: "'t \<Rightarrow> bool"
    and empty :: 't
    and get :: "'t \<Rightarrow> 'k \<Rightarrow> 'v option"
    and put :: "'v \<Rightarrow> 't \<Rightarrow> 't"
    and upd :: "'t \<Rightarrow> 'k \<Rightarrow> ('v \<Rightarrow> 'v) \<Rightarrow> 't"
    and key_of :: "'v \<Rightarrow> 'k"
  assumes inv_empty: "inv empty"
    and get_empty: "get empty k = None"
    and inv_put: "inv t \<Longrightarrow> inv (put v t)"
    and get_put_new: "inv t \<Longrightarrow> get t (key_of v) = None \<Longrightarrow>
      get (put v t) k = (if k = key_of v then Some v else get t k)"
    and inv_upd: "inv t \<Longrightarrow> (\<And>v. key_of (f v) = key_of v) \<Longrightarrow> inv (upd t k f)"
    and get_upd: "inv t \<Longrightarrow> (\<And>v. key_of (f v) = key_of v) \<Longrightarrow>
      get (upd t k f) k' = (if k' = k then map_option f (get t k) else get t k')"
begin

text \<open>A client that looks up a key and inserts a default when there is none.\<close>

lemma get_or_put:
  assumes "inv t" and "key_of v = k"
    and "t' = (case get t k of None \<Rightarrow> put v t | Some _ \<Rightarrow> t)"
  shows "inv t' \<and> (\<exists>w. get t' k = Some w) \<and> (\<forall>k'. k' \<noteq> k \<longrightarrow> get t' k' = get t k')"
  using assms by (auto simp: inv_put get_put_new split: option.splits)

end

locale shadowing_table = keyed_table inv empty get put upd key_of
  for inv :: "'t \<Rightarrow> bool" and empty :: 't and get :: "'t \<Rightarrow> 'k \<Rightarrow> 'v option"
    and put :: "'v \<Rightarrow> 't \<Rightarrow> 't" and upd :: "'t \<Rightarrow> 'k \<Rightarrow> ('v \<Rightarrow> 'v) \<Rightarrow> 't" and key_of :: "'v \<Rightarrow> 'k" +
  assumes get_put: "inv t \<Longrightarrow> get (put v t) k = (if k = key_of v then Some v else get t k)"
begin

definition table_step :: "('k, 'v) table_op \<Rightarrow> 't \<Rightarrow> 't" where
  "table_step op t = (case op of Insert v \<Rightarrow> put v t | Update k f \<Rightarrow> upd t k f)"

definition map_step :: "('k, 'v) table_op \<Rightarrow> ('k \<rightharpoonup> 'v) \<Rightarrow> ('k \<rightharpoonup> 'v)" where
  "map_step op m = (case op of Insert v \<Rightarrow> m(key_of v \<mapsto> v) | Update k f \<Rightarrow> m(k := map_option f (m k)))"

definition op_ok :: "('k, 'v) table_op \<Rightarrow> bool" where
  "op_ok op = (case op of Insert v \<Rightarrow> True | Update k f \<Rightarrow> (\<forall>v. key_of (f v) = key_of v))"

lemma step_refines:
  assumes "inv t" and "op_ok op"
  shows "inv (table_step op t) \<and> get (table_step op t) = map_step op (get t)"
proof (cases op)
  case (Insert v)
  with assms show ?thesis by (auto simp: table_step_def map_step_def inv_put get_put)
next
  case (Update k f)
  with assms show ?thesis by (auto simp: table_step_def map_step_def op_ok_def inv_upd get_upd)
qed

lemma run_refines:
  "inv t \<Longrightarrow> \<forall>op \<in> set ops. op_ok op \<Longrightarrow>
   inv (fold table_step ops t) \<and> get (fold table_step ops t) = fold map_step ops (get t)"
  by (induction ops arbitrary: t) (simp_all add: step_refines)

end

end
