(* ===== verification/Session.thy ===== *)
theory Session
  imports Message Utils Json Table
begin

unbundle bit_operations_syntax

text \<open>
  \<open>src/session/session.c\<close>: conversations, the hash table that holds them, their files and the
  part of a conversation that is sent to the model. The pointer array of messages is the list that
  \<open>Common.darr\<close> shows a \<open>DynamicArray\<close> to be; a pointer to a session of the table is its key, and an
  update through it is \<open>update_session\<close>. The file system is a map from paths to contents; whether
  \<open>fopen\<close> and \<open>rename\<close> succeed, the JSON printer and parser and the clock are parameters. The mutexes
  make each operation atomic.
\<close>

type_synonym filesystem = "string \<rightharpoonup> string"

record Session =
  se_key :: string
  se_messages :: "Message list"
  se_created_at :: int
  se_updated_at :: int
  se_last_consolidated :: nat
  se_last_saved_count :: nat
  se_needs_full_save :: bool
  se_ref_count :: int

record SessionManager =
  sm_buckets :: "Session list list"
  sm_count :: nat
  sm_workspace_path :: string

record SessionSnapshot =
  ss_messages :: "Message list"
  ss_truncated :: bool

definition SESSION_HASHTABLE_BUCKETS :: nat where
  "SESSION_HASHTABLE_BUCKETS = 64"

definition FILE_PATH_MAX :: nat where
  "FILE_PATH_MAX = 4096"

section \<open>Hashes and file names\<close>

definition session_key_hash_fast :: "string \<Rightarrow> nat" where
  "session_key_hash_fast key =
     unat (fold (\<lambda>c (hash :: 32 word). (push_bit 5 hash + hash) + of_nat (code c)) key 5381)
       mod SESSION_HASHTABLE_BUCKETS"

definition session_key_hash :: "string \<Rightarrow> 64 word" where
  "session_key_hash key =
     fold (\<lambda>c hash. (hash XOR of_nat (code c)) * 1099511628211) key 1469598103934665603"

definition channel_char :: "char \<Rightarrow> char" where
  "channel_char c = (if isalnum c \<or> c = CHR ''_'' \<or> c = CHR ''-'' then tolower c else CHR ''_'')"

definition session_channel_prefix :: "string \<Rightarrow> nat \<Rightarrow> string" where
  "session_channel_prefix key out_size =
     (let raw = (case strchr key CHR '':'' of
                   None \<Rightarrow> key | Some sep \<Rightarrow> take (length key - length sep) key);
          out = map channel_char (take (min 12 (out_size - 1)) raw)
      in if out = [] then take (min 12 (out_size - 1)) ''session'' else out)"

text \<open>\<^verbatim>\<open>%016llx\<close>\<close>

definition show_hex16 :: "64 word \<Rightarrow> string" where
  "show_hex16 w = (let h = show_hex (unat w) in replicate (16 - length h) CHR ''0'' @ h)"

definition build_session_file_path :: "string \<Rightarrow> string \<Rightarrow> nat \<Rightarrow> string option" where
  "build_session_file_path workspace key filepath_size =
     (if filepath_size < 64 then None
      else (let hash = session_key_hash key;
                channel = session_channel_prefix key 16;
                compact_name = c_trunc 32 (channel @ ''_'' @ show_hex16 hash);
                written = workspace @ ''/sessions/'' @ compact_name @ ''.jsonl''
            in if length written \<ge> filepath_size then None else Some written))"

definition upper_hex_digit :: "nat \<Rightarrow> char" where
  "upper_hex_digit n = (if n < 10 then char_of (48 + n) else char_of (55 + n))"

fun legacy_sanitize :: "nat \<Rightarrow> string \<Rightarrow> string" where
  "legacy_sanitize j [] = []"
| "legacy_sanitize j (c # cs) =
     (if j + 4 < 512
      then (if isalnum c \<or> c = CHR ''_'' \<or> c = CHR ''-'' \<or> c = CHR ''.''
            then c # legacy_sanitize (j + 1) cs
            else CHR ''_'' # upper_hex_digit (code c div 16) # upper_hex_digit (code c mod 16)
                   # legacy_sanitize (j + 3) cs)
      else [])"

definition build_legacy_session_file_path :: "string \<Rightarrow> string \<Rightarrow> nat \<Rightarrow> string" where
  "build_legacy_session_file_path workspace key filepath_size =
     c_trunc filepath_size (workspace @ ''/sessions/'' @ legacy_sanitize 0 key @ ''.jsonl'')"

section \<open>The table of sessions\<close>

definition session_manager_new :: "string \<Rightarrow> SessionManager" where
  "session_manager_new workspace_path =
     \<lparr>sm_buckets = replicate SESSION_HASHTABLE_BUCKETS [], sm_count = 0, sm_workspace_path = workspace_path\<rparr>"

definition new_session :: "string \<Rightarrow> int \<Rightarrow> Session" where
  "new_session key now =
     \<lparr>se_key = key, se_messages = [], se_created_at = now, se_updated_at = now, se_last_consolidated = 0,
      se_last_saved_count = 0, se_needs_full_save = True, se_ref_count = 1\<rparr>"

definition put_session :: "Session \<Rightarrow> SessionManager \<Rightarrow> SessionManager" where
  "put_session session mgr =
     (let bucket = session_key_hash_fast (se_key session)
      in mgr\<lparr>sm_buckets := (sm_buckets mgr)[bucket := session # sm_buckets mgr ! bucket],
             sm_count := Suc (sm_count mgr)\<rparr>)"

definition session_manager_create :: "bool \<Rightarrow> int \<Rightarrow> SessionManager \<Rightarrow> string \<Rightarrow> Session option \<times> SessionManager" where
  "session_manager_create ok now mgr key =
     (if \<not> ok then (None, mgr)
      else (let session = new_session key now in (Some session, put_session session mgr)))"

definition session_manager_get :: "SessionManager \<Rightarrow> string \<Rightarrow> Session option" where
  "session_manager_get mgr key =
     find (\<lambda>s. se_key s = key) (sm_buckets mgr ! session_key_hash_fast key)"

definition update_session :: "SessionManager \<Rightarrow> string \<Rightarrow> (Session \<Rightarrow> Session) \<Rightarrow> SessionManager" where
  "update_session mgr key f =
     (let bucket = session_key_hash_fast key
      in mgr\<lparr>sm_buckets := (sm_buckets mgr)
           [bucket := update_first (\<lambda>s. se_key s = key) f (sm_buckets mgr ! bucket)]\<rparr>)"

section \<open>Operations on one session\<close>

definition session_add_message :: "int \<Rightarrow> Session \<Rightarrow> Message \<Rightarrow> Session" where
  "session_add_message now session msg =
     session\<lparr>se_messages := se_messages session @ [msg], se_updated_at := now\<rparr>"

definition session_rollback_messages :: "int \<Rightarrow> Session \<Rightarrow> nat \<Rightarrow> Session" where
  "session_rollback_messages now session to_count =
     (if to_count \<ge> length (se_messages session) then session
      else session\<lparr>se_messages := take to_count (se_messages session),
                   se_last_saved_count := (if se_last_saved_count session > to_count then to_count
                                           else se_last_saved_count session),
                   se_last_consolidated := (if se_last_consolidated session > to_count then to_count
                                            else se_last_consolidated session),
                   se_updated_at := now\<rparr>)"

definition session_ref :: "Session \<Rightarrow> Session" where
  "session_ref session = session\<lparr>se_ref_count := se_ref_count session + 1\<rparr>"

definition session_unref :: "Session \<Rightarrow> Session" where
  "session_unref session = session\<lparr>se_ref_count := se_ref_count session - 1\<rparr>"

section \<open>Files\<close>

definition role_name :: "MessageRole \<Rightarrow> string" where
  "role_name role = (case role of ROLE_USER \<Rightarrow> ''user'' | ROLE_ASSISTANT \<Rightarrow> ''assistant'' | ROLE_TOOL \<Rightarrow> ''tool'')"

definition tool_call_json :: "ToolCall \<Rightarrow> json" where
  "tool_call_json tc = JObject [(''id'', JString (tc_id tc)), (''name'', JString (tc_name tc)),
     (''arguments'', JString (tc_arguments tc))]"

definition message_json :: "Message \<Rightarrow> json" where
  "message_json msg = JObject
     ([(''role'', JString (role_name (m_role msg))), (''content'', JString (m_content msg)),
       (''timestamp'', JString (m_timestamp msg))] @
      (if m_role msg = ROLE_ASSISTANT \<and> m_tool_calls msg \<noteq> []
       then [(''tool_calls'', JArray (map tool_call_json (m_tool_calls msg)))] else []) @
      (if m_role msg = ROLE_TOOL
       then (if m_tool_call_id msg \<noteq> '''' then [(''tool_call_id'', JString (m_tool_call_id msg))] else []) @
            (if m_name msg \<noteq> '''' then [(''name'', JString (m_name msg))] else [])
       else []))"

abbreviation newline :: char where
  "newline \<equiv> CHR 0x0A"

definition json_line :: "json_printer \<Rightarrow> json \<Rightarrow> string" where
  "json_line print j = (case print j of None \<Rightarrow> [] | Some s \<Rightarrow> s @ [newline])"

definition serialize_message_to_fp :: "json_printer \<Rightarrow> Message \<Rightarrow> string" where
  "serialize_message_to_fp print msg = json_line print (message_json msg)"

definition metadata_json :: "Session \<Rightarrow> nat \<Rightarrow> json" where
  "metadata_json session save_count = JObject
     [(''_type'', JString ''metadata''), (''key'', JString (se_key session)),
      (''created_at'', JNumber (of_int (double_of_int (se_created_at session)))),
      (''updated_at'', JNumber (of_int (double_of_int (se_updated_at session)))),
      (''last_consolidated'', JNumber (of_int (double_of_int (int (se_last_consolidated session))))),
      (''saved_count'', JNumber (of_int (double_of_int (int save_count))))]"

definition serialize_metadata_to_fp :: "json_printer \<Rightarrow> Session \<Rightarrow> nat \<Rightarrow> string" where
  "serialize_metadata_to_fp print session save_count = json_line print (metadata_json session save_count)"

text \<open>The flags are whether \<open>fopen\<close> of the temporary file or of the file and \<open>rename\<close> succeed.\<close>

definition session_manager_save ::
  "json_printer \<Rightarrow> bool \<Rightarrow> bool \<Rightarrow> string \<Rightarrow> filesystem \<Rightarrow> Session \<Rightarrow> Error \<times> Session \<times> filesystem" where
  "session_manager_save print open_ok rename_ok workspace fs session =
     (case build_session_file_path workspace (se_key session) FILE_PATH_MAX of
        None \<Rightarrow> (error_new ERR_FILE (Some ''Session filepath too long''), session, fs)
      | Some filepath \<Rightarrow>
          (let total_count = length (se_messages session);
               saved_count = se_last_saved_count session;
               needs_full = (se_needs_full_save session \<or> fs filepath = None \<or> saved_count > total_count)
           in if needs_full
              then (if \<not> open_ok then (error_new ERR_FILE (Some ''Cannot open session file for writing''), session, fs)
                    else (let content = serialize_metadata_to_fp print session total_count @
                                concat (map (serialize_message_to_fp print) (se_messages session));
                              session = session\<lparr>se_last_saved_count := total_count, se_needs_full_save := False\<rparr>
                          in if \<not> rename_ok
                             then (error_new ERR_FILE (Some ''Failed to commit session file''), session, fs)
                             else (no_error, session, fs(filepath \<mapsto> content))))
              else (if \<not> open_ok then (error_new ERR_FILE (Some ''Cannot open session file for appending''), session, fs)
                    else (let old = (case fs filepath of None \<Rightarrow> [] | Some s \<Rightarrow> s);
                              added = concat (map (serialize_message_to_fp print) (drop saved_count (se_messages session)))
                          in (no_error, session\<lparr>se_last_saved_count := total_count\<rparr>, fs(filepath \<mapsto> old @ added))))))"

text \<open>The pieces that \<open>fgets (line, 4096, f)\<close> reads: up to the end of the line, at most 4095 bytes.\<close>

definition fgets_size :: "string \<Rightarrow> nat" where
  "fgets_size s = (if newline \<in> set (take 4095 s) then Suc (length (takeWhile (\<lambda>c. c \<noteq> newline) s)) else 4095)"

function fgets_lines :: "string \<Rightarrow> string list" where
  "fgets_lines s = (if s = [] then [] else take (fgets_size s) s # fgets_lines (drop (fgets_size s) s))"
  by pat_completeness auto
termination
proof (relation "measure length", goal_cases)
  case (2 s)
  then show ?case by (auto simp: fgets_size_def)
qed simp

declare fgets_lines.simps [simp del]

text \<open>The memory of the message structures is taken to be available while a file is read.\<close>

definition add_json_tool_call :: "json \<Rightarrow> Message \<Rightarrow> Message" where
  "add_json_tool_call tc msg =
     (case (json_string (get_object_item (Some tc) ''id''), json_string (get_object_item (Some tc) ''name''),
            json_string (get_object_item (Some tc) ''arguments'')) of
        (Some i, Some n, Some a) \<Rightarrow> message_add_tool_call True msg (Some i) (Some n) (Some a)
      | _ \<Rightarrow> msg)"

definition message_of_json :: "json \<Rightarrow> Message option" where
  "message_of_json j =
     (let content_item = get_object_item (Some j) ''content''
      in case json_string (get_object_item (Some j) ''role'') of
           None \<Rightarrow> None
         | Some role_str \<Rightarrow>
             if json_string content_item \<noteq> None \<or> content_item = Some JNull
             then (let content_str = str_or_empty (json_string content_item);
                       role = (if role_str = ''assistant'' then ROLE_ASSISTANT
                               else if role_str = ''tool'' then ROLE_TOOL else ROLE_USER);
                       msg = \<lparr>m_role = role, m_content = content_str, m_timestamp = [], m_tool_calls = [],
                              m_tool_call_id = [], m_name = []\<rparr>;
                       msg = (case json_string (get_object_item (Some j) ''timestamp'') of
                                None \<Rightarrow> msg | Some ts \<Rightarrow> msg\<lparr>m_timestamp := ts\<rparr>)
                   in Some
                     (if role = ROLE_ASSISTANT
                      then (case json_array (get_object_item (Some j) ''tool_calls'') of
                              None \<Rightarrow> msg | Some tcs \<Rightarrow> fold add_json_tool_call tcs msg)
                      else if role = ROLE_TOOL
                      then (let msg = (case json_string (get_object_item (Some j) ''tool_call_id'') of
                                         None \<Rightarrow> msg | Some i \<Rightarrow> msg\<lparr>m_tool_call_id := i\<rparr>)
                            in (case json_string (get_object_item (Some j) ''name'') of
                                  None \<Rightarrow> msg | Some n \<Rightarrow> msg\<lparr>m_name := n\<rparr>))
                      else msg))
             else None)"

definition load_metadata :: "json \<Rightarrow> Session \<Rightarrow> Session" where
  "load_metadata j session =
     (let session = (case json_number (get_object_item (Some j) ''last_consolidated'') of
                       None \<Rightarrow> session | Some r \<Rightarrow> session\<lparr>se_last_consolidated := nat (rat_trunc r)\<rparr>);
          session = (case json_number (get_object_item (Some j) ''created_at'') of
                       None \<Rightarrow> session | Some r \<Rightarrow> session\<lparr>se_created_at := rat_trunc r\<rparr>)
      in (case json_number (get_object_item (Some j) ''updated_at'') of
            None \<Rightarrow> session | Some r \<Rightarrow> session\<lparr>se_updated_at := rat_trunc r\<rparr>))"

definition load_line :: "json_parser \<Rightarrow> int \<Rightarrow> string \<Rightarrow> bool \<times> Session \<Rightarrow> bool \<times> Session" where
  "load_line parse now line st =
     (case st of (metadata_loaded, session) \<Rightarrow>
        if length line < 2 then st
        else case parse line of
               None \<Rightarrow> st
             | Some j \<Rightarrow>
                 if json_string (get_object_item (Some j) ''_type'') = Some ''metadata''
                 then (True, load_metadata j session)
                 else (case message_of_json j of
                         None \<Rightarrow> st
                       | Some msg \<Rightarrow> (metadata_loaded, session_add_message now session msg)))"

definition load_content :: "json_parser \<Rightarrow> int \<Rightarrow> string \<Rightarrow> Session \<Rightarrow> Session" where
  "load_content parse now content session =
     (let (metadata_loaded, session) = fold (load_line parse now) (fgets_lines content) (False, session);
          session = (if metadata_loaded then session
                     else session\<lparr>se_last_consolidated := length (se_messages session)\<rparr>)
      in session\<lparr>se_last_saved_count := length (se_messages session), se_needs_full_save := False\<rparr>)"

definition session_manager_load ::
  "json_parser \<Rightarrow> bool \<Rightarrow> int \<Rightarrow> filesystem \<Rightarrow> SessionManager \<Rightarrow> string \<Rightarrow> Error \<times> Session option \<times> SessionManager" where
  "session_manager_load parse ok now fs mgr key =
     (case build_session_file_path (sm_workspace_path mgr) key FILE_PATH_MAX of
        None \<Rightarrow> (error_new ERR_FILE (Some ''Session filepath too long''), None, mgr)
      | Some filepath \<Rightarrow>
          (let content = (case fs filepath of
                            Some s \<Rightarrow> Some s
                          | None \<Rightarrow> fs (build_legacy_session_file_path (sm_workspace_path mgr) key 512))
           in case session_manager_create ok now mgr key of
                (None, mgr) \<Rightarrow> (error_new ERR_MEMORY (Some ''Failed to create session''), None, mgr)
              | (Some session, mgr) \<Rightarrow>
                  (case content of
                     None \<Rightarrow> (no_error, Some session, mgr)
                   | Some s \<Rightarrow> (no_error, Some (load_content parse now s session),
                               update_session mgr key (load_content parse now s)))))"

section \<open>The context snapshot\<close>

text \<open>\<open>message_clone\<close> on values; \<open>None\<close> when memory runs out.\<close>

definition message_clone :: "bool \<Rightarrow> Message \<Rightarrow> Message option" where
  "message_clone ok src =
     (case message_new ok (m_role src) (Some (m_content src)) of
        None \<Rightarrow> None
      | Some clone \<Rightarrow>
          Some (fold (\<lambda>tc m. message_add_tool_call ok m (Some (tc_id tc)) (Some (tc_name tc)) (Some (tc_arguments tc)))
            (m_tool_calls src)
            (clone\<lparr>m_timestamp := m_timestamp src, m_tool_call_id := m_tool_call_id src, m_name := m_name src\<rparr>)))"

definition assistant_has_tool_call_id :: "Message \<Rightarrow> string \<Rightarrow> bool" where
  "assistant_has_tool_call_id msg call_id =
     (if m_role msg \<noteq> ROLE_ASSISTANT \<or> call_id = '''' then False
      else list_ex (\<lambda>tc. tc_id tc = call_id) (m_tool_calls msg))"

text \<open>The inner loop: the nearest earlier message that made the call, searched downwards from \<open>j - 1\<close>.\<close>

primrec find_caller :: "Message list \<Rightarrow> string \<Rightarrow> nat \<Rightarrow> nat option" where
  "find_caller messages call_id 0 = None"
| "find_caller messages call_id (Suc j) =
     (if assistant_has_tool_call_id (messages ! j) call_id then Some j else find_caller messages call_id j)"

text \<open>One round of the loop: the new index and whether it changed.\<close>

definition adjust_round :: "Message list \<Rightarrow> nat \<Rightarrow> nat \<times> bool" where
  "adjust_round messages adjusted =
     (let first = messages ! adjusted;
          (adjusted, changed) =
            (if m_role first = ROLE_TOOL
             then (case find_caller messages (m_tool_call_id first) adjusted of
                     Some j \<Rightarrow> (j, True) | None \<Rightarrow> (adjusted, False))
             else (adjusted, False))
      in if adjusted > 0 \<and> m_role (messages ! (adjusted - 1)) = ROLE_ASSISTANT
            \<and> m_tool_calls (messages ! (adjusted - 1)) \<noteq> []
         then (adjusted - 1, True) else (adjusted, changed))"

lemma find_caller_less: "find_caller messages i n = Some j \<Longrightarrow> j < n"
  by (induction n) (auto split: if_splits)

lemma adjust_round_decreases: "adjust_round messages a = (b, True) \<Longrightarrow> b < a"
  by (auto simp: adjust_round_def Let_def split: if_splits option.splits dest!: find_caller_less)

function adjust_loop :: "Message list \<Rightarrow> nat \<Rightarrow> nat" where
  "adjust_loop messages adjusted =
     (if adjusted = 0 then 0
      else (case adjust_round messages adjusted of
              (a, changed) \<Rightarrow> if changed then adjust_loop messages a else a))"
  by pat_completeness auto
termination
  by (relation "measure snd") (auto dest: adjust_round_decreases [OF sym])

declare adjust_loop.simps [simp del]

definition adjust_context_start_for_tool_chain :: "Message list \<Rightarrow> nat \<Rightarrow> nat" where
  "adjust_context_start_for_tool_chain messages start_idx =
     (if start_idx = 0 \<or> start_idx \<ge> length messages then start_idx else adjust_loop messages start_idx)"

text \<open>The flag \<open>ok\<close> is whether memory is available.\<close>

definition session_snapshot_for_context :: "bool \<Rightarrow> Session \<Rightarrow> nat \<Rightarrow> SessionSnapshot" where
  "session_snapshot_for_context ok session max_messages =
     (let total = length (se_messages session)
      in if total = 0 \<or> \<not> ok then \<lparr>ss_messages = [], ss_truncated = False\<rparr>
         else (let messages = map (the \<circ> message_clone ok) (se_messages session);
                   start_idx = (if max_messages > 0 \<and> total > max_messages
                                then adjust_context_start_for_tool_chain messages (total - max_messages) else 0)
               in \<lparr>ss_messages = drop start_idx messages, ss_truncated = start_idx > 0\<rparr>))"

section \<open>The table is a map\<close>

definition wf_manager :: "SessionManager \<Rightarrow> bool" where
  [inv_defs]: "wf_manager mgr \<longleftrightarrow> length (sm_buckets mgr) = SESSION_HASHTABLE_BUCKETS"

lemma bucket_in_range: "wf_manager mgr \<Longrightarrow> session_key_hash_fast key < length (sm_buckets mgr)"
  by (simp add: wf_manager_def session_key_hash_fast_def SESSION_HASHTABLE_BUCKETS_def)

lemma session_get_put:
  "wf_manager mgr \<Longrightarrow>
   session_manager_get (put_session s mgr) k = (if k = se_key s then Some s else session_manager_get mgr k)"
  using bucket_in_range [of mgr "se_key s"]
  by (auto simp: session_manager_get_def put_session_def Let_def nth_list_update)

interpretation sessions: shadowing_table wf_manager "session_manager_new ws" session_manager_get put_session
  update_session se_key for ws
proof (unfold_locales, goal_cases)
  case 1
  show ?case by (simp add: wf_manager_def session_manager_new_def)
next
  case (2 k)
  have "session_key_hash_fast k < SESSION_HASHTABLE_BUCKETS"
    by (simp add: session_key_hash_fast_def SESSION_HASHTABLE_BUCKETS_def)
  then show ?case by (simp add: session_manager_get_def session_manager_new_def)
next
  case (3 t v)
  then show ?case by (simp add: wf_manager_def put_session_def Let_def)
next
  case (4 t v k)
  then show ?case by (simp add: session_get_put)
next
  case (5 t f k)
  then show ?case by (simp add: wf_manager_def update_session_def Let_def)
next
  case (6 t f k k')
  note keep = 6(2)
  have same: "find (\<lambda>s. se_key s = k) (update_first (\<lambda>s. se_key s = k) f xs) = map_option f (find (\<lambda>s. se_key s = k) xs)" for xs
    by (rule find_update_first_same) (simp add: keep)
  have other: "find (\<lambda>s. se_key s = k') (update_first (\<lambda>s. se_key s = k) f xs) = find (\<lambda>s. se_key s = k') xs"
    if "k' \<noteq> k" for xs
    by (rule find_update_first_other) (use keep that in auto)
  show ?case
    using bucket_in_range [OF 6(1), of k] same other
    by (auto simp: session_manager_get_def update_session_def Let_def nth_list_update)
next
  case (7 t v k)
  then show ?case by (rule session_get_put)
qed

text \<open>The session table is a map from keys to sessions: whatever sequence of insertions and of
  updates through session pointers is applied to a new manager, looking up a key in the hash table
  gives what the same sequence gives on a map, whichever keys share a bucket.\<close>

theorem session_table_refines_map:
  assumes "\<forall>op \<in> set ops. case op of Insert s \<Rightarrow> True | Update k f \<Rightarrow> (\<forall>s. se_key (f s) = se_key s)"
  shows "session_manager_get
      (fold (\<lambda>op. case op of Insert s \<Rightarrow> put_session s | Update k f \<Rightarrow> (\<lambda>t. update_session t k f)) ops
         (session_manager_new ws))
    = fold (\<lambda>op m. case op of Insert s \<Rightarrow> m(se_key s \<mapsto> s) | Update k f \<Rightarrow> m(k := map_option f (m k))) ops Map.empty"
proof -
  have step: "sessions.table_step = (\<lambda>op. case op of Insert s \<Rightarrow> put_session s | Update k f \<Rightarrow> (\<lambda>t. update_session t k f))"
    by (auto simp: sessions.table_step_def fun_eq_iff split: table_op.splits)
  have mstep: "sessions.map_step = (\<lambda>op m. case op of Insert s \<Rightarrow> m(se_key s \<mapsto> s) | Update k f \<Rightarrow> m(k := map_option f (m k)))"
    by (auto simp: sessions.map_step_def fun_eq_iff split: table_op.splits)
  have "session_manager_get (session_manager_new ws) = Map.empty" by (rule ext) (rule sessions.get_empty)
  with sessions.run_refines [OF sessions.inv_empty, of ops ws] assms show ?thesis
    by (simp add: sessions.op_ok_def step mstep)
qed

theorem session_table_refines_map_witness:
  "session_manager_get
     (update_session (put_session (new_session ''web:2'' 9) (put_session (new_session ''cli:1'' 5) (session_manager_new ''w'')))
        ''cli:1'' session_ref) ''cli:1''
   = Some (session_ref (new_session ''cli:1'' 5))"
  using fun_cong [OF session_table_refines_map
    [of "[Insert (new_session ''cli:1'' 5), Insert (new_session ''web:2'' 9), Update ''cli:1'' session_ref]" "''w''"], of "''cli:1''"]
  by (simp add: session_ref_def new_session_def)

section \<open>File names\<close>

definition safe_name_char :: "char \<Rightarrow> bool" where
  "safe_name_char c \<longleftrightarrow> isdigit c \<or> islower c \<or> c = CHR ''_'' \<or> c = CHR ''-''"

lemma hex_digit_safe: "n < 16 \<Longrightarrow> safe_name_char (hex_digit n)"
  by (auto simp: hex_digit_def safe_name_char_def isdigit_def islower_def take_bit_nat_eq_self)

lemma show_hex_safe: "c \<in> set (show_hex n) \<Longrightarrow> safe_name_char c"
proof (induction n rule: show_hex.induct)
  case (1 n)
  then show ?case
    by (cases "n < 16") (auto simp: show_hex.simps [of n] hex_digit_safe)
qed

lemma length_show_hex: "n < 16 ^ k \<Longrightarrow> 0 < k \<Longrightarrow> length (show_hex n) \<le> k"
proof (induction n arbitrary: k rule: show_hex.induct)
  case (1 n)
  show ?case
  proof (cases "n < 16")
    case True
    with 1 show ?thesis by (simp add: show_hex.simps [of n])
  next
    case False
    then obtain k' where k': "k = Suc k'" "0 < k'" using 1 by (cases k; cases "k - 1") auto
    have "n div 16 < 16 ^ k'" using 1(2) k' by (simp add: div_less_iff_less_mult mult.commute)
    with 1(1) [OF False this k'(2)] False k' show ?thesis by (simp add: show_hex.simps [of n])
  qed
qed

lemma show_hex16_props: "length (show_hex16 w) = 16" "c \<in> set (show_hex16 w) \<Longrightarrow> safe_name_char c"
proof -
  have "unat w < 16 ^ 16" using unsigned_less [of w] by simp
  then have "length (show_hex (unat w)) \<le> 16" by (rule length_show_hex) simp
  then show "length (show_hex16 w) = 16" by (simp add: show_hex16_def Let_def)
  show "c \<in> set (show_hex16 w) \<Longrightarrow> safe_name_char c"
    by (auto simp: show_hex16_def Let_def safe_name_char_def isdigit_def dest: show_hex_safe [unfolded safe_name_char_def])
qed

lemma channel_char_safe: "safe_name_char (channel_char c)"
proof (cases "isupper c")
  case True
  then have "code (tolower c) = code c + 32" by (rule code_tolower)
  with True show ?thesis
    by (auto simp: channel_char_def safe_name_char_def islower_def isupper_def)
next
  case False
  then have "tolower c = c" by (simp add: tolower_def)
  with False show ?thesis
    by (auto simp: channel_char_def safe_name_char_def isalnum_def isupper_def islower_def isdigit_def)
qed

lemma channel_prefix_props:
  "length (session_channel_prefix key 16) \<le> 12" "session_channel_prefix key 16 \<noteq> []"
  "c \<in> set (session_channel_prefix key 16) \<Longrightarrow> safe_name_char c"
proof -
  show "length (session_channel_prefix key 16) \<le> 12" "session_channel_prefix key 16 \<noteq> []"
    by (auto simp: session_channel_prefix_def Let_def split: if_splits option.splits)
  have "\<forall>c \<in> set ''session''. safe_name_char c" by (simp add: safe_name_char_def islower_def)
  then show "c \<in> set (session_channel_prefix key 16) \<Longrightarrow> safe_name_char c"
    by (auto simp: session_channel_prefix_def Let_def channel_char_safe simp del: set_simps
        dest!: in_set_takeD split: if_splits option.splits)
qed

text \<open>Session files stay in the session directory: for every key, however long and whatever bytes
  it has, the file name that \<open>build_session_file_path\<close> makes is at most 29 bytes of lower case letters,
  digits, underscores and hyphens with the full 16-digit hash, so a key can neither leave
  the directory nor be cut by the name buffer.\<close>

theorem session_file_path_safe:
  assumes "build_session_file_path workspace key filepath_size = Some path"
  shows "\<exists>channel. path = workspace @ ''/sessions/'' @ channel @ ''_'' @ show_hex16 (session_key_hash key) @ ''.jsonl''
    \<and> channel \<noteq> [] \<and> length (channel @ ''_'' @ show_hex16 (session_key_hash key)) \<le> 29
    \<and> (\<forall>c \<in> set (channel @ ''_'' @ show_hex16 (session_key_hash key)). safe_name_char c)
    \<and> length path < filepath_size"
proof -
  let ?n = "session_channel_prefix key 16 @ ''_'' @ show_hex16 (session_key_hash key)"
  have len: "length ?n \<le> 29" using channel_prefix_props(1) [of key] by (simp add: show_hex16_props(1))
  then have "c_trunc 32 ?n = ?n" by (intro c_trunc_fits) simp
  moreover have "\<forall>c \<in> set ?n. safe_name_char c"
    by (auto dest: channel_prefix_props(3) show_hex16_props(2)) (simp add: safe_name_char_def)
  ultimately show ?thesis
    using assms len channel_prefix_props(2) [of key]
    by (intro exI [of _ "session_channel_prefix key 16"])
      (auto simp: build_session_file_path_def Let_def split: if_splits)
qed

theorem session_file_path_safe_witness:
  "\<exists>path channel. build_session_file_path ''w'' ''../etc:passwd'' 4096 = Some path
     \<and> path = ''w/sessions/'' @ channel @ ''_'' @ show_hex16 (session_key_hash ''../etc:passwd'') @ ''.jsonl''"
proof -
  have "\<exists>path. build_session_file_path ''w'' ''../etc:passwd'' 4096 = Some path"
    using channel_prefix_props(1) [of "''../etc:passwd''"] show_hex16_props(1)
    by (simp add: build_session_file_path_def Let_def c_trunc_def)
  then obtain path where p: "build_session_file_path ''w'' ''../etc:passwd'' 4096 = Some path" by blast
  from session_file_path_safe [OF this] p show ?thesis by auto
qed

section \<open>The context snapshot\<close>

lemma message_clone_id: "message_clone True m = Some m"
proof -
  have "fold (\<lambda>tc m. message_add_tool_call True m (Some (tc_id tc)) (Some (tc_name tc)) (Some (tc_arguments tc))) tcs x
      = x\<lparr>m_tool_calls := m_tool_calls x @ tcs\<rparr>" for tcs x
    by (induction tcs arbitrary: x) (simp_all add: message_add_tool_call_def)
  then show ?thesis by (simp add: message_clone_def message_new_def)
qed

lemma find_caller_None:
  "find_caller messages i n = None \<longleftrightarrow> (\<forall>j < n. \<not> assistant_has_tool_call_id (messages ! j) i)"
  by (induction n) (auto simp: less_Suc_eq)

text \<open>A context may start at index \<open>a\<close>: the first message is not the result of a call in an earlier
  message, and the message before it is not an assistant message with calls.\<close>

definition clean_start :: "Message list \<Rightarrow> nat \<Rightarrow> bool" where
  "clean_start messages a \<longleftrightarrow> a = 0 \<or>
     ((m_role (messages ! a) = ROLE_TOOL \<longrightarrow>
         (\<forall>j < a. \<not> assistant_has_tool_call_id (messages ! j) (m_tool_call_id (messages ! a))))
      \<and> \<not> (m_role (messages ! (a - 1)) = ROLE_ASSISTANT \<and> m_tool_calls (messages ! (a - 1)) \<noteq> []))"

lemma adjust_round_stable: "adjust_round messages a = (b, False) \<Longrightarrow> 0 < a \<Longrightarrow> b = a \<and> clean_start messages a"
  by (auto simp: adjust_round_def clean_start_def Let_def find_caller_None split: if_splits option.splits)

lemma adjust_loop_clean: "adjust_loop messages a \<le> a \<and> clean_start messages (adjust_loop messages a)"
proof (induction messages a rule: adjust_loop.induct)
  case (1 messages a)
  show ?case
  proof (cases "a = 0")
    case True
    then show ?thesis by (simp add: adjust_loop.simps clean_start_def)
  next
    case False
    obtain b changed where r: "adjust_round messages a = (b, changed)" by fastforce
    show ?thesis
    proof (cases changed)
      case True
      with r have "adjust_round messages a = (b, True)" by simp
      then have "b < a" by (rule adjust_round_decreases)
      moreover have "adjust_loop messages b \<le> b \<and> clean_start messages (adjust_loop messages b)"
        using 1 [OF False r [symmetric]] True by simp
      ultimately show ?thesis using r True False by (simp add: adjust_loop.simps [of messages a])
    next
      case changed: False
      with r False adjust_round_stable [of messages a b] show ?thesis by (simp add: adjust_loop.simps [of messages a])
    qed
  qed
qed

lemma snapshot_suffix:
  "\<exists>k. ss_messages (session_snapshot_for_context True session max_messages) = drop k (se_messages session)
     \<and> ss_truncated (session_snapshot_for_context True session max_messages) = (0 < k)
     \<and> (k = 0 \<or> max_messages + k \<le> length (se_messages session))
     \<and> (max_messages = 0 \<or> length (se_messages session) \<le> max_messages \<longrightarrow> k = 0)
     \<and> clean_start (se_messages session) k"
proof -
  let ?ms = "se_messages session"
  have id: "map (the \<circ> message_clone True) ?ms = ?ms" by (simp add: message_clone_id comp_def)
  show ?thesis
  proof (cases "max_messages > 0 \<and> length ?ms > max_messages")
    case True
    let ?k = "adjust_loop ?ms (length ?ms - max_messages)"
    have "adjust_context_start_for_tool_chain ?ms (length ?ms - max_messages) = ?k"
      using True by (auto simp: adjust_context_start_for_tool_chain_def)
    with True adjust_loop_clean [of ?ms "length ?ms - max_messages"] id show ?thesis
      by (intro exI [of _ ?k]) (auto simp: session_snapshot_for_context_def Let_def)
  next
    case False
    with id show ?thesis
      by (intro exI [of _ 0]) (auto simp: session_snapshot_for_context_def Let_def clean_start_def)
  qed
qed

text \<open>Claim C4. What the model is shown: the snapshot for a context is a suffix of the conversation with at
  least the last \<open>max_messages\<close> messages (all when the limit is 0 or not reached), it is marked
  truncated exactly when messages are missing, and it never starts with a tool result
  whose call was cut off nor directly after an assistant message with tool calls.\<close>

theorem snapshot_keeps_tool_chains:
  "\<exists>k. ss_messages (session_snapshot_for_context True session max_messages) = drop k (se_messages session)
     \<and> ss_truncated (session_snapshot_for_context True session max_messages) = (0 < k)
     \<and> (k = 0 \<or> max_messages + k \<le> length (se_messages session))
     \<and> (max_messages = 0 \<or> length (se_messages session) \<le> max_messages \<longrightarrow> k = 0)
     \<and> clean_start (se_messages session) k"
  by (rule snapshot_suffix)

theorem snapshot_keeps_tool_chains_witness:
  "ss_messages (session_snapshot_for_context True
     ((new_session ''cli:1'' 5)\<lparr>se_messages := [\<lparr>m_role = ROLE_USER, m_content = ''hi'', m_timestamp = [], m_tool_calls = [],
        m_tool_call_id = [], m_name = []\<rparr>]\<rparr>) 3)
   = [\<lparr>m_role = ROLE_USER, m_content = ''hi'', m_timestamp = [], m_tool_calls = [], m_tool_call_id = [], m_name = []\<rparr>]"
  using snapshot_keeps_tool_chains [of "(new_session ''cli:1'' 5)\<lparr>se_messages := [\<lparr>m_role = ROLE_USER, m_content = ''hi'',
    m_timestamp = [], m_tool_calls = [], m_tool_call_id = [], m_name = []\<rparr>]\<rparr>" 3]
  by auto

section \<open>The session file as a journal\<close>

text \<open>The file of a session holds a metadata line and the messages that count as saved.\<close>

definition file_in_sync :: "json_printer \<Rightarrow> string \<Rightarrow> filesystem \<Rightarrow> Session \<Rightarrow> bool" where
  "file_in_sync print workspace fs session \<longleftrightarrow>
     (\<exists>filepath meta. build_session_file_path workspace (se_key session) FILE_PATH_MAX = Some filepath
        \<and> fs filepath = Some (json_line print (metadata_json (fst meta) (snd meta)) @
             concat (map (serialize_message_to_fp print) (take (se_last_saved_count session) (se_messages session))))
        \<and> se_last_saved_count session \<le> length (se_messages session) \<and> \<not> se_needs_full_save session)"

lemma take_drop_concat:
  "n \<le> length xs \<Longrightarrow> concat (map f (take n xs)) @ concat (map f (drop n xs)) = concat (map f xs)"
  by (metis append_take_drop_id concat_append map_append)

text \<open>Saving keeps the file and the conversation together: a save that succeeds, be it the first full
  one or an incremental one after messages were added, leaves the file with a metadata line followed
  by all messages of the session in order, and the session marked as completely saved.\<close>

theorem session_save_in_sync:
  assumes "se_needs_full_save session \<or> file_in_sync print workspace fs session
      \<or> (\<forall>filepath. build_session_file_path workspace (se_key session) FILE_PATH_MAX = Some filepath \<longrightarrow> fs filepath = None)"
    and "session_manager_save print open_ok rename_ok workspace fs session = (e, session', fs')"
    and "err_code e = ERR_NONE"
  shows "file_in_sync print workspace fs' session' \<and> se_messages session' = se_messages session
    \<and> se_last_saved_count session' = length (se_messages session)"
proof -
  obtain filepath where p: "build_session_file_path workspace (se_key session) FILE_PATH_MAX = Some filepath"
    using assms(2,3) by (auto simp: session_manager_save_def error_new_def split: option.splits)
  show ?thesis
  proof (cases "se_needs_full_save session \<or> fs filepath = None \<or> se_last_saved_count session > length (se_messages session)")
    case True
    with assms(2,3) p show ?thesis
      by (auto simp: session_manager_save_def Let_def error_new_def file_in_sync_def serialize_metadata_to_fp_def
          split: if_splits) (rule exI, rule exI, rule refl)+
  next
    case False
    with assms(1) p obtain meta where f: "fs filepath = Some (json_line print (metadata_json (fst meta) (snd meta)) @
        concat (map (serialize_message_to_fp print) (take (se_last_saved_count session) (se_messages session))))"
      by (auto simp: file_in_sync_def)
    from False assms(2,3) p f show ?thesis
      by (auto simp: session_manager_save_def Let_def error_new_def file_in_sync_def take_drop_concat split: if_splits)
        (rule exI, rule exI, rule refl)
  qed
qed

definition demo_session :: Session where
  "demo_session = session_add_message 7 (new_session ''cli:1'' 5)
     \<lparr>m_role = ROLE_USER, m_content = ''hi'', m_timestamp = [], m_tool_calls = [], m_tool_call_id = [], m_name = []\<rparr>"

lemma demo_path: "\<exists>path. build_session_file_path ''w'' (se_key demo_session) FILE_PATH_MAX = Some path"
  using channel_prefix_props(1) [of "se_key demo_session"] show_hex16_props(1)
  by (simp add: build_session_file_path_def Let_def c_trunc_def FILE_PATH_MAX_def)

lemma full_save_ok:
  assumes "se_needs_full_save session" and "build_session_file_path w (se_key session) FILE_PATH_MAX = Some path"
  shows "session_manager_save print True True w fs session =
    (no_error, session\<lparr>se_last_saved_count := length (se_messages session), se_needs_full_save := False\<rparr>,
     fs(path \<mapsto> serialize_metadata_to_fp print session (length (se_messages session)) @
                concat (map (serialize_message_to_fp print) (se_messages session))))"
  using assms by (simp add: session_manager_save_def Let_def)

theorem session_save_in_sync_witness:
  "\<exists>session' fs'. session_manager_save (\<lambda>j. Some ''{}'') True True ''w'' Map.empty demo_session = (no_error, session', fs')
     \<and> file_in_sync (\<lambda>j. Some ''{}'') ''w'' fs' session'"
proof -
  have n: "se_needs_full_save demo_session" by (simp add: demo_session_def new_session_def session_add_message_def)
  obtain path where "build_session_file_path ''w'' (se_key demo_session) FILE_PATH_MAX = Some path"
    using demo_path by blast
  note sv = full_save_ok [OF n this, of "\<lambda>j. Some ''{}''" Map.empty]
  show ?thesis
    using session_save_in_sync [OF disjI1 [OF n] sv] sv by (auto simp: error_new_def)
qed

text \<open>Rolled back messages stay in the file: when everything was saved and a failed turn is then rolled
  back, the next save succeeds without rewriting the file, because the rollback lowers the count of saved
  messages but does not ask for a full save; the file keeps the messages that the session
  no longer has.\<close>

theorem rollback_leaves_file_stale:
  assumes "file_in_sync print workspace fs session" and "se_last_saved_count session = length (se_messages session)"
    and "n < length (se_messages session)"
  shows "\<exists>session'. session_manager_save print True True workspace fs (session_rollback_messages now session n)
        = (no_error, session', fs)
      \<and> se_messages session' = take n (se_messages session)
      \<and> (\<exists>filepath meta. build_session_file_path workspace (se_key session') FILE_PATH_MAX = Some filepath
           \<and> fs filepath = Some (meta @ concat (map (serialize_message_to_fp print) (se_messages session))))"
  using assms
  by (auto simp: file_in_sync_def session_manager_save_def session_rollback_messages_def Let_def map_upd_triv)

theorem rollback_leaves_file_stale_witness:
  "\<exists>session fs session'. length (se_messages session) = 1
     \<and> session_manager_save (\<lambda>j. Some ''{}'') True True ''w'' fs (session_rollback_messages 9 session 0) = (no_error, session', fs)
     \<and> se_messages session' = []"
proof -
  have n: "se_needs_full_save demo_session" by (simp add: demo_session_def new_session_def session_add_message_def)
  obtain path where p: "build_session_file_path ''w'' (se_key demo_session) FILE_PATH_MAX = Some path"
    using demo_path by blast
  let ?s = "demo_session\<lparr>se_last_saved_count := length (se_messages demo_session), se_needs_full_save := False\<rparr>"
  let ?fs = "[path \<mapsto> serialize_metadata_to_fp (\<lambda>j. Some ''{}'') demo_session (length (se_messages demo_session)) @
      concat (map (serialize_message_to_fp (\<lambda>j. Some ''{}'')) (se_messages demo_session))]"
  have sync: "file_in_sync (\<lambda>j. Some ''{}'') ''w'' ?fs ?s"
    using p by (auto simp: file_in_sync_def serialize_metadata_to_fp_def)
  have l: "length (se_messages ?s) = 1" by (simp add: demo_session_def new_session_def session_add_message_def)
  have "se_last_saved_count ?s = length (se_messages ?s)" "0 < length (se_messages ?s)" using l by simp_all
  from rollback_leaves_file_stale [OF sync this, of 9] obtain session' where
    "session_manager_save (\<lambda>j. Some ''{}'') True True ''w'' ?fs (session_rollback_messages 9 ?s 0) = (no_error, session', ?fs)"
    "se_messages session' = []" by auto
  with l show ?thesis by (intro exI [of _ ?s] exI [of _ ?fs] exI [of _ session']) (rule conjI, assumption, rule conjI)
qed

section \<open>Reading a session back\<close>

definition wf_message :: "Message \<Rightarrow> bool" where
  [inv_defs]: "wf_message m \<longleftrightarrow> (m_role m \<noteq> ROLE_ASSISTANT \<longrightarrow> m_tool_calls m = [])
     \<and> (m_role m \<noteq> ROLE_TOOL \<longrightarrow> m_tool_call_id m = [] \<and> m_name m = [])"

text \<open>A tree that is printed on one line which \<open>fgets\<close> reads at once and that parses back.\<close>

definition reads_back :: "json_printer \<Rightarrow> json_parser \<Rightarrow> json \<Rightarrow> bool" where
  "reads_back print parse j \<longleftrightarrow>
     (\<exists>s. print j = Some s \<and> s \<noteq> [] \<and> newline \<notin> set s \<and> length s < 4095 \<and> parse (s @ [newline]) = Some j)"

lemma fgets_size_line:
  assumes "newline \<notin> set s" and "length s < 4095"
  shows "fgets_size (s @ newline # r) = Suc (length s)"
proof -
  have "newline \<in> set (take 4095 (s @ newline # r))"
    using assms(2) by (auto simp: take_Cons')
  moreover have "takeWhile (\<lambda>c. c \<noteq> newline) (s @ newline # r) = s"
    using assms(1) by (induction s) auto
  ultimately show ?thesis by (simp add: fgets_size_def)
qed

lemma fgets_lines_journal:
  "\<forall>j \<in> set js. reads_back print parse j \<Longrightarrow>
   fgets_lines (concat (map (json_line print) js)) = map (json_line print) js"
proof (induction js)
  case Nil
  then show ?case by (simp add: fgets_lines.simps)
next
  case (Cons j js)
  then obtain s where s: "print j = Some s" "newline \<notin> set s" "length s < 4095"
    by (auto simp: reads_back_def)
  then have l: "json_line print j = s @ [newline]" by (simp add: json_line_def)
  show ?case
    using fgets_size_line [OF s(2,3), of "concat (map (json_line print) js)"] Cons
    by (simp add: fgets_lines.simps [of "s @ newline # concat (map (json_line print) js)"] l)
qed

lemma fold_tool_calls: "fold add_json_tool_call (map tool_call_json tcs) m = m\<lparr>m_tool_calls := m_tool_calls m @ tcs\<rparr>"
proof (induction tcs arbitrary: m)
  case Nil
  then show ?case by simp
next
  case (Cons tc tcs)
  have "add_json_tool_call (tool_call_json tc) m = m\<lparr>m_tool_calls := m_tool_calls m @ [tc]\<rparr>"
    by (simp add: add_json_tool_call_def tool_call_json_def get_object_item_def json_defs strcaseeq_def
        tolower_def isupper_def message_add_tool_call_def)
  with Cons show ?case by simp
qed

lemma message_of_json_message_json:
  assumes "wf_message m"
  shows "message_of_json (message_json m) = Some m"
    and "json_string (get_object_item (Some (message_json m)) ''_type'') = None"
proof -
  note get = message_json_def get_object_item_def json_defs strcaseeq_def tolower_def isupper_def
  let ?j = "Some (message_json m)"
  have common: "json_string (get_object_item ?j ''role'') = Some (role_name (m_role m))"
    "json_string (get_object_item ?j ''content'') = Some (m_content m)"
    "json_string (get_object_item ?j ''timestamp'') = Some (m_timestamp m)"
    by (simp_all add: get)
  show "json_string (get_object_item ?j ''_type'') = None" by (simp add: get)
  have calls: "json_array (get_object_item ?j ''tool_calls'') =
      (if m_role m = ROLE_ASSISTANT \<and> m_tool_calls m \<noteq> [] then Some (map tool_call_json (m_tool_calls m)) else None)"
    by (simp add: get)
  have tool: "json_string (get_object_item ?j ''tool_call_id'') =
      (if m_role m = ROLE_TOOL \<and> m_tool_call_id m \<noteq> [] then Some (m_tool_call_id m) else None)"
    "json_string (get_object_item ?j ''name'') = (if m_role m = ROLE_TOOL \<and> m_name m \<noteq> [] then Some (m_name m) else None)"
    by (simp_all add: get)
  show "message_of_json (message_json m) = Some m"
    using assms
    by (cases "m_role m")
      (auto simp: message_of_json_def Let_def common calls tool role_name_def wf_message_def fold_tool_calls)
qed

lemma fold_load_messages:
  assumes "\<forall>m \<in> set ms. wf_message m \<and> reads_back print parse (message_json m)"
  shows "fold (load_line parse now) (map (json_line print) (map message_json ms)) (b, session) =
    (b, fold (\<lambda>m s. session_add_message now s m) ms session)"
  using assms
proof (induction ms arbitrary: session)
  case Nil
  then show ?case by simp
next
  case (Cons m ms)
  then obtain s where s: "print (message_json m) = Some s" "s \<noteq> []" "parse (s @ [newline]) = Some (message_json m)"
    by (auto simp: reads_back_def)
  have "wf_message m" using Cons.prems by simp
  then have "load_line parse now (json_line print (message_json m)) (b, session) = (b, session_add_message now session m)"
    using s by (cases s) (simp_all add: load_line_def json_line_def message_of_json_message_json)
  with Cons show ?case by simp
qed

lemma fold_add_messages: "se_messages (fold (\<lambda>m s. session_add_message now s m) ms session) = se_messages session @ ms"
  "se_last_consolidated (fold (\<lambda>m s. session_add_message now s m) ms session) = se_last_consolidated session"
  "se_key (fold (\<lambda>m s. session_add_message now s m) ms session) = se_key session"
  by (induction ms arbitrary: session) (simp_all add: session_add_message_def)

text \<open>Claim C36. Conversations survive a restart: loading a session file that holds a metadata line and the
  message lines gives a session with exactly those messages in order, the consolidation mark of the
  metadata, and everything counted as saved, provided that each line fits the 4096 byte line buffer
  and parses back to the tree it was printed from.\<close>

theorem session_load_roundtrip:
  assumes "\<forall>m \<in> set (se_messages session). wf_message m \<and> reads_back print parse (message_json m)"
    and "reads_back print parse (metadata_json session n)" and "se_last_consolidated session < 2 ^ 53"
    and "content = serialize_metadata_to_fp print session n @ concat (map (serialize_message_to_fp print) (se_messages session))"
  shows "se_messages (load_content parse now content (new_session key t)) = se_messages session
    \<and> se_last_consolidated (load_content parse now content (new_session key t)) = se_last_consolidated session
    \<and> se_last_saved_count (load_content parse now content (new_session key t)) = length (se_messages session)
    \<and> \<not> se_needs_full_save (load_content parse now content (new_session key t))"
proof -
  let ?js = "metadata_json session n # map message_json (se_messages session)"
  have c: "content = concat (map (json_line print) ?js)"
    by (simp add: assms(4) serialize_metadata_to_fp_def serialize_message_to_fp_def [abs_def] comp_def)
  have "\<forall>j \<in> set ?js. reads_back print parse j" using assms(1,2) by auto
  then have lines: "fgets_lines content = map (json_line print) ?js" unfolding c by (rule fgets_lines_journal)
  obtain s where s: "print (metadata_json session n) = Some s" "s \<noteq> []" "parse (s @ [newline]) = Some (metadata_json session n)"
    using assms(2) by (auto simp: reads_back_def)
  note get = metadata_json_def get_object_item_def json_defs strcaseeq_def tolower_def isupper_def
  have ty: "json_string (get_object_item (Some (metadata_json session n)) ''_type'') = Some ''metadata''" by (simp add: get)
  have lc: "json_number (get_object_item (Some (metadata_json session n)) ''last_consolidated'')
      = Some (of_int (int (se_last_consolidated session)))"
    using double_of_int_exact [of "int (se_last_consolidated session)"] assms(3) by (simp add: get)
  let ?s0 = "load_metadata (metadata_json session n) (new_session key t)"
  have "load_line parse now (json_line print (metadata_json session n)) (False, new_session key t) = (True, ?s0)"
    using s by (cases s) (simp_all add: load_line_def json_line_def ty)
  moreover have "se_messages ?s0 = []" "se_last_consolidated ?s0 = se_last_consolidated session"
    by (simp_all add: load_metadata_def Let_def lc new_session_def split: option.splits)
  ultimately show ?thesis
    using fold_load_messages [OF assms(1), of now True ?s0]
    by (simp add: load_content_def lines fold_add_messages)
qed

theorem session_load_roundtrip_witness:
  "\<exists>print parse content. content = serialize_metadata_to_fp print demo_session 1 @
       concat (map (serialize_message_to_fp print) (se_messages demo_session))
     \<and> se_messages (load_content parse 9 content (new_session ''cli:1'' 8)) = se_messages demo_session
     \<and> se_messages demo_session \<noteq> []"
proof -
  define meta where "meta = metadata_json demo_session 1"
  define print :: json_printer where "print j = Some (if j = meta then ''M'' else ''U'')" for j
  define parse :: json_parser where
    "parse s = (if s = ''M'' @ [newline] then Some meta else Some (message_json (hd (se_messages demo_session))))" for s
  have ms: "\<exists>m. se_messages demo_session = [m] \<and> wf_message m \<and> message_json m \<noteq> meta"
    by (simp add: demo_session_def new_session_def session_add_message_def wf_message_def meta_def
        metadata_json_def message_json_def)
  then have m: "\<forall>m \<in> set (se_messages demo_session). wf_message m \<and> reads_back print parse (message_json m)"
    by (auto simp: reads_back_def print_def parse_def)
  have r: "reads_back print parse (metadata_json demo_session 1)"
    by (simp add: reads_back_def print_def parse_def meta_def)
  have l: "se_last_consolidated demo_session < 2 ^ 53"
    by (simp add: demo_session_def new_session_def session_add_message_def)
  show ?thesis using session_load_roundtrip [OF m r l refl, of 9 "''cli:1''" 8] ms by auto
qed

end
