(* ===== verification/Orchestrator.thy ===== *)
theory Orchestrator
  imports Session
begin

text \<open>
  \<open>src/agent/session_orchestrator.c\<close>: the list of active tasks. Each function holds the task mutex,
  so it is one step on the list; the character arrays of the C structures are texts, cut by
  \<open>c_trunc\<close> where the code copies them into a buffer of a given size. A session pointer is the key of the
  session in the manager.
\<close>

datatype SessionState = SESSION_STATE_IDLE | SESSION_STATE_WAITING_LLM | SESSION_STATE_WAITING_TOOL

record SessionContext =
  ctx_state :: SessionState
  ctx_turn :: int
  ctx_channel :: string
  ctx_chat_id :: string
  ctx_latest_user_content :: string
  ctx_no_session_record :: bool
  ctx_session_msg_count_before :: nat

record ActiveTask =
  at_id :: string
  at_session_key :: string
  at_ctx :: SessionContext
  at_cancelled :: bool
  at_pending_tool_count :: int

record SessionOrchestrator =
  so_active_tasks :: "ActiveTask list"
  so_current_session_key :: string

record TaskSnapshot =
  sn_task_id :: string
  sn_channel :: string
  sn_chat_id :: string
  sn_state :: SessionState
  sn_turn :: int
  sn_pending_tool_count :: int
  sn_valid :: bool
  sn_cancelled :: bool
  sn_no_session_record :: bool
  sn_session_msg_count_before :: nat
  sn_latest_user_content :: string

definition SESSION_KEY_MAX :: nat where
  "SESSION_KEY_MAX = 512"

definition session_orchestrator_new :: SessionOrchestrator where
  "session_orchestrator_new = \<lparr>so_active_tasks = [], so_current_session_key = ''''\<rparr>"

definition session_orchestrator_get_session ::
  "bool \<Rightarrow> int \<Rightarrow> SessionManager \<Rightarrow> string \<Rightarrow> Session option \<times> SessionManager" where
  "session_orchestrator_get_session ok now mgr session_key =
     (case session_manager_get mgr session_key of
        Some session \<Rightarrow> (Some session, mgr)
      | None \<Rightarrow> session_manager_create ok now mgr session_key)"

definition session_orchestrator_add_message :: "int \<Rightarrow> SessionManager \<Rightarrow> string \<Rightarrow> Message \<Rightarrow> SessionManager" where
  "session_orchestrator_add_message now mgr key message =
     update_session mgr key (\<lambda>s. session_add_message now s message)"

definition session_orchestrator_add_task :: "bool \<Rightarrow> SessionOrchestrator \<Rightarrow> ActiveTask \<Rightarrow> SessionOrchestrator" where
  "session_orchestrator_add_task ok orch task =
     (if ok then orch\<lparr>so_active_tasks := so_active_tasks orch @ [task]\<rparr> else orch)"

definition session_orchestrator_remove_task :: "SessionOrchestrator \<Rightarrow> string \<Rightarrow> SessionOrchestrator" where
  "session_orchestrator_remove_task orch task_id =
     orch\<lparr>so_active_tasks := remove_first (\<lambda>t. at_id t = task_id) (so_active_tasks orch)\<rparr>"

definition session_orchestrator_cancel_all_tasks :: "SessionOrchestrator \<Rightarrow> SessionOrchestrator" where
  "session_orchestrator_cancel_all_tasks orch =
     orch\<lparr>so_active_tasks := map (\<lambda>t. t\<lparr>at_cancelled := True\<rparr>) (so_active_tasks orch)\<rparr>"

definition session_orchestrator_cancel_tasks_by_session ::
  "SessionOrchestrator \<Rightarrow> string \<Rightarrow> nat \<times> SessionOrchestrator" where
  "session_orchestrator_cancel_tasks_by_session orch session_key =
     (length (filter (\<lambda>t. at_session_key t = session_key \<and> \<not> at_cancelled t) (so_active_tasks orch)),
      orch\<lparr>so_active_tasks := map (\<lambda>t. if at_session_key t = session_key \<and> \<not> at_cancelled t
                                       then t\<lparr>at_cancelled := True\<rparr> else t) (so_active_tasks orch)\<rparr>)"

definition empty_snapshot :: TaskSnapshot where
  "empty_snapshot =
     \<lparr>sn_task_id = '''', sn_channel = '''', sn_chat_id = '''', sn_state = SESSION_STATE_IDLE, sn_turn = 0,
      sn_pending_tool_count = 0, sn_valid = False, sn_cancelled = False, sn_no_session_record = False,
      sn_session_msg_count_before = 0, sn_latest_user_content = ''''\<rparr>"

definition fill_snapshot :: "ActiveTask \<Rightarrow> TaskSnapshot" where
  "fill_snapshot t = empty_snapshot
     \<lparr>sn_task_id := c_trunc 32 (at_id t), sn_channel := c_trunc 64 (ctx_channel (at_ctx t)),
      sn_chat_id := c_trunc 512 (ctx_chat_id (at_ctx t)), sn_state := ctx_state (at_ctx t), sn_turn := ctx_turn (at_ctx t),
      sn_pending_tool_count := at_pending_tool_count t, sn_valid := True,
      sn_no_session_record := ctx_no_session_record (at_ctx t),
      sn_session_msg_count_before := ctx_session_msg_count_before (at_ctx t),
      sn_latest_user_content := c_trunc 1024 (ctx_latest_user_content (at_ctx t))\<rparr>"

definition session_orchestrator_get_task :: "SessionOrchestrator \<Rightarrow> string \<Rightarrow> TaskSnapshot" where
  "session_orchestrator_get_task orch task_id =
     (case find (\<lambda>t. at_id t = task_id) (so_active_tasks orch) of
        None \<Rightarrow> empty_snapshot
      | Some t \<Rightarrow> (fill_snapshot t)\<lparr>sn_cancelled := at_cancelled t\<rparr>)"

definition session_orchestrator_snapshot_task :: "SessionOrchestrator \<Rightarrow> string \<Rightarrow> TaskSnapshot" where
  "session_orchestrator_snapshot_task orch session_key =
     (case find (\<lambda>t. at_session_key t = session_key) (so_active_tasks orch) of
        None \<Rightarrow> empty_snapshot
      | Some t \<Rightarrow> fill_snapshot t)"

definition session_orchestrator_get_task_by_session :: "SessionOrchestrator \<Rightarrow> string \<Rightarrow> TaskSnapshot" where
  "session_orchestrator_get_task_by_session orch session_key = session_orchestrator_snapshot_task orch session_key"

text \<open>The loops that change the first task of a session.\<close>

definition update_task :: "SessionOrchestrator \<Rightarrow> string \<Rightarrow> (ActiveTask \<Rightarrow> ActiveTask) \<Rightarrow> SessionOrchestrator" where
  "update_task orch session_key f =
     orch\<lparr>so_active_tasks := update_first (\<lambda>t. at_session_key t = session_key) f (so_active_tasks orch)\<rparr>"

definition session_orchestrator_update_task_state :: "SessionOrchestrator \<Rightarrow> string \<Rightarrow> SessionState \<Rightarrow> SessionOrchestrator" where
  "session_orchestrator_update_task_state orch session_key state =
     update_task orch session_key (\<lambda>t. t\<lparr>at_ctx := (at_ctx t)\<lparr>ctx_state := state\<rparr>\<rparr>)"

definition session_orchestrator_update_task_pending_tools :: "SessionOrchestrator \<Rightarrow> string \<Rightarrow> int \<Rightarrow> SessionOrchestrator" where
  "session_orchestrator_update_task_pending_tools orch session_key count =
     update_task orch session_key (\<lambda>t. t\<lparr>at_pending_tool_count := count\<rparr>)"

definition session_orchestrator_decrement_task_pending_tools ::
  "SessionOrchestrator \<Rightarrow> string \<Rightarrow> int \<times> SessionOrchestrator" where
  "session_orchestrator_decrement_task_pending_tools orch session_key =
     (case find (\<lambda>t. at_session_key t = session_key) (so_active_tasks orch) of
        None \<Rightarrow> (-1, orch)
      | Some t \<Rightarrow> (at_pending_tool_count t - 1,
                  update_task orch session_key (\<lambda>t. t\<lparr>at_pending_tool_count := at_pending_tool_count t - 1\<rparr>)))"

definition session_orchestrator_increment_task_turn :: "SessionOrchestrator \<Rightarrow> string \<Rightarrow> SessionOrchestrator" where
  "session_orchestrator_increment_task_turn orch session_key =
     update_task orch session_key (\<lambda>t. t\<lparr>at_ctx := (at_ctx t)\<lparr>ctx_turn := ctx_turn (at_ctx t) + 1\<rparr>\<rparr>)"

definition session_orchestrator_set_current_session_key :: "SessionOrchestrator \<Rightarrow> string \<Rightarrow> SessionOrchestrator" where
  "session_orchestrator_set_current_session_key orch session_key =
     orch\<lparr>so_current_session_key := c_trunc SESSION_KEY_MAX session_key\<rparr>"

lemmas orch_defs [op_defs] =
  session_orchestrator_update_task_state_def session_orchestrator_update_task_pending_tools_def
  session_orchestrator_increment_task_turn_def session_orchestrator_set_current_session_key_def

section \<open>The task list is a table\<close>

definition find_task :: "SessionOrchestrator \<Rightarrow> string \<Rightarrow> ActiveTask option" where
  "find_task orch key = find (\<lambda>t. at_session_key t = key) (so_active_tasks orch)"

interpretation tasks: keyed_table "\<lambda>orch. True" session_orchestrator_new find_task
  "\<lambda>t orch. session_orchestrator_add_task True orch t" update_task at_session_key
proof (unfold_locales, goal_cases)
  case (2 k)
  show ?case by (simp add: find_task_def session_orchestrator_new_def)
next
  case (4 orch t k)
  have "find P (xs @ [x]) = (case find P xs of None \<Rightarrow> if P x then Some x else None | Some y \<Rightarrow> Some y)"
    for P and xs :: "ActiveTask list" and x by (induction xs) auto
  with 4 show ?case
    by (auto simp: find_task_def session_orchestrator_add_task_def split: option.splits)
next
  case (6 orch f k k')
  note keep = 6(2)
  have "find (\<lambda>t. at_session_key t = k) (update_first (\<lambda>t. at_session_key t = k) f xs)
      = map_option f (find (\<lambda>t. at_session_key t = k) xs)" for xs
    by (rule find_update_first_same) (simp add: keep)
  moreover have "find (\<lambda>t. at_session_key t = k') (update_first (\<lambda>t. at_session_key t = k) f xs)
      = find (\<lambda>t. at_session_key t = k') xs" if "k' \<noteq> k" for xs
    by (rule find_update_first_other) (use keep that in auto)
  ultimately show ?case by (auto simp: find_task_def update_task_def)
qed simp_all

lemma snapshot_find: "session_orchestrator_snapshot_task orch k =
    (case find_task orch k of None \<Rightarrow> empty_snapshot | Some t \<Rightarrow> fill_snapshot t)"
  by (simp add: session_orchestrator_snapshot_task_def find_task_def)

text \<open>Cancellation is never seen: whatever tasks are cancelled, the snapshot of a session, on which
  the agent loop decides, says that its task is not cancelled and is the same as before the
  cancellation, although the lookup by task id does report it. So a cancelled task goes on.\<close>

theorem cancel_not_visible_by_session:
  "session_orchestrator_snapshot_task (snd (session_orchestrator_cancel_tasks_by_session orch k)) k'
     = session_orchestrator_snapshot_task orch k'
   \<and> \<not> sn_cancelled (session_orchestrator_snapshot_task orch k')
   \<and> (\<forall>t. so_active_tasks orch = [t] \<and> at_session_key t = k \<longrightarrow>
        sn_cancelled (session_orchestrator_get_task (snd (session_orchestrator_cancel_tasks_by_session orch k)) (at_id t)))"
proof -
  let ?c = "\<lambda>t. if at_session_key t = k \<and> \<not> at_cancelled t then t\<lparr>at_cancelled := True\<rparr> else t"
  have f: "find (\<lambda>t. at_session_key t = k') (map ?c ts) = map_option ?c (find (\<lambda>t. at_session_key t = k') ts)" for ts
    by (induction ts) auto
  have "fill_snapshot (?c t) = fill_snapshot t" for t by (simp add: fill_snapshot_def)
  then have "session_orchestrator_snapshot_task (snd (session_orchestrator_cancel_tasks_by_session orch k)) k'
      = session_orchestrator_snapshot_task orch k'"
    by (simp add: session_orchestrator_snapshot_task_def session_orchestrator_cancel_tasks_by_session_def f split: option.splits)
  moreover have "\<not> sn_cancelled (session_orchestrator_snapshot_task orch k')"
    by (simp add: session_orchestrator_snapshot_task_def fill_snapshot_def empty_snapshot_def split: option.splits)
  moreover have "\<forall>t. so_active_tasks orch = [t] \<and> at_session_key t = k \<longrightarrow>
      sn_cancelled (session_orchestrator_get_task (snd (session_orchestrator_cancel_tasks_by_session orch k)) (at_id t))"
    by (simp add: session_orchestrator_get_task_def session_orchestrator_cancel_tasks_by_session_def)
  ultimately show ?thesis by blast
qed

definition demo_task :: ActiveTask where
  "demo_task = \<lparr>at_id = ''task_1_2'', at_session_key = ''cli:1'',
     at_ctx = \<lparr>ctx_state = SESSION_STATE_WAITING_LLM, ctx_turn = 1, ctx_channel = ''cli'', ctx_chat_id = ''1'',
       ctx_latest_user_content = ''hi'', ctx_no_session_record = False, ctx_session_msg_count_before = 0\<rparr>,
     at_cancelled = False, at_pending_tool_count = 0\<rparr>"

theorem cancel_not_visible_by_session_witness:
  "\<not> sn_cancelled (session_orchestrator_snapshot_task (snd (session_orchestrator_cancel_tasks_by_session
      \<lparr>so_active_tasks = [demo_task], so_current_session_key = []\<rparr> ''cli:1'')) ''cli:1'')
   \<and> sn_cancelled (session_orchestrator_get_task (snd (session_orchestrator_cancel_tasks_by_session
      \<lparr>so_active_tasks = [demo_task], so_current_session_key = []\<rparr> ''cli:1'')) ''task_1_2'')"
  using cancel_not_visible_by_session [of "\<lparr>so_active_tasks = [demo_task], so_current_session_key = []\<rparr>" "''cli:1''" "''cli:1''"]
  by (simp add: demo_task_def)

end
