(* ===== verification/ToolRegistry.thy ===== *)
theory ToolRegistry
  imports Common CLib
begin

text \<open>
  \<open>src/tools/tool.c\<close>: the registry of tools. A user-data or plugin pointer is an address, \<open>None\<close> is
  NULL; the function of a tool takes the user data and the argument text and returns the error and
  the text that it appended to the result. \<open>realloc_ok\<close> says whether memory for the given number of
  tools is available.
\<close>

record Tool =
  t_name :: string
  t_description :: string
  t_parameters :: string
  t_execute :: "nat option \<Rightarrow> string \<Rightarrow> Error \<times> string"
  t_user_data :: "nat option"
  t_plugin_ref :: "nat option"
  t_user_data_destroy :: bool

record ToolRegistry =
  tr_tools :: "Tool list"
  tr_capacity :: nat

definition tool_registry_new :: "bool \<Rightarrow> ToolRegistry option" where
  "tool_registry_new ok = (if ok then Some \<lparr>tr_tools = [], tr_capacity = 8\<rparr> else None)"

text \<open>The pointers that \<open>tool_registry_free\<close> releases, in order; \<open>freed_ptrs\<close> has room for 64.\<close>

fun free_user_data :: "nat list \<Rightarrow> Tool list \<Rightarrow> nat list" where
  "free_user_data freed_ptrs [] = []"
| "free_user_data freed_ptrs (t # ts) =
     (case t_user_data t of
        None \<Rightarrow> free_user_data freed_ptrs ts
      | Some p \<Rightarrow>
          if t_plugin_ref t \<noteq> None \<or> p \<in> set freed_ptrs then free_user_data freed_ptrs ts
          else p # free_user_data (if length freed_ptrs < 64 then freed_ptrs @ [p] else freed_ptrs) ts)"

definition tool_registry_free :: "ToolRegistry \<Rightarrow> nat list" where
  "tool_registry_free reg = free_user_data [] (tr_tools reg)"

definition tool_registry_register_full ::
  "(nat \<Rightarrow> bool) \<Rightarrow> ToolRegistry \<Rightarrow> string \<Rightarrow> string \<Rightarrow> string \<Rightarrow> (nat option \<Rightarrow> string \<Rightarrow> Error \<times> string) \<Rightarrow>
   nat option \<Rightarrow> nat option \<Rightarrow> bool \<Rightarrow> Error \<times> ToolRegistry" where
  "tool_registry_register_full realloc_ok reg name desc params_schema exec user_data plugin_ref user_data_destroy =
     (let tool = \<lparr>t_name = name, t_description = desc, t_parameters = params_schema, t_execute = exec,
                  t_user_data = user_data, t_plugin_ref = plugin_ref, t_user_data_destroy = user_data_destroy\<rparr>
      in if length (tr_tools reg) \<ge> tr_capacity reg
         then (let new_cap = tr_capacity reg * 2
               in if \<not> realloc_ok new_cap then (error_new ERR_MEMORY (Some ''Failed to expand tool registry''), reg)
                  else (no_error, reg\<lparr>tr_capacity := new_cap, tr_tools := tr_tools reg @ [tool]\<rparr>))
         else (no_error, reg\<lparr>tr_tools := tr_tools reg @ [tool]\<rparr>))"

definition tool_registry_register ::
  "(nat \<Rightarrow> bool) \<Rightarrow> ToolRegistry \<Rightarrow> string \<Rightarrow> string \<Rightarrow> string \<Rightarrow> (nat option \<Rightarrow> string \<Rightarrow> Error \<times> string) \<Rightarrow>
   nat option \<Rightarrow> Error \<times> ToolRegistry" where
  "tool_registry_register realloc_ok reg name desc params_schema exec user_data =
     tool_registry_register_full realloc_ok reg name desc params_schema exec user_data None False"

definition tool_registry_register_plugin_tool ::
  "(nat \<Rightarrow> bool) \<Rightarrow> ToolRegistry \<Rightarrow> string \<Rightarrow> string \<Rightarrow> string \<Rightarrow> (nat option \<Rightarrow> string \<Rightarrow> Error \<times> string) \<Rightarrow>
   nat option \<Rightarrow> nat option \<Rightarrow> Error \<times> ToolRegistry" where
  "tool_registry_register_plugin_tool realloc_ok reg name desc params_schema exec user_data plugin_ref =
     tool_registry_register_full realloc_ok reg name desc params_schema exec user_data plugin_ref False"

definition tool_registry_get :: "ToolRegistry \<Rightarrow> string \<Rightarrow> Tool option" where
  "tool_registry_get reg name =
     (case find (\<lambda>t. t_name t = name) (tr_tools reg) of
        Some t \<Rightarrow> Some t
      | None \<Rightarrow>
          (case (case strrchr name CHR ''.'' of Some a \<Rightarrow> Some a | None \<Rightarrow> strrchr name CHR '':'') of
             None \<Rightarrow> None
           | Some alias \<Rightarrow>
               if tl alias \<noteq> '''' then find (\<lambda>t. t_name t = tl alias) (tr_tools reg) else None))"

definition tool_registry_execute :: "ToolRegistry \<Rightarrow> string \<Rightarrow> string \<Rightarrow> Error \<times> string" where
  "tool_registry_execute reg name args_json =
     (case tool_registry_get reg name of
        None \<Rightarrow> (error_new ERR_TOOL (Some (c_trunc 256 (''Tool not found: '' @ name))), '''')
      | Some tool \<Rightarrow> t_execute tool (t_user_data tool) args_json)"

definition tool_registry_execute_with_user_data ::
  "ToolRegistry \<Rightarrow> string \<Rightarrow> string \<Rightarrow> nat option \<Rightarrow> Error \<times> string" where
  "tool_registry_execute_with_user_data reg name args_json user_data =
     (case tool_registry_get reg name of
        None \<Rightarrow> (error_new ERR_TOOL (Some (c_trunc 256 (''Tool not found: '' @ name))), '''')
      | Some tool \<Rightarrow> t_execute tool (case user_data of None \<Rightarrow> t_user_data tool | Some u \<Rightarrow> Some u) args_json)"

section \<open>The registry is a growable array\<close>

definition wf_registry :: "ToolRegistry \<Rightarrow> bool" where
  [inv_defs]: "wf_registry reg \<longleftrightarrow> 0 < tr_capacity reg \<and> length (tr_tools reg) \<le> tr_capacity reg"

definition add_tool :: "(nat \<Rightarrow> bool) \<Rightarrow> ToolRegistry \<Rightarrow> Tool \<Rightarrow> ToolRegistry" where
  "add_tool realloc_ok reg t = snd (tool_registry_register_full realloc_ok reg (t_name t) (t_description t)
     (t_parameters t) (t_execute t) (t_user_data t) (t_plugin_ref t) (t_user_data_destroy t))"

interpretation reg: growable "add_tool realloc_ok" tr_tools tr_capacity
  "\<lambda>reg. length (tr_tools reg) < tr_capacity reg \<or> realloc_ok (tr_capacity reg * 2)" wf_registry
  for realloc_ok
  by unfold_locales (auto simp: add_tool_def tool_registry_register_full_def wf_registry_def Let_def)

section \<open>Lookup\<close>

lemma register_appends:
  assumes "tool_registry_register_full realloc_ok reg name desc schema exec u pl d = (e, reg')" and "err_code e = ERR_NONE"
  shows "tr_tools reg' = tr_tools reg @ [\<lparr>t_name = name, t_description = desc, t_parameters = schema, t_execute = exec,
    t_user_data = u, t_plugin_ref = pl, t_user_data_destroy = d\<rparr>]"
  using assms by (auto simp: tool_registry_register_full_def Let_def error_new_def split: if_splits)

lemma find_snoc: "find P (xs @ [x]) = (case find P xs of Some y \<Rightarrow> Some y | None \<Rightarrow> if P x then Some x else None)"
  by (induction xs) auto

lemma strrchr_last: "c \<notin> set s \<Longrightarrow> strrchr (p @ c # s) c = Some (c # s)"
proof (induction p)
  case Nil
  then have "strrchr s c = None" by (simp add: strrchr_None)
  then show ?case by simp
next
  case (Cons x p)
  then show ?case by simp
qed

lemma registry_lookup_parts:
  assumes "tool_registry_register_full realloc_ok reg name desc schema exec u pl d = (e, reg')" and "err_code e = ERR_NONE"
    and "name \<noteq> ''''" and "CHR ''.'' \<notin> set name"
  shows "\<exists>t. tool_registry_get reg' name = Some t \<and> t_name t = name
      \<and> (if \<exists>t \<in> set (tr_tools reg). t_name t = name
         then find (\<lambda>t. t_name t = name) (tr_tools reg) = Some t
         else t_execute t = exec \<and> t_user_data t = u)
      \<and> ((\<forall>t \<in> set (tr_tools reg'). t_name t \<noteq> p @ ''.'' @ name) \<longrightarrow> tool_registry_get reg' (p @ ''.'' @ name) = Some t)"
    and "other \<noteq> name \<Longrightarrow> CHR ''.'' \<notin> set other \<Longrightarrow> CHR '':'' \<notin> set other \<Longrightarrow>
      tool_registry_get reg' other = tool_registry_get reg other"
proof -
  note tools = register_appends [OF assms(1,2)]
  define t0 where "t0 = \<lparr>t_name = name, t_description = desc, t_parameters = schema, t_execute = exec,
    t_user_data = u, t_plugin_ref = pl, t_user_data_destroy = d\<rparr>"
  have f: "find (\<lambda>t. t_name t = n) (tr_tools reg') = (case find (\<lambda>t. t_name t = n) (tr_tools reg) of
      Some y \<Rightarrow> Some y | None \<Rightarrow> if name = n then Some t0 else None)" for n
    by (simp add: tools find_snoc t0_def split: option.splits)
  then obtain t where t: "find (\<lambda>t. t_name t = name) (tr_tools reg') = Some t"
    by (cases "find (\<lambda>t. t_name t = name) (tr_tools reg)") auto
  then have nm: "t_name t = name" by (auto simp: find_Some_iff)
  have old: "if \<exists>t \<in> set (tr_tools reg). t_name t = name then find (\<lambda>t. t_name t = name) (tr_tools reg) = Some t
      else t_execute t = exec \<and> t_user_data t = u"
  proof (cases "find (\<lambda>t. t_name t = name) (tr_tools reg)")
    case None
    with f [of name] t have "t = t0" by simp
    with None show ?thesis by (auto simp: find_None_iff t0_def)
  next
    case (Some y)
    with f [of name] t have "t = y" by simp
    moreover have "\<exists>t \<in> set (tr_tools reg). t_name t = name"
    proof (rule ccontr)
      assume "\<not> ?thesis"
      then have "find (\<lambda>t. t_name t = name) (tr_tools reg) = None" by (simp add: find_None_iff)
      with Some show False by simp
    qed
    ultimately show ?thesis using Some by simp
  qed
  have "tool_registry_get reg' (p @ ''.'' @ name) = Some t" if "\<forall>t \<in> set (tr_tools reg'). t_name t \<noteq> p @ ''.'' @ name"
  proof -
    have "find (\<lambda>t. t_name t = p @ ''.'' @ name) (tr_tools reg') = None" using that by (simp add: find_None_iff)
    with strrchr_last [OF assms(4), of p] assms(3) t show ?thesis by (simp add: tool_registry_get_def)
  qed
  with t nm old show "\<exists>t. tool_registry_get reg' name = Some t \<and> t_name t = name
      \<and> (if \<exists>t \<in> set (tr_tools reg). t_name t = name then find (\<lambda>t. t_name t = name) (tr_tools reg) = Some t
         else t_execute t = exec \<and> t_user_data t = u)
      \<and> ((\<forall>t \<in> set (tr_tools reg'). t_name t \<noteq> p @ ''.'' @ name) \<longrightarrow> tool_registry_get reg' (p @ ''.'' @ name) = Some t)"
    by (intro exI [of _ t]) (simp add: tool_registry_get_def)
  show "tool_registry_get reg' other = tool_registry_get reg other"
    if "other \<noteq> name" "CHR ''.'' \<notin> set other" "CHR '':'' \<notin> set other"
    using that f [of other] strrchr_None [of other "CHR ''.''"] strrchr_None [of other "CHR '':''"]
    by (simp add: tool_registry_get_def split: option.splits)
qed

text \<open>Tool lookup: after a registration that succeeds, the name finds the tool that was registered
  first under it, a name that is qualified with a dot finds the same tool as the bare name unless
  a tool has the qualified name itself, and looking up other bare names is not affected.\<close>

theorem tool_registry_lookup:
  assumes "tool_registry_register_full realloc_ok reg name desc schema exec u pl d = (e, reg')" and "err_code e = ERR_NONE"
    and "name \<noteq> ''''" and "CHR ''.'' \<notin> set name"
  shows "(\<exists>t. tool_registry_get reg' name = Some t \<and> t_name t = name
      \<and> (if \<exists>t \<in> set (tr_tools reg). t_name t = name
         then find (\<lambda>t. t_name t = name) (tr_tools reg) = Some t
         else t_execute t = exec \<and> t_user_data t = u)
      \<and> ((\<forall>t \<in> set (tr_tools reg'). t_name t \<noteq> p @ ''.'' @ name) \<longrightarrow> tool_registry_get reg' (p @ ''.'' @ name) = Some t))
    \<and> (\<forall>other. other \<noteq> name \<and> CHR ''.'' \<notin> set other \<and> CHR '':'' \<notin> set other \<longrightarrow>
         tool_registry_get reg' other = tool_registry_get reg other)"
  using registry_lookup_parts(1) [OF assms, of p] registry_lookup_parts(2) [OF assms] by blast

theorem tool_registry_lookup_witness:
  "\<exists>e reg' t. tool_registry_register_full (\<lambda>n. True) \<lparr>tr_tools = [], tr_capacity = 8\<rparr> ''exec'' [] []
       (\<lambda>u a. (no_error, a)) None None False = (e, reg')
     \<and> tool_registry_get reg' ''functions.exec'' = Some t \<and> t_name t = ''exec''"
proof -
  let ?reg = "\<lparr>tr_tools = [], tr_capacity = 8\<rparr>"
  obtain e reg' where r: "tool_registry_register_full (\<lambda>n. True) ?reg ''exec'' [] []
      (\<lambda>u a. (no_error, a)) None None False = (e, reg')" by fastforce
  then have e: "err_code e = ERR_NONE" and names: "\<forall>t \<in> set (tr_tools reg'). t_name t = ''exec''"
    by (auto simp: tool_registry_register_full_def Let_def error_new_def)
  from tool_registry_lookup [OF r e, of "''functions''"] names r show ?thesis by force
qed

section \<open>Releasing the user data\<close>

definition owned :: "Tool list \<Rightarrow> nat set" where
  "owned ts = {p. \<exists>t \<in> set ts. t_user_data t = Some p \<and> t_plugin_ref t = None}"

lemma owned_Cons:
  "owned (t # ts) = (case t_user_data t of None \<Rightarrow> {} | Some p \<Rightarrow> if t_plugin_ref t = None then {p} else {}) \<union> owned ts"
  by (auto simp: owned_def split: option.splits)

lemma finite_owned [simp]: "finite (owned ts)"
  by (induction ts) (auto simp: owned_Cons owned_def [of "[]"] split: option.splits)

lemma free_user_data_once:
  assumes "distinct freed" and "card (set freed \<union> owned ts) \<le> 64"
  shows "distinct (free_user_data freed ts) \<and> set (free_user_data freed ts) = owned ts - set freed"
  using assms
proof (induction freed ts rule: free_user_data.induct)
  case (1 freed)
  then show ?case by (simp add: owned_def)
next
  case (2 freed t ts)
  show ?case
  proof (cases "\<exists>p. t_user_data t = Some p \<and> t_plugin_ref t = None \<and> p \<notin> set freed")
    case False
    moreover from this have "set freed \<union> owned (t # ts) = set freed \<union> owned ts" "owned (t # ts) - set freed = owned ts - set freed"
      by (auto simp: owned_Cons split: option.splits)
    ultimately show ?thesis using 2 by (auto split: option.splits)
  next
    case True
    then obtain p where p: "t_user_data t = Some p" "t_plugin_ref t = None" "p \<notin> set freed" by blast
    have "card (set freed) < card (insert p (set freed \<union> owned ts))"
      by (rule psubset_card_mono) (use p in auto)
    then have room: "length freed < 64" using 2(5) p distinct_card [OF 2(4)] by (simp add: owned_Cons)
    have "distinct (free_user_data (freed @ [p]) ts) \<and> set (free_user_data (freed @ [p]) ts) = owned ts - set (freed @ [p])"
      using "2.IH"(3) [OF p(1)] p room 2(4,5) by (auto simp: owned_Cons insert_commute)
    with p room show ?thesis by (auto simp: owned_Cons)
  qed
qed

text \<open>Shutdown frees each user-data pointer once: with at most 64 distinct pointers owned by the
  registry, several tools may share one, and \<open>tool_registry_free\<close> still releases exactly the pointers
  of tools without a plugin, each a single time.\<close>

theorem tool_registry_free_once:
  assumes "card (owned (tr_tools reg)) \<le> 64"
  shows "distinct (tool_registry_free reg) \<and> set (tool_registry_free reg) = owned (tr_tools reg)"
  using free_user_data_once [of "[]" "tr_tools reg"] assms by (simp add: tool_registry_free_def)

theorem tool_registry_free_once_witness:
  "\<exists>reg. card (owned (tr_tools reg)) \<le> 64 \<and> length (tr_tools reg) = 2 \<and> distinct (tool_registry_free reg)
     \<and> set (tool_registry_free reg) = {7}"
proof -
  let ?t = "\<lparr>t_name = ''a'', t_description = [], t_parameters = [], t_execute = (\<lambda>u a. (no_error, a)),
    t_user_data = Some 7, t_plugin_ref = None, t_user_data_destroy = False\<rparr>"
  let ?reg = "\<lparr>tr_tools = [?t, ?t], tr_capacity = 8\<rparr>"
  have o: "owned (tr_tools ?reg) = {7}" by (auto simp: owned_def)
  then have "card (owned (tr_tools ?reg)) \<le> 64" by simp
  from tool_registry_free_once [OF this] this o show ?thesis by (intro exI [of _ ?reg]) simp
qed

end
