(* ===== verification/ToolRouter.thy ===== *)
theory ToolRouter
  imports ToolRegistry Reminder Message Json
begin

text \<open>
  \<open>src/agent/tool_router.c\<close>: running a tool by its exact name and the fallback that treats
  \<^verbatim>\<open>/name args\<close> as a call of the tool \<open>name\<close>. The outbound message of the fallback is part of its
  result.
\<close>

definition tool_router_get_tool :: "ToolRegistry \<Rightarrow> string \<Rightarrow> Tool option" where
  "tool_router_get_tool reg name = find (\<lambda>t. t_name t = name) (tr_tools reg)"

definition tool_router_execute :: "ToolRegistry \<Rightarrow> string \<Rightarrow> string \<Rightarrow> Error \<times> string" where
  "tool_router_execute reg name args_json =
     (case tool_router_get_tool reg name of
        None \<Rightarrow> (error_new ERR_TOOL (Some ''Tool not found''), '''')
      | Some tool \<Rightarrow> tool_registry_execute reg name args_json)"

text \<open>The reply, or \<open>None\<close> when no tool has that name.\<close>

definition tool_router_handle_fallback_command ::
  "json_printer \<Rightarrow> ToolRegistry \<Rightarrow> InboundMessage \<Rightarrow> string \<Rightarrow> OutboundMessage option" where
  "tool_router_handle_fallback_command print reg inbound full_content =
     (case parse_slash_command full_content 64 of
        (name, args_start) \<Rightarrow>
          (case find (\<lambda>t. t_name t = name) (tr_tools reg) of
             None \<Rightarrow> None
           | Some tool \<Rightarrow>
               (let args_json = (case print (JObject [(''args'', JString (str_or_empty args_start))]) of
                                   Some s \<Rightarrow> s | None \<Rightarrow> ''{\"args\":\"\"}'');
                    (err, result) = tool_router_execute reg name args_json
                in outbound_message_new True (Some (in_channel inbound)) (Some (in_chat_id inbound))
                     (Some (if err_code err = ERR_NONE then result
                            else c_trunc 256 (''Error executing tool: '' @ err_message err))))))"

lemma router_execute_runs_tool:
  assumes "tool_router_get_tool reg name = Some tool"
  shows "tool_router_execute reg name args = t_execute tool (t_user_data tool) args"
  using assms by (simp add: tool_router_execute_def tool_registry_execute_def tool_router_get_tool_def tool_registry_get_def)

lemma slash_name_bound: "0 < n \<Longrightarrow> length (fst (parse_slash_command s n)) < n"
  by (auto simp: parse_slash_command_def Let_def split: list.splits option.splits)

end
