(* ===== verification/AgentLoop.thy ===== *)
theory AgentLoop
  imports Orchestrator ToolRouter
begin

text \<open>
  \<open>src/agent/agent_loop.c\<close>: the state machine that answers messages. The state holds the session
  table, the task list, the tool registry, the files, the inbox, the queue of internal events (a FIFO,
  see \<open>Bus\<close>), what was sent to the outbound queue, and the requests to the model and to the
  tool executor that have not been answered yet. The processing worker is the only thread that runs
  the handlers. Time, random numbers, memory availability and the success of file and memory-store
  operations are in the record \<open>loop_env\<close>; the command dispatcher, which handles slash commands, is a
  parameter of the worker.
\<close>

record loop_config =
  cf_max_tool_iterations :: int
  cf_memory_window :: int

record AgentLoop =
  al_sessions :: SessionManager
  al_orch :: SessionOrchestrator
  al_registry :: ToolRegistry
  al_config :: "loop_config option"
  al_fs :: filesystem
  al_outbound :: "OutboundMessage list"
  al_events :: "InternalEvent list"
  al_inbox :: "InboundMessage list"
  al_running :: bool
  al_llm_requests :: "string list"
  al_tool_requests :: "(string \<times> ToolCall) list"
  al_has_provider :: bool
  al_has_memory :: bool

record loop_env =
  le_now :: int
  le_timestamp :: string
  le_monotonic_sec :: int
  le_rand :: nat
  le_alloc :: bool
  le_print :: json_printer
  le_parse :: json_parser
  le_open_ok :: bool
  le_rename_ok :: bool
  le_append_history :: "string \<Rightarrow> bool"
  le_consolidate_ok :: bool

definition ERROR_MSG_MAX :: nat where
  "ERROR_MSG_MAX = 1024"

section \<open>Replies and sessions\<close>

definition send_outbound :: "string \<Rightarrow> string \<Rightarrow> string \<Rightarrow> AgentLoop \<Rightarrow> AgentLoop" where
  "send_outbound channel chat_id content loop =
     loop\<lparr>al_outbound := al_outbound loop @
       [\<lparr>out_channel = channel, out_chat_id = chat_id, out_content = content, out_attachments = string_array_new\<rparr>]\<rparr>"

definition error_text :: "string \<Rightarrow> string" where
  "error_text error_msg = c_trunc ERROR_MSG_MAX (''Sorry, I encountered an error: '' @ error_msg)"

definition send_error_response :: "string \<Rightarrow> string \<Rightarrow> string \<Rightarrow> AgentLoop \<Rightarrow> AgentLoop" where
  "send_error_response channel chat_id error_msg loop = send_outbound channel chat_id (error_text error_msg) loop"

text \<open>\<open>session_add_message\<close> and \<open>session_manager_save\<close> through the session pointer.\<close>

definition add_to_session :: "loop_env \<Rightarrow> string \<Rightarrow> Message \<Rightarrow> AgentLoop \<Rightarrow> AgentLoop" where
  "add_to_session env key msg loop =
     loop\<lparr>al_sessions := update_session (al_sessions loop) key (\<lambda>s. session_add_message (le_now env) s msg)\<rparr>"

definition save_session :: "loop_env \<Rightarrow> string \<Rightarrow> AgentLoop \<Rightarrow> AgentLoop" where
  "save_session env key loop =
     (case session_manager_get (al_sessions loop) key of
        None \<Rightarrow> loop
      | Some s \<Rightarrow>
          (case session_manager_save (le_print env) (le_open_ok env) (le_rename_ok env)
                  (sm_workspace_path (al_sessions loop)) (al_fs loop) s of
             (err, s', fs') \<Rightarrow>
               loop\<lparr>al_sessions := update_session (al_sessions loop) key
                      (\<lambda>s. s\<lparr>se_last_saved_count := se_last_saved_count s', se_needs_full_save := se_needs_full_save s'\<rparr>),
                    al_fs := fs'\<rparr>))"

definition text_message :: "MessageRole \<Rightarrow> string \<Rightarrow> Message" where
  "text_message role content =
     \<lparr>m_role = role, m_content = content, m_timestamp = [], m_tool_calls = [], m_tool_call_id = [], m_name = []\<rparr>"

text \<open>The handlers add a message and save the session unless the task is not to be recorded.\<close>

definition record_message :: "loop_env \<Rightarrow> string \<Rightarrow> bool \<Rightarrow> Message \<Rightarrow> AgentLoop \<Rightarrow> AgentLoop" where
  "record_message env key no_session_record msg loop =
     (let loop = add_to_session env key msg loop
      in if \<not> no_session_record then save_session env key loop else loop)"

definition consolidation_excerpt :: "string \<Rightarrow> string" where
  "consolidation_excerpt latest_user_content =
     (if latest_user_content \<noteq> ''''
      then map (\<lambda>c. if c = CHR 0x0A \<or> c = CHR 0x0D \<or> c = CHR 0x09 then CHR '' '' else c) (take 220 latest_user_content)
      else ''(empty)'')"

definition consolidation_entry :: "string \<Rightarrow> string \<Rightarrow> nat \<Rightarrow> nat \<Rightarrow> string \<Rightarrow> string" where
  "consolidation_entry timestamp key delta consolidated_cursor latest_user_content =
     c_trunc 1024
       (''['' @ timestamp @ ''] Auto consolidation for session '' @ key @ '': archived '' @
        show_int (int delta) @ '' messages since index '' @ show_int (int consolidated_cursor) @
        ''. Latest user message: '' @ consolidation_excerpt latest_user_content)"

definition maybe_auto_consolidate_memory :: "loop_env \<Rightarrow> string \<Rightarrow> string \<Rightarrow> AgentLoop \<Rightarrow> AgentLoop" where
  "maybe_auto_consolidate_memory env key latest_user_content loop =
     (case session_manager_get (al_sessions loop) key of
        None \<Rightarrow> loop
      | Some session \<Rightarrow>
          if \<not> al_has_memory loop then loop
          else (let memory_window = (case al_config loop of
                                       Some c \<Rightarrow> if cf_memory_window c > 0 then nat (cf_memory_window c) else 100
                                     | None \<Rightarrow> 100);
                    message_count = length (se_messages session);
                    consolidated_cursor = min (se_last_consolidated session) message_count;
                    delta = message_count - consolidated_cursor;
                    loop = loop\<lparr>al_sessions := update_session (al_sessions loop) key
                                  (\<lambda>s. s\<lparr>se_last_consolidated := consolidated_cursor\<rparr>)\<rparr>
                in if delta < memory_window then loop
                   else if \<not> le_append_history env
                          (consolidation_entry (le_timestamp env) key delta consolidated_cursor latest_user_content) then loop
                   else if \<not> le_consolidate_ok env then loop
                   else save_session env key
                          (loop\<lparr>al_sessions := update_session (al_sessions loop) key
                             (\<lambda>s. s\<lparr>se_last_consolidated := message_count, se_needs_full_save := True\<rparr>)\<rparr>)))"

section \<open>The reminder fallback\<close>

text \<open>\<open>json_escape_string\<close>; \<open>n\<close> counts the bytes written.\<close>

fun json_escape_string :: "nat \<Rightarrow> nat \<Rightarrow> string \<Rightarrow> string" where
  "json_escape_string out_size n [] = []"
| "json_escape_string out_size n (c # cs) =
     (if n + 1 < out_size
      then (if (c = CHR 0x22 \<or> c = CHR 0x5C) \<and> n + 2 < out_size
            then CHR 0x5C # c # json_escape_string out_size (n + 2) cs
            else if c = CHR 0x0A \<and> n + 2 < out_size
            then CHR 0x5C # CHR ''n'' # json_escape_string out_size (n + 2) cs
            else if c = CHR 0x0D \<or> c = CHR 0x09 then CHR '' '' # json_escape_string out_size (n + 1) cs
            else c # json_escape_string out_size (n + 1) cs)
      else [])"

definition confirm_text :: "int \<Rightarrow> string" where
  "confirm_text delay = c_trunc 256
     ([CHR 0xE5, CHR 0xB7, CHR 0xB2, CHR 0xE8, CHR 0xAE, CHR 0xBE, CHR 0xE7, CHR 0xBD, CHR 0xAE] @ word_tixing @
      [CHR 0xEF, CHR 0xBC, CHR 0x8C] @ show_int delay @ '' '' @ word_miao @ word_hou @ word_tixing @
      [CHR 0xE4, CHR 0xBD, CHR 0xA0] @ full_stop)"

definition quoted :: "string \<Rightarrow> string" where
  "quoted s = [CHR 0x22] @ s @ [CHR 0x22]"

definition reminder_args :: "ReminderParseResult \<Rightarrow> string \<Rightarrow> string \<Rightarrow> string" where
  "reminder_args parsed channel chat_id =
     (let name = (if rp_name parsed \<noteq> '''' then rp_name parsed else ''reminder'')
      in c_trunc 1400
           (''{'' @ quoted ''name'' @ '':'' @ quoted (json_escape_string 256 0 name) @ '','' @
            quoted ''payload'' @ '':'' @ quoted (json_escape_string 768 0 (rp_payload parsed)) @ '','' @
            quoted ''schedule'' @ '':'' @ quoted (''@in '' @ show_int (rp_delay_seconds parsed)) @ '','' @
            quoted ''channel'' @ '':'' @ quoted (json_escape_string 192 0 channel) @ '','' @
            quoted ''chat_id'' @ '':'' @ quoted (json_escape_string 768 0 chat_id) @ ''}''))"

text \<open>The new reply when a job was scheduled; the effect on the cron service is that of the tool.\<close>

definition maybe_schedule_reminder_fallback :: "AgentLoop \<Rightarrow> string \<Rightarrow> string \<Rightarrow> string \<Rightarrow> string option" where
  "maybe_schedule_reminder_fallback loop user_content channel chat_id =
     (case reminder_parse_simple (Some user_content) of
        None \<Rightarrow> None
      | Some parsed \<Rightarrow>
          (case tool_registry_get (al_registry loop) ''cron'' of
             None \<Rightarrow> None
           | Some cron_tool \<Rightarrow>
               if t_user_data cron_tool = None then None
               else (let (err, result) = t_execute cron_tool (t_user_data cron_tool) (reminder_args parsed channel chat_id)
                     in if err_code err \<noteq> ERR_NONE \<or> strstr result ''Failed to schedule'' \<noteq> None then None
                        else Some (confirm_text (rp_delay_seconds parsed)))))"

section \<open>Tasks\<close>

definition make_task :: "string \<Rightarrow> string \<Rightarrow> InboundMessage \<Rightarrow> nat \<Rightarrow> ActiveTask" where
  "make_task task_id session_key msg session_msg_count_before =
     \<lparr>at_id = c_trunc 32 task_id, at_session_key = c_trunc SESSION_KEY_MAX session_key,
      at_ctx = \<lparr>ctx_state = SESSION_STATE_IDLE, ctx_turn = 0, ctx_channel = c_trunc 64 (in_channel msg),
                ctx_chat_id = c_trunc 512 (in_chat_id msg), ctx_latest_user_content = c_trunc 1024 (in_content msg),
                ctx_no_session_record = in_no_session_record msg,
                ctx_session_msg_count_before = session_msg_count_before\<rparr>,
      at_cancelled = False, at_pending_tool_count = 0\<rparr>"

definition add_active_task :: "loop_env \<Rightarrow> string \<Rightarrow> string \<Rightarrow> InboundMessage \<Rightarrow> nat \<Rightarrow> AgentLoop \<Rightarrow> AgentLoop" where
  "add_active_task env task_id session_key msg session_msg_count_before loop =
     loop\<lparr>al_orch := session_orchestrator_add_task (le_alloc env) (al_orch loop)
            (make_task task_id session_key msg session_msg_count_before)\<rparr>"

definition remove_active_task :: "loop_env \<Rightarrow> string \<Rightarrow> AgentLoop \<Rightarrow> AgentLoop" where
  "remove_active_task env task_id loop =
     (let sessions = (case find (\<lambda>t. at_id t = task_id) (so_active_tasks (al_orch loop)) of
                        Some t \<Rightarrow> if ctx_no_session_record (at_ctx t) \<and> at_session_key t \<noteq> ''''
                                  then update_session (al_sessions loop) (at_session_key t)
                                    (\<lambda>s. session_rollback_messages (le_now env) s (ctx_session_msg_count_before (at_ctx t)))
                                  else al_sessions loop
                      | None \<Rightarrow> al_sessions loop)
      in loop\<lparr>al_sessions := sessions, al_orch := session_orchestrator_remove_task (al_orch loop) task_id\<rparr>)"

section \<open>Requests\<close>

definition handle_llm_callback :: "string \<Rightarrow> Error \<Rightarrow> string option \<Rightarrow> ToolCall list \<Rightarrow> AgentLoop \<Rightarrow> AgentLoop" where
  "handle_llm_callback session_key err response tool_calls loop =
     loop\<lparr>al_events := al_events loop @ [EVENT_LLM_RESULT session_key err (str_or_empty response) tool_calls]\<rparr>"

definition trigger_llm_async :: "loop_env \<Rightarrow> string \<Rightarrow> AgentLoop \<Rightarrow> AgentLoop" where
  "trigger_llm_async env session_key loop =
     (if \<not> le_alloc env then loop
      else if al_has_provider loop
      then loop\<lparr>al_llm_requests := al_llm_requests loop @ [c_trunc SESSION_KEY_MAX session_key]\<rparr>
      else handle_llm_callback (c_trunc SESSION_KEY_MAX session_key)
             (error_new ERR_INVALID_PARAM (Some ''No LLM provider configured'')) None [] loop)"

definition tool_executor_callback :: "string \<Rightarrow> ToolCall \<Rightarrow> Error \<Rightarrow> string option \<Rightarrow> AgentLoop \<Rightarrow> AgentLoop" where
  "tool_executor_callback session_key tc err result loop =
     loop\<lparr>al_events := al_events loop @
       [EVENT_TOOL_RESULT session_key (tc_id tc) (tc_name tc) (str_or_empty result) err]\<rparr>"

text \<open>The context that is submitted with a call keeps 127 bytes of its id and of its name.\<close>

definition submit_tool_call :: "loop_env \<Rightarrow> string \<Rightarrow> ToolCall \<Rightarrow> AgentLoop \<Rightarrow> AgentLoop" where
  "submit_tool_call env session_key tc loop =
     (if \<not> le_alloc env
      then loop\<lparr>al_events := al_events loop @
             [EVENT_TOOL_RESULT session_key (tc_id tc) (tc_name tc) ''Internal error: out of memory''
                (error_new ERR_MEMORY (Some ''Failed to allocate tool context''))]\<rparr>
      else loop\<lparr>al_tool_requests := al_tool_requests loop @
             [(c_trunc SESSION_KEY_MAX session_key, tc\<lparr>tc_id := c_trunc 128 (tc_id tc), tc_name := c_trunc 128 (tc_name tc)\<rparr>)]\<rparr>)"

section \<open>Event handlers\<close>

text \<open>The reply: the confirmation of a scheduled reminder, or the cleaned or else the raw response.\<close>

definition assistant_reply :: "AgentLoop \<Rightarrow> string \<Rightarrow> TaskSnapshot \<Rightarrow> string option \<Rightarrow> string" where
  "assistant_reply loop response snap clean_content =
     (let fallback = (if reminder_should_fallback_schedule (sn_turn snap) (sn_pending_tool_count snap)
                      then maybe_schedule_reminder_fallback loop (sn_latest_user_content snap) (sn_channel snap) (sn_chat_id snap)
                      else None)
      in (case fallback of
            Some f \<Rightarrow> f
          | None \<Rightarrow> (case clean_content of Some c \<Rightarrow> if c \<noteq> '''' then c else response | None \<Rightarrow> response)))"

definition handle_llm_text_response ::
  "loop_env \<Rightarrow> string \<Rightarrow> string \<Rightarrow> TaskSnapshot \<Rightarrow> string option \<Rightarrow> AgentLoop \<Rightarrow> AgentLoop" where
  "handle_llm_text_response env session_key response snap clean_content loop =
     (let assistant_content = assistant_reply loop response snap clean_content;
          loop = (if assistant_content \<noteq> ''''
                  then record_message env session_key (sn_no_session_record snap)
                         (text_message ROLE_ASSISTANT assistant_content) loop
                  else loop);
          loop = send_outbound (sn_channel snap) (sn_chat_id snap) assistant_content loop
      in remove_active_task env (sn_task_id snap) loop)"

definition skill_load_args :: "string \<Rightarrow> string" where
  "skill_load_args name =
     c_trunc 256 (''{'' @ quoted ''action'' @ '':'' @ quoted ''load'' @ '','' @ quoted ''name'' @ '':'' @
       quoted (c_trunc 128 name) @ ''}'')"

definition rewrite_unresolved :: "ToolRegistry \<Rightarrow> ToolCall \<Rightarrow> ToolCall" where
  "rewrite_unresolved reg tc =
     (if tool_registry_get reg (tc_name tc) = None \<and> tc_name tc \<noteq> ''skill''
      then tc\<lparr>tc_name := ''skill'', tc_arguments := skill_load_args (tc_name tc)\<rparr>
      else tc)"

definition send_progress :: "TaskSnapshot \<Rightarrow> string option \<Rightarrow> AgentLoop \<Rightarrow> AgentLoop" where
  "send_progress snap clean_content loop =
     (case clean_content of
        Some c \<Rightarrow> if c \<noteq> '''' then send_outbound (sn_channel snap) (sn_chat_id snap) c loop else loop
      | None \<Rightarrow> loop)"

text \<open>
  The routes that \<open>refresh_tool_routes\<close> writes into the contexts of the tools are left out: the contexts are not part of this state.
\<close>

definition handle_llm_tool_calls ::
  "loop_env \<Rightarrow> string \<Rightarrow> string \<Rightarrow> ToolCall list \<Rightarrow> TaskSnapshot \<Rightarrow> string option \<Rightarrow> AgentLoop \<Rightarrow> AgentLoop" where
  "handle_llm_tool_calls env session_key response tool_calls snap clean_content loop =
     (let tool_calls = map (rewrite_unresolved (al_registry loop)) tool_calls;
          loop = send_progress snap clean_content loop;
          assistant_msg = (text_message ROLE_ASSISTANT (case clean_content of Some c \<Rightarrow> c | None \<Rightarrow> response))
                            \<lparr>m_tool_calls := tool_calls\<rparr>;
          loop = record_message env session_key (sn_no_session_record snap) assistant_msg loop;
          orch = session_orchestrator_update_task_state (al_orch loop) session_key SESSION_STATE_WAITING_TOOL;
          orch = session_orchestrator_update_task_pending_tools orch session_key (int (length tool_calls))
      in fold (submit_tool_call env session_key) tool_calls (loop\<lparr>al_orch := orch\<rparr>))"

definition handle_event_llm_result ::
  "loop_env \<Rightarrow> string \<Rightarrow> Error \<Rightarrow> string \<Rightarrow> ToolCall list \<Rightarrow> AgentLoop \<Rightarrow> AgentLoop" where
  "handle_event_llm_result env session_key err response tool_calls loop =
     (let snap = session_orchestrator_snapshot_task (al_orch loop) session_key
      in if \<not> sn_valid snap then loop
         else if sn_cancelled snap then remove_active_task env (sn_task_id snap) loop
         else case session_manager_get (al_sessions loop) session_key of
                None \<Rightarrow> remove_active_task env (sn_task_id snap) loop
              | Some session \<Rightarrow>
                  if err_code err \<noteq> ERR_NONE
                  then (let full_msg = error_text (err_message err);
                            loop = record_message env session_key (sn_no_session_record snap)
                                     (text_message ROLE_ASSISTANT full_msg) loop;
                            loop = send_outbound (sn_channel snap) (sn_chat_id snap) full_msg loop
                        in remove_active_task env (sn_task_id snap) loop)
                  else (let clean_content = strip_think_tags True (Some response)
                        in if tool_calls = []
                           then handle_llm_text_response env session_key response snap clean_content loop
                           else handle_llm_tool_calls env session_key response tool_calls snap clean_content loop))"

definition max_turns :: "AgentLoop \<Rightarrow> int" where
  "max_turns loop = (case al_config loop of
     Some c \<Rightarrow> if cf_max_tool_iterations c > 0 then cf_max_tool_iterations c else 15 | None \<Rightarrow> 15)"

definition max_iterations_text :: string where
  "max_iterations_text = ''I reached the maximum number of tool call iterations without completing the task.''"

definition handle_event_tool_result ::
  "loop_env \<Rightarrow> string \<Rightarrow> string \<Rightarrow> string \<Rightarrow> string \<Rightarrow> Error \<Rightarrow> AgentLoop \<Rightarrow> AgentLoop" where
  "handle_event_tool_result env session_key call_id name result err loop =
     (let snap = session_orchestrator_snapshot_task (al_orch loop) session_key
      in if \<not> sn_valid snap then loop
         else if sn_cancelled snap
         then (let (remaining, orch) = session_orchestrator_decrement_task_pending_tools (al_orch loop) session_key;
                   loop = loop\<lparr>al_orch := orch\<rparr>
               in if remaining \<le> 0 then remove_active_task env (sn_task_id snap) loop else loop)
         else case session_manager_get (al_sessions loop) session_key of
                None \<Rightarrow> remove_active_task env (sn_task_id snap) loop
              | Some session \<Rightarrow>
                  (let content = (if err_code err \<noteq> ERR_NONE then err_message err else result);
                       tool_msg = (text_message ROLE_TOOL content)\<lparr>m_tool_call_id := call_id, m_name := name\<rparr>;
                       loop = record_message env session_key (sn_no_session_record snap) tool_msg loop;
                       (remaining, orch) = session_orchestrator_decrement_task_pending_tools (al_orch loop) session_key;
                       loop = loop\<lparr>al_orch := orch\<rparr>
                   in if remaining > 0 then loop
                      else if sn_turn snap \<ge> max_turns loop
                      then remove_active_task env (sn_task_id snap)
                             (send_error_response (sn_channel snap) (sn_chat_id snap)
                                max_iterations_text loop)
                      else (let orch = session_orchestrator_increment_task_turn (al_orch loop) session_key;
                                orch = session_orchestrator_update_task_state orch session_key SESSION_STATE_WAITING_LLM
                            in trigger_llm_async env session_key (loop\<lparr>al_orch := orch\<rparr>))))"

section \<open>Inbound messages\<close>

definition session_key_of :: "InboundMessage \<Rightarrow> string" where
  "session_key_of inbound = c_trunc 256 (in_channel inbound @ '':'' @ in_chat_id inbound)"

definition process_message_async :: "loop_env \<Rightarrow> InboundMessage \<Rightarrow> AgentLoop \<Rightarrow> AgentLoop" where
  "process_message_async env inbound loop =
     (let key = session_key_of inbound;
          orch = session_orchestrator_set_current_session_key (al_orch loop) key;
          orch = session_orchestrator_update_task_state orch key SESSION_STATE_WAITING_LLM;
          orch = session_orchestrator_increment_task_turn orch key
      in trigger_llm_async env key (loop\<lparr>al_orch := orch\<rparr>))"

definition busy_text :: string where
  "busy_text = ''Session is busy processing the previous request. Please wait for it to finish.''"

definition no_dispatcher_text :: string where
  "no_dispatcher_text = ''Command dispatcher not initialized. Type /help for available commands.''"

definition unavailable_text :: string where
  "unavailable_text = ''Session unavailable.''"

text \<open>The text that is recorded for a message and the id of its task.\<close>

definition message_text :: "loop_env \<Rightarrow> InboundMessage \<Rightarrow> string" where
  "message_text env inbound =
     (if in_sender_name inbound \<noteq> '''' \<and> le_alloc env
      then ''['' @ in_sender_name inbound @ '']: '' @ in_content inbound else in_content inbound)"

definition new_task_id :: "loop_env \<Rightarrow> string" where
  "new_task_id env = c_trunc 64 (''task_'' @ show_int (le_monotonic_sec env) @ ''_'' @ show_int (int (le_rand env mod 1000000)))"

text \<open>The dispatcher gets the message, the session key and the trimmed content.\<close>

type_synonym dispatcher = "InboundMessage \<Rightarrow> string \<Rightarrow> string \<Rightarrow> AgentLoop \<Rightarrow> AgentLoop"

definition open_session :: "loop_env \<Rightarrow> string \<Rightarrow> AgentLoop \<Rightarrow> AgentLoop" where
  "open_session env key loop =
     (case session_manager_get (al_sessions loop) key of
        Some s \<Rightarrow> loop
      | None \<Rightarrow> loop\<lparr>al_sessions := snd (snd (session_manager_load (le_parse env) (le_alloc env) (le_now env)
                                         (al_fs loop) (al_sessions loop) key))\<rparr>)"

definition process_inbound_message :: "loop_env \<Rightarrow> dispatcher option \<Rightarrow> InboundMessage \<Rightarrow> AgentLoop \<Rightarrow> AgentLoop" where
  "process_inbound_message env dispatch inbound loop =
     (if in_content inbound = '''' then loop
      else
        (let key = session_key_of inbound;
             loop = open_session env key loop
         in case session_manager_get (al_sessions loop) key of
              None \<Rightarrow> send_outbound (in_channel inbound) (in_chat_id inbound) unavailable_text loop
            | Some session \<Rightarrow>
                if starts_with ''/'' (skip_space (in_content inbound))
                then (case dispatch of
                        Some d \<Rightarrow> d inbound key (skip_space (in_content inbound)) loop
                      | None \<Rightarrow> send_outbound (in_channel inbound) (in_chat_id inbound)
                                 no_dispatcher_text loop)
                else
                  (let existing = session_orchestrator_snapshot_task (al_orch loop) key
                   in if sn_valid existing \<and> sn_state existing \<noteq> SESSION_STATE_IDLE
                      then send_outbound (in_channel inbound) (in_chat_id inbound)
                             busy_text loop
                      else
                        (let msg_content = message_text env inbound;
                             before = length (se_messages session);
                             loop = add_to_session env key (text_message ROLE_USER msg_content) loop;
                             loop = maybe_auto_consolidate_memory env key msg_content loop;
                             loop = add_active_task env (new_task_id env) key inbound before loop
                         in process_message_async env inbound loop))))"

definition enqueue_inbound_task :: "bool \<Rightarrow> InboundMessage \<Rightarrow> AgentLoop \<Rightarrow> AgentLoop" where
  "enqueue_inbound_task ok inbound loop = (if ok then loop\<lparr>al_inbox := al_inbox loop @ [inbound]\<rparr> else loop)"

definition dequeue_inbound_task :: "AgentLoop \<Rightarrow> InboundMessage option \<times> AgentLoop" where
  "dequeue_inbound_task loop =
     (case al_inbox loop of
        [] \<Rightarrow> (None, loop)
      | m # ms \<Rightarrow> (Some m, loop\<lparr>al_inbox := ms\<rparr>))"

section \<open>The worker and the receiving loop\<close>

definition handle_event :: "loop_env \<Rightarrow> InternalEvent \<Rightarrow> AgentLoop \<Rightarrow> AgentLoop" where
  "handle_event env event loop =
     (case event of
        EVENT_LLM_RESULT key err response calls \<Rightarrow> handle_event_llm_result env key err response calls loop
      | EVENT_TOOL_RESULT key call_id name result err \<Rightarrow> handle_event_tool_result env key call_id name result err loop)"

text \<open>One iteration of \<open>agent_loop_processing_worker\<close>; \<open>None\<close> when the loop ends.\<close>

definition worker_iteration :: "loop_env \<Rightarrow> dispatcher option \<Rightarrow> AgentLoop \<Rightarrow> AgentLoop option" where
  "worker_iteration env dispatch loop =
     (case al_events loop of
        event # events \<Rightarrow> Some (handle_event env event (loop\<lparr>al_events := events\<rparr>))
      | [] \<Rightarrow>
          (case dequeue_inbound_task loop of
             (None, loop) \<Rightarrow> if al_running loop then Some loop else None
           | (Some inbound, loop) \<Rightarrow> Some (process_inbound_message env dispatch inbound loop)))"

text \<open>What the receiving loop of \<open>agent_loop_run\<close> does with a message from the bus.\<close>

definition agent_loop_receive :: "bool \<Rightarrow> InboundMessage \<Rightarrow> AgentLoop \<Rightarrow> AgentLoop" where
  "agent_loop_receive ok inbound loop =
     (if in_channel inbound = ''system'' \<and> in_content inbound = ''exit'' then loop\<lparr>al_running := False\<rparr>
      else if \<not> al_running loop then loop
      else enqueue_inbound_task ok inbound loop)"

definition agent_loop_request_stop :: "AgentLoop \<Rightarrow> AgentLoop" where
  "agent_loop_request_stop loop = loop\<lparr>al_running := False\<rparr>"

end
