(* ===== verification/Commands.thy ===== *)
theory Commands
  imports AgentLoop
begin

text \<open>
  \<open>src/agent/command_dispatcher.c\<close>: slash commands. A message that starts with a slash is a registered command, the name of a
  tool, the name of a skill, or unknown, in this order. The command table is that of
  \<open>src/plugin/plugin_manager.c\<close>; the handler of a command takes the context, the arguments and the loop. The
  content of a skill file is given by \<open>skill\<close>. The reload of plugins (\<open>dlopen\<close>) and the handlers of plugins are parameters.
\<close>

record CommandContext =
  cc_channel :: string
  cc_chat_id :: string
  cc_session_key :: string

type_synonym CommandFunc = "CommandContext \<Rightarrow> string list \<Rightarrow> AgentLoop \<Rightarrow> int \<times> AgentLoop"

record CommandPluginDef =
  cmd_name :: string
  cmd_description :: string
  cmd_handler :: CommandFunc

record CommandTable =
  ct_commands :: "CommandPluginDef list"
  ct_capacity :: nat

definition plugin_register_command :: "(nat \<Rightarrow> bool) \<Rightarrow> CommandTable \<Rightarrow> string \<Rightarrow> string \<Rightarrow> CommandFunc \<Rightarrow> int \<times> CommandTable" where
  "plugin_register_command realloc_ok table name desc handler =
     (let def = \<lparr>cmd_name = name, cmd_description = desc, cmd_handler = handler\<rparr>
      in if length (ct_commands table) \<ge> ct_capacity table
         then (let new_cap = (if ct_capacity table \<noteq> 0 then ct_capacity table * 2 else 16)
               in if \<not> realloc_ok new_cap then (-1, table)
                  else (0, table\<lparr>ct_capacity := new_cap, ct_commands := ct_commands table @ [def]\<rparr>))
         else (0, table\<lparr>ct_commands := ct_commands table @ [def]\<rparr>))"

section \<open>What a command may do\<close>

definition command_context_new :: "bool \<Rightarrow> string \<Rightarrow> string \<Rightarrow> string \<Rightarrow> CommandContext option" where
  "command_context_new ok channel chat_id session_key =
     (if ok then Some \<lparr>cc_channel = channel, cc_chat_id = chat_id, cc_session_key = session_key\<rparr> else None)"

definition command_ctx_send_response :: "CommandContext \<Rightarrow> string \<Rightarrow> AgentLoop \<Rightarrow> AgentLoop" where
  "command_ctx_send_response ctx message loop = send_outbound (cc_channel ctx) (cc_chat_id ctx) message loop"

definition command_ctx_stop_active_tasks :: "CommandContext \<Rightarrow> AgentLoop \<Rightarrow> int \<times> AgentLoop" where
  "command_ctx_stop_active_tasks ctx loop =
     (if cc_session_key ctx \<noteq> ''''
      then (case session_orchestrator_cancel_tasks_by_session (al_orch loop) (cc_session_key ctx) of
              (n, orch) \<Rightarrow> (int n, loop\<lparr>al_orch := orch\<rparr>))
      else (0, loop\<lparr>al_orch := session_orchestrator_cancel_all_tasks (al_orch loop)\<rparr>))"

text \<open>The function that is to reset the session only writes a log line.\<close>

definition command_ctx_reset_session :: "CommandContext \<Rightarrow> AgentLoop \<Rightarrow> int \<times> AgentLoop" where
  "command_ctx_reset_session ctx loop = (0, loop)"

text \<open>
  A handler that keeps to its context: whatever it computes, it acts on the loop by the functions of the context only. The tool registry and the plugin
  manager, which the context hands out as well, may get other tools.
\<close>

datatype ContextCall = SendResponse string | StopActiveTasks | ResetSession | ReplaceTools ToolRegistry

fun context_run :: "CommandContext \<Rightarrow> ContextCall \<Rightarrow> AgentLoop \<Rightarrow> AgentLoop" where
  "context_run ctx (SendResponse t) loop = command_ctx_send_response ctx t loop"
| "context_run ctx StopActiveTasks loop = snd (command_ctx_stop_active_tasks ctx loop)"
| "context_run ctx ResetSession loop = snd (command_ctx_reset_session ctx loop)"
| "context_run ctx (ReplaceTools tools) loop = loop\<lparr>al_registry := tools\<rparr>"

definition context_handler :: "CommandFunc \<Rightarrow> bool" where
  "context_handler h \<longleftrightarrow> (\<forall>ctx argv loop. \<exists>calls. snd (h ctx argv loop) = fold (context_run ctx) calls loop)"

section \<open>Built-in commands\<close>

definition nl :: string where
  "nl = [CHR 0x0A]"

fun help_lines :: "(string \<times> string) list \<Rightarrow> string" where
  "help_lines [] = []"
| "help_lines [(n, d)] = ''/'' @ n @ '' - '' @ d"
| "help_lines ((n, d) # cs) = ''/'' @ n @ '' - '' @ d @ ''  '' @ nl @ help_lines cs"

definition help_text :: "(string \<times> string) list \<Rightarrow> string" where
  "help_text commands = nl @ ''      Primagen(Primitive Genesis) - AI Agent Framework  '' @ nl
     @ ''===================================================================  '' @ nl @ ''Primagen commands:  '' @ nl
     @ (if commands \<noteq> [] then help_lines commands else ''No commands registered.'')"

definition cmd_help :: "(string \<times> string) list \<Rightarrow> CommandFunc" where
  "cmd_help commands ctx argv loop = (0, command_ctx_send_response ctx (help_text commands) loop)"

definition stop_response :: "int \<Rightarrow> string" where
  "stop_response cancelled =
     c_trunc 256 (if cancelled > 0 then ''Stopped '' @ show_int cancelled @ '' task(s).'' else ''No active task to stop.'')"

definition cmd_stop :: CommandFunc where
  "cmd_stop ctx argv loop =
     (case command_ctx_stop_active_tasks ctx loop of
        (cancelled, loop) \<Rightarrow> (cancelled, command_ctx_send_response ctx (stop_response cancelled) loop))"

definition cmd_restart :: CommandFunc where
  "cmd_restart ctx argv loop = (0, command_ctx_send_response ctx ''Restarting...'' loop)"

definition cmd_new :: CommandFunc where
  "cmd_new ctx argv loop =
     (case command_ctx_reset_session ctx loop of
        (r, loop) \<Rightarrow> if r \<noteq> 0 then (-1, loop) else (0, command_ctx_send_response ctx ''New session started.'' loop))"

definition is_mcp :: "Tool \<Rightarrow> bool" where
  "is_mcp t = (starts_with ''primagen_'' (t_name t) \<or> starts_with ''mcp_'' (t_name t))"

definition tool_lines :: "(Tool \<Rightarrow> string) \<Rightarrow> string \<Rightarrow> Tool list \<Rightarrow> string" where
  "tool_lines line heading tools =
     (if tools \<noteq> [] then nl @ heading @ nl @ concat (map (\<lambda>t. ''- '' @ line t @ nl) tools) else [])"

definition plugin_tool_line :: "(nat \<Rightarrow> string option) \<Rightarrow> Tool \<Rightarrow> string" where
  "plugin_tool_line plugin_name t =
     t_name t @ (case Option.bind (t_plugin_ref t) plugin_name of Some p \<Rightarrow> '' ('' @ p @ '')'' | None \<Rightarrow> [])"

definition tools_text :: "(nat \<Rightarrow> string option) \<Rightarrow> Tool list \<Rightarrow> string" where
  "tools_text plugin_name tools =
     (let mcp = filter is_mcp tools;
          plugin = filter (\<lambda>t. \<not> is_mcp t \<and> t_plugin_ref t \<noteq> None) tools;
          builtin = filter (\<lambda>t. \<not> is_mcp t \<and> t_plugin_ref t = None) tools
      in nl @ ''Available tools:'' @ nl
         @ c_trunc 128 (''Total: '' @ show_int (int (length tools)) @ '' (builtin: '' @ show_int (int (length builtin)) @ '', plugin: ''
             @ show_int (int (length plugin)) @ '', mcp: '' @ show_int (int (length mcp)) @ '')'' @ nl)
         @ tool_lines t_name ''[builtin]'' builtin @ tool_lines (plugin_tool_line plugin_name) ''[plugin]'' plugin
         @ tool_lines t_name ''[mcp]'' mcp)"

definition cmd_tools :: "(nat \<Rightarrow> string option) \<Rightarrow> CommandFunc" where
  "cmd_tools plugin_name ctx argv loop =
     (0, command_ctx_send_response ctx (tools_text plugin_name (tr_tools (al_registry loop))) loop)"

text \<open>The command table with which \<open>/help\<close> is called is the one that is registered.\<close>

definition builtin_commands :: "(string \<times> string) list \<Rightarrow> (nat \<Rightarrow> string option) \<Rightarrow> CommandFunc \<Rightarrow> CommandPluginDef list" where
  "builtin_commands commands plugin_name cmd_reload_plugins =
     [\<lparr>cmd_name = ''stop'', cmd_description = ''Stop active tasks'', cmd_handler = cmd_stop\<rparr>,
      \<lparr>cmd_name = ''restart'', cmd_description = ''Restart the bot'', cmd_handler = cmd_restart\<rparr>,
      \<lparr>cmd_name = ''new'', cmd_description = ''Start a new conversation'', cmd_handler = cmd_new\<rparr>,
      \<lparr>cmd_name = ''help'', cmd_description = ''Show available commands'', cmd_handler = cmd_help commands\<rparr>,
      \<lparr>cmd_name = ''tools'', cmd_description = ''Show available tools (builtin/plugin/mcp)'', cmd_handler = cmd_tools plugin_name\<rparr>,
      \<lparr>cmd_name = ''reload-plugins'', cmd_description = ''Reload all plugins from the plugins directory'', cmd_handler = cmd_reload_plugins\<rparr>]"

definition command_dispatcher_register_builtin_commands ::
  "(nat \<Rightarrow> bool) \<Rightarrow> CommandPluginDef list \<Rightarrow> CommandTable \<Rightarrow> CommandTable" where
  "command_dispatcher_register_builtin_commands realloc_ok defs table =
     fold (\<lambda>d table. snd (plugin_register_command realloc_ok table (cmd_name d) (cmd_description d) (cmd_handler d))) defs table"

section \<open>Dispatch\<close>

text \<open>The handlers return whether the command was theirs.\<close>

definition handle_plugin_command ::
  "loop_env \<Rightarrow> CommandPluginDef list \<Rightarrow> string \<Rightarrow> string \<Rightarrow> string \<Rightarrow> string \<Rightarrow> AgentLoop \<Rightarrow> bool \<times> AgentLoop" where
  "handle_plugin_command env commands channel chat_id session_key full_content loop =
     (case parse_slash_command full_content 64 of
        (name, args_start) \<Rightarrow>
          (case find (\<lambda>c. cmd_name c = name) commands of
             None \<Rightarrow> (False, loop)
           | Some c \<Rightarrow>
               (case command_context_new (le_alloc env) channel chat_id session_key of
                  None \<Rightarrow> (False, loop)
                | Some ctx \<Rightarrow>
                    (let argv = (case args_start of Some a \<Rightarrow> take 15 (strtok CHR '' '' a) | None \<Rightarrow> [])
                     in (True, snd (cmd_handler c ctx argv loop))))))"

definition handle_tool_fallback_command :: "loop_env \<Rightarrow> InboundMessage \<Rightarrow> string \<Rightarrow> AgentLoop \<Rightarrow> bool \<times> AgentLoop" where
  "handle_tool_fallback_command env inbound full_content loop =
     (case tool_router_handle_fallback_command (le_print env) (al_registry loop) inbound full_content of
        None \<Rightarrow> (False, loop)
      | Some out \<Rightarrow> (True, loop\<lparr>al_outbound := al_outbound loop @ [out]\<rparr>))"

definition skill_task_id :: "loop_env \<Rightarrow> string" where
  "skill_task_id env = c_trunc 32 (''task_'' @ show_int (le_now env) @ ''_'' @ show_int (int (le_rand env mod 10000)))"

text \<open>The number of messages is taken after the message was added, and there is no test whether the session is busy.\<close>

definition handle_skill_fallback_command ::
  "loop_env \<Rightarrow> (string \<Rightarrow> string option) \<Rightarrow> InboundMessage \<Rightarrow> string \<Rightarrow> string \<Rightarrow> AgentLoop \<Rightarrow> bool \<times> AgentLoop" where
  "handle_skill_fallback_command env skill inbound session_key full_content loop =
     (case skill (fst (parse_slash_command full_content 64)) of
        None \<Rightarrow> (False, loop)
      | Some content \<Rightarrow>
          if content = [] then (False, loop)
          else (let loop = add_to_session env session_key (text_message ROLE_USER full_content) loop;
                    count = (case session_manager_get (al_sessions loop) session_key of Some s \<Rightarrow> length (se_messages s) | None \<Rightarrow> 0);
                    key = session_key_of inbound;
                    loop = loop\<lparr>al_orch := session_orchestrator_set_current_session_key (al_orch loop) key\<rparr>;
                    loop = add_active_task env (skill_task_id env) key inbound count loop;
                    orch = session_orchestrator_update_task_state (al_orch loop) key SESSION_STATE_WAITING_LLM;
                    orch = session_orchestrator_increment_task_turn orch key
                in (True, trigger_llm_async env key (loop\<lparr>al_orch := orch\<rparr>))))"

definition unknown_text :: "string \<Rightarrow> string" where
  "unknown_text trimmed = c_trunc 256 (''Unknown command: '' @ trimmed @ ''. Type /help for available commands.'')"

definition command_dispatcher_handle_message ::
  "loop_env \<Rightarrow> CommandPluginDef list \<Rightarrow> (string \<Rightarrow> string option) \<Rightarrow> InboundMessage \<Rightarrow> string \<Rightarrow> string \<Rightarrow> AgentLoop \<Rightarrow> bool \<times> AgentLoop" where
  "command_dispatcher_handle_message env commands skill inbound session_key content loop =
     (let trimmed = skip_space content
      in if \<not> starts_with ''/'' trimmed then (False, loop)
         else (let (handled, loop) = handle_plugin_command env commands (in_channel inbound) (in_chat_id inbound) session_key trimmed loop
               in if handled then (True, loop)
                  else (let (handled, loop) = handle_tool_fallback_command env inbound trimmed loop
                        in if handled then (True, loop)
                           else (let (handled, loop) = handle_skill_fallback_command env skill inbound session_key trimmed loop
                                 in if handled then (True, loop)
                                    else (True, send_outbound (in_channel inbound) (in_chat_id inbound) (unknown_text trimmed) loop)))))"

text \<open>The dispatcher as the loop calls it.\<close>

definition command_dispatcher :: "loop_env \<Rightarrow> CommandPluginDef list \<Rightarrow> (string \<Rightarrow> string option) \<Rightarrow> dispatcher" where
  "command_dispatcher env commands skill inbound key content loop =
     snd (command_dispatcher_handle_message env commands skill inbound key content loop)"

section \<open>Which command runs\<close>

text \<open>
  Every message that starts with a slash is handled, by the first of these that applies: the registered command of that name (with
  at most 15 arguments), the tool of that name, the skill of that name, and otherwise a reply that the command is unknown.
\<close>

lemma slash_command_dispatch:
  assumes slash: "starts_with ''/'' (skip_space content)" and "le_alloc env"
    and p: "parse_slash_command (skip_space content) 64 = (name, args)"
  shows "command_dispatcher_handle_message env commands skill m key content s =
    (True, case find (\<lambda>c. cmd_name c = name) commands of
       Some c \<Rightarrow> snd (cmd_handler c \<lparr>cc_channel = in_channel m, cc_chat_id = in_chat_id m, cc_session_key = key\<rparr>
                   (case args of Some a \<Rightarrow> take 15 (strtok CHR '' '' a) | None \<Rightarrow> []) s)
     | None \<Rightarrow>
         (case tool_router_handle_fallback_command (le_print env) (al_registry s) m (skip_space content) of
            Some out \<Rightarrow> s\<lparr>al_outbound := al_outbound s @ [out]\<rparr>
          | None \<Rightarrow> if skill name \<noteq> None \<and> skill name \<noteq> Some []
                    then snd (handle_skill_fallback_command env skill m key (skip_space content) s)
                    else send_outbound (in_channel m) (in_chat_id m) (unknown_text (skip_space content)) s))"
  using assms by (auto simp: command_dispatcher_handle_message_def handle_plugin_command_def handle_tool_fallback_command_def
      handle_skill_fallback_command_def command_context_new_def Let_def split: option.splits)

text \<open>The built-in commands keep to their context.\<close>

lemma builtin_context:
  assumes "context_handler reload" "c \<in> set (builtin_commands cs pn reload)"
  shows "context_handler (cmd_handler c)"
proof -
  have one: "context_handler h" if "\<And>ctx argv s. \<exists>t. snd (h ctx argv s) = command_ctx_send_response ctx t s" for h
    unfolding context_handler_def
  proof (intro allI)
    fix ctx argv s
    obtain t where "snd (h ctx argv s) = command_ctx_send_response ctx t s" using \<open>\<And>ctx argv s. \<exists>t. snd (h ctx argv s) = command_ctx_send_response ctx t s\<close> by blast
    then show "\<exists>calls. snd (h ctx argv s) = fold (context_run ctx) calls s" by (intro exI [of _ "[SendResponse t]"]) simp
  qed
  have "context_handler cmd_stop"
    unfolding context_handler_def
  proof (intro allI)
    fix ctx argv s
    show "\<exists>calls. snd (cmd_stop ctx argv s) = fold (context_run ctx) calls s"
      by (intro exI [of _ "[StopActiveTasks, SendResponse (stop_response (fst (command_ctx_stop_active_tasks ctx s)))]"])
        (simp add: cmd_stop_def case_prod_beta)
  qed
  moreover have "context_handler cmd_restart" "context_handler cmd_new" "context_handler (cmd_help cs)" "context_handler (cmd_tools pn)"
    by (rule one; auto simp: cmd_restart_def cmd_new_def cmd_help_def cmd_tools_def command_ctx_reset_session_def)+
  ultimately show ?thesis using assms by (auto simp: builtin_commands_def)
qed

end
