(* ===== verification/AgentRun.thy ===== *)
theory AgentRun
  imports Commands
begin

text \<open>
  Runs of the agent loop: the worker and its environment as step relations, the invariant of the
  reachable states, and what follows from it. The environment answers the requests to the model and
  to the tools in any order and with any result; the worker handles events before messages. The runs are those
  in which memory is available, no new task gets the id of an active one, and no slash command starts a skill for a session that
  has a task already.
\<close>

section \<open>Steps\<close>

inductive internal_step :: "AgentLoop \<Rightarrow> AgentLoop \<Rightarrow> bool" where
  llm_answer: "al_llm_requests s = xs @ k # ys \<Longrightarrow>
    internal_step s (handle_llm_callback k err response calls (s\<lparr>al_llm_requests := xs @ ys\<rparr>))"
| tool_answer: "al_tool_requests s = xs @ (k, tc) # ys \<Longrightarrow>
    internal_step s (tool_executor_callback k tc err result (s\<lparr>al_tool_requests := xs @ ys\<rparr>))"
| handle: "al_events s = e # es \<Longrightarrow> le_alloc env \<Longrightarrow>
    internal_step s (handle_event env e (s\<lparr>al_events := es\<rparr>))"

definition plain_message :: "InboundMessage \<Rightarrow> bool" where
  "plain_message m \<longleftrightarrow> \<not> starts_with ''/'' (skip_space (in_content m))"

text \<open>The message is a slash command that runs a skill, being neither a command nor a tool.\<close>

definition skill_reached :: "loop_env \<Rightarrow> CommandPluginDef list \<Rightarrow> (string \<Rightarrow> string option) \<Rightarrow> InboundMessage \<Rightarrow> AgentLoop \<Rightarrow> bool" where
  "skill_reached env commands skill m s \<longleftrightarrow>
     (let content = skip_space (in_content m); name = fst (parse_slash_command content 64)
      in starts_with ''/'' content \<and> find (\<lambda>c. cmd_name c = name) commands = None \<and>
         tool_router_handle_fallback_command (le_print env) (al_registry s) m content = None \<and> skill name \<notin> {None, Some []})"

definition fresh_id :: "string \<Rightarrow> AgentLoop \<Rightarrow> bool" where
  "fresh_id i s \<longleftrightarrow> c_trunc 32 i \<notin> at_id ` set (so_active_tasks (al_orch s))"

inductive inbound_step :: "AgentLoop \<Rightarrow> AgentLoop \<Rightarrow> bool" where
  receive: "inbound_step s (agent_loop_receive ok m s)"
| process: "al_events s = [] \<Longrightarrow> al_inbox s = m # ms \<Longrightarrow> le_alloc env \<Longrightarrow> plain_message m \<Longrightarrow>
    fresh_id (new_task_id env) s \<Longrightarrow> inbound_step s (process_inbound_message env dispatch m (s\<lparr>al_inbox := ms\<rparr>))"
| command: "al_events s = [] \<Longrightarrow> al_inbox s = m # ms \<Longrightarrow> le_alloc env \<Longrightarrow> \<not> plain_message m \<Longrightarrow>
    (\<And>c. c \<in> set commands \<Longrightarrow> context_handler (cmd_handler c)) \<Longrightarrow>
    (skill_reached env commands skill m s \<Longrightarrow> find_task (al_orch s) (session_key_of m) = None \<and> fresh_id (skill_task_id env) s) \<Longrightarrow>
    inbound_step s (process_inbound_message env (Some (command_dispatcher env commands skill)) m (s\<lparr>al_inbox := ms\<rparr>))"

inductive_cases internal_stepE: "internal_step s s'"
inductive_cases inbound_stepE: "inbound_step s s'"

definition agent_step :: "AgentLoop \<Rightarrow> AgentLoop \<Rightarrow> bool" where
  "agent_step s s' \<longleftrightarrow> internal_step s s' \<or> inbound_step s s'"

definition initial :: "AgentLoop \<Rightarrow> bool" where
  "initial s \<longleftrightarrow> wf_manager (al_sessions s) \<and> so_active_tasks (al_orch s) = [] \<and> al_events s = []
     \<and> al_llm_requests s = [] \<and> al_tool_requests s = []"

inductive reachable :: "AgentLoop \<Rightarrow> bool" where
  start: "initial s \<Longrightarrow> reachable s"
| step: "reachable s \<Longrightarrow> agent_step s s' \<Longrightarrow> reachable s'"

section \<open>The invariant\<close>

fun llm_event :: "string \<Rightarrow> InternalEvent \<Rightarrow> bool" where
  "llm_event k (EVENT_LLM_RESULT k' err response calls) = (k' = k)"
| "llm_event k (EVENT_TOOL_RESULT k' i n r e) = False"

fun tool_event :: "string \<Rightarrow> InternalEvent \<Rightarrow> bool" where
  "tool_event k (EVENT_LLM_RESULT k' err response calls) = False"
| "tool_event k (EVENT_TOOL_RESULT k' i n r e) = (k' = k)"

definition llm_load :: "AgentLoop \<Rightarrow> string \<Rightarrow> nat" where
  "llm_load s k = length (filter (\<lambda>k'. k' = k) (al_llm_requests s)) + length (filter (llm_event k) (al_events s))"

definition tool_load :: "AgentLoop \<Rightarrow> string \<Rightarrow> nat" where
  "tool_load s k = length (filter (\<lambda>r. fst r = k) (al_tool_requests s)) + length (filter (tool_event k) (al_events s))"

definition task_ok :: "int \<Rightarrow> nat \<Rightarrow> nat \<Rightarrow> ActiveTask \<Rightarrow> bool" where
  "task_ok m llm tool t \<longleftrightarrow> length (at_id t) < 32 \<and> length (at_session_key t) < 256
     \<and> 1 \<le> ctx_turn (at_ctx t) \<and> ctx_turn (at_ctx t) \<le> m
     \<and> (ctx_state (at_ctx t) = SESSION_STATE_WAITING_LLM \<and> llm = 1 \<and> tool = 0
        \<or> ctx_state (at_ctx t) = SESSION_STATE_WAITING_TOOL \<and> llm = 0 \<and> 1 \<le> tool \<and> at_pending_tool_count t = int tool)"

definition local_ok :: "AgentLoop \<Rightarrow> string \<Rightarrow> bool" where
  "local_ok s k = (case find_task (al_orch s) k of
     None \<Rightarrow> llm_load s k = 0 \<and> tool_load s k = 0
   | Some t \<Rightarrow> session_manager_get (al_sessions s) k \<noteq> None \<and> task_ok (max_turns s) (llm_load s k) (tool_load s k) t)"

definition loop_inv :: "AgentLoop \<Rightarrow> bool" where
  [inv_defs]: "loop_inv s \<longleftrightarrow> wf_manager (al_sessions s)
     \<and> distinct (map at_id (so_active_tasks (al_orch s)))
     \<and> distinct (map at_session_key (so_active_tasks (al_orch s)))
     \<and> (\<forall>k. local_ok s k)"

lemma max_turns_pos: "1 \<le> max_turns s"
  by (auto simp: max_turns_def split: option.splits)

section \<open>Helpers that do not touch the core\<close>

text \<open>The fields on which the invariant depends, the session table apart.\<close>

definition core :: "AgentLoop \<Rightarrow> SessionOrchestrator \<times> InternalEvent list \<times> string list \<times> (string \<times> ToolCall) list \<times> loop_config option \<times> bool" where
  "core s = (al_orch s, al_events s, al_llm_requests s, al_tool_requests s, al_config s, al_has_provider s)"

definition keeps_sessions :: "SessionManager \<Rightarrow> SessionManager \<Rightarrow> bool" where
  "keeps_sessions a b \<longleftrightarrow> (wf_manager a \<longrightarrow> wf_manager b \<and> (\<forall>k. session_manager_get a k \<noteq> None \<longrightarrow> session_manager_get b k \<noteq> None))"

lemma keeps_sessions_refl [simp]: "keeps_sessions a a"
  by (simp add: keeps_sessions_def)

lemma keeps_sessions_trans: "keeps_sessions a b \<Longrightarrow> keeps_sessions b c \<Longrightarrow> keeps_sessions a c"
  by (auto simp: keeps_sessions_def)

lemma keeps_sessions_update:
  assumes "\<And>s. se_key (f s) = se_key s"
  shows "keeps_sessions m (update_session m k f)"
  unfolding keeps_sessions_def using sessions.get_upd [of m f k] sessions.inv_upd [of m f k] assms by auto

lemma session_op_keys [simp]:
  "se_key (session_add_message n s m) = se_key s" "se_key (session_rollback_messages n s c) = se_key s"
  by (simp_all add: session_add_message_def session_rollback_messages_def)

definition quiet :: "(AgentLoop \<Rightarrow> AgentLoop) \<Rightarrow> bool" where
  "quiet f \<longleftrightarrow> (\<forall>s. core (f s) = core s \<and> keeps_sessions (al_sessions s) (al_sessions (f s)))"

lemma quiet_comp: "quiet f \<Longrightarrow> quiet g \<Longrightarrow> quiet (\<lambda>s. f (g s))"
  unfolding quiet_def by (metis keeps_sessions_trans)

lemma quiet_id [simp]: "quiet (\<lambda>s. s)"
  by (simp add: quiet_def)

lemma quiet_send_outbound [simp]: "quiet (send_outbound c i t)"
  by (simp add: quiet_def send_outbound_def core_def)

lemma quiet_send_error [simp]: "quiet (send_error_response c i t)"
  by (simp add: quiet_def send_error_response_def send_outbound_def core_def)

lemma quiet_add_to_session [simp]: "quiet (add_to_session env k m)"
  by (simp add: quiet_def add_to_session_def core_def keeps_sessions_update)

lemma quiet_save_session [simp]: "quiet (save_session env k)"
  by (auto simp: quiet_def save_session_def core_def split: option.splits prod.splits intro!: keeps_sessions_update)

lemma quiet_record_message [simp]: "quiet (record_message env k b m)"
  using quiet_comp [OF quiet_save_session quiet_add_to_session] quiet_add_to_session
  by (simp add: quiet_def record_message_def Let_def)

lemma quiet_send_progress [simp]: "quiet (send_progress snap c)"
  using quiet_send_outbound by (auto simp: quiet_def send_progress_def split: option.splits)

lemma quiet_consolidate [simp]: "quiet (maybe_auto_consolidate_memory env k c)"
proof -
  have "core (maybe_auto_consolidate_memory env k c s) = core s
      \<and> keeps_sessions (al_sessions s) (al_sessions (maybe_auto_consolidate_memory env k c s))" for s
  proof (cases "session_manager_get (al_sessions s) k")
    case None
    then show ?thesis by (simp add: maybe_auto_consolidate_memory_def)
  next
    case (Some x)
    let ?s1 = "s\<lparr>al_sessions := update_session (al_sessions s) k
      (\<lambda>y. y\<lparr>se_last_consolidated := min (se_last_consolidated x) (length (se_messages x))\<rparr>)\<rparr>"
    let ?s2 = "?s1\<lparr>al_sessions := update_session (al_sessions ?s1) k
      (\<lambda>y. y\<lparr>se_last_consolidated := length (se_messages x), se_needs_full_save := True\<rparr>)\<rparr>"
    have k1: "keeps_sessions (al_sessions s) (al_sessions ?s1)" by (simp add: keeps_sessions_update)
    have k2: "keeps_sessions (al_sessions ?s1) (al_sessions ?s2)" by (simp add: keeps_sessions_update)
    have k3: "core (save_session env k ?s2) = core ?s2" "keeps_sessions (al_sessions ?s2) (al_sessions (save_session env k ?s2))"
      using quiet_save_session [of env k] unfolding quiet_def by blast+
    have c: "core ?s1 = core s" "core ?s2 = core s" by (simp_all add: core_def)
    have "maybe_auto_consolidate_memory env k c s \<in> {s, ?s1, save_session env k ?s2}"
      using Some by (simp add: maybe_auto_consolidate_memory_def Let_def)
    with k1 k2 k3 c show ?thesis
      using keeps_sessions_trans [OF k1 k2] keeps_sessions_trans [OF keeps_sessions_trans [OF k1 k2] k3(2)] by auto
  qed
  then show ?thesis by (simp add: quiet_def)
qed

lemma quiet_core: "quiet f \<Longrightarrow> core (f s) = core s"
  by (simp add: quiet_def)

lemma quiet_keeps: "quiet f \<Longrightarrow> keeps_sessions (al_sessions s) (al_sessions (f s))"
  by (simp add: quiet_def)

text \<open>A loaded session is a new one with messages added; the other sessions stay.\<close>

lemma load_line_key: "se_key (snd (load_line parse now l ms)) = se_key (snd ms)"
  by (cases ms) (auto simp: load_line_def load_metadata_def Let_def split: option.splits prod.splits)

lemma fold_load_key: "se_key (snd (fold (load_line parse now) ls ms)) = se_key (snd ms)"
  by (induction ls arbitrary: ms) (simp_all add: load_line_key)

lemma load_content_key: "se_key (load_content parse now c s) = se_key s"
  using fold_load_key [of parse now "fgets_lines c" "(False, s)"]
  by (auto simp: load_content_def Let_def split: prod.splits)

lemma keeps_create: "keeps_sessions m (snd (session_manager_create ok now m k))"
  by (auto simp: keeps_sessions_def session_manager_create_def Let_def session_get_put sessions.inv_put)

lemma keeps_load: "keeps_sessions m (snd (snd (session_manager_load parse ok now fs m k)))"
proof (cases "build_session_file_path (sm_workspace_path m) k FILE_PATH_MAX")
  case None
  then show ?thesis by (simp add: session_manager_load_def)
next
  case (Some p)
  have "keeps_sessions m m' \<Longrightarrow> keeps_sessions m (update_session m' k (load_content parse now c))" for m' c
    by (rule keeps_sessions_trans [OF _ keeps_sessions_update]) (simp_all add: load_content_key)
  with Some keeps_create [of m ok now k] show ?thesis
    by (cases "session_manager_create ok now m k") (auto simp: session_manager_load_def Let_def split: option.splits)
qed

lemma quiet_open_session [simp]: "quiet (open_session env k)"
  by (simp add: quiet_def open_session_def core_def keeps_load split: option.splits)

section \<open>Effects of the handlers\<close>

text \<open>\<open>changes s s' orch events llm tools\<close>: what a handler leaves in the fields of the core.\<close>

definition changes ::
  "AgentLoop \<Rightarrow> AgentLoop \<Rightarrow> SessionOrchestrator \<Rightarrow> InternalEvent list \<Rightarrow> string list \<Rightarrow> (string \<times> ToolCall) list \<Rightarrow> bool" where
  "changes s s' orch events llm tools \<longleftrightarrow>
     core s' = (orch, events, llm, tools, al_config s, al_has_provider s) \<and> keeps_sessions (al_sessions s) (al_sessions s')"

lemma changes_quiet: "quiet f \<Longrightarrow> changes s (f s) (al_orch s) (al_events s) (al_llm_requests s) (al_tool_requests s)"
  using quiet_core [of f s] quiet_keeps [of f s] by (simp add: changes_def core_def)

lemma changes_trans:
  assumes "changes s s1 o1 e1 l1 t1" and "changes s1 s2 o2 e2 l2 t2"
  shows "changes s s2 o2 e2 l2 t2"
  using assms keeps_sessions_trans by (auto simp: changes_def core_def)

lemma changes_fields:
  assumes "changes s s' orch events llm tools"
  shows "al_orch s' = orch" "al_events s' = events" "al_llm_requests s' = llm" "al_tool_requests s' = tools"
    "max_turns s' = max_turns s" "al_has_provider s' = al_has_provider s" "keeps_sessions (al_sessions s) (al_sessions s')"
  using assms by (auto simp: changes_def core_def max_turns_def)

lemma changes_remove:
  "changes s (remove_active_task env i s) (session_orchestrator_remove_task (al_orch s) i)
     (al_events s) (al_llm_requests s) (al_tool_requests s)"
  by (auto simp: changes_def core_def remove_active_task_def Let_def keeps_sessions_update split: option.splits)

lemma changes_quiet_remove:
  assumes "quiet f"
  shows "changes s (remove_active_task env i (f s)) (session_orchestrator_remove_task (al_orch s) i)
     (al_events s) (al_llm_requests s) (al_tool_requests s)"
  using changes_trans [OF changes_quiet [OF assms, of s] changes_remove [of "f s" env i]] changes_fields [OF changes_quiet [OF assms, of s]]
  by simp

definition tool_request :: "string \<Rightarrow> ToolCall \<Rightarrow> string \<times> ToolCall" where
  "tool_request k tc = (c_trunc SESSION_KEY_MAX k, tc\<lparr>tc_id := c_trunc 128 (tc_id tc), tc_name := c_trunc 128 (tc_name tc)\<rparr>)"

lemma fold_submit:
  assumes "le_alloc env"
  shows "fold (submit_tool_call env k) tcs s = s\<lparr>al_tool_requests := al_tool_requests s @ map (tool_request k) tcs\<rparr>"
  using assms by (induction tcs arbitrary: s) (simp_all add: submit_tool_call_def tool_request_def)

lemma snapshot_of_task:
  "find_task orch k = Some t \<Longrightarrow> session_orchestrator_snapshot_task orch k = fill_snapshot t"
  by (simp add: snapshot_find)

lemma fill_snapshot_simps [simp]:
  "sn_valid (fill_snapshot t)" "\<not> sn_cancelled (fill_snapshot t)" "sn_turn (fill_snapshot t) = ctx_turn (at_ctx t)"
  "sn_state (fill_snapshot t) = ctx_state (at_ctx t)"
  "length (at_id t) < 32 \<Longrightarrow> sn_task_id (fill_snapshot t) = at_id t"
  "sn_no_session_record (fill_snapshot t) = ctx_no_session_record (at_ctx t)"
  by (simp_all add: fill_snapshot_def empty_snapshot_def)

lemma text_response_effect:
  "changes s (handle_llm_text_response env k r snap c s) (session_orchestrator_remove_task (al_orch s) (sn_task_id snap))
     (al_events s) (al_llm_requests s) (al_tool_requests s)"
proof -
  let ?a = "assistant_reply s r snap c"
  let ?rec = "if ?a \<noteq> [] then record_message env k (sn_no_session_record snap) (text_message ROLE_ASSISTANT ?a) else (\<lambda>s. s)"
  have "quiet (\<lambda>s. send_outbound (sn_channel snap) (sn_chat_id snap) ?a (?rec s))"
    by (rule quiet_comp) auto
  from changes_quiet_remove [OF this, of s env "sn_task_id snap"] show ?thesis
    by (simp add: handle_llm_text_response_def Let_def split: if_splits)
qed

lemma llm_result_ends:
  assumes t: "find_task (al_orch s) k = Some t" "length (at_id t) < 32" and x: "session_manager_get (al_sessions s) k = Some x"
    and "err_code err \<noteq> ERR_NONE \<or> calls = []"
  shows "changes s (handle_event_llm_result env k err r calls s) (session_orchestrator_remove_task (al_orch s) (at_id t))
     (al_events s) (al_llm_requests s) (al_tool_requests s)"
proof (cases "err_code err = ERR_NONE")
  case True
  with assms have "handle_event_llm_result env k err r calls s =
      handle_llm_text_response env k r (fill_snapshot t) (strip_think_tags True (Some r)) s"
    by (simp add: handle_event_llm_result_def snapshot_of_task)
  with text_response_effect [of s env k r "fill_snapshot t" "strip_think_tags True (Some r)"] t(2) show ?thesis by simp
next
  case False
  let ?m = "error_text (err_message err)"
  let ?f = "\<lambda>s. send_outbound (sn_channel (fill_snapshot t)) (sn_chat_id (fill_snapshot t)) ?m
    (record_message env k (ctx_no_session_record (at_ctx t)) (text_message ROLE_ASSISTANT ?m) s)"
  have "quiet ?f" by (rule quiet_comp) auto
  moreover have "handle_event_llm_result env k err r calls s = remove_active_task env (at_id t) (?f s)"
    using False t x by (simp add: handle_event_llm_result_def snapshot_of_task Let_def)
  ultimately show ?thesis using changes_quiet_remove by simp
qed

text \<open>A round of tool calls.\<close>

definition start_tools :: "nat \<Rightarrow> ActiveTask \<Rightarrow> ActiveTask" where
  "start_tools n t = t\<lparr>at_ctx := (at_ctx t)\<lparr>ctx_state := SESSION_STATE_WAITING_TOOL\<rparr>, at_pending_tool_count := int n\<rparr>"

definition finish_tool :: "ActiveTask \<Rightarrow> ActiveTask" where
  "finish_tool t = t\<lparr>at_pending_tool_count := at_pending_tool_count t - 1\<rparr>"

definition start_turn :: "ActiveTask \<Rightarrow> ActiveTask" where
  "start_turn t = t\<lparr>at_ctx := (at_ctx t)\<lparr>ctx_turn := ctx_turn (at_ctx t) + 1, ctx_state := SESSION_STATE_WAITING_LLM\<rparr>\<rparr>"

lemma update_task_twice:
  assumes "\<And>t. at_session_key (f t) = at_session_key t"
  shows "update_task (update_task orch k f) k g = update_task orch k (\<lambda>t. g (f t))"
proof -
  have "update_first P g (update_first P f xs) = update_first P (\<lambda>t. g (f t)) xs"
    if "\<And>t. P (f t) = P t" for P and xs :: "ActiveTask list" using that by (induction xs) auto
  with assms show ?thesis by (simp add: update_task_def)
qed

lemma llm_result_tools:
  assumes t: "find_task (al_orch s) k = Some t" and x: "session_manager_get (al_sessions s) k = Some x"
    and e: "err_code err = ERR_NONE" "calls \<noteq> []" "le_alloc env"
  shows "\<exists>tcs. length tcs = length calls \<and> changes s (handle_event_llm_result env k err r calls s)
     (update_task (al_orch s) k (start_tools (length calls))) (al_events s) (al_llm_requests s)
     (al_tool_requests s @ map (tool_request k) tcs)"
proof -
  let ?c = "strip_think_tags True (Some r)" and ?sn = "fill_snapshot t"
  define tcs where "tcs = map (rewrite_unresolved (al_registry s)) calls"
  let ?msg = "(text_message ROLE_ASSISTANT (case ?c of Some c \<Rightarrow> c | None \<Rightarrow> r))\<lparr>m_tool_calls := tcs\<rparr>"
  let ?f = "\<lambda>s. record_message env k (ctx_no_session_record (at_ctx t)) ?msg (send_progress ?sn ?c s)"
  have "quiet ?f" by (rule quiet_comp) auto
  note q = changes_quiet [OF this, of s]
  have h: "handle_event_llm_result env k err r calls s =
      fold (submit_tool_call env k) tcs ((?f s)\<lparr>al_orch :=
        session_orchestrator_update_task_pending_tools
          (session_orchestrator_update_task_state (al_orch (?f s)) k SESSION_STATE_WAITING_TOOL) k (int (length tcs))\<rparr>)"
    using t x e by (simp add: handle_event_llm_result_def snapshot_of_task handle_llm_tool_calls_def Let_def tcs_def)
  have orch: "session_orchestrator_update_task_pending_tools
      (session_orchestrator_update_task_state orch k SESSION_STATE_WAITING_TOOL) k (int (length tcs))
      = update_task orch k (start_tools (length calls))" for orch
    by (simp add: orch_defs update_task_twice start_tools_def [abs_def] tcs_def)
  have "changes s (handle_event_llm_result env k err r calls s) (update_task (al_orch s) k (start_tools (length calls)))
      (al_events s) (al_llm_requests s) (al_tool_requests s @ map (tool_request k) tcs)"
    unfolding h orch fold_submit [OF e(3)] using q by (simp add: changes_def core_def)
  then show ?thesis by (intro exI [of _ tcs]) (simp add: tcs_def)
qed

text \<open>What the request for a turn leaves behind: a request, or the error when there is no provider.\<close>

definition turn_request :: "AgentLoop \<Rightarrow> string \<Rightarrow> InternalEvent list \<times> string list" where
  "turn_request s k =
     (if al_has_provider s then ([], [k])
      else ([EVENT_LLM_RESULT k (error_new ERR_INVALID_PARAM (Some ''No LLM provider configured'')) '''' []], []))"

lemma trigger_effect:
  assumes "le_alloc env" and "length k < 512"
  shows "changes s (trigger_llm_async env k s) (al_orch s) (al_events s @ fst (turn_request s k))
    (al_llm_requests s @ snd (turn_request s k)) (al_tool_requests s)"
  using assms by (simp add: changes_def core_def trigger_llm_async_def handle_llm_callback_def turn_request_def
      SESSION_KEY_MAX_def str_or_empty_def)

definition tool_reply :: "string \<Rightarrow> string \<Rightarrow> string \<Rightarrow> Error \<Rightarrow> Message" where
  "tool_reply call_id name result err =
     (text_message ROLE_TOOL (if err_code err \<noteq> ERR_NONE then err_message err else result))\<lparr>m_tool_call_id := call_id, m_name := name\<rparr>"

text \<open>The state after the result of a tool was recorded and counted.\<close>

definition count_result :: "loop_env \<Rightarrow> string \<Rightarrow> ActiveTask \<Rightarrow> Message \<Rightarrow> AgentLoop \<Rightarrow> AgentLoop" where
  "count_result env k t msg s =
     (let s = record_message env k (ctx_no_session_record (at_ctx t)) msg s
      in s\<lparr>al_orch := update_task (al_orch s) k finish_tool\<rparr>)"

lemma count_result_effect:
  "changes s (count_result env k t msg s) (update_task (al_orch s) k finish_tool) (al_events s) (al_llm_requests s) (al_tool_requests s)"
  using changes_quiet [of "record_message env k (ctx_no_session_record (at_ctx t)) msg" s]
  by (simp add: changes_def core_def count_result_def Let_def)

lemma tool_result_unfold:
  assumes t: "find_task (al_orch s) k = Some t" "length (at_id t) < 32" and x: "session_manager_get (al_sessions s) k = Some x"
  shows "handle_event_tool_result env k call_id name result err s =
    (let s1 = count_result env k t (tool_reply call_id name result err) s
     in if at_pending_tool_count t > 1 then s1
        else if ctx_turn (at_ctx t) \<ge> max_turns s
        then remove_active_task env (at_id t)
               (send_error_response (sn_channel (fill_snapshot t)) (sn_chat_id (fill_snapshot t)) max_iterations_text s1)
        else trigger_llm_async env k (s1\<lparr>al_orch := update_task (al_orch s1) k start_turn\<rparr>))"
proof -
  define s0 where "s0 = record_message env k (ctx_no_session_record (at_ctx t)) (tool_reply call_id name result err) s"
  have q: "al_orch s0 = al_orch s" "max_turns s0 = max_turns s"
    unfolding s0_def using changes_fields [OF changes_quiet [OF quiet_record_message]] by simp_all
  have d: "session_orchestrator_decrement_task_pending_tools (al_orch s0) k
      = (at_pending_tool_count t - 1, update_task (al_orch s) k finish_tool)"
    using t(1) by (simp add: session_orchestrator_decrement_task_pending_tools_def q find_task_def finish_tool_def [abs_def])
  have st: "session_orchestrator_update_task_state (session_orchestrator_increment_task_turn orch k) k SESSION_STATE_WAITING_LLM
      = update_task orch k start_turn" for orch
    by (simp add: orch_defs update_task_twice start_turn_def [abs_def])
  have m: "max_turns (s0\<lparr>al_orch := orch\<rparr>) = max_turns s" for orch
    using q(2) by (simp add: max_turns_def)
  have c: "count_result env k t (tool_reply call_id name result err) s = s0\<lparr>al_orch := update_task (al_orch s) k finish_tool\<rparr>"
    by (simp add: count_result_def Let_def s0_def [symmetric] q)
  have "handle_event_tool_result env k call_id name result err s =
    (let s1 = s0\<lparr>al_orch := update_task (al_orch s) k finish_tool\<rparr>
     in if at_pending_tool_count t - 1 > 0 then s1
        else if ctx_turn (at_ctx t) \<ge> max_turns s
        then remove_active_task env (at_id t)
               (send_error_response (sn_channel (fill_snapshot t)) (sn_chat_id (fill_snapshot t)) max_iterations_text s1)
        else trigger_llm_async env k (s1\<lparr>al_orch := update_task (al_orch s1) k start_turn\<rparr>))"
    using t x by (simp add: handle_event_tool_result_def snapshot_of_task Let_def s0_def [symmetric, unfolded tool_reply_def] d st m)
  then show ?thesis by (simp add: c Let_def)
qed

lemma tool_result_waits:
  assumes "find_task (al_orch s) k = Some t" "length (at_id t) < 32" "session_manager_get (al_sessions s) k = Some x"
    and "1 < at_pending_tool_count t"
  shows "changes s (handle_event_tool_result env k call_id name result err s) (update_task (al_orch s) k finish_tool)
    (al_events s) (al_llm_requests s) (al_tool_requests s)"
  using assms count_result_effect by (simp add: tool_result_unfold Let_def)

lemma tool_result_stops:
  assumes "find_task (al_orch s) k = Some t" "length (at_id t) < 32" "session_manager_get (al_sessions s) k = Some x"
    and "at_pending_tool_count t \<le> 1" "max_turns s \<le> ctx_turn (at_ctx t)"
  shows "changes s (handle_event_tool_result env k call_id name result err s)
    (session_orchestrator_remove_task (update_task (al_orch s) k finish_tool) (at_id t))
    (al_events s) (al_llm_requests s) (al_tool_requests s)"
proof -
  let ?s1 = "count_result env k t (tool_reply call_id name result err) s"
  note c = count_result_effect [of s env k t "tool_reply call_id name result err"]
  show ?thesis
    using assms changes_trans [OF c changes_quiet_remove [OF quiet_send_error, of ?s1]]
    by (simp add: tool_result_unfold Let_def changes_fields [OF c])
qed

lemma tool_result_continues:
  assumes "find_task (al_orch s) k = Some t" "length (at_id t) < 32" "session_manager_get (al_sessions s) k = Some x"
    and "at_pending_tool_count t \<le> 1" "ctx_turn (at_ctx t) < max_turns s" and "le_alloc env" "length k < 512"
  shows "changes s (handle_event_tool_result env k call_id name result err s)
    (update_task (update_task (al_orch s) k finish_tool) k start_turn)
    (al_events s @ fst (turn_request s k)) (al_llm_requests s @ snd (turn_request s k)) (al_tool_requests s)"
proof -
  let ?s1 = "count_result env k t (tool_reply call_id name result err) s"
  let ?s2 = "?s1\<lparr>al_orch := update_task (al_orch ?s1) k start_turn\<rparr>"
  note c = count_result_effect [of s env k t "tool_reply call_id name result err"]
  have "changes s ?s2 (update_task (update_task (al_orch s) k finish_tool) k start_turn)
      (al_events s) (al_llm_requests s) (al_tool_requests s)"
    using c by (simp add: changes_def core_def)
  from changes_trans [OF this trigger_effect [OF assms(6,7), of ?s2]] changes_fields [OF this] assms show ?thesis
    by (simp add: tool_result_unfold Let_def turn_request_def)
qed

text \<open>An inbound message that is no slash command.\<close>

definition first_turn :: "ActiveTask \<Rightarrow> ActiveTask" where
  "first_turn t = t\<lparr>at_ctx := (at_ctx t)\<lparr>ctx_state := SESSION_STATE_WAITING_LLM, ctx_turn := ctx_turn (at_ctx t) + 1\<rparr>\<rparr>"

lemma length_session_key: "length (session_key_of m) < 256"
  by (simp add: session_key_of_def length_c_trunc)

definition accept_message :: "loop_env \<Rightarrow> InboundMessage \<Rightarrow> nat \<Rightarrow> AgentLoop \<Rightarrow> AgentLoop" where
  "accept_message env m before s =
     process_message_async env m
       (add_active_task env (new_task_id env) (session_key_of m) m before
         (maybe_auto_consolidate_memory env (session_key_of m) (message_text env m)
           (add_to_session env (session_key_of m) (text_message ROLE_USER (message_text env m)) s)))"

lemma process_inbound_unfold:
  assumes "plain_message m" and "in_content m \<noteq> ''''"
  shows "process_inbound_message env dispatch m s =
    (let key = session_key_of m; s1 = open_session env key s
     in case session_manager_get (al_sessions s1) key of
          None \<Rightarrow> send_outbound (in_channel m) (in_chat_id m) unavailable_text s1
        | Some session \<Rightarrow>
            if sn_valid (session_orchestrator_snapshot_task (al_orch s1) key)
                 \<and> sn_state (session_orchestrator_snapshot_task (al_orch s1) key) \<noteq> SESSION_STATE_IDLE
            then send_outbound (in_channel m) (in_chat_id m) busy_text s1
            else accept_message env m (length (se_messages session)) s1)"
  using assms by (simp add: process_inbound_message_def plain_message_def accept_message_def Let_def split: option.splits)

lemma update_first_append:
  "update_first P f (xs @ ys) = (if \<exists>x \<in> set xs. P x then update_first P f xs @ ys else xs @ update_first P f ys)"
  by (induction xs) auto

text \<open>A task for a message: its context is prepared by \<open>f\<close>, which leaves the tasks alone, and then the model is asked.\<close>

definition start_task :: "loop_env \<Rightarrow> (AgentLoop \<Rightarrow> AgentLoop) \<Rightarrow> string \<Rightarrow> InboundMessage \<Rightarrow> nat \<Rightarrow> AgentLoop \<Rightarrow> AgentLoop" where
  "start_task env f task_id m before s = process_message_async env m (add_active_task env task_id (session_key_of m) m before (f s))"

definition started_task :: "string \<Rightarrow> InboundMessage \<Rightarrow> nat \<Rightarrow> ActiveTask" where
  "started_task task_id m before = first_turn (make_task task_id (session_key_of m) m before)"

lemma start_effect:
  assumes "le_alloc env" and none: "find_task (al_orch s) (session_key_of m) = None" and qf: "quiet f"
  shows "\<exists>orch. so_active_tasks orch = so_active_tasks (al_orch s) @ [started_task task_id m before]
    \<and> changes s (start_task env f task_id m before s) orch (al_events s @ fst (turn_request s (session_key_of m)))
        (al_llm_requests s @ snd (turn_request s (session_key_of m))) (al_tool_requests s)"
proof -
  let ?k = "session_key_of m" and ?task = "make_task task_id (session_key_of m) m before"
  define orch where "orch = update_task (session_orchestrator_set_current_session_key
    (session_orchestrator_add_task True (al_orch s) ?task) ?k) ?k first_turn"
  have len: "length ?k < 512" using length_session_key [of m] by simp
  have q: "changes s (f s) (al_orch s) (al_events s) (al_llm_requests s) (al_tool_requests s)" by (rule changes_quiet [OF qf])
  let ?s1 = "(f s)\<lparr>al_orch := orch\<rparr>"
  have o: "session_orchestrator_increment_task_turn (session_orchestrator_update_task_state o1 ?k SESSION_STATE_WAITING_LLM) ?k
      = update_task o1 ?k first_turn" for o1
    by (simp add: session_orchestrator_increment_task_turn_def session_orchestrator_update_task_state_def
        update_task_twice first_turn_def [abs_def])
  have a: "start_task env f task_id m before s = trigger_llm_async env ?k ?s1"
    using assms(1) by (simp add: start_task_def process_message_async_def add_active_task_def Let_def o orch_def
        changes_fields(1) [OF q])
  have "changes s ?s1 orch (al_events s) (al_llm_requests s) (al_tool_requests s)"
    using q by (simp add: changes_def core_def)
  from changes_trans [OF this trigger_effect [OF assms(1) len, of ?s1]] changes_fields [OF this]
  have c: "changes s (start_task env f task_id m before s) orch (al_events s @ fst (turn_request s ?k))
        (al_llm_requests s @ snd (turn_request s ?k)) (al_tool_requests s)"
    by (simp add: a turn_request_def)
  have key: "at_session_key ?task = ?k" using len by (simp add: make_task_def SESSION_KEY_MAX_def)
  have "\<And>x. x \<in> set (so_active_tasks (al_orch s)) \<Longrightarrow> at_session_key x \<noteq> ?k"
    using find_None_all [OF none [unfolded find_task_def]] by blast
  then have "update_first (\<lambda>t. at_session_key t = ?k) first_turn (so_active_tasks (al_orch s) @ [?task])
      = so_active_tasks (al_orch s) @ [first_turn ?task]"
    using key by (simp add: update_first_append update_first_no_match)
  with c show ?thesis
    by (intro exI [of _ orch]) (simp add: orch_def update_task_def started_task_def
        session_orchestrator_set_current_session_key_def session_orchestrator_add_task_def)
qed

definition accepted_task :: "loop_env \<Rightarrow> InboundMessage \<Rightarrow> nat \<Rightarrow> ActiveTask" where
  "accepted_task env m before = started_task (new_task_id env) m before"

definition prepare_session :: "loop_env \<Rightarrow> InboundMessage \<Rightarrow> AgentLoop \<Rightarrow> AgentLoop" where
  "prepare_session env m s = maybe_auto_consolidate_memory env (session_key_of m) (message_text env m)
     (add_to_session env (session_key_of m) (text_message ROLE_USER (message_text env m)) s)"

lemma quiet_prepare: "quiet (prepare_session env m)"
  unfolding prepare_session_def [abs_def] by (rule quiet_comp) auto

lemma accept_start: "accept_message env m before s = start_task env (prepare_session env m) (new_task_id env) m before s"
  by (simp add: accept_message_def start_task_def prepare_session_def)

lemmas accept_effect = start_effect [OF _ _ quiet_prepare [of env m], of env _ m "new_task_id env" for env m,
  folded accept_start accepted_task_def]

section \<open>The invariant holds in every reachable state\<close>

lemma find_filter: "(\<And>x. x \<in> set xs \<Longrightarrow> P x \<Longrightarrow> Q x) \<Longrightarrow> find P (filter Q xs) = find P xs"
  by (induction xs) auto

lemma find_task_remove:
  assumes ids: "distinct (map at_id (so_active_tasks orch))" and keys: "distinct (map at_session_key (so_active_tasks orch))"
    and t: "find_task orch k = Some t"
  shows "find_task (session_orchestrator_remove_task orch (at_id t)) k' = (if k' = k then None else find_task orch k')"
proof -
  let ?ts = "so_active_tasks orch"
  have f: "find_task (session_orchestrator_remove_task orch (at_id t)) k'
      = find (\<lambda>x. at_session_key x = k') (filter (\<lambda>x. at_id x \<noteq> at_id t) ?ts)"
    using ids by (simp add: find_task_def session_orchestrator_remove_task_def remove_first_distinct_filter)
  have tin: "t \<in> set ?ts" "at_session_key t = k"
    using t by (auto simp: find_task_def find_Some_iff in_set_conv_nth)
  show ?thesis
  proof (cases "k' = k")
    case True
    have "at_id x = at_id t" if "x \<in> set ?ts" "at_session_key x = k" for x
      using keys that tin by (metis distinct_map inj_onD)
    with True f show ?thesis by (auto simp: find_None_iff)
  next
    case False
    have "at_id x \<noteq> at_id t" if "x \<in> set ?ts" "at_session_key x = k'" for x
      using ids that tin False by (metis distinct_map inj_onD)
    with False f show ?thesis by (simp add: find_filter find_task_def)
  qed
qed

lemma task_steps_keep [simp]:
  "at_session_key (start_tools n t) = at_session_key t" "at_id (start_tools n t) = at_id t"
  "at_session_key (finish_tool t) = at_session_key t" "at_id (finish_tool t) = at_id t"
  "at_session_key (start_turn t) = at_session_key t" "at_id (start_turn t) = at_id t"
  by (simp_all add: start_tools_def finish_tool_def start_turn_def)

lemma find_task_update:
  assumes "\<And>t. at_session_key (f t) = at_session_key t"
  shows "find_task (update_task orch k f) k' = (if k' = k then map_option f (find_task orch k) else find_task orch k')"
  using tasks.get_upd [of f orch k k'] assms by simp

definition unique_tasks :: "SessionOrchestrator \<Rightarrow> bool" where
  "unique_tasks orch \<longleftrightarrow> distinct (map at_id (so_active_tasks orch)) \<and> distinct (map at_session_key (so_active_tasks orch))"

lemma unique_update:
  assumes "\<And>t. at_session_key (f t) = at_session_key t" "\<And>t. at_id (f t) = at_id t"
  shows "unique_tasks (update_task orch k f) = unique_tasks orch"
  using assms by (simp add: unique_tasks_def update_task_def map_update_first_inv)

lemma unique_remove: "unique_tasks orch \<Longrightarrow> unique_tasks (session_orchestrator_remove_task orch i)"
  by (simp add: unique_tasks_def session_orchestrator_remove_task_def distinct_map_remove_first)

lemma loop_inv_unique: "loop_inv s \<longleftrightarrow> wf_manager (al_sessions s) \<and> unique_tasks (al_orch s) \<and> (\<forall>k. local_ok s k)"
  by (auto simp: loop_inv_def unique_tasks_def)

text \<open>A step that concerns one session only has to keep that session's part of the invariant.\<close>

lemma inv_local_step:
  assumes inv: "loop_inv s" and c: "changes s s' orch events llm tools" and u: "unique_tasks orch"
    and other: "\<And>k'. k' \<noteq> k \<Longrightarrow> find_task orch k' = find_task (al_orch s) k' \<and> llm_load s' k' = llm_load s k' \<and> tool_load s' k' = tool_load s k'"
    and own: "local_ok s' k"
  shows "loop_inv s'"
proof -
  have k: "wf_manager (al_sessions s')"
    "\<And>k. session_manager_get (al_sessions s) k \<noteq> None \<Longrightarrow> session_manager_get (al_sessions s') k \<noteq> None"
    using changes_fields(7) [OF c] inv by (auto simp: keeps_sessions_def loop_inv_def)
  have "local_ok s' k'" for k'
  proof (cases "k' = k")
    case False
    have "local_ok s k'" using inv by (simp add: loop_inv_def)
    then show ?thesis
      using k(2) [of k'] other [OF False] changes_fields(1,5) [OF c] by (simp add: local_ok_def split: option.splits)
  qed (simp add: own)
  with k u changes_fields(1) [OF c] show ?thesis by (simp add: loop_inv_unique)
qed

lemma local_someI:
  assumes "find_task (al_orch s) k = Some t" "session_manager_get (al_sessions s) k \<noteq> None"
    "task_ok (max_turns s) (llm_load s k) (tool_load s k) t"
  shows "local_ok s k"
  using assms by (simp add: local_ok_def)

lemma event_task:
  assumes inv: "loop_inv s" and e: "al_events s = e # es" and k: "llm_event k e \<or> tool_event k e"
  obtains t x where "find_task (al_orch s) k = Some t" "session_manager_get (al_sessions s) k = Some x"
    "task_ok (max_turns s) (llm_load s k) (tool_load s k) t"
proof -
  have l: "local_ok s k" using inv by (simp add: loop_inv_def)
  have "0 < llm_load s k + tool_load s k" using e k by (auto simp: llm_load_def tool_load_def)
  with l that show thesis by (auto simp: local_ok_def split: option.splits)
qed

lemma key_length: "find_task orch k = Some t \<Longrightarrow> task_ok m a b t \<Longrightarrow> length k < 256"
  by (auto simp: find_task_def find_Some_iff task_ok_def)

lemma removal_step:
  assumes inv: "loop_inv s" and orch: "unique_tasks orch" "find_task orch k = Some t" "\<And>k'. k' \<noteq> k \<Longrightarrow> find_task orch k' = find_task (al_orch s) k'"
    and c: "changes s s' (session_orchestrator_remove_task orch (at_id t)) events llm tools"
    and other: "\<And>k'. k' \<noteq> k \<Longrightarrow> llm_load s' k' = llm_load s k' \<and> tool_load s' k' = tool_load s k'"
    and own: "llm_load s' k = 0" "tool_load s' k = 0"
  shows "loop_inv s'"
proof (rule inv_local_step [OF inv c, where k = k])
  show "unique_tasks (session_orchestrator_remove_task orch (at_id t))" using orch(1) by (rule unique_remove)
  have f: "find_task (session_orchestrator_remove_task orch (at_id t)) k' = (if k' = k then None else find_task orch k')" for k'
    using orch by (intro find_task_remove) (simp_all add: unique_tasks_def)
  show "find_task (session_orchestrator_remove_task orch (at_id t)) k' = find_task (al_orch s) k'
      \<and> llm_load s' k' = llm_load s k' \<and> tool_load s' k' = tool_load s k'" if "k' \<noteq> k" for k'
    using that f orch(3) other by simp
  show "local_ok s' k" using f own changes_fields(1) [OF c] by (simp add: local_ok_def)
qed

lemma filter_tool_requests:
  "length k < 256 \<Longrightarrow> filter (\<lambda>r. fst r = k') (map (tool_request k) tcs) = (if k' = k then map (tool_request k) tcs else [])"
  by (induction tcs) (auto simp: tool_request_def SESSION_KEY_MAX_def)

lemma local_of_inv: "loop_inv s \<Longrightarrow> local_ok s k"
  by (simp add: loop_inv_def)

text \<open>What an event does, as cases on the task that waits for it.\<close>

lemma changes_events: "changes (s\<lparr>al_events := es\<rparr>) s' orch a b c = changes s s' orch a b c"
  by (simp add: changes_def)

lemma llm_event_cases:
  assumes inv: "loop_inv s" and e: "al_events s = EVENT_LLM_RESULT k err r calls # es" and env: "le_alloc env"
    and s': "s' = handle_event_llm_result env k err r calls (s\<lparr>al_events := es\<rparr>)"
  obtains (ends) t where "find_task (al_orch s) k = Some t" "task_ok (max_turns s) 1 0 t"
      "llm_load s k = 1" "tool_load s k = 0" "ctx_state (at_ctx t) = SESSION_STATE_WAITING_LLM"
      "changes s s' (session_orchestrator_remove_task (al_orch s) (at_id t)) es (al_llm_requests s) (al_tool_requests s)"
  | (tools) t tcs where "find_task (al_orch s) k = Some t" "task_ok (max_turns s) 1 0 t"
      "llm_load s k = 1" "tool_load s k = 0" "ctx_state (at_ctx t) = SESSION_STATE_WAITING_LLM" "tcs \<noteq> []"
      "changes s s' (update_task (al_orch s) k (start_tools (length tcs))) es (al_llm_requests s)
         (al_tool_requests s @ map (tool_request k) tcs)"
proof -
  obtain t x where t: "find_task (al_orch s) k = Some t" and x: "session_manager_get (al_sessions s) k = Some x"
    and ok: "task_ok (max_turns s) (llm_load s k) (tool_load s k) t"
    by (rule event_task [OF inv e, of k]) auto
  have "0 < llm_load s k" using e by (simp add: llm_load_def)
  with ok have l: "llm_load s k = 1" "tool_load s k = 0" "ctx_state (at_ctx t) = SESSION_STATE_WAITING_LLM"
    and len: "length (at_id t) < 32" by (auto simp: task_ok_def)
  let ?s0 = "s\<lparr>al_events := es\<rparr>"
  have s0: "find_task (al_orch ?s0) k = Some t" "session_manager_get (al_sessions ?s0) k = Some x" using t x by simp_all
  show thesis
  proof (cases "err_code err = ERR_NONE \<and> calls \<noteq> []")
    case False
    with ends [OF t ok [unfolded l] l] llm_result_ends [OF s0(1) len s0(2), of err calls env r] show thesis
      by (auto simp: s' changes_events)
  next
    case True
    then obtain tcs where "length tcs = length calls" "changes ?s0 s' (update_task (al_orch s) k (start_tools (length calls))) es
        (al_llm_requests s) (al_tool_requests s @ map (tool_request k) tcs)"
      using llm_result_tools [OF s0, of err calls env r] env by (auto simp: s')
    with tools [OF t ok [unfolded l] l, of tcs] True show thesis by (cases tcs) (auto simp: changes_events)
  qed
qed

lemma tool_event_cases:
  assumes inv: "loop_inv s" and e: "al_events s = EVENT_TOOL_RESULT k i n r err # es" and env: "le_alloc env"
    and s': "s' = handle_event_tool_result env k i n r err (s\<lparr>al_events := es\<rparr>)"
  obtains (waits) t where "find_task (al_orch s) k = Some t" "task_ok (max_turns s) 0 (tool_load s k) t" "llm_load s k = 0"
      "1 < tool_load s k" "changes s s' (update_task (al_orch s) k finish_tool) es (al_llm_requests s) (al_tool_requests s)"
  | (stops) t where "find_task (al_orch s) k = Some t" "task_ok (max_turns s) 0 1 t" "llm_load s k = 0" "tool_load s k = 1"
      "max_turns s \<le> ctx_turn (at_ctx t)"
      "changes s s' (session_orchestrator_remove_task (update_task (al_orch s) k finish_tool) (at_id (finish_tool t))) es
         (al_llm_requests s) (al_tool_requests s)"
  | (continues) t where "find_task (al_orch s) k = Some t" "task_ok (max_turns s) 0 1 t" "llm_load s k = 0" "tool_load s k = 1"
      "ctx_turn (at_ctx t) < max_turns s"
      "changes s s' (update_task (update_task (al_orch s) k finish_tool) k start_turn) (es @ fst (turn_request s k))
         (al_llm_requests s @ snd (turn_request s k)) (al_tool_requests s)"
proof -
  obtain t x where t: "find_task (al_orch s) k = Some t" and x: "session_manager_get (al_sessions s) k = Some x"
    and ok: "task_ok (max_turns s) (llm_load s k) (tool_load s k) t"
    by (rule event_task [OF inv e, of k]) auto
  have "0 < tool_load s k" using e by (simp add: tool_load_def)
  with ok have l: "llm_load s k = 0" and p: "at_pending_tool_count t = int (tool_load s k)" "1 \<le> tool_load s k"
    and len: "length (at_id t) < 32" by (auto simp: task_ok_def)
  note klen = key_length [OF t ok]
  let ?s0 = "s\<lparr>al_events := es\<rparr>"
  have s0: "find_task (al_orch ?s0) k = Some t" "length (at_id t) < 32" "session_manager_get (al_sessions ?s0) k = Some x"
    using t x len by simp_all
  have m: "max_turns ?s0 = max_turns s" "turn_request ?s0 k = turn_request s k" by (simp_all add: max_turns_def turn_request_def)
  consider (w) "1 < tool_load s k" | (f) "tool_load s k = 1" "max_turns s \<le> ctx_turn (at_ctx t)"
    | (c) "tool_load s k = 1" "ctx_turn (at_ctx t) < max_turns s" using p by linarith
  then show thesis
  proof cases
    case w
    with waits [OF t ok [unfolded l] l] tool_result_waits [OF s0, of env i n r err] p show thesis by (simp add: s' changes_events)
  next
    case f
    with stops [OF t _ l] ok l tool_result_stops [OF s0, of env i n r err] p m show thesis by (simp add: s' changes_events)
  next
    case c
    with continues [OF t _ l] ok l tool_result_continues [OF s0, of env i n r err] p m env klen show thesis
      by (simp add: s' changes_events)
  qed
qed

lemma update_step:
  assumes inv: "loop_inv s" and t: "find_task (al_orch s) k = Some t" and f: "\<And>t. at_session_key (f t) = at_session_key t" "\<And>t. at_id (f t) = at_id t"
    and c: "changes s s' (update_task (al_orch s) k f) events llm tools"
    and l: "\<And>k'. k' \<noteq> k \<Longrightarrow> llm_load s' k' = llm_load s k' \<and> tool_load s' k' = tool_load s k'"
    and ok: "task_ok (max_turns s) (llm_load s' k) (tool_load s' k) (f t)"
  shows "loop_inv s'"
proof (rule inv_local_step [OF inv c])
  have "session_manager_get (al_sessions s) k \<noteq> None" using local_of_inv [OF inv, of k] t by (simp add: local_ok_def)
  then have "session_manager_get (al_sessions s') k \<noteq> None"
    using changes_fields(7) [OF c] inv by (simp add: keeps_sessions_def loop_inv_def)
  with t f ok show "local_ok s' k"
    by (intro local_someI) (simp_all add: changes_fields(1,5) [OF c] find_task_update)
qed (use inv f l in \<open>simp_all add: loop_inv_unique unique_update find_task_update\<close>)

lemma inv_llm_event:
  assumes inv: "loop_inv s" and e: "al_events s = EVENT_LLM_RESULT k err r calls # es" and env: "le_alloc env"
  shows "loop_inv (handle_event_llm_result env k err r calls (s\<lparr>al_events := es\<rparr>))" (is "loop_inv ?s'")
proof (rule llm_event_cases [OF inv e env refl])
  fix t
  assume t: "find_task (al_orch s) k = Some t" and l: "llm_load s k = 1" "tool_load s k = 0"
    and c: "changes s ?s' (session_orchestrator_remove_task (al_orch s) (at_id t)) es (al_llm_requests s) (al_tool_requests s)"
  show ?thesis
    by (rule removal_step [OF inv _ t _ c])
      (use inv l e in \<open>auto simp: llm_load_def tool_load_def changes_fields [OF c] loop_inv_unique\<close>)
next
  fix t tcs
  assume t: "find_task (al_orch s) k = Some t" and ok: "task_ok (max_turns s) 1 0 t" and l: "llm_load s k = 1" "tool_load s k = 0"
    and tcs: "tcs \<noteq> []"
    and c: "changes s ?s' (update_task (al_orch s) k (start_tools (length tcs))) es (al_llm_requests s)
         (al_tool_requests s @ map (tool_request k) tcs)"
  have l': "llm_load ?s' k' = (if k' = k then 0 else llm_load s k')"
      "tool_load ?s' k' = (if k' = k then length tcs else tool_load s k')" for k'
    using l e key_length [OF t ok] by (auto simp: llm_load_def tool_load_def changes_fields [OF c] filter_tool_requests)
  show ?thesis
    by (rule update_step [OF inv t _ _ c]) (use ok tcs l' in \<open>auto simp: task_ok_def start_tools_def Suc_leI\<close>)
qed

lemma turn_request_loads:
  "length (filter (\<lambda>k'. k' = j) (snd (turn_request s k))) + length (filter (llm_event j) (fst (turn_request s k))) = (if j = k then 1 else 0)"
  "filter (tool_event j) (fst (turn_request s k)) = []"
  by (auto simp: turn_request_def)

lemma inv_tool_event:
  assumes inv: "loop_inv s" and e: "al_events s = EVENT_TOOL_RESULT k i n r err # es" and env: "le_alloc env"
  shows "loop_inv (handle_event_tool_result env k i n r err (s\<lparr>al_events := es\<rparr>))" (is "loop_inv ?s'")
proof (rule tool_event_cases [OF inv e env refl])
  fix t
  assume t: "find_task (al_orch s) k = Some t" and ok: "task_ok (max_turns s) 0 (tool_load s k) t" "1 < tool_load s k" "llm_load s k = 0"
    and c: "changes s ?s' (update_task (al_orch s) k finish_tool) es (al_llm_requests s) (al_tool_requests s)"
  have l: "llm_load ?s' k' = llm_load s k'" "tool_load ?s' k' = (if k' = k then tool_load s k - 1 else tool_load s k')" for k'
    using e by (auto simp: llm_load_def tool_load_def changes_fields [OF c])
  show ?thesis by (rule update_step [OF inv t _ _ c]) (use ok in \<open>auto simp: l task_ok_def finish_tool_def of_nat_diff\<close>)
next
  fix t
  let ?o1 = "update_task (al_orch s) k finish_tool"
  assume t: "find_task (al_orch s) k = Some t" and l: "llm_load s k = 0" "tool_load s k = 1"
    and c: "changes s ?s' (session_orchestrator_remove_task ?o1 (at_id (finish_tool t))) es (al_llm_requests s) (al_tool_requests s)"
  have o1: "unique_tasks ?o1" "find_task ?o1 k = Some (finish_tool t)" "\<And>k'. k' \<noteq> k \<Longrightarrow> find_task ?o1 k' = find_task (al_orch s) k'"
    using inv t by (simp_all add: loop_inv_unique unique_update find_task_update)
  show ?thesis
    by (rule removal_step [OF inv o1 c]) (use l e in \<open>auto simp: llm_load_def tool_load_def changes_fields [OF c]\<close>)
next
  fix t
  assume t: "find_task (al_orch s) k = Some t" and ok: "task_ok (max_turns s) 0 1 t" "ctx_turn (at_ctx t) < max_turns s"
    and l: "llm_load s k = 0" "tool_load s k = 1"
    and c: "changes s ?s' (update_task (update_task (al_orch s) k finish_tool) k start_turn) (es @ fst (turn_request s k))
         (al_llm_requests s @ snd (turn_request s k)) (al_tool_requests s)"
  have l': "llm_load ?s' k' = (if k' = k then 1 else llm_load s k')" "tool_load ?s' k' = (if k' = k then 0 else tool_load s k')" for k'
    using e l turn_request_loads [of k' s k] by (auto simp: llm_load_def tool_load_def changes_fields [OF c])
  from c have c2: "changes s ?s' (update_task (al_orch s) k (\<lambda>t. start_turn (finish_tool t))) (es @ fst (turn_request s k))
         (al_llm_requests s @ snd (turn_request s k)) (al_tool_requests s)" by (simp add: update_task_twice)
  show ?thesis
    by (rule update_step [OF inv t _ _ c2]) (use ok in \<open>auto simp: l' task_ok_def finish_tool_def start_turn_def\<close>)
qed

lemma inv_same:
  assumes inv: "loop_inv s" and c: "changes s s' (al_orch s) events llm tools"
    and l: "\<And>k. llm_load s' k = llm_load s k" "\<And>k. tool_load s' k = tool_load s k"
  shows "loop_inv s'"
proof (rule inv_local_step [OF inv c, where k = "''''"])
  have "session_manager_get (al_sessions s) '''' \<noteq> None \<Longrightarrow> session_manager_get (al_sessions s') '''' \<noteq> None"
    using changes_fields(7) [OF c] inv by (simp add: keeps_sessions_def loop_inv_def)
  then show "local_ok s' ''''"
    using local_of_inv [OF inv, of "''''"] l changes_fields(1,5) [OF c] by (simp add: local_ok_def split: option.splits)
qed (use inv l in \<open>simp_all add: loop_inv_unique\<close>)

lemma inv_quiet: "loop_inv s \<Longrightarrow> quiet f \<Longrightarrow> loop_inv (f s)"
  by (rule inv_same [OF _ changes_quiet]) (simp_all add: llm_load_def tool_load_def changes_fields [OF changes_quiet])

lemma quiet_inbox [simp]: "quiet (\<lambda>s. s\<lparr>al_inbox := ms\<rparr>)" "quiet (\<lambda>s. s\<lparr>al_running := b\<rparr>)"
  by (simp_all add: quiet_def core_def)

lemma quiet_receive: "quiet (agent_loop_receive ok m)"
  by (simp add: quiet_def core_def agent_loop_receive_def enqueue_inbound_task_def)

lemma task_not_idle: "loop_inv s \<Longrightarrow> find_task (al_orch s) k = Some t \<Longrightarrow> ctx_state (at_ctx t) \<noteq> SESSION_STATE_IDLE"
proof -
  assume "loop_inv s" and t: "find_task (al_orch s) k = Some t"
  then have "local_ok s k" by (simp add: loop_inv_def)
  with t show ?thesis by (auto simp: local_ok_def task_ok_def)
qed

lemma started_task_simps:
  "at_session_key (started_task i m b) = session_key_of m" "at_id (started_task i m b) = c_trunc 32 i"
  "ctx_turn (at_ctx (started_task i m b)) = 1" "ctx_state (at_ctx (started_task i m b)) = SESSION_STATE_WAITING_LLM"
  using length_session_key [of m]
  by (simp_all add: started_task_def first_turn_def make_task_def SESSION_KEY_MAX_def)

lemma accepted_task_simps:
  "at_session_key (accepted_task env m b) = session_key_of m" "at_id (accepted_task env m b) = c_trunc 32 (new_task_id env)"
  "ctx_turn (at_ctx (accepted_task env m b)) = 1" "ctx_state (at_ctx (accepted_task env m b)) = SESSION_STATE_WAITING_LLM"
  by (simp_all add: accepted_task_def started_task_simps)

lemma inv_start:
  assumes inv: "loop_inv s" and env: "le_alloc env" and none: "find_task (al_orch s) (session_key_of m) = None"
    and ses: "session_manager_get (al_sessions s) (session_key_of m) = Some x" and qf: "quiet f"
    and fresh: "c_trunc 32 i \<notin> at_id ` set (so_active_tasks (al_orch s))"
  shows "loop_inv (start_task env f i m b s)"
proof -
  let ?k = "session_key_of m" and ?s' = "start_task env f i m b s" and ?t = "started_task i m b"
  obtain orch where o: "so_active_tasks orch = so_active_tasks (al_orch s) @ [?t]"
    and c0: "changes s ?s' orch (al_events s @ fst (turn_request s ?k)) (al_llm_requests s @ snd (turn_request s ?k)) (al_tool_requests s)"
    using start_effect [OF env none qf, of i b] by blast
  note c = c0 changes_fields [OF c0]
  have put: "find_task orch k' = (if k' = ?k then Some ?t else find_task (al_orch s) k')" for k'
    using tasks.get_put_new [of "al_orch s" ?t k'] none o
    by (simp add: started_task_simps find_task_def session_orchestrator_add_task_def)
  have new: "?k \<notin> at_session_key ` set (so_active_tasks (al_orch s))"
    using find_None_all [OF none [unfolded find_task_def]] by (metis image_iff)
  have zero: "llm_load s ?k = 0" "tool_load s ?k = 0"
    using local_of_inv [OF inv, of ?k] none by (simp_all add: local_ok_def)
  have l: "llm_load ?s' k' = (if k' = ?k then 1 else llm_load s k')" "tool_load ?s' k' = tool_load s k'" for k'
    using zero turn_request_loads [of k' s ?k] by (auto simp: llm_load_def tool_load_def c(2-))
  show ?thesis
  proof (rule inv_local_step [OF inv c(1)])
    show "unique_tasks orch" using inv new fresh by (simp add: loop_inv_unique unique_tasks_def o started_task_simps)
    show "local_ok ?s' ?k"
    proof (rule local_someI)
      show "find_task (al_orch ?s') ?k = Some ?t" by (simp add: c(2) put)
      show "session_manager_get (al_sessions ?s') ?k \<noteq> None" using c(8) ses inv by (auto simp: keeps_sessions_def loop_inv_def)
      show "task_ok (max_turns ?s') (llm_load ?s' ?k) (tool_load ?s' ?k) ?t"
        using zero max_turns_pos [of s] length_session_key [of m]
        by (simp add: task_ok_def l c(6) started_task_simps length_c_trunc)
    qed
  qed (use put l in auto)
qed

lemmas inv_accept = inv_start [OF _ _ _ _ quiet_prepare [of env m], of _ env m _ "new_task_id env" for env m, folded accept_start]

section \<open>Slash commands and the invariant\<close>

lemma skip_space_twice: "skip_space (skip_space s) = skip_space s"
  by (simp add: skip_space_def dropWhile_eq_Nil_conv dropWhile_idem)

text \<open>The loop without the cancellation flags.\<close>

definition erase_task :: "ActiveTask \<Rightarrow> ActiveTask" where
  "erase_task t = t\<lparr>at_cancelled := False\<rparr>"

definition erase_orch :: "SessionOrchestrator \<Rightarrow> SessionOrchestrator" where
  "erase_orch orch = orch\<lparr>so_active_tasks := map erase_task (so_active_tasks orch)\<rparr>"

definition erase :: "AgentLoop \<Rightarrow> AgentLoop" where
  "erase s = s\<lparr>al_orch := erase_orch (al_orch s)\<rparr>"

lemma erase_fields [simp]:
  "al_sessions (erase s) = al_sessions s" "al_orch (erase s) = erase_orch (al_orch s)" "al_registry (erase s) = al_registry s"
  "al_config (erase s) = al_config s" "al_fs (erase s) = al_fs s" "al_outbound (erase s) = al_outbound s" "al_events (erase s) = al_events s"
  "al_inbox (erase s) = al_inbox s" "al_llm_requests (erase s) = al_llm_requests s" "al_tool_requests (erase s) = al_tool_requests s"
  "al_has_provider (erase s) = al_has_provider s" "al_has_memory (erase s) = al_has_memory s"
  by (simp_all add: erase_def)

lemma erase_task_fields [simp]:
  "at_id (erase_task t) = at_id t" "at_session_key (erase_task t) = at_session_key t" "at_ctx (erase_task t) = at_ctx t"
  "at_pending_tool_count (erase_task t) = at_pending_tool_count t"
  by (simp_all add: erase_task_def)

lemma find_map: "find P (map f xs) = map_option f (find (\<lambda>x. P (f x)) xs)"
  by (induction xs) auto

lemma stop_erase: "erase (snd (command_ctx_stop_active_tasks ctx s)) = erase s"
  by (simp add: command_ctx_stop_active_tasks_def session_orchestrator_cancel_tasks_by_session_def session_orchestrator_cancel_all_tasks_def
      erase_def erase_orch_def erase_task_def)

lemma loop_inv_erase [simp]: "loop_inv (erase s) \<longleftrightarrow> loop_inv s"
proof -
  have f: "find_task (erase_orch orch) k = map_option erase_task (find_task orch k)" for orch k
    by (simp add: find_task_def erase_orch_def find_map)
  have "local_ok (erase s) = local_ok s"
  proof
    fix k
    show "local_ok (erase s) k = local_ok s k" by (cases "find_task (al_orch s) k") (simp_all add: local_ok_def f llm_load_def tool_load_def task_ok_def max_turns_def)
  qed
  moreover have "map at_id (so_active_tasks (erase_orch orch)) = map at_id (so_active_tasks orch)"
    "map at_session_key (so_active_tasks (erase_orch orch)) = map at_session_key (so_active_tasks orch)" for orch
    by (simp_all add: erase_orch_def)
  ultimately show ?thesis unfolding loop_inv_def by simp
qed

lemma inv_stop: "loop_inv s \<Longrightarrow> loop_inv (snd (command_ctx_stop_active_tasks ctx s))"
  by (metis loop_inv_erase stop_erase)

lemma inv_send: "loop_inv s \<Longrightarrow> loop_inv (send_outbound c i t s)"
  by (rule inv_quiet [OF _ quiet_send_outbound])

lemma inv_context: "loop_inv s \<Longrightarrow> loop_inv (context_run ctx call s)"
proof (cases call)
  case (ReplaceTools tools)
  assume "loop_inv s"
  moreover have "quiet (\<lambda>s. s\<lparr>al_registry := tools\<rparr>)" by (simp add: quiet_def core_def)
  ultimately show ?thesis using ReplaceTools inv_quiet [of s "\<lambda>s. s\<lparr>al_registry := tools\<rparr>"] by simp
qed (simp_all add: inv_stop inv_send command_ctx_send_response_def command_ctx_reset_session_def)

lemma inv_handler:
  assumes "context_handler h" "loop_inv s"
  shows "loop_inv (snd (h ctx argv s))"
proof -
  obtain calls where "snd (h ctx argv s) = fold (context_run ctx) calls s" using assms(1) unfolding context_handler_def by blast
  moreover have "loop_inv (fold (context_run ctx) calls s)" using assms(2) by (induction calls arbitrary: s) (simp_all add: inv_context)
  ultimately show ?thesis by simp
qed

lemma add_task_set_key:
  "session_orchestrator_add_task ok (session_orchestrator_set_current_session_key orch k) t
   = session_orchestrator_set_current_session_key (session_orchestrator_add_task ok orch t) k"
  by (cases orch) (simp add: session_orchestrator_set_current_session_key_def session_orchestrator_add_task_def)

lemma skill_start:
  assumes "le_alloc env" "skill (fst (parse_slash_command content 64)) = Some (c # cs)"
  shows "\<exists>count. handle_skill_fallback_command env skill m (session_key_of m) content s
    = (True, start_task env (add_to_session env (session_key_of m) (text_message ROLE_USER content)) (skill_task_id env) m count s)"
  using assms
  by (intro exI [of _ "case session_manager_get (al_sessions (add_to_session env (session_key_of m) (text_message ROLE_USER content) s)) (session_key_of m) of
        Some s \<Rightarrow> length (se_messages s) | None \<Rightarrow> 0"])
    (simp add: handle_skill_fallback_command_def start_task_def process_message_async_def add_active_task_def Let_def
      add_task_set_key)

lemma not_plain: "\<not> plain_message m \<longleftrightarrow> starts_with ''/'' (skip_space (in_content m))"
  by (simp add: plain_message_def)

text \<open>What a slash command does when it is no skill, and when it is one.\<close>

lemma command_inv:
  assumes inv: "loop_inv s" and env: "le_alloc env" and cmds: "\<And>c. c \<in> set commands \<Longrightarrow> context_handler (cmd_handler c)"
    and none: "\<not> skill_reached env commands skill m s"
  shows "loop_inv (command_dispatcher env commands skill m key (skip_space (in_content m)) s)"
proof (cases "plain_message m")
  case True
  then have "\<not> starts_with ''/'' (skip_space (in_content m))" by (simp add: plain_message_def)
  with inv show ?thesis by (simp add: command_dispatcher_def command_dispatcher_handle_message_def skip_space_twice Let_def)
next
  case False
  let ?t = "skip_space (in_content m)"
  obtain name args where p: "parse_slash_command ?t 64 = (name, args)" by fastforce
  have slash: "starts_with ''/'' (skip_space ?t)" using False by (simp add: plain_message_def skip_space_twice)
  note d = slash_command_dispatch [OF slash env, unfolded skip_space_twice, OF p, of commands skill m key s]
  have out: "loop_inv (s\<lparr>al_outbound := os\<rparr>)" for os
    by (rule inv_quiet [OF inv, of "\<lambda>s. s\<lparr>al_outbound := os\<rparr>"]) (simp add: quiet_def core_def)
  show ?thesis
  proof (cases "find (\<lambda>c. cmd_name c = name) commands")
    case (Some c)
    then have "context_handler (cmd_handler c)" using cmds by (auto simp: find_Some_iff)
    with d Some inv_handler [OF _ inv] show ?thesis by (simp add: command_dispatcher_def)
  next
    case no_command: None
    show ?thesis
    proof (cases "tool_router_handle_fallback_command (le_print env) (al_registry s) m ?t")
      case (Some o1)
      with d no_command out show ?thesis by (simp add: command_dispatcher_def)
    next
      case None
      then have "skill name = None \<or> skill name = Some []"
        using none False p no_command by (simp add: skill_reached_def plain_message_def Let_def)
      with d no_command None inv_send [OF inv] show ?thesis by (auto simp: command_dispatcher_def)
    qed
  qed
qed

lemma skill_runs:
  assumes env: "le_alloc env" and sk: "skill_reached env commands skill m s"
  shows "\<exists>count. command_dispatcher env commands skill m (session_key_of m) (skip_space (in_content m)) s =
    start_task env (add_to_session env (session_key_of m) (text_message ROLE_USER (skip_space (in_content m)))) (skill_task_id env) m count s"
proof -
  let ?t = "skip_space (in_content m)" and ?k = "session_key_of m"
  obtain name args where p: "parse_slash_command ?t 64 = (name, args)" by fastforce
  then have r: "starts_with ''/'' ?t" "find (\<lambda>c. cmd_name c = name) commands = None" "skill name \<noteq> None" "skill name \<noteq> Some []"
      "tool_router_handle_fallback_command (le_print env) (al_registry s) m ?t = None"
    using sk by (simp_all add: skill_reached_def Let_def)
  have slash: "starts_with ''/'' (skip_space ?t)" using r(1) by (simp add: skip_space_twice)
  obtain c cs where "skill (fst (parse_slash_command ?t 64)) = Some (c # cs)" using p r(3,4) by (cases "skill name") (auto simp: neq_Nil_conv)
  from skill_start [where skill = skill, OF env this, of m s] slash_command_dispatch [OF slash env, unfolded skip_space_twice, OF p, of commands skill m ?k s] r
  show ?thesis by (auto simp: command_dispatcher_def)
qed

lemma dispatch_inv:
  assumes inv: "loop_inv s" and env: "le_alloc env" and cmds: "\<And>c. c \<in> set commands \<Longrightarrow> context_handler (cmd_handler c)"
    and ses: "session_manager_get (al_sessions s) (session_key_of m) = Some x"
    and idle: "skill_reached env commands skill m s \<Longrightarrow> find_task (al_orch s) (session_key_of m) = None \<and> fresh_id (skill_task_id env) s"
  shows "loop_inv (command_dispatcher env commands skill m (session_key_of m) (skip_space (in_content m)) s)"
proof (cases "skill_reached env commands skill m s")
  case True
  then obtain count where "command_dispatcher env commands skill m (session_key_of m) (skip_space (in_content m)) s =
      start_task env (add_to_session env (session_key_of m) (text_message ROLE_USER (skip_space (in_content m)))) (skill_task_id env) m count s"
    using skill_runs [OF env] by blast
  moreover have "find_task (al_orch s) (session_key_of m) = None" "c_trunc 32 (skill_task_id env) \<notin> at_id ` set (so_active_tasks (al_orch s))"
    using idle [OF True] by (simp_all add: fresh_id_def)
  ultimately show ?thesis using inv_start [OF inv env _ ses quiet_add_to_session] by simp
qed (use command_inv [OF inv env cmds] in blast)

lemma inv_process:
  assumes inv: "loop_inv s" and env: "le_alloc env" and plain: "plain_message m" and fresh: "fresh_id (new_task_id env) s"
  shows "loop_inv (process_inbound_message env dispatch m s)"
proof (cases "in_content m = ''''")
  case True
  with inv show ?thesis by (simp add: process_inbound_message_def)
next
  case False
  let ?k = "session_key_of m" and ?s1 = "open_session env (session_key_of m) s"
  have s1: "loop_inv ?s1" "al_orch ?s1 = al_orch s"
    using inv_quiet [OF inv quiet_open_session] changes_fields(1) [OF changes_quiet [OF quiet_open_session]] by blast+
  show ?thesis
  proof (cases "session_manager_get (al_sessions ?s1) ?k")
    case None
    with False plain s1 inv_quiet [OF s1(1) quiet_send_outbound] show ?thesis by (simp add: process_inbound_unfold Let_def)
  next
    case (Some x)
    show ?thesis
    proof (cases "find_task (al_orch s) ?k")
      case None
      with False plain Some s1 inv_accept [OF s1(1) env _ Some] fresh [unfolded fresh_id_def] show ?thesis
        by (simp add: process_inbound_unfold Let_def snapshot_find empty_snapshot_def)
    next
      case (Some t)
      with False plain s1 \<open>session_manager_get (al_sessions ?s1) ?k = Some x\<close> task_not_idle [OF inv Some]
        inv_quiet [OF s1(1) quiet_send_outbound]
      show ?thesis by (simp add: process_inbound_unfold Let_def snapshot_find)
    qed
  qed
qed

lemma inv_command:
  assumes inv: "loop_inv s" and env: "le_alloc env" and slash: "\<not> plain_message m"
    and cmds: "\<And>c. c \<in> set commands \<Longrightarrow> context_handler (cmd_handler c)"
    and idle: "skill_reached env commands skill m s \<Longrightarrow> find_task (al_orch s) (session_key_of m) = None \<and> fresh_id (skill_task_id env) s"
  shows "loop_inv (process_inbound_message env (Some (command_dispatcher env commands skill)) m s)"
proof -
  let ?k = "session_key_of m" and ?s1 = "open_session env (session_key_of m) s"
  have s1: "loop_inv ?s1" "al_orch ?s1 = al_orch s" "al_registry ?s1 = al_registry s"
    using inv_quiet [OF inv quiet_open_session] changes_fields(1) [OF changes_quiet [OF quiet_open_session]]
    by (blast, blast, simp add: open_session_def split: option.split)
  have "in_content m \<noteq> ''''" using slash by (auto simp: plain_message_def skip_space_def starts_with_def)
  then have u: "process_inbound_message env (Some (command_dispatcher env commands skill)) m s =
      (case session_manager_get (al_sessions ?s1) ?k of
         None \<Rightarrow> send_outbound (in_channel m) (in_chat_id m) unavailable_text ?s1
       | Some x \<Rightarrow> command_dispatcher env commands skill m ?k (skip_space (in_content m)) ?s1)"
    using slash by (cases "session_manager_get (al_sessions ?s1) ?k") (simp_all add: process_inbound_message_def plain_message_def Let_def)
  show ?thesis
  proof (cases "session_manager_get (al_sessions ?s1) ?k")
    case None
    then show ?thesis using u inv_send [OF s1(1)] by simp
  next
    case (Some x)
    moreover have "skill_reached env commands skill m ?s1 = skill_reached env commands skill m s" "fresh_id i ?s1 = fresh_id i s" for i
      by (simp_all add: skill_reached_def fresh_id_def s1)
    moreover have "loop_inv (command_dispatcher env commands skill m ?k (skip_space (in_content m)) ?s1)"
      by (rule dispatch_inv [OF s1(1) env _ Some]) (use cmds idle calculation s1(2) in auto)
    ultimately show ?thesis using u by simp
  qed
qed

lemma inv_llm_answer:
  assumes inv: "loop_inv s" and r: "al_llm_requests s = xs @ k # ys"
  shows "loop_inv (handle_llm_callback k err response calls (s\<lparr>al_llm_requests := xs @ ys\<rparr>))"
proof (rule inv_same [OF inv])
  show "changes s (handle_llm_callback k err response calls (s\<lparr>al_llm_requests := xs @ ys\<rparr>)) (al_orch s)
      (al_events s @ [EVENT_LLM_RESULT k err (str_or_empty response) calls]) (xs @ ys) (al_tool_requests s)"
    by (simp add: changes_def core_def handle_llm_callback_def)
qed (use r in \<open>simp_all add: llm_load_def tool_load_def handle_llm_callback_def\<close>)

lemma inv_tool_answer:
  assumes inv: "loop_inv s" and r: "al_tool_requests s = xs @ (k, tc) # ys"
  shows "loop_inv (tool_executor_callback k tc err result (s\<lparr>al_tool_requests := xs @ ys\<rparr>))"
proof (rule inv_same [OF inv])
  show "changes s (tool_executor_callback k tc err result (s\<lparr>al_tool_requests := xs @ ys\<rparr>)) (al_orch s)
      (al_events s @ [EVENT_TOOL_RESULT k (tc_id tc) (tc_name tc) (str_or_empty result) err]) (al_llm_requests s) (xs @ ys)"
    by (simp add: changes_def core_def tool_executor_callback_def)
qed (use r in \<open>simp_all add: llm_load_def tool_load_def tool_executor_callback_def\<close>)

lemma inv_internal_step: "internal_step s s' \<Longrightarrow> loop_inv s \<Longrightarrow> loop_inv s'"
proof (induction rule: internal_step.induct)
  case (handle s e es env)
  then show ?case by (cases e) (simp_all add: handle_event_def inv_llm_event inv_tool_event)
qed (simp_all add: inv_llm_answer inv_tool_answer)

lemma inv_inbound_step: "inbound_step s s' \<Longrightarrow> loop_inv s \<Longrightarrow> loop_inv s'"
proof (induction rule: inbound_step.induct)
  case (receive s ok m)
  then show ?case by (rule inv_quiet [OF _ quiet_receive])
next
  case (process s m ms env dispatch)
  with inv_quiet [OF process.prems quiet_inbox(1), of ms] show ?case by (intro inv_process) (simp_all add: fresh_id_def)
next
  case (command s m ms env commands skill)
  with inv_quiet [OF command.prems quiet_inbox(1), of ms] show ?case
    by (intro inv_command) (simp_all add: fresh_id_def skill_reached_def)
qed

lemma initial_inv: "initial s \<Longrightarrow> loop_inv s"
  by (simp add: initial_def loop_inv_def local_ok_def llm_load_def tool_load_def find_task_def)

lemma reachable_inv: "reachable s \<Longrightarrow> loop_inv s"
  by (induction rule: reachable.induct) (auto simp: initial_inv agent_step_def intro: inv_internal_step inv_inbound_step)

section \<open>Runs end\<close>

text \<open>Every step that is not caused by a new message lowers a measure: first the turns that the tasks
  have left, then the requests and events that are under way.\<close>

definition task_weight :: "int \<Rightarrow> ActiveTask \<Rightarrow> nat" where
  "task_weight m t = 2 * nat (m - ctx_turn (at_ctx t)) + (if ctx_state (at_ctx t) = SESSION_STATE_WAITING_LLM then 1 else 0) + 1"

definition work_left :: "AgentLoop \<Rightarrow> nat" where
  "work_left s = (\<Sum>t\<leftarrow>so_active_tasks (al_orch s). task_weight (max_turns s) t)"

definition under_way :: "AgentLoop \<Rightarrow> nat" where
  "under_way s = 2 * (length (al_llm_requests s) + length (al_tool_requests s)) + length (al_events s)"

lemma sum_update_first:
  "find P xs = Some x \<Longrightarrow> (\<Sum>y\<leftarrow>update_first P f xs. w y) + w x = (\<Sum>y\<leftarrow>xs. w y) + (w (f x) :: nat)"
  by (induction xs) (auto split: if_splits)

lemma sum_remove_first: "find P xs = Some x \<Longrightarrow> (\<Sum>y\<leftarrow>remove_first P xs. w y) + w x = (\<Sum>y\<leftarrow>xs. (w y :: nat))"
  by (induction xs) (auto split: if_splits)

lemma work_update:
  assumes "find_task (al_orch s) k = Some t" and "changes s s' (update_task (al_orch s) k f) e l ts"
  shows "work_left s' + task_weight (max_turns s) t = work_left s + task_weight (max_turns s) (f t)"
  using assms(1) sum_update_first [of "\<lambda>t. at_session_key t = k" "so_active_tasks (al_orch s)" t "task_weight (max_turns s)" f]
  by (simp add: work_left_def changes_fields [OF assms(2)] update_task_def find_task_def)

lemma find_distinct: "distinct (map g xs) \<Longrightarrow> x \<in> set xs \<Longrightarrow> find (\<lambda>y. g y = g x) xs = Some x"
  by (induction xs) (auto simp: image_iff)

lemma find_by_id:
  assumes "unique_tasks orch" and "find_task orch k = Some t"
  shows "find (\<lambda>x. at_id x = at_id t) (so_active_tasks orch) = Some t"
proof -
  have "t \<in> set (so_active_tasks orch)" using assms(2) by (auto simp: find_task_def find_Some_iff)
  with assms(1) show ?thesis by (simp add: unique_tasks_def find_distinct)
qed

lemma work_remove:
  assumes "unique_tasks orch" and "find_task orch k = Some t" and c: "changes s s' (session_orchestrator_remove_task orch (at_id t)) e l ts"
  shows "work_left s' < (\<Sum>t\<leftarrow>so_active_tasks orch. task_weight (max_turns s) t)"
  using sum_remove_first [OF find_by_id [OF assms(1,2)], of "task_weight (max_turns s)"]
  by (simp add: work_left_def changes_fields [OF c] session_orchestrator_remove_task_def task_weight_def)

lemma finish_tool_weight [simp]: "task_weight m (finish_tool t) = task_weight m t"
  by (simp add: task_weight_def finish_tool_def)

definition loop_order :: "(AgentLoop \<times> AgentLoop) set" where
  "loop_order = measures [work_left, under_way]"

lemma llm_event_decreases:
  assumes inv: "loop_inv s" and e: "al_events s = EVENT_LLM_RESULT k err r calls # es" and env: "le_alloc env"
  shows "work_left (handle_event_llm_result env k err r calls (s\<lparr>al_events := es\<rparr>)) < work_left s" (is "work_left ?s' < _")
proof (rule llm_event_cases [OF inv e env refl])
  fix t
  assume t: "find_task (al_orch s) k = Some t"
    and c: "changes s ?s' (session_orchestrator_remove_task (al_orch s) (at_id t)) es (al_llm_requests s) (al_tool_requests s)"
  show ?thesis using work_remove [OF _ t c] inv by (simp add: loop_inv_unique work_left_def [of s])
next
  fix t tcs
  assume t: "find_task (al_orch s) k = Some t" and w: "ctx_state (at_ctx t) = SESSION_STATE_WAITING_LLM"
    and c: "changes s ?s' (update_task (al_orch s) k (start_tools (length tcs))) es (al_llm_requests s)
         (al_tool_requests s @ map (tool_request k) tcs)"
  show ?thesis using work_update [OF t c] w by (simp add: task_weight_def start_tools_def)
qed

lemma tool_event_decreases:
  assumes inv: "loop_inv s" and e: "al_events s = EVENT_TOOL_RESULT k i n r err # es" and env: "le_alloc env"
  shows "(handle_event_tool_result env k i n r err (s\<lparr>al_events := es\<rparr>), s) \<in> loop_order" (is "(?s', _) \<in> _")
proof (rule tool_event_cases [OF inv e env refl])
  fix t
  assume t: "find_task (al_orch s) k = Some t"
    and c: "changes s ?s' (update_task (al_orch s) k finish_tool) es (al_llm_requests s) (al_tool_requests s)"
  show ?thesis using work_update [OF t c] e by (simp add: loop_order_def under_way_def changes_fields [OF c])
next
  fix t
  let ?o1 = "update_task (al_orch s) k finish_tool"
  assume t: "find_task (al_orch s) k = Some t"
    and c: "changes s ?s' (session_orchestrator_remove_task ?o1 (at_id (finish_tool t))) es (al_llm_requests s) (al_tool_requests s)"
  have o1: "unique_tasks ?o1" "find_task ?o1 k = Some (finish_tool t)"
    using inv t by (simp_all add: loop_inv_unique unique_update find_task_update)
  have "(\<Sum>t\<leftarrow>so_active_tasks ?o1. task_weight (max_turns s) t) = work_left s"
    using sum_update_first [of "\<lambda>t. at_session_key t = k" "so_active_tasks (al_orch s)" t "task_weight (max_turns s)" finish_tool] t
    by (simp add: update_task_def find_task_def work_left_def)
  with work_remove [OF o1 c] show ?thesis by (simp add: loop_order_def)
next
  fix t
  assume t: "find_task (al_orch s) k = Some t" and ok: "task_ok (max_turns s) 0 1 t" "ctx_turn (at_ctx t) < max_turns s"
    and c: "changes s ?s' (update_task (update_task (al_orch s) k finish_tool) k start_turn) (es @ fst (turn_request s k))
         (al_llm_requests s @ snd (turn_request s k)) (al_tool_requests s)"
  from c have c2: "changes s ?s' (update_task (al_orch s) k (\<lambda>t. start_turn (finish_tool t))) (es @ fst (turn_request s k))
         (al_llm_requests s @ snd (turn_request s k)) (al_tool_requests s)" by (simp add: update_task_twice)
  have "task_weight (max_turns s) (start_turn (finish_tool t)) < task_weight (max_turns s) t"
    using ok by (auto simp: task_weight_def start_turn_def finish_tool_def task_ok_def)
  with work_update [OF t c2] show ?thesis by (simp add: loop_order_def)
qed

lemma internal_step_decreases: "internal_step s s' \<Longrightarrow> loop_inv s \<Longrightarrow> (s', s) \<in> loop_order"
proof (induction rule: internal_step.induct)
  case (llm_answer s xs k ys err response calls)
  then show ?case
    by (simp add: loop_order_def work_left_def under_way_def handle_llm_callback_def max_turns_def)
next
  case (tool_answer s xs k tc ys err result)
  then show ?case
    by (simp add: loop_order_def work_left_def under_way_def tool_executor_callback_def max_turns_def)
next
  case (handle s e es env)
  then show ?case
  proof (cases e)
    case (EVENT_LLM_RESULT k err r calls)
    with llm_event_decreases [OF handle(3) handle(1) [unfolded EVENT_LLM_RESULT] handle(2)] show ?thesis
      by (simp add: handle_event_def loop_order_def)
  next
    case (EVENT_TOOL_RESULT k i n r err)
    with tool_event_decreases [OF handle(3) handle(1) [unfolded EVENT_TOOL_RESULT] handle(2)] show ?thesis
      by (simp add: handle_event_def)
  qed
qed

text \<open>How often the model is asked for a session: at most once for each turn that its task has left.\<close>

definition turns_left :: "AgentLoop \<Rightarrow> string \<Rightarrow> nat" where
  "turns_left s k = (case find_task (al_orch s) k of Some t \<Rightarrow> nat (max_turns s - ctx_turn (at_ctx t)) | None \<Rightarrow> 0)"

definition asks_model :: "string \<Rightarrow> AgentLoop \<times> AgentLoop \<Rightarrow> bool" where
  "asks_model k p \<longleftrightarrow> count_list (al_llm_requests (fst p)) k < count_list (al_llm_requests (snd p)) k"

lemma step_asks:
  assumes "find_task (al_orch s) k = Some t" and c: "changes s s' orch e (al_llm_requests s @ ks) ts"
    and "\<And>k'. k' \<noteq> k \<Longrightarrow> find_task orch k' = find_task (al_orch s) k'" "set ks \<subseteq> {k}"
    and "find_task orch k = None \<and> ks = [] \<or> (\<exists>t'. find_task orch k = Some t' \<and>
      nat (max_turns s - ctx_turn (at_ctx t')) + (if ks = [] then 0 else 1) \<le> nat (max_turns s - ctx_turn (at_ctx t)))"
  shows "turns_left s' j + (if asks_model j (s, s') then 1 else 0) \<le> turns_left s j"
proof (cases "j = k")
  case True
  have "\<not> asks_model k (s, s')" if "ks = []" using that by (simp add: asks_model_def changes_fields [OF c])
  then show ?thesis using True assms(1,5) by (auto simp: turns_left_def changes_fields [OF c] split: if_splits)
next
  case False
  then have "count_list ks j = 0" using assms(4) by (auto simp: count_list_0_iff)
  then show ?thesis using False assms(3) by (simp add: turns_left_def asks_model_def changes_fields [OF c] split: option.split)
qed

lemma task_steps_turn [simp]:
  "ctx_turn (at_ctx (start_tools n t)) = ctx_turn (at_ctx t)" "ctx_turn (at_ctx (finish_tool t)) = ctx_turn (at_ctx t)"
  "ctx_turn (at_ctx (start_turn t)) = ctx_turn (at_ctx t) + 1"
  by (simp_all add: start_tools_def finish_tool_def start_turn_def)

lemma llm_event_asks:
  assumes inv: "loop_inv s" and e: "al_events s = EVENT_LLM_RESULT k err r calls # es" and env: "le_alloc env"
    and s': "s' = handle_event_llm_result env k err r calls (s\<lparr>al_events := es\<rparr>)"
  shows "turns_left s' j + (if asks_model j (s, s') then 1 else 0) \<le> turns_left s j"
proof (rule llm_event_cases [OF inv e env s'])
  fix t
  assume t: "find_task (al_orch s) k = Some t"
    and c: "changes s s' (session_orchestrator_remove_task (al_orch s) (at_id t)) es (al_llm_requests s) (al_tool_requests s)"
  have u: "distinct (map at_id (so_active_tasks (al_orch s)))" "distinct (map at_session_key (so_active_tasks (al_orch s)))"
    using inv by (simp_all add: loop_inv_def)
  show ?thesis using step_asks [OF t, of s' _ es "[]"] c find_task_remove [OF u t] by simp
next
  fix t tcs
  assume t: "find_task (al_orch s) k = Some t"
    and c: "changes s s' (update_task (al_orch s) k (start_tools (length tcs))) es (al_llm_requests s)
         (al_tool_requests s @ map (tool_request k) tcs)"
  show ?thesis using step_asks [OF t, of s' _ es "[]"] c t by (simp add: find_task_update)
qed

lemma tool_event_asks:
  assumes inv: "loop_inv s" and e: "al_events s = EVENT_TOOL_RESULT k i n r err # es" and env: "le_alloc env"
    and s': "s' = handle_event_tool_result env k i n r err (s\<lparr>al_events := es\<rparr>)"
  shows "turns_left s' j + (if asks_model j (s, s') then 1 else 0) \<le> turns_left s j"
proof (rule tool_event_cases [OF inv e env s'])
  fix t
  assume t: "find_task (al_orch s) k = Some t"
    and c: "changes s s' (update_task (al_orch s) k finish_tool) es (al_llm_requests s) (al_tool_requests s)"
  show ?thesis using step_asks [OF t, of s' _ es "[]"] c t by (simp add: find_task_update)
next
  fix t
  let ?o1 = "update_task (al_orch s) k finish_tool"
  assume t: "find_task (al_orch s) k = Some t"
    and c: "changes s s' (session_orchestrator_remove_task ?o1 (at_id (finish_tool t))) es (al_llm_requests s) (al_tool_requests s)"
  have u: "distinct (map at_id (so_active_tasks ?o1))" "distinct (map at_session_key (so_active_tasks ?o1))"
    using inv unique_update [of finish_tool "al_orch s" k] by (simp_all add: loop_inv_unique unique_tasks_def)
  have f: "find_task ?o1 k = Some (finish_tool t)" using t by (simp add: find_task_update)
  show ?thesis using step_asks [OF t, of s' _ es "[]"] c find_task_remove [OF u f] by (simp add: find_task_update)
next
  fix t
  assume t: "find_task (al_orch s) k = Some t" and ok: "ctx_turn (at_ctx t) < max_turns s"
    and c: "changes s s' (update_task (update_task (al_orch s) k finish_tool) k start_turn) (es @ fst (turn_request s k))
         (al_llm_requests s @ snd (turn_request s k)) (al_tool_requests s)"
  have f: "find_task (update_task (update_task (al_orch s) k finish_tool) k start_turn) k' =
      (if k' = k then Some (start_turn (finish_tool t)) else find_task (al_orch s) k')" for k'
    using t by (simp add: find_task_update)
  have n: "nat (max_turns s - ctx_turn (at_ctx (start_turn (finish_tool t)))) + 1 \<le> nat (max_turns s - ctx_turn (at_ctx t))" using ok by simp
  show ?thesis
  proof (rule step_asks [OF t c])
    show "set (snd (turn_request s k)) \<subseteq> {k}" by (simp add: turn_request_def)
  qed (use f n in \<open>auto split: if_splits\<close>)
qed

lemma internal_step_asks:
  assumes "internal_step s s'" "loop_inv s"
  shows "turns_left s' j + (if asks_model j (s, s') then 1 else 0) \<le> turns_left s j"
  using assms
proof (induction rule: internal_step.induct)
  case (llm_answer s xs k ys err response calls)
  then show ?case by (simp add: turns_left_def asks_model_def handle_llm_callback_def max_turns_def split: option.split)
next
  case (tool_answer s xs k tc ys err result)
  then show ?case by (simp add: turns_left_def asks_model_def tool_executor_callback_def max_turns_def split: option.split)
next
  case (handle s e es env)
  then show ?case
  proof (cases e)
    case (EVENT_LLM_RESULT k err r calls)
    then show ?thesis using llm_event_asks [OF handle(3) handle(1) [unfolded EVENT_LLM_RESULT] handle(2) refl] by (simp add: handle_event_def)
  next
    case (EVENT_TOOL_RESULT k i n r err)
    then show ?thesis using tool_event_asks [OF handle(3) handle(1) [unfolded EVENT_TOOL_RESULT] handle(2) refl] by (simp add: handle_event_def)
  qed
qed

text \<open>A run without new messages: each state comes from the one before by an answer or the handling of an event.\<close>

fun internal_run :: "AgentLoop list \<Rightarrow> bool" where
  "internal_run (s # s' # ss) \<longleftrightarrow> internal_step s s' \<and> internal_run (s' # ss)"
| "internal_run ss \<longleftrightarrow> True"

lemma run_asks:
  "internal_run ss \<Longrightarrow> ss \<noteq> [] \<Longrightarrow> reachable (hd ss) \<Longrightarrow> length (filter (asks_model k) (zip ss (tl ss))) \<le> turns_left (hd ss) k"
proof (induction ss rule: internal_run.induct)
  case (1 s s' ss)
  have "reachable s'" using 1 by (auto intro: reachable.step simp: agent_step_def)
  then have "length (filter (asks_model k) (zip (s' # ss) ss)) \<le> turns_left s' k" using 1 by simp
  moreover have "turns_left s' k + (if asks_model k (s, s') then 1 else 0) \<le> turns_left s k"
    using internal_step_asks reachable_inv 1(2,4) by simp
  ultimately show ?case by (cases "asks_model k (s, s')") simp_all
qed simp_all

section \<open>Properties of the runs\<close>

lemma taskI: "unique_tasks orch \<Longrightarrow> t \<in> set (so_active_tasks orch) \<Longrightarrow> find_task orch (at_session_key t) = Some t"
  by (simp add: unique_tasks_def find_task_def find_distinct)

text \<open>A state from which a message has just been accepted.\<close>

definition demo_env :: loop_env where
  "demo_env = \<lparr>le_now = 10, le_timestamp = ''t'', le_monotonic_sec = 7, le_rand = 42, le_alloc = True, le_print = (\<lambda>j. Some ''{}''),
     le_parse = (\<lambda>s. None), le_open_ok = True, le_rename_ok = True, le_append_history = (\<lambda>s. True), le_consolidate_ok = True\<rparr>"

definition demo_message :: InboundMessage where
  "demo_message = \<lparr>in_channel = ''cli'', in_chat_id = ''1'', in_content = ''hi'', in_sender_name = '''',
     in_attachments = string_array_new, in_no_session_record = True\<rparr>"

definition demo_loop :: AgentLoop where
  "demo_loop = \<lparr>al_sessions = put_session (new_session ''cli:1'' 5) (session_manager_new ''w''), al_orch = session_orchestrator_new,
     al_registry = \<lparr>tr_tools = [], tr_capacity = 8\<rparr>, al_config = None, al_fs = (\<lambda>p. None), al_outbound = [], al_events = [],
     al_inbox = [demo_message], al_running = True, al_llm_requests = [], al_tool_requests = [],
     al_has_provider = True, al_has_memory = False\<rparr>"

definition demo_busy :: AgentLoop where
  "demo_busy = process_inbound_message demo_env None demo_message (demo_loop\<lparr>al_inbox := []\<rparr>)"

lemma demo_key: "session_key_of demo_message = ''cli:1''"
  by (simp add: session_key_of_def demo_message_def c_trunc_def)

lemma demo_session_found: "session_manager_get (al_sessions demo_loop) ''cli:1'' = Some (new_session ''cli:1'' 5)"
  using session_get_put [of "session_manager_new ''w''" "new_session ''cli:1'' 5" "''cli:1''"]
  by (simp add: demo_loop_def sessions.inv_empty new_session_def)

lemma demo_plain: "plain_message demo_message" "in_content demo_message \<noteq> ''''"
  by (simp_all add: plain_message_def demo_message_def skip_space_def starts_with_def)

lemma demo_initial: "initial demo_loop"
  by (simp add: initial_def demo_loop_def sessions.inv_put sessions.inv_empty session_orchestrator_new_def)

lemma demo_busy_accept: "demo_busy = accept_message demo_env demo_message 0 (demo_loop\<lparr>al_inbox := []\<rparr>)"
  using demo_session_found
  by (simp add: demo_busy_def process_inbound_unfold demo_plain Let_def demo_key open_session_def snapshot_find find_task_def
      empty_snapshot_def session_orchestrator_new_def new_session_def demo_loop_def)

lemma demo_busy_reachable: "reachable demo_busy"
proof (rule reachable.step [OF reachable.start [OF demo_initial]])
  have "inbound_step demo_loop (process_inbound_message demo_env None demo_message (demo_loop\<lparr>al_inbox := []\<rparr>))"
    by (rule inbound_step.process [where ms = "[]"])
      (simp_all add: demo_plain demo_loop_def demo_env_def session_orchestrator_new_def fresh_id_def)
  then show "agent_step demo_loop demo_busy" by (simp add: agent_step_def demo_busy_def)
qed

lemma demo_busy_state:
  "so_active_tasks (al_orch demo_busy) = [accepted_task demo_env demo_message 0]" "al_events demo_busy = []"
  "al_llm_requests demo_busy = [''cli:1'']" "al_tool_requests demo_busy = []"
proof -
  have "find_task (al_orch (demo_loop\<lparr>al_inbox := []\<rparr>)) (session_key_of demo_message) = None" "le_alloc demo_env"
    by (simp_all add: demo_loop_def demo_env_def find_task_def session_orchestrator_new_def)
  from accept_effect [OF this(2,1), of 0] obtain orch where
    "so_active_tasks orch = [accepted_task demo_env demo_message 0]"
    "changes (demo_loop\<lparr>al_inbox := []\<rparr>) demo_busy orch [] [''cli:1''] []"
    by (auto simp: demo_busy_accept demo_key turn_request_def demo_loop_def session_orchestrator_new_def)
  with changes_fields [OF this(2)] show "so_active_tasks (al_orch demo_busy) = [accepted_task demo_env demo_message 0]"
    "al_events demo_busy = []" "al_llm_requests demo_busy = [''cli:1'']" "al_tool_requests demo_busy = []" by simp_all
qed

lemma load_exists:
  assumes "al_llm_requests s \<noteq> [] \<or> al_tool_requests s \<noteq> [] \<or> al_events s \<noteq> []"
  shows "\<exists>k. 0 < llm_load s k + tool_load s k"
  using assms
proof (elim disjE)
  assume "al_llm_requests s \<noteq> []"
  then have "0 < llm_load s (hd (al_llm_requests s))" by (auto simp: llm_load_def neq_Nil_conv)
  then show ?thesis by (intro exI [of _ "hd (al_llm_requests s)"]) simp
next
  assume "al_tool_requests s \<noteq> []"
  then have "0 < tool_load s (fst (hd (al_tool_requests s)))" by (auto simp: tool_load_def neq_Nil_conv)
  then show ?thesis by (intro exI [of _ "fst (hd (al_tool_requests s))"]) simp
next
  assume "al_events s \<noteq> []"
  then have "0 < llm_load s (ev_session_key (hd (al_events s))) + tool_load s (ev_session_key (hd (al_events s)))"
    by (cases "hd (al_events s)") (auto simp: llm_load_def tool_load_def neq_Nil_conv)
  then show ?thesis by (rule exI)
qed

lemma reachable_task:
  assumes "reachable s" and "t \<in> set (so_active_tasks (al_orch s))"
  shows "session_manager_get (al_sessions s) (at_session_key t) \<noteq> None
    \<and> task_ok (max_turns s) (llm_load s (at_session_key t)) (tool_load s (at_session_key t)) t"
proof -
  have inv: "loop_inv s" using assms(1) by (rule reachable_inv)
  then have "unique_tasks (al_orch s)" by (simp add: loop_inv_unique)
  then have "find_task (al_orch s) (at_session_key t) = Some t" using assms(2) by (rule taskI)
  with local_of_inv [OF inv, of "at_session_key t"] show ?thesis by (simp add: local_ok_def)
qed

lemma reachable_no_task:
  assumes "reachable s" and "k \<notin> at_session_key ` set (so_active_tasks (al_orch s))"
  shows "llm_load s k = 0 \<and> tool_load s k = 0"
proof -
  have "find_task (al_orch s) k = None" using assms(2) by (auto simp: find_task_def find_None_iff)
  with local_of_inv [OF reachable_inv [OF assms(1)], of k] show ?thesis by (simp add: local_ok_def)
qed

text \<open>Claim C1. In every state that is reachable by messages, slash commands, answers and events, while memory is available, no new task gets the id
  of an active one and no slash command starts a skill for a session that has a task (the code tests neither; the theory
  \<open>CommandDispatcher\<close> states what such a command breaks), a session has at most one active task; every active task belongs to a
  session of the table, has used between one and \<open>max_turns\<close> model calls, and waits either for
  exactly one answer of the model and no tool, or for exactly as many tool answers as it has
  counted, at least one, and no model answer; a session without a task waits for nothing.\<close>

theorem agent_loop_tasks_consistent:
  assumes "reachable s"
  shows "distinct (map at_session_key (so_active_tasks (al_orch s)))
    \<and> (\<forall>t \<in> set (so_active_tasks (al_orch s)).
         session_manager_get (al_sessions s) (at_session_key t) \<noteq> None
         \<and> 1 \<le> ctx_turn (at_ctx t) \<and> ctx_turn (at_ctx t) \<le> max_turns s
         \<and> (ctx_state (at_ctx t) = SESSION_STATE_WAITING_LLM
              \<and> llm_load s (at_session_key t) = 1 \<and> tool_load s (at_session_key t) = 0
            \<or> ctx_state (at_ctx t) = SESSION_STATE_WAITING_TOOL
              \<and> llm_load s (at_session_key t) = 0 \<and> 1 \<le> tool_load s (at_session_key t)
              \<and> at_pending_tool_count t = int (tool_load s (at_session_key t))))
    \<and> (\<forall>k. k \<notin> at_session_key ` set (so_active_tasks (al_orch s)) \<longrightarrow> llm_load s k = 0 \<and> tool_load s k = 0)"
proof (intro conjI ballI allI impI)
  show "distinct (map at_session_key (so_active_tasks (al_orch s)))"
    using reachable_inv [OF assms] by (simp add: loop_inv_def)
qed (use reachable_task [OF assms] reachable_no_task [OF assms] in \<open>auto simp: task_ok_def\<close>)

theorem agent_loop_tasks_consistent_witness:
  "reachable demo_busy \<and> llm_load demo_busy ''cli:1'' = 1 \<and> tool_load demo_busy ''cli:1'' = 0
   \<and> session_manager_get (al_sessions demo_busy) ''cli:1'' \<noteq> None"
  using agent_loop_tasks_consistent [OF demo_busy_reachable] demo_busy_reachable demo_key
  by (simp add: demo_busy_state accepted_task_simps)

text \<open>Claim C32. No task is stuck: in every state that is reachable while memory is available, no new task gets the id of an active one and no slash command
  starts a skill for a session that has a task, there is an active task exactly when the system can make
  a step of its own, an answer of the model or a tool or the handling of an event. So when nothing is
  under way any more, every accepted message has been brought to its end.\<close>

theorem no_task_stuck:
  assumes "reachable s"
  shows "so_active_tasks (al_orch s) \<noteq> [] \<longleftrightarrow> (\<exists>s'. internal_step s s')"
proof
  have inv: "loop_inv s" using assms by (rule reachable_inv)
  assume "so_active_tasks (al_orch s) \<noteq> []"
  then obtain t where t: "t \<in> set (so_active_tasks (al_orch s))" by (meson last_in_set)
  let ?k = "at_session_key t"
  have "find_task (al_orch s) ?k = Some t" using inv t by (simp add: taskI loop_inv_unique)
  with local_of_inv [OF inv, of ?k] have "0 < llm_load s ?k + tool_load s ?k" by (auto simp: local_ok_def task_ok_def)
  then have "al_llm_requests s \<noteq> [] \<or> al_tool_requests s \<noteq> [] \<or> al_events s \<noteq> []" by (auto simp: llm_load_def tool_load_def)
  then show "\<exists>s'. internal_step s s'"
  proof (elim disjE)
    assume "al_llm_requests s \<noteq> []"
    then obtain k ys where "al_llm_requests s = [] @ k # ys" by (auto simp: neq_Nil_conv)
    then show ?thesis by (blast intro: internal_step.llm_answer)
  next
    assume "al_tool_requests s \<noteq> []"
    then obtain k tc ys where "al_tool_requests s = [] @ (k, tc) # ys" by (auto simp: neq_Nil_conv)
    then show ?thesis by (blast intro: internal_step.tool_answer)
  next
    assume "al_events s \<noteq> []"
    then obtain e es where "al_events s = e # es" by (auto simp: neq_Nil_conv)
    then have "internal_step s (handle_event demo_env e (s\<lparr>al_events := es\<rparr>))" by (rule internal_step.handle) (simp add: demo_env_def)
    then show ?thesis by blast
  qed
next
  have inv: "loop_inv s" using assms by (rule reachable_inv)
  assume "\<exists>s'. internal_step s s'"
  then have "al_llm_requests s \<noteq> [] \<or> al_tool_requests s \<noteq> [] \<or> al_events s \<noteq> []" by (auto elim: internal_stepE)
  then have "\<exists>k. 0 < llm_load s k + tool_load s k" by (rule load_exists)
  then obtain k where "0 < llm_load s k + tool_load s k" by (erule exE)
  with local_of_inv [OF inv, of k] have "find_task (al_orch s) k \<noteq> None" by (auto simp: local_ok_def split: option.splits)
  then show "so_active_tasks (al_orch s) \<noteq> []" by (auto simp: find_task_def)
qed

theorem no_task_stuck_witness: "reachable demo_busy \<and> (\<exists>s'. internal_step demo_busy s')"
  using no_task_stuck [OF demo_busy_reachable] demo_busy_reachable by (simp add: demo_busy_state)

text \<open>Claim C2. The runs end: from no state that is reachable while memory is available, no new task gets the id of an active one and no skill
  command comes to a session that has a task, there is an infinite sequence of answers and handled events without new messages; and in each such
  sequence the model is asked for a session at most once for each turn that its task has left, which for any number of tools is
  fewer than \<open>max_turns\<close> times after the call with which the task began.\<close>

theorem agent_runs_terminate:
  assumes "ss \<noteq> []" "reachable (hd ss)" "internal_run ss"
  shows "wf {(s', s). reachable s \<and> internal_step s s'} \<and>
    length (filter (asks_model k) (zip ss (tl ss))) \<le> turns_left (hd ss) k \<and> int (turns_left (hd ss) k) < max_turns (hd ss)"
proof (intro conjI)
  show "wf {(s', s). reachable s \<and> internal_step s s'}"
  proof (rule wf_subset)
    show "wf loop_order" by (simp add: loop_order_def)
    show "{(s', s). reachable s \<and> internal_step s s'} \<subseteq> loop_order"
      using internal_step_decreases reachable_inv by auto
  qed
  show "length (filter (asks_model k) (zip ss (tl ss))) \<le> turns_left (hd ss) k" using run_asks assms by blast
  show "int (turns_left (hd ss) k) < max_turns (hd ss)"
    using local_of_inv [OF reachable_inv [OF assms(2)], of k] max_turns_pos [of "hd ss"]
    by (auto simp: turns_left_def local_ok_def task_ok_def split: option.splits)
qed

section \<open>Replies\<close>

text \<open>A message for a session that has a task is refused and changes nothing but the outbound queue: the
  sender gets the busy text and the tasks, sessions, files and requests stay as they are.\<close>

theorem busy_session_refuses:
  assumes "reachable s" and "so_active_tasks (al_orch s) \<noteq> []" and "at_session_key (hd (so_active_tasks (al_orch s))) = session_key_of m"
    and "plain_message m" and "in_content m \<noteq> ''''"
  shows "process_inbound_message env dispatch m s = send_outbound (in_channel m) (in_chat_id m) busy_text s"
proof -
  let ?t = "hd (so_active_tasks (al_orch s))"
  have inv: "loop_inv s" using assms(1) by (rule reachable_inv)
  have t: "find_task (al_orch s) (session_key_of m) = Some ?t"
    using taskI [of "al_orch s" ?t] assms(2,3) inv by (simp add: loop_inv_unique)
  obtain x where "session_manager_get (al_sessions s) (session_key_of m) = Some x"
    using reachable_task [OF assms(1), of ?t] assms(2,3) by auto
  then show ?thesis
    using assms(4,5) t task_not_idle [OF inv t] by (simp add: process_inbound_unfold Let_def open_session_def snapshot_find)
qed

theorem busy_session_refuses_witness:
  "process_inbound_message demo_env None demo_message demo_busy = send_outbound ''cli'' ''1'' busy_text demo_busy"
  using busy_session_refuses [OF demo_busy_reachable, of demo_message demo_env None]
  by (simp add: demo_busy_state accepted_task_simps demo_plain) (simp add: demo_message_def)

lemma outbound_of_sessions [simp]:
  "al_outbound (add_to_session env k m s) = al_outbound s"
  "al_outbound (save_session env k s) = al_outbound s" "al_outbound (record_message env k b m s) = al_outbound s"
  "al_outbound (remove_active_task env i s) = al_outbound s"
  by (simp_all add: add_to_session_def save_session_def record_message_def remove_active_task_def Let_def split: option.splits prod.splits)

lemma llm_result_text:
  assumes "find_task (al_orch s) k = Some t" and "session_manager_get (al_sessions s) k = Some x" and "err_code err = ERR_NONE"
  shows "handle_event_llm_result env k err r [] s =
    handle_llm_text_response env k r (fill_snapshot t) (strip_think_tags True (Some r)) s"
  using assms by (simp add: handle_event_llm_result_def snapshot_of_task)

lemma snapshot_address:
  "sn_channel (fill_snapshot t) = c_trunc 64 (ctx_channel (at_ctx t))" "sn_chat_id (fill_snapshot t) = c_trunc 512 (ctx_chat_id (at_ctx t))"
  by (simp_all add: fill_snapshot_def empty_snapshot_def)

text \<open>A model answer without tool calls ends the task with exactly one message to the chat that asked: the
  reply, or the confirmation of a reminder that was scheduled instead; afterwards the session has
  no task and its address is free for the next message.\<close>

theorem text_answer_replies_once:
  assumes "reachable s" and "al_events s = EVENT_LLM_RESULT k err r [] # es" and "err_code err = ERR_NONE" and "le_alloc env"
  shows "\<exists>t. find_task (al_orch s) k = Some t
    \<and> al_outbound (handle_event env (hd (al_events s)) (s\<lparr>al_events := es\<rparr>)) = al_outbound s @
        [\<lparr>out_channel = c_trunc 64 (ctx_channel (at_ctx t)), out_chat_id = c_trunc 512 (ctx_chat_id (at_ctx t)),
          out_content = assistant_reply (s\<lparr>al_events := es\<rparr>) r (fill_snapshot t) (strip_think_tags True (Some r)),
          out_attachments = string_array_new\<rparr>]
    \<and> find_task (al_orch (handle_event env (hd (al_events s)) (s\<lparr>al_events := es\<rparr>))) k = None"
proof -
  have inv: "loop_inv s" using assms(1) by (rule reachable_inv)
  obtain t x where t: "find_task (al_orch s) k = Some t" "session_manager_get (al_sessions s) k = Some x"
    and ok: "task_ok (max_turns s) (llm_load s k) (tool_load s k) t"
    by (rule event_task [OF inv assms(2), of k]) auto
  let ?s0 = "s\<lparr>al_events := es\<rparr>"
  have h: "handle_event env (hd (al_events s)) ?s0 = handle_llm_text_response env k r (fill_snapshot t) (strip_think_tags True (Some r)) ?s0"
    using t assms(2,3) llm_result_text [of ?s0 k t x err env r] by (simp add: handle_event_def)
  have out: "al_outbound (handle_llm_text_response env k r (fill_snapshot t) c ?s0) = al_outbound s @
        [\<lparr>out_channel = c_trunc 64 (ctx_channel (at_ctx t)), out_chat_id = c_trunc 512 (ctx_chat_id (at_ctx t)),
          out_content = assistant_reply ?s0 r (fill_snapshot t) c, out_attachments = string_array_new\<rparr>]" for c
    by (simp add: handle_llm_text_response_def Let_def snapshot_address send_outbound_def)
  have "length (at_id t) < 32" using ok by (simp add: task_ok_def)
  with text_response_effect [of ?s0 env k r "fill_snapshot t" "strip_think_tags True (Some r)"]
  have "al_orch (handle_event env (hd (al_events s)) ?s0) = session_orchestrator_remove_task (al_orch s) (at_id t)"
    unfolding h using changes_fields(1) by simp
  moreover have "find_task (session_orchestrator_remove_task (al_orch s) (at_id t)) k = None"
    using find_task_remove [OF _ _ t(1), of k] inv by (simp add: loop_inv_def)
  ultimately show ?thesis using t(1) out h by auto
qed

definition demo_answered :: AgentLoop where
  "demo_answered = handle_llm_callback ''cli:1'' no_error (Some ''ok'') [] (demo_busy\<lparr>al_llm_requests := []\<rparr>)"

lemma demo_answered_reachable: "reachable demo_answered"
proof (rule reachable.step [OF demo_busy_reachable])
  have "internal_step demo_busy (handle_llm_callback ''cli:1'' no_error (Some ''ok'') [] (demo_busy\<lparr>al_llm_requests := [] @ []\<rparr>))"
    by (rule internal_step.llm_answer) (simp add: demo_busy_state)
  then show "agent_step demo_busy demo_answered" by (simp add: agent_step_def demo_answered_def)
qed

lemma demo_answered_state:
  "al_events demo_answered = [EVENT_LLM_RESULT ''cli:1'' no_error ''ok'' []]" "al_orch demo_answered = al_orch demo_busy"
  "al_outbound demo_answered = al_outbound demo_busy" "al_sessions demo_answered = al_sessions demo_busy" "err_code no_error = ERR_NONE"
  by (simp_all add: demo_answered_def handle_llm_callback_def demo_busy_state error_new_def)

theorem text_answer_replies_once_witness:
  "\<exists>t. find_task (al_orch demo_answered) ''cli:1'' = Some t
    \<and> al_outbound (handle_event demo_env (hd (al_events demo_answered)) (demo_answered\<lparr>al_events := []\<rparr>)) = al_outbound demo_answered @
        [\<lparr>out_channel = c_trunc 64 (ctx_channel (at_ctx t)), out_chat_id = c_trunc 512 (ctx_chat_id (at_ctx t)),
          out_content = assistant_reply (demo_answered\<lparr>al_events := []\<rparr>) ''ok'' (fill_snapshot t) (strip_think_tags True (Some ''ok'')),
          out_attachments = string_array_new\<rparr>]
    \<and> find_task (al_orch (handle_event demo_env (hd (al_events demo_answered)) (demo_answered\<lparr>al_events := []\<rparr>))) ''cli:1'' = None"
  by (rule text_answer_replies_once [OF demo_answered_reachable demo_answered_state(1,5)]) (simp add: demo_env_def)

theorem agent_runs_terminate_witness:
  "wf {(s', s). reachable s \<and> internal_step s s'} \<and>
   length (filter (asks_model ''cli:1'') (zip [demo_busy, demo_answered] [demo_answered])) \<le> turns_left demo_busy ''cli:1'' \<and>
   int (turns_left demo_busy ''cli:1'') < max_turns demo_busy"
proof -
  have "internal_step demo_busy (handle_llm_callback ''cli:1'' no_error (Some ''ok'') [] (demo_busy\<lparr>al_llm_requests := [] @ []\<rparr>))"
    by (rule internal_step.llm_answer) (simp add: demo_busy_state)
  then have "internal_run [demo_busy, demo_answered]" by (simp add: demo_answered_def)
  with agent_runs_terminate [of "[demo_busy, demo_answered]" "''cli:1''"] demo_busy_reachable show ?thesis by simp
qed

text \<open>Rolling back what was added after the count was taken.\<close>

lemma rollback_after_add:
  "c \<le> length (se_messages x) \<Longrightarrow> se_messages (session_rollback_messages n (session_add_message n' x m) c) = take c (se_messages x)"
  "c \<le> length (se_messages x) \<Longrightarrow> se_messages (session_rollback_messages n x c) = take c (se_messages x)"
  by (simp_all add: session_rollback_messages_def session_add_message_def)

lemma remove_rolls_back:
  assumes "wf_manager (al_sessions s)" and "find (\<lambda>t. at_id t = i) (so_active_tasks (al_orch s)) = Some t"
    and "ctx_no_session_record (at_ctx t)" "at_session_key t \<noteq> ''''"
  shows "session_manager_get (al_sessions (remove_active_task env i s)) (at_session_key t) =
    map_option (\<lambda>x. session_rollback_messages (le_now env) x (ctx_session_msg_count_before (at_ctx t)))
      (session_manager_get (al_sessions s) (at_session_key t))"
  using assms sessions.get_upd [of "al_sessions s"
      "\<lambda>x. session_rollback_messages (le_now env) x (ctx_session_msg_count_before (at_ctx t))" "at_session_key t" "at_session_key t"]
  by (simp add: remove_active_task_def)

lemma add_to_session_get:
  assumes "wf_manager (al_sessions s)"
  shows "session_manager_get (al_sessions (add_to_session env k m s)) k
    = map_option (\<lambda>x. session_add_message (le_now env) x m) (session_manager_get (al_sessions s) k)"
  using sessions.get_upd [OF assms, of "\<lambda>x. session_add_message (le_now env) x m" k k] by (simp add: add_to_session_def)

lemma send_outbound_same [simp]:
  "al_sessions (send_outbound a b c s) = al_sessions s" "al_orch (send_outbound a b c s) = al_orch s" "al_fs (send_outbound a b c s) = al_fs s"
  by (simp_all add: send_outbound_def)

lemma add_to_session_same [simp]: "al_orch (add_to_session env k m s) = al_orch s" "al_fs (add_to_session env k m s) = al_fs s"
  by (simp_all add: add_to_session_def)

text \<open>A task that is not to be recorded leaves no trace when its answer arrives: the messages of its session are
  again those that were there before the request, and no file was written.\<close>

theorem unrecorded_reply_leaves_no_trace:
  assumes r: "reachable s" and e: "al_events s = EVENT_LLM_RESULT k err r [] # es" and ok: "err_code err = ERR_NONE"
    and t: "find_task (al_orch s) k = Some t" and x: "session_manager_get (al_sessions s) k = Some x"
    and n: "ctx_no_session_record (at_ctx t)" "ctx_session_msg_count_before (at_ctx t) \<le> length (se_messages x)" "k \<noteq> ''''"
  shows "map_option se_messages (session_manager_get (al_sessions (handle_event env (hd (al_events s)) (s\<lparr>al_events := es\<rparr>))) k)
      = Some (take (ctx_session_msg_count_before (at_ctx t)) (se_messages x))
    \<and> al_fs (handle_event env (hd (al_events s)) (s\<lparr>al_events := es\<rparr>)) = al_fs s"
proof -
  have inv: "loop_inv s" using r by (rule reachable_inv)
  then have wf: "wf_manager (al_sessions s)" and u: "unique_tasks (al_orch s)" by (simp_all add: loop_inv_unique)
  have key: "at_session_key t = k" using t by (auto simp: find_task_def find_Some_iff)
  have len: "length (at_id t) < 32" using local_of_inv [OF inv, of k] t by (simp add: local_ok_def task_ok_def)
  note id = find_by_id [OF u t]
  let ?s0 = "s\<lparr>al_events := es\<rparr>" and ?sn = "fill_snapshot t" and ?c = "strip_think_tags True (Some r)"
  let ?a = "assistant_reply ?s0 r ?sn ?c"
  let ?s1 = "if ?a \<noteq> '''' then add_to_session env k (text_message ROLE_ASSISTANT ?a) ?s0 else ?s0"
  let ?s2 = "send_outbound (sn_channel ?sn) (sn_chat_id ?sn) ?a ?s1"
  have "handle_event env (hd (al_events s)) ?s0 = handle_llm_text_response env k r ?sn ?c ?s0"
    using t x e ok llm_result_text [of ?s0 k t x err env r] by (simp add: handle_event_def)
  also have "\<dots> = remove_active_task env (at_id t) ?s2"
    using len n by (simp add: handle_llm_text_response_def Let_def record_message_def)
  finally have h: "handle_event env (hd (al_events s)) ?s0 = remove_active_task env (at_id t) ?s2" .
  have s2: "wf_manager (al_sessions ?s2)" "find (\<lambda>y. at_id y = at_id t) (so_active_tasks (al_orch ?s2)) = Some t"
    using wf id by (simp_all add: add_to_session_def sessions.inv_upd)
  have "session_manager_get (al_sessions ?s2) k = Some x \<or> (\<exists>m. session_manager_get (al_sessions ?s2) k = Some (session_add_message (le_now env) x m))"
    using wf x add_to_session_get [of ?s0 env k] by auto
  with remove_rolls_back [OF s2 n(1), of env] key n have "map_option se_messages (session_manager_get
      (al_sessions (remove_active_task env (at_id t) ?s2)) k) = Some (take (ctx_session_msg_count_before (at_ctx t)) (se_messages x))"
    by (auto simp: rollback_after_add)
  moreover have "al_fs (remove_active_task env (at_id t) ?s2) = al_fs s" by (simp add: remove_active_task_def Let_def)
  ultimately show ?thesis by (simp only: h simp_thms)
qed

theorem unrecorded_reply_leaves_no_trace_witness:
  "map_option se_messages (session_manager_get (al_sessions (handle_event demo_env (hd (al_events demo_answered))
      (demo_answered\<lparr>al_events := []\<rparr>))) ''cli:1'') = Some []
   \<and> al_fs (handle_event demo_env (hd (al_events demo_answered)) (demo_answered\<lparr>al_events := []\<rparr>)) = al_fs demo_answered"
proof -
  let ?t = "accepted_task demo_env demo_message 0"
  have t: "find_task (al_orch demo_answered) ''cli:1'' = Some ?t"
    by (simp add: find_task_def demo_answered_state demo_busy_state accepted_task_simps demo_key)
  obtain x where x: "session_manager_get (al_sessions demo_answered) ''cli:1'' = Some x"
    using reachable_task [OF demo_busy_reachable, of ?t] by (auto simp: demo_busy_state demo_answered_state accepted_task_simps demo_key)
  have "ctx_no_session_record (at_ctx ?t)" "ctx_session_msg_count_before (at_ctx ?t) = 0"
    by (simp_all add: accepted_task_def started_task_def first_turn_def make_task_def demo_message_def)
  with unrecorded_reply_leaves_no_trace [OF demo_answered_reachable demo_answered_state(1,5) t x] show ?thesis by simp
qed

end
