(* ===== verification/CommandDispatcher.thy ===== *)
theory CommandDispatcher
  imports AgentRun
begin

text \<open>
  The slash commands of \<open>Commands\<close> in the running loop: what stopping does to the events that come after it, and when a command leaves
  the loop consistent.
\<close>

definition demo_commands :: "CommandPluginDef list" where
  "demo_commands = builtin_commands [] (\<lambda>p. None) (\<lambda>ctx argv s. (0, s))"

theorem slash_command_dispatch_witness:
  "command_dispatcher_handle_message demo_env demo_commands (\<lambda>n. None) demo_message ''cli:1'' '' /restart'' demo_loop
   = (True, send_outbound ''cli'' ''1'' ''Restarting...'' demo_loop)"
proof -
  have s: "skip_space '' /restart'' = ''/restart''" by (simp add: skip_space_def isspace_def)
  have "parse_slash_command ''/restart'' 64 = (''restart'', None)"
    by (simp add: parse_slash_command_def skip_space_def isspace_def)
  moreover have "starts_with ''/'' ''/restart''" by (simp add: starts_with_def)
  moreover have "le_alloc demo_env" by (simp add: demo_env_def)
  ultimately show ?thesis
    using slash_command_dispatch [of "'' /restart''" demo_env "''restart''" None demo_commands "\<lambda>n. None" demo_message "''cli:1''" demo_loop]
    by (simp add: s demo_commands_def builtin_commands_def cmd_restart_def command_ctx_send_response_def demo_message_def)
qed

text \<open>
  \<^verbatim>\<open>/new\<close> does not start a new session: it answers that it did, and nothing else of the loop changes; the session keeps its messages.
\<close>

theorem cmd_new_keeps_session:
  "cmd_new ctx argv s = (0, send_outbound (cc_channel ctx) (cc_chat_id ctx) ''New session started.'' s)
   \<and> al_sessions (snd (cmd_new ctx argv s)) = al_sessions s"
  by (simp add: cmd_new_def command_ctx_reset_session_def command_ctx_send_response_def send_outbound_def)

section \<open>Stopping\<close>

lemma snapshot_erase [simp]: "session_orchestrator_snapshot_task (erase_orch orch) k = session_orchestrator_snapshot_task orch k"
  by (simp add: session_orchestrator_snapshot_task_def erase_orch_def find_map fill_snapshot_def split: option.split)

lemma update_first_map:
  "(\<And>x. P (g x) = P x) \<Longrightarrow> (\<And>x. f (g x) = g (f x)) \<Longrightarrow> update_first P f (map g xs) = map g (update_first P f xs)"
  by (induction xs) auto

lemma remove_first_map: "(\<And>x. P (g x) = P x) \<Longrightarrow> remove_first P (map g xs) = map g (remove_first P xs)"
  by (induction xs) auto

lemma update_task_erase: "(\<And>t. f (erase_task t) = erase_task (f t)) \<Longrightarrow> update_task (erase_orch orch) k f = erase_orch (update_task orch k f)"
  by (simp add: update_task_def erase_orch_def update_first_map)

lemma orch_ops_erase [simp]:
  "session_orchestrator_update_task_state (erase_orch orch) k st = erase_orch (session_orchestrator_update_task_state orch k st)"
  "session_orchestrator_update_task_pending_tools (erase_orch orch) k n = erase_orch (session_orchestrator_update_task_pending_tools orch k n)"
  "session_orchestrator_increment_task_turn (erase_orch orch) k = erase_orch (session_orchestrator_increment_task_turn orch k)"
  by (simp_all add: orch_defs update_task_erase erase_task_def)

lemma remove_task_erase [simp]: "session_orchestrator_remove_task (erase_orch orch) i = erase_orch (session_orchestrator_remove_task orch i)"
  by (simp add: session_orchestrator_remove_task_def erase_orch_def remove_first_map)

lemma decrement_erase [simp]: "session_orchestrator_decrement_task_pending_tools (erase_orch orch) k =
     map_prod id erase_orch (session_orchestrator_decrement_task_pending_tools orch k)"
proof -
  have f: "find (\<lambda>t. at_session_key t = k) (so_active_tasks (erase_orch orch)) = map_option erase_task (find (\<lambda>t. at_session_key t = k) (so_active_tasks orch))"
    by (simp add: erase_orch_def find_map)
  show ?thesis
    by (simp add: session_orchestrator_decrement_task_pending_tools_def f update_task_erase split: option.split) (simp add: update_task_erase erase_task_def)
qed

lemma erase_update [simp]: "(erase s)\<lparr>al_orch := erase_orch orch\<rparr> = erase (s\<lparr>al_orch := orch\<rparr>)"
  "(erase s)\<lparr>al_events := es\<rparr> = erase (s\<lparr>al_events := es\<rparr>)" "(erase s)\<lparr>al_sessions := ss\<rparr> = erase (s\<lparr>al_sessions := ss\<rparr>)"
  "(erase s)\<lparr>al_fs := fs\<rparr> = erase (s\<lparr>al_fs := fs\<rparr>)" "(erase s)\<lparr>al_outbound := os\<rparr> = erase (s\<lparr>al_outbound := os\<rparr>)"
  "(erase s)\<lparr>al_llm_requests := ls\<rparr> = erase (s\<lparr>al_llm_requests := ls\<rparr>)"
  "(erase s)\<lparr>al_tool_requests := ts\<rparr> = erase (s\<lparr>al_tool_requests := ts\<rparr>)"
  by (simp_all add: erase_def)

lemma add_to_session_erase [simp]: "add_to_session env k m (erase s) = erase (add_to_session env k m s)"
  by (simp add: add_to_session_def)

lemma save_session_erase [simp]: "save_session env k (erase s) = erase (save_session env k s)"
  unfolding save_session_def by (simp split: option.split prod.split)

lemma record_message_erase [simp]: "record_message env k b m (erase s) = erase (record_message env k b m s)"
  by (simp add: record_message_def Let_def)

lemma send_erase [simp]: "send_outbound c i t (erase s) = erase (send_outbound c i t s)"
  "send_error_response c i t (erase s) = erase (send_error_response c i t s)" "send_progress snap cc (erase s) = erase (send_progress snap cc s)"
  by (simp_all add: send_error_response_def send_progress_def send_outbound_def split: option.split)

lemma find_id_erase: "find (\<lambda>t. at_id t = i) (so_active_tasks (erase_orch orch)) = map_option erase_task (find (\<lambda>t. at_id t = i) (so_active_tasks orch))"
  by (simp add: erase_orch_def find_map)

lemma remove_active_task_erase [simp]: "remove_active_task env i (erase s) = erase (remove_active_task env i s)"
  by (cases "find (\<lambda>t. at_id t = i) (so_active_tasks (al_orch s))") (simp_all add: remove_active_task_def find_id_erase Let_def)

lemma trigger_erase [simp]: "trigger_llm_async env k (erase s) = erase (trigger_llm_async env k s)"
  by (simp add: trigger_llm_async_def handle_llm_callback_def)

lemma submit_erase [simp]: "fold (submit_tool_call env k) tcs (erase s) = erase (fold (submit_tool_call env k) tcs s)"
proof (induction tcs arbitrary: s)
  case (Cons tc tcs)
  have "submit_tool_call env k tc (erase s) = erase (submit_tool_call env k tc s)" by (simp add: submit_tool_call_def erase_def)
  with Cons show ?case by simp
qed simp

lemma reply_erase [simp]: "assistant_reply (erase s) r snap c = assistant_reply s r snap c" "max_turns (erase s) = max_turns s"
  by (simp_all add: assistant_reply_def maybe_schedule_reminder_fallback_def max_turns_def split: option.split)

lemma handle_event_erase: "handle_event env e (erase s) = erase (handle_event env e s)"
proof (cases e)
  case (EVENT_LLM_RESULT k err response calls)
  then show ?thesis
    by (simp add: handle_event_def handle_event_llm_result_def handle_llm_text_response_def handle_llm_tool_calls_def Let_def split: option.split)
next
  case (EVENT_TOOL_RESULT k i n r err)
  have "handle_event_tool_result env k i n r err (erase s) = erase (handle_event_tool_result env k i n r err s)"
    unfolding handle_event_tool_result_def Let_def
    by (simp add: case_prod_beta split: option.split)
  with EVENT_TOOL_RESULT show ?thesis by (simp add: handle_event_def)
qed

lemma fold_event_erase: "fold (\<lambda>(env, e). handle_event env e) evs (erase s) = erase (fold (\<lambda>(env, e). handle_event env e) evs s)"
  by (induction evs arbitrary: s) (auto simp: handle_event_erase)

text \<open>
  Claim C5. \<^verbatim>\<open>/stop\<close> stops nothing: whatever events are handled afterwards, the replies, the sessions, the files and the requests to the model and to
  the tools are the same with and without the cancellation, because the snapshots that the event handlers look at do not carry the flag.
\<close>

theorem stop_has_no_effect:
  "let run = fold (\<lambda>(env, e). handle_event env e) evs; s' = snd (command_ctx_stop_active_tasks ctx s)
   in al_outbound (run s') = al_outbound (run s) \<and> al_sessions (run s') = al_sessions (run s) \<and> al_fs (run s') = al_fs (run s)
      \<and> al_llm_requests (run s') = al_llm_requests (run s) \<and> al_tool_requests (run s') = al_tool_requests (run s)
      \<and> al_events (run s') = al_events (run s)"
proof -
  let ?run = "fold (\<lambda>(env, e). handle_event env e) evs" and ?s' = "snd (command_ctx_stop_active_tasks ctx s)"
  have "erase (?run ?s') = erase (?run s)" by (metis fold_event_erase stop_erase)
  then show ?thesis unfolding Let_def by (metis erase_fields)
qed

section \<open>Commands and the invariant of the loop\<close>

lemma skill_breaks:
  assumes env: "le_alloc env" and sk: "skill_reached env commands skill m s"
    and bad: "find_task (al_orch s) (session_key_of m) \<noteq> None \<or> \<not> fresh_id (skill_task_id env) s"
  shows "\<not> loop_inv (command_dispatcher env commands skill m (session_key_of m) (skip_space (in_content m)) s)"
proof -
  let ?k = "session_key_of m" and ?s' = "command_dispatcher env commands skill m (session_key_of m) (skip_space (in_content m)) s"
  let ?ts = "so_active_tasks (al_orch s)"
  define s1 where "s1 = add_to_session env ?k (text_message ROLE_USER (skip_space (in_content m))) s"
  obtain count where s': "?s' = process_message_async env m (add_active_task env (skill_task_id env) ?k m count s1)"
    using skill_runs [OF env sk] by (auto simp: start_task_def s1_def)
  have s1: "al_orch s1 = al_orch s" by (simp add: s1_def add_to_session_def)
  have "map at_session_key (so_active_tasks (al_orch ?s')) = map at_session_key ?ts @ [?k]"
    "map at_id (so_active_tasks (al_orch ?s')) = map at_id ?ts @ [c_trunc 32 (skill_task_id env)]"
    using env length_session_key [of m] s1
    by (simp_all add: s' process_message_async_def add_active_task_def trigger_llm_async_def handle_llm_callback_def Let_def orch_defs update_task_def
        map_update_first_inv session_orchestrator_add_task_def make_task_def SESSION_KEY_MAX_def)
  moreover have "?k \<in> at_session_key ` set ?ts" if "find_task (al_orch s) ?k \<noteq> None"
    using that by (auto simp: find_task_def find_Some_iff intro!: image_eqI [OF _ nth_mem])
  ultimately have "\<not> distinct (map at_session_key (so_active_tasks (al_orch ?s'))) \<or> \<not> distinct (map at_id (so_active_tasks (al_orch ?s')))"
    using bad by (auto simp: fresh_id_def)
  then show ?thesis by (auto simp: loop_inv_def)
qed

text \<open>
  Claim C6. When a slash command keeps the loop consistent: while memory is available and the registered commands act on the loop by their context only (the built-in ones do,
  see \<open>builtin_context\<close>), handling a message for a session of the table, be it a command, a tool, a skill or unknown, keeps the invariant that every task waits
  for exactly the answers that are under way, except in one case, where it always breaks it: the command starts a skill, and its session has a task already
  or the id of the new task is that of an active one. The code tests neither.
\<close>

theorem dispatcher_keeps_loop_consistent:
  assumes inv: "loop_inv s" and env: "le_alloc env" and cmds: "\<forall>c \<in> set commands. context_handler (cmd_handler c)"
    and ses: "session_manager_get (al_sessions s) (session_key_of m) = Some x"
  shows "loop_inv (command_dispatcher env commands skill m (session_key_of m) (skip_space (in_content m)) s) \<longleftrightarrow>
    \<not> (skill_reached env commands skill m s \<and>
       (find_task (al_orch s) (session_key_of m) \<noteq> None \<or> \<not> fresh_id (skill_task_id env) s))"
    (is "loop_inv ?s' \<longleftrightarrow> \<not> ?bad")
proof (cases ?bad)
  case True
  then show ?thesis using skill_breaks [OF env] by blast
next
  case False
  moreover have "loop_inv ?s'" by (rule dispatch_inv [OF inv env _ ses]) (use cmds False in auto)
  ultimately show ?thesis by blast
qed

definition zip_message :: InboundMessage where
  "zip_message = demo_message\<lparr>in_content := ''/zip''\<rparr>"

abbreviation zip_command :: "AgentLoop \<Rightarrow> AgentLoop" where
  "zip_command s \<equiv>
     command_dispatcher demo_env demo_commands (\<lambda>n. Some ''how to zip'') zip_message (session_key_of zip_message) (skip_space (in_content zip_message)) s"

lemma zip_reached:
  assumes "tr_tools (al_registry s) = []"
  shows "skill_reached demo_env demo_commands (\<lambda>n. Some ''how to zip'') zip_message s"
proof -
  have s: "skip_space ''/zip'' = ''/zip''" by (simp add: skip_space_def isspace_def)
  have p: "parse_slash_command ''/zip'' 64 = (''zip'', None)" by (simp add: parse_slash_command_def skip_space_def isspace_def)
  have "tool_router_handle_fallback_command (le_print demo_env) (al_registry s) zip_message ''/zip'' = None"
    using assms by (simp add: tool_router_handle_fallback_command_def p)
  moreover have "starts_with ''/'' ''/zip''" "find (\<lambda>c. cmd_name c = ''zip'') demo_commands = None"
    by (simp_all add: starts_with_def demo_commands_def builtin_commands_def)
  ultimately show ?thesis using s p by (simp add: skill_reached_def zip_message_def Let_def)
qed

theorem dispatcher_keeps_loop_consistent_witness:
  "loop_inv (zip_command demo_loop) \<and> \<not> loop_inv (zip_command demo_busy)"
proof -
  have key: "session_key_of zip_message = ''cli:1''" using demo_key by (simp add: zip_message_def session_key_of_def)
  have env: "le_alloc demo_env" by (simp add: demo_env_def)
  have "context_handler (\<lambda>ctx argv s. (0, s))"
    unfolding context_handler_def
  proof (intro allI)
    show "\<exists>calls. snd (0 :: int, s) = fold (context_run ctx) calls s" for ctx s by (intro exI [of _ "[]"]) simp
  qed
  then have cmds: "\<forall>c \<in> set demo_commands. context_handler (cmd_handler c)"
    unfolding demo_commands_def using builtin_context by blast
  have tools: "tr_tools (al_registry demo_loop) = []" "tr_tools (al_registry demo_busy) = []"
    by (simp_all add: demo_busy_accept accept_message_def process_message_async_def add_active_task_def maybe_auto_consolidate_memory_def
        add_to_session_def trigger_llm_async_def handle_llm_callback_def demo_loop_def Let_def split: option.split)
  have idle: "find_task (al_orch demo_loop) ''cli:1'' = None" "fresh_id (skill_task_id demo_env) demo_loop"
    by (simp_all add: demo_loop_def find_task_def session_orchestrator_new_def fresh_id_def)
  have busy: "find_task (al_orch demo_busy) ''cli:1'' = Some (accepted_task demo_env demo_message 0)"
    by (simp add: find_task_def demo_busy_state accepted_task_simps demo_key)
  obtain x where x: "session_manager_get (al_sessions demo_busy) ''cli:1'' = Some x"
    using reachable_task [OF demo_busy_reachable, of "accepted_task demo_env demo_message 0"] by (auto simp: demo_busy_state accepted_task_simps demo_key)
  have "loop_inv (zip_command demo_loop)"
    using dispatcher_keeps_loop_consistent [OF initial_inv [OF demo_initial] env, of demo_commands zip_message "new_session ''cli:1'' 5" "\<lambda>n. Some ''how to zip''"]
      cmds demo_session_found idle by (simp add: key)
  moreover have "\<not> loop_inv (zip_command demo_busy)"
    using dispatcher_keeps_loop_consistent [OF reachable_inv [OF demo_busy_reachable] env, of demo_commands zip_message x "\<lambda>n. Some ''how to zip''"]
      cmds x busy zip_reached [OF tools(2)] by (simp add: key)
  ultimately show ?thesis ..
qed

end
