(* ===== verification/ToolExecutor.thy ===== *)
theory ToolExecutor
  imports ToolRegistry "HOL-Library.Multiset"
begin

text \<open>
  \<open>src/tools/tool_executor.c\<close>: a queue of requests and the worker threads that run them. A request is a node
  with an address, so that the pointer to the last node is visible; what happens under the queue mutex is one
  step. A worker is idle, runs a request, or has left its loop. The calls of callbacks and the
  destroyed user data are lists; the submissions, the accepted requests and the started ones are history variables. The second part is
  the context of a synchronous execution, which the waiting thread and the callback share.
\<close>

record ToolExecutionRequest =
  rq_addr :: nat
  rq_tool_name :: string
  rq_arguments :: string
  rq_override :: "nat option"
  rq_destroy :: bool
  rq_context :: nat

datatype worker = Idle | Running ToolExecutionRequest | Exited

record ToolExecutor =
  ex_request_queue :: "ToolExecutionRequest list"
  ex_request_queue_tail :: "nat option"
  ex_workers :: "worker list"
  ex_shutdown :: bool
  ex_tool_reg :: ToolRegistry
  ex_fresh :: nat
  ex_calls :: "(nat \<times> Error \<times> string option) list"
  ex_destroyed :: "nat list"
  ex_accepted :: "ToolExecutionRequest list"
  ex_started :: "ToolExecutionRequest list"
  ex_submitted :: "(nat \<times> nat list) list"
  ex_late :: nat

datatype executor_error = Use_After_Free

definition tool_executor_new :: "bool \<Rightarrow> ToolRegistry \<Rightarrow> nat \<Rightarrow> ToolExecutor option" where
  "tool_executor_new ok reg num_workers =
     (if \<not> ok then None
      else Some \<lparr>ex_request_queue = [], ex_request_queue_tail = None,
                 ex_workers = replicate (if num_workers = 0 then 2 else num_workers) Idle, ex_shutdown = False,
                 ex_tool_reg = reg, ex_fresh = 0, ex_calls = [], ex_destroyed = [], ex_accepted = [], ex_started = [],
                 ex_submitted = [], ex_late = 0\<rparr>)"

section \<open>Submission\<close>

text \<open>\<^verbatim>\<open>tail->next = request\<close> when there is a last node, else \<^verbatim>\<open>request_queue = request\<close>; then the request is the last
  node. A tail that is not in the queue has been freed.\<close>

definition enqueue_request :: "ToolExecutionRequest \<Rightarrow> ToolExecutor \<Rightarrow> executor_error + ToolExecutor" where
  "enqueue_request request ex =
     (case ex_request_queue_tail ex of
        None \<Rightarrow> Inr (ex\<lparr>ex_request_queue := [request], ex_request_queue_tail := Some (rq_addr request)\<rparr>)
      | Some a \<Rightarrow>
          if a \<notin> rq_addr ` set (ex_request_queue ex) then Inl Use_After_Free
          else Inr (ex\<lparr>ex_request_queue := takeWhile (\<lambda>r. rq_addr r \<noteq> a) (ex_request_queue ex) @
                         [hd (dropWhile (\<lambda>r. rq_addr r \<noteq> a) (ex_request_queue ex)), request],
                       ex_request_queue_tail := Some (rq_addr request)\<rparr>))"

definition tool_executor_submit_with_user_data ::
  "bool \<Rightarrow> string \<Rightarrow> string option \<Rightarrow> nat option \<Rightarrow> bool \<Rightarrow> nat \<Rightarrow> ToolExecutor \<Rightarrow> executor_error + int \<times> ToolExecutor" where
  "tool_executor_submit_with_user_data ok tool_name arguments user_data destroy context ex =
     (if \<not> ok then Inr (-1, ex)
      else (let request = \<lparr>rq_addr = ex_fresh ex, rq_tool_name = tool_name,
                           rq_arguments = (case arguments of Some a \<Rightarrow> a | None \<Rightarrow> ''{}''),
                           rq_override = user_data, rq_destroy = destroy, rq_context = context\<rparr>
            in case enqueue_request request ex of
                 Inl e \<Rightarrow> Inl e
               | Inr ex \<Rightarrow> Inr (0, ex\<lparr>ex_fresh := Suc (ex_fresh ex), ex_accepted := ex_accepted ex @ [request]\<rparr>)))"

definition tool_executor_submit ::
  "bool \<Rightarrow> string \<Rightarrow> string option \<Rightarrow> nat \<Rightarrow> ToolExecutor \<Rightarrow> executor_error + int \<times> ToolExecutor" where
  "tool_executor_submit ok tool_name arguments context ex =
     tool_executor_submit_with_user_data ok tool_name arguments None False context ex"

definition destroy_override :: "nat option \<Rightarrow> bool \<Rightarrow> ToolExecutor \<Rightarrow> ToolExecutor" where
  "destroy_override user_data destroy ex =
     (case user_data of
        Some u \<Rightarrow> if destroy then ex\<lparr>ex_destroyed := ex_destroyed ex @ [u]\<rparr> else ex
      | None \<Rightarrow> ex)"

definition call_back :: "nat \<Rightarrow> Error \<Rightarrow> string option \<Rightarrow> ToolExecutor \<Rightarrow> ToolExecutor" where
  "call_back context err result ex = ex\<lparr>ex_calls := ex_calls ex @ [(context, err, result)]\<rparr>"

text \<open>The asynchronous submission, whose wrapper passes the result on to the callback.\<close>

definition tool_executor_submit_async_with_user_data ::
  "bool \<Rightarrow> bool \<Rightarrow> string \<Rightarrow> string option \<Rightarrow> nat option \<Rightarrow> bool \<Rightarrow> nat \<Rightarrow> ToolExecutor \<Rightarrow> executor_error + ToolExecutor" where
  "tool_executor_submit_async_with_user_data ctx_ok ok tool_name args_json user_data destroy context ex =
     (if \<not> ctx_ok
      then Inr (call_back context (error_new ERR_MEMORY (Some ''OOM allocating async context'')) None
                  (destroy_override user_data destroy ex))
      else (case tool_executor_submit_with_user_data ok tool_name args_json user_data destroy context ex of
              Inl e \<Rightarrow> Inl e
            | Inr (ret, ex) \<Rightarrow>
                if ret \<noteq> 0
                then Inr (call_back context (error_new ERR_TOOL (Some ''Failed to submit tool execution'')) None
                            (destroy_override user_data destroy ex))
                else Inr ex))"

definition tool_executor_submit_async ::
  "bool \<Rightarrow> bool \<Rightarrow> string \<Rightarrow> string option \<Rightarrow> nat \<Rightarrow> ToolExecutor \<Rightarrow> executor_error + ToolExecutor" where
  "tool_executor_submit_async ctx_ok ok tool_name args_json context ex =
     tool_executor_submit_async_with_user_data ctx_ok ok tool_name args_json None False context ex"

section \<open>Workers\<close>

text \<open>The part of the loop of \<open>tool_executor_worker\<close> under the mutex; an idle worker with nothing to do waits.\<close>

definition worker_dequeue :: "nat \<Rightarrow> ToolExecutor \<Rightarrow> ToolExecutor" where
  "worker_dequeue i ex =
     (case ex_request_queue ex of
        [] \<Rightarrow> if ex_shutdown ex then ex\<lparr>ex_workers := (ex_workers ex)[i := Exited]\<rparr> else ex
      | request # rest \<Rightarrow>
          ex\<lparr>ex_request_queue := rest,
             ex_request_queue_tail := (if rest = [] then None else ex_request_queue_tail ex),
             ex_workers := (ex_workers ex)[i := Running request], ex_started := ex_started ex @ [request]\<rparr>)"

text \<open>The part without the mutex: run the tool, call back, release.\<close>

definition worker_finish :: "nat \<Rightarrow> ToolExecutionRequest \<Rightarrow> ToolExecutor \<Rightarrow> ToolExecutor" where
  "worker_finish i request ex =
     (case tool_registry_execute_with_user_data (ex_tool_reg ex) (rq_tool_name request) (rq_arguments request) (rq_override request) of
        (err, result) \<Rightarrow>
          (destroy_override (rq_override request) (rq_destroy request) (call_back (rq_context request) err (Some result) ex))
            \<lparr>ex_workers := (ex_workers ex)[i := Idle]\<rparr>)"

definition request_shutdown :: "ToolExecutor \<Rightarrow> ToolExecutor" where
  "request_shutdown ex = ex\<lparr>ex_shutdown := True\<rparr>"

text \<open>What \<open>tool_executor_destroy\<close> does after the workers have been joined.\<close>

definition cleanup_queue :: "ToolExecutor \<Rightarrow> ToolExecutor" where
  "cleanup_queue ex = fold (\<lambda>r. destroy_override (rq_override r) (rq_destroy r)) (ex_request_queue ex) ex"

section \<open>Runs\<close>

text \<open>The user data that has to be destroyed with a request.\<close>

definition owned_data :: "nat option \<Rightarrow> bool \<Rightarrow> nat list" where
  "owned_data user_data destroy = (case user_data of Some u \<Rightarrow> if destroy then [u] else [] | None \<Rightarrow> [])"

inductive worker_step :: "ToolExecutor \<Rightarrow> ToolExecutor \<Rightarrow> bool" where
  dequeue: "i < length (ex_workers ex) \<Longrightarrow> ex_workers ex ! i = Idle \<Longrightarrow> worker_step ex (worker_dequeue i ex)"
| finish: "i < length (ex_workers ex) \<Longrightarrow> ex_workers ex ! i = Running r \<Longrightarrow> worker_step ex (worker_finish i r ex)"

text \<open>A submission after the shutdown is a late one; the code accepts it.\<close>

definition log_submission :: "nat \<Rightarrow> nat list \<Rightarrow> ToolExecutor \<Rightarrow> ToolExecutor" where
  "log_submission c data ex =
     ex\<lparr>ex_submitted := ex_submitted ex @ [(c, data)], ex_late := ex_late ex + (if ex_shutdown ex then 1 else 0)\<rparr>"

inductive executor_step :: "ToolExecutor \<Rightarrow> ToolExecutor \<Rightarrow> bool" where
  submit: "tool_executor_submit_async_with_user_data ctx_ok ok name args u d c ex = Inr ex' \<Longrightarrow>
    executor_step ex (log_submission c (owned_data u d) ex')"
| work: "worker_step ex ex' \<Longrightarrow> executor_step ex ex'"
| shutdown: "executor_step ex (request_shutdown ex)"

inductive executor_run :: "ToolRegistry \<Rightarrow> nat \<Rightarrow> ToolExecutor \<Rightarrow> bool" for reg n where
  new: "tool_executor_new True reg n = Some ex \<Longrightarrow> executor_run reg n ex"
| step: "executor_run reg n ex \<Longrightarrow> executor_step ex ex' \<Longrightarrow> executor_run reg n ex'"

inductive_cases worker_stepE: "worker_step ex ex'"

section \<open>Every request is answered once\<close>

fun running_request :: "worker \<Rightarrow> ToolExecutionRequest list" where
  "running_request (Running r) = [r]"
| "running_request w = []"

definition unfinished :: "ToolExecutor \<Rightarrow> ToolExecutionRequest list" where
  "unfinished ex = ex_request_queue ex @ concat (map running_request (ex_workers ex))"

definition request_data :: "ToolExecutionRequest \<Rightarrow> nat list" where
  "request_data r = owned_data (rq_override r) (rq_destroy r)"

definition queue_ok :: "ToolExecutor \<Rightarrow> bool" where
  [inv_defs]: "queue_ok ex \<longleftrightarrow>
     ex_request_queue_tail ex = (if ex_request_queue ex = [] then None else Some (rq_addr (last (ex_request_queue ex))))
     \<and> distinct (map rq_addr (ex_request_queue ex)) \<and> (\<forall>r \<in> set (ex_request_queue ex). rq_addr r < ex_fresh ex)
     \<and> ex_accepted ex = ex_started ex @ ex_request_queue ex
     \<and> (Exited \<in> set (ex_workers ex) \<longrightarrow> ex_shutdown ex \<and> length (ex_request_queue ex) \<le> ex_late ex)"

definition balance_ok :: "ToolExecutor \<Rightarrow> bool" where
  [inv_defs]: "balance_ok ex \<longleftrightarrow>
     mset (map fst (ex_submitted ex)) = mset (map rq_context (unfinished ex)) + mset (map fst (ex_calls ex))
     \<and> mset (concat (map snd (ex_submitted ex))) = mset (concat (map request_data (unfinished ex))) + mset (ex_destroyed ex)"

lemma takeWhile_last:
  assumes "distinct (map g xs)" "xs \<noteq> []"
  shows "takeWhile (\<lambda>x. g x \<noteq> g (last xs)) xs = butlast xs \<and> dropWhile (\<lambda>x. g x \<noteq> g (last xs)) xs = [last xs]"
  using assms
proof (induction xs)
  case (Cons x xs)
  show ?case
  proof (cases "xs = []")
    case False
    then have "g (last xs) \<in> set (map g xs)" by simp
    with Cons.prems have "g x \<noteq> g (last xs)" by auto
    with False Cons show ?thesis by simp
  qed simp
qed simp

lemma enqueue_ok:
  assumes "queue_ok ex"
  shows "enqueue_request r ex = Inr (ex\<lparr>ex_request_queue := ex_request_queue ex @ [r], ex_request_queue_tail := Some (rq_addr r)\<rparr>)"
proof (cases "ex_request_queue ex = []")
  case True
  with assms show ?thesis by (simp add: enqueue_request_def queue_ok_def)
next
  case False
  let ?q = "ex_request_queue ex"
  have t: "ex_request_queue_tail ex = Some (rq_addr (last ?q))" and d: "distinct (map rq_addr ?q)" using assms False by (simp_all add: queue_ok_def)
  have "rq_addr (last ?q) \<in> rq_addr ` set ?q" using False by simp
  then have "enqueue_request r ex = Inr (ex\<lparr>ex_request_queue := butlast ?q @ [last ?q, r], ex_request_queue_tail := Some (rq_addr r)\<rparr>)"
    using takeWhile_last [OF d False] by (simp add: enqueue_request_def t)
  moreover have "butlast ?q @ [last ?q, r] = ?q @ [r]" using False by (metis append_Cons append_Nil append_assoc append_butlast_last_id)
  ultimately show ?thesis by simp
qed

lemma mset_concat_update:
  "i < length ws \<Longrightarrow> mset (concat (map f (ws[i := w]))) + mset (f (ws ! i)) = mset (concat (map f ws)) + mset (f w)"
proof (induction ws arbitrary: i)
  case (Cons v ws)
  then show ?case by (cases i) auto
qed simp

lemma mset_concat_perm: "mset xs = mset ys \<Longrightarrow> mset (concat (map f xs)) = mset (concat (map f ys))"
proof -
  assume "mset xs = mset ys"
  then have "sum_list (map (\<lambda>x. mset (f x)) xs) = sum_list (map (\<lambda>x. mset (f x)) ys)"
    by (metis mset_map sum_mset_sum_list)
  then show ?thesis by (simp add: mset_concat comp_def)
qed

lemma submit_effect:
  assumes q: "queue_ok ex"
  shows "\<exists>ex'. tool_executor_submit_async_with_user_data ctx_ok ok name args u d c ex = Inr ex'
    \<and> ((\<exists>x. ex_calls ex' = ex_calls ex @ [(c, x)]) \<and> ex_destroyed ex' = ex_destroyed ex @ owned_data u d
         \<and> ex_request_queue ex' = ex_request_queue ex \<and> ex_request_queue_tail ex' = ex_request_queue_tail ex
         \<and> ex_accepted ex' = ex_accepted ex \<and> ex_fresh ex' = ex_fresh ex
       \<or> (\<exists>r. rq_context r = c \<and> request_data r = owned_data u d \<and> rq_addr r = ex_fresh ex
           \<and> ex_request_queue ex' = ex_request_queue ex @ [r] \<and> ex_request_queue_tail ex' = Some (rq_addr r)
           \<and> ex_accepted ex' = ex_accepted ex @ [r] \<and> ex_fresh ex' = Suc (ex_fresh ex)
           \<and> ex_calls ex' = ex_calls ex \<and> ex_destroyed ex' = ex_destroyed ex))
    \<and> ex_workers ex' = ex_workers ex \<and> ex_shutdown ex' = ex_shutdown ex \<and> ex_started ex' = ex_started ex
    \<and> ex_submitted ex' = ex_submitted ex \<and> ex_late ex' = ex_late ex"
proof (cases "ctx_ok \<and> ok")
  case True
  let ?r = "\<lparr>rq_addr = ex_fresh ex, rq_tool_name = name, rq_arguments = (case args of Some a \<Rightarrow> a | None \<Rightarrow> ''{}''),
    rq_override = u, rq_destroy = d, rq_context = c\<rparr>"
  have "request_data ?r = owned_data u d" by (simp add: request_data_def)
  with True show ?thesis
    by (simp add: tool_executor_submit_async_with_user_data_def tool_executor_submit_with_user_data_def enqueue_ok [OF q] Let_def)
next
  case False
  then show ?thesis
    by (cases ctx_ok) (auto simp: tool_executor_submit_async_with_user_data_def tool_executor_submit_with_user_data_def
        call_back_def destroy_override_def owned_data_def split: option.splits)
qed

lemma submit_inv:
  assumes q: "queue_ok ex" "balance_ok ex" 
    and s: "tool_executor_submit_async_with_user_data ctx_ok ok name args u d c ex = Inr ex'"
  shows "queue_ok (log_submission c (owned_data u d) ex') \<and> balance_ok (log_submission c (owned_data u d) ex')"
proof -
  have same: "ex_workers ex' = ex_workers ex" "ex_shutdown ex' = ex_shutdown ex" "ex_started ex' = ex_started ex"
    "ex_submitted ex' = ex_submitted ex" "ex_late ex' = ex_late ex"
    using submit_effect [OF q(1), of ctx_ok ok name args u d c] s by auto
  consider (answered) x where "ex_calls ex' = ex_calls ex @ [(c, x)]" "ex_destroyed ex' = ex_destroyed ex @ owned_data u d"
      "ex_request_queue ex' = ex_request_queue ex" "ex_request_queue_tail ex' = ex_request_queue_tail ex"
      "ex_accepted ex' = ex_accepted ex" "ex_fresh ex' = ex_fresh ex"
    | (queued) r where "rq_context r = c" "request_data r = owned_data u d" "rq_addr r = ex_fresh ex"
      "ex_request_queue ex' = ex_request_queue ex @ [r]" "ex_request_queue_tail ex' = Some (rq_addr r)"
      "ex_accepted ex' = ex_accepted ex @ [r]" "ex_fresh ex' = Suc (ex_fresh ex)"
      "ex_calls ex' = ex_calls ex" "ex_destroyed ex' = ex_destroyed ex"
    using submit_effect [OF q(1), of ctx_ok ok name args u d c] s by auto
  then show ?thesis
  proof cases
    case answered
    then show ?thesis using q same unfolding queue_ok_def balance_ok_def unfinished_def log_submission_def by (auto simp: le_SucI)
  next
    case queued
    have "rq_addr r \<notin> rq_addr ` set (ex_request_queue ex)" using q(1) queued(3) by (auto simp: queue_ok_def)
    then show ?thesis using q same queued unfolding queue_ok_def balance_ok_def unfinished_def log_submission_def
      by (simp add: less_Suc_eq)
  qed
qed

lemma unfinished_inv:
  assumes "mset (unfinished ex') = mset (unfinished ex)" "balance_ok ex"
    "ex_submitted ex' = ex_submitted ex" "ex_calls ex' = ex_calls ex" "ex_destroyed ex' = ex_destroyed ex"
  shows "balance_ok ex'"
proof -
  have "mset (map rq_context (unfinished ex')) = mset (map rq_context (unfinished ex))" using assms(1) by (metis mset_map)
  with mset_concat_perm [OF assms(1), of request_data] show ?thesis using assms(2-) by (simp add: balance_ok_def)
qed

lemma dequeue_inv:
  assumes q: "queue_ok ex" "balance_ok ex" and i: "i < length (ex_workers ex)" "ex_workers ex ! i = Idle"
  shows "queue_ok (worker_dequeue i ex) \<and> balance_ok (worker_dequeue i ex)"
proof (cases "ex_request_queue ex")
  case Nil
  have "mset (concat (map running_request ((ex_workers ex)[i := Exited]))) = mset (concat (map running_request (ex_workers ex)))"
    using mset_concat_update [OF i(1), of running_request Exited] i(2) by simp
  with Nil have "balance_ok (worker_dequeue i ex)"
    by (intro unfinished_inv [OF _ q(2)]) (simp_all add: worker_dequeue_def unfinished_def)
  moreover have "queue_ok (worker_dequeue i ex)" using q(1) Nil by (auto simp: worker_dequeue_def queue_ok_def)
  ultimately show ?thesis by simp
next
  case (Cons r rest)
  have "mset (concat (map running_request ((ex_workers ex)[i := Running r]))) = mset (concat (map running_request (ex_workers ex))) + {#r#}"
    using mset_concat_update [OF i(1), of running_request "Running r"] i(2) by simp
  with Cons have "balance_ok (worker_dequeue i ex)"
    by (intro unfinished_inv [OF _ q(2)]) (simp_all add: worker_dequeue_def unfinished_def)
  moreover have "Exited \<in> set ((ex_workers ex)[i := Running r]) \<Longrightarrow> Exited \<in> set (ex_workers ex)"
    using set_update_subset_insert [of "ex_workers ex" i "Running r"] by auto
  then have "queue_ok (worker_dequeue i ex)" using q Cons by (auto simp: worker_dequeue_def queue_ok_def)
  ultimately show ?thesis by simp
qed

lemma finish_inv:
  assumes q: "queue_ok ex" "balance_ok ex" and i: "i < length (ex_workers ex)" "ex_workers ex ! i = Running r"
  shows "queue_ok (worker_finish i r ex) \<and> balance_ok (worker_finish i r ex)"
proof -
  let ?ws = "(ex_workers ex)[i := Idle]"
  obtain err result where e: "tool_registry_execute_with_user_data (ex_tool_reg ex) (rq_tool_name r) (rq_arguments r) (rq_override r)
      = (err, result)" by fastforce
  have fields: "ex_request_queue (worker_finish i r ex) = ex_request_queue ex" "ex_request_queue_tail (worker_finish i r ex) = ex_request_queue_tail ex"
    "ex_workers (worker_finish i r ex) = ?ws" "ex_shutdown (worker_finish i r ex) = ex_shutdown ex"
    "ex_fresh (worker_finish i r ex) = ex_fresh ex" "ex_calls (worker_finish i r ex) = ex_calls ex @ [(rq_context r, err, Some result)]"
    "ex_destroyed (worker_finish i r ex) = ex_destroyed ex @ request_data r" "ex_accepted (worker_finish i r ex) = ex_accepted ex"
    "ex_started (worker_finish i r ex) = ex_started ex" "ex_submitted (worker_finish i r ex) = ex_submitted ex"
    "ex_late (worker_finish i r ex) = ex_late ex"
    by (simp_all add: worker_finish_def e destroy_override_def call_back_def request_data_def owned_data_def split: option.split)
  have "mset (concat (map running_request ?ws)) + {#r#} = mset (concat (map running_request (ex_workers ex)))"
    using mset_concat_update [OF i(1), of running_request Idle] i(2) by simp
  then have un: "mset (r # unfinished (worker_finish i r ex)) = mset (unfinished ex)" by (simp add: unfinished_def fields)
  have "mset (map rq_context (r # unfinished (worker_finish i r ex))) = mset (map rq_context (unfinished ex))" using un by (metis mset_map)
  then have "mset (map fst (ex_submitted ex)) = mset (map rq_context (unfinished (worker_finish i r ex))) + mset (map fst (ex_calls (worker_finish i r ex)))"
    using q(2) by (simp add: balance_ok_def fields)
  moreover have "mset (concat (map snd (ex_submitted ex)))
      = mset (concat (map request_data (unfinished (worker_finish i r ex)))) + mset (ex_destroyed (worker_finish i r ex))"
    using mset_concat_perm [OF un, of request_data] q(2) by (simp add: balance_ok_def fields add.commute)
  ultimately have "balance_ok (worker_finish i r ex)" by (simp add: balance_ok_def fields)
  moreover have "Exited \<in> set ?ws \<Longrightarrow> Exited \<in> set (ex_workers ex)"
    using set_update_subset_insert [of "ex_workers ex" i Idle] by auto
  with q(1) have "queue_ok (worker_finish i r ex)" by (auto simp: queue_ok_def fields)
  ultimately show ?thesis by simp
qed

lemma worker_step_inv: "worker_step ex ex' \<Longrightarrow> queue_ok ex \<Longrightarrow> balance_ok ex \<Longrightarrow> queue_ok ex' \<and> balance_ok ex'"
  by (induction rule: worker_step.induct) (simp_all only: dequeue_inv finish_inv)

lemma executor_step_inv: "executor_step ex ex' \<Longrightarrow> queue_ok ex \<Longrightarrow> balance_ok ex \<Longrightarrow> queue_ok ex' \<and> balance_ok ex'"
proof (induction rule: executor_step.induct)
  case (submit ctx_ok ok name args u d c ex ex')
  then show ?case by (intro submit_inv)
next
  case (shutdown ex)
  then show ?case by (simp add: request_shutdown_def queue_ok_def balance_ok_def unfinished_def)
qed (rule worker_step_inv)

lemma executor_run_inv: "executor_run reg n ex \<Longrightarrow> queue_ok ex \<and> balance_ok ex"
proof (induction rule: executor_run.induct)
  case (new ex)
  then have "queue_ok ex \<and> concat (map running_request (ex_workers ex)) = []"
    by (auto simp: tool_executor_new_def queue_ok_def)
  with new show ?case by (auto simp: tool_executor_new_def balance_ok_def unfinished_def simp del: concat_eq_Nil_conv)
qed (simp add: executor_step_inv)

text \<open>
  Claim C3. Exactly one answer for every submission, whatever the interleaving of submissions, workers and shutdown:
  the callbacks called so far together with the requests that are queued or running are the submissions, as multisets; the
  same holds for the user data that has to be destroyed; requests are started in the order in which they were accepted; and when
  all workers have left their loop and nothing was submitted after the shutdown, every submission has been answered and its
  data destroyed.
\<close>

theorem executor_answers_once:
  assumes "executor_run reg n ex"
  shows "mset (map fst (ex_submitted ex)) = mset (map rq_context (unfinished ex)) + mset (map fst (ex_calls ex))
    \<and> mset (concat (map snd (ex_submitted ex))) = mset (concat (map request_data (unfinished ex))) + mset (ex_destroyed ex)
    \<and> ex_accepted ex = ex_started ex @ ex_request_queue ex
    \<and> (set (ex_workers ex) = {Exited} \<and> ex_late ex = 0 \<longrightarrow>
         mset (map fst (ex_submitted ex)) = mset (map fst (ex_calls ex))
         \<and> mset (concat (map snd (ex_submitted ex))) = mset (ex_destroyed ex))"
proof -
  have inv: "queue_ok ex" "balance_ok ex" using executor_run_inv [OF assms] by auto
  have "unfinished ex = []" if "set (ex_workers ex) = {Exited} \<and> ex_late ex = 0"
  proof -
    have "ex_request_queue ex = []" using inv(1) that by (simp add: queue_ok_def)
    moreover have "concat (map running_request (ex_workers ex)) = []" using that by auto
    ultimately show ?thesis by (simp add: unfinished_def)
  qed
  with inv show ?thesis by (simp add: queue_ok_def balance_ok_def)
qed

definition empty_registry :: ToolRegistry where
  "empty_registry = \<lparr>tr_tools = [], tr_capacity = 8\<rparr>"

definition one_submitted :: ToolExecutor where
  "one_submitted =
     (let r = \<lparr>rq_addr = 0, rq_tool_name = ''echo'', rq_arguments = ''{}'', rq_override = Some 7, rq_destroy = True, rq_context = 3\<rparr>
      in \<lparr>ex_request_queue = [r], ex_request_queue_tail = Some 0, ex_workers = [Idle], ex_shutdown = False, ex_tool_reg = empty_registry,
          ex_fresh = 1, ex_calls = [], ex_destroyed = [], ex_accepted = [r], ex_started = [], ex_submitted = [(3, [7])], ex_late = 0\<rparr>)"

lemma one_submitted_run: "executor_run empty_registry 1 one_submitted"
proof -
  obtain ex where ex: "tool_executor_new True empty_registry 1 = Some ex" by (simp add: tool_executor_new_def)
  then have sub: "tool_executor_submit_async_with_user_data True True ''echo'' None (Some 7) True 3 ex
      = Inr (one_submitted\<lparr>ex_submitted := []\<rparr>)" 
    by (auto simp: tool_executor_new_def tool_executor_submit_async_with_user_data_def tool_executor_submit_with_user_data_def
        enqueue_request_def one_submitted_def Let_def)
  have "executor_step ex (log_submission 3 (owned_data (Some 7) True) (one_submitted\<lparr>ex_submitted := []\<rparr>))"
    by (rule executor_step.submit [OF sub])
  then have "executor_step ex one_submitted" by (simp add: owned_data_def one_submitted_def log_submission_def Let_def)
  with ex show ?thesis by (blast intro: executor_run.intros)
qed

theorem executor_answers_once_witness:
  "executor_run empty_registry 1 one_submitted
   \<and> mset (map fst (ex_submitted one_submitted)) = mset (map rq_context (unfinished one_submitted)) + mset (map fst (ex_calls one_submitted))
   \<and> map rq_context (unfinished one_submitted) = [3]"
  using executor_answers_once [OF one_submitted_run] one_submitted_run by (simp add: one_submitted_def unfinished_def Let_def)

section \<open>Shutdown\<close>

text \<open>The steps that the workers still have to make.\<close>

fun worker_work :: "worker \<Rightarrow> nat" where
  "worker_work Idle = 1"
| "worker_work (Running r) = 2"
| "worker_work Exited = 0"

definition executor_work :: "ToolExecutor \<Rightarrow> nat" where
  "executor_work ex = 2 * length (ex_request_queue ex) + sum_list (map worker_work (ex_workers ex))"

lemma sum_list_work_update:
  "i < length ws \<Longrightarrow> sum_list (map worker_work (ws[i := w])) + worker_work (ws ! i) = sum_list (map worker_work ws) + worker_work w"
proof (induction ws arbitrary: i)
  case (Cons v ws)
  then show ?case by (cases i) (auto simp: algebra_simps)
qed simp

lemma dequeue_work:
  assumes "ex_shutdown ex" "i < length (ex_workers ex)" "ex_workers ex ! i = Idle"
  shows "executor_work (worker_dequeue i ex) < executor_work ex \<and> ex_shutdown (worker_dequeue i ex)"
  using assms sum_list_work_update [of i "ex_workers ex" Exited] sum_list_work_update [of i "ex_workers ex" "Running (hd (ex_request_queue ex))"]
  by (auto simp: worker_dequeue_def executor_work_def split: list.split)

lemma finish_work:
  assumes "ex_shutdown ex" "i < length (ex_workers ex)" "ex_workers ex ! i = Running r"
  shows "executor_work (worker_finish i r ex) < executor_work ex \<and> ex_shutdown (worker_finish i r ex)"
  using assms sum_list_work_update [of i "ex_workers ex" Idle]
  by (auto simp: worker_finish_def executor_work_def destroy_override_def call_back_def split: prod.split option.split)

lemma worker_can_step:
  assumes "ex_shutdown ex" "w \<in> set (ex_workers ex)" "w \<noteq> Exited"
  shows "\<exists>ex'. worker_step ex ex'"
proof -
  obtain i where i: "i < length (ex_workers ex)" "ex_workers ex ! i = w" using assms(2) by (auto simp: in_set_conv_nth)
  show ?thesis
  proof (cases w)
    case Idle
    with i show ?thesis using worker_step.dequeue by blast
  next
    case (Running r)
    with i show ?thesis using worker_step.finish by blast
  qed (use assms(3) in simp)
qed

lemma worker_step_work: "worker_step ex ex' \<Longrightarrow> ex_shutdown ex \<Longrightarrow> executor_work ex' < executor_work ex \<and> ex_shutdown ex'"
  by (induction rule: worker_step.induct) (simp_all only: dequeue_work finish_work)

text \<open>
  The shutdown ends: after \<open>tool_executor_destroy\<close> has set the flag, every step of a worker makes the remaining work
  smaller, a worker that has not left its loop can make one, and so the workers get to the state in which all of them have
  left it, where joining them returns.
\<close>

theorem executor_shutdown_ends:
  assumes sd: "ex_shutdown ex"
  shows "(\<forall>ex'. worker_step ex ex' \<longrightarrow> executor_work ex' < executor_work ex)
    \<and> (\<forall>w \<in> set (ex_workers ex). w \<noteq> Exited \<longrightarrow> (\<exists>ex'. worker_step ex ex'))
    \<and> (\<exists>ex'. worker_step\<^sup>*\<^sup>* ex ex' \<and> set (ex_workers ex') \<subseteq> {Exited})"
proof (intro conjI)
  show "\<exists>ex'. worker_step\<^sup>*\<^sup>* ex ex' \<and> set (ex_workers ex') \<subseteq> {Exited}" using sd
  proof (induction "executor_work ex" arbitrary: ex rule: less_induct)
    case (less ex)
    show ?case
    proof (cases "set (ex_workers ex) \<subseteq> {Exited}")
      case False
      then obtain ex1 where s: "worker_step ex ex1" using worker_can_step [OF less.prems] by auto
      with less.hyps [of ex1] worker_step_work [OF s less.prems] show ?thesis by (meson converse_rtranclp_into_rtranclp)
    qed blast
  qed
qed (use sd worker_step_work worker_can_step in blast)+

theorem executor_shutdown_ends_witness:
  "ex_shutdown (request_shutdown one_submitted)
   \<and> (\<exists>ex'. worker_step\<^sup>*\<^sup>* (request_shutdown one_submitted) ex' \<and> set (ex_workers ex') \<subseteq> {Exited})"
proof -
  have s: "ex_shutdown (request_shutdown one_submitted)" by (simp add: request_shutdown_def)
  show ?thesis using executor_shutdown_ends [OF s] s by blast
qed

section \<open>Synchronous execution\<close>

text \<open>
  \<open>tool_executor_execute_sync\<close> shares a context with the callback: the waiting thread and the worker hold one
  reference each. The context points at the caller's string and at a variable of the caller's frame, so a write after the
  waiting thread has gone on is a write through a dangling pointer. \<open>None\<close> for the context means that it has been freed. The
  waiting thread is waiting, about to release its reference, or back in the caller; the callback has not run yet, is about to
  release, or is over. Each critical section is one step.
\<close>

record SyncExecutionContext =
  sc_done :: bool
  sc_timed_out :: bool
  sc_refs :: int

datatype waiter = Waiting | Leaving Error | Returned Error

datatype callback_phase = Pending | Releasing | Finished

record sync_state =
  sy_ctx :: "SyncExecutionContext option"
  sy_frees :: nat
  sy_result :: string
  sy_err :: Error
  sy_waiter :: waiter
  sy_callback :: callback_phase

datatype sync_error = Freed_Context | Dangling_Write

definition sync_context_release :: "sync_state \<Rightarrow> sync_error + sync_state" where
  "sync_context_release st =
     (case sy_ctx st of
        None \<Rightarrow> Inl Freed_Context
      | Some ctx \<Rightarrow>
          if sc_refs ctx - 1 = 0 then Inr (st\<lparr>sy_ctx := None, sy_frees := Suc (sy_frees st)\<rparr>)
          else Inr (st\<lparr>sy_ctx := Some (ctx\<lparr>sc_refs := sc_refs ctx - 1\<rparr>)\<rparr>))"

text \<open>The critical section of \<open>sync_callback\<close>; \<open>result\<close> may be NULL.\<close>

definition sync_callback :: "string option \<Rightarrow> Error \<Rightarrow> sync_state \<Rightarrow> sync_error + sync_state" where
  "sync_callback result err st =
     (case sy_ctx st of
        None \<Rightarrow> Inl Freed_Context
      | Some ctx \<Rightarrow>
          if sc_timed_out ctx then Inr (st\<lparr>sy_callback := Releasing\<rparr>)
          else if sy_waiter st \<noteq> Waiting then Inl Dangling_Write
          else Inr (st\<lparr>sy_result := (case result of Some r \<Rightarrow> sy_result st @ r | None \<Rightarrow> sy_result st), sy_err := err,
                       sy_ctx := Some (ctx\<lparr>sc_done := True\<rparr>), sy_callback := Releasing\<rparr>))"

definition callback_release :: "sync_state \<Rightarrow> sync_error + sync_state" where
  "callback_release st = (case sync_context_release st of Inl e \<Rightarrow> Inl e | Inr st \<Rightarrow> Inr (st\<lparr>sy_callback := Finished\<rparr>))"

text \<open>Up to the wait; with a failed submission both references are released here.\<close>

definition sync_begin :: "string \<Rightarrow> sync_state" where
  "sync_begin result =
     \<lparr>sy_ctx = Some \<lparr>sc_done = False, sc_timed_out = False, sc_refs = 2\<rparr>, sy_frees = 0, sy_result = result,
      sy_err = error_new ERR_NONE (Some ''''), sy_waiter = Waiting, sy_callback = Pending\<rparr>"

definition sync_submit_failed :: "sync_state \<Rightarrow> sync_error + sync_state" where
  "sync_submit_failed st =
     (case sync_context_release st of
        Inl e \<Rightarrow> Inl e
      | Inr st \<Rightarrow> (case sync_context_release st of
                     Inl e \<Rightarrow> Inl e
                   | Inr st \<Rightarrow> Inr (st\<lparr>sy_waiter := Returned (error_new ERR_TOOL (Some ''Failed to submit tool execution'')),
                                       sy_callback := Finished\<rparr>)))"

text \<open>
  The waiting loop is left when the flag is set; a timed wait may report the time-out at any moment, also when the flag was
  set just before the mutex was taken again.
\<close>

definition wait_done :: "sync_state \<Rightarrow> sync_error + sync_state" where
  "wait_done st =
     (case sy_ctx st of
        None \<Rightarrow> Inl Freed_Context
      | Some ctx \<Rightarrow> if sc_done ctx then Inr (st\<lparr>sy_waiter := Leaving (sy_err st)\<rparr>) else Inr st)"

definition wait_timeout :: "sync_state \<Rightarrow> sync_error + sync_state" where
  "wait_timeout st =
     (case sy_ctx st of
        None \<Rightarrow> Inl Freed_Context
      | Some ctx \<Rightarrow> Inr (st\<lparr>sy_ctx := Some (ctx\<lparr>sc_timed_out := True\<rparr>),
                            sy_waiter := Leaving (error_new ERR_TIMEOUT (Some ''Tool execution timed out''))\<rparr>))"

definition waiter_release :: "Error \<Rightarrow> sync_state \<Rightarrow> sync_error + sync_state" where
  "waiter_release e st = (case sync_context_release st of Inl er \<Rightarrow> Inl er | Inr st \<Rightarrow> Inr (st\<lparr>sy_waiter := Returned e\<rparr>))"

text \<open>The absolute time of the timed wait: seconds and nanoseconds of the clock and the milliseconds of the caller.\<close>

definition deadline :: "int \<Rightarrow> int \<Rightarrow> int \<Rightarrow> int \<times> int" where
  "deadline sec nsec timeout_ms =
     (let sec = sec + timeout_ms div 1000; nsec = nsec + (timeout_ms mod 1000) * 1000000
      in if nsec \<ge> 1000000000 then (sec + 1, nsec - 1000000000) else (sec, nsec))"

inductive sync_step :: "int \<Rightarrow> sync_state \<Rightarrow> sync_error + sync_state \<Rightarrow> bool" for timeout_ms where
  sync_cb: "sy_callback st = Pending \<Longrightarrow> sync_step timeout_ms st (sync_callback result err st)"
| sync_cb_release: "sy_callback st = Releasing \<Longrightarrow> sync_step timeout_ms st (callback_release st)"
| sync_wait_done: "sy_waiter st = Waiting \<Longrightarrow> sync_step timeout_ms st (wait_done st)"
| sync_wait_timeout: "timeout_ms > 0 \<Longrightarrow> sy_waiter st = Waiting \<Longrightarrow> sync_step timeout_ms st (wait_timeout st)"
| sync_leave: "sy_waiter st = Leaving e \<Longrightarrow> sync_step timeout_ms st (waiter_release e st)"

inductive sync_run :: "int \<Rightarrow> string \<Rightarrow> sync_error + sync_state \<Rightarrow> bool" for timeout_ms result where
  sync_start: "sync_run timeout_ms result (Inr (sync_begin result))"
| sync_failed: "sync_run timeout_ms result (sync_submit_failed (sync_begin result))"
| sync_next: "sync_run timeout_ms result (Inr st) \<Longrightarrow> sync_step timeout_ms st r \<Longrightarrow> sync_run timeout_ms result r"

text \<open>The references that the two threads hold, and the invariant that counts them.\<close>

definition holders :: "sync_state \<Rightarrow> nat" where
  "holders st = (case sy_waiter st of Returned _ \<Rightarrow> 0 | _ \<Rightarrow> 1) + (case sy_callback st of Finished \<Rightarrow> 0 | _ \<Rightarrow> 1)"

definition sync_ok :: "int \<Rightarrow> sync_state \<Rightarrow> bool" where
  "sync_ok timeout_ms st \<longleftrightarrow>
     (case sy_ctx st of
        None \<Rightarrow> holders st = 0 \<and> sy_frees st = 1
      | Some ctx \<Rightarrow> holders st > 0 \<and> sc_refs ctx = int (holders st) \<and> sy_frees st = 0
          \<and> (sy_waiter st \<noteq> Waiting \<and> sy_callback st = Pending \<longrightarrow> sc_timed_out ctx)
          \<and> (sy_waiter st = Waiting \<longrightarrow> \<not> sc_timed_out ctx)
          \<and> (sc_done ctx \<longrightarrow> sy_callback st \<noteq> Pending)
          \<and> (sc_timed_out ctx \<longrightarrow> timeout_ms > 0))"

lemmas sync_defs = sync_ok_def holders_def sync_callback_def callback_release_def sync_context_release_def wait_done_def
  wait_timeout_def waiter_release_def

lemma sync_step_ok:
  "sync_step timeout_ms st r \<Longrightarrow> sync_ok timeout_ms st \<Longrightarrow> \<exists>st'. r = Inr st' \<and> sync_ok timeout_ms st'"
proof (induction rule: sync_step.induct)
  case (sync_cb st result err)
  then show ?case by (cases "sy_waiter st") (auto simp: sync_defs split: option.splits)
next
  case (sync_cb_release st)
  then show ?case by (cases "sy_waiter st") (auto simp: sync_defs split: option.splits)
next
  case (sync_wait_done st)
  then show ?case by (cases "sy_callback st") (auto simp: sync_defs split: option.splits)
next
  case (sync_wait_timeout st)
  then show ?case by (cases "sy_callback st") (auto simp: sync_defs split: option.splits)
next
  case (sync_leave st e)
  then show ?case by (cases "sy_callback st") (auto simp: sync_defs split: option.splits)
qed

lemma sync_run_ok: "sync_run timeout_ms result r \<Longrightarrow> \<exists>st. r = Inr st \<and> sync_ok timeout_ms st"
proof (induction rule: sync_run.induct)
  case sync_start
  show ?case by (simp add: sync_begin_def sync_ok_def holders_def)
next
  case sync_failed
  show ?case by (simp add: sync_submit_failed_def sync_begin_def sync_ok_def holders_def sync_context_release_def)
next
  case (sync_next st r)
  then show ?case using sync_step_ok by auto
qed

text \<open>
  Claim C30. Synchronous execution is memory safe in every interleaving of the waiting thread and the callback, time-outs
  included: no step touches a freed context, the callback never writes to the caller's string or frame after the waiting
  thread has left the wait, and the context is freed exactly once, when both threads have released it.
\<close>

theorem sync_context_safe:
  assumes "sync_run timeout_ms result r"
  shows "\<exists>st. r = Inr st \<and> sy_frees st \<le> 1 \<and> (sy_ctx st = None \<longleftrightarrow> sy_frees st = 1)
    \<and> (sy_ctx st = None \<longleftrightarrow> (\<exists>e. sy_waiter st = Returned e) \<and> sy_callback st = Finished)"
proof -
  obtain st where st: "r = Inr st" "sync_ok timeout_ms st" using sync_run_ok [OF assms] by blast
  have "sy_ctx st = None \<longleftrightarrow> holders st = 0" "sy_frees st = (if sy_ctx st = None then 1 else 0)"
    using st(2) by (auto simp: sync_ok_def split: option.splits)
  moreover have "holders st = 0 \<longleftrightarrow> (\<exists>e. sy_waiter st = Returned e) \<and> sy_callback st = Finished"
    by (auto simp: holders_def split: waiter.splits callback_phase.splits)
  ultimately show ?thesis using st(1) by simp
qed

definition timed_out_state :: sync_state where
  "timed_out_state = \<lparr>sy_ctx = Some \<lparr>sc_done = False, sc_timed_out = True, sc_refs = 2\<rparr>, sy_frees = 0, sy_result = [],
     sy_err = error_new ERR_NONE (Some ''''), sy_waiter = Leaving (error_new ERR_TIMEOUT (Some ''Tool execution timed out'')),
     sy_callback = Pending\<rparr>"

lemma timed_out_run: "sync_run 10 [] (Inr timed_out_state)"
proof -
  have "sync_step 10 (sync_begin []) (wait_timeout (sync_begin []))" by (rule sync_wait_timeout) (simp_all add: sync_begin_def)
  moreover have "wait_timeout (sync_begin []) = Inr timed_out_state" by (simp add: wait_timeout_def sync_begin_def timed_out_state_def)
  ultimately show ?thesis using sync_next [OF sync_start] by metis
qed

theorem sync_context_safe_witness:
  "sync_run 10 [] (Inr timed_out_state) \<and> sy_frees timed_out_state \<le> 1 \<and> sy_ctx timed_out_state \<noteq> None"
  using sync_context_safe [OF timed_out_run] timed_out_run by (simp add: timed_out_state_def)

text \<open>
  The deadline of the timed wait is the given number of milliseconds after the clock time, and its nanoseconds are
  in range, for a clock whose nanoseconds are.
\<close>

theorem deadline_exact:
  assumes "0 \<le> nsec" "nsec < 1000000000" "0 < timeout_ms"
  shows "case deadline sec nsec timeout_ms of (s, n) \<Rightarrow>
    0 \<le> n \<and> n < 1000000000 \<and> s * 1000000000 + n = sec * 1000000000 + nsec + timeout_ms * 1000000"
proof -
  define q r where "q = timeout_ms div 1000" and "r = timeout_ms mod 1000"
  have r: "0 \<le> r" "r < 1000" by (simp_all add: r_def)
  have t: "timeout_ms = q * 1000 + r" by (simp add: q_def r_def)
  show ?thesis using assms r unfolding deadline_def Let_def q_def [symmetric] r_def [symmetric] by (simp add: t)
qed

theorem deadline_exact_witness: "deadline 5 999999999 1001 = (7, 999999) \<and> (0::int) \<le> 999999"
  using deadline_exact [of 999999999 1001 5] by (simp add: deadline_def)

end
