(* ===== verification/Memory.thy ===== *)
theory Memory
  imports Session Utils
begin

text \<open>
  \<open>src/memory/memory.c\<close>: the long-term facts and the history of an agent, and their files. The text of a \<open>String\<close> is its
  bytes before NUL. \<open>malloc_ok\<close> says for which sizes a temporary buffer can be allocated (\<open>string_new\<close> finds memory), \<open>can_write\<close> which
  files can be opened for writing; a file can be read if it exists. \<open>m_buffers\<close> is a history variable: for each temporary buffer the bytes allocated and the bytes
  written. The threshold is a rational number. Operations hold the mutex and are one step.
\<close>

record Memory =
  m_memory_md :: string
  m_history_md :: string
  m_max_tokens :: nat
  m_current_tokens :: nat
  m_consolidation_threshold :: rat
  m_version :: nat
  m_buffers :: "(nat \<times> nat) list"

definition MEMORY_HARD_CAP_BYTES :: nat where
  "MEMORY_HARD_CAP_BYTES = 512 * 1024"

definition HISTORY_HARD_CAP_BYTES :: nat where
  "HISTORY_HARD_CAP_BYTES = 1024 * 1024"

section \<open>Operations on the texts\<close>

definition count_tokens :: "Memory \<Rightarrow> nat" where
  "count_tokens mem = estimate_tokens (Some (m_memory_md mem)) + estimate_tokens (Some (m_history_md mem))"

definition append_history_buffer_unlocked :: "(nat \<Rightarrow> bool) \<Rightarrow> Memory \<Rightarrow> string \<Rightarrow> Memory" where
  "append_history_buffer_unlocked malloc_ok mem entry =
     (let need = length (m_history_md mem) + length entry + 2
      in if need > HISTORY_HARD_CAP_BYTES \<or> \<not> malloc_ok need then mem
         else (let mem = mem\<lparr>m_history_md := m_history_md mem @ entry @ [newline],
                             m_buffers := m_buffers mem @ [(need, length (m_history_md mem) + length entry + 2)]\<rparr>
               in mem\<lparr>m_current_tokens := count_tokens mem\<rparr>))"

definition fact_exists_unlocked :: "(nat \<Rightarrow> bool) \<Rightarrow> Memory \<Rightarrow> string \<Rightarrow> bool" where
  "fact_exists_unlocked malloc_ok mem fct =
     (if \<not> malloc_ok (length fct + 4) then False else strstr (m_memory_md mem) (''- '' @ fct) \<noteq> None)"

text \<open>The index at which a fact is inserted: before the section after the notes, or at the end.\<close>

definition insert_index :: "string \<Rightarrow> nat" where
  "insert_index md =
     (case strstr md ''## Important Notes'' of
        None \<Rightarrow> length md
      | Some pos \<Rightarrow>
          (case strstr (drop (length ''## Important Notes'') pos) (newline # ''## '') of
             None \<Rightarrow> length md
           | Some rest \<Rightarrow> length md - length rest))"

definition add_fact_unlocked :: "(nat \<Rightarrow> bool) \<Rightarrow> Memory \<Rightarrow> string \<Rightarrow> Memory" where
  "add_fact_unlocked malloc_ok mem fct =
     (if fct = [] \<or> fact_exists_unlocked malloc_ok mem fct then mem
      else (let md = m_memory_md mem; insert_idx = insert_index md;
                need_newline = (insert_idx > 0 \<and> md ! (insert_idx - 1) \<noteq> newline);
                need = length md + length fct + (if need_newline then 4 else 3)
            in if need > MEMORY_HARD_CAP_BYTES \<or> \<not> malloc_ok need then mem
               else (let new_data = take insert_idx md @ (if need_newline then [newline] else []) @ ''- '' @ fct @ [newline] @ drop insert_idx md
                     in mem\<lparr>m_memory_md := new_data, m_buffers := m_buffers mem @ [(need, length new_data + 1)]\<rparr>)))"

section \<open>Creation and files\<close>

text \<open>The configuration is the pair of \<open>memory_max_tokens\<close> and \<open>memory_consolidation_threshold\<close>.\<close>

definition memory_new_with_config :: "bool \<Rightarrow> (int \<times> rat) option \<Rightarrow> Memory option" where
  "memory_new_with_config ok config =
     (if \<not> ok then None
      else Some \<lparr>m_memory_md = [], m_history_md = [],
                 m_max_tokens = (case config of Some (mt, _) \<Rightarrow> if mt > 0 then nat mt else 4000 | None \<Rightarrow> 4000),
                 m_current_tokens = 0,
                 m_consolidation_threshold = (case config of Some (_, th) \<Rightarrow> if th > 0 then th else 4 / 5 | None \<Rightarrow> 4 / 5),
                 m_version = 1, m_buffers = []\<rparr>)"

definition memory_new :: "bool \<Rightarrow> Memory option" where
  "memory_new ok = memory_new_with_config ok None"

definition memory_path :: "string \<Rightarrow> string" where
  "memory_path workspace_path = c_trunc FILE_PATH_MAX (workspace_path @ ''/memory/MEMORY.md'')"

definition history_path :: "string \<Rightarrow> string" where
  "history_path workspace_path = c_trunc FILE_PATH_MAX (workspace_path @ ''/memory/HISTORY.md'')"

definition default_mem :: string where
  "default_mem = ''# Long-term Memory'' @ [newline, newline] @ ''This file stores important information that should persist across sessions.''
     @ [newline, newline] @ ''## User Information'' @ [newline, newline] @ ''(Important facts about the user)'' @ [newline, newline]
     @ ''## Preferences'' @ [newline, newline] @ ''(User preferences learned over time)'' @ [newline, newline]
     @ ''## Important Notes'' @ [newline, newline] @ ''(Things to remember)'' @ [newline]"

definition memory_load :: "(nat \<Rightarrow> bool) \<Rightarrow> (string \<Rightarrow> bool) \<Rightarrow> filesystem \<Rightarrow> Memory \<Rightarrow> string option \<Rightarrow> Error \<times> Memory \<times> filesystem" where
  "memory_load malloc_ok can_write fs mem workspace_path =
     (case workspace_path of
        None \<Rightarrow> (error_new ERR_INVALID_PARAM (Some ''Invalid arguments''), mem, fs)
      | Some ws \<Rightarrow>
          (let (mem, fs) =
                 (case fs (memory_path ws) of
                    Some content \<Rightarrow>
                      if malloc_ok (length content + 1) then (mem\<lparr>m_memory_md := takeWhile (\<lambda>c. c \<noteq> NUL) content\<rparr>, fs) else (mem, fs)
                  | None \<Rightarrow>
                      if can_write (memory_path ws) then (mem\<lparr>m_memory_md := default_mem\<rparr>, fs(memory_path ws \<mapsto> default_mem)) else (mem, fs));
               mem =
                 (case fs (history_path ws) of
                    Some content \<Rightarrow>
                      if malloc_ok (length content + 1) then mem\<lparr>m_history_md := takeWhile (\<lambda>c. c \<noteq> NUL) content\<rparr> else mem
                  | None \<Rightarrow> mem\<lparr>m_history_md := []\<rparr>)
           in (error_new ERR_NONE (Some ''''), mem\<lparr>m_current_tokens := count_tokens mem, m_version := Suc (m_version mem)\<rparr>, fs)))"

text \<open>The two files, as \<open>memory_save\<close> and the end of \<open>memory_consolidate\<close> write them.\<close>

definition write_files :: "(string \<Rightarrow> bool) \<Rightarrow> filesystem \<Rightarrow> Memory \<Rightarrow> string \<Rightarrow> Error \<times> filesystem" where
  "write_files can_write fs mem ws =
     (if \<not> can_write (memory_path ws) then (error_new ERR_FILE (Some ''Cannot save MEMORY.md''), fs)
      else (let fs = fs(memory_path ws \<mapsto> m_memory_md mem)
            in if \<not> can_write (history_path ws) then (error_new ERR_FILE (Some ''Cannot save HISTORY.md''), fs)
               else (error_new ERR_NONE (Some ''''), fs(history_path ws \<mapsto> m_history_md mem))))"

definition memory_save :: "(string \<Rightarrow> bool) \<Rightarrow> filesystem \<Rightarrow> Memory \<Rightarrow> string option \<Rightarrow> Error \<times> filesystem" where
  "memory_save can_write fs mem workspace_path =
     (case workspace_path of
        None \<Rightarrow> (error_new ERR_INVALID_PARAM (Some ''Invalid arguments''), fs)
      | Some ws \<Rightarrow> write_files can_write fs mem ws)"

section \<open>The interface\<close>

definition memory_add_fact :: "(nat \<Rightarrow> bool) \<Rightarrow> Memory \<Rightarrow> string option \<Rightarrow> Memory" where
  "memory_add_fact malloc_ok mem fct =
     (case fct of
        None \<Rightarrow> mem
      | Some fct \<Rightarrow>
          if fct = [] then mem
          else (let mem = add_fact_unlocked malloc_ok mem fct
                in mem\<lparr>m_current_tokens := count_tokens mem, m_version := Suc (m_version mem)\<rparr>))"

definition memory_add_history :: "(nat \<Rightarrow> bool) \<Rightarrow> Memory \<Rightarrow> string option \<Rightarrow> Memory" where
  "memory_add_history malloc_ok mem entry =
     (case entry of
        None \<Rightarrow> mem
      | Some entry \<Rightarrow> (let mem = append_history_buffer_unlocked malloc_ok mem entry in mem\<lparr>m_version := Suc (m_version mem)\<rparr>))"

definition memory_append_history ::
  "(nat \<Rightarrow> bool) \<Rightarrow> (string \<Rightarrow> bool) \<Rightarrow> filesystem \<Rightarrow> Memory \<Rightarrow> string option \<Rightarrow> string option \<Rightarrow> Error \<times> Memory \<times> filesystem" where
  "memory_append_history malloc_ok can_write fs mem workspace_path entry =
     (case (workspace_path, entry) of
        (Some ws, Some entry) \<Rightarrow>
          if \<not> can_write (history_path ws) then (error_new ERR_FILE (Some ''Cannot append HISTORY.md''), mem, fs)
          else (let old = (case fs (history_path ws) of Some c \<Rightarrow> c | None \<Rightarrow> []);
                    fs = fs(history_path ws \<mapsto> old @ entry @ [newline]);
                    mem = append_history_buffer_unlocked malloc_ok mem entry
                in (error_new ERR_NONE (Some ''''), mem\<lparr>m_version := Suc (m_version mem)\<rparr>, fs))
      | _ \<Rightarrow> (error_new ERR_INVALID_PARAM (Some ''Invalid arguments''), mem, fs))"

definition rejected_text :: string where
  "rejected_text = ''Rejected: new content is much shorter than existing memory. You MUST include ALL existing facts in memory_update. Use '' @ [CHR 0x27]
     @ ''content'' @ [CHR 0x27] @ '' parameter to safely add new facts without replacing existing ones.''"

definition memory_set_facts :: "Memory \<Rightarrow> string option \<Rightarrow> Error \<times> Memory" where
  "memory_set_facts mem memory_update =
     (case memory_update of
        None \<Rightarrow> (error_new ERR_INVALID_PARAM (Some ''Invalid arguments''), mem)
      | Some update \<Rightarrow>
          if length (m_memory_md mem) > 100 \<and> length update < length (m_memory_md mem) div 3
          then (error_new ERR_INVALID_PARAM (Some rejected_text), mem)
          else (let mem = mem\<lparr>m_memory_md := update\<rparr>
                in (error_new ERR_NONE (Some ''''), mem\<lparr>m_current_tokens := count_tokens mem, m_version := Suc (m_version mem)\<rparr>)))"

definition memory_get_version :: "Memory \<Rightarrow> nat" where
  "memory_get_version mem = m_version mem"

definition memory_estimate_tokens :: "Memory \<Rightarrow> nat" where
  "memory_estimate_tokens mem = count_tokens mem"

definition over_threshold :: "Memory \<Rightarrow> bool" where
  "over_threshold mem = (of_nat (count_tokens mem) > of_nat (m_max_tokens mem) * m_consolidation_threshold mem)"

definition memory_needs_consolidation :: "Memory \<Rightarrow> bool \<times> Memory" where
  "memory_needs_consolidation mem = (over_threshold mem, mem\<lparr>m_current_tokens := count_tokens mem\<rparr>)"

section \<open>Consolidation\<close>

text \<open>The loop that goes back from the end until it has seen \<open>entries_to_keep\<close> line ends.\<close>

fun cut_back :: "string \<Rightarrow> nat \<Rightarrow> nat \<Rightarrow> nat" where
  "cut_back data 0 newline_count = 0"
| "cut_back data (Suc cut_pos) newline_count =
     (if newline_count < 5
      then cut_back data cut_pos (if data ! cut_pos = newline then Suc newline_count else newline_count)
      else Suc cut_pos)"

definition marker :: string where
  "marker = [newline, newline] @ ''[Previous history consolidated to save space]'' @ [newline]"

definition replace_history :: "(nat \<Rightarrow> bool) \<Rightarrow> nat \<Rightarrow> Memory \<Rightarrow> Memory" where
  "replace_history malloc_ok cut_pos mem =
     (if cut_pos = 0 then mem
      else (let remaining = drop cut_pos (m_history_md mem);
                total = min (length marker + length remaining + 1) HISTORY_HARD_CAP_BYTES
            in if \<not> malloc_ok total then mem
               else mem\<lparr>m_history_md := marker @ remaining,
                        m_buffers := m_buffers mem @ [(total, length marker + length remaining + 1)]\<rparr>))"

definition fact_of_line :: "string \<Rightarrow> string" where
  "fact_of_line line =
     (if starts_with ''['' line
      then (case strchr line (CHR '']'') of
              Some after \<Rightarrow> if length after > 1 \<and> after ! 1 = CHR '' '' then drop 2 after else line
            | None \<Rightarrow> line)
      else line)"

fun add_old_facts :: "(nat \<Rightarrow> bool) \<Rightarrow> Memory \<Rightarrow> nat \<Rightarrow> string list \<Rightarrow> Memory" where
  "add_old_facts malloc_ok mem added [] = mem"
| "add_old_facts malloc_ok mem added (line # lines) =
     (if added < 5
      then (let line = skip_space line; fct = fact_of_line line
            in if line \<noteq> [] \<and> strstr line ''consolidated to save space'' = None \<and> fct \<noteq> [] \<and> \<not> fact_exists_unlocked malloc_ok mem fct
               then add_old_facts malloc_ok (add_fact_unlocked malloc_ok mem fct) (Suc added) lines
               else add_old_facts malloc_ok mem added lines)
      else mem)"

definition memory_consolidate ::
  "(nat \<Rightarrow> bool) \<Rightarrow> (string \<Rightarrow> bool) \<Rightarrow> filesystem \<Rightarrow> Memory \<Rightarrow> string option \<Rightarrow> Error \<times> Memory \<times> filesystem" where
  "memory_consolidate malloc_ok can_write fs mem workspace_path =
     (case workspace_path of
        None \<Rightarrow> (error_new ERR_INVALID_PARAM (Some ''Invalid arguments''), mem, fs)
      | Some ws \<Rightarrow>
          (let mem = mem\<lparr>m_current_tokens := count_tokens mem\<rparr>
           in if \<not> over_threshold mem then (error_new ERR_NONE (Some ''''), mem, fs)
              else (let data = m_history_md mem; cut_pos = cut_back data (length data) 0;
                        old_part = (if cut_pos > 0 \<and> malloc_ok (cut_pos + 1) then Some (take cut_pos data) else None);
                        mem = replace_history malloc_ok cut_pos mem;
                        mem = (case old_part of Some old \<Rightarrow> add_old_facts malloc_ok mem 0 (strtok newline old) | None \<Rightarrow> mem);
                        mem = mem\<lparr>m_current_tokens := count_tokens mem, m_version := Suc (m_version mem)\<rparr>;
                        (err, fs) = write_files can_write fs mem ws
                    in (err, mem, fs))))"

section \<open>Facts\<close>

lemmas memory_defs = memory_add_fact_def add_fact_unlocked_def fact_exists_unlocked_def Let_def

lemma insert_index_spec:
  "insert_index md \<le> length md \<and> (insert_index md < length md \<longrightarrow> hd (drop (insert_index md) md) = newline)"
proof (cases "strstr md ''## Important Notes''")
  case (Some pos)
  show ?thesis
  proof (cases "strstr (drop (length ''## Important Notes'') pos) (newline # ''## '')")
    case None
    then show ?thesis using Some by (simp add: insert_index_def)
  next
    case rest: (Some rest)
    have "suffix rest md" using strstr_Some [OF rest] strstr_Some [OF Some] suffix_drop suffix_order.trans by blast
    then obtain u where u: "md = u @ rest" by (auto simp: suffix_def)
    moreover have "\<exists>r. rest = newline # r" using strstr_Some [OF rest] by (auto simp: prefix_def)
    ultimately show ?thesis using Some rest by (auto simp: insert_index_def)
  qed
qed (simp add: insert_index_def)

lemma sublist_insert:
  assumes "newline \<notin> set n" "sublist n (a @ b)" "b = [] \<or> hd b = newline"
  shows "sublist n (a @ x @ b)"
proof -
  consider "sublist n a" | "sublist n b" | n1 n2 where "n = n1 @ n2" "suffix n1 a" "prefix n2 b"
    using assms(2) unfolding sublist_append by blast
  then show ?thesis
  proof cases
    case 3
    have "n2 = []"
    proof (cases n2)
      case (Cons c cs)
      with 3 have "c = newline" using assms(3) by (auto simp: prefix_def)
      with Cons 3 assms(1) show ?thesis by simp
    qed
    with 3 show ?thesis by (simp add: suffix_imp_sublist sublist_append)
  qed (simp_all add: sublist_append)
qed

lemma fact_exists_sublist:
  "malloc_ok (length f + 4) \<Longrightarrow> fact_exists_unlocked malloc_ok mem f \<longleftrightarrow> sublist (''- '' @ f) (m_memory_md mem)"
  using strstr_None [of "m_memory_md mem" "''- '' @ f"] by (simp add: fact_exists_unlocked_def)

lemma add_fact_shape:
  "m_memory_md (add_fact_unlocked malloc_ok mem f) = m_memory_md mem \<or>
   (\<exists>a b x. m_memory_md mem = a @ b \<and> (b = [] \<or> hd b = newline) \<and> m_memory_md (add_fact_unlocked malloc_ok mem f) = a @ x @ b)"
proof -
  let ?md = "m_memory_md mem" and ?i = "insert_index (m_memory_md mem)"
  have "?md = take ?i ?md @ drop ?i ?md" "drop ?i ?md = [] \<or> hd (drop ?i ?md) = newline"
    using insert_index_spec [of ?md] by auto
  moreover have "m_memory_md (add_fact_unlocked malloc_ok mem f) = ?md \<or> (\<exists>x. m_memory_md (add_fact_unlocked malloc_ok mem f) = take ?i ?md @ x @ drop ?i ?md)"
    by (simp add: add_fact_unlocked_def Let_def)
  ultimately show ?thesis by blast
qed

lemma add_fact_keeps:
  assumes "newline \<notin> set g" "sublist (''- '' @ g) (m_memory_md mem)"
  shows "sublist (''- '' @ g) (m_memory_md (add_fact_unlocked malloc_ok mem f))"
  using add_fact_shape [of malloc_ok mem f]
proof
  assume "\<exists>a b x. m_memory_md mem = a @ b \<and> (b = [] \<or> hd b = newline) \<and> m_memory_md (add_fact_unlocked malloc_ok mem f) = a @ x @ b"
  then obtain a b x where "m_memory_md mem = a @ b" "b = [] \<or> hd b = newline" "m_memory_md (add_fact_unlocked malloc_ok mem f) = a @ x @ b"
    by blast
  then show ?thesis using assms sublist_insert [of "''- '' @ g" a b x] by simp
qed (use assms in simp)

lemma add_fact_adds:
  assumes "malloc_ok = (\<lambda>n. True)" "f \<noteq> []" "length (m_memory_md mem) + length f + 4 \<le> MEMORY_HARD_CAP_BYTES"
  shows "sublist (''- '' @ f) (m_memory_md (add_fact_unlocked malloc_ok mem f))"
proof (cases "fact_exists_unlocked malloc_ok mem f")
  case True
  then show ?thesis using assms fact_exists_sublist [of malloc_ok f mem] by (simp add: add_fact_unlocked_def)
next
  case False
  have "sublist (''- '' @ f) (p @ q @ ''- '' @ f @ [newline] @ r)" for p q r
    using sublist_appendI [of "''- '' @ f" "p @ q" "newline # r"] by simp
  with False assms show ?thesis unfolding add_fact_unlocked_def by (simp add: Let_def)
qed

text \<open>
  A remembered fact stays: when there is room, \<open>memory_add_fact\<close> makes the fact known, keeps every fact that was known (on
  one line), does not touch the history, counts a new version, and adding it again leaves the text as it is.
\<close>

theorem memory_add_fact_correct:
  assumes ok: "malloc_ok = (\<lambda>n. True)" and f: "f \<noteq> []"
    and room: "length (m_memory_md mem) + length f + 4 \<le> MEMORY_HARD_CAP_BYTES"
    and mem': "mem' = memory_add_fact malloc_ok mem (Some f)"
  shows "fact_exists_unlocked malloc_ok mem' f
    \<and> (\<forall>g. newline \<notin> set g \<longrightarrow> fact_exists_unlocked malloc_ok mem g \<longrightarrow> fact_exists_unlocked malloc_ok mem' g)
    \<and> m_history_md mem' = m_history_md mem \<and> memory_get_version mem' = memory_get_version mem + 1
    \<and> m_memory_md (memory_add_fact malloc_ok mem' (Some f)) = m_memory_md mem'"
proof -
  have md: "m_memory_md mem' = m_memory_md (add_fact_unlocked malloc_ok mem f)" using mem' f by (simp add: memory_add_fact_def Let_def)
  have ex: "fact_exists_unlocked malloc_ok mem' f" using add_fact_adds [OF ok f room] md by (simp add: ok fact_exists_sublist)
  moreover have "\<forall>g. newline \<notin> set g \<longrightarrow> fact_exists_unlocked malloc_ok mem g \<longrightarrow> fact_exists_unlocked malloc_ok mem' g"
    using add_fact_keeps md by (simp add: ok fact_exists_sublist)
  moreover have "m_history_md mem' = m_history_md mem \<and> memory_get_version mem' = memory_get_version mem + 1"
    using mem' f by (simp add: memory_add_fact_def memory_get_version_def add_fact_unlocked_def Let_def)
  moreover have "m_memory_md (memory_add_fact malloc_ok mem' (Some f)) = m_memory_md mem'"
    using ex f by (simp add: memory_add_fact_def add_fact_unlocked_def Let_def)
  ultimately show ?thesis by blast
qed

definition small_memory :: Memory where
  "small_memory = \<lparr>m_memory_md = ''- tea'' @ [newline], m_history_md = [], m_max_tokens = 4000, m_current_tokens = 0,
     m_consolidation_threshold = 4 / 5, m_version = 1, m_buffers = []\<rparr>"

theorem memory_add_fact_correct_witness:
  "fact_exists_unlocked (\<lambda>n. True) (memory_add_fact (\<lambda>n. True) small_memory (Some ''cat'')) ''cat''
   \<and> fact_exists_unlocked (\<lambda>n. True) (memory_add_fact (\<lambda>n. True) small_memory (Some ''cat'')) ''tea''"
proof -
  have "fact_exists_unlocked (\<lambda>n. True) small_memory ''tea''" by (simp add: fact_exists_unlocked_def small_memory_def starts_with_def)
  moreover have "newline \<notin> set ''tea''" by simp
  ultimately show ?thesis
    using memory_add_fact_correct [of "\<lambda>n. True" "''cat''" small_memory "memory_add_fact (\<lambda>n. True) small_memory (Some ''cat'')"]
    by (simp add: small_memory_def MEMORY_HARD_CAP_BYTES_def)
qed

text \<open>
  The buffer for a new fact is one byte too small: whenever \<open>add_fact_unlocked\<close> stores a fact, it writes exactly one byte more than
  it has allocated. The sizes count the dash, the blank and the line end, but not the terminating NUL.
\<close>

theorem add_fact_overflows_buffer:
  assumes "malloc_ok = (\<lambda>n. True)" "f \<noteq> []" "\<not> fact_exists_unlocked malloc_ok mem f"
    "length (m_memory_md mem) + length f + 4 \<le> MEMORY_HARD_CAP_BYTES"
  shows "\<exists>need. m_buffers (memory_add_fact malloc_ok mem (Some f)) = m_buffers mem @ [(need, need + 1)]"
  using assms insert_index_spec [of "m_memory_md mem"] by (simp add: memory_add_fact_def add_fact_unlocked_def Let_def)

theorem add_fact_overflows_buffer_witness:
  "\<exists>need. m_buffers (memory_add_fact (\<lambda>n. True) small_memory (Some ''cat'')) = [(need, need + 1)]"
  using add_fact_overflows_buffer [of "\<lambda>n. True" "''cat''" small_memory]
  by (simp add: fact_exists_unlocked_def small_memory_def starts_with_def MEMORY_HARD_CAP_BYTES_def)

section \<open>Files\<close>

lemma paths_differ: "length ws + 20 \<le> FILE_PATH_MAX \<Longrightarrow> memory_path ws \<noteq> history_path ws"
proof -
  assume l: "length ws + 20 \<le> FILE_PATH_MAX"
  have "memory_path ws = ws @ ''/memory/MEMORY.md''" unfolding memory_path_def by (rule c_trunc_fits) (use l in simp)
  moreover have "history_path ws = ws @ ''/memory/HISTORY.md''" unfolding history_path_def by (rule c_trunc_fits) (use l in simp)
  ultimately show ?thesis by simp
qed

lemma takeWhile_no_NUL: "NUL \<notin> set s \<Longrightarrow> takeWhile (\<lambda>c. c \<noteq> NUL) s = s"
  by (induction s) auto

text \<open>
  What \<open>memory_save\<close> writes, \<open>memory_load\<close> reads back, into any memory: both texts are the saved ones, the token count is theirs, and the
  files are not changed by loading.
\<close>

theorem memory_save_load:
  assumes "length ws + 20 \<le> FILE_PATH_MAX" "NUL \<notin> set (m_memory_md mem)" "NUL \<notin> set (m_history_md mem)"
    and "\<And>p. can_write p" "malloc_ok = (\<lambda>n. True)"
    and s: "memory_save can_write fs mem (Some ws) = (err, fs')" and l: "memory_load malloc_ok can_write fs' mem0 (Some ws) = (err', mem', fs'')"
  shows "err = error_new ERR_NONE (Some '''') \<and> err' = error_new ERR_NONE (Some '''') \<and> m_memory_md mem' = m_memory_md mem
    \<and> m_history_md mem' = m_history_md mem \<and> m_current_tokens mem' = memory_estimate_tokens mem \<and> fs'' = fs'"
proof -
  have "err = error_new ERR_NONE (Some '''')" "fs' = fs(memory_path ws \<mapsto> m_memory_md mem, history_path ws \<mapsto> m_history_md mem)"
    using s assms(4) by (auto simp: memory_save_def write_files_def Let_def)
  then show ?thesis using l paths_differ [OF assms(1)] assms(2-5)
    by (auto simp: memory_load_def takeWhile_no_NUL count_tokens_def memory_estimate_tokens_def)
qed

theorem memory_save_load_witness:
  "m_memory_md (fst (snd (memory_load (\<lambda>n. True) (\<lambda>p. True) (snd (memory_save (\<lambda>p. True) Map.empty small_memory (Some ''w'')))
     (small_memory\<lparr>m_memory_md := []\<rparr>) (Some ''w'')))) = ''- tea'' @ [newline]"
proof -
  let ?save = "memory_save (\<lambda>p. True) Map.empty small_memory (Some ''w'')"
  obtain err fs' where sv: "?save = (err, fs')" by fastforce
  obtain err' mem' fs'' where l: "memory_load (\<lambda>n. True) (\<lambda>p. True) fs' (small_memory\<lparr>m_memory_md := []\<rparr>) (Some ''w'') = (err', mem', fs'')"
    using prod_cases3 by blast
  have "length ''w'' + 20 \<le> FILE_PATH_MAX" "NUL \<notin> set (m_memory_md small_memory)" "NUL \<notin> set (m_history_md small_memory)"
    by (simp_all add: FILE_PATH_MAX_def small_memory_def)
  from memory_save_load [OF this TrueI refl sv l] have "m_memory_md mem' = m_memory_md small_memory" by blast
  then show ?thesis by (simp add: sv l) (simp add: small_memory_def)
qed

text \<open>
  The cap on the history holds in memory only: an entry that would exceed it is dropped from the text but has already been appended to the
  file, and no error is reported, so the file grows without bound.
\<close>

theorem append_history_file_exceeds_cap:
  assumes "length (m_history_md mem) + length entry + 2 > HISTORY_HARD_CAP_BYTES" "can_write (history_path ws)"
    and "memory_append_history malloc_ok can_write fs mem (Some ws) (Some entry) = (err, mem', fs')"
  shows "err = error_new ERR_NONE (Some '''') \<and> m_history_md mem' = m_history_md mem
    \<and> fs' (history_path ws) = Some ((case fs (history_path ws) of Some c \<Rightarrow> c | None \<Rightarrow> []) @ entry @ [newline])"
  using assms by (auto simp: memory_append_history_def append_history_buffer_unlocked_def Let_def)

theorem append_history_file_exceeds_cap_witness:
  "\<exists>err mem' fs'. memory_append_history (\<lambda>n. True) (\<lambda>p. True) Map.empty (small_memory\<lparr>m_history_md := replicate 1048575 (CHR ''a'')\<rparr>) (Some ''w'') (Some ''b'')
     = (err, mem', fs') \<and> fs' (history_path ''w'') = Some (''b'' @ [newline])"
proof -
  let ?mem = "small_memory\<lparr>m_history_md := replicate 1048575 (CHR ''a'')\<rparr>"
  obtain err mem' fs' where r: "memory_append_history (\<lambda>n. True) (\<lambda>p. True) Map.empty ?mem (Some ''w'') (Some ''b'') = (err, mem', fs')"
    using prod_cases3 by blast
  have "length (m_history_md ?mem) + length ''b'' + 2 > HISTORY_HARD_CAP_BYTES" by (simp add: HISTORY_HARD_CAP_BYTES_def)
  from append_history_file_exceeds_cap [OF this _ r] show ?thesis using r by auto
qed

section \<open>Consolidation keeps four entries\<close>

lemma cut_back_5: "cut_back data n 5 = n"
  by (cases n) simp_all

lemma cut_back_line_end: "c < 5 \<Longrightarrow> cut_back (pre @ newline # post) (Suc (length pre)) c = cut_back (pre @ newline # post) (length pre) (Suc c)"
  by simp

lemma cut_back_segment:
  "newline \<notin> set seg \<Longrightarrow> c < 5 \<Longrightarrow> cut_back (pre @ seg @ post) (length pre + length seg) c = cut_back (pre @ seg @ post) (length pre) c"
proof (induction seg arbitrary: post rule: rev_induct)
  case (snoc x seg)
  have "(pre @ seg @ x # post) ! (length pre + length seg) = x" by (simp add: nth_append)
  with snoc.prems have "cut_back (pre @ (seg @ [x]) @ post) (length pre + length (seg @ [x])) c
      = cut_back (pre @ seg @ x # post) (length pre + length seg) c" by auto
  also have "\<dots> = cut_back (pre @ seg @ x # post) (length pre) c" using snoc.IH [of "x # post"] snoc.prems by simp
  finally show ?case by simp
qed simp

definition log_text :: "string list \<Rightarrow> string" where
  "log_text es = concat (map (\<lambda>e. e @ [newline]) es)"

lemma cut_back_entries:
  "\<forall>k \<in> set ks. newline \<notin> set k \<Longrightarrow> c + length ks < 5 \<Longrightarrow>
   cut_back (pre @ log_text ks @ post) (length pre + length (log_text ks)) c = cut_back (pre @ log_text ks @ post) (length pre) (c + length ks)"
proof (induction ks arbitrary: post c rule: rev_induct)
  case (snoc k ks)
  let ?d = "pre @ log_text ks @ k @ newline # post"
  have "cut_back ?d (length pre + length (log_text (ks @ [k]))) c = cut_back ?d (length pre + length (log_text ks) + length k) (Suc c)"
    using cut_back_line_end [of c "pre @ log_text ks @ k" post] snoc.prems(2) by (simp add: log_text_def add.assoc)
  also have "\<dots> = cut_back ?d (length pre + length (log_text ks)) (Suc c)"
    using cut_back_segment [of k "Suc c" "pre @ log_text ks" "newline # post"] snoc.prems by simp
  also have "\<dots> = cut_back ?d (length pre) (Suc c + length ks)" using snoc.IH [of "Suc c" "k @ newline # post"] snoc.prems by simp
  finally show ?case by (simp add: log_text_def)
qed (simp add: log_text_def)

lemma cut_back_log:
  assumes "\<forall>k \<in> set ks. newline \<notin> set k" "length ks = 4"
  shows "cut_back (pre @ [newline] @ log_text ks) (length (pre @ [newline] @ log_text ks)) 0 = length pre"
  using cut_back_entries [of ks 0 "pre @ [newline]" "[]"] assms cut_back_line_end [of 4 pre "log_text ks"] cut_back_5 by simp

lemma add_fact_history: "m_history_md (add_fact_unlocked malloc_ok mem f) = m_history_md mem"
  by (simp add: add_fact_unlocked_def Let_def)

lemma add_old_facts_keeps:
  "m_history_md (add_old_facts malloc_ok mem added ls) = m_history_md mem
   \<and> (newline \<notin> set g \<longrightarrow> sublist (''- '' @ g) (m_memory_md mem) \<longrightarrow> sublist (''- '' @ g) (m_memory_md (add_old_facts malloc_ok mem added ls)))"
proof (induction malloc_ok mem added ls rule: add_old_facts.induct)
  case (2 malloc_ok mem added line lines)
  then show ?case using add_fact_keeps [of g mem malloc_ok "fact_of_line (skip_space line)"]
    by (simp add: add_fact_history Let_def)
qed simp

lemma replace_history_texts:
  "cut_pos \<noteq> 0 \<Longrightarrow> m_history_md (replace_history (\<lambda>n. True) cut_pos mem) = marker @ drop cut_pos (m_history_md mem)
   \<and> m_memory_md (replace_history (\<lambda>n. True) cut_pos mem) = m_memory_md mem"
  by (simp add: replace_history_def Let_def)

text \<open>
  Consolidation replaces a long history by the marker and its last four entries (\<open>entries_to_keep\<close> is five, but the first line end found is the
  end of the last entry, and the fifth the end of the entry before the last four), keeps every known fact, and leaves both files equal to the memory.
\<close>

theorem memory_consolidate_keeps_four:
  assumes over: "over_threshold mem" and ok: "malloc_ok = (\<lambda>n. True)" "\<And>p. can_write p" and ws: "length ws + 20 \<le> FILE_PATH_MAX"
    and h: "m_history_md mem = log_text (old @ e # ks)" and ks: "length ks = 4" "\<forall>k \<in> set ks. newline \<notin> set k" and ne: "log_text old @ e \<noteq> []"
    and r: "memory_consolidate malloc_ok can_write fs mem (Some ws) = (err, mem', fs')"
  shows "m_history_md mem' = marker @ [newline] @ log_text ks
    \<and> (\<forall>g. newline \<notin> set g \<longrightarrow> fact_exists_unlocked malloc_ok mem g \<longrightarrow> fact_exists_unlocked malloc_ok mem' g)
    \<and> fs' (memory_path ws) = Some (m_memory_md mem') \<and> fs' (history_path ws) = Some (m_history_md mem')
    \<and> err = error_new ERR_NONE (Some '''')"
proof -
  let ?pre = "log_text old @ e"
  have d: "m_history_md mem = ?pre @ [newline] @ log_text ks" using h by (simp add: log_text_def)
  have cut: "cut_back (m_history_md mem) (length (m_history_md mem)) 0 = length ?pre" unfolding d by (rule cut_back_log [OF ks(2,1)])
  define m1 where "m1 = replace_history malloc_ok (length ?pre) (mem\<lparr>m_current_tokens := count_tokens mem\<rparr>)"
  have "length ?pre \<noteq> 0" "drop (length ?pre) (m_history_md mem) = [newline] @ log_text ks" unfolding d using ne by simp_all
  then have m1: "m_history_md m1 = marker @ [newline] @ log_text ks" "m_memory_md m1 = m_memory_md mem"
    using replace_history_texts [of "length ?pre" "mem\<lparr>m_current_tokens := count_tokens mem\<rparr>"] by (simp_all add: m1_def ok(1) del: length_append)
  define m2 where "m2 = add_old_facts malloc_ok m1 0 (strtok newline (take (length ?pre) (m_history_md mem)))"
  have ot: "over_threshold (mem\<lparr>m_current_tokens := count_tokens mem\<rparr>)" using over by (simp add: over_threshold_def count_tokens_def)
  have mem': "mem' = m2\<lparr>m_current_tokens := count_tokens m2, m_version := Suc (m_version m2)\<rparr>"
    and fs': "write_files can_write fs mem' ws = (err, fs')"
    using r ot cut ne unfolding memory_consolidate_def by (auto simp: Let_def ok(1) m1_def m2_def split: prod.splits)
  have "m_history_md mem' = m_history_md m1" using add_old_facts_keeps by (simp add: mem' m2_def)
  moreover have "\<forall>g. newline \<notin> set g \<longrightarrow> fact_exists_unlocked malloc_ok mem g \<longrightarrow> fact_exists_unlocked malloc_ok mem' g"
    using add_old_facts_keeps [of malloc_ok m1] m1(2) by (simp add: ok(1) fact_exists_sublist mem' m2_def)
  moreover have "fs' (memory_path ws) = Some (m_memory_md mem') \<and> fs' (history_path ws) = Some (m_history_md mem') \<and> err = error_new ERR_NONE (Some '''')"
    using fs' paths_differ [OF ws] ok(2) by (auto simp: write_files_def Let_def)
  ultimately show ?thesis using m1(1) by simp
qed

definition full_memory :: Memory where
  "full_memory = small_memory\<lparr>m_history_md := log_text [''one'', ''two'', ''three'', ''four'', ''five''], m_max_tokens := 0\<rparr>"

theorem memory_consolidate_keeps_four_witness:
  "m_history_md (fst (snd (memory_consolidate (\<lambda>n. True) (\<lambda>p. True) Map.empty full_memory (Some ''w''))))
   = marker @ [newline] @ log_text [''two'', ''three'', ''four'', ''five'']"
proof -
  obtain err mem' fs' where r: "memory_consolidate (\<lambda>n. True) (\<lambda>p. True) Map.empty full_memory (Some ''w'') = (err, mem', fs')"
    using prod_cases3 by blast
  have "over_threshold full_memory"
    by (simp add: over_threshold_def full_memory_def small_memory_def log_text_def count_tokens_def estimate_tokens_def)
  from memory_consolidate_keeps_four [OF this refl _ _ _ _ _ _ r, of "[]" "''one''" "[''two'', ''three'', ''four'', ''five'']"]
  have "m_history_md mem' = marker @ [newline] @ log_text [''two'', ''three'', ''four'', ''five'']"
    by (simp add: FILE_PATH_MAX_def full_memory_def small_memory_def)
  then show ?thesis using r by simp
qed

text \<open>The clamp of the size is not followed by a clamp of the copy: with long last entries the new history is longer than its buffer.\<close>

lemma replace_history_overflow:
  assumes "cut_pos > 0" "malloc_ok HISTORY_HARD_CAP_BYTES" "length marker + length (drop cut_pos (m_history_md mem)) + 1 > HISTORY_HARD_CAP_BYTES"
  shows "\<exists>written. m_buffers (replace_history malloc_ok cut_pos mem) = m_buffers mem @ [(HISTORY_HARD_CAP_BYTES, written)] \<and> written > HISTORY_HARD_CAP_BYTES"
  using assms by (simp add: replace_history_def Let_def min_def)

end
