(* ===== verification/Heartbeat.thy ===== *)
theory Heartbeat
  imports Session CLib
begin

text \<open>
  \<open>src/heartbeat/heartbeat.c\<close>: the service that looks at \<^verbatim>\<open>HEARTBEAT.md\<close> from time to time. The decision is the one of the code,
  which searches for words. The callbacks are recorded as calls: the tasks given to \<open>on_execute\<close> and the texts given to
  \<open>on_notify\<close>; what \<open>on_execute\<close> answers is a parameter. \<open>None\<close> for a callback is NULL.
\<close>

record HeartbeatService =
  hb_workspace :: string
  hb_on_execute :: "(string \<Rightarrow> string option) option"
  hb_on_notify :: bool
  hb_interval_s :: int
  hb_enabled :: bool
  hb_running :: bool
  hb_executed :: "string list"
  hb_notified :: "string list"

definition read_heartbeat_file :: "bool \<Rightarrow> filesystem \<Rightarrow> string \<Rightarrow> string option" where
  "read_heartbeat_file ok fs workspace =
     (case fs (c_trunc FILE_PATH_MAX (workspace @ ''/HEARTBEAT.md'')) of
        None \<Rightarrow> None
      | Some content \<Rightarrow> if content = [] \<or> \<not> ok then None else Some (takeWhile (\<lambda>c. c \<noteq> NUL) content))"

text \<open>\<open>strcasestr\<close>: some suffix starts with the word, without regard to case.\<close>

fun strcasestr :: "string \<Rightarrow> string \<Rightarrow> bool" where
  "strcasestr [] w = (w = [])"
| "strcasestr (c # cs) w = (strcaseeq (take (length w) (c # cs)) w \<or> strcasestr cs w)"

definition run_keywords :: "string list" where
  "run_keywords = [''pending'', ''todo'', ''task'', ''active'', ''waiting'']"

definition tasks_text :: string where
  "tasks_text = ''Tasks found in HEARTBEAT.md''"

text \<open>0: skip, 1: run; and the tasks.\<close>

definition heartbeat_decide :: "string \<Rightarrow> int \<times> string option" where
  "heartbeat_decide content = (if \<exists>kw \<in> set run_keywords. strcasestr content kw then (1, Some tasks_text) else (0, None))"

text \<open>One iteration of \<open>heartbeat_worker\<close> after the sleep.\<close>

definition heartbeat_tick :: "bool \<Rightarrow> filesystem \<Rightarrow> HeartbeatService \<Rightarrow> HeartbeatService" where
  "heartbeat_tick ok fs service =
     (if \<not> hb_running service then service
      else (case read_heartbeat_file ok fs (hb_workspace service) of
              None \<Rightarrow> service
            | Some content \<Rightarrow>
                (case heartbeat_decide content of
                   (decision, tasks) \<Rightarrow>
                     if decision \<le> 0 then service
                     else (case (hb_on_execute service, tasks) of
                             (Some execute, Some t) \<Rightarrow>
                               (let service = service\<lparr>hb_executed := hb_executed service @ [t]\<rparr>
                                in (case execute t of
                                      Some response \<Rightarrow> if hb_on_notify service
                                                       then service\<lparr>hb_notified := hb_notified service @ [response]\<rparr> else service
                                    | None \<Rightarrow> service))
                           | _ \<Rightarrow> service))))"

definition heartbeat_service_create ::
  "bool \<Rightarrow> string \<Rightarrow> (string \<Rightarrow> string option) option \<Rightarrow> bool \<Rightarrow> int \<Rightarrow> bool \<Rightarrow> HeartbeatService option" where
  "heartbeat_service_create ok workspace on_execute on_notify interval_s enabled =
     (if ok then Some \<lparr>hb_workspace = workspace, hb_on_execute = on_execute, hb_on_notify = on_notify, hb_interval_s = interval_s,
                       hb_enabled = enabled, hb_running = False, hb_executed = [], hb_notified = []\<rparr>
      else None)"

definition heartbeat_service_start :: "bool \<Rightarrow> HeartbeatService \<Rightarrow> bool \<times> HeartbeatService" where
  "heartbeat_service_start thread_ok service =
     (if \<not> hb_enabled service \<or> hb_running service then (False, service)
      else if \<not> thread_ok then (False, service\<lparr>hb_running := False\<rparr>)
      else (True, service\<lparr>hb_running := True\<rparr>))"

definition heartbeat_service_stop :: "HeartbeatService \<Rightarrow> HeartbeatService" where
  "heartbeat_service_stop service = (if \<not> hb_running service then service else service\<lparr>hb_running := False\<rparr>)"

definition heartbeat_service_trigger_now :: "bool \<Rightarrow> filesystem \<Rightarrow> HeartbeatService \<Rightarrow> string option \<times> HeartbeatService" where
  "heartbeat_service_trigger_now ok fs service =
     (case read_heartbeat_file ok fs (hb_workspace service) of
        None \<Rightarrow> (None, service)
      | Some content \<Rightarrow>
          (case heartbeat_decide content of
             (decision, tasks) \<Rightarrow>
               if decision \<le> 0 then (None, service)
               else (case (hb_on_execute service, tasks) of
                       (Some execute, Some t) \<Rightarrow> (execute t, service\<lparr>hb_executed := hb_executed service @ [t]\<rparr>)
                     | _ \<Rightarrow> (None, service))))"

section \<open>When tasks are executed\<close>

lemma strcasestr_iff:
  "w \<noteq> [] \<Longrightarrow> strcasestr s w \<longleftrightarrow> (\<exists>u v t. s = u @ t @ v \<and> strcaseeq t w)"
proof (induction s)
  case Nil
  then show ?case by (auto simp: strcaseeq_def)
next
  case outer: (Cons c cs)
  have len: "strcaseeq t w \<Longrightarrow> length t = length w" for t by (metis strcaseeq_def length_map)
  show ?case
  proof
    assume "strcasestr (c # cs) w"
    then consider "strcaseeq (take (length w) (c # cs)) w" | "strcasestr cs w" by auto
    then show "\<exists>u v t. c # cs = u @ t @ v \<and> strcaseeq t w"
    proof cases
      case 1
      then show ?thesis by (intro exI [of _ "[]"] exI [of _ "drop (length w) (c # cs)"] exI [of _ "take (length w) (c # cs)"]) simp
    next
      case 2
      then obtain u v t where "cs = u @ t @ v" "strcaseeq t w" unfolding outer.IH [OF outer.prems] by blast
      then show ?thesis by (intro exI [of _ "c # u"] exI [of _ v] exI [of _ t]) simp
    qed
  next
    assume "\<exists>u v t. c # cs = u @ t @ v \<and> strcaseeq t w"
    then obtain u v t where t: "c # cs = u @ t @ v" "strcaseeq t w" by blast
    show "strcasestr (c # cs) w"
    proof (cases u)
      case Nil
      then have "take (length w) (c # cs) = t" using t(1) len [OF t(2)] by (metis append_Nil append_eq_conv_conj)
      with t(2) have "strcaseeq (take (length w) (c # cs)) w" by simp
      then show ?thesis by (simp only: strcasestr.simps simp_thms)
    next
      case (Cons d us)
      then have "cs = us @ t @ v" using t by simp
      then have "strcasestr cs w" unfolding outer.IH [OF outer.prems] using t by blast
      then show ?thesis by simp
    qed
  qed
qed

text \<open>
  A heartbeat executes the tasks exactly when the service runs, has a callback, and the file contains one of the key words in upper or lower
  case; then it calls the callback once, and what it answers is delivered once. In every other case nothing is called.
\<close>

theorem heartbeat_executes_iff:
  "(hb_executed (heartbeat_tick ok fs service), hb_notified (heartbeat_tick ok fs service)) =
   (case (hb_on_execute service, read_heartbeat_file ok fs (hb_workspace service)) of
      (Some execute, Some content) \<Rightarrow>
        if hb_running service \<and> (\<exists>u v t kw. content = u @ t @ v \<and> kw \<in> set run_keywords \<and> strcaseeq t kw)
        then (hb_executed service @ [tasks_text], hb_notified service @ (if hb_on_notify service then (case execute tasks_text of Some r \<Rightarrow> [r] | None \<Rightarrow> []) else []))
        else (hb_executed service, hb_notified service)
    | _ \<Rightarrow> (hb_executed service, hb_notified service))"
proof -
  have "(\<exists>kw \<in> set run_keywords. strcasestr content kw) \<longleftrightarrow> (\<exists>u v t kw. content = u @ t @ v \<and> kw \<in> set run_keywords \<and> strcaseeq t kw)" for content
    using strcasestr_iff by (auto simp: run_keywords_def)
  then show ?thesis by (auto simp: heartbeat_tick_def heartbeat_decide_def Let_def split: option.splits)
qed

lemma heartbeat_start_stop:
  "heartbeat_service_start thread_ok service = (b, service') \<Longrightarrow> b = (hb_enabled service \<and> \<not> hb_running service \<and> thread_ok)
   \<and> hb_running (heartbeat_service_stop service') = False"
  by (auto simp: heartbeat_service_start_def heartbeat_service_stop_def split: if_splits)

end
