(* ===== verification/Subagent.thy ===== *)
theory Subagent
  imports Message CLib
begin

text \<open>
  \<open>src/subagent/subagent.c\<close>: background agents. A task runs in a thread of its own, which puts a node into the list
  of the manager, creates an agent loop, relays what the loop sends to the chat that asked for the task, frees the loop and takes
  the node out of the list. The threads are interleaved; what happens under the mutex of the manager is one step. Nodes and loops
  have addresses; \<open>ss_loops\<close> gives the flag \<open>running\<close> of each loop that has not been freed.
\<close>

record SubagentTaskNode =
  nd_addr :: nat
  nd_task_id :: string
  nd_session_key :: string
  nd_origin_channel :: string
  nd_origin_chat_id :: string
  nd_loop :: "nat option"
  nd_cancelling :: bool

record SubagentManager =
  sg_active_tasks :: "SubagentTaskNode list"
  sg_active_count :: int

record SubagentTask =
  sk_task_id :: string
  sk_task :: string
  sk_label :: string
  sk_origin_channel :: string
  sk_origin_chat_id :: string

record SubagentSpawnRequest =
  rq_task :: string
  rq_label :: "string option"
  rq_origin_channel :: string
  rq_origin_chat_id :: string

datatype subagent_error = Freed_Loop

type_synonym loop_heap = "nat \<rightharpoonup> bool"

section \<open>The list of tasks\<close>

definition subagent_manager_create :: "bool \<Rightarrow> SubagentManager option" where
  "subagent_manager_create ok = (if ok then Some \<lparr>sg_active_tasks = [], sg_active_count = 0\<rparr> else None)"

definition subagent_add_task :: "SubagentTaskNode \<Rightarrow> SubagentManager \<Rightarrow> SubagentManager" where
  "subagent_add_task node mgr = mgr\<lparr>sg_active_tasks := node # sg_active_tasks mgr, sg_active_count := sg_active_count mgr + 1\<rparr>"

definition subagent_remove_task :: "string \<Rightarrow> SubagentManager \<Rightarrow> SubagentManager" where
  "subagent_remove_task task_id mgr =
     (if task_id \<in> set (map nd_task_id (sg_active_tasks mgr))
      then mgr\<lparr>sg_active_tasks := remove_first (\<lambda>n. nd_task_id n = task_id) (sg_active_tasks mgr), sg_active_count := sg_active_count mgr - 1\<rparr>
      else mgr)"

definition agent_loop_stop :: "nat \<Rightarrow> loop_heap \<Rightarrow> subagent_error + loop_heap" where
  "agent_loop_stop loop heap = (if heap loop = None then Inl Freed_Loop else Inr (heap(loop \<mapsto> False)))"

fun cancel_nodes :: "string \<Rightarrow> SubagentTaskNode list \<Rightarrow> loop_heap \<Rightarrow> subagent_error + nat \<times> SubagentTaskNode list \<times> loop_heap" where
  "cancel_nodes key [] heap = Inr (0, [], heap)"
| "cancel_nodes key (n # ns) heap =
     (if nd_session_key n = key \<and> \<not> nd_cancelling n
      then (case nd_loop n of
              None \<Rightarrow> (case cancel_nodes key ns heap of
                         Inl e \<Rightarrow> Inl e
                       | Inr (c, ns, heap) \<Rightarrow> Inr (c, n\<lparr>nd_cancelling := True\<rparr> # ns, heap))
            | Some l \<Rightarrow> (case agent_loop_stop l heap of
                           Inl e \<Rightarrow> Inl e
                         | Inr heap \<Rightarrow> (case cancel_nodes key ns heap of
                                          Inl e \<Rightarrow> Inl e
                                        | Inr (c, ns, heap) \<Rightarrow> Inr (Suc c, n\<lparr>nd_cancelling := True\<rparr> # ns, heap))))
      else (case cancel_nodes key ns heap of Inl e \<Rightarrow> Inl e | Inr (c, ns, heap) \<Rightarrow> Inr (c, n # ns, heap)))"

definition subagent_manager_cancel_by_session ::
  "string \<Rightarrow> SubagentManager \<Rightarrow> loop_heap \<Rightarrow> subagent_error + nat \<times> SubagentManager \<times> loop_heap" where
  "subagent_manager_cancel_by_session key mgr heap =
     (case cancel_nodes key (sg_active_tasks mgr) heap of
        Inl e \<Rightarrow> Inl e
      | Inr (c, ns, heap) \<Rightarrow> Inr (c, mgr\<lparr>sg_active_tasks := ns\<rparr>, heap))"

text \<open>The first part of \<open>subagent_manager_destroy\<close>, under the mutex: every loop is told to stop.\<close>

fun stop_loops :: "SubagentTaskNode list \<Rightarrow> loop_heap \<Rightarrow> subagent_error + loop_heap" where
  "stop_loops [] heap = Inr heap"
| "stop_loops (n # ns) heap =
     (case nd_loop n of
        None \<Rightarrow> stop_loops ns heap
      | Some l \<Rightarrow> (case agent_loop_stop l heap of Inl e \<Rightarrow> Inl e | Inr heap \<Rightarrow> stop_loops ns heap))"

section \<open>Spawning\<close>

definition limit_text :: string where
  "limit_text = ''Cannot spawn subagent: maximum concurrent subagents (8) reached. Wait for existing tasks to complete.''"

definition spawn_task :: "string \<Rightarrow> SubagentSpawnRequest \<Rightarrow> SubagentTask" where
  "spawn_task task_id request =
     \<lparr>sk_task_id = c_trunc 32 task_id, sk_task = rq_task request,
      sk_label = (case rq_label request of Some l \<Rightarrow> l | None \<Rightarrow> take 30 (rq_task request)),
      sk_origin_channel = rq_origin_channel request, sk_origin_chat_id = rq_origin_chat_id request\<rparr>"

text \<open>The reply and, when the thread was started, the data of its task. \<open>ok\<close>: memory and a thread are available.\<close>

definition subagent_manager_spawn ::
  "bool \<Rightarrow> string \<Rightarrow> SubagentManager \<Rightarrow> SubagentSpawnRequest \<Rightarrow> string option \<times> SubagentTask option" where
  "subagent_manager_spawn ok task_id mgr request =
     (if sg_active_count mgr \<ge> 8 then (if ok then Some limit_text else None, None)
      else if \<not> ok then (None, None)
      else (let task = spawn_task task_id request
            in (Some (c_trunc 256 (''Subagent ['' @ sk_label task @ ''] started (id: '' @ task_id @ '').'')), Some task)))"

section \<open>Relaying\<close>

definition relayed :: "SubagentTask \<Rightarrow> OutboundMessage \<Rightarrow> OutboundMessage" where
  "relayed task out =
     \<lparr>out_channel = sk_origin_channel task, out_chat_id = sk_origin_chat_id task,
      out_content = c_trunc 2048 (''[Subagent '' @ sk_label task @ '']: '' @ out_content out), out_attachments = string_array_new\<rparr>"

text \<open>
  The first loop: each round sees whether the loop runs, what arrives within a second and the milliseconds since the start. The
  result is what was relayed and whether the loop was stopped because five minutes are over.
\<close>

fun relay_rounds :: "SubagentTask \<Rightarrow> (bool \<times> OutboundMessage option \<times> nat) list \<Rightarrow> OutboundMessage list \<times> bool" where
  "relay_rounds task [] = ([], False)"
| "relay_rounds task ((running, out, elapsed) # rounds) =
     (if \<not> running then ([], False)
      else (let sent = (case out of Some m \<Rightarrow> [relayed task m] | None \<Rightarrow> [])
            in if elapsed > 300000 then (sent, True)
               else (case relay_rounds task rounds of (ms, stopped) \<Rightarrow> (sent @ ms, stopped))))"

text \<open>The second loop takes what is left in the queue; it ends after five attempts in a row that found nothing.\<close>

function drain_outbound :: "SubagentTask \<Rightarrow> nat \<Rightarrow> OutboundMessage list \<Rightarrow> OutboundMessage list" where
  "drain_outbound task drain_attempts queue =
     (if drain_attempts < 5
      then (case queue of
              m # queue \<Rightarrow> relayed task m # drain_outbound task 0 queue
            | [] \<Rightarrow> drain_outbound task (Suc drain_attempts) [])
      else [])"
  by pat_completeness auto
termination
  by (relation "measures [\<lambda>(task, a, q). length q, \<lambda>(task, a, q). 5 - a]") auto

declare drain_outbound.simps [simp del]

section \<open>The threads\<close>

datatype runner_phase = Started | Tracked | Loop_Running | Loop_Freed | Ended

record runner =
  rn_task :: SubagentTask
  rn_phase :: runner_phase
  rn_loop :: "nat option"

record subagent_system =
  ss_manager :: SubagentManager
  ss_loops :: loop_heap
  ss_runners :: "runner list"

definition new_node :: "nat \<Rightarrow> SubagentTask \<Rightarrow> SubagentTaskNode" where
  "new_node addr task =
     \<lparr>nd_addr = addr, nd_task_id = c_trunc 32 (sk_task_id task), nd_session_key = c_trunc 512 (''subagent:'' @ sk_task_id task),
      nd_origin_channel = sk_origin_channel task, nd_origin_chat_id = sk_origin_chat_id task, nd_loop = None, nd_cancelling = False\<rparr>"

text \<open>The parts of \<open>subagent_task_runner\<close>: tracking, the creation of the loop, its end, and the removal of the node.\<close>

definition runner_track :: "nat \<Rightarrow> runner \<Rightarrow> subagent_system \<Rightarrow> subagent_system" where
  "runner_track i r s =
     s\<lparr>ss_manager := subagent_add_task (new_node i (rn_task r)) (ss_manager s),
       ss_runners := (ss_runners s)[i := r\<lparr>rn_phase := Tracked\<rparr>]\<rparr>"

definition set_node_loop :: "nat \<Rightarrow> nat \<Rightarrow> SubagentManager \<Rightarrow> SubagentManager" where
  "set_node_loop addr loop mgr =
     mgr\<lparr>sg_active_tasks := map (\<lambda>n. if nd_addr n = addr then n\<lparr>nd_loop := Some loop\<rparr> else n) (sg_active_tasks mgr)\<rparr>"

definition runner_create_loop :: "nat \<Rightarrow> nat \<Rightarrow> runner \<Rightarrow> subagent_system \<Rightarrow> subagent_system" where
  "runner_create_loop i loop r s =
     s\<lparr>ss_loops := (ss_loops s)(loop \<mapsto> True), ss_manager := set_node_loop i loop (ss_manager s),
       ss_runners := (ss_runners s)[i := r\<lparr>rn_phase := Loop_Running, rn_loop := Some loop\<rparr>]\<rparr>"

definition runner_free_loop :: "nat \<Rightarrow> nat \<Rightarrow> runner \<Rightarrow> subagent_system \<Rightarrow> subagent_system" where
  "runner_free_loop i loop r s =
     s\<lparr>ss_loops := (ss_loops s)(loop := None), ss_runners := (ss_runners s)[i := r\<lparr>rn_phase := Loop_Freed, rn_loop := None\<rparr>]\<rparr>"

definition runner_end :: "nat \<Rightarrow> runner \<Rightarrow> subagent_system \<Rightarrow> subagent_system" where
  "runner_end i r s =
     s\<lparr>ss_manager := subagent_remove_task (c_trunc 32 (sk_task_id (rn_task r))) (ss_manager s),
       ss_runners := (ss_runners s)[i := r\<lparr>rn_phase := Ended\<rparr>]\<rparr>"

inductive subagent_step :: "subagent_system \<Rightarrow> subagent_system \<Rightarrow> bool" where
  spawn: "subagent_manager_spawn True task_id (ss_manager s) request = (reply, Some task) \<Longrightarrow>
    subagent_step s (s\<lparr>ss_runners := ss_runners s @ [\<lparr>rn_task = task, rn_phase = Started, rn_loop = None\<rparr>]\<rparr>)"
| track: "i < length (ss_runners s) \<Longrightarrow> ss_runners s ! i = r \<Longrightarrow> rn_phase r = Started \<Longrightarrow> subagent_step s (runner_track i r s)"
| create_loop: "i < length (ss_runners s) \<Longrightarrow> ss_runners s ! i = r \<Longrightarrow> rn_phase r = Tracked \<Longrightarrow> ss_loops s loop = None \<Longrightarrow>
    subagent_step s (runner_create_loop i loop r s)"
| free_loop: "i < length (ss_runners s) \<Longrightarrow> ss_runners s ! i = r \<Longrightarrow> rn_phase r = Loop_Running \<Longrightarrow> rn_loop r = Some loop \<Longrightarrow>
    subagent_step s (runner_free_loop i loop r s)"
| end_task: "i < length (ss_runners s) \<Longrightarrow> ss_runners s ! i = r \<Longrightarrow> rn_phase r = Loop_Freed \<Longrightarrow> subagent_step s (runner_end i r s)"
| cancel: "subagent_manager_cancel_by_session key (ss_manager s) (ss_loops s) = Inr (c, mgr, heap) \<Longrightarrow>
    subagent_step s (s\<lparr>ss_manager := mgr, ss_loops := heap\<rparr>)"

definition initial_system :: subagent_system where
  "initial_system = \<lparr>ss_manager = \<lparr>sg_active_tasks = [], sg_active_count = 0\<rparr>, ss_loops = Map.empty, ss_runners = []\<rparr>"

text \<open>The ids are random numbers, and a new one may be that of a task that has not ended. The states that are reached, and whether that has happened.\<close>

definition ids_differ :: "runner list \<Rightarrow> bool" where
  "ids_differ rs \<longleftrightarrow>
     (\<forall>i < length rs. \<forall>j < length rs. rn_phase (rs ! i) \<noteq> Ended \<and> rn_phase (rs ! j) \<noteq> Ended \<and>
        sk_task_id (rn_task (rs ! i)) = sk_task_id (rn_task (rs ! j)) \<longrightarrow> i = j)"

inductive subagents :: "bool \<Rightarrow> subagent_system \<Rightarrow> bool" where
  subagents_start: "subagents False initial_system"
| subagents_step: "subagents same_id s \<Longrightarrow> subagent_step s s' \<Longrightarrow> subagents (same_id \<or> \<not> ids_differ (ss_runners s')) s'"

lemma subagents_next: "subagents same_id s \<Longrightarrow> subagent_step s s' \<Longrightarrow> ids_differ (ss_runners s') \<Longrightarrow> subagents same_id s'"
  using subagents_step [of same_id s s'] by simp

section \<open>Relaying is complete\<close>

text \<open>
  The second relay loop ends and loses nothing: every message that is still in the queue of the subagent is relayed to the chat that
  asked for the task, in order, whatever the number of empty attempts before (as long as it is below five).
\<close>

theorem drain_relays_all:
  assumes "attempts < 5"
  shows "drain_outbound task attempts queue = map (relayed task) queue"
  using assms
proof (induction task attempts queue rule: drain_outbound.induct)
  case (1 task attempts queue)
  show ?case
  proof (cases queue)
    case Nil
    show ?thesis
    proof (cases "Suc attempts < 5")
      case True
      with 1 Nil show ?thesis by (simp add: drain_outbound.simps [of task attempts])
    next
      case False
      with 1 Nil show ?thesis by (simp add: drain_outbound.simps [of task attempts] drain_outbound.simps [of task "Suc attempts"])
    qed
  next
    case (Cons m ms)
    with 1 show ?thesis by (simp add: drain_outbound.simps [of task attempts])
  qed
qed

definition demo_request :: SubagentSpawnRequest where
  "demo_request = \<lparr>rq_task = ''sum up'', rq_label = None, rq_origin_channel = ''cli'', rq_origin_chat_id = ''1''\<rparr>"

definition demo_out :: OutboundMessage where
  "demo_out = \<lparr>out_channel = ''subagent'', out_chat_id = ''a'', out_content = ''done'', out_attachments = string_array_new\<rparr>"

theorem drain_relays_all_witness:
  "map out_content (drain_outbound (spawn_task ''a'' demo_request) 0 [demo_out]) = [''[Subagent sum up]: done'']"
  using drain_relays_all [of 0 "spawn_task ''a'' demo_request" "[demo_out]"]
  by (simp add: relayed_def spawn_task_def demo_request_def demo_out_def c_trunc_def)

section \<open>The invariant of the threads\<close>

definition tracked :: "runner \<Rightarrow> bool" where
  "tracked r \<longleftrightarrow> rn_phase r \<in> {Tracked, Loop_Running, Loop_Freed}"

definition node_ok :: "runner list \<Rightarrow> SubagentTaskNode \<Rightarrow> bool" where
  "node_ok rs n \<longleftrightarrow> nd_addr n < length rs \<and> tracked (rs ! nd_addr n) \<and> nd_task_id n = sk_task_id (rn_task (rs ! nd_addr n))
     \<and> (rn_phase (rs ! nd_addr n) = Tracked \<longrightarrow> nd_loop n = None)
     \<and> (rn_phase (rs ! nd_addr n) = Loop_Running \<longrightarrow> nd_loop n = rn_loop (rs ! nd_addr n))"

definition loops_ok :: "runner list \<Rightarrow> loop_heap \<Rightarrow> bool" where
  "loops_ok rs heap \<longleftrightarrow>
     (\<forall>i < length rs. rn_phase (rs ! i) = Loop_Running \<longrightarrow> (\<exists>l. rn_loop (rs ! i) = Some l \<and> heap l \<noteq> None))
     \<and> (\<forall>i < length rs. \<forall>j < length rs. rn_phase (rs ! i) = Loop_Running \<longrightarrow> rn_phase (rs ! j) = Loop_Running \<longrightarrow>
          rn_loop (rs ! i) = rn_loop (rs ! j) \<longrightarrow> i = j)"

definition runners_ok :: "runner list \<Rightarrow> bool" where
  "runners_ok rs \<longleftrightarrow> ids_differ rs \<and> (\<forall>r \<in> set rs. length (sk_task_id (rn_task r)) < 32)"

definition list_ok :: "runner list \<Rightarrow> SubagentManager \<Rightarrow> bool" where
  "list_ok rs mgr \<longleftrightarrow> sg_active_count mgr = int (length (sg_active_tasks mgr)) \<and> distinct (map nd_addr (sg_active_tasks mgr))
     \<and> (\<forall>n \<in> set (sg_active_tasks mgr). node_ok rs n)
     \<and> (\<forall>i < length rs. tracked (rs ! i) \<longrightarrow> i \<in> set (map nd_addr (sg_active_tasks mgr)))"

definition system_ok :: "subagent_system \<Rightarrow> bool" where
  [inv_defs]: "system_ok s \<longleftrightarrow> runners_ok (ss_runners s) \<and> loops_ok (ss_runners s) (ss_loops s) \<and> list_ok (ss_runners s) (ss_manager s)"

text \<open>A change of one runner.\<close>

lemma ids_differ_update:
  assumes "ids_differ rs" "i < length rs" "rn_task r' = rn_task (rs ! i)" "rn_phase (rs ! i) \<noteq> Ended"
  shows "ids_differ (rs[i := r'])"
  unfolding ids_differ_def
proof (intro allI impI)
  fix j k assume "j < length (rs[i := r'])" "k < length (rs[i := r'])"
    and e: "rn_phase (rs[i := r'] ! j) \<noteq> Ended \<and> rn_phase (rs[i := r'] ! k) \<noteq> Ended \<and>
      sk_task_id (rn_task (rs[i := r'] ! j)) = sk_task_id (rn_task (rs[i := r'] ! k))"
  moreover have t: "rn_task (rs[i := r'] ! p) = rn_task (rs ! p)" "rn_phase (rs[i := r'] ! p) \<noteq> Ended \<longrightarrow> rn_phase (rs ! p) \<noteq> Ended" for p
    using assms(2-4) by (cases "p = i"; simp)+
  ultimately show "j = k" using assms(1) unfolding ids_differ_def t(1) using t(2) by simp
qed

lemma runners_ok_update:
  assumes ok: "runners_ok rs" and i: "i < length rs" and t: "rn_task r' = rn_task (rs ! i)" and p: "rn_phase (rs ! i) \<noteq> Ended"
  shows "runners_ok (rs[i := r'])"
proof -
  have "\<forall>r \<in> set (rs[i := r']). length (sk_task_id (rn_task r)) < 32"
    using ok t i set_update_subset_insert [of rs i r'] by (auto simp: runners_ok_def)
  then show ?thesis using ids_differ_update [OF _ i t p] ok by (simp add: runners_ok_def)
qed

lemma filter_other_key: "k \<notin> g ` set xs \<Longrightarrow> filter (\<lambda>x. g x \<noteq> k) xs = xs"
  by (induction xs) auto

lemma remove_first_by_key:
  "distinct (map g xs) \<Longrightarrow> (\<And>x. x \<in> set xs \<Longrightarrow> P x = (g x = k)) \<Longrightarrow> remove_first P xs = filter (\<lambda>x. g x \<noteq> k) xs"
proof (induction xs)
  case (Cons x xs)
  show ?case
  proof (cases "g x = k")
    case True
    with Cons.prems have "filter (\<lambda>x. g x \<noteq> k) xs = xs" by (intro filter_other_key) simp
    with True Cons.prems show ?thesis by simp
  next
    case False
    with Cons show ?thesis by simp
  qed
qed simp

lemma length_filter_key: "distinct (map g xs) \<Longrightarrow> k \<in> g ` set xs \<Longrightarrow> length (filter (\<lambda>x. g x \<noteq> k) xs) = length xs - 1"
proof (induction xs)
  case (Cons x xs)
  show ?case
  proof (cases "g x = k")
    case True
    with Cons.prems have "filter (\<lambda>x. g x \<noteq> k) xs = xs" by (intro filter_other_key) simp
    with True show ?thesis by simp
  next
    case False
    with Cons have "k \<in> g ` set xs" by auto
    moreover have "length xs \<noteq> 0" using calculation by auto
    ultimately show ?thesis using Cons False by simp
  qed
qed simp

lemma loops_ok_set:
  assumes ok: "loops_ok rs heap" and i: "i < length rs"
    and new: "rn_phase r' = Loop_Running \<Longrightarrow> \<exists>l. rn_loop r' = Some l \<and> heap' l \<noteq> None
      \<and> (\<forall>j < length rs. j \<noteq> i \<longrightarrow> rn_phase (rs ! j) = Loop_Running \<longrightarrow> rn_loop (rs ! j) \<noteq> Some l)"
    and heap: "\<And>j l. j < length rs \<Longrightarrow> j \<noteq> i \<Longrightarrow> rn_phase (rs ! j) = Loop_Running \<Longrightarrow> rn_loop (rs ! j) = Some l \<Longrightarrow> heap l \<noteq> None \<Longrightarrow> heap' l \<noteq> None"
  shows "loops_ok (rs[i := r']) heap'"
  unfolding loops_ok_def
proof (intro conjI allI impI)
  fix j assume j: "j < length (rs[i := r'])" "rn_phase (rs[i := r'] ! j) = Loop_Running"
  show "\<exists>l. rn_loop (rs[i := r'] ! j) = Some l \<and> heap' l \<noteq> None"
  proof (cases "j = i")
    case True
    with j i new show ?thesis by auto
  next
    case False
    with j have "j < length rs" "rn_phase (rs ! j) = Loop_Running" by simp_all
    moreover from this ok obtain l where "rn_loop (rs ! j) = Some l" "heap l \<noteq> None" unfolding loops_ok_def by blast
    ultimately show ?thesis using heap [of j l] False by simp
  qed
next
  fix j k assume jk: "j < length (rs[i := r'])" "k < length (rs[i := r'])" "rn_phase (rs[i := r'] ! j) = Loop_Running"
    "rn_phase (rs[i := r'] ! k) = Loop_Running" "rn_loop (rs[i := r'] ! j) = rn_loop (rs[i := r'] ! k)"
  have fresh: False if pp: "p \<noteq> i" "p < length rs" "rn_phase r' = Loop_Running" "rn_phase (rs ! p) = Loop_Running" "rn_loop r' = rn_loop (rs ! p)" for p
  proof -
    obtain l where l: "rn_loop r' = Some l" "\<forall>j < length rs. j \<noteq> i \<longrightarrow> rn_phase (rs ! j) = Loop_Running \<longrightarrow> rn_loop (rs ! j) \<noteq> Some l"
      using new [OF pp(3)] by blast
    from l(2) pp have "rn_loop (rs ! p) \<noteq> Some l" by simp
    with l(1) pp(5) show False by simp
  qed
  consider "j = i" "k = i" | "j = i" "k \<noteq> i" | "j \<noteq> i" "k = i" | "j \<noteq> i" "k \<noteq> i" by blast
  then show "j = k"
  proof cases
    case 2
    with jk i fresh [of k] show ?thesis by simp
  next
    case 3
    with jk i fresh [of j] show ?thesis by simp
  next
    case 4
    with jk ok show ?thesis unfolding loops_ok_def by simp
  qed simp
qed

lemma node_ok_other: "node_ok rs n \<Longrightarrow> nd_addr n \<noteq> i \<Longrightarrow> node_ok (rs[i := r']) n"
  by (simp add: node_ok_def)

lemma node_ok_append: "node_ok rs n \<Longrightarrow> node_ok (rs @ [r]) n"
  by (simp add: node_ok_def nth_append)

lemma system_ok_spawn:
  assumes "system_ok s" and sp: "subagent_manager_spawn True task_id (ss_manager s) request = (reply, Some task)"
    and "ids_differ (ss_runners s @ [\<lparr>rn_task = task, rn_phase = Started, rn_loop = None\<rparr>])"
  shows "system_ok (s\<lparr>ss_runners := ss_runners s @ [\<lparr>rn_task = task, rn_phase = Started, rn_loop = None\<rparr>]\<rparr>)"
proof -
  have "length (sk_task_id task) < 32" using sp by (auto simp: subagent_manager_spawn_def spawn_task_def Let_def length_c_trunc split: if_splits)
  then show ?thesis using assms(1,3)
    by (auto simp: system_ok_def runners_ok_def loops_ok_def list_ok_def tracked_def node_ok_append nth_append less_Suc_eq)
qed

lemma list_okI:
  assumes "sg_active_count mgr = int (length (sg_active_tasks mgr))" "distinct (map nd_addr (sg_active_tasks mgr))"
    "\<And>n. n \<in> set (sg_active_tasks mgr) \<Longrightarrow> node_ok rs n"
    "\<And>i. i < length rs \<Longrightarrow> tracked (rs ! i) \<Longrightarrow> i \<in> set (map nd_addr (sg_active_tasks mgr))"
  shows "list_ok rs mgr"
  using assms by (simp add: list_ok_def)

lemma list_okD:
  assumes "list_ok rs mgr"
  shows "sg_active_count mgr = int (length (sg_active_tasks mgr))" "distinct (map nd_addr (sg_active_tasks mgr))"
    "n \<in> set (sg_active_tasks mgr) \<Longrightarrow> node_ok rs n" "i < length rs \<Longrightarrow> tracked (rs ! i) \<Longrightarrow> i \<in> set (map nd_addr (sg_active_tasks mgr))"
  using assms by (simp_all add: list_ok_def)

lemma addr_tracked: "list_ok rs mgr \<Longrightarrow> i \<in> set (map nd_addr (sg_active_tasks mgr)) \<Longrightarrow> tracked (rs ! i)"
  by (auto simp: list_ok_def node_ok_def)

lemma system_okI: "runners_ok (ss_runners s) \<Longrightarrow> loops_ok (ss_runners s) (ss_loops s) \<Longrightarrow> list_ok (ss_runners s) (ss_manager s) \<Longrightarrow> system_ok s"
  by (simp add: system_ok_def)

lemma system_ok_track:
  assumes ok: "system_ok s" and i: "i < length (ss_runners s)" "ss_runners s ! i = r" "rn_phase r = Started"
  shows "system_ok (runner_track i r s)"
proof -
  let ?rs = "ss_runners s" and ?r' = "r\<lparr>rn_phase := Tracked\<rparr>" and ?ns = "sg_active_tasks (ss_manager s)"
  have rs: "runners_ok ?rs" "loops_ok ?rs (ss_loops s)" "list_ok ?rs (ss_manager s)" using ok by (simp_all add: system_ok_def)
  have "\<not> tracked (?rs ! i)" using i by (simp add: tracked_def)
  then have new: "i \<notin> set (map nd_addr ?ns)" using addr_tracked [OF rs(3)] by blast
  have len: "length (sk_task_id (rn_task r)) < 32" using rs(1) i by (auto simp: runners_ok_def)
  have "list_ok (?rs[i := ?r']) (subagent_add_task (new_node i (rn_task r)) (ss_manager s))"
  proof (rule list_okI)
    fix n assume n: "n \<in> set (sg_active_tasks (subagent_add_task (new_node i (rn_task r)) (ss_manager s)))"
    show "node_ok (?rs[i := ?r']) n"
    proof (cases "n = new_node i (rn_task r)")
      case True
      then show ?thesis using i len by (simp add: node_ok_def new_node_def tracked_def)
    next
      case False
      with n have "n \<in> set ?ns" by (simp add: subagent_add_task_def)
      with new list_okD(3) [OF rs(3)] show ?thesis by (intro node_ok_other) auto
    qed
  next
    fix j assume "j < length (?rs[i := ?r'])" "tracked (?rs[i := ?r'] ! j)"
    then show "j \<in> set (map nd_addr (sg_active_tasks (subagent_add_task (new_node i (rn_task r)) (ss_manager s))))"
      using list_okD(4) [OF rs(3), of j] by (cases "j = i") (simp_all add: subagent_add_task_def new_node_def)
  qed (use new list_okD(1,2) [OF rs(3)] in \<open>simp_all add: subagent_add_task_def new_node_def\<close>)
  moreover have "loops_ok (?rs[i := ?r']) (ss_loops s)" by (rule loops_ok_set [OF rs(2) i(1)]) auto
  ultimately show ?thesis using runners_ok_update [OF rs(1) i(1), of ?r'] i by (intro system_okI) (simp_all add: runner_track_def)
qed

text \<open>A step that keeps the list but changes nodes in place.\<close>

lemma list_ok_map:
  assumes ok: "list_ok rs mgr" and len: "length rs' = length rs" and tr: "\<And>i. i < length rs \<Longrightarrow> tracked (rs' ! i) = tracked (rs ! i)"
    and f: "\<And>n. nd_addr (f n) = nd_addr n" "\<And>n. n \<in> set (sg_active_tasks mgr) \<Longrightarrow> node_ok rs n \<Longrightarrow> node_ok rs' (f n)"
  shows "list_ok rs' (mgr\<lparr>sg_active_tasks := map f (sg_active_tasks mgr)\<rparr>)"
proof (rule list_okI)
  have t: "sg_active_tasks (mgr\<lparr>sg_active_tasks := map f (sg_active_tasks mgr)\<rparr>) = map f (sg_active_tasks mgr)" by simp
  have m: "map nd_addr (map f (sg_active_tasks mgr)) = map nd_addr (sg_active_tasks mgr)" using f(1) by simp
  show "distinct (map nd_addr (sg_active_tasks (mgr\<lparr>sg_active_tasks := map f (sg_active_tasks mgr)\<rparr>)))"
    unfolding t m by (rule list_okD(2) [OF ok])
  show "i \<in> set (map nd_addr (sg_active_tasks (mgr\<lparr>sg_active_tasks := map f (sg_active_tasks mgr)\<rparr>)))" if "i < length rs'" "tracked (rs' ! i)" for i
    unfolding t m using that len tr by (intro list_okD(4) [OF ok]) simp_all
qed (use list_okD [OF ok] f in auto)

lemma system_ok_create:
  assumes ok: "system_ok s" and i: "i < length (ss_runners s)" "ss_runners s ! i = r" "rn_phase r = Tracked" and l: "ss_loops s loop = None"
  shows "system_ok (runner_create_loop i loop r s)"
proof -
  let ?rs = "ss_runners s" and ?r' = "r\<lparr>rn_phase := Loop_Running, rn_loop := Some loop\<rparr>"
  have rs: "runners_ok ?rs" "loops_ok ?rs (ss_loops s)" "list_ok ?rs (ss_manager s)" using ok by (simp_all add: system_ok_def)
  have "list_ok (?rs[i := ?r']) (set_node_loop i loop (ss_manager s))" unfolding set_node_loop_def
  proof (rule list_ok_map [OF rs(3)])
    fix n assume "node_ok ?rs n"
    then show "node_ok (?rs[i := ?r']) (if nd_addr n = i then n\<lparr>nd_loop := Some loop\<rparr> else n)"
      using i by (auto simp: node_ok_def tracked_def nth_list_update)
  qed (use i in \<open>auto simp: tracked_def nth_list_update\<close>)
  moreover have "rn_loop (?rs ! j) \<noteq> Some loop" if "j < length ?rs" "rn_phase (?rs ! j) = Loop_Running" for j
    using rs(2) that l by (auto simp: loops_ok_def)
  then have "loops_ok (?rs[i := ?r']) ((ss_loops s)(loop \<mapsto> True))" by (intro loops_ok_set [OF rs(2) i(1)]) auto
  ultimately show ?thesis using runners_ok_update [OF rs(1) i(1), of ?r'] i by (intro system_okI) (simp_all add: runner_create_loop_def)
qed

lemma system_ok_free:
  assumes ok: "system_ok s" and i: "i < length (ss_runners s)" "ss_runners s ! i = r" "rn_phase r = Loop_Running" "rn_loop r = Some loop"
  shows "system_ok (runner_free_loop i loop r s)"
proof -
  let ?rs = "ss_runners s" and ?r' = "r\<lparr>rn_phase := Loop_Freed, rn_loop := None\<rparr>"
  have rs: "runners_ok ?rs" "loops_ok ?rs (ss_loops s)" "list_ok ?rs (ss_manager s)" using ok by (simp_all add: system_ok_def)
  have "list_ok (?rs[i := ?r']) ((ss_manager s)\<lparr>sg_active_tasks := map (\<lambda>n. n) (sg_active_tasks (ss_manager s))\<rparr>)"
  proof (rule list_ok_map [OF rs(3)])
    fix n assume "node_ok ?rs n"
    then show "node_ok (?rs[i := ?r']) n" using i by (auto simp: node_ok_def tracked_def nth_list_update)
  qed (use i in \<open>auto simp: tracked_def nth_list_update\<close>)
  moreover have other: "rn_loop (?rs ! j) \<noteq> Some loop" if "j < length ?rs" "rn_phase (?rs ! j) = Loop_Running" "j \<noteq> i" for j
  proof
    assume "rn_loop (?rs ! j) = Some loop"
    then have "j = i" using rs(2) that i unfolding loops_ok_def by simp
    with that show False by simp
  qed
  have "loops_ok (?rs[i := ?r']) ((ss_loops s)(loop := None))"
    by (rule loops_ok_set [OF rs(2) i(1)]) (use other in auto)
  ultimately show ?thesis using runners_ok_update [OF rs(1) i(1), of ?r'] i by (intro system_okI) (simp_all add: runner_free_loop_def)
qed

lemma system_ok_end:
  assumes ok: "system_ok s" and i: "i < length (ss_runners s)" "ss_runners s ! i = r" "rn_phase r = Loop_Freed"
  shows "system_ok (runner_end i r s)"
proof -
  let ?rs = "ss_runners s" and ?r' = "r\<lparr>rn_phase := Ended\<rparr>" and ?ns = "sg_active_tasks (ss_manager s)" and ?id = "sk_task_id (rn_task r)"
  have rs: "runners_ok ?rs" "loops_ok ?rs (ss_loops s)" "list_ok ?rs (ss_manager s)" using ok by (simp_all add: system_ok_def)
  have id: "nd_task_id n = ?id \<longleftrightarrow> nd_addr n = i" if "n \<in> set ?ns" for n
  proof -
    have n: "nd_addr n < length ?rs" "nd_task_id n = sk_task_id (rn_task (?rs ! nd_addr n))"
      using list_okD(3) [OF rs(3) that] by (simp_all add: node_ok_def)
    moreover have "rn_phase (?rs ! nd_addr n) \<noteq> Ended" using list_okD(3) [OF rs(3) that] by (auto simp: node_ok_def tracked_def)
    ultimately show ?thesis using rs(1) i by (auto simp: runners_ok_def ids_differ_def)
  qed
  obtain n where n: "n \<in> set ?ns" "nd_addr n = i" using list_okD(4) [OF rs(3) i(1)] i by (auto simp: tracked_def)
  have rm: "remove_first (\<lambda>n. nd_task_id n = ?id) ?ns = filter (\<lambda>n. nd_addr n \<noteq> i) ?ns"
    using list_okD(2) [OF rs(3)] id n by (simp add: remove_first_by_key)
  have e: "subagent_remove_task (c_trunc 32 ?id) (ss_manager s)
      = (ss_manager s)\<lparr>sg_active_tasks := filter (\<lambda>n. nd_addr n \<noteq> i) ?ns, sg_active_count := sg_active_count (ss_manager s) - 1\<rparr>"
  proof -
    have "length ?id < 32" using rs(1) i by (auto simp: runners_ok_def)
    moreover have "?id \<in> set (map nd_task_id ?ns)" using n id by force
    ultimately show ?thesis by (simp add: subagent_remove_task_def rm)
  qed
  have "list_ok (?rs[i := ?r']) (subagent_remove_task (c_trunc 32 ?id) (ss_manager s))" unfolding e
  proof (rule list_okI)
    have "length (filter (\<lambda>n. nd_addr n \<noteq> i) ?ns) = length ?ns - 1" by (rule length_filter_key) (use list_okD(2) [OF rs(3)] n in auto)
    moreover have "length ?ns \<ge> 1" using n by (cases ?ns) auto
    ultimately show "sg_active_count ((ss_manager s)\<lparr>sg_active_tasks := filter (\<lambda>n. nd_addr n \<noteq> i) ?ns, sg_active_count := sg_active_count (ss_manager s) - 1\<rparr>)
        = int (length (sg_active_tasks ((ss_manager s)\<lparr>sg_active_tasks := filter (\<lambda>n. nd_addr n \<noteq> i) ?ns, sg_active_count := sg_active_count (ss_manager s) - 1\<rparr>)))"
      using list_okD(1) [OF rs(3)] by simp
  next
    fix j assume "j < length (?rs[i := ?r'])" "tracked (?rs[i := ?r'] ! j)"
    then have "j \<noteq> i" "j \<in> nd_addr ` set ?ns" using i list_okD(4) [OF rs(3), of j] by (auto simp: tracked_def nth_list_update split: if_splits)
    then show "j \<in> set (map nd_addr (sg_active_tasks ((ss_manager s)\<lparr>sg_active_tasks := filter (\<lambda>n. nd_addr n \<noteq> i) ?ns, sg_active_count := sg_active_count (ss_manager s) - 1\<rparr>)))"
      by auto
  qed (use list_okD(2,3) [OF rs(3)] in \<open>auto simp: distinct_map_filter intro: node_ok_other\<close>)
  moreover have "loops_ok (?rs[i := ?r']) (ss_loops s)" by (rule loops_ok_set [OF rs(2) i(1)]) auto
  ultimately show ?thesis using runners_ok_update [OF rs(1) i(1), of ?r'] i by (intro system_okI) (simp_all add: runner_end_def)
qed

lemma cancel_nodes_map:
  "cancel_nodes key ns heap = Inr (c, ns', heap') \<Longrightarrow>
   ns' = map (\<lambda>n. if nd_session_key n = key then n\<lparr>nd_cancelling := True\<rparr> else n) ns \<and> (\<forall>l. heap' l = None \<longleftrightarrow> heap l = None)"
proof (induction ns arbitrary: heap c ns' heap')
  case (Cons n ns)
  have same: "nd_cancelling n \<Longrightarrow> n\<lparr>nd_cancelling := True\<rparr> = n" by simp
  from Cons show ?case
    by (auto simp: same agent_loop_stop_def split: if_splits option.splits sum.splits prod.splits)
qed simp

lemma system_ok_cancel:
  assumes ok: "system_ok s" and c: "subagent_manager_cancel_by_session key (ss_manager s) (ss_loops s) = Inr (c, mgr, heap)"
  shows "system_ok (s\<lparr>ss_manager := mgr, ss_loops := heap\<rparr>)"
proof -
  let ?f = "\<lambda>n. if nd_session_key n = key then n\<lparr>nd_cancelling := True\<rparr> else n"
  obtain ns where ns: "cancel_nodes key (sg_active_tasks (ss_manager s)) (ss_loops s) = Inr (c, ns, heap)"
    and mgr: "mgr = (ss_manager s)\<lparr>sg_active_tasks := ns\<rparr>"
    using c by (auto simp: subagent_manager_cancel_by_session_def split: sum.splits)
  note m = cancel_nodes_map [OF ns]
  have rs: "runners_ok (ss_runners s)" "loops_ok (ss_runners s) (ss_loops s)" "list_ok (ss_runners s) (ss_manager s)"
    using ok by (simp_all add: system_ok_def)
  have "list_ok (ss_runners s) mgr" unfolding mgr m [THEN conjunct1]
    by (rule list_ok_map [OF rs(3)]) (auto simp: node_ok_def)
  moreover have "loops_ok (ss_runners s) heap" using rs(2) m by (simp add: loops_ok_def)
  ultimately show ?thesis using rs(1) by (simp add: system_ok_def)
qed

lemma subagents_ok: "subagents same_id s \<Longrightarrow> \<not> same_id \<Longrightarrow> system_ok s"
proof (induction rule: subagents.induct)
  case subagents_start
  show ?case by (simp add: system_ok_def initial_system_def runners_ok_def ids_differ_def loops_ok_def list_ok_def)
next
  case (subagents_step same_id s s')
  then have ok: "system_ok s" and ids: "ids_differ (ss_runners s')" by simp_all
  from subagents_step(2) ok ids show ?case
  proof (induction rule: subagent_step.induct)
    case (spawn task_id s request reply task)
    then show ?case by (intro system_ok_spawn) simp_all
  qed (simp_all only: system_ok_track system_ok_create system_ok_free system_ok_end system_ok_cancel)
qed

text \<open>The counter is right whatever the ids are.\<close>

lemma length_remove_first_some: "\<exists>x \<in> set xs. P x \<Longrightarrow> Suc (length (remove_first P xs)) = length xs"
  by (induction xs) auto

lemma count_exact: "subagents same_id s \<Longrightarrow> sg_active_count (ss_manager s) = int (length (sg_active_tasks (ss_manager s)))"
proof (induction rule: subagents.induct)
  case subagents_start
  show ?case by (simp add: initial_system_def)
next
  case (subagents_step same_id s s')
  from subagents_step(2,3) show ?case
  proof (induction rule: subagent_step.induct)
    case (end_task i s r)
    let ?id = "c_trunc 32 (sk_task_id (rn_task r))"
    show ?case
    proof (cases "?id \<in> set (map nd_task_id (sg_active_tasks (ss_manager s)))")
      case True
      then have "\<exists>n \<in> set (sg_active_tasks (ss_manager s)). nd_task_id n = ?id" by force
      from length_remove_first_some [OF this] show ?thesis using end_task(4) True by (simp add: runner_end_def subagent_remove_task_def)
    qed (use end_task(4) in \<open>simp add: runner_end_def subagent_remove_task_def\<close>)
  next
    case (cancel key s c mgr heap)
    then show ?case by (auto simp: subagent_manager_cancel_by_session_def split: sum.splits dest!: cancel_nodes_map)
  qed (simp_all add: runner_track_def subagent_add_task_def runner_create_loop_def set_node_loop_def runner_free_loop_def)
qed

lemma stop_loops_ok:
  "(\<And>n l. n \<in> set ns \<Longrightarrow> nd_loop n = Some l \<Longrightarrow> heap l \<noteq> None) \<Longrightarrow> \<exists>heap'. stop_loops ns heap = Inr heap'"
proof (induction ns arbitrary: heap)
  case (Cons n ns)
  show ?case
  proof (cases "nd_loop n")
    case (Some l)
    have "heap l \<noteq> None" using Cons.prems [of n l] Some by simp
    moreover have "\<exists>heap'. stop_loops ns (heap(l \<mapsto> False)) = Inr heap'" by (rule Cons.IH) (use Cons.prems in auto)
    ultimately show ?thesis using Some by (simp add: agent_loop_stop_def)
  next
    case None
    have "\<exists>heap'. stop_loops ns heap = Inr heap'" by (rule Cons.IH) (use Cons.prems in auto)
    with None show ?thesis by simp
  qed
qed simp

text \<open>
  Claim C34. The list of the manager is the list of the tasks under way: in every interleaving of the threads and of cancellations the counter is
  the length of the list; and as long as no task has been given the id of another task that had not ended (the ids are random and not compared), there is one node for each task that
  has been tracked and has not ended and none for another, and when no thread is between freeing its loop and removing its node, stopping all loops touches no
  freed loop.
\<close>

theorem subagent_list_exact:
  assumes "subagents same_id s"
  shows "sg_active_count (ss_manager s) = int (length (sg_active_tasks (ss_manager s)))
    \<and> (\<not> same_id \<longrightarrow>
         set (map nd_addr (sg_active_tasks (ss_manager s))) = {i. i < length (ss_runners s) \<and> tracked (ss_runners s ! i)}
         \<and> distinct (map nd_addr (sg_active_tasks (ss_manager s)))
         \<and> (list_all (\<lambda>r. rn_phase r \<noteq> Loop_Freed) (ss_runners s) \<longrightarrow>
              (\<exists>heap. stop_loops (sg_active_tasks (ss_manager s)) (ss_loops s) = Inr heap)))"
proof (cases same_id)
  case False
  let ?ns = "sg_active_tasks (ss_manager s)" and ?rs = "ss_runners s"
  have ok: "loops_ok ?rs (ss_loops s)" "list_ok ?rs (ss_manager s)" using subagents_ok [OF assms False] by (simp_all add: system_ok_def)
  have node: "node_ok ?rs n" if "n \<in> set ?ns" for n using list_okD(3) [OF ok(2) that] .
  have "\<exists>heap. stop_loops ?ns (ss_loops s) = Inr heap" if nf: "list_all (\<lambda>r. rn_phase r \<noteq> Loop_Freed) ?rs"
  proof (rule stop_loops_ok)
    fix n l assume n: "n \<in> set ?ns" "nd_loop n = Some l"
    then have r: "nd_addr n < length ?rs" "tracked (?rs ! nd_addr n)" "rn_phase (?rs ! nd_addr n) \<noteq> Tracked"
      "rn_phase (?rs ! nd_addr n) = Loop_Running \<Longrightarrow> rn_loop (?rs ! nd_addr n) = Some l"
      using node [OF n(1)] by (auto simp: node_ok_def)
    have "rn_phase (?rs ! nd_addr n) \<noteq> Loop_Freed" using nf r(1) by (simp add: list_all_length)
    with r show "ss_loops s l \<noteq> None" using ok(1) by (auto simp: tracked_def loops_ok_def)
  qed
  moreover have "set (map nd_addr ?ns) = {i. i < length ?rs \<and> tracked (?rs ! i)}"
    using node list_okD(4) [OF ok(2)] by (auto simp: node_ok_def)
  ultimately show ?thesis using list_okD(1,2) [OF ok(2)] by simp
qed (use count_exact [OF assms] in simp)

definition demo_subtask :: "nat \<Rightarrow> SubagentTask" where
  "demo_subtask i = spawn_task (replicate i (CHR ''a'')) demo_request"

definition demo_runner :: "nat \<Rightarrow> runner_phase \<Rightarrow> nat option \<Rightarrow> runner" where
  "demo_runner i ph l = \<lparr>rn_task = demo_subtask i, rn_phase = ph, rn_loop = l\<rparr>"

lemma demo_subtask_id: "i < 32 \<Longrightarrow> sk_task_id (demo_subtask i) = replicate i (CHR ''a'')"
  by (simp add: demo_subtask_def spawn_task_def)

definition demo_one :: subagent_system where
  "demo_one = initial_system\<lparr>ss_runners := [demo_runner 1 Started None]\<rparr>"

lemma demo_one_run: "subagents False demo_one"
proof -
  have "\<exists>reply. subagent_manager_spawn True (replicate 1 (CHR ''a'')) (ss_manager initial_system) demo_request = (reply, Some (demo_subtask 1))"
    by (simp add: subagent_manager_spawn_def initial_system_def demo_subtask_def Let_def)
  then obtain reply where sp: "subagent_manager_spawn True (replicate 1 (CHR ''a'')) (ss_manager initial_system) demo_request = (reply, Some (demo_subtask 1))" ..
  have "subagent_step initial_system (initial_system\<lparr>ss_runners := ss_runners initial_system @ [\<lparr>rn_task = demo_subtask 1, rn_phase = Started, rn_loop = None\<rparr>]\<rparr>)"
    by (rule subagent_step.spawn [OF sp])
  then have "subagent_step initial_system demo_one" by (simp add: initial_system_def demo_runner_def demo_one_def)
  then show ?thesis by (rule subagents_next [OF subagents_start]) (simp add: ids_differ_def demo_one_def)
qed

definition demo_two :: subagent_system where
  "demo_two = runner_track 0 (ss_runners demo_one ! 0) demo_one"

lemma demo_two_run: "subagents False demo_two" unfolding demo_two_def
  by (rule subagents_next [OF demo_one_run], rule track) (simp_all add: demo_runner_def demo_one_def runner_track_def ids_differ_def)

theorem subagent_list_exact_witness:
  "subagents False demo_two \<and> set (map nd_addr (sg_active_tasks (ss_manager demo_two)))
     = {i. i < length (ss_runners demo_two) \<and> tracked (ss_runners demo_two ! i)} \<and> sg_active_count (ss_manager demo_two) = 1"
  using subagent_list_exact [OF demo_two_run] demo_two_run
  by (simp add: demo_two_def runner_track_def subagent_add_task_def demo_one_def initial_system_def)

text \<open>Nine spawns pass the test before any of their threads has added its node.\<close>

lemma demo_ids: "n \<le> 9 \<Longrightarrow> ids_differ (map (\<lambda>i. demo_runner i Started None) [0..<n])"
  by (auto simp: ids_differ_def demo_runner_def demo_subtask_id)

lemma demo_spawned:
  "n \<le> 9 \<Longrightarrow> subagents False (initial_system\<lparr>ss_runners := map (\<lambda>i. demo_runner i Started None) [0..<n]\<rparr>)"
proof (induction n)
  case 0
  show ?case using subagents_start by (simp add: initial_system_def)
next
  case (Suc n)
  let ?s = "initial_system\<lparr>ss_runners := map (\<lambda>i. demo_runner i Started None) [0..<n]\<rparr>"
  have sp: "\<exists>reply. subagent_manager_spawn True (replicate n (CHR ''a'')) (ss_manager ?s) demo_request = (reply, Some (demo_subtask n))"
    by (simp add: subagent_manager_spawn_def initial_system_def demo_subtask_def Let_def)
  from sp have "subagent_step ?s (?s\<lparr>ss_runners := ss_runners ?s @ [\<lparr>rn_task = demo_subtask n, rn_phase = Started, rn_loop = None\<rparr>]\<rparr>)"
    using subagent_step.spawn by blast
  with Suc have "subagents False (?s\<lparr>ss_runners := ss_runners ?s @ [\<lparr>rn_task = demo_subtask n, rn_phase = Started, rn_loop = None\<rparr>]\<rparr>)"
    using subagents_next demo_ids [OF Suc.prems] by (simp add: demo_runner_def)
  then show ?case by (simp add: demo_runner_def)
qed

lemma demo_tracked:
  assumes "subagents False s" "ids_differ (ss_runners s)" "list_all (\<lambda>r. rn_phase r = Started) (drop n (ss_runners s))" "sg_active_count (ss_manager s) = int n"
    "n + k \<le> length (ss_runners s)"
  shows "\<exists>s'. subagents False s' \<and> sg_active_count (ss_manager s') = int (n + k)"
  using assms
proof (induction k arbitrary: n s)
  case 0
  then show ?case by auto
next
  case (Suc k)
  have n: "n < length (ss_runners s)" using Suc.prems by simp
  let ?s' = "runner_track n (ss_runners s ! n) s"
  have d: "drop n (ss_runners s) = ss_runners s ! n # drop (Suc n) (ss_runners s)" using n by (simp add: Cons_nth_drop_Suc)
  have started: "rn_phase (ss_runners s ! n) = Started" using Suc.prems(3) by (simp add: d)
  then have "subagent_step s ?s'" using n by (intro track) auto
  moreover have ids: "ids_differ (ss_runners ?s')" using ids_differ_update [OF Suc.prems(2) n, of "(ss_runners s ! n)\<lparr>rn_phase := Tracked\<rparr>"]
      started by (simp add: runner_track_def)
  ultimately have "subagents False ?s'" using Suc.prems(1) subagents_next by blast
  moreover have "list_all (\<lambda>r. rn_phase r = Started) (drop (Suc n) (ss_runners ?s'))"
    using Suc.prems(3) by (simp add: d runner_track_def drop_update_cancel)
  ultimately show ?case using Suc.IH [of ?s' "Suc n"] Suc.prems ids by (auto simp: runner_track_def subagent_add_task_def)
qed

text \<open>
  The limit of eight subagents does not hold: the test of \<open>subagent_manager_spawn\<close> looks at a counter that each new thread increments only
  later, so nine subagents can be active at the same time.
\<close>

theorem subagent_limit_exceeded: "\<exists>s. subagents False s \<and> sg_active_count (ss_manager s) = 9"
proof -
  let ?s = "initial_system\<lparr>ss_runners := map (\<lambda>i. demo_runner i Started None) [0..<9]\<rparr>"
  have "list_all (\<lambda>r. rn_phase r = Started) (drop 0 (ss_runners ?s))" by (simp add: list_all_iff demo_runner_def)
  then show ?thesis using demo_tracked [OF demo_spawned [of 9], of 0 9] demo_ids [of 9] by (simp add: initial_system_def)
qed

text \<open>
  A freed loop can be stopped: between freeing its loop and removing its node a thread leaves a node that points at the freed loop, and
  when \<open>subagent_manager_destroy\<close> or a cancellation takes the mutex then, it stops a loop that no longer exists.
\<close>

theorem subagent_stop_freed_loop:
  "\<exists>s. subagents False s \<and> stop_loops (sg_active_tasks (ss_manager s)) (ss_loops s) = Inl Freed_Loop
    \<and> subagent_manager_cancel_by_session ''subagent:a'' (ss_manager s) (ss_loops s) = Inl Freed_Loop"
proof -
  let ?s3 = "runner_create_loop 0 7 (ss_runners demo_two ! 0) demo_two"
  have 3: "subagents False ?s3"
    by (rule subagents_next [OF demo_two_run], rule create_loop) (simp_all add: demo_two_def demo_one_def runner_track_def runner_create_loop_def demo_runner_def initial_system_def ids_differ_def)
  let ?s4 = "runner_free_loop 0 7 (ss_runners ?s3 ! 0) ?s3"
  have 4: "subagents False ?s4"
    by (rule subagents_next [OF 3], rule free_loop) (simp_all add: demo_two_def demo_one_def runner_create_loop_def runner_free_loop_def runner_track_def demo_runner_def ids_differ_def)
  have "stop_loops (sg_active_tasks (ss_manager ?s4)) (ss_loops ?s4) = Inl Freed_Loop
    \<and> subagent_manager_cancel_by_session ''subagent:a'' (ss_manager ?s4) (ss_loops ?s4) = Inl Freed_Loop"
    by (simp add: demo_two_def demo_one_def runner_free_loop_def runner_create_loop_def runner_track_def initial_system_def demo_runner_def set_node_loop_def subagent_add_task_def
        new_node_def agent_loop_stop_def subagent_manager_cancel_by_session_def demo_subtask_id)
  with 4 show ?thesis by blast
qed

text \<open>
  Two tasks with the same id: when the first one ends, the node of the second one is removed, and the node of the first one stays although its task has ended.
\<close>

lemma same_id_removes_other_node:
  "\<exists>s. subagents True s \<and> set (map nd_addr (sg_active_tasks (ss_manager s))) = {0} \<and> \<not> tracked (ss_runners s ! 0) \<and> tracked (ss_runners s ! 1)"
proof -
  let ?r = "demo_runner 1 Started None"
  let ?add = "\<lambda>s. s\<lparr>ss_runners := ss_runners s @ [?r]\<rparr>"
  obtain reply where sp: "subagent_manager_spawn True (replicate 1 (CHR ''a'')) (ss_manager demo_one) demo_request = (reply, Some (demo_subtask 1))"
    by (simp add: subagent_manager_spawn_def demo_one_def initial_system_def demo_subtask_def Let_def)
  have "subagent_step demo_one (?add demo_one)" using subagent_step.spawn [OF sp] by (simp add: demo_runner_def)
  moreover have "\<not> ids_differ (ss_runners (?add demo_one))"
  proof
    assume "ids_differ (ss_runners (?add demo_one))"
    from this [unfolded ids_differ_def, rule_format, of 0 1] show False by (simp add: demo_one_def demo_runner_def)
  qed
  ultimately have 1: "subagents True (?add demo_one)" using subagents_step [OF demo_one_run, of "?add demo_one"] by simp
  have step: "subagents True s \<Longrightarrow> subagent_step s s' \<Longrightarrow> subagents True s'" for s s' using subagents_step [of True s s'] by simp
  let ?t1 = "runner_track 0 ?r (?add demo_one)"
  let ?t2 = "runner_track 1 ?r ?t1"
  have 2: "subagents True ?t1" by (rule step [OF 1], rule track) (simp_all add: demo_one_def demo_runner_def)
  have 3: "subagents True ?t2" by (rule step [OF 2], rule track) (simp_all add: demo_one_def demo_runner_def runner_track_def)
  let ?l = "runner_create_loop 0 7 (?r\<lparr>rn_phase := Tracked\<rparr>) ?t2"
  have 4: "subagents True ?l" by (rule step [OF 3], rule create_loop) (simp_all add: demo_one_def demo_runner_def runner_track_def initial_system_def)
  let ?f = "runner_free_loop 0 7 (?r\<lparr>rn_phase := Loop_Running, rn_loop := Some 7\<rparr>) ?l"
  have 5: "subagents True ?f"
    by (rule step [OF 4], rule free_loop) (simp_all add: demo_one_def demo_runner_def runner_track_def runner_create_loop_def)
  let ?e = "runner_end 0 (?r\<lparr>rn_phase := Loop_Freed, rn_loop := None\<rparr>) ?f"
  have "subagents True ?e"
    by (rule step [OF 5], rule end_task) (simp_all add: demo_one_def demo_runner_def runner_track_def runner_create_loop_def runner_free_loop_def)
  moreover have "set (map nd_addr (sg_active_tasks (ss_manager ?e))) = {0}" "\<not> tracked (ss_runners ?e ! 0)" "tracked (ss_runners ?e ! 1)"
    by (simp_all add: demo_one_def demo_runner_def runner_track_def runner_create_loop_def runner_free_loop_def runner_end_def subagent_remove_task_def
        subagent_add_task_def set_node_loop_def new_node_def initial_system_def tracked_def demo_subtask_id c_trunc_def)
  ultimately show ?thesis by blast
qed

end
