(* ===== verification/FeishuFrame.thy ===== *)
theory FeishuFrame
  imports Json
begin

unbundle bit_operations_syntax

text \<open>
  The frames of \<open>plugins/channels/feishu_channel/feishu_ws.c\<close>: a protocol-buffer codec written by hand. Bytes
  are characters, \<open>uint64_t\<close> and \<open>int32_t\<close> are words, an offset is the value of a \<open>size_t\<close>. The sums
  \<^verbatim>\<open>off + l\<close> are taken modulo \<open>2 ^ 64\<close>, as in C. Reading behind the buffer and shifting by 64 or more
  are undefined behaviour; both are errors of the model. The parsing loops may run forever, so
  they are partial functions.
\<close>

datatype ub = Out_Of_Bounds | Shift_Overflow

definition c_string :: "string \<Rightarrow> string" where
  "c_string s = takeWhile (\<lambda>c. c \<noteq> CHR 0x00) s"

type_synonym WSHeader = "string option \<times> string option"

record WSFrame =
  wf_seq_id :: "64 word"
  wf_log_id :: "64 word"
  wf_service :: "32 word"
  wf_method :: "32 word"
  wf_headers :: "WSHeader list"
  wf_payload_type :: "string option"
  wf_payload :: "string option"

definition empty_frame :: WSFrame where
  "empty_frame = \<lparr>wf_seq_id = 0, wf_log_id = 0, wf_service = 0, wf_method = 0, wf_headers = [],
     wf_payload_type = None, wf_payload = None\<rparr>"

section \<open>Reading\<close>

text \<open>\<open>data\<close> is what the pointer points to, \<open>len\<close> the length that the code was told.\<close>

function read_varint :: "string \<Rightarrow> nat \<Rightarrow> nat \<Rightarrow> 64 word \<Rightarrow> nat \<Rightarrow> ub + 64 word \<times> nat" where
  "read_varint data len offset value shift =
     (if offset < len
      then if length data \<le> offset then Inl Out_Of_Bounds
           else (let b = of_char (data ! offset) :: 64 word
                 in if 64 \<le> shift then Inl Shift_Overflow
                    else (let value = value OR push_bit shift (b AND 0x7F)
                          in if b AND 0x80 = 0 then Inr (value, Suc offset)
                             else read_varint data len (Suc offset) value (shift + 7)))
      else Inr (value, offset))"
  by pat_completeness auto
termination by (relation "measure (\<lambda>(data, len, offset, value, shift). len - offset)") auto

declare read_varint.simps [simp del]

definition add_offset :: "nat \<Rightarrow> 64 word \<Rightarrow> nat" where
  "add_offset offset l = unat (of_nat offset + l)"

definition skip_field :: "string \<Rightarrow> nat \<Rightarrow> nat \<Rightarrow> 64 word \<Rightarrow> ub + nat" where
  "skip_field data len offset wire_type =
     (case (if wire_type = 0 then map_sum id snd (read_varint data len offset 0 0)
            else if wire_type = 2
            then (case read_varint data len offset 0 0 of
                    Inl e \<Rightarrow> Inl e
                  | Inr (l, offset) \<Rightarrow> Inr (if add_offset offset l > len then len else add_offset offset l))
            else if wire_type = 1 then Inr (offset + 8)
            else if wire_type = 5 then Inr (offset + 4)
            else Inr offset) of
        Inl e \<Rightarrow> Inl e
      | Inr offset \<Rightarrow> Inr (if offset > len then len else offset))"

definition field_number :: "64 word \<Rightarrow> 32 word" where
  "field_number k = ucast (drop_bit 3 k)"

definition wire_type :: "64 word \<Rightarrow> 64 word" where
  "wire_type k = k AND 7"

text \<open>\<^verbatim>\<open>memcpy(dst, p + off, l)\<close>.\<close>

definition copy_bytes :: "string \<Rightarrow> nat \<Rightarrow> 64 word \<Rightarrow> ub + string" where
  "copy_bytes data offset l =
     (if offset + unat l > length data then Inl Out_Of_Bounds else Inr (take (unat l) (drop offset data)))"

text \<open>The inner results: \<open>Inr None\<close> is \<open>return false\<close>.\<close>

partial_function (option) parse_header_msg ::
  "(nat \<Rightarrow> bool) \<Rightarrow> string \<Rightarrow> nat \<Rightarrow> nat \<Rightarrow> WSHeader \<Rightarrow> (ub + WSHeader option) option" where
  "parse_header_msg malloc_ok p n off h =
     (if off < n
      then (case read_varint p n off 0 0 of
              Inl e \<Rightarrow> Some (Inl e)
            | Inr (k, off) \<Rightarrow>
                if wire_type k = 2
                then (case read_varint p n off 0 0 of
                        Inl e \<Rightarrow> Some (Inl e)
                      | Inr (l, off) \<Rightarrow>
                          if add_offset off l > n then Some (Inr None)
                          else if field_number k = 1 \<or> field_number k = 2
                          then if \<not> malloc_ok (unat (l + 1)) then Some (Inr None)
                               else (case copy_bytes p off l of
                                       Inl e \<Rightarrow> Some (Inl e)
                                     | Inr s \<Rightarrow> parse_header_msg malloc_ok p n (add_offset off l)
                                                 (if field_number k = 1 then (Some (c_string s), snd h)
                                                  else (fst h, Some (c_string s))))
                          else parse_header_msg malloc_ok p n (add_offset off l) h)
                else (case skip_field p n off (wire_type k) of
                        Inl e \<Rightarrow> Some (Inl e)
                      | Inr off \<Rightarrow> parse_header_msg malloc_ok p n off h))
      else Some (Inr (Some h)))"

partial_function (option) parse_frame ::
  "(nat \<Rightarrow> bool) \<Rightarrow> string \<Rightarrow> nat \<Rightarrow> nat \<Rightarrow> WSFrame \<Rightarrow> (ub + WSFrame option) option" where
  "parse_frame malloc_ok p n off f =
     (if off < n
      then (case read_varint p n off 0 0 of
              Inl e \<Rightarrow> Some (Inl e)
            | Inr (k, off) \<Rightarrow>
                if wire_type k = 0 \<and> field_number k \<in> {1, 2, 3, 4}
                then (case read_varint p n off 0 0 of
                        Inl e \<Rightarrow> Some (Inl e)
                      | Inr (v, off) \<Rightarrow>
                          parse_frame malloc_ok p n off
                            (if field_number k = 1 then f\<lparr>wf_seq_id := v\<rparr>
                             else if field_number k = 2 then f\<lparr>wf_log_id := v\<rparr>
                             else if field_number k = 3 then f\<lparr>wf_service := ucast v\<rparr>
                             else f\<lparr>wf_method := ucast v\<rparr>))
                else if wire_type k = 2 \<and> field_number k \<in> {5, 7, 8}
                then (case read_varint p n off 0 0 of
                        Inl e \<Rightarrow> Some (Inl e)
                      | Inr (l, off) \<Rightarrow>
                          if add_offset off l > n then Some (Inr None)
                          else if field_number k = 5
                          then if length (wf_headers f) \<ge> 64 then Some (Inr None)
                               else (case parse_header_msg malloc_ok (drop off p) (unat l) 0 (None, None) of
                                       None \<Rightarrow> None
                                     | Some (Inl e) \<Rightarrow> Some (Inl e)
                                     | Some (Inr None) \<Rightarrow> Some (Inr None)
                                     | Some (Inr (Some h)) \<Rightarrow>
                                         parse_frame malloc_ok p n (add_offset off l) (f\<lparr>wf_headers := wf_headers f @ [h]\<rparr>))
                          else if field_number k = 7
                          then if \<not> malloc_ok (unat (l + 1)) then Some (Inr None)
                               else (case copy_bytes p off l of
                                       Inl e \<Rightarrow> Some (Inl e)
                                     | Inr s \<Rightarrow> parse_frame malloc_ok p n (add_offset off l) (f\<lparr>wf_payload_type := Some (c_string s)\<rparr>))
                          else if l > 0 \<and> \<not> malloc_ok (unat l) then Some (Inr None)
                          else (case copy_bytes p off l of
                                  Inl e \<Rightarrow> Some (Inl e)
                                | Inr s \<Rightarrow> parse_frame malloc_ok p n (add_offset off l)
                                            (f\<lparr>wf_payload := if l = 0 \<and> \<not> malloc_ok 0 then None else Some s\<rparr>)))
                else (case skip_field p n off (wire_type k) of
                        Inl e \<Rightarrow> Some (Inl e)
                      | Inr off \<Rightarrow> parse_frame malloc_ok p n off f))
      else Some (Inr (Some f)))"

section \<open>Writing\<close>

record ByteBuf =
  bb_data :: string
  bb_cap :: nat

definition empty_buf :: ByteBuf where
  "empty_buf = \<lparr>bb_data = '''', bb_cap = 0\<rparr>"

function grow_cap :: "nat \<Rightarrow> nat \<Rightarrow> nat" where
  "grow_cap ncap need = (if 0 < ncap \<and> ncap < need then grow_cap (ncap * 2) need else ncap)"
  by pat_completeness auto
termination by (relation "measure (\<lambda>(ncap, need). need - ncap)") auto

declare grow_cap.simps [simp del]

definition bb_ensure :: "(nat \<Rightarrow> bool) \<Rightarrow> ByteBuf \<Rightarrow> nat \<Rightarrow> ByteBuf option" where
  "bb_ensure realloc_ok b extra =
     (let need = length (bb_data b) + extra;
          ncap = grow_cap (if bb_cap b \<noteq> 0 then bb_cap b else 256) need
      in if need \<le> bb_cap b then Some b
         else if realloc_ok ncap then Some (b\<lparr>bb_cap := ncap\<rparr>) else None)"

definition bb_add :: "(nat \<Rightarrow> bool) \<Rightarrow> ByteBuf \<Rightarrow> string \<Rightarrow> ByteBuf option" where
  "bb_add realloc_ok b p =
     (case bb_ensure realloc_ok b (length p) of
        None \<Rightarrow> None
      | Some b \<Rightarrow> Some (b\<lparr>bb_data := bb_data b @ p\<rparr>))"

definition bb_add_u8 :: "(nat \<Rightarrow> bool) \<Rightarrow> ByteBuf \<Rightarrow> 64 word \<Rightarrow> ByteBuf option" where
  "bb_add_u8 realloc_ok b v = bb_add realloc_ok b [char_of (unat v)]"

lemma varint_shift: "(v :: 64 word) \<ge> 0x80 \<Longrightarrow> unat (drop_bit 7 v) < unat v"
proof -
  assume "v \<ge> 0x80"
  then have "128 \<le> unat v" by (simp add: word_le_nat_alt)
  then have "unat v div 2 ^ 7 < unat v" by (intro div_less_dividend) simp_all
  then show ?thesis by (subst unat_drop_bit_eq, subst drop_bit_eq_div)
qed

function bb_add_varint :: "(nat \<Rightarrow> bool) \<Rightarrow> ByteBuf \<Rightarrow> 64 word \<Rightarrow> ByteBuf option" where
  "bb_add_varint realloc_ok b v =
     (if v \<ge> 0x80
      then (case bb_add_u8 realloc_ok b ((v AND 0x7F) OR 0x80) of
              None \<Rightarrow> None
            | Some b \<Rightarrow> bb_add_varint realloc_ok b (drop_bit 7 v))
      else bb_add_u8 realloc_ok b v)"
  by pat_completeness auto
termination by (relation "measure (\<lambda>(ok, b, v). unat v)") (auto intro: varint_shift)

declare bb_add_varint.simps [simp del]

definition pb_key :: "64 word \<Rightarrow> 64 word \<Rightarrow> 64 word" where
  "pb_key field wt = push_bit 3 field OR wt"

definition pb_add_key :: "(nat \<Rightarrow> bool) \<Rightarrow> ByteBuf \<Rightarrow> 64 word \<Rightarrow> 64 word \<Rightarrow> ByteBuf option" where
  "pb_add_key realloc_ok b field wt = bb_add_varint realloc_ok b (pb_key field wt)"

definition pb_add_bytes :: "(nat \<Rightarrow> bool) \<Rightarrow> ByteBuf \<Rightarrow> 64 word \<Rightarrow> string \<Rightarrow> ByteBuf option" where
  "pb_add_bytes realloc_ok b field p =
     (case pb_add_key realloc_ok b field 2 of
        None \<Rightarrow> None
      | Some b \<Rightarrow>
          (case bb_add_varint realloc_ok b (of_nat (length p)) of
             None \<Rightarrow> None
           | Some b \<Rightarrow> if p = '''' then Some b else bb_add realloc_ok b p))"

definition pb_add_varint_field :: "(nat \<Rightarrow> bool) \<Rightarrow> ByteBuf \<Rightarrow> 64 word \<Rightarrow> 64 word \<Rightarrow> ByteBuf option" where
  "pb_add_varint_field realloc_ok b field v =
     (case pb_add_key realloc_ok b field 0 of
        None \<Rightarrow> None
      | Some b \<Rightarrow> bb_add_varint realloc_ok b v)"

fun encode_header :: "(nat \<Rightarrow> bool) \<Rightarrow> WSHeader \<Rightarrow> ByteBuf option \<Rightarrow> ByteBuf option" where
  "encode_header realloc_ok (Some key, Some value) (Some out) =
     (case pb_add_bytes realloc_ok empty_buf 1 key of
        None \<Rightarrow> None
      | Some hb \<Rightarrow>
          (case pb_add_bytes realloc_ok hb 2 value of
             None \<Rightarrow> None
           | Some hb \<Rightarrow> pb_add_bytes realloc_ok out 5 (bb_data hb)))"
| "encode_header realloc_ok h out = out"

definition encode_frame :: "(nat \<Rightarrow> bool) \<Rightarrow> WSFrame \<Rightarrow> ByteBuf option" where
  "encode_frame realloc_ok f =
     (case pb_add_varint_field realloc_ok empty_buf 1 (wf_seq_id f) of
        None \<Rightarrow> None
      | Some out \<Rightarrow>
     (case pb_add_varint_field realloc_ok out 2 (wf_log_id f) of
        None \<Rightarrow> None
      | Some out \<Rightarrow>
     (case pb_add_varint_field realloc_ok out 3 (scast (wf_service f)) of
        None \<Rightarrow> None
      | Some out \<Rightarrow>
     (case pb_add_varint_field realloc_ok out 4 (scast (wf_method f)) of
        None \<Rightarrow> None
      | Some out \<Rightarrow>
     (case fold (encode_header realloc_ok) (wf_headers f) (Some out) of
        None \<Rightarrow> None
      | Some out \<Rightarrow>
     (case (case wf_payload_type f of Some t \<Rightarrow> pb_add_bytes realloc_ok out 7 t | None \<Rightarrow> Some out) of
        None \<Rightarrow> None
      | Some out \<Rightarrow> pb_add_bytes realloc_ok out 8 (case wf_payload f of Some p \<Rightarrow> p | None \<Rightarrow> '''')))))))"

section \<open>Variable-length integers\<close>

function varint :: "64 word \<Rightarrow> string" where
  "varint v = (if v \<ge> 0x80 then char_of (unat ((v AND 0x7F) OR 0x80)) # varint (drop_bit 7 v) else [char_of (unat v)])"
  by pat_completeness auto
termination by (relation "measure unat") (auto intro: varint_shift)

declare varint.simps [simp del]

lemma bb_add_data: "bb_add ok b p = Some b' \<Longrightarrow> bb_data b' = bb_data b @ p"
  by (auto simp: bb_add_def bb_ensure_def Let_def split: option.splits if_splits)

lemma bb_add_varint_data: "bb_add_varint ok b v = Some b' \<Longrightarrow> bb_data b' = bb_data b @ varint v"
proof (induction ok b v rule: bb_add_varint.induct)
  case (1 ok b v)
  show ?case
  proof (cases "v \<ge> 0x80")
    case True
    with "1.prems" obtain c where c: "bb_add_u8 ok b ((v AND 0x7F) OR 0x80) = Some c" "bb_add_varint ok c (drop_bit 7 v) = Some b'"
      by (subst (asm) bb_add_varint.simps) (auto split: option.splits)
    from bb_add_data [OF c(1) [unfolded bb_add_u8_def]] "1.IH" [OF True c] True show ?thesis
      by (subst varint.simps) simp
  next
    case False
    with "1.prems" bb_add_data show ?thesis
      by (subst (asm) bb_add_varint.simps, subst varint.simps) (auto simp: bb_add_u8_def)
  qed
qed

lemma low_bits: "(v :: 64 word) AND 0x7F = take_bit 7 v"
  by (simp add: take_bit_eq_mask mask_eq_exp_minus_1)

lemma byte_word: "unat (w :: 64 word) < 256 \<Longrightarrow> (of_char (char_of (unat w) :: char) :: 64 word) = w"
proof -
  assume w: "unat w < 256"
  have "(of_char (char_of (unat w) :: char) :: 64 word) = of_nat (of_char (char_of (unat w) :: char))" by (rule of_nat_of_char [symmetric])
  also have "\<dots> = of_nat (unat w mod 256)" by (simp add: of_char_of)
  finally show ?thesis using w by simp
qed

lemma cont_byte:
  fixes v :: "64 word"
  defines "b \<equiv> (of_char (char_of (unat ((v AND 0x7F) OR 0x80)) :: char) :: 64 word)"
  shows "b AND 0x7F = take_bit 7 v" "b AND 0x80 \<noteq> 0"
proof -
  let ?w = "take_bit 7 v OR 0x80 :: 64 word"
  have "take_bit 8 ?w = ?w" by (simp add: take_bit_or)
  then have "unat ?w = take_bit 8 (unat ?w)" by (metis unsigned_take_bit_eq)
  then have "unat ?w < 2 ^ 8" by (metis take_bit_nat_less_exp)
  then have "unat ?w < 256" by simp
  then have b: "b = ?w" unfolding b_def low_bits by (rule byte_word)
  show "b AND 0x7F = take_bit 7 v" unfolding b low_bits by (simp add: take_bit_or)
  have "bit (b AND 0x80) 7" unfolding b by (simp add: bit_simps)
  then show "b AND 0x80 \<noteq> 0" by (metis bit_0_eq bot_apply bot_bool_def)
qed

lemma push_bit_split: "push_bit s (take_bit 7 v) OR push_bit (s + 7) (drop_bit 7 v) = push_bit s (v :: 64 word)"
proof -
  have "bit (take_bit 7 v OR push_bit 7 (drop_bit 7 v)) n = bit v n" if "n < 64" for n
    using that by (cases "n < 7") (auto simp: bit_simps)
  then have "take_bit 7 v OR push_bit 7 (drop_bit 7 v) = v" by (intro bit_word_eqI) simp
  then have "push_bit s (take_bit 7 v OR push_bit 7 (drop_bit 7 v)) = push_bit s v" by simp
  then show ?thesis by (simp add: push_bit_or)
qed

lemma drop_bit_bound:
  assumes "unat (v :: 64 word) < 2 ^ (64 - s)" and "v \<ge> 0x80" and "s < 64"
  shows "s + 7 < 64" "unat (drop_bit 7 v) < 2 ^ (64 - (s + 7))"
proof -
  have v: "128 \<le> unat v" using assms(2) by (simp add: word_le_nat_alt)
  show s: "s + 7 < 64"
  proof (rule ccontr)
    assume "\<not> s + 7 < 64"
    then have "(2 :: nat) ^ (64 - s) \<le> 2 ^ 7" by (intro power_increasing) auto
    with v assms(1) show False by simp
  qed
  have "64 - s = (64 - (s + 7)) + 7" using s by simp
  then have "(2 :: nat) ^ (64 - s) = 2 ^ (64 - (s + 7)) * 2 ^ 7" by (simp only: power_add)
  with assms(1) have "unat v < 2 ^ (64 - (s + 7)) * 2 ^ 7" by simp
  then have "unat v div 2 ^ 7 < 2 ^ (64 - (s + 7))" by (rule less_mult_imp_div_less)
  then show "unat (drop_bit 7 v) < 2 ^ (64 - (s + 7))" by (subst unat_drop_bit_eq, subst drop_bit_eq_div)
qed

lemma read_varint_gen:
  assumes "unat v < 2 ^ (64 - s)" "s < 64"
    and "length pre + length (varint v) \<le> len" "len \<le> length (pre @ varint v @ rest)"
  shows "read_varint (pre @ varint v @ rest) len (length pre) acc s = Inr (acc OR push_bit s v, length pre + length (varint v))"
  using assms
proof (induction v arbitrary: pre acc s rule: varint.induct)
  case (1 v)
  show ?case
  proof (cases "v \<ge> 0x80")
    case False
    then have v: "varint v = [char_of (unat v)]" by (subst varint.simps) simp
    have u: "unat v < 128" using False by (simp add: word_le_nat_alt)
    then have b: "(of_char (char_of (unat v) :: char) :: 64 word) = v" by (intro byte_word) simp
    have "unat (take_bit 7 v) = unat v" using u by (simp add: unsigned_take_bit_eq take_bit_nat_eq_self)
    then have t: "take_bit 7 v = v" by (simp only: word_unat_eq_iff)
    have n: "v AND 0x80 = 0"
    proof -
      have "\<not> bit v 7" by (metis t bit_take_bit_iff less_irrefl)
      then have "v AND 2 ^ 7 = 0" by (simp only: and_exp_eq_0_iff_not_bit not_False_eq_True)
      then show ?thesis by simp
    qed
    show ?thesis using "1.prems" by (subst read_varint.simps) (simp add: v b n low_bits t)
  next
    case True
    let ?c = "char_of (unat ((v AND 0x7F) OR 0x80)) :: char"
    have v: "varint v = ?c # varint (drop_bit 7 v)" using True by (subst varint.simps) simp
    note bound = drop_bit_bound [OF "1.prems"(1) True "1.prems"(2)]
    let ?data = "(pre @ [?c]) @ varint (drop_bit 7 v) @ rest"
    have ih: "read_varint ?data len (length (pre @ [?c])) (acc OR push_bit s (take_bit 7 v)) (s + 7)
        = Inr ((acc OR push_bit s (take_bit 7 v)) OR push_bit (s + 7) (drop_bit 7 v), length (pre @ [?c]) + length (varint (drop_bit 7 v)))"
      using "1.prems"(3,4) v bound by (intro "1.IH" [OF True]) simp_all
    have "read_varint (pre @ varint v @ rest) len (length pre) acc s
        = read_varint ?data len (length (pre @ [?c])) (acc OR push_bit s (take_bit 7 v)) (s + 7)"
      using "1.prems" cont_byte [of v] by (subst read_varint.simps) (simp add: v Let_def del: push_bit_and)
    also note ih
    finally show ?thesis by (simp add: v or.assoc push_bit_split)
  qed
qed

lemma read_varint_varint:
  assumes "length pre + length (varint v) \<le> len" "len \<le> length (pre @ varint v @ rest)"
  shows "read_varint (pre @ varint v @ rest) len (length pre) 0 0 = Inr (v, length pre + length (varint v))"
proof -
  have "unat v < 2 ^ 64" using unsigned_less [of v] by simp
  then show ?thesis using read_varint_gen [of v 0 pre len rest 0] assms by simp
qed

lemma varint_nonempty [simp]: "varint v \<noteq> []" "0 < length (varint v)"
  by (subst varint.simps, simp)+

lemma varint_length: "unat v < 2 ^ (7 * Suc n) \<Longrightarrow> length (varint v) \<le> Suc n"
proof (induction n arbitrary: v)
  case 0
  then show ?case by (subst varint.simps) (simp add: word_le_nat_alt)
next
  case (Suc n)
  have "7 * Suc (Suc n) = 7 * Suc n + 7" by simp
  then have "unat v < 2 ^ (7 * Suc n) * 2 ^ 7" using Suc.prems by (simp only: power_add)
  then have "unat v div 2 ^ 7 < 2 ^ (7 * Suc n)" by (rule less_mult_imp_div_less)
  then have "unat (drop_bit 7 v) < 2 ^ (7 * Suc n)" by (subst unat_drop_bit_eq, subst drop_bit_eq_div)
  from Suc.IH [OF this] show ?case by (subst varint.simps) simp
qed

lemma length_varint: "length (varint v) \<le> 10"
proof -
  have "unat v < 2 ^ 64" using unsigned_less [of v] by simp
  also have "(2 :: nat) ^ 64 \<le> 2 ^ (7 * Suc 9)" by simp
  finally show ?thesis using varint_length [of v 9] by simp
qed

section \<open>Fields\<close>

definition key_bytes :: "64 word \<Rightarrow> 64 word \<Rightarrow> string" where
  "key_bytes field wt = varint (pb_key field wt)"

definition bytes_field :: "64 word \<Rightarrow> string \<Rightarrow> string" where
  "bytes_field field p = key_bytes field 2 @ varint (of_nat (length p)) @ p"

definition varint_field :: "64 word \<Rightarrow> 64 word \<Rightarrow> string" where
  "varint_field field v = key_bytes field 0 @ varint v"

lemma pb_add_bytes_data: "pb_add_bytes ok b field p = Some b' \<Longrightarrow> bb_data b' = bb_data b @ bytes_field field p"
  by (auto simp: pb_add_bytes_def pb_add_key_def bytes_field_def key_bytes_def
      dest!: bb_add_varint_data bb_add_data split: option.splits if_splits)

lemma pb_add_varint_field_data: "pb_add_varint_field ok b field v = Some b' \<Longrightarrow> bb_data b' = bb_data b @ varint_field field v"
  by (auto simp: pb_add_varint_field_def pb_add_key_def varint_field_def key_bytes_def dest!: bb_add_varint_data split: option.splits)

lemma field_nonempty: "0 < length (bytes_field field p)" "0 < length (varint_field field v)"
  by (simp_all add: bytes_field_def varint_field_def key_bytes_def)

lemma field_length: "length (bytes_field field p) \<le> 20 + length p" "length (varint_field field v) \<le> 20"
  using length_varint [of "pb_key field 2"] length_varint [of "of_nat (length p)"] length_varint [of "pb_key field 0"] length_varint [of v]
  by (simp_all add: bytes_field_def varint_field_def key_bytes_def)

lemma key_simps [simp]:
  "field_number (pb_key 1 0) = 1" "field_number (pb_key 2 0) = 2" "field_number (pb_key 3 0) = 3"
  "field_number (pb_key 4 0) = 4" "field_number (pb_key 1 2) = 1" "field_number (pb_key 2 2) = 2"
  "field_number (pb_key 5 2) = 5" "field_number (pb_key 7 2) = 7" "field_number (pb_key 8 2) = 8"
  "wire_type (pb_key 1 0) = 0" "wire_type (pb_key 2 0) = 0" "wire_type (pb_key 3 0) = 0"
  "wire_type (pb_key 4 0) = 0" "wire_type (pb_key 1 2) = 2" "wire_type (pb_key 2 2) = 2"
  "wire_type (pb_key 5 2) = 2" "wire_type (pb_key 7 2) = 2" "wire_type (pb_key 8 2) = 2"
  by (simp_all add: field_number_def wire_type_def pb_key_def)

lemma add_offset_exact: "off + k < 2 ^ 64 \<Longrightarrow> add_offset off (of_nat k) = off + k"
  by (simp add: add_offset_def unat_of_nat flip: of_nat_add)

text \<open>What the code sees at a field of bytes: its key, its length, and no overflow.\<close>

lemma at_bytes_field:
  assumes n: "length (pre @ bytes_field field p) \<le> n" "n \<le> length (pre @ bytes_field field p @ rest)" "n < 2 ^ 64"
    and data: "data = pre @ bytes_field field p @ rest"
    and off: "off2 = length pre + length (key_bytes field 2) + length (varint (of_nat (length p)))"
  shows "read_varint data n (length pre) 0 0 = Inr (pb_key field 2, length pre + length (key_bytes field 2))"
    and "read_varint data n (length pre + length (key_bytes field 2)) 0 0 = Inr (of_nat (length p), off2)"
    and "add_offset off2 (of_nat (length p)) = length (pre @ bytes_field field p)"
    and "copy_bytes data off2 (of_nat (length p)) = Inr p"
    and "unat (of_nat (length p) :: 64 word) = length p"
proof -
  let ?k = "pb_key field 2" and ?l = "of_nat (length p) :: 64 word"
  show u: "unat ?l = length p" using n by (simp add: unat_of_nat bytes_field_def)
  show "read_varint data n (length pre) 0 0 = Inr (?k, length pre + length (key_bytes field 2))"
    using read_varint_varint [of pre ?k n "varint ?l @ p @ rest"] n by (simp add: data bytes_field_def key_bytes_def)
  show "read_varint data n (length pre + length (key_bytes field 2)) 0 0 = Inr (?l, off2)"
    using read_varint_varint [of "pre @ key_bytes field 2" ?l n "p @ rest"] n by (simp add: data bytes_field_def off)
  show "add_offset off2 ?l = length (pre @ bytes_field field p)"
    using n by (subst add_offset_exact) (simp_all add: off bytes_field_def)
  show "copy_bytes data off2 ?l = Inr p"
    using n by (simp add: copy_bytes_def u data off bytes_field_def)
qed

lemma at_varint_field:
  assumes "length (pre @ varint_field field v) \<le> n" "n \<le> length (pre @ varint_field field v @ rest)"
    and data: "data = pre @ varint_field field v @ rest"
  shows "read_varint data n (length pre) 0 0 = Inr (pb_key field 0, length pre + length (key_bytes field 0))"
    and "read_varint data n (length pre + length (key_bytes field 0)) 0 0 = Inr (v, length (pre @ varint_field field v))"
  using read_varint_varint [of pre "pb_key field 0" n "varint v @ rest"]
    read_varint_varint [of "pre @ key_bytes field 0" v n rest] assms
  by (simp_all add: varint_field_def key_bytes_def)

definition header_bytes :: "string \<Rightarrow> string \<Rightarrow> string" where
  "header_bytes key val = bytes_field 1 key @ bytes_field 2 val"

definition plain_text :: "string \<Rightarrow> bool" where
  "plain_text s \<longleftrightarrow> CHR 0x00 \<notin> set s"

lemma c_string_plain: "plain_text s \<Longrightarrow> c_string s = s"
  by (auto simp: c_string_def plain_text_def takeWhile_eq_all_conv)

lemma parse_header_step:
  assumes n: "length (pre @ bytes_field field p) \<le> n" "n \<le> length (pre @ bytes_field field p @ rest)" "n < 2 ^ 64"
    and f: "field = 1 \<or> field = 2" and "malloc_ok = (\<lambda>_. True)" and "plain_text p"
  shows "parse_header_msg malloc_ok (pre @ bytes_field field p @ rest) n (length pre) h =
    parse_header_msg malloc_ok (pre @ bytes_field field p @ rest) n (length (pre @ bytes_field field p))
      (if field = 1 then (Some p, snd h) else (fst h, Some p))"
proof -
  note at = at_bytes_field [OF n refl refl]
  have "length pre < n" using n(1) field_nonempty(1) [of field p] by (simp del: length_greater_0_conv)
  with n f assms(5,6) show ?thesis
    by (subst parse_header_msg.simps) (auto simp: at c_string_plain)
qed

lemma parse_header_bytes:
  assumes n: "n = length (header_bytes key val)" "n < 2 ^ 64" and "plain_text key" "plain_text val"
  shows "parse_header_msg (\<lambda>_. True) (header_bytes key val @ rest) n 0 h = Some (Inr (Some (Some key, Some val)))"
proof -
  let ?k = "bytes_field 1 key" and ?v = "bytes_field 2 val"
  have a: "parse_header_msg (\<lambda>_. True) (?k @ ?v @ rest) n 0 h = parse_header_msg (\<lambda>_. True) (?k @ ?v @ rest) n (length ?k) (Some key, snd h)"
    using parse_header_step [of "[]" 1 key n "?v @ rest" "\<lambda>_. True" h] assms by (simp add: header_bytes_def)
  have b: "parse_header_msg (\<lambda>_. True) (?k @ ?v @ rest) n (length ?k) (Some key, snd h) = parse_header_msg (\<lambda>_. True) (?k @ ?v @ rest) n n (Some key, Some val)"
    using parse_header_step [of ?k 2 val n rest "\<lambda>_. True" "(Some key, snd h)"] assms by (simp add: header_bytes_def)
  have c: "parse_header_msg (\<lambda>_. True) (?k @ ?v @ rest) n n (Some key, Some val) = Some (Inr (Some (Some key, Some val)))"
    by (subst parse_header_msg.simps) simp
  show ?thesis using a b c by (simp add: header_bytes_def)
qed

lemma parse_varint_step:
  assumes n: "length (pre @ varint_field field v) \<le> n" "n = length (pre @ varint_field field v @ rest)"
    and f: "field \<in> {1, 2, 3, 4}"
  shows "parse_frame ok (pre @ varint_field field v @ rest) n (length pre) f =
    parse_frame ok (pre @ varint_field field v @ rest) n (length (pre @ varint_field field v))
      (if field = 1 then f\<lparr>wf_seq_id := v\<rparr> else if field = 2 then f\<lparr>wf_log_id := v\<rparr>
       else if field = 3 then f\<lparr>wf_service := ucast v\<rparr> else f\<lparr>wf_method := ucast v\<rparr>)"
proof -
  have "n \<le> length (pre @ varint_field field v @ rest)" using n by simp
  note at = at_varint_field [OF n(1) this refl]
  have "length pre < n" using n(1) field_nonempty(2) [of field v] by (simp del: length_greater_0_conv)
  with f show ?thesis by (subst parse_frame.simps) (auto simp: at)
qed

lemma parse_header_field_step:
  assumes n: "length (pre @ bytes_field 5 (header_bytes key val)) \<le> n" "n = length (pre @ bytes_field 5 (header_bytes key val) @ rest)" "n < 2 ^ 64"
    and "plain_text key" "plain_text val" "length (wf_headers f) < 64"
  shows "parse_frame (\<lambda>_. True) (pre @ bytes_field 5 (header_bytes key val) @ rest) n (length pre) f =
    parse_frame (\<lambda>_. True) (pre @ bytes_field 5 (header_bytes key val) @ rest) n (length (pre @ bytes_field 5 (header_bytes key val)))
      (f\<lparr>wf_headers := wf_headers f @ [(Some key, Some val)]\<rparr>)"
proof -
  let ?p = "header_bytes key val"
  let ?off2 = "length pre + length (key_bytes 5 2) + length (varint (of_nat (length ?p)))"
  have n2: "n \<le> length (pre @ bytes_field 5 ?p @ rest)" using n by simp
  note at = at_bytes_field [OF n(1) n2 n(3) refl refl]
  have "drop ?off2 (pre @ bytes_field 5 ?p @ rest) = ?p @ rest" by (simp add: bytes_field_def)
  moreover have "length ?p < 2 ^ 64" using n by (simp add: bytes_field_def)
  ultimately have h: "parse_header_msg (\<lambda>_. True) (drop ?off2 (pre @ bytes_field 5 ?p @ rest)) (length ?p) 0 (None, None)
      = Some (Inr (Some (Some key, Some val)))"
    using parse_header_bytes [OF refl, of key val rest "(None, None)"] assms by simp
  have "length pre < n" using n(1) field_nonempty(1) [of 5 ?p] by (simp del: length_greater_0_conv)
  with n(1) assms(6) show ?thesis by (subst parse_frame.simps) (simp add: at h del: drop_append)
qed

lemma parse_bytes_step:
  assumes n: "length (pre @ bytes_field field p) \<le> n" "n = length (pre @ bytes_field field p @ rest)" "n < 2 ^ 64"
    and f: "field = 7 \<and> plain_text p \<or> field = 8"
  shows "parse_frame (\<lambda>_. True) (pre @ bytes_field field p @ rest) n (length pre) f =
    parse_frame (\<lambda>_. True) (pre @ bytes_field field p @ rest) n (length (pre @ bytes_field field p))
      (if field = 7 then f\<lparr>wf_payload_type := Some p\<rparr> else f\<lparr>wf_payload := Some p\<rparr>)"
proof -
  have n2: "n \<le> length (pre @ bytes_field field p @ rest)" using n by simp
  note at = at_bytes_field [OF n(1) n2 n(3) refl refl]
  have "length pre < n" using n(1) field_nonempty(1) [of field p] by (simp del: length_greater_0_conv)
  with n(1) f show ?thesis by (subst parse_frame.simps) (auto simp: at c_string_plain)
qed

section \<open>Frames\<close>

fun header_field :: "WSHeader \<Rightarrow> string" where
  "header_field (Some key, Some val) = bytes_field 5 (header_bytes key val)"
| "header_field h = ''''"

definition frame_bytes :: "WSFrame \<Rightarrow> string" where
  "frame_bytes f = varint_field 1 (wf_seq_id f) @ varint_field 2 (wf_log_id f) @ varint_field 3 (scast (wf_service f)) @
     varint_field 4 (scast (wf_method f)) @ concat (map header_field (wf_headers f)) @
     (case wf_payload_type f of Some t \<Rightarrow> bytes_field 7 t | None \<Rightarrow> '''') @
     bytes_field 8 (case wf_payload f of Some p \<Rightarrow> p | None \<Rightarrow> '''')"

lemma encode_header_data: "encode_header ok h (Some b) = Some b' \<Longrightarrow> bb_data b' = bb_data b @ header_field h"
  by (cases h rule: header_field.cases)
    (auto simp: header_bytes_def empty_buf_def dest!: pb_add_bytes_data split: option.splits)

lemma encode_header_None: "encode_header ok h None = None"
  by (cases h rule: header_field.cases) auto

lemma fold_encode_headers:
  "fold (encode_header ok) hs (Some b) = Some b' \<Longrightarrow> bb_data b' = bb_data b @ concat (map header_field hs)"
proof (induction hs arbitrary: b)
  case (Cons h hs)
  have none: "fold (encode_header ok) hs None = None" by (induction hs) (simp_all add: encode_header_None)
  with Cons.prems obtain c where c: "encode_header ok h (Some b) = Some c" "fold (encode_header ok) hs (Some c) = Some b'"
    by (cases "encode_header ok h (Some b)") auto
  with Cons.IH [OF c(2)] encode_header_data [OF c(1)] show ?case by simp
qed simp

lemma encode_frame_bytes: "encode_frame ok f = Some out \<Longrightarrow> bb_data out = frame_bytes f"
  by (auto simp: encode_frame_def frame_bytes_def empty_buf_def
      dest!: pb_add_varint_field_data fold_encode_headers pb_add_bytes_data split: option.splits)

lemma parse_headers:
  assumes "n = length (pre @ concat (map header_field hs) @ rest)" "n < 2 ^ 64"
    and "\<forall>h \<in> set hs. \<exists>k v. h = (Some k, Some v) \<and> plain_text k \<and> plain_text v" and "length (wf_headers f) + length hs \<le> 64"
  shows "parse_frame (\<lambda>_. True) (pre @ concat (map header_field hs) @ rest) n (length pre) f =
    parse_frame (\<lambda>_. True) (pre @ concat (map header_field hs) @ rest) n (length (pre @ concat (map header_field hs)))
      (f\<lparr>wf_headers := wf_headers f @ hs\<rparr>)"
  using assms
proof (induction hs arbitrary: pre f)
  case (Cons h hs)
  then obtain k v where h: "h = (Some k, Some v)" "plain_text k" "plain_text v" by auto
  let ?hb = "bytes_field 5 (header_bytes k v)" and ?more = "concat (map header_field hs)"
  have "parse_frame (\<lambda>_. True) (pre @ ?hb @ ?more @ rest) n (length pre) f =
      parse_frame (\<lambda>_. True) (pre @ ?hb @ ?more @ rest) n (length (pre @ ?hb)) (f\<lparr>wf_headers := wf_headers f @ [h]\<rparr>)"
    using parse_header_field_step [of pre k v n "?more @ rest" f] Cons.prems h by simp
  also have "\<dots> = parse_frame (\<lambda>_. True) ((pre @ ?hb) @ ?more @ rest) n (length ((pre @ ?hb) @ ?more))
      (f\<lparr>wf_headers := wf_headers f @ [h] @ hs\<rparr>)"
    using Cons.IH [of "pre @ ?hb" "f\<lparr>wf_headers := wf_headers f @ [h]\<rparr>"] Cons.prems h by simp
  finally show ?case using h by simp
qed simp

text \<open>A frame that can be sent without loss: every header has a key and a value, at most 64 headers, no
  zero bytes in texts, and a payload.\<close>

definition sendable :: "WSFrame \<Rightarrow> bool" where
  "sendable f \<longleftrightarrow> (\<forall>h \<in> set (wf_headers f). \<exists>k v. h = (Some k, Some v) \<and> plain_text k \<and> plain_text v)
     \<and> length (wf_headers f) \<le> 64 \<and> (\<forall>t. wf_payload_type f = Some t \<longrightarrow> plain_text t) \<and> wf_payload f \<noteq> None"

lemma ucast_scast_id: "(ucast (scast (x :: 32 word) :: 64 word) :: 32 word) = x"
  by (rule bit_word_eqI) (auto simp: bit_simps)

lemma parse_frame_end: "parse_frame ok p n n f = Some (Inr (Some f))"
  by (subst parse_frame.simps) simp

lemma parse_payload:
  assumes "n = length (pre @ (case t of Some t \<Rightarrow> bytes_field 7 t | None \<Rightarrow> '''') @ bytes_field 8 p)" "n < 2 ^ 64"
    and "\<forall>s. t = Some s \<longrightarrow> plain_text s" "wf_payload_type f = None"
  shows "parse_frame (\<lambda>_. True) (pre @ (case t of Some t \<Rightarrow> bytes_field 7 t | None \<Rightarrow> '''') @ bytes_field 8 p) n (length pre) f
    = Some (Inr (Some (f\<lparr>wf_payload_type := t, wf_payload := Some p\<rparr>)))"
proof (cases t)
  case None
  have u: "f\<lparr>wf_payload_type := None, wf_payload := Some p\<rparr> = f\<lparr>wf_payload := Some p\<rparr>" using assms(4) by (cases f) simp
  show ?thesis using parse_bytes_step [of pre 8 p n "[]" f] None assms by (simp add: parse_frame_end u)
next
  case (Some s)
  let ?t = "bytes_field 7 s" and ?p = "bytes_field 8 p"
  have "parse_frame (\<lambda>_. True) (pre @ ?t @ ?p) n (length pre) f
      = parse_frame (\<lambda>_. True) (pre @ ?t @ ?p) n (length (pre @ ?t)) (f\<lparr>wf_payload_type := Some s\<rparr>)"
    using parse_bytes_step [of pre 7 s n ?p f] Some assms by simp
  also have "\<dots> = parse_frame (\<lambda>_. True) (pre @ ?t @ ?p) n n (f\<lparr>wf_payload_type := Some s, wf_payload := Some p\<rparr>)"
    using parse_bytes_step [of "pre @ ?t" 8 p n "[]" "f\<lparr>wf_payload_type := Some s\<rparr>"] Some assms by simp
  finally show ?thesis using Some by (simp add: parse_frame_end)
qed

lemma parse_numbers:
  assumes "n = length (varint_field 1 a @ varint_field 2 b @ varint_field 3 c @ varint_field 4 d @ rest)"
  shows "parse_frame ok (varint_field 1 a @ varint_field 2 b @ varint_field 3 c @ varint_field 4 d @ rest) n 0 f =
    parse_frame ok (varint_field 1 a @ varint_field 2 b @ varint_field 3 c @ varint_field 4 d @ rest) n
      (length (varint_field 1 a @ varint_field 2 b @ varint_field 3 c @ varint_field 4 d))
      (f\<lparr>wf_seq_id := a, wf_log_id := b, wf_service := ucast c, wf_method := ucast d\<rparr>)"
proof -
  let ?a = "varint_field 1 a" and ?b = "varint_field 2 b" and ?c = "varint_field 3 c" and ?d = "varint_field 4 d"
  let ?x = "?a @ ?b @ ?c @ ?d @ rest"
  have "parse_frame ok ?x n 0 f = parse_frame ok ?x n (length ?a) (f\<lparr>wf_seq_id := a\<rparr>)"
    using parse_varint_step [of "[]" 1 a n "?b @ ?c @ ?d @ rest" ok f] assms by simp
  also have "\<dots> = parse_frame ok ?x n (length (?a @ ?b)) (f\<lparr>wf_seq_id := a, wf_log_id := b\<rparr>)"
    using parse_varint_step [of ?a 2 b n "?c @ ?d @ rest" ok "f\<lparr>wf_seq_id := a\<rparr>"] assms by simp
  also have "\<dots> = parse_frame ok ?x n (length (?a @ ?b @ ?c)) (f\<lparr>wf_seq_id := a, wf_log_id := b, wf_service := ucast c\<rparr>)"
    using parse_varint_step [of "?a @ ?b" 3 c n "?d @ rest" ok "f\<lparr>wf_seq_id := a, wf_log_id := b\<rparr>"] assms by simp
  also have "\<dots> = parse_frame ok ?x n (length (?a @ ?b @ ?c @ ?d))
      (f\<lparr>wf_seq_id := a, wf_log_id := b, wf_service := ucast c, wf_method := ucast d\<rparr>)"
    using parse_varint_step [of "?a @ ?b @ ?c" 4 d n rest ok "f\<lparr>wf_seq_id := a, wf_log_id := b, wf_service := ucast c\<rparr>"] assms by simp
  finally show ?thesis .
qed

lemma parse_frame_bytes:
  assumes s: "sendable f" and n: "length (frame_bytes f) < 2 ^ 64"
  shows "parse_frame (\<lambda>_. True) (frame_bytes f) (length (frame_bytes f)) 0 empty_frame = Some (Inr (Some f))"
proof -
  obtain p where p: "wf_payload f = Some p" using s by (auto simp: sendable_def)
  let ?num = "varint_field 1 (wf_seq_id f) @ varint_field 2 (wf_log_id f) @ varint_field 3 (scast (wf_service f)) @ varint_field 4 (scast (wf_method f))"
  let ?hs = "concat (map header_field (wf_headers f))"
  let ?tp = "(case wf_payload_type f of Some t \<Rightarrow> bytes_field 7 t | None \<Rightarrow> '''') @ bytes_field 8 p"
  let ?n = "length (frame_bytes f)"
  let ?f1 = "empty_frame\<lparr>wf_seq_id := wf_seq_id f, wf_log_id := wf_log_id f, wf_service := wf_service f, wf_method := wf_method f\<rparr>"
  let ?f2 = "?f1\<lparr>wf_headers := wf_headers f\<rparr>"
  have b: "frame_bytes f = ?num @ ?hs @ ?tp" by (simp add: frame_bytes_def p)
  have "parse_frame (\<lambda>_. True) (frame_bytes f) ?n 0 empty_frame = parse_frame (\<lambda>_. True) (?num @ ?hs @ ?tp) ?n (length ?num) ?f1"
    using parse_numbers [of ?n _ _ _ _ "?hs @ ?tp" "\<lambda>_. True" empty_frame] by (simp add: b ucast_scast_id)
  also have "\<dots> = parse_frame (\<lambda>_. True) (?num @ ?hs @ ?tp) ?n (length (?num @ ?hs)) ?f2"
    using parse_headers [of ?n ?num "wf_headers f" ?tp ?f1] s n unfolding b [symmetric]
    by (simp add: sendable_def empty_frame_def b)
  also have "\<dots> = Some (Inr (Some (?f2\<lparr>wf_payload_type := wf_payload_type f, wf_payload := Some p\<rparr>)))"
    using parse_payload [of ?n "?num @ ?hs" "wf_payload_type f" p ?f2] s n by (simp add: sendable_def empty_frame_def b)
  also have "?f2\<lparr>wf_payload_type := wf_payload_type f, wf_payload := Some p\<rparr> = f"
    using p by (cases f) (simp add: empty_frame_def)
  finally show ?thesis .
qed

text \<open>Claim C22. Frames survive the wire: whatever \<open>encode_frame\<close> writes for a frame with complete headers and a payload, \<open>parse_frame\<close>
  reads back as the same frame, for any sequence and log ids, signed service and method numbers, and payload
  bytes, as long as the message is shorter than the address space.\<close>

theorem frame_roundtrip:
  assumes "encode_frame realloc_ok f = Some out" and "sendable f" and "length (bb_data out) < 2 ^ 64"
  shows "parse_frame (\<lambda>_. True) (bb_data out) (length (bb_data out)) 0 empty_frame = Some (Inr (Some f))"
  using parse_frame_bytes [OF assms(2)] encode_frame_bytes [OF assms(1)] assms(3) by simp

lemma bb_add_total: "\<exists>b'. bb_add (\<lambda>_. True) b p = Some b'"
  by (simp add: bb_add_def bb_ensure_def Let_def)

lemma bb_add_varint_total: "ok = (\<lambda>_. True) \<Longrightarrow> \<exists>b'. bb_add_varint ok b v = Some b'"
proof (induction ok b v rule: bb_add_varint.induct)
  case (1 ok b v)
  obtain c where c: "bb_add_u8 ok b ((v AND 0x7F) OR 0x80) = Some c"
    using bb_add_total "1.prems" unfolding bb_add_u8_def by blast
  obtain d where d: "bb_add_u8 ok b v = Some d" using bb_add_total "1.prems" unfolding bb_add_u8_def by blast
  show ?case
  proof (cases "v \<ge> 0x80")
    case True
    from "1.IH" [OF True c "1.prems"] show ?thesis by (subst bb_add_varint.simps) (simp add: c True)
  next
    case False
    then show ?thesis by (subst bb_add_varint.simps) (simp add: d)
  qed
qed

lemma pb_add_total:
  "\<exists>b'. pb_add_bytes (\<lambda>_. True) b field p = Some b'" "\<exists>b'. pb_add_varint_field (\<lambda>_. True) b field v = Some b'"
proof -
  obtain b1 where b1: "bb_add_varint (\<lambda>_. True) b (pb_key field 2) = Some b1" using bb_add_varint_total by blast
  obtain b2 where b2: "bb_add_varint (\<lambda>_. True) b1 (of_nat (length p)) = Some b2" using bb_add_varint_total by blast
  show "\<exists>b'. pb_add_bytes (\<lambda>_. True) b field p = Some b'"
    using bb_add_total by (simp add: pb_add_bytes_def pb_add_key_def b1 b2)
  obtain b3 where b3: "bb_add_varint (\<lambda>_. True) b (pb_key field 0) = Some b3" using bb_add_varint_total by blast
  show "\<exists>b'. pb_add_varint_field (\<lambda>_. True) b field v = Some b'"
    using bb_add_varint_total by (simp add: pb_add_varint_field_def pb_add_key_def b3)
qed

lemma encode_header_total: "\<exists>b'. encode_header (\<lambda>_. True) h (Some b) = Some b'"
proof (cases h rule: header_field.cases)
  case (1 key val)
  obtain h1 where h1: "pb_add_bytes (\<lambda>_. True) empty_buf 1 key = Some h1" using pb_add_total by blast
  obtain h2 where "pb_add_bytes (\<lambda>_. True) h1 2 val = Some h2" using pb_add_total by blast
  with 1 h1 show ?thesis using pb_add_total(1) by simp
qed auto

lemma fold_encode_total: "\<exists>b'. fold (encode_header (\<lambda>_. True)) hs (Some b) = Some b'"
proof (induction hs arbitrary: b)
  case (Cons h hs)
  obtain c where "encode_header (\<lambda>_. True) h (Some b) = Some c" using encode_header_total by blast
  with Cons.IH [of c] show ?case by simp
qed simp

lemma encode_frame_total: "\<exists>out. encode_frame (\<lambda>_. True) f = Some out"
proof -
  obtain a where a: "pb_add_varint_field (\<lambda>_. True) empty_buf 1 (wf_seq_id f) = Some a" using pb_add_total by blast
  obtain b where b: "pb_add_varint_field (\<lambda>_. True) a 2 (wf_log_id f) = Some b" using pb_add_total by blast
  obtain c where c: "pb_add_varint_field (\<lambda>_. True) b 3 (scast (wf_service f)) = Some c" using pb_add_total by blast
  obtain d where d: "pb_add_varint_field (\<lambda>_. True) c 4 (scast (wf_method f)) = Some d" using pb_add_total by blast
  obtain e where e: "fold (encode_header (\<lambda>_. True)) (wf_headers f) (Some d) = Some e" using fold_encode_total by blast
  obtain g where g: "(case wf_payload_type f of Some t \<Rightarrow> pb_add_bytes (\<lambda>_. True) e 7 t | None \<Rightarrow> Some e) = Some g"
    using pb_add_total(1) [of e 7 "the (wf_payload_type f)"] by (cases "wf_payload_type f") auto
  show ?thesis using pb_add_total(1) by (simp add: encode_frame_def a b c d e g)
qed

definition ping_frame :: WSFrame where
  "ping_frame = empty_frame\<lparr>wf_service := -7, wf_headers := [(Some ''type'', Some ''ping'')], wf_payload := Some ''''\<rparr>"

theorem frame_roundtrip_witness:
  "\<exists>out. encode_frame (\<lambda>_. True) ping_frame = Some out
     \<and> parse_frame (\<lambda>_. True) (bb_data out) (length (bb_data out)) 0 empty_frame = Some (Inr (Some ping_frame))"
proof -
  obtain out where out: "encode_frame (\<lambda>_. True) ping_frame = Some out" using encode_frame_total by blast
  have s: "sendable ping_frame" by (simp add: sendable_def ping_frame_def empty_frame_def plain_text_def)
  let ?h = "bytes_field 1 ''type'' @ bytes_field 2 ''ping''"
  have "length (frame_bytes ping_frame) = length (varint_field 1 0) + length (varint_field 2 0) + length (varint_field 3 (scast (- 7 :: 32 word)))
      + length (varint_field 4 0) + length (bytes_field 5 ?h) + length (bytes_field 8 '''')"
    by (simp add: frame_bytes_def ping_frame_def empty_frame_def header_bytes_def)
  also have "\<dots> \<le> 20 + 20 + 20 + 20 + (20 + length ?h) + 20" by (intro add_mono field_length field_length [THEN order_trans]) simp_all
  also have "\<dots> \<le> 20 + 20 + 20 + 20 + (20 + (24 + 24)) + 20"
    using field_length(1) [of 1 "''type''"] field_length(1) [of 2 "''ping''"] by simp
  finally have "length (frame_bytes ping_frame) \<le> 168" by simp
  then have "length (bb_data out) < 2 ^ 64" using encode_frame_bytes [OF out] by simp
  with frame_roundtrip [OF out s] out show ?thesis by blast
qed

section \<open>Hostile frames\<close>

lemma skip_back:
  assumes n: "n = length (key_bytes 6 2 @ varint l @ rest)" and l: "add_offset (length (key_bytes 6 2 @ varint l)) l = 0"
  shows "skip_field (key_bytes 6 2 @ varint l @ rest) n (length (key_bytes 6 2)) 2 = Inr 0"
  using read_varint_varint [of "key_bytes 6 2" l n rest] n l by (simp add: skip_field_def)

lemma unknown_field [simp]: "field_number (pb_key 6 2) = 6" "wire_type (pb_key 6 2) = 2"
  by (simp_all add: field_number_def wire_type_def pb_key_def)

lemma parse_frame_loops:
  assumes "parse_frame ok p n off f = Some r"
  shows "\<forall>l rest. p = key_bytes 6 2 @ varint l @ rest \<and> n = length p \<and> off = 0 \<and> add_offset (length (key_bytes 6 2 @ varint l)) l = 0 \<longrightarrow> False"
proof (rule parse_frame.raw_induct [OF _ assms], intro impI allI, goal_cases)
  case (1 parse ok p n off f r l rest)
  then have p: "p = key_bytes 6 2 @ varint l @ rest" and n: "n = length p" and off: "off = 0"
    and wrap: "add_offset (length (key_bytes 6 2 @ varint l)) l = 0" by simp_all
  have "read_varint p n 0 0 0 = Inr (pb_key 6 2, length (key_bytes 6 2))"
    using read_varint_varint [of "[]" "pb_key 6 2" n "varint l @ rest"] n p by (simp add: key_bytes_def)
  moreover have "skip_field p n (length (key_bytes 6 2)) 2 = Inr 0" using skip_back [OF _ wrap] n p by simp
  moreover have "0 < n" using n p by (simp add: key_bytes_def)
  ultimately have "parse ok p n 0 f = Some r" using 1(2) by (simp add: off)
  from 1(1) [OF this] p n wrap show False by blast
qed

text \<open>A hostile message stops the client: a message that starts with an unknown field whose length is \<open>2 ^ 64 - 11\<close>, eleven
  bytes in all, takes the offset back to 0, so \<open>parse_frame\<close> runs forever, because the sum of offset
  and length is checked only after it has wrapped.\<close>

theorem parse_frame_hangs:
  "parse_frame malloc_ok (key_bytes 6 2 @ varint (- 11) @ rest) (length (key_bytes 6 2 @ varint (- 11) @ rest)) 0 f = None"
proof (rule ccontr)
  assume "\<not> ?thesis"
  then obtain r where r: "parse_frame malloc_ok (key_bytes 6 2 @ varint (- 11) @ rest) (length (key_bytes 6 2 @ varint (- 11) @ rest)) 0 f = Some r"
    by blast
  have "length (key_bytes 6 2 @ varint (- 11)) = 11" by code_simp
  then have "add_offset (length (key_bytes 6 2 @ varint (- 11))) (- 11) = 0" by (simp add: add_offset_def)
  with parse_frame_loops [OF r] show False by blast
qed

text \<open>A hostile message makes the client read behind the buffer: a payload type with the length \<open>2 ^ 64 - 1\<close> passes the
  check of the bounds because the sum wraps, zero bytes are allocated for it, and then \<open>2 ^ 64 - 1\<close> bytes are copied.\<close>

theorem parse_frame_out_of_bounds:
  assumes "malloc_ok 0" and "length rest < 2 ^ 32"
  shows "parse_frame malloc_ok (key_bytes 7 2 @ varint (- 1) @ rest) (length (key_bytes 7 2 @ varint (- 1) @ rest)) 0 f = Some (Inl Out_Of_Bounds)"
proof -
  let ?k = "key_bytes 7 2" and ?l = "- 1 :: 64 word"
  let ?p = "?k @ varint ?l @ rest"
  have len: "length ?k = 1" "length (varint ?l) = 10" by code_simp+
  have r1: "read_varint ?p (length ?p) 0 0 0 = Inr (pb_key 7 2, 1)"
    using read_varint_varint [of "[]" "pb_key 7 2" "length ?p" "varint ?l @ rest"] len by (simp add: key_bytes_def)
  have r2: "read_varint ?p (length ?p) 1 0 0 = Inr (?l, 11)"
    using read_varint_varint [of ?k ?l "length ?p" rest] len by simp
  have a: "add_offset 11 ?l = 10" by (simp add: add_offset_def)
  have u: "unat ?l = 2 ^ 64 - 1" by (simp add: unsigned_minus_1_eq_mask mask_eq_exp_minus_1)
  have "copy_bytes ?p 11 ?l = Inl Out_Of_Bounds" using assms(2) len unfolding copy_bytes_def u by simp
  with r1 r2 a assms(1) len show ?thesis by (subst parse_frame.simps) simp
qed

theorem parse_frame_out_of_bounds_witness:
  "parse_frame (\<lambda>n. n < 1000) (key_bytes 7 2 @ varint (- 1) @ '''') (length (key_bytes 7 2 @ varint (- 1) @ '''')) 0 empty_frame
     = Some (Inl Out_Of_Bounds)"
  by (rule parse_frame_out_of_bounds) simp_all

end
