(* ===== verification/FeishuWs.thy ===== *)
theory FeishuWs
  imports FeishuFrame
begin

text \<open>
  \<open>plugins/channels/feishu_channel/feishu_ws.c\<close>, the connection: headers of frames, the reassembly of messages that come in
  parts, the suppression of events that were seen, and the handler of websocket events. The array of 16 pending messages is
  a list of options, the lengths of the parts are those of their texts. What is sent and what is delivered to
  the callback are lists. The clock, the allocator and the JSON library are in \<open>feishu_env\<close>.
\<close>

record PendingMessage =
  pm_msg_id :: string
  pm_sum :: int
  pm_parts :: "string option list"
  pm_created_ms :: "64 word"

record FeishuWS =
  fw_running :: bool
  fw_has_callback :: bool
  fw_recent_msg_ids :: "string option list"
  fw_msg_id_idx :: nat
  fw_service_id :: "32 word"
  fw_ping_interval_ms :: "64 word"
  fw_next_ping_ms :: "64 word"
  fw_pending :: "PendingMessage option list"
  fw_sent :: "string list"
  fw_delivered :: "(string \<times> string \<times> string) list"

record feishu_env =
  fe_malloc :: "nat \<Rightarrow> bool"
  fe_strdup :: bool
  fe_now_ms :: "64 word"
  fe_end_ms :: "64 word"
  fe_parse :: json_parser
  fe_print :: json_printer

definition feishu_ws_create :: "64 word \<Rightarrow> FeishuWS" where
  "feishu_ws_create now_ms =
     \<lparr>fw_running = False, fw_has_callback = False, fw_recent_msg_ids = replicate 20 None, fw_msg_id_idx = 0, fw_service_id = 0,
      fw_ping_interval_ms = 120000, fw_next_ping_ms = now_ms + 120000, fw_pending = replicate 16 None, fw_sent = [],
      fw_delivered = []\<rparr>"

section \<open>Headers\<close>

definition frame_header_get :: "WSFrame \<Rightarrow> string \<Rightarrow> string option" where
  "frame_header_get f k =
     (case find (\<lambda>h. fst h = Some k) (wf_headers f) of None \<Rightarrow> None | Some h \<Rightarrow> snd h)"

definition frame_header_get_int :: "WSFrame \<Rightarrow> string \<Rightarrow> int" where
  "frame_header_get_int f k = (case frame_header_get f k of Some v \<Rightarrow> atoi v | None \<Rightarrow> 0)"

definition frame_header_set :: "bool \<Rightarrow> string \<Rightarrow> string \<Rightarrow> WSFrame \<Rightarrow> WSFrame" where
  "frame_header_set strdup_ok k v f =
     (if list_ex (\<lambda>h. fst h = Some k) (wf_headers f)
      then if \<not> strdup_ok then f
           else f\<lparr>wf_headers := update_first (\<lambda>h. fst h = Some k) (\<lambda>h. (fst h, Some v)) (wf_headers f)\<rparr>
      else if length (wf_headers f) \<ge> 64 \<or> \<not> strdup_ok then f
      else f\<lparr>wf_headers := wf_headers f @ [(Some k, Some v)]\<rparr>)"

section \<open>Messages in parts\<close>

primrec first_index :: "('a \<Rightarrow> bool) \<Rightarrow> 'a list \<Rightarrow> nat option" where
  "first_index P [] = None"
| "first_index P (x # xs) = (if P x then Some 0 else map_option Suc (first_index P xs))"

definition is_message :: "string \<Rightarrow> PendingMessage option \<Rightarrow> bool" where
  "is_message msg_id slot \<longleftrightarrow> (case slot of None \<Rightarrow> False | Some p \<Rightarrow> pm_msg_id p = msg_id)"

definition find_slot :: "string \<Rightarrow> PendingMessage option list \<Rightarrow> nat" where
  "find_slot msg_id pending =
     (case first_index (is_message msg_id) pending of
        Some i \<Rightarrow> i
      | None \<Rightarrow> (case first_index (\<lambda>slot. slot = None) pending of Some i \<Rightarrow> i | None \<Rightarrow> 0))"

text \<open>The message in the slot, or a new one when the slot is empty or holds another message; \<open>None\<close> when there is no memory.\<close>

definition claim_slot :: "feishu_env \<Rightarrow> string \<Rightarrow> int \<Rightarrow> PendingMessage option \<Rightarrow> PendingMessage option" where
  "claim_slot env msg_id parts_sum slot =
     (case slot of
        Some p \<Rightarrow> if pm_msg_id p = msg_id \<and> pm_sum p = parts_sum then Some p
                 else if fe_strdup env \<and> fe_malloc env (8 * nat parts_sum)
                 then Some \<lparr>pm_msg_id = msg_id, pm_sum = parts_sum, pm_parts = replicate (nat parts_sum) None, pm_created_ms = fe_now_ms env\<rparr>
                 else None
      | None \<Rightarrow> if fe_strdup env \<and> fe_malloc env (8 * nat parts_sum)
                then Some \<lparr>pm_msg_id = msg_id, pm_sum = parts_sum, pm_parts = replicate (nat parts_sum) None, pm_created_ms = fe_now_ms env\<rparr>
                else None)"

definition combine_payload ::
  "feishu_env \<Rightarrow> string option \<Rightarrow> int \<Rightarrow> int \<Rightarrow> string \<Rightarrow> FeishuWS \<Rightarrow> string option \<times> FeishuWS" where
  "combine_payload env msg_id parts_sum seq p ws =
     (case msg_id of
        None \<Rightarrow> (None, ws)
      | Some msg_id \<Rightarrow>
          if parts_sum \<le> 1 \<or> seq < 0 \<or> seq \<ge> parts_sum then (None, ws)
          else
            (let i = find_slot msg_id (fw_pending ws);
                 store = (\<lambda>slot. ws\<lparr>fw_pending := (fw_pending ws)[i := slot]\<rparr>)
             in case claim_slot env msg_id parts_sum (fw_pending ws ! i) of
                  None \<Rightarrow> (None, store None)
                | Some slot \<Rightarrow>
                    if \<not> fe_malloc env (length p + 1)
                    then (None, store (Some (slot\<lparr>pm_parts := (pm_parts slot)[nat seq := None]\<rparr>)))
                    else
                      (let slot = slot\<lparr>pm_parts := (pm_parts slot)[nat seq := Some p]\<rparr>;
                           all = concat (map the (pm_parts slot))
                       in if list_ex (\<lambda>part. part = None) (pm_parts slot) then (None, store (Some slot))
                          else if \<not> fe_malloc env (length all + 1) then (None, store (Some slot))
                          else (Some all, store None))))"

definition cleanup_pending_expired :: "64 word \<Rightarrow> FeishuWS \<Rightarrow> FeishuWS" where
  "cleanup_pending_expired t ws =
     ws\<lparr>fw_pending := map (\<lambda>slot. case slot of
          None \<Rightarrow> None
        | Some p \<Rightarrow> if t > pm_created_ms p + 5000 then None else Some p) (fw_pending ws)\<rparr>"

section \<open>Sending\<close>

definition feishu_ws_send_frame :: "feishu_env \<Rightarrow> WSFrame \<Rightarrow> FeishuWS \<Rightarrow> FeishuWS" where
  "feishu_ws_send_frame env f ws =
     (case encode_frame (fe_malloc env) f of
        None \<Rightarrow> ws
      | Some b \<Rightarrow> ws\<lparr>fw_sent := fw_sent ws @ [bb_data b]\<rparr>)"

definition feishu_ws_send_ping :: "feishu_env \<Rightarrow> FeishuWS \<Rightarrow> FeishuWS" where
  "feishu_ws_send_ping env ws =
     feishu_ws_send_frame env
       (frame_header_set (fe_strdup env) ''type'' ''ping'' (empty_frame\<lparr>wf_method := 0, wf_service := fw_service_id ws\<rparr>)) ws"

definition ack_frame :: "feishu_env \<Rightarrow> WSFrame \<Rightarrow> int \<Rightarrow> WSFrame" where
  "ack_frame env inp biz_rt_ms =
     (let out = empty_frame\<lparr>wf_seq_id := wf_seq_id inp, wf_log_id := wf_log_id inp, wf_service := wf_service inp,
                            wf_method := wf_method inp,
                            wf_payload_type := (if fe_strdup env then wf_payload_type inp else None)\<rparr>;
          out = fold (\<lambda>h out. case h of (Some k, Some v) \<Rightarrow> frame_header_set (fe_strdup env) k v out | _ \<Rightarrow> out) (wf_headers inp) out
      in frame_header_set (fe_strdup env) ''biz_rt'' (c_trunc 32 (show_int biz_rt_ms)) out)"

definition feishu_ws_send_ack :: "feishu_env \<Rightarrow> WSFrame \<Rightarrow> int \<Rightarrow> int \<Rightarrow> string \<Rightarrow> FeishuWS \<Rightarrow> FeishuWS" where
  "feishu_ws_send_ack env inp code_value biz_rt_ms data_text ws =
     (case fe_print env (JObject [(''code'', JNumber (of_int code_value)), (''headers'', JObject []), (''data'', JString data_text)]) of
        None \<Rightarrow> ws
      | Some pstr \<Rightarrow> feishu_ws_send_frame env ((ack_frame env inp biz_rt_ms)\<lparr>wf_payload := Some pstr\<rparr>) ws)"

section \<open>Events\<close>

definition is_duplicate_event :: "bool \<Rightarrow> string \<Rightarrow> FeishuWS \<Rightarrow> bool \<times> FeishuWS" where
  "is_duplicate_event strdup_ok event_id ws =
     (if list_ex (\<lambda>r. r = Some event_id) (fw_recent_msg_ids ws) then (True, ws)
      else (False, ws\<lparr>fw_recent_msg_ids := (fw_recent_msg_ids ws)[fw_msg_id_idx ws := if strdup_ok then Some event_id else None],
                      fw_msg_id_idx := (fw_msg_id_idx ws + 1) mod 20\<rparr>))"

definition event_sender :: "json option \<Rightarrow> string option" where
  "event_sender sender =
     (let ids = get_object_item sender ''sender_id''
      in case json_string (get_object_item ids ''open_id'') of
           Some s \<Rightarrow> Some s
         | None \<Rightarrow> (case json_string (get_object_item ids ''user_id'') of
                      Some s \<Rightarrow> Some s
                    | None \<Rightarrow> json_string (get_object_item ids ''union_id'')))"

definition event_text :: "json_parser \<Rightarrow> string \<Rightarrow> string" where
  "event_text parse content =
     (case json_string (get_object_item (parse content) ''text'') of Some t \<Rightarrow> t | None \<Rightarrow> content)"

definition deliver_message :: "feishu_env \<Rightarrow> json \<Rightarrow> FeishuWS \<Rightarrow> FeishuWS" where
  "deliver_message env root_item ws =
     (let event = get_object_item (Some root_item) ''event'';
          message = get_object_item event ''message'';
          sender = get_object_item event ''sender''
      in case (json_string (get_object_item message ''chat_id''), json_string (get_object_item message ''content''), event_sender sender) of
           (Some chat_id, Some content, Some sender_id) \<Rightarrow>
             if fw_has_callback ws \<and> fe_strdup env
             then ws\<lparr>fw_delivered := fw_delivered ws @ [(chat_id, event_text (fe_parse env) content, sender_id)]\<rparr>
             else ws
         | _ \<Rightarrow> ws)"

definition handle_event_json :: "feishu_env \<Rightarrow> string \<Rightarrow> FeishuWS \<Rightarrow> FeishuWS" where
  "handle_event_json env event_json ws =
     (case fe_parse env (c_string event_json) of
        None \<Rightarrow> ws
      | Some root_item \<Rightarrow>
          (let header = get_object_item (Some root_item) ''header'';
               event_type = get_object_item header ''event_type'';
               (dup, ws) = (case json_string (get_object_item header ''event_id'') of
                              Some i \<Rightarrow> is_duplicate_event (fe_strdup env) i ws
                            | None \<Rightarrow> (False, ws))
           in if dup then ws
              else if json_string event_type \<noteq> Some ''im.message.receive_v1'' then ws
              else deliver_message env root_item ws))"

definition handle_control :: "feishu_env \<Rightarrow> WSFrame \<Rightarrow> FeishuWS \<Rightarrow> FeishuWS" where
  "handle_control env f ws =
     (case (frame_header_get f ''type'', wf_payload f) of
        (Some t, Some p) \<Rightarrow>
          if t = ''pong'' \<and> p \<noteq> ''''
          then (case json_number (get_object_item (fe_parse env p) ''PingInterval'') of
                  None \<Rightarrow> ws
                | Some r \<Rightarrow> if number_valueint r > 0
                          then ws\<lparr>fw_ping_interval_ms := word_of_int (number_valueint r) * 1000\<rparr> else ws)
          else ws
      | _ \<Rightarrow> ws)"

definition event_payload :: "feishu_env \<Rightarrow> WSFrame \<Rightarrow> FeishuWS \<Rightarrow> string option \<times> FeishuWS" where
  "event_payload env f ws =
     (let parts_sum = frame_header_get_int f ''sum'';
          seq = frame_header_get_int f ''seq'';
          payload = (case wf_payload f of Some p \<Rightarrow> p | None \<Rightarrow> '''')
      in if parts_sum > 1 then combine_payload env (frame_header_get f ''message_id'') parts_sum seq payload ws
         else if payload \<noteq> '''' \<and> fe_malloc env (length payload + 1) then (Some payload, ws)
         else (None, ws))"

definition handle_event_frame :: "feishu_env \<Rightarrow> WSFrame \<Rightarrow> FeishuWS \<Rightarrow> FeishuWS" where
  "handle_event_frame env f ws =
     (let ack = (\<lambda>code. feishu_ws_send_ack env f code (sint (fe_end_ms env - fe_now_ms env)) '''')
      in case event_payload env f ws of
           (Some payload_text, ws) \<Rightarrow> ack 200 (handle_event_json env payload_text ws)
         | (None, ws) \<Rightarrow> if frame_header_get_int f ''sum'' > 1 then ws else ack 500 ws)"

text \<open>The handler of a binary message; \<open>None\<close> when parsing does not end.\<close>

definition ws_message :: "feishu_env \<Rightarrow> string \<Rightarrow> FeishuWS \<Rightarrow> (ub + FeishuWS) option" where
  "ws_message env data ws =
     (case parse_frame (fe_malloc env) data (length data) 0 empty_frame of
        None \<Rightarrow> None
      | Some (Inl e) \<Rightarrow> Some (Inl e)
      | Some (Inr None) \<Rightarrow> Some (Inr ws)
      | Some (Inr (Some f)) \<Rightarrow>
          Some (Inr (if wf_method f = 0 then handle_control env f ws
                     else if wf_method f \<noteq> 1 then ws
                     else handle_event_frame env f ws)))"

definition ws_open :: "64 word \<Rightarrow> FeishuWS \<Rightarrow> FeishuWS" where
  "ws_open now_ms ws = ws\<lparr>fw_next_ping_ms := now_ms + fw_ping_interval_ms ws\<rparr>"

definition ws_close :: "FeishuWS \<Rightarrow> FeishuWS" where
  "ws_close ws = ws\<lparr>fw_running := False\<rparr>"

definition connect_service_id :: "string \<Rightarrow> FeishuWS \<Rightarrow> FeishuWS" where
  "connect_service_id url ws =
     (case strstr url ''service_id='' of
        Some sid \<Rightarrow> ws\<lparr>fw_service_id := word_of_int (atoi (drop (length ''service_id='') sid))\<rparr>
      | None \<Rightarrow> ws)"

definition feishu_ws_stop :: "FeishuWS \<Rightarrow> FeishuWS" where
  "feishu_ws_stop ws = ws\<lparr>fw_running := False\<rparr>"

text \<open>What one iteration of \<open>feishu_ws_run\<close> does after the poll.\<close>

definition run_iteration :: "feishu_env \<Rightarrow> bool \<Rightarrow> FeishuWS \<Rightarrow> FeishuWS" where
  "run_iteration env has_conn ws =
     (let ws = cleanup_pending_expired (fe_now_ms env) ws
      in if has_conn \<and> fe_now_ms env \<ge> fw_next_ping_ms ws
         then (feishu_ws_send_ping env ws)\<lparr>fw_next_ping_ms := fe_end_ms env + fw_ping_interval_ms ws\<rparr>
         else ws)"

section \<open>Reassembly refines a set of received parts\<close>

lemma first_index_Some: "first_index P xs = Some i \<Longrightarrow> i < length xs \<and> P (xs ! i)"
  by (induction xs arbitrary: i) (auto split: if_splits)

lemma first_index_None: "first_index P xs = None \<longleftrightarrow> (\<forall>x \<in> set xs. \<not> P x)"
  by (induction xs) auto

text \<open>The abstract view: for each message the set of the parts that have arrived. A part completes its message or joins the
  set.\<close>

type_synonym received = "string \<Rightarrow> nat set"

definition receive_part :: "(string \<Rightarrow> string list) \<Rightarrow> string \<times> nat \<Rightarrow> received \<Rightarrow> string option \<times> received" where
  "receive_part parts a K =
     (case a of (m, k) \<Rightarrow>
        if insert k (K m) = {..<length (parts m)} then (Some (concat (parts m)), K(m := {}))
        else (None, K(m := insert k (K m))))"

definition combine_part :: "feishu_env \<Rightarrow> (string \<Rightarrow> string list) \<Rightarrow> string \<times> nat \<Rightarrow> FeishuWS \<Rightarrow> string option \<times> FeishuWS" where
  "combine_part env parts a ws =
     (case a of (m, k) \<Rightarrow> combine_payload env (Some m) (int (length (parts m))) (int k) (parts m ! k) ws)"

primrec run_steps :: "('a \<Rightarrow> 's \<Rightarrow> 'r \<times> 's) \<Rightarrow> 'a list \<Rightarrow> 's \<Rightarrow> 'r list \<times> 's" where
  "run_steps step [] s = ([], s)"
| "run_steps step (a # as) s = (case step a s of (r, s) \<Rightarrow> case run_steps step as s of (rs, s) \<Rightarrow> (r # rs, s))"

definition parts_view :: "string list \<Rightarrow> nat set \<Rightarrow> string option list" where
  "parts_view ps K = map (\<lambda>j. if j \<in> K then Some (ps ! j) else None) [0..<length ps]"

definition slot_ok :: "(string \<Rightarrow> string list) \<Rightarrow> received \<Rightarrow> PendingMessage \<Rightarrow> bool" where
  "slot_ok parts K p \<longleftrightarrow> pm_sum p = int (length (parts (pm_msg_id p)))
     \<and> pm_parts p = parts_view (parts (pm_msg_id p)) (K (pm_msg_id p)) \<and> K (pm_msg_id p) \<noteq> {}"

definition pending_ids :: "PendingMessage option list \<Rightarrow> string set" where
  "pending_ids ps = {pm_msg_id p |p. Some p \<in> set ps}"

definition pending_inv :: "(string \<Rightarrow> string list) \<Rightarrow> received \<Rightarrow> PendingMessage option list \<Rightarrow> bool" where
  [inv_defs]: "pending_inv parts K ps \<longleftrightarrow> length ps = 16 \<and> (\<forall>p. Some p \<in> set ps \<longrightarrow> slot_ok parts K p)
     \<and> (\<forall>i j p q. i < 16 \<longrightarrow> j < 16 \<longrightarrow> ps ! i = Some p \<longrightarrow> ps ! j = Some q \<longrightarrow> pm_msg_id p = pm_msg_id q \<longrightarrow> i = j)
     \<and> (\<forall>m. K m \<noteq> {} \<longrightarrow> m \<in> pending_ids ps) \<and> (\<forall>m. K m \<subset> {..<length (parts m)} \<or> K m = {})"

lemma parts_view_update:
  "k < length ps \<Longrightarrow> (parts_view ps K)[k := Some (ps ! k)] = parts_view ps (insert k K)"
  by (rule nth_equalityI) (auto simp: parts_view_def nth_list_update)

lemma parts_view_empty: "parts_view ps {} = replicate (length ps) None"
  by (rule nth_equalityI) (auto simp: parts_view_def)

lemma parts_view_missing:
  "K \<subseteq> {..<length ps} \<Longrightarrow> list_ex (\<lambda>x. x = None) (parts_view ps K) \<longleftrightarrow> K \<noteq> {..<length ps}"
  by (auto simp: parts_view_def list_ex_iff)

lemma parts_view_all: "concat (map the (parts_view ps {..<length ps})) = concat ps"
proof -
  have "map the (parts_view ps {..<length ps}) = ps" by (rule nth_equalityI) (simp_all add: parts_view_def)
  then show ?thesis by simp
qed

lemma free_slot:
  assumes "pending_inv parts K ps" and "finite M" "card M \<le> 16" and "{m. K m \<noteq> {}} \<subseteq> M" "m \<in> M" "K m = {}"
  shows "None \<in> set ps"
proof (rule ccontr)
  assume no: "None \<notin> set ps"
  let ?id = "\<lambda>i. pm_msg_id (the (ps ! i))"
  have len: "length ps = 16" using assms(1) by (simp add: pending_inv_def)
  have some: "ps ! i = Some (the (ps ! i))" if "i < 16" for i
    using no that len by (metis nth_mem option.collapse)
  have "inj_on ?id {..<16}"
  proof (rule inj_onI)
    fix i j assume "i \<in> {..<16 :: nat}" "j \<in> {..<16}" "?id i = ?id j"
    then show "i = j" using assms(1) some [of i] some [of j] unfolding pending_inv_def by (metis lessThan_iff)
  qed
  then have card: "card (?id ` {..<16}) = 16" by (simp add: card_image)
  have "?id ` {..<16} \<subseteq> M - {m}"
  proof
    fix x assume "x \<in> ?id ` {..<16}"
    then obtain i where i: "i < 16" "x = ?id i" by auto
    then have "Some (the (ps ! i)) \<in> set ps" using some [of i] len by (metis nth_mem)
    then have "K x \<noteq> {}" using assms(1) i by (auto simp: pending_inv_def slot_ok_def)
    with assms(4,6) show "x \<in> M - {m}" by auto
  qed
  then have "16 \<le> card (M - {m})" using card assms(2) by (metis card_mono finite_Diff)
  with assms(2,3,5) show False by simp
qed

definition slot_for :: "string \<Rightarrow> PendingMessage option list \<Rightarrow> nat \<Rightarrow> bool" where
  "slot_for m ps i \<longleftrightarrow> i < 16 \<and> (ps ! i = None \<and> m \<notin> pending_ids ps \<or> (\<exists>p. ps ! i = Some p \<and> pm_msg_id p = m))"

lemma other_slot:
  assumes "pending_inv parts K ps" "slot_for m ps i" "j < 16" "j \<noteq> i" "ps ! j = Some q"
  shows "pm_msg_id q \<noteq> m"
proof
  assume q: "pm_msg_id q = m"
  have "Some q \<in> set ps" using assms(1,3,5) by (metis nth_mem pending_inv_def)
  with q have "m \<in> pending_ids ps" by (auto simp: pending_ids_def)
  with assms q show False unfolding slot_for_def pending_inv_def by metis
qed

lemma slot_ok_other: "slot_ok parts K q \<Longrightarrow> pm_msg_id q \<noteq> m \<Longrightarrow> slot_ok parts (K(m := S)) q"
  by (simp add: slot_ok_def)

lemma inv_store:
  assumes inv: "pending_inv parts K ps" and i: "slot_for m ps i"
    and new: "case slot of None \<Rightarrow> S = {} | Some p \<Rightarrow> pm_msg_id p = m \<and> slot_ok parts (K(m := S)) p"
    and S: "S \<subset> {..<length (parts m)} \<or> S = {}"
  shows "pending_inv parts (K(m := S)) (ps[i := slot])"
proof -
  have len: "length ps = 16" using inv by (simp add: pending_inv_def)
  have at: "(ps[i := slot]) ! j = (if j = i then slot else ps ! j)" if "j < 16" for j
    using that len i by (simp add: slot_for_def)
  have ok: "slot_ok parts (K(m := S)) q" if q: "Some q \<in> set (ps[i := slot])" for q
  proof -
    obtain j where j: "j < 16" "(ps[i := slot]) ! j = Some q" using q len by (auto simp: in_set_conv_nth)
    show ?thesis
    proof (cases "j = i")
      case True
      with j at new show ?thesis by simp
    next
      case False
      with j at have qj: "ps ! j = Some q" by simp
      then have "Some q \<in> set ps" using j len by (metis nth_mem)
      with inv have "slot_ok parts K q" by (simp add: pending_inv_def)
      with other_slot [OF inv i j(1) False qj] show ?thesis by (rule slot_ok_other [rotated])
    qed
  qed
  have uniq: "j = l" if "j < 16" "l < 16" "(ps[i := slot]) ! j = Some p" "(ps[i := slot]) ! l = Some q" "pm_msg_id p = pm_msg_id q" for j l p q
  proof (cases "j = i \<or> l = i")
    case True
    then show ?thesis using that at new other_slot [OF inv i] by (auto split: if_splits)
  next
    case False
    with that at inv show ?thesis unfolding pending_inv_def by metis
  qed
  have cover: "x \<in> pending_ids (ps[i := slot])" if "(K(m := S)) x \<noteq> {}" for x
  proof (cases "x = m")
    case True
    with that new obtain p where "slot = Some p" "pm_msg_id p = m" by (auto split: option.splits)
    moreover have "slot \<in> set (ps[i := slot])" using i len by (auto simp: slot_for_def set_update_memI)
    ultimately show ?thesis using True by (auto simp: pending_ids_def)
  next
    case False
    with that have "K x \<noteq> {}" by simp
    with inv have "x \<in> pending_ids ps" by (simp add: pending_inv_def)
    then obtain q where q: "Some q \<in> set ps" "pm_msg_id q = x" by (auto simp: pending_ids_def)
    then obtain j where j: "j < 16" "ps ! j = Some q" using len by (auto simp: in_set_conv_nth)
    have "j \<noteq> i" using i j q False by (auto simp: slot_for_def)
    then have "Some q \<in> set (ps[i := slot])" using j len at by (metis length_list_update nth_mem)
    with q show ?thesis by (auto simp: pending_ids_def)
  qed
  show ?thesis
    unfolding pending_inv_def using inv ok uniq cover S len by (auto simp: pending_inv_def)
qed

lemma not_pending: "pending_inv parts K ps \<Longrightarrow> m \<notin> pending_ids ps \<Longrightarrow> K m = {}"
  unfolding pending_inv_def by metis

lemma find_slot_for:
  assumes inv: "pending_inv parts K ps" and free: "m \<notin> pending_ids ps \<Longrightarrow> None \<in> set ps"
  shows "slot_for m ps (find_slot m ps)"
proof -
  have len: "length ps = 16" using inv by (simp add: pending_inv_def)
  have ids: "(\<exists>x \<in> set ps. is_message m x) \<longleftrightarrow> m \<in> pending_ids ps"
    by (auto simp: is_message_def pending_ids_def split: option.splits)
  show ?thesis
  proof (cases "first_index (is_message m) ps")
    case (Some i)
    with first_index_Some [OF Some] len show ?thesis
      by (auto simp: find_slot_def slot_for_def is_message_def split: option.splits)
  next
    case None
    then have m: "m \<notin> pending_ids ps" using ids by (simp add: first_index_None)
    then obtain i where i: "first_index (\<lambda>slot. slot = None) ps = Some i"
      using free by (cases "first_index (\<lambda>slot. slot = None) ps") (auto simp: first_index_None)
    with first_index_Some [OF i] None m len show ?thesis by (simp add: find_slot_def slot_for_def)
  qed
qed

definition ample :: "feishu_env \<Rightarrow> bool" where
  "ample env \<longleftrightarrow> fe_strdup env \<and> (\<forall>n. fe_malloc env n)"

lemma claim_slot_view:
  assumes inv: "pending_inv parts K ps" and i: "slot_for m ps i" and env: "ample env"
  shows "\<exists>slot. claim_slot env m (int (length (parts m))) (ps ! i) = Some slot \<and> pm_msg_id slot = m
    \<and> pm_sum slot = int (length (parts m)) \<and> pm_parts slot = parts_view (parts m) (K m)"
proof (cases "ps ! i")
  case None
  with i have "m \<notin> pending_ids ps" by (auto simp: slot_for_def)
  with inv have "K m = {}" by (auto simp: pending_inv_def)
  with None env show ?thesis by (simp add: claim_slot_def ample_def parts_view_empty)
next
  case (Some p)
  then have p: "pm_msg_id p = m" "Some p \<in> set ps"
    using i inv unfolding slot_for_def pending_inv_def by (simp, metis nth_mem)
  with inv have "slot_ok parts K p" by (simp add: pending_inv_def)
  with p Some show ?thesis by (simp add: claim_slot_def slot_ok_def)
qed

lemma combine_part_refines:
  assumes inv: "pending_inv parts K (fw_pending ws)" and env: "ample env"
    and k: "k < length (parts m)" "2 \<le> length (parts m)"
    and M: "finite M" "card M \<le> 16" "{m. K m \<noteq> {}} \<subseteq> M" "m \<in> M"
  shows "\<exists>ws'. combine_part env parts (m, k) ws = (fst (receive_part parts (m, k) K), ws')
    \<and> pending_inv parts (snd (receive_part parts (m, k) K)) (fw_pending ws')"
proof -
  let ?ps = "fw_pending ws" and ?n = "length (parts m)" and ?S = "insert k (K m)"
  let ?i = "find_slot m ?ps"
  have "m \<notin> pending_ids ?ps \<Longrightarrow> None \<in> set ?ps"
    using free_slot [OF inv M] not_pending [OF inv] by blast
  then have i: "slot_for m ?ps ?i" by (rule find_slot_for [OF inv])
  obtain slot where slot: "claim_slot env m (int ?n) (?ps ! ?i) = Some slot" "pm_msg_id slot = m"
      "pm_sum slot = int ?n" "pm_parts slot = parts_view (parts m) (K m)"
    using claim_slot_view [OF inv i env] by blast
  have K: "K m \<subseteq> {..<?n}" using inv by (auto simp: pending_inv_def)
  then have S: "?S \<subseteq> {..<?n}" using k by auto
  let ?slot = "slot\<lparr>pm_parts := parts_view (parts m) ?S\<rparr>"
  have c: "combine_part env parts (m, k) ws =
      (if ?S \<noteq> {..<?n} then (None, ws\<lparr>fw_pending := ?ps[?i := Some ?slot]\<rparr>)
       else (Some (concat (map the (parts_view (parts m) ?S))), ws\<lparr>fw_pending := ?ps[?i := None]\<rparr>))"
    using k env slot parts_view_missing [OF S]
    by (simp add: combine_part_def combine_payload_def Let_def ample_def parts_view_update)
  show ?thesis
  proof (cases "?S = {..<?n}")
    case True
    have "pending_inv parts (K(m := {})) (?ps[?i := None])" by (rule inv_store [OF inv i]) auto
    with True c show ?thesis by (simp add: receive_part_def parts_view_all)
  next
    case False
    have "pending_inv parts (K(m := ?S)) (?ps[?i := Some ?slot])"
      by (rule inv_store [OF inv i]) (use slot S False in \<open>auto simp: slot_ok_def\<close>)
    with False c show ?thesis by (simp add: receive_part_def)
  qed
qed

lemma run_steps_Cons: "fst (run_steps step (a # as) s) = fst (step a s) # fst (run_steps step as (snd (step a s)))"
  by (simp split: prod.splits)

lemma run_steps_refines:
  assumes "pending_inv parts K (fw_pending ws)" and "ample env"
    and "\<forall>(m, k) \<in> set as. k < length (parts m) \<and> 2 \<le> length (parts m)"
    and "finite M" "card M \<le> 16" "{m. K m \<noteq> {}} \<union> fst ` set as \<subseteq> M"
  shows "fst (run_steps (combine_part env parts) as ws) = fst (run_steps (receive_part parts) as K)"
  using assms(1,3,6)
proof (induction as arbitrary: K ws)
  case (Cons a as)
  obtain m k where a: "a = (m, k)" by (cases a)
  with Cons.prems have k: "k < length (parts m)" "2 \<le> length (parts m)" and m: "m \<in> M" "{m. K m \<noteq> {}} \<subseteq> M" by auto
  obtain ws' where ws': "combine_part env parts (m, k) ws = (fst (receive_part parts (m, k) K), ws')"
    "pending_inv parts (snd (receive_part parts (m, k) K)) (fw_pending ws')"
    using combine_part_refines [OF Cons.prems(1) assms(2) k assms(4,5) m(2,1)] by blast
  let ?K = "snd (receive_part parts (m, k) K)"
  have "{x. ?K x \<noteq> {}} \<subseteq> insert m {x. K x \<noteq> {}}" by (auto simp: receive_part_def split: if_splits)
  moreover have "insert m {x. K x \<noteq> {}} \<subseteq> M" "fst ` set as \<subseteq> M" using Cons.prems(3) a m by auto
  ultimately have "{x. ?K x \<noteq> {}} \<union> fst ` set as \<subseteq> M" by (meson Un_least subset_trans)
  from Cons.IH [OF ws'(2) _ this] Cons.prems(2) have
    "fst (run_steps (combine_part env parts) as ws') = fst (run_steps (receive_part parts) as ?K)" by simp
  then show ?case using ws'(1) by (simp only: a run_steps_Cons fst_conv snd_conv)
qed simp

lemma pending_inv_create: "pending_inv parts (\<lambda>m. {}) (fw_pending (feishu_ws_create t))"
  by (auto simp: pending_inv_def feishu_ws_create_def)

text \<open>Claim C29. Messages that arrive in parts are put together correctly: for every order and interleaving of the parts of at most 16
  different messages, repetitions included, \<open>combine_payload\<close> returns what the abstract machine
  returns that keeps a set of part numbers for each message: nothing until the last missing part is there, then
  all parts in their order.\<close>

theorem combine_payload_refines:
  assumes "ample env" and "\<forall>(m, k) \<in> set as. k < length (parts m) \<and> 2 \<le> length (parts m)" and "card (fst ` set as) \<le> 16"
  shows "fst (run_steps (combine_part env parts) as (feishu_ws_create t)) = fst (run_steps (receive_part parts) as (\<lambda>m. {}))"
  using run_steps_refines [OF pending_inv_create assms(1,2) _ assms(3)] by simp

definition demo_parts :: "string \<Rightarrow> string list" where
  "demo_parts m = (if m = ''a'' then [''he'', ''llo''] else [''x'', ''y'', ''z''])"

definition demo_feishu_env :: feishu_env where
  "demo_feishu_env = \<lparr>fe_malloc = (\<lambda>n. True), fe_strdup = True, fe_now_ms = 5, fe_end_ms = 6, fe_parse = (\<lambda>s. None), fe_print = (\<lambda>j. None)\<rparr>"

theorem combine_payload_refines_witness:
  "fst (run_steps (combine_part demo_feishu_env demo_parts) [(''b'', 2), (''a'', 1), (''b'', 0), (''a'', 0), (''b'', 2), (''b'', 1)] (feishu_ws_create 0))
   = [None, None, None, Some ''hello'', None, Some ''xyz'']"
proof -
  have r: "receive_part demo_parts a K = (case a of (m, k) \<Rightarrow>
      if (\<forall>j < length (demo_parts m). j = k \<or> j \<in> K m) \<and> (\<forall>j \<in> insert k (K m). j < length (demo_parts m))
      then (Some (concat (demo_parts m)), K(m := {})) else (None, K(m := insert k (K m))))" for a K
    by (auto simp: receive_part_def split: prod.splits)
  have env: "ample demo_feishu_env" by (simp add: ample_def demo_feishu_env_def)
  let ?as = "[(''b'', 2), (''a'', 1), (''b'', 0), (''a'', 0), (''b'', 2), (''b'', 1)]"
  have "fst (run_steps (receive_part demo_parts) ?as (\<lambda>m. {})) = [None, None, None, Some ''hello'', None, Some ''xyz'']"
    by (simp add: r demo_parts_def numeral_2_eq_2 numeral_3_eq_3 less_Suc_eq all_conj_distrib)
  moreover have "\<forall>(m, k) \<in> set ?as. k < length (demo_parts m) \<and> 2 \<le> length (demo_parts m)" by (simp add: demo_parts_def)
  moreover have "card (fst ` set ?as) \<le> 16" using card_length [of "map fst ?as"] by (simp add: insert_commute)
  ultimately show ?thesis using combine_payload_refines [OF env, of ?as demo_parts 0] by (simp only:)
qed

section \<open>Events that were seen\<close>

text \<open>The abstract view: the last 20 accepted ids, the newest first.\<close>

definition seen_step :: "string \<Rightarrow> string list \<Rightarrow> bool \<times> string list" where
  "seen_step i w = (if i \<in> set w then (True, w) else (False, i # take 19 w))"

definition seen_view :: "string list \<Rightarrow> string option list" where
  "seen_view w = replicate (20 - length w) None @ map Some (rev w)"

definition seen_rel :: "FeishuWS \<Rightarrow> string list \<Rightarrow> bool" where
  "seen_rel ws w \<longleftrightarrow> length (fw_recent_msg_ids ws) = 20 \<and> fw_msg_id_idx ws < 20 \<and> length w \<le> 20
     \<and> rotate (fw_msg_id_idx ws) (fw_recent_msg_ids ws) = seen_view w"

lemma rotate_overwrite:
  assumes "i < length xs"
  shows "rotate (Suc i mod length xs) (xs[i := x]) = tl (rotate i xs) @ [x]"
proof -
  let ?pre = "take i xs" and ?post = "drop (Suc i) xs"
  have xs: "xs = ?pre @ xs ! i # ?post" by (rule id_take_nth_drop [OF assms])
  have len: "length ?pre = i" using assms by simp
  have "rotate i xs = rotate (length ?pre) (?pre @ xs ! i # ?post)" using xs len by simp
  then have l: "rotate i xs = xs ! i # ?post @ ?pre" by (simp only: rotate_append) simp
  have "rotate (Suc i mod length xs) (xs[i := x]) = rotate (Suc i) (xs[i := x])"
    by (metis length_list_update rotate_conv_mod)
  also have "\<dots> = rotate (length (?pre @ [x])) ((?pre @ [x]) @ ?post)" using assms by (simp add: upd_conv_take_nth_drop)
  also have "\<dots> = ?post @ ?pre @ [x]" by (simp only: rotate_append)
  finally show ?thesis by (simp add: l)
qed

lemma seen_view_push: "length w \<le> 20 \<Longrightarrow> tl (seen_view w) @ [Some i] = seen_view (i # take 19 w)"
proof (cases "length w = 20")
  case True
  then obtain v y where "w = v @ [y]" "length v = 19" by (cases w rule: rev_cases) auto
  then show ?thesis by (simp add: seen_view_def)
next
  case False
  assume "length w \<le> 20"
  with False have l: "length w \<le> 19" by simp
  then have "20 - length w = Suc (19 - length w)" by simp
  with l show ?thesis by (simp add: seen_view_def)
qed

lemma is_duplicate_refines:
  assumes "seen_rel ws w"
  shows "\<exists>ws'. is_duplicate_event True i ws = (fst (seen_step i w), ws') \<and> seen_rel ws' (snd (seen_step i w))"
proof -
  let ?r = "fw_recent_msg_ids ws" and ?n = "fw_msg_id_idx ws"
  have r: "rotate ?n ?r = seen_view w" "length ?r = 20" "?n < 20" "length w \<le> 20" using assms by (simp_all add: seen_rel_def)
  have "set ?r = set (seen_view w)" by (metis r(1) set_rotate)
  then have m: "Some i \<in> set ?r \<longleftrightarrow> i \<in> set w" by (auto simp: seen_view_def)
  show ?thesis
  proof (cases "i \<in> set w")
    case True
    with m assms show ?thesis by (auto simp: is_duplicate_event_def seen_step_def list_ex_iff)
  next
    case False
    have "rotate (Suc ?n mod 20) (?r[?n := Some i]) = seen_view (i # take 19 w)"
      using rotate_overwrite [of ?n ?r "Some i"] r seen_view_push [OF r(4), of i] by simp
    with False m r show ?thesis by (auto simp: is_duplicate_event_def seen_step_def list_ex_iff seen_rel_def)
  qed
qed

lemma run_seen_refines:
  "seen_rel ws w \<Longrightarrow> fst (run_steps (is_duplicate_event True) is ws) = fst (run_steps seen_step is w)"
proof (induction "is" arbitrary: ws w)
  case (Cons i "is")
  obtain ws' where "is_duplicate_event True i ws = (fst (seen_step i w), ws')" "seen_rel ws' (snd (seen_step i w))"
    using is_duplicate_refines [OF Cons.prems] by blast
  with Cons.IH show ?case by (simp only: run_steps_Cons fst_conv snd_conv)
qed simp

text \<open>An event is taken as new exactly when it is not among the last 20 events that were taken as new: the ring of 20 ids behaves
  like a list of the last 20 accepted ids for every sequence of events.\<close>

theorem duplicate_window:
  "fst (run_steps (is_duplicate_event True) is (feishu_ws_create t)) = fst (run_steps seen_step is [])"
  by (rule run_seen_refines) (simp add: seen_rel_def feishu_ws_create_def seen_view_def)

end
