(* ===== verification/FileSystem.thy ===== *)
theory FileSystem
  imports CLib
begin

text \<open>
  The file system as the C library shows it, as far as the tools depend on it: directories, regular files and symbolic
  links, named by the list of the names from the root. \<open>walk\<close> is the path resolution of POSIX; at most 40 links are
  followed. \<open>realpath\<close>, \<open>fopen\<close>, \<open>mkdir\<close> and \<open>opendir\<close> are built on it. \<open>cwd\<close> is the working directory of the process.
  Permissions are predicates on resolved paths.
\<close>

datatype node = Dir | File string | Link string

type_synonym path = "string list"
type_synonym fsys = "path \<rightharpoonup> node"

abbreviation slash :: char where
  "slash \<equiv> CHR ''/''"

section \<open>Path texts\<close>

definition absolute :: "string \<Rightarrow> bool" where
  "absolute p = starts_with [slash] p"

text \<open>The names of a path; a slash at the end asks for a directory, as the name of the directory itself does.\<close>

definition components :: "string \<Rightarrow> path" where
  "components p = strtok slash p @ (if p \<noteq> [] \<and> last p = slash then [''.''] else [])"

definition render :: "path \<Rightarrow> string" where
  "render p = (if p = [] then [slash] else concat (map (Cons slash) p))"

definition good_name :: "string \<Rightarrow> bool" where
  "good_name c = (c \<noteq> [] \<and> slash \<notin> set c \<and> c \<noteq> ''.'' \<and> c \<noteq> ''..'')"

section \<open>Path resolution\<close>

definition SYMLOOP_MAX :: nat where
  "SYMLOOP_MAX = 40"

definition PATH_MAX :: nat where
  "PATH_MAX = 4096"

definition start_dir :: "string \<Rightarrow> path \<Rightarrow> path" where
  "start_dir p cur = (if absolute p then [] else cur)"

text \<open>With \<open>create\<close> the last name may be missing, as for \<open>open\<close> with \<open>O_CREAT\<close>.\<close>

function walk :: "bool \<Rightarrow> fsys \<Rightarrow> nat \<Rightarrow> path \<Rightarrow> path \<Rightarrow> path option" where
  "walk create fs links cur [] = Some cur"
| "walk create fs links cur (c # cs) =
     (if fs cur \<noteq> Some Dir then None
      else if c = ''.'' then walk create fs links cur cs
      else if c = ''..'' then walk create fs links (butlast cur) cs
      else (case fs (cur @ [c]) of
              None \<Rightarrow> if create \<and> cs = [] then Some (cur @ [c]) else None
            | Some (Link target) \<Rightarrow>
                (case links of
                   0 \<Rightarrow> None
                 | Suc n \<Rightarrow> if target = [] then None
                            else walk create fs n (start_dir target cur) (components target @ cs))
            | Some _ \<Rightarrow> walk create fs links (cur @ [c]) cs))"
  by pat_completeness auto
termination
  by (relation "measures [\<lambda>(create, fs, links, cur, cs). links, \<lambda>(create, fs, links, cur, cs). length cs]") auto

definition resolve :: "bool \<Rightarrow> path \<Rightarrow> fsys \<Rightarrow> string \<Rightarrow> path option" where
  "resolve create cwd fs p =
     (if p = [] \<or> PATH_MAX \<le> length p then None
      else walk create fs SYMLOOP_MAX (start_dir p cwd) (components p))"

definition realpath :: "path \<Rightarrow> fsys \<Rightarrow> string \<Rightarrow> string option" where
  "realpath cwd fs p =
     (case resolve False cwd fs p of
        None \<Rightarrow> None
      | Some q \<Rightarrow> if length (render q) < PATH_MAX then Some (render q) else None)"

section \<open>Operations\<close>

definition open_read :: "(path \<Rightarrow> bool) \<Rightarrow> path \<Rightarrow> fsys \<Rightarrow> string \<Rightarrow> path option" where
  "open_read may cwd fs p =
     (case resolve False cwd fs p of None \<Rightarrow> None | Some q \<Rightarrow> if may q then Some q else None)"

text \<open>Opening for writing creates the file or cuts it to length 0.\<close>

definition open_write :: "(path \<Rightarrow> bool) \<Rightarrow> path \<Rightarrow> fsys \<Rightarrow> string \<Rightarrow> path option" where
  "open_write may cwd fs p =
     (case resolve True cwd fs p of
        None \<Rightarrow> None
      | Some q \<Rightarrow> if may q \<and> fs q \<noteq> Some Dir then Some q else None)"

text \<open>\<open>mkdir\<close> does not follow the last name.\<close>

definition mkdir :: "(path \<Rightarrow> bool) \<Rightarrow> path \<Rightarrow> fsys \<Rightarrow> string \<Rightarrow> fsys" where
  "mkdir may cwd fs p =
     (let cs = strtok slash p
      in if p = [] \<or> PATH_MAX \<le> length p \<or> cs = [] then fs
         else (case walk False fs SYMLOOP_MAX (start_dir p cwd) (butlast cs) of
                 None \<Rightarrow> fs
               | Some d \<Rightarrow>
                   if fs d = Some Dir \<and> last cs \<noteq> ''.'' \<and> last cs \<noteq> ''..'' \<and> fs (d @ [last cs]) = None \<and> may (d @ [last cs])
                   then fs(d @ [last cs] \<mapsto> Dir) else fs))"

section \<open>Well-formed file systems\<close>

text \<open>Every node but the root has a proper name and lies in a directory.\<close>

definition wf_fs :: "fsys \<Rightarrow> bool" where
  "wf_fs fs = (fs [] = Some Dir \<and> (\<forall>p c. fs (p @ [c]) \<noteq> None \<longrightarrow> good_name c \<and> fs p = Some Dir))"

text \<open>A resolved path is that of a node that is no link.\<close>

definition resolved :: "fsys \<Rightarrow> path \<Rightarrow> bool" where
  "resolved fs p = (case fs p of Some Dir \<Rightarrow> True | Some (File _) \<Rightarrow> True | _ \<Rightarrow> False)"

lemma resolvedI: "fs p = Some Dir \<Longrightarrow> resolved fs p" "fs p = Some (File s) \<Longrightarrow> resolved fs p"
  by (simp_all add: resolved_def)

lemma wf_fs_root: "wf_fs fs \<Longrightarrow> fs [] = Some Dir"
  by (simp add: wf_fs_def)

lemma wf_fs_parent: "wf_fs fs \<Longrightarrow> fs (p @ q) = Some n \<Longrightarrow> q \<noteq> [] \<Longrightarrow> fs p = Some Dir"
proof (induction q arbitrary: n rule: rev_induct)
  case Nil
  then show ?case by simp
next
  case (snoc c q)
  then have "fs (p @ q) = Some Dir" by (metis append.assoc option.distinct(1) wf_fs_def)
  with snoc show ?case by (cases "q = []") auto
qed

lemma wf_fs_names: "wf_fs fs \<Longrightarrow> fs p = Some n \<Longrightarrow> c \<in> set p \<Longrightarrow> good_name c"
proof (induction p arbitrary: n rule: rev_induct)
  case Nil
  then show ?case by simp
next
  case (snoc d p)
  then have "good_name d" "fs p = Some Dir" by (auto simp: wf_fs_def)
  with snoc show ?case by auto
qed

lemma resolved_names: "wf_fs fs \<Longrightarrow> resolved fs p \<Longrightarrow> c \<in> set p \<Longrightarrow> good_name c"
  by (cases "fs p") (auto simp: resolved_def intro: wf_fs_names)

text \<open>Path resolution ends at a resolved path, or at the name that is to be created in a directory.\<close>

lemma wf_fs_butlast: "wf_fs fs \<Longrightarrow> fs p = Some n \<Longrightarrow> p \<noteq> [] \<Longrightarrow> fs (butlast p) = Some Dir"
  by (metis append_butlast_last_id not_Cons_self2 wf_fs_parent)

lemma resolved_butlast: "wf_fs fs \<Longrightarrow> fs p = Some Dir \<Longrightarrow> resolved fs (butlast p)"
  by (cases "p = []") (auto simp: resolved_def dest: wf_fs_butlast)

definition creatable :: "fsys \<Rightarrow> path \<Rightarrow> bool" where
  "creatable fs p = (fs p = None \<and> p \<noteq> [] \<and> fs (butlast p) = Some Dir)"

lemma walk_result:
  "wf_fs fs \<Longrightarrow> resolved fs cur \<Longrightarrow> walk create fs n cur cs = Some p \<Longrightarrow> resolved fs p \<or> create \<and> creatable fs p"
proof (induction create fs n cur cs rule: walk.induct)
  case (1 create fs links cur)
  then show ?case by simp
next
  case (2 create fs links cur c cs)
  then have dir: "fs cur = Some Dir" by (simp split: if_splits)
  consider (dot) "c = ''.''" | (dotdot) "c = ''..''" | (name) "c \<noteq> ''.''" "c \<noteq> ''..''" by blast
  then show ?case
  proof cases
    case dot
    with 2 dir show ?thesis by simp
  next
    case dotdot
    with 2(2) dir "2.prems" resolved_butlast [OF "2.prems"(1) dir] show ?thesis by simp
  next
    case name
    show ?thesis
    proof (cases "fs (cur @ [c])")
      case None
      with "2.prems"(3) name dir show ?thesis by (auto simp: creatable_def split: if_splits)
    next
      case (Some nd)
      show ?thesis
      proof (cases nd)
        case (Link t)
        with "2.prems"(3) name dir Some obtain m where "links = Suc m" "t \<noteq> []"
          by (auto split: nat.splits if_splits)
        with "2.IH" "2.prems" name dir Some Link wf_fs_root [OF "2.prems"(1)] show ?thesis
          by (simp add: resolved_def start_dir_def split: if_splits)
      qed (use 2 name dir Some in \<open>simp_all add: resolved_def\<close>)
    qed
  qed
qed

lemma resolved_prefix:
  assumes "wf_fs fs" and "resolved fs (p @ q)"
  shows "resolved fs p" and "q \<noteq> [] \<Longrightarrow> fs p = Some Dir"
proof -
  obtain n where n: "fs (p @ q) = Some n" using assms(2) by (cases "fs (p @ q)") (auto simp: resolved_def)
  show "fs p = Some Dir" if "q \<noteq> []" using wf_fs_parent [OF assms(1) n that] .
  then show "resolved fs p" using assms(2) by (cases "q = []") (auto simp: resolved_def)
qed

lemma walk_append:
  "wf_fs fs \<Longrightarrow> resolved fs (cur @ p) \<Longrightarrow> walk create fs n cur (p @ cs) = walk create fs n (cur @ p) cs"
proof (induction p arbitrary: cur)
  case Nil
  then show ?case by simp
next
  case (Cons c p)
  have "fs cur = Some Dir" using resolved_prefix(2) [of fs cur "c # p"] Cons.prems by simp
  moreover have "good_name c" using resolved_names [of fs "cur @ c # p" c] Cons.prems by simp
  moreover have "resolved fs (cur @ [c])" using resolved_prefix(1) [of fs "cur @ [c]" p] Cons.prems by simp
  ultimately show ?case
    using Cons.IH [of "cur @ [c]"] Cons.prems by (auto simp: good_name_def resolved_def split: option.splits node.splits)
qed

text \<open>The path of a directory or of a file is resolved to itself.\<close>

lemma walk_resolved:
  "wf_fs fs \<Longrightarrow> resolved fs (cur @ cs) \<Longrightarrow> walk create fs n cur cs = Some (cur @ cs)"
  using walk_append [of fs cur cs create n "[]"] by simp

section \<open>Path texts and paths\<close>

lemma strtok_slash: "strtok d (d # s) = strtok d s"
  by (subst (1 2) strtok.simps) simp

lemma strtok_Nil [simp]: "strtok d [] = []"
  by (subst strtok.simps) simp

text \<open>What stands before a slash or the end is a name of its own.\<close>

lemma strtok_name:
  assumes "good_name c" and "r = [] \<or> hd r = slash"
  shows "strtok slash (c @ r) = c # strtok slash r"
  using assms strtok_append [of slash c] by (cases r) (auto simp: good_name_def strtok_slash)

lemma hd_concat_slash: "p \<noteq> [] \<Longrightarrow> hd (concat (map (Cons slash) p) @ r) = slash"
  by (cases p) auto

lemma strtok_concat:
  "\<forall>c \<in> set p. good_name c \<Longrightarrow> r = [] \<or> hd r = slash \<Longrightarrow>
     strtok slash (concat (map (Cons slash) p) @ r) = p @ strtok slash r"
proof (induction p)
  case Nil
  then show ?case by simp
next
  case (Cons c p)
  have "concat (map (Cons slash) p) @ r = [] \<or> hd (concat (map (Cons slash) p) @ r) = slash"
    using Cons.prems(2) hd_concat_slash [of p r] by (cases "p = []") auto
  with Cons show ?case by (simp add: strtok_slash strtok_name)
qed

lemma strtok_render:
  "\<forall>c \<in> set p. good_name c \<Longrightarrow> r = [] \<or> hd r = slash \<Longrightarrow> strtok slash (render p @ r) = p @ strtok slash r"
  using strtok_concat [of p r] by (simp add: render_def strtok_slash)

lemma good_name_last: "good_name c \<Longrightarrow> last (slash # c) \<noteq> slash"
  by (metis good_name_def last_ConsR last_in_set)

lemma last_render: "\<forall>c \<in> set p. good_name c \<Longrightarrow> p \<noteq> [] \<Longrightarrow> last (render p) \<noteq> slash"
  by (cases p rule: rev_cases) (simp_all add: render_def good_name_last del: last.simps)

lemma render_nonempty [simp]: "render p \<noteq> []"
  by (cases p) (auto simp: render_def)

lemma components_render: "\<forall>c \<in> set p. good_name c \<Longrightarrow> components (render p) = (if p = [] then [''.''] else p)"
  using strtok_render [of p "[]"] last_render [of p]
  by (cases "p = []") (simp_all add: components_def, simp add: render_def)

lemma absolute_render [simp]: "absolute (render p)"
  by (cases p) (auto simp: absolute_def render_def starts_with_def)

text \<open>The test of the tools: a text that begins with the workspace and goes on with a slash or ends is a path below it.\<close>

lemma render_prefix:
  assumes "\<forall>c \<in> set q. good_name c" and "\<forall>c \<in> set w. good_name c"
    and "starts_with (render w) (render q)" and "drop (length (render w)) (render q) = [] \<or> drop (length (render w)) (render q) ! 0 = slash"
  shows "prefix w q"
proof -
  define r where "r = drop (length (render w)) (render q)"
  have q: "render q = render w @ r" using assms(3) by (metis append_take_drop_id r_def starts_with_def)
  have "r = [] \<or> hd r = slash" using assms(4) by (cases r) (auto simp: r_def [symmetric])
  then have "strtok slash (render q) = w @ strtok slash r" using strtok_render assms(2) q by metis
  moreover have "strtok slash (render q) = q" using strtok_render [OF assms(1), of "[]"] by simp
  ultimately show ?thesis by (simp add: prefix_def)
qed

lemma resolve_render:
  assumes "wf_fs fs" and "resolved fs p" and "length (render p) < PATH_MAX"
  shows "resolve create cwd fs (render p) = Some p"
proof -
  have "components (render p) = (if p = [] then [''.''] else p)"
    using components_render resolved_names [OF assms(1,2)] by blast
  then show ?thesis
    using assms walk_resolved [of fs "[]" p create SYMLOOP_MAX] wf_fs_root [of fs] by (auto simp: resolve_def start_dir_def)
qed

section \<open>Names in an existing directory\<close>

text \<open>The path of a name in a directory: only the name itself may still be a link.\<close>

lemma resolve_name:
  assumes "wf_fs fs" and "resolved fs par" and "good_name f" and "length (render par @ [slash] @ f) < PATH_MAX"
  shows "resolve create cwd fs (render par @ [slash] @ f) = walk create fs SYMLOOP_MAX par [f]"
proof -
  have par: "\<forall>c \<in> set par. good_name c" using resolved_names [OF assms(1,2)] by blast
  have "strtok slash (render par @ [slash] @ f) = par @ [f]"
    using strtok_render [OF par, of "[slash] @ f"] strtok_name [OF assms(3), of "[]"] by (simp add: strtok_slash)
  moreover have "last (render par @ [slash] @ f) \<noteq> slash" using good_name_last [OF assms(3)] by simp
  ultimately have "components (render par @ [slash] @ f) = par @ [f]" by (simp add: components_def)
  moreover have "absolute (render par @ [slash] @ f)" using absolute_render [of par] by (cases "render par") (auto simp: absolute_def starts_with_def)
  ultimately show ?thesis
    using assms walk_append [of fs "[]" par create SYMLOOP_MAX "[f]"] by (simp add: resolve_def start_dir_def)
qed

lemma walk_name:
  assumes "fs par = Some Dir" and "good_name f" and "\<forall>t. fs (par @ [f]) \<noteq> Some (Link t)"
  shows "walk True fs n par [f] = Some (par @ [f])"
  using assms by (cases "fs (par @ [f])") (auto simp: good_name_def split: node.splits)

lemma strtok_skip: "strtok d (dropWhile (\<lambda>c. c = d) s) = strtok d s"
  by (subst (1 2) strtok.simps) simp

lemma strtok_split: "strtok d (a @ d # b) = strtok d a @ strtok d b"
proof (induction d a rule: strtok.induct)
  case (1 d a)
  show ?case
  proof (cases "dropWhile (\<lambda>c. c = d) a")
    case Nil
    then have all: "\<forall>c \<in> set a. c = d" by (simp add: dropWhile_eq_Nil_conv)
    then have "dropWhile (\<lambda>c. c = d) (a @ d # b) = dropWhile (\<lambda>c. c = d) b" by (simp add: dropWhile_append2)
    then have "strtok d (a @ d # b) = strtok d b" by (metis strtok_skip)
    moreover have "strtok d a = []" by (subst strtok.simps) (simp add: Nil)
    ultimately show ?thesis by simp
  next
    case (Cons c cs)
    then have "c \<noteq> d" by (simp add: dropWhile_eq_Cons_conv)
    moreover have "dropWhile (\<lambda>c. c = d) (a @ d # b) = c # cs @ d # b"
      using Cons by (metis append_Cons dropWhile_append dropWhile_eq_Nil_conv list.distinct(1))
    moreover have "takeWhile (\<lambda>c. c \<noteq> d) (cs @ d # b) = takeWhile (\<lambda>c. c \<noteq> d) cs"
      "dropWhile (\<lambda>c. c \<noteq> d) (cs @ d # b) = dropWhile (\<lambda>c. c \<noteq> d) cs @ d # b"
      by (induction cs) auto
    moreover have "strtok d (dropWhile (\<lambda>c. c \<noteq> d) cs @ d # b) = strtok d (dropWhile (\<lambda>c. c \<noteq> d) cs) @ strtok d b"
      using "1.IH" [OF Cons] \<open>c \<noteq> d\<close> by simp
    ultimately show ?thesis
      using Cons by (simp add: strtok.simps [of d "a @ d # b"] strtok.simps [of d a])
  qed
qed

text \<open>Making a directory that exists changes nothing.\<close>

lemma mkdir_existing:
  assumes "wf_fs fs" and "absolute m" and "fs (strtok slash m) = Some n"
  shows "mkdir may cwd fs m = fs"
proof (cases "strtok slash m = []")
  case True
  then show ?thesis by (simp add: mkdir_def)
next
  case False
  then have dir: "fs (butlast (strtok slash m)) = Some Dir" using wf_fs_butlast assms by blast
  then have "walk False fs SYMLOOP_MAX [] (butlast (strtok slash m)) = Some (butlast (strtok slash m))"
    using walk_resolved [of fs "[]"] assms(1) by (simp add: resolved_def)
  with False assms show ?thesis by (simp add: mkdir_def Let_def start_dir_def)
qed

text \<open>What exists is found also when it may be created.\<close>

lemma walk_existing: "walk False fs n cur cs = Some q \<Longrightarrow> walk True fs n cur cs = Some q"
proof (induction False fs n cur cs rule: walk.induct)
  case (1 fs links cur)
  then show ?case by simp
next
  case (2 fs links cur c cs)
  then show ?case by (auto split: if_splits option.splits node.splits nat.splits)
qed

lemma resolve_existing: "resolve False cwd fs p = Some q \<Longrightarrow> resolve True cwd fs p = Some q"
  by (auto simp: resolve_def walk_existing split: if_splits)

text \<open>A file is found under the path with which it was written.\<close>

lemma walk_written:
  "wf_fs fs \<Longrightarrow> resolved fs cur \<Longrightarrow> walk True fs n cur cs = Some q \<Longrightarrow> fs q \<noteq> Some Dir \<Longrightarrow>
     walk False (fs(q \<mapsto> File s)) n cur cs = Some q"
proof (induction True fs n cur cs rule: walk.induct)
  case (1 fs links cur)
  then show ?case by simp
next
  case (2 fs links cur c cs)
  note prems = "2.prems"
  have dir: "fs cur = Some Dir" using prems(3) by (simp split: if_splits)
  then have ne: "cur \<noteq> q" using prems(4) by auto
  have q: "fs q \<noteq> Some (Link t)" for t
    using walk_result [OF prems(1-3)] by (auto simp: resolved_def creatable_def)
  consider (dot) "c = ''.''" | (dotdot) "c = ''..''" | (name) "c \<noteq> ''.''" "c \<noteq> ''..''" by blast
  then show ?case
  proof cases
    case dot
    with 2 dir ne show ?thesis by simp
  next
    case dotdot
    with "2.hyps"(2) prems dir ne resolved_butlast [OF prems(1) dir] show ?thesis by simp
  next
    case name
    show ?thesis
    proof (cases "fs (cur @ [c])")
      case None
      with prems(3) name dir ne show ?thesis by (auto split: if_splits)
    next
      case (Some nd)
      show ?thesis
      proof (cases nd)
        case Dir
        then have "q \<noteq> cur @ [c]" using Some prems(4) by auto
        with 2 name dir ne Some Dir show ?thesis by (simp add: resolved_def)
      next
        case (File t)
        then have "walk True fs links (cur @ [c]) cs = Some q" using prems(3) name dir Some by simp
        then have "cs = [] \<and> q = cur @ [c]" using Some File by (cases cs) auto
        with name dir ne show ?thesis by simp
      next
        case (Link t)
        then have "q \<noteq> cur @ [c]" using Some q by auto
        moreover obtain m where m: "links = Suc m" "t \<noteq> []" "walk True fs m (start_dir t cur) (components t @ cs) = Some q"
          using prems(3) name dir Some Link by (auto split: nat.splits if_splits)
        moreover have "resolved fs (start_dir t cur)"
          using prems(1,2) wf_fs_root [OF prems(1)] by (simp add: start_dir_def resolved_def)
        ultimately show ?thesis using "2.hyps" prems(1,4) name dir ne Some Link by simp
      qed
    qed
  qed
qed

text \<open>Making a directory keeps the file system well-formed, and what was resolved stays resolved.\<close>

lemma wf_fs_mkdir:
  assumes "wf_fs fs" and "fs d = Some Dir" and "good_name c" and "fs (d @ [c]) = None"
  shows "wf_fs (fs(d @ [c] \<mapsto> Dir))"
  unfolding wf_fs_def
proof (intro conjI allI impI)
  show "(fs(d @ [c] \<mapsto> Dir)) [] = Some Dir" using assms(1) by (simp add: wf_fs_def)
next
  fix p e assume "(fs(d @ [c] \<mapsto> Dir)) (p @ [e]) \<noteq> None"
  then have "(p = d \<and> e = c) \<or> (good_name e \<and> fs p = Some Dir)"
    using assms(1) by (auto simp: wf_fs_def split: if_splits)
  with assms show "good_name e" "(fs(d @ [c] \<mapsto> Dir)) p = Some Dir" by auto
qed

lemma mkdir_keeps:
  assumes "wf_fs fs"
  shows "wf_fs (mkdir may cwd fs p) \<and> (\<forall>q. resolved fs q \<longrightarrow> resolved (mkdir may cwd fs p) q)"
proof (cases "mkdir may cwd fs p = fs")
  case False
  then obtain d where d: "fs d = Some Dir" "last (strtok slash p) \<noteq> ''.''" "last (strtok slash p) \<noteq> ''..''"
    "fs (d @ [last (strtok slash p)]) = None" "strtok slash p \<noteq> []" "mkdir may cwd fs p = fs(d @ [last (strtok slash p)] \<mapsto> Dir)"
    by (auto simp: mkdir_def Let_def split: if_splits option.splits)
  then have "good_name (last (strtok slash p))"
    using strtok_nonempty [of "last (strtok slash p)" slash p] by (simp add: good_name_def)
  with wf_fs_mkdir [OF assms d(1) _ d(4)] d(6) show ?thesis by (auto simp: resolved_def)
qed (use assms in simp)

end
