(* ===== verification/FileTools.thy ===== *)
theory FileTools
  imports FileSystem Session ToolValidation
begin

text \<open>
  \<open>src/tools/tools_impl.c\<close>, first part: the context of the tools, the workspace policy, the tools on files and directories
  and the shell tool. A tool gets the file system and returns its error, the text it left in \<open>result\<close> (\<open>None\<close>: not
  touched) and the new file system. \<open>host\<close> is what the process is given by the system: the working directory, permissions, the
  sizes that can be allocated, the entries of a
  directory in the order of \<open>readdir\<close>, what \<open>ftell\<close> says at the end of a directory and what uninitialised memory holds. A file does not
  change between the check of its path and its use, and the disk has room for what is written. A \<open>tool_fault\<close> is undefined behaviour.
\<close>

record host =
  h_cwd :: path
  h_may_read :: "path \<Rightarrow> bool"
  h_may_write :: "path \<Rightarrow> bool"
  h_malloc :: "nat \<Rightarrow> bool"
  h_dir_end :: nat
  h_garbage :: "nat \<Rightarrow> string"
  h_readdir :: "fsys \<Rightarrow> path \<Rightarrow> string list"
  h_stale_dir :: "string \<Rightarrow> bool"

datatype tool_fault = Read_Past_End

section \<open>The context\<close>

record ToolsConfig =
  tc_exec_timeout :: int
  tc_exec_restrict_to_workspace :: bool
  tc_restrict_to_workspace :: bool

text \<open>
  The components that the context points to are arguments of the tools that use them; \<open>tx_channels\<close> is what
  \<open>plugin_manager_get_channels\<close> returns, \<open>None\<close> without a plugin manager.
\<close>

record ToolContext =
  tx_magic :: nat
  tx_config :: "ToolsConfig option"
  tx_channels :: "string option list option"
  tx_workspace :: "string option"
  tx_current_channel :: string
  tx_current_chat_id :: string

definition TOOL_CONTEXT_MAGIC :: nat where
  "TOOL_CONTEXT_MAGIC = 0x50474E31"

definition is_registered_channel :: "ToolContext option \<Rightarrow> string option \<Rightarrow> bool" where
  "is_registered_channel ctx channel =
     (case (ctx, channel) of
        (Some c, Some ch) \<Rightarrow> (case tx_channels c of None \<Rightarrow> False | Some chs \<Rightarrow> list_ex (\<lambda>x. x = Some ch) chs)
      | _ \<Rightarrow> False)"

definition resolve_channel :: "ToolContext option \<Rightarrow> string option \<Rightarrow> string" where
  "resolve_channel ctx channel =
     (if \<not> is_placeholder_value channel \<and> is_registered_channel ctx channel then the channel
      else (case ctx of
              Some c \<Rightarrow> if tx_current_channel c \<noteq> [] then tx_current_channel c else ''cli''
            | None \<Rightarrow> ''cli''))"

definition resolve_chat_id :: "ToolContext option \<Rightarrow> string option \<Rightarrow> string" where
  "resolve_chat_id ctx chat_id =
     (if \<not> is_placeholder_value chat_id then the chat_id
      else (case ctx of
              Some c \<Rightarrow> if tx_current_chat_id c \<noteq> [] then tx_current_chat_id c else ''current''
            | None \<Rightarrow> ''current''))"

definition tool_context_set_route :: "ToolContext \<Rightarrow> string option \<Rightarrow> string option \<Rightarrow> ToolContext" where
  "tool_context_set_route ctx channel chat_id =
     (if tx_magic ctx \<noteq> TOOL_CONTEXT_MAGIC then ctx
      else ctx\<lparr>tx_current_channel := (case channel of Some c \<Rightarrow> c_trunc 128 c | None \<Rightarrow> []),
               tx_current_chat_id := (case chat_id of Some c \<Rightarrow> c_trunc 512 c | None \<Rightarrow> [])\<rparr>)"

text \<open>\<open>None\<close> is the context that has been freed.\<close>

definition tool_context_destroy :: "ToolContext \<Rightarrow> ToolContext option" where
  "tool_context_destroy ctx = (if tx_magic ctx \<noteq> TOOL_CONTEXT_MAGIC then Some ctx else None)"

definition tool_context_clone_with_route ::
  "bool \<Rightarrow> ToolContext option \<Rightarrow> string option \<Rightarrow> string option \<Rightarrow> ToolContext option" where
  "tool_context_clone_with_route ok ctx channel chat_id =
     (case ctx of
        None \<Rightarrow> None
      | Some c \<Rightarrow>
          if tx_magic c \<noteq> TOOL_CONTEXT_MAGIC \<or> \<not> ok then None
          else Some (tool_context_set_route (c\<lparr>tx_magic := TOOL_CONTEXT_MAGIC\<rparr>) channel chat_id))"

definition tool_context_new ::
  "bool \<Rightarrow> ToolsConfig option \<Rightarrow> string option list option \<Rightarrow> string option \<Rightarrow> ToolContext option" where
  "tool_context_new ok config channels workspace =
     (if \<not> ok then None
      else Some \<lparr>tx_magic = TOOL_CONTEXT_MAGIC, tx_config = config, tx_channels = channels, tx_workspace = workspace,
                 tx_current_channel = ''cli'', tx_current_chat_id = ''current''\<rparr>)"

text \<open>The condition under which the tools keep to the workspace.\<close>

definition restricted :: "ToolContext option \<Rightarrow> bool" where
  "restricted ctx =
     (case ctx of
        None \<Rightarrow> False
      | Some c \<Rightarrow>
          tx_magic c = TOOL_CONTEXT_MAGIC
          \<and> (case tx_config c of
               None \<Rightarrow> False
             | Some cfg \<Rightarrow> tc_restrict_to_workspace cfg \<or> tc_exec_restrict_to_workspace cfg))"

definition context_workspace :: "ToolContext option \<Rightarrow> string option" where
  "context_workspace ctx = (case ctx of None \<Rightarrow> None | Some c \<Rightarrow> tx_workspace c)"

definition get_json_string :: "json option \<Rightarrow> string \<Rightarrow> string option" where
  "get_json_string object key = json_string (get_object_item object key)"

section \<open>The workspace\<close>

definition resolve_workspace_path :: "path \<Rightarrow> fsys \<Rightarrow> string option \<Rightarrow> nat \<Rightarrow> string option" where
  "resolve_workspace_path cwd fs workspace out_size =
     (case workspace of
        None \<Rightarrow> None
      | Some ws \<Rightarrow>
          if out_size = 0 then None
          else (case realpath cwd fs ws of
                  None \<Rightarrow> None
                | Some r \<Rightarrow> if length r + 1 > out_size then None else Some r))"

text \<open>\<open>strncmp (resolved, ws, ws_len) == 0\<close> and the byte behind is a slash or the end.\<close>

definition below :: "string \<Rightarrow> string \<Rightarrow> bool" where
  "below ws r = (starts_with ws r \<and> (drop (length ws) r = [] \<or> drop (length ws) r ! 0 = slash))"

definition is_path_within_workspace :: "path \<Rightarrow> fsys \<Rightarrow> string \<Rightarrow> string option \<Rightarrow> bool" where
  "is_path_within_workspace cwd fs p workspace =
     (case resolve_workspace_path cwd fs workspace 4096 of
        None \<Rightarrow> False
      | Some ws \<Rightarrow>
          (case realpath cwd fs p of
             Some r \<Rightarrow> below ws r
           | None \<Rightarrow>
               if starts_with [slash] p then False
               else (let full = the workspace @ [slash] @ p
                     in if length full \<ge> 4096 then False
                        else (case realpath cwd fs full of None \<Rightarrow> False | Some r \<Rightarrow> below ws r))))"

text \<open>The text that the resolving functions look at: an absolute path cut to the buffer, or the path in the workspace.\<close>

definition candidate_path :: "string \<Rightarrow> string \<Rightarrow> string option" where
  "candidate_path p ws =
     (if starts_with [slash] p then Some (c_trunc 4096 p)
      else if length (ws @ [slash] @ p) \<ge> 4096 then None
      else Some (ws @ [slash] @ p))"

definition resolve_existing_path_within_workspace ::
  "path \<Rightarrow> fsys \<Rightarrow> string \<Rightarrow> string option \<Rightarrow> nat \<Rightarrow> string option" where
  "resolve_existing_path_within_workspace cwd fs p workspace out_size =
     (case resolve_workspace_path cwd fs workspace 4096 of
        None \<Rightarrow> None
      | Some ws \<Rightarrow>
          (case candidate_path p (the workspace) of
             None \<Rightarrow> None
           | Some candidate \<Rightarrow>
               (case realpath cwd fs candidate of
                  None \<Rightarrow> None
                | Some r \<Rightarrow> if \<not> below ws r \<or> length r + 1 > out_size then None else Some r)))"

text \<open>The name behind the last slash and the text before it; the root keeps its slash.\<close>

definition split_last_slash :: "string \<Rightarrow> (string \<times> string) option" where
  "split_last_slash candidate =
     (case strrchr candidate slash of
        None \<Rightarrow> None
      | Some base \<Rightarrow>
          (let parent = take (length candidate - length base) candidate
           in Some (if parent = [] then [slash] else parent, tl base)))"

definition resolve_creatable_path_within_workspace ::
  "path \<Rightarrow> fsys \<Rightarrow> string \<Rightarrow> string option \<Rightarrow> nat \<Rightarrow> string option" where
  "resolve_creatable_path_within_workspace cwd fs p workspace out_size =
     (case resolve_workspace_path cwd fs workspace 4096 of
        None \<Rightarrow> None
      | Some ws \<Rightarrow>
          (case candidate_path p (the workspace) of
             None \<Rightarrow> None
           | Some candidate \<Rightarrow>
               (case split_last_slash candidate of
                  None \<Rightarrow> None
                | Some (parent, filename) \<Rightarrow>
                    if filename = [] \<or> filename = ''.'' \<or> filename = ''..'' then None
                    else (case realpath cwd fs parent of
                            None \<Rightarrow> None
                          | Some r \<Rightarrow>
                              if \<not> below ws r then None
                              else (let out = r @ [slash] @ filename
                                    in if length out \<ge> out_size then None else Some out)))))"

definition is_path_within_workspace_len :: "path \<Rightarrow> fsys \<Rightarrow> string \<Rightarrow> nat \<Rightarrow> string option \<Rightarrow> bool" where
  "is_path_within_workspace_len cwd fs p path_len workspace =
     (if path_len = 0 \<or> path_len \<ge> 4096 then False
      else is_path_within_workspace cwd fs (take path_len p) workspace)"

text \<open>The paths that \<open>ensure_dir\<close> passes to \<open>mkdir\<close>, in order, and the whole function.\<close>

definition ensure_dir_paths :: "string \<Rightarrow> string list" where
  "ensure_dir_paths p =
     (let tmp0 = c_trunc FILE_PATH_MAX p;
          tmp = (if tmp0 \<noteq> [] \<and> last tmp0 = slash then butlast tmp0 else tmp0)
      in case strrchr tmp slash of
           None \<Rightarrow> []
         | Some last_slash \<Rightarrow>
             (let parent = take (length tmp - length last_slash) tmp
              in (case parent of [] \<Rightarrow> [] | c # cs \<Rightarrow> mkdir_scan [c] cs) @ [parent]))"

definition ensure_dir :: "host \<Rightarrow> fsys \<Rightarrow> string \<Rightarrow> fsys" where
  "ensure_dir h fs p = fold (\<lambda>d fs. mkdir (h_may_write h) (h_cwd h) fs d) (ensure_dir_paths p) fs"

section \<open>Tools on files\<close>

definition MAX_READ_SIZE :: nat where
  "MAX_READ_SIZE = 128000"

definition TOOL_ERROR_HINT :: string where
  "TOOL_ERROR_HINT = [newline, newline] @ ''[Analyze the error above and try a different approach.]''"

text \<open>What a tool returns: its error, \<open>result\<close>, and the file system it leaves.\<close>

type_synonym tool_outcome = "Error \<times> string option \<times> fsys"

abbreviation denied :: Error where
  "denied \<equiv> error_new ERR_TOOL (Some ''Access denied: path is outside workspace'')"

text \<open>
  The path that the tools on existing files open: the given one, or with the workspace policy the checked one; \<open>None\<close> is a refusal.
\<close>

definition existing_path :: "host \<Rightarrow> fsys \<Rightarrow> ToolContext option \<Rightarrow> string \<Rightarrow> string option" where
  "existing_path h fs ctx p =
     (if restricted ctx then resolve_existing_path_within_workspace (h_cwd h) fs p (context_workspace ctx) 4096 else Some p)"

definition read_schema :: string where
  "read_schema = ''{\"type\":\"object\",\"properties\":{\"path\":{\"type\":\"string\"}},\"required\":[\"path\"]}''"

text \<open>The text of a C string in a buffer.\<close>

definition c_string :: "string \<Rightarrow> string" where
  "c_string bytes = takeWhile (\<lambda>c. c \<noteq> NUL) bytes"

text \<open>The bytes of the dash in the message are those of the source, in UTF-8.\<close>

definition truncated_text :: "nat \<Rightarrow> string" where
  "truncated_text len =
     c_trunc 128 ([newline, newline] @ ''... (truncated '' @ [CHR 0xE2, CHR 0x80, CHR 0x94] @ '' file is '' @ show_int (int len)
                  @ '' chars, limit '' @ show_int (int MAX_READ_SIZE) @ '')'')"

text \<open>From \<open>fopen\<close> to the end of \<open>tool_read_file\<close>.\<close>

definition read_opened :: "host \<Rightarrow> fsys \<Rightarrow> string \<Rightarrow> Error \<times> string option" where
  "read_opened h fs open_path =
     (case open_read (h_may_read h) (h_cwd h) fs open_path of
        None \<Rightarrow> (error_new ERR_FILE (Some ''Failed to open file''), None)
      | Some q \<Rightarrow>
          (let (bytes, len) = (case fs q of Some (File bytes) \<Rightarrow> (bytes, length bytes) | _ \<Rightarrow> ([], h_dir_end h))
           in if len > MAX_READ_SIZE * 4
              then (error_new ERR_FILE (Some (c_trunc 256 (''File too large ('' @ show_int (int len) @ '' bytes)''))), None)
              else if \<not> h_malloc h (len + 1) then (error_new ERR_MEMORY (Some ''Memory allocation failed''), None)
              else if length bytes \<noteq> len then (error_new ERR_FILE (Some ''Failed to read file''), None)
              else if len > MAX_READ_SIZE
              then (no_error, Some (c_string (take MAX_READ_SIZE bytes) @ truncated_text len))
              else (no_error, Some (c_string bytes))))"

definition tool_read_file ::
  "host \<Rightarrow> number_formats \<Rightarrow> json_parser \<Rightarrow> json_printer \<Rightarrow> fsys \<Rightarrow> ToolContext option \<Rightarrow> string \<Rightarrow> tool_outcome" where
  "tool_read_file h nf parse print fs ctx args_json =
     (case tool_validate_and_cast_params nf parse print args_json (Some read_schema) of
        (casted_args, Some error_msg) \<Rightarrow>
          if \<not> h_malloc h (length error_msg + length TOOL_ERROR_HINT + 1)
          then (error_new ERR_MEMORY (Some ''Failed to allocate error message''), None, fs)
          else (error_new ERR_INVALID_PARAM (Some ''Parameter validation failed''), Some (error_msg @ TOOL_ERROR_HINT), fs)
      | (casted_args, None) \<Rightarrow>
          (let json = (case casted_args of None \<Rightarrow> None | Some a \<Rightarrow> parse a)
           in case get_json_string json ''path'' of
                None \<Rightarrow> (error_new ERR_INVALID_PARAM (Some ''Missing 'path' argument''), None, fs)
              | Some p \<Rightarrow>
                  (case existing_path h fs ctx p of
                     None \<Rightarrow> (denied, None, fs)
                   | Some open_path \<Rightarrow> (case read_opened h fs open_path of (err, result) \<Rightarrow> (err, result, fs)))))"

definition tool_write_file :: "host \<Rightarrow> json_parser \<Rightarrow> fsys \<Rightarrow> ToolContext option \<Rightarrow> string \<Rightarrow> tool_outcome" where
  "tool_write_file h parse fs ctx args_json =
     (case parse args_json of
        None \<Rightarrow> (error_new ERR_JSON (Some ''Invalid JSON arguments''), None, fs)
      | Some json \<Rightarrow>
          (case (get_json_string (Some json) ''path'', get_json_string (Some json) ''content'') of
             (Some p, Some content) \<Rightarrow>
               (case (if restricted ctx
                      then resolve_creatable_path_within_workspace (h_cwd h) fs p (context_workspace ctx) 4096 else Some p) of
                  None \<Rightarrow> (denied, None, fs)
                | Some write_path \<Rightarrow>
                    (let fs = ensure_dir h fs write_path
                     in case open_write (h_may_write h) (h_cwd h) fs write_path of
                          None \<Rightarrow> (error_new ERR_FILE (Some ''Failed to open file for writing''), None, fs)
                        | Some q \<Rightarrow> (no_error, Some ''File written successfully'', fs(q \<mapsto> File content))))
           | _ \<Rightarrow> (error_new ERR_INVALID_PARAM (Some ''Missing 'path' or 'content' argument''), None, fs)))"

text \<open>
  The replacement of \<open>tool_edit_file\<close> in the bytes of the file: an error text, or the new text. The second search begins one
  byte behind the first match, which is outside of the buffer when the file and \<open>old_str\<close> are empty.
\<close>

definition edit_bytes :: "string \<Rightarrow> string \<Rightarrow> string \<Rightarrow> tool_fault + (string + string)" where
  "edit_bytes bytes old_str new_str =
     (case strstr (c_string bytes) old_str of
        None \<Rightarrow> Inr (Inl ''old_str not found in file (exact match required)'')
      | Some pos \<Rightarrow>
          if bytes = [] \<and> old_str = [] then Inl Read_Past_End
          else (let next_pos = (if pos = [] then strstr (c_string (tl bytes)) old_str else strstr (tl pos) old_str)
                in if next_pos \<noteq> None then Inr (Inl ''old_str is not unique in file'')
                   else Inr (Inr (take (length (c_string bytes) - length pos) bytes @ new_str @ drop (length old_str) pos))))"

definition tool_edit_file :: "host \<Rightarrow> json_parser \<Rightarrow> fsys \<Rightarrow> ToolContext option \<Rightarrow> string \<Rightarrow> tool_fault + tool_outcome" where
  "tool_edit_file h parse fs ctx args_json =
     (case parse args_json of
        None \<Rightarrow> Inr (error_new ERR_JSON (Some ''Invalid JSON arguments''), None, fs)
      | Some json \<Rightarrow>
          (case (get_json_string (Some json) ''path'', get_json_string (Some json) ''old_str'', get_json_string (Some json) ''new_str'') of
             (Some p, Some old_str, Some new_str) \<Rightarrow>
               (case existing_path h fs ctx p of
                  None \<Rightarrow> Inr (denied, None, fs)
                | Some edit_path \<Rightarrow>
                    (case open_read (h_may_read h) (h_cwd h) fs edit_path of
                       None \<Rightarrow> Inr (error_new ERR_FILE (Some ''Failed to open file''), None, fs)
                     | Some q \<Rightarrow>
                         (let bytes = (case fs q of Some (File bytes) \<Rightarrow> bytes | _ \<Rightarrow> h_garbage h (h_dir_end h));
                              len = (case fs q of Some (File bytes) \<Rightarrow> length bytes | _ \<Rightarrow> h_dir_end h)
                          in if \<not> h_malloc h (len + 1) then Inr (error_new ERR_MEMORY (Some ''Memory allocation failed''), None, fs)
                             else (case edit_bytes bytes old_str new_str of
                                     Inl fault \<Rightarrow> Inl fault
                                   | Inr (Inl msg) \<Rightarrow> Inr (error_new ERR_TOOL (Some msg), None, fs)
                                   | Inr (Inr new_data) \<Rightarrow>
                                       if \<not> h_malloc h (len - length old_str + length new_str + 1)
                                       then Inr (error_new ERR_MEMORY (Some ''Memory allocation failed''), None, fs)
                                       else (case open_write (h_may_write h) (h_cwd h) fs edit_path of
                                               None \<Rightarrow> Inr (error_new ERR_FILE (Some ''Failed to write file''), None, fs)
                                             | Some q' \<Rightarrow>
                                                 Inr (no_error, Some ''File edited successfully'', fs(q' \<mapsto> File new_data)))))))
           | _ \<Rightarrow> Inr (error_new ERR_INVALID_PARAM (Some ''Missing arguments''), None, fs)))"

section \<open>Listing a directory\<close>

text \<open>\<open>S_ISDIR\<close> of what \<open>stat\<close> filled in; when \<open>stat\<close> fails the structure keeps what the memory held.\<close>

definition entry_is_dir :: "host \<Rightarrow> fsys \<Rightarrow> string \<Rightarrow> string \<Rightarrow> bool" where
  "entry_is_dir h fs list_path name =
     (case resolve False (h_cwd h) fs (c_trunc 1024 (list_path @ [slash] @ name)) of
        Some q \<Rightarrow> fs q = Some Dir
      | None \<Rightarrow> h_stale_dir h name)"

text \<open>The two symbols in UTF-8: a folder and a page.\<close>

definition folder_mark :: string where
  "folder_mark = [CHR 0xF0, CHR 0x9F, CHR 0x93, CHR 0x81] @ '' ''"

definition page_mark :: string where
  "page_mark = [CHR 0xF0, CHR 0x9F, CHR 0x93, CHR 0x84] @ '' ''"

definition list_line :: "host \<Rightarrow> fsys \<Rightarrow> string \<Rightarrow> string \<Rightarrow> string" where
  "list_line h fs list_path name =
     (if name = ''.'' \<or> name = ''..'' then []
      else (if entry_is_dir h fs list_path name then folder_mark else page_mark) @ name @ [newline])"

definition tool_list_dir :: "host \<Rightarrow> json_parser \<Rightarrow> fsys \<Rightarrow> ToolContext option \<Rightarrow> string \<Rightarrow> tool_outcome" where
  "tool_list_dir h parse fs ctx args_json =
     (case parse args_json of
        None \<Rightarrow> (error_new ERR_JSON (Some ''Invalid JSON arguments''), None, fs)
      | Some json \<Rightarrow>
          (let p = (case get_json_string (Some json) ''path'' of None \<Rightarrow> ''.'' | Some p \<Rightarrow> p)
           in case existing_path h fs ctx p of
                None \<Rightarrow> (denied, None, fs)
              | Some list_path \<Rightarrow>
                  (case open_read (h_may_read h) (h_cwd h) fs list_path of
                     None \<Rightarrow> (error_new ERR_FILE (Some ''Failed to open directory''), None, fs)
                   | Some q \<Rightarrow>
                       if fs q \<noteq> Some Dir then (error_new ERR_FILE (Some ''Failed to open directory''), None, fs)
                       else (no_error, Some (concat (map (list_line h fs list_path) (h_readdir h fs q))), fs))))"

section \<open>The shell\<close>

definition safe_char :: "char \<Rightarrow> bool" where
  "safe_char c = (isalnum c \<or> c \<in> set ''_-./,:@+=%'')"

definition blank :: "char \<Rightarrow> bool" where
  "blank c = (c = CHR '' '' \<or> c = CHR 0x09)"

fun has_dotdot :: "string \<Rightarrow> bool" where
  "has_dotdot (a # b # cs) = ((a = CHR ''.'' \<and> b = CHR ''.'') \<or> has_dotdot (b # cs))"
| "has_dotdot _ = False"

definition exec_token_is_safe :: "string \<Rightarrow> bool" where
  "exec_token_is_safe tok = (tok \<noteq> [] \<and> list_all safe_char tok \<and> \<not> has_dotdot tok)"

text \<open>The words of a command, as both loops over it find them.\<close>

function exec_tokens :: "string \<Rightarrow> string list" where
  "exec_tokens s =
     (case dropWhile blank s of
        [] \<Rightarrow> []
      | c # cs \<Rightarrow> takeWhile (\<lambda>c. \<not> blank c) (c # cs) # exec_tokens (dropWhile (\<lambda>c. \<not> blank c) (c # cs)))"
  by pat_completeness auto
termination
proof (relation "measure length", goal_cases)
  case 1
  show ?case by simp
next
  case (2 s c cs)
  have "length (dropWhile blank s) \<le> length s" by (rule length_dropWhile_le)
  moreover have "\<not> blank c" using 2 by (simp add: dropWhile_eq_Cons_conv)
  moreover have "length (dropWhile (\<lambda>c. \<not> blank c) cs) \<le> length cs" by (rule length_dropWhile_le)
  ultimately show ?case using 2 by simp
qed

declare exec_tokens.simps [simp del]

definition command_is_safe_exec :: "string \<Rightarrow> bool" where
  "command_is_safe_exec command =
     (command \<noteq> [] \<and> list_all (\<lambda>c. blank c \<or> safe_char c) command \<and> list_all exec_token_is_safe (exec_tokens command))"

definition command_contains_unsafe_token :: "string \<Rightarrow> bool" where
  "command_contains_unsafe_token command = (\<not> command_is_safe_exec command)"

definition restrict_exec :: "ToolContext option \<Rightarrow> bool" where
  "restrict_exec ctx =
     (case ctx of
        None \<Rightarrow> True
      | Some c \<Rightarrow>
          if tx_magic c = TOOL_CONTEXT_MAGIC
          then (case tx_config c of
                  None \<Rightarrow> True
                | Some cfg \<Rightarrow> tc_exec_restrict_to_workspace cfg \<or> tc_restrict_to_workspace cfg)
          else True)"

definition exec_workspace :: "ToolContext option \<Rightarrow> string option" where
  "exec_workspace ctx =
     (case ctx of None \<Rightarrow> None | Some c \<Rightarrow> if tx_magic c = TOOL_CONTEXT_MAGIC then tx_workspace c else None)"

text \<open>The checks before the command runs: the error with which it is rejected.\<close>

definition exec_policy :: "host \<Rightarrow> fsys \<Rightarrow> ToolContext option \<Rightarrow> string \<Rightarrow> Error option" where
  "exec_policy h fs ctx command =
     (if \<not> restrict_exec ctx then None
      else if command_contains_unsafe_token command
      then Some (error_new ERR_TOOL (Some ''Command rejected by workspace restriction policy (shell metacharacters or path traversal)''))
      else (case exec_workspace ctx of
              None \<Rightarrow> None
            | Some ws \<Rightarrow>
                if list_ex (\<lambda>t. starts_with [slash] t \<and> \<not> is_path_within_workspace_len (h_cwd h) fs t (length t) (Some ws))
                     (exec_tokens command)
                then Some (error_new ERR_TOOL (Some ''Command rejected: absolute path outside workspace''))
                else None))"

text \<open>
  The loop that reads the output of the command: what \<open>select\<close> reports, with the time when nothing came and with the
  bytes that \<open>read\<close> returned. The loop also stops at the end of the list, which is then a prefix of a run that goes on. The result is the output, whether the
  loop has ended and whether it timed out.
\<close>

datatype select_result = Sel_Error | Sel_Nothing int | Sel_Data string | Sel_End

datatype exec_end = Running | Finished | Timed_out

fun exec_loop :: "int \<Rightarrow> int \<Rightarrow> string \<Rightarrow> select_result list \<Rightarrow> string \<times> exec_end" where
  "exec_loop start_time timeout_secs out [] = (out, Running)"
| "exec_loop start_time timeout_secs out (Sel_Error # rs) = (out, Finished)"
| "exec_loop start_time timeout_secs out (Sel_Nothing now # rs) =
     (if now - start_time \<ge> timeout_secs then (out, Timed_out) else exec_loop start_time timeout_secs out rs)"
| "exec_loop start_time timeout_secs out (Sel_End # rs) = (out, Finished)"
| "exec_loop start_time timeout_secs out (Sel_Data bytes # rs) =
     (if bytes = [] then (out, Finished) else exec_loop start_time timeout_secs (out @ c_string (take 4095 bytes)) rs)"

datatype wait_status = Exited int | Signaled int | Other_status int

definition status_text :: "wait_status \<Rightarrow> string" where
  "status_text st =
     c_trunc 128 (case st of
        Exited n \<Rightarrow> [newline] @ ''Exit code: '' @ show_int n
      | Signaled n \<Rightarrow> [newline] @ ''Terminated by signal: '' @ show_int n
      | Other_status n \<Rightarrow> [newline] @ ''Exit status: '' @ show_int n)"

definition exec_timeout :: "ToolContext option \<Rightarrow> int" where
  "exec_timeout ctx =
     (case ctx of
        None \<Rightarrow> 300
      | Some c \<Rightarrow>
          if tx_magic c = TOOL_CONTEXT_MAGIC then (case tx_config c of None \<Rightarrow> 300 | Some cfg \<Rightarrow> tc_exec_timeout cfg) else 300)"

text \<open>
  The child process: the directory to which it changes, if the command is restricted, and the command that it passes to the shell.
\<close>

record child =
  ch_chdir :: "string option"
  ch_command :: string

definition exec_child :: "ToolContext option \<Rightarrow> string \<Rightarrow> child" where
  "exec_child ctx command =
     \<lparr>ch_chdir = (if restrict_exec ctx then Some (case exec_workspace ctx of Some ws \<Rightarrow> ws | None \<Rightarrow> ''.'') else None),
      ch_command = command\<rparr>"

text \<open>
  \<open>tool_exec\<close>: the error, \<open>result\<close>, the child that was started and whether the tool has returned. \<open>started\<close> says whether
  \<open>pipe\<close> and \<open>fork\<close> succeed.
\<close>

definition tool_exec ::
  "host \<Rightarrow> json_parser \<Rightarrow> bool \<times> bool \<Rightarrow> int \<Rightarrow> select_result list \<Rightarrow> wait_status \<Rightarrow> fsys \<Rightarrow> ToolContext option \<Rightarrow> string \<Rightarrow>
   Error \<times> string option \<times> child option \<times> bool" where
  "tool_exec h parse started start_time events st fs ctx args_json =
     (case parse args_json of
        None \<Rightarrow> (error_new ERR_JSON (Some ''Invalid JSON arguments''), None, None, True)
      | Some json \<Rightarrow>
          (case get_json_string (Some json) ''command'' of
             None \<Rightarrow> (error_new ERR_INVALID_PARAM (Some ''Missing 'command' argument''), None, None, True)
           | Some command \<Rightarrow>
               (case exec_policy h fs ctx command of
                  Some err \<Rightarrow> (err, None, None, True)
                | None \<Rightarrow>
                    if \<not> fst started then (error_new ERR_TOOL (Some ''Failed to create pipe''), None, None, True)
                    else if \<not> snd started then (error_new ERR_TOOL (Some ''Failed to fork''), None, None, True)
                    else (case exec_loop start_time (exec_timeout ctx) [] events of
                            (out, Running) \<Rightarrow> (no_error, Some out, Some (exec_child ctx command), False)
                          | (out, Timed_out) \<Rightarrow>
                              (no_error, Some (out @ [newline] @ ''[TIMEOUT] Command timed out after ''
                                               @ c_trunc 32 (show_int (exec_timeout ctx) @ '' seconds'')),
                               Some (exec_child ctx command), True)
                          | (out, Finished) \<Rightarrow>
                              (no_error, Some (out @ status_text st), Some (exec_child ctx command), True)))))"

lemmas file_tool_defs [op_defs] =
  resolve_workspace_path_def is_path_within_workspace_def candidate_path_def resolve_existing_path_within_workspace_def
  split_last_slash_def resolve_creatable_path_within_workspace_def is_path_within_workspace_len_def

section \<open>Paths that pass the check\<close>

text \<open>
  The interface of the check that the tools on existing files rely on: a path that passes is the canonical text of a node inside the
  workspace. What is opened under that text is that node.
\<close>

locale path_guard =
  fixes guard :: "path \<Rightarrow> fsys \<Rightarrow> string \<Rightarrow> string option \<Rightarrow> string option"
  assumes guard_inside:
    "wf_fs fs \<Longrightarrow> resolved fs cwd \<Longrightarrow> guard cwd fs p workspace = Some s \<Longrightarrow>
       \<exists>w q. resolve False cwd fs (the workspace) = Some w \<and> prefix w q \<and> resolved fs q \<and> s = render q \<and> length s < PATH_MAX"
begin

lemma opened_inside:
  assumes "wf_fs fs" and "resolved fs cwd" and "guard cwd fs p workspace = Some s"
  shows "\<exists>w q. resolve False cwd fs (the workspace) = Some w \<and> prefix w q \<and> resolved fs q
           \<and> (\<forall>may. open_read may cwd fs s = (if may q then Some q else None))
           \<and> (\<forall>may. open_write may cwd fs s = (if may q \<and> fs q \<noteq> Some Dir then Some q else None))"
proof -
  obtain w q where q: "resolve False cwd fs (the workspace) = Some w" "prefix w q" "resolved fs q" "s = render q" "length s < PATH_MAX"
    using guard_inside [OF assms] by blast
  with resolve_render [OF assms(1) q(3)] show ?thesis
    by (intro exI [of _ w] exI [of _ q]) (auto simp: open_read_def open_write_def)
qed

end

lemma resolved_good: "wf_fs fs \<Longrightarrow> resolved fs q \<Longrightarrow> \<forall>c \<in> set q. good_name c"
  using resolved_names by blast

lemma resolve_result:
  "wf_fs fs \<Longrightarrow> resolved fs cwd \<Longrightarrow> resolve create cwd fs p = Some q \<Longrightarrow> resolved fs q \<or> create \<and> creatable fs q"
  using walk_result [of fs "start_dir p cwd" create SYMLOOP_MAX "components p" q] wf_fs_root [of fs]
  by (auto simp: resolve_def resolved_def start_dir_def split: if_splits)

lemma realpath_Some:
  assumes "wf_fs fs" and "resolved fs cwd" and "realpath cwd fs p = Some r"
  shows "\<exists>q. resolve False cwd fs p = Some q \<and> resolved fs q \<and> r = render q \<and> length r < PATH_MAX"
  using assms resolve_result [OF assms(1,2)] by (auto simp: realpath_def split: option.splits if_splits)

lemma workspace_Some:
  assumes "wf_fs fs" and "resolved fs cwd" and "resolve_workspace_path cwd fs workspace n = Some ws"
  shows "\<exists>w. resolve False cwd fs (the workspace) = Some w \<and> resolved fs w \<and> ws = render w"
  using assms(3) realpath_Some [OF assms(1,2)]
  by (fastforce simp: resolve_workspace_path_def split: option.splits if_splits)

lemma below_prefix:
  "wf_fs fs \<Longrightarrow> resolved fs w \<Longrightarrow> resolved fs q \<Longrightarrow> below (render w) (render q) \<Longrightarrow> prefix w q"
  using render_prefix [of q w] resolved_good by (simp add: below_def)

interpretation existing: path_guard "\<lambda>cwd fs p workspace. resolve_existing_path_within_workspace cwd fs p workspace n" for n
proof
  fix fs cwd p workspace s
  assume a: "wf_fs fs" "resolved fs cwd" "resolve_existing_path_within_workspace cwd fs p workspace n = Some s"
  obtain ws candidate where ws: "resolve_workspace_path cwd fs workspace 4096 = Some ws" "realpath cwd fs candidate = Some s" "below ws s"
    using a(3) by (auto simp: resolve_existing_path_within_workspace_def split: option.splits if_splits)
  obtain w where w: "resolve False cwd fs (the workspace) = Some w" "resolved fs w" "ws = render w"
    using workspace_Some [OF a(1,2) ws(1)] by blast
  obtain q where q: "resolved fs q" "s = render q" "length s < PATH_MAX" using realpath_Some [OF a(1,2) ws(2)] by blast
  from below_prefix [OF a(1) w(2) q(1)] ws(3) w q
  show "\<exists>w q. resolve False cwd fs (the workspace) = Some w \<and> prefix w q \<and> resolved fs q \<and> s = render q \<and> length s < PATH_MAX"
    by blast
qed

text \<open>The text that the model of \<open>tool_read_file\<close> returns for a file.\<close>

definition file_text :: "string \<Rightarrow> string" where
  "file_text bytes =
     (if length bytes > MAX_READ_SIZE then c_string (take MAX_READ_SIZE bytes) @ truncated_text (length bytes) else c_string bytes)"

lemma read_opened_ok:
  assumes "read_opened h fs s = (err, result)" and "err_code err = ERR_NONE"
    and "open_read (h_may_read h) (h_cwd h) fs s = (if h_may_read h q then Some q else None)" and "resolved fs q"
  shows "(\<exists>bytes. fs q = Some (File bytes) \<and> length bytes \<le> 4 * MAX_READ_SIZE \<and> result = Some (file_text bytes))
         \<or> (fs q = Some Dir \<and> result = Some [])"
  using assms
  by (cases "fs q")
    (auto simp: read_opened_def resolved_def file_text_def error_new_def c_string_def MAX_READ_SIZE_def
          split: if_splits node.splits option.splits)

lemma read_file_ok:
  assumes "tool_read_file h nf parse print fs ctx args_json = (err, result, fs')" and "err_code err = ERR_NONE"
  shows "\<exists>p s. existing_path h fs ctx p = Some s \<and> read_opened h fs s = (err, result) \<and> fs' = fs"
proof -
  have e: "err_code (error_new c m) = c" for c m by (simp add: error_new_def)
  obtain a v where v: "tool_validate_and_cast_params nf parse print args_json (Some read_schema) = (a, v)" by fastforce
  show ?thesis
  proof (cases v)
    case (Some m)
    with v assms e show ?thesis by (auto simp: tool_read_file_def split: if_splits)
  next
    case None
    define json where "json = (case a of None \<Rightarrow> None | Some a \<Rightarrow> parse a)"
    obtain p where p: "get_json_string json ''path'' = Some p"
      using None v assms e by (cases "get_json_string json ''path''") (auto simp: tool_read_file_def json_def)
    obtain s where "existing_path h fs ctx p = Some s"
      using None v assms e p by (cases "existing_path h fs ctx p") (auto simp: tool_read_file_def json_def)
    with None v assms p show ?thesis
      by (intro exI [of _ p] exI [of _ s]) (auto simp: tool_read_file_def json_def split: prod.splits)
  qed
qed

text \<open>
  Claim C7. When the workspace policy is on, \<open>tool_read_file\<close> shows only what is inside the workspace: a successful call returns
  the text of one node whose resolved path lies below the resolved workspace, at most 128000 bytes of it with a note on the rest,
  whatever symbolic links and dots the given path has, and changes nothing.
\<close>

theorem read_file_confined:
  assumes "wf_fs fs" and "resolved fs (h_cwd h)" and "restricted ctx"
    and "tool_read_file h nf parse print fs ctx args_json = (err, result, fs')" and "err_code err = ERR_NONE"
  shows "fs' = fs \<and> (\<exists>w q. resolve False (h_cwd h) fs (the (context_workspace ctx)) = Some w \<and> prefix w q
           \<and> ((\<exists>bytes. fs q = Some (File bytes) \<and> length bytes \<le> 4 * MAX_READ_SIZE \<and> result = Some (file_text bytes))
              \<or> (fs q = Some Dir \<and> result = Some [])))"
proof -
  obtain p s where "existing_path h fs ctx p = Some s" and s: "read_opened h fs s = (err, result)" "fs' = fs"
    using read_file_ok [OF assms(4,5)] by blast
  with assms(3) have g: "resolve_existing_path_within_workspace (h_cwd h) fs p (context_workspace ctx) 4096 = Some s"
    by (simp add: existing_path_def)
  obtain w q where "resolve False (h_cwd h) fs (the (context_workspace ctx)) = Some w" "prefix w q" "resolved fs q"
    "open_read (h_may_read h) (h_cwd h) fs s = (if h_may_read h q then Some q else None)"
    using existing.opened_inside [OF assms(1,2) g] by blast
  with read_opened_ok [OF s(1) assms(5)] s(2) show ?thesis by blast
qed

text \<open>A small file system: a workspace with a file, a directory and two links, and a file outside.\<close>

definition demo_fs :: fsys where
  "demo_fs = [[] \<mapsto> Dir, [''ws''] \<mapsto> Dir, [''etc''] \<mapsto> Dir, [''etc'', ''passwd''] \<mapsto> File ''root'', [''ws'', ''a.txt''] \<mapsto> File ''alpha'', [''ws'', ''p.png''] \<mapsto> File ''pixels'',
     [''ws'', ''sub''] \<mapsto> Dir, [''ws'', ''out''] \<mapsto> Link ''/etc/passwd'', [''ws'', ''sub'', ''up''] \<mapsto> Link ''../a.txt'']"

definition demo_host :: host where
  "demo_host = \<lparr>h_cwd = [], h_may_read = (\<lambda>_. True), h_may_write = (\<lambda>_. True), h_malloc = (\<lambda>_. True), h_dir_end = 0,
     h_garbage = (\<lambda>_. []), h_readdir = (\<lambda>_ _. []), h_stale_dir = (\<lambda>_. False)\<rparr>"

definition demo_context :: "ToolContext option" where
  "demo_context = Some \<lparr>tx_magic = TOOL_CONTEXT_MAGIC, tx_config = Some \<lparr>tc_exec_timeout = 60, tc_exec_restrict_to_workspace = True,
     tc_restrict_to_workspace = True\<rparr>, tx_channels = None, tx_workspace = Some ''/ws'', tx_current_channel = ''cli'', tx_current_chat_id = ''current''\<rparr>"

text \<open>A parser that knows the schema of the tool and one object of arguments.\<close>

definition demo_parse :: "(string \<times> json) list \<Rightarrow> json_parser" where
  "demo_parse args s =
     (if s = read_schema
      then Some (JObject [(''type'', JString ''object''),
                          (''properties'', JObject [(''path'', JObject [(''type'', JString ''string'')])]),
                          (''required'', JArray [JString ''path''])])
      else Some (JObject args))"

definition demo_print :: json_printer where
  "demo_print j = Some ''args''"

lemma demo_wf: "wf_fs demo_fs" "resolved demo_fs (h_cwd demo_host)" "restricted demo_context"
proof -
  have "good_name c \<and> demo_fs p = Some Dir" if "demo_fs (p @ [c]) \<noteq> None" for p c
    using that
    by (auto simp: demo_fs_def good_name_def append_eq_Cons_conv Cons_eq_append_conv split: if_splits)
  then show "wf_fs demo_fs" by (auto simp: wf_fs_def) (simp add: demo_fs_def)
  show "resolved demo_fs (h_cwd demo_host)" by (simp add: demo_fs_def demo_host_def resolved_def)
  show "restricted demo_context" by (simp add: demo_context_def restricted_def)
qed

definition demo_read :: tool_outcome where
  "demo_read =
     tool_read_file demo_host \<lparr>nf_format_g = (\<lambda>_. []), nf_strtod = (\<lambda>s. (Some 0, s))\<rparr> (demo_parse [(''path'', JString ''sub/./up'')]) demo_print
       demo_fs demo_context ''args''"

lemmas demo_eval =
  file_tool_defs realpath_def resolve_def components_def strtok.simps render_def absolute_def starts_with_def below_def
  demo_fs_def SYMLOOP_MAX_def PATH_MAX_def start_dir_def

lemma demo_existing:
  "resolve_existing_path_within_workspace [] demo_fs ''sub/./up'' (Some ''/ws'') 4096 = Some ''/ws/a.txt''"
  by (simp add: demo_eval)

lemma demo_validated:
  "tool_validate_and_cast_params nf (demo_parse [(''path'', JString p)]) demo_print ''args'' (Some read_schema) = (Some ''args'', None)"
proof -
  have r: "read_schema \<noteq> []" "read_schema \<noteq> ''args''" by (simp_all add: read_schema_def)
  show ?thesis
    by (simp add: tool_validate_and_cast_params_def demo_parse_def demo_print_def r r [symmetric] validate_args_def validate_property_def
        check_required_def check_string_def get_object_item_def strcaseeq_def tolower_def isupper_def Let_def json_defs cast_to_string_def)
qed

lemma demo_read_result: "demo_read = (no_error, Some ''alpha'', demo_fs)"
proof -
  have e: "existing_path demo_host demo_fs demo_context ''sub/./up'' = Some ''/ws/a.txt''"
    using demo_existing demo_wf(3) by (simp add: existing_path_def demo_host_def demo_context_def context_workspace_def)
  have "read_opened demo_host demo_fs ''/ws/a.txt'' = (no_error, Some ''alpha'')"
    by (simp add: read_opened_def open_read_def demo_host_def demo_eval MAX_READ_SIZE_def c_string_def)
  moreover have "get_json_string (demo_parse [(''path'', JString p)] ''args'') ''path'' = Some p" for p
    by (simp add: get_json_string_def demo_parse_def read_schema_def get_object_item_def json_defs)
  ultimately show ?thesis by (simp add: demo_read_def tool_read_file_def demo_validated e)
qed

theorem read_file_confined_witness:
  "fst (snd demo_read) = Some ''alpha''
   \<and> (\<exists>w q. resolve False [] demo_fs ''/ws'' = Some w \<and> prefix w q
        \<and> ((\<exists>bytes. demo_fs q = Some (File bytes) \<and> length bytes \<le> 4 * MAX_READ_SIZE \<and> fst (snd demo_read) = Some (file_text bytes))
           \<or> (demo_fs q = Some Dir \<and> fst (snd demo_read) = Some [])))"
  using read_file_confined [OF demo_wf trans [OF demo_read_def [symmetric] demo_read_result]]
  by (simp add: demo_read_result error_new_def demo_host_def demo_context_def context_workspace_def)

section \<open>Creating files\<close>

lemma mkdir_scan_prefix: "m \<in> set (mkdir_scan seen s) \<Longrightarrow> \<exists>r. seen @ s = m @ slash # r"
  by (induction seen s rule: mkdir_scan.induct) (auto split: if_splits)

lemma ensure_dir_prefix:
  assumes "m \<in> set (ensure_dir_paths p)"
  shows "\<exists>r. p = m @ slash # r"
proof -
  define tmp where "tmp = (let tmp0 = c_trunc FILE_PATH_MAX p in if tmp0 \<noteq> [] \<and> last tmp0 = slash then butlast tmp0 else tmp0)"
  have "prefix tmp p"
    by (auto simp: tmp_def Let_def c_trunc_def take_is_prefix intro: prefix_order.trans [OF prefixeq_butlast])
  then obtain u where u: "p = tmp @ u" by (auto simp: prefix_def)
  obtain l where l: "strrchr tmp slash = Some l"
    using assms by (cases "strrchr tmp slash") (auto simp: ensure_dir_paths_def tmp_def Let_def)
  then obtain v r where v: "tmp = v @ l" "l = slash # r" using strrchr_Some by blast
  then have "m \<in> set (case v of [] \<Rightarrow> [] | c # cs \<Rightarrow> mkdir_scan [c] cs) \<or> m = v"
    using assms l by (auto simp: ensure_dir_paths_def tmp_def Let_def)
  then have "\<exists>r. v @ slash # r = m @ slash # r \<or> (\<exists>r'. v = m @ slash # r')"
    using mkdir_scan_prefix by (fastforce split: list.splits)
  with u v show ?thesis by auto
qed

lemma strtok_nonblank: "s \<noteq> [] \<Longrightarrow> last s \<noteq> d \<Longrightarrow> strtok d s \<noteq> []"
  by (subst strtok.simps) (auto split: list.splits simp: dropWhile_eq_Nil_conv)

lemma ensure_dir_existing:
  assumes "wf_fs fs" and "resolved fs par" and "good_name f"
  shows "ensure_dir h fs (render par @ [slash] @ f) = fs"
proof -
  let ?out = "render par @ [slash] @ f"
  have par: "\<forall>c \<in> set par. good_name c" using resolved_names [OF assms(1,2)] by blast
  have toks: "strtok slash ?out = par @ [f]"
    using strtok_render [OF par, of "[slash] @ f"] strtok_name [OF assms(3), of "[]"] by (simp add: strtok_slash)
  have "mkdir (h_may_write h) (h_cwd h) fs m = fs" if m: "m \<in> set (ensure_dir_paths ?out)" for m
  proof (cases "m = []")
    case True
    then show ?thesis by (simp add: mkdir_def)
  next
    case False
    obtain r where r: "?out = m @ slash # r" using ensure_dir_prefix [OF m] by blast
    have "last ?out \<noteq> slash" using good_name_last [OF assms(3)] by simp
    then have "strtok slash r \<noteq> []" using r strtok_nonblank by (metis last_ConsL last_ConsR last_appendR list.distinct(1))
    moreover have "strtok slash m @ strtok slash r = par @ [f]" using toks r strtok_split by metis
    ultimately obtain u where u: "par = strtok slash m @ u"
      by (metis append_butlast_last_id append_assoc append1_eq_conv)
    then obtain n where "fs (strtok slash m) = Some n"
      using resolved_prefix(1) [of fs "strtok slash m" u] assms(1,2) by (auto simp: resolved_def split: option.splits)
    moreover have "absolute m" using r False absolute_render [of par] by (cases m; cases "render par") (auto simp: absolute_def starts_with_def)
    ultimately show ?thesis using mkdir_existing assms(1) by blast
  qed
  then have "fold (\<lambda>d fs. mkdir (h_may_write h) (h_cwd h) fs d) ms fs = fs" if "set ms \<subseteq> set (ensure_dir_paths ?out)" for ms
    using that by (induction ms) auto
  then show ?thesis by (simp add: ensure_dir_def)
qed

text \<open>A path that passes the check for creation is a name below a node inside the workspace.\<close>

lemma creatable_inside:
  assumes "wf_fs fs" and "resolved fs cwd" and "resolve_creatable_path_within_workspace cwd fs p workspace n = Some out"
  shows "\<exists>w par f. resolve False cwd fs (the workspace) = Some w \<and> prefix w par \<and> resolved fs par \<and> good_name f
           \<and> out = render par @ [slash] @ f \<and> length out < n"
proof -
  obtain ws candidate parent f r where s: "resolve_workspace_path cwd fs workspace 4096 = Some ws"
    "split_last_slash candidate = Some (parent, f)" "f \<noteq> []" "f \<noteq> ''.''" "f \<noteq> ''..''" "realpath cwd fs parent = Some r"
    "below ws r" "out = r @ [slash] @ f" "length out < n"
    using assms(3)
    by (auto simp: resolve_creatable_path_within_workspace_def Let_def split: option.splits if_splits prod.splits)
  have "slash \<notin> set f"
    using s(2) by (auto simp: split_last_slash_def Let_def split: option.splits dest!: strrchr_Some)
  then have f: "good_name f" using s by (simp add: good_name_def)
  obtain w where w: "resolve False cwd fs (the workspace) = Some w" "resolved fs w" "ws = render w"
    using workspace_Some [OF assms(1,2) s(1)] by blast
  obtain par where par: "resolved fs par" "r = render par" using realpath_Some [OF assms(1,2) s(6)] by blast
  with below_prefix [OF assms(1) w(2) par(1)] s w f show ?thesis by blast
qed

lemma write_file_cases:
  assumes "restricted ctx" and "tool_write_file h parse fs ctx args_json = (err, result, fs')"
  shows "(err_code err \<noteq> ERR_NONE \<and> fs' = fs)
    \<or> (\<exists>p content out. get_json_string (parse args_json) ''content'' = Some content
         \<and> resolve_creatable_path_within_workspace (h_cwd h) fs p (context_workspace ctx) 4096 = Some out
         \<and> (case open_write (h_may_write h) (h_cwd h) (ensure_dir h fs out) out of
              None \<Rightarrow> err_code err \<noteq> ERR_NONE \<and> fs' = ensure_dir h fs out
            | Some q \<Rightarrow> err_code err = ERR_NONE \<and> fs' = (ensure_dir h fs out)(q \<mapsto> File content)))"
proof -
  have e: "err_code (error_new c m) = c" for c m by (simp add: error_new_def)
  show ?thesis
  proof (cases "\<exists>json p content out. parse args_json = Some json \<and> get_json_string (Some json) ''path'' = Some p
      \<and> get_json_string (Some json) ''content'' = Some content
      \<and> resolve_creatable_path_within_workspace (h_cwd h) fs p (context_workspace ctx) 4096 = Some out")
    case True
    then obtain json p content out where o: "parse args_json = Some json" "get_json_string (Some json) ''path'' = Some p"
      "get_json_string (Some json) ''content'' = Some content"
      "resolve_creatable_path_within_workspace (h_cwd h) fs p (context_workspace ctx) 4096 = Some out" by blast
    have "case open_write (h_may_write h) (h_cwd h) (ensure_dir h fs out) out of
              None \<Rightarrow> err_code err \<noteq> ERR_NONE \<and> fs' = ensure_dir h fs out
            | Some q \<Rightarrow> err_code err = ERR_NONE \<and> fs' = (ensure_dir h fs out)(q \<mapsto> File content)"
      using assms o by (auto simp: tool_write_file_def e Let_def split: option.splits)
    with o show ?thesis by auto
  next
    case False
    with assms have "err_code err \<noteq> ERR_NONE \<and> fs' = fs"
      by (auto simp: tool_write_file_def e split: option.splits)
    then show ?thesis by simp
  qed
qed

text \<open>
  Claim C8. When the workspace policy is on, \<open>tool_write_file\<close> goes to a name in a directory inside the workspace: a failed call
  changes nothing and makes no directory, a successful one replaces the text of exactly one file, and this is the file of that name unless the
  name is a symbolic link.
\<close>

theorem write_file_confined:
  assumes "wf_fs fs" and "resolved fs (h_cwd h)" and "restricted ctx"
    and "tool_write_file h parse fs ctx args_json = (err, result, fs')"
  shows "if err_code err \<noteq> ERR_NONE then fs' = fs
         else (\<exists>w par f q content. resolve False (h_cwd h) fs (the (context_workspace ctx)) = Some w \<and> prefix w par
                 \<and> fs par = Some Dir \<and> good_name f \<and> get_json_string (parse args_json) ''content'' = Some content
                 \<and> fs' = fs(q \<mapsto> File content) \<and> (q = par @ [f] \<or> (\<exists>t. fs (par @ [f]) = Some (Link t))))"
  using write_file_cases [OF assms(3,4)]
proof
  assume "\<exists>p content out. get_json_string (parse args_json) ''content'' = Some content
         \<and> resolve_creatable_path_within_workspace (h_cwd h) fs p (context_workspace ctx) 4096 = Some out
         \<and> (case open_write (h_may_write h) (h_cwd h) (ensure_dir h fs out) out of
              None \<Rightarrow> err_code err \<noteq> ERR_NONE \<and> fs' = ensure_dir h fs out
            | Some q \<Rightarrow> err_code err = ERR_NONE \<and> fs' = (ensure_dir h fs out)(q \<mapsto> File content))"
  then obtain p content out where c: "get_json_string (parse args_json) ''content'' = Some content"
    and out: "resolve_creatable_path_within_workspace (h_cwd h) fs p (context_workspace ctx) 4096 = Some out"
    and r: "case open_write (h_may_write h) (h_cwd h) (ensure_dir h fs out) out of
              None \<Rightarrow> err_code err \<noteq> ERR_NONE \<and> fs' = ensure_dir h fs out
            | Some q \<Rightarrow> err_code err = ERR_NONE \<and> fs' = (ensure_dir h fs out)(q \<mapsto> File content)"
    by blast
  obtain w par f where w: "resolve False (h_cwd h) fs (the (context_workspace ctx)) = Some w" "prefix w par" "resolved fs par"
    "good_name f" "out = render par @ [slash] @ f" "length out < 4096"
    using creatable_inside [OF assms(1,2) out] by blast
  have m: "ensure_dir h fs out = fs" using ensure_dir_existing [OF assms(1) w(3,4)] w(5) by simp
  have n: "resolve True (h_cwd h) fs out = walk True fs SYMLOOP_MAX par [f]"
    using resolve_name [OF assms(1) w(3,4)] w(5,6) by (simp add: PATH_MAX_def)
  show ?thesis
  proof (cases "open_write (h_may_write h) (h_cwd h) fs out")
    case None
    with r m show ?thesis by simp
  next
    case (Some q)
    then have q: "walk True fs SYMLOOP_MAX par [f] = Some q" by (simp add: open_write_def n split: option.splits if_splits)
    then have dir: "fs par = Some Dir" by (simp split: if_splits)
    have "q = par @ [f] \<or> (\<exists>t. fs (par @ [f]) = Some (Link t))" using walk_name [of fs par f SYMLOOP_MAX] dir w(4) q by auto
    with Some r m w c dir show ?thesis by auto
  qed
qed simp

definition demo_write :: "string \<Rightarrow> tool_outcome" where
  "demo_write p =
     tool_write_file demo_host (demo_parse [(''path'', JString p), (''content'', JString ''mine'')]) demo_fs demo_context ''args''"

lemma demo_write_args:
  "demo_parse [(''path'', JString p), (''content'', JString c)] ''args'' = Some (JObject [(''path'', JString p), (''content'', JString c)])"
  "get_json_string (Some (JObject [(''path'', JString p), (''content'', JString c)])) ''path'' = Some p"
  "get_json_string (Some (JObject [(''path'', JString p), (''content'', JString c)])) ''content'' = Some c"
  by (simp_all add: get_json_string_def demo_parse_def read_schema_def get_object_item_def json_defs strcaseeq_def tolower_def isupper_def)

lemma demo_write_result:
  assumes "resolve_creatable_path_within_workspace [] demo_fs p (Some ''/ws'') 4096 = Some out"
    and "out = render par @ [slash] @ f" and "resolved demo_fs par" and "good_name f"
    and "open_write (\<lambda>_. True) [] demo_fs out = Some q"
  shows "demo_write p = (no_error, Some ''File written successfully'', demo_fs(q \<mapsto> File ''mine''))"
proof -
  have "ensure_dir demo_host demo_fs out = demo_fs" using ensure_dir_existing [OF demo_wf(1) assms(3,4)] assms(2) by simp
  then show ?thesis
    using assms(1,5) demo_wf(3)
    by (simp add: demo_write_def tool_write_file_def demo_write_args demo_host_def demo_context_def context_workspace_def)
qed

lemma demo_write_link:
  "demo_write ''out'' = (no_error, Some ''File written successfully'', demo_fs([''etc'', ''passwd''] \<mapsto> File ''mine''))"
  by (rule demo_write_result [where out = "''/ws/out''" and par = "[''ws'']" and f = "''out''"])
    (simp_all add: demo_eval good_name_def resolved_def open_write_def strrchr.simps)

lemma demo_write_new:
  "demo_write ''sub/new'' = (no_error, Some ''File written successfully'', demo_fs([''ws'', ''sub'', ''new''] \<mapsto> File ''mine''))"
  by (rule demo_write_result [where out = "''/ws/sub/new''" and par = "[''ws'', ''sub'']" and f = "''new''"])
    (simp_all add: demo_eval good_name_def resolved_def open_write_def)

theorem write_file_confined_witness:
  "snd (snd (demo_write ''sub/new'')) [''ws'', ''sub'', ''new''] = Some (File ''mine'')
   \<and> (\<exists>w par f q content. resolve False [] demo_fs ''/ws'' = Some w \<and> prefix w par \<and> demo_fs par = Some Dir \<and> good_name f
        \<and> content = ''mine'' \<and> snd (snd (demo_write ''sub/new'')) = demo_fs(q \<mapsto> File content)
        \<and> (q = par @ [f] \<or> (\<exists>t. demo_fs (par @ [f]) = Some (Link t))))"
  using write_file_confined [OF demo_wf trans [OF demo_write_def [symmetric] demo_write_new]]
  by (simp add: demo_write_new demo_write_args error_new_def demo_host_def demo_context_def context_workspace_def)

text \<open>
  The exception is real: the parent of the path is resolved, the last name is not, and \<open>fopen\<close> follows it. With the
  policy on, writing to a link in the workspace replaces a file outside of it.
\<close>

theorem write_file_escapes_workspace:
  "wf_fs demo_fs \<and> restricted demo_context \<and> resolve False [] demo_fs ''/ws'' = Some [''ws'']
   \<and> demo_fs [''etc'', ''passwd''] = Some (File ''root'')
   \<and> demo_write ''out'' = (no_error, Some ''File written successfully'', demo_fs([''etc'', ''passwd''] \<mapsto> File ''mine''))"
  using demo_wf demo_write_link by (simp add: demo_eval)

section \<open>Editing\<close>

text \<open>The places at which a text occurs, as what stands before it.\<close>

definition occurs_at :: "string \<Rightarrow> string \<Rightarrow> string \<Rightarrow> bool" where
  "occurs_at s old_str u = (\<exists>v. s = u @ old_str @ v)"

lemma occurs_at_first:
  assumes "strstr s old_str = Some pos"
  shows "\<exists>u v. s = u @ pos \<and> pos = old_str @ v \<and> (\<forall>u'. occurs_at s old_str u' \<longrightarrow> length u \<le> length u')"
proof -
  from strstr_Some [OF assms] obtain u v where u: "s = u @ pos" "pos = old_str @ v" by (auto simp: suffix_def prefix_def)
  have "length u \<le> length u'" if "occurs_at s old_str u'" for u'
  proof -
    from that obtain v' where v': "s = u' @ old_str @ v'" by (auto simp: occurs_at_def)
    then have "length (old_str @ v') \<le> length pos" using strstr_first [OF assms, of "old_str @ v'"] by (simp add: suffix_def)
    moreover have "length u + length pos = length u' + length (old_str @ v')" using u(1) v' by (metis length_append)
    ultimately show ?thesis by simp
  qed
  with u show ?thesis by blast
qed

text \<open>The second search finds exactly the occurrences behind the first one.\<close>

lemma occurs_at_next:
  assumes "s = u @ pos" and "pos = old_str @ v" and "old_str \<noteq> []"
  shows "strstr (tl pos) old_str \<noteq> None \<longleftrightarrow> (\<exists>u'. occurs_at s old_str u' \<and> length u < length u')"
proof
  assume "strstr (tl pos) old_str \<noteq> None"
  then obtain a b where "tl pos = a @ old_str @ b" by (auto simp: strstr_None sublist_def)
  moreover have "pos = hd pos # tl pos" using assms(2,3) by (cases pos) auto
  ultimately have "s = (u @ hd pos # a) @ old_str @ b" using assms(1) by simp
  then show "\<exists>u'. occurs_at s old_str u' \<and> length u < length u'"
    unfolding occurs_at_def by (intro exI [of _ "u @ hd pos # a"]) auto
next
  assume "\<exists>u'. occurs_at s old_str u' \<and> length u < length u'"
  then obtain u' b where u': "s = u' @ old_str @ b" "length u < length u'" by (auto simp: occurs_at_def)
  then obtain a where a: "u' = u @ a" "a \<noteq> []"
    using assms(1) by (metis append_eq_append_conv_if append_take_drop_id drop_eq_Nil less_le_not_le nat_less_le)
  then have "pos = a @ old_str @ b" using assms(1) u'(1) by simp
  then have "tl pos = tl a @ old_str @ b" using a(2) by simp
  then show "strstr (tl pos) old_str \<noteq> None" by (auto simp: strstr_None sublist_def)
qed

lemma edit_bytes_unique:
  assumes "NUL \<notin> set bytes" and "old_str \<noteq> []"
  shows "if \<exists>!u. occurs_at bytes old_str u
         then \<exists>u v. bytes = u @ old_str @ v \<and> edit_bytes bytes old_str new_str = Inr (Inr (u @ new_str @ v))
         else \<exists>msg. edit_bytes bytes old_str new_str = Inr (Inl msg)"
proof -
  have c: "c_string bytes = bytes" using assms(1) by (auto simp: c_string_def takeWhile_eq_all_conv)
  show ?thesis
  proof (cases "strstr bytes old_str")
    case None
    then have "\<not> occurs_at bytes old_str u" for u by (auto simp: strstr_None occurs_at_def)
    with None c show ?thesis by (auto simp: edit_bytes_def)
  next
    case (Some pos)
    then obtain u v where u: "bytes = u @ pos" "pos = old_str @ v" "\<forall>u'. occurs_at bytes old_str u' \<longrightarrow> length u \<le> length u'"
      using occurs_at_first by blast
    have here: "occurs_at bytes old_str u" using u(1,2) by (auto simp: occurs_at_def)
    have same: "u' = u" if "occurs_at bytes old_str u'" "length u' = length u" for u'
      using that u(1) by (auto simp: occurs_at_def)
    have unique: "(\<exists>!u. occurs_at bytes old_str u) \<longleftrightarrow> strstr (tl pos) old_str = None"
      using occurs_at_next [OF u(1,2) assms(2)] here same u(3) by (metis le_neq_implies_less less_irrefl)
    have "pos \<noteq> []" using u(2) assms(2) by simp
    then show ?thesis
      using Some c unique u(1,2) assms(2) by (auto simp: edit_bytes_def)
  qed
qed

text \<open>
  Claim C20. \<open>tool_edit_file\<close> replaces a text that occurs exactly once, counting overlapping occurrences: the file then is what stood
  before the text, the new text, and what stood behind, and no other file changes. When the text does not occur or is not unique, the tool
  says so and nothing changes. With the workspace policy the file lies inside the workspace. (For a file without NUL bytes and a
  text that is not empty.)
\<close>

theorem edit_file_replaces_unique:
  assumes "wf_fs fs" and "resolved fs (h_cwd h)" and "parse args_json = Some json"
    and "get_json_string (Some json) ''path'' = Some p" and "get_json_string (Some json) ''old_str'' = Some old_str"
    and "get_json_string (Some json) ''new_str'' = Some new_str"
    and "existing_path h fs ctx p = Some s" and "resolve False (h_cwd h) fs s = Some q" and "fs q = Some (File bytes)"
    and "h_may_read h q" and "h_may_write h q" and "\<forall>n. h_malloc h n" and "NUL \<notin> set bytes" and "old_str \<noteq> []"
  shows "(if \<exists>!u. occurs_at bytes old_str u
          then \<exists>u v. bytes = u @ old_str @ v
                 \<and> tool_edit_file h parse fs ctx args_json = Inr (no_error, Some ''File edited successfully'', fs(q \<mapsto> File (u @ new_str @ v)))
          else \<exists>msg. tool_edit_file h parse fs ctx args_json = Inr (error_new ERR_TOOL (Some msg), None, fs))
         \<and> (restricted ctx \<longrightarrow> (\<exists>w. resolve False (h_cwd h) fs (the (context_workspace ctx)) = Some w \<and> prefix w q))"
proof
  have "open_read (h_may_read h) (h_cwd h) fs s = Some q" "open_write (h_may_write h) (h_cwd h) fs s = Some q"
    using assms(8-11) resolve_existing [OF assms(8)] by (simp_all add: open_read_def open_write_def)
  then have t: "tool_edit_file h parse fs ctx args_json =
      (case edit_bytes bytes old_str new_str of
         Inl fault \<Rightarrow> Inl fault
       | Inr (Inl msg) \<Rightarrow> Inr (error_new ERR_TOOL (Some msg), None, fs)
       | Inr (Inr new_data) \<Rightarrow> Inr (no_error, Some ''File edited successfully'', fs(q \<mapsto> File new_data)))"
    using assms(3-7,9,12) by (simp add: tool_edit_file_def split: sum.splits)
  show "if \<exists>!u. occurs_at bytes old_str u
          then \<exists>u v. bytes = u @ old_str @ v
                 \<and> tool_edit_file h parse fs ctx args_json = Inr (no_error, Some ''File edited successfully'', fs(q \<mapsto> File (u @ new_str @ v)))
          else \<exists>msg. tool_edit_file h parse fs ctx args_json = Inr (error_new ERR_TOOL (Some msg), None, fs)"
  proof (cases "\<exists>!u. occurs_at bytes old_str u")
    case True
    with edit_bytes_unique [OF assms(13,14), of new_str] obtain u v
      where "bytes = u @ old_str @ v" "edit_bytes bytes old_str new_str = Inr (Inr (u @ new_str @ v))" by auto
    with t have "bytes = u @ old_str @ v
        \<and> tool_edit_file h parse fs ctx args_json = Inr (no_error, Some ''File edited successfully'', fs(q \<mapsto> File (u @ new_str @ v)))"
      by simp
    with True show ?thesis by auto
  next
    case False
    with edit_bytes_unique [OF assms(13,14), of new_str] t show ?thesis by auto
  qed
  show "restricted ctx \<longrightarrow> (\<exists>w. resolve False (h_cwd h) fs (the (context_workspace ctx)) = Some w \<and> prefix w q)"
  proof
    assume "restricted ctx"
    with assms(7) have "resolve_existing_path_within_workspace (h_cwd h) fs p (context_workspace ctx) 4096 = Some s"
      by (simp add: existing_path_def)
    from existing.guard_inside [OF assms(1,2) this] obtain w r where
      "resolve False (h_cwd h) fs (the (context_workspace ctx)) = Some w" "prefix w r" "resolved fs r" "s = render r" "length s < PATH_MAX"
      by blast
    with resolve_render [OF assms(1), of r False "h_cwd h"] assms(8)
    show "\<exists>w. resolve False (h_cwd h) fs (the (context_workspace ctx)) = Some w \<and> prefix w q" by auto
  qed
qed

definition demo_edit :: "tool_fault + tool_outcome" where
  "demo_edit =
     tool_edit_file demo_host (demo_parse [(''path'', JString ''sub/./up''), (''old_str'', JString ''p''), (''new_str'', JString ''b'')])
       demo_fs demo_context ''args''"

theorem edit_file_replaces_unique_witness:
  "demo_edit = Inr (no_error, Some ''File edited successfully'', demo_fs([''ws'', ''a.txt''] \<mapsto> File ''albha''))"
proof -
  let ?json = "JObject [(''path'', JString ''sub/./up''), (''old_str'', JString ''p''), (''new_str'', JString ''b'')]"
  let ?parse = "demo_parse [(''path'', JString ''sub/./up''), (''old_str'', JString ''p''), (''new_str'', JString ''b'')]"
  have a: "?parse ''args'' = Some ?json" by (simp add: demo_parse_def read_schema_def)
  have g: "get_json_string (Some ?json) ''path'' = Some ''sub/./up''" "get_json_string (Some ?json) ''old_str'' = Some ''p''"
    "get_json_string (Some ?json) ''new_str'' = Some ''b''"
    by (simp_all add: get_json_string_def get_object_item_def json_defs strcaseeq_def tolower_def isupper_def)
  have e: "existing_path demo_host demo_fs demo_context ''sub/./up'' = Some ''/ws/a.txt''"
    using demo_existing demo_wf(3) by (simp add: existing_path_def demo_host_def demo_context_def context_workspace_def)
  have r: "resolve False (h_cwd demo_host) demo_fs ''/ws/a.txt'' = Some [''ws'', ''a.txt'']"
    by (simp add: demo_eval demo_host_def)
  have f: "demo_fs [''ws'', ''a.txt''] = Some (File ''alpha'')" by (simp add: demo_fs_def)
  have h: "h_may_read demo_host q" "h_may_write demo_host q" "\<forall>n. h_malloc demo_host n" for q by (simp_all add: demo_host_def)
  have o: "occurs_at ''alpha'' ''p'' u \<longleftrightarrow> u = ''al''" for u
    by (auto simp: occurs_at_def Cons_eq_append_conv append_eq_Cons_conv)
  have s: "''alpha'' = u @ ''p'' @ v \<longleftrightarrow> u = ''al'' \<and> v = ''ha''" for u v
    by (auto simp: Cons_eq_append_conv append_eq_Cons_conv)
  have n: "NUL \<notin> set ''alpha''" "''p'' \<noteq> []" by simp_all
  have u: "\<exists>!u. occurs_at ''alpha'' ''p'' u" by (simp add: o)
  from conjunct1 [OF edit_file_replaces_unique [where h = demo_host and parse = ?parse and fs = demo_fs, OF demo_wf(1,2) a g e r f h n]]
  obtain u v where "''alpha'' = u @ ''p'' @ v"
    "demo_edit = Inr (no_error, Some ''File edited successfully'', demo_fs([''ws'', ''a.txt''] \<mapsto> File (u @ ''b'' @ v)))"
    unfolding if_P [OF u] demo_edit_def by blast
  then show ?thesis using s [of u v] by simp
qed

text \<open>Two cases that the theorem leaves out: an empty text in an empty file, and a file with a NUL byte, which is cut there.\<close>

theorem edit_empty_file_overread: "edit_bytes [] [] new_str = Inl Read_Past_End"
  by (simp add: edit_bytes_def c_string_def)

theorem edit_cuts_at_nul:
  assumes "NUL \<notin> set bytes" and "old_str \<noteq> []" and "\<exists>!u. occurs_at bytes old_str u"
  shows "edit_bytes (bytes @ NUL # rest) old_str new_str = edit_bytes bytes old_str new_str"
proof -
  have c: "c_string (bytes @ NUL # rest) = bytes" "c_string bytes = bytes"
    using assms(1) by (induction bytes) (auto simp: c_string_def)
  obtain pos where pos: "strstr bytes old_str = Some pos"
    using assms(3) by (cases "strstr bytes old_str") (auto simp: strstr_None occurs_at_def)
  with strstr_Some [OF pos] assms(2) have "pos \<noteq> []" "bytes \<noteq> []" by auto
  with c pos show ?thesis by (auto simp: edit_bytes_def)
qed

section \<open>Reading back\<close>

lemma ensure_dir_keeps:
  assumes "wf_fs fs"
  shows "wf_fs (ensure_dir h fs p) \<and> (\<forall>q. resolved fs q \<longrightarrow> resolved (ensure_dir h fs p) q)"
proof -
  have "wf_fs (fold (\<lambda>d fs. mkdir (h_may_write h) (h_cwd h) fs d) ms fs)
      \<and> (\<forall>q. resolved fs q \<longrightarrow> resolved (fold (\<lambda>d fs. mkdir (h_may_write h) (h_cwd h) fs d) ms fs) q)" for ms
    using assms
  proof (induction ms arbitrary: fs)
    case (Cons m ms)
    with mkdir_keeps [OF Cons.prems, of "h_may_write h" "h_cwd h" m] show ?case by auto
  qed simp
  then show ?thesis by (simp add: ensure_dir_def)
qed

lemma written_is_read:
  assumes "wf_fs fs" and "resolved fs (h_cwd h)" and "\<forall>q. h_may_read h q" and "\<forall>n. h_malloc h n"
    and "open_write (h_may_write h) (h_cwd h) fs p = Some q" and "length content \<le> MAX_READ_SIZE" and "NUL \<notin> set content"
  shows "read_opened h (fs(q \<mapsto> File content)) p = (no_error, Some content)"
proof -
  have q: "resolve True (h_cwd h) fs p = Some q" "fs q \<noteq> Some Dir"
    using assms(5) by (auto simp: open_write_def split: option.splits if_splits)
  have "resolved fs (start_dir p (h_cwd h))"
    using assms(1,2) wf_fs_root [OF assms(1)] by (simp add: start_dir_def resolved_def)
  with walk_written [OF assms(1)] q have "resolve False (h_cwd h) (fs(q \<mapsto> File content)) p = Some q"
    by (auto simp: resolve_def split: if_splits)
  moreover have "c_string content = content" using assms(7) by (auto simp: c_string_def takeWhile_eq_all_conv)
  ultimately show ?thesis using assms(3,4,6) by (simp add: read_opened_def open_read_def MAX_READ_SIZE_def)
qed

text \<open>
  Without the workspace policy, what \<open>tool_write_file\<close> wrote, creating the directories on the way, is what \<open>tool_read_file\<close>
  returns for the same path, through whatever links it goes, for texts of at most 128000 bytes.
\<close>

theorem write_read_roundtrip:
  assumes "wf_fs fs" and "resolved fs (h_cwd h)" and "\<forall>q. h_may_read h q" and "\<forall>n. h_malloc h n" and "\<not> restricted ctx"
    and "get_json_string (parse write_args) ''path'' = Some p" and "get_json_string (parse write_args) ''content'' = Some content"
    and "tool_write_file h parse fs ctx write_args = (no_error, result, fs')"
    and "tool_validate_and_cast_params nf parse print read_args (Some read_schema) = (Some casted, None)"
    and "get_json_string (parse casted) ''path'' = Some p"
    and "length content \<le> MAX_READ_SIZE" and "NUL \<notin> set content"
  shows "tool_read_file h nf parse print fs' ctx read_args = (no_error, Some content, fs')"
proof -
  let ?fs = "ensure_dir h fs p"
  obtain json where json: "parse write_args = Some json"
    using assms(6) by (cases "parse write_args") (auto simp: get_json_string_def get_object_item_def json_defs)
  obtain q where q: "open_write (h_may_write h) (h_cwd h) ?fs p = Some q" "fs' = ?fs(q \<mapsto> File content)"
    using assms(5-8) json
    by (cases "open_write (h_may_write h) (h_cwd h) ?fs p") (auto simp: tool_write_file_def Let_def error_new_def)
  have "wf_fs ?fs" "resolved ?fs (h_cwd h)" using ensure_dir_keeps [OF assms(1), of h p] assms(2) by auto
  from written_is_read [OF this assms(3,4) q(1) assms(11,12)] q(2)
  have "read_opened h fs' p = (no_error, Some content)" by simp
  with assms(5,9,10) show ?thesis by (simp add: tool_read_file_def existing_path_def)
qed

lemma demo_write_read:
  "ensure_dir demo_host demo_fs ''/ws/new/f'' = demo_fs([''ws'', ''new''] \<mapsto> Dir)"
  "open_write (\<lambda>_. True) [] (demo_fs([''ws'', ''new''] \<mapsto> Dir)) ''/ws/new/f'' = Some [''ws'', ''new'', ''f'']"
proof -
  have "ensure_dir_paths ''/ws/new/f'' = [''/ws'', ''/ws/new'']"
    by (simp add: ensure_dir_paths_def Let_def FILE_PATH_MAX_def c_trunc_def)
  then show "ensure_dir demo_host demo_fs ''/ws/new/f'' = demo_fs([''ws'', ''new''] \<mapsto> Dir)"
    by (simp add: ensure_dir_def mkdir_def Let_def demo_host_def demo_eval)
  show "open_write (\<lambda>_. True) [] (demo_fs([''ws'', ''new''] \<mapsto> Dir)) ''/ws/new/f'' = Some [''ws'', ''new'', ''f'']"
    by (simp add: open_write_def demo_eval)
qed

theorem write_read_roundtrip_witness:
  "\<exists>nf parse fs'. tool_read_file demo_host nf parse demo_print fs' None ''args'' = (no_error, Some ''mine'', fs')
     \<and> demo_fs [''ws'', ''new'', ''f''] = None \<and> fs' [''ws'', ''new'', ''f''] = Some (File ''mine'')"
proof -
  let ?parse = "demo_parse [(''path'', JString ''/ws/new/f''), (''content'', JString ''mine'')]"
  let ?nf = "\<lparr>nf_format_g = (\<lambda>_. []), nf_strtod = (\<lambda>s. (Some 0, s))\<rparr>"
  let ?fs = "demo_fs([''ws'', ''new''] \<mapsto> Dir, [''ws'', ''new'', ''f''] \<mapsto> File ''mine'')"
  have u: "\<not> restricted None" by (simp add: restricted_def)
  have g: "get_json_string (?parse ''args'') ''path'' = Some ''/ws/new/f''" "get_json_string (?parse ''args'') ''content'' = Some ''mine''"
    by (simp_all add: demo_write_args)
  have w: "tool_write_file demo_host ?parse demo_fs None ''args'' = (no_error, Some ''File written successfully'', ?fs)"
    using demo_write_read u by (simp add: tool_write_file_def demo_write_args Let_def demo_host_def)
  have r: "read_schema \<noteq> []" "read_schema \<noteq> ''args''" by (simp_all add: read_schema_def)
  have v: "tool_validate_and_cast_params ?nf ?parse demo_print ''args'' (Some read_schema) = (Some ''args'', None)"
    by (simp add: tool_validate_and_cast_params_def demo_parse_def demo_print_def r r [symmetric] validate_args_def validate_property_def
        check_required_def check_string_def get_object_item_def strcaseeq_def tolower_def isupper_def Let_def json_defs cast_to_string_def)
  have h: "\<forall>q. h_may_read demo_host q" "\<forall>n. h_malloc demo_host n" by (simp_all add: demo_host_def)
  have "tool_read_file demo_host ?nf ?parse demo_print ?fs None ''args'' = (no_error, Some ''mine'', ?fs)"
    by (rule write_read_roundtrip [OF demo_wf(1,2) h u g w v g(1)]) (simp_all add: MAX_READ_SIZE_def)
  then show ?thesis by (intro exI [of _ ?nf] exI [of _ ?parse] exI [of _ ?fs]) (simp add: demo_fs_def)
qed

section \<open>Commands\<close>

lemma within_workspace_inside:
  assumes "wf_fs fs" and "resolved fs cwd" and "is_path_within_workspace cwd fs p workspace"
  shows "\<exists>w q. resolve False cwd fs (the workspace) = Some w \<and> prefix w q
           \<and> (resolve False cwd fs p = Some q \<or> \<not> starts_with [slash] p \<and> resolve False cwd fs (the workspace @ [slash] @ p) = Some q)"
proof -
  obtain ws where ws: "resolve_workspace_path cwd fs workspace 4096 = Some ws"
    using assms(3) by (auto simp: is_path_within_workspace_def split: option.splits)
  then obtain r t where r: "realpath cwd fs t = Some r" "below ws r" "t = p \<or> \<not> starts_with [slash] p \<and> t = the workspace @ [slash] @ p"
    using assms(3) by (auto simp: is_path_within_workspace_def Let_def split: option.splits if_splits)
  obtain w where w: "resolve False cwd fs (the workspace) = Some w" "resolved fs w" "ws = render w"
    using workspace_Some [OF assms(1,2) ws] by blast
  obtain q where q: "resolve False cwd fs t = Some q" "resolved fs q" "r = render q" using realpath_Some [OF assms(1,2) r(1)] by blast
  with below_prefix [OF assms(1) w(2) q(2)] r w show ?thesis by blast
qed

lemma has_dotdot_sublist: "has_dotdot t = sublist ''..'' t"
proof (induction t rule: has_dotdot.induct)
  case (1 a b cs)
  then show ?case by (auto simp: sublist_Cons_right)
qed (auto simp: sublist_Cons_right)

text \<open>
  A command that the workspace policy of \<open>tool_exec\<close> lets through has only letters, digits, blanks and the bytes
  \<open>_-./,:@+=%\<close>; none of its words contains two dots in a row; and a word that begins with a slash is the path of something inside
  the workspace, after all links are resolved.
\<close>

theorem exec_policy_sound:
  assumes "wf_fs fs" and "resolved fs (h_cwd h)" and "restrict_exec ctx" and "exec_policy h fs ctx command = None"
  shows "(\<forall>c \<in> set command. blank c \<or> isalnum c \<or> c \<in> set ''_-./,:@+=%'')
         \<and> (\<forall>t \<in> set (exec_tokens command). \<not> sublist ''..'' t
              \<and> (\<forall>ws. exec_workspace ctx = Some ws \<and> starts_with [slash] t \<longrightarrow>
                   (\<exists>w q. resolve False (h_cwd h) fs ws = Some w \<and> resolve False (h_cwd h) fs t = Some q \<and> prefix w q)))"
proof -
  have safe: "command_is_safe_exec command"
    using assms(3,4) by (auto simp: exec_policy_def command_contains_unsafe_token_def split: if_splits)
  have "\<exists>w q. resolve False (h_cwd h) fs ws = Some w \<and> resolve False (h_cwd h) fs t = Some q \<and> prefix w q"
    if t: "t \<in> set (exec_tokens command)" "exec_workspace ctx = Some ws" "starts_with [slash] t" for t ws
  proof -
    have "is_path_within_workspace_len (h_cwd h) fs t (length t) (Some ws)"
      using assms(3,4) safe t by (auto simp: exec_policy_def command_contains_unsafe_token_def list_ex_iff split: if_splits)
    then have "is_path_within_workspace (h_cwd h) fs t (Some ws)"
      by (auto simp: is_path_within_workspace_len_def split: if_splits)
    from within_workspace_inside [OF assms(1,2) this] t(3) show ?thesis by auto
  qed
  with safe show ?thesis
    by (auto simp: command_is_safe_exec_def exec_token_is_safe_def safe_char_def list_all_iff has_dotdot_sublist)
qed

lemma demo_exec_policy:
  "exec_policy demo_host demo_fs demo_context ''cat /ws/a.txt'' = None"
  "exec_policy demo_host demo_fs demo_context ''cat /etc/passwd'' \<noteq> None"
  "exec_policy demo_host demo_fs demo_context ''dd if=/etc/passwd'' = None"
  "exec_policy demo_host demo_fs demo_context ''cat out'' = None"
  by (simp_all add: exec_policy_def restrict_exec_def demo_context_def demo_host_def command_contains_unsafe_token_def
      command_is_safe_exec_def exec_token_is_safe_def safe_char_def blank_def exec_tokens.simps ctype_defs exec_workspace_def demo_eval)

lemma demo_restrict_exec: "restrict_exec demo_context" "exec_workspace demo_context = Some ''/ws''"
  by (simp_all add: restrict_exec_def exec_workspace_def demo_context_def)

theorem exec_policy_sound_witness:
  "''/ws/a.txt'' \<in> set (exec_tokens ''cat /ws/a.txt'')
   \<and> (\<exists>w q. resolve False [] demo_fs ''/ws'' = Some w \<and> resolve False [] demo_fs ''/ws/a.txt'' = Some q \<and> prefix w q)"
proof -
  have t: "''/ws/a.txt'' \<in> set (exec_tokens ''cat /ws/a.txt'')" by (simp add: exec_tokens.simps blank_def)
  have "starts_with [slash] ''/ws/a.txt''" by (simp add: starts_with_def)
  with exec_policy_sound [OF demo_wf(1,2) demo_restrict_exec(1) demo_exec_policy(1)] demo_restrict_exec(2) t
  have "\<exists>w q. resolve False (h_cwd demo_host) demo_fs ''/ws'' = Some w \<and> resolve False (h_cwd demo_host) demo_fs ''/ws/a.txt'' = Some q \<and> prefix w q"
    by blast
  with t show ?thesis by (simp add: demo_host_def)
qed

text \<open>
  The policy does not keep commands inside the workspace: a path in the middle of a word and a relative path through a
  link are not looked at. With the policy on, \<open>cat /etc/passwd\<close> is refused, but \<open>dd if=/etc/passwd\<close> is let through, and so is \<open>cat out\<close>,
  where \<open>out\<close> in the workspace is a link to that file.
\<close>

theorem exec_policy_lets_outside_through:
  "restrict_exec demo_context \<and> exec_workspace demo_context = Some ''/ws''
   \<and> exec_policy demo_host demo_fs demo_context ''cat /etc/passwd'' \<noteq> None
   \<and> exec_policy demo_host demo_fs demo_context ''dd if=/etc/passwd'' = None
   \<and> exec_policy demo_host demo_fs demo_context ''cat out'' = None \<and> resolve False [] demo_fs ''/ws/out'' = Some [''etc'', ''passwd'']"
  using demo_restrict_exec demo_exec_policy by (simp add: demo_eval)

text \<open>What ends the loop that reads the output.\<close>

definition ending :: "int \<Rightarrow> int \<Rightarrow> select_result \<Rightarrow> bool" where
  "ending start_time timeout_secs r =
     (case r of
        Sel_Error \<Rightarrow> True
      | Sel_End \<Rightarrow> True
      | Sel_Nothing now \<Rightarrow> now - start_time \<ge> timeout_secs
      | Sel_Data bytes \<Rightarrow> bytes = [])"

lemma exec_loop_running: "snd (exec_loop st tmo out rs) = Running \<longleftrightarrow> \<not> list_ex (ending st tmo) rs"
  by (induction st tmo out rs rule: exec_loop.induct) (auto simp: ending_def)

text \<open>
  \<open>tool_exec\<close> returns exactly when the command closes its output, reading fails, or a second passes without output
  after the time limit. The limit is looked at only in such a second: a command that goes on writing is never stopped, however
  long it runs.
\<close>

theorem exec_returns_iff:
  assumes "parse args_json = Some json" and "get_json_string (Some json) ''command'' = Some command"
    and "exec_policy h fs ctx command = None"
  shows "snd (snd (snd (tool_exec h parse (True, True) start_time events st fs ctx args_json)))
         \<longleftrightarrow> list_ex (\<lambda>r. case r of Sel_Error \<Rightarrow> True | Sel_End \<Rightarrow> True | Sel_Nothing now \<Rightarrow> now - start_time \<ge> exec_timeout ctx
                              | Sel_Data bytes \<Rightarrow> bytes = []) events"
proof -
  obtain out e where e: "exec_loop start_time (exec_timeout ctx) [] events = (out, e)" by fastforce
  have "snd (snd (snd (tool_exec h parse (True, True) start_time events st fs ctx args_json))) \<longleftrightarrow> e \<noteq> Running"
    using assms e by (cases e) (simp_all add: tool_exec_def)
  moreover have "e \<noteq> Running \<longleftrightarrow> list_ex (ending start_time (exec_timeout ctx)) events"
    using exec_loop_running [of start_time "exec_timeout ctx" "[]" events] e by simp
  ultimately show ?thesis by (simp add: ending_def [abs_def])
qed

theorem exec_returns_iff_witness:
  "\<not> snd (snd (snd (tool_exec demo_host (demo_parse [(''command'', JString ''cat out'')]) (True, True) 0
        (replicate 1000 (Sel_Data ''y'')) (Exited 0) demo_fs demo_context ''args'')))"
proof -
  have a: "demo_parse [(''command'', JString ''cat out'')] ''args'' = Some (JObject [(''command'', JString ''cat out'')])"
    by (simp add: demo_parse_def read_schema_def)
  have g: "get_json_string (Some (JObject [(''command'', JString ''cat out'')])) ''command'' = Some ''cat out''"
    by (simp add: get_json_string_def get_object_item_def json_defs)
  show ?thesis
    using exec_returns_iff [where parse = "demo_parse [(''command'', JString ''cat out'')]" and h = demo_host and fs = demo_fs
        and ctx = demo_context and start_time = 0 and st = "Exited 0", OF a g demo_exec_policy(4)]
    by (simp add: list_ex_iff)
qed

end
