(* ===== verification/BuiltinTools.thy ===== *)
theory BuiltinTools
  imports FileTools Memory Subagent Cron Bus
begin

text \<open>
  \<open>src/tools/tools_impl.c\<close>, second part: the tools that pass work to other components, which are modelled in their own
  theories (the bus, the cron service, the subagents, the memory), and \<open>parse_attachment_spec\<close> of
  \<open>plugins/channels/feishu_channel/feishu_channel.c\<close>, which reads the attachments that the message tool lets through. A pointer
  of the context to a component is an \<open>option\<close>. The skills loader is given by the texts that it returns.
\<close>

section \<open>Attachments of a message\<close>

text \<open>The object that is printed for an attachment given as an object.\<close>

definition normalized_attachment :: "json \<Rightarrow> string \<Rightarrow> string \<Rightarrow> json" where
  "normalized_attachment item ty p =
     JObject ([(''type'', JString ty), (''path'', JString p)]
       @ (case json_number (get_object_item (Some item) ''duration'') of
            Some r \<Rightarrow> if number_valueint r > 0 then [(''duration'', JNumber (of_int (number_valueint r)))] else []
          | None \<Rightarrow> [])
       @ (case get_json_string (Some item) ''cover_path'' of Some c \<Rightarrow> [(''cover_path'', JString c)] | None \<Rightarrow> [])
       @ (case get_json_string (Some item) ''url'' of Some u \<Rightarrow> [(''url'', JString u)] | None \<Rightarrow> []))"

text \<open>\<open>ok\<close>: the JSON object can be allocated; \<open>grow\<close> and \<open>alloc\<close> say which sizes the string array can be given.\<close>

fun add_attachments ::
  "json_printer \<Rightarrow> bool \<Rightarrow> (nat \<Rightarrow> bool) \<Rightarrow> (nat \<Rightarrow> bool) \<Rightarrow> json list \<Rightarrow> StringArray \<Rightarrow> Error \<times> StringArray" where
  "add_attachments print ok grow alloc [] arr = (no_error, arr)"
| "add_attachments print ok grow alloc (item # items) arr =
     (case item of
        JString s \<Rightarrow> add_attachments print ok grow alloc items (string_array_add grow alloc arr (Some s))
      | JObject kvs \<Rightarrow>
          (case (get_json_string (Some item) ''type'', get_json_string (Some item) ''path'') of
             (Some ty, Some p) \<Rightarrow>
               if \<not> ok then (error_new ERR_MEMORY (Some ''Memory allocation failed''), arr)
               else (case print (normalized_attachment item ty p) of
                       None \<Rightarrow> (error_new ERR_MEMORY (Some ''Memory allocation failed''), arr)
                     | Some s \<Rightarrow> add_attachments print ok grow alloc items (string_array_add grow alloc arr (Some s)))
           | _ \<Rightarrow> (error_new ERR_INVALID_PARAM (Some (''Attachment object requires 'type' and 'path'' @ [CHR 0x27])), arr))
      | _ \<Rightarrow> (error_new ERR_INVALID_PARAM (Some ''Each attachment must be string or object''), arr))"

definition parse_send_message_attachments ::
  "json_printer \<Rightarrow> bool \<Rightarrow> (nat \<Rightarrow> bool) \<Rightarrow> (nat \<Rightarrow> bool) \<Rightarrow> json \<Rightarrow> StringArray \<Rightarrow> Error \<times> StringArray" where
  "parse_send_message_attachments print ok grow alloc json arr =
     (case get_object_item (Some json) ''attachments'' of
        None \<Rightarrow> (no_error, arr)
      | Some (JArray items) \<Rightarrow> add_attachments print ok grow alloc items arr
      | Some _ \<Rightarrow> (error_new ERR_INVALID_PARAM (Some ('''attachments' must be an array'')), arr))"

definition path_key :: string where
  "path_key = ''\"path\":\"''"

text \<open>The check of one attachment: the error with which the message is refused.\<close>

definition check_attachment :: "host \<Rightarrow> fsys \<Rightarrow> string option \<Rightarrow> string \<Rightarrow> Error option" where
  "check_attachment h fs workspace att =
     (let outside = error_new ERR_TOOL (Some ''Attachment path outside workspace'');
          check = (\<lambda>p. if is_path_within_workspace (h_cwd h) fs p workspace then None else Some outside)
      in case strstr att path_key of
           None \<Rightarrow> check att
         | Some pkey \<Rightarrow>
             (let p = drop 8 pkey
              in case strchr p (CHR 0x22) of
                   None \<Rightarrow> check p
                 | Some e \<Rightarrow>
                     (let path_len = length p - length e
                      in if path_len \<ge> 4096 then Some (error_new ERR_TOOL (Some ''Attachment path too long''))
                         else check (take path_len p))))"

fun check_attachments :: "host \<Rightarrow> fsys \<Rightarrow> string option \<Rightarrow> string list \<Rightarrow> Error option" where
  "check_attachments h fs workspace [] = None"
| "check_attachments h fs workspace (att # atts) =
     (case check_attachment h fs workspace att of Some err \<Rightarrow> Some err | None \<Rightarrow> check_attachments h fs workspace atts)"

text \<open>The result is the error, \<open>result\<close> and the bus; \<open>None\<close> when sending does not return.\<close>

definition tool_send_message ::
  "host \<Rightarrow> json_parser \<Rightarrow> json_printer \<Rightarrow> bool \<Rightarrow> bool \<Rightarrow> fsys \<Rightarrow> MessageBus option \<Rightarrow> ToolContext option \<Rightarrow> string \<Rightarrow>
   (Error \<times> string option \<times> MessageBus option) option" where
  "tool_send_message h parse print ok queue_ok fs bus ctx args_json =
     (case ctx of
        None \<Rightarrow> Some (error_new ERR_INVALID_PARAM (Some ''Invalid tool context''), None, bus)
      | Some c \<Rightarrow>
          if tx_magic c \<noteq> TOOL_CONTEXT_MAGIC then Some (error_new ERR_INVALID_PARAM (Some ''Invalid tool context''), None, bus)
          else if bus = None then Some (error_new ERR_INVALID_PARAM (Some ''MessageBus not available in tool context''), None, bus)
          else (case parse args_json of
                  None \<Rightarrow> Some (error_new ERR_JSON (Some ''Invalid JSON arguments''), None, bus)
                | Some json \<Rightarrow>
                    (let channel = resolve_channel ctx (get_json_string (Some json) ''channel'');
                         chat_id = resolve_chat_id ctx (get_json_string (Some json) ''chat_id'')
                     in case get_json_string (Some json) ''content'' of
                          None \<Rightarrow> Some (error_new ERR_INVALID_PARAM (Some ''Missing 'content' argument''), None, bus)
                        | Some content \<Rightarrow>
                            (case outbound_message_new ok (Some channel) (Some chat_id) (Some content) of
                               None \<Rightarrow> Some (error_new ERR_MEMORY (Some ''Failed to allocate outbound message''), None, bus)
                             | Some msg \<Rightarrow>
                                 (case parse_send_message_attachments print ok (h_malloc h) (h_malloc h) json (out_attachments msg) of
                                    (err, arr) \<Rightarrow>
                                      if err_code err \<noteq> ERR_NONE then Some (err, None, bus)
                                      else (case (if restricted ctx \<and> tx_workspace c \<noteq> None
                                                  then check_attachments h fs (tx_workspace c) (sa_items arr) else None) of
                                              Some err \<Rightarrow> Some (err, None, bus)
                                            | None \<Rightarrow>
                                                map_option (\<lambda>(bus, freed). (no_error, Some ''Message queued for delivery'', bus))
                                                  (message_bus_send_outbound queue_ok bus (msg\<lparr>out_attachments := arr\<rparr>))))))))"

section \<open>Subagents and jobs\<close>

definition tool_spawn ::
  "json_parser \<Rightarrow> bool \<Rightarrow> string \<Rightarrow> SubagentManager option \<Rightarrow> ToolContext option \<Rightarrow> string \<Rightarrow>
   Error \<times> string option \<times> SubagentTask option" where
  "tool_spawn parse ok task_id mgr ctx args_json =
     (case (ctx, mgr) of
        (Some c, Some m) \<Rightarrow>
          (case parse args_json of
             None \<Rightarrow> (error_new ERR_JSON (Some ''Invalid JSON arguments''), None, None)
           | Some json \<Rightarrow>
               (case get_json_string (Some json) ''task'' of
                  None \<Rightarrow> (error_new ERR_INVALID_PARAM (Some ''Missing 'task' argument''), None, None)
                | Some task \<Rightarrow>
                    (let req = \<lparr>rq_task = task, rq_label = get_json_string (Some json) ''label'',
                                rq_origin_channel = (if tx_current_channel c \<noteq> [] then tx_current_channel c else ''cli''),
                                rq_origin_chat_id = (if tx_current_chat_id c \<noteq> [] then tx_current_chat_id c else ''current'')\<rparr>
                     in case subagent_manager_spawn ok task_id m req of
                          (Some resp, t) \<Rightarrow> (no_error, Some resp, t)
                        | (None, t) \<Rightarrow> (no_error, Some ''Failed to spawn subagent'', t))))
      | _ \<Rightarrow> (error_new ERR_INVALID_PARAM (Some ''SubagentManager not available in tool context''), None, None))"

definition missing_info :: "bool \<Rightarrow> bool \<Rightarrow> bool \<Rightarrow> string" where
  "missing_info no_name no_payload no_schedule =
     c_trunc 256 (''Missing required arguments: '' @ (if no_name then ''name'' else [])
       @ (if no_payload then (if no_name then '', payload'' else ''payload'') else [])
       @ (if no_schedule then (if no_name \<or> no_payload then '', schedule'' else ''schedule'') else [])
       @ ''. Required: name (string), payload (string), schedule (string). ''
       @ ''Example: {\"name\":\"drink-water\",\"payload\":\"Remind user to drink water\",\"schedule\":\"@in 60\"}'')"

definition tool_cron ::
  "int \<Rightarrow> json_parser \<Rightarrow> json_printer \<Rightarrow> int \<Rightarrow> int \<Rightarrow> CronService option \<Rightarrow> ToolContext option \<Rightarrow> string \<Rightarrow>
   cron_error + (Error \<times> string option \<times> CronService option)" where
  "tool_cron offset parse print now rnd service ctx args_json =
     (case (ctx, service) of
        (Some c, Some sv) \<Rightarrow>
          (case parse args_json of
             None \<Rightarrow> Inr (error_new ERR_JSON (Some ''Invalid JSON arguments''), None, service)
           | Some json \<Rightarrow>
               (let name = get_json_string (Some json) ''name''; payload = get_json_string (Some json) ''payload'';
                    schedule = get_json_string (Some json) ''schedule''
                in if name = None \<or> payload = None \<or> schedule = None
                   then Inr (error_new ERR_INVALID_PARAM (Some (missing_info (name = None) (payload = None) (schedule = None))), None, service)
                   else (let channel = resolve_channel ctx (get_json_string (Some json) ''channel'');
                             to = resolve_chat_id ctx (get_json_string (Some json) ''chat_id'');
                             job = \<lparr>cj_id = None, cj_name = name, cj_payload_message = payload,
                                    cj_channel = Some (if channel = [] then ''cli'' else channel),
                                    cj_to = Some (if to = [] then ''local_user'' else to), cj_deliver = True, cj_next_run = 0,
                                    cj_schedule = schedule, cj_retry_count = 0, cj_max_retries = 0, cj_last_status = 0\<rparr>
                         in case cron_service_add_job offset print now rnd job sv of
                              Inl fault \<Rightarrow> Inl fault
                            | Inr (Some job_id, sv) \<Rightarrow>
                                Inr (no_error, Some (c_trunc 256 (''Job scheduled with ID: '' @ job_id)), Some sv)
                            | Inr (None, sv) \<Rightarrow>
                                Inr (no_error, Some ''Failed to schedule job: invalid schedule format'', Some sv))))
      | _ \<Rightarrow> Inr (error_new ERR_INVALID_PARAM (Some ''CronService not available in tool context''), None, service))"

section \<open>Memory and skills\<close>

definition tool_memory ::
  "(nat \<Rightarrow> bool) \<Rightarrow> (string \<Rightarrow> bool) \<Rightarrow> json_parser \<Rightarrow> filesystem \<Rightarrow> Memory option \<Rightarrow> ToolContext option \<Rightarrow> string \<Rightarrow>
   Error \<times> string option \<times> Memory option \<times> filesystem" where
  "tool_memory malloc_ok can_write parse fs mem ctx args_json =
     (case (mem, context_workspace ctx) of
        (Some m, Some ws) \<Rightarrow>
          (case parse args_json of
             None \<Rightarrow> (error_new ERR_JSON (Some ''Invalid JSON arguments''), None, mem, fs)
           | Some json \<Rightarrow>
               (let history_entry = get_json_string (Some json) ''history_entry'';
                    memory_update = get_json_string (Some json) ''memory_update'';
                    content = get_json_string (Some json) ''content''
                in if history_entry = None \<and> memory_update = None \<and> content = None
                   then (error_new ERR_INVALID_PARAM
                           (Some (''Missing arguments: provide 'history_entry' and/or 'memory_update'' @ [CHR 0x27])), None, mem, fs)
                   else (let added = (content \<noteq> None \<and> memory_update = None);
                             m = (if added then memory_add_fact malloc_ok m content else m);
                             (append_err, m, fs) =
                               (if history_entry \<noteq> None then memory_append_history malloc_ok can_write fs m (Some ws) history_entry
                                else (no_error, m, fs))
                         in if err_code append_err \<noteq> ERR_NONE then (append_err, None, Some m, fs)
                            else (let (set_err, m) =
                                        (if memory_update \<noteq> None then memory_set_facts m memory_update else (no_error, m))
                                  in if err_code set_err \<noteq> ERR_NONE then (set_err, None, Some m, fs)
                                     else if added \<or> memory_update \<noteq> None
                                     then (case memory_save can_write fs m (Some ws) of
                                             (err, fs) \<Rightarrow>
                                               if err_code err \<noteq> ERR_NONE then (err, None, Some m, fs)
                                               else (no_error, Some ''Memory consolidated/updated successfully'', Some m, fs))
                                     else (no_error, Some ''Memory consolidated/updated successfully'', Some m, fs)))))
      | _ \<Rightarrow> (error_new ERR_INVALID_PARAM (Some ''Memory or Workspace not available in tool context''), None, mem, fs))"

record SkillsLoader =
  sl_summary :: string
  sl_load :: "string \<Rightarrow> string option"

definition tool_skill :: "json_parser \<Rightarrow> SkillsLoader option \<Rightarrow> ToolContext option \<Rightarrow> string \<Rightarrow> Error \<times> string option" where
  "tool_skill parse loader ctx args_json =
     (case (ctx, loader) of
        (Some c, Some sl) \<Rightarrow>
          (case parse args_json of
             None \<Rightarrow> (error_new ERR_JSON (Some ''Invalid JSON arguments''), None)
           | Some json \<Rightarrow>
               (case get_json_string (Some json) ''action'' of
                  None \<Rightarrow> (error_new ERR_INVALID_PARAM (Some ''Missing 'action' argument''), None)
                | Some action \<Rightarrow>
                    if action = ''list'' then (no_error, Some (sl_summary sl))
                    else if action = ''load''
                    then (case get_json_string (Some json) ''name'' of
                            None \<Rightarrow> (error_new ERR_INVALID_PARAM (Some ''Missing 'name' argument for load action''), None)
                          | Some name \<Rightarrow>
                              (case sl_load sl name of
                                 Some content \<Rightarrow> (no_error, Some content)
                               | None \<Rightarrow> (no_error, Some ''Skill not found'')))
                    else if action = ''unload'' then (no_error, Some ''Unload not implemented (skills are stateless for now)'')
                    else (error_new ERR_INVALID_PARAM (Some ''Unknown action''), None)))
      | _ \<Rightarrow> (error_new ERR_INVALID_PARAM (Some ''SkillsLoader not available in tool context''), None))"

section \<open>The attachments in the channel\<close>

record FeishuAttachment =
  fa_type :: string
  fa_path :: string
  fa_cover_path :: string
  fa_duration :: int

text \<open>The first byte is not part of the extension: it is the dot.\<close>

definition infer_media_type_from_path :: "string \<Rightarrow> string option" where
  "infer_media_type_from_path p =
     (case strrchr p (CHR ''.'') of
        None \<Rightarrow> None
      | Some dot \<Rightarrow>
          (let ext = tl dot
           in if ext = [] then None
              else if list_ex (strcaseeq ext) [''jpg'', ''jpeg'', ''png'', ''webp'', ''gif'', ''bmp'', ''ico'', ''tiff'', ''heic''] then Some ''image''
              else if list_ex (strcaseeq ext) [''opus'', ''mp3'', ''wav'', ''m4a'', ''aac'', ''ogg'', ''amr''] then Some ''audio''
              else if list_ex (strcaseeq ext) [''mp4'', ''mov'', ''m4v'', ''avi'', ''mkv'', ''webm''] then Some ''video''
              else None))"

definition parse_attachment_spec :: "json_parser \<Rightarrow> string \<Rightarrow> FeishuAttachment option" where
  "parse_attachment_spec parse raw =
     (if starts_with ''{'' raw
      then (case parse raw of
              None \<Rightarrow> None
            | Some json \<Rightarrow>
                (case (get_json_string (Some json) ''type'', get_json_string (Some json) ''path'') of
                   (Some ty, Some p) \<Rightarrow>
                     Some \<lparr>fa_type = c_trunc 16 ty, fa_path = c_trunc 1024 p,
                           fa_cover_path = (case get_json_string (Some json) ''cover_path'' of Some c \<Rightarrow> c_trunc 1024 c | None \<Rightarrow> []),
                           fa_duration = (case json_number (get_object_item (Some json) ''duration'') of
                                            Some r \<Rightarrow> if number_valueint r > 0 then number_valueint r else 0
                                          | None \<Rightarrow> 0)\<rparr>
                 | _ \<Rightarrow> None))
      else (case infer_media_type_from_path raw of
              None \<Rightarrow> None
            | Some inferred \<Rightarrow>
                Some \<lparr>fa_type = c_trunc 16 inferred, fa_path = c_trunc 1024 raw, fa_cover_path = [], fa_duration = 0\<rparr>))"

text \<open>Only a regular file that is not empty can be read whole.\<close>

definition read_file_bytes :: "host \<Rightarrow> fsys \<Rightarrow> string \<Rightarrow> string option" where
  "read_file_bytes h fs p =
     (case open_read (h_may_read h) (h_cwd h) fs p of
        None \<Rightarrow> None
      | Some q \<Rightarrow>
          (case fs q of
             Some (File bytes) \<Rightarrow> if bytes = [] \<or> \<not> h_malloc h (length bytes) then None else Some bytes
           | _ \<Rightarrow> None))"

section \<open>What the message tool lets through\<close>

lemma check_attachments_None: "check_attachments h fs ws atts = None \<longleftrightarrow> (\<forall>a \<in> set atts. check_attachment h fs ws a = None)"
  by (induction atts) (auto split: option.splits)

text \<open>A successful call has put one message into the queue, and its attachments have passed the check.\<close>

lemma send_message_ok:
  assumes "tool_send_message h parse print ok queue_ok fs bus ctx args_json = Some (err, result, bus')" and "err_code err = ERR_NONE"
  shows "\<exists>json content msg freed. parse args_json = Some json \<and> get_json_string (Some json) ''content'' = Some content
           \<and> out_channel msg = resolve_channel ctx (get_json_string (Some json) ''channel'')
           \<and> out_chat_id msg = resolve_chat_id ctx (get_json_string (Some json) ''chat_id'') \<and> out_content msg = content
           \<and> out_attachments msg = snd (parse_send_message_attachments print ok (h_malloc h) (h_malloc h) json string_array_new)
           \<and> message_bus_send_outbound queue_ok bus msg = Some (bus', freed)
           \<and> (restricted ctx \<longrightarrow> context_workspace ctx \<noteq> None \<longrightarrow>
                (\<forall>a \<in> set (sa_items (out_attachments msg)). check_attachment h fs (context_workspace ctx) a = None))"
proof -
  have e: "err_code (error_new c m) = c" for c m by (simp add: error_new_def)
  have ce: "check_attachments h fs ws atts = Some er \<Longrightarrow> err_code er \<noteq> ERR_NONE" for ws atts er
    by (induction atts) (auto simp: check_attachment_def Let_def e split: option.splits if_splits)
  obtain c where c: "ctx = Some c" using assms e by (cases ctx) (auto simp: tool_send_message_def)
  obtain json where json: "parse args_json = Some json"
    using assms e c by (cases "parse args_json") (auto simp: tool_send_message_def split: if_splits)
  obtain content where content: "get_json_string (Some json) ''content'' = Some content"
    using assms e c json by (cases "get_json_string (Some json) ''content''") (auto simp: tool_send_message_def Let_def split: if_splits)
  define ch where "ch = resolve_channel ctx (get_json_string (Some json) ''channel'')"
  define ci where "ci = resolve_chat_id ctx (get_json_string (Some json) ''chat_id'')"
  obtain msg0 where msg0: "outbound_message_new ok (Some ch) (Some ci) (Some content) = Some msg0"
    using assms e c json content
    by (cases "outbound_message_new ok (Some ch) (Some ci) (Some content)") (auto simp: tool_send_message_def Let_def ch_def ci_def split: if_splits)
  obtain perr arr where arr: "parse_send_message_attachments print ok (h_malloc h) (h_malloc h) json (out_attachments msg0) = (perr, arr)"
    by fastforce
  have t: "tool_send_message h parse print ok queue_ok fs bus ctx args_json =
      (if tx_magic c \<noteq> TOOL_CONTEXT_MAGIC then Some (error_new ERR_INVALID_PARAM (Some ''Invalid tool context''), None, bus)
       else if bus = None then Some (error_new ERR_INVALID_PARAM (Some ''MessageBus not available in tool context''), None, bus)
       else if err_code perr \<noteq> ERR_NONE then Some (perr, None, bus)
       else (case (if restricted ctx \<and> tx_workspace c \<noteq> None then check_attachments h fs (tx_workspace c) (sa_items arr) else None) of
               Some err \<Rightarrow> Some (err, None, bus)
             | None \<Rightarrow> map_option (\<lambda>(bus, freed). (no_error, Some ''Message queued for delivery'', bus))
                 (message_bus_send_outbound queue_ok bus (msg0\<lparr>out_attachments := arr\<rparr>))))"
    using c json content msg0 arr by (simp add: tool_send_message_def Let_def ch_def ci_def)
  let ?msg = "msg0\<lparr>out_attachments := arr\<rparr>"
  have ok: "\<exists>freed. message_bus_send_outbound queue_ok bus ?msg = Some (bus', freed)"
    "restricted ctx \<and> tx_workspace c \<noteq> None \<longrightarrow> check_attachments h fs (tx_workspace c) (sa_items arr) = None"
    using assms(1,2) ce unfolding t by (auto simp: e split: if_splits option.splits)
  moreover have "out_channel ?msg = ch" "out_chat_id ?msg = ci" "out_content ?msg = content"
    "out_attachments ?msg = snd (parse_send_message_attachments print ok (h_malloc h) (h_malloc h) json string_array_new)"
    using msg0 arr by (auto simp: outbound_message_new_def split: if_splits)
  ultimately show ?thesis
    using json content c by (intro exI [of _ json] exI [of _ content] exI [of _ ?msg])
      (auto simp: ch_def ci_def check_attachments_None context_workspace_def)
qed

lemma checked_is_inside:
  assumes "wf_fs fs" and "resolved fs cwd" and "\<forall>q. resolved fs q \<longrightarrow> length (render q) < PATH_MAX"
    and "is_path_within_workspace cwd fs p (Some ws)" and "resolve False cwd fs p = Some q"
  shows "\<exists>w. resolve False cwd fs ws = Some w \<and> prefix w q"
proof -
  have q: "resolved fs q" using resolve_result [OF assms(1,2,5)] by simp
  then have r: "realpath cwd fs p = Some (render q)" using assms(3,5) by (simp add: realpath_def)
  obtain ws' where ws': "resolve_workspace_path cwd fs (Some ws) 4096 = Some ws'" "below ws' (render q)"
    using assms(4) r by (auto simp: is_path_within_workspace_def split: option.splits)
  obtain w where "resolve False cwd fs ws = Some w" "resolved fs w" "ws' = render w"
    using workspace_Some [OF assms(1,2) ws'(1)] by auto
  with below_prefix [OF assms(1) _ q] ws'(2) show ?thesis by auto
qed

text \<open>The path that the check of an attachment looks at.\<close>

definition checked_path :: "string \<Rightarrow> string" where
  "checked_path att =
     (case strstr att path_key of
        None \<Rightarrow> att
      | Some pkey \<Rightarrow>
          (let p = drop 8 pkey
           in case strchr p (CHR 0x22) of None \<Rightarrow> p | Some e \<Rightarrow> take (length p - length e) p))"

lemma checked_inside: "check_attachment h fs ws a = None \<Longrightarrow> is_path_within_workspace (h_cwd h) fs (checked_path a) ws"
  by (auto simp: check_attachment_def checked_path_def Let_def split: option.splits if_splits)

lemma checked_plain: "\<not> sublist path_key a \<Longrightarrow> checked_path a = a"
  by (simp add: checked_path_def strstr_None [symmetric])

text \<open>
  Claim C21. With the workspace policy, an attachment of a message that \<open>tool_send_message\<close> queued makes the channel send a file outside of the workspace only
  if the channel takes another path from the attachment than the check looked at: when the two paths are the same and the channel reads a file, the file lies
  inside the workspace, after all links are resolved. They are the same for a plain attachment, which has at most 1023 bytes (the buffer of the
  channel), does not begin with a brace and does not contain the text \<^verbatim>\<open>"path":"\<close>. For the others they can differ, and then the check is no
  protection (see \<open>attachment_check_bypassed\<close>). All paths of the file system fit into a path buffer.
\<close>

theorem plain_attachments_confined:
  assumes "wf_fs fs" and "resolved fs (h_cwd h)" and "restricted ctx" and "context_workspace ctx = Some ws"
    and "\<forall>q. resolved fs q \<longrightarrow> length (render q) < PATH_MAX"
    and "parse args_json = Some json"
    and "tool_send_message h parse print ok queue_ok fs bus ctx args_json = Some (err, result, bus')" and "err_code err = ERR_NONE"
  shows "\<exists>msg freed. message_bus_send_outbound queue_ok bus msg = Some (bus', freed)
           \<and> out_attachments msg = snd (parse_send_message_attachments print ok (h_malloc h) (h_malloc h) json string_array_new)
           \<and> (\<forall>a \<in> set (sa_items (out_attachments msg)).
                \<forall>att bytes. parse_attachment_spec parse a = Some att \<and> read_file_bytes h fs (fa_path att) = Some bytes \<longrightarrow>
                   (fa_path att = checked_path a \<longrightarrow>
                      (\<exists>w q. resolve False (h_cwd h) fs ws = Some w \<and> prefix w q \<and> fs q = Some (File bytes))) \<and>
                   (length a < 1024 \<and> \<not> starts_with ''{'' a \<and> \<not> sublist path_key a \<longrightarrow> fa_path att = checked_path a))"
proof -
  obtain msg freed where m: "message_bus_send_outbound queue_ok bus msg = Some (bus', freed)"
    "out_attachments msg = snd (parse_send_message_attachments print ok (h_malloc h) (h_malloc h) json string_array_new)"
    and c: "\<forall>a \<in> set (sa_items (out_attachments msg)). check_attachment h fs (Some ws) a = None"
    using send_message_ok [OF assms(7,8)] assms(3,4,6) by auto
  have "\<exists>w q. resolve False (h_cwd h) fs ws = Some w \<and> prefix w q \<and> fs q = Some (File bytes)"
    if a: "a \<in> set (sa_items (out_attachments msg))" and r: "read_file_bytes h fs (checked_path a) = Some bytes" for a bytes
  proof -
    obtain q where q: "resolve False (h_cwd h) fs (checked_path a) = Some q" "fs q = Some (File bytes)"
      using r by (auto simp: read_file_bytes_def open_read_def split: option.splits node.splits if_splits)
    have "is_path_within_workspace (h_cwd h) fs (checked_path a) (Some ws)" using c a checked_inside by blast
    from checked_is_inside [OF assms(1,2,5) this q(1)] q(2) show ?thesis by auto
  qed
  moreover have "fa_path att = checked_path a"
    if "length a < 1024" "\<not> starts_with ''{'' a" "\<not> sublist path_key a" "parse_attachment_spec parse a = Some att" for a att
    using that checked_plain [of a] by (auto simp: parse_attachment_spec_def c_trunc_def split: option.splits)
  ultimately show ?thesis using m by (intro exI [of _ msg] exI [of _ freed]) auto
qed

definition demo_bus :: MessageBus where
  "demo_bus = the (message_bus_new True True True True)"

definition demo_send :: "json list \<Rightarrow> (Error \<times> string option \<times> MessageBus option) option" where
  "demo_send atts =
     tool_send_message demo_host (demo_parse [(''content'', JString ''hi''), (''attachments'', JArray atts)]) (\<lambda>j. None) True True demo_fs
       (Some demo_bus) demo_context ''args''"

lemma demo_fs_short: "\<forall>q. resolved demo_fs q \<longrightarrow> length (render q) < PATH_MAX"
  by (auto simp: resolved_def demo_fs_def render_def PATH_MAX_def split: if_splits)

definition demo_args :: "string \<Rightarrow> json" where
  "demo_args a = JObject [(''content'', JString ''hi''), (''attachments'', JArray [JString a])]"

lemma demo_args:
  "demo_parse [(''content'', JString ''hi''), (''attachments'', JArray [JString a])] ''args'' = Some (demo_args a)"
  "get_json_string (Some (demo_args a)) ''content'' = Some ''hi''" "get_json_string (Some (demo_args a)) ''channel'' = None"
  "get_json_string (Some (demo_args a)) ''chat_id'' = None"
  "parse_send_message_attachments print True (h_malloc demo_host) (h_malloc demo_host) (demo_args a) string_array_new
     = (no_error, \<lparr>sa_items = [a], sa_capacity = 8\<rparr>)"
proof -
  have "get_object_item (Some (demo_args a)) ''attachments'' = Some (JArray [JString a])"
    by (simp add: demo_args_def get_object_item_def strcaseeq_def tolower_def isupper_def)
  then show "parse_send_message_attachments print True (h_malloc demo_host) (h_malloc demo_host) (demo_args a) string_array_new
     = (no_error, \<lparr>sa_items = [a], sa_capacity = 8\<rparr>)"
    by (simp add: parse_send_message_attachments_def string_array_add_def string_array_room_def string_array_new_def)
qed (simp_all add: demo_args_def demo_parse_def read_schema_def get_json_string_def get_object_item_def json_defs strcaseeq_def tolower_def isupper_def)

lemma demo_send_plain:
  assumes "check_attachment demo_host demo_fs (Some ''/ws'') a = None"
  shows "\<exists>bus'. demo_send [JString a] = Some (no_error, Some ''Message queued for delivery'', Some bus')
           \<and> q_items (outbound bus') ! 0 = Some \<lparr>out_channel = ''cli'', out_chat_id = ''current'', out_content = ''hi'',
                                                out_attachments = \<lparr>sa_items = [a], sa_capacity = 8\<rparr>\<rparr>"
proof -
  have route: "resolve_channel demo_context None = ''cli''" "resolve_chat_id demo_context None = ''current''"
    by (simp_all add: resolve_channel_def resolve_chat_id_def is_placeholder_value_def demo_context_def)
  have send: "\<exists>b. message_bus_send_outbound True (Some demo_bus) m = Some (Some b, []) \<and> q_items (outbound b) ! 0 = Some m" for m
    by (simp add: message_bus_send_outbound_def demo_bus_def message_bus_new_def message_queue_init_def message_queue_send_def Let_def)
  let ?m = "\<lparr>out_channel = ''cli'', out_chat_id = ''current'', out_content = ''hi'', out_attachments = \<lparr>sa_items = [a], sa_capacity = 8\<rparr>\<rparr>"
  obtain b where "message_bus_send_outbound True (Some demo_bus) ?m = Some (Some b, [])" "q_items (outbound b) ! 0 = Some ?m"
    using send by blast
  then show ?thesis
    using demo_args(1,2,3,4) [of a] demo_args(5) [of _ a] route demo_wf(3) assms
    by (auto simp: demo_send_def tool_send_message_def demo_context_def outbound_message_new_def Let_def error_new_def)
qed

theorem plain_attachments_confined_witness:
  "\<exists>w q. resolve False [] demo_fs ''/ws'' = Some w \<and> prefix w q \<and> demo_fs q = Some (File ''pixels'')"
proof -
  let ?parse = "demo_parse [(''content'', JString ''hi''), (''attachments'', JArray [JString ''/ws/p.png''])]"
  have "is_path_within_workspace [] demo_fs ''/ws/p.png'' (Some ''/ws'')" by (simp add: demo_eval)
  moreover have np: "strstr ''/ws/p.png'' path_key = None" by (simp add: path_key_def starts_with_def)
  ultimately have "check_attachment demo_host demo_fs (Some ''/ws'') ''/ws/p.png'' = None"
    by (simp add: check_attachment_def demo_host_def)
  from demo_send_plain [OF this] obtain bus' where
    s: "demo_send [JString ''/ws/p.png''] = Some (no_error, Some ''Message queued for delivery'', Some bus')" by blast
  have ws: "context_workspace demo_context = Some ''/ws''" "h_cwd demo_host = []"
    by (simp_all add: context_workspace_def demo_context_def demo_host_def)
  have e: "err_code no_error = ERR_NONE" by (simp add: error_new_def)
  have k: "length ''/ws/p.png'' < 1024" "\<not> starts_with ''{'' ''/ws/p.png''" "\<not> sublist path_key ''/ws/p.png''"
    using strstr_None [of "''/ws/p.png''" path_key] np by (simp_all only: starts_with_def) simp_all
  have p: "parse_attachment_spec ?parse ''/ws/p.png'' = Some \<lparr>fa_type = ''image'', fa_path = ''/ws/p.png'', fa_cover_path = [], fa_duration = 0\<rparr>"
    by (simp add: parse_attachment_spec_def infer_media_type_from_path_def starts_with_def strcaseeq_def tolower_def isupper_def c_trunc_def Let_def)
  have r: "read_file_bytes demo_host demo_fs ''/ws/p.png'' = Some ''pixels''"
    by (simp add: read_file_bytes_def open_read_def demo_host_def demo_eval)
  from plain_attachments_confined [OF demo_wf(1,2,3) ws(1) demo_fs_short demo_args(1) trans [OF demo_send_def [symmetric] s] e]
  show ?thesis using k p r demo_args(5) unfolding ws(2) by fastforce
qed

definition two_paths :: string where
  "two_paths = ''{\"a\":{\"path\":\"a.txt\"},\"type\":\"file\",\"path\":\"/etc/passwd\"}''"

text \<open>
  The check looks at the first \<open>"path":"\<close> in the text of an attachment, the channel parses the text: a plain attachment
  that is itself a JSON object can show the check one path and the channel another. With the policy on, the message is queued, and
  the channel reads a file outside of the workspace.
\<close>

theorem attachment_check_bypassed:
  assumes "parse two_paths = Some (JObject [(''a'', JObject [(''path'', JString ''a.txt'')]), (''type'', JString ''file''), (''path'', JString ''/etc/passwd'')])"
  shows "\<exists>bus' att. demo_send [JString two_paths] = Some (no_error, Some ''Message queued for delivery'', Some bus')
           \<and> map_option (sa_items \<circ> out_attachments) (q_items (outbound bus') ! 0) = Some [two_paths]
           \<and> parse_attachment_spec parse two_paths = Some att \<and> read_file_bytes demo_host demo_fs (fa_path att) = Some ''root''
           \<and> demo_fs [''etc'', ''passwd''] = Some (File ''root'')"
proof -
  have "is_path_within_workspace [] demo_fs ''a.txt'' (Some ''/ws'')" by (simp add: demo_eval)
  then have "check_attachment demo_host demo_fs (Some ''/ws'') two_paths = None"
    by (simp add: check_attachment_def demo_host_def two_paths_def path_key_def starts_with_def)
  from demo_send_plain [OF this] obtain bus' where
    s: "demo_send [JString two_paths] = Some (no_error, Some ''Message queued for delivery'', Some bus')"
    "map_option (sa_items \<circ> out_attachments) (q_items (outbound bus') ! 0) = Some [two_paths]" by auto
  let ?json = "JObject [(''a'', JObject [(''path'', JString ''a.txt'')]), (''type'', JString ''file''), (''path'', JString ''/etc/passwd'')]"
  have g: "get_json_string (Some ?json) ''type'' = Some ''file''" "get_json_string (Some ?json) ''path'' = Some ''/etc/passwd''"
    "get_json_string (Some ?json) ''cover_path'' = None" "json_number (get_object_item (Some ?json) ''duration'') = None"
    by (simp_all add: get_json_string_def get_object_item_def json_defs strcaseeq_def tolower_def isupper_def)
  have "starts_with ''{'' two_paths" by (simp add: two_paths_def starts_with_def)
  then have p: "parse_attachment_spec parse two_paths = Some \<lparr>fa_type = ''file'', fa_path = ''/etc/passwd'', fa_cover_path = [], fa_duration = 0\<rparr>"
    using assms g by (simp add: parse_attachment_spec_def c_trunc_def)
  have "read_file_bytes demo_host demo_fs ''/etc/passwd'' = Some ''root''"
    by (simp add: read_file_bytes_def open_read_def demo_host_def demo_eval)
  with s p show ?thesis by (auto simp: demo_fs_def)
qed

theorem attachment_check_bypassed_witness:
  "\<exists>bus'. demo_send [JString two_paths] = Some (no_error, Some ''Message queued for delivery'', Some bus')"
  using attachment_check_bypassed [of "\<lambda>s. Some (JObject [(''a'', JObject [(''path'', JString ''a.txt'')]), (''type'', JString ''file''),
    (''path'', JString ''/etc/passwd'')])"] by blast

text \<open>The cover of a video is not checked at all: the key that the check looks for begins with a quote.\<close>

theorem attachment_cover_unchecked:
  "check_attachment demo_host demo_fs (Some ''/ws'') ''{\"type\":\"video\",\"path\":\"a.txt\",\"cover_path\":\"/etc/passwd\"}'' = None"
proof -
  have "is_path_within_workspace [] demo_fs ''a.txt'' (Some ''/ws'')" by (simp add: demo_eval)
  then show ?thesis by (simp add: check_attachment_def demo_host_def path_key_def starts_with_def)
qed

section \<open>The memory tool\<close>

lemma memory_tool_run:
  assumes "context_workspace ctx = Some ws" and "parse args_json = Some json"
    and "get_json_string (Some json) ''history_entry'' = Some entry" and "get_json_string (Some json) ''memory_update'' = Some update"
    and "\<forall>p. can_write p" and "length (m_memory_md m) \<le> 100 \<or> length (m_memory_md m) div 3 \<le> length update"
  shows "\<exists>m'. tool_memory malloc_ok can_write parse fs (Some m) ctx args_json =
             (no_error, Some ''Memory consolidated/updated successfully'', Some m',
              fs(history_path ws \<mapsto> (case fs (history_path ws) of Some c \<Rightarrow> c | None \<Rightarrow> []) @ entry @ [newline],
                 memory_path ws \<mapsto> m_memory_md m', history_path ws \<mapsto> m_history_md m'))
           \<and> m_memory_md m' = update \<and> m_history_md m' = m_history_md (append_history_buffer_unlocked malloc_ok m entry)"
proof -
  let ?m = "(append_history_buffer_unlocked malloc_ok m entry)"
  have md: "m_memory_md ?m = m_memory_md m" by (simp add: append_history_buffer_unlocked_def Let_def)
  have s: "\<exists>m'. memory_set_facts (?m\<lparr>m_version := v\<rparr>) (Some update) = (no_error, m') \<and> m_memory_md m' = update \<and> m_history_md m' = m_history_md ?m" for v
    using assms(6) md by (auto simp: memory_set_facts_def Let_def)
  obtain m' where m': "memory_set_facts (?m\<lparr>m_version := Suc (m_version ?m)\<rparr>) (Some update) = (no_error, m')"
    "m_memory_md m' = update" "m_history_md m' = m_history_md ?m" using s by blast
  have e: "err_code (error_new c t) = c" for c t by (simp add: error_new_def)
  show ?thesis
    using assms(1-5) m'
    by (intro exI [of _ m']) (simp add: tool_memory_def memory_append_history_def memory_save_def write_files_def Let_def e)
qed

text \<open>
  The memory tool can lose the history entry that it reports as stored: when the history buffer has reached its limit, the entry is
  appended to the file but not to the buffer, and the same call then overwrites the file with the buffer, because it also
  has an update of the facts. The call succeeds.
\<close>

theorem memory_tool_loses_history:
  assumes "context_workspace ctx = Some ws" and "parse args_json = Some json"
    and "get_json_string (Some json) ''history_entry'' = Some entry" and "get_json_string (Some json) ''memory_update'' = Some update"
    and "\<forall>p. can_write p" and "length (m_memory_md m) \<le> 100"
    and "length (m_history_md m) + length entry + 2 > HISTORY_HARD_CAP_BYTES"
  shows "\<exists>m' fs'. tool_memory malloc_ok can_write parse fs (Some m) ctx args_json =
             (no_error, Some ''Memory consolidated/updated successfully'', Some m', fs')
           \<and> fs' (history_path ws) = Some (m_history_md m) \<and> m_history_md m' = m_history_md m"
proof -
  have "append_history_buffer_unlocked malloc_ok m entry = m" using assms(7) by (simp add: append_history_buffer_unlocked_def)
  with memory_tool_run [where parse = parse and can_write = can_write and m = m and fs = fs, OF assms(1-5)] assms(6) show ?thesis by fastforce
qed

theorem memory_tool_loses_history_witness:
  "\<exists>fs'. tool_memory (\<lambda>_. True) (\<lambda>_. True) (demo_parse [(''history_entry'', JString ''met Ann''), (''memory_update'', JString ''tea'')])
       Map.empty (Some (small_memory\<lparr>m_history_md := replicate 1048576 (CHR ''x'')\<rparr>)) demo_context ''args''
     = (no_error, Some ''Memory consolidated/updated successfully'',
        fst (snd (snd (tool_memory (\<lambda>_. True) (\<lambda>_. True) (demo_parse [(''history_entry'', JString ''met Ann''), (''memory_update'', JString ''tea'')])
          Map.empty (Some (small_memory\<lparr>m_history_md := replicate 1048576 (CHR ''x'')\<rparr>)) demo_context ''args''))), fs')
     \<and> fs' (history_path ''/ws'') = Some (replicate 1048576 (CHR ''x''))"
proof -
  let ?json = "JObject [(''history_entry'', JString ''met Ann''), (''memory_update'', JString ''tea'')]"
  let ?parse = "demo_parse [(''history_entry'', JString ''met Ann''), (''memory_update'', JString ''tea'')]"
  let ?m = "small_memory\<lparr>m_history_md := replicate 1048576 (CHR ''x'')\<rparr>"
  have p: "?parse ''args'' = Some ?json" by (simp add: demo_parse_def read_schema_def)
  have g: "get_json_string (Some ?json) ''history_entry'' = Some ''met Ann''" "get_json_string (Some ?json) ''memory_update'' = Some ''tea''"
    by (simp_all add: get_json_string_def get_object_item_def json_defs strcaseeq_def tolower_def isupper_def)
  have ws: "context_workspace demo_context = Some ''/ws''" by (simp add: context_workspace_def demo_context_def)
  have "length (m_memory_md ?m) \<le> 100" "length (m_history_md ?m) + length ''met Ann'' + 2 > HISTORY_HARD_CAP_BYTES"
    by (simp_all add: small_memory_def HISTORY_HARD_CAP_BYTES_def)
  from memory_tool_loses_history [where parse = ?parse and can_write = "\<lambda>_. True" and malloc_ok = "\<lambda>_. True" and fs = Map.empty,
      OF ws p g _ this]
  show ?thesis by auto
qed

end
