(* ===== verification/LineText.thy ===== *)
theory LineText
  imports Session
begin

text \<open>
  The lines of a buffer that fills piecewise, as the event stream readers of the program cut them: a line ends at its newline, and
  nothing is found behind a NUL byte.
\<close>

definition next_line :: "string \<Rightarrow> (string \<times> string) option" where
  "next_line s =
     (case dropWhile (\<lambda>c. c \<noteq> newline \<and> c \<noteq> NUL) s of
        c # rest \<Rightarrow> if c = newline then Some (takeWhile (\<lambda>c. c \<noteq> newline \<and> c \<noteq> NUL) s, rest) else None
      | [] \<Rightarrow> None)"

lemma next_line_Some: "next_line s = Some (l, r) \<Longrightarrow> s = l @ newline # r \<and> newline \<notin> set l \<and> NUL \<notin> set l"
  by (auto simp: next_line_def takeWhile_eq_all_conv dest: set_takeWhileD split: list.splits if_splits)
    (metis takeWhile_dropWhile_id)

function complete_lines :: "string \<Rightarrow> string list" where
  "complete_lines s = (case next_line s of None \<Rightarrow> [] | Some (line, rest) \<Rightarrow> line # complete_lines rest)"
  by pat_completeness auto
termination
  by (relation "measure length") (auto dest!: next_line_Some)

declare complete_lines.simps [simp del]

lemma next_line_tl: "next_line (l @ newline # r) = Some (l, r)" if "newline \<notin> set l" "NUL \<notin> set l"
proof -
  have "dropWhile (\<lambda>c. c \<noteq> newline \<and> c \<noteq> NUL) (l @ newline # r) = newline # r"
    using that by (subst dropWhile_append2) auto
  moreover have "takeWhile (\<lambda>c. c \<noteq> newline \<and> c \<noteq> NUL) (l @ newline # r) = l"
    using that by (subst takeWhile_append2) auto
  ultimately show ?thesis by (simp add: next_line_def)
qed

lemma next_line_append: "next_line a = Some (l, r) \<Longrightarrow> next_line (a @ b) = Some (l, r @ b)"
  by (drule next_line_Some) (simp add: next_line_tl)

function incomplete_line :: "string \<Rightarrow> string" where
  "incomplete_line s = (case next_line s of None \<Rightarrow> s | Some (_, rest) \<Rightarrow> incomplete_line rest)"
  by pat_completeness auto
termination
  by (relation "measure length") (auto dest!: next_line_Some)

declare incomplete_line.simps [simp del]

lemma complete_lines_append:
  "complete_lines (a @ b) = complete_lines a @ complete_lines (incomplete_line a @ b) \<and>
   incomplete_line (a @ b) = incomplete_line (incomplete_line a @ b)"
proof (induction a rule: complete_lines.induct)
  case (1 s)
  show ?case
  proof (cases "next_line s")
    case None
    then show ?thesis by (simp add: complete_lines.simps [of s] incomplete_line.simps [of s])
  next
    case (Some lr)
    obtain l r where lr: "lr = (l, r)" by (cases lr)
    show ?thesis
      using 1 [OF Some lr [symmetric]] next_line_append [of s l r b] Some lr
      by (simp add: complete_lines.simps [of s] incomplete_line.simps [of s] complete_lines.simps [of "s @ b"]
          incomplete_line.simps [of "s @ b"])
  qed
qed

lemma complete_incomplete [simp]: "complete_lines (incomplete_line s) = []" "incomplete_line (incomplete_line s) = incomplete_line s"
  using complete_lines_append [of s "[]"] by simp_all

lemma complete_lines_concat:
  "list_all (\<lambda>l. newline \<notin> set l \<and> NUL \<notin> set l) ls \<Longrightarrow> complete_lines (concat (map (\<lambda>l. l @ [newline]) ls) @ r) = ls @ complete_lines r"
proof (induction ls)
  case (Cons l ls)
  then have "next_line (concat (map (\<lambda>l. l @ [newline]) (l # ls)) @ r) = Some (l, concat (map (\<lambda>l. l @ [newline]) ls) @ r)"
    using next_line_tl by simp
  then show ?case using Cons by (subst complete_lines.simps) simp
qed simp

end
