(* ===== verification/McpQueue.thy ===== *)
theory McpQueue
  imports LineText
begin

text \<open>
  What the transports of \<open>plugins/tools/mcp_tools\<close> share: growing byte buffers, the lines of a stream of bytes, and the queue of
  received messages, which is one text with a newline between the messages (\<open>sse_queue_append\<close>, \<open>streamable_http_queue_append\<close> and
  their \<open>pop\<close> are the same code). \<open>ok\<close> says for which sizes \<open>realloc\<close> succeeds.
\<close>

section \<open>Buffers\<close>

record Buf =
  b_data :: string
  b_size :: nat

definition SSE_BUFFER_SIZE :: nat where
  "SSE_BUFFER_SIZE = 65536"

definition buf_new :: Buf where
  "buf_new = \<lparr>b_data = [], b_size = SSE_BUFFER_SIZE\<rparr>"

section \<open>The queue of messages\<close>

definition queue_append :: "(nat \<Rightarrow> bool) \<Rightarrow> string \<Rightarrow> Buf \<Rightarrow> Buf" where
  "queue_append ok msg b =
     (if msg = [] then b
      else (let needed = length (b_data b) + length msg + 2; size = (if needed \<ge> b_size b then needed * 2 else b_size b)
            in if needed \<ge> b_size b \<and> \<not> ok (needed * 2) then b
               else \<lparr>b_data = (if b_data b \<noteq> [] then b_data b @ [newline] else []) @ msg, b_size = size\<rparr>))"

definition queue_pop :: "bool \<Rightarrow> Buf \<Rightarrow> string option \<times> Buf" where
  "queue_pop malloc_ok b =
     (if b_data b = [] \<or> \<not> malloc_ok then (None, b)
      else (let nl = strchr (b_data b) newline;
                msg_len = (case nl of Some r \<Rightarrow> length (b_data b) - length r | None \<Rightarrow> length (b_data b));
                consumed = (if nl \<noteq> None then msg_len + 1 else msg_len)
            in (Some (take msg_len (b_data b)), b\<lparr>b_data := drop consumed (b_data b)\<rparr>)))"

fun join_lines :: "string list \<Rightarrow> string" where
  "join_lines [] = []"
| "join_lines [m] = m"
| "join_lines (m # ms) = m @ newline # join_lines ms"

definition message_ok :: "string \<Rightarrow> bool" where
  "message_ok m \<longleftrightarrow> m \<noteq> [] \<and> newline \<notin> set m"

definition printer_ok :: "json_printer \<Rightarrow> bool" where
  "printer_ok print \<longleftrightarrow> (\<forall>j. \<exists>s. print j = Some s \<and> s \<noteq> [] \<and> newline \<notin> set s)"

definition queue_rel :: "Buf \<Rightarrow> string list \<Rightarrow> bool" where
  "queue_rel b ms \<longleftrightarrow> b_data b = join_lines ms \<and> list_all message_ok ms"

lemma join_lines_Nil: "list_all message_ok ms \<Longrightarrow> join_lines ms = [] \<longleftrightarrow> ms = []"
  by (cases ms rule: join_lines.cases) (auto simp: message_ok_def)

lemma join_lines_snoc: "join_lines (ms @ [m]) = (if ms = [] then m else join_lines ms @ newline # m)"
  by (induction ms rule: join_lines.induct) auto

lemma strchr_first: "c \<notin> set u \<Longrightarrow> strchr (u @ c # r) c = Some (c # r)"
  by (induction u) auto

lemma queue_rel_new [simp]: "queue_rel buf_new []"
  by (simp add: queue_rel_def buf_new_def)

lemma queue_rel_append: "message_ok m \<Longrightarrow> queue_rel b ms \<Longrightarrow> queue_rel (queue_append (\<lambda>_. True) m b) (ms @ [m])"
  by (auto simp: queue_append_def queue_rel_def Let_def join_lines_snoc join_lines_Nil message_ok_def)

lemma queue_rel_pop:
  assumes "queue_rel b ms"
  shows "case ms of [] \<Rightarrow> queue_pop True b = (None, b)
         | m # ms' \<Rightarrow> fst (queue_pop True b) = Some m \<and> queue_rel (snd (queue_pop True b)) ms'"
proof (cases ms rule: join_lines.cases)
  case 1
  then show ?thesis using assms by (simp add: queue_rel_def queue_pop_def)
next
  case (2 m)
  then have "b_data b = m" "m \<noteq> []" "strchr m newline = None"
    using assms by (auto simp: queue_rel_def message_ok_def strchr_None)
  then show ?thesis using assms 2 by (simp add: queue_pop_def queue_rel_def)
next
  case (3 m m' ms')
  then have "b_data b = m @ newline # join_lines (m' # ms')" "m \<noteq> []" "newline \<notin> set m"
    using assms by (auto simp: queue_rel_def message_ok_def)
  then show ?thesis using assms 3 by (simp add: queue_pop_def queue_rel_def strchr_first)
qed

definition line_break :: "char \<Rightarrow> bool" where
  "line_break c = (c = CHR 0x0D \<or> c = newline)"

section \<open>A parser and a printer for the witnesses\<close>

definition mcp_demo_parse :: json_parser where
  "mcp_demo_parse s = (if starts_with ''{'' s then Some (JString s) else None)"

definition mcp_demo_print :: json_printer where
  "mcp_demo_print j = Some (case j of JString s \<Rightarrow> CHR ''x'' # filter (\<lambda>c. c \<noteq> newline) s | _ \<Rightarrow> ''null'')"

lemma mcp_demo_printer_ok: "printer_ok mcp_demo_print"
  by (auto simp: printer_ok_def mcp_demo_print_def split: json.splits)

end
