(* ===== verification/McpStdio.thy ===== *)
theory McpStdio
  imports McpQueue
begin

text \<open>
  \<open>plugins/tools/mcp_tools/transport_stdio.c\<close>: an MCP server as a child process. A reader thread collects its output in a buffer of
  \<open>LINE_BUFFER_SIZE\<close> bytes, takes lines out of it and queues the messages; when the output ends it starts the server again. The
  result of \<open>read\<close> and of starting a process are inputs of the steps. Steps of the reader and of a caller of \<open>recv\<close> alternate in any
  order; each holds the mutex while it uses the queue.
\<close>

section \<open>The transport\<close>

record MCPStdioTransport =
  io_line :: string
  io_read :: Buf
  io_running :: bool
  io_reconnect_attempts :: nat
  io_reconnecting :: bool

definition MAX_RECONNECT_ATTEMPTS :: nat where
  "MAX_RECONNECT_ATTEMPTS = 5"

definition LINE_BUFFER_SIZE :: nat where
  "LINE_BUFFER_SIZE = 4096"

definition stdio_new :: MCPStdioTransport where
  "stdio_new = \<lparr>io_line = [], io_read = buf_new, io_running = True, io_reconnect_attempts = 0, io_reconnecting = False\<rparr>"

text \<open>Queueing one message, with the checks against overflow and their \<open>continue\<close>, which drop it.\<close>

definition stdio_append :: "(nat \<Rightarrow> bool) \<Rightarrow> string \<Rightarrow> Buf \<Rightarrow> Buf" where
  "stdio_append ok json_str b =
     (let len = length (b_data b); json_len = length json_str; needed = len + json_len + 2;
          text = (if len > 0 then b_data b @ [newline] else b_data b) @ json_str
      in if json_len > SIZE_MAX - len - 2 then b
         else if needed \<ge> b_size b
         then (if needed > SIZE_MAX div 2 then b
               else if \<not> ok (needed * 2) then b else \<lparr>b_data = text, b_size = needed * 2\<rparr>)
         else b\<lparr>b_data := text\<rparr>)"

definition stdio_line :: "(nat \<Rightarrow> bool) \<Rightarrow> json_parser \<Rightarrow> json_printer \<Rightarrow> string \<Rightarrow> Buf \<Rightarrow> Buf" where
  "stdio_line ok parse print line b =
     (case parse line of
        None \<Rightarrow> b
      | Some json \<Rightarrow> (case print json of None \<Rightarrow> b | Some json_str \<Rightarrow> stdio_append ok json_str b))"

text \<open>What \<open>read\<close> returned, never more than the room left in the line buffer, and how starting the server again ends.\<close>

datatype ReadResult = Bytes string | Again | ReadError

datatype SpawnResult = Spawned | SpawnFailed | ThreadFailed

definition line_room :: "MCPStdioTransport \<Rightarrow> nat" where
  "line_room t = LINE_BUFFER_SIZE - length (io_line t) - 1"

definition read_allowed :: "ReadResult \<Rightarrow> MCPStdioTransport \<Rightarrow> bool" where
  "read_allowed r t = (case r of Bytes data \<Rightarrow> length data \<le> line_room t | _ \<Rightarrow> True)"

definition mcp_transport_stdio_reconnect :: "SpawnResult \<Rightarrow> MCPStdioTransport \<Rightarrow> bool \<times> MCPStdioTransport" where
  "mcp_transport_stdio_reconnect spawn t =
     (if io_reconnecting t then (False, t)
      else (case spawn of
              SpawnFailed \<Rightarrow> (False, t\<lparr>io_reconnecting := False\<rparr>)
            | ThreadFailed \<Rightarrow>
                (False, t\<lparr>io_read := (io_read t)\<lparr>b_data := []\<rparr>, io_running := False, io_reconnecting := False\<rparr>)
            | Spawned \<Rightarrow>
                (True, t\<lparr>io_line := [], io_read := (io_read t)\<lparr>b_data := []\<rparr>, io_running := True, io_reconnecting := False\<rparr>)))"

text \<open>The end of \<open>stdio_reader_thread\<close>: the thread that reads from the new process starts with an empty line.\<close>

definition stdio_reader_exit :: "SpawnResult \<Rightarrow> MCPStdioTransport \<Rightarrow> MCPStdioTransport" where
  "stdio_reader_exit spawn t =
     (if io_running t \<and> \<not> io_reconnecting t
      then (let t = t\<lparr>io_reconnect_attempts := io_reconnect_attempts t + 1\<rparr>
            in if io_reconnect_attempts t \<le> MAX_RECONNECT_ATTEMPTS
               then (case mcp_transport_stdio_reconnect spawn t of
                       (True, t) \<Rightarrow> t\<lparr>io_reconnect_attempts := 0\<rparr>
                     | (False, t) \<Rightarrow> t\<lparr>io_running := False\<rparr>)
               else t\<lparr>io_running := False\<rparr>)
      else t\<lparr>io_running := False\<rparr>)"

text \<open>One turn of the reader's loop. The text behind the newline is moved to the front up to its first NUL byte.\<close>

definition stdio_reader_step ::
  "(nat \<Rightarrow> bool) \<Rightarrow> json_parser \<Rightarrow> json_printer \<Rightarrow> ReadResult \<Rightarrow> SpawnResult \<Rightarrow> MCPStdioTransport \<Rightarrow> MCPStdioTransport" where
  "stdio_reader_step ok parse print r spawn t =
     (if \<not> io_running t then t
      else (case r of
              Again \<Rightarrow> t
            | ReadError \<Rightarrow> stdio_reader_exit spawn t
            | Bytes data \<Rightarrow>
                (if data = [] then stdio_reader_exit spawn t
                 else (let line = io_line t @ data
                       in case next_line line of
                            None \<Rightarrow> t\<lparr>io_line := line\<rparr>
                          | Some (first, rest) \<Rightarrow>
                              t\<lparr>io_read := stdio_line ok parse print first (io_read t), io_line := takeWhile (\<lambda>c. c \<noteq> NUL) rest\<rparr>))))"

text \<open>\<open>write\<close> gives the number of bytes written, or \<open>None\<close> on an error.\<close>

definition mcp_transport_stdio_send :: "(string \<Rightarrow> nat option) \<Rightarrow> string \<Rightarrow> MCPStdioTransport \<Rightarrow> Error \<times> string" where
  "mcp_transport_stdio_send write data t =
     (if \<not> io_running t then (error_new ERR_CONNECTION (Some ''Transport not running''), [])
      else (case write data of
              None \<Rightarrow> (error_new ERR_CONNECTION (Some ''Failed to write to stdin''), [])
            | Some written \<Rightarrow>
                (no_error, take written data @ (case write [newline] of Some n \<Rightarrow> take n [newline] | None \<Rightarrow> []))))"

text \<open>\<open>arrived\<close> are the steps of the reader while the caller waits, a batch for each time it wakes up.\<close>

fun stdio_wait :: "(MCPStdioTransport \<Rightarrow> MCPStdioTransport) list \<Rightarrow> MCPStdioTransport \<Rightarrow> MCPStdioTransport" where
  "stdio_wait [] t = t"
| "stdio_wait (arrive # arrived) t = (if b_data (io_read t) = [] \<and> io_running t then stdio_wait arrived (arrive t) else t)"

definition mcp_transport_stdio_recv ::
  "(MCPStdioTransport \<Rightarrow> MCPStdioTransport) list \<Rightarrow> MCPStdioTransport \<Rightarrow> string option \<times> MCPStdioTransport" where
  "mcp_transport_stdio_recv arrived t =
     (if \<not> io_running t then (None, t)
      else (let t = stdio_wait arrived t
            in if b_data (io_read t) \<noteq> [] then (Some (b_data (io_read t)), t\<lparr>io_read := (io_read t)\<lparr>b_data := []\<rparr>\<rparr>)
               else (None, t)))"

section \<open>Starting the server again\<close>

text \<open>The count of attempts never passes one: an attempt that fails ends the transport, and one that succeeds sets it back.\<close>

definition attempts_ok :: "MCPStdioTransport \<Rightarrow> bool" where
  "attempts_ok t \<longleftrightarrow> io_reconnect_attempts t \<le> 1 \<and> \<not> io_reconnecting t \<and> (io_running t \<longrightarrow> io_reconnect_attempts t = 0)"

lemma attempts_exit: "attempts_ok t \<Longrightarrow> attempts_ok (stdio_reader_exit spawn t)"
  by (auto simp: attempts_ok_def stdio_reader_exit_def mcp_transport_stdio_reconnect_def MAX_RECONNECT_ATTEMPTS_def Let_def
      split: SpawnResult.split)

lemma attempts_step: "attempts_ok t \<Longrightarrow> attempts_ok (stdio_reader_step ok parse print r spawn t)"
  by (auto simp: stdio_reader_step_def Let_def intro: attempts_exit split: ReadResult.split option.split)
    (auto simp: attempts_ok_def)

definition reader_steps ::
  "(nat \<Rightarrow> bool) \<Rightarrow> json_parser \<Rightarrow> json_printer \<Rightarrow> (ReadResult \<times> SpawnResult) list \<Rightarrow> MCPStdioTransport \<Rightarrow> MCPStdioTransport" where
  "reader_steps ok parse print = fold (\<lambda>(r, spawn). stdio_reader_step ok parse print r spawn)"

lemma attempts_steps: "attempts_ok t \<Longrightarrow> attempts_ok (reader_steps ok parse print steps t)"
  unfolding reader_steps_def by (induction steps arbitrary: t) (auto simp: attempts_step)

text \<open>
  The limit of five attempts to start the server again is never reached: the counter is zero whenever the transport
  runs, so a server that ends at once is started again as often as it ends.
\<close>

theorem restarts_without_limit:
  "let t = reader_steps ok parse print steps stdio_new; t' = reader_steps ok parse print (replicate n (Bytes [], Spawned)) t
   in io_reconnect_attempts t \<le> 1 \<and> io_running t' = io_running t"
proof -
  let ?t = "reader_steps ok parse print steps stdio_new"
  have t: "attempts_ok ?t" by (rule attempts_steps) (simp add: attempts_ok_def stdio_new_def)
  have "io_running (stdio_reader_step ok parse print (Bytes []) Spawned t) = io_running t" if "attempts_ok t" for t
    using that by (simp add: stdio_reader_step_def stdio_reader_exit_def mcp_transport_stdio_reconnect_def attempts_ok_def
        MAX_RECONNECT_ATTEMPTS_def)
  then have "io_running (reader_steps ok parse print (replicate n (Bytes [], Spawned)) t) = io_running t" if "attempts_ok t" for t
    using that unfolding reader_steps_def by (induction n arbitrary: t) (auto simp: attempts_step)
  then show ?thesis using t by (auto simp: Let_def attempts_ok_def)
qed

section \<open>What the reader makes of the output\<close>

definition stdio_messages :: "json_parser \<Rightarrow> json_printer \<Rightarrow> string list \<Rightarrow> string list" where
  "stdio_messages parse print ls = concat (map (\<lambda>l. case parse l of None \<Rightarrow> [] | Some j \<Rightarrow> [the (print j)]) ls)"

definition queue_total :: "string list \<Rightarrow> nat" where
  "queue_total ms = sum_list (map (\<lambda>m. length m + 1) ms) + 2"

datatype StdioOp = Read ReadResult | Recv

fun delivered :: "StdioOp \<Rightarrow> string" where
  "delivered (Read (Bytes data)) = data"
| "delivered _ = []"

text \<open>The output goes on and has no NUL byte.\<close>

fun going_on :: "StdioOp \<Rightarrow> bool" where
  "going_on (Read (Bytes data)) = (data \<noteq> [] \<and> NUL \<notin> set data)"
| "going_on (Read Again) = True"
| "going_on (Read ReadError) = False"
| "going_on Recv = True"

definition stdio_op :: "json_parser \<Rightarrow> json_printer \<Rightarrow> StdioOp \<Rightarrow> string list \<times> MCPStdioTransport \<Rightarrow> string list \<times> MCPStdioTransport" where
  "stdio_op parse print op s =
     (case s of (taken, t) \<Rightarrow>
        (case op of
           Read r \<Rightarrow> (taken, stdio_reader_step (\<lambda>_. True) parse print r SpawnFailed t)
         | Recv \<Rightarrow> (case mcp_transport_stdio_recv [] t of (None, t) \<Rightarrow> (taken, t) | (Some text, t) \<Rightarrow> (taken @ [text], t))))"

definition stdio_inv :: "json_parser \<Rightarrow> json_printer \<Rightarrow> string \<Rightarrow> nat \<Rightarrow> string list \<times> MCPStdioTransport \<Rightarrow> bool" where
  "stdio_inv parse print stream n s \<longleftrightarrow>
     (case s of (taken, t) \<Rightarrow>
        \<exists>ls groups pending. io_running t \<and> stream = concat (map (\<lambda>l. l @ [newline]) ls) @ io_line t \<and> NUL \<notin> set (io_line t) \<and>
          list_all (\<lambda>l. newline \<notin> set l \<and> NUL \<notin> set l) ls \<and> length ls \<le> n \<and> queue_rel (io_read t) pending \<and>
          concat groups @ pending = stdio_messages parse print ls \<and> taken = map join_lines groups)"

lemma stdio_invI:
  assumes "io_running t" "stream = concat (map (\<lambda>l. l @ [newline]) ls) @ io_line t" "NUL \<notin> set (io_line t)"
    "list_all (\<lambda>l. newline \<notin> set l \<and> NUL \<notin> set l) ls" "length ls \<le> n" "queue_rel (io_read t) pending"
    "concat groups @ pending = stdio_messages parse print ls" "taken = map join_lines groups"
  shows "stdio_inv parse print stream n (taken, t)"
  unfolding stdio_inv_def prod.case using assms by (intro exI [of _ ls] exI [of _ groups] exI [of _ pending]) simp

lemma stdio_invE:
  assumes "stdio_inv parse print stream n (taken, t)"
  obtains ls groups pending where "io_running t" "stream = concat (map (\<lambda>l. l @ [newline]) ls) @ io_line t" "NUL \<notin> set (io_line t)"
    "list_all (\<lambda>l. newline \<notin> set l \<and> NUL \<notin> set l) ls" "length ls \<le> n" "queue_rel (io_read t) pending"
    "concat groups @ pending = stdio_messages parse print ls" "taken = map join_lines groups"
  using assms by (auto simp: stdio_inv_def)

lemma length_join_lines: "length (join_lines ms) + 2 \<le> queue_total ms"
  by (induction ms rule: join_lines.induct) (auto simp: queue_total_def)

lemma stdio_messages_append [simp]: "stdio_messages parse print (a @ b) = stdio_messages parse print a @ stdio_messages parse print b"
  by (simp add: stdio_messages_def)

lemma queue_total_part: "queue_total ms \<le> queue_total (a @ ms @ b)"
  by (simp add: queue_total_def)

lemma queue_rel_stdio_append:
  assumes "message_ok m" "queue_rel b ms" "queue_total (ms @ [m]) \<le> SIZE_MAX div 2"
  shows "queue_rel (stdio_append (\<lambda>_. True) m b) (ms @ [m])"
proof -
  have "length (b_data b) + length m + 2 \<le> SIZE_MAX div 2"
    using assms length_join_lines [of ms] by (auto simp: queue_rel_def queue_total_def)
  moreover have "length (b_data b) > 0 \<longleftrightarrow> ms \<noteq> []"
    using assms(2) join_lines_Nil by (auto simp: queue_rel_def)
  moreover have "n \<le> SIZE_MAX div 2 \<Longrightarrow> n \<le> SIZE_MAX" for n by simp
  ultimately show ?thesis
    using assms(1,2) by (auto simp: stdio_append_def queue_rel_def Let_def join_lines_snoc)
qed

lemma stdio_line_rel:
  assumes "printer_ok print" "queue_rel b pending" "queue_total (pending @ stdio_messages parse print [l]) \<le> SIZE_MAX div 2"
  shows "queue_rel (stdio_line (\<lambda>_. True) parse print l b) (pending @ stdio_messages parse print [l])"
proof (cases "parse l")
  case None
  then show ?thesis using assms by (simp add: stdio_line_def stdio_messages_def)
next
  case (Some j)
  obtain p where p: "print j = Some p" "message_ok p" using assms(1) by (auto simp: printer_ok_def message_ok_def)
  then show ?thesis using assms(2,3) Some by (simp add: stdio_line_def stdio_messages_def queue_rel_stdio_append)
qed

lemma stdio_inv_more: "stdio_inv parse print stream n s \<Longrightarrow> stdio_inv parse print stream (n + 1) s"
  by (cases s) (auto elim!: stdio_invE intro!: stdio_invI)

lemma stdio_inv_bytes:
  assumes inv: "stdio_inv parse print stream n (taken, t)" and print: "printer_ok print" and data: "data \<noteq> []" "NUL \<notin> set data"
    and total: "queue_total (stdio_messages parse print (complete_lines (stream @ data))) \<le> SIZE_MAX div 2"
  shows "stdio_inv parse print (stream @ data) (n + 1) (taken, stdio_reader_step (\<lambda>_. True) parse print (Bytes data) spawn t)"
proof -
  from inv obtain ls groups pending where i: "io_running t" "stream = concat (map (\<lambda>l. l @ [newline]) ls) @ io_line t"
      "NUL \<notin> set (io_line t)" "list_all (\<lambda>l. newline \<notin> set l \<and> NUL \<notin> set l) ls" "length ls \<le> n" "queue_rel (io_read t) pending"
      "concat groups @ pending = stdio_messages parse print ls" "taken = map join_lines groups"
    by (rule stdio_invE)
  let ?line = "io_line t @ data"
  show ?thesis
  proof (cases "next_line ?line")
    case None
    then have "stdio_reader_step (\<lambda>_. True) parse print (Bytes data) spawn t = t\<lparr>io_line := ?line\<rparr>"
      using i(1) data by (simp add: stdio_reader_step_def)
    then show ?thesis using i data by (intro stdio_invI [of _ _ ls n pending groups, THEN stdio_inv_more]) auto
  next
    case (Some fr)
    obtain l r where fr: "fr = (l, r)" by (cases fr)
    have l: "?line = l @ newline # r" "newline \<notin> set l" "NUL \<notin> set l" using Some fr next_line_Some by auto
    have nul: "NUL \<notin> set r" using l(1) i(3) data(2) by (metis Un_iff set_append set_subset_Cons subset_iff)
    have "complete_lines (stream @ data) = (ls @ [l]) @ complete_lines r"
      using complete_lines_concat [of "ls @ [l]" r] i(2,4) l by simp
    then have "queue_total (pending @ stdio_messages parse print [l]) \<le> queue_total (stdio_messages parse print (complete_lines (stream @ data)))"
      using queue_total_part [of "pending @ stdio_messages parse print [l]" "concat groups" "stdio_messages parse print (complete_lines r)"]
      by (simp only: stdio_messages_append i(7) [symmetric] append_assoc)
    then have "queue_rel (stdio_line (\<lambda>_. True) parse print l (io_read t)) (pending @ stdio_messages parse print [l])"
      using stdio_line_rel [OF print i(6), of parse l] total by simp
    moreover have "takeWhile (\<lambda>c. c \<noteq> NUL) r = r" using nul by (auto simp: takeWhile_eq_all_conv)
    moreover have "concat groups @ pending @ stdio_messages parse print [l] = stdio_messages parse print (ls @ [l])"
      using i(7) by simp
    moreover have "stdio_reader_step (\<lambda>_. True) parse print (Bytes data) spawn t =
        t\<lparr>io_read := stdio_line (\<lambda>_. True) parse print l (io_read t), io_line := r\<rparr>"
      using i(1) data Some fr calculation(2) by (simp add: stdio_reader_step_def)
    moreover have "stream @ data = concat (map (\<lambda>l. l @ [newline]) (ls @ [l])) @ r"
      using i(2) l(1) by simp
    moreover have "list_all (\<lambda>l. newline \<notin> set l \<and> NUL \<notin> set l) (ls @ [l])" "length (ls @ [l]) \<le> n + 1"
      using i l by auto
    ultimately show ?thesis
      using i(1,8) nul
      by (intro stdio_invI [of _ _ "ls @ [l]" _ "pending @ stdio_messages parse print [l]" groups])
        (simp_all del: map_append concat_append stdio_messages_append)
  qed
qed

lemma stdio_inv_recv: "stdio_inv parse print stream n s \<Longrightarrow> stdio_inv parse print stream n (stdio_op parse print Recv s)"
proof -
  assume inv: "stdio_inv parse print stream n s"
  obtain taken t where s: "s = (taken, t)" by (cases s)
  from inv [unfolded s] obtain ls groups pending where i: "io_running t" "stream = concat (map (\<lambda>l. l @ [newline]) ls) @ io_line t"
      "NUL \<notin> set (io_line t)" "list_all (\<lambda>l. newline \<notin> set l \<and> NUL \<notin> set l) ls" "length ls \<le> n" "queue_rel (io_read t) pending"
      "concat groups @ pending = stdio_messages parse print ls" "taken = map join_lines groups"
    by (rule stdio_invE)
  show ?thesis
  proof (cases "b_data (io_read t) = []")
    case True
    then have "stdio_op parse print Recv s = s" using i(1) s by (simp add: stdio_op_def mcp_transport_stdio_recv_def)
    then show ?thesis using inv by simp
  next
    case False
    then have "stdio_op parse print Recv s = (taken @ [join_lines pending], t\<lparr>io_read := (io_read t)\<lparr>b_data := []\<rparr>\<rparr>)"
      using i(1,6) s by (simp add: stdio_op_def mcp_transport_stdio_recv_def queue_rel_def)
    moreover have "stdio_inv parse print stream n (taken @ [join_lines pending], t\<lparr>io_read := (io_read t)\<lparr>b_data := []\<rparr>\<rparr>)"
      using i by (intro stdio_invI [of _ _ ls n "[]" "groups @ [pending]"]) (auto simp: queue_rel_def)
    ultimately show ?thesis by simp
  qed
qed

lemma stdio_inv_step:
  assumes inv: "stdio_inv parse print stream n s" and print: "printer_ok print" and op: "going_on op"
    and total: "queue_total (stdio_messages parse print (complete_lines (stream @ delivered op))) \<le> SIZE_MAX div 2"
  shows "stdio_inv parse print (stream @ delivered op) (n + 1) (stdio_op parse print op s)"
proof -
  obtain taken t where s: "s = (taken, t)" by (cases s)
  show ?thesis
  proof (cases op rule: going_on.cases)
    case (1 data)
    then show ?thesis using stdio_inv_bytes [of parse print stream n taken t data SpawnFailed] assms s by (simp add: stdio_op_def)
  next
    case 2
    then show ?thesis using stdio_inv_more [OF inv] s by (simp add: stdio_op_def stdio_reader_step_def)
  next
    case 3
    then show ?thesis using op by simp
  next
    case 4
    then show ?thesis using stdio_inv_more [OF stdio_inv_recv [OF inv]] by simp
  qed
qed

lemma stdio_inv_run:
  assumes "stdio_inv parse print stream n s" "printer_ok print" "list_all going_on ops"
    "queue_total (stdio_messages parse print (complete_lines (stream @ concat (map delivered ops)))) \<le> SIZE_MAX div 2"
  shows "stdio_inv parse print (stream @ concat (map delivered ops)) (n + length ops) (fold (stdio_op parse print) ops s)"
  using assms
proof (induction ops arbitrary: stream n s)
  case (Cons op ops)
  have "queue_total (stdio_messages parse print (complete_lines (stream @ delivered op)))
      \<le> queue_total (stdio_messages parse print (complete_lines ((stream @ delivered op) @ concat (map delivered ops))))"
    using complete_lines_append [of "stream @ delivered op" "concat (map delivered ops)"]
      queue_total_part [of "stdio_messages parse print (complete_lines (stream @ delivered op))" "[]"] by simp
  then have "stdio_inv parse print (stream @ delivered op) (n + 1) (stdio_op parse print op s)"
    using Cons.prems by (intro stdio_inv_step) auto
  from Cons.IH [OF this] show ?case using Cons.prems by simp
qed simp

lemma stdio_inv_new: "stdio_inv parse print [] 0 ([], stdio_new)"
  by (rule stdio_invI [of _ _ "[]" _ "[]" "[]"]) (auto simp: stdio_new_def stdio_messages_def)

text \<open>
  While the server runs, its messages arrive in order and none twice: the lines the reader has taken out and the text in
  the line buffer make up the output so far, the messages of these lines are what callers have received followed by what waits,
  and no more lines have been taken out than reads were made. A caller gets all waiting messages as one text. Memory is taken to
  be available.
\<close>

theorem stdio_reads_in_order:
  assumes print: "printer_ok print" and ops: "list_all going_on ops"
    and total: "queue_total (stdio_messages parse print (complete_lines (concat (map delivered ops)))) \<le> SIZE_MAX div 2"
    and run: "fold (stdio_op parse print) ops ([], stdio_new) = (taken, t)"
  shows "\<exists>ls groups pending. concat (map delivered ops) = concat (map (\<lambda>l. l @ [newline]) ls) @ io_line t \<and>
    length ls \<le> length ops \<and> taken = map join_lines groups \<and> b_data (io_read t) = join_lines pending \<and>
    concat groups @ pending = stdio_messages parse print ls"
proof -
  have "stdio_inv parse print (concat (map delivered ops)) (length ops) (taken, t)"
    using stdio_inv_run [OF stdio_inv_new print ops, of parse] total run by simp
  then show ?thesis by (rule stdio_invE) (auto simp: queue_rel_def)
qed

definition demo_stdio_ops :: "StdioOp list" where
  "demo_stdio_ops = [Read (Bytes (''{1}'' @ [newline] @ ''{2}'' @ [newline])), Read Again, Recv, Read (Bytes ''{3''), Recv]"

lemma demo_stdio_run: "\<exists>t. fold (stdio_op mcp_demo_parse mcp_demo_print) demo_stdio_ops ([], stdio_new) = ([''x{1}'', ''x{2}''], t) \<and> io_line t = ''{3''"
  by (simp add: demo_stdio_ops_def stdio_op_def stdio_reader_step_def stdio_line_def stdio_append_def mcp_transport_stdio_recv_def
      stdio_new_def buf_new_def SSE_BUFFER_SIZE_def next_line_def mcp_demo_parse_def mcp_demo_print_def starts_with_def SIZE_MAX_def Let_def)

theorem stdio_reads_in_order_witness:
  "\<exists>(t :: MCPStdioTransport) ls groups pending. concat (map delivered demo_stdio_ops) = concat (map (\<lambda>l. l @ [newline]) ls) @ io_line t \<and>
    length ls \<le> length demo_stdio_ops \<and> [''x{1}'', ''x{2}''] = map join_lines groups \<and> b_data (io_read t) = join_lines pending \<and>
    concat groups @ pending = stdio_messages mcp_demo_parse mcp_demo_print ls"
proof -
  obtain t where t: "fold (stdio_op mcp_demo_parse mcp_demo_print) demo_stdio_ops ([], stdio_new) = ([''x{1}'', ''x{2}''], t)"
    using demo_stdio_run by blast
  have ops: "list_all going_on demo_stdio_ops" by (simp add: demo_stdio_ops_def)
  have "stdio_messages mcp_demo_parse mcp_demo_print (complete_lines (concat (map delivered demo_stdio_ops))) = [''x{1}'', ''x{2}'']"
    by code_simp
  then have "queue_total (stdio_messages mcp_demo_parse mcp_demo_print (complete_lines (concat (map delivered demo_stdio_ops)))) \<le> SIZE_MAX div 2"
    by (simp add: queue_total_def SIZE_MAX_def)
  from stdio_reads_in_order [OF mcp_demo_printer_ok ops this t] show ?thesis by (rule exI [of _ t])
qed

section \<open>Lines that wait and lines that end the server\<close>

text \<open>
  The reader takes one line for each read. Two messages that arrive together leave the second one in the line buffer,
  where it stays as long as the server has nothing more to say: no number of empty reads makes it available, and a caller gets
  the first message only.
\<close>

theorem second_line_waits:
  assumes "io_running t" and "io_line t = []" and "newline \<notin> set l" and "NUL \<notin> set (l @ l')"
  shows "reader_steps ok parse print ((Bytes (l @ newline # l' @ [newline]), spawn) # replicate n (Again, spawn)) t =
    t\<lparr>io_line := l' @ [newline], io_read := stdio_line ok parse print l (io_read t)\<rparr>"
proof -
  have idle: "reader_steps ok parse print (replicate n (Again, spawn)) t = t" for t
    by (induction n) (simp_all add: reader_steps_def stdio_reader_step_def)
  have "takeWhile (\<lambda>c. c \<noteq> NUL) (l' @ [newline]) = l' @ [newline]"
    using assms(4) by (auto simp: takeWhile_eq_all_conv)
  then have "stdio_reader_step ok parse print (Bytes (l @ newline # l' @ [newline])) spawn t =
      t\<lparr>io_line := l' @ [newline], io_read := stdio_line ok parse print l (io_read t)\<rparr>"
    using assms next_line_tl [of l "l' @ [newline]"] by (simp add: stdio_reader_step_def)
  then show ?thesis using idle by (simp add: reader_steps_def)
qed

theorem second_line_waits_witness:
  "reader_steps (\<lambda>_. True) mcp_demo_parse mcp_demo_print ((Bytes (''{1}'' @ newline # ''{2}'' @ [newline]), Spawned) # replicate 9 (Again, Spawned))
     stdio_new = stdio_new\<lparr>io_line := ''{2}'' @ [newline], io_read := \<lparr>b_data = ''x{1}'', b_size = 65536\<rparr>\<rparr>"
  using second_line_waits [of stdio_new "''{1}''" "''{2}''" "\<lambda>_. True" mcp_demo_parse mcp_demo_print Spawned 9]
  by (simp add: stdio_new_def buf_new_def SSE_BUFFER_SIZE_def stdio_line_def stdio_append_def mcp_demo_parse_def mcp_demo_print_def
      starts_with_def SIZE_MAX_def Let_def)

text \<open>
  A line that does not fit into the line buffer ends the connection: when the buffer is full without a newline, \<open>read\<close>
  has no room left and its 0 is taken for the end of the output. The server is started again and the messages waiting for a
  caller are dropped.
\<close>

theorem long_line_restarts_server:
  assumes "io_running t" and "\<not> io_reconnecting t" and "io_reconnect_attempts t < 5"
    and full: "length (io_line t) = 4095" and "read_allowed (Bytes data) t"
  shows "stdio_reader_step ok parse print (Bytes data) Spawned t =
    t\<lparr>io_line := [], io_read := (io_read t)\<lparr>b_data := []\<rparr>, io_reconnect_attempts := 0\<rparr>"
  using assms
  by (simp add: stdio_reader_step_def read_allowed_def line_room_def LINE_BUFFER_SIZE_def stdio_reader_exit_def
      mcp_transport_stdio_reconnect_def MAX_RECONNECT_ATTEMPTS_def)

theorem long_line_restarts_server_witness:
  "stdio_reader_step (\<lambda>_. True) mcp_demo_parse mcp_demo_print (Bytes []) Spawned
     (stdio_new\<lparr>io_line := replicate 4095 CHR ''x'', io_read := \<lparr>b_data = ''{1}'', b_size = 65536\<rparr>\<rparr>) =
   stdio_new\<lparr>io_read := \<lparr>b_data = [], b_size = 65536\<rparr>\<rparr>"
  using long_line_restarts_server [of "stdio_new\<lparr>io_line := replicate 4095 CHR ''x'', io_read := \<lparr>b_data = ''{1}'', b_size = 65536\<rparr>\<rparr>"
      "[]" "\<lambda>_. True" mcp_demo_parse mcp_demo_print]
  by (simp add: stdio_new_def read_allowed_def)

end
