(* ===== verification/McpSse.thy ===== *)
theory McpSse
  imports McpQueue
begin

text \<open>
  \<open>plugins/tools/mcp_tools/transport_sse.c\<close>: the event stream of an MCP server. Received bytes are collected into lines, lines
  into events, and events are an endpoint for requests or JSON messages, which wait in a queue kept as one text with newlines between
  the messages. Bytes may arrive in any pieces. \<open>ok\<close> says for which sizes \<open>realloc\<close> succeeds. The requests and the socket are the
  parameters of \<open>mcp_transport_sse_send\<close>. Operations on the queue hold the mutex and are one step.
\<close>

section \<open>Buffers and the transport\<close>

text \<open>\<open>None\<close> when the buffer cannot grow; the code then leaves it as it is.\<close>

definition sse_append_bytes :: "(nat \<Rightarrow> bool) \<Rightarrow> Buf \<Rightarrow> string \<Rightarrow> Buf option" where
  "sse_append_bytes ok b data =
     (let needed = length (b_data b) + length data + 1
      in if needed > b_size b
         then (if ok (needed * 2) then Some \<lparr>b_data = b_data b @ data, b_size = needed * 2\<rparr> else None)
         else Some (b\<lparr>b_data := b_data b @ data\<rparr>))"

definition append_or_keep :: "(nat \<Rightarrow> bool) \<Rightarrow> Buf \<Rightarrow> string \<Rightarrow> Buf" where
  "append_or_keep ok b data = (case sse_append_bytes ok b data of None \<Rightarrow> b | Some b' \<Rightarrow> b')"

record MCPSSETransport =
  st_read :: Buf
  st_recv :: Buf
  st_event :: Buf
  st_current_event :: string
  st_post_url :: "string option"
  st_session_id :: "string option"
  st_running :: bool

definition sse_transport_new :: MCPSSETransport where
  "sse_transport_new =
     \<lparr>st_read = buf_new, st_recv = buf_new, st_event = buf_new, st_current_event = [], st_post_url = None, st_session_id = None,
      st_running = True\<rparr>"

section \<open>Addresses\<close>

definition sse_resolve_url :: "string option \<Rightarrow> string \<Rightarrow> string option" where
  "sse_resolve_url base_url endpoint =
     (if endpoint = [] then None
      else if starts_with ''http://'' endpoint \<or> starts_with ''https://'' endpoint then Some endpoint
      else (case base_url of
              None \<Rightarrow> None
            | Some base \<Rightarrow>
                (case strstr base ''://'' of
                   None \<Rightarrow> None
                 | Some scheme \<Rightarrow>
                     (let origin_len = (case strchr (drop 3 scheme) CHR ''/'' of
                                          Some path_start \<Rightarrow> length base - length path_start | None \<Rightarrow> length base)
                      in if starts_with ''/'' endpoint then Some (take origin_len base @ endpoint)
                         else (let base_len = (case strrchr base CHR ''/'' of
                                                 Some last_slash \<Rightarrow> length base - length last_slash + 1 | None \<Rightarrow> length base)
                               in Some (take base_len base @ endpoint))))))"

text \<open>The first line of the body that has \<open>data:\<close> and something behind it.\<close>

function sse_extract_endpoint :: "string \<Rightarrow> string option" where
  "sse_extract_endpoint body =
     (case strstr body ''data:'' of
        None \<Rightarrow> None
      | Some p \<Rightarrow>
          (let p = dropWhile (\<lambda>c. c = CHR '' '') (drop 5 p); out = takeWhile (\<lambda>c. \<not> line_break c) p
           in if out \<noteq> [] then Some out else sse_extract_endpoint p))"
  by pat_completeness auto
termination
proof (relation "measure length", goal_cases)
  case 1
  show ?case by simp
next
  case (2 body p p' out)
  have "prefix ''data:'' p \<and> suffix p body" using strstr_Some 2(1) by blast
  then have "length p \<le> length body" "5 \<le> length p" by (auto dest: suffix_length_le prefix_length_le)
  moreover have "length p' \<le> length (drop 5 p)" using 2(2) length_dropWhile_le by blast
  ultimately show ?case by simp
qed

declare sse_extract_endpoint.simps [simp del]

section \<open>The queue of messages\<close>

definition sse_queue_append :: "(nat \<Rightarrow> bool) \<Rightarrow> string \<Rightarrow> MCPSSETransport \<Rightarrow> MCPSSETransport" where
  "sse_queue_append ok msg t = t\<lparr>st_read := queue_append ok msg (st_read t)\<rparr>"

definition sse_queue_pop :: "bool \<Rightarrow> MCPSSETransport \<Rightarrow> string option \<times> MCPSSETransport" where
  "sse_queue_pop malloc_ok t = (case queue_pop malloc_ok (st_read t) of (m, b) \<Rightarrow> (m, t\<lparr>st_read := b\<rparr>))"

section \<open>Events\<close>

definition sse_reset_event_buffer :: "MCPSSETransport \<Rightarrow> MCPSSETransport" where
  "sse_reset_event_buffer t = t\<lparr>st_event := (st_event t)\<lparr>b_data := []\<rparr>\<rparr>"

definition sse_emit_event_if_ready ::
  "(nat \<Rightarrow> bool) \<Rightarrow> json_parser \<Rightarrow> json_printer \<Rightarrow> string option \<Rightarrow> MCPSSETransport \<Rightarrow> MCPSSETransport" where
  "sse_emit_event_if_ready ok parse print command t =
     (if b_data (st_event t) = [] then t
      else (let data = rtrim_by line_break (b_data (st_event t)); t = t\<lparr>st_event := (st_event t)\<lparr>b_data := data\<rparr>\<rparr>;
                reset = (\<lambda>t. (sse_reset_event_buffer t)\<lparr>st_current_event := []\<rparr>)
            in if data = [] then t
               else if data = ''[DONE]'' then reset t
               else if st_current_event t = ''endpoint''
               then (case sse_resolve_url command data of
                       None \<Rightarrow> reset t
                     | Some url \<Rightarrow> reset (t\<lparr>st_post_url := Some url\<rparr>))
               else (case parse data of
                       None \<Rightarrow> reset t
                     | Some parsed \<Rightarrow>
                         (case print parsed of
                            Some text \<Rightarrow> reset (sse_queue_append ok text t)
                          | None \<Rightarrow> reset (sse_queue_append ok data t)))))"

text \<open>One line without its newline.\<close>

definition sse_line ::
  "(nat \<Rightarrow> bool) \<Rightarrow> json_parser \<Rightarrow> json_printer \<Rightarrow> string option \<Rightarrow> MCPSSETransport \<Rightarrow> string \<Rightarrow> MCPSSETransport" where
  "sse_line ok parse print command t raw =
     (let line = (if raw \<noteq> [] \<and> last raw = CHR 0x0D then butlast raw else raw);
          after = (\<lambda>n. let v = drop n line in if starts_with '' '' v then tl v else v)
      in if line = [] then sse_emit_event_if_ready ok parse print command t
         else if starts_with ''event:'' line then t\<lparr>st_current_event := c_trunc 64 (after 6)\<rparr>
         else if starts_with ''data:'' line
         then t\<lparr>st_event := append_or_keep ok (append_or_keep ok (st_event t) (after 5)) [newline]\<rparr>
         else t)"

function sse_lines ::
  "(nat \<Rightarrow> bool) \<Rightarrow> json_parser \<Rightarrow> json_printer \<Rightarrow> string option \<Rightarrow> MCPSSETransport \<Rightarrow> string \<Rightarrow> MCPSSETransport \<times> string" where
  "sse_lines ok parse print command t s =
     (case next_line s of
        None \<Rightarrow> (t, s)
      | Some (line, rest) \<Rightarrow> sse_lines ok parse print command (sse_line ok parse print command t line) rest)"
  by pat_completeness auto
termination
  by (relation "measure (\<lambda>(ok, parse, print, command, t, s). length s)") (auto dest!: next_line_Some)

declare sse_lines.simps [simp del]

definition sse_process_received_data ::
  "(nat \<Rightarrow> bool) \<Rightarrow> json_parser \<Rightarrow> json_printer \<Rightarrow> string option \<Rightarrow> string \<Rightarrow> MCPSSETransport \<Rightarrow> MCPSSETransport" where
  "sse_process_received_data ok parse print command data t =
     (if data = [] then t
      else (case sse_append_bytes ok (st_recv t) data of
              None \<Rightarrow> t
            | Some b \<Rightarrow>
                (case sse_lines ok parse print command (t\<lparr>st_recv := b\<rparr>) (b_data b) of
                   (t, rest) \<Rightarrow> t\<lparr>st_recv := (st_recv t)\<lparr>b_data := rest\<rparr>\<rparr>)))"

lemma append_or_keep_data [simp]: "b_data (append_or_keep (\<lambda>_. True) b data) = b_data b @ data"
  by (simp add: append_or_keep_def sse_append_bytes_def Let_def)

lemma sse_queue_append_fields [simp]:
  "st_read (sse_queue_append ok m t) = queue_append ok m (st_read t)"
  "st_event (sse_queue_append ok m t) = st_event t" "st_recv (sse_queue_append ok m t) = st_recv t"
  "st_current_event (sse_queue_append ok m t) = st_current_event t" "st_post_url (sse_queue_append ok m t) = st_post_url t"
  by (simp_all add: sse_queue_append_def)

section \<open>Two events that surprise\<close>

text \<open>
  An event that has a name and no data leaves its name to the next event, where the format resets the name at every
  empty line: after an empty event \<open>endpoint\<close> the JSON message of the next event is not queued but becomes the address of all
  further requests.
\<close>

theorem empty_event_keeps_name:
  assumes "b_data (st_event t) = []" and "m \<noteq> []" and "\<not> line_break (last m)" and "m \<noteq> ''[DONE]''"
    and url: "sse_resolve_url command m = Some url"
    and t': "t' = foldl (sse_line (\<lambda>_. True) parse print command) t [''event: endpoint'', [], ''data: '' @ m, []]"
  shows "st_read t' = st_read t \<and> st_post_url t' = Some url"
proof -
  have "rtrim_by line_break (m @ [newline]) = m"
    using assms(2,3) by (cases m rule: rev_cases) (auto simp: rtrim_by_def line_break_def)
  moreover have "last m \<noteq> CHR 0x0D" using assms(3) by (auto simp: line_break_def)
  ultimately show ?thesis
    using assms by (simp add: t' sse_line_def sse_emit_event_if_ready_def sse_reset_event_buffer_def starts_with_def Let_def)
qed

theorem empty_event_keeps_name_witness:
  "st_post_url (foldl (sse_line (\<lambda>_. True) mcp_demo_parse mcp_demo_print (Some ''http://h/sse'')) sse_transport_new
     [''event: endpoint'', [], ''data: '' @ ''{1}'', []]) = Some ''http://h/{1}''"
proof -
  have url: "sse_resolve_url (Some ''http://h/sse'') ''{1}'' = Some ''http://h/{1}''"
    by (simp add: sse_resolve_url_def starts_with_def Let_def)
  show ?thesis
    using empty_event_keeps_name [of sse_transport_new "''{1}''", OF _ _ _ _ url refl, of mcp_demo_parse mcp_demo_print]
    by (simp add: sse_transport_new_def buf_new_def line_break_def)
qed

text \<open>A relative endpoint against an address without a path is taken for the host.\<close>

lemma relative_endpoint_becomes_host: "sse_resolve_url (Some ''http://host'') ''msg'' = Some ''http://msg''"
  by (simp add: sse_resolve_url_def starts_with_def Let_def)

section \<open>Requests\<close>

text \<open>
  A request is one HTTP connection; the answers are the events its handler is called with, in order, until the connection is
  freed. The header event has the status, the session and the content type. Strings are C strings, so a body ends at its first NUL byte.
\<close>

record MCPSSEPostContext =
  pc_done :: bool
  pc_ok :: bool
  pc_http_status :: int
  pc_last_error :: string
  pc_response_body :: "string option"
  pc_session_id :: "string option"

definition post_context_new :: MCPSSEPostContext where
  "post_context_new =
     \<lparr>pc_done = False, pc_ok = False, pc_http_status = 0, pc_last_error = [], pc_response_body = None, pc_session_id = None\<rparr>"

datatype PostEvent =
    HttpHeaders int "string option" "string option"
  | HttpMessage int string
  | ConnectionError "string option"
  | ConnectionClosed
  | OtherEvent

definition http_success :: "int \<Rightarrow> bool" where
  "http_success status \<longleftrightarrow> 200 \<le> status \<and> status < 300"

definition mcp_sse_post_event_handler :: "(nat \<Rightarrow> bool) \<Rightarrow> PostEvent \<Rightarrow> MCPSSEPostContext \<Rightarrow> MCPSSEPostContext" where
  "mcp_sse_post_event_handler ok ev ctx =
     (case ev of
        HttpHeaders status header _ \<Rightarrow>
          (let ctx = ctx\<lparr>pc_http_status := status\<rparr>;
               sid = (case header of None \<Rightarrow> [] | Some v \<Rightarrow> takeWhile (\<lambda>c. c \<noteq> NUL) (c_trunc 1024 v))
           in if sid = [] then ctx
              else ctx\<lparr>pc_session_id := (if ok (length sid + 1) then Some sid else None)\<rparr>)
      | HttpMessage status body \<Rightarrow>
          (let ctx = ctx\<lparr>pc_http_status := status, pc_ok := http_success status, pc_done := True\<rparr>
           in if body = [] then ctx
              else ctx\<lparr>pc_response_body := (if ok (length body + 1) then Some (takeWhile (\<lambda>c. c \<noteq> NUL) body) else None)\<rparr>)
      | ConnectionError err \<Rightarrow>
          ctx\<lparr>pc_last_error := c_trunc 256 (case err of Some e \<Rightarrow> e | None \<Rightarrow> ''SSE POST error''), pc_ok := False, pc_done := True\<rparr>
      | ConnectionClosed \<Rightarrow>
          (if pc_done ctx then ctx else ctx\<lparr>pc_done := True, pc_ok := http_success (pc_http_status ctx)\<rparr>)
      | OtherEvent \<Rightarrow> ctx)"

record PostRequest =
  rq_url :: string
  rq_session :: "string option"
  rq_data :: string

type_synonym post_network = "nat \<Rightarrow> PostRequest \<Rightarrow> PostEvent list option"

definition fallback_url :: "string \<Rightarrow> string option" where
  "fallback_url post_url =
     (case strstr post_url ''/sse'' of
        None \<Rightarrow> None
      | Some pos \<Rightarrow> (let prefix_len = length post_url - length pos
                     in if prefix_len + 5 < 1024 then Some (take prefix_len post_url @ ''/mcp'') else None))"

definition post_parsed_msg :: "json_parser \<Rightarrow> string option \<Rightarrow> string" where
  "post_parsed_msg parse response_body =
     (case response_body of
        None \<Rightarrow> []
      | Some body \<Rightarrow>
          (if body = [] then []
           else (case parse body of
                   None \<Rightarrow> []
                 | Some err_json \<Rightarrow>
                     (case json_string (get_object_item (Some err_json) ''Message'') of
                        Some m \<Rightarrow> c_trunc 256 m
                      | None \<Rightarrow> (case json_string (get_object_item (Some err_json) ''message'') of
                                   Some m \<Rightarrow> c_trunc 256 m | None \<Rightarrow> [])))))"

definition says_session_expired :: "string \<Rightarrow> bool" where
  "says_session_expired s \<longleftrightarrow> strstr s ''expired'' \<noteq> None \<and> strstr s ''session'' \<noteq> None"

definition post_failure :: "string \<Rightarrow> MCPSSEPostContext \<Rightarrow> Error" where
  "post_failure parsed_msg ctx =
     error_new ERR_CONNECTION
       (Some (if parsed_msg \<noteq> [] then parsed_msg
              else if pc_last_error ctx \<noteq> [] then pc_last_error ctx
              else c_trunc 128 (''SSE POST failed, status '' @ show_int (pc_http_status ctx))))"

definition post_delivered ::
  "(nat \<Rightarrow> bool) \<Rightarrow> json_parser \<Rightarrow> json_printer \<Rightarrow> MCPSSEPostContext \<Rightarrow> MCPSSETransport \<Rightarrow> MCPSSETransport" where
  "post_delivered ok parse print ctx t =
     (let t = (case pc_session_id ctx of None \<Rightarrow> t | Some sid \<Rightarrow> if sid = [] then t else t\<lparr>st_session_id := Some sid\<rparr>)
      in case pc_response_body ctx of
           None \<Rightarrow> t
         | Some body \<Rightarrow>
             (if body = [] then t
              else (case parse body of
                      None \<Rightarrow> t
                    | Some parsed \<Rightarrow> sse_queue_append ok (case print parsed of Some text \<Rightarrow> text | None \<Rightarrow> body) t)))"

text \<open>\<open>retry_send\<close>: the flags allow one retry at the address with \<open>/mcp\<close> and one with a fresh session. The requests are returned too.\<close>

function sse_post_loop ::
  "(nat \<Rightarrow> bool) \<Rightarrow> json_parser \<Rightarrow> json_printer \<Rightarrow> post_network \<Rightarrow> string \<Rightarrow> nat \<Rightarrow> bool \<Rightarrow> bool \<Rightarrow> string \<Rightarrow> MCPSSETransport
   \<Rightarrow> Error \<times> PostRequest list \<times> MCPSSETransport" where
  "sse_post_loop ok parse print net data n retried_with_mcp retried_expired_session post_url t =
     (let request = \<lparr>rq_url = post_url, rq_session = st_session_id t, rq_data = data\<rparr>
      in case net n request of
           None \<Rightarrow> (error_new ERR_CONNECTION (Some ''Failed to create SSE POST connection''), [], t)
         | Some events \<Rightarrow>
             (let ctx = fold (mcp_sse_post_event_handler ok) events post_context_new;
                  fallback = (if \<not> retried_with_mcp \<and> pc_http_status ctx = 405 then fallback_url post_url else None);
                  parsed_msg = post_parsed_msg parse (pc_response_body ctx)
              in if \<not> pc_done ctx then (error_new ERR_TIMEOUT (Some ''SSE POST timeout''), [request], t)
                 else if pc_ok ctx then (no_error, [request], post_delivered ok parse print ctx t)
                 else if fallback \<noteq> None
                 then (case sse_post_loop ok parse print net data (n + 1) True retried_expired_session (the fallback) t of
                         (err, requests, t) \<Rightarrow> (err, request # requests, t))
                 else if \<not> retried_expired_session \<and> st_session_id t \<noteq> None \<and>
                         (says_session_expired parsed_msg \<or>
                          (case pc_response_body ctx of Some body \<Rightarrow> says_session_expired body | None \<Rightarrow> False))
                 then (case sse_post_loop ok parse print net data (n + 1) retried_with_mcp True post_url (t\<lparr>st_session_id := None\<rparr>) of
                         (err, requests, t) \<Rightarrow> (err, request # requests, t))
                 else (post_failure parsed_msg ctx, [request], t)))"
  by pat_completeness auto
termination
  by (relation "measure (\<lambda>(ok, parse, print, net, data, n, mcp, expired, url, t). (if mcp then 0 else 1) + (if expired then 0 else 1))")
    (auto split: if_splits)

declare sse_post_loop.simps [simp del]

text \<open>\<open>first_arg\<close> is the first argument of the client's configuration, if any.\<close>

definition mcp_transport_sse_send ::
  "(nat \<Rightarrow> bool) \<Rightarrow> json_parser \<Rightarrow> json_printer \<Rightarrow> post_network \<Rightarrow> string \<Rightarrow> string option \<Rightarrow> string \<Rightarrow> MCPSSETransport
   \<Rightarrow> Error \<times> PostRequest list \<times> MCPSSETransport" where
  "mcp_transport_sse_send ok parse print net command first_arg data t =
     sse_post_loop ok parse print net data 0 False False
       (case st_post_url t of
          Some url \<Rightarrow> if url \<noteq> [] then url else (case first_arg of Some a \<Rightarrow> if a \<noteq> [] then a else command | None \<Rightarrow> command)
        | None \<Rightarrow> (case first_arg of Some a \<Rightarrow> if a \<noteq> [] then a else command | None \<Rightarrow> command)) t"

text \<open>
  \<open>arrived\<close> is what reaches the transport while the reader waits, a batch for each time it wakes up; when nothing is left
  the wait ends.
\<close>

fun mcp_transport_sse_recv ::
  "bool \<Rightarrow> (MCPSSETransport \<Rightarrow> MCPSSETransport) list \<Rightarrow> MCPSSETransport \<Rightarrow> string option \<times> MCPSSETransport" where
  "mcp_transport_sse_recv malloc_ok [] t = sse_queue_pop malloc_ok t"
| "mcp_transport_sse_recv malloc_ok (arrive # arrived) t =
     (if b_data (st_read t) = [] \<and> st_running t then mcp_transport_sse_recv malloc_ok arrived (arrive t)
      else sse_queue_pop malloc_ok t)"

lemma post_loop_result:
  assumes "sse_post_loop ok parse print net data n mcp expired url t = (err, requests, t')"
  shows "length requests \<le> 1 + (if mcp then 0 else 1) + (if expired then 0 else 1) \<and>
    (\<forall>r \<in> set requests. rq_data r = data \<and> (rq_session r = st_session_id t \<or> rq_session r = None))"
  using assms
proof (induction ok parse print net data n mcp expired url t arbitrary: err requests t' rule: sse_post_loop.induct)
  case (1 ok parse print net data n mcp expired url t)
  let ?request = "\<lparr>rq_url = url, rq_session = st_session_id t, rq_data = data\<rparr>"
  show ?case
  proof (cases "net n ?request")
    case None
    then show ?thesis using 1(3) by (simp add: sse_post_loop.simps [of ok parse print net data n mcp expired url t])
  next
    case (Some events)
    note IH = 1(1) [OF refl Some refl refl refl] 1(2) [OF refl Some refl refl refl]
    show ?thesis
      using 1(3) Some IH
      by (auto simp: sse_post_loop.simps [of ok parse print net data n mcp expired url t] Let_def split: if_splits prod.splits)
  qed
qed

text \<open>
  A message is sent at most three times, always the same message, and no request names a session the transport did not
  have: the retries at the other address and with a fresh session happen once each, whatever the servers answer.
\<close>

theorem sse_send_at_most_three:
  assumes "mcp_transport_sse_send ok parse print net command first_arg data t = (err, requests, t')"
  shows "length requests \<le> 3 \<and>
    list_all (\<lambda>r. rq_data r = data \<and> (rq_session r = st_session_id t \<or> rq_session r = None)) requests"
  using post_loop_result [OF assms [unfolded mcp_transport_sse_send_def]] by (simp add: list_all_iff)

definition demo_net :: post_network where
  "demo_net n request =
     Some (if rq_session request \<noteq> None
           then [HttpMessage (if strstr (rq_url request) ''/sse'' = None then 404 else 405) ''session expired'', ConnectionClosed]
           else [HttpHeaders 200 (Some ''new'') None, HttpMessage 200 ''{1}'', ConnectionClosed])"

lemma demo_send:
  "mcp_transport_sse_send (\<lambda>_. True) mcp_demo_parse mcp_demo_print demo_net ''http://h/sse'' None ''{9}'' (sse_transport_new\<lparr>st_session_id := Some ''old''\<rparr>)
   = (no_error, [\<lparr>rq_url = ''http://h/sse'', rq_session = Some ''old'', rq_data = ''{9}''\<rparr>,
                 \<lparr>rq_url = ''http://h/mcp'', rq_session = Some ''old'', rq_data = ''{9}''\<rparr>,
                 \<lparr>rq_url = ''http://h/mcp'', rq_session = None, rq_data = ''{9}''\<rparr>],
      sse_transport_new\<lparr>st_session_id := Some ''new'', st_read := \<lparr>b_data = ''x{1}'', b_size = 65536\<rparr>\<rparr>)"
  by (simp add: mcp_transport_sse_send_def sse_post_loop.simps demo_net_def mcp_sse_post_event_handler_def post_context_new_def
      fallback_url_def post_parsed_msg_def says_session_expired_def post_delivered_def sse_queue_append_def queue_append_def sse_transport_new_def
      buf_new_def SSE_BUFFER_SIZE_def http_success_def mcp_demo_parse_def mcp_demo_print_def starts_with_def c_trunc_def Let_def)

theorem sse_send_at_most_three_witness:
  "\<exists>err requests t'. mcp_transport_sse_send (\<lambda>_. True) mcp_demo_parse mcp_demo_print demo_net ''http://h/sse'' None ''{9}''
      (sse_transport_new\<lparr>st_session_id := Some ''old''\<rparr>) = (err, requests, t') \<and> err = no_error \<and> length requests = 3 \<and>
    list_all (\<lambda>r. rq_data r = ''{9}'' \<and> (rq_session r = Some ''old'' \<or> rq_session r = None)) requests"
  using sse_send_at_most_three [OF demo_send] demo_send by auto

lemma handler_done: "pc_done ctx \<Longrightarrow> pc_done (mcp_sse_post_event_handler ok ev ctx)"
  by (simp add: mcp_sse_post_event_handler_def Let_def split: PostEvent.split)

lemma closed_done: "pc_done (fold (mcp_sse_post_event_handler ok) (evs @ [ConnectionClosed]) ctx)"
  by (simp add: mcp_sse_post_event_handler_def)

lemma post_loop_no_timeout:
  assumes "sse_post_loop ok parse print net data n mcp expired url t = (err, requests, t')"
    and "\<And>n r. \<exists>evs. net n r = Some (evs @ [ConnectionClosed])"
  shows "err_code err \<noteq> ERR_TIMEOUT"
  using assms
proof (induction ok parse print net data n mcp expired url t arbitrary: err requests t' rule: sse_post_loop.induct)
  case (1 ok parse print net data n mcp expired url t)
  let ?request = "\<lparr>rq_url = url, rq_session = st_session_id t, rq_data = data\<rparr>"
  obtain evs where evs: "net n ?request = Some (evs @ [ConnectionClosed])" using 1(4) by blast
  note IH = 1(1) [OF refl evs refl refl refl] 1(2) [OF refl evs refl refl refl]
  show ?case
    using 1(3) evs IH 1(4) closed_done [of ok evs post_context_new]
    by (auto simp: sse_post_loop.simps [of ok parse print net data n mcp expired url t] Let_def post_failure_def error_new_def
        simp del: fold_append split: if_splits prod.splits)
qed

text \<open>
  A server that does not answer in time is never reported as a timeout: freeing the connection calls the handler with
  its closing, which marks the request as done. A server that has sent the header of a success and then nothing more even counts
  as having answered.
\<close>

theorem sse_send_hides_timeout:
  assumes net: "\<And>n r. net n r = Some (answer n r @ [ConnectionClosed])"
  shows "err_code (fst (mcp_transport_sse_send ok parse print net command first_arg data t)) \<noteq> ERR_TIMEOUT \<and>
    ((\<forall>r. answer 0 r = [HttpHeaders 200 None None]) \<longrightarrow>
      fst (mcp_transport_sse_send ok parse print net command first_arg data t) = no_error)"
proof -
  have "fst (sse_post_loop ok parse print net data 0 False False url t) = no_error" if "\<forall>r. answer 0 r = [HttpHeaders 200 None None]" for url
    using that by (simp add: sse_post_loop.simps net mcp_sse_post_event_handler_def post_context_new_def http_success_def)
  moreover have "err_code (fst (sse_post_loop ok parse print net data 0 False False url t)) \<noteq> ERR_TIMEOUT" for url
    using post_loop_no_timeout [of ok parse print net data 0 False False url t] net
    by (cases "sse_post_loop ok parse print net data 0 False False url t") auto
  ultimately show ?thesis by (simp add: mcp_transport_sse_send_def)
qed

definition stalling_answer :: "nat \<Rightarrow> PostRequest \<Rightarrow> PostEvent list" where
  "stalling_answer n r = [HttpHeaders 200 None None]"

theorem sse_send_hides_timeout_witness:
  "fst (mcp_transport_sse_send (\<lambda>_. True) mcp_demo_parse mcp_demo_print (\<lambda>n r. Some (stalling_answer n r @ [ConnectionClosed]))
     ''http://h/sse'' None ''{9}'' sse_transport_new) = no_error"
  using sse_send_hides_timeout [of "\<lambda>n r. Some (stalling_answer n r @ [ConnectionClosed])" stalling_answer, OF refl]
  by (simp add: stalling_answer_def)

section \<open>What the stream promises\<close>

text \<open>
  The specification reads complete lines and keeps the pending messages as a list. At an empty line the event ends, and its name and its data are
  gone, as the format of event streams has it.
\<close>

record SseSpec =
  sp_pending :: "string list"
  sp_name :: string
  sp_data :: "string list"
  sp_post_url :: "string option"

definition sse_spec_new :: SseSpec where
  "sse_spec_new = \<lparr>sp_pending = [], sp_name = [], sp_data = [], sp_post_url = None\<rparr>"

definition spec_dispatch :: "json_parser \<Rightarrow> json_printer \<Rightarrow> string option \<Rightarrow> SseSpec \<Rightarrow> SseSpec" where
  "spec_dispatch parse print command s =
     (let text = rtrim_by line_break (concat (map (\<lambda>l. l @ [newline]) (sp_data s))); ended = s\<lparr>sp_data := [], sp_name := []\<rparr>
      in if text = [] \<or> text = ''[DONE]'' then ended
         else if sp_name s = ''endpoint''
         then ended\<lparr>sp_post_url := (case sse_resolve_url command text of None \<Rightarrow> sp_post_url s | Some url \<Rightarrow> Some url)\<rparr>
         else ended\<lparr>sp_pending := sp_pending s @ (case parse text of None \<Rightarrow> [] | Some j \<Rightarrow> [the (print j)])\<rparr>)"

definition without_cr :: "string \<Rightarrow> string" where
  "without_cr raw = (if raw \<noteq> [] \<and> last raw = CHR 0x0D then butlast raw else raw)"

definition spec_line :: "json_parser \<Rightarrow> json_printer \<Rightarrow> string option \<Rightarrow> SseSpec \<Rightarrow> string \<Rightarrow> SseSpec" where
  "spec_line parse print command s raw =
     (let line = without_cr raw;
          field = (\<lambda>n. let v = drop n line in if starts_with '' '' v then tl v else v)
      in if line = [] then spec_dispatch parse print command s
         else if starts_with ''event:'' line then s\<lparr>sp_name := field 6\<rparr>
         else if starts_with ''data:'' line then s\<lparr>sp_data := sp_data s @ [field 5]\<rparr>
         else s)"

text \<open>No event of the lines is an endpoint without an address.\<close>

fun endpoints_filled :: "json_parser \<Rightarrow> json_printer \<Rightarrow> string option \<Rightarrow> SseSpec \<Rightarrow> string list \<Rightarrow> bool" where
  "endpoints_filled parse print command s [] = True"
| "endpoints_filled parse print command s (l # ls) =
     (\<not> (without_cr l = [] \<and> sp_name s = ''endpoint'' \<and> rtrim_by line_break (concat (sp_data s)) = []) \<and>
      endpoints_filled parse print command (spec_line parse print command s l) ls)"

text \<open>
  What the network thread, the senders of requests and the readers of the queue do. Of a request that succeeded, the body of the reply is put into the
  queue; what happens before does not touch the queue.
\<close>

datatype SseOp = Received string | Replied MCPSSEPostContext | Pop

definition sse_step ::
  "json_parser \<Rightarrow> json_printer \<Rightarrow> string option \<Rightarrow> SseOp \<Rightarrow> string list \<times> MCPSSETransport \<Rightarrow> string list \<times> MCPSSETransport" where
  "sse_step parse print command op r =
     (case r of (out, t) \<Rightarrow>
        (case op of
           Received data \<Rightarrow> (out, sse_process_received_data (\<lambda>_. True) parse print command data t)
         | Replied ctx \<Rightarrow> (out, post_delivered (\<lambda>_. True) parse print ctx t)
         | Pop \<Rightarrow> (case sse_queue_pop True t of (None, t) \<Rightarrow> (out, t) | (Some m, t) \<Rightarrow> (out @ [m], t))))"

fun sse_received :: "SseOp \<Rightarrow> string" where
  "sse_received (Received data) = data"
| "sse_received _ = []"

text \<open>The messages in the bodies of the replies.\<close>

fun sse_replies :: "json_parser \<Rightarrow> json_printer \<Rightarrow> SseOp \<Rightarrow> string list" where
  "sse_replies parse print (Replied ctx) =
     (case pc_response_body ctx of
        Some (c # cs) \<Rightarrow> (case parse (c # cs) of Some j \<Rightarrow> [the (print j)] | None \<Rightarrow> [])
      | _ \<Rightarrow> [])"
| "sse_replies parse print _ = []"

section \<open>The stream refines its specification\<close>

lemma sse_lines_fold:
  "sse_lines ok parse print command t s = (foldl (sse_line ok parse print command) t (complete_lines s), incomplete_line s)"
proof (induction ok parse print command t s rule: sse_lines.induct)
  case (1 ok parse print command t s)
  show ?case
    using 1 by (cases "next_line s")
      (auto simp: sse_lines.simps [of ok parse print command t s] complete_lines.simps [of s] incomplete_line.simps [of s])
qed

definition sse_rel :: "MCPSSETransport \<Rightarrow> SseSpec \<Rightarrow> bool" where
  "sse_rel t s \<longleftrightarrow>
     queue_rel (st_read t) (sp_pending s) \<and> b_data (st_event t) = concat (map (\<lambda>l. l @ [newline]) (sp_data s)) \<and>
     (st_current_event t = ''endpoint'' \<longleftrightarrow> sp_name s = ''endpoint'') \<and> st_post_url t = sp_post_url s"

lemma queue_pop_empty: "sse_rel t s \<Longrightarrow> sp_pending s = [] \<Longrightarrow> sse_queue_pop True t = (None, t)"
  using queue_rel_pop [of "st_read t" "sp_pending s"] by (simp add: sse_rel_def sse_queue_pop_def)

lemma queue_pop_first:
  assumes "sse_rel t s" "sp_pending s = m # ms"
  shows "\<exists>t'. sse_queue_pop True t = (Some m, t') \<and> sse_rel t' (s\<lparr>sp_pending := ms\<rparr>) \<and> st_recv t' = st_recv t"
  using assms queue_rel_pop [of "st_read t" "sp_pending s"]
  by (cases "queue_pop True (st_read t)") (simp add: sse_rel_def sse_queue_pop_def)

lemma c_trunc_endpoint: "c_trunc 64 n = ''endpoint'' \<longleftrightarrow> n = ''endpoint''"
proof
  assume a: "c_trunc 64 n = ''endpoint''"
  then have "length (take 63 n) = 8" by (simp add: c_trunc_def)
  then have "length n < 64" by simp
  with a show "n = ''endpoint''" by simp
qed simp

lemma rtrim_empty: "rtrim_by line_break (concat (map (\<lambda>l. l @ [newline]) ls)) = [] \<longleftrightarrow> rtrim_by line_break (concat ls) = []"
  by (induction ls) (auto simp: rtrim_by_def line_break_def)

lemma rel_emit:
  assumes rel: "sse_rel t s" and print: "printer_ok print" and filled: "sp_name s = ''endpoint'' \<Longrightarrow> rtrim_by line_break (concat (sp_data s)) \<noteq> []"
  shows "sse_rel (sse_emit_event_if_ready (\<lambda>_. True) parse print command t) (spec_dispatch parse print command s)"
proof -
  let ?text = "rtrim_by line_break (b_data (st_event t))"
  have ev: "b_data (st_event t) = concat (map (\<lambda>l. l @ [newline]) (sp_data s))" using rel by (simp add: sse_rel_def)
  show ?thesis
  proof (cases "?text = []")
    case True
    then have "sp_name s \<noteq> ''endpoint''" using filled rtrim_empty [of "sp_data s"] ev by auto
    then show ?thesis using True rel ev
      by (auto simp: sse_emit_event_if_ready_def spec_dispatch_def Let_def sse_rel_def rtrim_by_def)
  next
    case False
    then have ne: "b_data (st_event t) \<noteq> []" by (auto simp: rtrim_by_def)
    show ?thesis
    proof (cases "parse ?text")
      case None
      then show ?thesis using False ne rel ev
        by (auto simp: sse_emit_event_if_ready_def spec_dispatch_def Let_def sse_rel_def sse_reset_event_buffer_def split: option.splits)
    next
      case (Some j)
      obtain m where m: "print j = Some m" "message_ok m" using print by (auto simp: printer_ok_def message_ok_def)
      have q: "queue_rel (queue_append (\<lambda>_. True) m (st_read t)) (sp_pending s @ [m])"
        using rel m by (intro queue_rel_append) (auto simp: sse_rel_def)
      show ?thesis using False ne rel ev Some m q
        by (auto simp: sse_emit_event_if_ready_def spec_dispatch_def Let_def sse_rel_def sse_reset_event_buffer_def split: option.splits)
    qed
  qed
qed

lemma rel_line:
  assumes "sse_rel t s" "printer_ok print"
    and "\<not> (without_cr raw = [] \<and> sp_name s = ''endpoint'' \<and> rtrim_by line_break (concat (sp_data s)) = [])"
  shows "sse_rel (sse_line (\<lambda>_. True) parse print command t raw) (spec_line parse print command s raw)"
  using assms rel_emit [of t s print parse command]
  by (auto simp: sse_line_def spec_line_def without_cr_def [symmetric] Let_def sse_rel_def c_trunc_endpoint)

lemma rel_lines:
  "sse_rel t s \<Longrightarrow> printer_ok print \<Longrightarrow> endpoints_filled parse print command s ls \<Longrightarrow>
   sse_rel (foldl (sse_line (\<lambda>_. True) parse print command) t ls) (foldl (spec_line parse print command) s ls)"
  by (induction ls arbitrary: t s) (auto intro: rel_line)

lemma emit_recv [simp]: "st_recv (sse_emit_event_if_ready ok parse print command t) = st_recv t"
  by (auto simp: sse_emit_event_if_ready_def Let_def sse_reset_event_buffer_def split: option.splits)

lemma line_recv [simp]: "st_recv (sse_line ok parse print command t raw) = st_recv t"
  by (simp add: sse_line_def Let_def)

lemma lines_recv [simp]: "st_recv (foldl (sse_line ok parse print command) t ls) = st_recv t"
  by (induction ls arbitrary: t) auto

lemma append_bytes_total: "\<exists>b'. sse_append_bytes (\<lambda>_. True) b data = Some b' \<and> b_data b' = b_data b @ data"
  by (simp add: sse_append_bytes_def Let_def)

lemma process_received:
  assumes rel: "sse_rel t s" and print: "printer_ok print" and rest: "b_data (st_recv t) = incomplete_line a"
    and filled: "endpoints_filled parse print command s (complete_lines (incomplete_line a @ data))"
    and t': "t' = sse_process_received_data (\<lambda>_. True) parse print command data t"
  shows "b_data (st_recv t') = incomplete_line (a @ data) \<and>
    sse_rel t' (foldl (spec_line parse print command) s (complete_lines (incomplete_line a @ data)))"
proof (cases "data = []")
  case True
  then show ?thesis using rel rest by (simp add: t' sse_process_received_data_def)
next
  case False
  obtain b where b: "sse_append_bytes (\<lambda>_. True) (st_recv t) data = Some b" "b_data b = incomplete_line a @ data"
    using append_bytes_total rest by metis
  have r: "sse_rel (t\<lparr>st_recv := b\<rparr>) s" using rel by (simp add: sse_rel_def)
  show ?thesis
    using False rel_lines [OF r print filled] b
      complete_lines_append [of a data]
    by (simp add: t' sse_process_received_data_def sse_lines_fold sse_rel_def)
qed

text \<open>What is in the queue has no influence on the rest of the specification.\<close>

definition prepend :: "string list \<Rightarrow> SseSpec \<Rightarrow> SseSpec" where
  "prepend out s = s\<lparr>sp_pending := out @ sp_pending s\<rparr>"

lemma prepend_line: "spec_line parse print command (prepend out s) raw = prepend out (spec_line parse print command s raw)"
  by (cases s) (simp add: prepend_def spec_line_def spec_dispatch_def Let_def split: option.split)

lemma prepend_lines:
  "foldl (spec_line parse print command) (prepend out s) ls = prepend out (foldl (spec_line parse print command) s ls)"
  by (induction ls arbitrary: s) (auto simp: prepend_line)

lemma prepend_filled: "endpoints_filled parse print command (prepend out s) ls = endpoints_filled parse print command s ls"
  by (induction ls arbitrary: s) (auto simp: prepend_line, auto simp: prepend_def)

lemma filled_append:
  "endpoints_filled parse print command s (xs @ ys) \<longleftrightarrow>
   endpoints_filled parse print command s xs \<and> endpoints_filled parse print command (foldl (spec_line parse print command) s xs) ys"
  by (induction xs arbitrary: s) auto

definition no_queue :: "SseSpec \<Rightarrow> SseSpec" where
  "no_queue s = s\<lparr>sp_pending := []\<rparr>"

lemma queue_apart: "prepend (sp_pending s) (no_queue s) = s"
  by (simp add: prepend_def no_queue_def)

lemma foldl_apart:
  "foldl (spec_line parse print command) s ls = prepend (sp_pending s) (foldl (spec_line parse print command) (no_queue s) ls)"
  by (subst queue_apart [symmetric, of s]) (rule prepend_lines)

lemma filled_apart: "endpoints_filled parse print command s ls = endpoints_filled parse print command (no_queue s) ls"
  by (subst queue_apart [symmetric, of s]) (rule prepend_filled)

lemma no_queue_prepend [simp]: "no_queue (prepend out s) = no_queue s" "sp_pending (prepend out s) = out @ sp_pending s"
  by (simp_all add: no_queue_def prepend_def)

lemma shuffles_append: "zs \<in> shuffles xs ys \<Longrightarrow> zs @ us \<in> shuffles (xs @ us) ys"
proof (induction xs ys arbitrary: zs rule: shuffles.induct)
  case (1 ys)
  then show ?case
  proof (induction ys arbitrary: zs)
    case (Cons y ys)
    then show ?case by (cases us) (auto intro: Cons_in_shuffles_rightI)
  qed simp
qed (auto simp: Cons_in_shuffles_iff)

text \<open>What the specification makes of the bytes received so far.\<close>

definition sse_spec_of :: "json_parser \<Rightarrow> json_printer \<Rightarrow> string option \<Rightarrow> string \<Rightarrow> SseSpec" where
  "sse_spec_of parse print command stream = foldl (spec_line parse print command) sse_spec_new (complete_lines stream)"

definition stream_filled :: "json_parser \<Rightarrow> json_printer \<Rightarrow> string option \<Rightarrow> string \<Rightarrow> bool" where
  "stream_filled parse print command stream = endpoints_filled parse print command sse_spec_new (complete_lines stream)"

lemma spec_of_append:
  "sse_spec_of parse print command (a @ data) =
   foldl (spec_line parse print command) (sse_spec_of parse print command a) (complete_lines (incomplete_line a @ data))"
  using complete_lines_append [of a data] by (simp add: sse_spec_of_def)

lemma stream_filled_append:
  "stream_filled parse print command (a @ data) \<Longrightarrow> stream_filled parse print command a \<and>
   endpoints_filled parse print command (sse_spec_of parse print command a) (complete_lines (incomplete_line a @ data))"
  using complete_lines_append [of a data] by (simp add: stream_filled_def sse_spec_of_def filled_append)

definition stream_inv :: "json_parser \<Rightarrow> json_printer \<Rightarrow> string option \<Rightarrow> string \<Rightarrow> string list \<Rightarrow> string list \<times> MCPSSETransport \<Rightarrow> bool" where
  "stream_inv parse print command a replies r \<longleftrightarrow>
     (case r of (out, t) \<Rightarrow>
        b_data (st_recv t) = incomplete_line a \<and>
        (\<exists>s. sse_rel t s \<and> no_queue s = no_queue (sse_spec_of parse print command a) \<and>
             out @ sp_pending s \<in> shuffles (sp_pending (sse_spec_of parse print command a)) replies))"

lemma replied_step:
  assumes "sse_rel t s" "printer_ok print"
  shows "sse_rel (post_delivered (\<lambda>_. True) parse print ctx t) (s\<lparr>sp_pending := sp_pending s @ sse_replies parse print (Replied ctx)\<rparr>) \<and>
    st_recv (post_delivered (\<lambda>_. True) parse print ctx t) = st_recv t"
proof -
  define t1 where "t1 = (case pc_session_id ctx of None \<Rightarrow> t | Some sid \<Rightarrow> if sid = [] then t else t\<lparr>st_session_id := Some sid\<rparr>)"
  have t1: "sse_rel t1 s" "st_recv t1 = st_recv t" using assms(1) by (simp_all add: t1_def sse_rel_def split: option.split)
  have e: "post_delivered (\<lambda>_. True) parse print ctx t = (case pc_response_body ctx of
           None \<Rightarrow> t1
         | Some body \<Rightarrow>
             (if body = [] then t1
              else (case parse body of
                      None \<Rightarrow> t1
                    | Some parsed \<Rightarrow> sse_queue_append (\<lambda>_. True) (case print parsed of Some text \<Rightarrow> text | None \<Rightarrow> body) t1)))"
    by (simp only: post_delivered_def t1_def Let_def)
  have q: "\<exists>m. print j = Some m \<and> sse_rel (sse_queue_append (\<lambda>_. True) m t1) (s\<lparr>sp_pending := sp_pending s @ [m]\<rparr>)" for j
  proof -
    obtain m where m: "print j = Some m" "message_ok m" using assms(2) by (auto simp: printer_ok_def message_ok_def)
    then have "queue_rel (queue_append (\<lambda>_. True) m (st_read t1)) (sp_pending s @ [m])"
      using t1 by (intro queue_rel_append) (auto simp: sse_rel_def)
    then show ?thesis using m t1 by (auto simp: sse_rel_def)
  qed
  show ?thesis
  proof (cases "\<exists>c cs j. pc_response_body ctx = Some (c # cs) \<and> parse (c # cs) = Some j")
    case True
    then obtain c cs j where b: "pc_response_body ctx = Some (c # cs)" "parse (c # cs) = Some j" by blast
    obtain m where "print j = Some m" "sse_rel (sse_queue_append (\<lambda>_. True) m t1) (s\<lparr>sp_pending := sp_pending s @ [m]\<rparr>)" using q by blast
    then show ?thesis using b t1 by (simp add: e)
  next
    case False
    then show ?thesis using t1 by (auto simp: e split: option.split list.split)
  qed
qed

lemma stream_inv_step:
  assumes inv: "stream_inv parse print command a replies r" and print: "printer_ok print"
    and filled: "stream_filled parse print command (a @ sse_received op)"
  shows "stream_inv parse print command (a @ sse_received op) (replies @ sse_replies parse print op) (sse_step parse print command op r)"
proof -
  let ?S = "sse_spec_of parse print command a"
  obtain out t where r: "r = (out, t)" by (cases r)
  obtain s where s: "sse_rel t s" "no_queue s = no_queue ?S" "out @ sp_pending s \<in> shuffles (sp_pending ?S) replies"
      and rest: "b_data (st_recv t) = incomplete_line a"
    using inv r by (auto simp: stream_inv_def)
  show ?thesis
  proof (cases op)
    case (Received data)
    let ?ls = "complete_lines (incomplete_line a @ data)"
    let ?new = "foldl (spec_line parse print command) (no_queue ?S) ?ls"
    have "endpoints_filled parse print command ?S ?ls"
      using stream_filled_append [of parse print command a data] filled Received by simp
    then have f: "endpoints_filled parse print command s ?ls"
      by (simp only: filled_apart [of parse print command ?S] filled_apart [of parse print command s] s(2))
    have e: "foldl (spec_line parse print command) s ?ls = prepend (sp_pending s) ?new"
        "sse_spec_of parse print command (a @ data) = prepend (sp_pending ?S) ?new"
      using foldl_apart [of parse print command s ?ls] foldl_apart [of parse print command ?S ?ls] s(2) by (simp_all add: spec_of_append)
    have "out @ sp_pending s @ sp_pending ?new \<in> shuffles (sp_pending ?S @ sp_pending ?new) replies"
      using shuffles_append [OF s(3), of "sp_pending ?new"] by simp
    then show ?thesis
      using process_received [OF s(1) print rest f refl] Received r
      by (auto simp: stream_inv_def sse_step_def e intro!: exI [of _ "prepend (sp_pending s) ?new"])
  next
    case (Replied ctx)
    have "out @ sp_pending s @ sse_replies parse print op \<in> shuffles (sp_pending ?S) (replies @ sse_replies parse print op)"
      using shuffles_append [of "out @ sp_pending s" replies "sp_pending ?S"] s(3) by (simp add: shuffles_commutes)
    then show ?thesis using replied_step [OF s(1) print, of parse ctx] Replied r rest s(2)
      by (auto simp: stream_inv_def sse_step_def no_queue_def intro!: exI [of _ "s\<lparr>sp_pending := sp_pending s @ sse_replies parse print op\<rparr>"])
  next
    case Pop
    show ?thesis
    proof (cases "sp_pending s")
      case Nil
      then show ?thesis using queue_pop_empty [OF s(1)] s rest Pop r by (auto simp: stream_inv_def sse_step_def)
    next
      case (Cons m ms)
      then show ?thesis using queue_pop_first [OF s(1) Cons] s rest Pop r
        by (auto simp: stream_inv_def sse_step_def no_queue_def intro!: exI [of _ "s\<lparr>sp_pending := ms\<rparr>"])
    qed
  qed
qed

lemma stream_inv_run:
  "stream_inv parse print command a replies r \<Longrightarrow> printer_ok print \<Longrightarrow>
   stream_filled parse print command (a @ concat (map sse_received ops)) \<Longrightarrow>
   stream_inv parse print command (a @ concat (map sse_received ops)) (replies @ concat (map (sse_replies parse print) ops))
     (fold (sse_step parse print command) ops r)"
proof (induction ops arbitrary: a replies r)
  case (Cons op ops)
  have "stream_filled parse print command ((a @ sse_received op) @ concat (map sse_received ops))" using Cons.prems(3) by simp
  then have f: "stream_filled parse print command (a @ sse_received op)" using stream_filled_append by blast
  show ?case using Cons.IH [OF stream_inv_step [OF Cons.prems(1,2) f] Cons.prems(2)] Cons.prems(3) by simp
qed simp

lemma stream_inv_new: "stream_inv parse print command [] [] ([], sse_transport_new)"
  by (auto simp: stream_inv_def sse_transport_new_def buf_new_def sse_rel_def queue_rel_def sse_spec_of_def sse_spec_new_def
      complete_lines.simps [of "[]"] incomplete_line.simps [of "[]"] next_line_def intro!: exI [of _ sse_spec_new])

text \<open>
  Claim C27. The event stream and the replies to requests share one queue, and every message is delivered exactly once: however the network cuts the
  bytes of the stream into pieces, whenever the queue is read and whenever a reply is put into it, what readers have taken out, followed by
  what still waits in the queue, is a merge of two lists, each in its own order: the messages that the format finds in the bytes received, and those in the
  bodies of the replies. The endpoint for requests is that of the stream, and the queue is empty exactly when nothing waits. The stream
  has no event \<open>endpoint\<close> without data, whose name the code would give to the next event (see \<open>empty_event_keeps_name\<close>), and no zero byte; memory is
  available, and the printer gives nonempty texts of one line.
\<close>

theorem sse_stream_delivers:
  assumes print: "printer_ok print" and filled: "stream_filled parse print command (concat (map sse_received ops))"
    and run: "fold (sse_step parse print command) ops ([], sse_transport_new) = (taken, t)"
  defines "spec \<equiv> sse_spec_of parse print command (concat (map sse_received ops))"
  shows "\<exists>pending. taken @ pending \<in> shuffles (sp_pending spec) (concat (map (sse_replies parse print) ops)) \<and>
           b_data (st_read t) = join_lines pending \<and>
           (fst (sse_queue_pop True t) = (case pending of [] \<Rightarrow> None | m # _ \<Rightarrow> Some m)) \<and> st_post_url t = sp_post_url spec"
proof -
  have "stream_inv parse print command (concat (map sse_received ops)) (concat (map (sse_replies parse print) ops)) (taken, t)"
    using stream_inv_run [OF stream_inv_new print, of parse command ops] filled run by simp
  then obtain s where s: "sse_rel t s" "no_queue s = no_queue spec"
      "taken @ sp_pending s \<in> shuffles (sp_pending spec) (concat (map (sse_replies parse print) ops))"
    by (auto simp: stream_inv_def spec_def)
  have "sp_post_url s = sp_post_url spec" using s(2) by (cases s, cases spec) (simp add: no_queue_def)
  moreover have "fst (sse_queue_pop True t) = (case sp_pending s of [] \<Rightarrow> None | m # _ \<Rightarrow> Some m)"
    using queue_pop_empty [OF s(1)] queue_pop_first [OF s(1)] by (fastforce split: list.split)
  ultimately show ?thesis using s by (intro exI [of _ "sp_pending s"]) (auto simp: sse_rel_def queue_rel_def)
qed

definition demo_reply :: MCPSSEPostContext where
  "demo_reply = post_context_new\<lparr>pc_done := True, pc_ok := True, pc_response_body := Some ''{9}''\<rparr>"

definition demo_ops :: "SseOp list" where
  "demo_ops = [Received (''data: {1}'' @ [newline, newline] @ ''da''), Replied demo_reply, Pop, Pop,
     Received (''ta: {2}'' @ [newline, newline] @ ''data: {3}'' @ [newline, newline]), Pop]"

lemma demo_spec:
  "sp_pending (sse_spec_of mcp_demo_parse mcp_demo_print None (concat (map sse_received demo_ops))) = [''x{1}'', ''x{2}'', ''x{3}'']"
  "stream_filled mcp_demo_parse mcp_demo_print None (concat (map sse_received demo_ops))"
  "concat (map (sse_replies mcp_demo_parse mcp_demo_print) demo_ops) = [''x{9}'']"
  by code_simp+

lemma demo_taken: "fst (fold (sse_step mcp_demo_parse mcp_demo_print None) demo_ops ([], sse_transport_new)) = [''x{1}'', ''x{9}'', ''x{2}'']"
  by (simp add: demo_ops_def demo_reply_def post_context_new_def post_delivered_def sse_step_def sse_process_received_data_def sse_append_bytes_def
      append_or_keep_def sse_lines.simps next_line_def sse_line_def sse_emit_event_if_ready_def sse_queue_append_def queue_append_def sse_queue_pop_def
      queue_pop_def sse_reset_event_buffer_def sse_transport_new_def buf_new_def SSE_BUFFER_SIZE_def starts_with_def rtrim_by_def line_break_def
      c_trunc_def mcp_demo_parse_def mcp_demo_print_def Let_def)

theorem sse_stream_delivers_witness:
  "\<exists>taken t pending. fold (sse_step mcp_demo_parse mcp_demo_print None) demo_ops ([], sse_transport_new) = (taken, t) \<and>
     taken = [''x{1}'', ''x{9}'', ''x{2}''] \<and> taken @ pending \<in> shuffles [''x{1}'', ''x{2}'', ''x{3}''] [''x{9}''] \<and>
     b_data (st_read t) = join_lines pending"
proof -
  obtain taken t where run: "fold (sse_step mcp_demo_parse mcp_demo_print None) demo_ops ([], sse_transport_new) = (taken, t)"
    by (cases "fold (sse_step mcp_demo_parse mcp_demo_print None) demo_ops ([], sse_transport_new)")
  then have "taken = [''x{1}'', ''x{9}'', ''x{2}'']" using demo_taken by simp
  then show ?thesis using sse_stream_delivers [OF mcp_demo_printer_ok demo_spec(2) run] run unfolding demo_spec by blast
qed

end
