(* ===== verification/McpStreamable.thy ===== *)
theory McpStreamable
  imports McpSse
begin

text \<open>
  \<open>plugins/tools/mcp_tools/transport_streamable_http.c\<close>: every message to the MCP server is a request of its own, whose answer is
  a JSON text or an event stream. The messages of the answers wait in the queue of \<open>McpQueue\<close>.
\<close>

section \<open>The transport\<close>

record MCPStreamableHttpTransport =
  sh_read :: Buf
  sh_session_id :: "string option"

definition streamable_http_new :: MCPStreamableHttpTransport where
  "streamable_http_new = \<lparr>sh_read = buf_new, sh_session_id = None\<rparr>"

definition streamable_http_enqueue_json ::
  "(nat \<Rightarrow> bool) \<Rightarrow> json_parser \<Rightarrow> json_printer \<Rightarrow> string \<Rightarrow> MCPStreamableHttpTransport \<Rightarrow> MCPStreamableHttpTransport" where
  "streamable_http_enqueue_json ok parse print json_text t =
     (if json_text = [] then t
      else (case parse json_text of
              None \<Rightarrow> t
            | Some parsed \<Rightarrow>
                t\<lparr>sh_read := queue_append ok (case print parsed of Some text \<Rightarrow> text | None \<Rightarrow> json_text) (sh_read t)\<rparr>))"

text \<open>The event data collected so far is the second argument. A failing \<open>realloc\<close> ends the loop.\<close>

fun enqueue_sse_lines ::
  "(nat \<Rightarrow> bool) \<Rightarrow> json_parser \<Rightarrow> json_printer \<Rightarrow> string list \<Rightarrow> string \<Rightarrow> MCPStreamableHttpTransport
   \<Rightarrow> string \<times> MCPStreamableHttpTransport" where
  "enqueue_sse_lines ok parse print [] event_data t = (event_data, t)"
| "enqueue_sse_lines ok parse print (raw # ls) event_data t =
     (let line = (if raw \<noteq> [] \<and> last raw = CHR 0x0D then butlast raw else raw);
          payload = (let v = drop 5 line in if starts_with '' '' v then tl v else v)
      in if line = []
         then (if event_data = [] then enqueue_sse_lines ok parse print ls event_data t
               else (let data = rtrim_by line_break event_data
                     in enqueue_sse_lines ok parse print ls []
                          (if data = ''[DONE]'' then t else streamable_http_enqueue_json ok parse print data t)))
         else if starts_with ''data:'' line
         then (if ok (length event_data + length payload + 2)
               then enqueue_sse_lines ok parse print ls (event_data @ payload @ [newline]) t
               else (event_data, t))
         else enqueue_sse_lines ok parse print ls event_data t)"

definition streamable_http_enqueue_sse ::
  "(nat \<Rightarrow> bool) \<Rightarrow> json_parser \<Rightarrow> json_printer \<Rightarrow> string \<Rightarrow> MCPStreamableHttpTransport \<Rightarrow> MCPStreamableHttpTransport" where
  "streamable_http_enqueue_sse ok parse print body t =
     (if \<not> ok (length body + 1) then t
      else (case enqueue_sse_lines ok parse print (strtok newline body) [] t of
              (event_data, t) \<Rightarrow>
                (let data = rtrim_by line_break event_data
                 in if data \<noteq> [] \<and> data \<noteq> ''[DONE]'' then streamable_http_enqueue_json ok parse print data t else t)))"

section \<open>Requests\<close>

record MCPStreamableHttpPostContext =
  hc_done :: bool
  hc_ok :: bool
  hc_http_status :: int
  hc_last_error :: string
  hc_response_body :: "string option"
  hc_session_id :: "string option"
  hc_content_type :: string

definition http_context_new :: MCPStreamableHttpPostContext where
  "http_context_new =
     \<lparr>hc_done = False, hc_ok = False, hc_http_status = 0, hc_last_error = [], hc_response_body = None, hc_session_id = None,
      hc_content_type = []\<rparr>"

definition header_text :: "string option \<Rightarrow> string" where
  "header_text header = (case header of None \<Rightarrow> [] | Some v \<Rightarrow> takeWhile (\<lambda>c. c \<noteq> NUL) (c_trunc 1024 v))"

definition mcp_streamable_http_post_event_handler ::
  "(nat \<Rightarrow> bool) \<Rightarrow> PostEvent \<Rightarrow> MCPStreamableHttpPostContext \<Rightarrow> MCPStreamableHttpPostContext" where
  "mcp_streamable_http_post_event_handler ok ev ctx =
     (case ev of
        HttpHeaders status session content_type \<Rightarrow>
          (let sid = header_text session; ct = header_text content_type;
               ctx = ctx\<lparr>hc_http_status := status\<rparr>;
               ctx = (if sid = [] then ctx else ctx\<lparr>hc_session_id := (if ok (length sid + 1) then Some sid else None)\<rparr>)
           in if ct = [] then ctx else ctx\<lparr>hc_content_type := c_trunc 128 ct\<rparr>)
      | HttpMessage status body \<Rightarrow>
          (let ctx = ctx\<lparr>hc_http_status := status, hc_ok := http_success status, hc_done := True\<rparr>
           in if body = [] then ctx
              else ctx\<lparr>hc_response_body := (if ok (length body + 1) then Some (takeWhile (\<lambda>c. c \<noteq> NUL) body) else None)\<rparr>)
      | ConnectionError err \<Rightarrow>
          ctx\<lparr>hc_last_error := c_trunc 256 (case err of Some e \<Rightarrow> e | None \<Rightarrow> ''Streamable HTTP POST error''), hc_ok := False,
              hc_done := True\<rparr>
      | ConnectionClosed \<Rightarrow>
          (if hc_done ctx then ctx else ctx\<lparr>hc_done := True, hc_ok := http_success (hc_http_status ctx)\<rparr>)
      | OtherEvent \<Rightarrow> ctx)"

definition http_failure :: "string \<Rightarrow> MCPStreamableHttpPostContext \<Rightarrow> Error" where
  "http_failure parsed_msg ctx =
     error_new ERR_CONNECTION
       (Some (if parsed_msg \<noteq> [] then parsed_msg
              else if hc_last_error ctx \<noteq> [] then hc_last_error ctx
              else c_trunc 128 (''Streamable HTTP failed, status '' @ show_int (hc_http_status ctx))))"

definition http_delivered ::
  "(nat \<Rightarrow> bool) \<Rightarrow> json_parser \<Rightarrow> json_printer \<Rightarrow> MCPStreamableHttpPostContext \<Rightarrow> MCPStreamableHttpTransport
   \<Rightarrow> MCPStreamableHttpTransport" where
  "http_delivered ok parse print ctx t =
     (let t = (case hc_session_id ctx of None \<Rightarrow> t | Some sid \<Rightarrow> if sid = [] then t else t\<lparr>sh_session_id := Some sid\<rparr>)
      in case hc_response_body ctx of
           None \<Rightarrow> t
         | Some body \<Rightarrow>
             (if body = [] then t
              else if strstr (hc_content_type ctx) ''text/event-stream'' \<noteq> None then streamable_http_enqueue_sse ok parse print body t
              else streamable_http_enqueue_json ok parse print body t))"

text \<open>\<open>retry_send\<close>: one retry with a fresh session.\<close>

function http_post_loop ::
  "(nat \<Rightarrow> bool) \<Rightarrow> json_parser \<Rightarrow> json_printer \<Rightarrow> post_network \<Rightarrow> string \<Rightarrow> string \<Rightarrow> nat \<Rightarrow> bool \<Rightarrow> MCPStreamableHttpTransport
   \<Rightarrow> Error \<times> PostRequest list \<times> MCPStreamableHttpTransport" where
  "http_post_loop ok parse print net post_url data n retried_expired_session t =
     (let request = \<lparr>rq_url = post_url, rq_session = sh_session_id t, rq_data = data\<rparr>
      in case net n request of
           None \<Rightarrow> (error_new ERR_CONNECTION (Some ''Failed to create streamable_http connection''), [], t)
         | Some events \<Rightarrow>
             (let ctx = fold (mcp_streamable_http_post_event_handler ok) events http_context_new;
                  parsed_msg = post_parsed_msg parse (hc_response_body ctx)
              in if \<not> hc_done ctx then (error_new ERR_TIMEOUT (Some ''Streamable HTTP timeout''), [request], t)
                 else if hc_ok ctx then (no_error, [request], http_delivered ok parse print ctx t)
                 else if \<not> retried_expired_session \<and> sh_session_id t \<noteq> None \<and>
                         (says_session_expired parsed_msg \<or>
                          (case hc_response_body ctx of Some body \<Rightarrow> says_session_expired body | None \<Rightarrow> False))
                 then (case http_post_loop ok parse print net post_url data (n + 1) True (t\<lparr>sh_session_id := None\<rparr>) of
                         (err, requests, t) \<Rightarrow> (err, request # requests, t))
                 else (http_failure parsed_msg ctx, [request], t)))"
  by pat_completeness auto
termination
  by (relation "measure (\<lambda>(ok, parse, print, net, url, data, n, expired, t). if expired then 0 else 1)") (auto split: if_splits)

declare http_post_loop.simps [simp del]

definition mcp_transport_streamable_http_send ::
  "(nat \<Rightarrow> bool) \<Rightarrow> json_parser \<Rightarrow> json_printer \<Rightarrow> post_network \<Rightarrow> string \<Rightarrow> string option \<Rightarrow> string \<Rightarrow> MCPStreamableHttpTransport
   \<Rightarrow> Error \<times> PostRequest list \<times> MCPStreamableHttpTransport" where
  "mcp_transport_streamable_http_send ok parse print net command first_arg data t =
     http_post_loop ok parse print net (case first_arg of Some a \<Rightarrow> if a \<noteq> [] then a else command | None \<Rightarrow> command) data 0 False t"

text \<open>Only \<open>send\<close> fills the queue, so a reader that finds it empty waits until its time is over.\<close>

definition mcp_transport_streamable_http_recv ::
  "bool \<Rightarrow> MCPStreamableHttpTransport \<Rightarrow> string option \<times> MCPStreamableHttpTransport" where
  "mcp_transport_streamable_http_recv malloc_ok t = (case queue_pop malloc_ok (sh_read t) of (m, b) \<Rightarrow> (m, t\<lparr>sh_read := b\<rparr>))"

section \<open>Answers that are event streams\<close>

definition event_ok :: "string \<Rightarrow> bool" where
  "event_ok m \<longleftrightarrow> m \<noteq> [] \<and> newline \<notin> set m \<and> last m \<noteq> CHR 0x0D \<and> m \<noteq> ''[DONE]''"

text \<open>The body with one event for each message, its lines ended with \<open>eol\<close>.\<close>

definition event_body :: "string \<Rightarrow> string list \<Rightarrow> string" where
  "event_body eol ms = concat (map (\<lambda>m. ''data: '' @ m @ eol @ eol) ms)"

lemma strtok_delim: "strtok d (d # s) = strtok d s"
  by (subst (1 2) strtok.simps) simp

lemma strtok_none: "strtok d [] = []"
  by (subst strtok.simps) simp

lemma data_no_newline: "newline \<notin> set m \<Longrightarrow> newline \<notin> set (''data: '' @ m)"
  by auto

lemma strtok_lf: "list_all event_ok ms \<Longrightarrow> strtok newline (event_body [newline] ms) = map (\<lambda>m. ''data: '' @ m) ms"
proof (induction ms)
  case (Cons m ms)
  then have n: "newline \<notin> set (''data: '' @ m)" by (intro data_no_newline) (simp add: event_ok_def)
  show ?case using strtok_append(1) [OF n, of "newline # event_body [newline] ms"] Cons
    by (simp add: event_body_def strtok_delim)
qed (simp add: event_body_def strtok_none)

lemma strtok_crlf:
  "list_all event_ok ms \<Longrightarrow>
   strtok newline (event_body [CHR 0x0D, newline] ms) = concat (map (\<lambda>m. [''data: '' @ m @ [CHR 0x0D], [CHR 0x0D]]) ms)"
proof (induction ms)
  case (Cons m ms)
  let ?rest = "event_body [CHR 0x0D, newline] ms"
  have n: "newline \<notin> set (''data: '' @ m @ [CHR 0x0D])" using Cons.prems by (auto simp: event_ok_def)
  have "strtok newline ([CHR 0x0D] @ newline # ?rest) = [CHR 0x0D] # strtok newline ?rest"
    by (rule strtok_append) auto
  then show ?case using strtok_append(1) [OF n, of "CHR 0x0D # newline # ?rest"] Cons
    by (simp add: event_body_def)
qed (simp add: event_body_def strtok_none)

lemma data_line: "event_ok m \<Longrightarrow>
  enqueue_sse_lines (\<lambda>_. True) parse print ((''data: '' @ m) # ls) ev t = enqueue_sse_lines (\<lambda>_. True) parse print ls (ev @ m @ [newline]) t"
  by (simp add: event_ok_def starts_with_def)

lemma data_line_cr:
  "enqueue_sse_lines (\<lambda>_. True) parse print ((''data: '' @ m @ [CHR 0x0D]) # ls) ev t =
   enqueue_sse_lines (\<lambda>_. True) parse print ls (ev @ m @ [newline]) t"
  by (simp add: starts_with_def butlast_append)

lemma lf_lines:
  "list_all event_ok ms \<Longrightarrow>
   enqueue_sse_lines (\<lambda>_. True) parse print (map (\<lambda>m. ''data: '' @ m) ms) ev t = (ev @ concat (map (\<lambda>m. m @ [newline]) ms), t)"
proof (induction ms arbitrary: ev)
  case (Cons m ms)
  then show ?case using data_line [of m] by simp
qed simp

lemma concat_lines: "ms \<noteq> [] \<Longrightarrow> concat (map (\<lambda>m. m @ [newline]) ms) = join_lines ms @ [newline]"
  by (induction ms rule: join_lines.induct) auto

lemma last_join_lines: "ms \<noteq> [] \<Longrightarrow> list_all event_ok ms \<Longrightarrow> join_lines ms \<noteq> [] \<and> last (join_lines ms) = last (last ms)"
  by (induction ms rule: join_lines.induct) (auto simp: event_ok_def)

lemma rtrim_newline: "s \<noteq> [] \<Longrightarrow> \<not> line_break (last s) \<Longrightarrow> rtrim_by line_break (s @ [newline]) = s"
  by (cases s rule: rev_cases) (auto simp: rtrim_by_def line_break_def)

lemma last_event: "event_ok m \<Longrightarrow> \<not> line_break (last m)"
  by (metis event_ok_def line_break_def last_in_set)

lemma enqueue_json_rel:
  "json_text \<noteq> [] \<Longrightarrow> parse json_text = Some j \<Longrightarrow> print j = Some p \<Longrightarrow> message_ok p \<Longrightarrow> queue_rel (sh_read t) pending \<Longrightarrow>
   queue_rel (sh_read (streamable_http_enqueue_json (\<lambda>_. True) parse print json_text t)) (pending @ [p])"
  by (simp add: streamable_http_enqueue_json_def queue_rel_append)

lemma crlf_lines:
  "list_all event_ok ms \<Longrightarrow> list_all (\<lambda>m. parse m \<noteq> None) ms \<Longrightarrow> printer_ok print \<Longrightarrow> queue_rel (sh_read t) pending \<Longrightarrow>
   \<exists>t'. enqueue_sse_lines (\<lambda>_. True) parse print (concat (map (\<lambda>m. [''data: '' @ m @ [CHR 0x0D], [CHR 0x0D]]) ms)) [] t = ([], t') \<and>
     queue_rel (sh_read t') (pending @ map (\<lambda>m. the (print (the (parse m)))) ms)"
proof (induction ms arbitrary: t pending)
  case (Cons m ms)
  then obtain j where j: "parse m = Some j" by auto
  obtain p where p: "print j = Some p" "message_ok p" using Cons.prems(3) by (auto simp: printer_ok_def message_ok_def)
  have ok: "m \<noteq> []" "m \<noteq> ''[DONE]''" "\<not> line_break (last m)" using Cons.prems last_event by (auto simp: event_ok_def)
  have q: "queue_rel (sh_read (streamable_http_enqueue_json (\<lambda>_. True) parse print m t)) (pending @ [p])"
    using enqueue_json_rel [of m parse j print p t pending] ok j p Cons.prems(4) by simp
  have step: "enqueue_sse_lines (\<lambda>_. True) parse print
      (concat (map (\<lambda>m. [''data: '' @ m @ [CHR 0x0D], [CHR 0x0D]]) (m # ms))) [] t =
    enqueue_sse_lines (\<lambda>_. True) parse print (concat (map (\<lambda>m. [''data: '' @ m @ [CHR 0x0D], [CHR 0x0D]]) ms)) []
      (streamable_http_enqueue_json (\<lambda>_. True) parse print m t)"
    using ok data_line_cr [of parse print m] rtrim_newline [of m] by simp
  show ?case unfolding step using Cons.IH [OF _ _ Cons.prems(3) q] Cons.prems j p by simp
qed auto

text \<open>
  An answer whose lines end with CR LF is read completely: every event's message is queued, in order, behind what was
  waiting.
\<close>

theorem crlf_events_all_queued:
  assumes "list_all event_ok ms" and "list_all (\<lambda>m. parse m \<noteq> None) ms" and "printer_ok print"
    and "queue_rel (sh_read t) pending"
  shows "queue_rel (sh_read (streamable_http_enqueue_sse (\<lambda>_. True) parse print (event_body [CHR 0x0D, newline] ms) t))
    (pending @ map (\<lambda>m. the (print (the (parse m)))) ms)"
  using crlf_lines [OF assms] strtok_crlf [OF assms(1)]
  by (auto simp: streamable_http_enqueue_sse_def rtrim_by_def)

text \<open>
  An answer whose lines end with LF alone loses messages: \<open>strtok_r\<close> skips the empty lines between the events, all data
  become one text, and a parser that stops behind the first value, as \<open>cJSON_Parse\<close> does, finds the first message only. A progress
  notification before the result hides the result.
\<close>

theorem lf_events_first_only:
  assumes ms: "list_all event_ok (m # m' # ms)"
    and parse: "parse (join_lines (m # m' # ms)) = parse m" "parse m = Some j" and print: "print j = Some p" "message_ok p"
    and q: "queue_rel (sh_read t) pending"
  shows "queue_rel (sh_read (streamable_http_enqueue_sse (\<lambda>_. True) parse print (event_body [newline] (m # m' # ms)) t))
    (pending @ [p])"
proof -
  let ?text = "join_lines (m # m' # ms)"
  have last: "?text \<noteq> []" "\<not> line_break (last ?text)"
    using last_join_lines [OF _ ms] ms last_event by (auto simp: list_all_iff)
  then have "rtrim_by line_break (concat (map (\<lambda>m. m @ [newline]) (m # m' # ms))) = ?text"
    unfolding concat_lines [OF list.distinct(2)] by (rule rtrim_newline)
  moreover have "newline \<in> set ?text" "newline \<notin> set ''[DONE]''" by simp_all
  then have "?text \<noteq> ''[DONE]''" by metis
  ultimately show ?thesis
    using last enqueue_json_rel [of ?text parse j print p t pending] parse print q strtok_lf [OF ms] lf_lines [OF ms, of parse print "[]" t]
    by (simp add: streamable_http_enqueue_sse_def)
qed

text \<open>The parser of the witnesses, reading the first line only.\<close>

definition first_line_parse :: json_parser where
  "first_line_parse s = mcp_demo_parse (takeWhile (\<lambda>c. c \<noteq> newline) s)"

definition two_events :: "string list" where
  "two_events = [''{progress}'', ''{result}'']"

theorem crlf_events_all_queued_witness:
  "queue_rel (sh_read (streamable_http_enqueue_sse (\<lambda>_. True) first_line_parse mcp_demo_print
     (event_body [CHR 0x0D, newline] two_events) streamable_http_new)) [''x{progress}'', ''x{result}'']"
  using crlf_events_all_queued [of two_events first_line_parse mcp_demo_print streamable_http_new "[]"]
  by (simp add: two_events_def event_ok_def first_line_parse_def mcp_demo_parse_def mcp_demo_print_def starts_with_def mcp_demo_printer_ok
      streamable_http_new_def)

theorem lf_events_first_only_witness:
  "queue_rel (sh_read (streamable_http_enqueue_sse (\<lambda>_. True) first_line_parse mcp_demo_print
     (event_body [newline] [''{progress}'', ''{result}'']) streamable_http_new)) [''x{progress}'']"
  using lf_events_first_only [of "''{progress}''" "''{result}''" "[]" first_line_parse "JString ''{progress}''" mcp_demo_print
      "''x{progress}''" streamable_http_new "[]"]
  by (simp add: event_ok_def first_line_parse_def mcp_demo_parse_def mcp_demo_print_def starts_with_def message_ok_def
      streamable_http_new_def)

lemma http_send_at_most_two:
  assumes "mcp_transport_streamable_http_send ok parse print net command first_arg data t = (err, requests, t')"
  shows "length requests \<le> 2 \<and>
    list_all (\<lambda>r. rq_data r = data \<and> (rq_session r = sh_session_id t \<or> rq_session r = None)) requests"
proof -
  have last: "length requests \<le> 1 \<and> list_all (\<lambda>r. rq_data r = data \<and> rq_session r = sh_session_id t) requests"
    if "http_post_loop ok parse print net url data n True t = (err, requests, t')" for url n t requests
    using that by (subst (asm) http_post_loop.simps) (auto simp: Let_def split: option.splits if_splits)
  have "length requests \<le> 2 \<and>
      list_all (\<lambda>r. rq_data r = data \<and> (rq_session r = sh_session_id t \<or> rq_session r = None)) requests"
    if "http_post_loop ok parse print net url data n False t = (err, requests, t')" for url n
    using that
    by (subst (asm) http_post_loop.simps) (auto simp: Let_def list_all_iff dest!: last split: option.splits if_splits prod.splits)
  then show ?thesis using assms by (simp add: mcp_transport_streamable_http_send_def)
qed

end
