(* ===== verification/McpClient.thy ===== *)
theory McpClient
  imports McpStdio McpStreamable ToolRegistry
begin

text \<open>
  \<open>plugins/tools/mcp_tools/mcp.c\<close> and \<open>mcp_tools.c\<close>: the clients of MCP servers and the tools made of them. The operations of a
  transport are given as \<open>ops\<close> on a state \<open>'t\<close>; the counter of request ids, which is global, is passed along. Memory is taken to be
  available. A text cut at its buffer is written with \<open>c_trunc\<close>.
\<close>

section \<open>Methods and requests\<close>

datatype MCPMethod =
    MCP_METHOD_INVALID | MCP_METHOD_INITIALIZE | MCP_METHOD_INITIALIZED | MCP_METHOD_TOOLS_LIST | MCP_METHOD_TOOLS_CALL
  | MCP_METHOD_RESOURCES_LIST | MCP_METHOD_RESOURCES_READ | MCP_METHOD_PROMPTS_LIST | MCP_METHOD_PROMPTS_GET

fun mcp_method_to_string :: "MCPMethod \<Rightarrow> string" where
  "mcp_method_to_string MCP_METHOD_INVALID = ''invalid''"
| "mcp_method_to_string MCP_METHOD_INITIALIZE = ''initialize''"
| "mcp_method_to_string MCP_METHOD_INITIALIZED = ''notifications/initialized''"
| "mcp_method_to_string MCP_METHOD_TOOLS_LIST = ''tools/list''"
| "mcp_method_to_string MCP_METHOD_TOOLS_CALL = ''tools/call''"
| "mcp_method_to_string MCP_METHOD_RESOURCES_LIST = ''resources/list''"
| "mcp_method_to_string MCP_METHOD_RESOURCES_READ = ''resources/read''"
| "mcp_method_to_string MCP_METHOD_PROMPTS_LIST = ''prompts/list''"
| "mcp_method_to_string MCP_METHOD_PROMPTS_GET = ''prompts/get''"

definition mcp_method_from_string :: "string option \<Rightarrow> MCPMethod" where
  "mcp_method_from_string str =
     (case str of
        None \<Rightarrow> MCP_METHOD_INVALID
      | Some s \<Rightarrow>
          if s = ''initialize'' then MCP_METHOD_INITIALIZE
          else if s = ''notifications/initialized'' then MCP_METHOD_INITIALIZED
          else if s = ''tools/list'' then MCP_METHOD_TOOLS_LIST
          else if s = ''tools/call'' then MCP_METHOD_TOOLS_CALL
          else if s = ''resources/list'' then MCP_METHOD_RESOURCES_LIST
          else if s = ''resources/read'' then MCP_METHOD_RESOURCES_READ
          else if s = ''prompts/list'' then MCP_METHOD_PROMPTS_LIST
          else if s = ''prompts/get'' then MCP_METHOD_PROMPTS_GET
          else MCP_METHOD_INVALID)"

lemma method_roundtrip: "mcp_method_from_string (Some (mcp_method_to_string m)) = m"
  by (cases m) (simp_all add: mcp_method_from_string_def)

definition MCP_PROTOCOL_VERSION :: string where
  "MCP_PROTOCOL_VERSION = ''2024-11-05''"

definition request_json :: "json_parser \<Rightarrow> MCPMethod \<Rightarrow> int \<Rightarrow> string option \<Rightarrow> json" where
  "request_json parse method request_id params_json =
     JObject ([(''jsonrpc'', JString ''2.0''), (''id'', JNumber (of_int (double_of_int request_id))),
               (''method'', JString (mcp_method_to_string method))] @
              (case params_json of
                 None \<Rightarrow> []
               | Some p \<Rightarrow> (case parse p of None \<Rightarrow> [] | Some params \<Rightarrow> [(''params'', params)])))"

definition mcp_create_request :: "json_parser \<Rightarrow> json_printer \<Rightarrow> MCPMethod \<Rightarrow> int \<Rightarrow> string option \<Rightarrow> string option" where
  "mcp_create_request parse print method request_id params_json = print (request_json parse method request_id params_json)"

record MCPResponse =
  rs_id :: int
  rs_result :: string
  rs_error :: string

text \<open>A value that cannot be printed becomes an empty text: \<open>string_new (NULL)\<close>.\<close>

definition printed :: "json_printer \<Rightarrow> json option \<Rightarrow> string" where
  "printed print item = (case item of None \<Rightarrow> [] | Some j \<Rightarrow> (case print j of None \<Rightarrow> [] | Some s \<Rightarrow> s))"

definition mcp_parse_response :: "json_parser \<Rightarrow> json_printer \<Rightarrow> string \<Rightarrow> string + MCPResponse" where
  "mcp_parse_response parse print text =
     (case parse text of
        None \<Rightarrow> Inl ''Failed to parse JSON''
      | Some answer \<Rightarrow>
          if json_string (get_object_item (Some answer) ''jsonrpc'') \<noteq> Some ''2.0'' then Inl ''Invalid JSON-RPC version''
          else Inr \<lparr>rs_id = (case json_number (get_object_item (Some answer) ''id'') of Some n \<Rightarrow> number_valueint n | None \<Rightarrow> 0),
                    rs_result = printed print (get_object_item (Some answer) ''result''),
                    rs_error = printed print (get_object_item (Some answer) ''error'')\<rparr>)"

section \<open>Clients\<close>

type_synonym EnvVar = "string \<times> string"

record MCPToolDef =
  td_name :: "string option"
  td_description :: "string option"
  td_input_schema :: "string option"

record MCPResource =
  re_uri :: "string option"
  re_name :: "string option"
  re_description :: "string option"
  re_mime_type :: "string option"

record MCPPrompt =
  pr_name :: "string option"
  pr_description :: "string option"
  pr_arguments :: "string option"

record 't MCPClient =
  mc_server_id :: string
  mc_transport_type :: string
  mc_command :: "string option"
  mc_args :: "string list"
  mc_env :: "EnvVar list"
  mc_headers :: "EnvVar list"
  mc_transport :: 't
  mc_connected :: bool
  mc_initialized :: bool
  mc_tools :: "MCPToolDef list"
  mc_resources :: "MCPResource list"
  mc_prompts :: "MCPPrompt list"

record 't MCPTransportOps =
  op_send :: "string \<Rightarrow> 't \<Rightarrow> Error \<times> 't"
  op_recv :: "'t \<Rightarrow> string option \<times> 't"

text \<open>The client and the counter \<open>g_next_request_id\<close>.\<close>

type_synonym 't mcp = "'t MCPClient \<times> int"

definition mcp_client_send :: "'t MCPTransportOps \<Rightarrow> string \<Rightarrow> 't mcp \<Rightarrow> Error \<times> 't mcp" where
  "mcp_client_send ops request s =
     (case s of (client, next_id) \<Rightarrow>
        (case op_send ops request (mc_transport client) of (err, tr) \<Rightarrow> (err, client\<lparr>mc_transport := tr\<rparr>, next_id)))"

definition mcp_client_recv :: "'t MCPTransportOps \<Rightarrow> 't mcp \<Rightarrow> string option \<times> 't mcp" where
  "mcp_client_recv ops s =
     (case s of (client, next_id) \<Rightarrow>
        (case op_recv ops (mc_transport client) of (text, tr) \<Rightarrow> (text, client\<lparr>mc_transport := tr\<rparr>, next_id)))"

definition get_next_request_id :: "'t mcp \<Rightarrow> int \<times> 't mcp" where
  "get_next_request_id s = (case s of (client, next_id) \<Rightarrow> (next_id, client, next_id + 1))"

text \<open>
  The steps that all operations share: a fresh id, the request, sending it, one message received, read as a response.
\<close>

definition mcp_exchange ::
  "'t MCPTransportOps \<Rightarrow> json_parser \<Rightarrow> json_printer \<Rightarrow> string \<Rightarrow> string \<Rightarrow> MCPMethod \<Rightarrow> string option \<Rightarrow> 't mcp
   \<Rightarrow> (Error + MCPResponse) \<times> 't mcp" where
  "mcp_exchange ops parse print no_request no_answer method params s =
     (case get_next_request_id s of (request_id, s) \<Rightarrow>
        (case mcp_create_request parse print method request_id params of
           None \<Rightarrow> (Inl (error_new ERR_JSON (Some no_request)), s)
         | Some request \<Rightarrow>
             (case mcp_client_send ops request s of (err, s) \<Rightarrow>
                if err_code err \<noteq> ERR_NONE then (Inl err, s)
                else (case mcp_client_recv ops s of
                        (None, s) \<Rightarrow> (Inl (error_new ERR_TIMEOUT (Some no_answer)), s)
                      | (Some text, s) \<Rightarrow>
                          (case mcp_parse_response parse print text of
                             Inl parse_error \<Rightarrow> (Inl (error_new ERR_JSON (Some parse_error)), s)
                           | Inr response \<Rightarrow> (Inr response, s))))))"

definition initialize_params :: json where
  "initialize_params =
     JObject [(''protocolVersion'', JString MCP_PROTOCOL_VERSION), (''capabilities'', JObject []),
              (''clientInfo'', JObject [(''name'', JString ''primagen''), (''version'', JString ''0.1.0'')])]"

definition initialized_json :: json where
  "initialized_json =
     JObject [(''jsonrpc'', JString ''2.0''), (''method'', JString ''notifications/initialized''), (''params'', JObject [])]"

definition mcp_client_initialize ::
  "'t MCPTransportOps \<Rightarrow> json_parser \<Rightarrow> json_printer \<Rightarrow> 't mcp \<Rightarrow> Error \<times> 't mcp" where
  "mcp_client_initialize ops parse print s =
     (if \<not> mc_connected (fst s) then (error_new ERR_TOOL (Some ''Client not connected''), s)
      else if mc_initialized (fst s) then (no_error, s)
      else (case print initialize_params of
              None \<Rightarrow> (error_new ERR_JSON (Some ''Failed to create initialize params''), s)
            | Some params \<Rightarrow>
                (case mcp_exchange ops parse print ''Failed to create initialize request'' ''No initialize response from server''
                    MCP_METHOD_INITIALIZE (Some params) s of
                   (Inl err, s) \<Rightarrow> (err, s)
                 | (Inr response, s) \<Rightarrow>
                     (if rs_error response \<noteq> [] then (error_new ERR_TOOL (Some ''Initialize failed''), s)
                      else (case print initialized_json of
                              None \<Rightarrow> (error_new ERR_JSON (Some ''Failed to create initialized notification''), s)
                            | Some notify \<Rightarrow>
                                (case mcp_client_send ops notify s of (err, s) \<Rightarrow>
                                   if err_code err \<noteq> ERR_NONE then (err, s)
                                   else (no_error, (fst s)\<lparr>mc_initialized := True\<rparr>, snd s)))))))"

section \<open>Operations of a client\<close>

text \<open>The array of a result, or why there is none: for \<open>tools/list\<close>, \<open>resources/list\<close> and \<open>prompts/list\<close>.\<close>

definition result_items :: "json_parser \<Rightarrow> string \<Rightarrow> string \<Rightarrow> string \<Rightarrow> Error + json list" where
  "result_items parse key missing result =
     (case parse result of
        None \<Rightarrow> Inl (error_new ERR_JSON (Some ''Failed to parse result''))
      | Some r \<Rightarrow> (case json_array (get_object_item (Some r) key) of
                     None \<Rightarrow> Inl (error_new ERR_JSON (Some missing))
                   | Some items \<Rightarrow> Inr items))"

definition tool_of_json :: "json_printer \<Rightarrow> json \<Rightarrow> MCPToolDef" where
  "tool_of_json print item =
     \<lparr>td_name = json_string (get_object_item (Some item) ''name''),
      td_description = json_string (get_object_item (Some item) ''description''),
      td_input_schema = (case get_object_item (Some item) ''inputSchema'' of None \<Rightarrow> None | Some j \<Rightarrow> Some (printed print (Some j)))\<rparr>"

definition blank_char :: "char \<Rightarrow> bool" where
  "blank_char c \<longleftrightarrow> c = CHR '' '' \<or> c = CHR 0x09 \<or> c = CHR 0x0D \<or> c = newline"

definition server_error :: "string \<Rightarrow> Error" where
  "server_error err_msg =
     error_new ERR_TOOL (Some (c_trunc 256 (if list_all blank_char err_msg then ''Server returned empty MCP error'' else err_msg)))"

definition not_connected :: Error where
  "not_connected = error_new ERR_TOOL (Some ''Client not connected'')"

text \<open>The tools are the result and become those of the client, unless there are none.\<close>

definition mcp_client_list_tools ::
  "'t MCPTransportOps \<Rightarrow> json_parser \<Rightarrow> json_printer \<Rightarrow> 't mcp \<Rightarrow> (Error \<times> MCPToolDef list) \<times> 't mcp" where
  "mcp_client_list_tools ops parse print s =
     (if \<not> mc_connected (fst s) then ((not_connected, []), s)
      else (case mcp_client_initialize ops parse print s of (init_err, s) \<Rightarrow>
        if err_code init_err \<noteq> ERR_NONE then ((init_err, []), s)
        else (case mcp_exchange ops parse print ''Failed to create request'' ''No response from server'' MCP_METHOD_TOOLS_LIST
            (Some ''{}'') s of
           (Inl err, s) \<Rightarrow> ((err, []), s)
         | (Inr response, s) \<Rightarrow>
             (if rs_error response \<noteq> [] then ((server_error (rs_error response), []), s)
              else (case result_items parse ''tools'' ''No tools array in response'' (rs_result response) of
                      Inl err \<Rightarrow> ((err, []), s)
                    | Inr items \<Rightarrow>
                        (if items = [] then ((no_error, []), s)
                         else (let tools = map (tool_of_json print) items
                               in ((no_error, tools), (fst s)\<lparr>mc_tools := tools\<rparr>, snd s))))))))"

text \<open>The \<open>content\<close> of a result, or all of it.\<close>

definition call_result :: "json_parser \<Rightarrow> json_printer \<Rightarrow> string \<Rightarrow> string" where
  "call_result parse print result =
     (case parse result of
        None \<Rightarrow> result
      | Some r \<Rightarrow> (case get_object_item (Some r) ''content'' of None \<Rightarrow> result | Some content \<Rightarrow> printed print (Some content)))"

definition mcp_client_call_tool ::
  "'t MCPTransportOps \<Rightarrow> json_parser \<Rightarrow> json_printer \<Rightarrow> string \<Rightarrow> string option \<Rightarrow> 't mcp \<Rightarrow> (Error \<times> string option) \<times> 't mcp" where
  "mcp_client_call_tool ops parse print name params s =
     (if \<not> mc_connected (fst s) then ((not_connected, None), s)
      else (case (case params of None \<Rightarrow> Some (JObject []) | Some p \<Rightarrow> parse p) of
              None \<Rightarrow> ((error_new ERR_JSON (Some ''Invalid params JSON''), None), s)
            | Some params_obj \<Rightarrow>
                (case mcp_exchange ops parse print ''Failed to create request'' ''No response from server'' MCP_METHOD_TOOLS_CALL
                    (print (JObject [(''name'', JString name), (''arguments'', params_obj)])) s of
                   (Inl err, s) \<Rightarrow> ((err, None), s)
                 | (Inr response, s) \<Rightarrow>
                     (if rs_error response \<noteq> [] then ((error_new ERR_TOOL (Some ''Server returned error''), None), s)
                      else ((no_error, Some (call_result parse print (rs_result response))), s)))))"

text \<open>An operation that needs an initialized client but does not initialize it.\<close>

definition mcp_request ::
  "'t MCPTransportOps \<Rightarrow> json_parser \<Rightarrow> json_printer \<Rightarrow> MCPMethod \<Rightarrow> string option \<Rightarrow> 't mcp \<Rightarrow> (Error + string) \<times> 't mcp" where
  "mcp_request ops parse print method params s =
     (if \<not> mc_connected (fst s) then (Inl not_connected, s)
      else (case mcp_exchange ops parse print ''Failed to create request'' ''No response from server'' method params s of
              (Inl err, s) \<Rightarrow> (Inl err, s)
            | (Inr response, s) \<Rightarrow>
                (if rs_error response \<noteq> [] then (Inl (error_new ERR_TOOL (Some ''Server returned error'')), s)
                 else (Inr (rs_result response), s))))"

definition resource_of_json :: "json \<Rightarrow> MCPResource" where
  "resource_of_json item =
     \<lparr>re_uri = json_string (get_object_item (Some item) ''uri''), re_name = json_string (get_object_item (Some item) ''name''),
      re_description = json_string (get_object_item (Some item) ''description''),
      re_mime_type = json_string (get_object_item (Some item) ''mimeType'')\<rparr>"

definition mcp_client_list_resources ::
  "'t MCPTransportOps \<Rightarrow> json_parser \<Rightarrow> json_printer \<Rightarrow> 't mcp \<Rightarrow> (Error \<times> MCPResource list) \<times> 't mcp" where
  "mcp_client_list_resources ops parse print s =
     (case mcp_request ops parse print MCP_METHOD_RESOURCES_LIST (Some ''{}'') s of
        (Inl err, s) \<Rightarrow> ((err, []), s)
      | (Inr result, s) \<Rightarrow>
          (case result_items parse ''resources'' ''No resources array in response'' result of
             Inl err \<Rightarrow> ((err, []), s)
           | Inr items \<Rightarrow>
               (if items = [] then ((no_error, []), s)
                else ((no_error, map resource_of_json items), (fst s)\<lparr>mc_resources := map resource_of_json items\<rparr>, snd s))))"

definition first_text :: "json_parser \<Rightarrow> string \<Rightarrow> string option" where
  "first_text parse result =
     (case parse result of
        None \<Rightarrow> None
      | Some r \<Rightarrow> (case json_array (get_object_item (Some r) ''contents'') of
                     Some (first # _) \<Rightarrow> json_string (get_object_item (Some first) ''text'') | _ \<Rightarrow> None))"

definition mcp_client_read_resource ::
  "'t MCPTransportOps \<Rightarrow> json_parser \<Rightarrow> json_printer \<Rightarrow> string \<Rightarrow> 't mcp \<Rightarrow> (Error \<times> string option) \<times> 't mcp" where
  "mcp_client_read_resource ops parse print uri s =
     (case mcp_request ops parse print MCP_METHOD_RESOURCES_READ (print (JObject [(''uri'', JString uri)])) s of
        (Inl err, s) \<Rightarrow> ((err, None), s)
      | (Inr result, s) \<Rightarrow> ((no_error, first_text parse result), s))"

definition prompt_of_json :: "json_printer \<Rightarrow> json \<Rightarrow> MCPPrompt" where
  "prompt_of_json print item =
     \<lparr>pr_name = json_string (get_object_item (Some item) ''name''),
      pr_description = json_string (get_object_item (Some item) ''description''),
      pr_arguments = (case get_object_item (Some item) ''arguments'' of None \<Rightarrow> None | Some j \<Rightarrow> Some (printed print (Some j)))\<rparr>"

definition mcp_client_list_prompts ::
  "'t MCPTransportOps \<Rightarrow> json_parser \<Rightarrow> json_printer \<Rightarrow> 't mcp \<Rightarrow> (Error \<times> MCPPrompt list) \<times> 't mcp" where
  "mcp_client_list_prompts ops parse print s =
     (case mcp_request ops parse print MCP_METHOD_PROMPTS_LIST (Some ''{}'') s of
        (Inl err, s) \<Rightarrow> ((err, []), s)
      | (Inr result, s) \<Rightarrow>
          (case result_items parse ''prompts'' ''No prompts array in response'' result of
             Inl err \<Rightarrow> ((err, []), s)
           | Inr items \<Rightarrow>
               (if items = [] then ((no_error, []), s)
                else ((no_error, map (prompt_of_json print) items), (fst s)\<lparr>mc_prompts := map (prompt_of_json print) items\<rparr>, snd s))))"

definition mcp_client_get_prompt ::
  "'t MCPTransportOps \<Rightarrow> json_parser \<Rightarrow> json_printer \<Rightarrow> string \<Rightarrow> string option \<Rightarrow> 't mcp \<Rightarrow> (Error \<times> string option) \<times> 't mcp" where
  "mcp_client_get_prompt ops parse print name args s =
     (case mcp_request ops parse print MCP_METHOD_PROMPTS_GET
         (print (JObject ((''name'', JString name) #
            (case args of None \<Rightarrow> [] | Some a \<Rightarrow> (case parse a of None \<Rightarrow> [] | Some j \<Rightarrow> [(''arguments'', j)]))))) s of
        (Inl err, s) \<Rightarrow> ((err, None), s)
      | (Inr result, s) \<Rightarrow> ((no_error, Some result), s))"

section \<open>The tools made of a client\<close>

definition mcp_needs_reinitialize :: "Error \<Rightarrow> bool" where
  "mcp_needs_reinitialize err \<longleftrightarrow>
     (strstr (err_message err) ''without mcp-session-id header'' \<noteq> None \<and> strstr (err_message err) ''initialize request'' \<noteq> None) \<or>
     (strstr (err_message err) ''session'' \<noteq> None \<and> strstr (err_message err) ''expired'' \<noteq> None)"

definition mcp_can_retry :: "Error \<Rightarrow> bool" where
  "mcp_can_retry err \<longleftrightarrow> mcp_needs_reinitialize err \<or> err_code err = ERR_TIMEOUT \<or> err_code err = ERR_CONNECTION"

definition mcp_tool_execute ::
  "'t MCPTransportOps \<Rightarrow> json_parser \<Rightarrow> json_printer \<Rightarrow> string \<Rightarrow> string option \<Rightarrow> 't mcp \<Rightarrow> (Error \<times> string) \<times> 't mcp" where
  "mcp_tool_execute ops parse print mcp_name params s =
     (case mcp_client_call_tool ops parse print mcp_name params s of
        ((err, result), s) \<Rightarrow>
          (let finish = (\<lambda>err result s.
                 if err_code err \<noteq> ERR_NONE then ((err, err_message err), s)
                 else ((no_error, case result of Some r \<Rightarrow> r | None \<Rightarrow> ''No result from MCP tool''), s))
           in if err_code err \<noteq> ERR_NONE \<and> mcp_can_retry err
              then (let s = (if mcp_needs_reinitialize err
                             then snd (mcp_client_list_tools ops parse print ((fst s)\<lparr>mc_initialized := False\<rparr>, snd s)) else s)
                    in case mcp_client_call_tool ops parse print mcp_name params s of ((err, result), s) \<Rightarrow> finish err result s)
              else finish err result s))"

definition quoted_field :: "string \<Rightarrow> string option \<Rightarrow> string" where
  "quoted_field key v = CHR 0x22 # key @ [CHR 0x22, CHR '':'', CHR 0x22] @ (case v of Some t \<Rightarrow> t | None \<Rightarrow> []) @ [CHR 0x22]"

definition listed :: "('a \<Rightarrow> string) \<Rightarrow> 'a list \<Rightarrow> string" where
  "listed f xs = ''['' @ concat (map (\<lambda>(i, x). (if i > 0 then '','' else []) @ c_trunc 1024 (f x)) (enumerate 0 xs)) @ '']''"

definition resource_line :: "MCPResource \<Rightarrow> string" where
  "resource_line r =
     ''{'' @ quoted_field ''uri'' (re_uri r) @ '','' @ quoted_field ''name'' (re_name r) @ '','' @
     quoted_field ''description'' (re_description r) @ '','' @ quoted_field ''mimeType'' (re_mime_type r) @ ''}''"

definition prompt_line :: "MCPPrompt \<Rightarrow> string" where
  "prompt_line p = ''{'' @ quoted_field ''name'' (pr_name p) @ '','' @ quoted_field ''description'' (pr_description p) @ ''}''"

definition mcp_list_resources_execute ::
  "'t MCPTransportOps \<Rightarrow> json_parser \<Rightarrow> json_printer \<Rightarrow> 't mcp \<Rightarrow> (Error \<times> string) \<times> 't mcp" where
  "mcp_list_resources_execute ops parse print s =
     (case mcp_client_list_resources ops parse print s of ((err, resources), s) \<Rightarrow>
        if err_code err \<noteq> ERR_NONE then ((err, err_message err), s) else ((no_error, listed resource_line resources), s))"

definition mcp_list_prompts_execute ::
  "'t MCPTransportOps \<Rightarrow> json_parser \<Rightarrow> json_printer \<Rightarrow> 't mcp \<Rightarrow> (Error \<times> string) \<times> 't mcp" where
  "mcp_list_prompts_execute ops parse print s =
     (case mcp_client_list_prompts ops parse print s of ((err, prompts), s) \<Rightarrow>
        if err_code err \<noteq> ERR_NONE then ((err, err_message err), s) else ((no_error, listed prompt_line prompts), s))"

text \<open>
  The address \<open>uri\<close> is a string of the parsed arguments, which are deleted before it is used: \<open>freed\<close> is what the memory then holds.
  \<open>valuestring\<close> is NULL for values that are not strings.
\<close>

definition mcp_read_resource_execute ::
  "'t MCPTransportOps \<Rightarrow> json_parser \<Rightarrow> json_printer \<Rightarrow> (string \<Rightarrow> string) \<Rightarrow> string \<Rightarrow> 't mcp \<Rightarrow> (Error \<times> string) \<times> 't mcp" where
  "mcp_read_resource_execute ops parse print freed params s =
     (case parse params of
        None \<Rightarrow> ((error_new ERR_JSON (Some ''Invalid JSON params''), []), s)
      | Some args \<Rightarrow>
          (case json_string (get_object_item (Some args) ''uri'') of
             None \<Rightarrow> ((error_new ERR_INVALID_PARAM (Some (''Missing '' @ [CHR 0x27] @ ''uri'' @ [CHR 0x27] @ '' parameter'')), []), s)
           | Some uri \<Rightarrow>
               (case mcp_client_read_resource ops parse print (freed uri) s of ((err, content), s) \<Rightarrow>
                  if err_code err \<noteq> ERR_NONE then ((err, err_message err), s)
                  else ((no_error, case content of Some c \<Rightarrow> c | None \<Rightarrow> ''No content''), s))))"

text \<open>
  \<open>mcp_register_tools\<close>: the names under which tools are offered, with the name on the server. \<open>None\<close> is the crash of
  \<open>strdup (NULL)\<close> for a tool without a name.
\<close>

fun registered_names :: "MCPToolDef list \<Rightarrow> (string \<times> string) list option" where
  "registered_names [] = Some []"
| "registered_names (tool # tools) =
     (case td_name tool of
        None \<Rightarrow> None
      | Some name \<Rightarrow> map_option (Cons (c_trunc 256 (''mcp_'' @ name), name)) (registered_names tools))"

definition mcp_register_tools ::
  "(nat \<Rightarrow> bool) \<Rightarrow> (string \<Rightarrow> nat option \<Rightarrow> string \<Rightarrow> Error \<times> string) \<Rightarrow> (nat \<Rightarrow> nat) \<Rightarrow> nat option \<Rightarrow> MCPToolDef list \<Rightarrow> ToolRegistry
   \<Rightarrow> ToolRegistry option" where
  "mcp_register_tools realloc_ok exec context plugin tools reg =
     map_option
       (\<lambda>names. fold (\<lambda>(i, (full_name, name), tool) reg.
          snd (tool_registry_register_full realloc_ok reg full_name (case td_description tool of Some d \<Rightarrow> d | None \<Rightarrow> [])
            (case td_input_schema tool of Some sch \<Rightarrow> sch | None \<Rightarrow> []) (exec name) (Some (context i)) plugin False))
          (enumerate 0 (zip names tools)) reg)
       (registered_names tools)"

section \<open>The manager\<close>

record 't MCPManager =
  mm_clients :: "'t MCPClient list"
  mm_capacity :: nat

definition mcp_manager_create :: "'t MCPManager" where
  "mcp_manager_create = \<lparr>mm_clients = [], mm_capacity = 0\<rparr>"

text \<open>\<open>tr\<close> is the transport state before it is connected. The result is the index, or \<open>- 1\<close>.\<close>

definition mcp_manager_add_client ::
  "(nat \<Rightarrow> bool) \<Rightarrow> 't \<Rightarrow> string \<Rightarrow> string \<Rightarrow> string option \<Rightarrow> string list \<Rightarrow> EnvVar list \<Rightarrow> EnvVar list \<Rightarrow> 't MCPManager \<Rightarrow> int \<times> 't MCPManager" where
  "mcp_manager_add_client ok tr server_id transport command args env headers mgr =
     (if \<exists>c \<in> set (mm_clients mgr). mc_server_id c = server_id then (- 1, mgr)
      else (let n = length (mm_clients mgr); full = n \<ge> mm_capacity mgr;
                new_capacity = (if mm_capacity mgr = 0 then 4 else mm_capacity mgr * 2)
            in if full \<and> \<not> ok new_capacity then (- 1, mgr)
               else (int n, mgr\<lparr>mm_capacity := (if full then new_capacity else mm_capacity mgr),
                       mm_clients := mm_clients mgr @
                         [\<lparr>mc_server_id = server_id, mc_transport_type = transport, mc_command = command, mc_args = args, mc_env = env,
                           mc_headers = headers, mc_transport = tr, mc_connected = False, mc_initialized = False, mc_tools = [],
                           mc_resources = [], mc_prompts = []\<rparr>]\<rparr>)))"

definition mcp_manager_remove_client :: "string \<Rightarrow> 't MCPManager \<Rightarrow> 't MCPManager" where
  "mcp_manager_remove_client server_id mgr = mgr\<lparr>mm_clients := remove_first (\<lambda>c. mc_server_id c = server_id) (mm_clients mgr)\<rparr>"

definition mcp_manager_get_client :: "string \<Rightarrow> 't MCPManager \<Rightarrow> 't MCPClient option" where
  "mcp_manager_get_client server_id mgr = find (\<lambda>c. mc_server_id c = server_id) (mm_clients mgr)"

definition mcp_parse_env_map :: "json option \<Rightarrow> EnvVar list" where
  "mcp_parse_env_map env_obj =
     (case env_obj of
        Some (JObject kvs) \<Rightarrow> concat (map (\<lambda>(k, v). case v of JString s \<Rightarrow> [(k, s)] | _ \<Rightarrow> []) kvs)
      | _ \<Rightarrow> [])"

definition http_transport :: "string \<Rightarrow> bool" where
  "http_transport transport \<longleftrightarrow> transport = ''websocket'' \<or> transport = ''sse'' \<or> transport = ''streamable_http''"

text \<open>One element of \<open>config.servers\<close>.\<close>

definition mcp_add_server :: "(nat \<Rightarrow> bool) \<Rightarrow> 't \<Rightarrow> json \<Rightarrow> 't MCPManager \<Rightarrow> 't MCPManager" where
  "mcp_add_server ok tr server_item mgr =
     (let str = (\<lambda>key. json_string (get_object_item (Some server_item) key));
          nonempty = (\<lambda>v. case v of Some s \<Rightarrow> if s = [] then None else Some s | None \<Rightarrow> None)
      in case nonempty (str ''id'') of
           None \<Rightarrow> mgr
         | Some server_id \<Rightarrow>
             (let transport = (case nonempty (str ''transport'') of Some t \<Rightarrow> t | None \<Rightarrow> ''stdio'');
                  command = (case str (if http_transport transport then ''url'' else ''command'') of Some c \<Rightarrow> c | None \<Rightarrow> []);
                  request_url = (if transport = ''sse'' \<or> transport = ''streamable_http''
                                 then (case nonempty (str ''request_url'') of Some u \<Rightarrow> [u] | None \<Rightarrow> []) else []);
                  args = (case json_array (get_object_item (Some server_item) ''args'') of
                            None \<Rightarrow> []
                          | Some items \<Rightarrow> concat (map (\<lambda>j. case j of JString s \<Rightarrow> [s] | _ \<Rightarrow> []) items))
              in snd (mcp_manager_add_client ok tr server_id transport (Some command) (request_url @ args)
                   (mcp_parse_env_map (get_object_item (Some server_item) ''env''))
                   (mcp_parse_env_map (get_object_item (Some server_item) ''headers'')) mgr)))"

section \<open>What a client sends\<close>

text \<open>A JSON-RPC request with the id \<open>i\<close>, which JSON holds as a number of 53 bits.\<close>

fun rpc_request :: "int \<Rightarrow> json \<Rightarrow> bool" where
  "rpc_request i (JObject ((k, JString v) # (k', JNumber n) # (k'', JString m) # ps)) =
     (k = ''jsonrpc'' \<and> v = ''2.0'' \<and> k' = ''id'' \<and> n = of_int (double_of_int i) \<and> k'' = ''method'' \<and>
      mcp_method_from_string (Some m) \<notin> {MCP_METHOD_INVALID, MCP_METHOD_INITIALIZED} \<and> (ps = [] \<or> map fst ps = [''params'']))"
| "rpc_request i _ = False"

text \<open>What is sent at once: copies of one message, a request with its id or the notification of the handshake.\<close>

type_synonym rpc_block = "string \<times> nat \<times> int option"

definition wf_rpc_block :: "json_printer \<Rightarrow> rpc_block \<Rightarrow> bool" where
  "wf_rpc_block print b \<longleftrightarrow>
     (case b of (m, _, Some i) \<Rightarrow> (\<exists>j. rpc_request i j \<and> print j = Some m) | (m, _, None) \<Rightarrow> print initialized_json = Some m)"

definition rpc_texts :: "rpc_block list \<Rightarrow> string list" where
  "rpc_texts bs = concat (map (\<lambda>(m, k, _). replicate k m) bs)"

definition block_ids :: "rpc_block list \<Rightarrow> int list" where
  "block_ids bs = concat (map (\<lambda>(_, _, i). case i of Some i \<Rightarrow> [i] | None \<Rightarrow> []) bs)"

text \<open>Well-formed messages, the ids of whose requests come from the counter, each of them once and in increasing order.\<close>

definition rpc_log :: "json_printer \<Rightarrow> int \<Rightarrow> int \<Rightarrow> string list \<Rightarrow> bool" where
  "rpc_log print lo hi ms \<longleftrightarrow>
     (\<exists>bs. ms = rpc_texts bs \<and> list_all (wf_rpc_block print) bs \<and> sorted_wrt (<) (block_ids bs) \<and> set (block_ids bs) \<subseteq> {lo..<hi})"

lemma rpc_log_Nil [simp]: "rpc_log print lo hi []"
  unfolding rpc_log_def by (rule exI [of _ "[]"]) (simp add: rpc_texts_def block_ids_def)

lemma rpc_log_append:
  assumes "rpc_log print lo mid xs" "rpc_log print mid hi ys" "lo \<le> mid" "mid \<le> hi"
  shows "rpc_log print lo hi (xs @ ys)"
proof -
  obtain a where a: "xs = rpc_texts a" "list_all (wf_rpc_block print) a" "sorted_wrt (<) (block_ids a)" "set (block_ids a) \<subseteq> {lo..<mid}"
    using assms(1) unfolding rpc_log_def by blast
  obtain b where b: "ys = rpc_texts b" "list_all (wf_rpc_block print) b" "sorted_wrt (<) (block_ids b)" "set (block_ids b) \<subseteq> {mid..<hi}"
    using assms(2) unfolding rpc_log_def by blast
  have "block_ids (a @ b) = block_ids a @ block_ids b" "rpc_texts (a @ b) = xs @ ys" using a(1) b(1) by (simp_all add: block_ids_def rpc_texts_def)
  moreover have "sorted_wrt (<) (block_ids a @ block_ids b)"
    unfolding sorted_wrt_append using a(3,4) b(3,4) by fastforce
  moreover have "set (block_ids a @ block_ids b) \<subseteq> {lo..<hi}" using a(4) b(4) assms(3,4) by auto
  ultimately show ?thesis unfolding rpc_log_def using a(2) b(2) by (intro exI [of _ "a @ b"]) simp
qed

lemma rpc_log_copies:
  assumes "wf_rpc_block print (m, k, i)" "set_option i \<subseteq> {lo..<hi}"
  shows "rpc_log print lo hi (replicate k m)"
  unfolding rpc_log_def using assms
  by (intro exI [of _ "[(m, k, i)]"]) (auto simp: rpc_texts_def block_ids_def split: option.splits)

definition request_method :: "MCPMethod \<Rightarrow> bool" where
  "request_method method \<longleftrightarrow> method \<notin> {MCP_METHOD_INVALID, MCP_METHOD_INITIALIZED}"

lemma wf_request:
  assumes "request_method method" "mcp_create_request parse print method i params = Some m"
  shows "wf_rpc_block print (m, k, Some i)"
proof -
  have "rpc_request i (request_json parse method i params)"
    using assms(1) by (auto simp: request_json_def request_method_def method_roundtrip split: option.split)
  then show ?thesis using assms(2) by (auto simp: wf_rpc_block_def mcp_create_request_def)
qed

lemma wf_initialized: "print initialized_json = Some m \<Longrightarrow> wf_rpc_block print (m, k, None)"
  by (simp add: wf_rpc_block_def)

text \<open>From \<open>s\<close> to \<open>s'\<close> only well-formed messages were sent, their ids drawn from the counter.\<close>

definition sends_ok :: "json_printer \<Rightarrow> ('t \<Rightarrow> string list) \<Rightarrow> 't mcp \<Rightarrow> 't mcp \<Rightarrow> bool" where
  "sends_ok print sent s s' \<longleftrightarrow>
     snd s \<le> snd s' \<and> (\<exists>new. sent (mc_transport (fst s')) = sent (mc_transport (fst s)) @ new \<and> rpc_log print (snd s) (snd s') new)"

lemma sends_refl: "sends_ok print sent s s"
  by (simp add: sends_ok_def)

lemma sends_ok_trans:
  assumes "sends_ok print sent s s'" "sends_ok print sent s' s''"
  shows "sends_ok print sent s s''"
proof -
  obtain a b where a: "sent (mc_transport (fst s')) = sent (mc_transport (fst s)) @ a" "rpc_log print (snd s) (snd s') a"
      and b: "sent (mc_transport (fst s'')) = sent (mc_transport (fst s')) @ b" "rpc_log print (snd s') (snd s'') b"
      and le: "snd s \<le> snd s'" "snd s' \<le> snd s''"
    using assms unfolding sends_ok_def by blast
  show ?thesis unfolding sends_ok_def using a(1) b(1) rpc_log_append [OF a(2) b(2) le] le by (intro conjI exI [of _ "a @ b"]) simp_all
qed

lemma sends_fields:
  "sends_ok print sent s s' \<Longrightarrow> mc_transport c = mc_transport (fst s') \<Longrightarrow> sends_ok print sent s (c, snd s')"
  "sends_ok print sent (c, snd s) s' \<Longrightarrow> mc_transport c = mc_transport (fst s) \<Longrightarrow> sends_ok print sent s s'"
  by (simp_all add: sends_ok_def)

text \<open>What the client needs of a transport: sending leaves copies of the message on the way to the server, receiving nothing.\<close>

locale mcp_channel =
  fixes ops :: "'t MCPTransportOps" and sent :: "'t \<Rightarrow> string list"
  assumes send_logs: "op_send ops m t = (e, t') \<Longrightarrow> \<exists>k. sent t' = sent t @ replicate k m"
    and recv_logs: "op_recv ops t = (r, t') \<Longrightarrow> sent t' = sent t"
begin

lemma send_ok:
  assumes "mcp_client_send ops m s = (err, s')" and "\<And>k. wf_rpc_block print (m, k, j)" and "set_option j \<subseteq> {i..<snd s}" and "i \<le> snd s"
  shows "sends_ok print sent (fst s, i) s'"
proof -
  obtain c n where s: "s = (c, n)" by (cases s)
  obtain e t' where r: "op_send ops m (mc_transport c) = (e, t')" by (cases "op_send ops m (mc_transport c)")
  obtain k where k: "sent t' = sent (mc_transport c) @ replicate k m" using send_logs [OF r] by blast
  have "rpc_log print i n (replicate k m)" using rpc_log_copies [OF assms(2,3)] s by simp
  then show ?thesis using assms k r s by (auto simp: mcp_client_send_def sends_ok_def)
qed

lemma recv_ok: "mcp_client_recv ops s = (r, s') \<Longrightarrow> sends_ok print sent s s'"
  by (cases s) (auto simp: mcp_client_recv_def sends_ok_def dest: recv_logs split: prod.splits)

lemma exchange_ok:
  assumes x: "mcp_exchange ops parse print a b method params s = (r, s')" and m: "request_method method"
  shows "sends_ok print sent s s'"
proof -
  obtain c n where s: "s = (c, n)" by (cases s)
  have inc: "sends_ok print sent s (c, n + 1)" by (simp add: sends_ok_def s)
  show ?thesis
  proof (cases "mcp_create_request parse print method n params")
    case None
    then show ?thesis using x inc s by (auto simp: mcp_exchange_def get_next_request_id_def)
  next
    case (Some request)
    obtain err s1 where s1: "mcp_client_send ops request (c, n + 1) = (err, s1)" by (cases "mcp_client_send ops request (c, n + 1)")
    have c1: "sends_ok print sent s s1"
      using send_ok [OF s1 wf_request [OF m Some], of n] s by simp
    obtain answer s2 where s2: "mcp_client_recv ops s1 = (answer, s2)" by (cases "mcp_client_recv ops s1")
    have c2: "sends_ok print sent s s2" using sends_ok_trans [OF c1 recv_ok [OF s2]] .
    show ?thesis using x s s1 s2 c1 c2 Some
      by (auto simp: mcp_exchange_def get_next_request_id_def split: if_splits option.splits sum.splits)
  qed
qed

lemma initialize_ok:
  assumes x: "mcp_client_initialize ops parse print s = (err, s')"
  shows "sends_ok print sent s s'"
proof -
  have step: "sends_ok print sent s s2"
    if "mcp_exchange ops parse print a b MCP_METHOD_INITIALIZE p s = (r, s1)" "mcp_client_send ops m s1 = (e, s2)"
      "print initialized_json = Some m" for a b p r s1 m e s2
  proof -
    have "sends_ok print sent s s1" using exchange_ok [OF that(1)] by (simp add: request_method_def)
    moreover have "sends_ok print sent (fst s1, snd s1) s2" using send_ok [OF that(2), of print None "snd s1"] wf_initialized that(3) by simp
    ultimately show ?thesis using sends_ok_trans by simp
  qed
  have ex: "sends_ok print sent s s1" if "mcp_exchange ops parse print a b MCP_METHOD_INITIALIZE p s = (r, s1)" for a b p r s1
    using exchange_ok [OF that] by (simp add: request_method_def)
  show ?thesis
    using x unfolding mcp_client_initialize_def
    by (auto simp: sends_refl intro!: sends_fields(1) dest: ex step split: if_splits option.splits prod.splits sum.splits)
qed

lemma list_tools_ok:
  assumes x: "mcp_client_list_tools ops parse print s = (r, s')"
  shows "sends_ok print sent s s'"
proof -
  have ex: "sends_ok print sent s s2"
    if "mcp_client_initialize ops parse print s = (e, s1)" "mcp_exchange ops parse print a b MCP_METHOD_TOOLS_LIST p s1 = (r, s2)"
    for a b p r s1 e s2
    using sends_ok_trans [OF initialize_ok [OF that(1)] exchange_ok [OF that(2)]] by (simp add: request_method_def)
  show ?thesis
    using x unfolding mcp_client_list_tools_def Let_def
    by (auto simp: sends_refl intro!: sends_fields(1) dest: ex initialize_ok split: if_splits prod.splits sum.splits)
qed

lemma call_tool_ok: "mcp_client_call_tool ops parse print name params s = (r, s') \<Longrightarrow> sends_ok print sent s s'"
  unfolding mcp_client_call_tool_def
  by (auto simp: sends_refl request_method_def dest: exchange_ok split: if_splits option.splits prod.splits sum.splits)

lemma request_ok: "mcp_request ops parse print method params s = (r, s') \<Longrightarrow> request_method method \<Longrightarrow> sends_ok print sent s s'"
  unfolding mcp_request_def
  by (auto simp: sends_refl dest: exchange_ok split: if_splits prod.splits sum.splits)

lemma list_resources_ok: "mcp_client_list_resources ops parse print s = (r, s') \<Longrightarrow> sends_ok print sent s s'"
  unfolding mcp_client_list_resources_def
  by (auto simp: request_method_def intro!: sends_fields(1) dest: request_ok split: if_splits prod.splits sum.splits)

lemma read_resource_ok: "mcp_client_read_resource ops parse print uri s = (r, s') \<Longrightarrow> sends_ok print sent s s'"
  unfolding mcp_client_read_resource_def
  by (auto simp: request_method_def dest: request_ok split: prod.splits sum.splits)

lemma list_prompts_ok: "mcp_client_list_prompts ops parse print s = (r, s') \<Longrightarrow> sends_ok print sent s s'"
  unfolding mcp_client_list_prompts_def
  by (auto simp: request_method_def intro!: sends_fields(1) dest: request_ok split: if_splits prod.splits sum.splits)

lemma get_prompt_ok: "mcp_client_get_prompt ops parse print name args s = (r, s') \<Longrightarrow> sends_ok print sent s s'"
  unfolding mcp_client_get_prompt_def
  by (auto simp: request_method_def dest: request_ok split: prod.splits sum.splits)

lemma tool_execute_ok: "mcp_tool_execute ops parse print name params s = (r, s') \<Longrightarrow> sends_ok print sent s s'"
proof -
  assume x: "mcp_tool_execute ops parse print name params s = (r, s')"
  obtain err result s1 where s1: "mcp_client_call_tool ops parse print name params s = ((err, result), s1)"
    by (metis prod.exhaust)
  note a = call_tool_ok [OF s1]
  obtain r2 s2 where s2: "mcp_client_list_tools ops parse print ((fst s1)\<lparr>mc_initialized := False\<rparr>, snd s1) = (r2, s2)"
    by (metis prod.exhaust)
  have b: "sends_ok print sent s s2" using sends_ok_trans [OF a sends_fields(2) [OF list_tools_ok [OF s2]]] by simp
  have c: "sends_ok print sent s s3"
    if "mcp_client_call_tool ops parse print name params s2 = (r3, s3)" for r3 s3
    using sends_ok_trans [OF b call_tool_ok [OF that]] .
  have d: "sends_ok print sent s s3"
    if "mcp_client_call_tool ops parse print name params s1 = (r3, s3)" for r3 s3
    using sends_ok_trans [OF a call_tool_ok [OF that]] .
  show ?thesis
    using x s1 s2 a c d unfolding mcp_tool_execute_def Let_def by (auto split: if_splits option.splits prod.splits)
qed

end

text \<open>The operations of a client that the program calls.\<close>

datatype McpCall =
    ListTools
  | CallTool string "string option"
  | ExecTool string "string option"
  | ListResources
  | ReadResource string
  | ListPrompts
  | GetPrompt string "string option"

definition mcp_call :: "'t MCPTransportOps \<Rightarrow> json_parser \<Rightarrow> json_printer \<Rightarrow> McpCall \<Rightarrow> 't mcp \<Rightarrow> 't mcp" where
  "mcp_call ops parse print call s =
     (case call of
        ListTools \<Rightarrow> snd (mcp_client_list_tools ops parse print s)
      | CallTool name params \<Rightarrow> snd (mcp_client_call_tool ops parse print name params s)
      | ExecTool name params \<Rightarrow> snd (mcp_tool_execute ops parse print name params s)
      | ListResources \<Rightarrow> snd (mcp_client_list_resources ops parse print s)
      | ReadResource uri \<Rightarrow> snd (mcp_client_read_resource ops parse print uri s)
      | ListPrompts \<Rightarrow> snd (mcp_client_list_prompts ops parse print s)
      | GetPrompt name args \<Rightarrow> snd (mcp_client_get_prompt ops parse print name args s))"

context mcp_channel
begin

lemma call_ok: "sends_ok print sent s (mcp_call ops parse print call s)"
  using list_tools_ok call_tool_ok tool_execute_ok list_resources_ok read_resource_ok list_prompts_ok get_prompt_ok
  by (cases call) (simp_all add: mcp_call_def, (metis prod.collapse)+)

lemma calls_ok: "sends_ok print sent s (fold (mcp_call ops parse print) calls s)"
proof (induction calls arbitrary: s)
  case (Cons call calls)
  show ?case unfolding fold_Cons comp_apply by (rule sends_ok_trans [OF call_ok Cons.IH])
qed (simp add: sends_refl)

end

section \<open>Clients over the transports of the program\<close>

text \<open>
  A transport with its surroundings: what was sent so far, and for each \<open>recv\<close> to come what arrives while it waits. Messages over
  pipes are recorded when \<open>send\<close> reports success.
\<close>

record StdioWorld =
  sw_transport :: MCPStdioTransport
  sw_sent :: "string list"
  sw_arrivals :: "(MCPStdioTransport \<Rightarrow> MCPStdioTransport) list list"

definition stdio_ops :: "(string \<Rightarrow> nat option) \<Rightarrow> StdioWorld MCPTransportOps" where
  "stdio_ops write_fd =
     \<lparr>op_send = (\<lambda>m w. case mcp_transport_stdio_send write_fd m (sw_transport w) of (err, _) \<Rightarrow>
                   (err, if err_code err = ERR_NONE then w\<lparr>sw_sent := sw_sent w @ [m]\<rparr> else w)),
      op_recv = (\<lambda>w. case mcp_transport_stdio_recv (case sw_arrivals w of [] \<Rightarrow> [] | a # _ \<Rightarrow> a) (sw_transport w) of (m, t) \<Rightarrow>
                   (m, w\<lparr>sw_transport := t, sw_arrivals := tl (sw_arrivals w)\<rparr>))\<rparr>"

record SseWorld =
  ew_transport :: MCPSSETransport
  ew_requests :: "PostRequest list"
  ew_arrivals :: "(MCPSSETransport \<Rightarrow> MCPSSETransport) list list"

definition sse_ops ::
  "(nat \<Rightarrow> bool) \<Rightarrow> json_parser \<Rightarrow> json_printer \<Rightarrow> post_network \<Rightarrow> string \<Rightarrow> string option \<Rightarrow> SseWorld MCPTransportOps" where
  "sse_ops ok parse print net command first_arg =
     \<lparr>op_send = (\<lambda>m w. case mcp_transport_sse_send ok parse print (\<lambda>n. net (length (ew_requests w) + n)) command first_arg m (ew_transport w)
                   of (err, requests, t) \<Rightarrow> (err, w\<lparr>ew_transport := t, ew_requests := ew_requests w @ requests\<rparr>)),
      op_recv = (\<lambda>w. case mcp_transport_sse_recv True (case ew_arrivals w of [] \<Rightarrow> [] | a # _ \<Rightarrow> a) (ew_transport w) of (m, t) \<Rightarrow>
                   (m, w\<lparr>ew_transport := t, ew_arrivals := tl (ew_arrivals w)\<rparr>))\<rparr>"

record HttpWorld =
  hw_transport :: MCPStreamableHttpTransport
  hw_requests :: "PostRequest list"

definition http_ops ::
  "(nat \<Rightarrow> bool) \<Rightarrow> json_parser \<Rightarrow> json_printer \<Rightarrow> post_network \<Rightarrow> string \<Rightarrow> string option \<Rightarrow> HttpWorld MCPTransportOps" where
  "http_ops ok parse print net command first_arg =
     \<lparr>op_send = (\<lambda>m w. case mcp_transport_streamable_http_send ok parse print (\<lambda>n. net (length (hw_requests w) + n)) command first_arg m
                   (hw_transport w)
                   of (err, requests, t) \<Rightarrow> (err, w\<lparr>hw_transport := t, hw_requests := hw_requests w @ requests\<rparr>)),
      op_recv = (\<lambda>w. case mcp_transport_streamable_http_recv True (hw_transport w) of (m, t) \<Rightarrow> (m, w\<lparr>hw_transport := t\<rparr>))\<rparr>"

lemma map_same: "(\<And>x. x \<in> set xs \<Longrightarrow> f x = m) \<Longrightarrow> map f xs = replicate (length xs) m"
  by (induction xs) auto

interpretation stdio: mcp_channel "stdio_ops write_fd" sw_sent for write_fd
proof
  fix m t e t'
  assume "op_send (stdio_ops write_fd) m t = (e, t')"
  then have "t' = t \<or> sw_sent t' = sw_sent t @ [m]" by (auto simp: stdio_ops_def split: prod.splits if_splits)
  then show "\<exists>k. sw_sent t' = sw_sent t @ replicate k m"
    by (auto intro: exI [of _ 0] exI [of _ 1])
next
  fix t r t'
  assume "op_recv (stdio_ops write_fd) t = (r, t')"
  then show "sw_sent t' = sw_sent t" by (auto simp: stdio_ops_def split: prod.splits)
qed

interpretation sse: mcp_channel "sse_ops ok parse print net command first_arg" "\<lambda>w. map rq_data (ew_requests w)"
  for ok parse print net command first_arg
proof
  fix m t e t'
  assume a: "op_send (sse_ops ok parse print net command first_arg) m t = (e, t')"
  obtain err requests s where send: "mcp_transport_sse_send ok parse print (\<lambda>n. net (length (ew_requests t) + n)) command first_arg m
      (ew_transport t) = (err, requests, s)" by (metis prod.exhaust)
  then have "map rq_data requests = replicate (length requests) m"
    by (intro map_same) (auto simp: mcp_transport_sse_send_def dest: post_loop_result)
  then show "\<exists>k. map rq_data (ew_requests t') = map rq_data (ew_requests t) @ replicate k m"
    using a send by (auto simp: sse_ops_def)
next
  fix t r t'
  assume "op_recv (sse_ops ok parse print net command first_arg) t = (r, t')"
  then show "map rq_data (ew_requests t') = map rq_data (ew_requests t)" by (auto simp: sse_ops_def split: prod.splits)
qed

interpretation http: mcp_channel "http_ops ok parse print net command first_arg" "\<lambda>w. map rq_data (hw_requests w)"
  for ok parse print net command first_arg
proof
  fix m t e t'
  assume a: "op_send (http_ops ok parse print net command first_arg) m t = (e, t')"
  obtain err requests s where send: "mcp_transport_streamable_http_send ok parse print (\<lambda>n. net (length (hw_requests t) + n)) command
      first_arg m (hw_transport t) = (err, requests, s)" by (metis prod.exhaust)
  then have "map rq_data requests = replicate (length requests) m"
    by (intro map_same) (auto dest!: http_send_at_most_two simp: list_all_iff)
  then show "\<exists>k. map rq_data (hw_requests t') = map rq_data (hw_requests t) @ replicate k m"
    using a send by (auto simp: http_ops_def)
next
  fix t r t'
  assume "op_recv (http_ops ok parse print net command first_arg) t = (r, t')"
  then show "map rq_data (hw_requests t') = map rq_data (hw_requests t)" by (auto simp: http_ops_def split: prod.splits)
qed

section \<open>The handshake\<close>

abbreviation sent_of :: "StdioWorld mcp \<Rightarrow> string list" where
  "sent_of s \<equiv> sw_sent (mc_transport (fst s))"

lemma stdio_send:
  "mcp_client_send (stdio_ops write_fd) m s = (err, s') \<Longrightarrow>
   snd s' = snd s \<and> mc_initialized (fst s') = mc_initialized (fst s) \<and>
   sent_of s' = sent_of s @ (if err_code err = ERR_NONE then [m] else [])"
  by (cases s) (auto simp: mcp_client_send_def stdio_ops_def split: prod.splits if_splits)

lemma stdio_recv:
  "mcp_client_recv (stdio_ops write_fd) s = (r, s') \<Longrightarrow>
   snd s' = snd s \<and> mc_initialized (fst s') = mc_initialized (fst s) \<and> sent_of s' = sent_of s"
  by (cases s) (auto simp: mcp_client_recv_def stdio_ops_def split: prod.splits)

lemma err_code_error_new [simp]: "err_code (error_new c m) = c"
  by (simp add: error_new_def)

lemma stdio_exchange:
  assumes "mcp_exchange (stdio_ops write_fd) parse print a b method params s = (r, s')"
  shows "snd s' = snd s + 1 \<and> mc_initialized (fst s') = mc_initialized (fst s) \<and>
    (\<exists>new. sent_of s' = sent_of s @ new \<and> prefix (map Some new) [mcp_create_request parse print method (snd s) params] \<and>
       (case r of Inl e \<Rightarrow> err_code e \<noteq> ERR_NONE | Inr _ \<Rightarrow> length new = 1))"
proof -
  obtain c n where s: "s = (c, n)" by (cases s)
  show ?thesis
  proof (cases "mcp_create_request parse print method n params")
    case None
    then show ?thesis using assms s by (auto simp: mcp_exchange_def get_next_request_id_def)
  next
    case (Some request)
    obtain err s1 where s1: "mcp_client_send (stdio_ops write_fd) request (c, n + 1) = (err, s1)" by (metis prod.exhaust)
    obtain answer s2 where s2: "mcp_client_recv (stdio_ops write_fd) s1 = (answer, s2)" by (metis prod.exhaust)
    note f = stdio_send [OF s1] stdio_recv [OF s2]
    show ?thesis
      using assms s s1 s2 Some f
      by (auto simp: mcp_exchange_def get_next_request_id_def split: if_splits option.splits sum.splits)
  qed
qed

lemma stdio_initialize:
  assumes x: "mcp_client_initialize (stdio_ops write_fd) parse print s = (err, s')" and c: "mc_connected (fst s)" "\<not> mc_initialized (fst s)"
  shows "\<exists>new. sent_of s' = sent_of s @ new \<and>
    prefix (map Some new) [mcp_create_request parse print MCP_METHOD_INITIALIZE (snd s) (print initialize_params), print initialized_json] \<and>
    (err_code err = ERR_NONE \<longrightarrow> length new = 2 \<and> mc_initialized (fst s') \<and> snd s' = snd s + 1)"
proof (cases "print initialize_params")
  case None
  then show ?thesis using x c by (auto simp: mcp_client_initialize_def)
next
  case (Some params)
  let ?init = "mcp_create_request parse print MCP_METHOD_INITIALIZE (snd s) (print initialize_params)"
  obtain r s1 where s1: "mcp_exchange (stdio_ops write_fd) parse print ''Failed to create initialize request''
      ''No initialize response from server'' MCP_METHOD_INITIALIZE (Some params) s = (r, s1)" by (metis prod.exhaust)
  obtain new where new: "sent_of s1 = sent_of s @ new" "prefix (map Some new) [?init]" "snd s1 = snd s + 1"
      "case r of Inl e \<Rightarrow> err_code e \<noteq> ERR_NONE | Inr _ \<Rightarrow> length new = 1"
    using stdio_exchange [OF s1] Some by auto
  have pre: "prefix (map Some new) [?init, print initialized_json]" using new(2) by (auto simp: prefix_Cons)
  show ?thesis
  proof (cases r)
    case (Inl e)
    then show ?thesis using x c Some s1 new pre by (auto simp: mcp_client_initialize_def)
  next
    case (Inr response)
    then obtain m where m: "new = [m]" "?init = Some m" using new(2,4) by (cases new) (auto simp: prefix_Cons)
    show ?thesis
    proof (cases "rs_error response \<noteq> [] \<or> print initialized_json = None")
      case True
      then have "err_code err \<noteq> ERR_NONE" "s' = s1"
        using x c Some s1 Inr by (auto simp: mcp_client_initialize_def split: if_splits)
      then show ?thesis using new pre by (intro exI [of _ new]) auto
    next
      case False
      then obtain notify where nf: "print initialized_json = Some notify" by auto
      obtain e s2 where s2: "mcp_client_send (stdio_ops write_fd) notify s1 = (e, s2)" by (metis prod.exhaust)
      note f = stdio_send [OF s2]
      show ?thesis
      proof (cases "err_code e = ERR_NONE")
        case True
        then have "err = no_error" "s' = ((fst s2)\<lparr>mc_initialized := True\<rparr>, snd s2)"
          using x c Some s1 s2 Inr False nf by (auto simp: mcp_client_initialize_def)
        then show ?thesis using f True new m nf by (intro exI [of _ "[m, notify]"]) auto
      next
        case False
        then have "err = e" "s' = s2"
          using x c Some s1 s2 Inr \<open>\<not> (rs_error response \<noteq> [] \<or> _)\<close> nf by (auto simp: mcp_client_initialize_def)
        then show ?thesis using f False new pre by (intro exI [of _ new]) auto
      qed
    qed
  qed
qed

text \<open>
  Listing the tools of a client that is not initialized sends, in this order and nothing else, the request
  \<open>initialize\<close>, the notification that it is done and \<open>tools/list\<close>: each is sent only when the one before succeeded, so what is sent
  is the beginning of this list, all of it when there is no error, and the client is initialized then.
\<close>

theorem handshake_before_tools:
  assumes x: "mcp_client_list_tools (stdio_ops write_fd) parse print s = ((err, tools), s')"
    and c: "mc_connected (fst s)" "\<not> mc_initialized (fst s)"
  shows "\<exists>new. sent_of s' = sent_of s @ new \<and>
    prefix (map Some new) [mcp_create_request parse print MCP_METHOD_INITIALIZE (snd s) (print initialize_params),
      print initialized_json, mcp_create_request parse print MCP_METHOD_TOOLS_LIST (snd s + 1) (Some ''{}'')] \<and>
    (err_code err = ERR_NONE \<longrightarrow> length new = 3 \<and> mc_initialized (fst s'))"
proof -
  let ?init = "mcp_create_request parse print MCP_METHOD_INITIALIZE (snd s) (print initialize_params)"
  let ?tools = "mcp_create_request parse print MCP_METHOD_TOOLS_LIST (snd s + 1) (Some ''{}'')"
  obtain e s1 where s1: "mcp_client_initialize (stdio_ops write_fd) parse print s = (e, s1)" by (metis prod.exhaust)
  obtain a where a: "sent_of s1 = sent_of s @ a" "prefix (map Some a) [?init, print initialized_json]"
      "err_code e = ERR_NONE \<longrightarrow> length a = 2 \<and> mc_initialized (fst s1) \<and> snd s1 = snd s + 1"
    using stdio_initialize [OF s1 c] by auto
  have pre: "prefix (map Some a) [?init, print initialized_json, ?tools]"
    using a(2) by (auto simp: prefix_Cons)
  show ?thesis
  proof (cases "err_code e = ERR_NONE")
    case False
    then have "err = e" "s' = s1" using x c s1 by (auto simp: mcp_client_list_tools_def)
    then show ?thesis using False a pre by (intro exI [of _ a]) auto
  next
    case True
    obtain r s2 where s2: "mcp_exchange (stdio_ops write_fd) parse print ''Failed to create request'' ''No response from server''
        MCP_METHOD_TOOLS_LIST (Some ''{}'') s1 = (r, s2)" by (metis prod.exhaust)
    obtain b where b: "sent_of s2 = sent_of s1 @ b" "prefix (map Some b) [?tools]" "mc_initialized (fst s2)"
        "case r of Inl e \<Rightarrow> err_code e \<noteq> ERR_NONE | Inr _ \<Rightarrow> length b = 1"
      using stdio_exchange [OF s2] a(3) True by auto
    obtain zs where z: "[?init, print initialized_json] = map Some a @ zs" using a(2) by (auto simp: prefix_def)
    have "length [?init, print initialized_json] = length a + length zs" unfolding z by simp
    then have "zs = []" using a(3) True by simp
    then have "map Some a = [?init, print initialized_json]" using z by simp
    moreover have "sent_of s' = sent_of s2 \<and> mc_initialized (fst s') = mc_initialized (fst s2) \<and> (err_code err = ERR_NONE \<longrightarrow> (\<exists>x. r = Inr x))"
      using x c s1 s2 b(4) True by (auto simp: mcp_client_list_tools_def Let_def split: sum.splits if_splits)
    ultimately show ?thesis
      using a b True by (intro exI [of _ "a @ b"]) (auto simp: prefix_Cons split: sum.splits)
  qed
qed

section \<open>Answers and requests\<close>

definition call_params :: "json_printer \<Rightarrow> string \<Rightarrow> json \<Rightarrow> string option" where
  "call_params print name arguments = print (JObject [(''name'', JString name), (''arguments'', arguments)])"

lemma stdio_send_ok:
  "io_running (sw_transport (mc_transport c)) \<Longrightarrow> write_fd m = Some k \<Longrightarrow>
   mcp_client_send (stdio_ops write_fd) m (c, n) =
     (no_error, c\<lparr>mc_transport := (mc_transport c)\<lparr>sw_sent := sw_sent (mc_transport c) @ [m]\<rparr>\<rparr>, n)"
  by (simp add: mcp_client_send_def stdio_ops_def mcp_transport_stdio_send_def)

text \<open>
  Responses are not matched with requests: a call takes whatever message is waiting for the answer to its own request,
  whatever id the message has and whatever tool it answers. An answer that comes after its request has timed out is given to the
  next call.
\<close>

theorem stale_answer_taken:
  assumes c: "mc_connected c" "io_running (sw_transport (mc_transport c))"
    and request: "parse params = Some arguments" "mcp_create_request parse print MCP_METHOD_TOOLS_CALL n (call_params print name arguments) = Some request"
      "write_fd request = Some k"
    and stale: "b_data (io_read (sw_transport (mc_transport c))) = stale" "stale \<noteq> []" "parse stale = Some answer"
      "json_string (get_object_item (Some answer) ''jsonrpc'') = Some ''2.0''" "get_object_item (Some answer) ''error'' = None"
  shows "fst (mcp_client_call_tool (stdio_ops write_fd) parse print name (Some params) (c, n)) =
    (no_error, Some (call_result parse print (printed print (get_object_item (Some answer) ''result''))))"
proof -
  let ?c = "c\<lparr>mc_transport := (mc_transport c)\<lparr>sw_sent := sw_sent (mc_transport c) @ [request]\<rparr>\<rparr>"
  have wait: "stdio_wait arrived (sw_transport (mc_transport c)) = sw_transport (mc_transport c)" for arrived
    using stale by (cases arrived) auto
  have "fst (mcp_client_recv (stdio_ops write_fd) (?c, n + 1)) = Some stale"
    using c stale wait by (simp add: mcp_client_recv_def stdio_ops_def mcp_transport_stdio_recv_def Let_def)
  then obtain s' where "mcp_client_recv (stdio_ops write_fd) (?c, n + 1) = (Some stale, s')"
    by (metis prod.collapse)
  then show ?thesis
    using c request stale stdio_send_ok [of c write_fd request k "n + 1"]
    by (simp add: mcp_client_call_tool_def mcp_exchange_def get_next_request_id_def call_params_def mcp_parse_response_def
        printed_def)
qed

text \<open>
  A tool whose answer does not come in time is run a second time: the request is sent again, with a new id, so a tool
  with effects has them twice.
\<close>

theorem timed_out_tool_runs_twice:
  assumes c: "mc_connected c" "io_running (sw_transport (mc_transport c))"
    and request: "parse params = Some arguments"
      "mcp_create_request parse print MCP_METHOD_TOOLS_CALL n (call_params print name arguments) = Some request"
      "mcp_create_request parse print MCP_METHOD_TOOLS_CALL (n + 1) (call_params print name arguments) = Some again"
      "write_fd request = Some k" "write_fd again = Some k'"
    and silent: "b_data (io_read (sw_transport (mc_transport c))) = []" "sw_arrivals (mc_transport c) = [] # arrivals"
  shows "sent_of (snd (mcp_tool_execute (stdio_ops write_fd) parse print name (Some params) (c, n))) =
    sw_sent (mc_transport c) @ [request, again]"
proof -
  let ?c = "c\<lparr>mc_transport := (mc_transport c)\<lparr>sw_sent := sw_sent (mc_transport c) @ [request]\<rparr>\<rparr>"
  let ?d = "c\<lparr>mc_transport := (mc_transport c)\<lparr>sw_sent := sw_sent (mc_transport c) @ [request], sw_arrivals := arrivals\<rparr>\<rparr>"
  have send: "mcp_client_send (stdio_ops write_fd) request (c, n + 1) = (no_error, ?c, n + 1)"
    using stdio_send_ok c request by simp
  have recv: "mcp_client_recv (stdio_ops write_fd) (?c, n + 1) = (None, ?d, n + 1)"
    using c silent by (simp add: mcp_client_recv_def stdio_ops_def mcp_transport_stdio_recv_def)
  have call: "mcp_client_call_tool (stdio_ops write_fd) parse print name (Some params) (c, n) =
      ((error_new ERR_TIMEOUT (Some ''No response from server''), None), ?d, n + 1)"
    using c request send recv by (simp add: mcp_client_call_tool_def mcp_exchange_def get_next_request_id_def call_params_def)
  have retry: "\<not> mcp_needs_reinitialize (error_new ERR_TIMEOUT (Some ''No response from server''))"
    "mcp_can_retry (error_new ERR_TIMEOUT (Some ''No response from server''))"
    by (simp_all add: mcp_needs_reinitialize_def mcp_can_retry_def error_new_def c_trunc_def starts_with_def)
  obtain r s2 where again: "mcp_exchange (stdio_ops write_fd) parse print ''Failed to create request'' ''No response from server''
      MCP_METHOD_TOOLS_CALL (call_params print name arguments) (?d, n + 1) = (r, s2)" by (metis prod.exhaust)
  obtain e s1 where s1: "mcp_client_send (stdio_ops write_fd) again (?d, n + 1 + 1) = (e, s1)" by (metis prod.exhaust)
  have s1': "e = no_error" "sent_of s1 = sw_sent (mc_transport c) @ [request, again]"
    using stdio_send_ok [of ?d write_fd again k' "n + 1 + 1"] c request s1 by auto
  obtain answer s3 where s3: "mcp_client_recv (stdio_ops write_fd) s1 = (answer, s3)" by (metis prod.exhaust)
  have "sent_of s2 = sw_sent (mc_transport c) @ [request, again]"
    using again request s1 s1' s3 stdio_recv [OF s3]
    by (auto simp: mcp_exchange_def get_next_request_id_def split: option.splits sum.splits)
  then have "sent_of (snd (mcp_client_call_tool (stdio_ops write_fd) parse print name (Some params) (?d, n + 1))) =
      sw_sent (mc_transport c) @ [request, again]"
    using c request again by (auto simp: mcp_client_call_tool_def call_params_def split: sum.split)
  then show ?thesis using call retry
    by (auto simp: mcp_tool_execute_def Let_def split: prod.splits if_splits)
qed

section \<open>A server for the witnesses\<close>

definition demo_tools :: json where
  "demo_tools = JObject [(''tools'', JArray [JObject [(''name'', JString ''ls'')]])]"

definition demo_content :: json where
  "demo_content = JObject [(''content'', JString ''files'')]"

definition demo_answer :: "json \<Rightarrow> json" where
  "demo_answer result = JObject [(''jsonrpc'', JString ''2.0''), (''id'', JNumber 1), (''result'', result)]"

definition rpc_parse :: json_parser where
  "rpc_parse s =
     (if s = ''{}'' then Some (JObject [])
      else if s = ''tools'' then Some demo_tools
      else if s = ''content'' then Some demo_content
      else if s = ''hello'' then Some (demo_answer (JObject []))
      else if s = ''listed'' then Some (demo_answer demo_tools)
      else if s = ''called'' then Some (demo_answer demo_content)
      else None)"

definition rpc_print :: json_printer where
  "rpc_print j =
     Some (if j = demo_tools then ''tools'' else if j = demo_content then ''content''
           else case j of JString s \<Rightarrow> s | _ \<Rightarrow> ''message'')"

definition demo_world :: "string \<Rightarrow> string list \<Rightarrow> StdioWorld" where
  "demo_world waiting answers =
     \<lparr>sw_transport = stdio_new\<lparr>io_read := \<lparr>b_data = waiting, b_size = 65536\<rparr>\<rparr>, sw_sent = [],
      sw_arrivals = map (\<lambda>a. if a = [] then [] else [\<lambda>t. t\<lparr>io_read := \<lparr>b_data = a, b_size = 65536\<rparr>\<rparr>]) answers\<rparr>"

definition demo_client :: "StdioWorld \<Rightarrow> StdioWorld MCPClient" where
  "demo_client w =
     \<lparr>mc_server_id = ''s'', mc_transport_type = ''stdio'', mc_command = Some ''srv'', mc_args = [], mc_env = [], mc_headers = [],
      mc_transport = w, mc_connected = True, mc_initialized = False, mc_tools = [], mc_resources = [], mc_prompts = []\<rparr>"

definition write_all :: "string \<Rightarrow> nat option" where
  "write_all s = Some (length s)"

lemmas demo_rpc_defs = demo_tools_def demo_content_def demo_answer_def rpc_parse_def rpc_print_def demo_world_def demo_client_def
  write_all_def stdio_new_def get_object_item_def json_string_def json_array_def json_number_def printed_def starts_with_def

lemma demo_list_tools:
  "fst (mcp_client_list_tools (stdio_ops write_all) rpc_parse rpc_print (demo_client (demo_world [] [''hello'', ''listed'']), 1)) =
     (no_error, [\<lparr>td_name = Some ''ls'', td_description = None, td_input_schema = None\<rparr>])"
  by (simp add: mcp_client_list_tools_def mcp_client_initialize_def mcp_exchange_def get_next_request_id_def mcp_create_request_def
      request_json_def mcp_client_send_def mcp_client_recv_def stdio_ops_def mcp_transport_stdio_send_def
      mcp_transport_stdio_recv_def mcp_parse_response_def initialize_params_def initialized_json_def result_items_def tool_of_json_def
      demo_rpc_defs strcaseeq_def tolower_def isupper_def Let_def)

lemma demo_connected: "mc_connected (demo_client w)" "\<not> mc_initialized (demo_client w)" "mc_transport (demo_client w) = w"
  by (simp_all add: demo_client_def)

theorem handshake_before_tools_witness:
  "\<exists>s'. snd (mcp_client_list_tools (stdio_ops write_all) rpc_parse rpc_print (demo_client (demo_world [] [''hello'', ''listed'']), 1)) = s' \<and>
     length (sent_of s') = 3 \<and> mc_initialized (fst s')"
proof -
  obtain tools s' where x: "mcp_client_list_tools (stdio_ops write_all) rpc_parse rpc_print
      (demo_client (demo_world [] [''hello'', ''listed'']), 1) = ((no_error, tools), s')"
    using demo_list_tools by (metis prod.collapse)
  obtain new where "sent_of s' = new" "length new = 3" "mc_initialized (fst s')"
    using handshake_before_tools [OF x] demo_connected by (auto simp: demo_world_def)
  then show ?thesis using x by simp
qed

lemma demo_request: "mcp_create_request rpc_parse rpc_print method i params = Some ''message''"
  by (simp add: mcp_create_request_def request_json_def rpc_print_def demo_tools_def demo_content_def)

lemma demo_transport:
  "io_running (sw_transport (demo_world waiting answers))" "b_data (io_read (sw_transport (demo_world waiting answers))) = waiting"
  by (simp_all add: demo_world_def stdio_new_def)

theorem stale_answer_taken_witness:
  "fst (mcp_client_call_tool (stdio_ops write_all) rpc_parse rpc_print ''rm'' (Some ''{}'') (demo_client (demo_world ''called'' []), 7)) =
    (no_error, Some ''files'')"
proof -
  have answer: "rpc_parse ''called'' = Some (demo_answer demo_content)" "rpc_parse ''{}'' = Some (JObject [])"
    by (simp_all add: rpc_parse_def)
  have fields: "json_string (get_object_item (Some (demo_answer demo_content)) ''jsonrpc'') = Some ''2.0''"
    "get_object_item (Some (demo_answer demo_content)) ''error'' = None"
    "get_object_item (Some (demo_answer demo_content)) ''result'' = Some demo_content"
    by (simp_all add: demo_answer_def get_object_item_def json_string_def strcaseeq_def tolower_def isupper_def)
  have result: "call_result rpc_parse rpc_print (printed rpc_print (Some demo_content)) = ''files''"
    by (simp add: call_result_def demo_rpc_defs strcaseeq_def tolower_def isupper_def)
  show ?thesis
    using stale_answer_taken [of "demo_client (demo_world ''called'' [])" rpc_parse "''{}''" "JObject []" rpc_print 7 "''rm''" "''message''"
        write_all 7 "''called''" "demo_answer demo_content"] answer fields result
    by (simp add: demo_connected demo_transport demo_request write_all_def)
qed

theorem timed_out_tool_runs_twice_witness:
  "sent_of (snd (mcp_tool_execute (stdio_ops write_all) rpc_parse rpc_print ''rm'' (Some ''{}'')
     (demo_client (demo_world [] [[], ''called'']), 7))) = [''message'', ''message'']"
proof -
  have "rpc_parse ''{}'' = Some (JObject [])" by (simp add: rpc_parse_def)
  then show ?thesis
    using timed_out_tool_runs_twice [of "demo_client (demo_world [] [[], ''called''])" rpc_parse "''{}''" "JObject []" rpc_print 7 "''rm''"
        "''message''" "''message''" write_all 7 7 "[[\<lambda>t. t\<lparr>io_read := \<lparr>b_data = ''called'', b_size = 65536\<rparr>\<rparr>]]"]
    by (simp add: demo_connected demo_request demo_transport) (simp add: demo_world_def write_all_def)
qed

section \<open>The clients of the manager\<close>

datatype McpAdmin = AddServer json | RemoveServer string

definition mcp_admin :: "(nat \<Rightarrow> bool) \<Rightarrow> 't \<Rightarrow> McpAdmin \<Rightarrow> 't MCPManager \<Rightarrow> 't MCPManager" where
  "mcp_admin ok tr op mgr =
     (case op of AddServer server_item \<Rightarrow> mcp_add_server ok tr server_item mgr
               | RemoveServer server_id \<Rightarrow> mcp_manager_remove_client server_id mgr)"

definition manager_ok :: "'t MCPManager \<Rightarrow> bool" where
  "manager_ok mgr \<longleftrightarrow>
     distinct (map mc_server_id (mm_clients mgr)) \<and> length (mm_clients mgr) \<le> mm_capacity mgr \<and>
     list_all (\<lambda>c. mc_server_id c \<noteq> []) (mm_clients mgr)"

lemma add_client_ok: "manager_ok mgr \<Longrightarrow> server_id \<noteq> [] \<Longrightarrow>
  manager_ok (snd (mcp_manager_add_client ok tr server_id transport command args env headers mgr))"
  by (auto simp: mcp_manager_add_client_def manager_ok_def Let_def)

lemma length_remove_first: "length (remove_first P xs) \<le> length xs"
  by (induction xs) auto

lemma admin_ok: "manager_ok mgr \<Longrightarrow> manager_ok (mcp_admin ok tr op mgr)"
proof (cases op)
  case (AddServer server_item)
  assume "manager_ok mgr"
  then show ?thesis using AddServer
    by (auto simp: mcp_admin_def mcp_add_server_def Let_def intro!: add_client_ok split: option.split)
next
  case (RemoveServer server_id)
  assume ok: "manager_ok mgr"
  let ?rest = "remove_first (\<lambda>c. mc_server_id c = server_id) (mm_clients mgr)"
  have "distinct (map mc_server_id ?rest)" using ok by (intro distinct_map_remove_first) (simp add: manager_ok_def)
  moreover have "length (mm_clients mgr) \<le> mm_capacity mgr" using ok by (simp add: manager_ok_def)
  then have "length ?rest \<le> mm_capacity mgr" by (rule le_trans [OF length_remove_first])
  moreover have "list_all (\<lambda>c. mc_server_id c \<noteq> []) ?rest"
    using ok set_remove_first_subset [of _ "mm_clients mgr"] unfolding manager_ok_def list_all_iff by blast
  ultimately show ?thesis using RemoveServer by (simp add: mcp_admin_def mcp_manager_remove_client_def manager_ok_def)
qed

lemma find_unique: "distinct (map f xs) \<Longrightarrow> x \<in> set xs \<Longrightarrow> find (\<lambda>y. f y = f x) xs = Some x"
  by (induction xs) auto

text \<open>
  Whatever servers are configured and removed, the clients of the manager have different, nonempty ids, fit into its
  array, and each is the one that a lookup of its id returns.
\<close>

theorem manager_ids_unique:
  "let mgr = fold (mcp_admin ok tr) ops mcp_manager_create
   in manager_ok mgr \<and> list_all (\<lambda>c. mcp_manager_get_client (mc_server_id c) mgr = Some c) (mm_clients mgr)"
proof -
  have "manager_ok (fold (mcp_admin ok tr) ops mgr)" if "manager_ok mgr" for mgr
    using that by (induction ops arbitrary: mgr) (auto simp: admin_ok)
  moreover have "manager_ok mcp_manager_create" by (simp add: manager_ok_def mcp_manager_create_def)
  ultimately show ?thesis
    by (auto simp: Let_def manager_ok_def list_all_iff mcp_manager_get_client_def find_unique)
qed

end
