(* ===== verification/McpWebSocket.thy ===== *)
theory McpWebSocket
  imports McpClient
begin

text \<open>
  \<open>plugins/tools/mcp_tools/transport_websocket.c\<close>: messages of an MCP server over a websocket. The network library reports events
  to the handler while the polling thread runs, and frees the connection after the event of its closing; \<open>wt_alive\<close> says
  that it exists, \<open>wt_fault\<close> that a freed one was used. The buffer of messages is the queue of \<open>McpQueue\<close>, which is the same code.
  The library is taken to accept every frame; memory is taken to be available. A transport that is gone is \<open>None\<close>.
\<close>

section \<open>The transport\<close>

record MCPWebSocketTransport =
  wt_alive :: bool
  wt_running :: bool
  wt_ws_open :: bool
  wt_connect_failed :: bool
  wt_error_message :: "string option"
  wt_read :: Buf
  wt_frames :: "string list"
  wt_fault :: bool

datatype WsEvent = WsOpen | WsMsg string | WsError "string option" | WsClose

definition ws_buffer_append :: "string \<Rightarrow> MCPWebSocketTransport \<Rightarrow> MCPWebSocketTransport" where
  "ws_buffer_append msg t = t\<lparr>wt_read := queue_append (\<lambda>_. True) msg (wt_read t)\<rparr>"

definition ws_buffer_pop :: "MCPWebSocketTransport \<Rightarrow> string option \<times> MCPWebSocketTransport" where
  "ws_buffer_pop t = (case queue_pop True (wt_read t) of (m, b) \<Rightarrow> (m, t\<lparr>wt_read := b\<rparr>))"

text \<open>The text of a received frame ends at its first zero byte.\<close>

definition mcp_websocket_event_handler :: "json_parser \<Rightarrow> json_printer \<Rightarrow> WsEvent \<Rightarrow> MCPWebSocketTransport \<Rightarrow> MCPWebSocketTransport" where
  "mcp_websocket_event_handler parse print ev t =
     (case ev of
        WsOpen \<Rightarrow> t\<lparr>wt_ws_open := True\<rparr>
      | WsMsg data \<Rightarrow>
          if data = [] then t
          else (let msg = takeWhile (\<lambda>c. c \<noteq> CHR 0x00) data
                in case parse msg of
                     None \<Rightarrow> t
                   | Some parsed \<Rightarrow> ws_buffer_append (case print parsed of Some short \<Rightarrow> short | None \<Rightarrow> msg) t)
      | WsError err \<Rightarrow>
          t\<lparr>wt_connect_failed := True,
            wt_error_message := Some (case err of Some e \<Rightarrow> e | None \<Rightarrow> ''WebSocket connection error'')\<rparr>
      | WsClose \<Rightarrow> t\<lparr>wt_running := False\<rparr>)"

text \<open>What the polling thread lets happen: nothing once it has stopped, and after the closing the connection is gone.\<close>

definition ws_poll :: "json_parser \<Rightarrow> json_printer \<Rightarrow> WsEvent \<Rightarrow> MCPWebSocketTransport \<Rightarrow> MCPWebSocketTransport" where
  "ws_poll parse print ev t =
     (if \<not> wt_running t \<or> \<not> wt_alive t then t
      else (let t = mcp_websocket_event_handler parse print ev t in if ev = WsClose then t\<lparr>wt_alive := False\<rparr> else t))"

definition mcp_transport_websocket_close :: "MCPWebSocketTransport \<Rightarrow> MCPWebSocketTransport" where
  "mcp_transport_websocket_close t =
     (let t = t\<lparr>wt_running := False\<rparr> in if wt_alive t then t else t\<lparr>wt_fault := True\<rparr>)"

definition ws_transport_new :: MCPWebSocketTransport where
  "ws_transport_new =
     \<lparr>wt_alive = True, wt_running = True, wt_ws_open = False, wt_connect_failed = False, wt_error_message = None, wt_read = buf_new,
      wt_frames = [], wt_fault = False\<rparr>"

text \<open>The wait for the handshake; the list ends when its time is over.\<close>

fun ws_wait_open :: "json_parser \<Rightarrow> json_printer \<Rightarrow> WsEvent list \<Rightarrow> MCPWebSocketTransport \<Rightarrow> MCPWebSocketTransport" where
  "ws_wait_open parse print [] t = t"
| "ws_wait_open parse print (ev # evs) t =
     (if \<not> wt_ws_open t \<and> \<not> wt_connect_failed t \<and> wt_running t then ws_wait_open parse print evs (ws_poll parse print ev t) else t)"

text \<open>The error, the transport of the client, and whether a freed connection was used; the flags are \<open>mg_ws_connect\<close> and the thread.\<close>

definition mcp_transport_websocket_init ::
  "json_parser \<Rightarrow> json_printer \<Rightarrow> string option \<Rightarrow> bool \<Rightarrow> bool \<Rightarrow> WsEvent list \<Rightarrow> Error \<times> MCPWebSocketTransport option \<times> bool" where
  "mcp_transport_websocket_init parse print command connect_ok thread_ok evs =
     (if command = None \<or> command = Some [] then (error_new ERR_INVALID_PARAM (Some ''Invalid websocket URL''), None, False)
      else if \<not> connect_ok then (error_new ERR_CONNECTION (Some ''Failed to create websocket connection''), None, False)
      else if \<not> thread_ok then (error_new ERR_CONNECTION (Some ''Failed to start websocket poll thread''), None, False)
      else (let t = ws_wait_open parse print evs ws_transport_new
            in if wt_ws_open t \<and> \<not> wt_connect_failed t then (no_error, Some t, False)
               else (case wt_error_message t of
                       Some e \<Rightarrow> error_new ERR_CONNECTION (Some e)
                     | None \<Rightarrow> error_new ERR_TIMEOUT (Some ''WebSocket handshake timeout''),
                     None, wt_fault (mcp_transport_websocket_close t))))"

definition mcp_transport_websocket_send :: "string \<Rightarrow> MCPWebSocketTransport \<Rightarrow> Error \<times> MCPWebSocketTransport" where
  "mcp_transport_websocket_send data t =
     (if \<not> (wt_running t \<and> wt_ws_open t) then (error_new ERR_CONNECTION (Some ''WebSocket transport not connected''), t)
      else if \<not> wt_alive t then (no_error, t\<lparr>wt_fault := True\<rparr>)
      else (no_error, t\<lparr>wt_frames := wt_frames t @ [data]\<rparr>))"

text \<open>\<open>evs\<close> is what arrives until the time of the wait is over.\<close>

fun mcp_transport_websocket_recv ::
  "json_parser \<Rightarrow> json_printer \<Rightarrow> WsEvent list \<Rightarrow> MCPWebSocketTransport \<Rightarrow> string option \<times> MCPWebSocketTransport" where
  "mcp_transport_websocket_recv parse print [] t = ws_buffer_pop t"
| "mcp_transport_websocket_recv parse print (ev # evs) t =
     (if b_data (wt_read t) = [] \<and> wt_running t then mcp_transport_websocket_recv parse print evs (ws_poll parse print ev t)
      else ws_buffer_pop t)"

section \<open>A client over a websocket\<close>

record WsWorld =
  ww_transport :: MCPWebSocketTransport
  ww_arrivals :: "WsEvent list list"

definition ws_ops :: "json_parser \<Rightarrow> json_printer \<Rightarrow> WsWorld MCPTransportOps" where
  "ws_ops parse print =
     \<lparr>op_send = (\<lambda>m w. case mcp_transport_websocket_send m (ww_transport w) of (err, t) \<Rightarrow> (err, w\<lparr>ww_transport := t\<rparr>)),
      op_recv = (\<lambda>w. case mcp_transport_websocket_recv parse print (case ww_arrivals w of [] \<Rightarrow> [] | a # _ \<Rightarrow> a) (ww_transport w) of
                   (m, t) \<Rightarrow> (m, w\<lparr>ww_transport := t, ww_arrivals := tl (ww_arrivals w)\<rparr>))\<rparr>"

lemma poll_frames: "wt_frames (ws_poll parse print ev t) = wt_frames t"
  by (auto simp: ws_poll_def mcp_websocket_event_handler_def ws_buffer_append_def Let_def split: WsEvent.split option.split)

lemma recv_frames: "wt_frames (snd (mcp_transport_websocket_recv parse print evs t)) = wt_frames t"
  by (induction parse print evs t rule: mcp_transport_websocket_recv.induct)
    (auto simp: ws_buffer_pop_def poll_frames split: prod.split)

interpretation websocket: mcp_channel "ws_ops parse print" "\<lambda>w. wt_frames (ww_transport w)" for parse print
proof
  fix m t e t'
  assume "op_send (ws_ops parse print) m t = (e, t')"
  then have "t' = t \<or> wt_frames (ww_transport t') = wt_frames (ww_transport t) \<or> wt_frames (ww_transport t') = wt_frames (ww_transport t) @ [m]"
    by (auto simp: ws_ops_def mcp_transport_websocket_send_def split: prod.splits if_splits)
  then show "\<exists>k. wt_frames (ww_transport t') = wt_frames (ww_transport t) @ replicate k m"
    by (auto intro: exI [of _ 0] exI [of _ 1])
next
  fix t r t'
  assume "op_recv (ws_ops parse print) t = (r, t')"
  then show "wt_frames (ww_transport t') = wt_frames (ww_transport t)"
    using recv_frames [of parse print _ "ww_transport t"] by (auto simp: ws_ops_def split: prod.splits) (metis snd_conv)
qed

text \<open>
  Claim C28. Everything a client sends, in any sequence of its operations and over each of the four transports, is a JSON-RPC request with one of the known methods, or the
  notification that ends the handshake; a message may be sent more than once, one copy after the other (the retries of the transports), but each
  request has an id of its own: the ids are drawn from the counter in strictly increasing order, from its value before the operations to that
  after them. (JSON writes them as numbers of 53 bits.)
\<close>

theorem mcp_messages_well_formed:
  "(let s' = fold (mcp_call (stdio_ops write_fd) parse print) calls (client, n)
    in \<exists>new. sw_sent (mc_transport (fst s')) = sw_sent (mc_transport client) @ new \<and> rpc_log print n (snd s') new) \<and>
   (let s' = fold (mcp_call (sse_ops ok parse print net command first_arg) parse print) calls (client', n)
    in \<exists>new. map rq_data (ew_requests (mc_transport (fst s'))) = map rq_data (ew_requests (mc_transport client')) @ new \<and>
         rpc_log print n (snd s') new) \<and>
   (let s' = fold (mcp_call (http_ops ok parse print net command first_arg) parse print) calls (client'', n)
    in \<exists>new. map rq_data (hw_requests (mc_transport (fst s'))) = map rq_data (hw_requests (mc_transport client'')) @ new \<and>
         rpc_log print n (snd s') new) \<and>
   (let s' = fold (mcp_call (ws_ops parse print) parse print) calls (client''', n)
    in \<exists>new. wt_frames (ww_transport (mc_transport (fst s'))) = wt_frames (ww_transport (mc_transport client''')) @ new \<and>
         rpc_log print n (snd s') new)"
  using stdio.calls_ok [of print "(client, n)" write_fd parse calls]
    sse.calls_ok [of print "(client', n)" ok parse print net command first_arg parse calls]
    http.calls_ok [of print "(client'', n)" ok parse print net command first_arg parse calls]
    websocket.calls_ok [of print "(client''', n)" parse print parse calls]
  by (simp add: sends_ok_def Let_def)

section \<open>Messages in order\<close>

text \<open>The operations on an open transport: an event, or the taking of a message, which is what \<open>recv\<close> ends with.\<close>

datatype WsOp = Arrives WsEvent | Taken

definition ws_step :: "json_parser \<Rightarrow> json_printer \<Rightarrow> WsOp \<Rightarrow> string list \<times> MCPWebSocketTransport \<Rightarrow> string list \<times> MCPWebSocketTransport" where
  "ws_step parse print op s =
     (case s of (taken, t) \<Rightarrow>
        (case op of
           Arrives ev \<Rightarrow> (taken, ws_poll parse print ev t)
         | Taken \<Rightarrow> (case ws_buffer_pop t of (None, t) \<Rightarrow> (taken, t) | (Some m, t) \<Rightarrow> (taken @ [m], t))))"

text \<open>The messages of the events before the connection closes.\<close>

fun ws_messages :: "json_parser \<Rightarrow> json_printer \<Rightarrow> WsOp list \<Rightarrow> string list" where
  "ws_messages parse print [] = []"
| "ws_messages parse print (Arrives WsClose # ops) = []"
| "ws_messages parse print (Arrives (WsMsg data) # ops) =
     (case (if data = [] then None else parse (takeWhile (\<lambda>c. c \<noteq> CHR 0x00) data)) of
        None \<Rightarrow> [] | Some j \<Rightarrow> [the (print j)]) @ ws_messages parse print ops"
| "ws_messages parse print (op # ops) = ws_messages parse print ops"

lemma closed_poll: "\<not> wt_running t \<Longrightarrow> ws_poll parse print ev t = t"
  by (simp add: ws_poll_def)

lemma pop_view:
  assumes "queue_rel (wt_read t) pending"
  shows "case pending of [] \<Rightarrow> ws_buffer_pop t = (None, t)
         | m # ms \<Rightarrow> fst (ws_buffer_pop t) = Some m \<and> queue_rel (wt_read (snd (ws_buffer_pop t))) ms \<and>
             wt_running (snd (ws_buffer_pop t)) = wt_running t \<and> wt_alive (snd (ws_buffer_pop t)) = wt_alive t"
  using queue_rel_pop [OF assms] by (cases pending) (auto simp: ws_buffer_pop_def split: prod.splits)

lemma closed_steps:
  assumes "queue_rel (wt_read t) pending" "\<not> wt_running t"
  shows "\<exists>rest. fst (fold (ws_step parse print) ops (taken, t)) @ rest = taken @ pending \<and>
    queue_rel (wt_read (snd (fold (ws_step parse print) ops (taken, t)))) rest"
  using assms
proof (induction ops arbitrary: taken t pending)
  case (Cons op ops)
  show ?case
  proof (cases op)
    case (Arrives ev)
    then show ?thesis using Cons by (simp add: ws_step_def closed_poll)
  next
    case Taken
    show ?thesis
    proof (cases pending)
      case Nil
      then have "ws_buffer_pop t = (None, t)" using pop_view [OF Cons.prems(1)] by simp
      then show ?thesis using Cons Taken by (simp add: ws_step_def)
    next
      case (Cons m ms)
      obtain t' where t': "ws_buffer_pop t = (Some m, t')" "queue_rel (wt_read t') ms" "\<not> wt_running t'"
        using pop_view [OF Cons.prems(1)] Cons Cons.prems(2) by (cases "ws_buffer_pop t") auto
      then show ?thesis using Cons.IH [OF t'(2,3), of "taken @ [m]"] Taken Cons by (simp add: ws_step_def)
    qed
  qed
qed auto

lemma append_view:
  assumes "printer_ok print" "queue_rel (wt_read t) pending"
  shows "queue_rel (wt_read (ws_buffer_append (case print j of Some s \<Rightarrow> s | None \<Rightarrow> d) t)) (pending @ [the (print j)])"
proof -
  obtain s where "print j = Some s" "message_ok s" using assms(1) by (auto simp: printer_ok_def message_ok_def)
  then show ?thesis using queue_rel_append [OF _ assms(2)] by (simp add: ws_buffer_append_def)
qed

lemma open_steps:
  assumes "printer_ok print" "queue_rel (wt_read t) pending" "wt_running t" "wt_alive t"
  shows "\<exists>rest. fst (fold (ws_step parse print) ops (taken, t)) @ rest = taken @ pending @ ws_messages parse print ops \<and>
    queue_rel (wt_read (snd (fold (ws_step parse print) ops (taken, t)))) rest"
  using assms(2-)
proof (induction ops arbitrary: taken t pending)
  case (Cons op ops)
  have step: ?case
    if "ws_step parse print op (taken, t) = (taken', t')" "queue_rel (wt_read t') pending'" "wt_running t'" "wt_alive t'"
      "taken' @ pending' @ ws_messages parse print ops = taken @ pending @ ws_messages parse print (op # ops)" for taken' t' pending'
    using Cons.IH [OF that(2-4), of taken'] that(1,5) by simp
  show ?case
  proof (cases op)
    case (Arrives ev)
    show ?thesis
    proof (cases ev)
      case WsOpen
      show ?thesis by (rule step [of taken "t\<lparr>wt_ws_open := True\<rparr>" pending])
        (use Cons.prems Arrives WsOpen in \<open>simp_all add: ws_step_def ws_poll_def mcp_websocket_event_handler_def\<close>)
    next
      case (WsError e)
      show ?thesis by (rule step [of taken "ws_poll parse print ev t" pending])
        (use Cons.prems Arrives WsError in \<open>simp_all add: ws_step_def ws_poll_def mcp_websocket_event_handler_def\<close>)
    next
      case WsClose
      then have c: "ws_step parse print op (taken, t) = (taken, t\<lparr>wt_running := False, wt_alive := False\<rparr>)"
        using Cons.prems Arrives by (simp add: ws_step_def ws_poll_def mcp_websocket_event_handler_def)
      show ?thesis
        using closed_steps [of "t\<lparr>wt_running := False, wt_alive := False\<rparr>" pending parse print ops taken] Cons.prems(1) c Arrives WsClose by simp
    next
      case (WsMsg data)
      let ?p = "if data = [] then None else parse (takeWhile (\<lambda>c. c \<noteq> CHR 0x00) data)"
      show ?thesis
      proof (cases ?p)
        case None
        then have "ws_poll parse print ev t = t"
          using WsMsg by (auto simp: ws_poll_def mcp_websocket_event_handler_def Let_def split: if_splits)
        then show ?thesis by (intro step [of taken t pending]) (use Cons.prems Arrives WsMsg None in \<open>simp_all add: ws_step_def\<close>)
      next
        case (Some j)
        let ?t = "ws_buffer_append (case print j of Some s \<Rightarrow> s | None \<Rightarrow> takeWhile (\<lambda>c. c \<noteq> CHR 0x00) data) t"
        have "ws_poll parse print ev t = ?t"
          using WsMsg Some Cons.prems by (auto simp: ws_poll_def mcp_websocket_event_handler_def Let_def split: if_splits)
        moreover have "wt_running ?t = wt_running t" "wt_alive ?t = wt_alive t" by (simp_all add: ws_buffer_append_def)
        ultimately show ?thesis
          by (intro step [of taken ?t "pending @ [the (print j)]"])
            (use Cons.prems Arrives WsMsg Some append_view [OF assms(1) Cons.prems(1)] in \<open>simp_all add: ws_step_def\<close>)
      qed
    qed
  next
    case Taken
    show ?thesis
    proof (cases pending)
      case Nil
      then have "ws_buffer_pop t = (None, t)" using pop_view [OF Cons.prems(1)] by simp
      then show ?thesis by (intro step [of taken t pending]) (use Cons.prems Taken in \<open>simp_all add: ws_step_def\<close>)
    next
      case (Cons m ms)
      obtain t' where t': "ws_buffer_pop t = (Some m, t')" "queue_rel (wt_read t') ms" "wt_running t'" "wt_alive t'"
        using pop_view [OF Cons.prems(1)] Cons Cons.prems(2,3) by (cases "ws_buffer_pop t") auto
      show ?thesis by (rule step [of "taken @ [m]" t' ms]) (use t' Taken Cons in \<open>simp_all add: ws_step_def\<close>)
    qed
  qed
qed auto

text \<open>
  Over a websocket, too, every message arrives once and in order, and those that wait when the connection closes can still be taken.
\<close>

lemma websocket_delivers:
  assumes "printer_ok print" "fold (ws_step parse print) ops ([], ws_transport_new) = (taken, t)"
  shows "\<exists>pending. taken @ pending = ws_messages parse print ops \<and> b_data (wt_read t) = join_lines pending"
  using open_steps [OF assms(1), of ws_transport_new "[]" parse ops "[]"] assms(2) by (auto simp: ws_transport_new_def queue_rel_def buf_new_def)

section \<open>Closing\<close>

lemma poll_alive:
  "wt_running t = wt_alive t \<Longrightarrow> wt_running (ws_poll parse print ev t) = (wt_running t \<and> ev \<noteq> WsClose) \<and>
     wt_alive (ws_poll parse print ev t) = (wt_alive t \<and> ev \<noteq> WsClose) \<and> wt_fault (ws_poll parse print ev t) = wt_fault t"
  by (auto simp: ws_poll_def mcp_websocket_event_handler_def ws_buffer_append_def Let_def split: WsEvent.split option.split)

lemma polls_alive:
  "wt_running t = wt_alive t \<Longrightarrow> wt_running (fold (ws_poll parse print) evs t) = (wt_running t \<and> WsClose \<notin> set evs) \<and>
     wt_alive (fold (ws_poll parse print) evs t) = (wt_alive t \<and> WsClose \<notin> set evs) \<and>
     wt_fault (fold (ws_poll parse print) evs t) = wt_fault t"
  by (induction evs arbitrary: t) (auto simp: poll_alive)

text \<open>
  Disconnecting from a server uses the connection after it was freed exactly when the server has closed it before: the
  transport forgets that it is running, not where its connection was, and closing sends one more frame through it. Sending, in
  contrast, never does.
\<close>
theorem disconnect_uses_freed_iff_closed:
  "(wt_fault (mcp_transport_websocket_close (fold (ws_poll parse print) evs ws_transport_new)) \<longleftrightarrow> WsClose \<in> set evs) \<and>
   \<not> wt_fault (snd (mcp_transport_websocket_send data (fold (ws_poll parse print) evs ws_transport_new)))"
proof -
  let ?t = "fold (ws_poll parse print) evs ws_transport_new"
  have "wt_running ?t = (WsClose \<notin> set evs)" "wt_alive ?t = (WsClose \<notin> set evs)" "\<not> wt_fault ?t"
    using polls_alive [of ws_transport_new parse print evs] by (simp_all add: ws_transport_new_def)
  then show ?thesis by (auto simp: mcp_transport_websocket_close_def mcp_transport_websocket_send_def Let_def)
qed

text \<open>A handshake that the server ends by closing is reported as a timeout.\<close>

lemma closed_handshake_is_timeout:
  "mcp_transport_websocket_init parse print (Some ''ws://h'') True True [WsClose] =
     (error_new ERR_TIMEOUT (Some ''WebSocket handshake timeout''), None, True)"
  by (simp add: mcp_transport_websocket_init_def ws_poll_def mcp_websocket_event_handler_def ws_transport_new_def
      mcp_transport_websocket_close_def Let_def)

end
