(* ===== verification/LlmProvider.thy ===== *)
theory LlmProvider
  imports Common "HOL-Library.Multiset"
begin

text \<open>
  \<open>providers/llm_provider.c\<close>: the registry of model providers. A provider is known by its address; the registry keeps addresses of
  providers that others have allocated, one of them active. What is shut down and freed is part of the result, so that a pointer
  to freed memory would be seen. Every operation holds the lock and is one step.
\<close>

section \<open>The registry\<close>

record LLMProvider =
  lp_addr :: nat
  lp_name :: string
  lp_plugin_ref :: "nat option"
  lp_initialized :: bool
  lp_has_shutdown :: bool

record LLMProviderRegistry =
  lr_providers :: "LLMProvider list"
  lr_capacity :: nat
  lr_active :: "nat option"

datatype ProviderEvent = ShutDown nat | Freed nat

definition llm_provider_registry_new :: LLMProviderRegistry where
  "llm_provider_registry_new = \<lparr>lr_providers = [], lr_capacity = 8, lr_active = None\<rparr>"

text \<open>\<open>shutdown\<close>, when the provider was initialized and has one, and \<open>llm_provider_free\<close>.\<close>

definition release_provider :: "LLMProvider \<Rightarrow> ProviderEvent list" where
  "release_provider p = (if lp_initialized p \<and> lp_has_shutdown p then [ShutDown (lp_addr p)] else []) @ [Freed (lp_addr p)]"

definition llm_provider_registry_find :: "string \<Rightarrow> LLMProviderRegistry \<Rightarrow> LLMProvider option" where
  "llm_provider_registry_find name reg = find (\<lambda>p. lp_name p = name) (lr_providers reg)"

definition llm_provider_registry_register ::
  "(nat \<Rightarrow> bool) \<Rightarrow> LLMProvider \<Rightarrow> LLMProviderRegistry \<Rightarrow> int \<times> ProviderEvent list \<times> LLMProviderRegistry" where
  "llm_provider_registry_register ok provider reg =
     (case llm_provider_registry_find (lp_name provider) reg of
        Some _ \<Rightarrow> (0, release_provider provider, reg)
      | None \<Rightarrow>
          (let full = length (lr_providers reg) \<ge> lr_capacity reg; new_cap = lr_capacity reg * 2
           in if full \<and> \<not> ok new_cap then (- 1, [], reg)
              else (0, [], reg\<lparr>lr_capacity := (if full then new_cap else lr_capacity reg),
                                lr_providers := lr_providers reg @ [provider]\<rparr>)))"

text \<open>
  The loop of \<open>llm_provider_registry_unregister_by_plugin\<close>: the providers kept and those removed. The array of the removed ones
  grows from 4; when it cannot, the provider is kept.
\<close>

fun unregister_loop ::
  "(nat \<Rightarrow> bool) \<Rightarrow> nat \<Rightarrow> LLMProvider list \<Rightarrow> nat \<Rightarrow> LLMProvider list \<Rightarrow> LLMProvider list \<times> LLMProvider list" where
  "unregister_loop ok plugin_ref removed removed_cap [] = ([], removed)"
| "unregister_loop ok plugin_ref removed removed_cap (p # ps) =
     (if lp_plugin_ref p = Some plugin_ref
      then (let new_cap = (if length removed \<ge> removed_cap then (if removed_cap = 0 then 4 else removed_cap * 2) else removed_cap)
            in if length removed \<ge> removed_cap \<and> \<not> ok new_cap
               then (case unregister_loop ok plugin_ref removed removed_cap ps of (kept, removed) \<Rightarrow> (p # kept, removed))
               else unregister_loop ok plugin_ref (removed @ [p]) new_cap ps)
      else (case unregister_loop ok plugin_ref removed removed_cap ps of (kept, removed) \<Rightarrow> (p # kept, removed)))"

definition llm_provider_registry_unregister_by_plugin ::
  "(nat \<Rightarrow> bool) \<Rightarrow> nat \<Rightarrow> LLMProviderRegistry \<Rightarrow> nat \<times> ProviderEvent list \<times> LLMProviderRegistry" where
  "llm_provider_registry_unregister_by_plugin ok plugin_ref reg =
     (case unregister_loop ok plugin_ref [] 0 (lr_providers reg) of (kept, removed) \<Rightarrow>
        (length removed, concat (map release_provider removed),
         reg\<lparr>lr_providers := kept,
             lr_active := (if lr_active reg \<in> Some ` lp_addr ` set removed then None else lr_active reg)\<rparr>))"

definition llm_provider_registry_set_active :: "string \<Rightarrow> LLMProviderRegistry \<Rightarrow> int \<times> LLMProviderRegistry" where
  "llm_provider_registry_set_active name reg =
     (case llm_provider_registry_find name reg of
        None \<Rightarrow> (- 1, reg)
      | Some p \<Rightarrow> (0, reg\<lparr>lr_active := Some (lp_addr p)\<rparr>))"

definition llm_provider_registry_get_active :: "LLMProviderRegistry \<Rightarrow> nat option" where
  "llm_provider_registry_get_active reg = lr_active reg"

definition llm_provider_registry_free :: "LLMProviderRegistry \<Rightarrow> ProviderEvent list" where
  "llm_provider_registry_free reg = concat (map release_provider (lr_providers reg))"

text \<open>The global registry starts with the provider \<open>openai\<close>, which is active.\<close>

definition llm_provider_registry_init_once :: "nat \<Rightarrow> bool \<Rightarrow> LLMProviderRegistry" where
  "llm_provider_registry_init_once addr init_ok =
     (if init_ok
      then snd (llm_provider_registry_set_active ''openai''
             (snd (snd (llm_provider_registry_register (\<lambda>_. True)
                \<lparr>lp_addr = addr, lp_name = ''openai'', lp_plugin_ref = None, lp_initialized = True, lp_has_shutdown = True\<rparr>
                llm_provider_registry_new))))
      else llm_provider_registry_new)"

section \<open>Names are unique and nothing freed stays\<close>

datatype RegistryOp = Register LLMProvider | Unregister nat | SetActive string

text \<open>The registry, the addresses allocated so far and the addresses freed, in order.\<close>

type_synonym registry_run = "LLMProviderRegistry \<times> nat list \<times> nat list"

definition freed_addrs :: "ProviderEvent list \<Rightarrow> nat list" where
  "freed_addrs evs = concat (map (\<lambda>e. case e of Freed a \<Rightarrow> [a] | ShutDown _ \<Rightarrow> []) evs)"

text \<open>A provider that is registered comes fresh from \<open>llm_provider_new\<close>: its address is not in use.\<close>

definition registry_op :: "(nat \<Rightarrow> bool) \<Rightarrow> RegistryOp \<Rightarrow> registry_run \<Rightarrow> registry_run" where
  "registry_op ok op r =
     (case r of (reg, allocated, freed) \<Rightarrow>
        (case op of
           Register p \<Rightarrow>
             (if lp_addr p \<in> set allocated then r
              else (case llm_provider_registry_register ok p reg of (_, evs, reg) \<Rightarrow>
                      (reg, allocated @ [lp_addr p], freed @ freed_addrs evs)))
         | Unregister plugin_ref \<Rightarrow>
             (case llm_provider_registry_unregister_by_plugin ok plugin_ref reg of (_, evs, reg) \<Rightarrow>
                (reg, allocated, freed @ freed_addrs evs))
         | SetActive name \<Rightarrow> (snd (llm_provider_registry_set_active name reg), allocated, freed)))"

definition registry_ok :: "registry_run \<Rightarrow> bool" where
  "registry_ok r \<longleftrightarrow>
     (case r of (reg, allocated, freed) \<Rightarrow>
        distinct (map lp_name (lr_providers reg)) \<and> distinct (map lp_addr (lr_providers reg) @ freed) \<and>
        set (map lp_addr (lr_providers reg) @ freed) \<subseteq> set allocated \<and> length (lr_providers reg) \<le> lr_capacity reg \<and> 0 < lr_capacity reg \<and>
        (case lr_active reg of None \<Rightarrow> True | Some a \<Rightarrow> a \<in> lp_addr ` set (lr_providers reg)))"

lemma freed_release [simp]: "freed_addrs (release_provider p) = [lp_addr p]"
  by (simp add: freed_addrs_def release_provider_def)

lemma freed_releases [simp]: "freed_addrs (concat (map release_provider ps)) = map lp_addr ps"
  by (induction ps) (auto simp: freed_addrs_def release_provider_def)

lemma unregister_loop_mset:
  "unregister_loop ok plugin_ref removed cap ps = (kept, removed') \<Longrightarrow>
   \<exists>new. removed' = removed @ new \<and> mset (kept @ new) = mset ps \<and> list_all (\<lambda>p. lp_plugin_ref p = Some plugin_ref) new"
proof (induction ps arbitrary: removed cap kept removed')
  case (Cons p ps)
  let ?cap = "if length removed \<ge> cap then (if cap = 0 then 4 else cap * 2) else cap"
  show ?case
  proof (cases "lp_plugin_ref p = Some plugin_ref \<and> \<not> (length removed \<ge> cap \<and> \<not> ok ?cap)")
    case True
    then have "unregister_loop ok plugin_ref (removed @ [p]) ?cap ps = (kept, removed')"
      using Cons.prems by (auto simp: Let_def split: if_splits)
    from Cons.IH [OF this] obtain new where "removed' = (removed @ [p]) @ new" "mset (kept @ new) = mset ps"
        "list_all (\<lambda>p. lp_plugin_ref p = Some plugin_ref) new" by blast
    then show ?thesis using True by (intro exI [of _ "p # new"]) simp
  next
    case False
    obtain kept' where k: "unregister_loop ok plugin_ref removed cap ps = (kept', removed')" "kept = p # kept'"
      using Cons.prems False by (cases "unregister_loop ok plugin_ref removed cap ps") (auto simp: Let_def split: if_splits)
    from Cons.IH [OF k(1)] k(2) show ?thesis by auto
  qed
qed simp

lemma registry_register:
  assumes ok: "registry_ok (reg, allocated, freed)" and new: "lp_addr p \<notin> set allocated"
    and r: "llm_provider_registry_register a p reg = (v, evs, reg')"
  shows "registry_ok (reg', allocated @ [lp_addr p], freed @ freed_addrs evs)"
proof (cases "llm_provider_registry_find (lp_name p) reg")
  case None
  then have name: "lp_name p \<notin> lp_name ` set (lr_providers reg)"
    by (auto simp: llm_provider_registry_find_def find_None_iff)
  have addr: "lp_addr p \<notin> lp_addr ` set (lr_providers reg) \<union> set freed"
    using ok new by (auto simp: registry_ok_def)
  have evs: "evs = []" using r None by (auto simp: llm_provider_registry_register_def Let_def split: if_splits)
  have len: "length (lr_providers reg) \<le> lr_capacity reg" "0 < lr_capacity reg" using ok by (simp_all add: registry_ok_def)
  have "reg' = reg \<or> lr_providers reg' = lr_providers reg @ [p] \<and> lr_active reg' = lr_active reg \<and> length (lr_providers reg) < lr_capacity reg'"
    using r None len by (auto simp: llm_provider_registry_register_def Let_def split: if_splits)
  then show ?thesis
  proof (elim disjE conjE)
    assume "reg' = reg"
    then show ?thesis using ok evs by (auto simp: registry_ok_def freed_addrs_def)
  next
    assume "lr_providers reg' = lr_providers reg @ [p]" "lr_active reg' = lr_active reg" "length (lr_providers reg) < lr_capacity reg'"
    then show ?thesis using ok evs name addr by (auto simp: registry_ok_def freed_addrs_def split: option.splits)
  qed
next
  case (Some q)
  then have "reg' = reg" "freed_addrs evs = [lp_addr p]"
    using r by (auto simp: llm_provider_registry_register_def)
  moreover have "lp_addr p \<notin> lp_addr ` set (lr_providers reg) \<union> set freed"
    using ok new by (auto simp: registry_ok_def)
  ultimately show ?thesis using ok by (auto simp: registry_ok_def)
qed

lemma distinct_parts:
  "mset (xs @ ys) = mset zs \<Longrightarrow> distinct (map f zs) \<Longrightarrow> distinct (map f xs @ map f ys) \<and> set zs = set xs \<union> set ys"
  by (metis map_append mset_eq_imp_distinct_iff mset_eq_setD mset_map set_append)

lemma registry_unregister:
  assumes ok: "registry_ok (reg, allocated, freed)"
    and r: "llm_provider_registry_unregister_by_plugin a plugin_ref reg = (v, evs, reg')"
  shows "registry_ok (reg', allocated, freed @ freed_addrs evs)"
proof -
  obtain kept removed where u: "unregister_loop a plugin_ref [] 0 (lr_providers reg) = (kept, removed)"
    by (metis prod.exhaust)
  then have m: "mset (kept @ removed) = mset (lr_providers reg)" using unregister_loop_mset by fastforce
  have "distinct (map lp_name kept)" using distinct_parts [OF m, of lp_name] ok by (auto simp: registry_ok_def)
  moreover have "distinct (map lp_addr kept @ map lp_addr removed) \<and> set (lr_providers reg) = set kept \<union> set removed"
    using distinct_parts [OF m, of lp_addr] ok by (auto simp: registry_ok_def)
  moreover have "length kept \<le> length (lr_providers reg)" using mset_eq_length [OF m] by simp
  moreover have "evs = concat (map release_provider removed)" "lr_providers reg' = kept" "lr_capacity reg' = lr_capacity reg"
    "lr_active reg' = (if lr_active reg \<in> Some ` lp_addr ` set removed then None else lr_active reg)"
    using r u by (auto simp: llm_provider_registry_unregister_by_plugin_def)
  ultimately show ?thesis
    using ok unfolding registry_ok_def prod.case
    by (auto split: option.splits if_splits)
qed

lemma registry_set_active: "registry_ok (reg, allocated, freed) \<Longrightarrow>
  registry_ok (snd (llm_provider_registry_set_active name reg), allocated, freed)"
  by (auto simp: registry_ok_def llm_provider_registry_set_active_def llm_provider_registry_find_def find_Some_iff
      split: option.split)

lemma registry_step: "registry_ok r \<Longrightarrow> registry_ok (registry_op a op r)"
  by (cases r; cases op)
    (auto simp: registry_op_def intro: registry_register registry_unregister registry_set_active split: prod.split)

text \<open>
  In any sequence of registrations, removals of a plugin's providers and choices of the active one, the registry is sound:
  names are unique, no provider is freed twice, none that was freed is still registered, and the active provider is a registered
  one, so it is never a pointer to freed memory.
\<close>

theorem registry_stays_sound:
  "case fold (registry_op ok) ops (llm_provider_registry_new, [], []) of (reg, allocated, freed) \<Rightarrow>
     distinct (map lp_name (lr_providers reg)) \<and> distinct (map lp_addr (lr_providers reg) @ freed) \<and>
     lr_active reg \<in> insert None (Some ` lp_addr ` set (lr_providers reg))"
proof -
  have "registry_ok (fold (registry_op ok) ops r)" if "registry_ok r" for r
    using that by (induction ops arbitrary: r) (auto simp: registry_step)
  moreover have "registry_ok (llm_provider_registry_new, [], [])"
    by (simp add: registry_ok_def llm_provider_registry_new_def)
  ultimately have "registry_ok (fold (registry_op ok) ops (llm_provider_registry_new, [], []))" by blast
  then show ?thesis by (auto simp: registry_ok_def split: prod.splits option.splits)
qed

text \<open>
  A provider whose name is taken is freed and the call still reports success, so a caller that keeps its pointer, as its plugin does,
  has a pointer to freed memory.
\<close>

lemma register_duplicate_frees:
  "llm_provider_registry_find (lp_name p) reg = Some q \<Longrightarrow>
   llm_provider_registry_register ok p reg = (0, release_provider p, reg)"
  by (simp add: llm_provider_registry_register_def)

end
