(* ===== verification/OpenAi.thy ===== *)
theory OpenAi
  imports LineText ToolRegistry
begin

text \<open>
  \<open>providers/openai_provider.c\<close>: the request for a chat completion made of a session and the registered tools, and the reading of the
  answer, as one JSON text or as a stream of fragments. Numbers of the JSON texts are rationals. Memory is taken to be available
  where no parameter says otherwise.
\<close>

section \<open>Requests\<close>

record ProviderConfig =
  pc_name :: string
  pc_model :: "string option"
  pc_api_key :: "string option"
  pc_api_base :: "string option"
  pc_temperature :: rat
  pc_max_tokens :: int
  pc_reasoning_effort :: "string option"

text \<open>\<open>env\<close> is the environment variable \<open>OPENAI_API_KEY\<close>.\<close>

definition get_api_key :: "string option \<Rightarrow> ProviderConfig option \<Rightarrow> string" where
  "get_api_key env pc =
     (case (case pc of Some c \<Rightarrow> pc_api_key c | None \<Rightarrow> None) of
        Some key \<Rightarrow> if key \<noteq> [] then key else (case env of Some k \<Rightarrow> k | None \<Rightarrow> [])
      | None \<Rightarrow> (case env of Some k \<Rightarrow> k | None \<Rightarrow> []))"

definition should_skip_tls_verification :: "string option \<Rightarrow> bool" where
  "should_skip_tls_verification val \<longleftrightarrow> val \<in> {Some ''1'', Some ''true'', Some ''yes''}"

definition build_api_url :: "ProviderConfig option \<Rightarrow> string" where
  "build_api_url pc =
     (let api_base = (case (case pc of Some c \<Rightarrow> pc_api_base c | None \<Rightarrow> None) of
                        Some b \<Rightarrow> if b \<noteq> [] then b else ''https://api.openai.com/v1''
                      | None \<Rightarrow> ''https://api.openai.com/v1'')
      in api_base @ (if last api_base = CHR ''/'' then [] else ''/'') @ ''chat/completions'')"

definition role_message :: "string \<Rightarrow> string \<Rightarrow> json" where
  "role_message role content = JObject [(''role'', JString role), (''content'', JString content)]"

definition chat_tool_call :: "ToolCall \<Rightarrow> json" where
  "chat_tool_call tc =
     JObject [(''id'', JString (tc_id tc)), (''type'', JString ''function''),
              (''function'', JObject [(''name'', JString (tc_name tc)), (''arguments'', JString (tc_arguments tc))])]"

definition chat_message :: "Message \<Rightarrow> json" where
  "chat_message msg =
     (case m_role msg of
        ROLE_USER \<Rightarrow> role_message ''user'' (m_content msg)
      | ROLE_ASSISTANT \<Rightarrow>
          JObject ([(''role'', JString ''assistant''),
                    (''content'', if m_content msg \<noteq> [] then JString (m_content msg) else JNull)] @
                   (if m_tool_calls msg \<noteq> [] then [(''tool_calls'', JArray (map chat_tool_call (m_tool_calls msg)))] else []))
      | ROLE_TOOL \<Rightarrow>
          JObject ([(''role'', JString ''tool''), (''content'', JString (m_content msg))] @
                   (if m_tool_call_id msg \<noteq> [] then [(''tool_call_id'', JString (m_tool_call_id msg))] else []) @
                   (if m_name msg \<noteq> [] then [(''name'', JString (m_name msg))] else [])))"

definition truncation_note :: string where
  "truncation_note = ''(Note: Older conversation history has been truncated.)''"

definition max_history :: "int \<Rightarrow> nat" where
  "max_history memory_window = (if memory_window > 0 then nat memory_window else 30)"

text \<open>\<open>memory_window\<close> is 0 without a configuration.\<close>

definition build_messages_json :: "bool \<Rightarrow> string option \<Rightarrow> Session option \<Rightarrow> int \<Rightarrow> json list" where
  "build_messages_json ok system_prompt session memory_window =
     (case system_prompt of Some p \<Rightarrow> if p \<noteq> [] then [role_message ''system'' p] else [] | None \<Rightarrow> []) @
     (case session of
        None \<Rightarrow> []
      | Some s \<Rightarrow>
          (let snapshot = session_snapshot_for_context ok s (max_history memory_window)
           in (if ss_truncated snapshot then [role_message ''system'' truncation_note] else []) @
              map chat_message (ss_messages snapshot)))"

definition tool_json :: "json_parser \<Rightarrow> Tool \<Rightarrow> json" where
  "tool_json parse t =
     JObject [(''type'', JString ''function''),
              (''function'', JObject [(''name'', JString (t_name t)), (''description'', JString (t_description t)),
                 (''parameters'', case parse (t_parameters t) of Some p \<Rightarrow> p | None \<Rightarrow> JObject [])])]"

definition add_tools_to_json :: "json_parser \<Rightarrow> ToolRegistry option \<Rightarrow> (string \<times> json) list" where
  "add_tools_to_json parse tools =
     (case tools of
        None \<Rightarrow> []
      | Some reg \<Rightarrow> if tr_tools reg = [] then []
                    else [(''tools'', JArray (map (tool_json parse) (tr_tools reg))), (''tool_choice'', JString ''auto'')])"

definition build_llm_request_json ::
  "json_parser \<Rightarrow> bool \<Rightarrow> string option \<Rightarrow> Session option \<Rightarrow> ToolRegistry option \<Rightarrow> ProviderConfig option \<Rightarrow> int \<Rightarrow> bool \<Rightarrow> json" where
  "build_llm_request_json parse ok system_prompt session tools pc memory_window stream =
     (let model = (case pc of Some c \<Rightarrow> (case pc_model c of Some m \<Rightarrow> m | None \<Rightarrow> ''gpt-4-turbo-preview'') | None \<Rightarrow> ''gpt-4-turbo-preview'');
          in_tool_chain = (case session of
                             None \<Rightarrow> False
                           | Some s \<Rightarrow> list_ex (\<lambda>m. m_role m = ROLE_TOOL) (ss_messages (session_snapshot_for_context ok s 0)))
      in JObject
           ([(''model'', JString model)] @
            (case pc of
               None \<Rightarrow> []
             | Some c \<Rightarrow>
                 (''temperature'', JNumber (pc_temperature c)) #
                 (case pc_reasoning_effort c of
                    Some e \<Rightarrow> if in_tool_chain \<and> e \<noteq> [] then [(''reasoning_effort'', JString e)] else []
                  | None \<Rightarrow> [])) @
            [(''messages'', JArray (build_messages_json ok system_prompt session memory_window))] @
            add_tools_to_json parse tools @
            (if stream then [(''stream'', JBool True)] else [])))"

text \<open>The two requests as they are printed on the connection. Only the one that does not stream gives the length of its body.\<close>

definition crlf :: string where
  "crlf = [CHR 0x0D, newline]"

definition request_text :: "string \<Rightarrow> string \<Rightarrow> string \<Rightarrow> string \<Rightarrow> string" where
  "request_text uri host api_key json_str =
     ''POST '' @ uri @ '' HTTP/1.0'' @ crlf @ ''Host: '' @ host @ crlf @ ''Content-Type: application/json'' @ crlf @
     ''Content-Length: '' @ show_int (int (length json_str)) @ crlf @ ''Authorization: Bearer '' @ api_key @ crlf @ crlf @ json_str"

definition stream_request_text :: "string \<Rightarrow> string \<Rightarrow> string \<Rightarrow> string \<Rightarrow> string" where
  "stream_request_text uri host api_key json_str =
     ''POST '' @ uri @ '' HTTP/1.1'' @ crlf @ ''Host: '' @ host @ crlf @ ''Content-Type: application/json'' @ crlf @
     ''Accept: text/event-stream'' @ crlf @ ''Authorization: Bearer '' @ api_key @ crlf @ ''Connection: keep-alive'' @ crlf @ crlf @ json_str"

section \<open>Answers\<close>

datatype FinishReason =
    FINISH_REASON_NONE | FINISH_REASON_STOP | FINISH_REASON_LENGTH | FINISH_REASON_TOOL_CALLS | FINISH_REASON_CONTENT_FILTER
  | FINISH_REASON_ERROR

definition parse_finish_reason :: "string option \<Rightarrow> FinishReason" where
  "parse_finish_reason reason =
     (case reason of
        None \<Rightarrow> FINISH_REASON_NONE
      | Some r \<Rightarrow>
          if r = ''stop'' then FINISH_REASON_STOP
          else if r = ''length'' then FINISH_REASON_LENGTH
          else if r = ''tool_calls'' then FINISH_REASON_TOOL_CALLS
          else if r = ''content_filter'' then FINISH_REASON_CONTENT_FILTER
          else FINISH_REASON_ERROR)"

definition json_get_string :: "json \<Rightarrow> string \<Rightarrow> string \<Rightarrow> string" where
  "json_get_string obj key fallback = (case json_string (get_object_item (Some obj) key) of Some s \<Rightarrow> s | None \<Rightarrow> fallback)"

record ParsedLLMResponse =
  pl_error :: Error
  pl_content :: string
  pl_tool_calls :: "ToolCall list"
  pl_finish_reason :: FinishReason
  pl_usage_tokens :: int

definition parsed_new :: ParsedLLMResponse where
  "parsed_new = \<lparr>pl_error = no_error, pl_content = [], pl_tool_calls = [], pl_finish_reason = FINISH_REASON_NONE, pl_usage_tokens = 0\<rparr>"

definition response_tool_call :: "json \<Rightarrow> ToolCall" where
  "response_tool_call tc =
     (let func = get_object_item (Some tc) ''function''
      in case (json_string (get_object_item (Some tc) ''id''), json_string (get_object_item func ''name''),
               json_string (get_object_item func ''arguments'')) of
           (Some i, Some name, Some args) \<Rightarrow> \<lparr>tc_id = i, tc_name = name, tc_arguments = args\<rparr>
         | _ \<Rightarrow> \<lparr>tc_id = [], tc_name = [], tc_arguments = []\<rparr>)"

definition trim_newlines :: "string \<Rightarrow> string" where
  "trim_newlines = dropWhile (\<lambda>c. c = newline \<or> c = CHR 0x0D)"

text \<open>\<open>NULL\<close> or an empty text counts as no payload.\<close>

definition parse_llm_response_json :: "json_parser \<Rightarrow> string option \<Rightarrow> int \<Rightarrow> string \<Rightarrow> ParsedLLMResponse" where
  "parse_llm_response_json parse json_data http_status last_error =
     (case json_data of
        None \<Rightarrow> parsed_new\<lparr>pl_error := error_new ERR_NETWORK (Some (c_trunc 320
          (''Empty LLM response (status='' @ show_int http_status @ '', '' @ (if last_error \<noteq> [] then last_error else ''no payload'') @ '')'')))\<rparr>
      | Some text \<Rightarrow>
          if text = [] then parsed_new\<lparr>pl_error := error_new ERR_NETWORK (Some (c_trunc 320
            (''Empty LLM response (status='' @ show_int http_status @ '', '' @ (if last_error \<noteq> [] then last_error else ''no payload'') @ '')'')))\<rparr>
          else (case parse text of
                  None \<Rightarrow> parsed_new\<lparr>pl_error := error_new ERR_JSON (Some ''Failed to parse LLM response'')\<rparr>
                | Some resp \<Rightarrow>
                    (case get_object_item (Some resp) ''error'' of
                       Some error_obj \<Rightarrow>
                         parsed_new\<lparr>pl_error := error_new ERR_NETWORK
                           (case get_object_item (Some error_obj) ''message'' of
                              Some m \<Rightarrow> json_string (Some m) | None \<Rightarrow> Some ''Unknown API error'')\<rparr>
                     | None \<Rightarrow>
                         (case json_array (get_object_item (Some resp) ''choices'') of
                            Some (choice # _) \<Rightarrow>
                              (let message = get_object_item (Some choice) ''message'';
                                   finish = (case json_string (get_object_item (Some choice) ''finish_reason'') of
                                               Some r \<Rightarrow> parse_finish_reason (Some r) | None \<Rightarrow> FINISH_REASON_NONE);
                                   usage = (case json_number (get_object_item (get_object_item (Some resp) ''usage'') ''total_tokens'') of
                                              Some n \<Rightarrow> number_valueint n | None \<Rightarrow> 0)
                               in if finish = FINISH_REASON_ERROR
                                  then parsed_new\<lparr>pl_error := error_new ERR_CONTENT_FILTER (Some ''Content filtered by provider''),
                                                  pl_finish_reason := finish, pl_usage_tokens := usage\<rparr>
                                  else \<lparr>pl_error = no_error,
                                        pl_content = (case json_string (get_object_item message ''content'') of
                                                        Some c \<Rightarrow> trim_newlines c | None \<Rightarrow> []),
                                        pl_tool_calls = (case json_array (get_object_item message ''tool_calls'') of
                                                           Some tcs \<Rightarrow> map response_tool_call tcs | None \<Rightarrow> []),
                                        pl_finish_reason = finish, pl_usage_tokens = usage\<rparr>)
                          | _ \<Rightarrow> parsed_new\<lparr>pl_error := error_new ERR_JSON (Some (c_trunc 256
                              (''No choices in response (status='' @ show_int http_status @ '', object='' @ json_get_string resp ''object'' ''n/a'' @
                               '', message='' @ json_get_string resp ''message'' ''n/a'' @ '')'')))\<rparr>))))"

section \<open>Tool results follow their calls\<close>

text \<open>The shape that the agent loop gives a conversation: between a tool result and the message with its call are only tool results.\<close>

definition well_paired :: "Message list \<Rightarrow> bool" where
  "well_paired ms \<longleftrightarrow>
     (\<forall>i < length ms. m_role (ms ! i) = ROLE_TOOL \<longrightarrow>
        (\<exists>j < i. assistant_has_tool_call_id (ms ! j) (m_tool_call_id (ms ! i)) \<and> (\<forall>l. j < l \<and> l \<le> i \<longrightarrow> m_role (ms ! l) = ROLE_TOOL)))"

definition json_field :: "json \<Rightarrow> string \<Rightarrow> string option" where
  "json_field j key = json_string (get_object_item (Some j) key)"

definition call_ids :: "json \<Rightarrow> string list" where
  "call_ids j =
     (if json_field j ''role'' = Some ''assistant''
      then (case json_array (get_object_item (Some j) ''tool_calls'') of
              None \<Rightarrow> [] | Some tcs \<Rightarrow> concat (map (\<lambda>tc. case json_field tc ''id'' of Some i \<Rightarrow> [i] | None \<Rightarrow> []) tcs))
      else [])"

definition answers_call :: "json list \<Rightarrow> nat \<Rightarrow> bool" where
  "answers_call js i \<longleftrightarrow>
     (case json_field (js ! i) ''tool_call_id'' of
        None \<Rightarrow> True | Some c \<Rightarrow> list_ex (\<lambda>j. c \<in> set (call_ids j)) (take i js))"

lemma strcaseeq_chars: "strcaseeq a b = (map tolower a = map tolower b)"
  by (simp add: strcaseeq_def)

lemmas key_compare = strcaseeq_chars tolower_def isupper_def

lemma chat_message_call_id:
  "json_field (chat_message m) ''tool_call_id'' =
     (if m_role m = ROLE_TOOL \<and> m_tool_call_id m \<noteq> [] then Some (m_tool_call_id m) else None)"
  by (cases "m_role m") (auto simp: chat_message_def role_message_def json_field_def json_string_def get_object_item_def key_compare)

lemma tool_call_id_field: "json_field (chat_tool_call tc) ''id'' = Some (tc_id tc)"
  by (simp add: chat_tool_call_def json_field_def json_string_def get_object_item_def key_compare)

lemma concat_ids: "concat (map (\<lambda>tc. case json_field tc ''id'' of Some i \<Rightarrow> [i] | None \<Rightarrow> []) (map chat_tool_call tcs)) = map tc_id tcs"
  by (induction tcs) (simp_all add: tool_call_id_field)

lemma chat_message_calls:
  "m_role m = ROLE_ASSISTANT \<Longrightarrow> call_ids (chat_message m) = map tc_id (m_tool_calls m)"
  using concat_ids [of "m_tool_calls m"]
  by (auto simp: chat_message_def call_ids_def json_field_def json_string_def json_array_def get_object_item_def key_compare)

lemma assistant_calls: "assistant_has_tool_call_id m c \<Longrightarrow> c \<noteq> [] \<Longrightarrow> c \<in> set (call_ids (chat_message m))"
  by (auto simp: assistant_has_tool_call_id_def chat_message_calls list_ex_iff split: if_splits)

lemma caller_kept:
  assumes pair: "well_paired ms" and clean: "clean_start ms k" and i: "k + i < length ms" "m_role (ms ! (k + i)) = ROLE_TOOL"
  obtains j where "j < i" "assistant_has_tool_call_id (ms ! (k + j)) (m_tool_call_id (ms ! (k + i)))"
proof -
  obtain j where j: "j < k + i" "assistant_has_tool_call_id (ms ! j) (m_tool_call_id (ms ! (k + i)))"
      "\<forall>l. j < l \<and> l \<le> k + i \<longrightarrow> m_role (ms ! l) = ROLE_TOOL"
    using pair i unfolding well_paired_def by blast
  have "k \<le> j"
  proof (rule ccontr)
    assume "\<not> k \<le> j"
    then have k: "j < k" "0 < k" by auto
    then have "m_role (ms ! k) = ROLE_TOOL" using j(3) by simp
    then obtain j' where "j' < k" "assistant_has_tool_call_id (ms ! j') (m_tool_call_id (ms ! k))"
      using pair i(1) unfolding well_paired_def by (metis add_lessD1)
    then show False using clean k \<open>m_role (ms ! k) = ROLE_TOOL\<close> by (auto simp: clean_start_def)
  qed
  then show ?thesis using that [of "j - k"] j by simp
qed

lemma answers_prefix:
  assumes "\<And>i. i < length js \<Longrightarrow> answers_call js i" and "list_all (\<lambda>j. json_field j ''tool_call_id'' = None) ps"
    and "i < length (ps @ js)"
  shows "answers_call (ps @ js) i"
proof (cases "i < length ps")
  case True
  then show ?thesis using assms(2) by (simp add: answers_call_def nth_append list_all_length)
next
  case False
  then have "answers_call js (i - length ps)" using assms(1,3) by simp
  then show ?thesis using False by (auto simp: answers_call_def nth_append split: option.splits)
qed

lemma role_message_field: "json_field (role_message r c) ''tool_call_id'' = None"
  by (simp add: role_message_def json_field_def json_string_def get_object_item_def key_compare)

text \<open>
  Claim C24. Every tool result in a request has its call before it: when the conversation is one that the agent loop makes, then
  however much of it the memory window leaves out, each message of the request that names a tool call follows an assistant message
  with that call, as the interface of the models demands.
\<close>

theorem request_keeps_calls:
  assumes "well_paired (se_messages session)"
    and "i < length (build_messages_json True system_prompt (Some session) memory_window)"
  shows "answers_call (build_messages_json True system_prompt (Some session) memory_window) i"
proof -
  let ?ms = "se_messages session" and ?w = "max_history memory_window"
  obtain k where k: "ss_messages (session_snapshot_for_context True session ?w) = drop k ?ms" "clean_start ?ms k"
    using snapshot_suffix by blast
  let ?js = "map chat_message (drop k ?ms)"
  have js: "answers_call ?js i" if "i < length ?js" for i
  proof (cases "m_role (?ms ! (k + i)) = ROLE_TOOL \<and> m_tool_call_id (?ms ! (k + i)) \<noteq> []")
    case True
    then obtain j where "j < i" "assistant_has_tool_call_id (?ms ! (k + j)) (m_tool_call_id (?ms ! (k + i)))"
      using caller_kept [OF assms(1) k(2)] \<open>i < length ?js\<close> by (metis length_drop length_map less_diff_conv add.commute)
    then have "\<exists>j < i. m_tool_call_id (?ms ! (k + i)) \<in> set (call_ids (?js ! j))"
      using assistant_calls True \<open>i < length ?js\<close> by (intro exI [of _ j]) auto
    then show ?thesis using \<open>i < length ?js\<close> True
      by (auto simp: answers_call_def chat_message_call_id list_ex_length)
  next
    case False
    then show ?thesis using \<open>i < length ?js\<close> by (auto simp: answers_call_def chat_message_call_id)
  qed
  obtain ps where ps: "build_messages_json True system_prompt (Some session) memory_window = ps @ ?js"
      "list_all (\<lambda>j. json_field j ''tool_call_id'' = None) ps"
  proof
    let ?ps = "(case system_prompt of Some p \<Rightarrow> if p \<noteq> [] then [role_message ''system'' p] else [] | None \<Rightarrow> []) @
      (if ss_truncated (session_snapshot_for_context True session ?w) then [role_message ''system'' truncation_note] else [])"
    show "build_messages_json True system_prompt (Some session) memory_window = ?ps @ ?js"
      by (simp add: build_messages_json_def Let_def k(1))
    show "list_all (\<lambda>j. json_field j ''tool_call_id'' = None) ?ps"
      by (simp add: role_message_field split: option.split)
  qed
  show ?thesis using answers_prefix [OF js ps(2)] assms(2) ps(1) by simp
qed

definition demo_tool_message :: "MessageRole \<Rightarrow> ToolCall list \<Rightarrow> string \<Rightarrow> Message" where
  "demo_tool_message role calls call_id =
     \<lparr>m_role = role, m_content = ''x'', m_timestamp = [], m_tool_calls = calls, m_tool_call_id = call_id, m_name = []\<rparr>"

definition demo_chat :: Session where
  "demo_chat = (new_session ''cli:1'' 5)\<lparr>se_messages :=
     [demo_tool_message ROLE_USER [] [], demo_tool_message ROLE_ASSISTANT [\<lparr>tc_id = ''c1'', tc_name = ''ls'', tc_arguments = ''{}''\<rparr>] [],
      demo_tool_message ROLE_TOOL [] ''c1'']\<rparr>"

lemma demo_chat_paired: "well_paired (se_messages demo_chat)"
  by (auto simp: well_paired_def demo_chat_def demo_tool_message_def assistant_has_tool_call_id_def less_Suc_eq nth_Cons'
      intro: exI [of _ 1])

lemma demo_chat_json:
  "length (build_messages_json True None (Some demo_chat) 1) = 3 \<and>
   json_field (build_messages_json True None (Some demo_chat) 1 ! 2) ''tool_call_id'' = Some ''c1''"
  by code_simp

theorem request_keeps_calls_witness:
  "json_field (build_messages_json True None (Some demo_chat) 1 ! 2) ''tool_call_id'' = Some ''c1'' \<and>
   answers_call (build_messages_json True None (Some demo_chat) 1) 2"
  using request_keeps_calls [OF demo_chat_paired, of 2 None 1] demo_chat_json by simp

section \<open>Streamed answers\<close>

text \<open>
  \<open>StreamContext\<close> and the fields of the response that the handler sets. \<open>sc_calls\<close> is the array of tool calls up to its capacity,
  \<open>sc_count\<close> of them in use; \<open>sc_chunks\<close> what \<open>on_chunk\<close> was called with. \<open>sc_fault\<close> is set by an access outside the array.
\<close>

record StreamContext =
  sc_done :: bool
  sc_content :: string
  sc_recv :: string
  sc_calls :: "ToolCall list"
  sc_count :: nat
  sc_chunks :: "(string \<times> bool) list"
  sc_finish_reason :: FinishReason
  sc_usage_tokens :: int
  sc_last_error :: string
  sc_fault :: bool

definition stream_context_new :: StreamContext where
  "stream_context_new =
     \<lparr>sc_done = False, sc_content = [], sc_recv = [], sc_calls = [], sc_count = 0, sc_chunks = [], sc_finish_reason = FINISH_REASON_NONE,
      sc_usage_tokens = 0, sc_last_error = [], sc_fault = False\<rparr>"

definition empty_call :: ToolCall where
  "empty_call = \<lparr>tc_id = [], tc_name = [], tc_arguments = []\<rparr>"

text \<open>One element of \<open>delta.tool_calls\<close>. When the array cannot grow the element is skipped.\<close>

definition merge_call :: "json \<Rightarrow> ToolCall \<Rightarrow> ToolCall" where
  "merge_call tc_delta tc =
     (let func_delta = get_object_item (Some tc_delta) ''function'';
          tc = (case json_string (get_object_item (Some tc_delta) ''id'') of Some i \<Rightarrow> tc\<lparr>tc_id := i\<rparr> | None \<Rightarrow> tc);
          tc = (case json_string (get_object_item func_delta ''name'') of Some n \<Rightarrow> tc\<lparr>tc_name := n\<rparr> | None \<Rightarrow> tc)
      in case json_string (get_object_item func_delta ''arguments'') of
           Some a \<Rightarrow> tc\<lparr>tc_arguments := tc_arguments tc @ a\<rparr> | None \<Rightarrow> tc)"

definition put_call :: "(nat \<Rightarrow> bool) \<Rightarrow> (ToolCall \<Rightarrow> ToolCall) \<Rightarrow> int \<Rightarrow> StreamContext \<Rightarrow> StreamContext" where
  "put_call ok merge tc_index ctx =
     (if tc_index < 0 then ctx\<lparr>sc_fault := True\<rparr>
      else (let i = nat tc_index; new_cap = i + 4
            in if i \<ge> length (sc_calls ctx) \<and> \<not> ok new_cap then ctx
               else (let calls = (if i \<ge> length (sc_calls ctx)
                                  then sc_calls ctx @ replicate (new_cap - length (sc_calls ctx)) empty_call else sc_calls ctx)
                     in ctx\<lparr>sc_calls := calls[i := merge (calls ! i)], sc_count := max (sc_count ctx) (i + 1)\<rparr>)))"

definition stream_tool_delta :: "(nat \<Rightarrow> bool) \<Rightarrow> StreamContext \<Rightarrow> json \<Rightarrow> StreamContext" where
  "stream_tool_delta ok ctx tc_delta =
     put_call ok (merge_call tc_delta)
       (case json_number (get_object_item (Some tc_delta) ''index'') of Some n \<Rightarrow> number_valueint n | None \<Rightarrow> int (sc_count ctx)) ctx"

text \<open>A parsed event. \<open>cJSON_GetArraySize\<close> and \<open>cJSON_GetArrayItem\<close> also count the members of an object.\<close>

definition json_items :: "json option \<Rightarrow> json list" where
  "json_items j = (case j of Some (JArray xs) \<Rightarrow> xs | Some (JObject kvs) \<Rightarrow> map snd kvs | _ \<Rightarrow> [])"

definition content_delta :: "string option \<Rightarrow> StreamContext \<Rightarrow> StreamContext" where
  "content_delta content ctx =
     (case content of Some c \<Rightarrow> ctx\<lparr>sc_content := sc_content ctx @ c, sc_chunks := sc_chunks ctx @ [(c, False)]\<rparr> | None \<Rightarrow> ctx)"

definition finish_delta :: "string option \<Rightarrow> StreamContext \<Rightarrow> StreamContext" where
  "finish_delta finish ctx = (case finish of Some r \<Rightarrow> ctx\<lparr>sc_finish_reason := parse_finish_reason (Some r)\<rparr> | None \<Rightarrow> ctx)"

definition usage_delta :: "rat option \<Rightarrow> StreamContext \<Rightarrow> StreamContext" where
  "usage_delta total_tokens ctx =
     (case total_tokens of Some n \<Rightarrow> ctx\<lparr>sc_usage_tokens := number_valueint n\<rparr> | None \<Rightarrow> ctx)"

definition stream_choice :: "(nat \<Rightarrow> bool) \<Rightarrow> json \<Rightarrow> StreamContext \<Rightarrow> StreamContext" where
  "stream_choice ok choice ctx =
     (let delta = get_object_item (Some choice) ''delta'';
          ctx = content_delta (json_string (get_object_item delta ''content'')) ctx;
          ctx = foldl (stream_tool_delta ok) ctx (json_items (get_object_item delta ''tool_calls''))
      in finish_delta (json_string (get_object_item (Some choice) ''finish_reason'')) ctx)"

definition stream_event :: "(nat \<Rightarrow> bool) \<Rightarrow> json \<Rightarrow> StreamContext \<Rightarrow> StreamContext" where
  "stream_event ok j ctx =
     (let ctx = (case json_items (get_object_item (Some j) ''choices'') of [] \<Rightarrow> ctx | choice # _ \<Rightarrow> stream_choice ok choice ctx)
      in usage_delta (json_number (get_object_item (get_object_item (Some j) ''usage'') ''total_tokens'')) ctx)"

text \<open>One line. The first component says that it was the last one: the line stays in the buffer with its newline overwritten.\<close>

definition stream_line :: "(nat \<Rightarrow> bool) \<Rightarrow> json_parser \<Rightarrow> string \<Rightarrow> StreamContext \<Rightarrow> bool \<times> StreamContext" where
  "stream_line ok parse line ctx =
     (if starts_with ''data: '' line
      then (let raw = drop 6 line; data = (if raw \<noteq> [] \<and> last raw = CHR 0x0D then butlast raw else raw)
            in if data = ''[DONE]'' then (True, ctx\<lparr>sc_done := True, sc_chunks := sc_chunks ctx @ [([], True)]\<rparr>)
               else (False, case parse data of None \<Rightarrow> ctx | Some j \<Rightarrow> stream_event ok j ctx))
      else (False, ctx))"

text \<open>The bytes that stay of the line \<open>[DONE]\<close>: the carriage return and the newline have been replaced by NUL bytes.\<close>

definition done_line :: "string \<Rightarrow> string" where
  "done_line line = (if last line = CHR 0x0D then butlast line @ [NUL] else line) @ [NUL]"

function stream_lines :: "(nat \<Rightarrow> bool) \<Rightarrow> json_parser \<Rightarrow> string \<Rightarrow> StreamContext \<Rightarrow> string \<times> StreamContext" where
  "stream_lines ok parse s ctx =
     (case next_line s of
        None \<Rightarrow> (s, ctx)
      | Some (line, rest) \<Rightarrow>
          (case stream_line ok parse line ctx of
             (True, ctx) \<Rightarrow> (done_line line @ rest, ctx)
           | (False, ctx) \<Rightarrow> stream_lines ok parse rest ctx))"
  by pat_completeness auto
termination
  by (relation "measure (\<lambda>(ok, parse, s, ctx). length s)") (auto dest!: next_line_Some)

declare stream_lines.simps [simp del]

text \<open>
  \<open>data\<close> is what \<open>mg_io_recv\<close> read into its buffer of 2048 bytes: not what the library has just received and reported, but what is left on the
  socket after that. No part of the program calls the streaming function.
\<close>

definition stream_read :: "(nat \<Rightarrow> bool) \<Rightarrow> json_parser \<Rightarrow> string \<Rightarrow> StreamContext \<Rightarrow> StreamContext" where
  "stream_read ok parse data ctx =
     (if data = [] then ctx
      else (case stream_lines ok parse (sc_recv ctx @ data) ctx of (rest, ctx) \<Rightarrow> ctx\<lparr>sc_recv := rest\<rparr>))"

datatype StreamEvent = StreamRead string | StreamClose | StreamError "string option"

definition stream_ev_handler :: "(nat \<Rightarrow> bool) \<Rightarrow> json_parser \<Rightarrow> StreamEvent \<Rightarrow> StreamContext \<Rightarrow> StreamContext" where
  "stream_ev_handler ok parse ev ctx =
     (case ev of
        StreamRead data \<Rightarrow> stream_read ok parse data ctx
      | StreamClose \<Rightarrow> ctx\<lparr>sc_done := True\<rparr>
      | StreamError err \<Rightarrow> ctx\<lparr>sc_last_error := c_trunc 256 (case err of Some e \<Rightarrow> e | None \<Rightarrow> ''unknown''), sc_done := True\<rparr>)"

text \<open>The end of \<open>openai_provider_call_streaming\<close>: the error and the response.\<close>

definition stream_result :: "StreamContext \<Rightarrow> ParsedLLMResponse" where
  "stream_result ctx =
     (if sc_last_error ctx \<noteq> [] then parsed_new\<lparr>pl_error := error_new ERR_NETWORK (Some (sc_last_error ctx)),
        pl_finish_reason := sc_finish_reason ctx, pl_usage_tokens := sc_usage_tokens ctx\<rparr>
      else \<lparr>pl_error = (if sc_finish_reason ctx = FINISH_REASON_CONTENT_FILTER then error_new ERR_CONTENT_FILTER (Some ''Content filtered'')
                         else no_error),
            pl_content = trim_newlines (sc_content ctx), pl_tool_calls = take (sc_count ctx) (sc_calls ctx),
            pl_finish_reason = sc_finish_reason ctx, pl_usage_tokens = sc_usage_tokens ctx\<rparr>)"

section \<open>A streamed answer is the answer\<close>

lemma next_line_nul: "newline \<notin> set p \<Longrightarrow> next_line (p @ NUL # q) = None"
proof -
  assume "newline \<notin> set p"
  then have "\<exists>q'. dropWhile (\<lambda>c. c \<noteq> newline \<and> c \<noteq> NUL) (p @ NUL # q) = NUL # q'" by (induction p) auto
  then show ?thesis by (auto simp: next_line_def)
qed

lemma done_line_waits: "newline \<notin> set line \<Longrightarrow> next_line (done_line line @ s) = None"
  using next_line_nul [of line s] next_line_nul [of "butlast line" "NUL # s"] in_set_butlastD [of newline line]
  by (auto simp: done_line_def)

lemma stream_lines_append:
  "stream_lines ok parse a ctx = (r, ctx') \<Longrightarrow> stream_lines ok parse (a @ b) ctx = stream_lines ok parse (r @ b) ctx'"
proof (induction ok parse a ctx arbitrary: r ctx' rule: stream_lines.induct)
  case (1 ok parse a ctx)
  show ?case
  proof (cases "next_line a")
    case None
    then show ?thesis using "1.prems" by (simp add: stream_lines.simps [of ok parse a ctx])
  next
    case (Some lr)
    obtain l rest where lr: "lr = (l, rest)" by (cases lr)
    obtain d c where d: "stream_line ok parse l ctx = (d, c)" by (cases "stream_line ok parse l ctx")
    have nl: "newline \<notin> set l" using Some lr next_line_Some by blast
    have ab: "stream_lines ok parse (a @ b) ctx =
        (if d then (done_line l @ rest @ b, c) else stream_lines ok parse (rest @ b) c)"
      using next_line_append [of a l rest b] Some lr d by (simp add: stream_lines.simps [of ok parse "a @ b" ctx])
    show ?thesis
    proof (cases d)
      case True
      then have "r = done_line l @ rest" "ctx' = c"
        using "1.prems" Some lr d by (simp_all add: stream_lines.simps [of ok parse a ctx])
      then show ?thesis
        using ab True done_line_waits [OF nl, of "rest @ b"] by (simp add: stream_lines.simps [of ok parse "done_line l @ rest @ b"])
    next
      case False
      then show ?thesis using "1.IH" [OF Some lr [symmetric] d [symmetric]] "1.prems" Some lr d ab
        by (simp add: stream_lines.simps [of ok parse a ctx])
    qed
  qed
qed

text \<open>The buffer does not matter for what a line does, so that the reads can be put together.\<close>

lemma put_call_recv: "put_call ok m i (ctx\<lparr>sc_recv := r\<rparr>) = (put_call ok m i ctx)\<lparr>sc_recv := r\<rparr>"
  by (cases ctx) (simp add: put_call_def Let_def)

lemma tool_delta_recv: "stream_tool_delta ok (ctx\<lparr>sc_recv := r\<rparr>) x = (stream_tool_delta ok ctx x)\<lparr>sc_recv := r\<rparr>"
  by (simp add: stream_tool_delta_def put_call_recv split: option.split)

lemma tool_deltas_recv: "foldl (stream_tool_delta ok) (ctx\<lparr>sc_recv := r\<rparr>) xs = (foldl (stream_tool_delta ok) ctx xs)\<lparr>sc_recv := r\<rparr>"
  by (induction xs arbitrary: ctx) (simp_all add: tool_delta_recv)

lemma deltas_recv:
  "content_delta content (ctx\<lparr>sc_recv := r\<rparr>) = (content_delta content ctx)\<lparr>sc_recv := r\<rparr>"
  "finish_delta finish (ctx\<lparr>sc_recv := r\<rparr>) = (finish_delta finish ctx)\<lparr>sc_recv := r\<rparr>"
  "usage_delta tokens (ctx\<lparr>sc_recv := r\<rparr>) = (usage_delta tokens ctx)\<lparr>sc_recv := r\<rparr>"
  by (simp_all add: content_delta_def finish_delta_def usage_delta_def split: option.split)

lemma stream_event_recv: "stream_event ok j (ctx\<lparr>sc_recv := r\<rparr>) = (stream_event ok j ctx)\<lparr>sc_recv := r\<rparr>"
  by (simp add: stream_event_def stream_choice_def Let_def tool_deltas_recv deltas_recv split: list.split)

lemma stream_line_recv:
  "stream_line ok parse line (ctx\<lparr>sc_recv := r\<rparr>) = (case stream_line ok parse line ctx of (d, c) \<Rightarrow> (d, c\<lparr>sc_recv := r\<rparr>))"
  by (simp add: stream_line_def Let_def stream_event_recv split: option.split)

lemma stream_lines_recv:
  "stream_lines ok parse s (ctx\<lparr>sc_recv := r\<rparr>) = (case stream_lines ok parse s ctx of (x, c) \<Rightarrow> (x, c\<lparr>sc_recv := r\<rparr>))"
proof (induction ok parse s ctx rule: stream_lines.induct)
  case (1 ok parse s ctx)
  note unfolded = stream_lines.simps [of ok parse s ctx]
    stream_lines.simps [of ok parse s "ctx\<lparr>sc_recv := r\<rparr>"]
  show ?case
  proof (cases "next_line s")
    case None
    then show ?thesis by (simp add: unfolded)
  next
    case (Some lr)
    obtain l rest where lr: "lr = (l, rest)" by (cases lr)
    obtain d c where d: "stream_line ok parse l ctx = (d, c)" by (cases "stream_line ok parse l ctx")
    show ?thesis
      using "1.IH" [OF Some lr [symmetric] d [symmetric]] Some lr d stream_line_recv [where r = r]
      by (cases d) (simp_all add: unfolded)
  qed
qed

lemma stream_read_join: "stream_read ok parse b (stream_read ok parse a ctx) = stream_read ok parse (a @ b) ctx"
proof (cases "a = [] \<or> b = []")
  case False
  obtain r c where c: "stream_lines ok parse (sc_recv ctx @ a) ctx = (r, c)"
    by (cases "stream_lines ok parse (sc_recv ctx @ a) ctx")
  obtain x d where d: "stream_lines ok parse (r @ b) c = (x, d)" by (cases "stream_lines ok parse (r @ b) c")
  have "stream_lines ok parse (sc_recv ctx @ a @ b) ctx = (x, d)" using stream_lines_append [OF c, of b] d by simp
  then show ?thesis using False c d stream_lines_recv [where ctx = c and r = r] by (auto simp: stream_read_def)
qed (auto simp: stream_read_def)

lemma stream_reads_join: "fold (stream_read ok parse) pieces ctx = stream_read ok parse (concat pieces) ctx"
  by (induction pieces arbitrary: ctx) (simp_all add: stream_read_join, simp add: stream_read_def)

text \<open>The event stream of some texts.\<close>

definition sse_text :: "string \<Rightarrow> string" where
  "sse_text e = ''data: '' @ e @ [newline, newline]"

definition plain_event :: "string \<Rightarrow> bool" where
  "plain_event e \<longleftrightarrow> newline \<notin> set e \<and> NUL \<notin> set e \<and> e \<noteq> [] \<and> last e \<noteq> CHR 0x0D \<and> e \<noteq> ''[DONE]''"

definition sse_stream :: "string list \<Rightarrow> string" where
  "sse_stream es = concat (map sse_text es) @ sse_text ''[DONE]''"

lemma next_line_data:
  "newline \<notin> set e \<Longrightarrow> NUL \<notin> set e \<Longrightarrow> next_line (sse_text e @ s) = Some (''data: '' @ e, newline # s)"
  using next_line_tl [of "''data: '' @ e" "newline # s"] by (simp add: sse_text_def)

lemma next_line_blank: "next_line (newline # s) = Some ([], s)"
  using next_line_tl [of "[]" s] by simp

lemma stream_lines_blank: "stream_lines ok parse (newline # s) ctx = stream_lines ok parse s ctx"
  by (simp add: stream_lines.simps [of ok parse "newline # s"] next_line_blank stream_line_def starts_with_def)

lemma stream_lines_event:
  assumes "plain_event e" "parse e = Some j"
  shows "stream_lines ok parse (sse_text e @ s) ctx = stream_lines ok parse s (stream_event ok j ctx)"
proof -
  have "stream_line ok parse (''data: '' @ e) ctx = (False, stream_event ok j ctx)"
    using assms by (simp add: stream_line_def starts_with_def plain_event_def Let_def)
  then show ?thesis
    using assms next_line_data [of e s]
    by (simp add: stream_lines.simps [of ok parse "sse_text e @ s"] stream_lines_blank plain_event_def)
qed

lemma stream_lines_done:
  "\<exists>r. stream_lines ok parse (sse_text ''[DONE]'') ctx = (r, ctx\<lparr>sc_done := True, sc_chunks := sc_chunks ctx @ [([], True)]\<rparr>)"
  using next_line_data [of "''[DONE]''" "[]"]
  by (simp add: stream_lines.simps [of ok parse "sse_text ''[DONE]''"] stream_line_def starts_with_def)

lemma stream_lines_events:
  "list_all2 (\<lambda>e j. plain_event e \<and> parse e = Some j) es js \<Longrightarrow>
   stream_lines ok parse (concat (map sse_text es) @ s) ctx = stream_lines ok parse s (fold (stream_event ok) js ctx)"
  by (induction es js arbitrary: ctx rule: list_all2_induct) (simp_all add: stream_lines_event)

lemma stream_of_events:
  assumes "list_all2 (\<lambda>e j. plain_event e \<and> parse e = Some j) es js" "concat pieces = sse_stream es"
  obtains r where "fold (stream_read ok parse) pieces stream_context_new =
    (fold (stream_event ok) js stream_context_new)\<lparr>sc_recv := r, sc_done := True,
      sc_chunks := sc_chunks (fold (stream_event ok) js stream_context_new) @ [([], True)]\<rparr>"
proof -
  let ?c = "fold (stream_event ok) js stream_context_new"
  obtain r where "stream_lines ok parse (sse_text ''[DONE]'') ?c =
      (r, ?c\<lparr>sc_done := True, sc_chunks := sc_chunks ?c @ [([], True)]\<rparr>)"
    using stream_lines_done by blast
  then have "fold (stream_read ok parse) pieces stream_context_new = ?c\<lparr>sc_done := True, sc_chunks := sc_chunks ?c @ [([], True)]\<rparr>\<lparr>sc_recv := r\<rparr>"
    using stream_lines_events [OF assms(1), of ok "sse_text ''[DONE]''"] assms(2)
    by (simp add: stream_reads_join stream_read_def sse_stream_def sse_text_def stream_context_new_def)
  then show thesis using that [of r] by simp
qed

text \<open>
  An answer: the pieces of its text, and for each tool call its identifier, its name and the pieces of its arguments; the reason why
  it ended, and the tokens. First the events that the service streams for it, then the single text.
\<close>

record Answer =
  an_pieces :: "string list"
  an_calls :: "(string \<times> string \<times> string list) list"
  an_reason :: string
  an_tokens :: rat

definition delta_event :: "(string \<times> json) list \<Rightarrow> json" where
  "delta_event members = JObject [(''choices'', JArray [JObject [(''delta'', JObject members)]])]"

definition call_event :: "nat \<Rightarrow> (string \<times> json) list \<Rightarrow> (string \<times> json) list \<Rightarrow> json" where
  "call_event k members func_members =
     delta_event [(''tool_calls'', JArray [JObject ((''index'', JNumber (of_nat k)) # members @ [(''function'', JObject func_members)])])]"

definition call_events :: "nat \<Rightarrow> string \<times> string \<times> string list \<Rightarrow> json list" where
  "call_events k call =
     (case call of (i, name, args) \<Rightarrow>
        call_event k [(''id'', JString i)] [(''name'', JString name), (''arguments'', JString [])] #
        map (\<lambda>a. call_event k [] [(''arguments'', JString a)]) args)"

definition finish_event :: "string \<Rightarrow> rat \<Rightarrow> json" where
  "finish_event reason tokens =
     JObject [(''choices'', JArray [JObject [(''delta'', JObject []), (''finish_reason'', JString reason)]]),
              (''usage'', JObject [(''total_tokens'', JNumber tokens)])]"

definition answer_events :: "Answer \<Rightarrow> json list" where
  "answer_events an =
     map (\<lambda>c. delta_event [(''content'', JString c)]) (an_pieces an) @
     concat (map (\<lambda>(k, call). call_events k call) (enumerate 0 (an_calls an))) @ [finish_event (an_reason an) (an_tokens an)]"

definition whole_call :: "string \<times> string \<times> string list \<Rightarrow> ToolCall" where
  "whole_call call = (case call of (i, name, args) \<Rightarrow> \<lparr>tc_id = i, tc_name = name, tc_arguments = concat args\<rparr>)"

definition answer_json :: "Answer \<Rightarrow> json" where
  "answer_json an =
     JObject [(''choices'', JArray [JObject
                [(''message'', JObject [(''content'', JString (concat (an_pieces an))),
                                        (''tool_calls'', JArray (map (\<lambda>c. chat_tool_call (whole_call c)) (an_calls an)))]),
                 (''finish_reason'', JString (an_reason an))]]),
              (''usage'', JObject [(''total_tokens'', JNumber (an_tokens an))])]"

lemmas json_access = get_object_item_def json_string_def json_array_def json_number_def key_compare

lemma content_event_step: "stream_event ok (delta_event [(''content'', JString c)]) ctx = content_delta (Some c) ctx"
  by (simp add: stream_event_def stream_choice_def delta_event_def json_access json_items_def finish_delta_def usage_delta_def)

lemma call_start_step:
  "stream_event ok (call_event k [(''id'', JString i)] [(''name'', JString name), (''arguments'', JString [])]) ctx =
     put_call ok (\<lambda>tc. tc\<lparr>tc_id := i, tc_name := name\<rparr>) (number_valueint (of_nat k)) ctx"
  by (simp add: stream_event_def stream_choice_def call_event_def delta_event_def json_access json_items_def finish_delta_def
      usage_delta_def content_delta_def stream_tool_delta_def merge_call_def [abs_def])

lemma call_args_step:
  "stream_event ok (call_event k [] [(''arguments'', JString a)]) ctx =
     put_call ok (\<lambda>tc. tc\<lparr>tc_arguments := tc_arguments tc @ a\<rparr>) (number_valueint (of_nat k)) ctx"
  by (simp add: stream_event_def stream_choice_def call_event_def delta_event_def json_access json_items_def finish_delta_def
      usage_delta_def content_delta_def stream_tool_delta_def merge_call_def [abs_def])

lemma finish_event_step:
  "stream_event ok (finish_event r n) ctx = usage_delta (Some n) (finish_delta (Some r) ctx)"
  by (simp add: stream_event_def stream_choice_def finish_event_def json_access json_items_def content_delta_def)

lemma index_exact: "int k < INT_MAX \<Longrightarrow> number_valueint (of_nat k) = int k"
  by (simp add: number_valueint_def INT_MAX_def INT_MIN_def)

lemma contents_fold:
  "fold (stream_event ok) (map (\<lambda>c. delta_event [(''content'', JString c)]) cs) ctx =
     ctx\<lparr>sc_content := sc_content ctx @ concat cs, sc_chunks := sc_chunks ctx @ map (\<lambda>c. (c, False)) cs\<rparr>"
  by (induction cs arbitrary: ctx) (simp_all add: content_event_step content_delta_def)

text \<open>The array in use, with empty slots behind it.\<close>

definition with_calls :: "ToolCall list \<Rightarrow> nat \<Rightarrow> StreamContext \<Rightarrow> StreamContext" where
  "with_calls tcs m ctx = ctx\<lparr>sc_calls := tcs @ replicate m empty_call, sc_count := length tcs\<rparr>"

lemma put_new: "\<exists>m'. put_call (\<lambda>_. True) f (int (length tcs)) (with_calls tcs m ctx) = with_calls (tcs @ [f empty_call]) m' ctx"
proof (cases m)
  case 0
  then show ?thesis
    by (intro exI [of _ 3]) (simp add: put_call_def with_calls_def Let_def numeral_eq_Suc list_update_append nth_append)
next
  case (Suc m')
  then show ?thesis
    by (intro exI [of _ m']) (simp add: put_call_def with_calls_def Let_def list_update_append nth_append)
qed

lemma put_last: "put_call ok f (int (length tcs)) (with_calls (tcs @ [tc]) m ctx) = with_calls (tcs @ [f tc]) m ctx"
  by (simp add: put_call_def with_calls_def Let_def list_update_append nth_append)

lemma args_fold:
  "int (length tcs) < INT_MAX \<Longrightarrow>
   fold (stream_event ok) (map (\<lambda>a. call_event (length tcs) [] [(''arguments'', JString a)]) args) (with_calls (tcs @ [tc]) m ctx) =
     with_calls (tcs @ [tc\<lparr>tc_arguments := tc_arguments tc @ concat args\<rparr>]) m ctx"
  by (induction args arbitrary: tc) (simp_all add: call_args_step index_exact put_last)

lemma call_fold:
  assumes "int (length tcs) < INT_MAX"
  shows "\<exists>m'. fold (stream_event (\<lambda>_. True)) (call_events (length tcs) call) (with_calls tcs m ctx) =
    with_calls (tcs @ [whole_call call]) m' ctx"
proof -
  obtain i name args where call: "call = (i, name, args)" by (cases call)
  obtain m' where "put_call (\<lambda>_. True) (\<lambda>tc. tc\<lparr>tc_id := i, tc_name := name\<rparr>) (int (length tcs)) (with_calls tcs m ctx) =
      with_calls (tcs @ [empty_call\<lparr>tc_id := i, tc_name := name\<rparr>]) m' ctx"
    using put_new [of "\<lambda>tc. tc\<lparr>tc_id := i, tc_name := name\<rparr>"] by blast
  then show ?thesis using assms
    by (intro exI [of _ m'])
      (simp add: call call_events_def call_start_step index_exact args_fold whole_call_def empty_call_def)
qed

lemma calls_fold:
  "int (length tcs + length calls) \<le> INT_MAX \<Longrightarrow>
   \<exists>m'. fold (stream_event (\<lambda>_. True)) (concat (map (\<lambda>(k, call). call_events k call) (enumerate (length tcs) calls))) (with_calls tcs m ctx) =
     with_calls (tcs @ map whole_call calls) m' ctx"
proof (induction calls arbitrary: tcs m)
  case (Cons call calls)
  obtain m' where "fold (stream_event (\<lambda>_. True)) (call_events (length tcs) call) (with_calls tcs m ctx) =
      with_calls (tcs @ [whole_call call]) m' ctx"
    using call_fold [of tcs] Cons.prems by fastforce
  moreover obtain m'' where
    "fold (stream_event (\<lambda>_. True)) (concat (map (\<lambda>(k, call). call_events k call) (enumerate (Suc (length tcs)) calls)))
       (with_calls (tcs @ [whole_call call]) m' ctx) = with_calls ((tcs @ [whole_call call]) @ map whole_call calls) m'' ctx"
    using Cons.IH [of "tcs @ [whole_call call]" m'] Cons.prems by auto
  ultimately show ?case by auto
qed auto

text \<open>The state behind all events of an answer.\<close>

lemma answer_fold:
  assumes "int (length (an_calls an)) \<le> INT_MAX"
  shows "\<exists>m. fold (stream_event (\<lambda>_. True)) (answer_events an) stream_context_new =
    \<lparr>sc_done = False, sc_content = concat (an_pieces an), sc_recv = [],
     sc_calls = map whole_call (an_calls an) @ replicate m empty_call, sc_count = length (an_calls an),
     sc_chunks = map (\<lambda>c. (c, False)) (an_pieces an), sc_finish_reason = parse_finish_reason (Some (an_reason an)),
     sc_usage_tokens = number_valueint (an_tokens an), sc_last_error = [], sc_fault = False\<rparr>"
proof -
  define c where "c = fold (stream_event (\<lambda>_. True)) (map (\<lambda>c. delta_event [(''content'', JString c)]) (an_pieces an)) stream_context_new"
  have c: "c = with_calls [] 0 (stream_context_new
      \<lparr>sc_content := concat (an_pieces an), sc_chunks := map (\<lambda>c. (c, False)) (an_pieces an)\<rparr>)"
    by (simp add: c_def contents_fold stream_context_new_def with_calls_def)
  obtain m where "fold (stream_event (\<lambda>_. True)) (concat (map (\<lambda>(k, call). call_events k call) (enumerate 0 (an_calls an)))) c =
      with_calls (map whole_call (an_calls an)) m (stream_context_new
        \<lparr>sc_content := concat (an_pieces an), sc_chunks := map (\<lambda>c. (c, False)) (an_pieces an)\<rparr>)"
    using calls_fold [of "[]" "an_calls an" 0] assms c by auto
  then show ?thesis
    by (intro exI [of _ m])
      (simp add: answer_events_def finish_event_step flip: c_def,
        simp add: finish_delta_def usage_delta_def with_calls_def stream_context_new_def)
qed

lemma answer_parsed:
  assumes "parse whole = Some (answer_json an)" "whole \<noteq> []" "parse_finish_reason (Some (an_reason an)) \<noteq> FINISH_REASON_ERROR"
  shows "parse_llm_response_json parse (Some whole) status last_error =
    \<lparr>pl_error = no_error, pl_content = trim_newlines (concat (an_pieces an)), pl_tool_calls = map whole_call (an_calls an),
     pl_finish_reason = parse_finish_reason (Some (an_reason an)), pl_usage_tokens = number_valueint (an_tokens an)\<rparr>"
  using assms
  by (simp add: parse_llm_response_json_def answer_json_def json_access Let_def o_def response_tool_call_def chat_tool_call_def)

text \<open>
  What the parser of streamed answers is good for, if it gets the bytes: the events of an answer (its text in pieces, each tool call with its arguments in
  pieces, the reason and the token count) give the same response, field by field, as the same answer sent as one JSON text, however the
  bytes are cut into pieces; and the caller has seen every piece of the text once, in order, followed by the final call.
  The reason is one of the three that both paths take for a good end. (In the program the handler does not get these bytes, see \<open>stream_read\<close>.)
\<close>
theorem streamed_answer_is_answer:
  assumes "list_all2 (\<lambda>e j. plain_event e \<and> parse e = Some j) es (answer_events an)"
    and "concat pieces = sse_stream es"
    and "parse whole = Some (answer_json an)" "whole \<noteq> []"
    and "an_reason an = ''stop'' \<or> an_reason an = ''length'' \<or> an_reason an = ''tool_calls''"
    and "int (length (an_calls an)) \<le> INT_MAX"
  shows "stream_result (fold (stream_read (\<lambda>_. True) parse) pieces stream_context_new) =
           parse_llm_response_json parse (Some whole) status last_error \<and>
         sc_chunks (fold (stream_read (\<lambda>_. True) parse) pieces stream_context_new) =
           map (\<lambda>c. (c, False)) (an_pieces an) @ [([], True)]"
proof -
  have reason: "parse_finish_reason (Some (an_reason an)) \<noteq> FINISH_REASON_ERROR"
      "parse_finish_reason (Some (an_reason an)) \<noteq> FINISH_REASON_CONTENT_FILTER"
    using assms(5) by (auto simp: parse_finish_reason_def)
  obtain r where r: "fold (stream_read (\<lambda>_. True) parse) pieces stream_context_new =
      (fold (stream_event (\<lambda>_. True)) (answer_events an) stream_context_new)\<lparr>sc_recv := r, sc_done := True,
        sc_chunks := sc_chunks (fold (stream_event (\<lambda>_. True)) (answer_events an) stream_context_new) @ [([], True)]\<rparr>"
    using stream_of_events [OF assms(1,2), of "\<lambda>_. True"] .
  obtain m where m: "fold (stream_event (\<lambda>_. True)) (answer_events an) stream_context_new =
    \<lparr>sc_done = False, sc_content = concat (an_pieces an), sc_recv = [],
     sc_calls = map whole_call (an_calls an) @ replicate m empty_call, sc_count = length (an_calls an),
     sc_chunks = map (\<lambda>c. (c, False)) (an_pieces an), sc_finish_reason = parse_finish_reason (Some (an_reason an)),
     sc_usage_tokens = number_valueint (an_tokens an), sc_last_error = [], sc_fault = False\<rparr>"
    using answer_fold [OF assms(6)] by blast
  show ?thesis
    using reason by (simp add: r m stream_result_def answer_parsed [of parse whole an, OF assms(3,4)])
qed

definition demo_streamed :: Answer where
  "demo_streamed = \<lparr>an_pieces = [''Hel'', ''lo''], an_calls = [(''c1'', ''ls'', [''{'', ''}''])], an_reason = ''tool_calls'', an_tokens = 7\<rparr>"

definition demo_texts :: "string list" where
  "demo_texts = [''a'', ''b'', ''c'', ''d'', ''e'', ''f'']"

definition demo_stream_parse :: json_parser where
  "demo_stream_parse = map_of ((''w'', answer_json demo_streamed) # zip demo_texts (answer_events demo_streamed))"

theorem streamed_answer_is_answer_witness:
  "stream_result (fold (stream_read (\<lambda>_. True) demo_stream_parse) [take 9 (sse_stream demo_texts), drop 9 (sse_stream demo_texts)] stream_context_new) =
     parse_llm_response_json demo_stream_parse (Some ''w'') 200 [] \<and>
   sc_chunks (fold (stream_read (\<lambda>_. True) demo_stream_parse) [take 9 (sse_stream demo_texts), drop 9 (sse_stream demo_texts)] stream_context_new) =
     [(''Hel'', False), (''lo'', False), ([], True)]"
proof -
  have "list_all2 (\<lambda>e j. plain_event e \<and> demo_stream_parse e = Some j) demo_texts (answer_events demo_streamed)"
    by (simp add: demo_texts_def demo_streamed_def demo_stream_parse_def answer_events_def call_events_def plain_event_def)
  moreover have "demo_stream_parse ''w'' = Some (answer_json demo_streamed)" by (simp add: demo_stream_parse_def)
  ultimately show ?thesis
    using streamed_answer_is_answer [of demo_stream_parse demo_texts demo_streamed "[take 9 (sse_stream demo_texts), drop 9 (sse_stream demo_texts)]" "''w''" 200 "[]"]
    by (simp add: demo_streamed_def INT_MAX_def)
qed

text \<open>Outside of it: an element with a negative index is written in front of the array.\<close>

lemma negative_index_faults: "number_valueint n < 0 \<Longrightarrow> sc_fault (stream_tool_delta ok ctx (JObject [(''index'', JNumber n)]))"
  by (simp add: stream_tool_delta_def put_call_def json_access)

end
