(* ===== verification/OpenAiAsync.thy ===== *)
theory OpenAiAsync
  imports OpenAi "HOL-Library.Monad_Syntax" "HOL-Library.Multiset"
begin

text \<open>
  \<open>providers/openai_provider.c\<close>, the connections: the buffer that the body of an answer is collected in, the call that waits for its
  answer, and the manager whose thread runs the calls that do not wait. What the network does is the argument of the functions and the
  choice of the step: which connections open and which events their handler gets. A connection that closes gets one last event,
  \<open>HttpClose\<close>, and \<open>mg_mgr_free\<close> closes those that are left.
\<close>

section \<open>The buffer of an answer\<close>

record MemoryStruct =
  ms_memory :: string
  ms_capacity :: nat
  ms_done :: bool
  ms_last_error :: string
  ms_http_status :: int

definition buffer_new :: MemoryStruct where
  "buffer_new = \<lparr>ms_memory = [], ms_capacity = 4096, ms_done = False, ms_last_error = [], ms_http_status = 0\<rparr>"

text \<open>\<open>while (need > new_cap) new_cap *= 2\<close>, which does not end on the capacity 0.\<close>

partial_function (option) grow_memory :: "nat \<Rightarrow> nat \<Rightarrow> nat option" where
  "grow_memory need new_cap = (if need > new_cap then grow_memory need (2 * new_cap) else Some new_cap)"

datatype HttpEvent = HttpHdrs int | HttpMsg int string | HttpClose | HttpError "string option"

text \<open>\<open>ok\<close> says which sizes can be allocated. The flag that is returned asks to close the connection.\<close>

definition http_body :: "(nat \<Rightarrow> bool) \<Rightarrow> int \<Rightarrow> string \<Rightarrow> MemoryStruct \<Rightarrow> (bool \<times> MemoryStruct) option" where
  "http_body ok status body ms =
     (let ms = ms\<lparr>ms_http_status := status\<rparr>; new_size = length (ms_memory ms) + length body
      in do {
           new_cap \<leftarrow> if new_size + 1 > ms_capacity ms then grow_memory (new_size + 1) (2 * ms_capacity ms) else Some (ms_capacity ms);
           if new_size + 1 > ms_capacity ms \<and> \<not> ok new_cap
           then Some (True, ms\<lparr>ms_last_error := ''OOM in HTTP buffer'', ms_done := True\<rparr>)
           else Some (True, ms\<lparr>ms_memory := ms_memory ms @ body, ms_capacity := new_cap, ms_done := True\<rparr>)
         })"

definition handle_http :: "(nat \<Rightarrow> bool) \<Rightarrow> HttpEvent \<Rightarrow> MemoryStruct \<Rightarrow> (bool \<times> MemoryStruct) option" where
  "handle_http ok ev ms =
     (case ev of
        HttpHdrs status \<Rightarrow> Some (False, ms\<lparr>ms_http_status := status\<rparr>)
      | HttpMsg status body \<Rightarrow> http_body ok status body ms
      | HttpClose \<Rightarrow> Some (False, if ms_memory ms = [] \<and> \<not> ms_done ms then ms\<lparr>ms_done := True\<rparr> else ms)
      | HttpError e \<Rightarrow>
          Some (False, ms\<lparr>ms_last_error := c_trunc 256 (case e of Some t \<Rightarrow> t | None \<Rightarrow> ''unknown''), ms_done := True\<rparr>))"

lemma grow_memory_some: "0 < c \<Longrightarrow> \<exists>c'. grow_memory need c = Some c' \<and> need \<le> c' \<and> c \<le> c'"
proof (induction "need - c" arbitrary: c rule: less_induct)
  case less
  show ?case
  proof (cases "need > c")
    case True
    then have "need - 2 * c < need - c" using less.prems by arith
    then obtain c' where "grow_memory need (2 * c) = Some c'" "need \<le> c'" "2 * c \<le> c'"
      using less.hyps [of "2 * c"] less.prems by auto
    then show ?thesis using True by (subst grow_memory.simps) auto
  next
    case False
    then show ?thesis by (subst grow_memory.simps) auto
  qed
qed

text \<open>The buffer has room for its content and the NUL byte behind it.\<close>

definition memory_fits :: "MemoryStruct \<Rightarrow> bool" where
  "memory_fits ms \<longleftrightarrow> length (ms_memory ms) < ms_capacity ms"

lemma memory_new_fits: "memory_fits buffer_new"
  by (simp add: memory_fits_def buffer_new_def)

lemma handle_http_fits:
  assumes "memory_fits ms"
  shows "\<exists>c ms'. handle_http ok ev ms = Some (c, ms') \<and> memory_fits ms'"
proof (cases ev)
  case (HttpMsg status body)
  show ?thesis
  proof (cases "length (ms_memory ms) + length body + 1 > ms_capacity ms")
    case True
    then obtain c' where "grow_memory (length (ms_memory ms) + length body + 1) (2 * ms_capacity ms) = Some c'"
        "length (ms_memory ms) + length body + 1 \<le> c'" "2 * ms_capacity ms \<le> c'"
      using grow_memory_some [of "2 * ms_capacity ms"] assms by (auto simp: memory_fits_def)
    then show ?thesis using assms HttpMsg True by (auto simp: handle_http_def http_body_def Let_def memory_fits_def)
  next
    case False
    then show ?thesis using HttpMsg by (auto simp: handle_http_def http_body_def Let_def memory_fits_def)
  qed
qed (use assms in \<open>auto simp: handle_http_def memory_fits_def\<close>)

section \<open>The call that waits\<close>

text \<open>
  \<open>events\<close> is what the polls of the 120 seconds deliver. The C text of the buffer ends at a NUL byte.
\<close>

fun poll_until_done :: "(nat \<Rightarrow> bool) \<Rightarrow> HttpEvent list \<Rightarrow> MemoryStruct \<Rightarrow> MemoryStruct option" where
  "poll_until_done ok [] ms = Some ms"
| "poll_until_done ok (ev # events) ms =
     (if ms_done ms then Some ms
      else do { (closing, ms) \<leftarrow> handle_http ok ev ms; poll_until_done ok events ms })"

definition memory_text :: "MemoryStruct \<Rightarrow> string" where
  "memory_text ms = takeWhile (\<lambda>c. c \<noteq> NUL) (ms_memory ms)"

definition openai_provider_call_extended ::
  "(nat \<Rightarrow> bool) \<Rightarrow> json_parser \<Rightarrow> string \<Rightarrow> bool \<Rightarrow> HttpEvent list \<Rightarrow> ParsedLLMResponse option" where
  "openai_provider_call_extended ok parse api_key connects events =
     (if \<not> ok 4096 then Some (parsed_new\<lparr>pl_error := error_new ERR_MEMORY (Some ''OOM allocating response buffer'')\<rparr>)
      else if api_key = [] then Some (parsed_new\<lparr>pl_error := error_new ERR_INVALID_PARAM (Some ''API Key not set'')\<rparr>)
      else if \<not> connects then Some (parsed_new\<lparr>pl_error := error_new ERR_NETWORK (Some ''Failed to connect'')\<rparr>)
      else do {
        chunk \<leftarrow> poll_until_done ok events buffer_new;
        let parsed = parse_llm_response_json parse (Some (memory_text chunk)) (ms_http_status chunk) (ms_last_error chunk);
        Some (if err_code (pl_error parsed) \<noteq> ERR_NONE then parsed_new\<lparr>pl_error := pl_error parsed\<rparr> else parsed)
      })"

lemma poll_until_done_fits: "memory_fits ms \<Longrightarrow> \<exists>ms'. poll_until_done ok events ms = Some ms' \<and> memory_fits ms'"
proof (induction events arbitrary: ms)
  case (Cons ev events)
  obtain c ms' where "handle_http ok ev ms = Some (c, ms')" "memory_fits ms'" using handle_http_fits [OF Cons.prems] by blast
  then show ?case using Cons by auto
qed auto

lemma call_extended_returns: "openai_provider_call_extended ok parse api_key connects events \<noteq> None"
  using poll_until_done_fits [OF memory_new_fits, of ok events] by (auto simp: openai_provider_call_extended_def Let_def)

text \<open>The call that waits collects one body, in a buffer that is large enough.\<close>

lemma poll_until_done_body:
  "ms_memory ms = [] \<Longrightarrow> poll_until_done ok events ms = Some ms' \<Longrightarrow>
   ms_memory ms' = [] \<or> (\<exists>status. HttpMsg status (ms_memory ms') \<in> set events)"
proof (induction events arbitrary: ms)
  case (Cons ev events)
  show ?case
  proof (cases "ms_done ms")
    case False
    then obtain c ms1 where h: "handle_http ok ev ms = Some (c, ms1)" "poll_until_done ok events ms1 = Some ms'"
      using Cons.prems(2) by (auto split: Option.bind_splits)
    show ?thesis
    proof (cases "ms_memory ms1 = []")
      case True
      then show ?thesis using Cons.IH [OF True h(2)] by auto
    next
      case False
      then obtain status where "ev = HttpMsg status (ms_memory ms1)" "ms_done ms1"
        using h(1) Cons.prems(1)
        by (auto simp: handle_http_def http_body_def Let_def split: HttpEvent.splits Option.bind_splits if_splits)
      then show ?thesis using h(2) by (cases events) auto
    qed
  qed (use Cons.prems in auto)
qed simp

text \<open>
  The buffer of an answer. Whatever events arrive in the 120 seconds, the waiting loop returns (the doubling of the
  capacity ends), the content together with its final NUL byte fits into the buffer, and it is empty or the body of exactly one of the messages that
  arrived, never two bodies joined.
\<close>
theorem answer_buffer_fits:
  "\<exists>ms. poll_until_done ok events buffer_new = Some ms \<and> length (ms_memory ms) < ms_capacity ms \<and>
     (ms_memory ms = [] \<or> (\<exists>status. HttpMsg status (ms_memory ms) \<in> set events))"
proof -
  obtain ms where ms: "poll_until_done ok events buffer_new = Some ms" "memory_fits ms"
    using poll_until_done_fits [OF memory_new_fits] by blast
  moreover have "ms_memory buffer_new = []" by (simp add: buffer_new_def)
  ultimately show ?thesis using poll_until_done_body [OF _ ms(1)] by (auto simp: memory_fits_def)
qed

section \<open>The manager\<close>

text \<open>
  A context is named by its address; \<open>am_ctxs\<close> are the ones that are allocated, and addresses are not used twice. \<open>am_batch\<close> are the
  items that the thread has taken out of the queue, \<open>am_conns\<close> the open connections, each with its context and the flag \<open>is_closing\<close>,
  \<open>am_calls\<close> the calls of the callbacks. \<open>am_fault\<close> is set by a use of a context that has been freed.
\<close>

datatype WorkerState = WorkerNone | WorkerLooping | WorkerDraining | WorkerGone

record AsyncRequestContext =
  ac_chunk :: MemoryStruct
  ac_start_ms :: "64 word"
  ac_timeout_ms :: "64 word"
  ac_callback_sent :: bool

record LLMAsyncManager =
  am_running :: bool
  am_worker :: WorkerState
  am_queue :: "nat list"
  am_batch :: "nat list"
  am_active :: "nat list"
  am_conns :: "(nat \<times> bool) list"
  am_ctxs :: "nat \<Rightarrow> AsyncRequestContext option"
  am_next :: nat
  am_calls :: "(nat \<times> ParsedLLMResponse) list"
  am_fault :: bool

definition llm_async_manager_new :: LLMAsyncManager where
  "llm_async_manager_new =
     \<lparr>am_running = False, am_worker = WorkerNone, am_queue = [], am_batch = [], am_active = [], am_conns = [], am_ctxs = (\<lambda>_. None), am_next = 0,
      am_calls = [], am_fault = False\<rparr>"

definition llm_async_manager_start :: "LLMAsyncManager \<Rightarrow> LLMAsyncManager" where
  "llm_async_manager_start m = (if am_running m then m else m\<lparr>am_running := True, am_worker := WorkerLooping\<rparr>)"

definition error_response :: "string \<Rightarrow> ParsedLLMResponse" where
  "error_response text = parsed_new\<lparr>pl_error := error_new ERR_NETWORK (Some text)\<rparr>"

text \<open>The end of \<open>openai_provider_call_async\<close>: the request is built, the context and the item are allocated.\<close>

definition openai_provider_call_async :: "64 word \<Rightarrow> LLMAsyncManager \<Rightarrow> LLMAsyncManager" where
  "openai_provider_call_async now m =
     m\<lparr>am_next := am_next m + 1,
       am_ctxs := (am_ctxs m)(am_next m \<mapsto>
         \<lparr>ac_chunk = buffer_new, ac_start_ms = now, ac_timeout_ms = 120000, ac_callback_sent = False\<rparr>),
       am_queue := am_queue m @ [am_next m]\<rparr>"

definition free_context :: "nat \<Rightarrow> LLMAsyncManager \<Rightarrow> LLMAsyncManager" where
  "free_context i m =
     (if am_ctxs m i = None then m\<lparr>am_fault := True\<rparr> else m\<lparr>am_ctxs := (am_ctxs m)(i := None)\<rparr>)"

definition async_context_callback_once :: "nat \<Rightarrow> ParsedLLMResponse \<Rightarrow> LLMAsyncManager \<Rightarrow> LLMAsyncManager" where
  "async_context_callback_once i response m =
     (case am_ctxs m i of
        None \<Rightarrow> m\<lparr>am_fault := True\<rparr>
      | Some ctx \<Rightarrow>
          if ac_callback_sent ctx then m
          else m\<lparr>am_ctxs := (am_ctxs m)(i \<mapsto> ctx\<lparr>ac_callback_sent := True\<rparr>), am_calls := am_calls m @ [(i, response)]\<rparr>)"

definition async_worker_dequeue_all :: "LLMAsyncManager \<Rightarrow> LLMAsyncManager" where
  "async_worker_dequeue_all m = m\<lparr>am_batch := am_queue m, am_queue := []\<rparr>"

definition async_worker_process_item :: "bool \<Rightarrow> nat \<Rightarrow> LLMAsyncManager \<Rightarrow> LLMAsyncManager" where
  "async_worker_process_item connects i m =
     (if \<not> connects then free_context i (m\<lparr>am_calls := am_calls m @ [(i, error_response ''Failed to connect to LLM'')]\<rparr>)
      else m\<lparr>am_conns := (i, False) # am_conns m, am_active := i # am_active m\<rparr>)"

definition parsed_answer :: "json_parser \<Rightarrow> MemoryStruct \<Rightarrow> ParsedLLMResponse" where
  "parsed_answer parse ms =
     parse_llm_response_json parse (if ms_memory ms \<noteq> [] then Some (memory_text ms) else None) (ms_http_status ms)
       (if ms_last_error ms \<noteq> [] then ms_last_error ms else ''no payload'')"

text \<open>The handler of the connection of context \<open>i\<close>. \<open>closing\<close> marks that connection.\<close>

definition mark_closing :: "nat \<Rightarrow> (nat \<times> bool) list \<Rightarrow> (nat \<times> bool) list" where
  "mark_closing i = map (\<lambda>(j, closing). (j, closing \<or> j = i))"

definition async_ev_handler :: "(nat \<Rightarrow> bool) \<Rightarrow> json_parser \<Rightarrow> nat \<Rightarrow> HttpEvent \<Rightarrow> LLMAsyncManager \<Rightarrow> LLMAsyncManager option" where
  "async_ev_handler ok parse i ev m =
     (case am_ctxs m i of
        None \<Rightarrow> Some (m\<lparr>am_fault := True\<rparr>)
      | Some ctx \<Rightarrow> do {
          (closing, ms) \<leftarrow> handle_http ok ev (ac_chunk ctx);
          let m = m\<lparr>am_ctxs := (am_ctxs m)(i \<mapsto> ctx\<lparr>ac_chunk := ms\<rparr>),
                    am_conns := if closing then mark_closing i (am_conns m) else am_conns m\<rparr>;
          Some (if ev = HttpClose
                then free_context i (async_context_callback_once i (parsed_answer parse ms) (m\<lparr>am_active := remove1 i (am_active m)\<rparr>))
                else m)
        })"

text \<open>\<open>mg_close_conn\<close> takes the connection out of the list and then calls the handler.\<close>

definition close_connection :: "(nat \<Rightarrow> bool) \<Rightarrow> json_parser \<Rightarrow> nat \<Rightarrow> LLMAsyncManager \<Rightarrow> LLMAsyncManager option" where
  "close_connection ok parse i m = async_ev_handler ok parse i HttpClose (m\<lparr>am_conns := filter (\<lambda>c. fst c \<noteq> i) (am_conns m)\<rparr>)"

definition check_timeout :: "64 word \<Rightarrow> nat \<Rightarrow> LLMAsyncManager \<Rightarrow> LLMAsyncManager" where
  "check_timeout now i m =
     (case am_ctxs m i of
        None \<Rightarrow> m\<lparr>am_fault := True\<rparr>
      | Some ctx \<Rightarrow>
          if ac_timeout_ms ctx > 0 \<and> now - ac_start_ms ctx \<ge> ac_timeout_ms ctx
          then m\<lparr>am_ctxs := (am_ctxs m)(i \<mapsto> ctx\<lparr>ac_chunk := (ac_chunk ctx)\<lparr>ms_last_error := ''LLM request timed out'', ms_done := True\<rparr>\<rparr>),
                 am_conns := mark_closing i (am_conns m)\<rparr>
          else m)"

definition async_manager_check_timeouts :: "64 word \<Rightarrow> LLMAsyncManager \<Rightarrow> LLMAsyncManager" where
  "async_manager_check_timeouts now m = fold (check_timeout now) (map fst (am_conns m)) m"

text \<open>The end of the thread: the items that wait are answered, then the calls that are under way. Their connections stay open.\<close>

definition drop_queued :: "nat \<Rightarrow> LLMAsyncManager \<Rightarrow> LLMAsyncManager" where
  "drop_queued i m = free_context i (m\<lparr>am_calls := am_calls m @ [(i, error_response ''Shutting down'')]\<rparr>)"

definition drop_active :: "nat \<Rightarrow> LLMAsyncManager \<Rightarrow> LLMAsyncManager" where
  "drop_active i m = free_context i (async_context_callback_once i (error_response ''Shutting down'') m)"

definition worker_drain :: "LLMAsyncManager \<Rightarrow> LLMAsyncManager" where
  "worker_drain m = (fold drop_queued (am_queue m) (m\<lparr>am_queue := []\<rparr>))\<lparr>am_worker := WorkerDraining\<rparr>"

definition worker_exit :: "LLMAsyncManager \<Rightarrow> LLMAsyncManager" where
  "worker_exit m = (fold drop_active (am_active m) (m\<lparr>am_active := []\<rparr>))\<lparr>am_worker := WorkerGone\<rparr>"

text \<open>\<open>mg_mgr_free\<close> in \<open>llm_async_manager_free\<close>.\<close>

fun close_all :: "(nat \<Rightarrow> bool) \<Rightarrow> json_parser \<Rightarrow> nat list \<Rightarrow> LLMAsyncManager \<Rightarrow> LLMAsyncManager option" where
  "close_all ok parse [] m = Some m"
| "close_all ok parse (i # is) m = do { m \<leftarrow> close_connection ok parse i m; close_all ok parse is m }"

definition llm_async_manager_free :: "(nat \<Rightarrow> bool) \<Rightarrow> json_parser \<Rightarrow> LLMAsyncManager \<Rightarrow> LLMAsyncManager option" where
  "llm_async_manager_free ok parse m = close_all ok parse (map fst (am_conns m)) m"

text \<open>
  The steps: the caller's thread submits and stops, the manager's thread takes the queue, processes what it took, polls (an event of an
  open connection, or its end), looks for timeouts, and when the flag is down drains the queue, polls once more and leaves.
\<close>

inductive async_step :: "(nat \<Rightarrow> bool) \<Rightarrow> json_parser \<Rightarrow> LLMAsyncManager \<Rightarrow> LLMAsyncManager \<Rightarrow> bool" for ok parse where
  submit: "async_step ok parse m (openai_provider_call_async now m)"
| take_queue: "am_worker m = WorkerLooping \<Longrightarrow> am_batch m = [] \<Longrightarrow> async_step ok parse m (async_worker_dequeue_all m)"
| process_item: "am_batch m = i # batch \<Longrightarrow> async_step ok parse m (async_worker_process_item connects i (m\<lparr>am_batch := batch\<rparr>))"
| event: "am_worker m \<noteq> WorkerGone \<Longrightarrow> i \<in> fst ` set (am_conns m) \<Longrightarrow> ev \<noteq> HttpClose \<Longrightarrow>
    async_ev_handler ok parse i ev m = Some m' \<Longrightarrow> async_step ok parse m m'"
| close: "am_worker m \<noteq> WorkerGone \<Longrightarrow> i \<in> fst ` set (am_conns m) \<Longrightarrow> close_connection ok parse i m = Some m' \<Longrightarrow>
    async_step ok parse m m'"
| timeouts: "am_worker m = WorkerLooping \<Longrightarrow> async_step ok parse m (async_manager_check_timeouts now m)"
| stop: "async_step ok parse m (m\<lparr>am_running := False\<rparr>)"
| drain: "am_worker m = WorkerLooping \<Longrightarrow> \<not> am_running m \<Longrightarrow> am_batch m = [] \<Longrightarrow> async_step ok parse m (worker_drain m)"
| exit: "am_worker m = WorkerDraining \<Longrightarrow> async_step ok parse m (worker_exit m)"

inductive async_reachable :: "(nat \<Rightarrow> bool) \<Rightarrow> json_parser \<Rightarrow> LLMAsyncManager \<Rightarrow> bool" for ok parse where
  start: "async_reachable ok parse (llm_async_manager_start llm_async_manager_new)"
| step: "async_reachable ok parse m \<Longrightarrow> async_step ok parse m m' \<Longrightarrow> async_reachable ok parse m'"

definition accounted :: "LLMAsyncManager \<Rightarrow> bool" where
  "accounted m \<longleftrightarrow> mset (map fst (am_calls m) @ am_batch m @ am_queue m @ am_active m) = mset [0..<am_next m]"

definition async_ok :: "LLMAsyncManager \<Rightarrow> bool" where
  "async_ok m \<longleftrightarrow>
     accounted m \<and> \<not> am_fault m \<and> dom (am_ctxs m) = set (am_batch m @ am_queue m @ am_active m) \<and>
     (\<forall>ctx \<in> ran (am_ctxs m). \<not> ac_callback_sent ctx \<and> memory_fits (ac_chunk ctx)) \<and>
     distinct (map fst (am_conns m)) \<and>
     (if am_worker m = WorkerGone then am_batch m = [] \<and> am_active m = [] \<and> fst ` set (am_conns m) \<subseteq> fst ` set (am_calls m)
      else fst ` set (am_conns m) = set (am_active m)) \<and>
     (am_worker m = WorkerDraining \<longrightarrow> am_batch m = [])"

lemma accounted_distinct:
  assumes "accounted m"
  shows "distinct (map fst (am_calls m) @ am_batch m @ am_queue m @ am_active m)"
    "set (map fst (am_calls m) @ am_batch m @ am_queue m @ am_active m) = {..<am_next m}"
  using mset_eq_imp_distinct_iff [OF assms [unfolded accounted_def]] mset_eq_setD [OF assms [unfolded accounted_def]]
  by (auto simp: atLeast0LessThan)

lemma start_ok: "async_ok (llm_async_manager_start llm_async_manager_new)"
  by (simp add: async_ok_def accounted_def llm_async_manager_start_def llm_async_manager_new_def)

lemma submit_ok: "async_ok m \<Longrightarrow> async_ok (openai_provider_call_async now m)"
  using accounted_distinct [of m] memory_new_fits
  by (auto simp: async_ok_def openai_provider_call_async_def accounted_def ran_def split: if_splits)

lemma take_queue_ok: "async_ok m \<Longrightarrow> am_worker m = WorkerLooping \<Longrightarrow> am_batch m = [] \<Longrightarrow> async_ok (async_worker_dequeue_all m)"
  by (simp add: async_ok_def async_worker_dequeue_all_def accounted_def)

lemma stop_ok: "async_ok m \<Longrightarrow> async_ok (m\<lparr>am_running := False\<rparr>)"
  by (simp add: async_ok_def accounted_def)

text \<open>A request is answered and its context freed.\<close>

definition answered :: "nat \<Rightarrow> ParsedLLMResponse \<Rightarrow> LLMAsyncManager \<Rightarrow> LLMAsyncManager" where
  "answered i response m = m\<lparr>am_ctxs := (am_ctxs m)(i := None), am_calls := am_calls m @ [(i, response)]\<rparr>"

lemma callback_free:
  "am_ctxs m i = Some ctx \<Longrightarrow> \<not> ac_callback_sent ctx \<Longrightarrow>
   free_context i (async_context_callback_once i response m) = answered i response m"
  by (simp add: free_context_def async_context_callback_once_def answered_def)

lemma drop_live:
  "am_ctxs m i = Some ctx \<Longrightarrow> \<not> ac_callback_sent ctx \<Longrightarrow> drop_active i m = answered i (error_response ''Shutting down'') m"
  "am_ctxs m i = Some ctx \<Longrightarrow> drop_queued i m = answered i (error_response ''Shutting down'') m"
  by (simp_all add: drop_active_def callback_free) (simp add: drop_queued_def free_context_def answered_def)

lemma process_ok:
  assumes "async_ok m" "am_batch m = i # batch"
  shows "async_ok (async_worker_process_item connects i (m\<lparr>am_batch := batch\<rparr>))"
proof -
  have "distinct (map fst (am_calls m) @ (i # batch) @ am_queue m @ am_active m)"
    using accounted_distinct [of m] assms by (simp add: async_ok_def)
  moreover have "am_worker m = WorkerLooping \<or> am_worker m = WorkerNone" "i \<in> dom (am_ctxs m)"
    using assms by (cases "am_worker m"; auto simp: async_ok_def)+
  ultimately show ?thesis
    using assms by (auto simp: async_ok_def accounted_def async_worker_process_item_def free_context_def ran_def)
qed

lemma map_fst_mark_closing [simp]: "map fst (mark_closing i cs) = map fst cs"
  by (auto simp: mark_closing_def)

lemma set_fst_mark_closing [simp]: "fst ` set (mark_closing i cs) = fst ` set cs"
  using map_fst_mark_closing by (metis list.set_map)

lemma context_update_ok:
  assumes "async_ok m" "am_ctxs m i = Some ctx" "memory_fits ms"
  shows "async_ok (m\<lparr>am_ctxs := (am_ctxs m)(i \<mapsto> ctx\<lparr>ac_chunk := ms\<rparr>), am_conns := if b then mark_closing i (am_conns m) else am_conns m\<rparr>)"
  using assms by (auto simp: async_ok_def accounted_def ran_def)

lemma open_conn_live:
  assumes "async_ok m" "am_worker m \<noteq> WorkerGone" "i \<in> fst ` set (am_conns m)"
  obtains ctx where "am_ctxs m i = Some ctx" "\<not> ac_callback_sent ctx" "memory_fits (ac_chunk ctx)" "i \<in> set (am_active m)"
proof -
  have i: "i \<in> set (am_active m)" "i \<in> dom (am_ctxs m)" using assms by (auto simp: async_ok_def)
  then obtain ctx where ctx: "am_ctxs m i = Some ctx" by auto
  then have "ctx \<in> ran (am_ctxs m)" by (rule ranI)
  then show thesis using that [OF ctx] i assms(1) by (auto simp: async_ok_def)
qed

lemma handler_ok:
  assumes "async_ok m" "am_worker m \<noteq> WorkerGone" "i \<in> fst ` set (am_conns m)" "ev \<noteq> HttpClose" "async_ev_handler ok parse i ev m = Some m'"
  shows "async_ok m'"
proof -
  obtain ctx where ctx: "am_ctxs m i = Some ctx" "memory_fits (ac_chunk ctx)" using open_conn_live [OF assms(1-3)] by blast
  obtain c ms where ms: "handle_http ok ev (ac_chunk ctx) = Some (c, ms)" "memory_fits ms" using handle_http_fits [OF ctx(2)] by blast
  have "m' = m\<lparr>am_ctxs := (am_ctxs m)(i \<mapsto> ctx\<lparr>ac_chunk := ms\<rparr>), am_conns := if c then mark_closing i (am_conns m) else am_conns m\<rparr>"
    using assms(4,5) ctx ms by (simp add: async_ev_handler_def Let_def)
  then show ?thesis using context_update_ok [OF assms(1) ctx(1) ms(2)] by simp
qed

lemma check_timeout_ok:
  assumes "async_ok m" "am_worker m \<noteq> WorkerGone" "i \<in> fst ` set (am_conns m)"
  shows "async_ok (check_timeout now i m) \<and> am_worker (check_timeout now i m) \<noteq> WorkerGone \<and>
    fst ` set (am_conns (check_timeout now i m)) = fst ` set (am_conns m)"
proof -
  obtain ctx where ctx: "am_ctxs m i = Some ctx" "memory_fits (ac_chunk ctx)" using open_conn_live [OF assms] by blast
  have "memory_fits ((ac_chunk ctx)\<lparr>ms_last_error := ''LLM request timed out'', ms_done := True\<rparr>)"
    using ctx(2) by (simp add: memory_fits_def)
  then show ?thesis
    using context_update_ok [OF assms(1) ctx(1), of "(ac_chunk ctx)\<lparr>ms_last_error := ''LLM request timed out'', ms_done := True\<rparr>" True] assms ctx(1)
    by (simp add: check_timeout_def)
qed

lemma timeouts_ok:
  assumes "async_ok m" "am_worker m = WorkerLooping"
  shows "async_ok (async_manager_check_timeouts now m)"
proof -
  have "am_worker m \<noteq> WorkerGone" using assms by simp
  then have "async_ok (fold (check_timeout now) is m)" if "set is \<subseteq> fst ` set (am_conns m)" for "is"
    using that assms(1)
  proof (induction "is" arbitrary: m)
    case (Cons i "is")
    then show ?case using check_timeout_ok [of m i now] by auto
  qed simp
  then show ?thesis by (simp add: async_manager_check_timeouts_def)
qed

lemma close_ok:
  assumes "async_ok m" "am_worker m \<noteq> WorkerGone" "i \<in> fst ` set (am_conns m)" "close_connection ok parse i m = Some m'"
  shows "async_ok m'"
proof -
  obtain ctx where ctx: "am_ctxs m i = Some ctx" "\<not> ac_callback_sent ctx" "memory_fits (ac_chunk ctx)" "i \<in> set (am_active m)"
    using open_conn_live [OF assms(1-3)] by blast
  obtain c ms where ms: "handle_http ok HttpClose (ac_chunk ctx) = Some (c, ms)" "\<not> c" by (auto simp: handle_http_def)
  have "m' = m\<lparr>am_ctxs := (am_ctxs m)(i := None), am_calls := am_calls m @ [(i, parsed_answer parse ms)],
      am_active := remove1 i (am_active m), am_conns := filter (\<lambda>c. fst c \<noteq> i) (am_conns m)\<rparr>"
    using assms(4) ctx ms
    by (simp add: close_connection_def async_ev_handler_def Let_def callback_free [where ctx = "ctx\<lparr>ac_chunk := ms\<rparr>"])
      (auto simp: answered_def)
  moreover have "distinct (map fst (am_calls m) @ am_batch m @ am_queue m @ am_active m)"
    using accounted_distinct [of m] assms(1) by (simp add: async_ok_def)
  ultimately show ?thesis
    using assms(1,2) ctx(4)
    by (auto simp: async_ok_def accounted_def ran_def distinct_map inj_on_def set_remove1_eq)
qed

definition shut_down :: "nat list \<Rightarrow> LLMAsyncManager \<Rightarrow> LLMAsyncManager" where
  "shut_down is m =
     m\<lparr>am_ctxs := am_ctxs m |` (- set is), am_calls := am_calls m @ map (\<lambda>i. (i, error_response ''Shutting down'')) is\<rparr>"

lemma answered_shut_down: "shut_down is (answered i (error_response ''Shutting down'') m) = shut_down (i # is) m"
proof -
  have "(am_ctxs m)(i := None) |` (- set is) = am_ctxs m |` (- set (i # is))" by (auto simp: restrict_map_def)
  then show ?thesis by (simp add: shut_down_def answered_def)
qed

lemma shut_down_fields [simp]:
  "am_worker (shut_down is m) = am_worker m" "am_queue (shut_down is m) = am_queue m" "am_batch (shut_down is m) = am_batch m"
  "am_active (shut_down is m) = am_active m" "am_conns (shut_down is m) = am_conns m" "am_next (shut_down is m) = am_next m"
  "am_fault (shut_down is m) = am_fault m" "dom (am_ctxs (shut_down is m)) = dom (am_ctxs m) - set is"
  "map fst (am_calls (shut_down is m)) = map fst (am_calls m) @ is"
  by (auto simp: shut_down_def o_def)

lemma set_calls_shut_down [simp]: "fst ` set (am_calls (shut_down is m)) = fst ` set (am_calls m) \<union> set is"
  by (metis shut_down_fields(9) list.set_map set_append)

lemma ran_shut_down: "ran (am_ctxs (shut_down is m)) \<subseteq> ran (am_ctxs m)"
  by (auto simp: shut_down_def ran_def restrict_map_def split: if_splits)

lemma drop_all:
  assumes "distinct is" "set is \<subseteq> dom (am_ctxs m)" "\<forall>ctx \<in> ran (am_ctxs m). \<not> ac_callback_sent ctx"
  shows "fold drop_active is m = shut_down is m \<and> fold drop_queued is m = shut_down is m"
  using assms
proof (induction "is" arbitrary: m)
  case (Cons i "is")
  then obtain ctx where ctx: "am_ctxs m i = Some ctx" "\<not> ac_callback_sent ctx" by (auto simp: ran_def)
  have "set is \<subseteq> dom (am_ctxs (answered i (error_response ''Shutting down'') m))"
      "\<forall>ctx \<in> ran (am_ctxs (answered i (error_response ''Shutting down'') m)). \<not> ac_callback_sent ctx"
    using Cons.prems by (auto simp: answered_def ran_def)
  then show ?case using Cons.IH [of "answered i (error_response ''Shutting down'') m"] Cons.prems ctx
    by (simp add: drop_live answered_shut_down)
qed (simp add: shut_down_def restrict_map_def)

lemma drain_ok:
  assumes "async_ok m" "am_worker m = WorkerLooping" "am_batch m = []"
  shows "async_ok (worker_drain m)"
proof -
  have d: "distinct (map fst (am_calls m) @ am_queue m @ am_active m)"
    using accounted_distinct [of m] assms by (simp add: async_ok_def)
  have "fold drop_queued (am_queue m) (m\<lparr>am_queue := []\<rparr>) = shut_down (am_queue m) (m\<lparr>am_queue := []\<rparr>)"
    using drop_all [of "am_queue m" "m\<lparr>am_queue := []\<rparr>"] d assms by (auto simp: async_ok_def)
  then show ?thesis using d assms ran_shut_down [of "am_queue m" "m\<lparr>am_queue := []\<rparr>"]
    by (auto simp: worker_drain_def async_ok_def accounted_def disjoint_iff simp del: map_append)
qed

lemma exit_ok:
  assumes "async_ok m" "am_worker m = WorkerDraining"
  shows "async_ok (worker_exit m)"
proof -
  have d: "distinct (map fst (am_calls m) @ am_queue m @ am_active m)"
    using accounted_distinct [of m] assms by (simp add: async_ok_def)
  have "fold drop_active (am_active m) (m\<lparr>am_active := []\<rparr>) = shut_down (am_active m) (m\<lparr>am_active := []\<rparr>)"
    using drop_all [of "am_active m" "m\<lparr>am_active := []\<rparr>"] d assms by (auto simp: async_ok_def)
  then show ?thesis using d assms ran_shut_down [of "am_active m" "m\<lparr>am_active := []\<rparr>"]
    by (auto simp: worker_exit_def async_ok_def accounted_def disjoint_iff add.commute simp del: map_append)
qed

lemma async_step_ok: "async_step ok parse m m' \<Longrightarrow> async_ok m \<Longrightarrow> async_ok m'"
  by (induction rule: async_step.induct)
    (blast intro: submit_ok take_queue_ok process_ok handler_ok close_ok timeouts_ok stop_ok drain_ok exit_ok)+

lemma async_reachable_ok: "async_reachable ok parse m \<Longrightarrow> async_ok m"
  by (induction rule: async_reachable.induct) (auto intro: start_ok async_step_ok)

text \<open>
  Claim C25. The manager accounts for every request. In every reachable state, each of the requests submitted so far is in exactly one
  place: answered (its callback has been called, once), taken by the thread, in the queue, or under way on a connection. No freed context
  has been used. This is with any order of the submissions, the network's events, the timeouts and the shutdown.
\<close>
theorem each_request_has_one_place:
  assumes "async_reachable ok parse m"
  shows "mset (map fst (am_calls m) @ am_batch m @ am_queue m @ am_active m) = mset [0..<am_next m] \<and> \<not> am_fault m"
  using async_reachable_ok [OF assms] by (simp add: async_ok_def accounted_def)

definition demo_async :: LLMAsyncManager where
  "demo_async =
     (let m = async_worker_dequeue_all (openai_provider_call_async 5 (llm_async_manager_start llm_async_manager_new));
          m = async_worker_process_item True 0 (m\<lparr>am_batch := []\<rparr>)
      in worker_exit (worker_drain (m\<lparr>am_running := False\<rparr>)))"

lemma demo_async_reachable: "async_reachable ok parse demo_async"
proof -
  note defs = llm_async_manager_start_def llm_async_manager_new_def openai_provider_call_async_def async_worker_dequeue_all_def
    async_worker_process_item_def worker_drain_def
  let ?m1 = "openai_provider_call_async 5 (llm_async_manager_start llm_async_manager_new)"
  let ?m2 = "async_worker_dequeue_all ?m1"
  let ?m3 = "async_worker_process_item True 0 (?m2\<lparr>am_batch := []\<rparr>)"
  let ?m4 = "?m3\<lparr>am_running := False\<rparr>"
  have 1: "async_reachable ok parse ?m1" using async_reachable.start async_step.submit by (rule async_reachable.step)
  have 2: "async_reachable ok parse ?m2" by (rule async_reachable.step [OF 1 async_step.take_queue]) (simp_all add: defs)
  have 3: "async_reachable ok parse ?m3" by (rule async_reachable.step [OF 2 async_step.process_item]) (simp_all add: defs)
  have 4: "async_reachable ok parse ?m4" using 3 async_step.stop by (rule async_reachable.step)
  have 5: "async_reachable ok parse (worker_drain ?m4)" by (rule async_reachable.step [OF 4 async_step.drain]) (simp_all add: defs)
  have "async_reachable ok parse (worker_exit (worker_drain ?m4))"
    by (rule async_reachable.step [OF 5 async_step.exit]) (simp_all add: defs)
  then show ?thesis by (simp add: demo_async_def Let_def)
qed

lemma demo_async_state:
  "am_worker demo_async = WorkerGone" "am_calls demo_async = [(0, error_response ''Shutting down'')]" "am_conns demo_async = [(0, False)]"
  by (simp_all add: demo_async_def Let_def llm_async_manager_start_def llm_async_manager_new_def openai_provider_call_async_def
      async_worker_dequeue_all_def async_worker_process_item_def worker_drain_def worker_exit_def drop_live
      answered_def buffer_new_def)

theorem each_request_has_one_place_witness:
  "am_calls demo_async = [(0, error_response ''Shutting down'')] \<and>
   mset (map fst (am_calls demo_async) @ am_batch demo_async @ am_queue demo_async @ am_active demo_async) = mset [0..<am_next demo_async]"
  using each_request_has_one_place [OF demo_async_reachable] demo_async_state by simp

text \<open>The contexts of the connections that are still open have been freed when \<open>mg_mgr_free\<close> closes them.\<close>

lemma close_freed:
  "am_ctxs m i = None \<Longrightarrow> \<exists>m'. close_connection ok parse i m = Some m' \<and> am_fault m' \<and> am_ctxs m' = am_ctxs m"
  by (simp add: close_connection_def async_ev_handler_def)

lemma close_all_freed:
  "\<forall>i \<in> set is. am_ctxs m i = None \<Longrightarrow> am_fault m \<Longrightarrow> \<exists>m'. close_all ok parse is m = Some m' \<and> am_fault m'"
proof (induction "is" arbitrary: m)
  case (Cons i "is")
  obtain m1 where "close_connection ok parse i m = Some m1" "am_fault m1" "am_ctxs m1 = am_ctxs m"
    using close_freed [of m i ok parse] Cons.prems by auto
  then show ?case using Cons.IH [of m1] Cons.prems by simp
qed simp

text \<open>
  Claim C26. A shutdown uses freed memory exactly when a call was under way: when the thread has ended, freeing the manager accesses
  a freed context if and only if a connection is still open, since the thread answers and frees the calls that are under way but leaves
  their connections to \<open>mg_mgr_free\<close>, whose close event comes back to the handler.
\<close>
theorem shutdown_uses_freed_iff_open:
  assumes "async_reachable ok parse m" "am_worker m = WorkerGone"
  shows "\<exists>m'. llm_async_manager_free ok parse m = Some m' \<and> (am_fault m' \<longleftrightarrow> am_conns m \<noteq> [])"
proof -
  have inv: "async_ok m" using async_reachable_ok [OF assms(1)] .
  have freed: "am_ctxs m i = None" if "i \<in> fst ` set (am_conns m)" for i
  proof -
    have "i \<in> fst ` set (am_calls m)" "dom (am_ctxs m) = set (am_queue m)" using inv assms(2) that by (auto simp: async_ok_def)
    moreover have "distinct (map fst (am_calls m) @ am_queue m)"
      using accounted_distinct(1) [of m] inv assms(2) by (simp add: async_ok_def)
    ultimately show ?thesis by (auto simp: disjoint_iff)
  qed
  show ?thesis
  proof (cases "am_conns m")
    case Nil
    then show ?thesis using inv by (simp add: llm_async_manager_free_def async_ok_def)
  next
    case (Cons c cs)
    obtain m1 where m1: "close_connection ok parse (fst c) m = Some m1" "am_fault m1" "am_ctxs m1 = am_ctxs m"
      using close_freed [of m "fst c" ok parse] freed Cons by auto
    have "\<exists>m'. close_all ok parse (map fst cs) m1 = Some m' \<and> am_fault m'"
      by (rule close_all_freed) (use freed Cons m1 in auto)
    then show ?thesis using m1 Cons by (simp add: llm_async_manager_free_def)
  qed
qed

theorem shutdown_uses_freed_iff_open_witness:
  "\<exists>m'. llm_async_manager_free (\<lambda>_. True) demo_stream_parse demo_async = Some m' \<and> am_fault m'"
  using shutdown_uses_freed_iff_open [OF demo_async_reachable, of "\<lambda>_. True" demo_stream_parse] demo_async_state by simp

end
