(* ===== verification/PluginManager.thy ===== *)
theory PluginManager
  imports Json CLib Session
begin

text \<open>
  \<open>plugin/plugin_manager.c\<close>: the list of loaded plugins and what they have registered. A shared object is given by what its functions
  do; \<open>dlopen\<close> gives it a handle that is not used twice, and \<open>dlclose\<close> unmaps its code. Everything a plugin registers is
  remembered with the handle its code lies in, so that a call into unmapped code can be seen; the registries themselves are those of
  \<open>ToolRegistry\<close>, \<open>LlmProvider\<close> and \<open>CommandDispatcher\<close>. Memory is taken to be available.
\<close>

section \<open>Shared objects and plugins\<close>

datatype PluginType = PLUGIN_TOOL | PLUGIN_CHANNEL | PLUGIN_MCP | PLUGIN_COMMAND | PLUGIN_LLM_PROVIDER

record PluginInfo =
  pi_id :: "string option"
  pi_name :: "string option"
  pi_type :: PluginType
  pi_default_config :: "json option"

text \<open>What \<open>plugin_init\<close> registers, in order, with the results of the functions it passes on: a channel whose \<open>init\<close> or a provider whose \<open>init\<close> fails.\<close>

datatype Registration = RegTool string | RegCommand string | RegChannel string bool | RegProvider string bool

text \<open>\<open>so_info\<close> is \<open>None\<close> when \<open>plugin_get_info\<close> is missing or returns \<open>NULL\<close>.\<close>

record SharedObject =
  so_info :: "PluginInfo option"
  so_init :: "(Registration list \<times> int) option"
  so_has_cleanup :: bool

text \<open>\<open>pl_cleanup\<close> is the handle of the code that the pointer \<open>cleanup\<close> points to.\<close>

record LoadedPlugin =
  pl_addr :: nat
  pl_path :: string
  pl_name :: string
  pl_id :: string
  pl_type :: PluginType
  pl_handle :: "nat option"
  pl_cleanup :: "nat option"

datatype Kind = KTool | KCommand | KChannel | KProvider

record Entry =
  en_kind :: Kind
  en_name :: string
  en_plugin :: nat
  en_code :: nat

record PluginConfig =
  pcf_id :: string
  pcf_enabled :: bool
  pcf_config :: "json option"

record PluginManager =
  pm_plugins :: "LoadedPlugin list"
  pm_count :: int
  pm_entries :: "Entry list"
  pm_channel_names :: "string list"
  pm_config :: "PluginConfig list"
  pm_open :: "nat set"
  pm_next :: nat
  pm_fault :: bool

definition plugin_manager_new :: "PluginConfig list \<Rightarrow> PluginManager" where
  "plugin_manager_new config =
     \<lparr>pm_plugins = [], pm_count = 0, pm_entries = [], pm_channel_names = [], pm_config = config, pm_open = {}, pm_next = 0, pm_fault = False\<rparr>"

definition dlopen :: "PluginManager \<Rightarrow> nat \<times> PluginManager" where
  "dlopen m = (pm_next m, m\<lparr>pm_open := insert (pm_next m) (pm_open m), pm_next := pm_next m + 1\<rparr>)"

definition dlclose :: "nat \<Rightarrow> PluginManager \<Rightarrow> PluginManager" where
  "dlclose h m = m\<lparr>pm_open := pm_open m - {h}\<rparr>"

text \<open>A call through a pointer into the code of a handle.\<close>

definition call_code :: "nat option \<Rightarrow> PluginManager \<Rightarrow> PluginManager" where
  "call_code target m = (case target of None \<Rightarrow> m | Some h \<Rightarrow> if h \<in> pm_open m then m else m\<lparr>pm_fault := True\<rparr>)"

section \<open>Configuration entries\<close>

definition config_get_plugin_config :: "string \<Rightarrow> PluginConfig list \<Rightarrow> PluginConfig option" where
  "config_get_plugin_config plugin_id cfg = find (\<lambda>c. pcf_id c = plugin_id) cfg"

definition add_default_config :: "PluginInfo \<Rightarrow> LoadedPlugin \<Rightarrow> PluginConfig list \<Rightarrow> PluginConfig list" where
  "add_default_config info p cfg =
     (if config_get_plugin_config (pl_id p) cfg \<noteq> None then cfg
      else cfg @ [\<lparr>pcf_id = pl_id p, pcf_enabled = (pl_type p \<in> {PLUGIN_TOOL, PLUGIN_LLM_PROVIDER}), pcf_config = pi_default_config info\<rparr>])"

definition plugin_config_from_so_name :: "string \<Rightarrow> PluginConfig list \<Rightarrow> PluginConfig option" where
  "plugin_config_from_so_name path cfg =
     (let filename = (case strrchr path CHR ''/'' of Some f \<Rightarrow> tl f | None \<Rightarrow> path);
          id_len = (case strrchr filename CHR ''.'' of Some d \<Rightarrow> length filename - length d | None \<Rightarrow> length filename)
      in if filename = [] \<or> id_len = 0 \<or> id_len \<ge> 256 then None
         else config_get_plugin_config (take id_len filename) cfg)"

section \<open>Registration\<close>

definition register_one :: "nat \<Rightarrow> nat \<Rightarrow> Registration \<Rightarrow> PluginManager \<Rightarrow> PluginManager" where
  "register_one plugin h r m =
     (let add = (\<lambda>kind name. m\<lparr>pm_entries := pm_entries m @ [\<lparr>en_kind = kind, en_name = name, en_plugin = plugin, en_code = h\<rparr>]\<rparr>)
      in case r of
           RegTool name \<Rightarrow> add KTool name
         | RegCommand name \<Rightarrow> add KCommand name
         | RegChannel name init_ok \<Rightarrow>
             if \<not> init_ok then m
             else (add KChannel name)\<lparr>pm_channel_names := (if length (pm_channel_names m) < 16 then pm_channel_names m @ [name]
                                                            else pm_channel_names m)\<rparr>
         | RegProvider name init_ok \<Rightarrow>
             if \<not> init_ok then m
             else (let given = (case config_get_plugin_config name (pm_config m) of
                                  Some pc \<Rightarrow> (case json_string (get_object_item (pcf_config pc) ''name'') of Some n \<Rightarrow> n | None \<Rightarrow> [])
                                | None \<Rightarrow> []);
                       provider_name = (if given \<noteq> [] then given else name)
                   in if list_ex (\<lambda>e. en_kind e = KProvider \<and> en_name e = provider_name) (pm_entries m) then m
                      else add KProvider provider_name))"

definition unregister_providers :: "nat \<Rightarrow> PluginManager \<Rightarrow> PluginManager" where
  "unregister_providers plugin m =
     (let gone = filter (\<lambda>e. en_kind e = KProvider \<and> en_plugin e = plugin) (pm_entries m);
          m = fold (\<lambda>e. call_code (Some (en_code e))) gone m
      in m\<lparr>pm_entries := filter (\<lambda>e. \<not> (en_kind e = KProvider \<and> en_plugin e = plugin)) (pm_entries m)\<rparr>)"

section \<open>Loading and unloading\<close>

text \<open>\<open>lib\<close> is the shared object at the path, \<open>None\<close> when \<open>dlopen\<close> fails.\<close>

definition load_plugin_from_file :: "SharedObject option \<Rightarrow> string \<Rightarrow> PluginManager \<Rightarrow> LoadedPlugin option \<times> PluginManager" where
  "load_plugin_from_file lib path m =
     (case lib of
        None \<Rightarrow> (None, m)
      | Some so \<Rightarrow>
          (case dlopen m of
             (h, m) \<Rightarrow>
               (case so_info so of
                  None \<Rightarrow> (None, dlclose h m)
                | Some info \<Rightarrow>
                    (let name = (case pi_name info of Some n \<Rightarrow> n | None \<Rightarrow> path)
                     in (Some \<lparr>pl_addr = pm_next m, pl_path = path, pl_name = name,
                               pl_id = (case pi_id info of Some i \<Rightarrow> i | None \<Rightarrow> name), pl_type = pi_type info, pl_handle = Some h,
                               pl_cleanup = (if so_has_cleanup so then Some h else None)\<rparr>,
                         m\<lparr>pm_next := pm_next m + 1\<rparr>)))))"

definition run_init :: "SharedObject \<Rightarrow> nat \<Rightarrow> nat \<Rightarrow> PluginManager \<Rightarrow> int \<times> PluginManager" where
  "run_init so plugin h m =
     (case so_init so of None \<Rightarrow> (0, m) | Some (rs, ret) \<Rightarrow> (ret, fold (register_one plugin h) rs m))"

definition plugin_manager_load_plugin :: "SharedObject option \<Rightarrow> string \<Rightarrow> PluginManager \<Rightarrow> int \<times> PluginManager" where
  "plugin_manager_load_plugin lib path m =
     (if list_ex (\<lambda>p. pl_path p = path) (pm_plugins m) then (0, m)
      else (case (lib, load_plugin_from_file lib path m) of
              (Some so, (Some p, m)) \<Rightarrow>
                (let h = the (pl_handle p)
                 in case run_init so (pl_addr p) h m of
                      (ret, m) \<Rightarrow>
                        if ret \<noteq> 0 then (- 1, dlclose h m)
                        else (0, m\<lparr>pm_plugins := p # pm_plugins m, pm_count := pm_count m + 1,
                                   pm_config := (case so_info so of Some info \<Rightarrow> add_default_config info p (pm_config m) | None \<Rightarrow> pm_config m)\<rparr>))
            | (_, (_, m)) \<Rightarrow> (- 1, m)))"

definition close_plugin :: "LoadedPlugin \<Rightarrow> PluginManager \<Rightarrow> PluginManager" where
  "close_plugin p m =
     (let m = (if pl_type p = PLUGIN_LLM_PROVIDER then unregister_providers (pl_addr p) m else m);
          m = call_code (pl_cleanup p) m
      in case pl_handle p of Some h \<Rightarrow> dlclose h m | None \<Rightarrow> m)"

definition plugin_manager_unload_plugin :: "LoadedPlugin \<Rightarrow> PluginManager \<Rightarrow> PluginManager" where
  "plugin_manager_unload_plugin p m =
     (let m = close_plugin p m
      in m\<lparr>pm_plugins := remove_first (\<lambda>q. pl_addr q = pl_addr p) (pm_plugins m), pm_count := pm_count m - 1\<rparr>)"

definition set_plugin :: "LoadedPlugin \<Rightarrow> PluginManager \<Rightarrow> PluginManager" where
  "set_plugin p m = m\<lparr>pm_plugins := update_first (\<lambda>q. pl_addr q = pl_addr p) (\<lambda>_. p) (pm_plugins m)\<rparr>"

definition plugin_manager_get_loaded_plugin :: "string \<Rightarrow> PluginManager \<Rightarrow> LoadedPlugin option" where
  "plugin_manager_get_loaded_plugin plugin_id m = find (\<lambda>p. pl_id p = plugin_id \<or> pl_name p = plugin_id) (pm_plugins m)"

text \<open>The second half of \<open>plugin_manager_reload_plugin\<close>: the object is opened again and initialized.\<close>

definition reopen_plugin :: "SharedObject option \<Rightarrow> LoadedPlugin \<Rightarrow> PluginManager \<Rightarrow> int \<times> PluginManager" where
  "reopen_plugin lib p m =
     (case lib of
        None \<Rightarrow> (- 1, set_plugin (p\<lparr>pl_handle := None\<rparr>) m)
      | Some so \<Rightarrow>
          (case dlopen m of
             (h, m) \<Rightarrow>
               (let p = p\<lparr>pl_handle := Some h, pl_cleanup := (if so_has_cleanup so then Some h else None)\<rparr>
                in case run_init so (pl_addr p) h (set_plugin p m) of
                     (ret, m) \<Rightarrow>
                       if ret \<noteq> 0 then (- 1, set_plugin (p\<lparr>pl_handle := None\<rparr>) (dlclose h m)) else (0, m))))"

definition plugin_manager_reload_plugin :: "SharedObject option \<Rightarrow> string \<Rightarrow> PluginManager \<Rightarrow> int \<times> PluginManager" where
  "plugin_manager_reload_plugin lib plugin_id m =
     (case plugin_manager_get_loaded_plugin plugin_id m of
        None \<Rightarrow> (- 1, m)
      | Some p \<Rightarrow> reopen_plugin lib p (close_plugin p m))"

text \<open>The result is a copy: an object of its own, at a fresh address.\<close>

definition plugin_manager_find_plugin :: "string \<Rightarrow> PluginManager \<Rightarrow> LoadedPlugin option" where
  "plugin_manager_find_plugin plugin_id m =
     map_option (\<lambda>p. p\<lparr>pl_addr := pm_next m, pl_handle := None, pl_cleanup := None\<rparr>) (find (\<lambda>p. pl_id p = plugin_id) (pm_plugins m))"

definition plugin_manager_find_plugin_by_name :: "string \<Rightarrow> PluginManager \<Rightarrow> LoadedPlugin option" where
  "plugin_manager_find_plugin_by_name name m =
     map_option (\<lambda>p. p\<lparr>pl_addr := pm_next m, pl_handle := None, pl_cleanup := None\<rparr>) (find (\<lambda>p. pl_name p = name) (pm_plugins m))"

text \<open>\<open>files\<close> are the paths that the walk over the plugin directory found, with their shared objects.\<close>

fun plugin_manager_load_external :: "(string \<times> SharedObject option) list \<Rightarrow> PluginManager \<Rightarrow> nat \<times> PluginManager" where
  "plugin_manager_load_external [] m = (0, m)"
| "plugin_manager_load_external ((path, lib) # files) m =
     (case plugin_config_from_so_name path (pm_config m) of
        Some cfg \<Rightarrow>
          if pcf_enabled cfg
          then (case plugin_manager_load_plugin lib path m of
                  (ret, m) \<Rightarrow> (case plugin_manager_load_external files m of (n, m) \<Rightarrow> (if ret = 0 then Suc n else n, m)))
          else plugin_manager_load_external files m
      | None \<Rightarrow> plugin_manager_load_external files m)"

definition plugin_manager_free :: "PluginManager \<Rightarrow> PluginManager" where
  "plugin_manager_free m = (fold close_plugin (pm_plugins m) m)\<lparr>pm_plugins := []\<rparr>"

section \<open>The list of plugins\<close>

text \<open>What a run looks like: the operations of the program, with any shared objects.\<close>

datatype PluginOp = LoadOp "SharedObject option" string | UnloadOp string | ReloadOp "SharedObject option" string

definition plugin_op :: "PluginOp \<Rightarrow> PluginManager \<Rightarrow> PluginManager" where
  "plugin_op op m =
     (case op of
        LoadOp lib path \<Rightarrow> snd (plugin_manager_load_plugin lib path m)
      | UnloadOp i \<Rightarrow> (case plugin_manager_get_loaded_plugin i m of Some p \<Rightarrow> plugin_manager_unload_plugin p m | None \<Rightarrow> m)
      | ReloadOp lib i \<Rightarrow> snd (plugin_manager_reload_plugin lib i m))"

lemma register_one_fields [simp]:
  "pm_plugins (register_one a h r m) = pm_plugins m" "pm_count (register_one a h r m) = pm_count m"
  "pm_open (register_one a h r m) = pm_open m" "pm_next (register_one a h r m) = pm_next m" "pm_fault (register_one a h r m) = pm_fault m"
  by (cases r; simp add: register_one_def Let_def)+

lemma register_all_fields [simp]:
  "pm_plugins (fold (register_one a h) rs m) = pm_plugins m" "pm_count (fold (register_one a h) rs m) = pm_count m"
  "pm_open (fold (register_one a h) rs m) = pm_open m" "pm_next (fold (register_one a h) rs m) = pm_next m"
  "pm_fault (fold (register_one a h) rs m) = pm_fault m"
  by (induction rs arbitrary: m) simp_all

lemma run_init_fields [simp]:
  assumes "run_init so a h m = (ret, m')"
  shows "pm_plugins m' = pm_plugins m" "pm_count m' = pm_count m" "pm_open m' = pm_open m" "pm_next m' = pm_next m" "pm_fault m' = pm_fault m"
  using assms by (auto simp: run_init_def split: option.splits)

lemma call_code_fields [simp]:
  "pm_plugins (call_code t m) = pm_plugins m" "pm_count (call_code t m) = pm_count m" "pm_open (call_code t m) = pm_open m"
  "pm_next (call_code t m) = pm_next m" "pm_entries (call_code t m) = pm_entries m" "pm_config (call_code t m) = pm_config m"
  "pm_channel_names (call_code t m) = pm_channel_names m"
  by (simp_all add: call_code_def split: option.split)

lemma call_all_fields [simp]:
  "pm_plugins (fold (\<lambda>e. call_code (f e)) es m) = pm_plugins m" "pm_count (fold (\<lambda>e. call_code (f e)) es m) = pm_count m"
  "pm_open (fold (\<lambda>e. call_code (f e)) es m) = pm_open m" "pm_next (fold (\<lambda>e. call_code (f e)) es m) = pm_next m"
  "pm_entries (fold (\<lambda>e. call_code (f e)) es m) = pm_entries m"
  by (induction es arbitrary: m) simp_all

lemma close_plugin_fields [simp]:
  "pm_plugins (close_plugin p m) = pm_plugins m" "pm_count (close_plugin p m) = pm_count m" "pm_next (close_plugin p m) = pm_next m"
  "pm_open (close_plugin p m) = pm_open m - set_option (pl_handle p)"
  by (auto simp: close_plugin_def unregister_providers_def dlclose_def Let_def split: option.split)

text \<open>Paths and addresses are distinct, the count is right, the open handles are those of the plugins, each with one owner.\<close>

definition handles :: "LoadedPlugin list \<Rightarrow> nat list" where
  "handles ps = concat (map (\<lambda>p. case pl_handle p of Some h \<Rightarrow> [h] | None \<Rightarrow> []) ps)"

lemma handles_simps [simp]:
  "handles [] = []" "handles (p # ps) = (case pl_handle p of Some h \<Rightarrow> h # handles ps | None \<Rightarrow> handles ps)"
  "handles (ps @ qs) = handles ps @ handles qs"
  by (simp_all add: handles_def split: option.split)

definition plugins_ok :: "PluginManager \<Rightarrow> bool" where
  "plugins_ok m \<longleftrightarrow>
     distinct (map pl_path (pm_plugins m)) \<and> distinct (map pl_addr (pm_plugins m)) \<and> pm_count m = int (length (pm_plugins m)) \<and>
     distinct (handles (pm_plugins m)) \<and> pm_open m = set (handles (pm_plugins m)) \<and>
     (\<forall>a \<in> pl_addr ` set (pm_plugins m). a < pm_next m) \<and> (\<forall>h \<in> pm_open m. h < pm_next m)"

lemma load_shape:
  assumes "pm_next m \<notin> pm_open m" "snd (plugin_manager_load_plugin lib path m) = m'"
  shows "pm_plugins m' = pm_plugins m \<and> pm_count m' = pm_count m \<and> pm_open m' = pm_open m \<and> pm_next m \<le> pm_next m' \<or>
    (\<exists>p. pm_plugins m' = p # pm_plugins m \<and> pm_count m' = pm_count m + 1 \<and> pm_open m' = insert (pm_next m) (pm_open m) \<and>
       pm_next m' = pm_next m + 2 \<and> pl_addr p = pm_next m + 1 \<and> pl_handle p = Some (pm_next m) \<and> pl_path p = path \<and>
       path \<notin> pl_path ` set (pm_plugins m))"
proof (cases "list_ex (\<lambda>p. pl_path p = path) (pm_plugins m)")
  case False
  then have new: "path \<notin> pl_path ` set (pm_plugins m)" by (auto simp: list_ex_iff)
  show ?thesis
  proof (cases lib)
    case None
    then show ?thesis using assms(2) False by (auto simp: plugin_manager_load_plugin_def load_plugin_from_file_def)
  next
    case lib: (Some so)
    show ?thesis
    proof (cases "so_info so")
      case None
      then show ?thesis using assms False lib
        by (auto simp: plugin_manager_load_plugin_def load_plugin_from_file_def dlopen_def dlclose_def)
    next
      case (Some info)
      obtain p m1 where p: "load_plugin_from_file lib path m = (Some p, m1)" "pl_addr p = pm_next m + 1" "pl_handle p = Some (pm_next m)"
          "pl_path p = path" "pm_next m1 = pm_next m + 2" "pm_open m1 = insert (pm_next m) (pm_open m)" "pm_plugins m1 = pm_plugins m"
          "pm_count m1 = pm_count m"
        using lib Some by (auto simp: load_plugin_from_file_def dlopen_def Let_def)
      obtain ret m2 where r: "run_init so (pl_addr p) (pm_next m) m1 = (ret, m2)" by (cases "run_init so (pl_addr p) (pm_next m) m1")
      show ?thesis
      proof (cases "ret = 0")
        case True
        then show ?thesis using assms(2) False lib Some p r run_init_fields [OF r] new
          by (auto simp: plugin_manager_load_plugin_def)
      next
        case nz: False
        then show ?thesis using assms False lib Some p r run_init_fields [OF r]
          by (auto simp: plugin_manager_load_plugin_def dlclose_def)
      qed
    qed
  qed
qed (use assms in \<open>simp add: plugin_manager_load_plugin_def\<close>)

lemma next_not_open: "plugins_ok m \<Longrightarrow> pm_next m \<notin> pm_open m"
  by (auto simp: plugins_ok_def)

lemma load_ok:
  assumes "plugins_ok m"
  shows "plugins_ok (snd (plugin_manager_load_plugin lib path m))"
proof -
  define m' where "m' = snd (plugin_manager_load_plugin lib path m)"
  consider "pm_plugins m' = pm_plugins m" "pm_count m' = pm_count m" "pm_open m' = pm_open m" "pm_next m \<le> pm_next m'"
    | p where "pm_plugins m' = p # pm_plugins m" "pm_count m' = pm_count m + 1" "pm_open m' = insert (pm_next m) (pm_open m)"
       "pm_next m' = pm_next m + 2" "pl_addr p = pm_next m + 1" "pl_handle p = Some (pm_next m)" "pl_path p = path"
       "path \<notin> pl_path ` set (pm_plugins m)"
    using load_shape [OF next_not_open [OF assms] m'_def [symmetric]] by blast
  then have "plugins_ok m'"
  proof cases
    case 1
    then show ?thesis using assms by (fastforce simp: plugins_ok_def)
  next
    case 2
    have "pm_next m + 1 \<notin> pl_addr ` set (pm_plugins m)" using assms by (fastforce simp: plugins_ok_def)
    then show ?thesis using assms 2 next_not_open [OF assms] by (fastforce simp: plugins_ok_def)
  qed
  then show ?thesis by (simp add: m'_def)
qed

text \<open>A plugin of the list, and the list around it.\<close>

lemma list_around:
  assumes "p \<in> set ps" "distinct (map pl_addr ps)"
  obtains a b where "ps = a @ p # b" "remove_first (\<lambda>q. pl_addr q = pl_addr p) ps = a @ b"
    "\<And>p'. update_first (\<lambda>q. pl_addr q = pl_addr p) (\<lambda>_. p') ps = a @ p' # b"
proof -
  obtain a b where ab: "ps = a @ p # b" using split_list [OF assms(1)] by blast
  have "pl_addr p \<notin> pl_addr ` set a" using assms(2) by (auto simp: ab)
  then have "\<forall>q \<in> set a. pl_addr q \<noteq> pl_addr p" by (metis image_eqI)
  then have "remove_first (\<lambda>q. pl_addr q = pl_addr p) (a @ p # b) = a @ b"
      "update_first (\<lambda>q. pl_addr q = pl_addr p) (\<lambda>_. p') (a @ p # b) = a @ p' # b" for p'
    by (induction a) auto
  then show thesis using that ab by blast
qed

lemma unload_ok:
  assumes "plugins_ok m" "p \<in> set (pm_plugins m)"
  shows "plugins_ok (plugin_manager_unload_plugin p m)"
proof -
  obtain a b where ab: "pm_plugins m = a @ p # b" "remove_first (\<lambda>q. pl_addr q = pl_addr p) (pm_plugins m) = a @ b"
    using list_around [OF assms(2)] assms(1) by (metis plugins_ok_def)
  show ?thesis using assms(1) ab
    by (cases "pl_handle p") (auto simp: plugins_ok_def plugin_manager_unload_plugin_def Let_def)
qed

lemma reopen_shape:
  assumes "pm_plugins m = a @ p # b" "\<forall>q \<in> set a. pl_addr q \<noteq> pl_addr p" "pm_next m \<notin> pm_open m" "m' = snd (reopen_plugin lib p m)"
  shows "\<exists>p'. pl_addr p' = pl_addr p \<and> pl_path p' = pl_path p \<and> pm_plugins m' = a @ p' # b \<and> pm_count m' = pm_count m \<and> pm_next m \<le> pm_next m' \<and>
    (pl_handle p' = None \<and> pm_open m' = pm_open m \<or>
     pl_handle p' = Some (pm_next m) \<and> pm_open m' = insert (pm_next m) (pm_open m) \<and> pm_next m' = pm_next m + 1)"
proof -
  have up: "update_first (\<lambda>q. pl_addr q = pl_addr p) (\<lambda>_. p'') (a @ p' # b) = a @ p'' # b" if "pl_addr p' = pl_addr p" for p' p''
    using assms(2) that by (induction a) auto
  show ?thesis
  proof (cases lib)
    case None
    then show ?thesis using assms up [of p] by (auto simp: reopen_plugin_def set_plugin_def)
  next
    case (Some so)
    define p1 where "p1 = p\<lparr>pl_handle := Some (pm_next m), pl_cleanup := (if so_has_cleanup so then Some (pm_next m) else None)\<rparr>"
    define m1 where "m1 = set_plugin p1 (snd (dlopen m))"
    obtain ret m2 where r: "run_init so (pl_addr p) (pm_next m) m1 = (ret, m2)" by (cases "run_init so (pl_addr p) (pm_next m) m1")
    have p1: "pl_addr p1 = pl_addr p" "pl_path p1 = pl_path p" "pl_handle p1 = Some (pm_next m)" by (simp_all add: p1_def)
    have m': "m' = (if ret \<noteq> 0 then set_plugin (p1\<lparr>pl_handle := None\<rparr>) (dlclose (pm_next m) m2) else m2)"
      using r assms(4) Some by (simp add: reopen_plugin_def dlopen_def Let_def p1_def m1_def)
    have f: "pm_plugins m2 = a @ p1 # b" "pm_count m2 = pm_count m" "pm_open m2 = insert (pm_next m) (pm_open m)" "pm_next m2 = pm_next m + 1"
      using run_init_fields [OF r] assms(1) up [of p p1] p1 by (simp_all add: m1_def set_plugin_def dlopen_def)
    show ?thesis
    proof (cases "ret = 0")
      case True
      then show ?thesis using m' f p1 by auto
    next
      case False
      then show ?thesis using m' f p1 up [of p1 "p1\<lparr>pl_handle := None\<rparr>"] assms(3)
        by (intro exI [of _ "p1\<lparr>pl_handle := None\<rparr>"]) (auto simp: set_plugin_def dlclose_def)
    qed
  qed
qed

lemma reload_ok:
  assumes "plugins_ok m"
  shows "plugins_ok (snd (plugin_manager_reload_plugin lib i m))"
proof (cases "plugin_manager_get_loaded_plugin i m")
  case (Some p)
  then have p: "p \<in> set (pm_plugins m)" by (auto simp: plugin_manager_get_loaded_plugin_def find_Some_iff)
  then obtain a b where ab: "pm_plugins m = a @ p # b" using split_list by metis
  have "pl_addr p \<notin> pl_addr ` set a" using assms by (auto simp: plugins_ok_def ab)
  then have a: "\<forall>q \<in> set a. pl_addr q \<noteq> pl_addr p" by (metis image_eqI)
  define m' where "m' = snd (plugin_manager_reload_plugin lib i m)"
  have "m' = snd (reopen_plugin lib p (close_plugin p m))" using Some by (simp add: plugin_manager_reload_plugin_def m'_def)
  then obtain p' where p': "pl_addr p' = pl_addr p" "pl_path p' = pl_path p" "pm_plugins m' = a @ p' # b" "pm_count m' = pm_count m"
      "pm_next m \<le> pm_next m'"
      "pl_handle p' = None \<and> pm_open m' = pm_open m - set_option (pl_handle p) \<or>
       pl_handle p' = Some (pm_next m) \<and> pm_open m' = insert (pm_next m) (pm_open m - set_option (pl_handle p)) \<and> pm_next m' = pm_next m + 1"
    using reopen_shape [of "close_plugin p m" a p b m' lib] ab a next_not_open [OF assms] by auto
  have n: "pm_next m \<notin> pm_open m" using next_not_open [OF assms] .
  have bound: "\<forall>x \<in> pl_addr ` set (pm_plugins m). x < pm_next m'" "\<forall>x \<in> pm_open m. x < pm_next m'"
    using assms p'(5) by (auto simp: plugins_ok_def dest: less_le_trans)
  have set': "pl_addr ` set (pm_plugins m') = pl_addr ` set (pm_plugins m)" "map pl_addr (pm_plugins m') = map pl_addr (pm_plugins m)"
      "map pl_path (pm_plugins m') = map pl_path (pm_plugins m)" "length (pm_plugins m') = length (pm_plugins m)"
    using p' ab by simp_all
  have old: "distinct (handles (pm_plugins m))" "pm_open m = set (handles (pm_plugins m))" using assms by (simp_all add: plugins_ok_def)
  have rest: "distinct (handles a @ handles b)" "pm_open m - set_option (pl_handle p) = set (handles a @ handles b)"
    using old by (auto simp: ab split: option.splits)
  have "distinct (handles (pm_plugins m')) \<and> pm_open m' = set (handles (pm_plugins m')) \<and> (\<forall>h \<in> pm_open m'. h < pm_next m')"
    using p'(6)
  proof
    assume "pl_handle p' = None \<and> pm_open m' = pm_open m - set_option (pl_handle p)"
    then show ?thesis using rest bound p'(3) by auto
  next
    assume h: "pl_handle p' = Some (pm_next m) \<and> pm_open m' = insert (pm_next m) (pm_open m - set_option (pl_handle p)) \<and> pm_next m' = pm_next m + 1"
    have "pm_next m \<notin> set (handles a @ handles b)" using n rest(2) by auto
    then show ?thesis using h rest bound p'(3) by auto
  qed
  then have "plugins_ok m'" using assms p'(4) set' bound(1) by (simp add: plugins_ok_def)
  then show ?thesis by (simp add: m'_def)
qed (simp add: plugin_manager_reload_plugin_def assms)

lemma new_ok: "plugins_ok (plugin_manager_new config)"
  by (simp add: plugins_ok_def plugin_manager_new_def)

lemma plugin_op_ok: "plugins_ok m \<Longrightarrow> plugins_ok (plugin_op op m)"
  by (cases op)
    (auto simp: plugin_op_def load_ok reload_ok unload_ok plugin_manager_get_loaded_plugin_def find_Some_iff split: option.split)

text \<open>
  After any sequence of loads, unloads and reloads with any shared objects, working or failing, no path
  is loaded twice and the open shared objects are exactly those that a listed plugin holds, each held by one plugin.
\<close>

lemma plugin_list_sound: "plugins_ok (fold plugin_op ops (plugin_manager_new config))"
proof -
  have "plugins_ok (fold plugin_op ops m)" if "plugins_ok m" for m
    using that by (induction ops arbitrary: m) (simp_all add: plugin_op_ok)
  then show ?thesis by (simp add: new_ok)
qed

section \<open>Code that is gone\<close>

definition dangling :: "PluginManager \<Rightarrow> Entry list" where
  "dangling m = filter (\<lambda>e. en_code e \<notin> pm_open m) (pm_entries m)"

definition provider_of :: "LoadedPlugin \<Rightarrow> Entry \<Rightarrow> bool" where
  "provider_of p e \<longleftrightarrow> pl_type p = PLUGIN_LLM_PROVIDER \<and> en_kind e = KProvider \<and> en_plugin e = pl_addr p"

lemma close_plugin_entries: "pm_entries (close_plugin p m) = filter (\<lambda>e. \<not> provider_of p e) (pm_entries m)"
  by (auto simp: close_plugin_def unregister_providers_def dlclose_def provider_of_def Let_def split: option.split intro!: filter_cong)

text \<open>
  Unloading leaves what was registered. When a plugin is unloaded, the tools, commands and channels whose code lies in its
  shared object stay registered although the code is unmapped; only the providers of a provider plugin are taken out. The
  entries that point to unmapped code afterwards are exactly those that did before and those of this object, less these providers.
\<close>
theorem unload_leaves_entries:
  assumes "pl_handle p = Some h"
  shows "dangling (plugin_manager_unload_plugin p m) =
    filter (\<lambda>e. (en_code e \<notin> pm_open m \<or> en_code e = h) \<and> \<not> provider_of p e) (pm_entries m)"
  using assms by (auto simp: dangling_def plugin_manager_unload_plugin_def Let_def close_plugin_entries intro!: filter_cong)

definition demo_object :: SharedObject where
  "demo_object =
     \<lparr>so_info = Some \<lparr>pi_id = Some ''x'', pi_name = None, pi_type = PLUGIN_TOOL, pi_default_config = None\<rparr>,
      so_init = Some ([RegTool ''t'', RegCommand ''c''], 0), so_has_cleanup = True\<rparr>"

definition demo_plugins :: PluginManager where
  "demo_plugins = snd (plugin_manager_load_plugin (Some demo_object) ''x.so'' (plugin_manager_new []))"

definition demo_plugin :: LoadedPlugin where
  "demo_plugin = \<lparr>pl_addr = 1, pl_path = ''x.so'', pl_name = ''x.so'', pl_id = ''x'', pl_type = PLUGIN_TOOL, pl_handle = Some 0, pl_cleanup = Some 0\<rparr>"

lemma demo_plugins_state:
  "pm_plugins demo_plugins = [demo_plugin]" "pm_open demo_plugins = {0}"
  "map en_name (pm_entries demo_plugins) = [''t'', ''c'']" "list_all (\<lambda>e. en_code e = 0 \<and> en_kind e \<noteq> KProvider) (pm_entries demo_plugins)"
  by (simp_all add: demo_plugins_def demo_plugin_def demo_object_def plugin_manager_load_plugin_def plugin_manager_new_def
      load_plugin_from_file_def dlopen_def run_init_def register_one_def Let_def)

theorem unload_leaves_entries_witness:
  "pm_plugins demo_plugins = [demo_plugin] \<and> map en_name (dangling (plugin_manager_unload_plugin demo_plugin demo_plugins)) = [''t'', ''c'']"
proof -
  have "filter (\<lambda>e. (en_code e \<notin> pm_open demo_plugins \<or> en_code e = 0) \<and> \<not> provider_of demo_plugin e) (pm_entries demo_plugins) =
      pm_entries demo_plugins"
    using demo_plugins_state(4) by (auto simp: filter_id_conv list_all_iff provider_of_def demo_plugin_def)
  then show ?thesis
    using unload_leaves_entries [of demo_plugin 0 demo_plugins] demo_plugins_state by (simp add: demo_plugin_def)
qed

lemma close_fault: "pl_handle p = None \<Longrightarrow> pl_cleanup p = Some h \<Longrightarrow> h \<notin> pm_open m \<Longrightarrow> pm_fault (close_plugin p m)"
  by (auto simp: close_plugin_def unregister_providers_def call_code_def Let_def)

lemma update_at: "pl_addr p \<notin> pl_addr ` set xs \<Longrightarrow> update_first (\<lambda>q. pl_addr q = pl_addr p) (\<lambda>_. p') (xs @ p # ys) = xs @ p' # ys"
  by (induction xs) auto

text \<open>
  A plugin that could not be reloaded stays in the list with the pointer to its old \<open>cleanup\<close>; unloading it calls
  the unmapped code.
\<close>

lemma failed_reload_faults:
  assumes "plugins_ok m" "plugin_manager_get_loaded_plugin i m = Some p" "pl_handle p = Some h" "pl_cleanup p = Some h"
  shows "\<exists>p'. plugin_manager_get_loaded_plugin i (snd (plugin_manager_reload_plugin None i m)) = Some p' \<and>
    pm_fault (plugin_manager_unload_plugin p' (snd (plugin_manager_reload_plugin None i m)))"
proof -
  define m1 where "m1 = close_plugin p m"
  define p' where "p' = p\<lparr>pl_handle := None\<rparr>"
  obtain k where k: "k < length (pm_plugins m)" "p = pm_plugins m ! k" "\<forall>j < k. \<not> (pl_id (pm_plugins m ! j) = i \<or> pl_name (pm_plugins m ! j) = i)"
      "pl_id p = i \<or> pl_name p = i"
    using assms(2) by (auto simp: plugin_manager_get_loaded_plugin_def find_Some_iff)
  have split: "pm_plugins m = take k (pm_plugins m) @ p # drop (Suc k) (pm_plugins m)" using k(1,2) by (simp add: id_take_nth_drop)
  have early: "\<forall>q \<in> set (take k (pm_plugins m)). \<not> (pl_id q = i \<or> pl_name q = i)" using k(1,3) by (fastforce simp: in_set_conv_nth)
  have "pl_addr p \<notin> pl_addr ` set (take k (pm_plugins m))" using assms(1) split by (metis plugins_ok_def distinct_append list.set_intros(1)
        list.set_map list.simps(9) map_append not_distinct_conv_prefix disjoint_iff)
  then have "update_first (\<lambda>q. pl_addr q = pl_addr p) (\<lambda>_. p') (take k (pm_plugins m) @ p # drop (Suc k) (pm_plugins m)) =
      take k (pm_plugins m) @ p' # drop (Suc k) (pm_plugins m)"
    by (rule update_at)
  then have plugins: "pm_plugins (set_plugin p' m1) = take k (pm_plugins m) @ p' # drop (Suc k) (pm_plugins m)"
    using split by (simp add: set_plugin_def m1_def p'_def)
  have reload: "snd (plugin_manager_reload_plugin None i m) = set_plugin p' m1"
    using assms(2) by (simp add: plugin_manager_reload_plugin_def reopen_plugin_def m1_def p'_def)
  have "find (\<lambda>q. pl_id q = i \<or> pl_name q = i) (xs @ p' # ys) = Some p'" if "\<forall>q \<in> set xs. \<not> (pl_id q = i \<or> pl_name q = i)" for xs ys
    using that k(4) by (induction xs) (auto simp: p'_def)
  then have "plugin_manager_get_loaded_plugin i (set_plugin p' m1) = Some p'"
    using early plugins by (simp add: plugin_manager_get_loaded_plugin_def)
  moreover have "pm_fault (plugin_manager_unload_plugin p' (set_plugin p' m1))"
    using close_fault [of p' h "set_plugin p' m1"] assms(3,4)
    by (simp add: plugin_manager_unload_plugin_def Let_def) (simp add: set_plugin_def p'_def m1_def)
  ultimately show ?thesis using reload by auto
qed

text \<open>Only the first 16 channels have a name in the list of channels.\<close>

lemma channel_names_bound: "length (pm_channel_names m) \<le> 16 \<Longrightarrow> length (pm_channel_names (register_one a h r m)) \<le> 16"
  by (cases r) (simp_all add: register_one_def Let_def)

end
