(* ===== verification/Anthropic.thy ===== *)
theory Anthropic
  imports OpenAi PluginManager
begin

text \<open>
  \<open>plugins/llm/anthropic_provider/anthropic_provider.c\<close>: the requests and the answers of the second provider, in blocks of content.
  The configuration is the entry of the plugin (\<open>PluginManager\<close>), the session snapshot that of \<open>Session\<close>. The connections and the
  manager of the asynchronous calls repeat those of \<open>OpenAiAsync\<close> and are not modelled again. Memory is taken to be available.
\<close>

section \<open>Configuration\<close>

text \<open>\<open>None\<close> is no configuration at all.\<close>

definition anthropic_item :: "PluginConfig list option \<Rightarrow> string \<Rightarrow> json option" where
  "anthropic_item config key =
     (case config of
        None \<Rightarrow> None
      | Some cfg \<Rightarrow>
          (case config_get_plugin_config ''anthropic_provider'' cfg of
             None \<Rightarrow> None
           | Some pc \<Rightarrow> get_object_item (pcf_config pc) key))"

definition get_anthropic_config_string :: "PluginConfig list option \<Rightarrow> string \<Rightarrow> string option \<Rightarrow> string option" where
  "get_anthropic_config_string config key default_val =
     (case json_string (anthropic_item config key) of Some s \<Rightarrow> if s \<noteq> [] then Some s else default_val | None \<Rightarrow> default_val)"

definition get_anthropic_config_double :: "PluginConfig list option \<Rightarrow> string \<Rightarrow> rat \<Rightarrow> rat" where
  "get_anthropic_config_double config key default_val =
     (case json_number (anthropic_item config key) of Some n \<Rightarrow> n | None \<Rightarrow> default_val)"

definition get_anthropic_config_int :: "PluginConfig list option \<Rightarrow> string \<Rightarrow> int \<Rightarrow> int" where
  "get_anthropic_config_int config key default_val =
     (case json_number (anthropic_item config key) of Some n \<Rightarrow> number_valueint n | None \<Rightarrow> default_val)"

text \<open>\<open>env\<close> is the environment variable \<open>ANTHROPIC_API_KEY\<close>.\<close>

definition get_anthropic_api_key :: "string option \<Rightarrow> PluginConfig list option \<Rightarrow> string" where
  "get_anthropic_api_key env config =
     (case get_anthropic_config_string config ''apiKey'' None of
        Some key \<Rightarrow> key | None \<Rightarrow> (case env of Some k \<Rightarrow> k | None \<Rightarrow> []))"

definition get_anthropic_model :: "PluginConfig list option \<Rightarrow> string" where
  "get_anthropic_model config = the (get_anthropic_config_string config ''model'' (Some ''claude-sonnet-4-20250514''))"

definition get_anthropic_api_base :: "PluginConfig list option \<Rightarrow> string" where
  "get_anthropic_api_base config = the (get_anthropic_config_string config ''apiBase'' (Some ''https://api.anthropic.com''))"

definition get_anthropic_temperature :: "PluginConfig list option \<Rightarrow> rat" where
  "get_anthropic_temperature config = get_anthropic_config_double config ''temperature'' (1 / 10)"

definition get_anthropic_max_tokens :: "PluginConfig list option \<Rightarrow> int" where
  "get_anthropic_max_tokens config = get_anthropic_config_int config ''max_tokens'' 4096"

definition build_anthropic_api_url :: "PluginConfig list option \<Rightarrow> string" where
  "build_anthropic_api_url config =
     (let api_base = get_anthropic_api_base config
      in c_trunc (length api_base + 14) (api_base @ (if last api_base = CHR ''/'' then [] else ''/'') @ ''/v1/messages''))"

section \<open>Requests\<close>

definition text_block :: "string \<Rightarrow> json" where
  "text_block t = JObject [(''type'', JString ''text''), (''text'', JString t)]"

definition tool_block :: "json_parser \<Rightarrow> ToolCall \<Rightarrow> json" where
  "tool_block parse tc =
     JObject [(''type'', JString ''tool_use''), (''id'', JString (tc_id tc)), (''name'', JString (tc_name tc)),
              (''input'', case parse (tc_arguments tc) of Some j \<Rightarrow> j | None \<Rightarrow> JObject [])]"

definition anthropic_message :: "json_parser \<Rightarrow> Message \<Rightarrow> json" where
  "anthropic_message parse msg =
     (case m_role msg of
        ROLE_USER \<Rightarrow> JObject [(''role'', JString ''user''), (''content'', JArray [text_block (m_content msg)])]
      | ROLE_ASSISTANT \<Rightarrow>
          JObject [(''role'', JString ''assistant''),
                   (''content'', JArray ((if m_content msg \<noteq> [] then [text_block (m_content msg)] else []) @
                                         map (tool_block parse) (m_tool_calls msg)))]
      | ROLE_TOOL \<Rightarrow>
          JObject [(''role'', JString ''user''),
                   (''content'', JArray [JObject [(''type'', JString ''tool_result''), (''tool_use_id'', JString (m_tool_call_id msg)),
                                                  (''content'', JString (m_content msg))]])])"

definition build_anthropic_messages :: "json_parser \<Rightarrow> bool \<Rightarrow> Session option \<Rightarrow> int \<Rightarrow> json list" where
  "build_anthropic_messages parse ok session memory_window =
     (case session of
        None \<Rightarrow> []
      | Some s \<Rightarrow> map (anthropic_message parse) (ss_messages (session_snapshot_for_context ok s (max_history memory_window))))"

definition add_anthropic_tools :: "json_parser \<Rightarrow> ToolRegistry option \<Rightarrow> (string \<times> json) list" where
  "add_anthropic_tools parse tools =
     (case tools of
        None \<Rightarrow> []
      | Some reg \<Rightarrow>
          if tr_tools reg = [] then []
          else [(''tools'', JArray (map (\<lambda>t. JObject [(''name'', JString (t_name t)), (''description'', JString (t_description t)),
                   (''input_schema'', case parse (t_parameters t) of Some j \<Rightarrow> j | None \<Rightarrow> JObject [])]) (tr_tools reg)))])"

definition build_anthropic_request_json ::
  "json_parser \<Rightarrow> bool \<Rightarrow> string option \<Rightarrow> Session option \<Rightarrow> ToolRegistry option \<Rightarrow> PluginConfig list option \<Rightarrow> int \<Rightarrow> json" where
  "build_anthropic_request_json parse ok system_prompt session tools config memory_window =
     JObject ([(''model'', JString (get_anthropic_model config)), (''max_tokens'', JNumber (of_int (get_anthropic_max_tokens config))),
               (''temperature'', JNumber (get_anthropic_temperature config))] @
              (case system_prompt of Some p \<Rightarrow> if p \<noteq> [] then [(''system'', JString p)] else [] | None \<Rightarrow> []) @
              [(''messages'', JArray (build_anthropic_messages parse ok session memory_window))] @
              add_anthropic_tools parse tools)"

section \<open>Answers\<close>

definition parse_anthropic_stop_reason :: "string option \<Rightarrow> FinishReason" where
  "parse_anthropic_stop_reason reason =
     (case reason of
        None \<Rightarrow> FINISH_REASON_NONE
      | Some r \<Rightarrow>
          if r = ''end_turn'' then FINISH_REASON_STOP
          else if r = ''max_tokens'' then FINISH_REASON_LENGTH
          else if r = ''stop_sequence'' then FINISH_REASON_STOP
          else if r = ''tool_use'' then FINISH_REASON_TOOL_CALLS
          else FINISH_REASON_ERROR)"

definition block_type :: "json \<Rightarrow> string option" where
  "block_type block = json_string (get_object_item (Some block) ''type'')"

definition block_text :: "json \<Rightarrow> string" where
  "block_text block =
     (if block_type block = Some ''text''
      then (case json_string (get_object_item (Some block) ''text'') of Some t \<Rightarrow> trim_newlines t | None \<Rightarrow> [])
      else [])"

definition block_call :: "json_printer \<Rightarrow> json \<Rightarrow> ToolCall" where
  "block_call print block =
     \<lparr>tc_id = (case json_string (get_object_item (Some block) ''id'') of Some i \<Rightarrow> i | None \<Rightarrow> []),
      tc_name = (case json_string (get_object_item (Some block) ''name'') of Some n \<Rightarrow> n | None \<Rightarrow> []),
      tc_arguments = (case get_object_item (Some block) ''input'' of
                        Some input \<Rightarrow> (case print input of Some s \<Rightarrow> s | None \<Rightarrow> [])
                      | None \<Rightarrow> ''{}'')\<rparr>"

definition usage_number :: "json option \<Rightarrow> string \<Rightarrow> int" where
  "usage_number usage key = (case json_number (get_object_item usage key) of Some n \<Rightarrow> number_valueint n | None \<Rightarrow> 0)"

text \<open>The sum of the token counts is an \<open>int\<close>.\<close>

definition parse_anthropic_response :: "json_parser \<Rightarrow> json_printer \<Rightarrow> string option \<Rightarrow> int \<Rightarrow> string \<Rightarrow> ParsedLLMResponse" where
  "parse_anthropic_response parse print json_data http_status last_error =
     (let payload = (case json_data of Some t \<Rightarrow> t | None \<Rightarrow> [])
      in if payload = []
         then parsed_new\<lparr>pl_error := error_new ERR_NETWORK (Some (c_trunc 320
           (''Empty response from Anthropic (status='' @ show_int http_status @ '', '' @
            (if last_error \<noteq> [] then last_error else ''no payload'') @ '')'')))\<rparr>
         else (case parse payload of
                 None \<Rightarrow> parsed_new\<lparr>pl_error := error_new ERR_JSON (Some ''Failed to parse Anthropic response'')\<rparr>
               | Some json \<Rightarrow>
                   (case get_object_item (Some json) ''error'' of
                      Some error_obj \<Rightarrow>
                        parsed_new\<lparr>pl_error := error_new ERR_NETWORK
                          (case get_object_item (Some error_obj) ''message'' of
                             Some m \<Rightarrow> json_string (Some m) | None \<Rightarrow> Some ''Unknown Anthropic API error'')\<rparr>
                    | None \<Rightarrow>
                        (let usage = get_object_item (Some json) ''usage'';
                             blocks = (case json_array (get_object_item (Some json) ''content'') of Some bs \<Rightarrow> bs | None \<Rightarrow> [])
                         in \<lparr>pl_error = no_error, pl_content = concat (map block_text blocks),
                             pl_tool_calls = map (block_call print) (filter (\<lambda>b. block_type b = Some ''tool_use'') blocks),
                             pl_finish_reason = (case json_string (get_object_item (Some json) ''stop_reason'') of
                                                   Some r \<Rightarrow> parse_anthropic_stop_reason (Some r) | None \<Rightarrow> FINISH_REASON_NONE),
                             pl_usage_tokens = to_int32 (usage_number usage ''input_tokens'' + usage_number usage ''output_tokens'')\<rparr>))))"

section \<open>Calls go back as they came\<close>

text \<open>A block of an answer: a text, or a call with its identifier, name and input.\<close>

datatype Block = TextBlock string | CallBlock string string json

definition use_json :: "string \<Rightarrow> string \<Rightarrow> json \<Rightarrow> json" where
  "use_json i n input = JObject [(''type'', JString ''tool_use''), (''id'', JString i), (''name'', JString n), (''input'', input)]"

definition block_json :: "Block \<Rightarrow> json" where
  "block_json b = (case b of TextBlock t \<Rightarrow> text_block t | CallBlock i n input \<Rightarrow> use_json i n input)"

definition anthropic_answer :: "Block list \<Rightarrow> string \<Rightarrow> json" where
  "anthropic_answer bs reason = JObject [(''content'', JArray (map block_json bs)), (''stop_reason'', JString reason)]"

definition block_texts :: "Block list \<Rightarrow> string" where
  "block_texts bs = concat (map (\<lambda>b. case b of TextBlock t \<Rightarrow> trim_newlines t | CallBlock _ _ _ \<Rightarrow> []) bs)"

definition block_uses :: "Block list \<Rightarrow> json list" where
  "block_uses bs = concat (map (\<lambda>b. case b of TextBlock _ \<Rightarrow> [] | CallBlock i n input \<Rightarrow> [use_json i n input]) bs)"

definition printable :: "json_parser \<Rightarrow> json_printer \<Rightarrow> Block \<Rightarrow> bool" where
  "printable parse print b =
     (case b of TextBlock _ \<Rightarrow> True | CallBlock _ _ input \<Rightarrow> (case print input of Some s \<Rightarrow> parse s = Some input | None \<Rightarrow> False))"

lemma block_fields:
  "block_type (text_block t) = Some ''text''" "block_type (use_json i n input) = Some ''tool_use''"
  "block_text (text_block t) = trim_newlines t" "block_text (use_json i n input) = []"
  by (simp_all add: block_type_def block_text_def text_block_def use_json_def json_access)

lemma block_call_fields:
  "block_call print (use_json i n input) = \<lparr>tc_id = i, tc_name = n, tc_arguments = (case print input of Some s \<Rightarrow> s | None \<Rightarrow> [])\<rparr>"
  by (simp add: block_call_def use_json_def json_access)

lemma texts_of_blocks: "concat (map block_text (map block_json bs)) = block_texts bs"
  by (induction bs) (auto simp: block_texts_def block_json_def block_fields split: Block.split)

lemma use_again: "print input = Some s \<Longrightarrow> parse s = Some input \<Longrightarrow> tool_block parse (block_call print (use_json i n input)) = use_json i n input"
  by (simp add: block_call_fields tool_block_def) (simp add: use_json_def)

lemma calls_of_blocks:
  "list_all (printable parse print) bs \<Longrightarrow>
   map (tool_block parse) (map (block_call print) (filter (\<lambda>b. block_type b = Some ''tool_use'') (map block_json bs))) = block_uses bs"
proof (induction bs)
  case (Cons b bs)
  then show ?case
    by (cases b) (auto simp: block_uses_def block_json_def block_fields printable_def use_again split: option.splits)
qed (simp add: block_uses_def)

text \<open>
  The calls of an answer go back to the service as they came: when an answer of text and call blocks is parsed, and its
  text and calls are put into an assistant message, the next request shows that message with the texts joined in one block and then every call
  block exactly as the service sent it, in order. This rests on the JSON library alone: it parses what it prints.
\<close>
theorem calls_go_back:
  assumes "parse payload = Some (anthropic_answer bs reason)" "payload \<noteq> []" "list_all (printable parse print) bs"
    and "r = parse_anthropic_response parse print (Some payload) status last_error"
    and "m_role msg = ROLE_ASSISTANT" "m_content msg = pl_content r" "m_tool_calls msg = pl_tool_calls r"
  shows "pl_error r = no_error \<and>
    anthropic_message parse msg =
      JObject [(''role'', JString ''assistant''),
               (''content'', JArray ((if block_texts bs \<noteq> [] then [text_block (block_texts bs)] else []) @ block_uses bs))]"
proof -
  have r: "pl_error r = no_error" "pl_content r = block_texts bs"
      "pl_tool_calls r = map (block_call print) (filter (\<lambda>b. block_type b = Some ''tool_use'') (map block_json bs))"
    using assms(1,2,4) texts_of_blocks [of bs]
    by (simp_all add: parse_anthropic_response_def anthropic_answer_def json_access Let_def del: map_map)
  then show ?thesis using assms(5-7) calls_of_blocks [OF assms(3)] by (simp add: anthropic_message_def del: map_map)
qed

definition demo_blocks :: "Block list" where
  "demo_blocks = [TextBlock ''Look'', CallBlock ''c1'' ''ls'' (JObject [(''path'', JString ''.'')])]"

definition demo_block_parse :: json_parser where
  "demo_block_parse = [''w'' \<mapsto> anthropic_answer demo_blocks ''tool_use'', ''p'' \<mapsto> JObject [(''path'', JString ''.'')]]"

theorem calls_go_back_witness:
  "anthropic_message demo_block_parse (demo_tool_message ROLE_ASSISTANT
      (pl_tool_calls (parse_anthropic_response demo_block_parse (\<lambda>_. Some ''p'') (Some ''w'') 200 []))
      []\<lparr>m_content := pl_content (parse_anthropic_response demo_block_parse (\<lambda>_. Some ''p'') (Some ''w'') 200 [])\<rparr>) =
   JObject [(''role'', JString ''assistant''),
            (''content'', JArray [text_block ''Look'', use_json ''c1'' ''ls'' (JObject [(''path'', JString ''.'')])])]"
proof -
  let ?r = "parse_anthropic_response demo_block_parse (\<lambda>_. Some ''p'') (Some ''w'') 200 []"
  let ?m = "demo_tool_message ROLE_ASSISTANT (pl_tool_calls ?r) []\<lparr>m_content := pl_content ?r\<rparr>"
  have "demo_block_parse ''w'' = Some (anthropic_answer demo_blocks ''tool_use'')" "list_all (printable demo_block_parse (\<lambda>_. Some ''p'')) demo_blocks"
    by (simp_all add: demo_block_parse_def demo_blocks_def printable_def)
  then show ?thesis
    using calls_go_back [of demo_block_parse "''w''" demo_blocks "''tool_use''" "\<lambda>_. Some ''p''" ?r 200 "[]" ?m]
    by (simp add: demo_tool_message_def) (simp add: demo_blocks_def block_texts_def block_uses_def trim_newlines_def)
qed

text \<open>The address of the service always has an empty name in front of \<open>v1\<close>.\<close>

lemma url_has_empty_name: "suffix ''//v1/messages'' (build_anthropic_api_url config)"
proof -
  have "get_anthropic_api_base config \<noteq> []"
    by (auto simp: get_anthropic_api_base_def get_anthropic_config_string_def split: option.split)
  then show ?thesis
    by (cases "get_anthropic_api_base config" rule: rev_cases)
      (auto simp: build_anthropic_api_url_def Let_def suffix_def)
qed

text \<open>Two large counts give a negative sum.\<close>

lemma usage_wraps: "to_int32 (INT_MAX + INT_MAX) = - 2"
  by (simp add: to_int32_def INT_MAX_def INT_MIN_def)

end
