(* ===== verification/Skills.thy ===== *)
theory Skills
  imports Session FileSystem Utils
begin

text \<open>
  \<open>skills/skills.c\<close>: the skills of a workspace and of the program, each a directory with a text \<open>SKILL.md\<close> that starts with a header of
  \<open>key: value\<close> lines. The files are given by what the calls to the system return; a text that was read ends at its first NUL
  byte. Memory is taken to be available.
\<close>

section \<open>The files\<close>

text \<open>
  \<open>sf_dirs\<close> are the names of the subdirectories of a directory in the order of \<open>readdir\<close>, \<open>sf_exec\<close> the paths that can be executed. A file may
  exist without being readable.
\<close>

record SkillFiles =
  sf_exists :: "string \<Rightarrow> bool"
  sf_read :: "string \<Rightarrow> string option"
  sf_dirs :: "string \<Rightarrow> string list option"
  sf_exec :: "string \<Rightarrow> bool"
  sf_env :: "string \<Rightarrow> string option"

record SkillDirs =
  sd_workspace :: string
  sd_builtin :: "string option"

definition skills_loader_create_with_builtin :: "string \<Rightarrow> string option \<Rightarrow> SkillDirs" where
  "skills_loader_create_with_builtin workspace builtin_skills_dir = \<lparr>sd_workspace = workspace, sd_builtin = builtin_skills_dir\<rparr>"

definition read_skill :: "SkillFiles \<Rightarrow> string \<Rightarrow> string option" where
  "read_skill fs path = map_option (takeWhile (\<lambda>c. c \<noteq> NUL)) (sf_read fs path)"

definition command_exists :: "SkillFiles \<Rightarrow> string \<Rightarrow> bool" where
  "command_exists fs cmd =
     (case sf_env fs ''PATH'' of
        None \<Rightarrow> False
      | Some path \<Rightarrow> list_ex (\<lambda>token. sf_exec fs (c_trunc 1024 (token @ ''/'' @ cmd))) (strtok CHR '':'' path))"

section \<open>The header of a skill\<close>

definition header_blank :: "char \<Rightarrow> bool" where
  "header_blank c \<longleftrightarrow> c = CHR '' '' \<or> c = CHR 0x09"

definition unquote :: "string \<Rightarrow> string" where
  "unquote v =
     (if length v \<ge> 2 \<and> (hd v = CHR 0x22 \<and> last v = CHR 0x22 \<or> hd v = CHR 0x27 \<and> last v = CHR 0x27) then butlast (tl v) else v)"

text \<open>The loop over the lines of the header, and the two marks around it.\<close>

function header_value :: "string \<Rightarrow> string \<Rightarrow> string option" where
  "header_value key h =
     (if h = [] then None
      else (let line = takeWhile (\<lambda>c. c \<noteq> newline) h
            in if starts_with (key @ '':'') line then Some (unquote (dropWhile header_blank (drop (length key + 1) line)))
               else header_value key (drop (length line + 1) h)))"
  by pat_completeness auto
termination
  by (relation "measure (\<lambda>(key, h). length h)") auto

declare header_value.simps [simp del]

definition header_open :: string where
  "header_open = ''---'' @ [newline]"

definition header_close :: string where
  "header_close = newline # ''---'' @ [newline]"

definition get_frontmatter_value :: "string \<Rightarrow> string \<Rightarrow> string option" where
  "get_frontmatter_value content key =
     (if \<not> starts_with header_open content then None
      else (let h = drop 4 content
            in case strstr h header_close of
                 None \<Rightarrow> None
               | Some rest \<Rightarrow> header_value key (take (length h - length rest) h)))"

definition get_skill_meta :: "json_parser \<Rightarrow> string \<Rightarrow> json" where
  "get_skill_meta parse content =
     (case get_frontmatter_value content ''metadata'' of
        None \<Rightarrow> JObject []
      | Some meta \<Rightarrow>
          (case parse meta of
             None \<Rightarrow> JObject []
           | Some j \<Rightarrow>
               (case get_object_item (Some j) ''Primagen'' of
                  Some m \<Rightarrow> m
                | None \<Rightarrow> (case get_object_item (Some j) ''openclaw'' of Some m \<Rightarrow> m | None \<Rightarrow> JObject []))))"

definition strings_of :: "json option \<Rightarrow> string list" where
  "strings_of j =
     (case json_array j of
        None \<Rightarrow> []
      | Some xs \<Rightarrow> concat (map (\<lambda>x. case json_string (Some x) of Some s \<Rightarrow> [s] | None \<Rightarrow> []) xs))"

text \<open>\<open>None\<close> when all requirements are met, else the reason.\<close>

definition check_requirements :: "SkillFiles \<Rightarrow> json \<Rightarrow> string option" where
  "check_requirements fs meta =
     (case get_object_item (Some meta) ''requires'' of
        None \<Rightarrow> None
      | Some req \<Rightarrow>
          (case find (\<lambda>b. \<not> command_exists fs b) (strings_of (get_object_item (Some req) ''bins'')) of
             Some b \<Rightarrow> Some (c_trunc 256 (''Missing CLI: '' @ b))
           | None \<Rightarrow>
               (case find (\<lambda>e. sf_env fs e = None) (strings_of (get_object_item (Some req) ''env'')) of
                  Some e \<Rightarrow> Some (c_trunc 256 (''Missing ENV: '' @ e))
                | None \<Rightarrow> None)))"

section \<open>Lists of skills\<close>

definition skill_file :: "string \<Rightarrow> string \<Rightarrow> string" where
  "skill_file base_dir name = c_trunc 1024 (base_dir @ ''/'' @ name @ ''/SKILL.md'')"

definition workspace_dir :: "SkillDirs \<Rightarrow> string" where
  "workspace_dir loader = c_trunc 512 (sd_workspace loader @ ''/skills'')"

definition add_name :: "string \<Rightarrow> string list \<Rightarrow> string list" where
  "add_name name arr = (if name \<in> set arr then arr else arr @ [name])"

definition add_skill_if_valid_to_array :: "SkillFiles \<Rightarrow> json_parser \<Rightarrow> bool \<Rightarrow> string \<Rightarrow> string \<Rightarrow> string list \<Rightarrow> string list" where
  "add_skill_if_valid_to_array fs parse filter_unavailable base_dir name arr =
     (let skill_path = skill_file base_dir name
      in if \<not> sf_exists fs skill_path then arr
         else if filter_unavailable
         then (case read_skill fs skill_path of
                 None \<Rightarrow> arr
               | Some content \<Rightarrow> if check_requirements fs (get_skill_meta parse content) = None then add_name name arr else arr)
         else add_name name arr)"

text \<open>The subdirectories that the three walks visit: hidden ones are skipped, a directory that cannot be opened is empty.\<close>

definition skill_names :: "SkillFiles \<Rightarrow> string \<Rightarrow> string list" where
  "skill_names fs dir = (case sf_dirs fs dir of None \<Rightarrow> [] | Some names \<Rightarrow> filter (\<lambda>n. n \<noteq> [] \<and> hd n \<noteq> CHR ''.'') names)"

definition walk_skills :: "SkillFiles \<Rightarrow> SkillDirs \<Rightarrow> (string \<Rightarrow> string \<Rightarrow> 'a \<Rightarrow> 'a) \<Rightarrow> 'a \<Rightarrow> 'a" where
  "walk_skills fs loader visit a =
     (let a = fold (visit (workspace_dir loader)) (skill_names fs (workspace_dir loader)) a
      in case sd_builtin loader of None \<Rightarrow> a | Some dir \<Rightarrow> fold (visit dir) (skill_names fs dir) a)"

definition skills_loader_list_skills :: "SkillFiles \<Rightarrow> json_parser \<Rightarrow> SkillDirs \<Rightarrow> bool \<Rightarrow> string list" where
  "skills_loader_list_skills fs parse loader filter_unavailable =
     walk_skills fs loader (add_skill_if_valid_to_array fs parse filter_unavailable) []"

definition check_always_skill :: "SkillFiles \<Rightarrow> json_parser \<Rightarrow> string \<Rightarrow> string \<Rightarrow> string list \<Rightarrow> string list" where
  "check_always_skill fs parse base_dir name arr =
     (let skill_path = skill_file base_dir name
      in if \<not> sf_exists fs skill_path then arr
         else (case read_skill fs skill_path of
                 None \<Rightarrow> arr
               | Some content \<Rightarrow>
                   (let meta = get_skill_meta parse content
                    in if json_bool (get_object_item (Some meta) ''always'') = Some True \<and> check_requirements fs meta = None
                       then add_name name arr else arr)))"

definition skills_loader_get_always_skills :: "SkillFiles \<Rightarrow> json_parser \<Rightarrow> SkillDirs option \<Rightarrow> string list" where
  "skills_loader_get_always_skills fs parse loader =
     (case loader of None \<Rightarrow> [] | Some l \<Rightarrow> walk_skills fs l (check_always_skill fs parse) [])"

section \<open>Loading\<close>

text \<open>The skill of the workspace comes first. A name is put into the path as it is.\<close>

definition skill_path_of :: "SkillDirs \<Rightarrow> string \<Rightarrow> string" where
  "skill_path_of loader name = c_trunc 1024 (sd_workspace loader @ ''/skills/'' @ name @ ''/SKILL.md'')"

definition builtin_path_of :: "string \<Rightarrow> string \<Rightarrow> string" where
  "builtin_path_of dir name = c_trunc 1024 (dir @ ''/'' @ name @ ''/SKILL.md'')"

definition skills_loader_load_skill :: "SkillFiles \<Rightarrow> SkillDirs \<Rightarrow> string \<Rightarrow> string option" where
  "skills_loader_load_skill fs loader name =
     (if sf_exists fs (skill_path_of loader name) then read_skill fs (skill_path_of loader name)
      else (case sd_builtin loader of
              None \<Rightarrow> None
            | Some dir \<Rightarrow> if sf_exists fs (builtin_path_of dir name) then read_skill fs (builtin_path_of dir name) else None))"

definition workspace_hint :: "string \<Rightarrow> string \<Rightarrow> string" where
  "workspace_hint ws name =
     c_trunc 512 ([newline, newline] @ ''[Execution Path Hint]'' @ [newline] @ ''Script files in this skill are located at: '' @
       c_trunc 1024 (ws @ ''/skills/'' @ name) @ ''/scripts/'' @ [newline] @
       ''Use relative path from workspace: skills/'' @ name @ ''/scripts/<script_name>'' @ [newline])"

definition builtin_hint :: "string \<Rightarrow> string \<Rightarrow> string" where
  "builtin_hint dir name =
     c_trunc 512 ([newline, newline] @ ''[Execution Path Hint]'' @ [newline] @ ''Script files in this skill are located at: '' @
       dir @ ''/'' @ name @ ''/scripts/'' @ [newline] @ ''Use relative path: skills/'' @ name @ ''/scripts/<script_name>'' @ [newline])"

definition skills_loader_load_skill_with_path_hints :: "SkillFiles \<Rightarrow> SkillDirs \<Rightarrow> string \<Rightarrow> string option" where
  "skills_loader_load_skill_with_path_hints fs loader name =
     (if sf_exists fs (skill_path_of loader name)
      then map_option (\<lambda>content. content @ workspace_hint (sd_workspace loader) name) (read_skill fs (skill_path_of loader name))
      else (case sd_builtin loader of
              None \<Rightarrow> None
            | Some dir \<Rightarrow>
                if sf_exists fs (builtin_path_of dir name)
                then map_option (\<lambda>content. content @ builtin_hint dir name) (read_skill fs (builtin_path_of dir name))
                else None))"

text \<open>
  The skills that are always in the context. \<open>snprintf\<close> at \<open>pos\<close> into the rest of the buffer of \<open>total_size\<close> bytes; the result is what
  would have been written, so \<open>pos\<close> is clamped.
\<close>

definition skill_body :: "string \<Rightarrow> string" where
  "skill_body content =
     (if starts_with header_open content
      then (case strstr (drop 4 content) header_close of Some rest \<Rightarrow> drop 5 rest | None \<Rightarrow> content)
      else content)"

definition skill_section :: "string \<Rightarrow> string \<Rightarrow> string" where
  "skill_section name content =
     ''### Skill: '' @ name @ [newline, newline] @ skill_body content @ [newline, newline] @ ''---'' @ [newline, newline]"

definition put_section :: "nat \<Rightarrow> string \<Rightarrow> string \<Rightarrow> string" where
  "put_section total_size result sect = result @ c_trunc (total_size - length result) sect"

definition strip_separator :: "string \<Rightarrow> string" where
  "strip_separator result =
     (if length result > 7 \<and> drop (length result - 7) result = newline # ''---'' @ [newline, newline]
      then take (length result - 7) result else result)"

definition loaded_skills :: "SkillFiles \<Rightarrow> SkillDirs \<Rightarrow> string list \<Rightarrow> (string \<times> string) list" where
  "loaded_skills fs loader names =
     concat (map (\<lambda>n. case skills_loader_load_skill fs loader n of None \<Rightarrow> [] | Some c \<Rightarrow> [(n, c)]) names)"

definition context_size :: "(string \<times> string) list \<Rightarrow> nat" where
  "context_size contents = 1024 + sum_list (map (\<lambda>(n, c). length c + 100) contents)"

definition skills_loader_load_skills_for_context :: "SkillFiles \<Rightarrow> SkillDirs \<Rightarrow> string list \<Rightarrow> string" where
  "skills_loader_load_skills_for_context fs loader names =
     (let contents = loaded_skills fs loader names; total_size = context_size contents
      in strip_separator (foldl (put_section total_size) [] (map (\<lambda>(n, c). skill_section n c) contents)))"

section \<open>The summary\<close>

definition xml_text :: "string \<Rightarrow> string" where
  "xml_text s = (case escape_xml (\<lambda>_. True) (Some s) of Some t \<Rightarrow> t | None \<Rightarrow> [])"

definition skill_chunk :: "bool \<Rightarrow> string \<Rightarrow> string \<Rightarrow> string \<Rightarrow> string" where
  "skill_chunk available name desc skill_path =
     ''  <skill available='' @ [CHR 0x22] @ (if available then ''true'' else ''false'') @ [CHR 0x22] @ ''>'' @ [newline] @
     ''    <name>'' @ xml_text name @ ''</name>'' @ [newline] @
     ''    <description>'' @ xml_text desc @ ''</description>'' @ [newline] @
     ''    <location>'' @ skill_path @ ''</location>'' @ [newline]"

definition end_tag :: string where
  "end_tag = ''  </skill>'' @ [newline]"

text \<open>A chunk that does not fit into its buffer is left out.\<close>

definition fit_chunk :: "string \<Rightarrow> string" where
  "fit_chunk chunk = (if length chunk \<ge> 2048 then [] else chunk)"

definition add_skill_xml :: "SkillFiles \<Rightarrow> json_parser \<Rightarrow> string \<Rightarrow> string \<Rightarrow> string \<Rightarrow> string" where
  "add_skill_xml fs parse base_dir name xml =
     (let skill_path = skill_file base_dir name
      in if \<not> sf_exists fs skill_path then xml
         else (case read_skill fs skill_path of
                 None \<Rightarrow> xml
               | Some content \<Rightarrow>
                   (let desc = (case get_frontmatter_value content ''description'' of Some d \<Rightarrow> d | None \<Rightarrow> name);
                        missing = check_requirements fs (get_skill_meta parse content)
                    in xml @ fit_chunk (skill_chunk (missing = None) name desc skill_path) @
                       (case missing of
                          None \<Rightarrow> []
                        | Some m \<Rightarrow> fit_chunk (''    <requires>'' @ xml_text m @ ''</requires>'' @ [newline])) @ end_tag)))"

definition skills_loader_build_skills_summary :: "SkillFiles \<Rightarrow> json_parser \<Rightarrow> SkillDirs \<Rightarrow> string" where
  "skills_loader_build_skills_summary fs parse loader =
     walk_skills fs loader (add_skill_xml fs parse) (''<skills>'' @ [newline]) @ ''</skills>''"

section \<open>The header is read back\<close>

definition header_line :: "string \<times> string \<Rightarrow> string" where
  "header_line kv = fst kv @ '': '' @ snd kv"

definition skill_text :: "(string \<times> string) list \<Rightarrow> string \<Rightarrow> string" where
  "skill_text kvs body = header_open @ concat (map (\<lambda>kv. header_line kv @ [newline]) kvs) @ header_open @ body"

definition plain_entry :: "string \<times> string \<Rightarrow> bool" where
  "plain_entry kv \<longleftrightarrow> newline \<notin> set (fst kv) \<and> CHR '':'' \<notin> set (fst kv) \<and> newline \<notin> set (snd kv) \<and>
     (snd kv = [] \<or> \<not> header_blank (hd (snd kv))) \<and> unquote (snd kv) = snd kv"

lemma takeWhile_until: "c \<notin> set a \<Longrightarrow> takeWhile (\<lambda>x. x \<noteq> c) (a @ c # b) = a" "c \<notin> set a \<Longrightarrow> takeWhile (\<lambda>x. x \<noteq> c) a = a"
  by (induction a) auto

lemma strstr_skip: "newline \<notin> set l \<Longrightarrow> strstr (l @ s) (newline # p) = strstr s (newline # p)"
  by (induction l) (auto simp: starts_with_prefix)

lemma header_line_not_close:
  "plain_entry kv \<Longrightarrow> \<not> prefix header_open (header_line kv @ newline # s)"
proof
  assume p: "plain_entry kv" "prefix header_open (header_line kv @ newline # s)"
  have n: "newline \<notin> set (header_line kv)" using p(1) by (auto simp: plain_entry_def header_line_def)
  have "CHR '':'' \<in> set (header_line kv)" by (simp add: header_line_def)
  moreover have "header_line kv = ''---''"
  proof -
    obtain z where "header_line kv @ newline # s = ''---'' @ newline # z" using p(2) by (auto simp: header_open_def prefix_def)
    then have "takeWhile (\<lambda>c. c \<noteq> newline) (header_line kv @ newline # s) = takeWhile (\<lambda>c. c \<noteq> newline) (''---'' @ newline # z)" by simp
    then show ?thesis using n by (simp add: takeWhile_until)
  qed
  ultimately show False by simp
qed

lemma strstr_header:
  "list_all plain_entry kvs \<Longrightarrow>
   strstr (newline # concat (map (\<lambda>kv. header_line kv @ [newline]) kvs) @ header_open @ body) header_close = Some (header_close @ body)"
proof (induction kvs)
  case Nil
  then show ?case by (simp add: header_open_def header_close_def starts_with_prefix)
next
  case (Cons kv kvs)
  let ?s = "concat (map (\<lambda>kv. header_line kv @ [newline]) kvs) @ header_open @ body"
  have "\<not> prefix header_close (newline # header_line kv @ newline # ?s)"
    using header_line_not_close [of kv ?s] Cons.prems by (simp add: header_close_def header_open_def)
  moreover have "newline \<notin> set (header_line kv)" using Cons.prems by (auto simp: plain_entry_def header_line_def)
  ultimately show ?case
    using Cons strstr_skip [of "header_line kv" "newline # ?s" "''---'' @ [newline]"] by (simp add: starts_with_prefix header_close_def)
qed

lemma header_value_line:
  assumes "newline \<notin> set line"
  shows "header_value key (line @ newline # h) =
    (if starts_with (key @ '':'') line then Some (unquote (dropWhile header_blank (drop (length key + 1) line))) else header_value key h)"
    "header_value key line = (if line \<noteq> [] \<and> starts_with (key @ '':'') line then Some (unquote (dropWhile header_blank (drop (length key + 1) line))) else None)"
proof -
  note t = takeWhile_until [OF assms]
  show "header_value key (line @ newline # h) =
    (if starts_with (key @ '':'') line then Some (unquote (dropWhile header_blank (drop (length key + 1) line))) else header_value key h)"
    by (subst header_value.simps) (simp add: t Let_def)
  have e: "header_value key [] = None" by (simp add: header_value.simps)
  show "header_value key line = (if line \<noteq> [] \<and> starts_with (key @ '':'') line
      then Some (unquote (dropWhile header_blank (drop (length key + 1) line))) else None)"
    by (subst header_value.simps) (simp add: t Let_def e)
qed

lemma entry_lookup:
  assumes "plain_entry kv" "CHR '':'' \<notin> set key"
  shows "starts_with (key @ '':'') (header_line kv) \<longleftrightarrow> fst kv = key"
    "fst kv = key \<Longrightarrow> unquote (dropWhile header_blank (drop (length key + 1) (header_line kv))) = snd kv"
proof -
  have "CHR '':'' \<notin> set (fst kv)" using assms by (simp add: plain_entry_def)
  show "starts_with (key @ '':'') (header_line kv) \<longleftrightarrow> fst kv = key"
  proof
    assume "starts_with (key @ '':'') (header_line kv)"
    then obtain z where "key @ CHR '':'' # z = fst kv @ CHR '':'' # CHR '' '' # snd kv"
      by (auto simp: starts_with_prefix prefix_def header_line_def)
    then have "takeWhile (\<lambda>c. c \<noteq> CHR '':'') (key @ CHR '':'' # z) = takeWhile (\<lambda>c. c \<noteq> CHR '':'') (fst kv @ CHR '':'' # CHR '' '' # snd kv)"
      by simp
    then show "fst kv = key" using assms(2) \<open>CHR '':'' \<notin> set (fst kv)\<close> by (simp add: takeWhile_until)
  qed (simp add: starts_with_prefix header_line_def)
  have "dropWhile header_blank (CHR '' '' # snd kv) = snd kv" using assms(1) by (cases "snd kv") (auto simp: plain_entry_def header_blank_def)
  then show "fst kv = key \<Longrightarrow> unquote (dropWhile header_blank (drop (length key + 1) (header_line kv))) = snd kv"
    using assms(1) by (auto simp: plain_entry_def header_line_def)
qed

text \<open>The lines of the header without the newline of the last one, as the loop sees them.\<close>

lemma header_value_lines:
  "list_all plain_entry (kvs @ [kv]) \<Longrightarrow> CHR '':'' \<notin> set key \<Longrightarrow>
   header_value key (concat (map (\<lambda>kv. header_line kv @ [newline]) kvs) @ header_line kv) = map_of (kvs @ [kv]) key"
proof (induction kvs)
  case Nil
  have "newline \<notin> set (header_line kv)" "header_line kv \<noteq> []" using Nil by (auto simp: plain_entry_def header_line_def)
  then show ?case using header_value_line(2) [of "header_line kv" key] entry_lookup [of kv key] Nil by (cases kv) auto
next
  case (Cons kv' kvs)
  have "newline \<notin> set (header_line kv')" using Cons.prems by (auto simp: plain_entry_def header_line_def)
  then show ?case using Cons header_value_line(1) [of "header_line kv'" key] entry_lookup [of kv' key] by (cases kv') auto
qed

text \<open>
  The header of a skill is read back: in a skill text made of \<open>key: value\<close> lines (values without quotes around them) and a body, every
  key has the value of its first line, a key that is not there has none, and the body shown to the model is exactly the body.
\<close>
theorem frontmatter_read_back:
  assumes "kvs \<noteq> []" "list_all plain_entry kvs" "CHR '':'' \<notin> set key"
  shows "get_frontmatter_value (skill_text kvs body) key = map_of kvs key \<and> skill_body (skill_text kvs body) = body"
proof -
  obtain kvs' kv where kvs: "kvs = kvs' @ [kv]" using assms(1) by (metis rev_exhaust)
  let ?h = "concat (map (\<lambda>kv. header_line kv @ [newline]) kvs') @ header_line kv"
  let ?x = "?h @ header_close @ body"
  have whole: "skill_text kvs body = header_open @ ?x"
    by (simp add: skill_text_def kvs header_open_def header_close_def)
  have "strstr (newline # ?x) header_close = Some (header_close @ body)"
    using strstr_header [OF assms(2), of body] by (simp add: kvs header_open_def header_close_def)
  moreover have "newline # ?x \<noteq> header_close @ body" by (auto dest: arg_cong [where f = length])
  ultimately have found: "strstr ?x header_close = Some (header_close @ body)" by (auto split: if_splits)
  have open4: "starts_with header_open (header_open @ ?x)" "drop 4 (header_open @ ?x) = ?x"
    by (simp_all add: starts_with_prefix header_open_def)
  have "header_value key ?h = map_of kvs key" using header_value_lines [of kvs' kv key] assms by (simp add: kvs)
  then show ?thesis
    using open4 found by (simp add: get_frontmatter_value_def skill_body_def whole) (simp add: header_close_def)
qed

theorem frontmatter_read_back_witness:
  "get_frontmatter_value (skill_text [(''name'', ''pdf''), (''description'', ''read: pdf'')] ''Text'') ''description'' = Some ''read: pdf'' \<and>
   skill_body (skill_text [(''name'', ''pdf''), (''description'', ''read: pdf'')] ''Text'') = ''Text''"
  using frontmatter_read_back [of "[(''name'', ''pdf''), (''description'', ''read: pdf'')]" "''description''" "''Text''"]
  by (simp add: plain_entry_def header_blank_def unquote_def)

section \<open>The skills in the context\<close>

text \<open>The final separator is compared over seven bytes with a text of six, so it always stays.\<close>

lemma separator_stays: "strip_separator r = r"
proof -
  have "length (drop (length r - 7) r) \<noteq> length (newline # ''---'' @ [newline, newline])" if "length r > 7"
    using that by simp
  then have "drop (length r - 7) r \<noteq> newline # ''---'' @ [newline, newline]" if "length r > 7"
    using that by metis
  then show ?thesis by (auto simp: strip_separator_def)
qed

lemma put_sections: "length r < t \<Longrightarrow> foldl (put_section t) r ss = take (t - 1) (r @ concat ss)"
proof (induction ss arbitrary: r)
  case (Cons s ss)
  have "length (put_section t r s) < t" using Cons.prems by (auto simp: put_section_def c_trunc_def)
  moreover have "take (t - 1) (put_section t r s @ concat ss) = take (t - 1) (r @ s @ concat ss)"
    using Cons.prems by (cases "length s \<le> t - Suc (length r)") (auto simp: put_section_def c_trunc_def)
  ultimately show ?case using Cons.IH [of "put_section t r s"] by simp
qed auto

lemma body_shorter: "length (skill_body c) \<le> length c"
  by (auto simp: skill_body_def dest!: strstr_Some suffix_length_le split: option.split)

lemma sections_fit:
  "list_all (\<lambda>(n, c). length n \<le> 80) contents \<Longrightarrow> length (concat (map (\<lambda>(n, c). skill_section n c) contents)) < context_size contents"
proof (induction contents)
  case (Cons nc contents)
  obtain n c where nc: "nc = (n, c)" by (cases nc)
  have "length (skill_section n c) \<le> length c + 100" using Cons.prems nc body_shorter [of c] by (simp add: skill_section_def)
  then show ?case using Cons nc by (simp add: context_size_def)
qed (simp add: context_size_def)

lemma loaded_names: "nc \<in> set (loaded_skills fs loader names) \<Longrightarrow> fst nc \<in> set names"
  by (auto simp: loaded_skills_def split: option.splits)

lemma context_sections:
  assumes "list_all (\<lambda>n. length n \<le> 80) names"
  shows "skills_loader_load_skills_for_context fs loader names =
    concat (map (\<lambda>(n, c). skill_section n c) (loaded_skills fs loader names))"
proof -
  have "list_all (\<lambda>(n, c). length n \<le> 80) (loaded_skills fs loader names)"
    using assms loaded_names [of _ fs loader names] by (fastforce simp: list_all_iff)
  then show ?thesis using sections_fit [of "loaded_skills fs loader names"]
    by (simp add: skills_loader_load_skills_for_context_def Let_def separator_stays put_sections context_size_def)
qed

section \<open>Listed skills\<close>

text \<open>A name is listed once, and when the paths fit into their buffers a listed skill can be loaded.\<close>

lemma distinct_add_name: "distinct arr \<Longrightarrow> distinct (add_name n arr)"
  by (simp add: add_name_def)

lemma visit_distinct: "distinct arr \<Longrightarrow> distinct (fold (add_skill_if_valid_to_array fs parse f dir) names arr)"
  by (induction names arbitrary: arr) (auto simp: add_skill_if_valid_to_array_def Let_def distinct_add_name split: option.split)

lemma list_skills_distinct: "distinct (skills_loader_list_skills fs parse loader f)"
  by (auto simp: skills_loader_list_skills_def walk_skills_def Let_def visit_distinct split: option.split)

lemma visit_exists:
  "n \<in> set (fold (add_skill_if_valid_to_array fs parse f dir) names arr) \<Longrightarrow>
   n \<in> set arr \<or> n \<in> set names \<and> sf_exists fs (skill_file dir n)"
proof (induction names arbitrary: arr)
  case (Cons m names)
  have "set (add_skill_if_valid_to_array fs parse f dir m arr) \<subseteq> set arr \<union> (if sf_exists fs (skill_file dir m) then {m} else {})"
    by (auto simp: add_skill_if_valid_to_array_def Let_def add_name_def split: option.splits if_splits)
  then show ?case using Cons by (fastforce split: if_splits)
qed simp

lemma listed_skill_exists:
  assumes "n \<in> set (skills_loader_list_skills fs parse loader f)" "length (sd_workspace loader) < 504"
  shows "sf_exists fs (skill_path_of loader n) \<or> (\<exists>dir. sd_builtin loader = Some dir \<and> sf_exists fs (builtin_path_of dir n))"
proof -
  have "skill_file (workspace_dir loader) n = skill_path_of loader n"
    using assms(2) by (simp add: skill_file_def workspace_dir_def skill_path_of_def)
  then show ?thesis
    using assms(1)
    by (auto simp: skills_loader_list_skills_def walk_skills_def Let_def builtin_path_of_def skill_file_def
        dest!: visit_exists split: option.splits)
qed

text \<open>
  Every skill that is listed is there to be loaded, and each name is listed once; so the loader, which looks into the workspace first, finds a
  file for each listed name (with a workspace path that fits into the buffer of the directory).
\<close>
theorem listed_skills_loadable:
  assumes "length (sd_workspace loader) < 504" "\<And>p. sf_exists fs p \<Longrightarrow> sf_read fs p \<noteq> None"
  shows "distinct (skills_loader_list_skills fs parse loader f) \<and>
    (\<forall>n \<in> set (skills_loader_list_skills fs parse loader f). skills_loader_load_skill fs loader n \<noteq> None)"
proof -
  have "skills_loader_load_skill fs loader n \<noteq> None" if "n \<in> set (skills_loader_list_skills fs parse loader f)" for n
    using listed_skill_exists [OF that assms(1)] assms(2)
    by (auto simp: skills_loader_load_skill_def read_skill_def split: option.split)
  then show ?thesis by (simp add: list_skills_distinct)
qed

definition demo_skill_files :: SkillFiles where
  "demo_skill_files =
     \<lparr>sf_exists = (\<lambda>p. p = ''/w/skills/pdf/SKILL.md''), sf_read = (\<lambda>p. if p = ''/w/skills/pdf/SKILL.md'' then Some ''Text'' else None),
      sf_dirs = (\<lambda>d. if d = ''/w/skills'' then Some [''.git'', ''pdf'', ''empty''] else None), sf_exec = (\<lambda>_. False), sf_env = (\<lambda>_. None)\<rparr>"

lemma demo_skills: "skills_loader_list_skills demo_skill_files (\<lambda>_. None) \<lparr>sd_workspace = ''/w'', sd_builtin = None\<rparr> False = [''pdf'']"
  by (simp add: demo_skill_files_def skills_loader_list_skills_def walk_skills_def skill_names_def workspace_dir_def skill_file_def
      add_skill_if_valid_to_array_def add_name_def)

theorem listed_skills_loadable_witness:
  "skills_loader_list_skills demo_skill_files (\<lambda>_. None) \<lparr>sd_workspace = ''/w'', sd_builtin = None\<rparr> False = [''pdf''] \<and>
   skills_loader_load_skill demo_skill_files \<lparr>sd_workspace = ''/w'', sd_builtin = None\<rparr> ''pdf'' \<noteq> None"
  using listed_skills_loadable [of "\<lparr>sd_workspace = ''/w'', sd_builtin = None\<rparr>" demo_skill_files "\<lambda>_. None" False] demo_skills
  by (simp add: demo_skill_files_def split: if_splits)

section \<open>Skills that are not skills\<close>

text \<open>The files of the model of the file system: \<open>access\<close> and \<open>fopen\<close>.\<close>

definition disk_skills ::
  "(path \<Rightarrow> bool) \<Rightarrow> path \<Rightarrow> fsys \<Rightarrow> (string \<Rightarrow> string list option) \<Rightarrow> (string \<Rightarrow> string option) \<Rightarrow> SkillFiles" where
  "disk_skills may cwd disk dirs env =
     \<lparr>sf_exists = (\<lambda>p. resolve False cwd disk p \<noteq> None),
      sf_read = (\<lambda>p. case open_read may cwd disk p of
                        Some q \<Rightarrow> (case disk q of Some (File t) \<Rightarrow> Some t | _ \<Rightarrow> None)
                      | None \<Rightarrow> None),
      sf_dirs = dirs, sf_exec = (\<lambda>p. resolve False cwd disk p \<noteq> None), sf_env = env\<rparr>"

text \<open>A target with slashes in front, so that the path fills its buffer and \<open>/SKILL.md\<close> is cut off.\<close>

definition padded_name :: "string \<Rightarrow> string \<Rightarrow> string" where
  "padded_name ws target = replicate (1023 - length (ws @ ''/skills/'' @ target)) slash @ target"

lemma padded_path:
  assumes "length (ws @ ''/skills/'' @ target) \<le> 1023"
  shows "skill_path_of \<lparr>sd_workspace = ws, sd_builtin = b\<rparr> (padded_name ws target) = ws @ ''/skills/'' @ padded_name ws target"
proof -
  define p where "p = ws @ ''/skills/'' @ padded_name ws target"
  have "length p = 1023" using assms by (simp add: p_def padded_name_def)
  then have "take 1023 (p @ ''/SKILL.md'') = p" by simp
  moreover have "skill_path_of \<lparr>sd_workspace = ws, sd_builtin = b\<rparr> (padded_name ws target) = take 1023 (p @ ''/SKILL.md'')"
    by (simp add: skill_path_of_def c_trunc_def p_def)
  ultimately show ?thesis by (simp add: p_def)
qed

lemma strtok_slashes: "strtok d (replicate n d @ s) = strtok d s"
  by (induction n) (simp_all add: strtok_slash)

lemma padded_resolves:
  assumes "target \<noteq> []" "length (ws @ ''/skills/'' @ target) \<le> 1023"
  shows "resolve c cwd disk (ws @ ''/skills/'' @ padded_name ws target) = resolve c cwd disk (ws @ ''/skills/'' @ target)"
proof -
  have "strtok slash ((ws @ ''/skills'') @ slash # padded_name ws target) = strtok slash ((ws @ ''/skills'') @ slash # target)"
    by (simp only: strtok_split padded_name_def strtok_slashes)
  then have "components (ws @ ''/skills/'' @ padded_name ws target) = components (ws @ ''/skills/'' @ target)"
    using assms(1) by (simp add: components_def padded_name_def)
  moreover have "start_dir (ws @ ''/skills/'' @ padded_name ws target) cwd = start_dir (ws @ ''/skills/'' @ target) cwd"
    by (cases ws) (simp_all add: start_dir_def absolute_def starts_with_prefix)
  moreover have "length (ws @ ''/skills/'' @ padded_name ws target) < PATH_MAX" "length (ws @ ''/skills/'' @ target) < PATH_MAX"
    using assms(2) by (simp_all add: padded_name_def PATH_MAX_def)
  ultimately show ?thesis by (simp add: resolve_def not_le)
qed

text \<open>
  The skill tool reads any file. For every file that the process may read there is a name (a relative path out of the
  directory of skills, filled up with slashes) for which loading the skill returns the content of that file, since the path is cut at
  1023 bytes and \<open>/SKILL.md\<close> falls off. Names come from the model and are not checked, nor is the workspace policy asked.
\<close>
theorem skill_name_reads_any_file:
  assumes "resolve False cwd disk (ws @ ''/skills/'' @ target) = Some q" "may q" "disk q = Some (File content)"
    and "target \<noteq> []" "length (ws @ ''/skills/'' @ target) \<le> 1023"
  shows "skills_loader_load_skill_with_path_hints (disk_skills may cwd disk dirs env) \<lparr>sd_workspace = ws, sd_builtin = b\<rparr> (padded_name ws target) =
    Some (takeWhile (\<lambda>c. c \<noteq> NUL) content @ workspace_hint ws (padded_name ws target))"
  using assms padded_path [OF assms(5), of b] padded_resolves [OF assms(4,5)]
  by (simp add: skills_loader_load_skill_with_path_hints_def disk_skills_def read_skill_def open_read_def)

definition demo_disk :: fsys where
  "demo_disk = [[] \<mapsto> Dir, [''w''] \<mapsto> Dir, [''w'', ''skills''] \<mapsto> Dir, [''secret''] \<mapsto> File ''key'']"

theorem skill_name_reads_any_file_witness:
  "skills_loader_load_skill_with_path_hints (disk_skills (\<lambda>_. True) [] demo_disk (\<lambda>_. None) (\<lambda>_. None))
     \<lparr>sd_workspace = ''/w'', sd_builtin = None\<rparr> (padded_name ''/w'' ''../../secret'') =
   Some (''key'' @ workspace_hint ''/w'' (padded_name ''/w'' ''../../secret''))"
proof -
  have "components (''/w'' @ ''/skills/'' @ ''../../secret'') = [''w'', ''skills'', ''..'', ''..'', ''secret'']"
    by (simp add: components_def strtok.simps)
  then have "resolve False [] demo_disk (''/w'' @ ''/skills/'' @ ''../../secret'') = Some [''secret'']"
    by (simp add: resolve_def PATH_MAX_def demo_disk_def start_dir_def absolute_def starts_with_prefix)
  moreover have "demo_disk [''secret''] = Some (File ''key'')" by (simp add: demo_disk_def)
  ultimately show ?thesis
    using skill_name_reads_any_file [of "[]" demo_disk "''/w''" "''../../secret''" "[''secret'']" "\<lambda>_. True" "''key''" "\<lambda>_. None" "\<lambda>_. None" None]
    by simp
qed

end
