(* ===== verification/ContextBuilder.thy ===== *)
theory ContextBuilder
  imports Skills Memory
begin

text \<open>
  \<open>context/context_builder.c\<close>: the system prompt, put together of the identity, the bootstrap files, the memory, the skills and the moment, with caches
  for the memory and the skills; and the window over a session. The memory and the files of the memory are those of \<open>Memory\<close>, the
  skills those of \<open>Skills\<close>; the answer of \<open>stat\<close> and the texts of \<open>strftime\<close> are arguments. Memory for the prompt is taken to be
  available.
\<close>

definition DEFAULT_CONTEXT_WINDOW :: nat where
  "DEFAULT_CONTEXT_WINDOW = 128000"

definition CONTEXT_RESERVE_TOKENS :: nat where
  "CONTEXT_RESERVE_TOKENS = 8192"

section \<open>The window over a session\<close>

text \<open>Token counts are \<open>size_t\<close>. The count leaves out the results of tools, the loop subtracts them.\<close>

definition message_tokens :: "Message \<Rightarrow> 64 word" where
  "message_tokens m = of_nat (estimate_tokens (Some (m_content m)))"

definition estimate_session_tokens :: "Message list \<Rightarrow> 64 word" where
  "estimate_session_tokens ms = sum_list (map message_tokens (filter (\<lambda>m. m_role m \<noteq> ROLE_TOOL) ms))"

fun slide :: "64 word \<Rightarrow> 64 word \<Rightarrow> Message list \<Rightarrow> Message list" where
  "slide max_tokens current [] = []"
| "slide max_tokens current (m # ms) =
     (if length (m # ms) > 2 \<and> current > max_tokens then slide max_tokens (current - message_tokens m) ms else m # ms)"

definition apply_sliding_window :: "64 word \<Rightarrow> Message list \<Rightarrow> Message list" where
  "apply_sliding_window max_tokens ms = (if max_tokens = 0 then ms else slide max_tokens (estimate_session_tokens ms) ms)"

section \<open>The prompt\<close>

record ContextBuilder =
  cb_identity :: string
  cb_bootstrap_files :: "string list"
  cb_has_memory :: bool
  cb_skills_loader :: SkillDirs
  cb_workspace :: string
  cb_cached_memory :: "string option"
  cb_cached_skills :: "string option"
  cb_cached_summary :: "string option"
  cb_memory_mtime :: nat
  cb_memory_version :: nat
  cb_context_window :: nat
  cb_max_history_tokens :: nat

definition context_builder_new :: "string \<Rightarrow> ContextBuilder" where
  "context_builder_new workspace =
     \<lparr>cb_identity = [], cb_bootstrap_files = [], cb_has_memory = False,
      cb_skills_loader = skills_loader_create_with_builtin workspace None, cb_workspace = workspace, cb_cached_memory = None,
      cb_cached_skills = None, cb_cached_summary = None, cb_memory_mtime = 0, cb_memory_version = 0,
      cb_context_window = DEFAULT_CONTEXT_WINDOW, cb_max_history_tokens = DEFAULT_CONTEXT_WINDOW - CONTEXT_RESERVE_TOKENS\<rparr>"

definition context_builder_set_context_window :: "nat \<Rightarrow> ContextBuilder \<Rightarrow> ContextBuilder" where
  "context_builder_set_context_window window_tokens cb =
     cb\<lparr>cb_context_window := window_tokens,
        cb_max_history_tokens := (if window_tokens > CONTEXT_RESERVE_TOKENS then window_tokens - CONTEXT_RESERVE_TOKENS
                                  else window_tokens div 2)\<rparr>"

definition context_builder_set_identity :: "string \<Rightarrow> ContextBuilder \<Rightarrow> ContextBuilder" where
  "context_builder_set_identity identity cb = cb\<lparr>cb_identity := identity\<rparr>"

definition context_builder_add_bootstrap :: "string \<Rightarrow> ContextBuilder \<Rightarrow> ContextBuilder" where
  "context_builder_add_bootstrap file_content cb = cb\<lparr>cb_bootstrap_files := cb_bootstrap_files cb @ [file_content]\<rparr>"

definition context_builder_set_memory :: "ContextBuilder \<Rightarrow> ContextBuilder" where
  "context_builder_set_memory cb = cb\<lparr>cb_has_memory := True\<rparr>"

definition build_runtime_context :: "string \<Rightarrow> string \<Rightarrow> string option \<Rightarrow> string option \<Rightarrow> string" where
  "build_runtime_context time_buf tz channel chat_id =
     ''[Runtime Context]'' @ [newline] @
     c_trunc 256 (''Current Time: '' @ time_buf @ '' ('' @ (if tz = [] then ''UTC'' else tz) @ '')'' @ [newline]) @
     (case (channel, chat_id) of
        (Some c, Some i) \<Rightarrow> c_trunc 256 (''Current Channel: '' @ c @ [newline] @ ''Current Chat ID: '' @ i @ [newline])
      | _ \<Rightarrow> [])"

definition rule_line :: string where
  "rule_line = [newline, newline] @ ''---'' @ [newline, newline]"

text \<open>The section of the memory: \<open>mtime\<close> is the time of the file, 0 when \<open>stat\<close> fails.\<close>

definition context_memory ::
  "(nat \<Rightarrow> bool) \<Rightarrow> (string \<Rightarrow> bool) \<Rightarrow> nat \<Rightarrow> filesystem \<Rightarrow> Memory \<Rightarrow> ContextBuilder \<Rightarrow> string \<times> filesystem \<times> Memory \<times> ContextBuilder" where
  "context_memory malloc_ok can_write mtime files mem cb =
     (if \<not> cb_has_memory cb then ([], files, mem, cb)
      else (let file_changed = mtime > cb_memory_mtime cb;
                (mem, files) = (if file_changed
                                then (case memory_load malloc_ok can_write files mem (Some (cb_workspace cb)) of (_, m, f) \<Rightarrow> (m, f))
                                else (mem, files));
                current_version = memory_get_version mem;
                cb = (if cb_cached_memory cb = None \<or> file_changed \<or> current_version \<noteq> cb_memory_version cb
                      then cb\<lparr>cb_cached_memory := Some (m_memory_md mem), cb_memory_mtime := mtime, cb_memory_version := current_version\<rparr>
                      else cb)
            in (case cb_cached_memory cb of Some c \<Rightarrow> c @ rule_line | None \<Rightarrow> [], files, mem, cb)))"

definition cache_skills :: "SkillFiles \<Rightarrow> json_parser \<Rightarrow> ContextBuilder \<Rightarrow> ContextBuilder" where
  "cache_skills fs parse cb =
     (if cb_cached_skills cb = None \<or> cb_cached_summary cb = None
      then (let always_skills = skills_loader_get_always_skills fs parse (Some (cb_skills_loader cb))
            in cb\<lparr>cb_cached_skills := (if always_skills \<noteq> []
                                       then Some (skills_loader_load_skills_for_context fs (cb_skills_loader cb) always_skills)
                                       else cb_cached_skills cb),
                  cb_cached_summary := Some (skills_loader_build_skills_summary fs parse (cb_skills_loader cb))\<rparr>)
      else cb)"

definition skills_intro :: string where
  "skills_intro =
     ''# Available Skills'' @ [newline, newline] @ ''Skills extend your capabilities. To use a skill:'' @ [newline] @
     ''1. Use `skill` tool with action='' @ [CHR 0x27] @ ''load'' @ [CHR 0x27] @ '' and name='' @ [CHR 0x27] @ ''skill-name'' @ [CHR 0x27] @
     '' to read the SKILL.md'' @ [newline] @
     ''2. Follow the skill'' @ [CHR 0x27] @ ''s instructions to complete the task (may involve using other tools like `exec`)'' @ [newline] @
     ''IMPORTANT: Skills are NOT directly callable as tools. Always use `skill` tool first to load the skill.'' @ [newline, newline]"

definition skills_sections :: "ContextBuilder \<Rightarrow> string" where
  "skills_sections cb =
     (case cb_cached_skills cb of Some s \<Rightarrow> ''# Active Skills'' @ [newline, newline] @ s @ rule_line | None \<Rightarrow> []) @
     (case cb_cached_summary cb of Some s \<Rightarrow> skills_intro @ s @ rule_line | None \<Rightarrow> [])"

definition fixed_sections :: "ContextBuilder \<Rightarrow> string" where
  "fixed_sections cb =
     (if cb_identity cb \<noteq> [] then cb_identity cb @ rule_line else []) @ concat (map (\<lambda>f. f @ rule_line) (cb_bootstrap_files cb))"

definition context_builder_build_with_channel ::
  "(nat \<Rightarrow> bool) \<Rightarrow> (string \<Rightarrow> bool) \<Rightarrow> nat \<Rightarrow> SkillFiles \<Rightarrow> json_parser \<Rightarrow> string \<Rightarrow> string \<Rightarrow> string option \<Rightarrow> string option \<Rightarrow>
   filesystem \<Rightarrow> Memory \<Rightarrow> ContextBuilder \<Rightarrow> string \<times> filesystem \<times> Memory \<times> ContextBuilder" where
  "context_builder_build_with_channel malloc_ok can_write mtime fs parse time_buf tz channel chat_id files mem cb =
     (case context_memory malloc_ok can_write mtime files mem cb of
        (memory_section, files, mem, cb) \<Rightarrow>
          (let cb = cache_skills fs parse cb
           in (fixed_sections cb @ memory_section @ skills_sections cb @ [newline] @ build_runtime_context time_buf tz channel chat_id,
               files, mem, cb)))"

definition context_builder_build ::
  "(nat \<Rightarrow> bool) \<Rightarrow> (string \<Rightarrow> bool) \<Rightarrow> nat \<Rightarrow> SkillFiles \<Rightarrow> json_parser \<Rightarrow> string \<Rightarrow> string \<Rightarrow> filesystem \<Rightarrow> Memory \<Rightarrow> ContextBuilder \<Rightarrow>
   string \<times> filesystem \<times> Memory \<times> ContextBuilder" where
  "context_builder_build malloc_ok can_write mtime fs parse time_buf tz files mem cb =
     context_builder_build_with_channel malloc_ok can_write mtime fs parse time_buf tz None None files mem cb"

section \<open>The window keeps the longest end that fits\<close>

text \<open>Sums as natural numbers; without tool results and below the range of \<open>size_t\<close> they are what the code computes.\<close>

definition total_tokens :: "Message list \<Rightarrow> nat" where
  "total_tokens ms = sum_list (map (\<lambda>m. estimate_tokens (Some (m_content m))) ms)"

lemma session_tokens_total:
  "list_all (\<lambda>m. m_role m \<noteq> ROLE_TOOL) ms \<Longrightarrow> estimate_session_tokens ms = of_nat (total_tokens ms)"
  by (induction ms) (simp_all add: estimate_session_tokens_def total_tokens_def message_tokens_def)

lemma slide_suffix: "suffix (slide t c ms) ms \<and> (length ms \<ge> 2 \<longrightarrow> length (slide t c ms) \<ge> 2)"
  by (induction ms arbitrary: c) (auto simp: suffix_Cons)

lemma slide_longest:
  assumes "total_tokens ms < 2 ^ 64" "suffix e ms" "total_tokens e \<le> unat t \<or> length e \<le> 2"
  shows "length e \<le> length (slide t (of_nat (total_tokens ms)) ms)"
  using assms
proof (induction ms)
  case (Cons m ms)
  have total: "total_tokens (m # ms) = estimate_tokens (Some (m_content m)) + total_tokens ms" by (simp add: total_tokens_def)
  show ?case
  proof (cases "length (m # ms) > 2 \<and> (of_nat (total_tokens (m # ms)) :: 64 word) > t")
    case True
    have "unat (of_nat (total_tokens (m # ms)) :: 64 word) = total_tokens (m # ms)"
      using Cons.prems(1) by (simp add: unat_of_nat)
    then have "e \<noteq> m # ms" using True Cons.prems(3) by (auto simp: word_less_nat_alt)
    then have "suffix e ms" using Cons.prems(2) by (simp add: suffix_Cons)
    moreover have "(of_nat (total_tokens (m # ms)) :: 64 word) - message_tokens m = of_nat (total_tokens ms)"
      by (simp add: total message_tokens_def)
    ultimately show ?thesis using Cons.IH Cons.prems True total by simp
  next
    case False
    then show ?thesis using suffix_length_le [OF Cons.prems(2)] by auto
  qed
qed auto

lemma slide_fits:
  assumes "total_tokens ms < 2 ^ 64"
  shows "total_tokens (slide t (of_nat (total_tokens ms)) ms) \<le> unat t \<or> length (slide t (of_nat (total_tokens ms)) ms) \<le> 2"
  using assms
proof (induction ms)
  case (Cons m ms)
  have total: "total_tokens (m # ms) = estimate_tokens (Some (m_content m)) + total_tokens ms" by (simp add: total_tokens_def)
  have "unat (of_nat (total_tokens (m # ms)) :: 64 word) = total_tokens (m # ms)" using Cons.prems by (simp add: unat_of_nat)
  moreover have "(of_nat (total_tokens (m # ms)) :: 64 word) - message_tokens m = of_nat (total_tokens ms)"
    by (simp add: total message_tokens_def)
  ultimately show ?case using Cons total by (auto simp: word_less_nat_alt not_less)
qed (simp add: total_tokens_def)

text \<open>
  For a session without tool results the window is the longest end of the session that is within the limit or has at
  most two messages.
\<close>

lemma window_longest_fit:
  assumes "list_all (\<lambda>m. m_role m \<noteq> ROLE_TOOL) ms" "total_tokens ms < 2 ^ 64" "t \<noteq> 0"
  shows "suffix (apply_sliding_window t ms) ms \<and>
    (total_tokens (apply_sliding_window t ms) \<le> unat t \<or> length (apply_sliding_window t ms) \<le> 2) \<and>
    (\<forall>e. suffix e ms \<longrightarrow> total_tokens e \<le> unat t \<or> length e \<le> 2 \<longrightarrow> length e \<le> length (apply_sliding_window t ms))"
  using slide_suffix slide_fits [OF assms(2)] slide_longest [OF assms(2)] assms(3)
  by (auto simp: apply_sliding_window_def session_tokens_total [OF assms(1)])

text \<open>With a tool result the difference wraps around and everything but two messages goes.\<close>

lemma window_wraps:
  fixes current t :: "64 word"
  assumes "m_role m = ROLE_TOOL" "length ms > 2" "current > t" "unat (message_tokens m) > unat current"
    "unat current + 2 ^ 64 - unat (message_tokens m) > unat t"
  shows "slide t current (m # ms) = slide t (current - message_tokens m) ms \<and> current - message_tokens m > t"
proof -
  have "unat (current - message_tokens m) = unat current + 2 ^ 64 - unat (message_tokens m)"
    using assms(4) by (simp add: unat_sub_if' )
  then show ?thesis using assms by (simp add: word_less_nat_alt)
qed

section \<open>The prompt shows the memory\<close>

text \<open>The operations on the memory and the builds, in any order.\<close>

type_synonym prompt_state = "filesystem \<times> Memory \<times> ContextBuilder"

inductive prompt_step :: "(nat \<Rightarrow> bool) \<Rightarrow> (string \<Rightarrow> bool) \<Rightarrow> prompt_state \<Rightarrow> prompt_state \<Rightarrow> bool" for malloc_ok can_write where
  "prompt_step malloc_ok can_write (files, mem, cb) (files, memory_add_fact malloc_ok mem f, cb)"
| "prompt_step malloc_ok can_write (files, mem, cb) (files, memory_add_history malloc_ok mem f, cb)"
| "memory_append_history malloc_ok can_write files mem ws entry = (err, mem', files') \<Longrightarrow>
   prompt_step malloc_ok can_write (files, mem, cb) (files', mem', cb)"
| "memory_set_facts mem update = (err, mem') \<Longrightarrow> prompt_step malloc_ok can_write (files, mem, cb) (files, mem', cb)"
| "memory_load malloc_ok can_write files mem ws = (err, mem', files') \<Longrightarrow> prompt_step malloc_ok can_write (files, mem, cb) (files', mem', cb)"
| "memory_consolidate malloc_ok can_write files mem ws = (err, mem', files') \<Longrightarrow>
   prompt_step malloc_ok can_write (files, mem, cb) (files', mem', cb)"
| "prompt_step malloc_ok can_write (files, mem, cb) (other, mem, cb)"
| "context_builder_build_with_channel malloc_ok can_write mtime fs parse time_buf tz channel chat_id files mem cb = (prompt, files', mem', cb') \<Longrightarrow>
   prompt_step malloc_ok can_write (files, mem, cb) (files', mem', cb')"

text \<open>
  The states that are reached, with the identity that was set last and the bootstrap files in the order in which they were added. \<open>main.c\<close> reads both from files when it
  starts.
\<close>

inductive prompt_reachable :: "(nat \<Rightarrow> bool) \<Rightarrow> (string \<Rightarrow> bool) \<Rightarrow> string \<Rightarrow> string list \<Rightarrow> prompt_state \<Rightarrow> bool" for malloc_ok can_write where
  prompt_start: "prompt_reachable malloc_ok can_write [] [] (files, mem, context_builder_set_memory (context_builder_new workspace))"
| prompt_identity: "prompt_reachable malloc_ok can_write i bs (files, mem, cb) \<Longrightarrow>
   prompt_reachable malloc_ok can_write identity bs (files, mem, context_builder_set_identity identity cb)"
| prompt_bootstrap: "prompt_reachable malloc_ok can_write i bs (files, mem, cb) \<Longrightarrow>
   prompt_reachable malloc_ok can_write i (bs @ [content]) (files, mem, context_builder_add_bootstrap content cb)"
| prompt_window: "prompt_reachable malloc_ok can_write i bs (files, mem, cb) \<Longrightarrow>
   prompt_reachable malloc_ok can_write i bs (files, mem, context_builder_set_context_window n cb)"
| prompt_next: "prompt_reachable malloc_ok can_write i bs s \<Longrightarrow> prompt_step malloc_ok can_write s s' \<Longrightarrow> prompt_reachable malloc_ok can_write i bs s'"

definition memory_cached :: "Memory \<Rightarrow> ContextBuilder \<Rightarrow> bool" where
  "memory_cached mem cb \<longleftrightarrow> cb_has_memory cb \<and>
     (case cb_cached_memory cb of
        None \<Rightarrow> True
      | Some c \<Rightarrow> cb_memory_version cb \<le> m_version mem \<and> (cb_memory_version cb = m_version mem \<longrightarrow> c = m_memory_md mem))"

text \<open>An operation that changes the facts counts the version up.\<close>

definition bumps :: "Memory \<Rightarrow> Memory \<Rightarrow> bool" where
  "bumps mem mem' \<longleftrightarrow> m_version mem < m_version mem' \<or> m_version mem' = m_version mem \<and> m_memory_md mem' = m_memory_md mem"

lemma bumps_cached: "memory_cached mem cb \<Longrightarrow> bumps mem mem' \<Longrightarrow> memory_cached mem' cb"
  by (auto simp: memory_cached_def bumps_def split: option.splits)

lemma add_fact_version [simp]: "m_version (add_fact_unlocked malloc_ok mem f) = m_version mem"
  by (simp add: add_fact_unlocked_def Let_def)

lemma append_buffer_keeps [simp]:
  "m_version (append_history_buffer_unlocked malloc_ok mem e) = m_version mem"
  "m_memory_md (append_history_buffer_unlocked malloc_ok mem e) = m_memory_md mem"
  by (simp_all add: append_history_buffer_unlocked_def Let_def)

lemma replace_history_version [simp]: "m_version (replace_history malloc_ok n mem) = m_version mem"
  by (simp add: replace_history_def Let_def)

lemma old_facts_version [simp]: "m_version (add_old_facts malloc_ok mem n ls) = m_version mem"
  by (induction malloc_ok mem n ls rule: add_old_facts.induct) (simp_all add: Let_def)

lemma op_bumps:
  "bumps mem (memory_add_fact malloc_ok mem f')" "bumps mem (memory_add_history malloc_ok mem f')"
  "memory_append_history malloc_ok can_write files mem ws entry = (err, mem', files') \<Longrightarrow> bumps mem mem'"
  "memory_set_facts mem update = (err, mem') \<Longrightarrow> bumps mem mem'"
  "memory_load malloc_ok can_write files mem ws = (err, mem', files') \<Longrightarrow> bumps mem mem'"
  "memory_consolidate malloc_ok can_write files mem ws = (err, mem', files') \<Longrightarrow> bumps mem mem'"
  by (auto simp: bumps_def memory_add_fact_def memory_add_history_def memory_append_history_def memory_set_facts_def memory_load_def
      memory_consolidate_def Let_def split: option.splits if_splits prod.splits)

lemma context_memory_shows:
  assumes "memory_cached mem cb" "context_memory malloc_ok can_write mtime files mem cb = (sect, files', mem', cb')"
  shows "sect = m_memory_md mem' @ rule_line \<and> memory_cached mem' cb' \<and> (mtime \<le> cb_memory_mtime cb \<longrightarrow> mem' = mem)"
proof -
  obtain err m f where load: "memory_load malloc_ok can_write files mem (Some (cb_workspace cb)) = (err, m, f)"
    by (cases "memory_load malloc_ok can_write files mem (Some (cb_workspace cb))")
  show ?thesis
    using assms load by (auto simp: context_memory_def memory_cached_def Let_def memory_get_version_def split: if_splits option.splits)
qed

lemma cache_skills_memory [simp]:
  "cb_has_memory (cache_skills fs parse cb) = cb_has_memory cb" "cb_cached_memory (cache_skills fs parse cb) = cb_cached_memory cb"
  "cb_memory_version (cache_skills fs parse cb) = cb_memory_version cb"
  by (simp_all add: cache_skills_def Let_def)

lemma cached_cache_skills [simp]: "memory_cached mem (cache_skills fs parse cb) = memory_cached mem cb"
  by (simp add: memory_cached_def split: option.split)

lemma build_cached:
  assumes "memory_cached mem cb"
    "context_builder_build_with_channel malloc_ok can_write mtime fs parse time_buf tz channel chat_id files mem cb = (prompt, files', mem', cb')"
  shows "memory_cached mem' cb'"
  using assms context_memory_shows [OF assms(1), of malloc_ok can_write mtime files]
  by (auto simp: context_builder_build_with_channel_def Let_def split: prod.splits)

lemma prompt_step_cached:
  "prompt_step malloc_ok can_write s s' \<Longrightarrow> (case s of (_, mem, cb) \<Rightarrow> memory_cached mem cb) \<Longrightarrow> (case s' of (_, mem, cb) \<Rightarrow> memory_cached mem cb)"
  by (induction rule: prompt_step.induct) (auto intro: bumps_cached op_bumps build_cached)

lemma builder_keeps:
  assumes "context_builder_build_with_channel malloc_ok can_write mtime fs parse time_buf tz channel chat_id files mem cb = (prompt, files', mem', cb')"
  shows "cb_identity cb' = cb_identity cb" "cb_bootstrap_files cb' = cb_bootstrap_files cb"
  using assms by (auto simp: context_builder_build_with_channel_def context_memory_def cache_skills_def Let_def split: prod.splits if_splits)

lemma prompt_step_keeps:
  "prompt_step malloc_ok can_write s s' \<Longrightarrow>
   cb_identity (snd (snd s')) = cb_identity (snd (snd s)) \<and> cb_bootstrap_files (snd (snd s')) = cb_bootstrap_files (snd (snd s))"
  by (induction rule: prompt_step.induct) (auto dest: builder_keeps)

lemma setters_cached [simp]:
  "memory_cached mem (context_builder_set_identity i cb) = memory_cached mem cb"
  "memory_cached mem (context_builder_add_bootstrap f cb) = memory_cached mem cb"
  "memory_cached mem (context_builder_set_context_window n cb) = memory_cached mem cb"
  by (simp_all add: memory_cached_def context_builder_set_identity_def context_builder_add_bootstrap_def context_builder_set_context_window_def
      split: option.split)

lemma prompt_reachable_cached:
  "prompt_reachable malloc_ok can_write i bs s \<Longrightarrow>
   (case s of (_, mem, cb) \<Rightarrow> memory_cached mem cb \<and> cb_identity cb = i \<and> cb_bootstrap_files cb = bs)"
proof (induction rule: prompt_reachable.induct)
  case (prompt_start files mem workspace)
  then show ?case by (simp add: memory_cached_def context_builder_set_memory_def context_builder_new_def)
next
  case (prompt_next i bs s s')
  then show ?case using prompt_step_cached [OF prompt_next.hyps(2)] prompt_step_keeps [OF prompt_next.hyps(2)] by (auto split: prod.splits)
qed (simp_all, simp_all add: context_builder_set_identity_def context_builder_add_bootstrap_def context_builder_set_context_window_def)

text \<open>
  Claim C14. The prompt always shows the memory as it is: whatever the memory tool, the agent, other writers of the files and earlier
  builds have done, the prompt that is built consists of the identity that was set last, if it is not empty, the bootstrap files in the order in which they were added, the facts
  that are in memory now, the sections of the skills and, at the end, the runtime context. The cache is never stale with respect to the memory, and the files are
  read again only when their time has moved forward.
\<close>
theorem prompt_shows_memory:
  assumes "prompt_reachable malloc_ok can_write identity bootstrap (files, mem, cb)"
    and "context_builder_build_with_channel malloc_ok can_write mtime fs parse time_buf tz channel chat_id files mem cb = (prompt, files', mem', cb')"
  shows "prompt = (if identity \<noteq> [] then identity @ rule_line else []) @ concat (map (\<lambda>f. f @ rule_line) bootstrap) @
      m_memory_md mem' @ rule_line @ skills_sections cb' @ [newline] @ build_runtime_context time_buf tz channel chat_id \<and>
    (mtime \<le> cb_memory_mtime cb \<longrightarrow> mem' = mem)"
  using context_memory_shows [of mem cb malloc_ok can_write mtime files] prompt_reachable_cached [OF assms(1)] builder_keeps [OF assms(2)] assms(2)
  by (auto simp: context_builder_build_with_channel_def fixed_sections_def Let_def split: prod.splits)

definition demo_builder :: ContextBuilder where
  "demo_builder =
     context_builder_add_bootstrap ''user'' (context_builder_set_identity ''agent'' (context_builder_set_memory (context_builder_new ''/w'')))"

definition demo_store :: Memory where
  "demo_store = memory_add_fact (\<lambda>_. True) (the (memory_new True)) (Some ''tea'')"

theorem prompt_shows_memory_witness:
  "m_memory_md demo_store \<noteq> [] \<and>
   fst (context_builder_build_with_channel (\<lambda>_. True) (\<lambda>_. True) 0 demo_skill_files (\<lambda>_. None) ''now'' [] None None Map.empty demo_store demo_builder) =
     ''agent'' @ rule_line @ ''user'' @ rule_line @ m_memory_md demo_store @ rule_line @
     skills_sections (snd (snd (snd (context_builder_build_with_channel (\<lambda>_. True) (\<lambda>_. True) 0 demo_skill_files (\<lambda>_. None) ''now'' [] None None
       Map.empty demo_store demo_builder)))) @ [newline] @ build_runtime_context ''now'' [] None None"
proof -
  have "prompt_reachable (\<lambda>_. True) (\<lambda>_. True) ''agent'' ([] @ [''user'']) (Map.empty, demo_store, demo_builder)"
    unfolding demo_store_def demo_builder_def
    by (intro prompt_bootstrap prompt_identity) (rule prompt_next [OF prompt_start prompt_step.intros(1)])
  moreover obtain prompt files' mem' cb' where
    b: "context_builder_build_with_channel (\<lambda>_. True) (\<lambda>_. True) 0 demo_skill_files (\<lambda>_. None) ''now'' [] None None Map.empty demo_store demo_builder =
      (prompt, files', mem', cb')"
    by (metis prod_cases4)
  moreover have "mem' = demo_store" using prompt_shows_memory [OF calculation] by simp
  moreover have "m_memory_md demo_store \<noteq> []"
    by (simp add: demo_store_def memory_new_def memory_new_with_config_def memory_add_fact_def add_fact_unlocked_def fact_exists_unlocked_def
        insert_index_def Let_def MEMORY_HARD_CAP_BYTES_def starts_with_def)
  ultimately show ?thesis using prompt_shows_memory [OF _ b] by simp
qed

end
