(* ===== verification/Config.thy ===== *)
theory Config
  imports OpenAi PluginManager
begin

text \<open>
  \<open>src/config/config.c\<close>: the configuration, its defaults, the settings read from a file and from the environment, and the
  saved file. Providers and entries of plugins are the records of \<open>OpenAi\<close> and \<open>PluginManager\<close>; a growing array is a list.
  Memory is taken to be available. \<open>cf_fault\<close> says that the code has read a text that it had freed before.
\<close>

section \<open>Data\<close>

record AgentConfig =
  ag_provider :: string
  ag_max_tool_iterations :: int
  ag_memory_window :: int
  ag_memory_max_tokens :: int
  ag_memory_consolidation_threshold :: rat

record ExecToolConfig =
  ex_timeout :: int
  ex_restrict_to_workspace :: bool
  ex_path_append :: string

record ToolConfig =
  to_exec :: ExecToolConfig
  to_restrict_to_workspace :: bool

record DNSConfig =
  dn_dns4 :: "string option"
  dn_dns6 :: "string option"
  dn_dns4_url :: "string option"
  dn_dns6_url :: "string option"
  dn_timeout_ms :: int
  dn_use_system_resolver :: bool

record HeartbeatConfig =
  he_enabled :: bool
  he_interval_s :: int

record LogConfig =
  lo_level :: string
  lo_console_output :: bool

record Config =
  cf_agent :: AgentConfig
  cf_providers :: "ProviderConfig list"
  cf_tools :: ToolConfig
  cf_dns :: DNSConfig
  cf_heartbeat :: HeartbeatConfig
  cf_log :: LogConfig
  cf_plugins :: "PluginConfig list"
  cf_fault :: bool

type_synonym environment = "string \<Rightarrow> string option"

section \<open>Values\<close>

definition json_int :: "json option \<Rightarrow> int \<Rightarrow> int" where
  "json_int item default_val = (case json_number item of Some n \<Rightarrow> number_valueint n | None \<Rightarrow> default_val)"

definition json_double :: "json option \<Rightarrow> rat \<Rightarrow> rat" where
  "json_double item default_val = (case json_number item of Some n \<Rightarrow> n | None \<Rightarrow> default_val)"

definition json_flag :: "json option \<Rightarrow> bool \<Rightarrow> bool" where
  "json_flag item default_val = (case json_bool item of Some b \<Rightarrow> b | None \<Rightarrow> default_val)"

definition json_text :: "json option \<Rightarrow> string \<Rightarrow> string" where
  "json_text item default_val = (case json_string item of Some s \<Rightarrow> s | None \<Rightarrow> default_val)"

definition env_bool :: "string \<Rightarrow> bool" where
  "env_bool val \<longleftrightarrow> val \<in> {''true'', ''yes'', ''1''}"

text \<open>
  \<open>atof\<close> on decimal numbers, before the value is rounded to a \<open>double\<close>: spaces, a sign, digits with a point, and an
  exponent when a digit follows. Hexadecimal numbers, infinities and NaN are left out.
\<close>

definition digits_value :: "string \<Rightarrow> rat" where
  "digits_value ds = foldl (\<lambda>v d. 10 * v + of_int (digit_val d)) 0 ds"

definition read_sign :: "string \<Rightarrow> rat \<times> string" where
  "read_sign s =
     (case s of c # cs \<Rightarrow> if c = CHR ''-'' then (- 1, cs) else if c = CHR ''+'' then (1, cs) else (1, s) | [] \<Rightarrow> (1, []))"

definition read_exponent :: "string \<Rightarrow> rat" where
  "read_exponent s =
     (case s of
        c # cs \<Rightarrow>
          if tolower c = CHR ''e''
          then (let (sg, ds) = read_sign cs; e = nat \<lfloor>digits_value (takeWhile isdigit ds)\<rfloor>
                in if sg = 1 then 10 ^ e else 1 / 10 ^ e)
          else 1
      | [] \<Rightarrow> 1)"

definition atof :: "string \<Rightarrow> rat" where
  "atof s =
     (let (sg, t) = read_sign (skip_space s);
          whole = takeWhile isdigit t;
          r = dropWhile isdigit t;
          point = (r \<noteq> [] \<and> hd r = CHR ''.'');
          frac = (if point then takeWhile isdigit (tl r) else []);
          rest = (if point then dropWhile isdigit (tl r) else r)
      in if whole = [] \<and> frac = [] then 0
         else sg * (digits_value whole + digits_value frac / 10 ^ length frac) * read_exponent rest)"

section \<open>Providers and plugins\<close>

definition set_provider :: "string \<Rightarrow> (ProviderConfig \<Rightarrow> ProviderConfig) \<Rightarrow> Config \<Rightarrow> Config" where
  "set_provider name f cfg = cfg\<lparr>cf_providers := update_first (\<lambda>p. pc_name p = name) f (cf_providers cfg)\<rparr>"

definition config_get_provider :: "Config \<Rightarrow> string \<Rightarrow> ProviderConfig option" where
  "config_get_provider cfg name = find (\<lambda>p. pc_name p = name) (cf_providers cfg)"

definition new_provider :: "string \<Rightarrow> ProviderConfig" where
  "new_provider name =
     \<lparr>pc_name = name, pc_model = Some [], pc_api_key = Some [], pc_api_base = Some [], pc_temperature = 1 / 10,
      pc_max_tokens = 4096, pc_reasoning_effort = Some ''medium''\<rparr>"

definition config_add_provider :: "string \<Rightarrow> Config \<Rightarrow> Config" where
  "config_add_provider name cfg =
     (case config_get_provider cfg name of
        Some _ \<Rightarrow> cfg | None \<Rightarrow> cfg\<lparr>cf_providers := cf_providers cfg @ [new_provider name]\<rparr>)"

definition config_get_active_provider :: "Config \<Rightarrow> ProviderConfig option" where
  "config_get_active_provider cfg = config_get_provider cfg (ag_provider (cf_agent cfg))"

definition config_add_plugin_config :: "string \<Rightarrow> Config \<Rightarrow> Config" where
  "config_add_plugin_config plugin_id cfg =
     (case config_get_plugin_config plugin_id (cf_plugins cfg) of
        Some _ \<Rightarrow> cfg
      | None \<Rightarrow> cfg\<lparr>cf_plugins := cf_plugins cfg @ [\<lparr>pcf_id = plugin_id, pcf_enabled = False, pcf_config = None\<rparr>]\<rparr>)"

definition change_plugin :: "string \<Rightarrow> (PluginConfig \<Rightarrow> PluginConfig) \<Rightarrow> Config \<Rightarrow> Config" where
  "change_plugin plugin_id f cfg = cfg\<lparr>cf_plugins := update_first (\<lambda>p. pcf_id p = plugin_id) f (cf_plugins cfg)\<rparr>"

section \<open>Defaults\<close>

definition default_provider :: ProviderConfig where
  "default_provider = (new_provider ''openai'')\<lparr>pc_model := Some ''gpt-4'', pc_api_base := Some ''https://api.openai.com/v1''\<rparr>"

definition default_dns :: DNSConfig where
  "default_dns =
     \<lparr>dn_dns4 = Some ''8.8.8.8'', dn_dns6 = Some ''2001:4860:4860::8888'', dn_dns4_url = Some ''udp://8.8.8.8:53'',
      dn_dns6_url = Some ''udp://2001:4860:4860::8888:53'', dn_timeout_ms = 5000, dn_use_system_resolver = False\<rparr>"

definition config_create :: Config where
  "config_create =
     \<lparr>cf_agent = \<lparr>ag_provider = ''openai'', ag_max_tool_iterations = 15, ag_memory_window = 100, ag_memory_max_tokens = 4000,
                  ag_memory_consolidation_threshold = 8 / 10\<rparr>,
      cf_providers = [default_provider],
      cf_tools = \<lparr>to_exec = \<lparr>ex_timeout = 300, ex_restrict_to_workspace = True, ex_path_append = []\<rparr>, to_restrict_to_workspace = True\<rparr>,
      cf_dns = default_dns, cf_heartbeat = \<lparr>he_enabled = True, he_interval_s = 300\<rparr>,
      cf_log = \<lparr>lo_level = ''INFO'', lo_console_output = False\<rparr>, cf_plugins = [], cf_fault = False\<rparr>"


section \<open>The file\<close>

text \<open>
  A text of a provider is freed before the item is read: an item that is not a string gives the text just freed, and the
  configuration is faulty.
\<close>

definition provider_text :: "json option \<Rightarrow> ((string option \<Rightarrow> string option) \<Rightarrow> ProviderConfig \<Rightarrow> ProviderConfig) \<Rightarrow> ProviderConfig \<Rightarrow> ProviderConfig" where
  "provider_text item upd pc = (case json_string item of Some s \<Rightarrow> upd (\<lambda>_. Some s) pc | None \<Rightarrow> pc)"

definition text_fault :: "json option \<Rightarrow> bool" where
  "text_fault item \<longleftrightarrow> item \<noteq> None \<and> json_string item = None"

definition read_provider :: "json \<Rightarrow> ProviderConfig \<Rightarrow> ProviderConfig" where
  "read_provider entry pc =
     (let item = get_object_item (Some entry);
          pc = provider_text (item ''model'') pc_model_update pc;
          pc = provider_text (item ''apiKey'') pc_api_key_update pc;
          pc = provider_text (item ''apiBase'') pc_api_base_update pc;
          pc = pc\<lparr>pc_temperature := json_double (item ''temperature'') (pc_temperature pc)\<rparr>;
          pc = pc\<lparr>pc_max_tokens := json_int (item ''max_tokens'') (pc_max_tokens pc)\<rparr>
      in provider_text (item ''reasoning_effort'') pc_reasoning_effort_update pc)"

definition provider_fault :: "json \<Rightarrow> bool" where
  "provider_fault entry \<longleftrightarrow>
     list_ex (\<lambda>k. text_fault (get_object_item (Some entry) k)) [''model'', ''apiKey'', ''apiBase'', ''reasoning_effort'']"

definition load_provider :: "string \<Rightarrow> json \<Rightarrow> Config \<Rightarrow> Config" where
  "load_provider name entry cfg =
     (set_provider name (read_provider entry) (config_add_provider name cfg))\<lparr>cf_fault := cf_fault cfg \<or> provider_fault entry\<rparr>"

definition read_agent :: "json \<Rightarrow> AgentConfig \<Rightarrow> AgentConfig" where
  "read_agent agent a =
     (let item = get_object_item (Some agent);
          num = (\<lambda>key default_val old. case item key of Some j \<Rightarrow> json_int (Some j) default_val | None \<Rightarrow> old)
      in \<lparr>ag_provider = (case item ''provider'' of Some j \<Rightarrow> json_text (Some j) ''openai'' | None \<Rightarrow> ag_provider a),
          ag_max_tool_iterations = num ''max_tool_iterations'' 15 (ag_max_tool_iterations a),
          ag_memory_window = num ''memory_window'' 100 (ag_memory_window a),
          ag_memory_max_tokens = num ''memory_max_tokens'' 4000 (ag_memory_max_tokens a),
          ag_memory_consolidation_threshold =
            (case item ''memory_consolidation_threshold'' of
               Some j \<Rightarrow> json_double (Some j) (8 / 10) | None \<Rightarrow> ag_memory_consolidation_threshold a)\<rparr>)"

definition load_agent :: "json option \<Rightarrow> Config \<Rightarrow> Config" where
  "load_agent agent cfg =
     (case agent of
        None \<Rightarrow> cfg
      | Some ag \<Rightarrow>
          (let cfg = cfg\<lparr>cf_agent := read_agent ag (cf_agent cfg)\<rparr>
           in if list_ex (\<lambda>k. get_object_item agent k \<noteq> None)
                   [''model'', ''apiKey'', ''apiBase'', ''temperature'', ''max_tokens'', ''reasoning_effort'']
              then load_provider ''openai'' ag cfg else cfg))"

definition load_provider_entry :: "json \<Rightarrow> Config \<Rightarrow> Config" where
  "load_provider_entry entry cfg =
     (case json_string (get_object_item (Some entry) ''name'') of None \<Rightarrow> cfg | Some name \<Rightarrow> load_provider name entry cfg)"

definition load_providers :: "json option \<Rightarrow> Config \<Rightarrow> Config" where
  "load_providers providers cfg =
     (case json_array providers of None \<Rightarrow> cfg | Some entries \<Rightarrow> fold load_provider_entry entries cfg)"

definition read_exec :: "json \<Rightarrow> ExecToolConfig \<Rightarrow> ExecToolConfig" where
  "read_exec exec e =
     (let item = get_object_item (Some exec)
      in \<lparr>ex_timeout = (case item ''timeout'' of Some j \<Rightarrow> json_int (Some j) 300 | None \<Rightarrow> ex_timeout e),
          ex_restrict_to_workspace =
            (case item ''restrictToWorkspace'' of Some j \<Rightarrow> json_flag (Some j) True | None \<Rightarrow> ex_restrict_to_workspace e),
          ex_path_append = (case item ''pathAppend'' of Some j \<Rightarrow> json_text (Some j) [] | None \<Rightarrow> ex_path_append e)\<rparr>)"

definition read_tools :: "json \<Rightarrow> ToolConfig \<Rightarrow> ToolConfig" where
  "read_tools tools t =
     (let item = get_object_item (Some tools)
      in \<lparr>to_exec = (case item ''exec'' of Some e \<Rightarrow> read_exec e (to_exec t) | None \<Rightarrow> to_exec t),
          to_restrict_to_workspace =
            (case item ''restrictToWorkspace'' of Some j \<Rightarrow> json_flag (Some j) True | None \<Rightarrow> to_restrict_to_workspace t)\<rparr>)"

definition dns_address :: "json option \<Rightarrow> string option \<Rightarrow> string option" where
  "dns_address item old =
     (case item of None \<Rightarrow> old | Some j \<Rightarrow> (case json_string item of Some s \<Rightarrow> if s \<noteq> [] then Some s else None | None \<Rightarrow> None))"

definition read_dns :: "json \<Rightarrow> DNSConfig \<Rightarrow> DNSConfig" where
  "read_dns dns d =
     (let item = get_object_item (Some dns)
      in d\<lparr>dn_dns4 := dns_address (item ''dns4'') (dn_dns4 d),
           dn_dns6 := dns_address (item ''dns6'') (dn_dns6 d),
           dn_timeout_ms := (case item ''dnsTimeoutMs'' of Some j \<Rightarrow> max 0 (json_int (Some j) 0) | None \<Rightarrow> dn_timeout_ms d),
           dn_use_system_resolver :=
             (case item ''useSystemResolver'' of Some j \<Rightarrow> json_flag (Some j) False | None \<Rightarrow> dn_use_system_resolver d)\<rparr>)"

definition dns_url :: "string option \<Rightarrow> string option" where
  "dns_url address =
     (case address of
        Some a \<Rightarrow> if a \<noteq> [] then Some (c_trunc (length a + 16) (''udp://'' @ a @ '':53'')) else None
      | None \<Rightarrow> None)"

definition load_dns :: "json option \<Rightarrow> DNSConfig \<Rightarrow> DNSConfig" where
  "load_dns dns d =
     (let d = (case dns of Some j \<Rightarrow> read_dns j d | None \<Rightarrow> d)
      in d\<lparr>dn_dns4_url := dns_url (dn_dns4 d), dn_dns6_url := dns_url (dn_dns6 d)\<rparr>)"

definition read_heartbeat :: "json \<Rightarrow> HeartbeatConfig \<Rightarrow> HeartbeatConfig" where
  "read_heartbeat j h =
     \<lparr>he_enabled = (case get_object_item (Some j) ''enabled'' of Some x \<Rightarrow> json_flag (Some x) True | None \<Rightarrow> he_enabled h),
      he_interval_s = (case get_object_item (Some j) ''interval_s'' of Some x \<Rightarrow> json_int (Some x) 300 | None \<Rightarrow> he_interval_s h)\<rparr>"

definition read_log :: "json \<Rightarrow> LogConfig \<Rightarrow> LogConfig" where
  "read_log j l =
     \<lparr>lo_level = (case get_object_item (Some j) ''level'' of Some x \<Rightarrow> json_text (Some x) ''INFO'' | None \<Rightarrow> lo_level l),
      lo_console_output =
        (case get_object_item (Some j) ''consoleOutput'' of Some x \<Rightarrow> json_flag (Some x) True | None \<Rightarrow> lo_console_output l)\<rparr>"

definition load_plugin_entry :: "json \<Rightarrow> Config \<Rightarrow> Config" where
  "load_plugin_entry entry cfg =
     (case (json_string (get_object_item (Some entry) ''plugin_id''), get_object_item (Some entry) ''config'') of
        (Some plugin_id, Some (JObject kvs)) \<Rightarrow>
          change_plugin plugin_id
            (\<lambda>p. p\<lparr>pcf_enabled := json_flag (get_object_item (Some entry) ''enabled'') False, pcf_config := Some (JObject kvs)\<rparr>)
            (config_add_plugin_config plugin_id cfg)
      | _ \<Rightarrow> cfg)"

definition load_plugins :: "json option \<Rightarrow> Config \<Rightarrow> Config" where
  "load_plugins plugins cfg =
     (case json_array plugins of None \<Rightarrow> cfg | Some entries \<Rightarrow> fold load_plugin_entry entries cfg)"

definition opt_section :: "json \<Rightarrow> string \<Rightarrow> (json \<Rightarrow> 'a \<Rightarrow> 'a) \<Rightarrow> 'a \<Rightarrow> 'a" where
  "opt_section json key f x = (case get_object_item (Some json) key of Some j \<Rightarrow> f j x | None \<Rightarrow> x)"

definition load_sections :: "json \<Rightarrow> Config \<Rightarrow> Config" where
  "load_sections json cfg =
     cfg\<lparr>cf_tools := opt_section json ''tools'' read_tools (cf_tools cfg),
         cf_dns := load_dns (get_object_item (Some json) ''dns'') (cf_dns cfg),
         cf_heartbeat := opt_section json ''heartbeat'' read_heartbeat (cf_heartbeat cfg),
         cf_log := opt_section json ''log'' read_log (cf_log cfg)\<rparr>"

definition load_json :: "json \<Rightarrow> Config \<Rightarrow> Config" where
  "load_json json cfg =
     load_plugins (get_object_item (Some json) ''plugins'')
       (load_sections json
         (load_providers (get_object_item (Some json) ''providers'')
           (load_agent (get_object_item (Some json) ''agent'') cfg)))"

section \<open>The environment\<close>

definition env_key :: "string \<Rightarrow> string \<Rightarrow> string" where
  "env_key name field = c_trunc 256 (''PRIMAGEN_PROVIDER_'' @ name @ ''_'' @ field)"

definition env_text :: "string option \<Rightarrow> string option \<Rightarrow> string option" where
  "env_text v old = (case v of Some s \<Rightarrow> Some s | None \<Rightarrow> old)"

definition env_number :: "(string \<Rightarrow> 'a) \<Rightarrow> string option \<Rightarrow> 'a \<Rightarrow> 'a" where
  "env_number read v old = (case v of Some s \<Rightarrow> read s | None \<Rightarrow> old)"

text \<open>\<open>v\<close> gives the value of the variable of a field.\<close>

definition env_fields :: "environment \<Rightarrow> ProviderConfig \<Rightarrow> ProviderConfig" where
  "env_fields v pc =
     \<lparr>pc_name = pc_name pc,
      pc_model = env_text (v ''MODEL'') (pc_model pc),
      pc_api_key = env_text (v ''API_KEY'') (pc_api_key pc),
      pc_api_base = env_text (v ''API_BASE'') (pc_api_base pc),
      pc_temperature = env_number atof (v ''TEMPERATURE'') (pc_temperature pc),
      pc_max_tokens = env_number atoi (v ''MAX_TOKENS'') (pc_max_tokens pc),
      pc_reasoning_effort = env_text (v ''REASONING_EFFORT'') (pc_reasoning_effort pc)\<rparr>"

definition env_provider :: "environment \<Rightarrow> ProviderConfig \<Rightarrow> ProviderConfig" where
  "env_provider env pc = env_fields (\<lambda>field. env (env_key (pc_name pc) field)) pc"

definition legacy_env :: "environment \<Rightarrow> Config \<Rightarrow> Config" where
  "legacy_env env cfg =
     (let v = (\<lambda>field. env (''PRIMAGEN_AGENT_'' @ field))
      in if list_ex (\<lambda>field. v field \<noteq> None) [''MODEL'', ''API_KEY'', ''API_BASE'', ''TEMPERATURE'', ''MAX_TOKENS'', ''REASONING_EFFORT'']
         then set_provider ''openai'' (env_fields v) (config_add_provider ''openai'' cfg)
         else cfg)"

definition delete_item :: "string \<Rightarrow> json \<Rightarrow> json" where
  "delete_item key j = (case j of JObject kvs \<Rightarrow> JObject (remove_first (\<lambda>(k, _). strcaseeq key k) kvs) | _ \<Rightarrow> j)"

definition put_string :: "string \<Rightarrow> string \<Rightarrow> json \<Rightarrow> json" where
  "put_string key s j = (case j of JObject kvs \<Rightarrow> JObject (kvs @ [(key, JString s)]) | JArray xs \<Rightarrow> JArray (xs @ [JString s]) | _ \<Rightarrow> j)"

definition env_web_item :: "string \<Rightarrow> string option \<Rightarrow> Config \<Rightarrow> Config" where
  "env_web_item key v cfg =
     (case v of
        None \<Rightarrow> cfg
      | Some s \<Rightarrow> change_plugin ''web_tools''
                    (\<lambda>p. p\<lparr>pcf_config := map_option (\<lambda>j. put_string key s (delete_item key j)) (pcf_config p)\<rparr>) cfg)"

definition env_sections :: "environment \<Rightarrow> Config \<Rightarrow> Config" where
  "env_sections env cfg =
     (let t = cf_tools cfg; e = to_exec t; d = cf_dns cfg; h = cf_heartbeat cfg; l = cf_log cfg
      in cfg\<lparr>cf_tools :=
               \<lparr>to_exec =
                  \<lparr>ex_timeout = env_number atoi (env ''PRIMAGEN_TOOLS_EXEC_TIMEOUT'') (ex_timeout e),
                   ex_restrict_to_workspace =
                     env_number env_bool (env ''PRIMAGEN_TOOLS_EXEC_RESTRICT_TO_WORKSPACE'') (ex_restrict_to_workspace e),
                   ex_path_append = env_number id (env ''PRIMAGEN_TOOLS_EXEC_PATH_APPEND'') (ex_path_append e)\<rparr>,
                to_restrict_to_workspace =
                  env_number env_bool (env ''PRIMAGEN_TOOLS_RESTRICT_TO_WORKSPACE'') (to_restrict_to_workspace t)\<rparr>,
             cf_dns := d\<lparr>dn_use_system_resolver := env_number env_bool (env ''PRIMAGEN_DNS_USE_SYSTEM_RESOLVER'') (dn_use_system_resolver d)\<rparr>,
             cf_heartbeat :=
               \<lparr>he_enabled = env_number env_bool (env ''PRIMAGEN_HEARTBEAT_ENABLED'') (he_enabled h),
                he_interval_s = env_number atoi (env ''PRIMAGEN_HEARTBEAT_INTERVAL_S'') (he_interval_s h)\<rparr>,
             cf_log :=
               \<lparr>lo_level = env_number id (env ''PRIMAGEN_LOG_LEVEL'') (lo_level l),
                lo_console_output = env_number env_bool (env ''PRIMAGEN_LOG_CONSOLE_OUTPUT'') (lo_console_output l)\<rparr>\<rparr>)"

definition env_agent :: "environment \<Rightarrow> AgentConfig \<Rightarrow> AgentConfig" where
  "env_agent env a =
     a\<lparr>ag_provider := env_number id (env ''PRIMAGEN_AGENT_PROVIDER'') (ag_provider a),
       ag_max_tool_iterations := env_number atoi (env ''PRIMAGEN_AGENT_MAX_TOOL_ITERATIONS'') (ag_max_tool_iterations a),
       ag_memory_window := env_number atoi (env ''PRIMAGEN_AGENT_MEMORY_WINDOW'') (ag_memory_window a)\<rparr>"

definition config_load_from_env :: "environment \<Rightarrow> Config \<Rightarrow> Config" where
  "config_load_from_env env cfg =
     (let cfg = cfg\<lparr>cf_agent := env_agent env (cf_agent cfg), cf_providers := map (env_provider env) (cf_providers cfg)\<rparr>;
          cfg = env_sections env (legacy_env env cfg);
          cfg = env_web_item ''proxy'' (env ''PRIMAGEN_TOOLS_WEB_PROXY'') cfg
      in env_web_item ''search_api_key'' (env ''PRIMAGEN_TOOLS_WEB_SEARCH_API_KEY'') cfg)"

text \<open>\<open>content\<close> is the content of the file, \<open>None\<close> when it cannot be opened.\<close>

definition config_load_from_file :: "json_parser \<Rightarrow> environment \<Rightarrow> string option \<Rightarrow> Config \<Rightarrow> bool \<times> Config" where
  "config_load_from_file parse env content cfg =
     (case content of
        None \<Rightarrow> (True, cfg)
      | Some data \<Rightarrow>
          (case parse (takeWhile (\<lambda>c. c \<noteq> CHR 0x00) data) of
             None \<Rightarrow> (False, cfg)
           | Some json \<Rightarrow> (True, config_load_from_env env (load_json json cfg))))"

section \<open>Validation\<close>

definition config_validate :: "Config option \<Rightarrow> Error" where
  "config_validate config =
     (case config of
        None \<Rightarrow> error_new ERR_INVALID_PARAM (Some ''Config is NULL'')
      | Some cfg \<Rightarrow>
          (let provider = ag_provider (cf_agent cfg)
           in if provider = [] then error_new ERR_INVALID_PARAM (Some ''agent.provider must not be empty'')
              else (case config_get_provider cfg provider of
                      None \<Rightarrow> error_new ERR_INVALID_PARAM (Some (c_trunc 128 (''provider config not found for: '' @ provider)))
                    | Some pc \<Rightarrow>
                        if pc_model pc = None \<or> pc_model pc = Some []
                        then error_new ERR_INVALID_PARAM (Some (c_trunc 128 (''provider '' @ provider @ '': model must not be empty'')))
                        else if ex_timeout (to_exec (cf_tools cfg)) \<le> 0
                        then error_new ERR_INVALID_PARAM (Some ''tool.timeout must be greater than 0'')
                        else if lo_level (cf_log cfg) = []
                        then error_new ERR_INVALID_PARAM (Some ''log.level must not be empty'')
                        else no_error)))"

section \<open>The saved file\<close>

text \<open>\<open>cJSON_AddStringToObject\<close> adds nothing for a null pointer.\<close>

definition text_item :: "string \<Rightarrow> string option \<Rightarrow> (string \<times> json) list" where
  "text_item key t = (case t of Some s \<Rightarrow> [(key, JString s)] | None \<Rightarrow> [])"

definition int_item :: "string \<Rightarrow> int \<Rightarrow> string \<times> json" where
  "int_item key i = (key, JNumber (of_int i))"

definition shown_key :: "string option \<Rightarrow> string" where
  "shown_key k = (if k = None \<or> k = Some [] then [] else ''***REDACTED***'')"

definition provider_json :: "ProviderConfig \<Rightarrow> json" where
  "provider_json pc =
     JObject ([(''name'', JString (pc_name pc))] @ text_item ''model'' (pc_model pc) @ [(''apiKey'', JString (shown_key (pc_api_key pc)))] @
              text_item ''apiBase'' (pc_api_base pc) @
              [(''temperature'', JNumber (pc_temperature pc)), int_item ''max_tokens'' (pc_max_tokens pc)] @
              text_item ''reasoning_effort'' (pc_reasoning_effort pc))"

definition agent_json :: "AgentConfig \<Rightarrow> json" where
  "agent_json a =
     JObject [(''provider'', JString (ag_provider a)), int_item ''max_tool_iterations'' (ag_max_tool_iterations a),
              int_item ''memory_window'' (ag_memory_window a), int_item ''memory_max_tokens'' (ag_memory_max_tokens a),
              (''memory_consolidation_threshold'', JNumber (ag_memory_consolidation_threshold a))]"

definition tools_json :: "ToolConfig \<Rightarrow> json" where
  "tools_json t =
     JObject [(''restrictToWorkspace'', JBool (to_restrict_to_workspace t)),
              (''exec'', JObject [int_item ''timeout'' (ex_timeout (to_exec t)),
                                  (''restrictToWorkspace'', JBool (ex_restrict_to_workspace (to_exec t))),
                                  (''pathAppend'', JString (ex_path_append (to_exec t)))])]"

definition address_item :: "string \<Rightarrow> string option \<Rightarrow> (string \<times> json) list" where
  "address_item key t = (if t = Some [] then [] else text_item key t)"

definition dns_items :: "DNSConfig \<Rightarrow> (string \<times> json) list" where
  "dns_items d =
     (let items = address_item ''dns4'' (dn_dns4 d) @ address_item ''dns6'' (dn_dns6 d) @
                  (if dn_timeout_ms d > 0 then [int_item ''dnsTimeoutMs'' (dn_timeout_ms d)] else []) @
                  (if dn_use_system_resolver d then [(''useSystemResolver'', JBool True)] else [])
      in if items = [] then [] else [(''dns'', JObject items)])"

definition plugin_json :: "PluginConfig \<Rightarrow> json" where
  "plugin_json p =
     JObject ([(''plugin_id'', JString (pcf_id p)), (''enabled'', JBool (pcf_enabled p))] @
              (case pcf_config p of Some j \<Rightarrow> [(''config'', delete_item ''enabled'' j)] | None \<Rightarrow> []))"

definition config_json :: "Config \<Rightarrow> json" where
  "config_json cfg =
     JObject ([(''agent'', agent_json (cf_agent cfg))] @
              (if cf_providers cfg \<noteq> [] then [(''providers'', JArray (map provider_json (cf_providers cfg)))] else []) @
              [(''tools'', tools_json (cf_tools cfg))] @ dns_items (cf_dns cfg) @
              [(''heartbeat'', JObject [(''enabled'', JBool (he_enabled (cf_heartbeat cfg))),
                                        int_item ''interval_s'' (he_interval_s (cf_heartbeat cfg))]),
               (''log'', JObject [(''level'', JString (lo_level (cf_log cfg))),
                                  (''consoleOutput'', JBool (lo_console_output (cf_log cfg)))])] @
              (if cf_plugins cfg \<noteq> [] then [(''plugins'', JArray (map plugin_json (cf_plugins cfg)))] else []))"

text \<open>The result, and the new content of the file when it is written.\<close>

definition config_save_to_file :: "json_printer \<Rightarrow> bool \<Rightarrow> Config \<Rightarrow> bool \<times> string option" where
  "config_save_to_file print open_ok cfg =
     (case print (config_json cfg) of
        None \<Rightarrow> (False, None) | Some s \<Rightarrow> if open_ok then (True, Some s) else (False, None))"

section \<open>What a configuration keeps\<close>

definition int_range :: "int \<Rightarrow> bool" where
  "int_range i \<longleftrightarrow> INT_MIN \<le> i \<and> i \<le> INT_MAX"

definition wf_provider :: "ProviderConfig \<Rightarrow> bool" where
  "wf_provider p \<longleftrightarrow> pc_model p \<noteq> None \<and> pc_api_key p \<noteq> None \<and> pc_api_base p \<noteq> None \<and> pc_reasoning_effort p \<noteq> None \<and>
     int_range (pc_max_tokens p)"

definition wf_numbers :: "Config \<Rightarrow> bool" where
  "wf_numbers cfg \<longleftrightarrow>
     int_range (ag_max_tool_iterations (cf_agent cfg)) \<and> int_range (ag_memory_window (cf_agent cfg)) \<and>
     int_range (ag_memory_max_tokens (cf_agent cfg)) \<and> int_range (ex_timeout (to_exec (cf_tools cfg))) \<and>
     int_range (dn_timeout_ms (cf_dns cfg)) \<and> int_range (he_interval_s (cf_heartbeat cfg))"

text \<open>The first provider is the default one, names and identifiers are unique, and every text is there.\<close>

definition wf_config :: "Config \<Rightarrow> bool" where
  "wf_config cfg \<longleftrightarrow>
     wf_numbers cfg \<and> list_all wf_provider (cf_providers cfg) \<and>
     cf_providers cfg \<noteq> [] \<and> hd (map pc_name (cf_providers cfg)) = ''openai'' \<and> distinct (map pc_name (cf_providers cfg)) \<and>
     distinct (map pcf_id (cf_plugins cfg))"

lemma int_range_value: "int_range (number_valueint r)" "int_range (atoi s)" "int_range 0"
  using number_valueint_range atoi_range by (auto simp: int_range_def limit_defs)

lemma int_range_json: "int_range d \<Longrightarrow> int_range (json_int item d)"
  by (simp add: json_int_def int_range_value split: option.split)

lemma int_range_env: "int_range d \<Longrightarrow> int_range (env_number atoi v d)"
  by (simp add: env_number_def int_range_value split: option.split)

lemma int_range_default: "int_range 15" "int_range 100" "int_range 4000" "int_range 300" "int_range 5000" "int_range 4096"
  by (simp_all add: int_range_def limit_defs)

lemmas int_range_simps = int_range_value int_range_json int_range_env int_range_default

text \<open>A change of one provider keeps its name and its texts.\<close>

lemma provider_text_field:
  "provider_text item pc_model_update p = p\<lparr>pc_model := (case json_string item of Some s \<Rightarrow> Some s | None \<Rightarrow> pc_model p)\<rparr>"
  "provider_text item pc_api_key_update p = p\<lparr>pc_api_key := (case json_string item of Some s \<Rightarrow> Some s | None \<Rightarrow> pc_api_key p)\<rparr>"
  "provider_text item pc_api_base_update p = p\<lparr>pc_api_base := (case json_string item of Some s \<Rightarrow> Some s | None \<Rightarrow> pc_api_base p)\<rparr>"
  "provider_text item pc_reasoning_effort_update p =
     p\<lparr>pc_reasoning_effort := (case json_string item of Some s \<Rightarrow> Some s | None \<Rightarrow> pc_reasoning_effort p)\<rparr>"
  by (simp_all add: provider_text_def split: option.split)

lemma read_provider_keeps: "pc_name (read_provider entry p) = pc_name p" "wf_provider p \<Longrightarrow> wf_provider (read_provider entry p)"
  by (auto simp: read_provider_def Let_def provider_text_field wf_provider_def int_range_simps split: option.split)

lemma env_fields_keeps: "pc_name (env_fields v p) = pc_name p" "wf_provider p \<Longrightarrow> wf_provider (env_fields v p)"
  by (auto simp: env_fields_def env_text_def wf_provider_def int_range_simps split: option.split)

definition keeps_config :: "(Config \<Rightarrow> Config) \<Rightarrow> bool" where
  "keeps_config f \<longleftrightarrow> (\<forall>cfg. wf_config cfg \<longrightarrow> wf_config (f cfg))"

lemma keeps_comp: "keeps_config f \<Longrightarrow> keeps_config g \<Longrightarrow> keeps_config (\<lambda>c. f (g c))"
  by (simp add: keeps_config_def)

lemma keeps_fold: "(\<And>x. keeps_config (f x)) \<Longrightarrow> wf_config c \<Longrightarrow> wf_config (fold f xs c)"
  by (induction xs arbitrary: c) (simp_all add: keeps_config_def)

lemma wf_set_provider:
  assumes "wf_config cfg" "\<And>p. pc_name (f p) = pc_name p" "\<And>p. wf_provider p \<Longrightarrow> wf_provider (f p)"
  shows "wf_config (set_provider name f cfg)"
proof -
  have "list_all wf_provider ps \<Longrightarrow> list_all wf_provider (update_first P f ps)" for P ps
    using assms(3) by (induction ps) auto
  then show ?thesis
    using assms(1) map_update_first_inv [of pc_name f, OF assms(2)] length_update_first [of "\<lambda>p. pc_name p = name" f "cf_providers cfg"]
    by (auto simp: wf_config_def set_provider_def wf_numbers_def simp del: length_update_first)
qed

lemma wf_add_provider: "wf_config cfg \<Longrightarrow> wf_config (config_add_provider name cfg)"
  by (auto simp: wf_config_def config_add_provider_def config_get_provider_def find_None_iff new_provider_def wf_provider_def
      wf_numbers_def int_range_simps hd_append split: option.split)

lemma wf_fault: "wf_config cfg \<Longrightarrow> wf_config (cfg\<lparr>cf_fault := b\<rparr>)"
  by (simp add: wf_config_def wf_numbers_def)

lemma wf_load_provider: "wf_config cfg \<Longrightarrow> wf_config (load_provider name entry cfg)"
  unfolding load_provider_def by (intro wf_fault wf_set_provider wf_add_provider read_provider_keeps)

lemma wf_load_agent: "wf_config cfg \<Longrightarrow> wf_config (load_agent agent cfg)"
proof -
  assume wf: "wf_config cfg"
  have "wf_config (cfg\<lparr>cf_agent := read_agent ag (cf_agent cfg)\<rparr>)" for ag
    using wf by (auto simp: wf_config_def wf_numbers_def read_agent_def Let_def int_range_simps split: option.split)
  then show ?thesis using wf by (auto simp: load_agent_def Let_def wf_load_provider split: option.split)
qed

lemma wf_load_providers: "wf_config cfg \<Longrightarrow> wf_config (load_providers j cfg)"
  by (auto simp: load_providers_def keeps_config_def load_provider_entry_def wf_load_provider intro!: keeps_fold split: option.split)

lemma wf_sections:
  assumes "wf_config cfg" "int_range (ex_timeout (to_exec t))" "int_range (dn_timeout_ms d)" "int_range (he_interval_s h)"
  shows "wf_config (cfg\<lparr>cf_tools := t, cf_dns := d, cf_heartbeat := h, cf_log := l\<rparr>)"
  using assms by (simp add: wf_config_def wf_numbers_def)

lemma wf_load_sections:
  assumes "wf_config cfg"
  shows "wf_config (load_sections json cfg)"
proof -
  have r: "int_range (ex_timeout (to_exec (cf_tools cfg)))" "int_range (dn_timeout_ms (cf_dns cfg))" "int_range (he_interval_s (cf_heartbeat cfg))"
    using assms by (simp_all add: wf_config_def wf_numbers_def)
  have "int_range (max 0 i)" if "int_range i" for i using that by (simp add: int_range_def limit_defs)
  then show ?thesis
    unfolding load_sections_def opt_section_def Let_def
    by (intro wf_sections assms)
      (auto simp: r read_tools_def read_exec_def load_dns_def read_dns_def read_heartbeat_def Let_def int_range_simps split: option.split)
qed

lemma wf_change_plugin: "wf_config cfg \<Longrightarrow> (\<And>p. pcf_id (f p) = pcf_id p) \<Longrightarrow> wf_config (change_plugin i f cfg)"
  by (simp add: wf_config_def change_plugin_def map_update_first_inv [of pcf_id f] wf_numbers_def)

lemma wf_add_plugin: "wf_config cfg \<Longrightarrow> wf_config (config_add_plugin_config i cfg)"
  by (auto simp: wf_config_def config_add_plugin_config_def config_get_plugin_config_def find_None_iff wf_numbers_def split: option.split)

lemma wf_load_plugins: "wf_config cfg \<Longrightarrow> wf_config (load_plugins j cfg)"
  by (auto simp: load_plugins_def keeps_config_def load_plugin_entry_def wf_change_plugin wf_add_plugin intro!: keeps_fold
      split: option.split json.split)

lemma wf_env: "wf_config cfg \<Longrightarrow> wf_config (config_load_from_env env cfg)"
proof -
  assume wf: "wf_config cfg"
  have "wf_config (cfg\<lparr>cf_agent := env_agent env (cf_agent cfg), cf_providers := map (env_provider env) (cf_providers cfg)\<rparr>)"
    using wf by (auto simp: wf_config_def wf_numbers_def env_agent_def env_provider_def env_fields_keeps int_range_simps o_def list.pred_map
        elim: list.pred_mono_strong)
  moreover have "wf_config (legacy_env env c)" if "wf_config c" for c
    using that by (simp add: legacy_env_def Let_def wf_set_provider wf_add_provider env_fields_keeps)
  moreover have "wf_config (env_sections env c)" if "wf_config c" for c
    unfolding env_sections_def Let_def
    by (intro wf_sections that) (use that in \<open>simp_all add: wf_config_def wf_numbers_def int_range_simps\<close>)
  moreover have "wf_config (env_web_item key v c)" if "wf_config c" for key v c
    using that by (simp add: env_web_item_def wf_change_plugin split: option.split)
  ultimately show ?thesis by (simp add: config_load_from_env_def Let_def)
qed

lemma wf_create: "wf_config config_create"
  by (simp add: wf_config_def wf_numbers_def config_create_def default_provider_def new_provider_def wf_provider_def default_dns_def int_range_simps)

lemma wf_load: "wf_config cfg \<Longrightarrow> wf_config (snd (config_load_from_file parse env content cfg))"
  by (simp add: config_load_from_file_def load_json_def wf_env wf_load_plugins wf_load_sections wf_load_providers wf_load_agent
      split: option.split)

section \<open>Saving and loading\<close>

lemma item_simps:
  "get_object_item (Some (JObject [])) k = None"
  "get_object_item (Some (JObject ((k', j) # kvs))) k = (if strcaseeq k k' then Some j else get_object_item (Some (JObject kvs)) k)"
  by (simp_all add: get_object_item_def)

lemma item_append:
  "get_object_item (Some (JObject (xs @ ys))) k =
     (case get_object_item (Some (JObject xs)) k of Some j \<Rightarrow> Some j | None \<Rightarrow> get_object_item (Some (JObject ys)) k)"
  by (induction xs) (auto simp: item_simps)

lemma value_simps:
  "json_string (Some (JString s)) = Some s" "json_bool (Some (JBool b)) = Some b" "json_number (Some (JNumber n)) = Some n"
  "json_array (Some (JArray js)) = Some js" "json_string None = None" "json_array None = None"
  "json_text (Some (JString s)) d = s" "json_flag (Some (JBool b)) d' = b" "json_double (Some (JNumber n)) d'' = n"
  by (simp_all add: json_string_def json_bool_def json_number_def json_array_def json_text_def json_flag_def json_double_def)

lemma int_value: "int_range i \<Longrightarrow> json_int (Some (JNumber (of_int i))) d = i"
  by (simp add: json_int_def value_simps int_range_def number_valueint_of_int)

lemmas read_back = item_simps item_append value_simps int_value key_compare text_item_def int_item_def

definition redacted :: "ProviderConfig \<Rightarrow> ProviderConfig" where
  "redacted pc = pc\<lparr>pc_api_key := Some (shown_key (pc_api_key pc))\<rparr>"

definition reloaded_address :: "string option \<Rightarrow> string option \<Rightarrow> string option" where
  "reloaded_address a d = (if a = None \<or> a = Some [] then d else a)"

definition reloaded_dns :: "DNSConfig \<Rightarrow> DNSConfig" where
  "reloaded_dns d =
     (let d4 = reloaded_address (dn_dns4 d) (dn_dns4 default_dns); d6 = reloaded_address (dn_dns6 d) (dn_dns6 default_dns)
      in \<lparr>dn_dns4 = d4, dn_dns6 = d6, dn_dns4_url = dns_url d4, dn_dns6_url = dns_url d6,
          dn_timeout_ms = (if dn_timeout_ms d > 0 then dn_timeout_ms d else 5000), dn_use_system_resolver = dn_use_system_resolver d\<rparr>)"

definition reloaded_plugin :: "PluginConfig \<Rightarrow> PluginConfig list" where
  "reloaded_plugin p =
     (case pcf_config p of Some (JObject kvs) \<Rightarrow> [p\<lparr>pcf_config := Some (delete_item ''enabled'' (JObject kvs))\<rparr>] | _ \<Rightarrow> [])"

definition reloaded :: "Config \<Rightarrow> Config" where
  "reloaded cfg =
     cfg\<lparr>cf_providers := map redacted (cf_providers cfg), cf_dns := reloaded_dns (cf_dns cfg),
         cf_plugins := concat (map reloaded_plugin (cf_plugins cfg)), cf_fault := False\<rparr>"

lemma read_provider_json: "wf_provider p \<Longrightarrow> pc_name q = pc_name p \<Longrightarrow> read_provider (provider_json p) q = redacted p"
  by (auto simp: read_provider_def provider_json_def Let_def provider_text_field read_back wf_provider_def redacted_def)

lemma no_provider_fault: "wf_provider p \<Longrightarrow> \<not> provider_fault (provider_json p)"
  by (auto simp: provider_fault_def provider_json_def text_fault_def read_back wf_provider_def)

lemma provider_name: "json_string (get_object_item (Some (provider_json p)) ''name'') = Some (pc_name p)"
  by (simp add: provider_json_def read_back)

lemma update_last: "(\<And>x. x \<in> set xs \<Longrightarrow> \<not> P x) \<Longrightarrow> P q \<Longrightarrow> update_first P f (xs @ [q]) = xs @ [f q]"
  by (induction xs) auto

lemma load_new_provider:
  assumes "wf_provider p" "\<And>q. q \<in> set (cf_providers cfg) \<Longrightarrow> pc_name q \<noteq> pc_name p"
  shows "load_provider_entry (provider_json p) cfg = cfg\<lparr>cf_providers := cf_providers cfg @ [redacted p]\<rparr>"
proof -
  have "config_get_provider cfg (pc_name p) = None"
    using assms(2) by (auto simp: config_get_provider_def find_None_iff)
  moreover have "update_first (\<lambda>q. pc_name q = pc_name p) f (cf_providers cfg @ [q]) = cf_providers cfg @ [f q]" if "pc_name q = pc_name p" for f q
    using assms(2) that by (intro update_last) auto
  ultimately show ?thesis
    using assms(1) by (simp add: load_provider_entry_def provider_name load_provider_def set_provider_def config_add_provider_def
        no_provider_fault read_provider_json new_provider_def)
qed

lemma load_new_providers:
  "list_all wf_provider ps \<Longrightarrow> distinct (map pc_name ps) \<Longrightarrow> pc_name ` set (cf_providers cfg) \<inter> pc_name ` set ps = {} \<Longrightarrow>
   fold load_provider_entry (map provider_json ps) cfg = cfg\<lparr>cf_providers := cf_providers cfg @ map redacted ps\<rparr>"
proof (induction ps arbitrary: cfg)
  case (Cons p ps)
  let ?c = "cfg\<lparr>cf_providers := cf_providers cfg @ [redacted p]\<rparr>"
  have "load_provider_entry (provider_json p) cfg = ?c" using Cons.prems by (intro load_new_provider) (simp_all, metis imageI)
  moreover have "fold load_provider_entry (map provider_json ps) ?c = ?c\<lparr>cf_providers := cf_providers ?c @ map redacted ps\<rparr>"
    using Cons.prems by (intro Cons.IH) (auto simp: redacted_def)
  ultimately show ?case by simp
qed simp

lemma load_saved_providers:
  assumes "list_all wf_provider ps" "ps \<noteq> []" "distinct (map pc_name ps)" "pc_name (hd ps) = ''openai''"
    and "cf_providers cfg = [default_provider]" "\<not> cf_fault cfg"
  shows "load_providers (if ps \<noteq> [] then Some (JArray (map provider_json ps)) else None) cfg = cfg\<lparr>cf_providers := map redacted ps\<rparr>"
proof -
  obtain p qs where ps: "ps = p # qs" using assms(2) by (cases ps) auto
  let ?c = "cfg\<lparr>cf_providers := [redacted p]\<rparr>"
  have "pc_name default_provider = ''openai''" by (simp add: default_provider_def new_provider_def)
  then have "load_provider_entry (provider_json p) cfg = ?c"
    using assms ps by (simp add: load_provider_entry_def provider_name load_provider_def set_provider_def config_add_provider_def
        config_get_provider_def no_provider_fault read_provider_json)
  moreover have "fold load_provider_entry (map provider_json qs) ?c = ?c\<lparr>cf_providers := cf_providers ?c @ map redacted qs\<rparr>"
    using assms ps by (intro load_new_providers) (auto simp: redacted_def)
  ultimately show ?thesis using ps by (simp add: load_providers_def value_simps)
qed

lemma load_agent_json:
  "int_range (ag_max_tool_iterations a) \<Longrightarrow> int_range (ag_memory_window a) \<Longrightarrow> int_range (ag_memory_max_tokens a) \<Longrightarrow>
   load_agent (Some (agent_json a)) cfg = cfg\<lparr>cf_agent := a\<rparr>"
  by (simp add: load_agent_def agent_json_def read_agent_def Let_def read_back)

lemma load_new_plugin:
  assumes "\<And>q. q \<in> set (cf_plugins cfg) \<Longrightarrow> pcf_id q \<noteq> pcf_id p"
  shows "load_plugin_entry (plugin_json p) cfg = cfg\<lparr>cf_plugins := cf_plugins cfg @ reloaded_plugin p\<rparr>"
proof -
  have "config_get_plugin_config (pcf_id p) (cf_plugins cfg) = None"
    using assms by (auto simp: config_get_plugin_config_def find_None_iff)
  moreover have "update_first (\<lambda>q. pcf_id q = pcf_id p) f (cf_plugins cfg @ [q]) = cf_plugins cfg @ [f q]" if "pcf_id q = pcf_id p" for f q
    using assms that by (intro update_last) auto
  ultimately show ?thesis
    by (cases "pcf_config p")
      (auto simp: load_plugin_entry_def plugin_json_def reloaded_plugin_def read_back delete_item_def change_plugin_def
        config_add_plugin_config_def split: json.split)
qed

lemma load_new_plugins:
  "distinct (map pcf_id ps) \<Longrightarrow> pcf_id ` set (cf_plugins cfg) \<inter> pcf_id ` set ps = {} \<Longrightarrow>
   fold load_plugin_entry (map plugin_json ps) cfg = cfg\<lparr>cf_plugins := cf_plugins cfg @ concat (map reloaded_plugin ps)\<rparr>"
proof (induction ps arbitrary: cfg)
  case (Cons p ps)
  let ?c = "cfg\<lparr>cf_plugins := cf_plugins cfg @ reloaded_plugin p\<rparr>"
  have "load_plugin_entry (plugin_json p) cfg = ?c" using Cons.prems by (intro load_new_plugin) (simp_all, metis imageI)
  moreover have "fold load_plugin_entry (map plugin_json ps) ?c = ?c\<lparr>cf_plugins := cf_plugins ?c @ concat (map reloaded_plugin ps)\<rparr>"
    using Cons.prems by (intro Cons.IH) (auto simp: reloaded_plugin_def split: option.splits json.splits)
  ultimately show ?case by simp
qed simp

lemma load_saved_plugins:
  "distinct (map pcf_id ps) \<Longrightarrow> cf_plugins cfg = [] \<Longrightarrow>
   load_plugins (if ps \<noteq> [] then Some (JArray (map plugin_json ps)) else None) cfg = cfg\<lparr>cf_plugins := concat (map reloaded_plugin ps)\<rparr>"
  using load_new_plugins [of ps cfg] by (auto simp: load_plugins_def value_simps)

lemma load_saved_dns:
  assumes "int_range (dn_timeout_ms d)"
  shows "load_dns (get_object_item (Some (JObject (dns_items d))) ''dns'') default_dns = reloaded_dns d"
proof -
  let ?a = "address_item ''dns4'' (dn_dns4 d)" and ?b = "address_item ''dns6'' (dn_dns6 d)"
    and ?t = "if dn_timeout_ms d > 0 then [int_item ''dnsTimeoutMs'' (dn_timeout_ms d)] else []"
    and ?u = "if dn_use_system_resolver d then [(''useSystemResolver'', JBool True)] else []"
  let ?j = "JObject (?a @ ?b @ ?t @ ?u)"
  have a: "get_object_item (Some (JObject (address_item k v))) k' =
      (if strcaseeq k' k then (case v of Some s \<Rightarrow> if s = [] then None else Some (JString s) | None \<Rightarrow> None) else None)" for k k' v
    by (simp add: address_item_def text_item_def item_simps split: option.split)
  have r: "read_dns ?j default_dns = (reloaded_dns d)\<lparr>dn_dns4_url := dn_dns4_url default_dns, dn_dns6_url := dn_dns6_url default_dns\<rparr>"
    using assms
    by (cases "dn_dns4 d"; cases "dn_dns6 d"; cases "dn_timeout_ms d > 0"; cases "dn_use_system_resolver d")
      (simp_all add: read_dns_def Let_def item_append a item_simps key_compare dns_address_def reloaded_dns_def reloaded_address_def
        default_dns_def value_simps int_value int_item_def)
  have u: "dns_url (dn_dns4 default_dns) = dn_dns4_url default_dns" "dns_url (dn_dns6 default_dns) = dn_dns6_url default_dns"
    by (simp_all add: dns_url_def default_dns_def c_trunc_def)
  show ?thesis
  proof (cases "?a @ ?b @ ?t @ ?u = []")
    case True
    then have "dn_dns4 d \<in> {None, Some []}" "dn_dns6 d \<in> {None, Some []}" "\<not> dn_timeout_ms d > 0" "\<not> dn_use_system_resolver d"
      by (auto simp: address_item_def text_item_def split: if_splits option.splits)
    then show ?thesis using True u
      by (auto simp: dns_items_def load_dns_def item_simps reloaded_dns_def reloaded_address_def default_dns_def)
  next
    case False
    then have "get_object_item (Some (JObject (dns_items d))) ''dns'' = Some ?j" by (simp add: dns_items_def Let_def item_simps)
    then show ?thesis using r by (simp add: load_dns_def reloaded_dns_def Let_def)
  qed
qed

text \<open>The sections of a saved file.\<close>

lemma config_json_items:
  "get_object_item (Some (config_json cfg)) ''agent'' = Some (agent_json (cf_agent cfg))"
  "get_object_item (Some (config_json cfg)) ''providers'' =
     (if cf_providers cfg \<noteq> [] then Some (JArray (map provider_json (cf_providers cfg))) else None)"
  "get_object_item (Some (config_json cfg)) ''tools'' = Some (tools_json (cf_tools cfg))"
  "get_object_item (Some (config_json cfg)) ''dns'' = get_object_item (Some (JObject (dns_items (cf_dns cfg)))) ''dns''"
  "get_object_item (Some (config_json cfg)) ''heartbeat'' =
     Some (JObject [(''enabled'', JBool (he_enabled (cf_heartbeat cfg))), int_item ''interval_s'' (he_interval_s (cf_heartbeat cfg))])"
  "get_object_item (Some (config_json cfg)) ''log'' =
     Some (JObject [(''level'', JString (lo_level (cf_log cfg))), (''consoleOutput'', JBool (lo_console_output (cf_log cfg)))])"
  "get_object_item (Some (config_json cfg)) ''plugins'' =
     (if cf_plugins cfg \<noteq> [] then Some (JArray (map plugin_json (cf_plugins cfg))) else None)"
  by (auto simp: config_json_def dns_items_def Let_def item_simps item_append key_compare)

lemma load_saved_sections:
  assumes "wf_numbers cfg" "cf_dns c = default_dns"
  shows "load_sections (config_json cfg) c =
    c\<lparr>cf_tools := cf_tools cfg, cf_dns := reloaded_dns (cf_dns cfg), cf_heartbeat := cf_heartbeat cfg, cf_log := cf_log cfg\<rparr>"
  using assms load_saved_dns [of "cf_dns cfg"]
  by (simp add: load_sections_def opt_section_def config_json_items wf_numbers_def)
    (simp add: tools_json_def read_tools_def read_exec_def read_heartbeat_def read_log_def Let_def read_back)

lemma load_env_nothing: "config_load_from_env (\<lambda>_. None) cfg = cfg"
proof -
  have "env_provider (\<lambda>_. None) p = p" for p by (simp add: env_provider_def env_fields_def env_text_def env_number_def)
  then have "map (env_provider (\<lambda>_. None)) ps = ps" for ps by (induction ps) auto
  then show ?thesis
    by (simp add: config_load_from_env_def Let_def env_agent_def env_number_def legacy_env_def env_sections_def env_web_item_def)
qed

lemma load_config_json:
  assumes wf: "wf_config cfg"
  shows "load_json (config_json cfg) config_create = reloaded cfg"
proof -
  have ps: "list_all wf_provider (cf_providers cfg)" "cf_providers cfg \<noteq> []" "distinct (map pc_name (cf_providers cfg))"
      "pc_name (hd (cf_providers cfg)) = ''openai''" "distinct (map pcf_id (cf_plugins cfg))" "wf_numbers cfg"
    using wf by (auto simp: wf_config_def list.map_sel)
  let ?a = "config_create\<lparr>cf_agent := cf_agent cfg\<rparr>"
  let ?b = "?a\<lparr>cf_providers := map redacted (cf_providers cfg)\<rparr>"
  let ?c = "?b\<lparr>cf_tools := cf_tools cfg, cf_dns := reloaded_dns (cf_dns cfg), cf_heartbeat := cf_heartbeat cfg, cf_log := cf_log cfg\<rparr>"
  have "load_agent (Some (agent_json (cf_agent cfg))) config_create = ?a"
    using ps(6) by (intro load_agent_json) (simp_all add: wf_numbers_def)
  moreover have "load_providers (get_object_item (Some (config_json cfg)) ''providers'') ?a = ?b"
    unfolding config_json_items using ps by (intro load_saved_providers) (simp_all add: config_create_def)
  moreover have "load_sections (config_json cfg) ?b = ?c"
    using ps by (intro load_saved_sections) (simp_all add: config_create_def)
  moreover have "load_plugins (get_object_item (Some (config_json cfg)) ''plugins'') ?c =
      ?c\<lparr>cf_plugins := concat (map reloaded_plugin (cf_plugins cfg))\<rparr>"
    unfolding config_json_items using ps by (intro load_saved_plugins) (simp_all add: config_create_def)
  ultimately show ?thesis
    by (simp add: load_json_def config_json_items(1)) (simp add: reloaded_def config_create_def)
qed

text \<open>
  Claim C9. What a restart keeps of a saved configuration: the agent, the tools, the heartbeat, the log and the providers come back as they
  were, but every API key that was set comes back as the word that hides it in the file, a name server that was switched off and a
  timeout that was cleared come back with their defaults, and an entry of a plugin without an object of settings is gone, whether the plugin
  was enabled or not. This is for a restart without environment variables, which would override the file, and for a configuration whose
  numbers are in the range of C, whose first provider is \<open>openai\<close>, whose providers have all their texts, and in which the names of providers and of plugins occur once. Of the JSON
  library it is assumed that it parses what it prints, and that it prints no zero byte.
\<close>
theorem saved_config_loads:
  assumes "wf_config cfg" "print (config_json cfg) = Some s" "parse s = Some (config_json cfg)" "CHR 0x00 \<notin> set s"
  shows "config_save_to_file print True cfg = (True, Some s) \<and>
    config_load_from_file parse (\<lambda>_. None) (Some s) config_create = (True, reloaded cfg)"
proof -
  have "takeWhile (\<lambda>c. c \<noteq> CHR 0x00) s = s" using assms(4) by (auto simp: takeWhile_eq_all_conv)
  then show ?thesis
    using assms(1-3) by (simp only: config_save_to_file_def config_load_from_file_def load_config_json load_env_nothing option.case if_True prod.inject)
qed

definition demo_config :: Config where
  "demo_config = set_provider ''openai'' (\<lambda>p. p\<lparr>pc_api_key := Some ''sk-1''\<rparr>)
     (config_add_plugin_config ''web_tools'' (config_create\<lparr>cf_dns := default_dns\<lparr>dn_dns4 := None\<rparr>\<rparr>))"

theorem saved_config_loads_witness:
  "snd (config_load_from_file [''x'' \<mapsto> config_json demo_config] (\<lambda>_. None) (Some ''x'') config_create) =
     config_create\<lparr>cf_providers := [default_provider\<lparr>pc_api_key := Some ''***REDACTED***''\<rparr>]\<rparr>"
proof -
  have wf: "wf_config demo_config"
    unfolding demo_config_def
    by (intro wf_set_provider wf_add_plugin)
      (simp_all add: wf_config_def wf_numbers_def config_create_def default_provider_def new_provider_def wf_provider_def default_dns_def int_range_simps)
  show ?thesis
    using saved_config_loads [OF wf, of "\<lambda>_. Some ''x''" "''x''" "[''x'' \<mapsto> config_json demo_config]"]
    by simp (simp add: demo_config_def reloaded_def set_provider_def config_add_plugin_config_def config_get_plugin_config_def config_create_def
        redacted_def reloaded_dns_def reloaded_address_def default_dns_def dns_url_def reloaded_plugin_def default_provider_def new_provider_def
        shown_key_def c_trunc_def)
qed

text \<open>
  Claim C23. Whatever the file and the environment say, the configuration that the program starts with has a provider of each name once with the
  default provider first, an entry for each plugin once, all the texts of its providers, and numbers that an \<open>int\<close> can hold: it is one of those
  that a restart brings back from a saved file. Memory is available. (For a text of the file that has the wrong type the code reads freed memory, see
  \<open>wrong_type_reads_freed\<close>; the model notes that and keeps the text.)
\<close>
theorem loaded_config_sound:
  "wf_config (snd (config_load_from_file parse env content config_create))"
  by (intro wf_load wf_create)

text \<open>A text that is not a string makes the code read memory that it has freed.\<close>

lemma wrong_type_reads_freed:
  assumes "json_string (get_object_item (Some entry) ''name'') = Some name"
    and "get_object_item (Some entry) ''model'' = Some j" "json_string (Some j) = None"
  shows "cf_fault (load_provider_entry entry cfg)"
  using assms by (simp add: load_provider_entry_def load_provider_def provider_fault_def text_fault_def)

end
