(* ===== verification/AcpServer.thy ===== *)
theory AcpServer
  imports Bus Session ToolRegistry "HOL-Library.Sublist"
begin

text \<open>
  \<open>plugins/channels/acp_channel\<close>: the HTTP server for agents, its routes, and clients that poll for replies. The HTTP
  library is third-party code: a request is given by its method, its path, its headers and its decoded query variables, a reply is
  a status, headers and a body. The bus, the registry and the session manager are those of their components. A route without wildcards
  matches the path that is equal to it. The counter of identifiers is part of the server.
\<close>

section \<open>Data\<close>

record HttpRequest =
  hr_method :: string
  hr_uri :: string
  hr_header :: "string \<Rightarrow> string option"
  hr_var :: "string \<Rightarrow> string option"
  hr_body :: string

record HttpReply =
  rp_status :: int
  rp_headers :: string
  rp_body :: "string option"

record ACPServer =
  as_port :: int
  as_host :: string
  as_running :: bool
  as_listening :: bool
  as_bus :: "MessageBus option"
  as_tool_registry :: "ToolRegistry option"
  as_agent_loop :: bool
  as_session_mgr :: "SessionManager option"
  as_active_connections :: int
  as_counter :: "64 word"

text \<open>The environment variables, the clock, the JSON library, the files and whether memory is available.\<close>

record acp_env =
  ae_token :: "string option"
  ae_allow_anon :: "string option"
  ae_allow_origin :: "string option"
  ae_time :: int
  ae_parse :: json_parser
  ae_print :: json_printer
  ae_files :: filesystem
  ae_malloc :: bool

definition ACP_MAX_CONNECTIONS :: int where
  "ACP_MAX_CONNECTIONS = 100"

section \<open>Life cycle\<close>

definition acp_server_new :: "MessageBus option \<Rightarrow> ToolRegistry option \<Rightarrow> bool \<Rightarrow> SessionManager option \<Rightarrow> ACPServer" where
  "acp_server_new bus tool_registry agent_loop session_mgr =
     \<lparr>as_port = 8080, as_host = ''127.0.0.1'', as_running = False, as_listening = False, as_bus = bus,
      as_tool_registry = tool_registry, as_agent_loop = agent_loop, as_session_mgr = session_mgr,
      as_active_connections = 0, as_counter = 0\<rparr>"

text \<open>
  \<open>listen_ok\<close> is whether the operating system lets the server listen at an address that is free. \<open>as_listening\<close> is whether
  a socket of this server is bound there; the new manager replaces the old one, which nothing frees.
\<close>

definition acp_server_start :: "(string \<Rightarrow> bool) \<Rightarrow> int \<Rightarrow> string option \<Rightarrow> ACPServer \<Rightarrow> int \<times> ACPServer" where
  "acp_server_start listen_ok port host server =
     (if as_running server then (- 1, server)
      else (let server = server\<lparr>as_port := port, as_host := (case host of Some h \<Rightarrow> h | None \<Rightarrow> as_host server)\<rparr>;
                listen_addr = c_trunc 64 (''http://'' @ as_host server @ '':'' @ show_int port)
            in if listen_ok listen_addr then (0, server\<lparr>as_running := True, as_listening := True\<rparr>) else (- 1, server)))"

definition acp_server_stop :: "ACPServer \<Rightarrow> ACPServer" where
  "acp_server_stop server = (if as_running server then server\<lparr>as_running := False\<rparr> else server)"

section \<open>Replies\<close>

definition send_json_response :: "acp_env \<Rightarrow> int \<Rightarrow> string option \<Rightarrow> HttpReply" where
  "send_json_response env status json =
     \<lparr>rp_status = status,
      rp_headers =
        (let plain = ''Content-Type: application/json'' @ [CHR 0x0D, CHR 0x0A]
         in case ae_allow_origin env of
              None \<Rightarrow> plain
            | Some o' \<Rightarrow> if o' = [] then plain
                        else c_trunc 512 (plain @ ''Access-Control-Allow-Origin: '' @ o' @ [CHR 0x0D, CHR 0x0A])),
      rp_body = json\<rparr>"

definition acp_error_json :: "json_printer \<Rightarrow> int \<Rightarrow> string \<Rightarrow> string option" where
  "acp_error_json print status message =
     print (JObject [(''error'', JObject [(''code'', JNumber (of_int status)), (''message'', JString message)])])"

definition send_error_response :: "acp_env \<Rightarrow> int \<Rightarrow> string \<Rightarrow> HttpReply" where
  "send_error_response env status message =
     send_json_response env (if status \<in> {401, 429, 404, 500} then status else 400) (acp_error_json (ae_print env) status message)"

definition acp_request_authorized :: "acp_env \<Rightarrow> HttpRequest \<Rightarrow> bool" where
  "acp_request_authorized env hm =
     (case (case ae_token env of Some t \<Rightarrow> t | None \<Rightarrow> []) of
        [] \<Rightarrow> ae_allow_anon env \<in> {Some ''1'', Some ''true'', Some ''yes''}
      | token \<Rightarrow>
          (case hr_header hm ''Authorization'' of Some auth \<Rightarrow> length auth > 7 \<and> auth = ''Bearer '' @ token | None \<Rightarrow> False) \<or>
          hr_header hm ''X-API-Key'' = Some token)"

section \<open>Tools\<close>

definition acp_tools_list_json :: "acp_env \<Rightarrow> ToolRegistry \<Rightarrow> string option" where
  "acp_tools_list_json env registry =
     ae_print env (JObject
       [(''tools'', JArray (map (\<lambda>t. JObject
           ([(''name'', JString (t_name t)), (''description'', JString (t_description t))] @
            (case ae_parse env (t_parameters t) of Some j \<Rightarrow> [(''input_schema'', j)] | None \<Rightarrow> []))) (tr_tools registry))),
        (''success'', JBool True)])"

definition acp_handle_tools_list :: "acp_env \<Rightarrow> ACPServer \<Rightarrow> HttpReply" where
  "acp_handle_tools_list env server =
     (case as_tool_registry server of
        None \<Rightarrow> send_error_response env 500 ''Tool registry not initialized''
      | Some reg \<Rightarrow>
          (case acp_tools_list_json env reg of
             Some json \<Rightarrow> send_json_response env 200 (Some json)
           | None \<Rightarrow> send_error_response env 500 ''Failed to serialize tools''))"

definition acp_tool_response_json :: "acp_env \<Rightarrow> string \<Rightarrow> string option \<Rightarrow> string option \<Rightarrow> string option" where
  "acp_tool_response_json env tname result err =
     ae_print env (JObject ([(''tool_name'', JString tname)] @
       (case err of
          Some e \<Rightarrow> [(''error'', JString e), (''success'', JBool False)]
        | None \<Rightarrow>
            (case result of
               Some r \<Rightarrow> [(''result'', case ae_parse env r of Some j \<Rightarrow> j | None \<Rightarrow> JString r)]
             | None \<Rightarrow> []) @ [(''success'', JBool True)])))"

text \<open>\<open>cJSON_PrintUnformatted\<close> of the arguments may fail; the tool then gets a null pointer, which is the empty text here.\<close>

definition acp_handle_tools_call :: "acp_env \<Rightarrow> ACPServer \<Rightarrow> string \<Rightarrow> HttpReply" where
  "acp_handle_tools_call env server body =
     (case as_tool_registry server of
        None \<Rightarrow> send_error_response env 500 ''Tool registry not initialized''
      | Some reg \<Rightarrow>
          (case ae_parse env (takeWhile (\<lambda>c. c \<noteq> CHR 0x00) body) of
             None \<Rightarrow> send_error_response env 400 ''Invalid JSON''
           | Some json \<Rightarrow>
               (case json_string (get_object_item (Some json) ''tool_name'') of
                  None \<Rightarrow> send_error_response env 400 (''Missing or invalid '' @ [CHR 0x27] @ ''tool_name'' @ [CHR 0x27])
                | Some tname \<Rightarrow>
                    (let arguments_str = (case get_object_item (Some json) ''arguments'' of
                                            Some a \<Rightarrow> str_or_empty (ae_print env a) | None \<Rightarrow> ''{}'');
                         (err, result) = tool_registry_execute reg tname arguments_str
                     in send_json_response env 200
                          (if err_code err \<noteq> ERR_NONE then acp_tool_response_json env tname None (Some (err_message err))
                           else acp_tool_response_json env tname (Some result) None)))))"

section \<open>Chat\<close>

definition generate_response_id :: "acp_env \<Rightarrow> ACPServer \<Rightarrow> string \<times> ACPServer" where
  "generate_response_id env server =
     (c_trunc 64 (''chatcmpl-'' @ show_int (int (unat (as_counter server))) @ ''-'' @ show_int (ae_time env)),
      server\<lparr>as_counter := as_counter server + 1\<rparr>)"

definition acp_chat_response_json :: "acp_env \<Rightarrow> string \<Rightarrow> string \<Rightarrow> string \<Rightarrow> string \<Rightarrow> json" where
  "acp_chat_response_json env response_id model content finish_reason =
     JObject
       [(''id'', JString response_id), (''object'', JString ''chat.completion''),
        (''created'', JNumber (of_int (double_of_int (ae_time env)))), (''model'', JString model),
        (''choices'', JArray [JObject
           [(''index'', JNumber 0),
            (''message'', JObject [(''role'', JString ''assistant''), (''content'', JString content)]),
            (''finish_reason'', JString finish_reason)]]),
        (''usage'', JObject [(''prompt_tokens'', JNumber 0), (''completion_tokens'', JNumber 0), (''total_tokens'', JNumber 0)])]"

text \<open>The last message of the user; its content is \<open>None\<close> when it is not a string.\<close>

definition last_user_message :: "json list \<Rightarrow> string option" where
  "last_user_message msgs =
     (case find (\<lambda>m. json_string (get_object_item (Some m) ''role'') = Some ''user'' \<and> get_object_item (Some m) ''content'' \<noteq> None) (rev msgs) of
        None \<Rightarrow> None | Some m \<Rightarrow> json_string (get_object_item (Some m) ''content''))"

definition queue_info :: "json \<Rightarrow> json" where
  "queue_info json =
     (let item = get_object_item (Some json)
      in JObject
           ((case json_number (item ''temperature'') of Some n \<Rightarrow> [(''temperature'', JNumber n)] | None \<Rightarrow> []) @
            (case json_number (item ''max_tokens'') of Some n \<Rightarrow> [(''max_tokens'', JNumber (of_int (number_valueint n)))] | None \<Rightarrow> []) @
            (case json_bool (item ''stream'') of Some b \<Rightarrow> [(''stream'', JBool b)] | None \<Rightarrow> []) @
            [(''result_endpoint'', JString ''/v1/chat/responses?session_id=<session_id>'')]))"

definition add_queue_info :: "json \<Rightarrow> json \<Rightarrow> json" where
  "add_queue_info info response = (case response of JObject kvs \<Rightarrow> JObject (kvs @ [(''queued_options'', info)]) | j \<Rightarrow> j)"

definition queued_reply :: "acp_env \<Rightarrow> json \<Rightarrow> json \<Rightarrow> HttpReply" where
  "queued_reply env json response =
     (let response_json = ae_print env response
      in case Option.bind response_json (ae_parse env) of
           None \<Rightarrow> send_json_response env 202 response_json
         | Some response_root \<Rightarrow>
             (case ae_print env (add_queue_info (queue_info json) response_root) of
                Some enriched \<Rightarrow> send_json_response env 202 (Some enriched)
              | None \<Rightarrow> send_json_response env 202 response_json))"

definition queue_message :: "acp_env \<Rightarrow> string \<Rightarrow> string \<Rightarrow> ACPServer \<Rightarrow> ACPServer" where
  "queue_message env session_id user_message server =
     (case inbound_message_new (ae_malloc env) (Some ''acp'') (Some session_id) (Some user_message) None of
        None \<Rightarrow> server
      | Some msg \<Rightarrow>
          (case message_bus_send_inbound (ae_malloc env) (as_bus server) msg of
             Some (bus, _) \<Rightarrow> server\<lparr>as_bus := bus\<rparr> | None \<Rightarrow> server))"

definition acp_handle_chat_completions :: "acp_env \<Rightarrow> string \<Rightarrow> ACPServer \<Rightarrow> HttpReply \<times> ACPServer" where
  "acp_handle_chat_completions env body server =
     (if \<not> as_agent_loop server then (send_error_response env 500 ''Agent loop not initialized'', server)
      else (case ae_parse env (takeWhile (\<lambda>c. c \<noteq> CHR 0x00) body) of
              None \<Rightarrow> (send_error_response env 400 ''Invalid JSON'', server)
            | Some json \<Rightarrow>
                (case json_array (get_object_item (Some json) ''messages'') of
                   None \<Rightarrow> (send_error_response env 400 (''Missing or invalid '' @ [CHR 0x27] @ ''messages'' @ [CHR 0x27] @ '' array''), server)
                 | Some msgs \<Rightarrow>
                     (case last_user_message msgs of
                        None \<Rightarrow> (send_error_response env 400 ''No user message found'', server)
                      | Some user_message \<Rightarrow>
                          (let session_id = (case json_string (get_object_item (Some json) ''session_id'') of
                                               Some s \<Rightarrow> s | None \<Rightarrow> c_trunc 64 (''session_'' @ show_int (ae_time env)));
                               server = queue_message env session_id user_message server;
                               (response_id, server) = generate_response_id env server;
                               model = (case json_string (get_object_item (Some json) ''model'') of Some m \<Rightarrow> m | None \<Rightarrow> ''primagen-default'');
                               response_content = c_trunc 1024
                                 (''Message received and queued for processing. Session: '' @ session_id @
                                  ''. Use the session ID to track responses via the outbound message bus.'')
                           in (queued_reply env json (acp_chat_response_json env response_id model response_content ''stop''), server))))))"

section \<open>Polling\<close>

text \<open>\<open>mg_http_get_var\<close> into a buffer: a value that does not fit, or is empty, counts as missing.\<close>

definition http_var :: "HttpRequest \<Rightarrow> string \<Rightarrow> nat \<Rightarrow> string option" where
  "http_var hm name dst_len =
     (case hr_var hm name of Some v \<Rightarrow> if v \<noteq> [] \<and> length v < dst_len then Some v else None | None \<Rightarrow> None)"

record PollScan =
  ps_total_assistant :: nat
  ps_total_new :: nat
  ps_last_index :: int
  ps_added :: int
  ps_items :: "(int \<times> Message) list"

definition scan_message :: "int \<Rightarrow> int \<Rightarrow> nat \<times> Message \<Rightarrow> PollScan \<Rightarrow> PollScan" where
  "scan_message since limit im s =
     (case im of (i, msg) \<Rightarrow>
        if m_role msg \<noteq> ROLE_ASSISTANT \<or> m_content msg = [] then s
        else (let s = s\<lparr>ps_total_assistant := ps_total_assistant s + 1\<rparr>
              in if int i \<le> since then s
                 else (let s = s\<lparr>ps_total_new := ps_total_new s + 1\<rparr>
                       in if ps_added s \<ge> limit then s
                          else s\<lparr>ps_items := ps_items s @ [(int i, msg)], ps_last_index := int i, ps_added := ps_added s + 1\<rparr>)))"

definition scan_messages :: "int \<Rightarrow> int \<Rightarrow> Message list \<Rightarrow> PollScan" where
  "scan_messages since limit msgs =
     fold (scan_message since limit) (enumerate 0 msgs)
       \<lparr>ps_total_assistant = 0, ps_total_new = 0, ps_last_index = since, ps_added = 0, ps_items = []\<rparr>"

definition response_item :: "int \<times> Message \<Rightarrow> json" where
  "response_item im =
     (case im of (i, msg) \<Rightarrow>
        JObject [(''message_index'', JNumber (of_int i)), (''role'', JString ''assistant''), (''content'', JString (m_content msg)),
                 (''timestamp'', JString (m_timestamp msg))])"

definition responses_json :: "string \<Rightarrow> int \<Rightarrow> int \<Rightarrow> PollScan \<Rightarrow> json" where
  "responses_json session_id limit since s =
     JObject
       ([(''session_id'', JString session_id), (''requested_limit'', JNumber (of_int limit)), (''requested_since'', JNumber (of_int since))] @
        (if ps_total_assistant s = 0
         then [(''status'', JString ''pending''), (''ready'', JBool False), (''next_since'', JNumber (of_int since)), (''has_more'', JBool False)]
         else [(''status'', JString ''completed''), (''ready'', JBool (ps_added s > 0)), (''next_since'', JNumber (of_int (ps_last_index s))),
               (''has_more'', JBool (int (ps_total_new s) > ps_added s))]) @
        [(''responses'', JArray (map response_item (ps_items s)))])"

definition poll_limit :: "HttpRequest \<Rightarrow> int" where
  "poll_limit hm = min 20 (max 1 (case http_var hm ''limit'' 32 of Some v \<Rightarrow> atoi v | None \<Rightarrow> 1))"

definition poll_since :: "HttpRequest \<Rightarrow> int" where
  "poll_since hm = max (- 1) (case http_var hm ''since'' 32 of Some v \<Rightarrow> atoi v | None \<Rightarrow> - 1)"

text \<open>The session is taken from the table, or from its file, which puts it into the table.\<close>

definition find_or_load :: "acp_env \<Rightarrow> string \<Rightarrow> SessionManager \<Rightarrow> Session option \<times> SessionManager" where
  "find_or_load env key mgr =
     (case session_manager_get mgr key of
        Some s \<Rightarrow> (Some s, mgr)
      | None \<Rightarrow> (case session_manager_load (ae_parse env) (ae_malloc env) (ae_time env) (ae_files env) mgr key of
                   (_, s, mgr) \<Rightarrow> (s, mgr)))"

definition acp_handle_chat_responses :: "acp_env \<Rightarrow> HttpRequest \<Rightarrow> ACPServer \<Rightarrow> HttpReply \<times> ACPServer" where
  "acp_handle_chat_responses env hm server =
     (case as_session_mgr server of
        None \<Rightarrow> (send_error_response env 500 ''Session manager not initialized'', server)
      | Some mgr \<Rightarrow>
          (case http_var hm ''session_id'' 256 of
             None \<Rightarrow> (send_error_response env 400 ''Missing required query parameter: session_id'', server)
           | Some session_id \<Rightarrow>
               (let limit = poll_limit hm; since = poll_since hm;
                    (session, mgr) = find_or_load env (c_trunc 320 (''acp:'' @ session_id)) mgr;
                    s = scan_messages since limit (case session of Some s \<Rightarrow> se_messages s | None \<Rightarrow> [])
                in (send_json_response env (if ps_total_assistant s = 0 then 202 else 200)
                      (ae_print env (responses_json session_id limit since s)),
                    server\<lparr>as_session_mgr := Some mgr\<rparr>))))"

section \<open>Requests\<close>

definition acp_handle_health :: "acp_env \<Rightarrow> HttpReply" where
  "acp_handle_health env = send_json_response env 200
     (Some ([CHR ''{'', CHR 0x22] @ ''status'' @ [CHR 0x22, CHR '':'', CHR 0x22] @ ''ok'' @ [CHR 0x22, CHR '','', CHR 0x22] @ ''running'' @
            [CHR 0x22] @ '':true}''))"

definition acp_route :: "acp_env \<Rightarrow> HttpRequest \<Rightarrow> ACPServer \<Rightarrow> HttpReply \<times> ACPServer" where
  "acp_route env hm server =
     (if hr_uri hm = ''/v1/health'' then (acp_handle_health env, server)
      else if hr_uri hm = ''/v1/tools/list'' then (acp_handle_tools_list env server, server)
      else if hr_uri hm = ''/v1/tools/call''
      then if hr_method hm \<noteq> ''POST'' then (send_error_response env 405 ''Method not allowed'', server)
           else if ae_malloc env then (acp_handle_tools_call env server (hr_body hm), server)
           else (send_error_response env 500 ''Failed to allocate memory for request body'', server)
      else if hr_uri hm = ''/v1/chat/completions''
      then if hr_method hm \<noteq> ''POST'' then (send_error_response env 405 ''Method not allowed'', server)
           else if ae_malloc env then acp_handle_chat_completions env (hr_body hm) server
           else (send_error_response env 500 ''Failed to allocate memory for request body'', server)
      else if hr_uri hm = ''/v1/chat/responses''
      then if hr_method hm \<noteq> ''GET'' then (send_error_response env 405 ''Method not allowed'', server)
           else acp_handle_chat_responses env hm server
      else (send_error_response env 404 ''Not found'', server))"

definition acp_event_handler :: "acp_env \<Rightarrow> HttpRequest \<Rightarrow> ACPServer \<Rightarrow> HttpReply \<times> ACPServer" where
  "acp_event_handler env hm server =
     (let server = server\<lparr>as_active_connections := as_active_connections server + 1\<rparr>;
          (reply, server) =
            (if as_active_connections server > ACP_MAX_CONNECTIONS then (send_error_response env 429 ''Too many requests'', server)
             else if hr_uri hm \<noteq> ''/v1/health'' \<and> \<not> acp_request_authorized env hm
             then (send_error_response env 401 ''Unauthorized'', server)
             else acp_route env hm server)
      in (reply, server\<lparr>as_active_connections := as_active_connections server - 1\<rparr>))"

section \<open>A client that polls\<close>

text \<open>The replies behind an index, with their indices.\<close>

definition is_reply :: "int \<Rightarrow> nat \<times> Message \<Rightarrow> bool" where
  "is_reply since im \<longleftrightarrow> since < int (fst im) \<and> m_role (snd im) = ROLE_ASSISTANT \<and> m_content (snd im) \<noteq> []"

definition new_replies :: "int \<Rightarrow> Message list \<Rightarrow> (int \<times> Message) list" where
  "new_replies since msgs = map (\<lambda>im. (int (fst im), snd im)) (filter (is_reply since) (enumerate 0 msgs))"

definition page :: "int \<Rightarrow> int \<Rightarrow> (int \<times> Message) list \<Rightarrow> (int \<times> Message) list \<Rightarrow> PollScan \<Rightarrow> bool" where
  "page since limit seen n s \<longleftrightarrow>
     ps_items s = take (nat limit) n \<and> ps_total_new s = length n \<and> ps_added s = int (length (ps_items s)) \<and>
     ps_last_index s = (if ps_items s = [] then since else fst (last (ps_items s))) \<and> seen = n"

lemma page_step:
  assumes "page since limit n n s" "0 \<le> limit"
  shows "page since limit (n @ map (\<lambda>im. (int (fst im), snd im)) (filter (is_reply since) [im]))
    (n @ map (\<lambda>im. (int (fst im), snd im)) (filter (is_reply since) [im])) (scan_message since limit im s)"
proof -
  have "int (length (take (nat limit) n)) \<ge> limit \<longleftrightarrow> nat limit \<le> length n" using assms(2) by (auto simp: min_def)
  then show ?thesis
    using assms by (cases im) (auto simp: page_def scan_message_def is_reply_def Let_def)
qed

lemma scan_pages:
  assumes "0 \<le> limit"
  shows "page since limit n n s \<Longrightarrow> \<exists>m. m = n @ map (\<lambda>im. (int (fst im), snd im)) (filter (is_reply since) ims) \<and>
    page since limit m m (fold (scan_message since limit) ims s)"
proof (induction ims arbitrary: n s)
  case (Cons im ims)
  show ?case using Cons.IH [OF page_step [OF Cons.prems assms, of im]] by (auto split: if_splits)
qed simp

lemma scan_result: "0 \<le> limit \<Longrightarrow> page since limit (new_replies since msgs) (new_replies since msgs) (scan_messages since limit msgs)"
  using scan_pages [of limit since "[]" "\<lparr>ps_total_assistant = 0, ps_total_new = 0, ps_last_index = since, ps_added = 0, ps_items = []\<rparr>"
      "enumerate 0 msgs"]
  by (simp add: scan_messages_def new_replies_def) (simp add: page_def)

lemma new_replies_sorted: "sorted_wrt (<) (map fst (new_replies since msgs))"
proof -
  have "sorted_wrt (<) (map fst (enumerate 0 msgs))" by (simp add: map_fst_enumerate)
  then have "sorted_wrt (\<lambda>x y. fst x < fst y) (enumerate 0 msgs)" by (simp only: sorted_wrt_map)
  then have "sorted_wrt (\<lambda>x y. fst x < fst y) (filter (is_reply since) (enumerate 0 msgs))" by (rule sorted_wrt_filter)
  then show ?thesis by (simp add: new_replies_def sorted_wrt_map)
qed

lemma new_replies_later: "since \<le> since' \<Longrightarrow> new_replies since' msgs = filter (\<lambda>r. since' < fst r) (new_replies since msgs)"
  by (simp add: new_replies_def filter_map o_def conj_commute cong: filter_cong)
    (rule arg_cong [where f = "map _"], rule filter_cong, auto simp: is_reply_def)

lemma filter_behind:
  assumes "sorted_wrt (<) (map fst (xs @ ys))" "xs \<noteq> []"
  shows "filter (\<lambda>r. fst (last xs) < (fst r :: int)) (xs @ ys) = ys"
proof -
  obtain zs z where xs: "xs = zs @ [z]" using assms(2) by (cases xs rule: rev_cases) auto
  have "\<forall>r \<in> set zs. fst r < fst z" "\<forall>r \<in> set ys. fst z < fst r" using assms(1) by (auto simp: xs sorted_wrt_append)
  then have "filter (\<lambda>r. fst z < fst r) zs = []" "filter (\<lambda>r. fst z < fst r) ys = ys"
    by (auto simp: filter_empty_conv filter_id_conv)
  then show ?thesis by (simp add: xs)
qed

lemma next_page:
  assumes "1 \<le> limit"
  shows "new_replies (ps_last_index (scan_messages since limit msgs)) msgs = drop (nat limit) (new_replies since msgs)"
proof -
  let ?n = "new_replies since msgs"
  let ?p = "take (nat limit) ?n"
  have l: "ps_last_index (scan_messages since limit msgs) = (if ?p = [] then since else fst (last ?p))"
    using scan_result [of limit since msgs] assms by (simp add: page_def)
  show ?thesis
  proof (cases "?n = []")
    case False
    then have ne: "?p \<noteq> []" using assms by simp
    have "last ?p \<in> set ?n" using ne by (metis in_set_takeD last_in_set)
    then have "since \<le> fst (last ?p)" by (auto simp: new_replies_def is_reply_def)
    then have "new_replies (fst (last ?p)) msgs = filter (\<lambda>r. fst (last ?p) < fst r) (?p @ drop (nat limit) ?n)"
      by (simp add: new_replies_later)
    also have "\<dots> = drop (nat limit) ?n" using new_replies_sorted [of since msgs] by (intro filter_behind ne) simp
    finally show ?thesis using l ne by simp
  qed (simp add: l)
qed

lemma new_replies_grow:
  assumes "prefix xs ys"
  shows "prefix (new_replies since xs) (new_replies since ys)"
proof -
  obtain zs where "ys = xs @ zs" using assms by (auto simp: prefix_def)
  then show ?thesis by (simp add: new_replies_def enumerate_append_eq)
qed

text \<open>A client that polls at several moments, each with the limit of its choice, and continues where the last answer ended.\<close>

fun polls :: "int \<Rightarrow> (int \<times> Message list) list \<Rightarrow> (int \<times> Message) list list" where
  "polls since [] = []"
| "polls since ((limit, msgs) # rest) =
     (let s = scan_messages since limit msgs in ps_items s # polls (ps_last_index s) rest)"

text \<open>What the last answer says in \<open>has_more\<close>.\<close>

fun last_has_more :: "int \<Rightarrow> (int \<times> Message list) list \<Rightarrow> bool" where
  "last_has_more since [] = False"
| "last_has_more since ((limit, msgs) # rest) =
     (let s = scan_messages since limit msgs
      in if rest = [] then int (ps_total_new s) > ps_added s else last_has_more (ps_last_index s) rest)"

lemma split_page:
  assumes "1 \<le> limit"
  shows "new_replies since msgs =
    ps_items (scan_messages since limit msgs) @ new_replies (ps_last_index (scan_messages since limit msgs)) msgs"
proof -
  have "ps_items (scan_messages since limit msgs) = take (nat limit) (new_replies since msgs)"
    using scan_result [of limit since msgs] assms by (simp add: page_def)
  then show ?thesis unfolding next_page [OF assms] by simp
qed

lemma last_page:
  assumes "1 \<le> limit" "ps_items (scan_messages since limit msgs) \<noteq> []"
  shows "ps_last_index (scan_messages since limit msgs) < int (length msgs)" "since < int (length msgs)"
proof -
  let ?p = "ps_items (scan_messages since limit msgs)"
  have p: "?p = take (nat limit) (new_replies since msgs)" "ps_last_index (scan_messages since limit msgs) = fst (last ?p)"
    using scan_result [of limit since msgs] assms by (simp_all add: page_def)
  have "last ?p \<in> set ?p" using assms(2) by (rule last_in_set)
  then have "last ?p \<in> set (new_replies since msgs)" unfolding p(1) by (rule in_set_takeD)
  then show "ps_last_index (scan_messages since limit msgs) < int (length msgs)" "since < int (length msgs)"
    unfolding p(2) by (auto simp: new_replies_def is_reply_def in_set_enumerate_eq)
qed

lemma last_index_kept:
  assumes "1 \<le> limit" "prefix msgs later"
  shows "new_replies since later =
    ps_items (scan_messages since limit msgs) @ new_replies (ps_last_index (scan_messages since limit msgs)) later"
proof (cases "ps_items (scan_messages since limit msgs) = []")
  case True
  then have "ps_last_index (scan_messages since limit msgs) = since"
    using scan_result [of limit since msgs] assms(1) by (simp add: page_def)
  then show ?thesis using True by simp
next
  case False
  let ?l = "ps_last_index (scan_messages since limit msgs)"
  obtain zs where zs: "later = msgs @ zs" using assms(2) by (auto simp: prefix_def)
  have "filter (is_reply ?l) (enumerate (length msgs) zs) = filter (is_reply since) (enumerate (length msgs) zs)"
    using last_page [OF assms(1) False] by (intro filter_cong refl) (auto simp: is_reply_def in_set_enumerate_eq)
  then have "new_replies x later = new_replies x msgs @ map (\<lambda>im. (int (fst im), snd im)) (filter (is_reply since) (enumerate (length msgs) zs))"
    if "x \<in> {since, ?l}" for x
    using that by (auto simp: zs new_replies_def enumerate_append_eq)
  then show ?thesis using split_page [OF assms(1), of since msgs] by simp
qed

text \<open>
  Claim C10. A client that polls and goes on where the last answer ended gets every reply once and in order: as long as
  messages are only added to its session, the pages together are the first of the replies, whatever limits the client asks for, and they are
  all of the replies when the last answer says that there are no more.
\<close>
theorem polling_delivers_once:
  assumes "sorted_wrt prefix (map snd ps)" "list_all (\<lambda>(limit, _). 1 \<le> limit) ps" "ps \<noteq> []"
  shows "prefix (concat (polls since ps)) (new_replies since (snd (last ps))) \<and>
    (\<not> last_has_more since ps \<longrightarrow> concat (polls since ps) = new_replies since (snd (last ps)))"
  using assms
proof (induction since ps rule: polls.induct)
  case (2 since limit msgs rest)
  let ?s = "scan_messages since limit msgs"
  have l: "1 \<le> limit" using 2(3) by simp
  show ?case
  proof (cases "rest = []")
    case True
    have "new_replies since msgs = ps_items ?s @ new_replies (ps_last_index ?s) msgs" by (rule split_page [OF l])
    moreover have "ps_total_new ?s = length (new_replies since msgs)" "ps_added ?s = int (length (ps_items ?s))"
      using scan_result [of limit since msgs] l by (simp_all add: page_def)
    ultimately show ?thesis using True by (auto simp: Let_def prefix_def)
  next
    case False
    then have "prefix msgs (snd (last rest))" using 2(2) by simp
    then have "new_replies since (snd (last rest)) = ps_items ?s @ new_replies (ps_last_index ?s) (snd (last rest))"
      by (rule last_index_kept [OF l])
    then show ?thesis using 2 False by (simp add: Let_def)
  qed
qed simp

definition chat_line :: "MessageRole \<Rightarrow> string \<Rightarrow> Message" where
  "chat_line role content =
     \<lparr>m_role = role, m_content = content, m_timestamp = [], m_tool_calls = [], m_tool_call_id = [], m_name = []\<rparr>"

definition demo_chat :: "Message list" where
  "demo_chat = [chat_line ROLE_USER ''a'', chat_line ROLE_ASSISTANT ''x'', chat_line ROLE_USER ''b'', chat_line ROLE_ASSISTANT ''y'']"

theorem polling_delivers_once_witness:
  "concat (polls (- 1) [(1, take 2 demo_chat), (1, demo_chat)]) =
     [(1, chat_line ROLE_ASSISTANT ''x''), (3, chat_line ROLE_ASSISTANT ''y'')]"
proof -
  have "prefix (take 2 demo_chat) demo_chat" by (rule take_is_prefix)
  moreover have "\<not> last_has_more (- 1) [(1, take 2 demo_chat), (1, demo_chat)]"
    by (simp add: demo_chat_def chat_line_def scan_messages_def scan_message_def Let_def)
  ultimately show ?thesis
    using polling_delivers_once [of "[(1, take 2 demo_chat), (1, demo_chat)]" "- 1"]
    by (simp add: new_replies_def) (simp add: demo_chat_def is_reply_def chat_line_def)
qed

text \<open>
  A turn that is taken back makes indices return: the reply that then takes the index of one that was already read is never delivered.
\<close>

lemma rollback_hides_reply:
  "new_replies 3 (se_messages (session_add_message 0 (session_add_message 0
     (session_rollback_messages 0 ((new_session ''acp:1'' 0)\<lparr>se_messages := demo_chat\<rparr>) 2)
     (chat_line ROLE_USER ''c'')) (chat_line ROLE_ASSISTANT ''z''))) = []"
  by (simp add: new_replies_def is_reply_def session_rollback_messages_def session_add_message_def demo_chat_def new_session_def)

section \<open>Access\<close>

text \<open>Requests are handled one at a time, so the number of connections that is checked against the limit is always one.\<close>

lemma route_connections: "as_active_connections (snd (acp_route env hm server)) = as_active_connections server"
proof -
  have "as_active_connections (snd (acp_handle_chat_completions env body server)) = as_active_connections server" for body
    by (auto simp: acp_handle_chat_completions_def Let_def generate_response_id_def queue_message_def split: option.split)
  moreover have "as_active_connections (snd (acp_handle_chat_responses env hm server)) = as_active_connections server"
    by (auto simp: acp_handle_chat_responses_def Let_def split: option.split prod.split)
  ultimately show ?thesis by (simp add: acp_route_def)
qed

lemma handler_connections: "as_active_connections (snd (acp_event_handler env hm server)) = as_active_connections server"
  by (simp add: acp_event_handler_def Let_def case_prod_beta route_connections)

text \<open>
  Who may talk to the server: when no other request is under way, then with a token in the environment a request without it
  changes nothing and gets 401, except for the health check; without a token, and without permission for everybody, so does every
  other request.
\<close>
theorem unauthorized_has_no_effect:
  assumes "as_active_connections server = 0" "hr_uri hm \<noteq> ''/v1/health''"
    and "case ae_token env of
           Some t \<Rightarrow> if t = [] then ae_allow_anon env = None
                     else hr_header hm ''Authorization'' \<noteq> Some (''Bearer '' @ t) \<and> hr_header hm ''X-API-Key'' \<noteq> Some t
         | None \<Rightarrow> ae_allow_anon env = None"
  shows "acp_event_handler env hm server = (send_error_response env 401 ''Unauthorized'', server)"
proof -
  have "\<not> acp_request_authorized env hm"
    using assms(3) by (cases "hr_header hm ''Authorization''") (auto simp: acp_request_authorized_def split: option.splits list.splits if_splits)
  then show ?thesis using assms(1,2) by (simp add: acp_event_handler_def ACP_MAX_CONNECTIONS_def Let_def)
qed

theorem unauthorized_has_no_effect_witness:
  "acp_event_handler
     \<lparr>ae_token = Some ''s3'', ae_allow_anon = None, ae_allow_origin = None, ae_time = 0, ae_parse = (\<lambda>_. None),
      ae_print = (\<lambda>_. None), ae_files = (\<lambda>_. None), ae_malloc = True\<rparr>
     \<lparr>hr_method = ''POST'', hr_uri = ''/v1/chat'', hr_header = [''X-API-Key'' \<mapsto> ''s4''], hr_var = Map.empty, hr_body = ''{}''\<rparr>
     \<lparr>as_port = 8080, as_host = ''0.0.0.0'', as_running = True, as_listening = True, as_bus = None, as_tool_registry = None,
      as_agent_loop = False, as_session_mgr = None, as_active_connections = 0, as_counter = 0\<rparr> =
   (send_error_response
      \<lparr>ae_token = Some ''s3'', ae_allow_anon = None, ae_allow_origin = None, ae_time = 0, ae_parse = (\<lambda>_. None),
       ae_print = (\<lambda>_. None), ae_files = (\<lambda>_. None), ae_malloc = True\<rparr> 401 ''Unauthorized'',
    \<lparr>as_port = 8080, as_host = ''0.0.0.0'', as_running = True, as_listening = True, as_bus = None, as_tool_registry = None,
     as_agent_loop = False, as_session_mgr = None, as_active_connections = 0, as_counter = 0\<rparr>)"
  by (rule unauthorized_has_no_effect) simp_all

end
