(* ===== verification/DingTalkWs.thy ===== *)
theory DingTalkWs
  imports FeishuWs Utils
begin

text \<open>
  \<open>plugins/channels/dingtalk_channel/dingtalk_ws.c\<close>: the long connection of the DingTalk channel. Its frame codec and its headers are
  a copy of those of \<open>feishu_ws.c\<close>, so the definitions of \<open>FeishuFrame\<close> and \<open>FeishuWs\<close> are used. The network library
  is third-party code: it reports events, and it frees a connection after the event of its closing. \<open>dw_c\<close> says that the
  pointer to the connection is not null, \<open>dw_alive\<close> that the connection exists, and \<open>dw_fault\<close> that a freed one was used.
\<close>

section \<open>State\<close>

datatype Sent = SentText string | SentBinary string

record Delivery =
  de_conversation :: string
  de_text :: string
  de_sender_id :: "string option"
  de_sender_name :: "string option"
  de_webhook :: "string option"
  de_webhook_expired :: int

record DingTalkWS =
  dw_c :: bool
  dw_alive :: bool
  dw_is_websocket :: bool
  dw_is_closing :: bool
  dw_running :: bool
  dw_has_callback :: bool
  dw_ping_interval_ms :: "64 word"
  dw_next_ping_ms :: "64 word"
  dw_sent :: "Sent list"
  dw_delivered :: "Delivery list"
  dw_fault :: bool

definition dingtalk_ws_create :: "64 word \<Rightarrow> DingTalkWS" where
  "dingtalk_ws_create now_ms =
     \<lparr>dw_c = False, dw_alive = False, dw_is_websocket = False, dw_is_closing = False, dw_running = False, dw_has_callback = False,
      dw_ping_interval_ms = 120000, dw_next_ping_ms = now_ms + 120000, dw_sent = [], dw_delivered = [], dw_fault = False\<rparr>"

definition dingtalk_ws_connect :: "bool \<Rightarrow> DingTalkWS \<Rightarrow> bool \<times> DingTalkWS" where
  "dingtalk_ws_connect connect_ok ws =
     (if connect_ok then (True, ws\<lparr>dw_c := True, dw_alive := True, dw_is_websocket := False, dw_is_closing := False\<rparr>)
      else (False, ws\<lparr>dw_c := False\<rparr>))"

definition dingtalk_ws_stop :: "DingTalkWS \<Rightarrow> DingTalkWS" where
  "dingtalk_ws_stop ws =
     (let ws = ws\<lparr>dw_running := False\<rparr>
      in if \<not> dw_c ws then ws
         else if dw_alive ws then ws\<lparr>dw_is_closing := True\<rparr> else ws\<lparr>dw_fault := True\<rparr>)"

section \<open>Sending\<close>

definition dingtalk_ws_send_frame :: "feishu_env \<Rightarrow> WSFrame \<Rightarrow> DingTalkWS \<Rightarrow> DingTalkWS" where
  "dingtalk_ws_send_frame env f ws =
     (case encode_frame (fe_malloc env) f of
        None \<Rightarrow> ws | Some b \<Rightarrow> ws\<lparr>dw_sent := dw_sent ws @ [SentBinary (bb_data b)]\<rparr>)"

definition dingtalk_ws_can_send_ping :: "DingTalkWS \<Rightarrow> bool" where
  "dingtalk_ws_can_send_ping ws \<longleftrightarrow> dw_c ws \<and> dw_is_websocket ws \<and> \<not> dw_is_closing ws"

definition dingtalk_ws_send_ping :: "feishu_env \<Rightarrow> DingTalkWS \<Rightarrow> DingTalkWS" where
  "dingtalk_ws_send_ping env ws =
     dingtalk_ws_send_frame env
       (frame_header_set (fe_strdup env) ''type'' ''ping'' (empty_frame\<lparr>wf_method := 0, wf_service := 1\<rparr>)) ws"

definition copied_frame :: "feishu_env \<Rightarrow> WSFrame \<Rightarrow> WSFrame" where
  "copied_frame env inp =
     fold (\<lambda>h out. case h of (Some k, Some v) \<Rightarrow> frame_header_set (fe_strdup env) k v out | _ \<Rightarrow> out) (wf_headers inp)
       (empty_frame\<lparr>wf_seq_id := wf_seq_id inp, wf_log_id := wf_log_id inp, wf_service := wf_service inp, wf_method := wf_method inp,
                    wf_payload_type := (if fe_strdup env then wf_payload_type inp else None)\<rparr>)"

definition dingtalk_ws_send_ack :: "feishu_env \<Rightarrow> WSFrame \<Rightarrow> int \<Rightarrow> DingTalkWS \<Rightarrow> DingTalkWS" where
  "dingtalk_ws_send_ack env inp status ws =
     (case fe_print env (JObject [(''code'', JNumber (of_int status)), (''headers'', JObject []), (''data'', JString [])]) of
        None \<Rightarrow> ws
      | Some pstr \<Rightarrow> dingtalk_ws_send_frame env ((copied_frame env inp)\<lparr>wf_payload := Some pstr\<rparr>) ws)"

section \<open>Events of the service\<close>

definition ack_json :: "string \<Rightarrow> json" where
  "ack_json message_id =
     JObject [(''code'', JNumber 200), (''message'', JString ''ok''), (''data'', JString []),
              (''headers'', JObject [(''contentType'', JString ''application/json''), (''messageId'', JString message_id)])]"

definition send_text_ack :: "feishu_env \<Rightarrow> json option \<Rightarrow> DingTalkWS \<Rightarrow> DingTalkWS" where
  "send_text_ack env headers ws =
     (case json_string (get_object_item headers ''messageId'') of
        None \<Rightarrow> ws
      | Some i \<Rightarrow> (case fe_print env (ack_json i) of
                    None \<Rightarrow> ws | Some s \<Rightarrow> ws\<lparr>dw_sent := dw_sent ws @ [SentText s]\<rparr>))"

definition callback_text :: "json \<Rightarrow> string option" where
  "callback_text data =
     (case json_string (get_object_item (Some data) ''msgtype'') of
        None \<Rightarrow> None
      | Some t \<Rightarrow>
          if t = ''text'' then json_string (get_object_item (get_object_item (Some data) ''text'') ''content'')
          else if t = ''markdown'' then json_string (get_object_item (get_object_item (Some data) ''markdown'') ''text'')
          else None)"

definition deliver_callback :: "json \<Rightarrow> DingTalkWS \<Rightarrow> DingTalkWS" where
  "deliver_callback data ws =
     (let item = (\<lambda>key. json_string (get_object_item (Some data) key))
      in case (item ''conversationId'', callback_text data) of
           (Some conversation, Some t) \<Rightarrow>
             if \<not> dw_has_callback ws then ws
             else ws\<lparr>dw_delivered := dw_delivered ws @
                       [\<lparr>de_conversation = conversation, de_text = t, de_sender_id = item ''senderId'', de_sender_name = item ''senderNick'',
                         de_webhook = item ''sessionWebhook'',
                         de_webhook_expired = (case json_number (get_object_item (Some data) ''sessionWebhookExpiredTime'') of
                                                 Some n \<Rightarrow> rat_trunc n | None \<Rightarrow> 0)\<rparr>]\<rparr>
         | _ \<Rightarrow> ws)"

definition dingtalk_event_json :: "feishu_env \<Rightarrow> string \<Rightarrow> DingTalkWS \<Rightarrow> DingTalkWS" where
  "dingtalk_event_json env event_json ws =
     (case fe_parse env (c_string event_json) of
        None \<Rightarrow> ws
      | Some j \<Rightarrow>
          if json_string (get_object_item (Some j) ''type'') \<noteq> Some ''CALLBACK'' then ws
          else (case Option.bind (json_string (get_object_item (Some j) ''data'')) (fe_parse env) of
                  None \<Rightarrow> ws
                | Some data \<Rightarrow>
                    (let ws = deliver_callback data ws
                     in if dw_c ws then send_text_ack env (get_object_item (Some j) ''headers'') ws else ws)))"

definition set_interval :: "json option \<Rightarrow> DingTalkWS \<Rightarrow> DingTalkWS" where
  "set_interval item ws =
     (case json_number item of Some n \<Rightarrow> ws\<lparr>dw_ping_interval_ms := word_of_int (number_valueint n) * 1000\<rparr> | None \<Rightarrow> ws)"

text \<open>A message that starts with a brace.\<close>

definition json_message :: "feishu_env \<Rightarrow> string \<Rightarrow> DingTalkWS \<Rightarrow> DingTalkWS" where
  "json_message env data ws =
     (case fe_parse env (c_string data) of
        None \<Rightarrow> ws
      | Some j \<Rightarrow>
          (let msg_type = json_string (get_object_item (Some j) ''type'')
           in if msg_type = Some ''SYSTEM''
              then (case get_object_item (Some j) ''headers'' of
                      None \<Rightarrow> ws
                    | Some headers \<Rightarrow> send_text_ack env (Some headers) (set_interval (get_object_item (Some headers) ''pingInterval'') ws))
              else if msg_type = Some ''PONG'' then set_interval (get_object_item (Some j) ''PingInterval'') ws
              else dingtalk_event_json env data ws))"

definition control_frame :: "feishu_env \<Rightarrow> WSFrame \<Rightarrow> DingTalkWS \<Rightarrow> DingTalkWS" where
  "control_frame env f ws =
     (case (frame_header_get f ''type'', wf_payload f) of
        (Some t, Some p) \<Rightarrow>
          if t = ''pong'' \<and> p \<noteq> [] \<and> fe_malloc env (length p + 1)
          then (let item = get_object_item (fe_parse env (c_string p)) ''PingInterval''
                in case json_number item of Some n \<Rightarrow> if number_valueint n > 0 then set_interval item ws else ws | None \<Rightarrow> ws)
          else ws
      | _ \<Rightarrow> ws)"

definition event_frame :: "feishu_env \<Rightarrow> WSFrame \<Rightarrow> DingTalkWS \<Rightarrow> DingTalkWS" where
  "event_frame env f ws =
     dingtalk_ws_send_ack env f 200
       (case wf_payload f of
          Some p \<Rightarrow> if p \<noteq> [] \<and> fe_malloc env (length p + 1) then dingtalk_event_json env p ws else ws
        | None \<Rightarrow> ws)"

definition frame_message :: "feishu_env \<Rightarrow> WSFrame \<Rightarrow> DingTalkWS \<Rightarrow> DingTalkWS" where
  "frame_message env f ws =
     (if wf_method f = 0 then control_frame env f ws else if wf_method f = 1 then event_frame env f ws else ws)"

text \<open>\<open>None\<close> when parsing does not end, as in \<open>FeishuWs\<close>.\<close>

definition dingtalk_message :: "feishu_env \<Rightarrow> string \<Rightarrow> DingTalkWS \<Rightarrow> (ub + DingTalkWS) option" where
  "dingtalk_message env data ws =
     (if data \<noteq> [] \<and> hd data = CHR ''{'' then Some (Inr (json_message env data ws))
      else (case parse_frame (fe_malloc env) data (length data) 0 empty_frame of
              None \<Rightarrow> None
            | Some (Inl e) \<Rightarrow> Some (Inl e)
            | Some (Inr None) \<Rightarrow> Some (Inr ws)
            | Some (Inr (Some f)) \<Rightarrow> Some (Inr (frame_message env f ws))))"

section \<open>Events of the connection and the loop\<close>

text \<open>
  The handler tests for the closing of the connection twice; the first test only writes a line to the log, so the second,
  which would forget the connection, is never reached. A message is a text that starts with a brace, or the frame that its bytes are
  parsed to (\<open>dingtalk_message\<close>).
\<close>

datatype Event = EvOpen | EvWsOpen | EvText string | EvFrame WSFrame | EvClose | EvError | EvOther

definition ws_handler :: "feishu_env \<Rightarrow> Event \<Rightarrow> DingTalkWS \<Rightarrow> DingTalkWS" where
  "ws_handler env ev ws =
     (case ev of
        EvOpen \<Rightarrow> ws\<lparr>dw_next_ping_ms := fe_now_ms env + dw_ping_interval_ms ws\<rparr>
      | EvWsOpen \<Rightarrow> ws\<lparr>dw_next_ping_ms := fe_now_ms env + dw_ping_interval_ms ws\<rparr>
      | EvText data \<Rightarrow> json_message env data ws
      | EvFrame f \<Rightarrow> frame_message env f ws
      | EvClose \<Rightarrow> ws
      | EvError \<Rightarrow> ws\<lparr>dw_c := False, dw_running := False\<rparr>
      | EvOther \<Rightarrow> ws)"

text \<open>What the library does around the handler: it marks an open websocket, and frees a connection that has closed.\<close>

definition library_event :: "feishu_env \<Rightarrow> Event \<Rightarrow> DingTalkWS \<Rightarrow> DingTalkWS" where
  "library_event env ev ws =
     (let ws = ws_handler env ev (if ev = EvWsOpen then ws\<lparr>dw_is_websocket := True\<rparr> else ws)
      in if ev = EvClose then ws\<lparr>dw_alive := False\<rparr> else ws)"

definition mg_mgr_poll :: "feishu_env \<Rightarrow> Event list \<Rightarrow> DingTalkWS \<Rightarrow> DingTalkWS" where
  "mg_mgr_poll env evs ws = fold (library_event env) evs ws"

definition loop_turn :: "feishu_env \<Rightarrow> Event list \<Rightarrow> DingTalkWS \<Rightarrow> DingTalkWS" where
  "loop_turn env evs ws =
     (let ws = mg_mgr_poll env evs ws
      in if \<not> dw_running ws then ws
         else if dw_c ws \<and> \<not> dw_alive ws then ws\<lparr>dw_fault := True\<rparr>
         else if dingtalk_ws_can_send_ping ws \<and> fe_end_ms env \<ge> dw_next_ping_ms ws
         then (dingtalk_ws_send_ping env ws)\<lparr>dw_next_ping_ms := fe_end_ms env + dw_ping_interval_ms ws\<rparr>
         else ws)"

text \<open>The loop over what its polls report; it ends when it is told to, or when the connection is gone.\<close>

fun ws_loop :: "feishu_env \<Rightarrow> Event list list \<Rightarrow> DingTalkWS \<Rightarrow> DingTalkWS" where
  "ws_loop env [] ws = ws"
| "ws_loop env (evs # polls) ws =
     (if dw_running ws \<and> dw_alive ws then ws_loop env polls (loop_turn env evs ws) else ws)"

definition dingtalk_ws_run :: "feishu_env \<Rightarrow> bool \<Rightarrow> Event list list \<Rightarrow> DingTalkWS \<Rightarrow> DingTalkWS" where
  "dingtalk_ws_run env callback polls ws = ws_loop env polls (ws\<lparr>dw_has_callback := callback, dw_running := True\<rparr>)"

section \<open>The address of the connection\<close>

definition bytes_to_hex :: "string \<Rightarrow> string" where
  "bytes_to_hex bytes = concat (map (\<lambda>b. [hex_digit (code b div 16), hex_digit (code b mod 16)]) bytes)"

text \<open>\<open>hmac\<close> is the keyed hash of the network library.\<close>

definition compute_signature :: "(string \<Rightarrow> string \<Rightarrow> string) \<Rightarrow> string \<Rightarrow> int \<Rightarrow> string" where
  "compute_signature hmac client_secret timestamp_ms = bytes_to_hex (hmac client_secret (c_trunc 32 (show_int timestamp_ms)))"

definition subscription :: "string \<Rightarrow> string \<Rightarrow> json" where
  "subscription type topic = JObject [(''type'', JString type), (''topic'', JString topic)]"

definition open_request :: "string option \<Rightarrow> string option \<Rightarrow> json" where
  "open_request client_id client_secret =
     JObject
       ((case (client_id, client_secret) of
           (Some i, Some s) \<Rightarrow> [(''clientId'', JString i), (''clientSecret'', JString s)] | _ \<Rightarrow> []) @
        [(''subscriptions'', JArray [subscription ''SYSTEM'' ''ping'', subscription ''EVENT'' ''*'',
                                     subscription ''CALLBACK'' ''/v1.0/im/bot/messages/get''])])"

definition json_valueint :: "json \<Rightarrow> int" where
  "json_valueint j = (case j of JNumber n \<Rightarrow> number_valueint n | JBool True \<Rightarrow> 1 | _ \<Rightarrow> 0)"

definition ticket_url :: "json option \<Rightarrow> string option" where
  "ticket_url j =
     (case (json_string (get_object_item j ''endpoint''), json_string (get_object_item j ''ticket'')) of
        (Some endpoint, Some ticket) \<Rightarrow>
          Some (c_trunc (length endpoint + length ticket + 10) (endpoint @ ''?ticket='' @ ticket))
      | _ \<Rightarrow> None)"

definition has_ticket :: "json option \<Rightarrow> bool" where
  "has_ticket j \<longleftrightarrow> json_string (get_object_item j ''endpoint'') \<noteq> None \<and> json_string (get_object_item j ''ticket'') \<noteq> None"

definition response_url :: "json_parser \<Rightarrow> string \<Rightarrow> string option" where
  "response_url parse body =
     (if body = [] then None
      else (case parse (c_string body) of
              None \<Rightarrow> None
            | Some resp \<Rightarrow>
                if (case get_object_item (Some resp) ''code'' of Some c \<Rightarrow> json_valueint c \<noteq> 0 | None \<Rightarrow> False) then None
                else (case (if has_ticket (Some resp) then ticket_url (Some resp) else ticket_url (get_object_item (Some resp) ''data'')) of
                        Some url \<Rightarrow> Some url
                      | None \<Rightarrow> json_string (get_object_item (Some resp) ''url''))))"

section \<open>Closing\<close>

definition same_connection :: "DingTalkWS \<Rightarrow> DingTalkWS \<Rightarrow> bool" where
  "same_connection ws ws' \<longleftrightarrow>
     dw_running ws' = dw_running ws \<and> dw_c ws' = dw_c ws \<and> dw_alive ws' = dw_alive ws \<and> dw_fault ws' = dw_fault ws"

lemma same_trans: "same_connection a b \<Longrightarrow> same_connection b c \<Longrightarrow> same_connection a c"
  by (simp add: same_connection_def)

lemma same_parts:
  "same_connection ws ws" "same_connection ws (set_interval item ws)" "same_connection ws (send_text_ack env h ws)"
  "same_connection ws (deliver_callback d ws)" "same_connection ws (dingtalk_ws_send_ack env f n ws)"
  "same_connection ws (dingtalk_ws_send_ping env ws)"
  by (auto simp: same_connection_def set_interval_def send_text_ack_def deliver_callback_def Let_def dingtalk_ws_send_ack_def
      dingtalk_ws_send_ping_def dingtalk_ws_send_frame_def split: option.split)

lemma same_event: "same_connection ws (dingtalk_event_json env t ws)"
  by (auto simp: dingtalk_event_json_def Let_def same_parts intro: same_trans [OF same_parts(4) same_parts(3)] split: option.split)

lemma same_message: "same_connection ws (json_message env t ws)" "same_connection ws (frame_message env f ws)"
  by (auto simp: json_message_def Let_def same_parts same_event frame_message_def control_frame_def event_frame_def
      intro: same_trans [OF same_parts(2) same_parts(3)] same_trans [OF same_event same_parts(5)] split: option.split)

lemma handler_flags:
  "ev \<noteq> EvError \<Longrightarrow> dw_running (ws_handler env ev ws) = dw_running ws" "ev \<noteq> EvError \<Longrightarrow> dw_c (ws_handler env ev ws) = dw_c ws"
  "dw_alive (ws_handler env ev ws) = dw_alive ws" "dw_fault (ws_handler env ev ws) = dw_fault ws"
  using same_message(1) [of ws env] same_message(2) [of ws env] by (auto simp: ws_handler_def same_connection_def split: Event.split)

lemma error_stops: "\<not> dw_running (ws_handler env EvError ws)" "\<not> dw_running ws \<Longrightarrow> \<not> dw_running (ws_handler env ev ws)"
  using handler_flags(1) [of ev] by (cases ev; auto simp: ws_handler_def)+

lemma library_flags:
  "ev \<noteq> EvError \<Longrightarrow> dw_running (library_event env ev ws) = dw_running ws" "ev \<noteq> EvError \<Longrightarrow> dw_c (library_event env ev ws) = dw_c ws"
  "dw_alive (library_event env ev ws) = (dw_alive ws \<and> ev \<noteq> EvClose)" "dw_fault (library_event env ev ws) = dw_fault ws"
  "\<not> dw_running ws \<or> ev = EvError \<Longrightarrow> \<not> dw_running (library_event env ev ws)"
  using handler_flags error_stops by (auto simp: library_event_def Let_def)

lemma poll_flags:
  "EvError \<notin> set evs \<Longrightarrow> dw_running (mg_mgr_poll env evs ws) = dw_running ws \<and> dw_c (mg_mgr_poll env evs ws) = dw_c ws"
  "dw_alive (mg_mgr_poll env evs ws) = (dw_alive ws \<and> EvClose \<notin> set evs)" "dw_fault (mg_mgr_poll env evs ws) = dw_fault ws"
  "\<not> dw_running ws \<Longrightarrow> \<not> dw_running (mg_mgr_poll env evs ws)"
  by (induction evs arbitrary: ws) (auto simp: mg_mgr_poll_def library_flags)

lemma poll_error: "EvError \<in> set evs \<Longrightarrow> \<not> dw_running (mg_mgr_poll env evs ws)"
proof (induction evs arbitrary: ws)
  case (Cons ev evs)
  then show ?case using poll_flags(4) [of "library_event env ev ws" env evs] by (auto simp: mg_mgr_poll_def library_flags(5))
qed simp

lemma turn_fault:
  assumes "dw_running ws" "dw_c ws" "dw_alive ws" "\<not> dw_fault ws"
  shows "dw_fault (loop_turn env evs ws) \<longleftrightarrow> EvClose \<in> set evs \<and> EvError \<notin> set evs"
proof -
  have p: "dw_fault ((dingtalk_ws_send_ping env w)\<lparr>dw_next_ping_ms := t\<rparr>) = dw_fault w" for w t
    using same_parts(6) [of w env] by (simp add: same_connection_def)
  show ?thesis
  proof (cases "EvError \<in> set evs")
    case True
    then show ?thesis using poll_error [OF True, of env ws] poll_flags(3) [of env evs ws] assms(4) by (simp add: loop_turn_def Let_def)
  next
    case False
    then show ?thesis using poll_flags(1) [OF False, of env ws] poll_flags(2,3) [of env evs ws] assms p
      by (auto simp: loop_turn_def Let_def)
  qed
qed

lemma turn_flags:
  assumes "EvError \<notin> set evs" "EvClose \<notin> set evs"
  shows "dw_running (loop_turn env evs ws) = dw_running ws" "dw_c (loop_turn env evs ws) = dw_c ws"
    "dw_alive (loop_turn env evs ws) = dw_alive ws"
proof -
  have p: "dw_running ((dingtalk_ws_send_ping env w)\<lparr>dw_next_ping_ms := t\<rparr>) = dw_running w"
      "dw_c ((dingtalk_ws_send_ping env w)\<lparr>dw_next_ping_ms := t\<rparr>) = dw_c w"
      "dw_alive ((dingtalk_ws_send_ping env w)\<lparr>dw_next_ping_ms := t\<rparr>) = dw_alive w" for w t
    using same_parts(6) [of w env] by (simp_all add: same_connection_def)
  show "dw_running (loop_turn env evs ws) = dw_running ws" "dw_c (loop_turn env evs ws) = dw_c ws"
      "dw_alive (loop_turn env evs ws) = dw_alive ws"
    using poll_flags(1) [OF assms(1), of env ws] poll_flags(2) [of env evs ws] assms(2) p by (auto simp: loop_turn_def Let_def)
qed

text \<open>The first poll that ends the connection.\<close>

definition ends :: "Event list \<Rightarrow> bool" where
  "ends evs \<longleftrightarrow> EvClose \<in> set evs \<or> EvError \<in> set evs"

lemma loop_done: "\<not> dw_running ws \<or> \<not> dw_alive ws \<Longrightarrow> ws_loop env polls ws = ws"
  by (cases polls) auto

lemma loop_fault:
  "dw_running ws \<Longrightarrow> dw_c ws \<Longrightarrow> dw_alive ws \<Longrightarrow> \<not> dw_fault ws \<Longrightarrow>
   dw_fault (ws_loop env polls ws) \<longleftrightarrow> (case find ends polls of Some evs \<Rightarrow> EvError \<notin> set evs | None \<Rightarrow> False)"
proof (induction polls arbitrary: ws)
  case (Cons evs polls)
  let ?w = "loop_turn env evs ws"
  have f: "dw_fault ?w \<longleftrightarrow> EvClose \<in> set evs \<and> EvError \<notin> set evs" by (rule turn_fault) (use Cons.prems in auto)
  show ?case
  proof (cases "ends evs")
    case True
    have "\<not> dw_running ?w \<or> \<not> dw_alive ?w"
    proof (cases "EvError \<in> set evs")
      case True
      then show ?thesis using poll_error [OF True, of env ws] by (simp add: loop_turn_def Let_def)
    next
      case False
      then have "EvClose \<in> set evs" using \<open>ends evs\<close> by (simp add: ends_def)
      then show ?thesis using poll_flags(2) [of env evs ws] poll_flags(1) [OF False, of env ws] Cons.prems
        by (simp add: loop_turn_def Let_def)
    qed
    then have "ws_loop env (evs # polls) ws = ?w" using Cons.prems loop_done by simp
    then show ?thesis using f True by (auto simp: ends_def)
  next
    case False
    then have e: "EvError \<notin> set evs" "EvClose \<notin> set evs" by (simp_all add: ends_def)
    have "dw_fault (ws_loop env polls ?w) \<longleftrightarrow> (case find ends polls of Some evs \<Rightarrow> EvError \<notin> set evs | None \<Rightarrow> False)"
      by (rule Cons.IH) (use Cons.prems f e turn_flags [OF e] in auto)
    then show ?thesis using False Cons.prems by simp
  qed
qed simp

text \<open>
  The loop uses the connection after the library has freed it exactly when the connection ends without an error that the library
  reports first: whatever was received before, the handler keeps the pointer when the connection closes and
  the loop looks through it for the next ping. After an error the pointer is forgotten and nothing is touched.
\<close>
theorem loop_uses_freed_iff_closed:
  assumes "dingtalk_ws_connect True (dingtalk_ws_create t) = (True, ws)"
  shows "dw_fault (dingtalk_ws_run env callback polls ws) \<longleftrightarrow>
    (case find (\<lambda>evs. EvClose \<in> set evs \<or> EvError \<in> set evs) polls of Some evs \<Rightarrow> EvError \<notin> set evs | None \<Rightarrow> False)"
proof -
  have "ends = (\<lambda>evs. EvClose \<in> set evs \<or> EvError \<in> set evs)" by (simp add: fun_eq_iff ends_def)
  moreover have "dw_fault (ws_loop env polls (ws\<lparr>dw_has_callback := callback, dw_running := True\<rparr>)) \<longleftrightarrow>
      (case find ends polls of Some evs \<Rightarrow> EvError \<notin> set evs | None \<Rightarrow> False)"
    using assms by (intro loop_fault) (auto simp: dingtalk_ws_connect_def dingtalk_ws_create_def)
  ultimately show ?thesis by (simp add: dingtalk_ws_run_def)
qed

definition demo_ding_env :: feishu_env where
  "demo_ding_env = \<lparr>fe_malloc = (\<lambda>_. True), fe_strdup = True, fe_now_ms = 0, fe_end_ms = 0, fe_parse = Map.empty, fe_print = Map.empty\<rparr>"

theorem loop_uses_freed_iff_closed_witness:
  "dw_fault (dingtalk_ws_run demo_ding_env True [[EvOpen, EvWsOpen], [EvClose]] (snd (dingtalk_ws_connect True (dingtalk_ws_create 0))))"
  using loop_uses_freed_iff_closed [of 0 "snd (dingtalk_ws_connect True (dingtalk_ws_create 0))" demo_ding_env True "[[EvOpen, EvWsOpen], [EvClose]]"]
  by (simp add: dingtalk_ws_connect_def)

section \<open>Messages that come twice\<close>

text \<open>
  A message that the service sends again is handed to the agent again, and acknowledged again: the table of messages that were
  seen, which the Feishu connection uses, is there but nothing asks it.
\<close>
theorem redelivered_message_is_new:
  assumes "fe_parse env (c_string data) = Some j" "json_string (get_object_item (Some j) ''type'') = Some ''CALLBACK''"
    and "json_string (get_object_item (Some j) ''data'') = Some d" "fe_parse env d = Some m"
    and "json_string (get_object_item (Some m) ''conversationId'') = Some conversation" "callback_text m = Some t"
    and "dw_has_callback ws" "dw_c ws"
    and "json_string (get_object_item (get_object_item (Some j) ''headers'') ''messageId'') = Some i" "fe_print env (ack_json i) = Some ack"
  shows "map (\<lambda>de. (de_conversation de, de_text de)) (dw_delivered (ws_handler env (EvText data) (ws_handler env (EvText data) ws))) =
      map (\<lambda>de. (de_conversation de, de_text de)) (dw_delivered ws) @ [(conversation, t), (conversation, t)] \<and>
    dw_sent (ws_handler env (EvText data) (ws_handler env (EvText data) ws)) = dw_sent ws @ [SentText ack, SentText ack]"
  using assms by (simp add: ws_handler_def json_message_def dingtalk_event_json_def deliver_callback_def send_text_ack_def Let_def)

definition demo_ding_data :: json where
  "demo_ding_data = JObject [(''conversationId'', JString ''c''), (''msgtype'', JString ''text''), (''text'', JObject [(''content'', JString ''hi'')])]"

definition demo_ding_event :: json where
  "demo_ding_event = JObject [(''type'', JString ''CALLBACK''), (''headers'', JObject [(''messageId'', JString ''m'')]), (''data'', JString ''d'')]"

theorem redelivered_message_is_new_witness:
  "dw_sent (ws_handler (demo_ding_env\<lparr>fe_parse := [''e'' \<mapsto> demo_ding_event, ''d'' \<mapsto> demo_ding_data], fe_print := (\<lambda>_. Some ''a'')\<rparr>) (EvText ''e'')
     (ws_handler (demo_ding_env\<lparr>fe_parse := [''e'' \<mapsto> demo_ding_event, ''d'' \<mapsto> demo_ding_data], fe_print := (\<lambda>_. Some ''a'')\<rparr>) (EvText ''e'')
       ((dingtalk_ws_create 0)\<lparr>dw_c := True, dw_has_callback := True\<rparr>))) = [SentText ''a'', SentText ''a'']"
  using redelivered_message_is_new [of "demo_ding_env\<lparr>fe_parse := [''e'' \<mapsto> demo_ding_event, ''d'' \<mapsto> demo_ding_data], fe_print := (\<lambda>_. Some ''a'')\<rparr>"
      "''e''" demo_ding_event "''d''" demo_ding_data "''c''" "''hi''" "(dingtalk_ws_create 0)\<lparr>dw_c := True, dw_has_callback := True\<rparr>" "''m''" "''a''"]
  by (simp add: demo_ding_data_def demo_ding_event_def get_object_item_def json_string_def callback_text_def c_string_def
      strcaseeq_def tolower_def isupper_def dingtalk_ws_create_def)

text \<open>A callback whose data cannot be read is not acknowledged.\<close>

lemma unreadable_callback_not_acknowledged:
  "fe_parse env (c_string data) = Some j \<Longrightarrow> json_string (get_object_item (Some j) ''type'') = Some ''CALLBACK'' \<Longrightarrow>
   Option.bind (json_string (get_object_item (Some j) ''data'')) (fe_parse env) = None \<Longrightarrow> json_message env data ws = ws"
  by (simp add: json_message_def dingtalk_event_json_def)

text \<open>A service that asks for a ping every zero seconds gets one in every turn of the loop.\<close>

lemma interval_unchecked: "dw_ping_interval_ms (set_interval (Some (JNumber 0)) ws) = 0"
  by (simp add: set_interval_def json_number_def number_valueint_def rat_trunc_def INT_MAX_def INT_MIN_def)

end
