(* ===== verification/HttpClient.thy ===== *)
theory HttpClient
  imports Config FileTools
begin

text \<open>
  The blocking HTTP client that \<open>plugins/channels/dingtalk_channel/dingtalk_channel.c\<close> and
  \<open>plugins/channels/feishu_channel/feishu_channel.c\<close> each have a copy of: a buffer for the answer, the handler that fills
  it, and three loops that poll the network library until the handler is done. The library is third-party code: a parameter says what
  each poll reports. It calls the handler once for each event and frees a connection after the event of its closing;
  \<open>hw_alive\<close> says that the connection exists, and \<open>hw_fault\<close> that freed memory was used. Memory is taken to be available.
\<close>

section \<open>Requests\<close>

record MgrDns =
  md_use_system_resolver :: bool
  md_dns4 :: "string option"
  md_dns6 :: "string option"
  md_timeout_ms :: int

text \<open>The path and the host of the request are those that the library takes from the address.\<close>

record ClientRequest =
  rq_dns :: MgrDns
  rq_url :: string
  rq_method :: string
  rq_version :: string
  rq_headers :: "(string \<times> string) list"
  rq_body :: string

definition content_length :: "string \<Rightarrow> string \<times> string" where
  "content_length body = (''Content-Length'', show_int (to_int32 (int (length body))))"

text \<open>What a channel keeps of the resolver, and what it sets in the manager of the library for a request.\<close>

record ChannelDns =
  cd_dns4 :: "string option"
  cd_dns6 :: "string option"
  cd_timeout_ms :: int
  cd_use_system_resolver :: bool

definition given :: "string option \<Rightarrow> string option \<Rightarrow> string option" where
  "given s default_val = (case s of Some (c # cs) \<Rightarrow> Some (c # cs) | _ \<Rightarrow> default_val)"

definition apply_dns_config :: "MgrDns \<Rightarrow> ChannelDns \<Rightarrow> MgrDns" where
  "apply_dns_config mgr d =
     (let mgr = mgr\<lparr>md_use_system_resolver := cd_use_system_resolver d\<rparr>
      in if cd_use_system_resolver d then mgr
         else mgr\<lparr>md_dns4 := given (cd_dns4 d) (md_dns4 mgr), md_dns6 := given (cd_dns6 d) (md_dns6 mgr),
                  md_timeout_ms := (if cd_timeout_ms d > 0 then cd_timeout_ms d else md_timeout_ms mgr)\<rparr>)"

definition channel_dns :: "DNSConfig option \<Rightarrow> ChannelDns" where
  "channel_dns cfg =
     (case cfg of
        None \<Rightarrow> \<lparr>cd_dns4 = None, cd_dns6 = None, cd_timeout_ms = 0, cd_use_system_resolver = False\<rparr>
      | Some c \<Rightarrow> \<lparr>cd_dns4 = given (dn_dns4 c) None, cd_dns6 = given (dn_dns6 c) None,
                   cd_timeout_ms = (if dn_timeout_ms c > 0 then dn_timeout_ms c else 0),
                   cd_use_system_resolver = dn_use_system_resolver c\<rparr>)"

section \<open>The answer\<close>

text \<open>
  A message is complete; a read comes with what the connection holds, of which the last \<open>n\<close> bytes are new. For a message the library calls
  its own handler first, which takes the message out of the connection, and then reports the read.
\<close>

datatype WaitEvent = GotMsg string | GotRead string nat | GotClose | GotError | GotOther

record HttpWait =
  hw_memory :: string
  hw_done :: bool
  hw_closing :: bool
  hw_alive :: bool
  hw_fault :: bool

definition wait_new :: HttpWait where
  "wait_new = \<lparr>hw_memory = [], hw_done = False, hw_closing = False, hw_alive = True, hw_fault = False\<rparr>"

definition memory_append_chunk :: "string \<Rightarrow> HttpWait \<Rightarrow> bool \<times> HttpWait" where
  "memory_append_chunk data ms =
     (if length data + length (hw_memory ms) + 1 > 2 ^ 64 - 1 then (False, ms)
      else (True, ms\<lparr>hw_memory := hw_memory ms @ data\<rparr>))"

definition finish_wait :: "HttpWait \<Rightarrow> HttpWait" where
  "finish_wait ms = ms\<lparr>hw_done := True, hw_closing := True\<rparr>"

definition answer_fn :: "WaitEvent \<Rightarrow> HttpWait \<Rightarrow> HttpWait" where
  "answer_fn ev ms =
     (case ev of
        GotMsg body \<Rightarrow> finish_wait (snd (memory_append_chunk body ms))
      | GotError \<Rightarrow> ms\<lparr>hw_done := True\<rparr>
      | _ \<Rightarrow> ms)"

text \<open>The handler of the session webhook also collects what is read before a message is complete.\<close>

definition webhook_fn :: "WaitEvent \<Rightarrow> HttpWait \<Rightarrow> HttpWait" where
  "webhook_fn ev ms =
     (case ev of
        GotMsg body \<Rightarrow> if body \<noteq> [] then finish_wait (snd (memory_append_chunk body ms)) else ms
      | GotRead recv n \<Rightarrow>
          if n > 0 \<and> n \<le> length recv
          then (case memory_append_chunk (drop (length recv - n) recv) ms of
                  (True, ms) \<Rightarrow> ms | (False, ms) \<Rightarrow> finish_wait ms)
          else ms
      | GotClose \<Rightarrow> ms\<lparr>hw_done := True\<rparr>
      | GotError \<Rightarrow> ms\<lparr>hw_done := True\<rparr>
      | GotOther \<Rightarrow> ms)"

section \<open>Waiting\<close>

definition library_step :: "(WaitEvent \<Rightarrow> HttpWait \<Rightarrow> HttpWait) \<Rightarrow> WaitEvent \<Rightarrow> HttpWait \<Rightarrow> HttpWait" where
  "library_step handler ev ms = (let ms = handler ev ms in if ev = GotClose then ms\<lparr>hw_alive := False\<rparr> else ms)"

definition poll :: "(WaitEvent \<Rightarrow> HttpWait \<Rightarrow> HttpWait) \<Rightarrow> WaitEvent list \<Rightarrow> HttpWait \<Rightarrow> HttpWait" where
  "poll handler evs ms = fold (library_step handler) evs ms"

text \<open>The connection is told to close through the pointer that the caller has kept.\<close>

definition close_kept :: "HttpWait \<Rightarrow> HttpWait" where
  "close_kept ms = (if hw_alive ms then ms\<lparr>hw_closing := True\<rparr> else ms\<lparr>hw_fault := True\<rparr>)"

text \<open>The loop without a limit; \<open>None\<close> is a loop that never ends. The result has the number of polls.\<close>

partial_function (option) wait_answer ::
  "(WaitEvent \<Rightarrow> HttpWait \<Rightarrow> HttpWait) \<Rightarrow> (nat \<Rightarrow> WaitEvent list) \<Rightarrow> nat \<Rightarrow> HttpWait \<Rightarrow> (nat \<times> HttpWait) option" where
  "wait_answer handler polls n ms =
     (if hw_done ms then Some (n, ms) else wait_answer handler polls (Suc n) (poll handler (polls n) ms))"

text \<open>The loop with a limit in milliseconds, by the clock in seconds after each poll.\<close>

definition millis :: "int \<Rightarrow> 64 word" where
  "millis seconds = word_of_int (seconds * 1000)"

partial_function (option) wait_until ::
  "(nat \<Rightarrow> int) \<Rightarrow> 64 word \<Rightarrow> (nat \<Rightarrow> WaitEvent list) \<Rightarrow> nat \<Rightarrow> HttpWait \<Rightarrow> (nat \<times> HttpWait) option" where
  "wait_until clock limit polls n ms =
     (if hw_done ms then Some (n, ms)
      else (let ms = poll answer_fn (polls n) ms
            in if millis (clock (Suc n)) - millis (clock 0) > limit then Some (Suc n, close_kept ms)
               else wait_until clock limit polls (Suc n) ms))"

text \<open>The loop of the webhook, with at most \<open>k\<close> polls.\<close>

fun wait_polls :: "(nat \<Rightarrow> WaitEvent list) \<Rightarrow> nat \<Rightarrow> nat \<Rightarrow> HttpWait \<Rightarrow> nat \<times> HttpWait" where
  "wait_polls polls 0 n ms = (n, ms)"
| "wait_polls polls (Suc k) n ms =
     (if hw_done ms then (n, ms) else wait_polls polls k (Suc n) (poll webhook_fn (polls n) ms))"

section \<open>Calls\<close>

text \<open>
  The network: whether a connection is made for a request, what each of its polls reports, what is reported when the manager is
  freed after so many polls, and the clock during the wait. Also the JSON library and the clock in milliseconds after so many requests.
\<close>

record Connection =
  cn_polls :: "nat \<Rightarrow> WaitEvent list"
  cn_at_free :: "nat \<Rightarrow> WaitEvent list"
  cn_clock :: "nat \<Rightarrow> int"

record client_env =
  ce_parse :: json_parser
  ce_print :: "json \<Rightarrow> string"
  ce_dns :: MgrDns
  ce_connect :: "ClientRequest list \<Rightarrow> ClientRequest \<Rightarrow> Connection option"
  ce_time_ms :: "nat \<Rightarrow> int"

record Net =
  nt_sent :: "ClientRequest list"
  nt_fault :: bool

definition now_ms :: "client_env \<Rightarrow> Net \<Rightarrow> int" where
  "now_ms env nt = ce_time_ms env (length (nt_sent nt))"

definition now_s :: "client_env \<Rightarrow> Net \<Rightarrow> int" where
  "now_s env nt = now_ms env nt div 1000"

text \<open>
  Freeing the manager closes a connection that is still there. When the buffer has been freed before, a message that is reported then is appended to
  freed memory.
\<close>

definition appends_freed :: "bool \<Rightarrow> WaitEvent list \<Rightarrow> HttpWait \<Rightarrow> bool" where
  "appends_freed buffer_freed evs ms \<longleftrightarrow> buffer_freed \<and> hw_alive ms \<and> list_ex (\<lambda>ev. case ev of GotMsg _ \<Rightarrow> True | _ \<Rightarrow> False) evs"

definition after_wait :: "bool \<Rightarrow> Connection \<Rightarrow> ClientRequest \<Rightarrow> Net \<Rightarrow> nat \<times> HttpWait \<Rightarrow> string option \<times> Net" where
  "after_wait buffer_freed cn rq nt r =
     (case r of (n, ms) \<Rightarrow>
        (Some (hw_memory ms),
         nt\<lparr>nt_sent := nt_sent nt @ [rq], nt_fault := nt_fault nt \<or> hw_fault ms \<or> appends_freed buffer_freed (cn_at_free cn n) ms\<rparr>))"

text \<open>The answer is \<open>None\<close> when no connection could be made.\<close>

definition http_call ::
  "client_env \<Rightarrow> (WaitEvent \<Rightarrow> HttpWait \<Rightarrow> HttpWait) \<Rightarrow> bool \<Rightarrow> ClientRequest \<Rightarrow> Net \<Rightarrow> (string option \<times> Net) option" where
  "http_call env handler buffer_freed rq nt =
     (case ce_connect env (nt_sent nt) rq of
        None \<Rightarrow> Some (None, nt)
      | Some cn \<Rightarrow> map_option (after_wait buffer_freed cn rq nt) (wait_answer handler (cn_polls cn) 0 wait_new))"

definition timed_call :: "client_env \<Rightarrow> 64 word \<Rightarrow> bool \<Rightarrow> ClientRequest \<Rightarrow> Net \<Rightarrow> (string option \<times> Net) option" where
  "timed_call env limit buffer_freed rq nt =
     (case ce_connect env (nt_sent nt) rq of
        None \<Rightarrow> Some (None, nt)
      | Some cn \<Rightarrow> map_option (after_wait buffer_freed cn rq nt) (wait_until (cn_clock cn) limit (cn_polls cn) 0 wait_new))"

definition webhook_call :: "client_env \<Rightarrow> ClientRequest \<Rightarrow> Net \<Rightarrow> string option \<times> Net" where
  "webhook_call env rq nt =
     (case ce_connect env (nt_sent nt) rq of
        None \<Rightarrow> (None, nt)
      | Some cn \<Rightarrow>
          (case wait_polls (cn_polls cn) 30 0 wait_new of
             (n, ms) \<Rightarrow> after_wait False cn rq nt (n, if n \<ge> 30 then close_kept ms else ms)))"

text \<open>The body of an upload is collected in a buffer of the same kind.\<close>

fun append_chunks :: "string list \<Rightarrow> HttpWait \<Rightarrow> HttpWait option" where
  "append_chunks [] ms = Some ms"
| "append_chunks (chunk # chunks) ms =
     (case memory_append_chunk chunk ms of (True, ms) \<Rightarrow> append_chunks chunks ms | (False, ms) \<Rightarrow> None)"

definition file_basename :: "string \<Rightarrow> string" where
  "file_basename p = (case strrchr p (CHR ''/'') of Some q \<Rightarrow> tl q | None \<Rightarrow> p)"

definition in_quotes :: "string \<Rightarrow> string" where
  "in_quotes s = CHR 0x22 # s @ [CHR 0x22]"

text \<open>The head of a file in a form.\<close>

definition file_part :: "string \<Rightarrow> string \<Rightarrow> string" where
  "file_part field_name file_name =
     ''Content-Disposition: form-data; name='' @ in_quotes field_name @ ''; filename='' @ in_quotes file_name @ crlf @
     ''Content-Type: application/octet-stream'' @ crlf @ crlf"

definition http_json :: "client_env \<Rightarrow> string option \<Rightarrow> json option" where
  "http_json env answer = (case answer of Some (c # cs) \<Rightarrow> ce_parse env (c_string (c # cs)) | _ \<Rightarrow> None)"

section \<open>When the loops end\<close>

definition answers :: "WaitEvent \<Rightarrow> bool" where
  "answers ev = (case ev of GotMsg _ \<Rightarrow> True | GotError \<Rightarrow> True | _ \<Rightarrow> False)"

lemma option_returns: "(\<exists>r. map_option f x = Some r) \<longleftrightarrow> (\<exists>r. x = Some r)"
  by (cases x) auto

lemma append_flags:
  "hw_done (snd (memory_append_chunk d ms)) = hw_done ms" "hw_alive (snd (memory_append_chunk d ms)) = hw_alive ms"
  "hw_fault (snd (memory_append_chunk d ms)) = hw_fault ms"
  by (simp_all add: memory_append_chunk_def)

lemma answer_flags:
  "hw_done (library_step answer_fn ev ms) \<longleftrightarrow> hw_done ms \<or> answers ev"
  "hw_alive (library_step answer_fn ev ms) \<longleftrightarrow> hw_alive ms \<and> ev \<noteq> GotClose"
  "hw_fault (library_step answer_fn ev ms) \<longleftrightarrow> hw_fault ms"
  by (cases ev; simp add: library_step_def answer_fn_def finish_wait_def append_flags answers_def)+

lemma wait_poll_flags:
  "hw_done (poll answer_fn evs ms) \<longleftrightarrow> hw_done ms \<or> list_ex answers evs"
  "hw_alive (poll answer_fn evs ms) \<longleftrightarrow> hw_alive ms \<and> GotClose \<notin> set evs"
  "hw_fault (poll answer_fn evs ms) \<longleftrightarrow> hw_fault ms"
  by (induction evs arbitrary: ms) (auto simp: poll_def answer_flags)

lemma wait_answer_answered: "wait_answer answer_fn polls n ms = Some r \<Longrightarrow> hw_done ms \<or> (\<exists>k\<ge>n. list_ex answers (polls k))"
proof -
  assume "wait_answer answer_fn polls n ms = Some r"
  then have "answer_fn = answer_fn \<longrightarrow> hw_done ms \<or> (\<exists>k\<ge>n. list_ex answers (polls k))"
  proof (rule wait_answer.raw_induct [where P = "\<lambda>h polls n ms r. h = answer_fn \<longrightarrow> hw_done ms \<or> (\<exists>k\<ge>n. list_ex answers (polls k))", rotated], goal_cases)
    case (1 wait h polls n ms r)
    then show ?case
    proof (cases "hw_done ms")
      case False
      then have "h = answer_fn \<longrightarrow> hw_done (poll h (polls n) ms) \<or> (\<exists>k\<ge>Suc n. list_ex answers (polls k))"
        using 1(1) [of h polls "Suc n" "poll h (polls n) ms" r] 1(2) by simp
      then show ?thesis using False by (auto simp: wait_poll_flags) (meson Suc_leD)
    qed simp
  qed
  then show ?thesis by simp
qed

lemma wait_answer_after: "list_ex answers (polls (n + d)) \<Longrightarrow> \<exists>r. wait_answer answer_fn polls n ms = Some r"
proof (induction d arbitrary: n ms)
  case 0
  then show ?case by (simp add: wait_answer.simps [of _ polls n] wait_answer.simps [of _ polls "Suc n"] wait_poll_flags)
next
  case (Suc d)
  then show ?case by (simp add: wait_answer.simps [of _ polls n])
qed

text \<open>
  Without a limit of time the call returns exactly when no connection is made, or when some poll reports a complete message or an
  error. A server that closes the connection before its answer is complete makes it wait for ever: the handler does not end the
  wait when the connection closes.
\<close>

lemma http_call_returns_iff:
  "(\<exists>r. http_call env answer_fn freed rq nt = Some r) \<longleftrightarrow>
   (case ce_connect env (nt_sent nt) rq of None \<Rightarrow> True | Some cn \<Rightarrow> \<exists>n. list_ex answers (cn_polls cn n))"
proof (cases "ce_connect env (nt_sent nt) rq")
  case (Some cn)
  have "(\<exists>r. wait_answer answer_fn (cn_polls cn) 0 wait_new = Some r) \<longleftrightarrow> (\<exists>n. list_ex answers (cn_polls cn n))"
    using wait_answer_answered [of "cn_polls cn" 0 wait_new] wait_answer_after [of "cn_polls cn" 0]
    by (auto simp: wait_new_def)
  then show ?thesis using Some by (auto simp: http_call_def option_returns)
qed (simp add: http_call_def)

lemma wait_until_after:
  "list_ex answers (polls (n + d)) \<or> millis (clock (Suc (n + d))) - millis (clock 0) > limit \<Longrightarrow>
   \<exists>r. wait_until clock limit polls n ms = Some r"
proof (induction d arbitrary: n ms)
  case 0
  then show ?case
    by (auto simp: wait_until.simps [of clock limit polls n] wait_until.simps [of clock limit polls "Suc n"] wait_poll_flags Let_def)
next
  case (Suc d)
  then have "\<exists>r. wait_until clock limit polls (Suc n) m = Some r" for m by simp
  then show ?case by (simp add: wait_until.simps [of clock limit polls n] Let_def)
qed

text \<open>With a limit the call returns as soon as the clock passes it.\<close>

lemma timed_call_returns:
  assumes "\<And>cn. ce_connect env (nt_sent nt) rq = Some cn \<Longrightarrow> \<exists>n. millis (cn_clock cn (Suc n)) - millis (cn_clock cn 0) > limit"
  shows "\<exists>r. timed_call env limit freed rq nt = Some r"
proof (cases "ce_connect env (nt_sent nt) rq")
  case (Some cn)
  then obtain n where "millis (cn_clock cn (Suc n)) - millis (cn_clock cn 0) > limit" using assms by blast
  then have "\<exists>r. wait_until (cn_clock cn) limit (cn_polls cn) 0 wait_new = Some r"
    by (intro wait_until_after [where d = n]) simp
  then show ?thesis using Some by (auto simp: timed_call_def)
qed (simp add: timed_call_def)

section \<open>A call that runs out of time\<close>

lemma poll_silent: "\<not> list_ex answers evs \<Longrightarrow> hw_memory (poll answer_fn evs ms) = hw_memory ms"
proof (induction evs arbitrary: ms)
  case (Cons ev evs)
  moreover have "hw_memory (library_step answer_fn ev ms) = hw_memory ms" if "\<not> answers ev"
    using that by (cases ev) (simp_all add: library_step_def answer_fn_def answers_def)
  ultimately show ?case by (simp add: poll_def)
qed (simp add: poll_def)

lemma wait_until_silent:
  "\<forall>j \<le> k. \<not> list_ex answers (polls (m + j)) \<Longrightarrow> \<forall>j < k. \<not> millis (clock (Suc (m + j))) - millis (clock 0) > limit \<Longrightarrow>
   millis (clock (Suc (m + k))) - millis (clock 0) > limit \<Longrightarrow> \<not> hw_done ms \<Longrightarrow> \<not> hw_fault ms \<Longrightarrow>
   \<exists>ms'. wait_until clock limit polls m ms = Some (Suc (m + k), ms') \<and> hw_memory ms' = hw_memory ms \<and>
     hw_alive ms' = (hw_alive ms \<and> (\<forall>j \<le> k. GotClose \<notin> set (polls (m + j)))) \<and> hw_fault ms' = (\<not> hw_alive ms')"
proof (induction k arbitrary: m ms)
  case 0
  let ?p = "poll answer_fn (polls m) ms"
  have "wait_until clock limit polls m ms = Some (Suc m, close_kept ?p)"
    using 0 by (simp add: wait_until.simps [of clock limit polls m] Let_def)
  moreover have "hw_memory ?p = hw_memory ms" by (rule poll_silent) (use 0 in simp)
  ultimately show ?case using 0 by (auto simp: close_kept_def wait_poll_flags)
next
  case (Suc k)
  let ?p = "poll answer_fn (polls m) ms"
  have q: "\<not> list_ex answers (polls m)" "\<not> millis (clock (Suc m)) - millis (clock 0) > limit"
    using Suc.prems(1) [rule_format, of 0] Suc.prems(2) [rule_format, of 0] by simp_all
  have p: "\<not> hw_done ?p" "\<not> hw_fault ?p" "hw_memory ?p = hw_memory ms" "hw_alive ?p = (hw_alive ms \<and> GotClose \<notin> set (polls m))"
    using q Suc.prems(4,5) poll_silent by (auto simp: wait_poll_flags)
  have "\<exists>ms'. wait_until clock limit polls (Suc m) ?p = Some (Suc (Suc m + k), ms') \<and> hw_memory ms' = hw_memory ?p \<and>
     hw_alive ms' = (hw_alive ?p \<and> (\<forall>j \<le> k. GotClose \<notin> set (polls (Suc m + j)))) \<and> hw_fault ms' = (\<not> hw_alive ms')"
    by (rule Suc.IH) (use Suc.prems(1-3) p in \<open>auto dest: spec [of _ "Suc _"]\<close>)
  moreover have "(\<forall>j \<le> Suc k. GotClose \<notin> set (polls (m + j))) \<longleftrightarrow> GotClose \<notin> set (polls m) \<and> (\<forall>j \<le> k. GotClose \<notin> set (polls (Suc m + j)))"
    by (simp add: All_less_Suc2 flip: less_Suc_eq_le)
  moreover have "wait_until clock limit polls m ms = wait_until clock limit polls (Suc m) ?p"
    using q(2) Suc.prems(4) by (simp add: wait_until.simps [of clock limit polls m] Let_def)
  ultimately show ?case using p by (metis add_Suc add_Suc_shift)
qed

text \<open>
  A call with a limit whose time runs out uses freed memory exactly when the connection has closed before, since it is told to close through the kept
  pointer, or when freeing the manager delivers what has arrived of the answer, since the buffer for it has been freed just before.
\<close>

lemma timed_out_call:
  assumes "ce_connect env (nt_sent nt) rq = Some cn" "\<forall>j \<le> k. \<not> list_ex answers (cn_polls cn j)"
    and "\<forall>j < k. \<not> millis (cn_clock cn (Suc j)) - millis (cn_clock cn 0) > limit"
    and "millis (cn_clock cn (Suc k)) - millis (cn_clock cn 0) > limit"
  shows "\<exists>nt'. timed_call env limit True rq nt = Some (Some [], nt') \<and>
    (nt_fault nt' \<longleftrightarrow> nt_fault nt \<or> (\<exists>j \<le> k. GotClose \<in> set (cn_polls cn j)) \<or> (\<exists>body. GotMsg body \<in> set (cn_at_free cn (Suc k))))"
proof -
  obtain ms where ms: "wait_until (cn_clock cn) limit (cn_polls cn) 0 wait_new = Some (Suc k, ms)" "hw_memory ms = []"
      "hw_alive ms = (\<forall>j \<le> k. GotClose \<notin> set (cn_polls cn j))" "hw_fault ms = (\<not> hw_alive ms)"
    using wait_until_silent [of k "cn_polls cn" 0 limit "cn_clock cn" wait_new] assms(2-) by (auto simp: wait_new_def)
  have "list_ex (\<lambda>ev. case ev of GotMsg _ \<Rightarrow> True | _ \<Rightarrow> False) evs \<longleftrightarrow> (\<exists>body. GotMsg body \<in> set evs)" for evs
    by (induction evs) (auto split: WaitEvent.split)
  then show ?thesis using assms(1) ms by (auto simp: timed_call_def after_wait_def appends_freed_def)
qed

section \<open>What a call sends\<close>

lemma after_wait_sent: "after_wait freed cn rq nt r = (a, nt') \<Longrightarrow> nt_sent nt' = nt_sent nt @ [rq]"
  by (auto simp: after_wait_def split: prod.splits)

text \<open>Every call sends its request, or nothing.\<close>

definition sends_only :: "(ClientRequest \<Rightarrow> bool) \<Rightarrow> Net \<Rightarrow> Net \<Rightarrow> bool" where
  "sends_only p nt nt' \<longleftrightarrow> (\<exists>rs. nt_sent nt' = nt_sent nt @ rs \<and> (\<forall>r \<in> set rs. p r))"

lemma sends_only_refl [simp]: "sends_only p nt nt" by (simp add: sends_only_def)

lemma sends_only_trans: "sends_only p a b \<Longrightarrow> sends_only p b c \<Longrightarrow> sends_only p a c"
  by (auto simp: sends_only_def)

lemma sends_only_mono: "sends_only p a b \<Longrightarrow> (\<And>r. p r \<Longrightarrow> q r) \<Longrightarrow> sends_only q a b"
  by (auto simp: sends_only_def)

lemma call_sends:
  "http_call env handler freed rq nt = Some (a, nt') \<Longrightarrow> p rq \<Longrightarrow> sends_only p nt nt'"
  "timed_call env limit freed rq nt = Some (a, nt') \<Longrightarrow> p rq \<Longrightarrow> sends_only p nt nt'"
  "webhook_call env rq nt = (a, nt') \<Longrightarrow> p rq \<Longrightarrow> sends_only p nt nt'"
  by (auto simp: sends_only_def http_call_def timed_call_def webhook_call_def split: option.splits prod.splits dest!: after_wait_sent)

text \<open>The addresses that are asked are some of a list, in its order.\<close>

definition asks :: "string list \<Rightarrow> Net \<Rightarrow> Net \<Rightarrow> bool" where
  "asks urls nt nt' \<longleftrightarrow> (\<exists>rs. nt_sent nt' = nt_sent nt @ rs \<and> subseq (map rq_url rs) urls)"

lemma asks_refl [simp]: "asks urls nt nt" by (simp add: asks_def)

lemma asks_trans: "asks us a b \<Longrightarrow> asks vs b c \<Longrightarrow> asks (us @ vs) a c"
proof -
  assume "asks us a b" "asks vs b c"
  then obtain rs ts where "nt_sent b = nt_sent a @ rs" "subseq (map rq_url rs) us" "nt_sent c = nt_sent b @ ts" "subseq (map rq_url ts) vs"
    by (auto simp: asks_def)
  then show ?thesis by (auto simp: asks_def intro!: exI [of _ "rs @ ts"] list_emb_append_mono)
qed

lemma call_asks:
  "http_call env handler freed rq nt = Some (a, nt') \<Longrightarrow> asks [rq_url rq] nt nt'"
  "timed_call env limit freed rq nt = Some (a, nt') \<Longrightarrow> asks [rq_url rq] nt nt'"
  "webhook_call env rq nt = (a, nt') \<Longrightarrow> asks [rq_url rq] nt nt'"
  by (auto simp: asks_def http_call_def timed_call_def webhook_call_def split: option.splits prod.splits dest!: after_wait_sent)

section \<open>A client of one vendor\<close>

text \<open>
  A channel that speaks to the programs of one vendor: each of its operations only sends requests that this operation may send.
\<close>

definition to_host :: "string \<Rightarrow> ClientRequest \<Rightarrow> bool" where
  "to_host host r \<longleftrightarrow> starts_with host (rq_url r)"

fun run_all :: "('a \<Rightarrow> 's \<Rightarrow> 's option) \<Rightarrow> 'a list \<Rightarrow> 's \<Rightarrow> 's option" where
  "run_all run [] s = Some s"
| "run_all run (x # xs) s = Option.bind (run x s) (run_all run xs)"

locale vendor_client =
  fixes net :: "'s \<Rightarrow> Net" and run :: "'a \<Rightarrow> 's \<Rightarrow> 's option" and may_send :: "'a \<Rightarrow> ClientRequest \<Rightarrow> bool"
  assumes run_sends: "run x s = Some s' \<Longrightarrow> sends_only (may_send x) (net s) (net s')"
begin

lemma run_all_sends: "run_all run xs s = Some s' \<Longrightarrow> sends_only (\<lambda>r. \<exists>x \<in> set xs. may_send x r) (net s) (net s')"
proof (induction xs arbitrary: s)
  case (Cons x xs)
  then obtain t where t: "run x s = Some t" "run_all run xs t = Some s'" by (auto split: Option.bind_splits)
  have "sends_only (\<lambda>r. \<exists>x \<in> set (x # xs). may_send x r) (net s) (net t)" by (rule sends_only_mono [OF run_sends [OF t(1)]]) simp
  moreover have "sends_only (\<lambda>r. \<exists>x \<in> set (x # xs). may_send x r) (net t) (net s')" by (rule sends_only_mono [OF Cons.IH [OF t(2)]]) simp
  ultimately show ?case by (rule sends_only_trans)
qed simp

lemma sent_by:
  assumes "run_all run xs s = Some s'" "nt_sent (net s) = []" "r \<in> set (nt_sent (net s'))"
  shows "\<exists>x \<in> set xs. may_send x r"
  using run_all_sends [OF assms(1)] assms(2-) by (auto simp: sends_only_def)

end

end
