(* ===== verification/DingTalkChannel.thy ===== *)
theory DingTalkChannel
  imports DingTalkWs Bus HttpClient
begin

text \<open>
  \<open>plugins/channels/dingtalk_channel/dingtalk_channel.c\<close>: the token, the receive loop around the long connection of \<open>DingTalkWs\<close>, and the
  ways of a reply: the session webhook of the message that is answered, the group, the sender. All that a reply needs to find its way is written
  into the id of the chat. A result of \<open>None\<close> is a call that never returns. Memory is taken to be available. The requests sent and the
  seconds slept are part of the state.
\<close>

section \<open>State\<close>

record DingTalkChannelData =
  dc_bus :: "MessageBus option"
  dc_running :: bool
  dc_access_token :: "string option"
  dc_token_expiry :: int
  dc_thread :: bool
  dc_client_id :: string
  dc_client_secret :: string
  dc_dns :: ChannelDns
  dc_net :: Net
  dc_sleeps :: "int list"

definition config_item :: "json option \<Rightarrow> string \<Rightarrow> string" where
  "config_item cfg key = str_or_empty (json_string (get_object_item cfg key))"

definition dingtalk_init :: "Config \<Rightarrow> MessageBus option \<Rightarrow> DingTalkChannelData" where
  "dingtalk_init config bus =
     (let cfg = Option.bind (config_get_plugin_config ''dingtalk_channel'' (cf_plugins config)) pcf_config
      in \<lparr>dc_bus = bus, dc_running = False, dc_access_token = None, dc_token_expiry = 0, dc_thread = False,
          dc_client_id = config_item cfg ''clientId'', dc_client_secret = config_item cfg ''clientSecret'',
          dc_dns = channel_dns (Some (cf_dns config)), dc_net = \<lparr>nt_sent = [], nt_fault = False\<rparr>, dc_sleeps = []\<rparr>)"

definition has_credentials :: "DingTalkChannelData \<Rightarrow> bool" where
  "has_credentials d \<longleftrightarrow> dc_client_id d \<noteq> [] \<and> dc_client_secret d \<noteq> []"

section \<open>The token\<close>

definition ding_request :: "client_env \<Rightarrow> DingTalkChannelData \<Rightarrow> string \<Rightarrow> string \<Rightarrow> (string \<times> string) list \<Rightarrow> string \<Rightarrow> ClientRequest" where
  "ding_request env d version url headers body =
     \<lparr>rq_dns = apply_dns_config (ce_dns env) (dc_dns d), rq_url = url, rq_method = ''POST'', rq_version = version,
      rq_headers = headers, rq_body = body\<rparr>"

definition token_url :: string where
  "token_url = ''https://api.dingtalk.com/v1.0/oauth2/accessToken''"

definition group_url :: string where
  "group_url = ''https://api.dingtalk.com/v1.0/robot/groupMessages/send''"

definition batch_url :: string where
  "batch_url = ''https://api.dingtalk.com/v1.0/robot/oToMessages/batchSend''"

definition open_url :: string where
  "open_url = ''https://api.dingtalk.com/v1.0/gateway/connections/open''"

definition json_type :: "string \<times> string" where
  "json_type = (''Content-Type'', ''application/json'')"

definition token_request :: "client_env \<Rightarrow> DingTalkChannelData \<Rightarrow> ClientRequest" where
  "token_request env d =
     (let body = ce_print env (JObject [(''appKey'', JString (dc_client_id d)), (''appSecret'', JString (dc_client_secret d))])
      in ding_request env d ''HTTP/1.1'' token_url
           [json_type, content_length body, (''Connection'', ''close'')] body)"

definition take_token :: "client_env \<Rightarrow> string option \<Rightarrow> DingTalkChannelData \<Rightarrow> DingTalkChannelData" where
  "take_token env answer d =
     (case json_string (get_object_item (http_json env answer) ''accessToken'') of
        None \<Rightarrow> d
      | Some t \<Rightarrow> d\<lparr>dc_access_token := Some t, dc_token_expiry := now_s env (dc_net d) + 7200\<rparr>)"

definition refresh_token :: "client_env \<Rightarrow> DingTalkChannelData \<Rightarrow> DingTalkChannelData option" where
  "refresh_token env d =
     map_option (\<lambda>(answer, nt). take_token env answer (d\<lparr>dc_net := nt\<rparr>)) (timed_call env 10000 True (token_request env d) (dc_net d))"

definition is_token_valid :: "client_env \<Rightarrow> DingTalkChannelData \<Rightarrow> bool" where
  "is_token_valid env d \<longleftrightarrow> dc_access_token d \<noteq> None \<and> now_s env (dc_net d) < dc_token_expiry d - 300"

definition with_token :: "client_env \<Rightarrow> DingTalkChannelData \<Rightarrow> DingTalkChannelData option" where
  "with_token env d = (if is_token_valid env d then Some d else refresh_token env d)"

text \<open>The text printed for a null pointer is that of the C library.\<close>

definition shown_token :: "DingTalkChannelData \<Rightarrow> string" where
  "shown_token d = (case dc_access_token d of Some t \<Rightarrow> t | None \<Rightarrow> ''(null)'')"

section \<open>Attachments\<close>

record DingTalkAttachment =
  da_type :: string
  da_path :: string
  da_url :: string
  da_duration :: int

definition infer_attachment_type :: "string \<Rightarrow> string option" where
  "infer_attachment_type p =
     (case strrchr p (CHR ''.'') of
        None \<Rightarrow> None
      | Some dot \<Rightarrow>
          (let ext = tl dot
           in if ext = [] then None
              else if list_ex (strcaseeq ext) [''jpg'', ''jpeg'', ''png'', ''gif'', ''webp'', ''bmp''] then Some ''image''
              else if list_ex (strcaseeq ext) [''mp3'', ''wav'', ''opus'', ''amr'', ''aac'', ''m4a'', ''ogg''] then Some ''audio''
              else if list_ex (strcaseeq ext) [''mp4'', ''mov'', ''mkv'', ''avi'', ''webm''] then Some ''video''
              else None))"

definition ding_attachment :: "client_env \<Rightarrow> string \<Rightarrow> DingTalkAttachment option" where
  "ding_attachment env raw =
     (if starts_with ''{'' raw
      then (case ce_parse env raw of
              None \<Rightarrow> None
            | Some j \<Rightarrow>
                (let item = (\<lambda>key. json_string (get_object_item (Some j) key))
                 in case (item ''type'', item ''path'') of
                      (Some ty, Some p) \<Rightarrow>
                        Some \<lparr>da_type = c_trunc 16 ty, da_path = c_trunc 1024 p,
                              da_url = c_trunc 2048 (str_or_empty (item ''url'')),
                              da_duration = (case json_number (get_object_item (Some j) ''duration'') of
                                               Some r \<Rightarrow> max 0 (number_valueint r) | None \<Rightarrow> 0)\<rparr>
                    | _ \<Rightarrow> None))
      else map_option (\<lambda>t. \<lparr>da_type = c_trunc 16 t, da_path = c_trunc 1024 raw, da_url = [], da_duration = 0\<rparr>)
             (infer_attachment_type raw))"

text \<open>The upload of a file. \<open>bytes\<close> is what the file holds, \<open>None\<close> when it cannot be read whole. Nothing calls these functions.\<close>

definition build_upload_body :: "string \<Rightarrow> string \<Rightarrow> string option \<Rightarrow> string option" where
  "build_upload_body boundary file_path bytes =
     Option.bind bytes (\<lambda>b. map_option hw_memory (append_chunks
       [c_trunc 2048 (''--'' @ boundary @ crlf), c_trunc 2048 (file_part ''media'' (file_basename file_path)), b, crlf,
        c_trunc 2048 (''--'' @ boundary @ ''--'' @ crlf)] wait_new))"

definition errcode_ok :: "json option \<Rightarrow> bool" where
  "errcode_ok resp \<longleftrightarrow> (case get_object_item resp ''errcode'' of Some c \<Rightarrow> json_valueint c = 0 | None \<Rightarrow> True)"

definition dingtalk_upload_attachment ::
  "client_env \<Rightarrow> DingTalkAttachment \<Rightarrow> string option \<Rightarrow> DingTalkChannelData \<Rightarrow> (string option \<times> DingTalkChannelData) option" where
  "dingtalk_upload_attachment env att bytes d =
     (let media_type = (if da_type att = ''audio'' then ''voice'' else if da_type att = ''video'' then ''video'' else ''image'');
          boundary = ''----PrimagenDingTalkBoundary''
      in case build_upload_body boundary (da_path att) bytes of
           None \<Rightarrow> Some (None, d)
         | Some body \<Rightarrow>
             map_option
               (\<lambda>(answer, nt).
                  (let resp = http_json env answer
                   in (if resp \<noteq> None \<and> errcode_ok resp then json_string (get_object_item resp ''media_id'') else None, d\<lparr>dc_net := nt\<rparr>)))
               (http_call env answer_fn False
                  (ding_request env d ''HTTP/1.0''
                     (c_trunc 1024 (''https://oapi.dingtalk.com/media/upload?access_token='' @ shown_token d @ ''&type='' @ media_type))
                     [(''Content-Type'', ''multipart/form-data; boundary='' @ boundary), content_length body] body) (dc_net d)))"

definition attachment_json :: "string \<Rightarrow> DingTalkAttachment \<Rightarrow> string \<Rightarrow> json" where
  "attachment_json conversation_id att media_id =
     (let media = (''media_id'', JString media_id)
      in JObject [(''chatid'', JString conversation_id),
           (''msg'', JObject
              (if da_type att = ''image'' then [(''msgtype'', JString ''image''), (''image'', JObject [media])]
               else if da_type att = ''audio''
               then [(''msgtype'', JString ''voice''),
                     (''voice'', JObject (media # (if da_duration att > 0 then [(''duration'', JNumber (of_int (da_duration att)))] else [])))]
               else [(''msgtype'', JString ''video''), (''video'', JObject [media])]))])"

definition dingtalk_send_attachment_message ::
  "client_env \<Rightarrow> string \<Rightarrow> DingTalkAttachment \<Rightarrow> string option \<Rightarrow> DingTalkChannelData \<Rightarrow> (bool \<times> DingTalkChannelData) option" where
  "dingtalk_send_attachment_message env conversation_id att bytes d =
     Option.bind (dingtalk_upload_attachment env att bytes d) (\<lambda>(media_id, d).
       case media_id of
         None \<Rightarrow> Some (False, d)
       | Some media_id \<Rightarrow>
           (let body = ce_print env (attachment_json conversation_id att media_id)
            in map_option
                 (\<lambda>(answer, nt). (let resp = http_json env answer in (resp \<noteq> None \<and> errcode_ok resp, d\<lparr>dc_net := nt\<rparr>)))
                 (http_call env answer_fn False
                    (ding_request env d ''HTTP/1.0'' (c_trunc 1024 (''https://oapi.dingtalk.com/chat/send?access_token='' @ shown_token d))
                       [json_type, content_length body] body) (dc_net d))))"

section \<open>The way of a reply\<close>

definition routing_info :: "string \<Rightarrow> string \<Rightarrow> string option \<Rightarrow> int \<Rightarrow> string" where
  "routing_info webhook conversation sender expired =
     (let sender_text = str_or_empty sender
      in c_trunc (length webhook + length conversation + length sender_text + 24)
           (webhook @ ''|'' @ conversation @ ''|'' @ sender_text @ ''|'' @ show_int expired))"

definition chat_id_of :: "Delivery \<Rightarrow> string" where
  "chat_id_of m =
     (case de_webhook m of
        Some (c # cs) \<Rightarrow> routing_info (c # cs) (de_conversation m) (de_sender_id m) (de_webhook_expired m)
      | _ \<Rightarrow> de_conversation m)"

definition on_dingtalk_message :: "Delivery \<Rightarrow> DingTalkChannelData \<Rightarrow> DingTalkChannelData" where
  "on_dingtalk_message m d =
     (case inbound_message_new True (Some ''dingtalk'') (Some (chat_id_of m)) (Some (de_text m)) (de_sender_name m) of
        None \<Rightarrow> d
      | Some msg \<Rightarrow>
          (case message_bus_send_inbound True (dc_bus d) msg of
             Some (bus, _) \<Rightarrow> d\<lparr>dc_bus := bus\<rparr> | None \<Rightarrow> d))"

record Route =
  rt_webhook :: "string option"
  rt_conversation :: "string option"
  rt_sender :: "string option"
  rt_expired :: int

definition upto_bar :: "string \<Rightarrow> string \<Rightarrow> string" where
  "upto_bar s bar = take (length s - length bar) s"

definition parse_route :: "string \<Rightarrow> Route" where
  "parse_route chat_id =
     (case strchr chat_id (CHR ''|'') of
        None \<Rightarrow> \<lparr>rt_webhook = None, rt_conversation = Some chat_id, rt_sender = None, rt_expired = 0\<rparr>
      | Some bar1 \<Rightarrow>
          (let webhook = upto_bar chat_id bar1; rest = tl bar1
           in case strchr rest (CHR ''|'') of
                None \<Rightarrow> \<lparr>rt_webhook = Some webhook, rt_conversation = Some rest, rt_sender = None, rt_expired = 0\<rparr>
              | Some bar2 \<Rightarrow>
                  (case strchr (tl bar2) (CHR ''|'') of
                     None \<Rightarrow> \<lparr>rt_webhook = Some webhook, rt_conversation = Some (upto_bar rest bar2), rt_sender = Some (tl bar2), rt_expired = 0\<rparr>
                   | Some bar3 \<Rightarrow>
                       \<lparr>rt_webhook = Some webhook, rt_conversation = Some (upto_bar rest bar2),
                        rt_sender = Some (upto_bar (tl bar2) bar3), rt_expired = fst (strtol (tl bar3))\<rparr>)))"

section \<open>Sending\<close>

definition webhook_json :: "string \<Rightarrow> json" where
  "webhook_json content =
     JObject [(''msgtype'', JString ''markdown''), (''markdown'', JObject [(''title'', JString ''Primagen''), (''text'', JString content)])]"

definition leading_blank :: "char \<Rightarrow> bool" where
  "leading_blank c \<longleftrightarrow> c \<in> {CHR '' '', CHR 0x0A, CHR 0x0D}"

definition sent_content :: "string \<Rightarrow> string option \<Rightarrow> string" where
  "sent_content content merged = (case merged of Some m \<Rightarrow> m | None \<Rightarrow> content)"

definition webhook_request :: "client_env \<Rightarrow> DingTalkChannelData \<Rightarrow> string \<Rightarrow> string \<Rightarrow> ClientRequest" where
  "webhook_request env d webhook content =
     (let body = ce_print env (webhook_json (dropWhile leading_blank content))
      in ding_request env d ''HTTP/1.1'' webhook
           [json_type, (''Accept'', ''*/*''), (''Connection'', ''close''), content_length body] body)"

definition webhook_accepted :: "json option \<Rightarrow> bool" where
  "webhook_accepted resp \<longleftrightarrow>
     (case resp of
        None \<Rightarrow> False
      | Some _ \<Rightarrow> (case json_number (get_object_item resp ''errcode'') of Some n \<Rightarrow> number_valueint n = 0 | None \<Rightarrow> True))"

definition dingtalk_send_via_webhook ::
  "client_env \<Rightarrow> string \<Rightarrow> string \<Rightarrow> string option \<Rightarrow> DingTalkChannelData \<Rightarrow> bool \<times> DingTalkChannelData" where
  "dingtalk_send_via_webhook env webhook content merged d =
     (case webhook_call env (webhook_request env d webhook (sent_content content merged)) (dc_net d) of
        (answer, nt) \<Rightarrow> (webhook_accepted (http_json env answer), d\<lparr>dc_net := nt\<rparr>))"

definition robot_json :: "client_env \<Rightarrow> DingTalkChannelData \<Rightarrow> string \<times> json \<Rightarrow> string \<Rightarrow> json" where
  "robot_json env d receiver content =
     JObject [(''robotCode'', JString (dc_client_id d)), receiver, (''msgKey'', JString ''sampleMarkdown''),
       (''msgParam'', JString (ce_print env (JObject [(''text'', JString content), (''title'', JString ''Primagen'')])))]"

definition robot_request :: "client_env \<Rightarrow> DingTalkChannelData \<Rightarrow> string \<Rightarrow> string \<times> json \<Rightarrow> string \<Rightarrow> ClientRequest" where
  "robot_request env d url receiver content =
     (let body = ce_print env (robot_json env d receiver content)
      in ding_request env d ''HTTP/1.0'' url [(''x-acs-dingtalk-access-token'', shown_token d), json_type, content_length body] body)"

definition code_zero :: "json option \<Rightarrow> bool" where
  "code_zero resp \<longleftrightarrow> (case get_object_item resp ''code'' of Some c \<Rightarrow> json_valueint c = 0 | None \<Rightarrow> False)"

definition dingtalk_send_via_group ::
  "client_env \<Rightarrow> string \<Rightarrow> string \<Rightarrow> string option \<Rightarrow> DingTalkChannelData \<Rightarrow> (bool \<times> DingTalkChannelData) option" where
  "dingtalk_send_via_group env conversation content merged d =
     (if conversation = [] then Some (False, d)
      else map_option
             (\<lambda>(answer, nt).
                (let resp = http_json env answer
                 in (json_string (get_object_item resp ''processQueryKey'') \<noteq> None \<or> code_zero resp, d\<lparr>dc_net := nt\<rparr>)))
             (http_call env answer_fn False
                (robot_request env d group_url
                   (''openConversationId'', JString conversation) (sent_content content merged)) (dc_net d)))"

definition dingtalk_send_via_batch ::
  "client_env \<Rightarrow> string \<Rightarrow> string \<Rightarrow> string option \<Rightarrow> DingTalkChannelData \<Rightarrow> (bool \<times> DingTalkChannelData) option" where
  "dingtalk_send_via_batch env user_id content merged d =
     (if user_id = [] then Some (False, d)
      else map_option (\<lambda>(answer, nt). (code_zero (http_json env answer), d\<lparr>dc_net := nt\<rparr>))
             (http_call env answer_fn False
                (robot_request env d batch_url
                   (''userIds'', JArray [JString user_id]) (sent_content content merged)) (dc_net d)))"

text \<open>Of the attachments only those with an address are sent: as a link at the end of the text.\<close>

definition merge_attachment :: "client_env \<Rightarrow> string \<Rightarrow> string \<Rightarrow> string option \<Rightarrow> string option" where
  "merge_attachment env content spec merged =
     (case ding_attachment env spec of
        None \<Rightarrow> merged
      | Some att \<Rightarrow>
          if da_url att = [] then merged
          else Some (sent_content content merged @ [CHR 0x0A, CHR 0x0A] @ c_trunc 4096 (''![image]('' @ da_url att @ '')'')))"

definition merged_content :: "client_env \<Rightarrow> OutboundMessage \<Rightarrow> string option" where
  "merged_content env msg = fold (merge_attachment env (out_content msg)) (sa_items (out_attachments msg)) None"

definition webhook_usable :: "client_env \<Rightarrow> DingTalkChannelData \<Rightarrow> Route \<Rightarrow> bool" where
  "webhook_usable env d r \<longleftrightarrow>
     \<not> (rt_expired r > 0 \<and> now_ms env (dc_net d) \<ge> rt_expired r) \<and>
     (case rt_webhook r of Some w \<Rightarrow> starts_with ''http'' w | None \<Rightarrow> False)"

text \<open>One way after the other, until one has succeeded.\<close>

definition try_way ::
  "string option \<Rightarrow> (string \<Rightarrow> DingTalkChannelData \<Rightarrow> (bool \<times> DingTalkChannelData) option) \<Rightarrow> bool \<times> DingTalkChannelData \<Rightarrow>
   (bool \<times> DingTalkChannelData) option" where
  "try_way receiver send r =
     (case (r, receiver) of ((False, d), Some (c # cs)) \<Rightarrow> send (c # cs) d | _ \<Rightarrow> Some r)"

definition send_ways ::
  "client_env \<Rightarrow> Route \<Rightarrow> string \<Rightarrow> string option \<Rightarrow> DingTalkChannelData \<Rightarrow> (bool \<times> DingTalkChannelData) option" where
  "send_ways env r content merged d =
     Option.bind
       (try_way (rt_conversation r) (\<lambda>c. dingtalk_send_via_group env c content merged)
          (if webhook_usable env d r then dingtalk_send_via_webhook env (the (rt_webhook r)) content merged d else (False, d)))
       (try_way (rt_sender r) (\<lambda>s. dingtalk_send_via_batch env s content merged))"

definition dingtalk_send :: "client_env \<Rightarrow> OutboundMessage \<Rightarrow> DingTalkChannelData \<Rightarrow> DingTalkChannelData option" where
  "dingtalk_send env msg d =
     (if \<not> has_credentials d \<or> out_channel msg \<noteq> ''dingtalk'' then Some d
      else Option.bind (with_token env d) (\<lambda>d.
        if dc_access_token d = None then Some d
        else (let merged = merged_content env msg
              in if out_content msg = [] \<and> merged = None then Some d
                 else map_option snd (send_ways env (parse_route (out_chat_id msg)) (out_content msg) merged d))))"

section \<open>The receive loop\<close>

text \<open>The handler of the request for the address, in \<open>dingtalk_ws.c\<close>. It does end its wait when the connection closes.\<close>

definition url_callback_fn :: "WaitEvent \<Rightarrow> HttpWait \<Rightarrow> HttpWait" where
  "url_callback_fn ev ms =
     (case ev of
        GotMsg body \<Rightarrow> (snd (memory_append_chunk body ms))\<lparr>hw_done := True\<rparr>
      | GotError \<Rightarrow> ms\<lparr>hw_done := True\<rparr>
      | GotClose \<Rightarrow> ms\<lparr>hw_done := True\<rparr>
      | _ \<Rightarrow> ms)"

definition open_headers :: "client_env \<Rightarrow> (string \<Rightarrow> string \<Rightarrow> string) \<Rightarrow> DingTalkChannelData \<Rightarrow> string \<Rightarrow> (string \<times> string) list" where
  "open_headers env hmac d body =
     (let timestamp_ms = now_ms env (dc_net d)
      in [(''Content-Type'', ''application/json; charset=utf-8''), (''x-acs-dingtalk-access-token'', str_or_empty (dc_access_token d)),
          (''x-acs-dingtalk-signature'', compute_signature hmac (dc_client_secret d) timestamp_ms),
          (''x-acs-dingtalk-timestamp'', c_trunc 32 (show_int timestamp_ms)), content_length body])"

definition dingtalk_get_ws_url ::
  "client_env \<Rightarrow> (string \<Rightarrow> string \<Rightarrow> string) \<Rightarrow> DingTalkChannelData \<Rightarrow> (string option \<times> DingTalkChannelData) option" where
  "dingtalk_get_ws_url env hmac d =
     (let body = ce_print env (open_request (Some (dc_client_id d)) (Some (dc_client_secret d)))
      in map_option
           (\<lambda>(answer, nt). (Option.bind answer (response_url (ce_parse env)), d\<lparr>dc_net := nt\<rparr>))
           (http_call env url_callback_fn True
              (ding_request env d ''HTTP/1.0'' open_url (open_headers env hmac d body) body)
              (dc_net d)))"

text \<open>
  One turn of the loop: the network, whether the library makes a websocket, what its polls report, and whether the channel is told to stop in this turn.
\<close>

record Round =
  rd_env :: client_env
  rd_hmac :: "string \<Rightarrow> string \<Rightarrow> string"
  rd_connects :: bool
  rd_ws_env :: feishu_env
  rd_polls :: "Event list list"
  rd_stopped :: bool

definition max_reconnect_attempts :: nat where
  "max_reconnect_attempts = 10"

definition reconnect_delay :: "nat \<Rightarrow> int" where
  "reconnect_delay attempt = (let delay = if attempt < 6 then 2 ^ attempt else 60 in if delay > 60 then 60 else delay)"

definition sleep_running :: "int \<Rightarrow> DingTalkChannelData \<Rightarrow> DingTalkChannelData" where
  "sleep_running seconds d = (if dc_running d then d\<lparr>dc_sleeps := dc_sleeps d @ [seconds]\<rparr> else d)"

definition count_failure :: "nat \<Rightarrow> DingTalkChannelData \<Rightarrow> nat \<times> DingTalkChannelData" where
  "count_failure attempt d =
     (if attempt + 1 \<ge> max_reconnect_attempts then (attempt + 1, d\<lparr>dc_running := False\<rparr>)
      else (attempt + 1, sleep_running (reconnect_delay (attempt + 1)) d))"

definition told_to_stop :: "Round \<Rightarrow> DingTalkChannelData \<Rightarrow> DingTalkChannelData" where
  "told_to_stop r d = (if rd_stopped r then d\<lparr>dc_running := False\<rparr> else d)"

definition run_connection :: "Round \<Rightarrow> DingTalkChannelData \<Rightarrow> DingTalkChannelData" where
  "run_connection r d =
     (let ws = dingtalk_ws_run (rd_ws_env r) True (rd_polls r)
                 (snd (dingtalk_ws_connect True (dingtalk_ws_create (fe_now_ms (rd_ws_env r)))));
          d = fold on_dingtalk_message (dw_delivered ws) d
      in d\<lparr>dc_net := (dc_net d)\<lparr>nt_fault := nt_fault (dc_net d) \<or> dw_fault ws\<rparr>\<rparr>)"

definition no_address :: "Round \<Rightarrow> nat \<Rightarrow> DingTalkChannelData \<Rightarrow> (nat \<times> DingTalkChannelData) option" where
  "no_address r attempt d =
     (if attempt + 1 \<ge> max_reconnect_attempts then Some (attempt + 1, d\<lparr>dc_running := False\<rparr>)
      else map_option (\<lambda>d. (attempt + 1, sleep_running (reconnect_delay (attempt + 1)) d)) (refresh_token (rd_env r) d))"

definition receive_turn :: "Round \<Rightarrow> nat \<Rightarrow> DingTalkChannelData \<Rightarrow> (nat \<times> DingTalkChannelData) option" where
  "receive_turn r attempt d =
     Option.bind (with_token (rd_env r) d) (\<lambda>d.
       if str_or_empty (dc_access_token d) = [] then Some (count_failure attempt (told_to_stop r d))
       else Option.bind (dingtalk_get_ws_url (rd_env r) (rd_hmac r) d) (\<lambda>(url, d).
         case url of
           None \<Rightarrow> no_address r attempt (told_to_stop r d)
         | Some _ \<Rightarrow>
             if \<not> rd_connects r then Some (count_failure attempt (told_to_stop r d))
             else (let d = told_to_stop r (run_connection r d)
                   in if dc_running d then Some (count_failure 0 d) else Some (0, d))))"

fun receive_turns :: "Round list \<Rightarrow> nat \<Rightarrow> DingTalkChannelData \<Rightarrow> (nat \<times> DingTalkChannelData) option" where
  "receive_turns [] attempt d = Some (attempt, d)"
| "receive_turns (r # rs) attempt d =
     (if \<not> dc_running d then Some (attempt, d)
      else Option.bind (receive_turn r attempt d) (\<lambda>(attempt, d). receive_turns rs attempt d))"

definition dingtalk_receive_loop :: "Round list \<Rightarrow> DingTalkChannelData \<Rightarrow> (nat \<times> DingTalkChannelData) option" where
  "dingtalk_receive_loop rs d = receive_turns rs 0 d"

section \<open>The channel\<close>

definition dingtalk_start :: "client_env \<Rightarrow> DingTalkChannelData \<Rightarrow> DingTalkChannelData option" where
  "dingtalk_start env d =
     (if dc_running d \<or> \<not> has_credentials d then Some d
      else map_option (\<lambda>d. d\<lparr>dc_thread := True\<rparr>) (refresh_token env (d\<lparr>dc_running := True\<rparr>)))"

text \<open>The thread is told to stop and waited for.\<close>

definition dingtalk_stop :: "DingTalkChannelData \<Rightarrow> DingTalkChannelData" where
  "dingtalk_stop d = d\<lparr>dc_running := False, dc_thread := False\<rparr>"

definition dingtalk_plugin_init :: "Registration list" where
  "dingtalk_plugin_init = [RegChannel ''dingtalk'' True]"

section \<open>A reply finds its way\<close>

lemma length_nat_digits: "n < 10 ^ k \<Longrightarrow> 0 < k \<Longrightarrow> length (nat_digits n) \<le> k"
proof (induction n arbitrary: k rule: nat_digits.induct)
  case (1 n)
  show ?case
  proof (cases "n < 10")
    case False
    then obtain j where j: "k = Suc j" "0 < j" using 1(2,3) by (cases k; cases "k - 1") auto
    then have "n div 10 < 10 ^ j" using 1(2) by simp
    then have "length (nat_digits (n div 10)) \<le> j" using 1(1) False j(2) by blast
    then show ?thesis using False j by (simp add: nat_digits.simps [of n])
  qed (use 1(3) in \<open>simp add: nat_digits.simps [of n]\<close>)
qed

lemma routing_info_whole:
  assumes "0 \<le> expired" "expired < 2 ^ 63"
  shows "routing_info w c s expired = w @ ''|'' @ c @ ''|'' @ str_or_empty s @ ''|'' @ show_int expired"
proof -
  have "nat expired < 10 ^ 19" using assms by simp
  then have "length (show_int expired) \<le> 19" using assms(1) by (simp add: show_int_def length_nat_digits)
  then show ?thesis by (simp add: routing_info_def Let_def c_trunc_def)
qed

lemma upto_bar_append: "upto_bar (a @ b) b = a" by (simp add: upto_bar_def)

lemma show_int_read:
  assumes "0 \<le> expired" "expired < 2 ^ 63"
  shows "fst (strtol (show_int expired)) = expired"
  using strtol_nat_digits [of "nat expired" "[]"] assms by (simp add: show_int_def LONG_MAX_def)

text \<open>
  What a message tells about its way back is read again from the id of the chat, whatever the parts are, as long as the webhook, the conversation
  and the sender contain no vertical bar. The id is as different as its parts: a message with another webhook or another expiry belongs
  to another chat, and so to a session that knows nothing of the messages before.
\<close>
theorem route_read_back:
  assumes "de_webhook m = Some w" "w \<noteq> []" "CHR ''|'' \<notin> set w" "CHR ''|'' \<notin> set (de_conversation m)"
    and "CHR ''|'' \<notin> set (str_or_empty (de_sender_id m))" "0 \<le> de_webhook_expired m" "de_webhook_expired m < 2 ^ 63"
  shows "parse_route (chat_id_of m) =
    \<lparr>rt_webhook = Some w, rt_conversation = Some (de_conversation m), rt_sender = Some (str_or_empty (de_sender_id m)),
     rt_expired = de_webhook_expired m\<rparr>"
proof -
  let ?c = "de_conversation m" and ?s = "str_or_empty (de_sender_id m)" and ?e = "show_int (de_webhook_expired m)"
  have "chat_id_of m = w @ CHR ''|'' # ?c @ CHR ''|'' # ?s @ CHR ''|'' # ?e"
    using assms routing_info_whole by (cases w) (auto simp: chat_id_of_def)
  then show ?thesis using assms(3-) by (simp add: parse_route_def strchr_append upto_bar_append Let_def show_int_read)
qed

theorem route_read_back_witness:
  "parse_route (chat_id_of \<lparr>de_conversation = ''cid'', de_text = ''hi'', de_sender_id = Some ''u1'', de_sender_name = None,
      de_webhook = Some ''https://oapi.dingtalk.com/robot/sendBySession?session=1'', de_webhook_expired = 1700000000000\<rparr>) =
    \<lparr>rt_webhook = Some ''https://oapi.dingtalk.com/robot/sendBySession?session=1'', rt_conversation = Some ''cid'', rt_sender = Some ''u1'',
     rt_expired = 1700000000000\<rparr>"
  using route_read_back [of "\<lparr>de_conversation = ''cid'', de_text = ''hi'', de_sender_id = Some ''u1'', de_sender_name = None,
      de_webhook = Some ''https://oapi.dingtalk.com/robot/sendBySession?session=1'', de_webhook_expired = 1700000000000\<rparr>"
      "''https://oapi.dingtalk.com/robot/sendBySession?session=1''"] by simp

section \<open>The requests of a reply\<close>

lemma take_token_net [simp]: "dc_net (take_token env a d) = dc_net d"
  by (simp add: take_token_def split: option.split)

lemma token_request_url: "rq_url (token_request env d) = token_url"
  by (simp add: token_request_def ding_request_def Let_def)

lemma with_token_asks: "with_token env d = Some d' \<Longrightarrow> asks [token_url] (dc_net d) (dc_net d')"
  using call_asks(2) [of env 10000 True "token_request env d"] by (auto simp: with_token_def refresh_token_def token_request_url split: if_splits)

lemma ways_ask:
  "dingtalk_send_via_webhook env w content merged d = (b, d') \<Longrightarrow> asks [w] (dc_net d) (dc_net d')"
  "dingtalk_send_via_group env c content merged d = Some (b, d') \<Longrightarrow>
     asks [group_url] (dc_net d) (dc_net d')"
  "dingtalk_send_via_batch env u content merged d = Some (b, d') \<Longrightarrow>
     asks [batch_url] (dc_net d) (dc_net d')"
  by (auto simp: dingtalk_send_via_webhook_def dingtalk_send_via_group_def dingtalk_send_via_batch_def webhook_request_def robot_request_def
      ding_request_def Let_def split: prod.splits if_splits dest!: call_asks)

lemma try_way_simps [simp]:
  "try_way None send r = Some r" "try_way (Some []) send r = Some r" "try_way receiver send (True, d) = Some (True, d)"
  "c \<noteq> [] \<Longrightarrow> try_way (Some c) send (False, d) = send c d"
  by (auto simp: try_way_def split: option.split list.split bool.split prod.split)

lemma try_way_asks:
  assumes "try_way receiver send (b, d) = Some (b', d')" "\<And>x d b' d'. send x d = Some (b', d') \<Longrightarrow> asks us (dc_net d) (dc_net d')"
  shows "asks us (dc_net d) (dc_net d')"
  using assms by (auto simp: try_way_def split: bool.splits option.splits list.splits)

text \<open>
  A reply asks at most four addresses, each at most once and in a fixed order: for a new token, the webhook that the chat id names, the group,
  the sender.
\<close>
theorem reply_ways_in_order:
  assumes "dingtalk_send env msg d = Some d'"
  shows "asks (token_url #
      (case rt_webhook (parse_route (out_chat_id msg)) of Some w \<Rightarrow> [w] | None \<Rightarrow> []) @
      [group_url, batch_url])
    (dc_net d) (dc_net d')"
proof -
  let ?r = "parse_route (out_chat_id msg)" and ?t = "[token_url]"
    and ?g = "[group_url]" and ?b = "[batch_url]"
  let ?w = "case rt_webhook ?r of Some w \<Rightarrow> [w] | None \<Rightarrow> []"
  have "asks (?w @ ?g @ ?b) (dc_net e) (dc_net e')" if w: "send_ways env ?r content merged e = Some (ok, e')" for e e' ok content merged
  proof -
    obtain ok1 e1 where e1: "(if webhook_usable env e ?r then dingtalk_send_via_webhook env (the (rt_webhook ?r)) content merged e
        else (False, e)) = (ok1, e1)" by fastforce
    then obtain ok2 e2 where e2: "try_way (rt_conversation ?r) (\<lambda>c. dingtalk_send_via_group env c content merged) (ok1, e1) = Some (ok2, e2)"
        "try_way (rt_sender ?r) (\<lambda>s. dingtalk_send_via_batch env s content merged) (ok2, e2) = Some (ok, e')"
      using w by (auto simp: send_ways_def split: Option.bind_splits)
    have "asks ?w (dc_net e) (dc_net e1)"
      using e1 ways_ask(1) by (auto simp: webhook_usable_def split: if_splits option.splits)
    moreover have "asks ?g (dc_net e1) (dc_net e2)" by (rule try_way_asks [OF e2(1)]) (rule ways_ask(2))
    moreover have "asks ?b (dc_net e2) (dc_net e')" by (rule try_way_asks [OF e2(2)]) (rule ways_ask(3))
    ultimately show ?thesis using asks_trans by blast
  qed
  then have ways: "asks (?w @ ?g @ ?b) (dc_net e) (dc_net e')" if "map_option snd (send_ways env ?r content merged e) = Some e'" for e e' content merged
    using that by auto
  have "asks (?t @ (?w @ ?g @ ?b)) (dc_net d) (dc_net d')"
  proof (cases "\<not> has_credentials d \<or> out_channel msg \<noteq> ''dingtalk''")
    case True
    then show ?thesis using assms by (simp add: dingtalk_send_def)
  next
    case False
    then obtain e where e: "with_token env d = Some e"
      using assms by (auto simp: dingtalk_send_def split: Option.bind_splits)
    then have "asks (?w @ ?g @ ?b) (dc_net e) (dc_net d')"
      using assms False ways by (auto simp: dingtalk_send_def Let_def split: if_splits simp del: map_option_eq_Some)
    then show ?thesis using with_token_asks [OF e] asks_trans by blast
  qed
  then show ?thesis by simp
qed

section \<open>How long the channel tries\<close>

definition same_loop :: "DingTalkChannelData \<Rightarrow> DingTalkChannelData \<Rightarrow> bool" where
  "same_loop d d' \<longleftrightarrow> dc_running d' = dc_running d \<and> dc_sleeps d' = dc_sleeps d"

lemma same_loop_token: "refresh_token env d = Some d' \<Longrightarrow> same_loop d d'" "with_token env d = Some d' \<Longrightarrow> same_loop d d'"
  by (auto simp: with_token_def refresh_token_def take_token_def same_loop_def split: if_splits option.splits)

lemma same_loop_url: "dingtalk_get_ws_url env hmac d = Some (u, d') \<Longrightarrow> same_loop d d'"
  by (auto simp: dingtalk_get_ws_url_def Let_def same_loop_def)

lemma same_loop_message: "same_loop d (fold on_dingtalk_message ms d)"
proof (induction ms arbitrary: d)
  case (Cons m ms)
  have "same_loop d (on_dingtalk_message m d)"
    by (auto simp: on_dingtalk_message_def same_loop_def split: option.split)
  then show ?case using Cons.IH [of "on_dingtalk_message m d"] by (simp add: same_loop_def)
qed (simp add: same_loop_def)

lemma run_connection_flags: "dc_running (run_connection r d) = dc_running d" "dc_sleeps (run_connection r d) = dc_sleeps d"
  by (simp_all add: run_connection_def Let_def same_loop_message [unfolded same_loop_def])

definition failed_once :: "nat \<Rightarrow> DingTalkChannelData \<Rightarrow> DingTalkChannelData \<Rightarrow> bool" where
  "failed_once attempt d d' \<longleftrightarrow>
     (if attempt + 1 \<ge> 10 then \<not> dc_running d' \<and> dc_sleeps d' = dc_sleeps d
      else dc_running d' \<and> dc_sleeps d' = dc_sleeps d @ [reconnect_delay (attempt + 1)])"

lemma count_failure_failed: "dc_running e \<Longrightarrow> same_loop d e \<Longrightarrow> failed_once attempt d (snd (count_failure attempt e))"
  by (auto simp: count_failure_def failed_once_def same_loop_def sleep_running_def max_reconnect_attempts_def)

lemma count_failure_attempt: "fst (count_failure attempt e) = attempt + 1"
  by (simp add: count_failure_def)

lemma failing_turn:
  assumes "receive_turn r attempt d = Some (attempt', d')" "dc_running d" "\<not> rd_connects r" "\<not> rd_stopped r"
  shows "attempt' = attempt + 1 \<and> failed_once attempt d d'"
proof -
  obtain e where e: "with_token (rd_env r) d = Some e" using assms(1) by (auto simp: receive_turn_def split: Option.bind_splits)
  have se: "same_loop d e" by (rule same_loop_token(2) [OF e])
  have stop: "told_to_stop r x = x" for x using assms(4) by (simp add: told_to_stop_def)
  show ?thesis
  proof (cases "str_or_empty (dc_access_token e) = []")
    case True
    then have "count_failure attempt e = (attempt', d')" using assms(1) e by (simp add: receive_turn_def stop)
    then show ?thesis using count_failure_failed [of e d attempt] count_failure_attempt [of attempt e] se assms(2) by (simp add: same_loop_def)
  next
    case False
    then obtain u f where f: "dingtalk_get_ws_url (rd_env r) (rd_hmac r) e = Some (u, f)"
      using assms(1) e by (auto simp: receive_turn_def split: Option.bind_splits)
    have sf: "same_loop d f" using same_loop_url [OF f] se by (simp add: same_loop_def)
    show ?thesis
    proof (cases u)
      case None
      then have n: "no_address r attempt f = Some (attempt', d')" using assms(1) e f False by (simp add: receive_turn_def stop)
      show ?thesis
      proof (cases "attempt + 1 \<ge> max_reconnect_attempts")
        case True
        then show ?thesis using n sf assms(2) by (auto simp: no_address_def failed_once_def same_loop_def max_reconnect_attempts_def)
      next
        case False
        then obtain g where "refresh_token (rd_env r) f = Some g" "d' = sleep_running (reconnect_delay (attempt + 1)) g" "attempt' = attempt + 1"
          using n by (auto simp: no_address_def)
        then show ?thesis using same_loop_token(1) [of "rd_env r" f g] sf False assms(2)
          by (auto simp: failed_once_def same_loop_def max_reconnect_attempts_def sleep_running_def)
      qed
    next
      case (Some url)
      then have "count_failure attempt f = (attempt', d')" using assms(1,3) e f False by (simp add: receive_turn_def stop)
      then show ?thesis using count_failure_failed [of f d attempt] count_failure_attempt [of attempt f] sf assms(2) by (simp add: same_loop_def)
    qed
  qed
qed

lemma stopped_turns: "\<not> dc_running d \<Longrightarrow> receive_turns rs attempt d = Some (attempt, d)"
  by (cases rs) auto

lemma failing_turns:
  "receive_turns rs attempt d = Some (attempt', d') \<Longrightarrow> dc_running d \<Longrightarrow> \<forall>r \<in> set rs. \<not> rd_connects r \<and> \<not> rd_stopped r \<Longrightarrow>
   attempt < 10 \<Longrightarrow> 10 \<le> attempt + length rs \<Longrightarrow>
   \<not> dc_running d' \<and> attempt' = 10 \<and> dc_sleeps d' = dc_sleeps d @ map reconnect_delay [attempt + 1..<10]"
proof (induction rs arbitrary: attempt d)
  case (Cons r rs)
  obtain a e where e: "receive_turn r attempt d = Some (a, e)" and rest: "receive_turns rs a e = Some (attempt', d')"
    using Cons.prems(1,2) by (auto split: Option.bind_splits)
  have f: "a = attempt + 1" "failed_once attempt d e" using failing_turn [OF e Cons.prems(2)] Cons.prems(3) by auto
  show ?case
  proof (cases "attempt + 1 \<ge> 10")
    case True
    then have "\<not> dc_running e" "dc_sleeps e = dc_sleeps d" using f by (simp_all add: failed_once_def)
    then show ?thesis using rest stopped_turns [of e rs a] f(1) True Cons.prems(4) by simp
  next
    case False
    then have "dc_running e" "dc_sleeps e = dc_sleeps d @ [reconnect_delay (attempt + 1)]" using f by (simp_all add: failed_once_def)
    moreover have "\<not> dc_running d' \<and> attempt' = 10 \<and> dc_sleeps d' = dc_sleeps e @ map reconnect_delay [a + 1..<10]"
      by (rule Cons.IH [OF rest]) (use calculation Cons.prems f False in auto)
    moreover have "[attempt + 1..<10] = (attempt + 1) # [a + 1..<10]" using False f(1) by (simp add: upt_conv_Cons)
    ultimately show ?thesis by simp
  qed
qed simp

text \<open>
  When no turn of the loop gets as far as a connection, the tenth failure in a row stops the channel for good, after pauses of 2, 4, 8, 16 and 32 seconds and then
  four of a minute. It does not matter at which step the turns fail.
\<close>
theorem failing_channel_stops:
  assumes "dingtalk_receive_loop rs d = Some (attempt, d')" "dc_running d" "10 \<le> length rs"
    and "\<forall>r \<in> set rs. \<not> rd_connects r \<and> \<not> rd_stopped r"
  shows "\<not> dc_running d' \<and> dc_sleeps d' = dc_sleeps d @ [2, 4, 8, 16, 32, 60, 60, 60, 60]"
proof -
  have "map reconnect_delay [0 + 1..<10] = [2, 4, 8, 16, 32, 60, 60, 60, 60]"
    by (simp add: upt_rec [of _ "10::nat"] numeral_eq_Suc reconnect_delay_def Let_def)
  then show ?thesis using failing_turns [of rs 0 d attempt d'] assms by (simp add: dingtalk_receive_loop_def)
qed

text \<open>A network that answers with nothing, and a channel on it.\<close>

definition no_net :: client_env where
  "no_net = \<lparr>ce_parse = Map.empty, ce_print = (\<lambda>_. []), ce_dns = \<lparr>md_use_system_resolver = False, md_dns4 = None, md_dns6 = None, md_timeout_ms = 3000\<rparr>,
     ce_connect = (\<lambda>_ _. None), ce_time_ms = (\<lambda>_. 0)\<rparr>"

definition demo_ding :: DingTalkChannelData where
  "demo_ding = \<lparr>dc_bus = None, dc_running = True, dc_access_token = None, dc_token_expiry = 0, dc_thread = True, dc_client_id = ''id'',
     dc_client_secret = ''secret'', dc_dns = channel_dns None, dc_net = \<lparr>nt_sent = [], nt_fault = False\<rparr>, dc_sleeps = []\<rparr>"

definition demo_round :: "client_env \<Rightarrow> bool \<Rightarrow> Round" where
  "demo_round env connects =
     \<lparr>rd_env = env, rd_hmac = (\<lambda>_ _. []), rd_connects = connects, rd_ws_env = demo_ding_env, rd_polls = [[EvClose]], rd_stopped = False\<rparr>"

lemma no_net_turn:
  "dc_access_token d = None \<Longrightarrow> receive_turn (demo_round no_net False) attempt d = Some (count_failure attempt d)"
  by (simp add: receive_turn_def demo_round_def with_token_def is_token_valid_def refresh_token_def timed_call_def no_net_def take_token_def
      http_json_def get_object_item_def json_string_def told_to_stop_def)

lemma count_failure_token [simp]: "dc_access_token (snd (count_failure a d)) = dc_access_token d"
  by (simp add: count_failure_def sleep_running_def)

lemma no_net_turns: "dc_access_token d = None \<Longrightarrow> \<exists>a d'. receive_turns (replicate n (demo_round no_net False)) attempt d = Some (a, d')"
proof (induction n arbitrary: attempt d)
  case (Suc n)
  then show ?case using Suc.IH [of "snd (count_failure attempt d)" "fst (count_failure attempt d)"]
    by (auto simp: no_net_turn split_beta)
qed simp

theorem failing_channel_stops_witness:
  "\<not> dc_running (snd (the (dingtalk_receive_loop (replicate 10 (demo_round no_net False)) demo_ding))) \<and>
   dc_sleeps (snd (the (dingtalk_receive_loop (replicate 10 (demo_round no_net False)) demo_ding))) = [2, 4, 8, 16, 32, 60, 60, 60, 60]"
proof -
  have "dc_access_token demo_ding = None" by (simp add: demo_ding_def)
  then obtain a d' where d': "dingtalk_receive_loop (replicate 10 (demo_round no_net False)) demo_ding = Some (a, d')"
    using no_net_turns [of demo_ding 10 0] by (auto simp: dingtalk_receive_loop_def)
  have "dc_running demo_ding" "dc_sleeps demo_ding = []" by (simp_all add: demo_ding_def)
  then show ?thesis using failing_channel_stops [OF d'] d' by (auto simp: demo_round_def)
qed

text \<open>A turn whose requests are answered.\<close>

definition gets_address :: "Round \<Rightarrow> DingTalkChannelData \<Rightarrow> bool" where
  "gets_address r d \<longleftrightarrow>
     (case with_token (rd_env r) d of
        None \<Rightarrow> False
      | Some e \<Rightarrow>
          str_or_empty (dc_access_token e) \<noteq> [] \<and>
          (case dingtalk_get_ws_url (rd_env r) (rd_hmac r) e of Some (Some _, _) \<Rightarrow> True | _ \<Rightarrow> False))"

lemma get_ws_url_token: "dingtalk_get_ws_url env hmac d = Some (u, d') \<Longrightarrow> dc_access_token d' = dc_access_token d"
  by (auto simp: dingtalk_get_ws_url_def Let_def)

lemma messages_token: "dc_access_token (fold on_dingtalk_message ms d) = dc_access_token d"
proof (induction ms arbitrary: d)
  case (Cons m ms)
  have "dc_access_token (on_dingtalk_message m d) = dc_access_token d" by (auto simp: on_dingtalk_message_def split: option.split)
  then show ?case by (simp add: Cons.IH)
qed simp

lemma run_connection_token: "dc_access_token (run_connection r d) = dc_access_token d"
  by (simp add: run_connection_def Let_def messages_token)

lemma connected_turn:
  assumes "gets_address r d" "dc_running d" "rd_connects r" "\<not> rd_stopped r"
  shows "\<exists>d'. receive_turn r attempt d = Some (1, d') \<and> dc_running d' \<and> dc_sleeps d' = dc_sleeps d @ [2] \<and> dc_access_token d' \<noteq> Some []"
proof -
  obtain e u f where e: "with_token (rd_env r) d = Some e" "str_or_empty (dc_access_token e) \<noteq> []"
      "dingtalk_get_ws_url (rd_env r) (rd_hmac r) e = Some (Some u, f)"
    using assms(1) by (auto simp: gets_address_def split: option.splits)
  let ?g = "run_connection r f"
  have "same_loop d f" using same_loop_token(2) [OF e(1)] same_loop_url [OF e(3)] by (simp add: same_loop_def)
  then have g: "dc_running ?g" "dc_sleeps ?g = dc_sleeps d" using assms(2) by (simp_all add: run_connection_flags same_loop_def)
  have "dc_access_token ?g \<noteq> Some []" using e(2) get_ws_url_token [OF e(3)] by (auto simp: run_connection_token)
  moreover have "receive_turn r attempt d = Some (count_failure 0 ?g)"
    using e assms(3,4) g(1) by (simp add: receive_turn_def told_to_stop_def Let_def)
  moreover have "count_failure 0 ?g = (1, ?g\<lparr>dc_sleeps := dc_sleeps d @ [2]\<rparr>)"
    using g by (simp add: count_failure_def max_reconnect_attempts_def sleep_running_def reconnect_delay_def)
  ultimately show ?thesis using g by simp
qed

lemma connected_turns:
  "dc_running d \<Longrightarrow> dc_access_token d \<noteq> Some [] \<Longrightarrow>
   \<forall>r \<in> set rs. rd_connects r \<and> \<not> rd_stopped r \<and> (\<forall>d. dc_access_token d \<noteq> Some [] \<longrightarrow> gets_address r d) \<Longrightarrow>
   \<exists>a d'. receive_turns rs attempt d = Some (a, d') \<and> dc_running d' \<and> dc_sleeps d' = dc_sleeps d @ replicate (length rs) 2"
proof (induction rs arbitrary: attempt d)
  case (Cons r rs)
  then obtain e where e: "receive_turn r attempt d = Some (1, e)" "dc_running e" "dc_sleeps e = dc_sleeps d @ [2]" "dc_access_token e \<noteq> Some []"
    using connected_turn [of r d attempt] by auto
  then show ?case using Cons.IH [of e 1] Cons.prems by auto
qed simp

text \<open>
  As long as the service gives out addresses, the channel never stops by itself, however often its connection fails: the library makes the websocket before
  anything is sent, the loop takes that for a connection and counts from the beginning. It tries again every 2 seconds, without the longer pauses and without the
  limit of ten attempts that it has for other failures. What the polls report makes no difference.
\<close>
theorem lost_connections_are_not_counted:
  assumes "dc_running d" "dc_access_token d \<noteq> Some []"
    and "\<forall>r \<in> set rs. rd_connects r \<and> \<not> rd_stopped r \<and> (\<forall>d. dc_access_token d \<noteq> Some [] \<longrightarrow> gets_address r d)"
  shows "\<exists>attempt d'. dingtalk_receive_loop rs d = Some (attempt, d') \<and> dc_running d' \<and> dc_sleeps d' = dc_sleeps d @ replicate (length rs) 2"
  using connected_turns [OF assms] by (simp add: dingtalk_receive_loop_def)

text \<open>A network where every request is answered with the same text.\<close>

definition answering_net :: "json \<Rightarrow> client_env" where
  "answering_net j = no_net\<lparr>ce_parse := (\<lambda>_. Some j),
     ce_connect := (\<lambda>_ _. Some \<lparr>cn_polls = (\<lambda>_. [GotMsg ''{}'']), cn_at_free = (\<lambda>_. []), cn_clock = (\<lambda>_. 0)\<rparr>)\<rparr>"

definition open_answer :: json where
  "open_answer = JObject [(''accessToken'', JString ''t''), (''endpoint'', JString ''wss://e''), (''ticket'', JString ''k'')]"

lemma answering_calls:
  "timed_call (answering_net j) limit freed rq nt = Some (Some ''{}'', nt\<lparr>nt_sent := nt_sent nt @ [rq]\<rparr>)"
  "http_call (answering_net j) url_callback_fn freed rq nt = Some (Some ''{}'', nt\<lparr>nt_sent := nt_sent nt @ [rq]\<rparr>)"
  by (simp_all add: timed_call_def http_call_def answering_net_def wait_until.simps wait_answer.simps poll_def library_step_def answer_fn_def url_callback_fn_def
      memory_append_chunk_def finish_wait_def wait_new_def after_wait_def appends_freed_def millis_def Let_def)

lemma open_answer_url: "response_url (\<lambda>_. Some open_answer) ''{}'' = Some ''wss://e?ticket=k''"
  by (simp add: response_url_def c_string_def has_ticket_def ticket_url_def open_answer_def get_object_item_def json_string_def strcaseeq_def tolower_def isupper_def c_trunc_def)

lemma demo_gets_address: "dc_access_token d \<noteq> Some [] \<Longrightarrow> gets_address (demo_round (answering_net open_answer) True) d"
proof -
  assume d: "dc_access_token d \<noteq> Some []"
  have j: "json_string (get_object_item (http_json (answering_net open_answer) (Some ''{}'')) ''accessToken'') = Some ''t''"
    by (simp add: http_json_def answering_net_def open_answer_def get_object_item_def json_string_def)
  then have "take_token (answering_net open_answer) (Some ''{}'') e =
      e\<lparr>dc_access_token := Some ''t'', dc_token_expiry := now_s (answering_net open_answer) (dc_net e) + 7200\<rparr>" for e
    by (simp add: take_token_def)
  then have t: "str_or_empty (dc_access_token e) \<noteq> []" if "with_token (answering_net open_answer) d = Some e" for e
    using that d by (auto simp: with_token_def is_token_valid_def refresh_token_def answering_calls split: if_splits)
  have "with_token (answering_net open_answer) d \<noteq> None"
    by (simp add: with_token_def refresh_token_def answering_calls)
  moreover have "\<exists>u f. dingtalk_get_ws_url (answering_net open_answer) hmac e = Some (Some u, f)" for hmac e
    using open_answer_url by (simp add: dingtalk_get_ws_url_def Let_def answering_calls) (simp add: answering_net_def)
  ultimately show ?thesis using t by (fastforce simp: gets_address_def demo_round_def split: option.split)
qed

theorem lost_connections_are_not_counted_witness:
  "\<exists>attempt d'. dingtalk_receive_loop (replicate 100 (demo_round (answering_net open_answer) True)) demo_ding = Some (attempt, d') \<and>
     dc_running d' \<and> dc_sleeps d' = replicate 100 2"
proof -
  have "rd_connects (demo_round env True)" "\<not> rd_stopped (demo_round env True)" for env by (simp_all add: demo_round_def)
  moreover have "dc_running demo_ding" "dc_access_token demo_ding = None" "dc_sleeps demo_ding = []" by (simp_all add: demo_ding_def)
  ultimately show ?thesis
    using lost_connections_are_not_counted [of demo_ding "replicate 100 (demo_round (answering_net open_answer) True)"] demo_gets_address
    by simp
qed

section \<open>An answer in pieces\<close>

lemma append_chunk_prefix: "prefix (hw_memory ms) (hw_memory (snd (memory_append_chunk t ms)))"
  by (simp add: memory_append_chunk_def)

lemma webhook_step_prefix: "prefix (hw_memory ms) (hw_memory (library_step webhook_fn ev ms))"
proof -
  have "prefix (hw_memory ms) (hw_memory m)" if "memory_append_chunk t ms = (b, m)" for t b m
    using append_chunk_prefix [of ms t] that by simp
  then show ?thesis
    by (auto simp: library_step_def webhook_fn_def finish_wait_def append_chunk_prefix split: WaitEvent.split prod.split bool.split)
qed

lemma webhook_poll_prefix: "prefix (hw_memory ms) (hw_memory (poll webhook_fn evs ms))"
proof (induction evs arbitrary: ms)
  case (Cons ev evs)
  then show ?case using webhook_step_prefix prefix_order.trans by (fastforce simp: poll_def)
qed (simp add: poll_def)

lemma wait_polls_prefix: "prefix (hw_memory ms) (hw_memory (snd (wait_polls polls fuel n ms)))"
proof (induction fuel arbitrary: n ms)
  case (Suc fuel)
  then show ?case using webhook_poll_prefix prefix_order.trans by fastforce
qed simp

definition only_other :: "WaitEvent list \<Rightarrow> bool" where
  "only_other evs \<longleftrightarrow> (\<forall>ev \<in> set evs. ev = GotOther)"

lemma poll_other: "only_other evs \<Longrightarrow> poll webhook_fn evs ms = ms"
  by (induction evs arbitrary: ms) (auto simp: poll_def only_other_def library_step_def webhook_fn_def)

lemma wait_polls_collects:
  "\<forall>j < k. only_other (polls (m + j)) \<Longrightarrow> polls (m + k) = GotRead recv n # evs \<Longrightarrow> k < fuel \<Longrightarrow> 0 < n \<Longrightarrow> n \<le> length recv \<Longrightarrow>
   length recv < 2 ^ 63 \<Longrightarrow> \<not> hw_done ms \<Longrightarrow> hw_memory ms = [] \<Longrightarrow>
   prefix (drop (length recv - n) recv) (hw_memory (snd (wait_polls polls fuel m ms)))"
proof (induction k arbitrary: m fuel)
  case 0
  let ?t = "drop (length recv - n) recv"
  have "library_step webhook_fn (GotRead recv n) ms = ms\<lparr>hw_memory := ?t\<rparr>"
    using 0 by (simp add: library_step_def webhook_fn_def memory_append_chunk_def)
  then have "prefix ?t (hw_memory (poll webhook_fn (polls m) ms))"
    using webhook_poll_prefix [of "ms\<lparr>hw_memory := ?t\<rparr>" evs] 0(2) by (simp add: poll_def)
  then show ?case using 0 wait_polls_prefix prefix_order.trans by (cases fuel) fastforce+
next
  case (Suc k)
  then obtain f where f: "fuel = Suc f" by (cases fuel) auto
  have "poll webhook_fn (polls m) ms = ms" using poll_other Suc.prems(1) by (metis add_0_right zero_less_Suc)
  moreover have "prefix (drop (length recv - n) recv) (hw_memory (snd (wait_polls polls f (Suc m) ms)))"
    by (rule Suc.IH) (use Suc.prems f in auto)
  ultimately show ?case using f Suc.prems(7) by simp
qed

lemma http_head_prefix: "starts_with ''HTTP/'' t \<Longrightarrow> prefix t u \<Longrightarrow> starts_with ''HTTP/'' (c_string u) \<and> u \<noteq> []"
  by (auto simp: starts_with_prefix prefix_def c_string_def)

lemma split_answer_rejected:
  assumes "ce_connect env (nt_sent (dc_net d)) (webhook_request env d w (sent_content content merged)) = Some cn"
    and "k < 30" "\<forall>j < k. only_other (cn_polls cn j)" "cn_polls cn k = GotRead recv n # evs" "n \<le> length recv" "length recv < 2 ^ 63"
    and "starts_with ''HTTP/'' (drop (length recv - n) recv)" "\<And>t. starts_with ''HTTP/'' t \<Longrightarrow> ce_parse env t = None"
  shows "\<exists>nt. dingtalk_send_via_webhook env w content merged d = (False, d\<lparr>dc_net := nt\<rparr>) \<and>
    nt_sent nt = nt_sent (dc_net d) @ [webhook_request env d w (sent_content content merged)]"
proof -
  have "0 < n" using assms(7) by (cases n) (auto simp: starts_with_def)
  then have p: "prefix (drop (length recv - n) recv) (hw_memory (snd (wait_polls (cn_polls cn) 30 0 wait_new)))"
    using assms(2-6) by (intro wait_polls_collects [of k _ 0]) (auto simp: wait_new_def)
  obtain i ms where w: "wait_polls (cn_polls cn) 30 0 wait_new = (i, ms)" by fastforce
  have "starts_with ''HTTP/'' (c_string (hw_memory ms)) \<and> hw_memory ms \<noteq> []" using http_head_prefix [OF assms(7)] p w by simp
  then have "http_json env (Some (hw_memory ms)) = None" using assms(8) by (auto simp: http_json_def split: list.split)
  moreover have "hw_memory (close_kept ms) = hw_memory ms" by (simp add: close_kept_def)
  then obtain nt where "webhook_call env (webhook_request env d w (sent_content content merged)) (dc_net d) = (Some (hw_memory ms), nt)"
      "nt_sent nt = nt_sent (dc_net d) @ [webhook_request env d w (sent_content content merged)]"
    using assms(1) w by (simp add: webhook_call_def after_wait_def)
  ultimately show ?thesis by (intro exI [of _ nt]) (simp add: dingtalk_send_via_webhook_def webhook_accepted_def)
qed

lemma robot_request_net [simp]: "robot_request env (d\<lparr>dc_net := nt\<rparr>) url receiver content = robot_request env d url receiver content"
  by (simp add: robot_request_def robot_json_def ding_request_def shown_token_def)

text \<open>
  Claim C15. The webhook sends its answer without telling its length, or the answer comes in two reads, and then the handler has collected the head of the answer when the body
  comes. That is not JSON, so the reply counts as not sent although it has arrived, and it is sent to the group as well: everybody in the conversation
  reads it twice. The parser is only required to refuse a text that starts with the first line of an answer.
\<close>
theorem split_answer_is_sent_twice:
  assumes "dingtalk_send env msg d = Some d'" "has_credentials d" "out_channel msg = ''dingtalk''" "is_token_valid env d" "out_content msg \<noteq> []"
    and r: "r = parse_route (out_chat_id msg)" "webhook_usable env d r" "rt_webhook r = Some w" "rt_conversation r = Some c" "c \<noteq> []"
    and sent: "content = sent_content (out_content msg) (merged_content env msg)"
    and cn: "ce_connect env (nt_sent (dc_net d)) (webhook_request env d w content) = Some cn"
    and reads: "k < 30" "\<forall>j < k. only_other (cn_polls cn j)" "cn_polls cn k = GotRead recv n # evs" "n \<le> length recv" "length recv < 2 ^ 63"
      "starts_with ''HTTP/'' (drop (length recv - n) recv)"
    and json: "\<And>t. starts_with ''HTTP/'' t \<Longrightarrow> ce_parse env t = None"
    and group: "ce_connect env (nt_sent (dc_net d) @ [webhook_request env d w content])
      (robot_request env d group_url (''openConversationId'', JString c) content) \<noteq> None"
  shows "\<exists>rs. nt_sent (dc_net d') =
    nt_sent (dc_net d) @ webhook_request env d w content # robot_request env d group_url (''openConversationId'', JString c) content # rs"
proof -
  let ?m = "merged_content env msg"
  obtain nt where nt: "dingtalk_send_via_webhook env w (out_content msg) ?m d = (False, d\<lparr>dc_net := nt\<rparr>)"
      "nt_sent nt = nt_sent (dc_net d) @ [webhook_request env d w content]"
    using split_answer_rejected [of env d w "out_content msg" ?m cn k recv n evs] cn reads json sent by blast
  have "with_token env d = Some d" "dc_access_token d \<noteq> None" using assms(4) by (simp_all add: with_token_def is_token_valid_def)
  then obtain ok where ok: "send_ways env r (out_content msg) ?m d = Some (ok, d')"
    using assms(1-3,5) r(1) by (auto simp: dingtalk_send_def Let_def)
  then obtain ok2 e where e: "dingtalk_send_via_group env c (out_content msg) ?m (d\<lparr>dc_net := nt\<rparr>) = Some (ok2, e)"
      "try_way (rt_sender r) (\<lambda>s. dingtalk_send_via_batch env s (out_content msg) ?m) (ok2, e) = Some (ok, d')"
    using nt(1) r(2-5) by (auto simp: send_ways_def try_way_def split: Option.bind_splits list.splits)
  have "nt_sent (dc_net e) = nt_sent nt @ [robot_request env d group_url (''openConversationId'', JString c) content]"
    using e(1) r(5) group nt(2) sent
    by (auto simp: dingtalk_send_via_group_def http_call_def Let_def split: option.splits dest!: after_wait_sent)
  moreover have "asks [batch_url] (dc_net e) (dc_net d')" by (rule try_way_asks [OF e(2)]) (rule ways_ask(3))
  ultimately show ?thesis using nt(2) by (auto simp: asks_def)
qed

definition split_net :: client_env where
  "split_net = no_net\<lparr>ce_connect := (\<lambda>_ _. Some
     \<lparr>cn_polls = (\<lambda>n. if n = 0 then [GotRead ''HTTP/1.1 200 OK'' 15] else [GotMsg ''{}'']), cn_at_free = (\<lambda>_. []), cn_clock = (\<lambda>_. 0)\<rparr>)\<rparr>"

definition split_msg :: OutboundMessage where
  "split_msg = \<lparr>out_channel = ''dingtalk'', out_chat_id = ''http:w|cid'', out_content = ''hi'', out_attachments = string_array_new\<rparr>"

definition ready_ding :: DingTalkChannelData where
  "ready_ding = demo_ding\<lparr>dc_access_token := Some ''t'', dc_token_expiry := 7200\<rparr>"

lemma split_route:
  "parse_route (out_chat_id split_msg) = \<lparr>rt_webhook = Some ''http:w'', rt_conversation = Some ''cid'', rt_sender = None, rt_expired = 0\<rparr>"
  by (simp add: split_msg_def parse_route_def upto_bar_def Let_def)

lemma split_text: "merged_content split_net split_msg = None" "out_content split_msg = ''hi''" "out_channel split_msg = ''dingtalk''"
  by (simp_all add: merged_content_def split_msg_def string_array_new_def)

lemma ready_ding_token: "has_credentials ready_ding" "is_token_valid split_net ready_ding" "nt_sent (dc_net ready_ding) = []"
  by (simp_all add: ready_ding_def demo_ding_def has_credentials_def is_token_valid_def split_net_def no_net_def now_s_def now_ms_def)

lemma group_answered: "\<exists>r. dingtalk_send_via_group split_net ''cid'' content merged d = Some r"
  using http_call_returns_iff [of split_net False
      "robot_request split_net d group_url (''openConversationId'', JString ''cid'') (sent_content content merged)" "dc_net d"]
  by (auto simp: dingtalk_send_via_group_def split_net_def answers_def intro: exI [of _ 1])

lemma split_sent: "\<exists>d'. dingtalk_send split_net split_msg ready_ding = Some d'"
proof -
  let ?v = "dingtalk_send_via_webhook split_net ''http:w'' ''hi'' None ready_ding"
  have u: "webhook_usable split_net ready_ding (parse_route (out_chat_id split_msg))"
    by (simp add: webhook_usable_def split_route starts_with_def)
  obtain b d where v: "?v = (b, d)" by fastforce
  obtain r where r: "dingtalk_send_via_group split_net ''cid'' ''hi'' None d = Some r" using group_answered by blast
  have "\<exists>r. send_ways split_net (parse_route (out_chat_id split_msg)) ''hi'' None ready_ding = Some r"
    using u v r by (cases b) (auto simp: send_ways_def split_route)
  moreover have "with_token split_net ready_ding = Some ready_ding" "dc_access_token ready_ding \<noteq> None"
    using ready_ding_token(2) by (simp_all add: with_token_def is_token_valid_def)
  ultimately show ?thesis using ready_ding_token(1) by (auto simp: dingtalk_send_def split_text Let_def)
qed

theorem split_answer_is_sent_twice_witness:
  "\<exists>d' rs. dingtalk_send split_net split_msg ready_ding = Some d' \<and> nt_sent (dc_net d') =
     webhook_request split_net ready_ding ''http:w'' ''hi'' # robot_request split_net ready_ding group_url (''openConversationId'', JString ''cid'') ''hi'' # rs"
proof -
  obtain d' where d': "dingtalk_send split_net split_msg ready_ding = Some d'" using split_sent by blast
  define cn where "cn = the (ce_connect split_net [] (webhook_request split_net ready_ding ''http:w'' ''hi''))"
  have u: "webhook_usable split_net ready_ding (parse_route (out_chat_id split_msg))"
    by (simp add: webhook_usable_def split_route starts_with_def)
  have "\<exists>rs. nt_sent (dc_net d') = nt_sent (dc_net ready_ding) @ webhook_request split_net ready_ding ''http:w'' ''hi'' #
      robot_request split_net ready_ding group_url (''openConversationId'', JString ''cid'') ''hi'' # rs"
  proof (rule split_answer_is_sent_twice [OF d' ready_ding_token(1) split_text(3) ready_ding_token(2) _ refl u,
        where cn = cn and k = 0 and recv = "''HTTP/1.1 200 OK''" and n = 15 and evs = "[]"])
    show "ce_connect split_net (nt_sent (dc_net ready_ding)) (webhook_request split_net ready_ding ''http:w'' ''hi'') = Some cn"
        "cn_polls cn 0 = GotRead ''HTTP/1.1 200 OK'' 15 # []"
      by (simp_all add: ready_ding_token cn_def split_net_def)
  qed (simp_all add: split_text split_route sent_content_def starts_with_def, simp_all add: split_net_def no_net_def)
  then show ?thesis using d' ready_ding_token(3) by simp
qed

section \<open>An answer that never comes\<close>

text \<open>
  Claim C39. Without a webhook the reply goes to the group, and the call returns exactly when the service sends a complete answer or the library reports an error. A
  connection that the service closes before its answer is complete is neither: the thread that sends the messages of all channels waits for
  ever.
\<close>
theorem unanswered_reply_blocks_iff:
  assumes "has_credentials d" "out_channel msg = ''dingtalk''" "is_token_valid env d" "out_content msg \<noteq> []"
    and "CHR ''|'' \<notin> set (out_chat_id msg)" "out_chat_id msg \<noteq> []"
    and "ce_connect env (nt_sent (dc_net d)) (robot_request env d group_url (''openConversationId'', JString (out_chat_id msg))
           (sent_content (out_content msg) (merged_content env msg))) = Some cn"
  shows "dingtalk_send env msg d = None \<longleftrightarrow> (\<forall>n. \<forall>ev \<in> set (cn_polls cn n). ev \<noteq> GotError \<and> (\<forall>body. ev \<noteq> GotMsg body))"
proof -
  let ?m = "merged_content env msg" and ?c = "out_chat_id msg"
  have "strchr ?c (CHR ''|'') = None" using assms(5) strchr_append [of "CHR ''|''" ?c "[]"] by simp
  then have route: "parse_route ?c = \<lparr>rt_webhook = None, rt_conversation = Some ?c, rt_sender = None, rt_expired = 0\<rparr>"
    by (simp add: parse_route_def)
  have "with_token env d = Some d" "dc_access_token d \<noteq> None" using assms(3) by (simp_all add: with_token_def is_token_valid_def)
  then have "dingtalk_send env msg d = map_option snd (send_ways env (parse_route ?c) (out_content msg) ?m d)"
    using assms(1,2,4) by (auto simp: dingtalk_send_def Let_def)
  also have "\<dots> = map_option snd (dingtalk_send_via_group env ?c (out_content msg) ?m d)"
    using assms(6) by (cases "dingtalk_send_via_group env ?c (out_content msg) ?m d") (auto simp: send_ways_def route webhook_usable_def)
  finally have "dingtalk_send env msg d = None \<longleftrightarrow> dingtalk_send_via_group env ?c (out_content msg) ?m d = None" by simp
  also have "\<dots> \<longleftrightarrow> \<not> (\<exists>n. list_ex answers (cn_polls cn n))"
    using http_call_returns_iff [of env False "robot_request env d group_url (''openConversationId'', JString ?c)
        (sent_content (out_content msg) ?m)" "dc_net d"] assms(6,7) by (auto simp: dingtalk_send_via_group_def)
  also have "\<dots> \<longleftrightarrow> (\<forall>n. \<forall>ev \<in> set (cn_polls cn n). ev \<noteq> GotError \<and> (\<forall>body. ev \<noteq> GotMsg body))"
    by (auto simp: list_ex_iff answers_def split: WaitEvent.split)
  finally show ?thesis .
qed

definition closing_net :: client_env where
  "closing_net = no_net\<lparr>ce_connect := (\<lambda>_ _. Some \<lparr>cn_polls = (\<lambda>n. if n = 0 then [GotClose] else []), cn_at_free = (\<lambda>_. []), cn_clock = (\<lambda>_. 0)\<rparr>)\<rparr>"

theorem unanswered_reply_blocks_iff_witness:
  "dingtalk_send closing_net (split_msg\<lparr>out_chat_id := ''cid''\<rparr>) ready_ding = None"
proof -
  let ?m = "split_msg\<lparr>out_chat_id := ''cid''\<rparr>"
  have t: "is_token_valid closing_net ready_ding"
    by (simp add: ready_ding_def demo_ding_def is_token_valid_def closing_net_def no_net_def now_s_def now_ms_def)
  have "dingtalk_send closing_net ?m ready_ding = None \<longleftrightarrow>
      (\<forall>n. \<forall>ev \<in> set (cn_polls \<lparr>cn_polls = (\<lambda>n. if n = 0 then [GotClose] else []), cn_at_free = (\<lambda>_. []), cn_clock = (\<lambda>_. 0)\<rparr> n).
        ev \<noteq> GotError \<and> (\<forall>body. ev \<noteq> GotMsg body))"
    by (rule unanswered_reply_blocks_iff [OF ready_ding_token(1) _ t])
      (simp_all add: split_msg_def closing_net_def)
  then show ?thesis by simp
qed

section \<open>Where the token goes\<close>

text \<open>The operations of the channel, each on its own network.\<close>

datatype DingOp =
  OpStart client_env | OpStop | OpTurn Round nat | OpMessage Delivery | OpSend client_env OutboundMessage

fun ding_op :: "DingOp \<Rightarrow> DingTalkChannelData \<Rightarrow> DingTalkChannelData option" where
  "ding_op (OpStart env) d = dingtalk_start env d"
| "ding_op OpStop d = Some (dingtalk_stop d)"
| "ding_op (OpTurn r attempt) d = map_option snd (receive_turn r attempt d)"
| "ding_op (OpMessage m) d = Some (on_dingtalk_message m d)"
| "ding_op (OpSend env msg) d = dingtalk_send env msg d"

definition vendor :: string where
  "vendor = ''https://api.dingtalk.com/''"

text \<open>A request that carries a reply to the webhook of its chat: all of it is made from the reply.\<close>

definition webhook_reply :: "client_env \<Rightarrow> OutboundMessage \<Rightarrow> ClientRequest \<Rightarrow> bool" where
  "webhook_reply env msg r \<longleftrightarrow>
     rt_webhook (parse_route (out_chat_id msg)) = Some (rq_url r) \<and> rq_method r = ''POST'' \<and> rq_version r = ''HTTP/1.1'' \<and>
     rq_headers r = [json_type, (''Accept'', ''*/*''), (''Connection'', ''close''), content_length (rq_body r)] \<and>
     rq_body r = ce_print env (webhook_json (dropWhile leading_blank (sent_content (out_content msg) (merged_content env msg))))"

fun ding_may_send :: "DingOp \<Rightarrow> ClientRequest \<Rightarrow> bool" where
  "ding_may_send (OpSend env msg) r \<longleftrightarrow> to_host vendor r \<or> webhook_reply env msg r"
| "ding_may_send _ r \<longleftrightarrow> to_host vendor r"

definition sends :: "(ClientRequest \<Rightarrow> bool) \<Rightarrow> DingTalkChannelData \<Rightarrow> DingTalkChannelData \<Rightarrow> bool" where
  "sends p d d' \<longleftrightarrow> sends_only p (dc_net d) (dc_net d')"

abbreviation keeps_token :: "DingTalkChannelData \<Rightarrow> DingTalkChannelData \<Rightarrow> bool" where
  "keeps_token \<equiv> sends (to_host vendor)"

lemma sends_trans: "sends p a b \<Longrightarrow> sends p b c \<Longrightarrow> sends p a c"
  using sends_only_trans by (auto simp: sends_def)

lemmas keeps_token_trans = sends_trans [where p = "to_host vendor"]

lemma sends_same: "dc_net d' = dc_net d \<Longrightarrow> sends p d d'"
  by (simp add: sends_def)

lemma vendor_requests:
  "to_host vendor (token_request env d)"
  "to_host vendor (robot_request env d group_url receiver content)" "to_host vendor (robot_request env d batch_url receiver content)"
  "to_host vendor (ding_request env d version open_url headers body)"
  by (simp_all add: to_host_def token_request_def robot_request_def ding_request_def Let_def
      vendor_def token_url_def group_url_def batch_url_def open_url_def starts_with_def)

lemma refresh_keeps: "refresh_token env d = Some d' \<Longrightarrow> keeps_token d d'"
  by (auto simp: refresh_token_def sends_def intro: call_sends(2) vendor_requests)

lemma with_token_keeps: "with_token env d = Some d' \<Longrightarrow> keeps_token d d'"
  by (auto simp: with_token_def refresh_keeps sends_same split: if_splits)

lemma ways_keep:
  "dingtalk_send_via_group env c content merged d = Some (b, d') \<Longrightarrow> keeps_token d d'"
  "dingtalk_send_via_batch env u content merged d = Some (b, d') \<Longrightarrow> keeps_token d d'"
  by (auto simp: dingtalk_send_via_group_def dingtalk_send_via_batch_def sends_def Let_def
      split: prod.splits if_splits intro: call_sends vendor_requests)

lemma webhook_way:
  assumes "dingtalk_send_via_webhook env w content merged d = (b, d')" "p (webhook_request env d w (sent_content content merged))"
  shows "sends p d d'"
  using assms call_sends(3) by (auto simp: dingtalk_send_via_webhook_def sends_def split: prod.splits)

lemma webhook_requests:
  assumes "rt_webhook (parse_route (out_chat_id msg)) = Some w"
  shows "webhook_reply env msg (webhook_request env d w (sent_content (out_content msg) (merged_content env msg)))"
  using assms by (simp add: webhook_reply_def webhook_request_def ding_request_def Let_def)

lemma try_way_sends:
  assumes "try_way receiver send (b, d) = Some (b', d')" "\<And>x d b' d'. send x d = Some (b', d') \<Longrightarrow> sends p d d'"
  shows "sends p d d'"
  using assms by (auto simp: try_way_def sends_same split: bool.splits option.splits list.splits)

lemma send_ways_send:
  assumes "send_ways env r content merged d = Some (b, d')" "\<And>w. rt_webhook r = Some w \<Longrightarrow> p (webhook_request env d w (sent_content content merged))"
    and "\<And>r. to_host vendor r \<Longrightarrow> p r"
  shows "sends p d d'"
proof -
  obtain ok1 e1 where e1: "(if webhook_usable env d r then dingtalk_send_via_webhook env (the (rt_webhook r)) content merged d
      else (False, d)) = (ok1, e1)" by fastforce
  then obtain ok2 e2 where e2: "try_way (rt_conversation r) (\<lambda>c. dingtalk_send_via_group env c content merged) (ok1, e1) = Some (ok2, e2)"
      "try_way (rt_sender r) (\<lambda>s. dingtalk_send_via_batch env s content merged) (ok2, e2) = Some (b, d')"
    using assms(1) by (auto simp: send_ways_def split: Option.bind_splits)
  have k: "keeps_token x y \<Longrightarrow> sends p x y" for x y using assms(3) by (auto simp: sends_def intro: sends_only_mono)
  have "sends p d e1"
  proof (cases "webhook_usable env d r")
    case True
    then obtain w where "rt_webhook r = Some w" by (auto simp: webhook_usable_def split: option.splits)
    then show ?thesis using True e1 assms(2) webhook_way by simp
  next
    case False
    then show ?thesis using e1 by (simp add: sends_same)
  qed
  moreover have "sends p e1 e2" by (rule try_way_sends [OF e2(1)]) (rule k [OF ways_keep(1)])
  moreover have "sends p e2 d'" by (rule try_way_sends [OF e2(2)]) (rule k [OF ways_keep(2)])
  ultimately show ?thesis using sends_trans by blast
qed

lemma send_cases:
  assumes "dingtalk_send env msg d = Some d'"
  obtains "d' = d" | e where "with_token env d = Some e" "d' = e"
  | e b where "with_token env d = Some e" "send_ways env (parse_route (out_chat_id msg)) (out_content msg) (merged_content env msg) e = Some (b, d')"
  using assms by (auto simp: dingtalk_send_def Let_def split: if_splits Option.bind_splits)

lemma send_sends:
  assumes "dingtalk_send env msg d = Some d'"
  shows "sends (ding_may_send (OpSend env msg)) d d'"
proof -
  have v: "keeps_token a b \<Longrightarrow> sends (ding_may_send (OpSend env msg)) a b" for a b by (auto simp: sends_def intro: sends_only_mono)
  have w: "send_ways env (parse_route (out_chat_id msg)) (out_content msg) (merged_content env msg) e = Some (b, d') \<Longrightarrow>
      sends (ding_may_send (OpSend env msg)) e d'" for e b
    by (rule send_ways_send, assumption) (simp_all add: webhook_requests)
  show ?thesis using assms
  proof (cases rule: send_cases)
    case (3 e b)
    then show ?thesis using v w with_token_keeps sends_trans by blast
  qed (auto simp: sends_same intro: v with_token_keeps)
qed

lemma message_net: "dc_net (on_dingtalk_message m d) = dc_net d"
  by (auto simp: on_dingtalk_message_def split: option.split)

lemma connection_keeps: "keeps_token d (run_connection r d)"
proof -
  have "dc_net (fold on_dingtalk_message ms d) = dc_net d" for ms by (induction ms arbitrary: d) (simp_all add: message_net)
  then show ?thesis by (simp add: run_connection_def Let_def sends_def sends_only_def)
qed

lemma get_ws_url_keeps: "dingtalk_get_ws_url env hmac d = Some (u, d') \<Longrightarrow> keeps_token d d'"
  by (auto simp: dingtalk_get_ws_url_def Let_def sends_def intro: call_sends(1) vendor_requests)

lemma same_net:
  "dc_net (told_to_stop r d) = dc_net d" "dc_net (snd (count_failure a d)) = dc_net d" "dc_net (sleep_running n d) = dc_net d"
  by (simp_all add: told_to_stop_def count_failure_def sleep_running_def)

lemma no_address_keeps: "no_address r a d = Some (a', d') \<Longrightarrow> keeps_token d d'"
  using refresh_keeps by (auto simp: no_address_def same_net sends_def split: if_splits)

lemma count_failure_keeps: "count_failure a d = (a', d') \<Longrightarrow> keeps_token d d'"
  using same_net(2) [of a d] by (simp add: sends_same)

lemma told_keeps: "keeps_token d (told_to_stop r d)" by (simp add: sends_same same_net)

lemma told_then:
  "count_failure a (told_to_stop r d) = (a', d') \<Longrightarrow> keeps_token d d'" "no_address r a (told_to_stop r d) = Some (a', d') \<Longrightarrow> keeps_token d d'"
  using count_failure_keeps no_address_keeps told_keeps keeps_token_trans by blast+

lemma connection_then:
  "count_failure a (told_to_stop r (run_connection r d)) = (a', d') \<Longrightarrow> keeps_token d d'" "keeps_token d (told_to_stop r (run_connection r d))"
  by (meson count_failure_keeps connection_keeps told_keeps keeps_token_trans)+

lemma turn_keeps:
  assumes "receive_turn r a d = Some (a', d')"
  shows "keeps_token d d'"
proof -
  obtain e where e: "with_token (rd_env r) d = Some e" using assms by (auto simp: receive_turn_def split: Option.bind_splits)
  have "keeps_token e d'"
  proof (cases "str_or_empty (dc_access_token e) = []")
    case True
    then show ?thesis using assms e told_then(1) by (auto simp: receive_turn_def)
  next
    case False
    then obtain u f where f: "dingtalk_get_ws_url (rd_env r) (rd_hmac r) e = Some (u, f)"
      using assms e by (auto simp: receive_turn_def split: Option.bind_splits)
    have "keeps_token f d'"
      using assms e f False told_then connection_then by (auto simp: receive_turn_def Let_def split: option.splits if_splits)
    then show ?thesis using get_ws_url_keeps [OF f] keeps_token_trans by blast
  qed
  then show ?thesis using with_token_keeps [OF e] keeps_token_trans by blast
qed

lemma op_sends: "ding_op x d = Some d' \<Longrightarrow> sends (ding_may_send x) d d'"
proof (cases x)
  case (OpStart env)
  assume "ding_op x d = Some d'"
  then have "d' = d \<or> (\<exists>e. refresh_token env (d\<lparr>dc_running := True\<rparr>) = Some e \<and> d' = e\<lparr>dc_thread := True\<rparr>)"
    using OpStart by (auto simp: dingtalk_start_def split: if_splits)
  moreover have "ding_may_send x = to_host vendor" using OpStart by auto
  ultimately show ?thesis using refresh_keeps [of env "d\<lparr>dc_running := True\<rparr>"] by (auto simp: sends_def)
next
  case (OpTurn r attempt)
  moreover have "ding_may_send x = to_host vendor" using OpTurn by auto
  ultimately show "ding_op x d = Some d' \<Longrightarrow> sends (ding_may_send x) d d'" using turn_keeps by auto
next
  case (OpSend env msg)
  then show "ding_op x d = Some d' \<Longrightarrow> sends (ding_may_send x) d d'" using send_sends by simp
qed (auto simp: dingtalk_stop_def sends_same message_net)

interpretation ding: vendor_client dc_net ding_op ding_may_send
  by unfold_locales (rule op_sends [unfolded sends_def])

text \<open>
  Claim C16. Whatever the channel does, starting from its creation, each of its HTTP requests goes to the programs of the vendor, or it is the request that brings a
  reply to the webhook of its chat, an address that the other side has chosen. Of the latter the method, the headers and the body are those made from the
  text of the reply alone: no part of it depends on the token or on the secret of the channel.
\<close>
theorem dingtalk_token_stays_at_vendor:
  assumes "run_all ding_op ops (dingtalk_init config bus) = Some d" "r \<in> set (nt_sent (dc_net d))"
  shows "starts_with ''https://api.dingtalk.com/'' (rq_url r) \<or> (\<exists>env msg. OpSend env msg \<in> set ops \<and> webhook_reply env msg r)"
proof -
  obtain x where x: "x \<in> set ops" "ding_may_send x r"
    using ding.sent_by [OF assms(1) _ assms(2)] by (auto simp: dingtalk_init_def Let_def)
  show ?thesis
  proof (cases "to_host vendor r")
    case True
    then show ?thesis by (simp add: to_host_def vendor_def)
  next
    case False
    then show ?thesis using x by (cases x) auto
  qed
qed

definition ding_cfg :: Config where
  "ding_cfg = config_create\<lparr>cf_plugins := [\<lparr>pcf_id = ''dingtalk_channel'', pcf_enabled = True,
     pcf_config = Some (JObject [(''clientId'', JString ''i''), (''clientSecret'', JString ''s'')])\<rparr>]\<rparr>"

lemma ding_cfg_init: "has_credentials (dingtalk_init ding_cfg bus)" "dc_running (dingtalk_init ding_cfg bus) = False"
  "nt_sent (dc_net (dingtalk_init ding_cfg bus)) = []"
  by (simp_all add: has_credentials_def dingtalk_init_def ding_cfg_def config_get_plugin_config_def config_item_def get_object_item_def
      json_string_def strcaseeq_def tolower_def isupper_def Let_def)

lemma answering_group:
  "http_call (answering_net j) answer_fn freed rq nt = Some (Some ''{}'', nt\<lparr>nt_sent := nt_sent nt @ [rq]\<rparr>)"
  by (simp add: http_call_def answering_net_def wait_answer.simps poll_def library_step_def answer_fn_def
      memory_append_chunk_def finish_wait_def wait_new_def after_wait_def appends_freed_def)

lemma cid_route: "parse_route ''cid'' = \<lparr>rt_webhook = None, rt_conversation = Some ''cid'', rt_sender = None, rt_expired = 0\<rparr>"
  by (simp add: parse_route_def)

theorem dingtalk_token_stays_at_vendor_witness:
  "\<exists>d r. run_all ding_op [OpStart (answering_net open_answer), OpSend (answering_net open_answer) (split_msg\<lparr>out_chat_id := ''cid''\<rparr>)]
       (dingtalk_init ding_cfg None) = Some d \<and>
     r \<in> set (nt_sent (dc_net d)) \<and> rq_url r = group_url \<and>
     (starts_with ''https://api.dingtalk.com/'' (rq_url r) \<or>
      (\<exists>env msg. OpSend env msg \<in> set [OpStart (answering_net open_answer), OpSend (answering_net open_answer) (split_msg\<lparr>out_chat_id := ''cid''\<rparr>)] \<and>
        webhook_reply env msg r))"
proof -
  let ?env = "answering_net open_answer" and ?msg = "split_msg\<lparr>out_chat_id := ''cid''\<rparr>" and ?i = "dingtalk_init ding_cfg None"
  obtain e where e: "dingtalk_start ?env ?i = Some e" "has_credentials e" "nt_sent (dc_net e) = [token_request ?env (?i\<lparr>dc_running := True\<rparr>)]"
    using ding_cfg_init by (simp add: dingtalk_start_def refresh_token_def answering_calls)
      (simp add: take_token_def has_credentials_def split: option.split)
  have t: "dc_access_token e = Some ''t''" "dc_token_expiry e = 7200"
    using e(1) ding_cfg_init
    by (auto simp: dingtalk_start_def refresh_token_def answering_calls)
      (simp_all add: take_token_def http_json_def answering_net_def open_answer_def get_object_item_def json_string_def now_s_def now_ms_def no_net_def)
  have v: "with_token ?env e = Some e"
    using t by (simp add: with_token_def is_token_valid_def now_s_def now_ms_def answering_net_def no_net_def)
  have m: "merged_content ?env ?msg = None" "out_channel ?msg = ''dingtalk''" "out_content ?msg = ''hi''" "out_chat_id ?msg = ''cid''"
    by (simp_all add: merged_content_def split_msg_def string_array_new_def)
  let ?r = "robot_request ?env e group_url (''openConversationId'', JString ''cid'') ''hi''"
  obtain d where d: "dingtalk_send ?env ?msg e = Some d" "?r \<in> set (nt_sent (dc_net d))"
    using e(2) t v m by (simp add: dingtalk_send_def Let_def cid_route send_ways_def webhook_usable_def dingtalk_send_via_group_def answering_group sent_content_def)
  have c: "rq_url ?r = group_url" by (simp add: robot_request_def ding_request_def Let_def)
  have run: "run_all ding_op [OpStart ?env, OpSend ?env ?msg] ?i = Some d" using e(1) d(1) by simp
  show ?thesis using dingtalk_token_stays_at_vendor [OF run d(2)] run d(2) c by blast
qed

section \<open>A token that comes too late\<close>

text \<open>
  A refresh that gets no answer within 10 seconds leaves the token as it is, and it uses freed memory exactly when the connection has closed before the
  end of the wait, or when freeing the manager delivers the part of the answer that has arrived.
\<close>
theorem late_token_uses_freed_iff:
  assumes "ce_connect env (nt_sent (dc_net d)) (token_request env d) = Some cn" "\<forall>j \<le> k. \<not> list_ex answers (cn_polls cn j)"
    and "\<forall>j < k. millis (cn_clock cn (Suc j)) - millis (cn_clock cn 0) \<le> 10000" "millis (cn_clock cn (Suc k)) - millis (cn_clock cn 0) > 10000"
    and "\<not> nt_fault (dc_net d)"
  shows "\<exists>d'. refresh_token env d = Some d' \<and> dc_access_token d' = dc_access_token d \<and>
    (nt_fault (dc_net d') \<longleftrightarrow> (\<exists>j \<le> k. GotClose \<in> set (cn_polls cn j)) \<or> (\<exists>body. GotMsg body \<in> set (cn_at_free cn (Suc k))))"
proof -
  have "take_token env (Some []) e = e" for e
    by (simp add: take_token_def http_json_def get_object_item_def json_string_def)
  moreover obtain nt where "timed_call env 10000 True (token_request env d) (dc_net d) = Some (Some [], nt)"
      "nt_fault nt \<longleftrightarrow> (\<exists>j \<le> k. GotClose \<in> set (cn_polls cn j)) \<or> (\<exists>body. GotMsg body \<in> set (cn_at_free cn (Suc k)))"
    using timed_out_call [OF assms(1,2), of 10000] assms(3-) by (auto simp: not_less)
  ultimately show ?thesis by (simp add: refresh_token_def)
qed

definition late_connection :: Connection where
  "late_connection = \<lparr>cn_polls = (\<lambda>_. []), cn_at_free = (\<lambda>_. [GotMsg ''{'', GotClose]), cn_clock = (\<lambda>n. if n = 0 then 0 else 11)\<rparr>"

theorem late_token_uses_freed_iff_witness:
  "\<exists>d'. refresh_token (no_net\<lparr>ce_connect := (\<lambda>_ _. Some late_connection)\<rparr>) demo_ding = Some d' \<and> nt_fault (dc_net d')"
proof -
  have "\<exists>d'. refresh_token (no_net\<lparr>ce_connect := (\<lambda>_ _. Some late_connection)\<rparr>) demo_ding = Some d' \<and>
      dc_access_token d' = dc_access_token demo_ding \<and>
      (nt_fault (dc_net d') \<longleftrightarrow> (\<exists>j \<le> (0::nat). GotClose \<in> set (cn_polls late_connection j)) \<or> (\<exists>body. GotMsg body \<in> set (cn_at_free late_connection (Suc 0))))"
    by (rule late_token_uses_freed_iff [where k = 0]) (simp_all add: late_connection_def demo_ding_def millis_def)
  then show ?thesis by (auto simp: late_connection_def)
qed

end
