(* ===== verification/FeishuChannel.thy ===== *)
theory FeishuChannel
  imports DingTalkChannel BuiltinTools
begin

text \<open>
  \<open>plugins/channels/feishu_channel/feishu_channel.c\<close>: the token, the names of users, uploads and messages with one retry, and the receive loop around the long connection of
  \<open>FeishuWs\<close>. What the file repeats of \<open>dingtalk_channel.c\<close> (the blocking client, the pauses between attempts) is that of \<open>HttpClient\<close> and
  \<open>DingTalkChannel\<close>; reading an attachment is in \<open>BuiltinTools\<close>. A result of \<open>None\<close> is a call that never returns. \<open>fc_fault\<close> says that
  memory was read that was never written, or a null pointer was followed; what such memory holds is a parameter of the model.
\<close>

section \<open>State\<close>

record UserNameCacheEntry =
  uc_open_id :: string
  uc_name :: string

record FeishuChannelData =
  fc_bus :: "MessageBus option"
  fc_running :: bool
  fc_access_token :: "string option"
  fc_app_id :: string
  fc_app_secret :: string
  fc_use_card :: bool
  fc_dns :: ChannelDns
  fc_thread :: bool
  fc_user_cache :: "UserNameCacheEntry list"
  fc_cache_set :: bool
  fc_net :: Net
  fc_sleeps :: "int list"
  fc_fault :: bool

text \<open>The fields of the cache are not set: \<open>garbage\<close> is what they happen to hold.\<close>

definition feishu_init :: "UserNameCacheEntry list \<Rightarrow> Config \<Rightarrow> MessageBus option \<Rightarrow> FeishuChannelData" where
  "feishu_init garbage cfg bus =
     (let pc = Option.bind (config_get_plugin_config ''feishu_channel'' (cf_plugins cfg)) pcf_config
      in \<lparr>fc_bus = bus, fc_running = False, fc_access_token = None, fc_app_id = config_item pc ''app_id'',
          fc_app_secret = config_item pc ''app_secret'', fc_use_card = json_flag (get_object_item pc ''use_card'') False,
          fc_dns = channel_dns (Some (cf_dns cfg)), fc_thread = False, fc_user_cache = garbage, fc_cache_set = False,
          fc_net = \<lparr>nt_sent = [], nt_fault = False\<rparr>, fc_sleeps = [], fc_fault = False\<rparr>)"

section \<open>The token\<close>

definition feishu_request ::
  "client_env \<Rightarrow> FeishuChannelData \<Rightarrow> string \<Rightarrow> string \<Rightarrow> string \<Rightarrow> (string \<times> string) list \<Rightarrow> string \<Rightarrow> ClientRequest" where
  "feishu_request env d meth version url headers body =
     \<lparr>rq_dns = apply_dns_config (ce_dns env) (fc_dns d), rq_url = url, rq_method = meth, rq_version = version, rq_headers = headers, rq_body = body\<rparr>"

definition json_utf8 :: "string \<times> string" where
  "json_utf8 = (''Content-Type'', ''application/json; charset=utf-8'')"

definition bearer :: "FeishuChannelData \<Rightarrow> string \<times> string" where
  "bearer d = (''Authorization'', ''Bearer '' @ str_or_empty (fc_access_token d))"

definition tenant_url :: string where
  "tenant_url = ''https://open.feishu.cn/open-apis/auth/v3/tenant_access_token/internal''"

definition tenant_request :: "client_env \<Rightarrow> FeishuChannelData \<Rightarrow> ClientRequest" where
  "tenant_request env d =
     (let body = ce_print env (JObject [(''app_id'', JString (fc_app_id d)), (''app_secret'', JString (fc_app_secret d))])
      in feishu_request env d ''POST'' ''HTTP/1.1'' tenant_url [json_utf8, content_length body, (''Connection'', ''close'')] body)"

definition code_error :: "json option \<Rightarrow> bool" where
  "code_error resp \<longleftrightarrow> (case get_object_item resp ''code'' of Some c \<Rightarrow> json_valueint c \<noteq> 0 | None \<Rightarrow> False)"

definition take_tenant_token :: "client_env \<Rightarrow> string option \<Rightarrow> FeishuChannelData \<Rightarrow> FeishuChannelData" where
  "take_tenant_token env answer d =
     (let resp = http_json env answer
      in if code_error resp then d
         else (case json_string (get_object_item resp ''tenant_access_token'') of
                 Some t \<Rightarrow> d\<lparr>fc_access_token := Some t\<rparr> | None \<Rightarrow> d))"

definition feishu_refresh_token :: "client_env \<Rightarrow> FeishuChannelData \<Rightarrow> FeishuChannelData option" where
  "feishu_refresh_token env d =
     map_option (\<lambda>(answer, nt). take_tenant_token env answer (d\<lparr>fc_net := nt\<rparr>)) (timed_call env 10000 True (tenant_request env d) (fc_net d))"

definition ensure_token :: "client_env \<Rightarrow> FeishuChannelData \<Rightarrow> FeishuChannelData option" where
  "ensure_token env d = (if fc_access_token d = None then feishu_refresh_token env d else Some d)"

section \<open>The names of users\<close>

definition user_cache_lookup :: "string \<Rightarrow> FeishuChannelData \<Rightarrow> string option" where
  "user_cache_lookup open_id d = map_option uc_name (find (\<lambda>e. uc_open_id e = open_id) (fc_user_cache d))"

definition user_cache_store :: "string \<Rightarrow> string \<Rightarrow> FeishuChannelData \<Rightarrow> FeishuChannelData" where
  "user_cache_store open_id name d = d\<lparr>fc_user_cache := fc_user_cache d @ [\<lparr>uc_open_id = open_id, uc_name = name\<rparr>]\<rparr>"

definition user_url :: "string \<Rightarrow> string" where
  "user_url open_id = c_trunc 512 (''https://open.feishu.cn/open-apis/contact/v3/users/'' @ open_id @ ''?user_id_type=open_id'')"

definition user_request :: "client_env \<Rightarrow> FeishuChannelData \<Rightarrow> string \<Rightarrow> ClientRequest" where
  "user_request env d open_id =
     feishu_request env d ''GET'' ''HTTP/1.1'' (user_url open_id)
       [(fst (bearer d), c_trunc 512 (snd (bearer d))), (''Connection'', ''close'')] []"

definition user_name_of :: "json option \<Rightarrow> string option" where
  "user_name_of resp =
     (if code_zero resp then json_string (get_object_item (get_object_item (get_object_item resp ''data'') ''user'') ''name'') else None)"

definition feishu_get_user_name :: "client_env \<Rightarrow> string \<Rightarrow> FeishuChannelData \<Rightarrow> (string option \<times> FeishuChannelData) option" where
  "feishu_get_user_name env open_id d =
     (let d = d\<lparr>fc_fault := fc_fault d \<or> \<not> fc_cache_set d\<rparr>
      in case user_cache_lookup open_id d of
           Some name \<Rightarrow> Some (Some name, d)
         | None \<Rightarrow>
             Option.bind (ensure_token env d) (\<lambda>d.
               if fc_access_token d = None then Some (None, d)
               else map_option
                      (\<lambda>(answer, nt).
                         (let d = d\<lparr>fc_net := nt\<rparr>
                          in case user_name_of (http_json env answer) of
                               None \<Rightarrow> (None, d) | Some name \<Rightarrow> (Some name, user_cache_store open_id name d)))
                      (timed_call env 5000 True (user_request env d open_id) (fc_net d))))"

definition queue_inbound :: "string \<Rightarrow> string \<Rightarrow> string option \<Rightarrow> FeishuChannelData \<Rightarrow> FeishuChannelData" where
  "queue_inbound chat_id content name d =
     (case inbound_message_new True (Some ''feishu'') (Some chat_id) (Some content) name of
        None \<Rightarrow> d
      | Some msg \<Rightarrow>
          (case message_bus_send_inbound True (fc_bus d) msg of Some (bus, _) \<Rightarrow> d\<lparr>fc_bus := bus\<rparr> | None \<Rightarrow> d))"

definition on_feishu_message :: "client_env \<Rightarrow> string \<times> string \<times> string \<Rightarrow> FeishuChannelData \<Rightarrow> FeishuChannelData option" where
  "on_feishu_message env m d =
     (case m of (chat_id, content, sender_id) \<Rightarrow>
        map_option (\<lambda>(name, d). queue_inbound chat_id content name d)
          (if sender_id \<noteq> [] then feishu_get_user_name env sender_id d else Some (None, d)))"

section \<open>Uploads\<close>

definition form_field :: "string \<Rightarrow> string \<Rightarrow> string" where
  "form_field name val = ''Content-Disposition: form-data; name='' @ in_quotes name @ crlf @ crlf @ val @ crlf"

definition build_feishu_upload_body ::
  "string \<Rightarrow> string \<Rightarrow> string \<Rightarrow> string option \<Rightarrow> string \<times> string \<Rightarrow> (string \<times> string) option \<Rightarrow> string option" where
  "build_feishu_upload_body boundary file_field file_path bytes primary secondary =
     (let bar = c_trunc 2048 (''--'' @ boundary @ crlf); part = (\<lambda>(name, val). [bar, c_trunc 2048 (form_field name val)])
      in Option.bind bytes (\<lambda>b. map_option hw_memory (append_chunks
           (part primary @ (case secondary of Some s \<Rightarrow> part s | None \<Rightarrow> []) @
            [bar, c_trunc 2048 (file_part file_field (file_basename file_path)), b, crlf, c_trunc 2048 (''--'' @ boundary @ ''--'' @ crlf)])
           wait_new)))"

definition upload_url :: "bool \<Rightarrow> string" where
  "upload_url is_image =
     (if is_image then ''https://open.feishu.cn/open-apis/im/v1/images'' else ''https://open.feishu.cn/open-apis/im/v1/files'')"

definition upload_body :: "FeishuAttachment \<Rightarrow> string option \<Rightarrow> string option" where
  "upload_body att bytes =
     (let boundary = ''----PrimagenFeishuBoundary'' in
      if fa_type att = ''image''
      then build_feishu_upload_body boundary ''image'' (fa_path att) bytes (''image_type'', ''message'') None
      else build_feishu_upload_body boundary ''file'' (fa_path att) bytes
             (''file_type'', if fa_type att = ''audio'' then ''opus'' else ''mp4'') (Some (''file_name'', file_basename (fa_path att))))"

definition upload_request :: "client_env \<Rightarrow> FeishuChannelData \<Rightarrow> FeishuAttachment \<Rightarrow> string \<Rightarrow> ClientRequest" where
  "upload_request env d att body =
     feishu_request env d ''POST'' ''HTTP/1.0'' (upload_url (fa_type att = ''image''))
       [bearer d, (''Content-Type'', ''multipart/form-data; boundary=----PrimagenFeishuBoundary''), content_length body] body"

definition token_expired :: "json option \<Rightarrow> bool" where
  "token_expired resp \<longleftrightarrow>
     (case get_object_item resp ''code'' of Some c \<Rightarrow> json_valueint c \<in> {99991668, 99991663} | None \<Rightarrow> False)"

definition upload_key :: "FeishuAttachment \<Rightarrow> json option \<Rightarrow> string option" where
  "upload_key att resp =
     json_string (get_object_item (get_object_item resp ''data'') (if fa_type att = ''image'' then ''image_key'' else ''file_key''))"

text \<open>
  The attempts that are left, of two. An answer without a code is looked at through a null pointer.
\<close>

fun upload_attempts ::
  "client_env \<Rightarrow> FeishuAttachment \<Rightarrow> string option \<Rightarrow> nat \<Rightarrow> FeishuChannelData \<Rightarrow> (string option \<times> FeishuChannelData) option" where
  "upload_attempts env att bytes 0 d = Some (None, d)"
| "upload_attempts env att bytes (Suc k) d =
     Option.bind (ensure_token env d) (\<lambda>d.
       case (fc_access_token d, upload_body att bytes) of
         (Some _, Some body) \<Rightarrow>
           Option.bind (http_call env answer_fn False (upload_request env d att body) (fc_net d)) (\<lambda>(answer, nt).
             (let d = d\<lparr>fc_net := nt\<rparr>; resp = http_json env answer
              in if resp = None then Some (None, d)
                 else if code_zero resp then Some (upload_key att resp, d)
                 else if get_object_item resp ''code'' = None then Some (None, d\<lparr>fc_fault := True\<rparr>)
                 else if token_expired resp \<and> k = 1
                 then Option.bind (feishu_refresh_token env (d\<lparr>fc_access_token := None\<rparr>)) (upload_attempts env att bytes k)
                 else Some (None, d)))
       | _ \<Rightarrow> Some (None, d))"

definition feishu_upload_media ::
  "client_env \<Rightarrow> FeishuAttachment \<Rightarrow> string option \<Rightarrow> FeishuChannelData \<Rightarrow> (string option \<times> FeishuChannelData) option" where
  "feishu_upload_media env att bytes d = upload_attempts env att bytes 2 d"

section \<open>Messages\<close>

definition post_request :: "client_env \<Rightarrow> FeishuChannelData \<Rightarrow> string \<Rightarrow> string \<Rightarrow> ClientRequest" where
  "post_request env d url body = feishu_request env d ''POST'' ''HTTP/1.0'' url [json_utf8, bearer d, content_length body] body"

fun post_attempts :: "client_env \<Rightarrow> string \<Rightarrow> string \<Rightarrow> nat \<Rightarrow> FeishuChannelData \<Rightarrow> (bool \<times> FeishuChannelData) option" where
  "post_attempts env url body 0 d = Some (False, d)"
| "post_attempts env url body (Suc k) d =
     Option.bind (ensure_token env d) (\<lambda>d.
       if fc_access_token d = None then Some (False, d)
       else Option.bind (http_call env answer_fn False (post_request env d url body) (fc_net d)) (\<lambda>(answer, nt).
              (let d = d\<lparr>fc_net := nt\<rparr>; resp = http_json env answer
               in if resp = None then Some (False, d)
                  else if \<not> code_error resp then Some (True, d)
                  else if token_expired resp \<and> k = 1
                  then Option.bind (feishu_refresh_token env (d\<lparr>fc_access_token := None\<rparr>)) (post_attempts env url body k)
                  else Some (False, d))))"

definition feishu_post_json_with_retry :: "client_env \<Rightarrow> string \<Rightarrow> string \<Rightarrow> FeishuChannelData \<Rightarrow> (bool \<times> FeishuChannelData) option" where
  "feishu_post_json_with_retry env url body d = post_attempts env url body 2 d"

definition messages_url :: "string \<Rightarrow> string" where
  "messages_url id_type = c_trunc 512 (''https://open.feishu.cn/open-apis/im/v1/messages?receive_id_type='' @ id_type)"

definition feishu_message_json :: "client_env \<Rightarrow> string \<Rightarrow> string \<Rightarrow> json \<Rightarrow> json" where
  "feishu_message_json env receive_id msg_type content =
     JObject [(''receive_id'', JString receive_id), (''msg_type'', JString msg_type), (''content'', JString (ce_print env content))]"

definition attachment_message :: "client_env \<Rightarrow> string \<Rightarrow> FeishuAttachment \<Rightarrow> string \<Rightarrow> json" where
  "attachment_message env receive_id att key =
     (if fa_type att = ''image'' then feishu_message_json env receive_id ''image'' (JObject [(''image_key'', JString key)])
      else if fa_type att = ''audio''
      then feishu_message_json env receive_id ''audio''
             (JObject ((''file_key'', JString key) # (if fa_duration att > 0 then [(''duration'', JNumber (of_int (fa_duration att)))] else [])))
      else feishu_message_json env receive_id ''file'' (JObject [(''file_key'', JString key)]))"

definition feishu_send_attachment ::
  "client_env \<Rightarrow> string \<Rightarrow> string \<Rightarrow> FeishuAttachment \<Rightarrow> string option \<Rightarrow> FeishuChannelData \<Rightarrow> (bool \<times> FeishuChannelData) option" where
  "feishu_send_attachment env id_type receive_id att bytes d =
     Option.bind (feishu_upload_media env att bytes d) (\<lambda>(key, d).
       case key of
         None \<Rightarrow> Some (False, d)
       | Some key \<Rightarrow> feishu_post_json_with_retry env (messages_url id_type) (ce_print env (attachment_message env receive_id att key)) d)"

definition card_json :: "string \<Rightarrow> json" where
  "card_json content =
     JObject [(''schema'', JString ''2.0''),
       (''header'', JObject [(''template'', JString ''blue''), (''title'', JObject [(''tag'', JString ''plain_text''), (''content'', JString ''Primagen'')])]),
       (''config'', JObject [(''streaming_mode'', JBool True)]),
       (''body'', JObject [(''elements'', JArray
          [JObject [(''tag'', JString ''markdown''), (''element_id'', JString ''markdown_1''), (''content'', JString content)]])])]"

definition card_url :: string where
  "card_url = ''https://open.feishu.cn/open-apis/cardkit/v1/cards''"

definition create_streaming_card :: "client_env \<Rightarrow> string \<Rightarrow> FeishuChannelData \<Rightarrow> (string option \<times> FeishuChannelData) option" where
  "create_streaming_card env content d =
     Option.bind (ensure_token env d) (\<lambda>d.
       (let body = ce_print env (JObject [(''type'', JString ''card_json''), (''data'', JString (ce_print env (card_json content)))])
        in map_option
             (\<lambda>(answer, nt).
                (let resp = http_json env answer
                 in (if code_zero resp then json_string (get_object_item (get_object_item resp ''data'') ''card_id'') else None, d\<lparr>fc_net := nt\<rparr>)))
             (http_call env answer_fn True (post_request env d card_url body) (fc_net d))))"

definition post_json :: "string \<Rightarrow> json" where
  "post_json content =
     JObject [(''post'', JObject [(''title'', JString []),
       (''content'', JArray [JArray [JObject [(''tag'', JString ''text''), (''text'', JString content)]]])])]"

definition id_type_of :: "string \<Rightarrow> string" where
  "id_type_of chat_id = (if starts_with ''oc_'' chat_id then ''chat_id'' else ''open_id'')"

text \<open>The attachments go first, each on its own; \<open>files\<close> reads a file whole.\<close>

fun send_attachments ::
  "client_env \<Rightarrow> (string \<Rightarrow> string option) \<Rightarrow> string \<Rightarrow> string list \<Rightarrow> FeishuChannelData \<Rightarrow> FeishuChannelData option" where
  "send_attachments env files chat_id [] d = Some d"
| "send_attachments env files chat_id (spec # specs) d =
     Option.bind
       (case parse_attachment_spec (ce_parse env) spec of
          None \<Rightarrow> Some d
        | Some att \<Rightarrow> map_option snd (feishu_send_attachment env (id_type_of chat_id) chat_id att (files (fa_path att)) d))
       (send_attachments env files chat_id specs)"

definition send_text :: "client_env \<Rightarrow> string \<Rightarrow> string \<Rightarrow> FeishuChannelData \<Rightarrow> FeishuChannelData option" where
  "send_text env chat_id content d =
     Option.bind (if fc_use_card d then create_streaming_card env content d else Some (None, d)) (\<lambda>(card, d).
       (let j = (case card of
                   Some card_id \<Rightarrow> feishu_message_json env chat_id ''interactive''
                     (JObject [(''type'', JString ''card''), (''data'', JObject [(''card_id'', JString card_id)])])
                 | None \<Rightarrow> feishu_message_json env chat_id ''post'' (post_json content))
        in map_option snd (feishu_post_json_with_retry env (messages_url (id_type_of chat_id)) (ce_print env j) d)))"

definition feishu_send ::
  "client_env \<Rightarrow> (string \<Rightarrow> string option) \<Rightarrow> OutboundMessage \<Rightarrow> FeishuChannelData \<Rightarrow> FeishuChannelData option" where
  "feishu_send env files msg d =
     (if fc_app_id d = [] \<or> out_channel msg \<noteq> ''feishu'' then Some d
      else Option.bind (ensure_token env d) (\<lambda>d.
        if fc_access_token d = None then Some d
        else Option.bind (send_attachments env files (out_chat_id msg) (sa_items (out_attachments msg)) d) (\<lambda>d.
          if sa_items (out_attachments msg) \<noteq> [] \<and> out_content msg = [] then Some d
          else send_text env (out_chat_id msg) (out_content msg) d)))"

section \<open>The receive loop\<close>

definition endpoint_url :: string where
  "endpoint_url = ''https://open.feishu.cn/callback/ws/endpoint''"

definition get_ws_url :: "client_env \<Rightarrow> FeishuChannelData \<Rightarrow> (string option \<times> FeishuChannelData) option" where
  "get_ws_url env d =
     Option.bind (ensure_token env d) (\<lambda>d.
       (let body = ce_print env (JObject [(''AppID'', JString (fc_app_id d)), (''AppSecret'', JString (fc_app_secret d))])
        in map_option
             (\<lambda>(answer, nt).
                (let resp = http_json env answer
                 in (if code_zero resp then json_string (get_object_item (get_object_item resp ''data'') ''URL'') else None, d\<lparr>fc_net := nt\<rparr>)))
             (http_call env answer_fn True
                (feishu_request env d ''POST'' ''HTTP/1.0'' endpoint_url [json_utf8, content_length body, (''locale'', ''zh'')] body) (fc_net d))))"

text \<open>
  One turn: the network, whether the library makes a websocket, what the connection of \<open>FeishuWs\<close> delivers until it ends (chat, text and sender),
  and whether the channel is told to stop.
\<close>

record FeishuRound =
  fr_env :: client_env
  fr_connects :: bool
  fr_delivered :: "(string \<times> string \<times> string) list"
  fr_stopped :: bool

fun deliver_all :: "client_env \<Rightarrow> (string \<times> string \<times> string) list \<Rightarrow> FeishuChannelData \<Rightarrow> FeishuChannelData option" where
  "deliver_all env [] d = Some d"
| "deliver_all env (m # ms) d = Option.bind (on_feishu_message env m d) (deliver_all env ms)"

definition after_turn :: "FeishuRound \<Rightarrow> nat \<Rightarrow> FeishuChannelData \<Rightarrow> nat \<times> FeishuChannelData" where
  "after_turn r attempt d =
     (let d = (if fr_stopped r then d\<lparr>fc_running := False\<rparr> else d)
      in if attempt \<ge> max_reconnect_attempts then (attempt, d\<lparr>fc_running := False\<rparr>)
         else (attempt, if fc_running d then d\<lparr>fc_sleeps := fc_sleeps d @ [reconnect_delay attempt]\<rparr> else d))"

definition feishu_turn :: "FeishuRound \<Rightarrow> nat \<Rightarrow> FeishuChannelData \<Rightarrow> (nat \<times> FeishuChannelData) option" where
  "feishu_turn r attempt d =
     Option.bind (get_ws_url (fr_env r) d) (\<lambda>(url, d).
       if url \<noteq> None \<and> fr_connects r then map_option (after_turn r 0) (deliver_all (fr_env r) (fr_delivered r) d)
       else Some (after_turn r (attempt + 1) d))"

fun feishu_turns :: "FeishuRound list \<Rightarrow> nat \<Rightarrow> FeishuChannelData \<Rightarrow> (nat \<times> FeishuChannelData) option" where
  "feishu_turns [] attempt d = Some (attempt, d)"
| "feishu_turns (r # rs) attempt d =
     (if \<not> fc_running d then Some (attempt, d)
      else Option.bind (feishu_turn r attempt d) (\<lambda>(attempt, d). feishu_turns rs attempt d))"

definition feishu_receive_loop :: "FeishuRound list \<Rightarrow> FeishuChannelData \<Rightarrow> (nat \<times> FeishuChannelData) option" where
  "feishu_receive_loop rs d = feishu_turns rs 0 d"

section \<open>The channel\<close>

definition feishu_start :: "client_env \<Rightarrow> FeishuChannelData \<Rightarrow> FeishuChannelData option" where
  "feishu_start env d =
     (if fc_app_id d = [] then Some d
      else map_option (\<lambda>d. d\<lparr>fc_thread := True\<rparr>) (feishu_refresh_token env (d\<lparr>fc_running := True\<rparr>)))"

text \<open>The thread is not waited for.\<close>

definition feishu_stop :: "FeishuChannelData \<Rightarrow> FeishuChannelData" where
  "feishu_stop d = d\<lparr>fc_running := False\<rparr>"

definition feishu_plugin_init :: "Registration list" where
  "feishu_plugin_init = [RegChannel ''feishu'' True]"

section \<open>What every operation keeps\<close>

definition open_platform :: string where
  "open_platform = ''https://open.feishu.cn/''"

text \<open>Each request goes to the vendor, the cache is as unset as before, and a fault is not forgotten.\<close>

definition feishu_keeps :: "FeishuChannelData \<Rightarrow> FeishuChannelData \<Rightarrow> bool" where
  "feishu_keeps d d' \<longleftrightarrow>
     sends_only (to_host open_platform) (fc_net d) (fc_net d') \<and> fc_cache_set d' = fc_cache_set d \<and> (fc_fault d \<longrightarrow> fc_fault d')"

lemma feishu_keeps_trans: "feishu_keeps a b \<Longrightarrow> feishu_keeps b c \<Longrightarrow> feishu_keeps a c"
  using sends_only_trans by (auto simp: feishu_keeps_def)

lemma feishu_keeps_refl [simp]: "feishu_keeps d d" by (simp add: feishu_keeps_def)

lemma to_platform:
  "starts_with open_platform url \<Longrightarrow> to_host open_platform (feishu_request env d meth version url headers body)"
  by (simp add: to_host_def feishu_request_def)

lemma platform_urls:
  "starts_with open_platform tenant_url" "starts_with open_platform (upload_url b)" "starts_with open_platform card_url"
  "starts_with open_platform endpoint_url" "starts_with open_platform (user_url open_id)" "starts_with open_platform (messages_url t)"
  by (simp_all add: open_platform_def tenant_url_def upload_url_def card_url_def endpoint_url_def user_url_def messages_url_def c_trunc_def starts_with_def)

lemma call_keeps:
  "http_call env handler freed rq (fc_net d) = Some (a, nt) \<Longrightarrow> to_host open_platform rq \<Longrightarrow> feishu_keeps d (d\<lparr>fc_net := nt\<rparr>)"
  "timed_call env limit freed rq (fc_net d) = Some (a, nt) \<Longrightarrow> to_host open_platform rq \<Longrightarrow> feishu_keeps d (d\<lparr>fc_net := nt\<rparr>)"
  by (auto simp: feishu_keeps_def intro: call_sends)

lemma take_tenant_keeps: "feishu_keeps d (take_tenant_token env a d)"
  by (simp add: take_tenant_token_def feishu_keeps_def Let_def split: option.split)

lemma tenant_to_platform: "to_host open_platform (tenant_request env d)"
  by (simp add: tenant_request_def Let_def to_platform platform_urls)

lemma feishu_refresh_keeps: "feishu_refresh_token env d = Some d' \<Longrightarrow> feishu_keeps d d'"
  using call_keeps(2) [OF _ tenant_to_platform] take_tenant_keeps feishu_keeps_trans
  by (auto simp: feishu_refresh_token_def) (meson)

lemma ensure_keeps: "ensure_token env d = Some d' \<Longrightarrow> feishu_keeps d d'"
  by (auto simp: ensure_token_def feishu_refresh_keeps split: if_splits)

lemma drop_token_keeps: "feishu_refresh_token env (d\<lparr>fc_access_token := None\<rparr>) = Some d' \<Longrightarrow> feishu_keeps d d'"
  using feishu_refresh_keeps [of env "d\<lparr>fc_access_token := None\<rparr>"] by (simp add: feishu_keeps_def)

lemma user_name_keeps:
  assumes "feishu_get_user_name env open_id d = Some (name, d')"
  shows "feishu_keeps d d' \<and> (\<not> fc_cache_set d \<longrightarrow> fc_fault d')"
proof -
  let ?d = "d\<lparr>fc_fault := fc_fault d \<or> \<not> fc_cache_set d\<rparr>"
  have d: "feishu_keeps d ?d" by (simp add: feishu_keeps_def)
  have "feishu_keeps ?d d'"
  proof (cases "user_cache_lookup open_id ?d")
    case (Some n)
    then show ?thesis using assms by (simp add: feishu_get_user_name_def Let_def)
  next
    case None
    then obtain e where e: "ensure_token env ?d = Some e"
      using assms by (auto simp: feishu_get_user_name_def Let_def split: Option.bind_splits)
    show ?thesis
    proof (cases "fc_access_token e")
      case None
      then show ?thesis using assms e \<open>user_cache_lookup open_id ?d = None\<close> ensure_keeps [OF e] by (simp add: feishu_get_user_name_def Let_def)
    next
      case (Some t)
      then obtain a nt where c: "timed_call env 5000 True (user_request env e open_id) (fc_net e) = Some (a, nt)"
          and d': "d' = e\<lparr>fc_net := nt\<rparr> \<or> (\<exists>n. d' = user_cache_store open_id n (e\<lparr>fc_net := nt\<rparr>))"
        using assms e \<open>user_cache_lookup open_id ?d = None\<close>
        by (auto simp: feishu_get_user_name_def Let_def split: option.splits)
      have "feishu_keeps e (e\<lparr>fc_net := nt\<rparr>)"
        by (rule call_keeps(2) [OF c]) (simp add: user_request_def to_platform platform_urls)
      then have "feishu_keeps e d'" using d' by (auto simp: user_cache_store_def feishu_keeps_def)
      then show ?thesis using ensure_keeps [OF e] feishu_keeps_trans by blast
    qed
  qed
  then show ?thesis using d feishu_keeps_trans by (auto simp: feishu_keeps_def)
qed

lemma queue_inbound_same:
  "fc_net (queue_inbound c t n d) = fc_net d" "fc_cache_set (queue_inbound c t n d) = fc_cache_set d"
  "fc_fault (queue_inbound c t n d) = fc_fault d"
  by (auto simp: queue_inbound_def split: option.split)

lemma message_keeps:
  assumes "on_feishu_message env (chat_id, content, sender) d = Some d'"
  shows "feishu_keeps d d' \<and> (sender \<noteq> [] \<longrightarrow> \<not> fc_cache_set d \<longrightarrow> fc_fault d')"
proof -
  obtain name e where e: "(if sender \<noteq> [] then feishu_get_user_name env sender d else Some (None, d)) = Some (name, e)"
      and d': "fc_net d' = fc_net e" "fc_cache_set d' = fc_cache_set e" "fc_fault d' = fc_fault e"
    using assms queue_inbound_same by (auto simp: on_feishu_message_def)
  have "feishu_keeps d e \<and> (sender \<noteq> [] \<longrightarrow> \<not> fc_cache_set d \<longrightarrow> fc_fault e)"
    using e user_name_keeps by (auto split: if_splits)
  then show ?thesis using d' by (simp add: feishu_keeps_def)
qed

lemma bind_keeps:
  "Option.bind x f = Some r \<Longrightarrow> (\<And>y. x = Some y \<Longrightarrow> f y = Some r \<Longrightarrow> P) \<Longrightarrow> P"
  by (cases x) auto

lemma upload_keeps: "upload_attempts env att bytes k d = Some (key, d') \<Longrightarrow> feishu_keeps d d'"
proof (induction k arbitrary: d)
  case (Suc k)
  obtain e where e: "ensure_token env d = Some e" using Suc.prems by (auto split: Option.bind_splits)
  have "feishu_keeps e d'"
  proof (cases "fc_access_token e = None \<or> upload_body att bytes = None")
    case True
    then show ?thesis using Suc.prems e by (auto split: option.splits)
  next
    case False
    then obtain t body where tb: "fc_access_token e = Some t" "upload_body att bytes = Some body" by auto
    then obtain a nt where c: "http_call env answer_fn False (upload_request env e att body) (fc_net e) = Some (a, nt)"
      using Suc.prems e by (auto split: Option.bind_splits)
    have "feishu_keeps e (e\<lparr>fc_net := nt\<rparr>)"
      by (rule call_keeps(1) [OF c]) (simp add: upload_request_def to_platform platform_urls)
    moreover have "feishu_keeps (e\<lparr>fc_net := nt\<rparr>) d'"
    proof (cases "token_expired (http_json env a) \<and> k = 1 \<and> (\<exists>f. feishu_refresh_token env (e\<lparr>fc_net := nt, fc_access_token := None\<rparr>) = Some f
        \<and> upload_attempts env att bytes k f = Some (key, d'))")
      case True
      then obtain f where "feishu_refresh_token env ((e\<lparr>fc_net := nt\<rparr>)\<lparr>fc_access_token := None\<rparr>) = Some f"
          "upload_attempts env att bytes k f = Some (key, d')" by auto
      then show ?thesis using drop_token_keeps Suc.IH feishu_keeps_trans by blast
    next
      case False
      then have "d' = e\<lparr>fc_net := nt\<rparr> \<or> d' = e\<lparr>fc_net := nt, fc_fault := True\<rparr>"
        using Suc.prems e tb c by (auto simp: Let_def split: if_splits elim: bind_keeps)
      then show ?thesis by (auto simp: feishu_keeps_def)
    qed
    ultimately show ?thesis using feishu_keeps_trans by blast
  qed
  then show ?case using ensure_keeps [OF e] feishu_keeps_trans by blast
qed simp

lemma post_keeps:
  "post_attempts env url body k d = Some (ok, d') \<Longrightarrow> starts_with open_platform url \<Longrightarrow> feishu_keeps d d'"
proof (induction k arbitrary: d)
  case (Suc k)
  obtain e where e: "ensure_token env d = Some e" using Suc.prems by (auto split: Option.bind_splits)
  have "feishu_keeps e d'"
  proof (cases "fc_access_token e")
    case None
    then show ?thesis using Suc.prems e by simp
  next
    case (Some t)
    then obtain a nt where c: "http_call env answer_fn False (post_request env e url body) (fc_net e) = Some (a, nt)"
      using Suc.prems e by (auto split: Option.bind_splits)
    have "feishu_keeps e (e\<lparr>fc_net := nt\<rparr>)"
      by (rule call_keeps(1) [OF c]) (simp add: post_request_def to_platform Suc.prems)
    moreover have "feishu_keeps (e\<lparr>fc_net := nt\<rparr>) d'"
    proof (cases "\<exists>f. feishu_refresh_token env (e\<lparr>fc_net := nt, fc_access_token := None\<rparr>) = Some f
        \<and> post_attempts env url body k f = Some (ok, d')")
      case True
      then obtain f where "feishu_refresh_token env ((e\<lparr>fc_net := nt\<rparr>)\<lparr>fc_access_token := None\<rparr>) = Some f"
          "post_attempts env url body k f = Some (ok, d')" by auto
      then show ?thesis using drop_token_keeps Suc.IH Suc.prems(2) feishu_keeps_trans by blast
    next
      case False
      then have "d' = e\<lparr>fc_net := nt\<rparr>"
        using Suc.prems e Some c by (auto simp: Let_def split: if_splits elim: bind_keeps)
      then show ?thesis by simp
    qed
    ultimately show ?thesis using feishu_keeps_trans by blast
  qed
  then show ?case using ensure_keeps [OF e] feishu_keeps_trans by blast
qed simp

lemma send_attachment_keeps: "feishu_send_attachment env t c att bytes d = Some (ok, d') \<Longrightarrow> feishu_keeps d d'"
  by (auto simp: feishu_send_attachment_def feishu_upload_media_def feishu_post_json_with_retry_def
      dest!: upload_keeps post_keeps intro: feishu_keeps_trans platform_urls split: option.splits Option.bind_splits)

lemma attachments_keep: "send_attachments env files c specs d = Some d' \<Longrightarrow> feishu_keeps d d'"
proof (induction specs arbitrary: d)
  case (Cons spec specs)
  then obtain e where e: "(case parse_attachment_spec (ce_parse env) spec of None \<Rightarrow> Some d
      | Some att \<Rightarrow> map_option snd (feishu_send_attachment env (id_type_of c) c att (files (fa_path att)) d)) = Some e"
      "send_attachments env files c specs e = Some d'" by (auto split: Option.bind_splits)
  have "feishu_keeps d e" using e(1) send_attachment_keeps by (auto split: option.splits)
  then show ?case using Cons.IH [OF e(2)] feishu_keeps_trans by blast
qed simp

lemma card_keeps: "create_streaming_card env content d = Some (cid, d') \<Longrightarrow> feishu_keeps d d'"
proof -
  assume "create_streaming_card env content d = Some (cid, d')"
  then obtain e body a nt where e: "ensure_token env d = Some e" "http_call env answer_fn True (post_request env e card_url body) (fc_net e) = Some (a, nt)"
      "d' = e\<lparr>fc_net := nt\<rparr>"
    by (auto simp: create_streaming_card_def Let_def split: Option.bind_splits)
  have "feishu_keeps e d'" unfolding e(3) by (rule call_keeps(1) [OF e(2)]) (simp add: post_request_def to_platform platform_urls)
  then show ?thesis using ensure_keeps [OF e(1)] feishu_keeps_trans by blast
qed

lemma text_keeps: "send_text env c content d = Some d' \<Longrightarrow> feishu_keeps d d'"
  by (auto simp: send_text_def Let_def feishu_post_json_with_retry_def dest!: card_keeps post_keeps intro: feishu_keeps_trans platform_urls
      split: Option.bind_splits if_splits)

lemma feishu_send_keeps: "feishu_send env files msg d = Some d' \<Longrightarrow> feishu_keeps d d'"
  by (auto simp: feishu_send_def dest!: ensure_keeps attachments_keep text_keeps intro: feishu_keeps_trans
      split: Option.bind_splits if_splits)

lemma get_ws_keeps: "get_ws_url env d = Some (u, d') \<Longrightarrow> feishu_keeps d d'"
proof -
  assume "get_ws_url env d = Some (u, d')"
  then obtain e h body a nt where e: "ensure_token env d = Some e" "d' = e\<lparr>fc_net := nt\<rparr>"
      "http_call env answer_fn True (feishu_request env e ''POST'' ''HTTP/1.0'' endpoint_url h body) (fc_net e) = Some (a, nt)"
    by (auto simp: get_ws_url_def Let_def split: Option.bind_splits)
  have "feishu_keeps e d'" unfolding e(2) by (rule call_keeps(1) [OF e(3)]) (simp add: to_platform platform_urls)
  then show ?thesis using ensure_keeps [OF e(1)] feishu_keeps_trans by blast
qed

lemma deliver_keeps: "deliver_all env ms d = Some d' \<Longrightarrow> feishu_keeps d d'"
proof (induction ms arbitrary: d)
  case (Cons m ms)
  then obtain e where "on_feishu_message env m d = Some e" "deliver_all env ms e = Some d'" by (auto split: Option.bind_splits)
  then show ?case using Cons.IH message_keeps feishu_keeps_trans by (cases m) blast
qed simp

lemma after_turn_keeps: "feishu_keeps d (snd (after_turn r a d))"
  by (simp add: after_turn_def Let_def feishu_keeps_def)

lemma feishu_turn_keeps: "feishu_turn r a d = Some (a', d') \<Longrightarrow> feishu_keeps d d'"
proof -
  assume t: "feishu_turn r a d = Some (a', d')"
  then obtain u e where e: "get_ws_url (fr_env r) d = Some (u, e)" by (auto simp: feishu_turn_def split: Option.bind_splits)
  then have "(a', d') = after_turn r (a + 1) e \<or> (\<exists>f. deliver_all (fr_env r) (fr_delivered r) e = Some f \<and> (a', d') = after_turn r 0 f)"
    using t by (auto simp: feishu_turn_def split: if_splits)
  then have "feishu_keeps e d'" using after_turn_keeps deliver_keeps feishu_keeps_trans by (metis snd_conv)
  then show ?thesis using get_ws_keeps [OF e] feishu_keeps_trans by blast
qed

section \<open>The operations\<close>

datatype FeishuOp =
  FsStart client_env | FsStop | FsTurn FeishuRound nat | FsMessage client_env string string string
  | FsSend client_env "string \<Rightarrow> string option" OutboundMessage

fun feishu_op :: "FeishuOp \<Rightarrow> FeishuChannelData \<Rightarrow> FeishuChannelData option" where
  "feishu_op (FsStart env) d = feishu_start env d"
| "feishu_op FsStop d = Some (feishu_stop d)"
| "feishu_op (FsTurn r attempt) d = map_option snd (feishu_turn r attempt d)"
| "feishu_op (FsMessage env chat_id content sender_id) d = on_feishu_message env (chat_id, content, sender_id) d"
| "feishu_op (FsSend env files msg) d = feishu_send env files msg d"

lemma feishu_op_keeps: "feishu_op x d = Some d' \<Longrightarrow> feishu_keeps d d'"
proof (cases x)
  case (FsStart env)
  assume "feishu_op x d = Some d'"
  then have "d' = d \<or> (\<exists>e. feishu_refresh_token env (d\<lparr>fc_running := True\<rparr>) = Some e \<and> d' = e\<lparr>fc_thread := True\<rparr>)"
    using FsStart by (auto simp: feishu_start_def split: if_splits)
  then show ?thesis using feishu_refresh_keeps [of env "d\<lparr>fc_running := True\<rparr>"] by (auto simp: feishu_keeps_def)
next
  case FsStop
  assume "feishu_op x d = Some d'"
  then show ?thesis using FsStop by (auto simp: feishu_stop_def feishu_keeps_def)
qed (auto dest: feishu_turn_keeps message_keeps feishu_send_keeps)

interpretation feishu: vendor_client fc_net feishu_op "\<lambda>_. to_host open_platform"
  by unfold_locales (use feishu_op_keeps in \<open>simp add: feishu_keeps_def\<close>)

text \<open>
  Whatever the channel does, starting from its creation, each of its requests goes to the open platform of the vendor, although the
  address of one of them is made from the id of a user that the other side has chosen.
\<close>
theorem feishu_requests_stay_at_vendor:
  assumes "run_all feishu_op ops (feishu_init garbage cfg bus) = Some d" "r \<in> set (nt_sent (fc_net d))"
  shows "starts_with ''https://open.feishu.cn/'' (rq_url r)"
  using feishu.sent_by [OF assms(1) _ assms(2)] by (simp add: feishu_init_def Let_def open_platform_def to_host_def)

section \<open>The cache that is never set\<close>

lemma ops_keep: "run_all feishu_op ops d = Some d' \<Longrightarrow> feishu_keeps d d'"
proof (induction ops arbitrary: d)
  case (Cons x ops)
  then obtain e where "feishu_op x d = Some e" "run_all feishu_op ops e = Some d'" by (auto split: Option.bind_splits)
  then show ?case using Cons.IH feishu_op_keeps feishu_keeps_trans by blast
qed simp

lemma run_all_append: "run_all run (xs @ ys) s = Option.bind (run_all run xs s) (run_all run ys)"
proof (induction xs arbitrary: s)
  case (Cons x xs)
  then show ?case by (cases "run x s") simp_all
qed simp

text \<open>
  The first message that names its sender reads memory that was never written: the creation of the channel sets neither the array of names nor its count. What the
  channel has done before makes no difference, and nothing later mends it.
\<close>
theorem sender_lookup_reads_unset:
  assumes "run_all feishu_op (before @ FsMessage env chat_id content sender_id # later) (feishu_init garbage cfg bus) = Some d" "sender_id \<noteq> []"
  shows "fc_fault d"
proof -
  let ?i = "feishu_init garbage cfg bus"
  obtain e f where e: "run_all feishu_op before ?i = Some e" "on_feishu_message env (chat_id, content, sender_id) e = Some f"
      "run_all feishu_op later f = Some d"
    using assms(1) by (auto simp: run_all_append split: Option.bind_splits)
  have "\<not> fc_cache_set e" using ops_keep [OF e(1)] by (simp add: feishu_keeps_def feishu_init_def Let_def)
  then have "fc_fault f" using message_keeps [OF e(2)] assms(2) by simp
  then show ?thesis using ops_keep [OF e(3)] by (simp add: feishu_keeps_def)
qed

section \<open>The messages of one post\<close>

lemma refresh_asks: "feishu_refresh_token env d = Some d' \<Longrightarrow> asks [tenant_url] (fc_net d) (fc_net d')"
proof -
  have n: "fc_net (take_tenant_token env a d) = fc_net d" for a d by (simp add: take_tenant_token_def Let_def split: option.split)
  assume "feishu_refresh_token env d = Some d'"
  then show ?thesis using call_asks(2) [of env 10000 True "tenant_request env d"]
    by (auto simp: feishu_refresh_token_def n tenant_request_def feishu_request_def Let_def)
qed

lemma ensure_asks: "ensure_token env d = Some d' \<Longrightarrow> asks [tenant_url] (fc_net d) (fc_net d')"
  by (auto simp: ensure_token_def refresh_asks split: if_splits)

definition last_is :: "string \<Rightarrow> string \<Rightarrow> Net \<Rightarrow> bool" where
  "last_is url body nt \<longleftrightarrow> nt_sent nt \<noteq> [] \<and> rq_url (last (nt_sent nt)) = url \<and> rq_body (last (nt_sent nt)) = body"

text \<open>One attempt: it ends the post, or it has got a new token for the next.\<close>

lemma post_attempt:
  assumes "post_attempts env url body (Suc k) d = Some (ok, d')"
  shows "asks [tenant_url, url] (fc_net d) (fc_net d') \<and> (ok \<longrightarrow> last_is url body (fc_net d')) \<or>
    k = 1 \<and> (\<exists>e f. asks [tenant_url, url] (fc_net d) (fc_net e) \<and> feishu_refresh_token env (e\<lparr>fc_access_token := None\<rparr>) = Some f \<and>
      post_attempts env url body k f = Some (ok, d'))"
proof -
  obtain e where e: "ensure_token env d = Some e" using assms by (auto split: Option.bind_splits)
  note t = ensure_asks [OF e]
  show ?thesis
  proof (cases "fc_access_token e")
    case None
    then have "d' = e" "\<not> ok" using assms e by auto
    then show ?thesis using asks_trans [OF t asks_refl, of "[url]"] by simp
  next
    case (Some tok)
    then obtain a nt where c: "http_call env answer_fn False (post_request env e url body) (fc_net e) = Some (a, nt)"
      using assms e by (auto split: Option.bind_splits)
    have "asks [url] (fc_net e) nt" using call_asks(1) [OF c] by (simp add: post_request_def feishu_request_def)
    then have q: "asks [tenant_url, url] (fc_net d) nt" using asks_trans [OF t] by fastforce
    have l: "last_is url body nt" if "http_json env a \<noteq> None"
      using c that by (auto simp: http_call_def last_is_def post_request_def feishu_request_def http_json_def split: option.splits dest!: after_wait_sent)
    show ?thesis
    proof (cases "http_json env a = None \<or> \<not> code_error (http_json env a) \<or> \<not> (token_expired (http_json env a) \<and> k = 1)")
      case True
      then have "d' = e\<lparr>fc_net := nt\<rparr>" "ok \<longrightarrow> http_json env a \<noteq> None"
        using assms e Some c by (auto simp: Let_def split: if_splits)
      then show ?thesis using q l by simp
    next
      case False
      then obtain f where "feishu_refresh_token env ((e\<lparr>fc_net := nt\<rparr>)\<lparr>fc_access_token := None\<rparr>) = Some f"
          "post_attempts env url body k f = Some (ok, d')"
        using assms e Some c by (auto simp: Let_def split: Option.bind_splits)
      then show ?thesis using False q by (intro disjI2 conjI exI [of _ "e\<lparr>fc_net := nt\<rparr>"] exI [of _ f]) auto
    qed
  qed
qed

text \<open>
  Claim C40. A message is posted at most twice, and what is asked in between and before are new tokens only, at most three of them. When the post counts
  as successful, the last request that was sent is the message.
\<close>
theorem post_at_most_twice:
  assumes "feishu_post_json_with_retry env url body d = Some (ok, d')"
  shows "asks [tenant_url, url, tenant_url, tenant_url, url] (fc_net d) (fc_net d') \<and> (ok \<longrightarrow> last_is url body (fc_net d'))"
proof -
  have p: "post_attempts env url body (Suc 1) d = Some (ok, d')"
    using assms unfolding feishu_post_json_with_retry_def by (metis Suc_1)
  show ?thesis
  proof (cases "asks [tenant_url, url] (fc_net d) (fc_net d') \<and> (ok \<longrightarrow> last_is url body (fc_net d'))")
    case True
    then show ?thesis using asks_trans [of "[tenant_url, url]" "fc_net d" "fc_net d'" "[tenant_url, tenant_url, url]"] by simp
  next
    case False
    then obtain e f where e: "asks [tenant_url, url] (fc_net d) (fc_net e)" "feishu_refresh_token env (e\<lparr>fc_access_token := None\<rparr>) = Some f"
        "post_attempts env url body (Suc 0) f = Some (ok, d')"
      using post_attempt [OF p] by auto
    have "asks [tenant_url] (fc_net e) (fc_net f)" using refresh_asks [OF e(2)] by simp
    moreover have "asks [tenant_url, url] (fc_net f) (fc_net d') \<and> (ok \<longrightarrow> last_is url body (fc_net d'))"
      using post_attempt [OF e(3)] by simp
    ultimately show ?thesis using asks_trans [OF e(1)] asks_trans [of "[tenant_url]"] by fastforce
  qed
qed

section \<open>Names are asked for once\<close>

text \<open>A name that has been found is not asked for again.\<close>

lemma name_asked_once:
  assumes "feishu_get_user_name env open_id d = Some (Some name, d')" "fc_cache_set d"
  shows "feishu_get_user_name env' open_id d' = Some (Some name, d')"
proof -
  have "user_cache_lookup open_id d' = Some name \<and> fc_cache_set d'"
  proof (cases "user_cache_lookup open_id d")
    case (Some n)
    moreover have "user_cache_lookup open_id (d\<lparr>fc_fault := b\<rparr>) = user_cache_lookup open_id d" for b by (simp add: user_cache_lookup_def)
    ultimately show ?thesis using assms by (auto simp: feishu_get_user_name_def Let_def)
  next
    case None
    then obtain e nt where e: "ensure_token env d = Some e" "d' = user_cache_store open_id name (e\<lparr>fc_net := nt\<rparr>)"
      using assms by (auto simp: feishu_get_user_name_def Let_def user_cache_lookup_def split: Option.bind_splits if_splits option.splits)
    have "fc_user_cache e = fc_user_cache d \<and> fc_cache_set e = fc_cache_set d"
      using e(1) by (auto simp: ensure_token_def feishu_refresh_token_def take_tenant_token_def Let_def split: if_splits option.splits)
    then show ?thesis using e(2) None assms(2) by (simp add: user_cache_lookup_def user_cache_store_def find_append)
  qed
  then show ?thesis by (simp add: feishu_get_user_name_def Let_def)
qed

section \<open>Examples\<close>

definition feishu_cfg :: Config where
  "feishu_cfg = config_create\<lparr>cf_plugins := [\<lparr>pcf_id = ''feishu_channel'', pcf_enabled = True,
     pcf_config = Some (JObject [(''app_id'', JString ''i''), (''app_secret'', JString ''s'')])\<rparr>]\<rparr>"

definition feishu_answer :: json where
  "feishu_answer = JObject [(''code'', JNumber 0), (''tenant_access_token'', JString ''t'')]"

definition feishu_msg :: OutboundMessage where
  "feishu_msg = \<lparr>out_channel = ''feishu'', out_chat_id = ''oc_1'', out_content = ''hi'', out_attachments = string_array_new\<rparr>"

lemma feishu_demo_init: "fc_access_token (feishu_init g feishu_cfg b) = None" "fc_app_id (feishu_init g feishu_cfg b) = ''i''"
    "fc_use_card (feishu_init g feishu_cfg b) = False" "nt_sent (fc_net (feishu_init g feishu_cfg b)) = []"
    "fc_user_cache (feishu_init g feishu_cfg b) = g"
  by (simp_all add: feishu_init_def feishu_cfg_def config_get_plugin_config_def config_item_def get_object_item_def json_flag_def json_bool_def
      json_string_def strcaseeq_def tolower_def isupper_def Let_def)

lemma feishu_answer_read:
  "http_json (answering_net feishu_answer) (Some ''{}'') = Some feishu_answer" "code_error (Some feishu_answer) = False"
  "json_string (get_object_item (Some feishu_answer) ''tenant_access_token'') = Some ''t''"
  by (simp_all add: http_json_def answering_net_def feishu_answer_def code_error_def get_object_item_def json_string_def strcaseeq_def tolower_def isupper_def
      json_valueint_def number_valueint_def rat_trunc_def INT_MIN_def INT_MAX_def)

lemma feishu_token_got: "feishu_refresh_token (answering_net feishu_answer) d =
    Some (d\<lparr>fc_net := (fc_net d)\<lparr>nt_sent := nt_sent (fc_net d) @ [tenant_request (answering_net feishu_answer) d]\<rparr>, fc_access_token := Some ''t''\<rparr>)"
  by (simp add: feishu_refresh_token_def answering_calls take_tenant_token_def feishu_answer_read Let_def)

lemma feishu_post_answered: "fc_access_token d = Some t \<Longrightarrow> feishu_post_json_with_retry (answering_net feishu_answer) url body d =
    Some (True, d\<lparr>fc_net := (fc_net d)\<lparr>nt_sent := nt_sent (fc_net d) @ [post_request (answering_net feishu_answer) d url body]\<rparr>\<rparr>)"
  by (simp add: feishu_post_json_with_retry_def eval_nat_numeral ensure_token_def answering_group feishu_answer_read Let_def)

theorem feishu_requests_stay_at_vendor_witness:
  "\<exists>d r. run_all feishu_op [FsStart (answering_net feishu_answer), FsSend (answering_net feishu_answer) Map.empty feishu_msg]
       (feishu_init [] feishu_cfg None) = Some d \<and>
     r \<in> set (nt_sent (fc_net d)) \<and> starts_with ''https://open.feishu.cn/'' (rq_url r)"
proof -
  let ?env = "answering_net feishu_answer" and ?i = "feishu_init [] feishu_cfg None"
  obtain e where e: "feishu_start ?env ?i = Some e" "fc_access_token e = Some ''t''" "fc_app_id e = ''i''" "fc_use_card e = False"
    using feishu_demo_init by (simp add: feishu_start_def feishu_token_got)
  let ?r = "post_request ?env e (messages_url ''chat_id'') (ce_print ?env (feishu_message_json ?env ''oc_1'' ''post'' (post_json ''hi'')))"
  obtain d where d: "feishu_send ?env Map.empty feishu_msg e = Some d" "?r \<in> set (nt_sent (fc_net d))"
    using e(2-) by (simp add: feishu_send_def feishu_msg_def ensure_token_def string_array_new_def send_text_def id_type_of_def starts_with_def
        feishu_post_answered)
  have run: "run_all feishu_op [FsStart ?env, FsSend ?env Map.empty feishu_msg] ?i = Some d" using e(1) d(1) by simp
  show ?thesis using feishu_requests_stay_at_vendor [OF run d(2)] run d(2) by blast
qed

theorem sender_lookup_reads_unset_witness:
  "\<exists>d. run_all feishu_op [FsStart no_net, FsMessage no_net ''oc_1'' ''hi'' ''ou_1'', FsStop] (feishu_init [] feishu_cfg None) = Some d \<and> fc_fault d"
proof -
  have r: "feishu_refresh_token no_net d = Some d" for d
    by (simp add: feishu_refresh_token_def timed_call_def no_net_def take_tenant_token_def http_json_def get_object_item_def json_string_def code_error_def Let_def)
  obtain d where d: "run_all feishu_op [FsStart no_net, FsMessage no_net ''oc_1'' ''hi'' ''ou_1'', FsStop] (feishu_init [] feishu_cfg None) = Some d"
    using feishu_demo_init by (simp add: feishu_start_def r on_feishu_message_def feishu_get_user_name_def user_cache_lookup_def ensure_token_def Let_def)
  then have "run_all feishu_op ([FsStart no_net] @ FsMessage no_net ''oc_1'' ''hi'' ''ou_1'' # [FsStop]) (feishu_init [] feishu_cfg None) = Some d" by simp
  then show ?thesis using sender_lookup_reads_unset [of "[FsStart no_net]" no_net "''oc_1''" "''hi''" "''ou_1''" "[FsStop]"] d by blast
qed

theorem post_at_most_twice_witness:
  "\<exists>d'. feishu_post_json_with_retry (answering_net feishu_answer) card_url ''x'' ((feishu_init [] feishu_cfg None)\<lparr>fc_access_token := Some ''t''\<rparr>) =
     Some (True, d') \<and> last_is card_url ''x'' (fc_net d')"
proof -
  obtain d' where "feishu_post_json_with_retry (answering_net feishu_answer) card_url ''x'' ((feishu_init [] feishu_cfg None)\<lparr>fc_access_token := Some ''t''\<rparr>) =
      Some (True, d')" by (simp add: feishu_post_answered)
  then show ?thesis using post_at_most_twice by blast
qed

end
