(* ===== verification/ChatBots.thy ===== *)
theory ChatBots
  imports DingTalkChannel
begin

text \<open>
  The small channels: \<open>plugins/channels/telegram_channel\<close>, which asks for new messages in a loop, \<open>slack_channel\<close> and \<open>discord_channel\<close>, which
  only send, and \<open>src/channels/console.c\<close>. The first three have a copy of the blocking HTTP client of \<open>HttpClient\<close>, without its
  encryption: none of them calls \<open>mg_tls_init\<close>. A result of \<open>None\<close> is a call that never returns. Memory is taken to be available.
\<close>

section \<open>Telegram\<close>

record TelegramChannelData =
  tg_bus :: "MessageBus option"
  tg_running :: bool
  tg_last_update_id :: int
  tg_token :: string
  tg_dns :: ChannelDns
  tg_net :: Net
  tg_sleeps :: "int list"

definition telegram_init :: "Config \<Rightarrow> MessageBus option \<Rightarrow> TelegramChannelData option" where
  "telegram_init cfg bus =
     (let token = config_item (Option.bind (config_get_plugin_config ''telegram_channel'' (cf_plugins cfg)) pcf_config) ''token''
      in if token = [] then None
         else Some \<lparr>tg_bus = bus, tg_running = False, tg_last_update_id = 0, tg_token = token, tg_dns = channel_dns (Some (cf_dns cfg)),
                    tg_net = \<lparr>nt_sent = [], nt_fault = False\<rparr>, tg_sleeps = []\<rparr>)"

definition telegram_start :: "TelegramChannelData \<Rightarrow> TelegramChannelData" where
  "telegram_start d = d\<lparr>tg_running := True\<rparr>"

definition telegram_stop :: "TelegramChannelData \<Rightarrow> TelegramChannelData" where
  "telegram_stop d = d\<lparr>tg_running := False\<rparr>"

definition telegram_url :: "string \<Rightarrow> string \<Rightarrow> string" where
  "telegram_url token call = c_trunc 512 (''https://api.telegram.org/bot'' @ token @ call)"

definition updates_request :: "client_env \<Rightarrow> TelegramChannelData \<Rightarrow> ClientRequest" where
  "updates_request env d =
     \<lparr>rq_dns = apply_dns_config (ce_dns env) (tg_dns d),
      rq_url = telegram_url (tg_token d) (''/getUpdates?offset='' @ show_int (tg_last_update_id d + 1) @ ''&timeout=30''),
      rq_method = ''GET'', rq_version = ''HTTP/1.0'', rq_headers = [], rq_body = []\<rparr>"

text \<open>The text of a chat id that is neither a number nor a string is that of a null pointer.\<close>

definition chat_id_text :: "json \<Rightarrow> string" where
  "chat_id_text j =
     c_trunc 64 (case j of JNumber n \<Rightarrow> show_int (rat_trunc n) | JString s \<Rightarrow> s | _ \<Rightarrow> ''(null)'')"

definition queue_telegram :: "string \<Rightarrow> string option \<Rightarrow> TelegramChannelData \<Rightarrow> TelegramChannelData" where
  "queue_telegram chat_id content d =
     (case inbound_message_new True (Some ''telegram'') (Some chat_id) content None of
        None \<Rightarrow> d
      | Some msg \<Rightarrow>
          (case message_bus_send_inbound True (tg_bus d) msg of Some (bus, _) \<Rightarrow> d\<lparr>tg_bus := bus\<rparr> | None \<Rightarrow> d))"

definition take_update :: "json \<Rightarrow> TelegramChannelData \<Rightarrow> TelegramChannelData" where
  "take_update item d =
     (let d = (case get_object_item (Some item) ''update_id'' of Some u \<Rightarrow> d\<lparr>tg_last_update_id := json_valueint u\<rparr> | None \<Rightarrow> d);
          message = get_object_item (Some item) ''message''
      in case (get_object_item message ''text'', get_object_item (get_object_item message ''chat'') ''id'') of
           (Some t, Some chat_id) \<Rightarrow> queue_telegram (chat_id_text chat_id) (json_string (Some t)) d
         | _ \<Rightarrow> d)"

definition take_updates :: "json option \<Rightarrow> TelegramChannelData \<Rightarrow> TelegramChannelData" where
  "take_updates resp d =
     (case json_array (get_object_item resp ''result'') of Some items \<Rightarrow> fold take_update items d | None \<Rightarrow> d)"

definition telegram_poll :: "client_env \<Rightarrow> TelegramChannelData \<Rightarrow> TelegramChannelData option" where
  "telegram_poll env d =
     map_option
       (\<lambda>(answer, nt).
          (let d = d\<lparr>tg_net := nt\<rparr>
           in if answer = None then d\<lparr>tg_sleeps := tg_sleeps d @ [5]\<rparr> else take_updates (http_json env answer) d))
       (http_call env answer_fn True (updates_request env d) (tg_net d))"

text \<open>The loop, one network for each turn.\<close>

fun telegram_poller :: "client_env list \<Rightarrow> TelegramChannelData \<Rightarrow> TelegramChannelData option" where
  "telegram_poller [] d = Some d"
| "telegram_poller (env # envs) d =
     (if tg_running d then Option.bind (telegram_poll env d) (telegram_poller envs) else Some d)"

definition telegram_send :: "client_env \<Rightarrow> OutboundMessage \<Rightarrow> TelegramChannelData \<Rightarrow> TelegramChannelData option" where
  "telegram_send env msg d =
     (if out_channel msg \<noteq> ''telegram'' then Some d
      else (let body = ce_print env (JObject [(''chat_id'', JString (out_chat_id msg)), (''text'', JString (out_content msg))])
            in map_option (\<lambda>(_, nt). d\<lparr>tg_net := nt\<rparr>)
                 (http_call env answer_fn False
                    \<lparr>rq_dns = apply_dns_config (ce_dns env) (tg_dns d), rq_url = telegram_url (tg_token d) ''/sendMessage'', rq_method = ''POST'',
                     rq_version = ''HTTP/1.0'', rq_headers = [json_type, content_length body], rq_body = body\<rparr> (tg_net d))))"

section \<open>Slack and Discord\<close>

record BotData =
  bo_running :: bool
  bo_token :: "string option"
  bo_channel_id :: "string option"
  bo_dns :: ChannelDns
  bo_net :: Net

definition bot_item :: "json option \<Rightarrow> string \<Rightarrow> string option" where
  "bot_item pc key = map_option (\<lambda>_. config_item pc key) pc"

definition bot_init :: "string \<Rightarrow> string \<Rightarrow> string option \<Rightarrow> Config \<Rightarrow> BotData" where
  "bot_init plugin_id token_key channel_key cfg =
     (let pc = Option.bind (config_get_plugin_config plugin_id (cf_plugins cfg)) pcf_config
      in \<lparr>bo_running = False, bo_token = bot_item pc token_key, bo_channel_id = Option.bind channel_key (bot_item pc),
          bo_dns = channel_dns (Some (cf_dns cfg)), bo_net = \<lparr>nt_sent = [], nt_fault = False\<rparr>\<rparr>)"

definition slack_init :: "Config \<Rightarrow> BotData" where
  "slack_init = bot_init ''slack_channel'' ''bot_token'' None"

definition discord_init :: "Config \<Rightarrow> BotData" where
  "discord_init = bot_init ''discord_channel'' ''token'' (Some ''channel_id'')"

definition bot_start :: "BotData \<Rightarrow> BotData" where
  "bot_start d = (if str_or_empty (bo_token d) = [] then d else d\<lparr>bo_running := True\<rparr>)"

definition bot_stop :: "BotData \<Rightarrow> BotData" where
  "bot_stop d = d\<lparr>bo_running := False\<rparr>"

definition bot_post :: "client_env \<Rightarrow> string \<Rightarrow> (string \<times> string) list \<Rightarrow> json \<Rightarrow> BotData \<Rightarrow> BotData option" where
  "bot_post env url headers j d =
     (let body = ce_print env j
      in map_option (\<lambda>(_, nt). d\<lparr>bo_net := nt\<rparr>)
           (http_call env answer_fn False
              \<lparr>rq_dns = apply_dns_config (ce_dns env) (bo_dns d), rq_url = url, rq_method = ''POST'', rq_version = ''HTTP/1.0'',
               rq_headers = headers @ [content_length body], rq_body = body\<rparr> (bo_net d)))"

definition slack_send :: "client_env \<Rightarrow> OutboundMessage \<Rightarrow> BotData \<Rightarrow> BotData option" where
  "slack_send env msg d =
     (if str_or_empty (bo_token d) = [] \<or> out_channel msg \<noteq> ''slack'' then Some d
      else bot_post env ''https://slack.com/api/chat.postMessage''
             [(''Authorization'', ''Bearer '' @ str_or_empty (bo_token d)), (''Content-Type'', ''application/json; charset=utf-8'')]
             (JObject [(''channel'', JString (out_chat_id msg)), (''text'', JString (out_content msg))]) d)"

definition discord_url :: "string \<Rightarrow> string" where
  "discord_url chat_id = c_trunc 512 (''https://discord.com/api/v10/channels/'' @ chat_id @ ''/messages'')"

definition discord_send :: "client_env \<Rightarrow> OutboundMessage \<Rightarrow> BotData \<Rightarrow> BotData option" where
  "discord_send env msg d =
     (if str_or_empty (bo_token d) = [] \<or> out_channel msg \<noteq> ''discord'' then Some d
      else bot_post env (discord_url (out_chat_id msg))
             [(''Authorization'', ''Bot '' @ str_or_empty (bo_token d)), json_type, (''User-Agent'', ''Primagen/1.0'')]
             (JObject [(''content'', JString (out_content msg))]) d)"

section \<open>The console\<close>

record ConsoleData =
  co_bus :: "MessageBus option"
  co_running :: bool
  co_thread_started :: bool
  co_printed :: string

definition console_init :: "MessageBus option \<Rightarrow> ConsoleData" where
  "console_init bus = \<lparr>co_bus = bus, co_running = False, co_thread_started = False, co_printed = []\<rparr>"

definition console_start :: "bool \<Rightarrow> ConsoleData \<Rightarrow> ConsoleData" where
  "console_start thread_ok d = (if thread_ok then d\<lparr>co_running := True, co_thread_started := True\<rparr> else d\<lparr>co_running := False\<rparr>)"

definition console_stop :: "ConsoleData \<Rightarrow> ConsoleData" where
  "console_stop d = d\<lparr>co_running := False\<rparr>"

definition queue_console :: "string \<Rightarrow> string \<Rightarrow> ConsoleData \<Rightarrow> ConsoleData" where
  "queue_console channel content d =
     (case inbound_message_new True (Some channel) (Some ''local_user'') (Some content) None of
        None \<Rightarrow> d
      | Some msg \<Rightarrow>
          (case message_bus_send_inbound True (co_bus d) msg of Some (bus, _) \<Rightarrow> d\<lparr>co_bus := bus\<rparr> | None \<Rightarrow> d))"

text \<open>What \<open>fgets\<close> gives for each read of a buffer of 1024 bytes, as C texts.\<close>

fun console_input_loop :: "string list \<Rightarrow> ConsoleData \<Rightarrow> ConsoleData" where
  "console_input_loop [] d = d"
| "console_input_loop (s # ss) d =
     (if \<not> co_running d then d
      else (let line = takeWhile (\<lambda>c. c \<noteq> CHR 0x0A) s
            in if line = ''exit'' then queue_console ''system'' ''exit'' (d\<lparr>co_running := False\<rparr>)
               else console_input_loop ss (if line \<noteq> [] then queue_console ''console'' line d else d)))"

definition console_send :: "OutboundMessage \<Rightarrow> ConsoleData \<Rightarrow> ConsoleData" where
  "console_send msg d =
     (if out_channel msg \<in> {''console'', ''cli''}
      then d\<lparr>co_printed := co_printed d @ [CHR 0x0A] @ ''Assistant: '' @ out_content msg @ [CHR 0x0A] @ ''> ''\<rparr> else d)"

section \<open>Each update is handed over once\<close>

text \<open>The service keeps a list of updates: JSON objects with a number, and whatever else they report.\<close>

definition update_id :: "json \<Rightarrow> int" where
  "update_id u = (case get_object_item (Some u) ''update_id'' of Some j \<Rightarrow> json_valueint j | None \<Rightarrow> 0)"

definition numbered :: "json \<Rightarrow> bool" where
  "numbered u \<longleftrightarrow> get_object_item (Some u) ''update_id'' \<noteq> None \<and> 0 < update_id u"

definition updates_json :: "json list \<Rightarrow> json" where
  "updates_json us = JObject [(''result'', JArray us)]"

text \<open>
  What the service documents: the answer to a request holds some of the updates from the asked one on, the oldest first. It may hold fewer than there are,
  but none only when there are none and the request has waited for too long.
\<close>

definition serves :: "string \<Rightarrow> json list \<Rightarrow> client_env \<Rightarrow> bool" where
  "serves token updates env \<longleftrightarrow>
     (\<forall>d. tg_token d = token \<and> 0 \<le> tg_last_update_id d \<and> tg_last_update_id d < 2 ^ 31 \<longrightarrow>
        (\<exists>answer nt k. k > 0 \<and> http_call env answer_fn True (updates_request env d) (tg_net d) = Some (Some answer, nt) \<and>
           http_json env (Some answer) = Some (updates_json (take k (filter (\<lambda>u. tg_last_update_id d < update_id u) updates)))))"

text \<open>A turn that fails: no connection, an error, or an answer without a list of updates, such as a refusal.\<close>

definition fails :: "string \<Rightarrow> client_env \<Rightarrow> bool" where
  "fails token env \<longleftrightarrow>
     (\<forall>d. tg_token d = token \<longrightarrow>
        (\<exists>answer nt. http_call env answer_fn True (updates_request env d) (tg_net d) = Some (answer, nt) \<and>
           json_array (get_object_item (http_json env answer) ''result'') = None))"

text \<open>A turn serves from the updates that the service holds by then, or it fails.\<close>

definition turn :: "string \<Rightarrow> json list option \<Rightarrow> client_env \<Rightarrow> bool" where
  "turn token known env \<longleftrightarrow> (case known of Some us \<Rightarrow> serves token us env | None \<Rightarrow> fails token env)"

text \<open>What the bus is handed for an update: a message for one with a text, and nothing for any other.\<close>

definition deliver_update :: "json \<Rightarrow> MessageBus option \<Rightarrow> MessageBus option" where
  "deliver_update u bus =
     (let message = get_object_item (Some u) ''message''
      in case (get_object_item message ''text'', get_object_item (get_object_item message ''chat'') ''id'') of
           (Some t, Some chat) \<Rightarrow>
             (case inbound_message_new True (Some ''telegram'') (Some (chat_id_text chat)) (json_string (Some t)) None of
                None \<Rightarrow> bus
              | Some msg \<Rightarrow> (case message_bus_send_inbound True bus msg of Some (bus', _) \<Rightarrow> bus' | None \<Rightarrow> bus))
         | _ \<Rightarrow> bus)"

lemma queue_telegram_parts:
  "tg_running (queue_telegram c t d) = tg_running d" "tg_token (queue_telegram c t d) = tg_token d"
  "tg_last_update_id (queue_telegram c t d) = tg_last_update_id d"
  by (auto simp: queue_telegram_def split: option.split)

lemma take_update_json:
  assumes "numbered u"
  shows "tg_bus (take_update u d) = deliver_update u (tg_bus d)" "tg_running (take_update u d) = tg_running d"
    "tg_token (take_update u d) = tg_token d" "tg_last_update_id (take_update u d) = update_id u"
  using assms
  by (auto simp: numbered_def update_id_def take_update_def deliver_update_def Let_def queue_telegram_parts split: option.split)
    (auto simp: queue_telegram_def split: option.split)

lemma take_batch:
  assumes "\<forall>u \<in> set us. numbered u"
  shows "tg_bus (fold take_update us d) = fold deliver_update us (tg_bus d)"
    "tg_running (fold take_update us d) = tg_running d"
    "tg_token (fold take_update us d) = tg_token d"
    "tg_last_update_id (fold take_update us d) = (if us = [] then tg_last_update_id d else update_id (last us))"
  using assms by (induction us arbitrary: d) (simp_all add: take_update_json)

text \<open>The updates that are left after the first \<open>m\<close>.\<close>

definition last_id :: "json list \<Rightarrow> nat \<Rightarrow> int" where
  "last_id updates m = (if m = 0 then 0 else update_id (updates ! (m - 1)))"

lemma id_order:
  assumes "sorted_wrt (<) (map update_id updates)" "\<forall>u \<in> set updates. 0 < update_id u" "m \<le> length updates" "i < length updates"
  shows "last_id updates m < update_id (updates ! i) \<longleftrightarrow> m \<le> i"
proof (cases m)
  case 0
  then show ?thesis using assms(2,4) by (simp add: last_id_def)
next
  case (Suc k)
  have less: "update_id (updates ! a) < update_id (updates ! b)" if "a < b" "b < length updates" for a b
    using assms(1) that by (auto simp: sorted_wrt_iff_nth_less)
  show ?thesis
  proof (cases "k < i")
    case True
    then show ?thesis using less [of k i] assms(4) Suc by (simp add: last_id_def)
  next
    case False
    then have "update_id (updates ! i) \<le> update_id (updates ! k)" using less [of i k] assms(3) Suc by (cases "i = k") auto
    then show ?thesis using False Suc by (simp add: last_id_def)
  qed
qed

lemma pending_updates:
  assumes "sorted_wrt (<) (map update_id updates)" "\<forall>u \<in> set updates. 0 < update_id u" "m \<le> length updates" "prefix known updates"
  shows "filter (\<lambda>u. last_id updates m < update_id u) known = drop m known"
proof -
  have k: "known ! i = updates ! i" "i < length updates" if "i < length known" for i
    using assms(4) that by (auto simp: prefix_def nth_append)
  have "\<not> last_id updates m < update_id x" if x: "x \<in> set (take m known)" for x
  proof -
    obtain i where "i < length (take m known)" "x = take m known ! i" using x unfolding in_set_conv_nth by blast
    then have "i < m" "i < length known" "x = known ! i" by simp_all
    then show ?thesis using id_order [OF assms(1-3), of i] k [of i] by simp
  qed
  then have "filter (\<lambda>u. last_id updates m < update_id u) (take m known) = []" by (simp add: filter_empty_conv)
  moreover have "last_id updates m < update_id x" if x: "x \<in> set (drop m known)" for x
  proof -
    obtain i where "i < length (drop m known)" "x = drop m known ! i" using x unfolding in_set_conv_nth by blast
    then have "m + i < length known" "x = known ! (m + i)" by simp_all
    then show ?thesis using id_order [OF assms(1-3), of "m + i"] k [of "m + i"] by simp
  qed
  then have "filter (\<lambda>u. last_id updates m < update_id u) (drop m known) = drop m known" by (simp add: filter_id_conv)
  ultimately show ?thesis by (metis append_Nil append_take_drop_id filter_append)
qed

definition caught_up :: "string \<Rightarrow> json list \<Rightarrow> MessageBus option \<Rightarrow> nat \<Rightarrow> TelegramChannelData \<Rightarrow> bool" where
  "caught_up token updates bus m d \<longleftrightarrow>
     m \<le> length updates \<and> tg_running d \<and> tg_token d = token \<and> tg_last_update_id d = last_id updates m \<and>
     tg_bus d = fold deliver_update (take m updates) bus"

lemma update_id_range: "update_id u < 2 ^ 31"
proof -
  have "number_valueint n < 2 ^ 31" for n
  proof (cases "n < of_int INT_MAX \<and> n > of_int INT_MIN")
    case True
    then have "rat_trunc n \<le> INT_MAX" by (auto simp: rat_trunc_def floor_le_iff ceiling_le_iff INT_MAX_def INT_MIN_def)
    then show ?thesis using True by (simp add: number_valueint_def INT_MAX_def INT_MIN_def)
  qed (auto simp: number_valueint_def INT_MAX_def INT_MIN_def)
  then show ?thesis by (auto simp: update_id_def json_valueint_def split: option.split json.split bool.split)
qed

lemma failed_poll:
  assumes "caught_up token updates bus m d" "fails token env"
  shows "\<exists>d'. telegram_poll env d = Some d' \<and> caught_up token updates bus m d'"
proof -
  obtain answer nt where "http_call env answer_fn True (updates_request env d) (tg_net d) = Some (answer, nt)"
      "json_array (get_object_item (http_json env answer) ''result'') = None"
    using assms unfolding fails_def caught_up_def by blast
  then show ?thesis using assms(1) by (simp add: telegram_poll_def take_updates_def caught_up_def Let_def)
qed

lemma poll_catches_up:
  assumes "caught_up token updates bus m d" "serves token known env" "prefix known updates" "sorted_wrt (<) (map update_id updates)"
    "\<forall>u \<in> set updates. numbered u"
  shows "\<exists>d' m'. telegram_poll env d = Some d' \<and> min (Suc m) (length known) \<le> m' \<and> m \<le> m' \<and> caught_up token updates bus m' d'"
proof -
  let ?last = "tg_last_update_id d"
  have last: "?last = last_id updates m" "m \<le> length updates" "tg_running d" "tg_token d = token"
      "tg_bus d = fold deliver_update (take m updates) bus"
    using assms(1) by (simp_all add: caught_up_def)
  have range: "0 \<le> ?last \<and> ?last < 2 ^ 31"
  proof (cases m)
    case (Suc k)
    then have "updates ! k \<in> set updates" using last(2) by simp
    then show ?thesis using assms(5) Suc last(1) update_id_range [of "updates ! k"] by (fastforce simp: last_id_def numbered_def)
  qed (simp add: last last_id_def)
  then obtain answer nt k where a: "k > 0" "http_call env answer_fn True (updates_request env d) (tg_net d) = Some (Some answer, nt)"
      "http_json env (Some answer) = Some (updates_json (take k (filter (\<lambda>u. ?last < update_id u) known)))"
    using assms(2) last(4) unfolding serves_def by blast
  define us where "us = take k (drop m known)"
  have us: "filter (\<lambda>u. ?last < update_id u) known = drop m known" using pending_updates [OF assms(4) _ last(2) assms(3)] assms(5) last(1) by (simp add: numbered_def)
  have "prefix (drop m known) (drop m updates)" using assms(3) by (auto simp: prefix_def)
  then have "prefix us (drop m updates)" unfolding us_def using take_is_prefix prefix_order.trans by blast
  then obtain rest where rest: "drop m updates = us @ rest" by (auto simp: prefix_def)
  let ?d = "d\<lparr>tg_net := nt\<rparr>" and ?m = "m + length us"
  have sub: "\<forall>u \<in> set us. numbered u"
    using assms(5) rest by (metis UnCI in_set_dropD set_append)
  have m: "?m \<le> length updates" "take ?m updates = take m updates @ us"
    using rest last(2) by (metis append_take_drop_id length_append length_take min.absorb2 le_add1 add_le_cancel_left,
        metis append_eq_conv_conj take_add)
  have "telegram_poll env d = Some (fold take_update us ?d)"
    using a(2,3) us by (simp add: telegram_poll_def take_updates_def updates_json_def get_object_item_def json_array_def us_def Let_def)
  moreover have "tg_last_update_id (fold take_update us ?d) = last_id updates ?m"
  proof (cases "us = []")
    case False
    have "updates ! (m + j) = us ! j" if "j < length us" for j
      using rest that last(2) by (metis nth_append nth_drop)
    then have "updates ! (?m - 1) = last us" using False
      by (metis Nat.add_diff_assoc One_nat_def Suc_leI diff_less last_conv_nth length_greater_0_conv zero_less_one)
    then show ?thesis using False by (simp add: take_batch(4) [OF sub] last_id_def)
  qed (simp add: last)
  moreover have "caught_up token updates bus ?m (fold take_update us ?d)"
    using m(1) last calculation(2) by (simp add: caught_up_def take_batch [OF sub] m(2) del: take_append)
  moreover have "min (Suc m) (length known) \<le> ?m" using a(1) by (simp add: us_def)
  ultimately show ?thesis by (intro exI [of _ "fold take_update us ?d"] exI [of _ ?m]) simp
qed

abbreviation served :: "json list option list \<Rightarrow> nat" where
  "served logs \<equiv> length (filter (\<lambda>log. log \<noteq> None) logs)"

lemma poller_catches_up:
  assumes "caught_up token updates bus m d" "list_all2 (turn token) logs envs"
    and "\<forall>known. Some known \<in> set logs \<longrightarrow> prefix known updates \<and> n \<le> length known"
    and "sorted_wrt (<) (map update_id updates)" "\<forall>u \<in> set updates. numbered u"
  shows "\<exists>d' m'. telegram_poller envs d = Some d' \<and> min (m + served logs) n \<le> m' \<and> m \<le> m' \<and> caught_up token updates bus m' d'"
  using assms(2,1,3)
proof (induction arbitrary: d m rule: list_all2_induct)
  case Nil
  then show ?case by (auto intro!: exI [of _ m])
next
  case (Cons log logs env envs)
  have "\<exists>d1 m1. telegram_poll env d = Some d1 \<and> min (m + served [log]) n \<le> m1 \<and> m \<le> m1 \<and> caught_up token updates bus m1 d1"
  proof (cases log)
    case None
    then obtain d1 where "telegram_poll env d = Some d1" "caught_up token updates bus m d1"
      using failed_poll [OF Cons.prems(1)] Cons.hyps(1) by (auto simp: turn_def)
    then show ?thesis using None by (auto intro!: exI [of _ m])
  next
    case (Some known)
    then have k: "serves token known env" "prefix known updates" "n \<le> length known" using Cons.hyps(1) Cons.prems(2) by (simp_all add: turn_def)
    obtain d1 m1 where "telegram_poll env d = Some d1" "min (Suc m) (length known) \<le> m1" "m \<le> m1" "caught_up token updates bus m1 d1"
      using poll_catches_up [OF Cons.prems(1) k(1,2) assms(4,5)] by blast
    then show ?thesis using Some k(3) by (intro exI [of _ d1] exI [of _ m1]) auto
  qed
  then obtain d1 m1 where d1: "telegram_poll env d = Some d1" "min (m + served [log]) n \<le> m1" "m \<le> m1" "caught_up token updates bus m1 d1"
    by blast
  obtain d' m' where d': "telegram_poller envs d1 = Some d'" "min (m1 + served logs) n \<le> m'" "m1 \<le> m'" "caught_up token updates bus m' d'"
    using Cons.IH [OF d1(4)] Cons.prems(2) by auto
  have "tg_running d" using Cons.prems(1) by (simp add: caught_up_def)
  then have "telegram_poller (env # envs) d = Some d'" using d1(1) d'(1) by simp
  moreover have "min (m + served (log # logs)) n \<le> m'" using d1(2) d'(2,3) by (auto split: if_splits)
  ultimately show ?case using d'(4) d1(3) d'(3) by (meson le_trans)
qed

text \<open>
  Claim C17. However the service divides its updates into answers, whatever arrives between two requests, and whichever turns fail, with no connection, an error or an answer
  without updates, after any number of turns the bus has received the messages of the first updates, each once and in their order, the next
  request asks for the first update that it has not received, and at least one more of the updates that were there from the beginning has
  come with each turn that did not fail. Each update is an object with a positive number, in increasing order; those without a text hand over nothing. The claim is on turns
  whose request comes to an end. (The program never starts the encryption that its address asks for, so with the real service each of
  its turns is one that fails.)
\<close>
theorem telegram_updates_once:
  assumes "telegram_init cfg bus = Some d" "list_all2 (turn (tg_token d)) logs envs"
    and "\<forall>known. Some known \<in> set logs \<longrightarrow> prefix known updates \<and> n \<le> length known"
    and "sorted_wrt (<) (map update_id updates)" "\<forall>u \<in> set updates. numbered u"
  shows "\<exists>d' m. telegram_poller envs (telegram_start d) = Some d' \<and> min (served logs) n \<le> m \<and> m \<le> length updates \<and>
    tg_bus d' = fold deliver_update (take m updates) bus \<and> tg_last_update_id d' = last_id updates m"
proof -
  have "caught_up (tg_token d) updates bus 0 (telegram_start d)"
    using assms(1) by (auto simp: telegram_init_def telegram_start_def caught_up_def last_id_def Let_def split: if_splits)
  from poller_catches_up [OF this assms(2-5)] show ?thesis by (auto simp: caught_up_def)
qed

definition first_update :: json where
  "first_update = JObject [(''update_id'', JNumber 1),
     (''message'', JObject [(''chat'', JObject [(''id'', JNumber 5)]), (''text'', JString ''a'')])]"

definition second_update :: json where
  "second_update = JObject [(''poll'', JNull), (''update_id'', JNumber 2)]"

definition two_updates :: "json list" where
  "two_updates = [first_update, second_update]"

lemma two_update_ids: "update_id first_update = 1" "update_id second_update = 2" "numbered first_update" "numbered second_update"
  by (simp_all add: numbered_def update_id_def first_update_def second_update_def get_object_item_def strcaseeq_def tolower_def isupper_def
      json_valueint_def number_valueint_def INT_MAX_def INT_MIN_def rat_trunc_def)

definition demo_updates_url :: "int \<Rightarrow> string" where
  "demo_updates_url v = telegram_url ''T'' (''/getUpdates?offset='' @ show_int (v + 1) @ ''&timeout=30'')"

text \<open>A service that gives one update with each answer.\<close>

definition one_by_one :: client_env where
  "one_by_one =
     no_net\<lparr>ce_connect := (\<lambda>_ rq.
         Some \<lparr>cn_polls = (\<lambda>_. [GotMsg (if rq_url rq = demo_updates_url 0 then ''0'' else if rq_url rq = demo_updates_url 1 then ''1'' else ''2'')]),
           cn_at_free = (\<lambda>_. []), cn_clock = (\<lambda>_. 0)\<rparr>),
       ce_parse := (\<lambda>s. Some (updates_json (if s = ''0'' then [first_update] else if s = ''1'' then [second_update] else [])))\<rparr>"

lemma demo_updates_url_eq:
  assumes "0 \<le> v" "v < 2 ^ 31" "0 \<le> w" "w < 2 ^ 31"
  shows "demo_updates_url v = demo_updates_url w \<longleftrightarrow> v = w"
proof -
  have short: "length (show_int (x + 1)) \<le> 19" if "0 \<le> x" "x < 2 ^ 31" for x
  proof -
    have "nat (x + 1) < 10 ^ 19" using that by simp
    then show ?thesis using that by (simp add: show_int_def length_nat_digits)
  qed
  have whole: "demo_updates_url x = ''https://api.telegram.org/bot'' @ ''T'' @ ''/getUpdates?offset='' @ show_int (x + 1) @ ''&timeout=30''"
    if "0 \<le> x" "x < 2 ^ 31" for x
  proof -
    have "length (''https://api.telegram.org/bot'' @ ''T'' @ ''/getUpdates?offset='' @ show_int (x + 1) @ ''&timeout=30'') \<le> 512 - 1"
      using short [OF that] by simp
    then show ?thesis unfolding demo_updates_url_def telegram_url_def c_trunc_def by (rule take_all)
  qed
  have "demo_updates_url v = demo_updates_url w \<longleftrightarrow> show_int (v + 1) = show_int (w + 1)"
    using assms by (simp add: whole)
  also have "\<dots> \<longleftrightarrow> v = w"
  proof -
    have "fst (strtol (show_int (v + 1))) = v + 1" "fst (strtol (show_int (w + 1))) = w + 1"
      using assms by (intro show_int_read; simp)+
    then show ?thesis by (metis add_right_cancel)
  qed
  finally show ?thesis .
qed

lemma one_by_one_serves: "serves ''T'' two_updates one_by_one"
  unfolding serves_def
proof (intro allI impI)
  fix d :: TelegramChannelData
  let ?v = "tg_last_update_id d"
  let ?body = "if ?v = 0 then ''0'' else if ?v = 1 then ''1'' else ''2''"
  assume d: "tg_token d = ''T'' \<and> 0 \<le> ?v \<and> ?v < 2 ^ 31"
  have "rq_url (updates_request one_by_one d) = demo_updates_url ?v" using d by (simp add: updates_request_def demo_updates_url_def)
  then have "\<exists>nt. http_call one_by_one answer_fn True (updates_request one_by_one d) (tg_net d) = Some (Some ?body, nt)"
    using d demo_updates_url_eq [of ?v 0] demo_updates_url_eq [of ?v 1]
    by (auto simp: http_call_def one_by_one_def after_wait_def wait_answer.simps [of _ _ 0] wait_answer.simps [of _ _ "Suc 0"] poll_def
        library_step_def answer_fn_def finish_wait_def memory_append_chunk_def wait_new_def)
  moreover have "http_json one_by_one (Some ?body) = Some (updates_json (take 1 (filter (\<lambda>u. ?v < update_id u) two_updates)))"
    using d by (auto simp: http_json_def one_by_one_def two_updates_def two_update_ids c_string_def)
  ultimately show "\<exists>answer nt k. 0 < k \<and> http_call one_by_one answer_fn True (updates_request one_by_one d) (tg_net d) = Some (Some answer, nt) \<and>
      http_json one_by_one (Some answer) = Some (updates_json (take k (filter (\<lambda>u. ?v < update_id u) two_updates)))"
    by (metis zero_less_one)
qed

definition telegram_cfg :: Config where
  "telegram_cfg = config_create\<lparr>cf_plugins := [\<lparr>pcf_id = ''telegram_channel'', pcf_enabled = True,
     pcf_config = Some (JObject [(''token'', JString ''T'')])\<rparr>]\<rparr>"

definition new_bus :: "MessageBus option" where
  "new_bus = message_bus_new True True True True"

lemma no_net_fails: "fails token no_net"
  by (simp add: fails_def http_call_def no_net_def http_json_def get_object_item_def json_array_def)

theorem telegram_updates_once_witness:
  "\<exists>d d'. telegram_init telegram_cfg new_bus = Some d \<and> telegram_poller [one_by_one, no_net, one_by_one] (telegram_start d) = Some d' \<and>
     tg_bus d' = fold deliver_update [first_update, second_update] new_bus \<and> tg_last_update_id d' = 2"
proof -
  obtain d where d: "telegram_init telegram_cfg new_bus = Some d" "tg_token d = ''T''"
    by (simp add: telegram_init_def telegram_cfg_def config_get_plugin_config_def config_item_def get_object_item_def json_string_def
        strcaseeq_def tolower_def isupper_def Let_def)
  let ?envs = "[one_by_one, no_net, one_by_one]"
  have "list_all2 (turn (tg_token d)) [Some two_updates, None, Some two_updates] ?envs"
    using one_by_one_serves no_net_fails d(2) by (simp add: turn_def)
  from telegram_updates_once [OF d(1) this, of two_updates 2]
  have "\<exists>d' m. telegram_poller ?envs (telegram_start d) = Some d' \<and> 2 \<le> m \<and> m \<le> length two_updates \<and>
      tg_bus d' = fold deliver_update (take m two_updates) new_bus \<and> tg_last_update_id d' = last_id two_updates m"
    by (simp add: two_updates_def two_update_ids numeral_2_eq_2 del: telegram_poller.simps)
  then obtain d' m where r: "telegram_poller ?envs (telegram_start d) = Some d'" "2 \<le> m"
      "m \<le> length two_updates" "tg_bus d' = fold deliver_update (take m two_updates) new_bus" "tg_last_update_id d' = last_id two_updates m"
    by blast
  then have "m = 2" by (simp add: two_updates_def)
  then show ?thesis using d(1) r by (auto simp: two_updates_def two_update_ids last_id_def simp del: telegram_poller.simps)
qed

section \<open>The tokens of Slack and Discord\<close>

text \<open>The operations of either channel: starting, stopping, and sending a message on some network.\<close>

datatype BotOp = BotStart | BotStop | BotSend client_env OutboundMessage

definition bot_op :: "(client_env \<Rightarrow> OutboundMessage \<Rightarrow> BotData \<Rightarrow> BotData option) \<Rightarrow> BotOp \<Rightarrow> BotData \<Rightarrow> BotData option" where
  "bot_op send x d = (case x of BotStart \<Rightarrow> Some (bot_start d) | BotStop \<Rightarrow> Some (bot_stop d) | BotSend env msg \<Rightarrow> send env msg d)"

lemma bot_post_sends:
  assumes "bot_post env url headers j d = Some d'" "starts_with host url"
  shows "sends_only (to_host host) (bo_net d) (bo_net d')"
  using assms call_sends(1) [where p = "to_host host"] by (auto simp: bot_post_def Let_def to_host_def)

lemma bot_op_sends:
  assumes "\<And>env msg d d'. send env msg d = Some d' \<Longrightarrow> sends_only p (bo_net d) (bo_net d')" "bot_op send x d = Some d'"
  shows "sends_only p (bo_net d) (bo_net d')"
  using assms by (auto simp: bot_op_def bot_start_def bot_stop_def split: BotOp.splits if_splits)

definition slack_host :: string where
  "slack_host = ''https://slack.com/''"

definition discord_host :: string where
  "discord_host = ''https://discord.com/''"

lemma bot_urls: "starts_with slack_host ''https://slack.com/api/chat.postMessage''" "starts_with discord_host (discord_url chat_id)"
  by (simp_all add: starts_with_def slack_host_def discord_host_def discord_url_def c_trunc_def)

lemma bot_sends:
  "slack_send env msg d = Some d' \<Longrightarrow> sends_only (to_host slack_host) (bo_net d) (bo_net d')"
  "discord_send env msg d = Some d' \<Longrightarrow> sends_only (to_host discord_host) (bo_net d) (bo_net d')"
  unfolding slack_send_def discord_send_def
  by (metis bot_post_sends bot_urls(1) option.inject sends_only_refl, metis bot_post_sends bot_urls(2) option.inject sends_only_refl)

interpretation slack: vendor_client bo_net "bot_op slack_send" "\<lambda>_. to_host slack_host"
  by unfold_locales (rule bot_op_sends [OF bot_sends(1)])

interpretation discord: vendor_client bo_net "bot_op discord_send" "\<lambda>_. to_host discord_host"
  by unfold_locales (rule bot_op_sends [OF bot_sends(2)])

text \<open>
  Whatever the two channels do, each of their requests goes to the programs of its vendor, also when a tool names a chat id with a path of its own.
\<close>

lemma bot_requests_stay:
  "run_all (bot_op slack_send) ops (slack_init cfg) = Some d \<Longrightarrow> r \<in> set (nt_sent (bo_net d)) \<Longrightarrow> starts_with slack_host (rq_url r)"
  "run_all (bot_op discord_send) ops (discord_init cfg) = Some d \<Longrightarrow> r \<in> set (nt_sent (bo_net d)) \<Longrightarrow>
    starts_with discord_host (rq_url r)"
  using slack.sent_by [of ops "slack_init cfg" d r] discord.sent_by [of ops "discord_init cfg" d r]
  by (auto simp: slack_init_def discord_init_def bot_init_def Let_def to_host_def)

section \<open>The lines of the console\<close>

text \<open>One call of \<open>fgets\<close> with the buffer of 1024 bytes, and all calls until the end of the input.\<close>

definition fgets_console :: "string \<Rightarrow> string" where
  "fgets_console s =
     (let block = take 1023 s; line = takeWhile (\<lambda>c. c \<noteq> CHR 0x0A) block
      in if length line < length block then line @ [CHR 0x0A] else block)"

lemma fgets_console_some: "s \<noteq> [] \<Longrightarrow> 0 < length (fgets_console s)"
  by (simp add: fgets_console_def Let_def)

function console_reads :: "string \<Rightarrow> string list" where
  "console_reads s = (if s = [] then [] else fgets_console s # console_reads (drop (length (fgets_console s)) s))"
  by auto
termination
  by (relation "measure length") (use fgets_console_some in \<open>auto simp: diff_less\<close>)

declare console_reads.simps [simp del]

definition console_run :: "string \<Rightarrow> ConsoleData \<Rightarrow> ConsoleData" where
  "console_run stdin d = console_input_loop (map c_string (console_reads stdin)) d"

definition console_line :: "string \<Rightarrow> bool" where
  "console_line l \<longleftrightarrow> length l \<le> 1022 \<and> CHR 0x0A \<notin> set l \<and> CHR 0x00 \<notin> set l"

lemma read_line:
  assumes "console_line l"
  shows "console_reads (l @ CHR 0x0A # rest) = (l @ [CHR 0x0A]) # console_reads rest"
proof -
  have "takeWhile (\<lambda>c. c \<noteq> CHR 0x0A) (take 1023 (l @ CHR 0x0A # rest)) = l"
    using assms by (auto simp: console_line_def takeWhile_append take_Cons' takeWhile_eq_all_conv)
  moreover have "length l < length (take 1023 (l @ CHR 0x0A # rest))" using assms by (simp add: console_line_def)
  ultimately have "fgets_console (l @ CHR 0x0A # rest) = l @ [CHR 0x0A]" by (simp add: fgets_console_def Let_def)
  then show ?thesis by (simp add: console_reads.simps [of "l @ CHR 0x0A # rest"])
qed

lemma queue_console_running: "co_running (queue_console c l d) = co_running d"
  by (simp add: queue_console_def split: option.split)

lemma plain_line: "console_line l \<Longrightarrow> takeWhile (\<lambda>c. c \<noteq> CHR 0x0A) (c_string (l @ [CHR 0x0A])) = l"
  by (auto simp: console_line_def c_string_def takeWhile_append takeWhile_eq_all_conv)

text \<open>
  The lines before one that says exit arrive on the bus, each once and in order, without the empty ones; the exit is told to the system and what follows it is not
  read, as long as no line is longer than 1022 bytes.
\<close>

lemma console_lines_in_order:
  assumes "\<forall>l \<in> set ls. console_line l \<and> l \<noteq> ''exit''" "co_running d"
  shows "console_run (concat (map (\<lambda>l. l @ [CHR 0x0A]) ls) @ ''exit'' @ CHR 0x0A # rest) d =
    queue_console ''system'' ''exit'' ((fold (queue_console ''console'') (filter (\<lambda>l. l \<noteq> []) ls) d)\<lparr>co_running := False\<rparr>)"
  using assms
proof (induction ls arbitrary: d)
  case Nil
  have "console_line ''exit''" by (simp add: console_line_def)
  from read_line [OF this, of rest] plain_line [OF this] show ?case using Nil by (simp add: console_run_def Let_def)
next
  case (Cons l ls)
  then have l: "console_line l" "l \<noteq> ''exit''" by simp_all
  let ?d = "if l \<noteq> [] then queue_console ''console'' l d else d"
  have "console_run (concat (map (\<lambda>l. l @ [CHR 0x0A]) ls) @ ''exit'' @ CHR 0x0A # rest) ?d =
      queue_console ''system'' ''exit'' ((fold (queue_console ''console'') (filter (\<lambda>l. l \<noteq> []) ls) ?d)\<lparr>co_running := False\<rparr>)"
    using Cons.prems by (intro Cons.IH) (simp_all add: queue_console_running)
  then show ?case using Cons.prems(2) l read_line [OF l(1)] plain_line [OF l(1)] by (simp add: console_run_def Let_def)
qed

text \<open>A longer line is several messages.\<close>

lemma long_line_is_split:
  assumes "length l = 1023" "CHR 0x0A \<notin> set l"
  shows "console_reads (l @ rest) = l # console_reads rest"
proof -
  have "takeWhile (\<lambda>c. c \<noteq> CHR 0x0A) l = l" unfolding takeWhile_eq_all_conv using assms(2) by auto
  moreover have "take 1023 (l @ rest) = l" using assms(1) by simp
  ultimately have "fgets_console (l @ rest) = l" by (simp only: fgets_console_def Let_def less_irrefl if_False)
  then show ?thesis using assms(1) by (auto simp: console_reads.simps [of "l @ rest"])
qed

end
