(* ===== verification/MqttChannel.thy ===== *)
theory MqttChannel
  imports DingTalkChannel
begin

text \<open>
  \<open>plugins/channels/mqtt_channel/mqtt_channel.c\<close>: the handler, the thread that connects, subscribes and serves, and sending. The thread is a step
  relation: a step is an attempt to connect, a poll of the network library with what it reports, or a call by another thread between two polls.
  The library is third-party code: it reports events of connections that exist, after an error only the closing, and after the closing
  nothing. Connections are numbered as they are made.
\<close>

section \<open>Data\<close>

text \<open>The calls that the library sends to the broker: of a connection the user, the password, the client and the seconds to keep it alive.\<close>

datatype MqttCall = CallConnect nat string string string int | CallSub nat string | CallPub nat string string | CallDisconnect nat

record MqttChannelData =
  mq_bus :: "MessageBus option"
  mq_running :: bool
  mq_connected :: bool
  mq_subscribed :: bool
  mq_broker_url :: "string option"
  mq_client_id :: "string option"
  mq_username :: "string option"
  mq_password :: "string option"
  mq_default_pub_topic :: "string option"
  mq_topics :: "string list"
  mq_conn :: "nat option"
  mq_calls :: "MqttCall list"
  mq_fault :: bool

definition max_topics :: nat where
  "max_topics = 64"

definition reconnect_polls :: nat where
  "reconnect_polls = 50"

definition mqtt_item :: "json option \<Rightarrow> string \<Rightarrow> string option" where
  "mqtt_item pc key = given (json_string (get_object_item pc key)) None"

definition mqtt_topics :: "json option \<Rightarrow> string list" where
  "mqtt_topics j =
     (case j of
        Some (JArray items) \<Rightarrow> take max_topics (List.map_filter (\<lambda>i. json_string (Some i)) items)
      | Some (JString s) \<Rightarrow> [s]
      | _ \<Rightarrow> [])"

definition mqtt_init :: "Config \<Rightarrow> MessageBus option \<Rightarrow> MqttChannelData option" where
  "mqtt_init cfg bus =
     (let pc = Option.bind (config_get_plugin_config ''mqtt_channel'' (cf_plugins cfg)) pcf_config
      in if mqtt_item pc ''broker_url'' = None then None
         else Some \<lparr>mq_bus = bus, mq_running = False, mq_connected = False, mq_subscribed = False,
                mq_broker_url = mqtt_item pc ''broker_url'', mq_client_id = mqtt_item pc ''client_id'', mq_username = mqtt_item pc ''username'',
                mq_password = mqtt_item pc ''password'', mq_default_pub_topic = mqtt_item pc ''default_pub_topic'',
                mq_topics = mqtt_topics (get_object_item pc ''topics''), mq_conn = None, mq_calls = [], mq_fault = False\<rparr>)"

section \<open>The handler\<close>

datatype MqttEvent = MqttMsg string string | ConnAck int | SubAck | MqttClose | MqttError | MqttOther

definition lost :: "MqttChannelData \<Rightarrow> MqttChannelData" where
  "lost d = d\<lparr>mq_connected := False, mq_subscribed := False, mq_conn := None\<rparr>"

definition mqtt_ev_handler :: "MqttEvent \<Rightarrow> MqttChannelData \<Rightarrow> MqttChannelData" where
  "mqtt_ev_handler ev d =
     (case ev of
        MqttMsg topic payload \<Rightarrow>
          (case inbound_message_new True (Some ''mqtt'') (Some (c_string topic)) (Some (c_string payload)) None of
             None \<Rightarrow> d
           | Some msg \<Rightarrow> (case message_bus_send_inbound True (mq_bus d) msg of Some (bus, _) \<Rightarrow> d\<lparr>mq_bus := bus\<rparr> | None \<Rightarrow> d))
      | ConnAck ack \<Rightarrow> d\<lparr>mq_connected := True\<rparr>
      | SubAck \<Rightarrow> d\<lparr>mq_subscribed := True\<rparr>
      | MqttClose \<Rightarrow> lost d
      | MqttError \<Rightarrow> lost d
      | MqttOther \<Rightarrow> d)"

section \<open>Calls of the library\<close>

text \<open>A call with a null pointer for the connection follows it.\<close>

definition mqtt_sub :: "string \<Rightarrow> MqttChannelData \<Rightarrow> MqttChannelData" where
  "mqtt_sub topic d =
     (case mq_conn d of None \<Rightarrow> d\<lparr>mq_fault := True\<rparr> | Some c \<Rightarrow> d\<lparr>mq_calls := mq_calls d @ [CallSub c topic]\<rparr>)"

definition mqtt_subscribe_all :: "MqttChannelData \<Rightarrow> MqttChannelData" where
  "mqtt_subscribe_all d = fold (\<lambda>topic d. if topic \<noteq> [] then mqtt_sub topic d else d) (mq_topics d) d"

definition mqtt_send :: "OutboundMessage \<Rightarrow> MqttChannelData \<Rightarrow> MqttChannelData" where
  "mqtt_send msg d =
     (case mq_conn d of
        None \<Rightarrow> d
      | Some c \<Rightarrow>
          if \<not> mq_connected d \<or> out_channel msg \<noteq> ''mqtt'' \<or> out_content msg = [] then d
          else (let topic = if out_chat_id msg = [] then (case mq_default_pub_topic d of Some t \<Rightarrow> t | None \<Rightarrow> ''primagen/default'') else out_chat_id msg
                in d\<lparr>mq_calls := mq_calls d @ [CallPub c topic (out_content msg)]\<rparr>))"

definition mqtt_stop :: "MqttChannelData \<Rightarrow> MqttChannelData" where
  "mqtt_stop d = d\<lparr>mq_running := False\<rparr>"

section \<open>The thread\<close>

datatype ConnState = Unused | Live | Failed | Closed

text \<open>Where the thread is, with the number of polls that the loop there has done.\<close>

datatype MqttPhase = Connecting | AwaitConnack nat | AwaitSuback nat | Serving | Pausing nat | Ended

record MqttThread =
  mt_data :: MqttChannelData
  mt_phase :: MqttPhase
  mt_conns :: "nat \<Rightarrow> ConnState"
  mt_made :: nat

definition on_data :: "(MqttChannelData \<Rightarrow> MqttChannelData) \<Rightarrow> MqttThread \<Rightarrow> MqttThread" where
  "on_data f t = t\<lparr>mt_data := f (mt_data t)\<rparr>"

text \<open>The end of the thread: freeing the manager closes every connection that is left.\<close>

definition mqtt_finish :: "MqttThread \<Rightarrow> MqttThread" where
  "mqtt_finish t =
     (let d = (case mq_conn (mt_data t) of Some c \<Rightarrow> (mt_data t)\<lparr>mq_calls := mq_calls (mt_data t) @ [CallDisconnect c]\<rparr> | None \<Rightarrow> mt_data t);
          d = (if \<exists>c < mt_made t. mt_conns t c \<in> {Live, Failed} then mqtt_ev_handler MqttClose d else d)
      in t\<lparr>mt_data := d\<lparr>mq_conn := None, mq_connected := False\<rparr>, mt_phase := Ended, mt_conns := (\<lambda>c. if c < mt_made t then Closed else mt_conns t c)\<rparr>)"

definition at_head :: "MqttThread \<Rightarrow> MqttThread" where
  "at_head t = (if mq_running (mt_data t) then t\<lparr>mt_phase := Connecting\<rparr> else mqtt_finish t)"

definition at_pause :: "nat \<Rightarrow> MqttThread \<Rightarrow> MqttThread" where
  "at_pause n t = (if n < reconnect_polls \<and> mq_running (mt_data t) then t\<lparr>mt_phase := Pausing n\<rparr> else at_head t)"

definition at_serve :: "MqttThread \<Rightarrow> MqttThread" where
  "at_serve t =
     (if mq_running (mt_data t) \<and> mq_connected (mt_data t) then t\<lparr>mt_phase := Serving\<rparr>
      else if mq_running (mt_data t) then at_pause 0 t else at_head t)"

definition at_suback :: "nat \<Rightarrow> MqttThread \<Rightarrow> MqttThread" where
  "at_suback n t =
     (if n < 30 \<and> mq_running (mt_data t) \<and> \<not> mq_subscribed (mt_data t) then t\<lparr>mt_phase := AwaitSuback n\<rparr> else at_serve t)"

definition at_connack :: "nat \<Rightarrow> MqttThread \<Rightarrow> MqttThread" where
  "at_connack n t =
     (if n < 50 \<and> mq_running (mt_data t) \<and> \<not> mq_connected (mt_data t) then t\<lparr>mt_phase := AwaitConnack n\<rparr>
      else if \<not> mq_connected (mt_data t) then at_pause 0 t
      else if mq_topics (mt_data t) \<noteq> [] then at_suback 0 (on_data mqtt_subscribe_all t)
      else at_serve t)"

text \<open>The thread starts; the data come from \<open>mqtt_init\<close>.\<close>

definition mqtt_thread :: "MqttChannelData \<Rightarrow> MqttThread" where
  "mqtt_thread d = \<lparr>mt_data = d\<lparr>mq_running := True\<rparr>, mt_phase = Connecting, mt_conns = (\<lambda>_. Unused), mt_made = 0\<rparr>"

definition mqtt_start :: "MqttChannelData \<Rightarrow> MqttThread" where
  "mqtt_start d =
     (if str_or_empty (mq_broker_url d) = [] then (on_data mqtt_stop (mqtt_thread d))\<lparr>mt_phase := Ended\<rparr> else at_head (mqtt_thread d))"

definition conn_after :: "nat \<Rightarrow> MqttEvent \<Rightarrow> (nat \<Rightarrow> ConnState) \<Rightarrow> nat \<Rightarrow> ConnState" where
  "conn_after c ev cs = (case ev of MqttClose \<Rightarrow> cs(c := Closed) | MqttError \<Rightarrow> cs(c := Failed) | _ \<Rightarrow> cs)"

fun legal_events :: "(nat \<times> MqttEvent) list \<Rightarrow> (nat \<Rightarrow> ConnState) \<Rightarrow> bool" where
  "legal_events [] cs = True"
| "legal_events ((c, ev) # evs) cs =
     ((cs c = Live \<or> cs c = Failed \<and> ev = MqttClose) \<and> legal_events evs (conn_after c ev cs))"

definition report_event :: "nat \<times> MqttEvent \<Rightarrow> MqttThread \<Rightarrow> MqttThread" where
  "report_event e t =
     (case e of (c, ev) \<Rightarrow> t\<lparr>mt_data := mqtt_ev_handler ev (mt_data t), mt_conns := conn_after c ev (mt_conns t)\<rparr>)"

definition mgr_poll_all :: "(nat \<times> MqttEvent) list \<Rightarrow> MqttThread \<Rightarrow> MqttThread" where
  "mgr_poll_all evs t = fold report_event evs t"

definition mqtt_poll :: "(nat \<times> MqttEvent) list \<Rightarrow> MqttThread \<Rightarrow> MqttThread" where
  "mqtt_poll evs t =
     (let t' = mgr_poll_all evs t
      in case mt_phase t of
           AwaitConnack n \<Rightarrow> at_connack (Suc n) t'
         | AwaitSuback n \<Rightarrow> at_suback (Suc n) t'
         | Serving \<Rightarrow> at_serve t'
         | Pausing n \<Rightarrow> at_pause (Suc n) t'
         | _ \<Rightarrow> t)"

text \<open>An attempt to connect: no connection, or a new one, of which an error may be reported at once.\<close>

definition login :: "nat \<Rightarrow> MqttChannelData \<Rightarrow> MqttCall" where
  "login c d =
     CallConnect c (str_or_empty (mq_username d)) (str_or_empty (mq_password d))
       (case mq_client_id d of Some i \<Rightarrow> i | None \<Rightarrow> ''primagen_mqtt_client'') 60"

definition new_connection :: "bool \<Rightarrow> MqttThread \<Rightarrow> MqttThread" where
  "new_connection failed t =
     (let c = mt_made t;
          t = t\<lparr>mt_made := Suc c, mt_conns := (mt_conns t)(c := Live)\<rparr>;
          t = (if failed then report_event (c, MqttError) t else t)
      in on_data (\<lambda>d. d\<lparr>mq_conn := Some c, mq_calls := mq_calls d @ [login c d]\<rparr>) t)"

definition mqtt_connect :: "bool \<Rightarrow> bool \<Rightarrow> MqttThread \<Rightarrow> MqttThread" where
  "mqtt_connect made failed t =
     (let t = on_data lost t in if made then at_connack 0 (new_connection failed t) else at_pause 0 t)"

text \<open>The states that are reached, and whether some attempt to connect was made while a connection was still there.\<close>

definition all_closed :: "MqttThread \<Rightarrow> bool" where
  "all_closed t \<longleftrightarrow> (\<forall>c < mt_made t. mt_conns t c = Closed)"

inductive mqtt_reach :: "MqttChannelData \<Rightarrow> bool \<Rightarrow> MqttThread \<Rightarrow> bool" for d where
  reach_start: "mqtt_reach d False (mqtt_start d)"
| reach_connect: "mqtt_reach d a t \<Longrightarrow> mt_phase t = Connecting \<Longrightarrow> mqtt_reach d (a \<or> \<not> all_closed t) (mqtt_connect made failed t)"
| reach_poll: "mqtt_reach d a t \<Longrightarrow> mt_phase t \<notin> {Connecting, Ended} \<Longrightarrow> legal_events evs (mt_conns t) \<Longrightarrow> mqtt_reach d a (mqtt_poll evs t)"
| reach_stop: "mqtt_reach d a t \<Longrightarrow> mqtt_reach d a (on_data mqtt_stop t)"
| reach_send: "mqtt_reach d a t \<Longrightarrow> mqtt_reach d a (on_data (mqtt_send msg) t)"

section \<open>Invariants of the thread\<close>

text \<open>What holds at the start, and is kept by each call of the handler, each call of the library, each attempt to connect and each call by another thread.\<close>

locale mqtt_invariant =
  fixes d :: MqttChannelData and P :: "bool \<Rightarrow> MqttThread \<Rightarrow> bool"
  assumes start: "P False (mqtt_thread d)"
    and phase: "P a t \<Longrightarrow> P a (t\<lparr>mt_phase := p\<rparr>)"
    and finish: "P a t \<Longrightarrow> P a (mqtt_finish t)"
    and subscribe: "P a t \<Longrightarrow> mq_connected (mt_data t) \<Longrightarrow> P a (on_data mqtt_subscribe_all t)"
    and report: "P a t \<Longrightarrow> mt_conns t c = Live \<or> mt_conns t c = Failed \<and> ev = MqttClose \<Longrightarrow> P a (report_event (c, ev) t)"
    and reset: "P a t \<Longrightarrow> P (a \<or> \<not> all_closed t) (on_data lost t)"
    and connection: "P a t \<Longrightarrow> P (a \<or> \<not> all_closed t) (new_connection failed (on_data lost t))"
    and stop: "P a t \<Longrightarrow> P a (on_data mqtt_stop t)"
    and send: "P a t \<Longrightarrow> P a (on_data (mqtt_send msg) t)"
begin

lemma moves:
  assumes "P a t"
  shows "P a (at_head t)" "P a (at_pause n t)" "P a (at_serve t)" "P a (at_suback n t)" "P a (at_connack n t)"
proof -
  have head: "P a (at_head t)" if "P a t" for t using that by (simp add: at_head_def phase finish)
  have pause: "P a (at_pause n t)" if "P a t" for n t using that by (simp add: at_pause_def phase head)
  have serve: "P a (at_serve t)" if "P a t" for t using that by (simp add: at_serve_def phase head pause)
  have suback: "P a (at_suback n t)" if "P a t" for n t using that by (simp add: at_suback_def phase serve)
  show "P a (at_head t)" "P a (at_pause n t)" "P a (at_serve t)" "P a (at_suback n t)" "P a (at_connack n t)"
    using assms by (simp_all add: head pause serve suback at_connack_def phase subscribe)
qed

lemma polled: "P a t \<Longrightarrow> legal_events evs (mt_conns t) \<Longrightarrow> P a (mgr_poll_all evs t)"
proof (induction evs arbitrary: t)
  case (Cons e evs)
  obtain c ev where e: "e = (c, ev)" by (cases e)
  have "P a (report_event e t)" "legal_events evs (mt_conns (report_event e t))"
    using Cons.prems report [of a t c ev] by (auto simp: e report_event_def)
  then show ?case using Cons.IH by (simp add: mgr_poll_all_def)
qed (simp add: mgr_poll_all_def)

lemma reached: "mqtt_reach d a t \<Longrightarrow> P a t"
proof (induction rule: mqtt_reach.induct)
  case reach_start
  then show ?case using start by (simp add: mqtt_start_def moves stop phase)
next
  case (reach_connect a t made failed)
  then show ?case using reset connection by (simp add: mqtt_connect_def Let_def moves)
next
  case (reach_poll a t evs)
  then show ?case using polled by (simp add: mqtt_poll_def Let_def moves split: MqttPhase.split)
qed (simp_all add: stop send)

end

text \<open>The connection that the channel keeps is the last one, and it is still there. As long as no connection has been left behind, it is there whenever the channel is connected.\<close>

definition there :: "MqttThread \<Rightarrow> nat \<Rightarrow> bool" where
  "there t c \<longleftrightarrow> mt_conns t c \<in> {Live, Failed}"

definition conn_sound :: "bool \<Rightarrow> MqttThread \<Rightarrow> bool" where
  "conn_sound a t \<longleftrightarrow>
     (\<forall>c \<ge> mt_made t. mt_conns t c = Unused) \<and>
     (\<forall>c. mq_conn (mt_data t) = Some c \<longrightarrow> Suc c = mt_made t \<and> there t c) \<and>
     (\<not> a \<longrightarrow> \<not> mq_fault (mt_data t) \<and> (mq_connected (mt_data t) \<longrightarrow> mq_conn (mt_data t) \<noteq> None) \<and>
        (\<forall>c. there t c \<longrightarrow> Suc c = mt_made t) \<and> (\<forall>c. mt_conns t c = Live \<longrightarrow> mq_conn (mt_data t) = Some c))"

lemma subscribe_keeps:
  "mq_conn (mqtt_subscribe_all d) = mq_conn d" "mq_connected (mqtt_subscribe_all d) = mq_connected d" "mq_topics (mqtt_subscribe_all d) = mq_topics d"
  "mq_fault (mqtt_subscribe_all d) \<longleftrightarrow> mq_fault d \<or> mq_conn d = None \<and> (\<exists>topic \<in> set (mq_topics d). topic \<noteq> [])"
  "mq_running (mqtt_subscribe_all d) = mq_running d" "mq_subscribed (mqtt_subscribe_all d) = mq_subscribed d"
proof -
  have "mq_conn (fold (\<lambda>topic d. if topic \<noteq> [] then mqtt_sub topic d else d) ts d) = mq_conn d \<and>
      mq_connected (fold (\<lambda>topic d. if topic \<noteq> [] then mqtt_sub topic d else d) ts d) = mq_connected d \<and>
      mq_topics (fold (\<lambda>topic d. if topic \<noteq> [] then mqtt_sub topic d else d) ts d) = mq_topics d \<and>
      mq_running (fold (\<lambda>topic d. if topic \<noteq> [] then mqtt_sub topic d else d) ts d) = mq_running d \<and>
      mq_subscribed (fold (\<lambda>topic d. if topic \<noteq> [] then mqtt_sub topic d else d) ts d) = mq_subscribed d \<and>
      (mq_fault (fold (\<lambda>topic d. if topic \<noteq> [] then mqtt_sub topic d else d) ts d) \<longleftrightarrow> mq_fault d \<or> mq_conn d = None \<and> (\<exists>topic \<in> set ts. topic \<noteq> []))" for ts
    by (induction ts arbitrary: d) (auto simp: mqtt_sub_def split: option.split)
  then show "mq_conn (mqtt_subscribe_all d) = mq_conn d" "mq_connected (mqtt_subscribe_all d) = mq_connected d" "mq_topics (mqtt_subscribe_all d) = mq_topics d"
    "mq_fault (mqtt_subscribe_all d) \<longleftrightarrow> mq_fault d \<or> mq_conn d = None \<and> (\<exists>topic \<in> set (mq_topics d). topic \<noteq> [])"
    "mq_running (mqtt_subscribe_all d) = mq_running d" "mq_subscribed (mqtt_subscribe_all d) = mq_subscribed d"
    by (simp_all add: mqtt_subscribe_all_def)
qed

lemma mqtt_send_keeps:
  "mq_conn (mqtt_send msg d) = mq_conn d" "mq_connected (mqtt_send msg d) = mq_connected d" "mq_topics (mqtt_send msg d) = mq_topics d"
  "mq_fault (mqtt_send msg d) = mq_fault d"
  by (simp_all add: mqtt_send_def Let_def split: option.split)

lemma handler_keeps:
  "mq_conn (mqtt_ev_handler ev d) = (if ev \<in> {MqttClose, MqttError} then None else mq_conn d)"
  "mq_connected (mqtt_ev_handler ev d) \<longleftrightarrow> (case ev of ConnAck _ \<Rightarrow> True | MqttClose \<Rightarrow> False | MqttError \<Rightarrow> False | _ \<Rightarrow> mq_connected d)"
  "mq_topics (mqtt_ev_handler ev d) = mq_topics d" "mq_fault (mqtt_ev_handler ev d) = mq_fault d"
  by (auto simp: mqtt_ev_handler_def lost_def split: MqttEvent.split option.split)

lemma finish_keeps:
  "mq_conn (mt_data (mqtt_finish t)) = None" "mq_connected (mt_data (mqtt_finish t)) = False"
  "mq_topics (mt_data (mqtt_finish t)) = mq_topics (mt_data t)" "mq_fault (mt_data (mqtt_finish t)) = mq_fault (mt_data t)"
  "mt_conns (mqtt_finish t) = (\<lambda>c. if c < mt_made t then Closed else mt_conns t c)" "mt_made (mqtt_finish t) = mt_made t"
  by (simp_all add: mqtt_finish_def Let_def handler_keeps split: option.split)

lemma conn_sound_report:
  assumes "conn_sound a t" "mt_conns t c = Live \<or> mt_conns t c = Failed \<and> ev = MqttClose"
  shows "conn_sound a (report_event (c, ev) t)"
proof (cases "ev \<in> {MqttClose, MqttError}")
  case True
  let ?t = "report_event (c, ev) t"
  have made: "c < mt_made t" using assms by (metis ConnState.distinct(1,3) conn_sound_def linorder_not_less)
  have t: "mq_conn (mt_data ?t) = None" "\<not> mq_connected (mt_data ?t)" "mq_fault (mt_data ?t) = mq_fault (mt_data t)" "mt_made ?t = mt_made t"
      "\<forall>b. b \<noteq> c \<longrightarrow> mt_conns ?t b = mt_conns t b" "mt_conns ?t c \<noteq> Live"
    using True by (auto simp: report_event_def handler_keeps conn_after_def)
  have c: "there t c" using assms(2) by (auto simp: there_def)
  have "\<forall>b. there ?t b \<longrightarrow> there t b" using t(5) c by (metis there_def)
  moreover have "mt_conns ?t b \<noteq> Live" if "\<not> a" for b
  proof
    assume b: "mt_conns ?t b = Live"
    then have "b \<noteq> c" "there t b" using t(5,6) by (auto simp: there_def)
    moreover have "\<forall>b. there t b \<longrightarrow> Suc b = mt_made t" using assms(1) that by (simp add: conn_sound_def)
    ultimately show False using c by (metis nat.inject)
  qed
  moreover have "\<forall>b \<ge> mt_made t. mt_conns ?t b = Unused" using t(5) made assms(1) by (metis conn_sound_def linorder_not_less)
  ultimately show ?thesis using t assms(1) by (simp add: conn_sound_def)
next
  case False
  then have "mt_conns (report_event (c, ev) t) = mt_conns t" by (auto simp: report_event_def conn_after_def split: MqttEvent.split)
  moreover have "mq_conn (mt_data (report_event (c, ev) t)) = mq_conn (mt_data t)" "mt_made (report_event (c, ev) t) = mt_made t"
      "mq_fault (mt_data (report_event (c, ev) t)) = mq_fault (mt_data t)"
    using False by (simp_all add: report_event_def handler_keeps)
  moreover have "\<not> a \<longrightarrow> mq_conn (mt_data t) \<noteq> None" using assms False by (auto simp: conn_sound_def)
  ultimately show ?thesis using assms(1) by (simp add: conn_sound_def there_def)
qed

lemma conn_sound_connection:
  assumes "conn_sound a t"
  shows "conn_sound (a \<or> \<not> all_closed t) (new_connection failed (on_data lost t))"
proof -
  let ?t = "new_connection failed (on_data lost t)" and ?c = "mt_made t"
  have t: "mq_conn (mt_data ?t) = Some ?c" "mt_made ?t = Suc ?c" "mq_fault (mt_data ?t) = mq_fault (mt_data t)"
      "\<forall>b. b \<noteq> ?c \<longrightarrow> mt_conns ?t b = mt_conns t b" "there ?t ?c"
    by (cases failed; simp add: new_connection_def on_data_def lost_def report_event_def handler_keeps conn_after_def there_def Let_def)+
  have only: "b = ?c" if "all_closed t" "there ?t b" for b
  proof (rule ccontr)
    assume "b \<noteq> ?c"
    then have "mt_conns t b \<in> {Live, Failed}" using that(2) t(4) by (simp add: there_def)
    moreover have "\<forall>b < ?c. mt_conns t b = Closed" using that(1) unfolding all_closed_def .
    moreover have "\<forall>b \<ge> ?c. mt_conns t b = Unused" using assms unfolding conn_sound_def by blast
    ultimately show False by (cases "b < ?c") auto
  qed
  have "\<forall>b \<ge> Suc ?c. mt_conns ?t b = Unused" using t(4) assms by (simp add: conn_sound_def)
  moreover have "there ?t b" if "mt_conns ?t b = Live" for b using that by (simp add: there_def)
  moreover have "\<not> a \<longrightarrow> \<not> mq_fault (mt_data t)" using assms unfolding conn_sound_def by blast
  ultimately show ?thesis unfolding conn_sound_def t(1-3) using t(5) by (auto dest: only)
qed

lemma conn_sound_reset: "conn_sound a t \<Longrightarrow> conn_sound (a \<or> \<not> all_closed t) (on_data lost t)"
  by (auto simp: conn_sound_def all_closed_def on_data_def lost_def there_def not_less [symmetric])

lemma conn_sound_finish: "conn_sound a t \<Longrightarrow> conn_sound a (mqtt_finish t)"
  by (simp add: conn_sound_def finish_keeps there_def)

lemma conn_sound_data:
  "conn_sound a t \<Longrightarrow> mq_connected (mt_data t) \<Longrightarrow> conn_sound a (on_data mqtt_subscribe_all t)"
  "conn_sound a t \<Longrightarrow> conn_sound a (on_data mqtt_stop t)" "conn_sound a t \<Longrightarrow> conn_sound a (on_data (mqtt_send msg) t)"
  "conn_sound a t \<Longrightarrow> conn_sound a (t\<lparr>mt_phase := p\<rparr>)"
  by (auto simp: conn_sound_def on_data_def subscribe_keeps mqtt_send_keeps mqtt_stop_def there_def)

text \<open>A channel just initialised.\<close>

definition mqtt_fresh :: "MqttChannelData \<Rightarrow> bool" where
  "mqtt_fresh d \<longleftrightarrow> mq_conn d = None \<and> \<not> mq_connected d \<and> \<not> mq_fault d \<and> str_or_empty (mq_broker_url d) \<noteq> []"

lemma mqtt_item_some: "mqtt_item pc key = Some s \<Longrightarrow> s \<noteq> []"
  by (auto simp: mqtt_item_def given_def split: option.splits list.splits)

lemma mqtt_init_fresh:
  assumes "mqtt_init cfg bus = Some d"
  shows "mqtt_fresh d"
proof -
  define pc where "pc = Option.bind (config_get_plugin_config ''mqtt_channel'' (cf_plugins cfg)) pcf_config"
  have d: "mqtt_item pc ''broker_url'' \<noteq> None" "mq_broker_url d = mqtt_item pc ''broker_url''" "mq_conn d = None" "\<not> mq_connected d" "\<not> mq_fault d"
    using assms unfolding mqtt_init_def Let_def pc_def [symmetric] by (simp_all split: if_splits) auto
  then obtain s where "mq_broker_url d = Some s" "s \<noteq> []" using mqtt_item_some by (metis not_None_eq)
  then show ?thesis using d by (simp add: mqtt_fresh_def)
qed

interpretation conn: mqtt_invariant d "\<lambda>a t. mqtt_fresh d \<longrightarrow> conn_sound a t" for d
  by unfold_locales
    (simp_all add: conn_sound_data conn_sound_finish conn_sound_report conn_sound_reset conn_sound_connection,
     simp add: conn_sound_def mqtt_thread_def mqtt_fresh_def there_def)

text \<open>Without a topic to subscribe to, a subscription calls nothing.\<close>

definition no_topic :: "MqttChannelData \<Rightarrow> bool" where
  "no_topic d \<longleftrightarrow> \<not> (\<exists>topic \<in> set (mq_topics d). topic \<noteq> [])"

definition subscribes_nothing :: "MqttChannelData \<Rightarrow> bool \<Rightarrow> MqttThread \<Rightarrow> bool" where
  "subscribes_nothing d a t \<longleftrightarrow> (mqtt_fresh d \<and> no_topic d \<longrightarrow> mq_topics (mt_data t) = mq_topics d \<and> \<not> mq_fault (mt_data t))"

interpretation topic: mqtt_invariant d "subscribes_nothing d" for d
proof
  show "subscribes_nothing d a t \<Longrightarrow> mq_connected (mt_data t) \<Longrightarrow> subscribes_nothing d a (on_data mqtt_subscribe_all t)" for a t
    by (auto simp: subscribes_nothing_def on_data_def subscribe_keeps no_topic_def)
qed (simp_all add: subscribes_nothing_def mqtt_thread_def mqtt_fresh_def on_data_def finish_keeps mqtt_send_keeps handler_keeps lost_def mqtt_stop_def
    report_event_def new_connection_def Let_def)

section \<open>A connection that is left behind\<close>

lemma silent_poll: "mgr_poll_all [] t = t"
  by (simp add: mgr_poll_all_def)

lemma silent_await:
  assumes "mq_running (mt_data t)" "\<not> mq_connected (mt_data t)"
  shows "n + Suc k = 50 \<Longrightarrow> mqtt_reach d a (t\<lparr>mt_phase := AwaitConnack n\<rparr>) \<Longrightarrow> mqtt_reach d a (t\<lparr>mt_phase := Pausing 0\<rparr>)"
proof (induction k arbitrary: n)
  case 0
  then show ?case using reach_poll [OF 0(2), of "[]"] assms
    by (simp add: mqtt_poll_def silent_poll at_connack_def at_pause_def reconnect_polls_def Let_def)
next
  case (Suc k)
  have "mqtt_reach d a (t\<lparr>mt_phase := AwaitConnack (Suc n)\<rparr>)" using reach_poll [OF Suc.prems(2), of "[]"] assms Suc.prems(1)
    by (simp add: mqtt_poll_def silent_poll at_connack_def Let_def)
  then show ?case using Suc.IH [of "Suc n"] Suc.prems(1) by simp
qed

lemma silent_pause:
  assumes "mq_running (mt_data t)"
  shows "n + Suc k = 50 \<Longrightarrow> mqtt_reach d a (t\<lparr>mt_phase := Pausing n\<rparr>) \<Longrightarrow> mqtt_reach d a (t\<lparr>mt_phase := Connecting\<rparr>)"
proof (induction k arbitrary: n)
  case 0
  then show ?case using reach_poll [OF 0(2), of "[]"] assms
    by (simp add: mqtt_poll_def silent_poll at_pause_def at_head_def reconnect_polls_def Let_def)
next
  case (Suc k)
  have "mqtt_reach d a (t\<lparr>mt_phase := Pausing (Suc n)\<rparr>)" using reach_poll [OF Suc.prems(2), of "[]"] assms Suc.prems(1)
    by (simp add: mqtt_poll_def silent_poll at_pause_def reconnect_polls_def Let_def)
  then show ?case using Suc.IH [of "Suc n"] Suc.prems(1) by simp
qed

lemma fault_moves: "mq_fault (mt_data (at_suback n t)) = mq_fault (mt_data t)"
  by (simp add: at_suback_def at_serve_def at_pause_def at_head_def finish_keeps)

lemma connect_waits:
  "mq_running (mt_data t) \<Longrightarrow> mqtt_connect True False t = (new_connection False (on_data lost t))\<lparr>mt_phase := AwaitConnack 0\<rparr>"
  by (simp add: mqtt_connect_def at_connack_def new_connection_def on_data_def lost_def Let_def)

lemma start_connecting: "mqtt_fresh d \<Longrightarrow> mqtt_start d = mqtt_thread d"
  by (simp add: mqtt_start_def mqtt_fresh_def at_head_def mqtt_thread_def)

text \<open>
  The broker does not answer the first attempt in time, and the second connection is answered when the first one is closed: the first one tells the handler that there is
  no connection, the second one that it is connected.
\<close>

lemma late_close_faults:
  assumes "mqtt_fresh d" "\<not> no_topic d"
  shows "\<exists>t. mqtt_reach d True t \<and> mq_fault (mt_data t)"
proof -
  define x where "x = new_connection False (on_data lost (mqtt_thread d))"
  define y where "y = new_connection False (on_data lost (x\<lparr>mt_phase := Connecting\<rparr>))"
  have x: "mq_running (mt_data x)" "\<not> mq_connected (mt_data x)" "mt_made x = 1" "mt_conns x = (\<lambda>_. Unused)(0 := Live)" "mq_topics (mt_data x) = mq_topics d"
    by (simp_all add: x_def new_connection_def on_data_def lost_def mqtt_thread_def Let_def)
  have y: "mq_running (mt_data y)" "mt_conns y = (\<lambda>_. Unused)(0 := Live, 1 := Live)" "mq_topics (mt_data y) = mq_topics d" "\<not> mq_connected (mt_data y)"
    using x by (simp_all add: y_def new_connection_def on_data_def lost_def Let_def)
  have "mqtt_reach d (False \<or> \<not> all_closed (mqtt_thread d)) (mqtt_connect True False (mqtt_thread d))"
    using reach_start [of d] start_connecting [OF assms(1)] by (intro reach_connect) (simp_all add: mqtt_thread_def)
  then have "mqtt_reach d False (x\<lparr>mt_phase := AwaitConnack 0\<rparr>)"
    by (simp add: connect_waits mqtt_thread_def x_def all_closed_def)
  from silent_await [OF x(1,2) _ this, of 49] have "mqtt_reach d False (x\<lparr>mt_phase := Pausing 0\<rparr>)" by simp
  from silent_pause [OF x(1) _ this, of 49] have "mqtt_reach d False (x\<lparr>mt_phase := Connecting\<rparr>)" by simp
  then have "mqtt_reach d (False \<or> \<not> all_closed (x\<lparr>mt_phase := Connecting\<rparr>)) (mqtt_connect True False (x\<lparr>mt_phase := Connecting\<rparr>))"
    by (rule reach_connect) simp
  then have "mqtt_reach d True (y\<lparr>mt_phase := AwaitConnack 0\<rparr>)" using x by (simp add: connect_waits y_def all_closed_def)
  then have r: "mqtt_reach d True (mqtt_poll [(0, MqttClose), (1, ConnAck 0)] (y\<lparr>mt_phase := AwaitConnack 0\<rparr>))"
    by (rule reach_poll) (simp_all add: y(2) conn_after_def)
  let ?z = "mgr_poll_all [(0, MqttClose), (1, ConnAck 0)] (y\<lparr>mt_phase := AwaitConnack 0\<rparr>)"
  have z: "mq_connected (mt_data ?z)" "mq_conn (mt_data ?z) = None" "mq_topics (mt_data ?z) = mq_topics d"
    by (simp_all add: mgr_poll_all_def report_event_def handler_keeps y(3))
  have "mqtt_poll [(0, MqttClose), (1, ConnAck 0)] (y\<lparr>mt_phase := AwaitConnack 0\<rparr>) = at_suback 0 (on_data mqtt_subscribe_all ?z)"
    using z assms(2) by (auto simp: mqtt_poll_def at_connack_def no_topic_def Let_def)
  then have "mq_fault (mt_data (mqtt_poll [(0, MqttClose), (1, ConnAck 0)] (y\<lparr>mt_phase := AwaitConnack 0\<rparr>)))"
    using z assms(2) by (auto simp: fault_moves on_data_def subscribe_keeps no_topic_def)
  then show ?thesis using r by blast
qed

text \<open>
  Claim C18. The connection that the channel keeps is the last one made, and the library has not freed it. The channel follows a null pointer only if an attempt to connect was
  made while an older connection was still there; otherwise it has a connection whenever it says it is connected, so that replies are sent.
\<close>
theorem mqtt_connection_sound:
  assumes "mqtt_init cfg bus = Some d" "mqtt_reach d a t"
  shows "(\<forall>c. mq_conn (mt_data t) = Some c \<longrightarrow> Suc c = mt_made t \<and> mt_conns t c \<in> {Live, Failed}) \<and> (mq_fault (mt_data t) \<longrightarrow> a) \<and>
    (\<not> a \<and> mq_connected (mt_data t) \<longrightarrow> mq_conn (mt_data t) \<noteq> None)"
  using conn.reached [OF assms(2)] mqtt_init_fresh [OF assms(1)] by (auto simp: conn_sound_def there_def)

definition mqtt_cfg :: Config where
  "mqtt_cfg = config_create\<lparr>cf_plugins := [\<lparr>pcf_id = ''mqtt_channel'', pcf_enabled = True,
     pcf_config = Some (JObject [(''broker_url'', JString ''mqtt:b''), (''topics'', JString ''t'')])\<rparr>]\<rparr>"

lemma mqtt_cfg_init: "\<exists>d. mqtt_init mqtt_cfg None = Some d \<and> mq_topics d = [''t'']"
  by (simp add: mqtt_init_def mqtt_cfg_def config_get_plugin_config_def mqtt_item_def mqtt_topics_def given_def get_object_item_def json_string_def
      strcaseeq_def tolower_def isupper_def Let_def)

theorem mqtt_connection_sound_witness:
  "\<exists>d t. mqtt_init mqtt_cfg None = Some d \<and> mqtt_reach d False t \<and> mt_phase t = AwaitSuback 0 \<and> mq_connected (mt_data t) \<and> mq_conn (mt_data t) \<noteq> None"
proof -
  obtain d where d: "mqtt_init mqtt_cfg None = Some d" "mq_topics d = [''t'']" using mqtt_cfg_init by blast
  have fresh: "mqtt_fresh d" using mqtt_init_fresh d(1) by blast
  have r: "mqtt_reach d (False \<or> \<not> all_closed (mqtt_thread d)) (mqtt_connect True False (mqtt_thread d))"
    using reach_start [of d] start_connecting [OF fresh] by (intro reach_connect) (simp_all add: mqtt_thread_def)
  define y where "y = new_connection False (on_data lost (mqtt_thread d))"
  have y: "mq_running (mt_data y)" "\<not> mq_subscribed (mt_data y)" "mt_conns y 0 = Live" "mq_topics (mt_data y) = [''t'']"
    using d(2) by (simp_all add: y_def new_connection_def on_data_def lost_def mqtt_thread_def Let_def)
  let ?x = "y\<lparr>mt_phase := AwaitConnack 0\<rparr>" and ?e = "[(0, ConnAck 0)]"
  have "all_closed (mqtt_thread d)" "mqtt_connect True False (mqtt_thread d) = ?x"
    unfolding y_def by (simp_all add: all_closed_def connect_waits mqtt_thread_def)
  then have "mqtt_reach d False ?x" using r by simp
  then have "mqtt_reach d False (mqtt_poll ?e ?x)" by (rule reach_poll) (use y in simp_all)
  moreover have "mt_phase (mqtt_poll ?e ?x) = AwaitSuback 0 \<and> mq_connected (mt_data (mqtt_poll ?e ?x))"
    using y by (simp add: mqtt_poll_def mgr_poll_all_def report_event_def mqtt_ev_handler_def at_connack_def at_suback_def on_data_def subscribe_keeps Let_def)
  ultimately show ?thesis using mqtt_connection_sound [OF d(1), of False] d(1) by blast
qed

text \<open>
  Claim C19. The thread can follow a null pointer exactly when the channel has a topic to subscribe to: a connection that was not answered in time is never closed, and when it goes while
  the next one is answered, the handler loses the new connection and the thread subscribes without one.
\<close>
theorem mqtt_null_connection_iff:
  assumes "mqtt_init cfg bus = Some d"
  shows "(\<exists>a t. mqtt_reach d a t \<and> mq_fault (mt_data t)) \<longleftrightarrow> (\<exists>topic \<in> set (mq_topics d). topic \<noteq> [])"
  using late_close_faults [OF mqtt_init_fresh [OF assms]] topic.reached mqtt_init_fresh [OF assms]
  unfolding no_topic_def subscribes_nothing_def by blast

theorem mqtt_null_connection_iff_witness:
  "\<exists>d a t. mqtt_init mqtt_cfg None = Some d \<and> mqtt_reach d a t \<and> mq_fault (mt_data t)"
proof -
  obtain d where d: "mqtt_init mqtt_cfg None = Some d" "mq_topics d = [''t'']" using mqtt_cfg_init by blast
  then show ?thesis using mqtt_null_connection_iff [OF d(1)] by auto
qed

text \<open>At most 64 topics are kept.\<close>

lemma mqtt_topics_bound: "length (mqtt_topics j) \<le> 64"
  by (simp add: mqtt_topics_def max_topics_def split: option.split json.split)

end
