(* ===== verification/WebUi.thy ===== *)
theory WebUi
  imports AcpServer Config FileTools
begin

text \<open>
  \<open>plugins/channels/webui_channel\<close>, the chat: replies are queued for clients that poll, and a client that finds nothing waits
  for up to 30 seconds. Requests come to the server thread, replies from the thread that dispatches outbound messages; an operation
  that runs under the lock is one step. A waiter is named by its connection: the HTTP library has at most one open request for
  each connection. The answers given are part of the state, in their order.
\<close>

section \<open>Data\<close>

record ReplyNode =
  rn_chat_id :: string
  rn_content :: string
  rn_created_at :: int

record LongPollWaiter =
  lw_conn :: nat
  lw_chat_id :: string

text \<open>
  A channel of the program: its name, the plugin that it points to, the handle of its code (\<open>None\<close> for the program itself), and whether
  it has been started. A place in the array of channels may hold a null pointer.
\<close>

record Channel =
  ch_name :: string
  ch_plugin_ref :: "nat option"
  ch_code :: "nat option"
  ch_started :: bool

text \<open>\<open>wu_plugin_path\<close> is the path of the plugin itself, \<open>wu_external_dir\<close> the directory of the plugin manager.\<close>

record WebUi =
  wu_bus :: "MessageBus option"
  wu_cfg :: Config
  wu_plugin_path :: "string option"
  wu_plugin_mgr :: "PluginManager option"
  wu_external_dir :: "string option"
  wu_channels :: "Channel option list"
  wu_running :: bool
  wu_port :: int
  wu_config_path :: string
  wu_replies :: "ReplyNode list"
  wu_waiters :: "LongPollWaiter list"
  wu_polled :: "nat set"
  wu_out :: "(nat \<times> HttpReply) list"

text \<open>
  The JSON and base64 code of the libraries, whether memory is available, the clock, what the system gives to the process, and the files.
\<close>

record web_env =
  we_parse :: json_parser
  we_print :: json_printer
  we_base64 :: "string \<Rightarrow> string"
  we_unbase64 :: "string \<Rightarrow> string"
  we_fwrite :: "string \<Rightarrow> nat"
  we_malloc :: bool
  we_time :: int
  we_host :: host
  we_fs :: fsys

section \<open>Answers\<close>

definition send_json :: "int \<Rightarrow> string \<Rightarrow> HttpReply" where
  "send_json status json =
     \<lparr>rp_status = status, rp_headers = ''Content-Type: application/json'' @ [CHR 0x0D, CHR 0x0A], rp_body = Some json\<rparr>"

definition json_pair :: "string \<Rightarrow> string \<Rightarrow> string" where
  "json_pair k v = CHR ''{'' # CHR 0x22 # k @ [CHR 0x22] @ '':'' @ v @ ''}''"

definition json_error :: "string \<Rightarrow> string" where
  "json_error e = json_pair ''error'' (CHR 0x22 # e @ [CHR 0x22])"

definition print_reply :: "web_env \<Rightarrow> json \<Rightarrow> HttpReply" where
  "print_reply env j =
     (case we_print env j of Some s \<Rightarrow> send_json 200 s | None \<Rightarrow> send_json 500 (json_error ''encode_failed''))"

definition put_reply :: "nat \<Rightarrow> HttpReply \<Rightarrow> WebUi \<Rightarrow> WebUi" where
  "put_reply c reply data = data\<lparr>wu_out := wu_out data @ [(c, reply)]\<rparr>"

definition chat_message_json :: "string \<Rightarrow> string \<Rightarrow> json" where
  "chat_message_json chat_id content = JObject [(''chat_id'', JString chat_id), (''message'', JString content)]"

section \<open>Replies and waiters\<close>

definition wake_long_poll_waiters :: "web_env \<Rightarrow> string \<Rightarrow> string \<Rightarrow> WebUi \<Rightarrow> WebUi" where
  "wake_long_poll_waiters env chat_id content data =
     data\<lparr>wu_waiters := filter (\<lambda>w. lw_chat_id w \<noteq> chat_id) (wu_waiters data),
          wu_out := wu_out data @
            map (\<lambda>w. (lw_conn w, print_reply env (chat_message_json chat_id content))) (filter (\<lambda>w. lw_chat_id w = chat_id) (wu_waiters data))\<rparr>"

definition has_waiter :: "string \<Rightarrow> WebUi \<Rightarrow> bool" where
  "has_waiter chat_id data = list_ex (\<lambda>w. lw_chat_id w = chat_id) (wu_waiters data)"

definition append_reply :: "web_env \<Rightarrow> string \<Rightarrow> string \<Rightarrow> WebUi \<Rightarrow> WebUi" where
  "append_reply env chat_id content data =
     (if we_malloc env
      then data\<lparr>wu_replies := wu_replies data @ [\<lparr>rn_chat_id = chat_id, rn_content = content, rn_created_at = we_time env\<rparr>]\<rparr>
      else data)"

text \<open>The lock is released between the look at the waiters and what follows it: \<open>found\<close> is what the look saw.\<close>

definition enqueue_found :: "web_env \<Rightarrow> bool \<Rightarrow> string \<Rightarrow> string \<Rightarrow> WebUi \<Rightarrow> WebUi" where
  "enqueue_found env found chat_id content data =
     (if found then wake_long_poll_waiters env chat_id content data else append_reply env chat_id content data)"

definition enqueue_reply :: "web_env \<Rightarrow> string \<Rightarrow> string \<Rightarrow> WebUi \<Rightarrow> WebUi" where
  "enqueue_reply env chat_id content data = enqueue_found env (has_waiter chat_id data) chat_id content data"

definition dequeue_reply :: "string \<Rightarrow> WebUi \<Rightarrow> ReplyNode option \<times> WebUi" where
  "dequeue_reply chat_id data =
     (find (\<lambda>r. rn_chat_id r = chat_id) (wu_replies data),
      data\<lparr>wu_replies := remove_first (\<lambda>r. rn_chat_id r = chat_id) (wu_replies data)\<rparr>)"

definition cleanup_old_replies :: "int \<Rightarrow> WebUi \<Rightarrow> WebUi" where
  "cleanup_old_replies now data = data\<lparr>wu_replies := filter (\<lambda>r. now - rn_created_at r \<le> 600) (wu_replies data)\<rparr>"

text \<open>
  The timer of a waiter has fired and the callback has got the lock. The waiter is freed in any case; the flag says that it had been
  freed before, because it is no longer in the list.
\<close>

definition long_poll_timeout_cb :: "LongPollWaiter \<Rightarrow> WebUi \<Rightarrow> bool \<times> WebUi" where
  "long_poll_timeout_cb w data =
     (if w \<in> set (wu_waiters data)
      then (False, put_reply (lw_conn w) \<lparr>rp_status = 204, rp_headers = [], rp_body = Some []\<rparr>
                     (data\<lparr>wu_waiters := remove_first (\<lambda>v. v = w) (wu_waiters data)\<rparr>))
      else (True, data))"

definition webui_close :: "nat \<Rightarrow> WebUi \<Rightarrow> WebUi" where
  "webui_close c data =
     (if c \<in> wu_polled data then data\<lparr>wu_waiters := remove_first (\<lambda>w. lw_conn w = c) (wu_waiters data)\<rparr> else data)"

section \<open>Requests of the chat\<close>

definition handle_health :: "WebUi \<Rightarrow> HttpReply" where
  "handle_health data =
     send_json 200 (c_trunc 256
       (CHR ''{'' # CHR 0x22 # ''ok'' @ [CHR 0x22] @ '':true,'' @ [CHR 0x22] @ ''channel'' @ [CHR 0x22, CHR '':'', CHR 0x22] @ ''webui'' @
        [CHR 0x22, CHR '','', CHR 0x22] @ ''port'' @ [CHR 0x22] @ '':'' @ show_int (wu_port data) @ ''}''))"

definition handle_chat_send :: "web_env \<Rightarrow> HttpRequest \<Rightarrow> WebUi \<Rightarrow> HttpReply \<times> WebUi" where
  "handle_chat_send env hm data =
     (case we_parse env (hr_body hm) of
        None \<Rightarrow> (send_json 400 (json_error ''invalid_json''), data)
      | Some req \<Rightarrow>
          (case (json_string (get_object_item (Some req) ''chat_id''), json_string (get_object_item (Some req) ''message'')) of
             (Some chat_id, Some message) \<Rightarrow>
               (if message = [] \<or> length message > 8192 then (send_json 400 (json_error ''message_length_invalid''), data)
                else (case inbound_message_new (we_malloc env) (Some ''webui'') (Some chat_id) (Some message) None of
                        None \<Rightarrow> (send_json 500 (json_error ''alloc_failed''), data)
                      | Some msg \<Rightarrow>
                          (send_json 200 (json_pair ''queued'' ''true''),
                           (case message_bus_send_inbound (we_malloc env) (wu_bus data) msg of
                              Some (bus, _) \<Rightarrow> data\<lparr>wu_bus := bus\<rparr> | None \<Rightarrow> data))))
           | _ \<Rightarrow> (send_json 400 (json_error ''invalid_params''), data)))"

text \<open>
  Polling takes the lock three times; the last part, for a client that found nothing, is \<open>start_waiting\<close>, and \<open>poll_look\<close> is what
  comes before.
\<close>

definition start_waiting :: "web_env \<Rightarrow> nat \<Rightarrow> string \<Rightarrow> WebUi \<Rightarrow> WebUi" where
  "start_waiting env c chat_id data =
     (if we_malloc env
      then data\<lparr>wu_waiters := \<lparr>lw_conn = c, lw_chat_id = chat_id\<rparr> # wu_waiters data, wu_polled := insert c (wu_polled data)\<rparr>
      else put_reply c (send_json 500 (json_error ''oom'')) data)"

definition poll_look :: "web_env \<Rightarrow> string \<Rightarrow> WebUi \<Rightarrow> ReplyNode option \<times> WebUi" where
  "poll_look env chat_id data = dequeue_reply chat_id (cleanup_old_replies (we_time env) data)"

definition handle_chat_poll :: "web_env \<Rightarrow> nat \<Rightarrow> HttpRequest \<Rightarrow> WebUi \<Rightarrow> WebUi" where
  "handle_chat_poll env c hm data =
     (case http_var hm ''chat_id'' 256 of
        None \<Rightarrow> put_reply c (send_json 400 (json_error ''chat_id_required'')) data
      | Some chat_id \<Rightarrow>
          (case poll_look env chat_id data of
             (Some node, data) \<Rightarrow> put_reply c (print_reply env (chat_message_json (rn_chat_id node) (rn_content node))) data
           | (None, data) \<Rightarrow> start_waiting env c chat_id data))"

section \<open>Sending\<close>

definition image_ext :: "string \<Rightarrow> string option" where
  "image_ext p =
     (case strrchr p (CHR ''.'') of
        None \<Rightarrow> None | Some dot \<Rightarrow> if tl dot = [] \<or> length (tl dot) \<ge> 16 then None else Some (map tolower (tl dot)))"

definition has_image_suffix :: "string \<Rightarrow> bool" where
  "has_image_suffix p = (case image_ext p of None \<Rightarrow> False | Some e \<Rightarrow> e \<in> {''png'', ''jpg'', ''jpeg'', ''gif'', ''webp''})"

definition guess_image_mime :: "string \<Rightarrow> string" where
  "guess_image_mime p =
     (case image_ext p of
        None \<Rightarrow> ''image/png''
      | Some e \<Rightarrow> if e \<in> {''jpg'', ''jpeg''} then ''image/jpeg'' else if e = ''gif'' then ''image/gif''
                  else if e = ''webp'' then ''image/webp'' else ''image/png'')"

text \<open>A text that the encoder leaves empty, or that does not fit into twice the size of the file, counts as a failure.\<close>

definition file_to_data_url :: "web_env \<Rightarrow> string \<Rightarrow> string option" where
  "file_to_data_url env p =
     (if \<not> has_image_suffix p then None
      else (case open_read (h_may_read (we_host env)) (h_cwd (we_host env)) (we_fs env) p of
              None \<Rightarrow> None
            | Some q \<Rightarrow>
                (case we_fs env q of
                   Some (File raw) \<Rightarrow>
                     (let b64 = we_base64 env raw
                      in if raw = [] \<or> length raw > 5 * 1024 * 1024 \<or> \<not> we_malloc env then None
                         else if b64 = [] \<or> length b64 + 1 \<ge> length raw * 2 + 8 then None
                         else Some (''data:'' @ guess_image_mime p @ '';base64,'' @ b64))
                 | _ \<Rightarrow> None)))"

definition append_markdown_line :: "string \<Rightarrow> string \<Rightarrow> string" where
  "append_markdown_line base line = (if base = [] then line else base @ [CHR 0x0A, CHR 0x0A] @ line)"

definition is_remote :: "string \<Rightarrow> bool" where
  "is_remote s = (starts_with ''http://'' s \<or> starts_with ''https://'' s \<or> starts_with ''data:image/'' s)"

definition attachment_source :: "web_env \<Rightarrow> string \<Rightarrow> string option" where
  "attachment_source env raw =
     (case we_parse env raw of
        Some parsed \<Rightarrow>
          (if json_string (get_object_item (Some parsed) ''type'') = Some ''image''
           then json_string (get_object_item (Some parsed) ''path'') else None)
      | None \<Rightarrow> if is_remote raw \<or> has_image_suffix raw then Some raw else None)"

definition attachment_to_markdown :: "web_env \<Rightarrow> string \<Rightarrow> string option" where
  "attachment_to_markdown env raw =
     (if raw = [] then None
      else (case attachment_source env raw of
              None \<Rightarrow> None
            | Some src \<Rightarrow>
                map_option (\<lambda>resolved. ''![]('' @ resolved @ '')'')
                  (if is_remote src then Some src else file_to_data_url env src)))"

definition webui_content :: "web_env \<Rightarrow> OutboundMessage \<Rightarrow> string" where
  "webui_content env msg =
     fold (\<lambda>raw merged. case attachment_to_markdown env raw of None \<Rightarrow> merged | Some md \<Rightarrow> append_markdown_line merged md)
       (sa_items (out_attachments msg)) (out_content msg)"

definition webui_send :: "web_env \<Rightarrow> OutboundMessage \<Rightarrow> WebUi \<Rightarrow> WebUi" where
  "webui_send env msg data =
     (if out_channel msg = ''webui'' then enqueue_reply env (out_chat_id msg) (webui_content env msg) data else data)"

section \<open>What a client receives\<close>

definition client_message :: "json_parser \<Rightarrow> HttpReply \<Rightarrow> (string \<times> string) option" where
  "client_message parse reply =
     (if rp_status reply \<noteq> 200 then None
      else (let j = Option.bind (rp_body reply) parse
            in case (json_string (get_object_item j ''chat_id''), json_string (get_object_item j ''message'')) of
                 (Some i, Some m) \<Rightarrow> Some (i, m) | _ \<Rightarrow> None))"

definition chat_part :: "json_parser \<Rightarrow> string \<Rightarrow> nat \<times> HttpReply \<Rightarrow> string list" where
  "chat_part parse chat_id out =
     (case client_message parse (snd out) of Some (i, m) \<Rightarrow> if i = chat_id then [m] else [] | None \<Rightarrow> [])"

definition chat_received :: "json_parser \<Rightarrow> string \<Rightarrow> WebUi \<Rightarrow> string list" where
  "chat_received parse chat_id data = concat (map (chat_part parse chat_id) (wu_out data))"

definition queued :: "string \<Rightarrow> WebUi \<Rightarrow> string list" where
  "queued chat_id data = map rn_content (filter (\<lambda>r. rn_chat_id r = chat_id) (wu_replies data))"

datatype WebOp = Reply string string | Poll nat HttpRequest | Timeout LongPollWaiter | Close nat

definition web_op :: "web_env \<Rightarrow> WebOp \<Rightarrow> WebUi \<Rightarrow> WebUi" where
  "web_op env x data =
     (case x of
        Reply chat_id content \<Rightarrow> enqueue_reply env chat_id content data
      | Poll c hm \<Rightarrow> handle_chat_poll env c hm data
      | Timeout w \<Rightarrow> if w \<in> set (wu_waiters data) then snd (long_poll_timeout_cb w data) else data
      | Close c \<Rightarrow> webui_close c data)"

definition sent :: "string \<Rightarrow> WebOp \<Rightarrow> string list" where
  "sent chat_id x = (case x of Reply i m \<Rightarrow> if i = chat_id then [m] else [] | _ \<Rightarrow> [])"

text \<open>A client of the chat polls again only when its last poll has been answered or given up.\<close>

definition polls_alone :: "string \<Rightarrow> WebOp \<Rightarrow> WebUi \<Rightarrow> bool" where
  "polls_alone chat_id x data =
     (case x of Poll c hm \<Rightarrow> \<not> (http_var hm ''chat_id'' 256 = Some chat_id \<and> has_waiter chat_id data) | _ \<Rightarrow> True)"

text \<open>No reply to the chat has waited for more than ten minutes when somebody, of this chat or another, polls.\<close>

definition young :: "int \<Rightarrow> string \<Rightarrow> WebUi \<Rightarrow> bool" where
  "young now chat_id data \<longleftrightarrow> list_all (\<lambda>r. rn_chat_id r = chat_id \<longrightarrow> now - rn_created_at r \<le> 600) (wu_replies data)"

definition polls_well :: "int \<Rightarrow> string \<Rightarrow> WebOp \<Rightarrow> WebUi \<Rightarrow> bool" where
  "polls_well now chat_id x data \<longleftrightarrow> polls_alone chat_id x data \<and> (case x of Poll _ _ \<Rightarrow> young now chat_id data | _ \<Rightarrow> True)"

fun web_run :: "web_env \<Rightarrow> string \<Rightarrow> (int \<times> WebOp) list \<Rightarrow> WebUi \<Rightarrow> bool \<times> WebUi" where
  "web_run env chat_id [] data = (True, data)"
| "web_run env chat_id ((now, x) # xs) data =
     (let (ok, data') = web_run env chat_id xs (web_op (env\<lparr>we_time := now\<rparr>) x data) in (polls_well now chat_id x data \<and> ok, data'))"

definition web_inv :: "string \<Rightarrow> WebUi \<Rightarrow> bool" where
  "web_inv chat_id data \<longleftrightarrow>
     length (filter (\<lambda>w. lw_chat_id w = chat_id) (wu_waiters data)) \<le> 1 \<and>
     (has_waiter chat_id data \<longrightarrow> queued chat_id data = [])"

lemma has_waiter_filter: "has_waiter chat_id data \<longleftrightarrow> filter (\<lambda>w. lw_chat_id w = chat_id) (wu_waiters data) \<noteq> []"
  by (induction "wu_waiters data") (auto simp: has_waiter_def list_ex_iff filter_empty_conv)

lemma length_filter_remove_first: "length (filter P (remove_first Q xs)) \<le> length (filter P xs)"
  by (induction xs) auto

lemma item_message_json:
  "json_string (get_object_item (Some (chat_message_json i m)) ''chat_id'') = Some i"
  "json_string (get_object_item (Some (chat_message_json i m)) ''message'') = Some m"
  by (simp_all add: chat_message_json_def get_object_item_def json_string_def strcaseeq_def tolower_def isupper_def)

definition prints_messages :: "web_env \<Rightarrow> bool" where
  "prints_messages env \<longleftrightarrow>
     (\<forall>i m. Option.bind (we_print env (chat_message_json i m)) (we_parse env) = Some (chat_message_json i m))"

lemma chat_part_message:
  assumes "prints_messages env"
  shows "chat_part (we_parse env) chat_id (c, print_reply env (chat_message_json i m)) = (if i = chat_id then [m] else [])"
proof -
  have b: "Option.bind (we_print env (chat_message_json i m)) (we_parse env) = Some (chat_message_json i m)"
    using assms by (simp add: prints_messages_def)
  then obtain s where "we_print env (chat_message_json i m) = Some s" "we_parse env s = Some (chat_message_json i m)"
    by (auto simp: bind_eq_Some_conv)
  then show ?thesis
    by (simp add: chat_part_def client_message_def print_reply_def send_json_def item_message_json)
qed

lemma received_put:
  "chat_received parse chat_id (put_reply c reply data) = chat_received parse chat_id data @ chat_part parse chat_id (c, reply)"
  by (simp add: chat_received_def put_reply_def)

lemma chat_part_error: "rp_status reply \<noteq> 200 \<Longrightarrow> chat_part parse chat_id (c, reply) = []"
  by (simp add: chat_part_def client_message_def)

lemma put_fields [simp]:
  "wu_replies (put_reply c reply data) = wu_replies data" "wu_waiters (put_reply c reply data) = wu_waiters data"
  "queued chat_id (put_reply c reply data) = queued chat_id data"
  "has_waiter chat_id (put_reply c reply data) = has_waiter chat_id data"
  "web_inv chat_id (put_reply c reply data) = web_inv chat_id data"
  by (simp_all add: put_reply_def queued_def has_waiter_def web_inv_def)

lemma received_wake:
  assumes "prints_messages env" and "has_waiter i data" and "length (filter (\<lambda>w. lw_chat_id w = chat_id) (wu_waiters data)) \<le> 1"
  shows "chat_received (we_parse env) chat_id (wake_long_poll_waiters env i m data) =
           chat_received (we_parse env) chat_id data @ (if i = chat_id then [m] else [])"
proof -
  let ?ws = "filter (\<lambda>w. lw_chat_id w = i) (wu_waiters data)"
  have "concat (map (\<lambda>w. chat_part (we_parse env) chat_id (lw_conn w, print_reply env (chat_message_json i m))) ?ws) =
        (if i = chat_id then [m] else [])"
  proof (cases "i = chat_id")
    case True
    with assms(2,3) obtain w where "?ws = [w]" by (cases ?ws) (auto simp: has_waiter_filter)
    with True show ?thesis by (simp add: chat_part_message [OF assms(1)])
  next
    case False
    then show ?thesis by (simp add: chat_part_message [OF assms(1)])
  qed
  then show ?thesis by (simp add: chat_received_def wake_long_poll_waiters_def comp_def)
qed

lemma wake_fields:
  "queued chat_id (wake_long_poll_waiters env i m data) = queued chat_id data"
  "wu_replies (wake_long_poll_waiters env i m data) = wu_replies data"
  "has_waiter chat_id (wake_long_poll_waiters env i m data) \<longleftrightarrow> has_waiter chat_id data \<and> i \<noteq> chat_id"
  by (auto simp: wake_long_poll_waiters_def queued_def has_waiter_def list_ex_iff)

lemma length_filter_weaker:
  "length (filter (\<lambda>x. P x \<and> Q x) xs) \<le> length (filter P xs)" "length (filter (\<lambda>x. Q x \<and> P x) xs) \<le> length (filter P xs)"
  by (induction xs) auto

lemma filter_wake:
  "length (filter (\<lambda>w. lw_chat_id w = chat_id) (wu_waiters (wake_long_poll_waiters env i m data))) \<le>
   length (filter (\<lambda>w. lw_chat_id w = chat_id) (wu_waiters data))"
  by (simp add: wake_long_poll_waiters_def length_filter_weaker)

lemma reply_step:
  assumes "prints_messages env" "we_malloc env" "web_inv chat_id data"
    and data': "data' = enqueue_reply env i m data"
  shows "web_inv chat_id data' \<and>
         chat_received (we_parse env) chat_id data' @ queued chat_id data' =
           chat_received (we_parse env) chat_id data @ queued chat_id data @ (if i = chat_id then [m] else [])"
proof (cases "has_waiter i data")
  case True
  have le: "length (filter (\<lambda>w. lw_chat_id w = chat_id) (wu_waiters data)) \<le> 1"
    using assms(3) by (simp add: web_inv_def)
  have d: "data' = wake_long_poll_waiters env i m data"
    using True by (simp add: data' enqueue_reply_def enqueue_found_def)
  have "web_inv chat_id data'"
    using assms(3) le_trans [OF filter_wake le] by (simp add: web_inv_def d wake_fields)
  moreover have "queued chat_id data = []" if "i = chat_id"
    using assms(3) True that by (simp add: web_inv_def)
  ultimately show ?thesis
    using received_wake [OF assms(1) True le] by (simp add: d wake_fields)
next
  case False
  then have d: "data' = data\<lparr>wu_replies := wu_replies data @ [\<lparr>rn_chat_id = i, rn_content = m, rn_created_at = we_time env\<rparr>]\<rparr>"
    by (simp add: data' enqueue_reply_def enqueue_found_def append_reply_def assms(2))
  have "has_waiter chat_id data' = has_waiter chat_id data" by (simp add: d has_waiter_def)
  then show ?thesis
    using assms(3) False by (auto simp: d web_inv_def queued_def chat_received_def)
qed

lemma cleanup_young:
  assumes "young now chat_id data"
  shows "queued chat_id (cleanup_old_replies now data) = queued chat_id data"
    "web_inv chat_id (cleanup_old_replies now data) \<longleftrightarrow> web_inv chat_id data"
proof -
  have "filter (\<lambda>r. now - rn_created_at r \<le> 600 \<and> rn_chat_id r = chat_id) (wu_replies data) =
      filter (\<lambda>r. rn_chat_id r = chat_id) (wu_replies data)"
    using assms by (auto simp: young_def list_all_iff intro: filter_cong)
  then show q: "queued chat_id (cleanup_old_replies now data) = queued chat_id data"
    by (simp add: queued_def cleanup_old_replies_def conj_commute)
  show "web_inv chat_id (cleanup_old_replies now data) \<longleftrightarrow> web_inv chat_id data"
    unfolding web_inv_def q by (simp add: cleanup_old_replies_def has_waiter_def)
qed

lemma cleanup_fields:
  "chat_received parse chat_id (cleanup_old_replies now data) = chat_received parse chat_id data"
  "has_waiter chat_id (cleanup_old_replies now data) = has_waiter chat_id data"
  by (simp_all add: cleanup_old_replies_def chat_received_def has_waiter_def)

lemma dequeue_queued:
  "case dequeue_reply i data of
     (None, data') \<Rightarrow> data' = data \<and> queued i data = []
   | (Some node, data') \<Rightarrow>
       rn_chat_id node = i \<and> wu_waiters data' = wu_waiters data \<and> wu_out data' = wu_out data \<and>
       set (wu_replies data') \<subseteq> set (wu_replies data) \<and> queued i data = rn_content node # queued i data' \<and>
       (\<forall>j. j \<noteq> i \<longrightarrow> queued j data' = queued j data)"
proof (cases "find (\<lambda>r. rn_chat_id r = i) (wu_replies data)")
  case None
  then have "\<forall>r \<in> set (wu_replies data). rn_chat_id r \<noteq> i" by (auto simp: find_None_iff)
  then have "remove_first (\<lambda>r. rn_chat_id r = i) (wu_replies data) = wu_replies data" "queued i data = []"
    by (auto intro: remove_first_no_match simp: queued_def)
  with None show ?thesis by (simp add: dequeue_reply_def)
next
  case (Some node)
  then obtain as bs where s: "wu_replies data = as @ node # bs" "rn_chat_id node = i" "\<forall>a \<in> set as. rn_chat_id a \<noteq> i"
    "remove_first (\<lambda>r. rn_chat_id r = i) (wu_replies data) = as @ bs" by (blast dest: remove_first_unlink)
  then have "filter (\<lambda>r. rn_chat_id r = i) as = []" by (simp add: filter_empty_conv)
  with s Some show ?thesis by (auto simp: dequeue_reply_def queued_def)
qed

lemma has_waiter_start:
  "we_malloc env \<Longrightarrow> has_waiter chat_id (start_waiting env c i data) \<longleftrightarrow> i = chat_id \<or> has_waiter chat_id data"
  by (simp add: start_waiting_def has_waiter_def)

lemma poll_step:
  assumes "prints_messages env" "we_malloc env" "web_inv chat_id data"
    and well: "polls_well (we_time env) chat_id (Poll c hm) data"
    and data': "data' = handle_chat_poll env c hm data"
  shows "web_inv chat_id data' \<and>
         chat_received (we_parse env) chat_id data' @ queued chat_id data' = chat_received (we_parse env) chat_id data @ queued chat_id data"
proof (cases "http_var hm ''chat_id'' 256")
  case None
  then show ?thesis using assms(3)
    by (simp add: data' handle_chat_poll_def received_put chat_part_error send_json_def)
next
  case (Some i)
  let ?data = "cleanup_old_replies (we_time env) data"
  have look: "poll_look env i data = dequeue_reply i ?data" by (simp add: poll_look_def)
  have alone: "polls_alone chat_id (Poll c hm) ?data" and young: "young (we_time env) chat_id data"
    using well by (simp_all add: polls_well_def polls_alone_def cleanup_fields)
  have inv: "web_inv chat_id ?data" using assms(3) cleanup_young(2) [OF young] by simp
  note same = cleanup_fields(1) [of "we_parse env" chat_id "we_time env" data] cleanup_young(1) [OF young]
  obtain found data1 where d: "dequeue_reply i ?data = (found, data1)" by (cases "dequeue_reply i ?data")
  show ?thesis
  proof (cases found)
    case None
    with dequeue_queued [where i = i and data = ?data] d have e: "data1 = ?data" "queued i ?data = []" by auto
    have data': "data' = start_waiting env c i ?data"
      using None d Some look e by (simp add: data' handle_chat_poll_def)
    have "chat_received (we_parse env) chat_id data' = chat_received (we_parse env) chat_id ?data" "queued chat_id data' = queued chat_id ?data"
      by (simp_all add: data' start_waiting_def assms(2) chat_received_def queued_def)
    moreover have "web_inv chat_id data'"
      using inv alone Some e(2) assms(2)
      by (auto simp: data' web_inv_def polls_alone_def start_waiting_def has_waiter_filter queued_def)
    ultimately show ?thesis using same by simp
  next
    case (Some node)
    with dequeue_queued [where i = i and data = ?data] d have e: "rn_chat_id node = i" "wu_waiters data1 = wu_waiters ?data" "wu_out data1 = wu_out ?data"
      "set (wu_replies data1) \<subseteq> set (wu_replies ?data)" "queued i ?data = rn_content node # queued i data1"
      "\<And>j. j \<noteq> i \<Longrightarrow> queued j data1 = queued j ?data" by auto
    have data': "data' = put_reply c (print_reply env (chat_message_json i (rn_content node))) data1"
      using Some d \<open>http_var hm ''chat_id'' 256 = _\<close> look e(1) by (simp add: data' handle_chat_poll_def)
    have "chat_received (we_parse env) chat_id data1 = chat_received (we_parse env) chat_id ?data" by (simp add: chat_received_def e(3))
    moreover have "web_inv chat_id data1"
      using inv e(2,4,5) e(6) [of chat_id] by (cases "i = chat_id") (auto simp: web_inv_def has_waiter_def)
    ultimately show ?thesis
      using e(5,6) same by (cases "i = chat_id") (simp_all add: data' received_put chat_part_message [OF assms(1)])
  qed
qed

lemma waiters_less:
  assumes "web_inv chat_id data" and "set (wu_waiters data') \<subseteq> set (wu_waiters data)" "wu_replies data' = wu_replies data"
    and "length (filter (\<lambda>w. lw_chat_id w = chat_id) (wu_waiters data')) \<le> length (filter (\<lambda>w. lw_chat_id w = chat_id) (wu_waiters data))"
  shows "web_inv chat_id data'"
  using assms by (auto simp: web_inv_def has_waiter_def list_ex_iff queued_def)

lemma timeout_step:
  assumes "web_inv chat_id data" "w \<in> set (wu_waiters data)" and data': "data' = snd (long_poll_timeout_cb w data)"
  shows "web_inv chat_id data' \<and> chat_received parse chat_id data' @ queued chat_id data' = chat_received parse chat_id data @ queued chat_id data"
proof -
  let ?d = "data\<lparr>wu_waiters := remove_first (\<lambda>v. v = w) (wu_waiters data)\<rparr>"
  have d: "data' = put_reply (lw_conn w) \<lparr>rp_status = 204, rp_headers = [], rp_body = Some []\<rparr> ?d"
    using assms(2) by (simp add: data' long_poll_timeout_cb_def)
  have "web_inv chat_id ?d"
    by (rule waiters_less [OF assms(1)]) (auto simp: length_filter_remove_first dest: set_remove_first_subset [THEN subsetD])
  then show ?thesis unfolding d received_put by (simp add: chat_part_error chat_received_def queued_def)
qed

lemma close_step:
  assumes "web_inv chat_id data" and data': "data' = webui_close c data"
  shows "web_inv chat_id data' \<and> chat_received parse chat_id data' @ queued chat_id data' = chat_received parse chat_id data @ queued chat_id data"
proof -
  have "web_inv chat_id data'"
    by (rule waiters_less [OF assms(1)])
      (auto simp: data' webui_close_def length_filter_remove_first dest: set_remove_first_subset [THEN subsetD])
  moreover have "wu_out data' = wu_out data" "wu_replies data' = wu_replies data" by (simp_all add: data' webui_close_def)
  ultimately show ?thesis by (simp add: chat_received_def queued_def)
qed

lemma web_op_step:
  assumes "prints_messages env" "we_malloc env" "web_inv chat_id data" "polls_well (we_time env) chat_id x data"
  shows "web_inv chat_id (web_op env x data) \<and>
         chat_received (we_parse env) chat_id (web_op env x data) @ queued chat_id (web_op env x data) =
           chat_received (we_parse env) chat_id data @ queued chat_id data @ sent chat_id x"
proof (cases x)
  case (Reply i m)
  then show ?thesis using reply_step [OF assms(1-3) refl, of i m] by (simp add: web_op_def sent_def)
next
  case (Poll c hm)
  then show ?thesis using poll_step [OF assms(1-3) _ refl, of c hm] assms(4) by (simp add: web_op_def sent_def)
next
  case (Timeout w)
  then show ?thesis using timeout_step [OF assms(3) _ refl, of w] assms(3) by (simp add: web_op_def sent_def)
next
  case (Close c)
  then show ?thesis using close_step [OF assms(3) refl, of c] by (simp add: web_op_def sent_def)
qed

lemma web_run_received:
  assumes "prints_messages env" "we_malloc env" "web_inv chat_id data" "web_run env chat_id xs data = (True, data')"
  shows "chat_received (we_parse env) chat_id data' @ queued chat_id data' =
           chat_received (we_parse env) chat_id data @ queued chat_id data @ concat (map (sent chat_id \<circ> snd) xs)"
  using assms(3,4)
proof (induction xs arbitrary: data)
  case Nil
  then show ?case by simp
next
  case (Cons tx xs)
  obtain now x where tx: "tx = (now, x)" by (cases tx)
  let ?env = "env\<lparr>we_time := now\<rparr>"
  have env: "prints_messages ?env" "we_malloc ?env" using assms(1,2) by (simp_all add: prints_messages_def)
  have ok: "polls_well (we_time ?env) chat_id x data" "web_run env chat_id xs (web_op ?env x data) = (True, data')"
    using Cons.prems(2) tx by (auto simp: Let_def split: prod.splits)
  note s = web_op_step [OF env Cons.prems(1) ok(1)]
  have "chat_received (we_parse env) chat_id data' @ queued chat_id data' =
          chat_received (we_parse env) chat_id (web_op ?env x data) @ queued chat_id (web_op ?env x data) @ concat (map (sent chat_id \<circ> snd) xs)"
    by (rule Cons.IH [OF conjunct1 [OF s] ok(2)])
  also have "\<dots> = (chat_received (we_parse env) chat_id data @ queued chat_id data @ sent chat_id x) @ concat (map (sent chat_id \<circ> snd) xs)"
    using conjunct2 [OF s] by simp
  finally show ?case using tx by (simp add: comp_def)
qed

section \<open>The properties\<close>

definition no_chat_yet :: "WebUi \<Rightarrow> bool" where
  "no_chat_yet data \<longleftrightarrow> wu_replies data = [] \<and> wu_waiters data = [] \<and> wu_out data = []"

text \<open>
  Claim C11. Replies to a chat in the browser, when the operations under the lock do not mix, memory is available and the JSON library reads what it has printed: if the client
  of a chat polls one request at a time, and no reply to the chat has waited for more than ten minutes at a time when somebody polls, however long the run is, then what
  the client has received, followed by what is still queued for it, is exactly what was sent to the chat, once and in the order of sending. Requests may be answered,
  time out or be closed in between, and other chats may do what they like.
\<close>
theorem chat_replies_in_order:
  assumes "\<And>i m. Option.bind (we_print env (chat_message_json i m)) (we_parse env) = Some (chat_message_json i m)" and "we_malloc env"
    and "no_chat_yet data" and "web_run env chat_id xs data = (True, data')"
  shows "chat_received (we_parse env) chat_id data' @ queued chat_id data' = concat (map (sent chat_id \<circ> snd) xs)"
proof -
  have "web_inv chat_id data" "chat_received (we_parse env) chat_id data = []" "queued chat_id data = []"
    using assms(3) by (simp_all add: no_chat_yet_def web_inv_def has_waiter_def chat_received_def queued_def)
  moreover have "prints_messages env" using assms(1) by (simp add: prints_messages_def)
  ultimately show ?thesis using web_run_received [OF _ assms(2) _ assms(4)] by simp
qed

text \<open>A printer for messages: the length of the chat identifier, then both texts.\<close>

definition demo_web_env :: web_env where
  "demo_web_env =
     \<lparr>we_parse = (\<lambda>s. let n = length (takeWhile (\<lambda>c. c = CHR ''x'') s); r = drop (n + 1) s
                      in Some (chat_message_json (take n r) (drop n r))),
      we_print = (\<lambda>j. let i = str_or_empty (json_string (get_object_item (Some j) ''chat_id''))
                      in Some (replicate (length i) (CHR ''x'') @ ''-'' @ i @ str_or_empty (json_string (get_object_item (Some j) ''message'')))),
      we_base64 = (\<lambda>s. s), we_unbase64 = (\<lambda>s. s), we_fwrite = length, we_malloc = True, we_time = 0,
      we_host = \<lparr>h_cwd = [], h_may_read = (\<lambda>_. True), h_may_write = (\<lambda>_. True), h_malloc = (\<lambda>_. True), h_dir_end = 0,
                 h_garbage = (\<lambda>_. []), h_readdir = (\<lambda>_ _. []), h_stale_dir = (\<lambda>_. False)\<rparr>,
      we_fs = [[] \<mapsto> Dir]\<rparr>"

definition demo_poll :: HttpRequest where
  "demo_poll =
     \<lparr>hr_method = ''GET'', hr_uri = ''/api/chat/poll'', hr_header = Map.empty, hr_var = [''chat_id'' \<mapsto> ''a''], hr_body = []\<rparr>"

definition demo_web :: WebUi where
  "demo_web =
     \<lparr>wu_bus = None, wu_cfg = config_create, wu_plugin_path = None, wu_plugin_mgr = None, wu_external_dir = None, wu_channels = [], wu_running = True, wu_port = 16714, wu_config_path = [],
      wu_replies = [], wu_waiters = [], wu_polled = {}, wu_out = []\<rparr>"

definition chat_ops :: "(int \<times> WebOp) list" where
  "chat_ops =
     [(0, Poll 1 demo_poll), (5, Reply ''a'' ''hi''), (6, Reply ''b'' ''no''), (7, Reply ''a'' ''yo''), (8, Poll 1 demo_poll), (9, Reply ''a'' ''end'')]"

lemma demo_web_prints:
  "Option.bind (we_print demo_web_env (chat_message_json i m)) (we_parse demo_web_env) = Some (chat_message_json i m)"
proof -
  have "takeWhile (\<lambda>c. c = CHR ''x'') (replicate n (CHR ''x'') @ CHR ''-'' # r) = replicate n (CHR ''x'')" for n r
    by (induction n) simp_all
  then show ?thesis by (simp add: demo_web_env_def item_message_json Let_def)
qed

theorem chat_replies_in_order_witness:
  "chat_received (we_parse demo_web_env) ''a'' (snd (web_run demo_web_env ''a'' chat_ops demo_web)) @
     queued ''a'' (snd (web_run demo_web_env ''a'' chat_ops demo_web)) = [''hi'', ''yo'', ''end'']"
proof -
  have "fst (web_run demo_web_env ''a'' chat_ops demo_web)"
    by (simp add: chat_ops_def demo_poll_def polls_well_def polls_alone_def young_def http_var_def web_op_def enqueue_reply_def enqueue_found_def
        wake_long_poll_waiters_def has_waiter_def demo_web_def handle_chat_poll_def poll_look_def cleanup_old_replies_def dequeue_reply_def
        start_waiting_def append_reply_def demo_web_env_def put_reply_def)
  then have run: "web_run demo_web_env ''a'' chat_ops demo_web = (True, snd (web_run demo_web_env ''a'' chat_ops demo_web))"
    by (simp add: prod_eq_iff)
  have "we_malloc demo_web_env" by (simp add: demo_web_env_def)
  moreover have "no_chat_yet demo_web" by (simp add: no_chat_yet_def demo_web_def)
  ultimately show ?thesis
    using chat_replies_in_order [OF demo_web_prints _ _ run] by (simp add: chat_ops_def sent_def)
qed

lemma waiter_after_reply:
  assumes "w \<in> set (wu_waiters data)"
  shows "w \<in> set (wu_waiters (enqueue_reply env i m data)) \<longleftrightarrow> lw_chat_id w \<noteq> i"
  using assms by (auto simp: enqueue_reply_def enqueue_found_def wake_long_poll_waiters_def append_reply_def has_waiter_def list_ex_iff)

lemma no_new_waiter: "set (wu_waiters (enqueue_reply env i m data)) \<subseteq> set (wu_waiters data)"
  by (auto simp: enqueue_reply_def enqueue_found_def wake_long_poll_waiters_def append_reply_def)

lemma no_new_waiters: "set (wu_waiters (fold (\<lambda>(i, m). enqueue_reply env i m) sends data)) \<subseteq> set (wu_waiters data)"
proof (induction sends arbitrary: data)
  case (Cons x xs)
  then show ?case using no_new_waiter by (cases x) fastforce
qed simp

lemma waiter_after_replies:
  "w \<in> set (wu_waiters data) \<Longrightarrow>
   w \<in> set (wu_waiters (fold (\<lambda>(i, m). enqueue_reply env i m) sends data)) \<longleftrightarrow> lw_chat_id w \<notin> fst ` set sends"
proof (induction sends arbitrary: data)
  case Nil
  then show ?case by simp
next
  case (Cons x xs)
  obtain i m where x: "x = (i, m)" by (cases x)
  show ?case
  proof (cases "lw_chat_id w = i")
    case True
    then have "w \<notin> set (wu_waiters (enqueue_reply env i m data))" using waiter_after_reply [OF Cons.prems] by simp
    then have "w \<notin> set (wu_waiters (fold (\<lambda>(i, m). enqueue_reply env i m) xs (enqueue_reply env i m data)))"
      using no_new_waiters by blast
    with True x show ?thesis by simp
  next
    case False
    then have "w \<in> set (wu_waiters (enqueue_reply env i m data))" using waiter_after_reply [OF Cons.prems] by simp
    from Cons.IH [OF this] False x show ?thesis by auto
  qed
qed

text \<open>
  A reply against the timer: between the moment a timer fires and the moment its callback has the lock, the other
  thread may send replies. The callback then frees its waiter a second time if and only if one of these replies was for the chat of
  the waiter.
\<close>
theorem timeout_frees_twice_iff:
  assumes "w \<in> set (wu_waiters data)"
  shows "fst (long_poll_timeout_cb w (fold (\<lambda>(i, m). enqueue_reply env i m) sends data)) \<longleftrightarrow> lw_chat_id w \<in> fst ` set sends"
  using waiter_after_replies [OF assms] by (simp add: long_poll_timeout_cb_def)

theorem timeout_frees_twice_iff_witness:
  "fst (long_poll_timeout_cb \<lparr>lw_conn = 1, lw_chat_id = ''a''\<rparr>
          (fold (\<lambda>(i, m). enqueue_reply demo_web_env i m) [(''b'', ''no''), (''a'', ''hi'')]
            (demo_web\<lparr>wu_waiters := [\<lparr>lw_conn = 1, lw_chat_id = ''a''\<rparr>]\<rparr>)))"
  by (subst timeout_frees_twice_iff) simp_all

text \<open>
  The other windows. A reply that saw a waiter, which has gone when the waiters are woken, is kept nowhere. A reply that is queued between
  the look of a poll and its wait stays in the queue while its client waits.
\<close>

lemma reply_after_waiter_gone: "\<not> has_waiter i data \<Longrightarrow> enqueue_found env True i m data = data"
  by (auto simp: enqueue_found_def wake_long_poll_waiters_def has_waiter_def list_ex_iff filter_empty_conv)

lemma reply_waits_with_client:
  assumes "we_malloc env" "\<not> has_waiter i data" "poll_look env i data = (None, data1)"
    and data2: "data2 = start_waiting env c i (enqueue_reply env i m data1)"
  shows "has_waiter i data2 \<and> queued i data2 = [m]"
proof -
  have "data1 = cleanup_old_replies (we_time env) data" "queued i data1 = []"
    using dequeue_queued [where i = i and data = "cleanup_old_replies (we_time env) data"] assms(3)
    by (auto simp: poll_look_def)
  moreover from this have "\<not> has_waiter i data1" using assms(2) by (simp add: cleanup_old_replies_def has_waiter_def)
  ultimately show ?thesis
    using assms(1) by (simp add: data2 enqueue_reply_def enqueue_found_def append_reply_def has_waiter_start) (simp add: start_waiting_def queued_def)
qed

end
