(* ===== verification/WebUiFiles.thy ===== *)
theory WebUiFiles
  imports WebUi Skills
begin

text \<open>
  \<open>plugins/channels/webui_channel\<close>, the files: where the configuration lies, the lists of files that the pages show, uploaded plugins, and
  skills that are listed, read, saved and imported. A handler gets the file system and returns its answer and the new file system.
\<close>

section \<open>Paths\<close>

text \<open>\<open>strcmp (s + len - suffix_len, suffix) == 0\<close>\<close>

definition ends_with :: "string \<Rightarrow> string \<Rightarrow> bool" where
  "ends_with suf s = (length suf \<le> length s \<and> drop (length s - length suf) s = suf)"

definition cut_suffix :: "string \<Rightarrow> string \<Rightarrow> string" where
  "cut_suffix suf s = take (length s - length suf) s"

definition resolve_config_path :: "string option \<Rightarrow> string option \<Rightarrow> string" where
  "resolve_config_path external_dir plugin_path =
     (let from_plugin =
        (case plugin_path of
           None \<Rightarrow> []
         | Some p \<Rightarrow>
             (case strstr p ''/.primagen/plugins/'' of
                Some marker \<Rightarrow>
                  if length p - length marker + length ''/.primagen/config.json'' + 1 < FILE_PATH_MAX
                  then take (length p - length marker) p @ ''/.primagen/config.json''
                  else if starts_with ''.primagen/plugins/'' p then ''.primagen/config.json'' else []
              | None \<Rightarrow> if starts_with ''.primagen/plugins/'' p then ''.primagen/config.json'' else []))
      in case external_dir of
           None \<Rightarrow> from_plugin
         | Some d \<Rightarrow>
             if ends_with ''/plugins'' d \<and> length (cut_suffix ''/plugins'' d) + length ''/config.json'' + 1 < FILE_PATH_MAX
             then cut_suffix ''/plugins'' d @ ''/config.json'' else from_plugin)"

definition web_stat :: "web_env \<Rightarrow> fsys \<Rightarrow> string \<Rightarrow> node option" where
  "web_stat env fs p = Option.bind (resolve False (h_cwd (we_host env)) fs p) fs"

text \<open>\<open>mkdir\<close> has made the directory when the path leads to one that was not there.\<close>

definition web_mkdir :: "web_env \<Rightarrow> string \<Rightarrow> fsys \<Rightarrow> bool \<times> fsys" where
  "web_mkdir env p fs =
     (let fs' = mkdir (h_may_write (we_host env)) (h_cwd (we_host env)) fs p
      in (web_stat env fs p = None \<and> web_stat env fs' p = Some Dir, fs'))"

definition web_write :: "web_env \<Rightarrow> string \<Rightarrow> string \<Rightarrow> fsys \<Rightarrow> fsys option" where
  "web_write env p bytes fs =
     map_option (\<lambda>q. fs(q \<mapsto> File bytes)) (open_write (h_may_write (we_host env)) (h_cwd (we_host env)) fs p)"

definition get_primagen_dir :: "web_env \<Rightarrow> WebUi \<Rightarrow> fsys \<Rightarrow> nat \<Rightarrow> string option" where
  "get_primagen_dir env data fs out_len =
     (let cp = wu_config_path data; cwd = render (h_cwd (we_host env)); here = cwd @ ''/.primagen'';
          from_cwd = (if length cwd < 1024 \<and> length here < out_len \<and> web_stat env fs here = Some Dir then Some here else None);
          from_plugin =
            (case Option.bind (wu_plugin_path data) (\<lambda>p. map_option (\<lambda>m. take (length p - length m) p) (strstr p ''/.primagen/plugins/'')) of
               Some base \<Rightarrow> if length base + length ''/.primagen'' + 1 < out_len then Some (base @ ''/.primagen'') else from_cwd
             | None \<Rightarrow> from_cwd)
      in if ends_with ''/config.json'' cp \<and> length cp > length ''/config.json'' \<and> length (cut_suffix ''/config.json'' cp) + 1 < out_len
         then Some (cut_suffix ''/config.json'' cp) else from_plugin)"

definition ensure_dir_exists :: "web_env \<Rightarrow> string \<Rightarrow> fsys \<Rightarrow> bool \<times> fsys" where
  "ensure_dir_exists env p fs =
     (if p = [] then (False, fs)
      else (case web_stat env fs p of Some n \<Rightarrow> (n = Dir, fs) | None \<Rightarrow> web_mkdir env p fs))"

text \<open>\<open>snprintf\<close> with the test that the text fits.\<close>

definition fits :: "nat \<Rightarrow> string \<Rightarrow> string option" where
  "fits n s = (if length s < n then Some s else None)"

section \<open>Uploaded plugins\<close>

definition is_valid_so_filename :: "string \<Rightarrow> bool" where
  "is_valid_so_filename filename \<longleftrightarrow>
     filename \<noteq> [] \<and> CHR ''/'' \<notin> set filename \<and> CHR 0x5C \<notin> set filename \<and> strstr filename ''..'' = None \<and>
     length filename > 3 \<and> ends_with ''.so'' filename \<and>
     list_all (\<lambda>ch. isalnum ch \<or> ch = CHR ''_'' \<or> ch = CHR ''-'' \<or> ch = CHR ''.'') filename"

definition kind_dir :: "string \<Rightarrow> string option" where
  "kind_dir kind =
     (if kind = ''channel'' then Some ''channels'' else if kind = ''tool'' then Some ''tools''
      else if kind = ''command'' then Some ''commands'' else None)"

definition get_plugin_upload_dir :: "web_env \<Rightarrow> WebUi \<Rightarrow> string \<Rightarrow> fsys \<Rightarrow> string option \<times> fsys" where
  "get_plugin_upload_dir env data kind fs =
     (case Option.bind (get_primagen_dir env data fs 1024) (\<lambda>d. fits 1200 (d @ ''/plugins'')) of
        None \<Rightarrow> (None, fs)
      | Some plugins_root \<Rightarrow>
          (case kind_dir kind of
             None \<Rightarrow> (None, fs)
           | Some subdir \<Rightarrow>
               (case ensure_dir_exists env plugins_root fs of
                  (False, fs) \<Rightarrow> (None, fs)
                | (True, fs) \<Rightarrow>
                    (case fits 1400 (plugins_root @ ''/'' @ subdir) of
                       None \<Rightarrow> (None, fs)
                     | Some dir \<Rightarrow> (case ensure_dir_exists env dir fs of (ok, fs) \<Rightarrow> (if ok then Some dir else None, fs))))))"

text \<open>
  The answer is \<open>None\<close> when it is made from the request that has just been freed: after a file has been written the texts for the answer
  are taken from there.
\<close>

definition store_upload :: "web_env \<Rightarrow> string \<Rightarrow> string \<Rightarrow> string \<Rightarrow> fsys \<Rightarrow> HttpReply option \<times> fsys" where
  "store_upload env dir filename b64 fs =
     (case fits 1800 (dir @ ''/'' @ filename) of
        None \<Rightarrow> (Some (send_json 400 (json_error ''path_too_long'')), fs)
      | Some target \<Rightarrow>
          if \<not> we_malloc env then (Some (send_json 500 (json_error ''alloc_failed'')), fs)
          else if we_unbase64 env b64 = [] then (Some (send_json 400 (json_error ''base64_decode_failed'')), fs)
          else (let decoded = we_unbase64 env b64; written = min (we_fwrite env decoded) (length decoded)
                in case web_write env target (take written decoded) fs of
                     None \<Rightarrow> (Some (send_json 500 (json_error ''open_failed'')), fs)
                   | Some fs \<Rightarrow> if written \<noteq> length decoded then (Some (send_json 500 (json_error ''write_failed'')), fs) else (None, fs)))"

definition handle_control_plugin_upload :: "web_env \<Rightarrow> HttpRequest \<Rightarrow> WebUi \<Rightarrow> fsys \<Rightarrow> HttpReply option \<times> fsys" where
  "handle_control_plugin_upload env hm data fs =
     (case we_parse env (hr_body hm) of
        None \<Rightarrow> (Some (send_json 400 (json_error ''invalid_json'')), fs)
      | Some req \<Rightarrow>
          (case (json_string (get_object_item (Some req) ''kind''), json_string (get_object_item (Some req) ''filename''),
                 json_string (get_object_item (Some req) ''data_base64'')) of
             (Some kind, Some filename, Some b64) \<Rightarrow>
               (if kind_dir kind = None then (Some (send_json 400 (json_error ''invalid_kind'')), fs)
                else if \<not> is_valid_so_filename filename then (Some (send_json 400 (json_error ''invalid_filename'')), fs)
                else if b64 = [] \<or> length b64 > 24 * 1024 * 1024 then (Some (send_json 400 (json_error ''invalid_size'')), fs)
                else (case get_plugin_upload_dir env data kind fs of
                        (None, fs) \<Rightarrow> (Some (send_json 500 (json_error ''plugin_dir_unavailable'')), fs)
                      | (Some dir, fs) \<Rightarrow> store_upload env dir filename b64 fs))
           | _ \<Rightarrow> (Some (send_json 400 (json_error ''invalid_params'')), fs)))"

section \<open>Lists of files\<close>

definition send_items_response :: "web_env \<Rightarrow> json list \<Rightarrow> HttpReply" where
  "send_items_response env items = print_reply env (JObject [(''items'', JArray items)])"

definition dir_names :: "web_env \<Rightarrow> fsys \<Rightarrow> string \<Rightarrow> string list" where
  "dir_names env fs p =
     (case open_read (h_may_read (we_host env)) (h_cwd (we_host env)) fs p of
        Some q \<Rightarrow> if fs q = Some Dir then filter (\<lambda>n. n \<noteq> ''.'' \<and> n \<noteq> ''..'') (h_readdir (we_host env) fs q) else []
      | None \<Rightarrow> [])"

definition dir_entry :: "web_env \<Rightarrow> fsys \<Rightarrow> nat \<Rightarrow> string \<Rightarrow> string \<Rightarrow> json list" where
  "dir_entry env fs filter_mode dir_path name =
     (let full_path = c_trunc 1024 (dir_path @ ''/'' @ name)
      in case web_stat env fs full_path of
           None \<Rightarrow> []
         | Some n \<Rightarrow>
             (let is_dir = (n = Dir)
              in if filter_mode = 1 \<and> \<not> is_dir \<or> filter_mode = 2 \<and> is_dir then []
                 else [JObject [(''name'', JString name), (''path'', JString full_path),
                                (''type'', JString (if is_dir then ''dir'' else ''file'')),
                                (''size'', JNumber (of_nat (case n of File t \<Rightarrow> length t | _ \<Rightarrow> h_dir_end (we_host env))))]]))"

definition add_dir_entries :: "web_env \<Rightarrow> fsys \<Rightarrow> string \<Rightarrow> nat \<Rightarrow> json list" where
  "add_dir_entries env fs dir_path filter_mode = concat (map (dir_entry env fs filter_mode dir_path) (dir_names env fs dir_path))"

definition listed_dir :: "web_env \<Rightarrow> WebUi \<Rightarrow> fsys \<Rightarrow> string \<Rightarrow> json list" where
  "listed_dir env data fs sub =
     (case get_primagen_dir env data fs 1024 of None \<Rightarrow> [] | Some d \<Rightarrow> add_dir_entries env fs (c_trunc 1024 (d @ sub)) 2)"

definition handle_control_sessions :: "web_env \<Rightarrow> WebUi \<Rightarrow> fsys \<Rightarrow> HttpReply" where
  "handle_control_sessions env data fs = send_items_response env (listed_dir env data fs ''/sessions'')"

definition handle_settings_logs :: "web_env \<Rightarrow> WebUi \<Rightarrow> fsys \<Rightarrow> HttpReply" where
  "handle_settings_logs env data fs = send_items_response env (listed_dir env data fs ''/log'')"

definition handle_settings_docs :: "web_env \<Rightarrow> WebUi \<Rightarrow> fsys \<Rightarrow> HttpReply" where
  "handle_settings_docs env data fs = send_items_response env (listed_dir env data fs [] @ listed_dir env data fs ''/memory'')"

text \<open>The jobs of the file, which is an array of jobs or has one; the bytes of a directory are what the memory held.\<close>

definition cron_items :: "json option \<Rightarrow> json list" where
  "cron_items store =
     (case json_array (get_object_item store ''jobs'') of
        Some js \<Rightarrow> js | None \<Rightarrow> (case json_array store of Some js \<Rightarrow> js | None \<Rightarrow> []))"

definition handle_control_cron :: "web_env \<Rightarrow> WebUi \<Rightarrow> fsys \<Rightarrow> HttpReply" where
  "handle_control_cron env data fs =
     send_items_response env
       (case Option.bind (get_primagen_dir env data fs 1024)
               (\<lambda>d. open_read (h_may_read (we_host env)) (h_cwd (we_host env)) fs (c_trunc 1024 (d @ ''/cron_store.json''))) of
          None \<Rightarrow> []
        | Some q \<Rightarrow>
            (let (bytes, len) = (case fs q of Some (File t) \<Rightarrow> (t, length t)
                                 | _ \<Rightarrow> (h_garbage (we_host env) (h_dir_end (we_host env)), h_dir_end (we_host env)))
             in if len > 0 \<and> len < 4 * 1024 * 1024 \<and> we_malloc env then cron_items (we_parse env (c_string bytes)) else []))"

section \<open>Skills\<close>

definition get_skills_dir :: "web_env \<Rightarrow> WebUi \<Rightarrow> fsys \<Rightarrow> string option \<times> fsys" where
  "get_skills_dir env data fs =
     (case Option.bind (get_primagen_dir env data fs 1024) (\<lambda>d. fits 1024 (d @ ''/skills'')) of
        None \<Rightarrow> (None, fs)
      | Some out \<Rightarrow>
          (case web_stat env fs out of
             Some n \<Rightarrow> (if n = Dir then Some out else None, fs)
           | None \<Rightarrow> (case web_mkdir env out fs of (ok, fs) \<Rightarrow> (if ok then Some out else None, fs))))"

definition is_valid_skill_name :: "string \<Rightarrow> bool" where
  "is_valid_skill_name name \<longleftrightarrow>
     name \<noteq> [] \<and> length name \<le> 128 \<and> list_all (\<lambda>ch. isalnum ch \<or> ch = CHR ''-'' \<or> ch = CHR ''_'') name"

definition is_blank_text :: "string \<Rightarrow> bool" where
  "is_blank_text s = list_all isspace s"

definition read_file_to_string :: "web_env \<Rightarrow> fsys \<Rightarrow> string \<Rightarrow> nat \<Rightarrow> string option" where
  "read_file_to_string env fs p max_len =
     (case open_read (h_may_read (we_host env)) (h_cwd (we_host env)) fs p of
        None \<Rightarrow> None
      | Some q \<Rightarrow>
          (let (bytes, len) = (case fs q of Some (File t) \<Rightarrow> (t, length t) | _ \<Rightarrow> ([], h_dir_end (we_host env)))
           in if len > max_len \<or> \<not> we_malloc env \<or> length bytes \<noteq> len then None else Some (c_string bytes)))"

abbreviation quote_char :: char where
  "quote_char \<equiv> CHR 0x22"

text \<open>What stands behind a key of the header: blanks and one quote are skipped, a quote or the end of the line ends it.\<close>

definition skill_header_text :: "string \<Rightarrow> string \<Rightarrow> string option" where
  "skill_header_text key content =
     map_option (\<lambda>p. let p = dropWhile header_blank (drop (length key) p);
                         p = (if p \<noteq> [] \<and> hd p = quote_char then tl p else p)
                     in takeWhile (\<lambda>c. c \<noteq> newline \<and> c \<noteq> quote_char) p) (strstr content key)"

definition extract_description_from_skill_md :: "web_env \<Rightarrow> string \<Rightarrow> string" where
  "extract_description_from_skill_md env content = (if we_malloc env then str_or_empty (skill_header_text ''description:'' content) else [])"

definition extract_body_from_skill_md :: "string \<Rightarrow> string" where
  "extract_body_from_skill_md content =
     (case strstr content (newline # ''---'') of
        None \<Rightarrow> content
      | Some p \<Rightarrow> dropWhile (\<lambda>c. c = CHR 0x0D \<or> c = newline) (drop 4 p))"

definition skill_md :: "string \<Rightarrow> string \<Rightarrow> string \<Rightarrow> string" where
  "skill_md name description body =
     ''---'' @ [newline] @ ''name: '' @ [quote_char] @ name @ [quote_char, newline] @ ''description: '' @ [quote_char] @ description @
     [quote_char, newline] @ ''---'' @ [newline, newline] @ body @ [newline]"

definition write_skill_md :: "web_env \<Rightarrow> string \<Rightarrow> string \<Rightarrow> string \<Rightarrow> string \<Rightarrow> fsys \<Rightarrow> fsys option" where
  "write_skill_md env skill_md_path name description body fs = web_write env skill_md_path (skill_md name description body) fs"

definition skill_item :: "web_env \<Rightarrow> fsys \<Rightarrow> string \<Rightarrow> string \<Rightarrow> json list" where
  "skill_item env fs skills_dir name =
     (let dir_path = c_trunc 1200 (skills_dir @ ''/'' @ name)
      in if web_stat env fs dir_path \<noteq> Some Dir then []
         else [JObject [(''name'', JString name), (''path'', JString dir_path),
                        (''description'',
                          JString (case read_file_to_string env fs (c_trunc 1400 (dir_path @ ''/SKILL.md'')) (1024 * 1024) of
                                     Some md \<Rightarrow> extract_description_from_skill_md env md | None \<Rightarrow> []))]])"

definition handle_control_skills :: "web_env \<Rightarrow> WebUi \<Rightarrow> fsys \<Rightarrow> HttpReply \<times> fsys" where
  "handle_control_skills env data fs =
     (case get_skills_dir env data fs of
        (None, fs) \<Rightarrow> (send_items_response env [], fs)
      | (Some skills_dir, fs) \<Rightarrow>
          (send_items_response env (concat (map (skill_item env fs skills_dir) (dir_names env fs skills_dir))), fs))"

definition handle_control_skill_content :: "web_env \<Rightarrow> HttpRequest \<Rightarrow> WebUi \<Rightarrow> fsys \<Rightarrow> HttpReply \<times> fsys" where
  "handle_control_skill_content env hm data fs =
     (case http_var hm ''name'' 256 of
        None \<Rightarrow> (send_json 400 (json_error ''invalid_skill_name''), fs)
      | Some name \<Rightarrow>
          if \<not> is_valid_skill_name name then (send_json 400 (json_error ''invalid_skill_name''), fs)
          else (case get_skills_dir env data fs of
                  (None, fs) \<Rightarrow> (send_json 500 (json_error ''skills_dir_unavailable''), fs)
                | (Some skills_dir, fs) \<Rightarrow>
                    (case read_file_to_string env fs (c_trunc 1400 (skills_dir @ ''/'' @ name @ ''/SKILL.md'')) (1024 * 1024) of
                       None \<Rightarrow> (send_json 404 (json_error ''skill_not_found''), fs)
                     | Some md \<Rightarrow>
                         (print_reply env
                            (JObject [(''name'', JString name), (''description'', JString (extract_description_from_skill_md env md)),
                                      (''content'', JString (extract_body_from_skill_md md))]), fs))))"

definition make_skill_dir :: "web_env \<Rightarrow> string \<Rightarrow> fsys \<Rightarrow> bool \<times> fsys" where
  "make_skill_dir env skill_dir fs = (if web_stat env fs skill_dir \<noteq> None then (True, fs) else web_mkdir env skill_dir fs)"

definition store_skill :: "web_env \<Rightarrow> string \<Rightarrow> string \<Rightarrow> string \<Rightarrow> string \<Rightarrow> fsys \<Rightarrow> HttpReply \<times> fsys" where
  "store_skill env skills_dir name description content fs =
     (let skill_dir = c_trunc 1400 (skills_dir @ ''/'' @ name);
          (ok, fs) = make_skill_dir env skill_dir fs
      in if \<not> ok then (send_json 500 (json_error ''mkdir_failed''), fs)
         else (case write_skill_md env (c_trunc 1500 (skill_dir @ ''/SKILL.md'')) name description content fs of
                 None \<Rightarrow> (send_json 500 (json_error ''write_failed''), fs)
               | Some fs \<Rightarrow> (send_json 200 (json_pair ''ok'' ''true''), fs)))"

definition handle_control_skill_save :: "web_env \<Rightarrow> HttpRequest \<Rightarrow> WebUi \<Rightarrow> fsys \<Rightarrow> HttpReply \<times> fsys" where
  "handle_control_skill_save env hm data fs =
     (case we_parse env (hr_body hm) of
        None \<Rightarrow> (send_json 400 (json_error ''invalid_json''), fs)
      | Some req \<Rightarrow>
          (case (json_string (get_object_item (Some req) ''name''), json_string (get_object_item (Some req) ''description''),
                 json_string (get_object_item (Some req) ''content'')) of
             (Some name, Some description, Some content) \<Rightarrow>
               (if \<not> is_valid_skill_name name then (send_json 400 (json_error ''invalid_params''), fs)
                else if is_blank_text description then (send_json 400 (json_error ''description_required''), fs)
                else if is_blank_text content then (send_json 400 (json_error ''content_required''), fs)
                else (case get_skills_dir env data fs of
                        (None, fs) \<Rightarrow> (send_json 500 (json_error ''skills_dir_unavailable''), fs)
                      | (Some skills_dir, fs) \<Rightarrow> store_skill env skills_dir name description content fs))
           | _ \<Rightarrow> (send_json 400 (json_error ''invalid_params''), fs)))"

section \<open>Imported skills\<close>

text \<open>
  The directory entry that a path names, which \<open>lstat\<close>, \<open>unlink\<close> and \<open>rename\<close> work on; \<open>rename\<close> replaces a file but not a directory.
\<close>

definition entry_of :: "web_env \<Rightarrow> fsys \<Rightarrow> string \<Rightarrow> path option" where
  "entry_of env fs p =
     (let cs = strtok slash p
      in if cs = [] \<or> PATH_MAX \<le> length p then None
         else (case walk False fs SYMLOOP_MAX (start_dir p (h_cwd (we_host env))) (butlast cs) of
                 Some d \<Rightarrow> if fs d = Some Dir then Some (d @ [last cs]) else None | None \<Rightarrow> None))"

definition rename_file :: "web_env \<Rightarrow> string \<Rightarrow> string \<Rightarrow> fsys \<Rightarrow> fsys" where
  "rename_file env from' to' fs =
     (case (entry_of env fs from', entry_of env fs to') of
        (Some a, Some b) \<Rightarrow>
          (case fs a of
             None \<Rightarrow> fs
           | Some n \<Rightarrow> if a = b \<or> n = Dir \<or> fs b = Some Dir \<or> \<not> h_may_write (we_host env) a \<or> \<not> h_may_write (we_host env) b then fs
                       else fs(b \<mapsto> n, a := None))
      | _ \<Rightarrow> fs)"

definition imported_name :: "string \<Rightarrow> string" where
  "imported_name md = take 255 (str_or_empty (skill_header_text ''name:'' md))"

text \<open>\<open>SKILL.md\<close> at the top of the archive goes to the directory of its name.\<close>

definition move_root_skill :: "web_env \<Rightarrow> string \<Rightarrow> string \<Rightarrow> fsys \<Rightarrow> fsys" where
  "move_root_skill env skills_dir name fs =
     (let imported_dir = c_trunc 1500 (skills_dir @ ''/'' @ name);
          fs = (if web_stat env fs imported_dir = None then snd (web_mkdir env imported_dir fs) else fs)
      in rename_file env (c_trunc 1400 (skills_dir @ ''/SKILL.md'')) (c_trunc 1700 (imported_dir @ ''/SKILL.md'')) fs)"

definition unzip_command :: "string \<Rightarrow> string \<Rightarrow> string" where
  "unzip_command tmp skills_dir =
     c_trunc 2600 (''unzip -oq '' @ [CHR 0x27] @ tmp @ [CHR 0x27] @ '' -d '' @ [CHR 0x27] @ skills_dir @ [CHR 0x27] @ '' >/dev/null 2>&1'')"

text \<open>
  \<open>mkstemp\<close> gives the path of a new file, if it can, and \<open>run\<close> is \<open>system\<close>: the exit status of a command and the files behind it.
\<close>

definition import_archive ::
  "(fsys \<Rightarrow> string option) \<Rightarrow> (string \<Rightarrow> fsys \<Rightarrow> int \<times> fsys) \<Rightarrow> web_env \<Rightarrow> string \<Rightarrow> string \<Rightarrow> fsys \<Rightarrow> HttpReply \<times> fsys" where
  "import_archive mkstemp run env skills_dir bytes fs =
     (case mkstemp fs of
        None \<Rightarrow> (send_json 500 (json_error ''tmp_create_failed''), fs)
      | Some tmp \<Rightarrow>
          (let fs = (case web_write env tmp bytes fs of Some fs \<Rightarrow> fs | None \<Rightarrow> fs);
               (rc, fs) = run (unzip_command tmp skills_dir) fs;
               fs = (case entry_of env fs tmp of Some q \<Rightarrow> fs(q := None) | None \<Rightarrow> fs)
           in if rc \<noteq> 0 then (send_json 500 (json_error ''unzip_failed''), fs)
              else (let name = (case read_file_to_string env fs (c_trunc 1400 (skills_dir @ ''/SKILL.md'')) (1024 * 1024) of
                                  Some md \<Rightarrow> imported_name md | None \<Rightarrow> []);
                        valid = is_valid_skill_name name
                    in (print_reply env (JObject ((''ok'', JBool True) # (if valid then [(''imported_name'', JString name)] else []))),
                        if valid then move_root_skill env skills_dir name fs else fs))))"

definition handle_control_skill_import ::
  "(fsys \<Rightarrow> string option) \<Rightarrow> (string \<Rightarrow> fsys \<Rightarrow> int \<times> fsys) \<Rightarrow> web_env \<Rightarrow> HttpRequest \<Rightarrow> WebUi \<Rightarrow> fsys \<Rightarrow> HttpReply \<times> fsys" where
  "handle_control_skill_import mkstemp run env hm data fs =
     (case we_parse env (hr_body hm) of
        None \<Rightarrow> (send_json 400 (json_error ''invalid_json''), fs)
      | Some req \<Rightarrow>
          (case (json_string (get_object_item (Some req) ''filename''), json_string (get_object_item (Some req) ''data_base64'')) of
             (Some filename, Some b64) \<Rightarrow>
               (if \<not> ends_with ''.zip'' filename then (send_json 400 (json_error ''zip_required''), fs)
                else (case get_skills_dir env data fs of
                        (None, fs) \<Rightarrow> (send_json 500 (json_error ''skills_dir_unavailable''), fs)
                      | (Some skills_dir, fs) \<Rightarrow>
                          if \<not> we_malloc env then (send_json 500 (json_error ''alloc_failed''), fs)
                          else if we_unbase64 env b64 = [] then (send_json 400 (json_error ''base64_decode_failed''), fs)
                          else import_archive mkstemp run env skills_dir (we_unbase64 env b64) fs))
           | _ \<Rightarrow> (send_json 400 (json_error ''invalid_params''), fs)))"

section \<open>The shared object of a plugin\<close>

text \<open>
  The search goes into directories; \<open>depth\<close> bounds how deep. A path grows by two bytes at least with every level, until it fills its
  buffer.
\<close>

fun find_so_path :: "nat \<Rightarrow> web_env \<Rightarrow> fsys \<Rightarrow> string \<Rightarrow> string \<Rightarrow> string option" where
  "find_so_path 0 env fs dir plugin_id = None"
| "find_so_path (Suc depth) env fs dir plugin_id =
     (let look = (\<lambda>name.
            let full_path = c_trunc FILE_PATH_MAX (dir @ ''/'' @ name)
            in if name \<noteq> [] \<and> hd name = CHR ''.'' then None
               else (case Option.bind (entry_of env fs full_path) fs of
                       Some Dir \<Rightarrow> find_so_path depth env fs full_path plugin_id
                     | Some (File t) \<Rightarrow> if name = plugin_id @ ''.so'' then Some full_path else None
                     | _ \<Rightarrow> None))
      in fold (\<lambda>name found. case found of Some p \<Rightarrow> Some p | None \<Rightarrow> look name) (dir_names env fs dir) None)"

definition get_plugin_so_path :: "web_env \<Rightarrow> WebUi \<Rightarrow> fsys \<Rightarrow> string \<Rightarrow> string \<Rightarrow> string option" where
  "get_plugin_so_path env data fs kind plugin_id =
     (case (get_primagen_dir env data fs 1024, kind_dir kind) of
        (Some d, Some subdir) \<Rightarrow>
          (case fits 1600 (d @ ''/plugins/'' @ subdir @ ''/'' @ plugin_id @ ''.so'') of
             None \<Rightarrow> None
           | Some p \<Rightarrow> (case web_stat env fs p of Some (File _) \<Rightarrow> Some p | _ \<Rightarrow> None))
      | _ \<Rightarrow> None)"

section \<open>A saved skill\<close>

lemma valid_name_chars:
  assumes "is_valid_skill_name name" "c \<in> set name"
  shows "c \<noteq> newline" "c \<noteq> NUL" "c \<noteq> quote_char" "c \<noteq> slash" "c \<noteq> CHR '':''"
  using assms by (auto simp: is_valid_skill_name_def list_all_iff ctype_defs)

lemma newline_not_in_lines:
  assumes "is_valid_skill_name name" "newline \<notin> set description"
  shows "newline \<notin> set (''name: '' @ quote_char # name @ [quote_char])" "newline \<notin> set (''description: '' @ quote_char # description @ [quote_char])"
  using assms valid_name_chars(1) [OF assms(1)] by auto

lemma strstr_two_lines:
  assumes "newline \<notin> set a" "newline \<notin> set b" "\<not> starts_with p (b @ newline # r)"
  shows "strstr (a @ newline # b @ newline # r) (newline # p) =
           (if starts_with p r then Some (newline # r) else strstr r (newline # p))"
  using assms strstr_skip [of a "newline # b @ newline # r" p] strstr_skip [of b "newline # r" p]
  by (auto simp: starts_with_prefix)

lemma take_before: "take (length (a @ b) - length b) (a @ b) = a"
  by simp

lemma skill_md_parts:
  "skill_md name description body =
     header_open @ (''name: '' @ quote_char # name @ [quote_char]) @ newline # (''description: '' @ quote_char # description @ [quote_char]) @
     newline # ''---'' @ newline # newline # body @ [newline]"
  by (simp add: skill_md_def header_open_def)

text \<open>The loader of the agent finds the description and the text.\<close>

lemma loader_reads_saved:
  assumes "is_valid_skill_name name" "newline \<notin> set description"
  shows "get_frontmatter_value (skill_md name description body) ''description'' = Some description \<and>
         skill_body (skill_md name description body) = newline # body @ [newline]"
proof -
  let ?a = "''name: '' @ quote_char # name @ [quote_char]" and ?b = "''description: '' @ quote_char # description @ [quote_char]"
  let ?h = "?a @ newline # ?b"
  let ?x = "?a @ newline # ?b @ newline # ''---'' @ newline # newline # body @ [newline]"
  note lines = newline_not_in_lines [OF assms]
  have close: "strstr ?x header_close = Some (header_close @ newline # body @ [newline])"
    using strstr_two_lines [OF lines, of "''---'' @ [newline]"] by (simp add: header_close_def starts_with_prefix)
  have x: "?x = ?h @ header_close @ newline # body @ [newline]" by (simp add: header_close_def)
  have len: "take (length ?x - length (header_close @ newline # body @ [newline])) ?x = ?h"
    unfolding x by (rule take_before)
  have "header_value ''description'' ?h = header_value ''description'' ?b"
    unfolding header_value_line(1) [OF lines(1)] by (simp add: starts_with_prefix)
  also have "\<dots> = Some description"
    unfolding header_value_line(2) [OF lines(2)] by (simp add: starts_with_prefix header_blank_def unquote_def)
  finally have "header_value ''description'' ?h = Some description" .
  moreover have "starts_with header_open (header_open @ ?x)" "drop 4 (header_open @ ?x) = ?x"
    by (simp_all add: starts_with_prefix header_open_def)
  ultimately show ?thesis
    unfolding skill_md_parts get_frontmatter_value_def skill_body_def using close len
    by (simp add: Let_def) (simp add: header_close_def)
qed

text \<open>The file system stays well-formed on the way to the directory of the skill.\<close>

lemma web_mkdir_keeps:
  "wf_fs fs \<Longrightarrow> wf_fs (snd (web_mkdir env p fs)) \<and> (\<forall>q. resolved fs q \<longrightarrow> resolved (snd (web_mkdir env p fs)) q)"
  by (simp add: web_mkdir_def Let_def mkdir_keeps)

lemma make_skill_dir_keeps:
  "wf_fs fs \<Longrightarrow> wf_fs (snd (make_skill_dir env p fs)) \<and> (\<forall>q. resolved fs q \<longrightarrow> resolved (snd (make_skill_dir env p fs)) q)"
  by (simp add: make_skill_dir_def web_mkdir_keeps)

lemma skills_dir_keeps:
  "wf_fs fs \<Longrightarrow> wf_fs (snd (get_skills_dir env data fs)) \<and> (\<forall>q. resolved fs q \<longrightarrow> resolved (snd (get_skills_dir env data fs)) q)"
  using web_mkdir_keeps [of fs env] by (auto simp: get_skills_dir_def split: option.split prod.split) (metis snd_conv)+

lemma skills_dir_text:
  assumes "get_primagen_dir env data fs 1024 = Some ws" "get_skills_dir env data fs = (Some d, fs')"
  shows "d = ws @ ''/skills''"
  using assms by (auto simp: get_skills_dir_def fits_def split: if_splits option.splits prod.splits)

lemma store_skill_written:
  assumes "wf_fs fs" "resolved fs (h_cwd (we_host env))" "store_skill env dir name description content fs = (reply, fs')" "rp_status reply = 200"
  shows "\<exists>q. resolve False (h_cwd (we_host env)) fs' (c_trunc 1500 (c_trunc 1400 (dir @ ''/'' @ name) @ ''/SKILL.md'')) = Some q \<and>
             fs' q = Some (File (skill_md name description content))"
proof -
  let ?dir = "c_trunc 1400 (dir @ ''/'' @ name)"
  let ?md = "c_trunc 1500 (?dir @ ''/SKILL.md'')"
  obtain ok fs1 where m: "make_skill_dir env ?dir fs = (ok, fs1)" by (cases "make_skill_dir env ?dir fs")
  have keeps: "wf_fs fs1" "resolved fs1 (h_cwd (we_host env))"
    using make_skill_dir_keeps [OF assms(1), of env ?dir] assms(2) m by simp_all
  have ok: ok using assms(3,4) m by (cases ok) (auto simp: store_skill_def send_json_def)
  then have "open_write (h_may_write (we_host env)) (h_cwd (we_host env)) fs1 ?md \<noteq> None"
    using assms(3,4) m by (intro notI) (auto simp: store_skill_def write_skill_md_def web_write_def send_json_def)
  then obtain q where q: "open_write (h_may_write (we_host env)) (h_cwd (we_host env)) fs1 ?md = Some q" by blast
  then have fs': "fs' = fs1(q \<mapsto> File (skill_md name description content))"
    using ok assms(3,4) m by (simp add: store_skill_def write_skill_md_def web_write_def)
  have r: "resolve True (h_cwd (we_host env)) fs1 ?md = Some q" "fs1 q \<noteq> Some Dir"
    using q by (auto simp: open_write_def split: option.splits if_splits)
  have "resolved fs1 (start_dir ?md (h_cwd (we_host env)))"
    using keeps wf_fs_root [OF keeps(1)] by (simp add: start_dir_def resolved_def)
  then have "resolve False (h_cwd (we_host env)) fs' ?md = Some q"
    unfolding fs' using r walk_written [OF keeps(1)] by (auto simp: resolve_def split: if_splits)
  then show ?thesis by (simp add: fs')
qed

lemma skill_md_no_nul:
  "is_valid_skill_name name \<Longrightarrow> NUL \<notin> set description \<Longrightarrow> NUL \<notin> set content \<Longrightarrow> NUL \<notin> set (skill_md name description content)"
  using valid_name_chars(2) [of name NUL] by (auto simp: skill_md_def)

text \<open>
  Claim C12. From the browser to the agent: when the page reports that a skill has been saved, the loader of the agent (whose workspace is
  the directory the page writes to) loads for its name exactly what was saved, and reads the description back, whatever it is as
  long as it is one line.
\<close>
theorem saved_skill_is_loaded:
  assumes "wf_fs fs" "resolved fs (h_cwd (we_host env))" "\<And>q. h_may_read (we_host env) q"
    and "we_parse env (hr_body hm) = Some req" "json_string (get_object_item (Some req) ''name'') = Some name"
    and "json_string (get_object_item (Some req) ''description'') = Some description" "json_string (get_object_item (Some req) ''content'') = Some content"
    and "NUL \<notin> set description" "NUL \<notin> set content" "newline \<notin> set description"
    and "get_primagen_dir env data fs 1024 = Some ws" "length (ws @ ''/skills/'' @ name @ ''/SKILL.md'') < 1024"
    and "handle_control_skill_save env hm data fs = (reply, fs')" "rp_status reply = 200"
  shows "skills_loader_load_skill (disk_skills (h_may_read (we_host env)) (h_cwd (we_host env)) fs' dirs environ)
           \<lparr>sd_workspace = ws, sd_builtin = builtin\<rparr> name = Some (skill_md name description content) \<and>
         get_frontmatter_value (skill_md name description content) ''description'' = Some description \<and>
         skill_body (skill_md name description content) = newline # content @ [newline]"
proof -
  obtain dir fs1 where d: "get_skills_dir env data fs = (Some dir, fs1)" "store_skill env dir name description content fs1 = (reply, fs')"
    "is_valid_skill_name name"
    using assms(4-7,13,14)
    by (auto simp: handle_control_skill_save_def send_json_def split: if_splits option.splits prod.splits)
  have keeps: "wf_fs fs1" "resolved fs1 (h_cwd (we_host env))" using skills_dir_keeps [OF assms(1), of env data] assms(2) d(1) by auto
  have dir: "dir = ws @ ''/skills''" using skills_dir_text [OF assms(11) d(1)] .
  have p: "c_trunc 1500 (c_trunc 1400 (dir @ ''/'' @ name) @ ''/SKILL.md'') = ws @ ''/skills/'' @ name @ ''/SKILL.md''"
    using assms(12) by (simp add: dir)
  obtain q where q: "resolve False (h_cwd (we_host env)) fs' (ws @ ''/skills/'' @ name @ ''/SKILL.md'') = Some q"
    "fs' q = Some (File (skill_md name description content))"
    using store_skill_written [OF keeps d(2) assms(14)] unfolding p by blast
  have path: "skill_path_of \<lparr>sd_workspace = ws, sd_builtin = builtin\<rparr> name = ws @ ''/skills/'' @ name @ ''/SKILL.md''"
    using assms(12) by (simp add: skill_path_of_def)
  have "takeWhile (\<lambda>c. c \<noteq> NUL) (skill_md name description content) = skill_md name description content"
    using skill_md_no_nul [OF d(3) assms(8,9)] by (simp add: takeWhile_eq_all_conv) blast
  then have "skills_loader_load_skill (disk_skills (h_may_read (we_host env)) (h_cwd (we_host env)) fs' dirs environ)
           \<lparr>sd_workspace = ws, sd_builtin = builtin\<rparr> name = Some (skill_md name description content)"
    using q assms(3) by (simp add: skills_loader_load_skill_def path disk_skills_def read_skill_def open_read_def)
  then show ?thesis using loader_reads_saved [OF d(3) assms(10)] by blast
qed

definition skill_disk :: fsys where
  "skill_disk = [[] \<mapsto> Dir, [''w''] \<mapsto> Dir, [''w'', ''skills''] \<mapsto> Dir]"

definition skill_env :: web_env where
  "skill_env = demo_web_env
     \<lparr>we_parse := (\<lambda>_. Some (JObject [(''name'', JString ''pdf''), (''description'', JString ''Read''), (''content'', JString ''Text'')]))\<rparr>"

definition skill_web :: WebUi where
  "skill_web = demo_web\<lparr>wu_config_path := ''/w/config.json''\<rparr>"

lemma skill_disk_wf: "wf_fs skill_disk"
  unfolding wf_fs_def by (auto simp: skill_disk_def good_name_def Cons_eq_append_conv append_eq_Cons_conv split: if_splits)

lemma skill_disk_resolve:
  "resolve c [] fs ''/w/skills'' = walk c fs SYMLOOP_MAX [] [''w'', ''skills'']"
  "resolve c [] fs ''/w/skills/pdf'' = walk c fs SYMLOOP_MAX [] [''w'', ''skills'', ''pdf'']"
  "resolve c [] fs ''/w/skills/pdf/SKILL.md'' = walk c fs SYMLOOP_MAX [] [''w'', ''skills'', ''pdf'', ''SKILL.md'']"
  "strtok slash ''/w/skills/pdf'' = [''w'', ''skills'', ''pdf'']"
  by (simp_all add: resolve_def PATH_MAX_def start_dir_def absolute_def starts_with_def components_def strtok.simps)

lemma skill_web_dir: "get_primagen_dir skill_env skill_web skill_disk 1024 = Some ''/w''"
  by (simp add: get_primagen_dir_def skill_web_def ends_with_def cut_suffix_def)

lemma skill_saved: "rp_status (fst (handle_control_skill_save skill_env demo_poll skill_web skill_disk)) = 200"
proof -
  have host: "h_cwd (we_host skill_env) = []" "h_may_write (we_host skill_env) = (\<lambda>_. True)" by (simp_all add: skill_env_def demo_web_env_def)
  have "web_stat skill_env skill_disk ''/w/skills'' = Some Dir"
    by (simp add: web_stat_def skill_disk_resolve host skill_disk_def)
  then have dir: "get_skills_dir skill_env skill_web skill_disk = (Some ''/w/skills'', skill_disk)"
    by (simp add: get_skills_dir_def skill_web_dir fits_def)
  have absent: "web_stat skill_env skill_disk ''/w/skills/pdf'' = None"
    by (simp add: web_stat_def skill_disk_resolve host skill_disk_def)
  let ?fs = "skill_disk([''w'', ''skills'', ''pdf''] \<mapsto> Dir)"
  have new: "mkdir (\<lambda>_. True) [] skill_disk ''/w/skills/pdf'' = ?fs"
    by (simp add: mkdir_def skill_disk_resolve(4) PATH_MAX_def start_dir_def absolute_def starts_with_def Let_def) (simp add: skill_disk_def)
  have "web_stat skill_env ?fs ''/w/skills/pdf'' = Some Dir"
    by (simp add: web_stat_def skill_disk_resolve host skill_disk_def)
  then have made: "make_skill_dir skill_env ''/w/skills/pdf'' skill_disk = (True, ?fs)"
    by (simp add: make_skill_dir_def absent web_mkdir_def host new)
  have "resolve True [] ?fs ''/w/skills/pdf/SKILL.md'' = Some [''w'', ''skills'', ''pdf'', ''SKILL.md'']"
    by (simp add: skill_disk_resolve skill_disk_def)
  then have "store_skill skill_env ''/w/skills'' ''pdf'' ''Read'' ''Text'' skill_disk =
      (send_json 200 (json_pair ''ok'' ''true''), ?fs([''w'', ''skills'', ''pdf'', ''SKILL.md''] \<mapsto> File (skill_md ''pdf'' ''Read'' ''Text'')))"
    by (simp add: store_skill_def made write_skill_md_def web_write_def open_write_def host) (simp add: skill_disk_def)
  moreover have "we_parse skill_env (hr_body demo_poll) =
      Some (JObject [(''name'', JString ''pdf''), (''description'', JString ''Read''), (''content'', JString ''Text'')])"
    by (simp add: skill_env_def)
  ultimately show ?thesis
    by (simp add: handle_control_skill_save_def get_object_item_def json_string_def strcaseeq_def ctype_defs is_valid_skill_name_def
        is_blank_text_def dir send_json_def)
qed

theorem saved_skill_is_loaded_witness:
  "skills_loader_load_skill
     (disk_skills (h_may_read (we_host skill_env)) (h_cwd (we_host skill_env))
       (snd (handle_control_skill_save skill_env demo_poll skill_web skill_disk)) (\<lambda>_. None) (\<lambda>_. None))
     \<lparr>sd_workspace = ''/w'', sd_builtin = None\<rparr> ''pdf'' = Some (skill_md ''pdf'' ''Read'' ''Text'') \<and>
   get_frontmatter_value (skill_md ''pdf'' ''Read'' ''Text'') ''description'' = Some ''Read'' \<and>
   skill_body (skill_md ''pdf'' ''Read'' ''Text'') = newline # ''Text'' @ [newline]"
proof (rule saved_skill_is_loaded)
  show "wf_fs skill_disk" by (rule skill_disk_wf)
  show "resolved skill_disk (h_cwd (we_host skill_env))" by (simp add: skill_disk_def skill_env_def demo_web_env_def resolved_def)
  show "get_primagen_dir skill_env skill_web skill_disk 1024 = Some ''/w''" by (rule skill_web_dir)
  show "rp_status (fst (handle_control_skill_save skill_env demo_poll skill_web skill_disk)) = 200" by (rule skill_saved)
  show "we_parse skill_env (hr_body demo_poll) =
      Some (JObject [(''name'', JString ''pdf''), (''description'', JString ''Read''), (''content'', JString ''Text'')])"
    by (simp add: skill_env_def)
qed (simp_all add: skill_env_def demo_web_env_def get_object_item_def json_string_def strcaseeq_def ctype_defs)

section \<open>Editing a skill\<close>

definition edit_again :: "string \<Rightarrow> string \<Rightarrow> string \<Rightarrow> string" where
  "edit_again name description content = extract_body_from_skill_md (skill_md name description content)"

lemma body_of_saved:
  assumes "is_valid_skill_name name" "newline \<notin> set description"
  shows "extract_body_from_skill_md (skill_md name description content) = dropWhile (\<lambda>c. c = CHR 0x0D \<or> c = newline) (content @ [newline])"
proof -
  let ?a = "''name: '' @ quote_char # name @ [quote_char]" and ?b = "''description: '' @ quote_char # description @ [quote_char]"
  let ?r = "''---'' @ newline # newline # content @ [newline]"
  have md: "skill_md name description content = ''---'' @ newline # ?a @ newline # ?b @ newline # ?r"
    by (simp add: skill_md_def)
  have "strstr (''---'' @ newline # ?a @ newline # ?b @ newline # ?r) (newline # ''---'') = strstr (?a @ newline # ?b @ newline # ?r) (newline # ''---'')"
    by (simp add: starts_with_prefix)
  also have "\<dots> = Some (newline # ?r)"
    using strstr_two_lines [OF newline_not_in_lines [OF assms], of "''---''"] by (simp add: starts_with_prefix)
  finally show ?thesis unfolding extract_body_from_skill_md_def md by simp
qed

lemma not_prefix_across:
  assumes "x \<in> set p" "x \<notin> set a" "q \<notin> set p"
  shows "\<not> prefix p (a @ q # r)"
proof
  assume "prefix p (a @ q # r)"
  then consider "prefix p a" | us where "p = a @ us" "prefix us (q # r)" by (auto simp: prefix_append)
  then show False
  proof cases
    case 1
    then show False using assms(1,2) set_mono_prefix by blast
  next
    case 2
    then show False using assms by (cases us) auto
  qed
qed

lemma description_of_saved:
  assumes "is_valid_skill_name name" "newline \<notin> set description" "quote_char \<notin> set description" "we_malloc env"
  shows "extract_description_from_skill_md env (skill_md name description content) = description"
proof -
  let ?key = "''description:''"
  let ?rest = "newline # ''---'' @ newline # newline # content @ [newline]"
  have tw: "takeWhile (\<lambda>c. c \<noteq> newline \<and> c \<noteq> quote_char) (description @ quote_char # ?rest) = description"
    using assms(2,3) by (induction description) auto
  have "strstr (name @ quote_char # newline # ?key @ z) ?key = Some (?key @ z)" for z
    using valid_name_chars(5) [OF assms(1)]
  proof (induction name)
    case Nil
    then show ?case by (simp add: starts_with_prefix)
  next
    case (Cons c name)
    have "\<not> starts_with ?key ((c # name) @ quote_char # newline # ?key @ z)"
      unfolding starts_with_prefix using not_prefix_across [of "CHR '':''" ?key "c # name" quote_char] Cons.prems by auto
    with Cons show ?case by simp
  qed
  then have "strstr (skill_md name description content) ?key = Some (?key @ CHR '' '' # quote_char # description @ quote_char # ?rest)"
    by (simp add: skill_md_def starts_with_prefix)
  then show ?thesis
    using tw assms(4) by (simp add: extract_description_from_skill_md_def skill_header_text_def header_blank_def)
qed

text \<open>
  Opening a skill in the editor and saving it again, without a change: the description stays as it is when it is one
  line without quotes, and the text gets one more empty line every time.
\<close>
theorem saving_again_adds_line:
  assumes "is_valid_skill_name name" "newline \<notin> set description" "quote_char \<notin> set description" "we_malloc env"
    and "content \<noteq> []" "hd content \<noteq> newline" "hd content \<noteq> CHR 0x0D"
  shows "(edit_again name description ^^ n) content = content @ replicate n newline \<and>
         extract_description_from_skill_md env (skill_md name description ((edit_again name description ^^ n) content)) = description"
proof -
  have "(edit_again name description ^^ n) content = content @ replicate n newline"
  proof (induction n)
    case 0
    then show ?case by simp
  next
    case (Suc n)
    have "(edit_again name description ^^ Suc n) content = edit_again name description (content @ replicate n newline)" using Suc by simp
    also have "\<dots> = content @ replicate (Suc n) newline"
      using assms(5-7) unfolding edit_again_def body_of_saved [OF assms(1,2)]
      by (cases content) (auto simp: replicate_append_same)
    finally show ?case .
  qed
  then show ?thesis using description_of_saved [OF assms(1-4)] by simp
qed

theorem saving_again_adds_line_witness:
  "(edit_again ''pdf'' ''Read'' ^^ 2) ''Text'' = ''Text'' @ replicate 2 newline \<and>
   extract_description_from_skill_md demo_web_env (skill_md ''pdf'' ''Read'' ((edit_again ''pdf'' ''Read'' ^^ 2) ''Text'')) = ''Read''"
  by (rule saving_again_adds_line) (simp_all add: is_valid_skill_name_def ctype_defs demo_web_env_def)

section \<open>Where an upload goes\<close>

lemma valid_so_good_name: "is_valid_so_filename f \<Longrightarrow> good_name f"
  by (auto simp: is_valid_so_filename_def good_name_def ends_with_def)

lemma render_snoc: "p \<noteq> [] \<Longrightarrow> render (p @ [c]) = render p @ slash # c"
  by (cases p) (simp_all add: render_def)

lemma stat_named:
  assumes "wf_fs fs" "fs par = Some Dir" "good_name f" "fs (par @ [f]) = Some Dir" "length (render par @ [slash] @ f) < PATH_MAX"
  shows "web_stat env fs (render par @ [slash] @ f) = Some Dir"
proof -
  have "resolved fs par" using assms(2) by (simp add: resolved_def)
  from resolve_name [OF assms(1) this assms(3,5), of False "h_cwd (we_host env)"]
  have "resolve False (h_cwd (we_host env)) fs (render par @ [slash] @ f) = Some (par @ [f])"
    using assms(2-4) by (simp add: good_name_def)
  then show ?thesis by (simp only: web_stat_def Option.bind.bind_lunit assms(4))
qed

lemma upload_dir_existing:
  assumes "wf_fs fs" "base \<noteq> []" "wu_config_path data = render base @ ''/config.json''" "length (render base) < 1000"
    and "kind_dir kind = Some sub" "fs (base @ [''plugins'', sub]) = Some Dir"
  shows "get_plugin_upload_dir env data kind fs = (Some (render (base @ [''plugins'', sub])), fs)"
proof -
  have sub: "sub \<in> {''channels'', ''tools'', ''commands''}" using assms(5) by (auto simp: kind_dir_def split: if_splits)
  have dirs: "fs (base @ [''plugins'']) = Some Dir" "fs base = Some Dir"
    using wf_fs_parent [OF assms(1), of "base @ [''plugins'']" "[sub]" Dir] wf_fs_parent [OF assms(1), of base "[''plugins'', sub]" Dir] assms(6)
    by simp_all
  have names: "good_name ''plugins''" "good_name sub" using sub by (auto simp: good_name_def)
  have len: "length sub < 10" using sub by auto
  have root: "render (base @ [''plugins'']) = render base @ ''/plugins''" using render_snoc [OF assms(2), of "''plugins''"] by simp
  have dir: "render (base @ [''plugins'', sub]) = (render base @ ''/plugins'') @ ''/'' @ sub"
    using render_snoc [of "base @ [''plugins'']" sub] by (simp add: root)
  have primagen: "get_primagen_dir env data fs 1024 = Some (render base)"
    using assms(3,4) by (simp add: get_primagen_dir_def ends_with_def cut_suffix_def)
  have stat1: "web_stat env fs (render base @ ''/plugins'') = Some Dir"
    using stat_named [OF assms(1) dirs(2) names(1) dirs(1), of env] assms(4) by (simp add: PATH_MAX_def)
  have "fs ((base @ [''plugins'']) @ [sub]) = Some Dir" using assms(6) by simp
  then have stat2: "web_stat env fs ((render base @ ''/plugins'') @ ''/'' @ sub) = Some Dir"
    using stat_named [OF assms(1) dirs(1) names(2), of env] assms(4) len unfolding root by (simp add: PATH_MAX_def)
  have ensure: "ensure_dir_exists env (render base @ ''/plugins'') fs = (True, fs)"
    "ensure_dir_exists env ((render base @ ''/plugins'') @ ''/'' @ sub) fs = (True, fs)"
    unfolding ensure_dir_exists_def stat1 stat2 by simp_all
  have fit: "fits 1200 (render base @ ''/plugins'') = Some (render base @ ''/plugins'')"
    "fits 1400 ((render base @ ''/plugins'') @ ''/'' @ sub) = Some ((render base @ ''/plugins'') @ ''/'' @ sub)"
    using assms(4) len by (simp_all add: fits_def)
  show ?thesis
    unfolding get_plugin_upload_dir_def primagen Option.bind.bind_lunit fit(1) option.case assms(5) ensure prod.case bool.case fit(2) dir
    by simp
qed


definition upload_disk :: fsys where
  "upload_disk = [[] \<mapsto> Dir, [''w''] \<mapsto> Dir, [''w'', ''plugins''] \<mapsto> Dir, [''w'', ''plugins'', ''tools''] \<mapsto> Dir]"

definition upload_env :: web_env where
  "upload_env = demo_web_env
     \<lparr>we_parse := (\<lambda>_. Some (JObject [(''kind'', JString ''tool''), (''filename'', JString ''my_tool.so''), (''data_base64'', JString ''QQ'')]))\<rparr>"

lemma upload_writes: "fst (handle_control_plugin_upload upload_env demo_poll skill_web upload_disk) = None"
proof -
  have dir: "get_plugin_upload_dir upload_env skill_web ''tool'' upload_disk = (Some ''/w/plugins/tools'', upload_disk)"
    using upload_dir_existing [of upload_disk "[''w'']" skill_web "''tool''" "''tools''" upload_env]
    by (simp add: wf_fs_def upload_disk_def skill_web_def render_def kind_dir_def good_name_def Cons_eq_append_conv append_eq_Cons_conv)
  have "resolve True [] upload_disk ''/w/plugins/tools/my_tool.so'' = Some [''w'', ''plugins'', ''tools'', ''my_tool.so'']"
    by (simp add: resolve_def PATH_MAX_def start_dir_def absolute_def starts_with_def components_def strtok.simps) (simp add: upload_disk_def)
  then have "store_upload upload_env ''/w/plugins/tools'' ''my_tool.so'' ''QQ'' upload_disk =
      (None, upload_disk([''w'', ''plugins'', ''tools'', ''my_tool.so''] \<mapsto> File ''QQ''))"
    by (simp add: store_upload_def fits_def upload_env_def demo_web_env_def web_write_def open_write_def) (simp add: upload_disk_def)
  then show ?thesis
    by (simp add: handle_control_plugin_upload_def upload_env_def get_object_item_def json_string_def strcaseeq_def ctype_defs
        is_valid_so_filename_def kind_dir_def starts_with_def ends_with_def)
       (simp add: dir [unfolded upload_env_def] upload_env_def)
qed


end
