(* ===== verification/WebUiAdmin.thy ===== *)
theory WebUiAdmin
  imports WebUiFiles
begin

text \<open>
  \<open>plugins/channels/webui_channel\<close>, the administration: settings, the lists of channels, tools and commands, switching plugins on and
  off, the routes, and the life of the channel; and the thread of \<open>src/main.c\<close> that hands outbound messages to the channels. The
  shared object at a path is a parameter, as are the description and the command name it gives. The configuration of the plugin manager is
  that of the channel. \<open>pm_entries\<close> keeps what was registered; the array of the channels is \<open>wu_channels\<close>.
\<close>

section \<open>Settings\<close>

definition text_or :: "string option \<Rightarrow> string \<Rightarrow> string" where
  "text_or t d = (case t of Some s \<Rightarrow> s | None \<Rightarrow> d)"

definition settings_json :: "WebUi \<Rightarrow> json" where
  "settings_json data =
     (let cfg = wu_cfg data; pc = config_get_active_provider cfg; text = (\<lambda>f. text_or (Option.bind pc f));
          number = (\<lambda>f d. case pc of Some p \<Rightarrow> f p | None \<Rightarrow> d)
      in JObject
           [(''agent'', JObject
               [(''model'', JString (text pc_model [])), (''apiBase'', JString (text pc_api_base [])),
                (''temperature'', JNumber (number pc_temperature (1 / 10))), (''max_tokens'', JNumber (number (of_int \<circ> pc_max_tokens) 4096)),
                (''max_tool_iterations'', JNumber (of_int (ag_max_tool_iterations (cf_agent cfg)))),
                (''memory_window'', JNumber (of_int (ag_memory_window (cf_agent cfg)))),
                (''reasoning_effort'', JString (text pc_reasoning_effort ''medium''))]),
            (''log'', JObject [(''level'', JString (lo_level (cf_log cfg))), (''consoleOutput'', JBool (lo_console_output (cf_log cfg)))]),
            (''webui'', JObject [(''port'', JNumber (of_int (wu_port data))), (''enabled'', JBool True)])])"

definition handle_get_config :: "web_env \<Rightarrow> WebUi \<Rightarrow> HttpReply" where
  "handle_get_config env data = print_reply env (settings_json data)"

definition update_string :: "json option \<Rightarrow> string option \<Rightarrow> string option" where
  "update_string item target = (case json_string item of Some v \<Rightarrow> Some v | None \<Rightarrow> target)"

definition update_provider :: "json \<Rightarrow> ProviderConfig \<Rightarrow> ProviderConfig" where
  "update_provider req pc =
     (let item = get_object_item (Some req)
      in pc\<lparr>pc_model := update_string (item ''model'') (pc_model pc), pc_api_base := update_string (item ''apiBase'') (pc_api_base pc),
            pc_temperature := json_double (item ''temperature'') (pc_temperature pc),
            pc_max_tokens := json_int (item ''max_tokens'') (pc_max_tokens pc),
            pc_reasoning_effort := update_string (item ''reasoning_effort'') (pc_reasoning_effort pc)\<rparr>)"

definition update_agent :: "json \<Rightarrow> AgentConfig \<Rightarrow> AgentConfig" where
  "update_agent req a =
     a\<lparr>ag_max_tool_iterations := json_int (get_object_item (Some req) ''max_tool_iterations'') (ag_max_tool_iterations a),
       ag_memory_window := json_int (get_object_item (Some req) ''memory_window'') (ag_memory_window a)\<rparr>"

definition update_log :: "json \<Rightarrow> LogConfig \<Rightarrow> LogConfig" where
  "update_log req l =
     l\<lparr>lo_level := json_text (get_object_item (Some req) ''log_level'') (lo_level l),
       lo_console_output := json_flag (get_object_item (Some req) ''console_output'') (lo_console_output l)\<rparr>"

text \<open>The provider that is changed: the active one, or the one of the name \<open>default\<close>, which is added when it is missing.\<close>

definition update_settings :: "json \<Rightarrow> Config \<Rightarrow> Config" where
  "update_settings req cfg =
     (let (name, cfg) = (case config_get_active_provider cfg of
                           Some pc \<Rightarrow> (pc_name pc, cfg) | None \<Rightarrow> (''default'', config_add_provider ''default'' cfg));
          cfg = set_provider name (update_provider req) cfg
      in cfg\<lparr>cf_agent := update_agent req (cf_agent cfg), cf_log := update_log req (cf_log cfg)\<rparr>)"

definition write_int_to_plugin_cfg :: "string \<Rightarrow> int \<Rightarrow> Config \<Rightarrow> Config" where
  "write_int_to_plugin_cfg key v =
     change_plugin ''webui_channel''
       (\<lambda>p. p\<lparr>pcf_config := map_option (\<lambda>j. case delete_item key j of JObject kvs \<Rightarrow> JObject (kvs @ [(key, JNumber (of_int v))]) | j \<Rightarrow> j)
                (pcf_config p)\<rparr>)"

definition valid_port :: "int \<Rightarrow> bool" where
  "valid_port n \<longleftrightarrow> 0 < n \<and> n < 65536"

definition read_port :: "Config \<Rightarrow> int" where
  "read_port cfg =
     (let n = json_int (get_object_item (Option.bind (config_get_plugin_config ''webui_channel'' (cf_plugins cfg)) pcf_config) ''port'') 16714
      in if valid_port n then n else 16714)"

text \<open>The new content of the file of the configuration, when there is such a file and it can be written.\<close>

definition save_config :: "web_env \<Rightarrow> WebUi \<Rightarrow> fsys \<Rightarrow> bool \<times> fsys" where
  "save_config env data fs =
     (if wu_config_path data = [] then (False, fs)
      else (case config_save_to_file (we_print env) (web_write env (wu_config_path data) [] fs \<noteq> None) (wu_cfg data) of
              (True, Some s) \<Rightarrow> (case web_write env (wu_config_path data) s fs of Some fs \<Rightarrow> (True, fs) | None \<Rightarrow> (False, fs))
            | _ \<Rightarrow> (False, fs)))"

definition saved_warning :: "bool \<Rightarrow> (string \<times> json) list" where
  "saved_warning warn = (if warn then [(''warning'', JString ''save_failed_restart_required'')] else [])"

definition handle_update_config :: "web_env \<Rightarrow> HttpRequest \<Rightarrow> WebUi \<Rightarrow> fsys \<Rightarrow> HttpReply \<times> WebUi \<times> fsys" where
  "handle_update_config env hm data fs =
     (case we_parse env (hr_body hm) of
        None \<Rightarrow> (send_json 400 (json_error ''invalid_json''), data, fs)
      | Some req \<Rightarrow>
          (let data = data\<lparr>wu_cfg := update_settings req (wu_cfg data)\<rparr>;
               data = (case json_number (get_object_item (Some req) ''port'') of
                         Some n \<Rightarrow> if valid_port (number_valueint n)
                                   then data\<lparr>wu_port := number_valueint n,
                                             wu_cfg := write_int_to_plugin_cfg ''port'' (number_valueint n) (wu_cfg data)\<rparr>
                                   else data
                       | None \<Rightarrow> data);
               should_save = json_flag (get_object_item (Some req) ''save'') True;
               (saved, fs) = (if should_save then save_config env data fs else (False, fs))
           in (print_reply env (JObject ([(''ok'', JBool True), (''port'', JNumber (of_int (wu_port data))), (''saved'', JBool saved)] @
                                         saved_warning (\<not> saved \<and> should_save))),
               data, fs)))"

section \<open>Lists of the program\<close>

definition listed_item :: "string \<Rightarrow> string \<Rightarrow> json" where
  "listed_item name description =
     JObject [(''name'', JString name), (''source'', JString ''builtin''), (''description'', JString description), (''enabled'', JBool True)]"

text \<open>The description that the shared object of the plugin gives; opening the object runs its code.\<close>

definition plugin_item_description ::
  "(string \<Rightarrow> string option) \<Rightarrow> web_env \<Rightarrow> WebUi \<Rightarrow> fsys \<Rightarrow> string \<Rightarrow> string \<Rightarrow> string" where
  "plugin_item_description describe env data fs kind plugin_id =
     (case Option.bind (get_plugin_so_path env data fs kind plugin_id) describe of
        Some d \<Rightarrow> if d = [] then ''-'' else d | None \<Rightarrow> ''-'')"

definition plugin_items ::
  "(string \<Rightarrow> string option) \<Rightarrow> (string \<Rightarrow> string option) \<Rightarrow> web_env \<Rightarrow> WebUi \<Rightarrow> fsys \<Rightarrow> string \<Rightarrow> json list" where
  "plugin_items describe command_of env data fs kind =
     map (\<lambda>pc. JObject
            [(''name'', JString (if kind \<noteq> ''command'' then pcf_id pc
                                 else (case Option.bind (get_plugin_so_path env data fs kind (pcf_id pc)) command_of of
                                         Some n \<Rightarrow> if n = [] then pcf_id pc else n | None \<Rightarrow> pcf_id pc))),
             (''plugin_id'', JString (pcf_id pc)), (''source'', JString ''plugin''),
             (''description'', JString (plugin_item_description describe env data fs kind (pcf_id pc))), (''enabled'', JBool (pcf_enabled pc))])
       (filter (\<lambda>pc. strstr (pcf_id pc) (''_'' @ kind) \<noteq> None) (cf_plugins (wu_cfg data)))"

definition listed_tools :: "(string \<times> string) list" where
  "listed_tools =
     [(''read_file'', ''Read file contents from disk''), (''write_file'', ''Write content to a file''),
      (''edit_file'', ''Apply targeted edits to a file''), (''list_dir'', ''List directory entries''),
      (''exec'', ''Execute a shell command''), (''send_message'', ''Send message through channels''),
      (''skill'', ''Run and manage skill workflows''), (''cron'', ''Schedule delayed or periodic tasks'')]"

definition listed_commands :: "(string \<times> string) list" where
  "listed_commands =
     [(''stop'', ''Stop active tasks''), (''restart'', ''Restart the bot''), (''new'', ''Start a new conversation''),
      (''help'', ''Show available commands''), (''tools'', ''Show available tools (builtin/plugin/mcp)''),
      (''reload-plugins'', ''Reload all plugins from the plugins directory'')]"

definition listed_channels :: "(string \<times> string) list" where
  "listed_channels = [(''console'', ''Local console input and output channel'')]"

definition handle_control_list ::
  "(string \<Rightarrow> string option) \<Rightarrow> (string \<Rightarrow> string option) \<Rightarrow> web_env \<Rightarrow> WebUi \<Rightarrow> fsys \<Rightarrow> string \<Rightarrow> (string \<times> string) list \<Rightarrow> HttpReply" where
  "handle_control_list describe command_of env data fs kind builtins =
     send_items_response env (map (\<lambda>(n, d). listed_item n d) builtins @ plugin_items describe command_of env data fs kind)"

definition handle_control_usage :: "web_env \<Rightarrow> WebUi \<Rightarrow> HttpReply" where
  "handle_control_usage env data =
     send_items_response env
       [JObject [(''name'', JString ''plugin_count''), (''value'', JNumber (of_nat (length (cf_plugins (wu_cfg data)))))],
        JObject [(''name'', JString ''model''),
                 (''value'', JString (text_or (Option.bind (config_get_active_provider (wu_cfg data)) pc_model) []))],
        JObject [(''name'', JString ''webui_port''), (''value'', JNumber (of_int (wu_port data)))]]"

section \<open>Switching plugins on and off\<close>

text \<open>
  The channels that a plugin has registered in a step of the manager. Whether a channel points to its plugin is the choice of the
  code that creates it: \<open>sets_ref\<close>.
\<close>

definition new_channels :: "(string \<Rightarrow> bool) \<Rightarrow> PluginManager \<Rightarrow> PluginManager \<Rightarrow> Channel option list" where
  "new_channels sets_ref m m' =
     map (\<lambda>e. Some \<lparr>ch_name = en_name e, ch_plugin_ref = (if sets_ref (en_name e) then Some (en_plugin e) else None),
                     ch_code = Some (en_code e), ch_started = False\<rparr>)
       (filter (\<lambda>e. en_kind e = KChannel) (drop (length (pm_entries m)) (pm_entries m')))"

definition refers_to :: "LoadedPlugin \<Rightarrow> Channel option \<Rightarrow> bool" where
  "refers_to p slot = (case slot of Some ch \<Rightarrow> ch_plugin_ref ch = Some (pl_addr p) | None \<Rightarrow> False)"

definition start_channel :: "Channel \<Rightarrow> Channel" where
  "start_channel ch = ch\<lparr>ch_started := True\<rparr>"

definition load_for :: "(string \<Rightarrow> SharedObject option) \<Rightarrow> (string \<Rightarrow> bool) \<Rightarrow> string \<Rightarrow> PluginManager \<Rightarrow> WebUi \<Rightarrow> int \<times> PluginManager \<times> WebUi" where
  "load_for lib sets_ref path m data =
     (let m = m\<lparr>pm_config := cf_plugins (wu_cfg data)\<rparr>
      in case plugin_manager_load_plugin (lib path) path m of
           (ret, m') \<Rightarrow>
             (ret, m',
              data\<lparr>wu_plugin_mgr := Some m', wu_cfg := (wu_cfg data)\<lparr>cf_plugins := pm_config m'\<rparr>,
                   wu_channels := wu_channels data @ new_channels sets_ref m m'\<rparr>))"

definition enable_plugin ::
  "(string \<Rightarrow> SharedObject option) \<Rightarrow> (string \<Rightarrow> bool) \<Rightarrow> web_env \<Rightarrow> fsys \<Rightarrow> string \<Rightarrow> PluginManager \<Rightarrow> WebUi \<Rightarrow> WebUi" where
  "enable_plugin lib sets_ref env fs plugin_id m data =
     (if plugin_manager_find_plugin plugin_id m \<noteq> None then data
      else (case Option.bind (wu_external_dir data) (\<lambda>d. find_so_path FILE_PATH_MAX env fs d plugin_id) of
              None \<Rightarrow> data
            | Some path \<Rightarrow>
                (case load_for lib sets_ref path m data of
                   (ret, m, data) \<Rightarrow>
                     (case plugin_manager_find_plugin plugin_id m of
                        Some loaded \<Rightarrow>
                          if ret = 0 \<and> pl_type loaded = PLUGIN_CHANNEL
                          then data\<lparr>wu_channels := update_first (refers_to loaded) (map_option start_channel) (wu_channels data)\<rparr>
                          else data
                      | None \<Rightarrow> data))))"

text \<open>The channel of the plugin is stopped and destroyed by its own code, and a null pointer takes its place.\<close>

definition stop_channel_of :: "LoadedPlugin \<Rightarrow> PluginManager \<Rightarrow> WebUi \<Rightarrow> PluginManager \<times> WebUi" where
  "stop_channel_of p m data =
     (case find (refers_to p) (wu_channels data) of
        Some (Some ch) \<Rightarrow>
          (call_code (ch_code ch) (call_code (ch_code ch) m),
           data\<lparr>wu_channels := update_first (refers_to p) (\<lambda>_. None) (wu_channels data)\<rparr>)
      | _ \<Rightarrow> (m, data))"

definition disable_plugin :: "string \<Rightarrow> PluginManager \<Rightarrow> WebUi \<Rightarrow> WebUi" where
  "disable_plugin plugin_id m data =
     (case plugin_manager_get_loaded_plugin plugin_id m of
        None \<Rightarrow> data
      | Some existing \<Rightarrow>
          (let (m, data) = (if pl_type existing = PLUGIN_CHANNEL then stop_channel_of existing m data else (m, data))
           in data\<lparr>wu_plugin_mgr := Some (plugin_manager_unload_plugin existing m)\<rparr>))"

definition switch_plugin ::
  "(string \<Rightarrow> SharedObject option) \<Rightarrow> (string \<Rightarrow> bool) \<Rightarrow> web_env \<Rightarrow> fsys \<Rightarrow> string \<Rightarrow> bool \<Rightarrow> WebUi \<Rightarrow> WebUi" where
  "switch_plugin lib sets_ref env fs plugin_id enabled data =
     (case wu_plugin_mgr data of
        None \<Rightarrow> data
      | Some m \<Rightarrow> if enabled then enable_plugin lib sets_ref env fs plugin_id m data else disable_plugin plugin_id m data)"

definition set_enabled :: "string \<Rightarrow> bool \<Rightarrow> WebUi \<Rightarrow> WebUi" where
  "set_enabled plugin_id enabled data =
     data\<lparr>wu_cfg := change_plugin plugin_id (\<lambda>p. p\<lparr>pcf_enabled := enabled\<rparr>) (wu_cfg data)\<rparr>"

definition handle_control_plugin_enable ::
  "(string \<Rightarrow> SharedObject option) \<Rightarrow> (string \<Rightarrow> bool) \<Rightarrow> web_env \<Rightarrow> HttpRequest \<Rightarrow> WebUi \<Rightarrow> fsys \<Rightarrow> HttpReply \<times> WebUi \<times> fsys" where
  "handle_control_plugin_enable lib sets_ref env hm data fs =
     (case we_parse env (hr_body hm) of
        None \<Rightarrow> (send_json 400 (json_error ''invalid_json''), data, fs)
      | Some req \<Rightarrow>
          (case (json_string (get_object_item (Some req) ''kind''), json_string (get_object_item (Some req) ''plugin_id''),
                 json_bool (get_object_item (Some req) ''enabled'')) of
             (Some kind, Some plugin_id, Some enabled) \<Rightarrow>
               (if kind_dir kind = None then (send_json 400 (json_error ''invalid_kind''), data, fs)
                else if strstr plugin_id (''_'' @ kind) = None then (send_json 400 (json_error ''invalid_plugin_id''), data, fs)
                else if config_get_plugin_config plugin_id (cf_plugins (wu_cfg data)) = None
                then (send_json 404 (json_error ''plugin_not_found''), data, fs)
                else (let data = set_enabled plugin_id enabled data;
                          (saved, fs) = save_config env data fs;
                          data = switch_plugin lib sets_ref env fs plugin_id enabled data
                      in (print_reply env (JObject ([(''ok'', JBool True), (''enabled'', JBool enabled), (''saved'', JBool saved)] @ saved_warning (\<not> saved))),
                          data, fs)))
           | _ \<Rightarrow> (send_json 400 (json_error ''invalid_params''), data, fs)))"

section \<open>The thread of outbound messages\<close>

text \<open>
  One message of the thread in \<open>src/main.c\<close>: the channels that have got it, \<open>None\<close> when the thread reads through a null pointer or jumps
  into code that has been closed. The test for a channel without a send function is left out, as each channel of the program has one.
\<close>

definition gets_message :: "string \<Rightarrow> Channel \<Rightarrow> bool" where
  "gets_message channel ch \<longleftrightarrow> channel = ''*'' \<or> channel = ''all'' \<or> ch_name ch = channel \<or> channel = ''cli'' \<and> ch_name ch = ''console''"

fun dispatch_outbound :: "PluginManager \<Rightarrow> Channel option list \<Rightarrow> string \<Rightarrow> string list option" where
  "dispatch_outbound m [] channel = Some []"
| "dispatch_outbound m (None # slots) channel = None"
| "dispatch_outbound m (Some ch # slots) channel =
     (if \<not> gets_message channel ch then dispatch_outbound m slots channel
      else if pm_fault (call_code (ch_code ch) (m\<lparr>pm_fault := False\<rparr>)) then None
      else map_option ((#) (ch_name ch)) (dispatch_outbound m slots channel))"

section \<open>Routes\<close>

text \<open>
  The answer of a route, \<open>None\<close> when it is made from freed memory or when there is no answer yet. The page itself is the text \<open>html\<close>.
\<close>

record web_libs =
  wl_lib :: "string \<Rightarrow> SharedObject option"
  wl_sets_ref :: "string \<Rightarrow> bool"
  wl_describe :: "string \<Rightarrow> string option"
  wl_command_of :: "string \<Rightarrow> string option"
  wl_mkstemp :: "fsys \<Rightarrow> string option"
  wl_system :: "string \<Rightarrow> fsys \<Rightarrow> int \<times> fsys"
  wl_html :: string

definition only :: "string \<Rightarrow> HttpRequest \<Rightarrow> 'a \<Rightarrow> (HttpReply option \<times> 'a) \<Rightarrow> HttpReply option \<times> 'a" where
  "only meth hm state result = (if hr_method hm = meth then result else (Some (send_json 405 (json_error ''method_not_allowed'')), state))"

definition some_reply :: "HttpReply \<times> 'a \<Rightarrow> HttpReply option \<times> 'a" where
  "some_reply = map_prod Some id"

definition with_files :: "WebUi \<Rightarrow> HttpReply option \<times> fsys \<Rightarrow> HttpReply option \<times> WebUi \<times> fsys" where
  "with_files data = map_prod id (Pair data)"

definition webui_route :: "web_libs \<Rightarrow> web_env \<Rightarrow> nat \<Rightarrow> HttpRequest \<Rightarrow> WebUi \<Rightarrow> fsys \<Rightarrow> HttpReply option \<times> WebUi \<times> fsys" where
  "webui_route L env c hm data fs =
     (let uri = hr_uri hm; st = (data, fs); answer = (\<lambda>reply. (Some reply, st));
          items = handle_control_list (wl_describe L) (wl_command_of L) env data fs
      in if uri = ''/api/health'' then answer (handle_health data)
         else if uri = ''/api/chat/send''
         then only ''POST'' hm st (case handle_chat_send env hm data of (reply, data) \<Rightarrow> (Some reply, data, fs))
         else if uri = ''/api/chat/poll'' then (None, handle_chat_poll env c hm data, fs)
         else if uri = ''/api/config''
         then if hr_method hm = ''GET'' then answer (handle_get_config env data)
              else only ''POST'' hm st (some_reply (handle_update_config env hm data fs))
         else if uri = ''/api/control/channels'' then answer (items ''channel'' listed_channels)
         else if uri = ''/api/control/tools'' then answer (items ''tool'' listed_tools)
         else if uri = ''/api/control/commands'' then answer (items ''command'' listed_commands)
         else if uri = ''/api/control/plugin-enable''
         then only ''POST'' hm st (some_reply (handle_control_plugin_enable (wl_lib L) (wl_sets_ref L) env hm data fs))
         else if uri = ''/api/control/plugins/upload''
         then only ''POST'' hm st (with_files data (handle_control_plugin_upload env hm data fs))
         else if uri = ''/api/control/skills/content''
         then only ''GET'' hm st (with_files data (some_reply (handle_control_skill_content env hm data fs)))
         else if uri = ''/api/control/skills/save''
         then only ''POST'' hm st (with_files data (some_reply (handle_control_skill_save env hm data fs)))
         else if uri = ''/api/control/skills/import''
         then only ''POST'' hm st (with_files data (some_reply (handle_control_skill_import (wl_mkstemp L) (wl_system L) env hm data fs)))
         else if uri = ''/api/control/skills'' then with_files data (some_reply (handle_control_skills env data fs))
         else if uri = ''/api/control/sessions'' then answer (handle_control_sessions env data fs)
         else if uri = ''/api/control/usage'' then answer (handle_control_usage env data)
         else if uri = ''/api/control/cron'' then answer (handle_control_cron env data fs)
         else if uri = ''/api/settings/logs'' then answer (handle_settings_logs env data fs)
         else if uri = ''/api/settings/docs'' then answer (handle_settings_docs env data fs)
         else if uri = ''/'' \<or> uri = ''/chat'' \<or> uri = ''/config''
         then answer \<lparr>rp_status = 200, rp_headers = ''Content-Type: text/html; charset=utf-8'' @ [CHR 0x0D, CHR 0x0A], rp_body = Some (wl_html L)\<rparr>
         else answer (send_json 404 (json_error ''not_found'')))"

section \<open>Life of the channel\<close>

definition webui_init ::
  "MessageBus option \<Rightarrow> Config \<Rightarrow> string option \<Rightarrow> PluginManager option \<Rightarrow> string option \<Rightarrow> Channel option list \<Rightarrow> WebUi" where
  "webui_init bus cfg plugin_path mgr external_dir channels =
     \<lparr>wu_bus = bus, wu_cfg = cfg, wu_plugin_path = plugin_path, wu_plugin_mgr = mgr, wu_external_dir = external_dir, wu_channels = channels,
      wu_running = False, wu_port = read_port cfg,
      wu_config_path = resolve_config_path (if mgr = None then None else external_dir) plugin_path,
      wu_replies = [], wu_waiters = [], wu_polled = {}, wu_out = []\<rparr>"

text \<open>\<open>thread_ok\<close> and \<open>listen_ok\<close> are whether the thread can be made and whether it can listen at the address.\<close>

definition webui_start :: "bool \<Rightarrow> (string \<Rightarrow> bool) \<Rightarrow> WebUi \<Rightarrow> WebUi" where
  "webui_start thread_ok listen_ok data =
     (if wu_running data then data
      else data\<lparr>wu_running := thread_ok \<and> listen_ok (c_trunc 64 (''http://0.0.0.0:'' @ show_int (wu_port data)))\<rparr>)"

definition webui_stop :: "WebUi \<Rightarrow> WebUi" where
  "webui_stop data = (if wu_running data then data\<lparr>wu_running := False\<rparr> else data)"

text \<open>The queued replies are freed, the waiters are not.\<close>

definition webui_destroy :: "WebUi \<Rightarrow> LongPollWaiter list" where
  "webui_destroy data = wu_waiters data"

section \<open>A channel that is switched on\<close>

definition added_by :: "nat \<Rightarrow> PluginManager \<Rightarrow> PluginManager \<Rightarrow> bool" where
  "added_by plugin m m' \<longleftrightarrow> (\<exists>new. pm_entries m' = pm_entries m @ new \<and> (\<forall>e \<in> set new. en_plugin e = plugin))"

lemma added_by_refl: "added_by plugin m m"
  by (simp add: added_by_def)

lemma added_by_trans: "added_by plugin m m' \<Longrightarrow> added_by plugin m' m'' \<Longrightarrow> added_by plugin m m''"
  by (fastforce simp: added_by_def)

lemma register_adds: "added_by plugin m (register_one plugin h r m)"
  by (cases r) (auto simp: register_one_def added_by_def Let_def)

lemma registers_add: "added_by plugin m (fold (register_one plugin h) rs m)"
proof (induction rs arbitrary: m)
  case Nil
  then show ?case by (simp add: added_by_refl)
next
  case (Cons r rs)
  then show ?case using added_by_trans [OF register_adds Cons.IH] by simp
qed

lemma run_init_adds: "added_by plugin m (snd (run_init so plugin h m))"
  by (simp add: run_init_def registers_add added_by_refl split: option.split prod.split)

lemma load_adds:
  assumes "plugin_manager_load_plugin lib path m = (ret, m')"
  shows "added_by (pm_next m + 1) m m' \<and> (m' = m \<or> pm_next m < pm_next m') \<and> (pm_entries m' \<noteq> pm_entries m \<longrightarrow> pm_next m + 1 < pm_next m')"
proof (cases "list_ex (\<lambda>p. pl_path p = path) (pm_plugins m) \<or> lib = None \<or> (\<exists>so. lib = Some so \<and> so_info so = None)")
  case True
  then show ?thesis using assms
    by (auto simp: plugin_manager_load_plugin_def load_plugin_from_file_def dlopen_def dlclose_def added_by_def Let_def split: if_splits)
next
  case False
  then obtain so info where so: "lib = Some so" "so_info so = Some info" by auto
  obtain p m2 where opened: "load_plugin_from_file lib path m = (Some p, m2)" "pl_addr p = pm_next m + 1" "pl_handle p = Some (pm_next m)"
    "pm_entries m2 = pm_entries m" "pm_next m2 = pm_next m + 2"
    using so by (simp add: load_plugin_from_file_def dlopen_def Let_def)
  obtain ret1 m1 where init: "run_init so (pm_next m + 1) (pm_next m) m2 = (ret1, m1)" by (cases "run_init so (pm_next m + 1) (pm_next m) m2")
  have adds: "added_by (pm_next m + 1) m2 m1"
    using run_init_adds [of "pm_next m + 1" m2 so "pm_next m"] unfolding init snd_conv .
  have next': "pm_next m1 = pm_next m + 2" using run_init_fields(4) [OF init] opened(5) by simp
  have new: "\<not> list_ex (\<lambda>p. pl_path p = path) (pm_plugins m)" using False by blast
  have loaded: "load_plugin_from_file (Some so) path m = (Some p, m2)" using opened(1) so(1) by simp
  have init': "run_init so (pl_addr p) (the (pl_handle p)) m2 = (ret1, m1)" using init opened(2,3) by simp
  have "plugin_manager_load_plugin lib path m =
      (if ret1 \<noteq> 0 then (- 1, dlclose (the (pl_handle p)) m1)
       else (0, m1\<lparr>pm_plugins := p # pm_plugins m1, pm_count := pm_count m1 + 1, pm_config := add_default_config info p (pm_config m1)\<rparr>))"
    unfolding plugin_manager_load_plugin_def so(1) loaded prod.case option.case Let_def init' so(2) if_not_P [OF new] by (rule refl)
  then have "pm_entries m' = pm_entries m1 \<and> pm_next m' = pm_next m1"
    using assms by (simp add: dlclose_def split: if_splits)
  then show ?thesis using adds next' opened(4) by (simp add: added_by_def)
qed

text \<open>Channels point to plugins at addresses that have been given out.\<close>

definition refs_ok :: "WebUi \<Rightarrow> bool" where
  "refs_ok data \<longleftrightarrow>
     (\<forall>m ch a. wu_plugin_mgr data = Some m \<and> Some ch \<in> set (wu_channels data) \<and> ch_plugin_ref ch = Some a \<longrightarrow> a < pm_next m)"

lemma load_for_channels:
  assumes "load_for lib sets_ref path m data = (ret, m', data')" "wu_plugin_mgr data = Some m" "refs_ok data"
  shows "\<exists>new. wu_channels data' = wu_channels data @ new \<and> (\<forall>ch. Some ch \<in> set new \<longrightarrow> \<not> ch_started ch) \<and>
           (\<forall>ch a. Some ch \<in> set (wu_channels data') \<and> ch_plugin_ref ch = Some a \<longrightarrow> a < pm_next m')"
proof -
  let ?m = "m\<lparr>pm_config := cf_plugins (wu_cfg data)\<rparr>"
  have load: "plugin_manager_load_plugin (lib path) path ?m = (ret, m')" and ch: "wu_channels data' = wu_channels data @ new_channels sets_ref ?m m'"
    using assms(1) by (auto simp: load_for_def Let_def split: prod.splits)
  from load_adds [OF load] obtain es where es: "pm_entries m' = pm_entries m @ es" "\<forall>e \<in> set es. en_plugin e = pm_next m + 1"
    "m' = ?m \<or> pm_next m < pm_next m'" "es \<noteq> [] \<longrightarrow> pm_next m + 1 < pm_next m'"
    by (auto simp: added_by_def)
  have new: "a < pm_next m'" if "Some c \<in> set (new_channels sets_ref ?m m')" "ch_plugin_ref c = Some a" for c a
    using that es by (auto simp: new_channels_def split: if_splits)
  have old: "a < pm_next m'" if "Some c \<in> set (wu_channels data)" "ch_plugin_ref c = Some a" for c a
    using that assms(2,3) es(3) by (auto simp: refs_ok_def dest: less_trans)
  have "\<forall>c. Some c \<in> set (new_channels sets_ref ?m m') \<longrightarrow> \<not> ch_started c" by (auto simp: new_channels_def)
  then show ?thesis using ch new old by (intro exI [of _ "new_channels sets_ref ?m m'"]) auto
qed

lemma copy_not_referred:
  assumes "plugin_manager_find_plugin plugin_id m = Some p" "\<And>ch a. Some ch \<in> set slots \<Longrightarrow> ch_plugin_ref ch = Some a \<Longrightarrow> a < pm_next m"
  shows "update_first (refers_to p) f slots = slots"
proof (rule update_first_no_match)
  fix slot assume "slot \<in> set slots"
  moreover have "pl_addr p = pm_next m" using assms(1) by (auto simp: plugin_manager_find_plugin_def)
  ultimately show "\<not> refers_to p slot" using assms(2) by (auto simp: refers_to_def split: option.splits)
qed

lemma enable_channels:
  assumes "wu_plugin_mgr data = Some m" "refs_ok data"
  shows "\<exists>new. wu_channels (enable_plugin lib sets_ref env fs plugin_id m data) = wu_channels data @ new \<and>
           (\<forall>ch. Some ch \<in> set new \<longrightarrow> \<not> ch_started ch)"
proof (cases "plugin_manager_find_plugin plugin_id m \<noteq> None \<or>
              Option.bind (wu_external_dir data) (\<lambda>d. find_so_path FILE_PATH_MAX env fs d plugin_id) = None")
  case True
  then show ?thesis by (auto simp: enable_plugin_def)
next
  case False
  then obtain path where path: "Option.bind (wu_external_dir data) (\<lambda>d. find_so_path FILE_PATH_MAX env fs d plugin_id) = Some path"
    "plugin_manager_find_plugin plugin_id m = None" by auto
  obtain ret m' data' where load: "load_for lib sets_ref path m data = (ret, m', data')" by (cases "load_for lib sets_ref path m data")
  from load_for_channels [OF load assms] obtain new where new: "wu_channels data' = wu_channels data @ new"
    "\<forall>ch. Some ch \<in> set new \<longrightarrow> \<not> ch_started ch"
    "\<And>ch a. Some ch \<in> set (wu_channels data') \<Longrightarrow> ch_plugin_ref ch = Some a \<Longrightarrow> a < pm_next m'" by blast
  have "wu_channels (enable_plugin lib sets_ref env fs plugin_id m data) = wu_channels data'"
    using path load copy_not_referred [of plugin_id m'] new(3)
    by (auto simp: enable_plugin_def split: option.split)
  then show ?thesis using new by auto
qed

lemma set_enabled_fields [simp]:
  "wu_plugin_mgr (set_enabled i b data) = wu_plugin_mgr data" "wu_channels (set_enabled i b data) = wu_channels data"
  "refs_ok (set_enabled i b data) = refs_ok data"
  by (simp_all add: set_enabled_def refs_ok_def)

lemma switched:
  assumes "we_parse env (hr_body hm) = Some req" "json_string (get_object_item (Some req) ''kind'') = Some ''channel''"
    and "json_string (get_object_item (Some req) ''plugin_id'') = Some plugin_id" "json_bool (get_object_item (Some req) ''enabled'') = Some enabled"
    and "strstr plugin_id ''_channel'' \<noteq> None" "config_get_plugin_config plugin_id (cf_plugins (wu_cfg data)) \<noteq> None"
    and "handle_control_plugin_enable lib sets_ref env hm data fs = (reply, data', fs')"
  shows "\<exists>fs1. data' = switch_plugin lib sets_ref env fs1 plugin_id enabled (set_enabled plugin_id enabled data)"
  using assms
  by (auto simp: handle_control_plugin_enable_def kind_dir_def Let_def split: prod.splits if_splits)

definition started :: "Channel option list \<Rightarrow> Channel list" where
  "started slots = filter ch_started (map the (filter (\<lambda>slot. slot \<noteq> None) slots))"

lemma started_none: "started slots = [] \<longleftrightarrow> (\<forall>ch. Some ch \<in> set slots \<longrightarrow> \<not> ch_started ch)"
  by (auto simp: started_def filter_empty_conv)

text \<open>
  A channel that is switched on from the browser is never started. Loading its plugin may add channels at the end of the array,
  but no channel, old or new, is started by the request: the handler looks for a channel that points to the copy of the plugin
  that the manager has just made for it.
\<close>
theorem enabled_channel_not_started:
  assumes "wu_plugin_mgr data = Some m" "refs_ok data"
    and "we_parse env (hr_body hm) = Some req" "json_string (get_object_item (Some req) ''kind'') = Some ''channel''"
    and "json_string (get_object_item (Some req) ''plugin_id'') = Some plugin_id" "json_bool (get_object_item (Some req) ''enabled'') = Some True"
    and "strstr plugin_id ''_channel'' \<noteq> None" "config_get_plugin_config plugin_id (cf_plugins (wu_cfg data)) \<noteq> None"
    and "handle_control_plugin_enable lib sets_ref env hm data fs = (reply, data', fs')"
  shows "\<exists>new. wu_channels data' = wu_channels data @ new \<and> started new = []"
proof -
  obtain fs1 where "data' = switch_plugin lib sets_ref env fs1 plugin_id True (set_enabled plugin_id True data)"
    using switched [OF assms(3-9)] by blast
  then show ?thesis
    using enable_channels [of "set_enabled plugin_id True data" m lib sets_ref env fs1 plugin_id] assms(1,2)
    by (simp add: switch_plugin_def started_none)
qed

section \<open>A channel that is switched off\<close>

lemma dispatch_crashes:
  "None \<in> set slots \<or> (\<exists>ch h. Some ch \<in> set slots \<and> gets_message channel ch \<and> ch_code ch = Some h \<and> h \<notin> pm_open m) \<Longrightarrow>
   dispatch_outbound m slots channel = None"
  by (induction m slots channel rule: dispatch_outbound.induct) (auto simp: call_code_def)

lemma unload_closes:
  "pl_handle p = Some h \<Longrightarrow> h \<notin> pm_open (plugin_manager_unload_plugin p m)"
  by (simp add: plugin_manager_unload_plugin_def Let_def)

lemma update_first_puts: "find P xs = Some x \<Longrightarrow> f x \<in> set (update_first P f xs)"
  by (induction xs) (auto split: if_splits)

lemma disable_breaks:
  assumes "plugin_manager_get_loaded_plugin plugin_id m = Some p" "pl_type p = PLUGIN_CHANNEL" "pl_handle p = Some h"
    and "Some ch \<in> set (wu_channels data)" "ch_code ch = Some h"
  defines "data' \<equiv> disable_plugin plugin_id m data"
  shows "dispatch_outbound (the (wu_plugin_mgr data')) (wu_channels data') (ch_name ch) = None"
proof (rule dispatch_crashes, cases "find (refers_to p) (wu_channels data)")
  case None
  then have "wu_channels data' = wu_channels data" "wu_plugin_mgr data' = Some (plugin_manager_unload_plugin p m)"
    using assms(1,2) by (simp_all add: data'_def disable_plugin_def stop_channel_of_def)
  then show "None \<in> set (wu_channels data') \<or> (\<exists>c h'. Some c \<in> set (wu_channels data') \<and> gets_message (ch_name ch) c \<and> ch_code c = Some h' \<and>
      h' \<notin> pm_open (the (wu_plugin_mgr data')))"
    using assms(4,5) unload_closes [OF assms(3)] by (auto simp: gets_message_def)
next
  case (Some slot)
  then have "refers_to p slot" by (auto simp: find_Some_iff)
  then obtain c where "slot = Some c" by (auto simp: refers_to_def split: option.splits)
  then have "wu_channels data' = update_first (refers_to p) (\<lambda>_. None) (wu_channels data)"
    using assms(1,2) Some by (simp add: data'_def disable_plugin_def stop_channel_of_def)
  then show "None \<in> set (wu_channels data') \<or> (\<exists>c h'. Some c \<in> set (wu_channels data') \<and> gets_message (ch_name ch) c \<and> ch_code c = Some h' \<and>
      h' \<notin> pm_open (the (wu_plugin_mgr data')))"
    using update_first_puts [OF Some, of "\<lambda>_. None"] by simp
qed

text \<open>
  Claim C38. A channel that is switched off from the browser breaks the program. When the code of a channel is that of a loaded plugin, then after
  the request that switches the plugin off the thread of outbound messages reads through a null pointer or runs code that has
  been closed as soon as a message for that channel comes: a channel that does not point to its plugin is neither stopped nor taken
  out of the array, and one that does leaves a null pointer there.
\<close>
theorem disabled_channel_breaks_sending:
  assumes "wu_plugin_mgr data = Some m"
    and "we_parse env (hr_body hm) = Some req" "json_string (get_object_item (Some req) ''kind'') = Some ''channel''"
    and "json_string (get_object_item (Some req) ''plugin_id'') = Some plugin_id" "json_bool (get_object_item (Some req) ''enabled'') = Some False"
    and "strstr plugin_id ''_channel'' \<noteq> None" "config_get_plugin_config plugin_id (cf_plugins (wu_cfg data)) \<noteq> None"
    and "plugin_manager_get_loaded_plugin plugin_id m = Some p" "pl_type p = PLUGIN_CHANNEL" "pl_handle p = Some h"
    and "Some ch \<in> set (wu_channels data)" "ch_code ch = Some h"
    and "handle_control_plugin_enable lib sets_ref env hm data fs = (reply, data', fs')"
  shows "dispatch_outbound (the (wu_plugin_mgr data')) (wu_channels data') (ch_name ch) = None"
proof -
  obtain fs1 where "data' = switch_plugin lib sets_ref env fs1 plugin_id False (set_enabled plugin_id False data)"
    using switched [OF assms(2-7,13)] by blast
  then have "data' = disable_plugin plugin_id m (set_enabled plugin_id False data)" using assms(1) by (simp add: switch_plugin_def)
  then show ?thesis
    using disable_breaks [OF assms(8-10), where data = "set_enabled plugin_id False data" and ch = ch] assms(11,12) by simp
qed

definition channel_object :: SharedObject where
  "channel_object =
     \<lparr>so_info = Some \<lparr>pi_id = Some ''x_channel'', pi_name = Some ''X'', pi_type = PLUGIN_CHANNEL, pi_default_config = None\<rparr>,
      so_init = Some ([RegChannel ''x'' True], 0), so_has_cleanup = False\<rparr>"

definition switch_env :: "bool \<Rightarrow> web_env" where
  "switch_env enabled = demo_web_env
     \<lparr>we_parse := (\<lambda>_. Some (JObject [(''kind'', JString ''channel''), (''plugin_id'', JString ''x_channel''), (''enabled'', JBool enabled)])),
      we_fs := [[] \<mapsto> Dir]\<rparr>"

definition switch_web :: "PluginManager \<Rightarrow> Channel option list \<Rightarrow> WebUi" where
  "switch_web m channels =
     webui_init None (config_create\<lparr>cf_plugins := [\<lparr>pcf_id = ''x_channel'', pcf_enabled = False, pcf_config = None\<rparr>]\<rparr>) None (Some m) None channels"

lemma switch_request:
  "we_parse (switch_env enabled) (hr_body demo_poll) =
     Some (JObject [(''kind'', JString ''channel''), (''plugin_id'', JString ''x_channel''), (''enabled'', JBool enabled)])"
  "json_string (get_object_item (Some (JObject [(''kind'', JString ''channel''), (''plugin_id'', JString ''x_channel''), (''enabled'', JBool enabled)])) ''kind'') =
     Some ''channel''"
  "json_string (get_object_item (Some (JObject [(''kind'', JString ''channel''), (''plugin_id'', JString ''x_channel''), (''enabled'', JBool enabled)])) ''plugin_id'') =
     Some ''x_channel''"
  "json_bool (get_object_item (Some (JObject [(''kind'', JString ''channel''), (''plugin_id'', JString ''x_channel''), (''enabled'', JBool enabled)])) ''enabled'') =
     Some enabled"
  "strstr ''x_channel'' ''_channel'' \<noteq> None" "config_get_plugin_config ''x_channel'' (cf_plugins (wu_cfg (switch_web m channels))) \<noteq> None"
  by (simp_all add: switch_env_def get_object_item_def json_defs strcaseeq_def ctype_defs starts_with_def switch_web_def webui_init_def
      config_get_plugin_config_def)

theorem enabled_channel_not_started_witness:
  "\<exists>new. wu_channels (fst (snd (handle_control_plugin_enable (\<lambda>_. Some channel_object) (\<lambda>_. True) (switch_env True) demo_poll
             (switch_web (plugin_manager_new []) []) skill_disk))) =
           wu_channels (switch_web (plugin_manager_new []) []) @ new \<and> started new = []"
proof (rule enabled_channel_not_started [OF _ _ switch_request])
  show "wu_plugin_mgr (switch_web (plugin_manager_new []) []) = Some (plugin_manager_new [])" by (simp add: switch_web_def webui_init_def)
  show "refs_ok (switch_web (plugin_manager_new []) [])" by (simp add: refs_ok_def switch_web_def webui_init_def)
  show "handle_control_plugin_enable (\<lambda>_. Some channel_object) (\<lambda>_. True) (switch_env True) demo_poll (switch_web (plugin_manager_new []) []) skill_disk =
      (fst (handle_control_plugin_enable (\<lambda>_. Some channel_object) (\<lambda>_. True) (switch_env True) demo_poll (switch_web (plugin_manager_new []) []) skill_disk),
       fst (snd (handle_control_plugin_enable (\<lambda>_. Some channel_object) (\<lambda>_. True) (switch_env True) demo_poll (switch_web (plugin_manager_new []) []) skill_disk)),
       snd (snd (handle_control_plugin_enable (\<lambda>_. Some channel_object) (\<lambda>_. True) (switch_env True) demo_poll (switch_web (plugin_manager_new []) []) skill_disk)))"
    by (simp only: prod.collapse)
qed

definition loaded_manager :: PluginManager where
  "loaded_manager = snd (plugin_manager_load_plugin (Some channel_object) ''/p/x_channel.so'' (plugin_manager_new []))"

definition x_channel :: Channel where
  "x_channel = \<lparr>ch_name = ''x'', ch_plugin_ref = None, ch_code = Some 0, ch_started = True\<rparr>"

lemma loaded_x:
  "plugin_manager_get_loaded_plugin ''x_channel'' loaded_manager =
     Some \<lparr>pl_addr = 1, pl_path = ''/p/x_channel.so'', pl_name = ''X'', pl_id = ''x_channel'', pl_type = PLUGIN_CHANNEL, pl_handle = Some 0,
           pl_cleanup = None\<rparr>"
  by (simp add: loaded_manager_def plugin_manager_get_loaded_plugin_def plugin_manager_load_plugin_def load_plugin_from_file_def dlopen_def
      channel_object_def plugin_manager_new_def run_init_def register_one_def Let_def)

theorem disabled_channel_breaks_sending_witness:
  "dispatch_outbound
     (the (wu_plugin_mgr (fst (snd (handle_control_plugin_enable (\<lambda>_. None) (\<lambda>_. False) (switch_env False) demo_poll
        (switch_web loaded_manager [Some x_channel]) skill_disk)))))
     (wu_channels (fst (snd (handle_control_plugin_enable (\<lambda>_. None) (\<lambda>_. False) (switch_env False) demo_poll
        (switch_web loaded_manager [Some x_channel]) skill_disk))))
     (ch_name x_channel) = None"
proof (rule disabled_channel_breaks_sending [OF _ switch_request loaded_x])
  show "wu_plugin_mgr (switch_web loaded_manager [Some x_channel]) = Some loaded_manager" by (simp add: switch_web_def webui_init_def)
  show "Some x_channel \<in> set (wu_channels (switch_web loaded_manager [Some x_channel]))" by (simp add: switch_web_def webui_init_def)
  show "ch_code x_channel = Some 0" by (simp add: x_channel_def)
  show "handle_control_plugin_enable (\<lambda>_. None) (\<lambda>_. False) (switch_env False) demo_poll (switch_web loaded_manager [Some x_channel]) skill_disk =
      (fst (handle_control_plugin_enable (\<lambda>_. None) (\<lambda>_. False) (switch_env False) demo_poll (switch_web loaded_manager [Some x_channel]) skill_disk),
       fst (snd (handle_control_plugin_enable (\<lambda>_. None) (\<lambda>_. False) (switch_env False) demo_poll (switch_web loaded_manager [Some x_channel]) skill_disk)),
       snd (snd (handle_control_plugin_enable (\<lambda>_. None) (\<lambda>_. False) (switch_env False) demo_poll (switch_web loaded_manager [Some x_channel]) skill_disk)))"
    by (simp only: prod.collapse)
qed simp_all

end
