(* ===== verification/Spec2Isabelle.thy ===== *)
theory Spec2Isabelle
  imports Utils Bus Cron ToolValidation Reminder AgentRun CommandDispatcher ToolExecutor Memory Heartbeat Subagent FeishuWs
    BuiltinTools McpWebSocket LlmProvider OpenAiAsync Anthropic ContextBuilder PluginManager Config AcpServer FeishuChannel ChatBots MqttChannel WebUiAdmin
begin

text \<open>
  Primagen, an agent runtime in C: a shallow embedding of its core and the theorems about it.

  The program. Channels put inbound messages into the message bus. The agent loop takes them, keeps
  one task per session, asks a language model, lets a tool executor run the tools that the model asks for, and
  puts the replies into the outbound queue. Sessions are kept in a hash table and in journal files. A
  cron service sends messages at given times; the reminder parser turns a request for a reminder into a
  cron job when the model did not.

  The theories, in the order in which they build on each other (paths are below \<open>src/\<close>):

  \<^item> \<open>Prelude\<close>, \<open>CLib\<close>: limits of the C types, loops over linked lists, buffers of fixed size (\<open>c_trunc\<close>), the
    functions of the C library that the code uses (\<open>strtol\<close>, \<open>strtok\<close>, \<open>strstr\<close>, decimal output).
  \<^item> \<open>Common\<close>: \<open>common/common.c\<close>, strings and arrays with their capacity and their memory, errors.
  \<^item> \<open>Message\<close>: \<open>common/message.c\<close>. \<open>Utils\<close>: \<open>common/utils.c\<close>.
  \<^item> \<open>Ring\<close>, \<open>Bus\<close>: the queue interface as a locale and \<open>bus/message_bus.c\<close>, which interprets it.
  \<^item> \<open>Calendar\<close>, \<open>CronSchedule\<close>, \<open>Json\<close>, \<open>Cron\<close>: dates, the schedule language, and \<open>cron/cron.c\<close> with the
    job list as a list of nodes with addresses, so that stale pointers are visible.
  \<^item> \<open>Table\<close>, \<open>Session\<close>: the interface of keyed tables and \<open>session/session.c\<close>.
  \<^item> \<open>ToolRegistry\<close>, \<open>ToolValidation\<close>, \<open>ToolRouter\<close>: \<open>tools/tool.c\<close>, \<open>tools/tool_validation.c\<close>, \<open>agent/tool_router.c\<close>.
  \<^item> \<open>Reminder\<close>: \<open>agent/reminder_parser.c\<close> and \<open>agent/agent_common.h\<close>.
  \<^item> \<open>Orchestrator\<close>, \<open>AgentLoop\<close>, \<open>Commands\<close>, \<open>AgentRun\<close>: \<open>agent/session_orchestrator.c\<close>, \<open>agent/agent_loop.c\<close>, the slash commands
    of \<open>agent/command_dispatcher.c\<close> as operations on the loop, and
    the runs of the loop over messages and commands together with an environment that answers requests in any order.
  \<^item> \<open>CommandDispatcher\<close>: the theorems about single slash commands.
  \<^item> \<open>ToolExecutor\<close>: \<open>tools/tool_executor.c\<close>, the thread pool as a step relation over the request queue, and the
    context that a synchronous call shares with its callback.
  \<^item> \<open>Memory\<close>: \<open>memory/memory.c\<close>, with the sizes of the temporary buffers. \<open>Heartbeat\<close>: \<open>heartbeat/heartbeat.c\<close>.
  \<^item> \<open>Subagent\<close>: \<open>subagent/subagent.c\<close>, the task list, relaying, and the threads as a step relation with freed loops.
  \<^item> \<open>FileSystem\<close>: the file system of the operating system with symbolic links and path resolution. \<open>FileTools\<close>,
    \<open>BuiltinTools\<close>: \<open>tools/tools_impl.c\<close>, the workspace policy, the tools on files, the shell, messages, memory, subagents
    and jobs, and the reading of attachments in \<open>plugins/channels/feishu_channel/feishu_channel.c\<close>.
  \<^item> \<open>McpQueue\<close>, \<open>McpSse\<close>, \<open>McpStreamable\<close>, \<open>McpStdio\<close>, \<open>McpWebSocket\<close>, \<open>McpClient\<close>: \<open>plugins/tools/mcp_tools\<close>, the client of tool servers over
    its transports. A transport is what \<open>mcp_channel\<close>, a locale, asks of it; each transport of the program interprets it.
  \<^item> \<open>LineText\<close>: the lines of a buffer that fills piecewise, shared by the readers of event streams.
  \<^item> \<open>LlmProvider\<close>: \<open>providers/llm_provider.c\<close>, the registry of model providers. \<open>OpenAi\<close>, \<open>OpenAiAsync\<close>:
    \<open>providers/openai_provider.c\<close>, requests made of a session, answers and streamed answers, and the manager of the calls that do not wait
    as a step relation with freed contexts. \<open>Anthropic\<close>: \<open>plugins/llm/anthropic_provider/anthropic_provider.c\<close>, requests and answers in
    blocks of content.
  \<^item> \<open>Skills\<close>: \<open>skills/skills.c\<close>, the headers of skill files, their requirements, lists, loading and the summary for the model.
    \<open>ContextBuilder\<close>: \<open>context/context_builder.c\<close>, the system prompt with its caches, over \<open>Memory\<close> and \<open>Skills\<close>.
  \<^item> \<open>PluginManager\<close>: \<open>plugin/plugin_manager.c\<close>, plugins as shared objects with handles, so that calls into unmapped code are visible.
  \<^item> \<open>FeishuFrame\<close>, \<open>FeishuWs\<close>: \<open>plugins/channels/feishu_channel/feishu_ws.c\<close>, the frame codec on 64-bit words, and the
    connection that assembles split messages and drops duplicate events. \<open>DingTalkWs\<close>:
    \<open>plugins/channels/dingtalk_channel/dingtalk_ws.c\<close>, whose frame codec is a copy of the first, and whose loop may use a freed connection.
  \<^item> \<open>HttpClient\<close>, \<open>DingTalkChannel\<close>, \<open>FeishuChannel\<close>: \<open>dingtalk_channel.c\<close> and \<open>feishu_channel.c\<close>. The first is the blocking HTTP client that both have a
    copy of: what its loops wait for, when they return, and a locale for clients each of whose operations may send only
    certain requests, which the channels interpret. The others are the tokens, the ways of a reply, uploads, retries, and the receive loops with their counts of failures. A loop without a limit is a
    partial function; its theorems say exactly when it returns.
  \<^item> \<open>ChatBots\<close>: \<open>telegram_channel.c\<close>, \<open>slack_channel.c\<close>, \<open>discord_channel.c\<close> over the same client, and \<open>src/channels/console.c\<close>: each update of
    Telegram reaches the bus once however the service divides them, the requests stay at their vendors, and the lines of the console arrive in order.
  \<^item> \<open>MqttChannel\<close>: \<open>mqtt_channel.c\<close>, its thread as a step relation over the events of the library, with an invariant rule as a locale that two invariants
    interpret.
  \<^item> \<open>Config\<close>: \<open>config/config.c\<close>, the configuration from a file and the environment, and the saved file.
  \<^item> \<open>AcpServer\<close>: \<open>plugins/channels/acp_channel\<close>, the HTTP server for other agents and the client that polls it for replies.
  \<^item> \<open>WebUi\<close>, \<open>WebUiFiles\<close>, \<open>WebUiAdmin\<close>: \<open>plugins/channels/webui_channel\<close>, the web interface: the chat with replies that wait for
    clients and clients that wait for replies; uploads, skills and lists of files; settings, plugins, the routes, and the thread of
    \<open>src/main.c\<close> that hands outbound messages to the channels.

  Conventions. A C structure is a record, a character array of fixed size a text that is cut where the code copies into
  it, a pointer that may be NULL an option. An operation that may run out of memory takes a flag
  that says whether the allocation succeeds. An operation that holds a mutex is one step. The JSON library, which
  is third-party code, is a pair of parameters, a parser and a printer; what the code relies on is
  stated as hypotheses where it is used.

  What is shown. The queues of the bus are FIFO queues and lose nothing; the session table is a map;
  saving keeps the journal file in step with the session and loading reads it back; the context that
  the model is shown never separates a tool result from its call; cron schedules give the least later
  matching time and a worker pass treats every due job exactly once; validated tool arguments conform to
  their schema; in every state of the agent loop that is reachable by messages, slash commands and answers, while memory is
  available, each task waits for exactly the answers that are under way, no task is stuck, and runs end after at most the configured number of model
  calls. The exception is a slash command that starts a skill for a session that has a task, or a new task with the id of an active one: the code tests neither,
  and \<open>CommandDispatcher\<close> shows that these, and only these, break it. The tool executor answers every submission exactly once and its
  shutdown ends; a synchronous call frees its context once and never writes to a caller that has gone. Facts stay in
  memory and files read back what was saved. The counter of subagents is the length of their list, and the
  list is that of the tasks under way as long as the random ids differ. Encoded frames are
  parsed back, and split messages are delivered complete and once. With the workspace policy the tools read, edit and attach only
  what lies inside the workspace after all links are resolved, and write only to names in it. Messages of tool servers, on their stream and in the replies to requests, reach the client once and in order
  however the stream is cut, and everything the client sends is a well-formed request with an id of its own. Every request to the
  model is answered once. Whatever configuration is loaded, it is well-formed. The prompt shows the memory as it is. Several theorems show where the code does not do
  what it means to: they are named in the claims.

  Bounds. Path resolution follows at most 40 links, as the system does. Loops that may not end are \<open>partial_function (option)\<close> (the worker pass of cron, the parser of frames) and the
  theorems show that they return or when they do not; the other loops are structural or have a measure. The cron search looks
  at one year of minutes, as the code does.

  Not modelled: memory release of whole components, threads inside an operation (an operation is
  atomic where it holds its mutex), a file system that changes while a tool runs, what a shell command does, the connections of the Anthropic provider (they repeat those of OpenAI), the walk over the plugin directory, the
  web tools, the email channel, whose operations are empty, and the other parts under \<open>plugins/\<close> that are not named above, the vendored libraries, the log,
  start-up and the command line.
\<close>

end
